(* ===== verification/Prelude.thy ===== *)
theory Prelude
  imports Main "HOL-Library.Word"
begin

text \<open>
  Shared vocabulary of the development: the machine integers of the C++ sources, shared
  pointers with identity, reachability and labelled runs of step relations, the interface of
  a component whose steps keep an invariant, and the arithmetic of a ring buffer.
\<close>

section \<open>Machine integers\<close>

type_synonym u8 = "8 word"
type_synonym u16 = "16 word"
type_synonym u32 = "32 word"
type_synonym u64 = "64 word"

text \<open>\<open>std::numeric_limits<std::uint64_t>::max()\<close>.\<close>

definition u64_max :: u64 where
  "u64_max = 18446744073709551615"

lemma u64_max_eq: "u64_max = - 1"
  by (simp add: u64_max_def)

lemma unat_u64_max: "unat u64_max = 18446744073709551615"
  by (simp add: u64_max_def)

lemma unat_Suc_u64:
  assumes "(w :: u64) \<noteq> u64_max"
  shows "unat (w + 1) = Suc (unat w)"
proof -
  have "1 + w \<noteq> 0"
    using assms by (metis add_diff_cancel_left' diff_0 u64_max_eq)
  then have "unat (1 + w) = Suc (unat w)"
    by (rule unatSuc)
  then show ?thesis
    by (simp add: add.commute)
qed

lemma less_Suc_u64: "(w :: u64) \<noteq> u64_max \<Longrightarrow> w < w + 1"
  by (simp add: word_less_nat_alt unat_Suc_u64)

lemma unat_max_u64: "unat (max a b) = max (unat a) (unat (b :: u64))"
  by (simp add: max_def word_le_nat_alt)

section \<open>Shared pointers\<close>

text \<open>
  A \<open>std::shared_ptr<const T>\<close> is null or the address of a live object together with the
  (immutable) object. Equality of pointers compares addresses, never contents.
\<close>

datatype 'a shared_ptr = Null | Ptr (address: nat) (object: 'a)

fun ptr_eq :: "'a shared_ptr \<Rightarrow> 'a shared_ptr \<Rightarrow> bool" where
  "ptr_eq Null Null = True"
| "ptr_eq (Ptr a x) (Ptr b y) = (a = b)"
| "ptr_eq p q = False"

lemma ptr_eq_refl [simp]: "ptr_eq p p"
  by (cases p) simp_all

lemma ptr_eq_Null [simp]:
  "ptr_eq p Null = (p = Null)"
  "ptr_eq Null p = (p = Null)"
  by (cases p; simp)+

section \<open>Step relations\<close>

text \<open>
  Every public operation of a component runs under the component's mutex, so an execution
  of a component is a sequence of atomic steps. \<open>reachable\<close> is the set of states some
  sequence of steps leads to; \<open>run\<close> also records the labels of the steps.
\<close>

inductive reachable :: "('s \<Rightarrow> bool) \<Rightarrow> ('s \<Rightarrow> 's \<Rightarrow> bool) \<Rightarrow> 's \<Rightarrow> bool"
  for init :: "'s \<Rightarrow> bool" and step :: "'s \<Rightarrow> 's \<Rightarrow> bool" where
  reach_init: "init s \<Longrightarrow> reachable init step s"
| reach_step: "reachable init step s \<Longrightarrow> step s t \<Longrightarrow> reachable init step t"

inductive run :: "('s \<Rightarrow> 'l \<Rightarrow> 's \<Rightarrow> bool) \<Rightarrow> 's \<Rightarrow> 'l list \<Rightarrow> 's \<Rightarrow> bool"
  for step :: "'s \<Rightarrow> 'l \<Rightarrow> 's \<Rightarrow> bool" where
  run_Nil: "run step s [] s"
| run_Cons: "step s l t \<Longrightarrow> run step t ls u \<Longrightarrow> run step s (l # ls) u"

inductive_cases run_NilE [elim!]: "run step s [] t"
inductive_cases run_ConsE [elim!]: "run step s (l # ls) t"

lemma run_single: "step s l t \<Longrightarrow> run step s [l] t"
  by (auto intro: run.intros)

lemma run_snoc: "run step s ls t \<Longrightarrow> step t l u \<Longrightarrow> run step s (ls @ [l]) u"
  by (induction rule: run.induct) (auto intro: run.intros)

text \<open>
  The interface of a component with an invariant: its initial states satisfy it and every
  step keeps it. The client fact is that every reachable state satisfies it.
\<close>

locale invariant_system =
  fixes init :: "'s \<Rightarrow> bool" and step :: "'s \<Rightarrow> 's \<Rightarrow> bool" and inv :: "'s \<Rightarrow> bool"
  assumes inv_init: "init s \<Longrightarrow> inv s"
    and inv_step: "inv s \<Longrightarrow> step s t \<Longrightarrow> inv t"
begin

lemma inv_reachable: "reachable init step s \<Longrightarrow> inv s"
  by (induction rule: reachable.induct) (auto intro: inv_init inv_step)

end

section \<open>Ring buffers\<close>

text \<open>
  Both subscriber channels keep a fixed vector, the index of its front and a size. The
  contents are the \<open>size\<close> slots from the front on, modulo the capacity.
\<close>

definition ring_contents :: "'a list \<Rightarrow> nat \<Rightarrow> nat \<Rightarrow> 'a list" where
  "ring_contents ring h n = map (\<lambda>i. ring ! ((h + i) mod length ring)) [0..<n]"

lemma length_ring_contents [simp]: "length (ring_contents r h n) = n"
  by (simp add: ring_contents_def)

lemma nth_ring_contents [simp]: "i < n \<Longrightarrow> ring_contents r h n ! i = r ! ((h + i) mod length r)"
  by (simp add: ring_contents_def)

lemma ring_contents_0 [simp]: "ring_contents r h 0 = []"
  by (simp add: ring_contents_def)

lemma ring_contents_eq_Nil [simp]: "ring_contents r h n = [] \<longleftrightarrow> n = 0"
  by (simp add: ring_contents_def)

lemma ring_offset_inj:
  assumes "i < n" and "j < n" and "(h + i) mod n = (h + j) mod (n :: nat)"
  shows "i = j"
proof -
  have "i mod n = j mod n" if "i \<le> j"
    using assms(3) that by (metis add_left_cancel le_add_diff_inverse mod_add_cong mod_eq_dvd_iff_nat
        nat_add_left_cancel_le diff_add_inverse add_diff_cancel_left)
  moreover have "i mod n = j mod n" if "j \<le> i"
    using assms(3) that by (metis add_left_cancel le_add_diff_inverse mod_add_cong mod_eq_dvd_iff_nat
        nat_add_left_cancel_le diff_add_inverse add_diff_cancel_left)
  ultimately show ?thesis
    using assms(1,2) nat_le_linear by auto
qed

lemma ring_contents_push:
  assumes "h < length r" and "n < length r"
  shows "ring_contents (r[(h + n) mod length r := x]) h (Suc n) = ring_contents r h n @ [x]"
proof (rule nth_equalityI)
  fix i assume "i < length (ring_contents (r[(h + n) mod length r := x]) h (Suc n))"
  then have i: "i < Suc n" by simp
  show "ring_contents (r[(h + n) mod length r := x]) h (Suc n) ! i = (ring_contents r h n @ [x]) ! i"
  proof (cases "i = n")
    case True
    moreover from assms have "(h + n) mod length r < length r" by (intro mod_less_divisor) linarith
    ultimately show ?thesis by (simp add: nth_append)
  next
    case False
    with i have "i < n" by simp
    moreover have "(h + i) mod length r \<noteq> (h + n) mod length r"
      using ring_offset_inj [of i "length r" n h] False \<open>i < n\<close> assms by auto
    ultimately show ?thesis using i by (simp add: nth_append)
  qed
qed simp

lemma ring_contents_pop:
  assumes "h < length r" and "0 < n" and "n \<le> length r"
  shows "ring_contents (r[h := z]) ((h + 1) mod length r) (n - 1) = tl (ring_contents r h n)"
proof (rule nth_equalityI)
  fix i assume "i < length (ring_contents (r[h := z]) ((h + 1) mod length r) (n - 1))"
  then have i: "i < n - 1" by simp
  have idx: "((h + 1) mod length r + i) mod length r = (h + Suc i) mod length r"
    by (simp add: mod_simps)
  have bnd: "Suc i < length r" "0 < length r" "Suc i \<noteq> 0"
    using i assms by linarith+
  have "(h + Suc i) mod length r \<noteq> (h + 0) mod length r"
    using ring_offset_inj [of "Suc i" "length r" 0 h] bnd by blast
  then have "(h + Suc i) mod length r \<noteq> h"
    using assms(1) by simp
  then show "ring_contents (r[h := z]) ((h + 1) mod length r) (n - 1) ! i
      = tl (ring_contents r h n) ! i"
    using i idx by (simp add: nth_tl)
qed simp

lemma ring_contents_hd:
  assumes "h < length r" and "0 < n"
  shows "hd (ring_contents r h n) = r ! h"
  using assms by (simp add: hd_conv_nth)

end
