(* ===== verification/Wire.thy ===== *)
theory Wire
  imports Prelude
begin

text \<open>
  The data of the wire contracts. The message classes themselves are generated from the
  Contracts repository and are not part of the sources; a record here holds the fields the
  gateway sources write or read, with an optional field for every proto3 field that has
  presence. An enumeration holds the enumerators the sources name and one constructor for
  any other value of the open protobuf enumeration.
\<close>

datatype wire_venue = VENUE_UNSPECIFIED | VENUE_BINANCE | VENUE_OTHER nat

datatype wire_market =
    MARKET_UNSPECIFIED | MARKET_SPOT | MARKET_USD_M_PERPETUAL | MARKET_OTHER nat

datatype wire_stream =
    STREAM_UNSPECIFIED | STREAM_DIFF_DEPTH | STREAM_AGG_TRADE | STREAM_BOOK_TICKER
  | STREAM_OTHER nat

datatype consumer_gap_reason =
    CONSUMER_GAP_REASON_UNSPECIFIED
  | CONSUMER_GAP_REASON_SLOW_CONSUMER
  | CONSUMER_GAP_REASON_UPSTREAM_SEQUENCE_GAP
  | CONSUMER_GAP_REASON_RESUME_NOT_AVAILABLE
  | CONSUMER_GAP_REASON_CONNECTION_GENERATION_CHANGED
  | CONSUMER_GAP_REASON_OTHER nat

datatype recovery_action =
    RECOVERY_ACTION_UNSPECIFIED
  | RECOVERY_ACTION_RESUBSCRIBE
  | RECOVERY_ACTION_REQUEST_NEW_SNAPSHOT
  | RECOVERY_ACTION_OTHER nat

record event_metadata =
  md_venue :: wire_venue
  md_market :: wire_market
  md_symbol :: string
  md_producer :: string
  md_producer_version :: string
  md_connection_id :: string
  md_stream :: wire_stream
  md_schema_version :: string
  md_exchange_event_time_ms :: "u64 option"
  md_exchange_trade_time_ms :: "u64 option"
  md_exchange_transaction_time_ms :: "u64 option"
  md_receive_time_utc_ns :: "u64 option"
  md_receive_monotonic_ns :: "u64 option"

record price_level =
  pl_price :: string
  pl_quantity :: string

record depth_update =
  du_metadata :: event_metadata
  du_first_update_id :: u64
  du_final_update_id :: u64
  du_previous_final_update_id :: "u64 option"
  du_bids :: "price_level list"
  du_asks :: "price_level list"

record agg_trade =
  at_metadata :: event_metadata
  at_aggregate_trade_id :: u64
  at_price :: string
  at_quantity :: string
  at_first_trade_id :: u64
  at_last_trade_id :: u64
  at_trade_time_ms :: u64
  at_buyer_is_maker :: bool

record book_ticker =
  bt_metadata :: event_metadata
  bt_update_id :: u64
  bt_best_bid_price :: string
  bt_best_bid_quantity :: string
  bt_best_ask_price :: string
  bt_best_ask_quantity :: string

record exchange_depth_snapshot =
  ds_venue :: wire_venue
  ds_market :: wire_market
  ds_symbol :: string
  ds_schema_version :: string
  ds_producer :: string
  ds_producer_version :: string
  ds_request_id :: string
  ds_last_update_id :: u64
  ds_exchange_transaction_time_ms :: "u64 option"
  ds_receive_time_utc_ns :: u64
  ds_receive_monotonic_ns :: u64
  ds_bids :: "price_level list"
  ds_asks :: "price_level list"

record subscription_accepted =
  sa_request_id :: string
  sa_subscription_id :: string
  sa_schema_version :: string
  sa_gateway_instance_id :: string
  sa_accepted_time_utc_ns :: u64
  sa_negotiated_payload_schema_versions :: "string list"

text \<open>\<open>std::variant<DepthUpdate, AggTrade, BookTicker>\<close> of \<open>src/src/g4/spot_protocol.hpp\<close>.\<close>

datatype normalized_market_event =
    EvDepthUpdate depth_update
  | EvAggTrade agg_trade
  | EvBookTicker book_ticker

text \<open>\<open>g3::ClockSample\<close> and \<open>g3::SourceProvenance\<close>.\<close>

record clock_sample =
  cs_utc_ns :: u64
  cs_monotonic_ns :: u64

record source_provenance =
  sp_connection_generation :: "u64 option"

text \<open>
  \<open>std::to_string\<close> of an unsigned integer: its decimal digits, most significant first.
\<close>

definition digit_char :: "nat \<Rightarrow> char" where
  "digit_char d = char_of (48 + d)"

fun nat_digits :: "nat \<Rightarrow> string" where
  "nat_digits n = (if n < 10 then [digit_char n]
                   else nat_digits (n div 10) @ [digit_char (n mod 10)])"

declare nat_digits.simps [simp del]

definition to_string_u64 :: "u64 \<Rightarrow> string" where
  "to_string_u64 w = nat_digits (unat w)"

text \<open>The value of a digit string, and that printing and reading agree.\<close>

definition is_digit :: "char \<Rightarrow> bool" where
  "is_digit c \<longleftrightarrow> 48 \<le> (of_char c :: nat) \<and> (of_char c :: nat) \<le> 57"

definition digit_val :: "char \<Rightarrow> nat" where
  "digit_val c = of_char c - 48"

definition digits_value :: "string \<Rightarrow> nat" where
  "digits_value s = foldl (\<lambda>v c. 10 * v + digit_val c) 0 s"

lemma digits_value_Nil [simp]: "digits_value [] = 0"
  by (simp add: digits_value_def)

lemma digits_value_snoc [simp]: "digits_value (s @ [c]) = 10 * digits_value s + digit_val c"
  by (simp add: digits_value_def)

lemma of_char_digit_char: "d < 10 \<Longrightarrow> (of_char (digit_char d) :: nat) = 48 + d"
  by (simp add: digit_char_def)

lemma is_digit_digit_char: "d < 10 \<Longrightarrow> is_digit (digit_char d)"
  by (simp add: is_digit_def of_char_digit_char)

lemma digit_val_digit_char: "d < 10 \<Longrightarrow> digit_val (digit_char d) = d"
  by (simp add: digit_val_def of_char_digit_char)

lemma nat_digits_nonempty: "nat_digits n \<noteq> []"
  by (subst nat_digits.simps) simp

lemma list_all_nat_digits: "list_all is_digit (nat_digits n)"
proof (induction n rule: nat_digits.induct)
  case (1 n)
  then show ?case
    by (subst nat_digits.simps) (auto simp: is_digit_digit_char)
qed

lemma digits_value_nat_digits [simp]: "digits_value (nat_digits n) = n"
proof (induction n rule: nat_digits.induct)
  case (1 n)
  show ?case
  proof (cases "n < 10")
    case True
    then have "nat_digits n = [] @ [digit_char n]" by (simp add: nat_digits.simps [of n])
    then show ?thesis using True by (simp only: digits_value_snoc digits_value_Nil digit_val_digit_char)
  next
    case False
    with 1 show ?thesis by (simp add: nat_digits.simps [of n] digit_val_digit_char)
  qed
qed

lemma nat_digits_inject [simp]: "nat_digits m = nat_digits n \<longleftrightarrow> m = n"
  by (metis digits_value_nat_digits)

lemma to_string_u64_inject [simp]: "to_string_u64 v = to_string_u64 w \<longleftrightarrow> v = w"
  by (simp add: to_string_u64_def word_unat_eq_iff)

end
