(* ===== verification/Egress.thy ===== *)
theory Egress
  imports Prelude
begin

text \<open>
  The contract of a subscriber egress channel, and the facts its clients use. An abstract
  channel holds the session sequence numbers that are queued, the number reserved for a
  terminal notice, the next number and a phase. \<open>egress_step\<close> lists what a channel may do;
  the label is the number the consumer acknowledged in that step. The order-book channel and
  the event channel both refine it, and both take the delivery theorem from here.
\<close>

datatype egress_phase = Flowing | Ending | Ended

record egress =
  eg_pending :: "nat list"
  eg_terminal :: "nat option"
  eg_next :: nat
  eg_phase :: egress_phase

inductive egress_step :: "egress \<Rightarrow> nat option \<Rightarrow> egress \<Rightarrow> bool" where
  eg_stutter: "egress_step e None e"
| eg_admit: "eg_phase e = Flowing \<Longrightarrow>
    egress_step e None (e\<lparr>eg_pending := eg_pending e @ [eg_next e], eg_next := Suc (eg_next e)\<rparr>)"
| eg_terminalize: "eg_phase e = Flowing \<Longrightarrow>
    egress_step e None (e\<lparr>eg_terminal := Some (eg_next e), eg_next := Suc (eg_next e),
      eg_phase := Ending\<rparr>)"
| eg_unavailable: "eg_phase e = Flowing \<Longrightarrow> egress_step e None (e\<lparr>eg_phase := Ending\<rparr>)"
| eg_deliver: "eg_phase e \<noteq> Ended \<Longrightarrow> eg_pending e = n # ns \<Longrightarrow>
    egress_step e (Some n) (e\<lparr>eg_pending := ns\<rparr>)"
| eg_deliver_terminal: "eg_phase e = Ending \<Longrightarrow> eg_pending e = [] \<Longrightarrow> eg_terminal e = Some n \<Longrightarrow>
    eg_phase e' = Ended \<Longrightarrow> egress_step e (Some n) e'"
| eg_close: "eg_phase e' = Ended \<Longrightarrow> egress_step e None e'"

text \<open>The numbers a sequence of labels delivered, in order.\<close>

definition delivered :: "nat option list \<Rightarrow> nat list" where
  "delivered ls = List.map_filter id ls"

lemma delivered_Nil [simp]: "delivered [] = []"
  by (simp add: delivered_def List.map_filter_def)

lemma delivered_snoc [simp]:
  "delivered (ls @ [None]) = delivered ls"
  "delivered (ls @ [Some n]) = delivered ls @ [n]"
  by (simp_all add: delivered_def List.map_filter_def)

text \<open>
  What was delivered so far and what is still queued are together the numbers from 1 on,
  without a hole; once the channel has ended nothing more is delivered.
\<close>

definition egress_inv :: "nat list \<Rightarrow> egress \<Rightarrow> bool" where
  "egress_inv ds e \<longleftrightarrow>
     (case eg_phase e of
        Flowing \<Rightarrow> eg_terminal e = None \<and> 1 \<le> eg_next e \<and> ds @ eg_pending e = [1..<eg_next e]
      | Ending \<Rightarrow> 1 \<le> eg_next e \<and> ds @ eg_pending e
           @ (case eg_terminal e of None \<Rightarrow> [] | Some n \<Rightarrow> [n]) = [1..<eg_next e]
      | Ended \<Rightarrow> ds = [1..<Suc (length ds)])"

lemma prefix_of_upt:
  assumes "xs @ ys = [1..<n]"
  shows "xs = [1..<Suc (length xs)]"
proof (cases "xs = []")
  case False
  have "length xs + length ys = n - 1"
    using assms by (metis length_append length_upt)
  moreover have "0 < length xs" using False by simp
  ultimately have "1 + length xs \<le> n" by linarith
  moreover have "xs = take (length xs) [1..<n]"
    by (metis append_eq_conv_conj assms)
  ultimately show ?thesis
    by (metis plus_1_eq_Suc take_upt)
qed simp

lemma egress_inv_prefix: "egress_inv ds e \<Longrightarrow> ds = [1..<Suc (length ds)]"
  by (cases "eg_phase e")
    (auto simp: egress_inv_def simp del: upt_Suc One_nat_def intro: prefix_of_upt)

lemma egress_inv_step:
  assumes "egress_inv (delivered ls) e" and "egress_step e l e'"
  shows "egress_inv (delivered (ls @ [l])) e'"
  using assms(2)
proof cases
  case eg_deliver
  with assms(1) show ?thesis
    by (cases "eg_phase e") (auto simp: egress_inv_def)
next
  case (eg_deliver_terminal n)
  with assms(1) have "delivered ls @ [n] = [1..<eg_next e]"
    by (simp add: egress_inv_def)
  with prefix_of_upt [of "delivered ls @ [n]" "[]"] eg_deliver_terminal show ?thesis
    by (simp add: egress_inv_def)
next
  case eg_close
  with egress_inv_prefix [OF assms(1)] show ?thesis
    by (simp add: egress_inv_def)
qed (use assms(1) in \<open>auto simp: egress_inv_def\<close>)

lemma egress_ended_silent:
  assumes "egress_step e l e'" and "eg_phase e = Ended"
  shows "l = None \<and> eg_phase e' = Ended"
  using assms by cases auto

text \<open>
  The interface between a concrete channel and this contract: a well-formedness invariant
  and an abstraction under which every concrete step is an abstract one.
\<close>

locale egress_channel =
  fixes cstep :: "'c \<Rightarrow> nat option \<Rightarrow> 'c \<Rightarrow> bool"
    and wf :: "'c \<Rightarrow> bool"
    and abs :: "'c \<Rightarrow> egress"
  assumes simulation: "wf c \<Longrightarrow> cstep c l c' \<Longrightarrow> wf c' \<and> egress_step (abs c) l (abs c')"
begin

lemma run_wf: "run cstep c ls c' \<Longrightarrow> wf c \<Longrightarrow> wf c'"
  by (induction rule: run.induct) (auto dest: simulation)

lemma run_inv:
  assumes "run cstep c ls c'" and "wf c" and "egress_inv (delivered ks) (abs c)"
  shows "egress_inv (delivered (ks @ ls)) (abs c')"
  using assms
proof (induction arbitrary: ks rule: run.induct)
  case (run_Nil s)
  then show ?case by simp
next
  case (run_Cons s l t ls u)
  then have "wf t" and "egress_step (abs s) l (abs t)"
    using simulation by blast+
  with run_Cons.prems egress_inv_step have "egress_inv (delivered (ks @ [l])) (abs t)"
    by blast
  with run_Cons.IH [OF \<open>wf t\<close>] show ?case
    by (metis append.assoc append_Cons append_Nil)
qed

lemma run_ended_silent:
  assumes "run cstep c ls c'" and "wf c" and "eg_phase (abs c) = Ended"
  shows "delivered ls = [] \<and> eg_phase (abs c') = Ended"
  using assms
proof (induction rule: run.induct)
  case (run_Cons s l t ls u)
  then have "wf t" "l = None" "eg_phase (abs t) = Ended"
    using simulation egress_ended_silent by blast+
  with run_Cons.IH show ?case
    by (simp add: delivered_def List.map_filter_def)
qed simp

lemma delivery_contiguous:
  assumes "run cstep c ls c'" and "wf c" and "egress_inv [] (abs c)"
  shows "delivered ls = [1..<Suc (length (delivered ls))]"
  using run_inv [OF assms(1,2), of "[]"] assms(3) egress_inv_prefix by simp

end

end
