(* ===== verification/RingFifo.thy ===== *)
theory RingFifo
  imports Prelude
begin

text \<open>
  The interface the two subscriber channels rely on from their ring: pushing appends to the
  contents or reports that the ring is full, popping drops the front, and the ring never
  holds more than its capacity. The client facts are that a batch that fits is admitted
  whole, and that draining returns what was pushed in the order it was pushed.
\<close>

locale ring_fifo =
  fixes push :: "'p \<Rightarrow> 'c \<Rightarrow> bool \<times> 'c"
    and pop :: "'c \<Rightarrow> 'c"
    and front :: "'c \<Rightarrow> 'p"
    and contents :: "'c \<Rightarrow> 'p list"
    and capacity :: "'c \<Rightarrow> nat"
    and shape :: "'c \<Rightarrow> bool"
    and live :: "'p \<Rightarrow> bool"
  assumes push_full: "shape c \<Longrightarrow> length (contents c) = capacity c \<or> \<not> live p \<Longrightarrow> push p c = (False, c)"
    and push_fits: "shape c \<Longrightarrow> live p \<Longrightarrow> length (contents c) < capacity c \<Longrightarrow>
      fst (push p c) \<and> shape (snd (push p c)) \<and> contents (snd (push p c)) = contents c @ [p]
        \<and> capacity (snd (push p c)) = capacity c"
    and pop_front: "shape c \<Longrightarrow> contents c \<noteq> [] \<Longrightarrow>
      shape (pop c) \<and> contents (pop c) = tl (contents c) \<and> capacity (pop c) = capacity c"
    and front_hd: "shape c \<Longrightarrow> contents c \<noteq> [] \<Longrightarrow> front c = hd (contents c)"
    and bounded: "shape c \<Longrightarrow> length (contents c) \<le> capacity c"
begin

primrec push_all :: "'p list \<Rightarrow> 'c \<Rightarrow> bool \<times> 'c" where
  "push_all [] c = (True, c)"
| "push_all (p # ps) c =
     (case push p c of (ok, c') \<Rightarrow> if ok then push_all ps c' else (False, c'))"

primrec drain :: "nat \<Rightarrow> 'c \<Rightarrow> 'p list \<times> 'c" where
  "drain 0 c = ([], c)"
| "drain (Suc n) c = (case drain n (pop c) of (ps, c') \<Rightarrow> (front c # ps, c'))"

lemma push_all_fits:
  "shape c \<Longrightarrow> list_all live ps \<Longrightarrow> length (contents c) + length ps \<le> capacity c \<Longrightarrow>
   fst (push_all ps c) \<and> shape (snd (push_all ps c))
     \<and> contents (snd (push_all ps c)) = contents c @ ps"
proof (induction ps arbitrary: c)
  case (Cons p ps)
  then have "fst (push p c)" "shape (snd (push p c))"
      "contents (snd (push p c)) = contents c @ [p]" "capacity (snd (push p c)) = capacity c"
    using push_fits [of c p] by auto
  moreover obtain ok c' where "push p c = (ok, c')" by (cases "push p c")
  ultimately show ?case
    using Cons.IH [of c'] Cons.prems by simp
qed simp

lemma drain_contents:
  "shape c \<Longrightarrow> n \<le> length (contents c) \<Longrightarrow>
   fst (drain n c) = take n (contents c) \<and> contents (snd (drain n c)) = drop n (contents c)"
proof (induction n arbitrary: c)
  case (Suc n)
  then have ne: "contents c \<noteq> []" by auto
  with Suc.prems have "shape (pop c)" "contents (pop c) = tl (contents c)"
    using pop_front by auto
  then have "fst (drain n (pop c)) = take n (tl (contents c))"
      "contents (snd (drain n (pop c))) = drop n (tl (contents c))"
    using Suc.IH [of "pop c"] Suc.prems by auto
  with Suc.prems ne front_hd [of c] show ?case
    by (auto simp: take_Suc drop_Suc split: prod.splits)
qed simp

lemma fifo_order:
  assumes "shape c" and "contents c = []" and "list_all live ps" and "length ps \<le> capacity c"
  shows "fst (drain (length ps) (snd (push_all ps c))) = ps"
  using push_all_fits [of c ps] drain_contents [of "snd (push_all ps c)" "length ps"] assms
  by simp

end

end
