(* ===== verification/OrderBookChannel.thy ===== *)
theory OrderBookChannel
  imports Wire Egress RingFifo
begin

text \<open>
  The order-book subscriber channel of \<open>src/src/g7/order_book_publication.{hpp,cpp}\<close>: one
  fixed-capacity ring of publication records with one producer (the runtime owner) and one
  consumer (the RPC handler), and a separate slot for one terminal notice. Every member
  function runs under the channel's mutex and is one function of the state here. The build
  without \<open>BMD_GATEWAY_PERFORMANCE_BASELINE_ENABLED\<close> is modelled.

  An allocation (\<open>std::make_shared\<close>) is an argument: \<open>Some a\<close> gives the address of the new
  object, \<open>None\<close> is \<open>std::bad_alloc\<close>.
\<close>

section \<open>Data\<close>

record publication_limits =
  pl_maximum_active_subscriptions :: nat
  pl_ordinary_queue_capacity :: nat
  pl_pending_admission_capacity :: nat

definition default_publication_limits :: publication_limits where
  "default_publication_limits =
     \<lparr>pl_maximum_active_subscriptions = 8, pl_ordinary_queue_capacity = 64,
      pl_pending_admission_capacity = 8\<rparr>"

definition kSubscriptionAcceptedSchema :: string where
  "kSubscriptionAcceptedSchema = ''subscription-accepted.v1''"

definition kSnapshotSchema :: string where
  "kSnapshotSchema = ''local-order-book-snapshot.v1''"

definition kUpdateSchema :: string where
  "kUpdateSchema = ''depth-update.v1''"

record publication_time =
  pt_utc_ns :: u64
  pt_monotonic_ns :: "u64 option"

definition default_publication_time :: publication_time where
  "default_publication_time = \<lparr>pt_utc_ns = 0, pt_monotonic_ns = None\<rparr>"

record validated_order_book_subscription =
  vs_request_id :: string
  vs_gateway_instance_id :: string
  vs_depth_limit :: "int option"

datatype publication_payload_kind = KindSubscriptionAccepted | KindSnapshot | KindDepthUpdate

datatype 's ordinary_payload =
    PayloadAccepted subscription_accepted
  | PayloadSnapshot 's
  | PayloadUpdate "depth_update shared_ptr"

record 's publication_record =
  pr_session_sequence :: u64
  pr_connection_generation :: "u64 option"
  pr_published_at :: publication_time
  pr_payload :: "'s ordinary_payload"

fun kind :: "'s publication_record \<Rightarrow> publication_payload_kind" where
  "kind r = (case pr_payload r of
       PayloadAccepted _ \<Rightarrow> KindSubscriptionAccepted
     | PayloadSnapshot _ \<Rightarrow> KindSnapshot
     | PayloadUpdate _ \<Rightarrow> KindDepthUpdate)"

record terminal_descriptor =
  td_session_sequence :: u64
  td_connection_generation :: "u64 option"
  td_published_at :: publication_time
  td_reason :: consumer_gap_reason
  td_recovery_action :: recovery_action

datatype subscriber_state = SubActive | SubTerminalGap | SubClosed

datatype ordinary_admission_result =
    AdmAdmitted | AdmTerminalized | AdmInactive | AdmAllocationFailure

record 's peeked_publication =
  pk_ordinary :: "'s publication_record shared_ptr"
  pk_terminal :: "terminal_descriptor option"

datatype acknowledge_result = AckAcknowledged | AckClosed | AckMismatch

record 's channel =
  ch_subscription_id :: string
  ch_gateway_instance_id :: string
  ch_ordinary_capacity :: nat
  ch_ordinary_ring :: "'s publication_record shared_ptr list"
  ch_head :: nat
  ch_size :: nat
  ch_terminal :: "terminal_descriptor option"
  ch_state :: subscriber_state
  ch_next_session_sequence :: u64

section \<open>Operations\<close>

text \<open>The constructor; \<open>None\<close> is its \<open>std::invalid_argument\<close>.\<close>

definition make_channel :: "string \<Rightarrow> string \<Rightarrow> nat \<Rightarrow> 's channel option" where
  "make_channel subscription_id gateway_instance_id ordinary_capacity =
     (if ordinary_capacity = 0 then None
      else Some \<lparr>ch_subscription_id = subscription_id,
                 ch_gateway_instance_id = gateway_instance_id,
                 ch_ordinary_capacity = ordinary_capacity,
                 ch_ordinary_ring = replicate ordinary_capacity Null,
                 ch_head = 0, ch_size = 0, ch_terminal = None, ch_state = SubActive,
                 ch_next_session_sequence = 1\<rparr>)"

definition ring_push_locked ::
  "'s publication_record shared_ptr \<Rightarrow> 's channel \<Rightarrow> bool \<times> 's channel" where
  "ring_push_locked p c =
     (if ch_size c = ch_ordinary_capacity c \<or> p = Null then (False, c)
      else let tail = (ch_head c + ch_size c) mod ch_ordinary_capacity c
           in (True, c\<lparr>ch_ordinary_ring := (ch_ordinary_ring c)[tail := p],
                       ch_size := ch_size c + 1\<rparr>))"

definition ring_pop_locked :: "'s channel \<Rightarrow> 's channel" where
  "ring_pop_locked c =
     c\<lparr>ch_ordinary_ring := (ch_ordinary_ring c)[ch_head c := Null],
       ch_head := (ch_head c + 1) mod ch_ordinary_capacity c,
       ch_size := ch_size c - 1\<rparr>"

function clear_ring_locked :: "'s channel \<Rightarrow> 's channel" where
  "clear_ring_locked c =
     (if ch_size c \<noteq> 0 then clear_ring_locked (ring_pop_locked c) else c)"
  by pat_completeness auto
termination
  by (relation "measure ch_size") (auto simp: ring_pop_locked_def)

declare clear_ring_locked.simps [simp del]

definition clear_from_writer_locked :: "'s channel \<Rightarrow> 's channel" where
  "clear_from_writer_locked c = (clear_ring_locked c)\<lparr>ch_terminal := None\<rparr>"

definition stage_initial ::
  "'s publication_record shared_ptr \<Rightarrow> 's publication_record shared_ptr \<Rightarrow> 's channel
     \<Rightarrow> bool \<times> 's channel" where
  "stage_initial accepted snapshot c =
     (case (accepted, snapshot) of
        (Ptr _ a, Ptr _ s) \<Rightarrow>
          if pr_session_sequence a \<noteq> 1 \<or> pr_session_sequence s \<noteq> 2
             \<or> kind a \<noteq> KindSubscriptionAccepted \<or> kind s \<noteq> KindSnapshot
          then (False, c)
          else if ch_state c \<noteq> SubActive \<or> ch_size c \<noteq> 0 \<or> ch_ordinary_capacity c < 2
          then (False, c)
          else
            let (ok1, c1) = ring_push_locked accepted c;
                (ok2, c2) = (if ok1 then ring_push_locked snapshot c1 else (False, c1))
            in if \<not> ok1 \<or> \<not> ok2
               then (False, (clear_from_writer_locked c2)
                       \<lparr>ch_state := SubActive, ch_next_session_sequence := 1\<rparr>)
               else (True, c2\<lparr>ch_next_session_sequence := 3\<rparr>)
      | _ \<Rightarrow> (False, c))"

definition admit_update ::
  "nat option \<Rightarrow> depth_update shared_ptr \<Rightarrow> u64 option \<Rightarrow> publication_time \<Rightarrow> 's channel
     \<Rightarrow> ordinary_admission_result \<times> 's channel" where
  "admit_update alloc upd connection_generation published_at c =
     (if ch_state c \<noteq> SubActive then (AdmInactive, c)
      else if ch_size c = ch_ordinary_capacity c then
        (AdmTerminalized,
         c\<lparr>ch_terminal := Some
             \<lparr>td_session_sequence = ch_next_session_sequence c,
              td_connection_generation = None,
              td_published_at = published_at,
              td_reason = CONSUMER_GAP_REASON_SLOW_CONSUMER,
              td_recovery_action = RECOVERY_ACTION_RESUBSCRIBE\<rparr>,
           ch_next_session_sequence :=
             (if ch_next_session_sequence c \<noteq> u64_max then ch_next_session_sequence c + 1
              else ch_next_session_sequence c),
           ch_state := SubTerminalGap\<rparr>)
      else if ch_next_session_sequence c = u64_max then (AdmAllocationFailure, c)
      else case alloc of
        None \<Rightarrow> (AdmAllocationFailure, c)
      | Some a \<Rightarrow>
          let (ok, c') = ring_push_locked
                (Ptr a \<lparr>pr_session_sequence = ch_next_session_sequence c,
                        pr_connection_generation = connection_generation,
                        pr_published_at = published_at,
                        pr_payload = PayloadUpdate upd\<rparr>) c
          in if \<not> ok then (AdmAllocationFailure, c')
             else (AdmAdmitted,
                   c'\<lparr>ch_next_session_sequence := ch_next_session_sequence c' + 1\<rparr>))"

definition terminalize ::
  "consumer_gap_reason \<Rightarrow> recovery_action \<Rightarrow> u64 option \<Rightarrow> publication_time \<Rightarrow> 's channel
     \<Rightarrow> bool \<times> 's channel" where
  "terminalize reason action connection_generation published_at c =
     (if ch_state c \<noteq> SubActive \<or> ch_terminal c \<noteq> None then (False, c)
      else (True,
        c\<lparr>ch_terminal := Some
            \<lparr>td_session_sequence = ch_next_session_sequence c,
             td_connection_generation = connection_generation,
             td_published_at = published_at,
             td_reason = reason,
             td_recovery_action = action\<rparr>,
          ch_next_session_sequence :=
            (if ch_next_session_sequence c \<noteq> u64_max then ch_next_session_sequence c + 1
             else ch_next_session_sequence c),
          ch_state := SubTerminalGap\<rparr>))"

definition peek :: "'s channel \<Rightarrow> 's peeked_publication" where
  "peek c =
     (if ch_state c = SubClosed then \<lparr>pk_ordinary = Null, pk_terminal = None\<rparr>
      else if ch_size c \<noteq> 0
      then \<lparr>pk_ordinary = ch_ordinary_ring c ! ch_head c, pk_terminal = None\<rparr>
      else \<lparr>pk_ordinary = Null, pk_terminal = ch_terminal c\<rparr>)"

definition acknowledge ::
  "'s peeked_publication \<Rightarrow> 's channel \<Rightarrow> acknowledge_result \<times> 's channel" where
  "acknowledge p c =
     (if ch_state c = SubClosed then (AckClosed, c)
      else if pk_ordinary p \<noteq> Null then
        (if ch_size c = 0 \<or> \<not> ptr_eq (ch_ordinary_ring c ! ch_head c) (pk_ordinary p)
         then (AckMismatch, c)
         else (AckAcknowledged, ring_pop_locked c))
      else if pk_terminal p \<noteq> None \<and> ch_size c = 0 \<and> ch_terminal c \<noteq> None
              \<and> ch_terminal c = pk_terminal p
      then (AckClosed, c\<lparr>ch_terminal := None, ch_state := SubClosed\<rparr>)
      else (AckMismatch, c))"

text \<open>The predicate \<open>wait_for_change\<close> blocks on.\<close>

definition change_ready :: "'s channel \<Rightarrow> bool" where
  "change_ready c \<longleftrightarrow> ch_state c \<noteq> SubActive \<or> ch_size c \<noteq> 0"

definition close_from_owner :: "'s channel \<Rightarrow> 's channel" where
  "close_from_owner c = c\<lparr>ch_state := SubClosed\<rparr>"

definition close_from_writer :: "'s channel \<Rightarrow> 's channel" where
  "close_from_writer c = clear_from_writer_locked (c\<lparr>ch_state := SubClosed\<rparr>)"

definition terminal_reserved :: "'s channel \<Rightarrow> bool" where
  "terminal_reserved c \<longleftrightarrow> ch_terminal c \<noteq> None"

definition make_accepted_record ::
  "string \<Rightarrow> string \<Rightarrow> string \<Rightarrow> publication_time \<Rightarrow> 's publication_record" where
  "make_accepted_record request_id subscription_id gateway_instance_id published_at =
     \<lparr>pr_session_sequence = 1, pr_connection_generation = None,
      pr_published_at = published_at,
      pr_payload = PayloadAccepted
        \<lparr>sa_request_id = request_id, sa_subscription_id = subscription_id,
         sa_schema_version = kSubscriptionAcceptedSchema,
         sa_gateway_instance_id = gateway_instance_id,
         sa_accepted_time_utc_ns = pt_utc_ns published_at,
         sa_negotiated_payload_schema_versions = [kSnapshotSchema, kUpdateSchema]\<rparr>\<rparr>"

definition make_snapshot_record ::
  "'s \<Rightarrow> u64 option \<Rightarrow> publication_time \<Rightarrow> 's publication_record" where
  "make_snapshot_record snapshot connection_generation published_at =
     \<lparr>pr_session_sequence = 2, pr_connection_generation = connection_generation,
      pr_published_at = published_at, pr_payload = PayloadSnapshot snapshot\<rparr>"

section \<open>Well-formed channels and the ring interface\<close>

abbreviation channel_contents :: "'s channel \<Rightarrow> 's publication_record shared_ptr list" where
  "channel_contents c \<equiv> ring_contents (ch_ordinary_ring c) (ch_head c) (ch_size c)"

definition channel_shape :: "'s channel \<Rightarrow> bool" where
  "channel_shape c \<longleftrightarrow> length (ch_ordinary_ring c) = ch_ordinary_capacity c
     \<and> ch_head c < ch_ordinary_capacity c \<and> ch_size c \<le> ch_ordinary_capacity c"

lemma ring_push_locked_fits:
  assumes "channel_shape c" and "p \<noteq> Null" and "ch_size c < ch_ordinary_capacity c"
  shows "fst (ring_push_locked p c)"
    and "channel_shape (snd (ring_push_locked p c))"
    and "channel_contents (snd (ring_push_locked p c)) = channel_contents c @ [p]"
  using assms ring_contents_push [of "ch_head c" "ch_ordinary_ring c" "ch_size c" p]
  by (auto simp: ring_push_locked_def channel_shape_def Let_def)

lemma ring_pop_locked_front:
  assumes "channel_shape c" and "ch_size c \<noteq> 0"
  shows "channel_shape (ring_pop_locked c)"
    and "channel_contents (ring_pop_locked c) = tl (channel_contents c)"
  using assms ring_contents_pop [of "ch_head c" "ch_ordinary_ring c" "ch_size c" Null]
  by (auto simp: ring_pop_locked_def channel_shape_def)

interpretation ob: ring_fifo ring_push_locked ring_pop_locked
  "\<lambda>c. ch_ordinary_ring c ! ch_head c" channel_contents ch_ordinary_capacity channel_shape
  "\<lambda>p. p \<noteq> Null"
proof unfold_locales
  fix c :: "'s channel" and p :: "'s publication_record shared_ptr"
  assume c: "channel_shape c"
  show "ring_push_locked p c = (False, c)"
    if "length (channel_contents c) = ch_ordinary_capacity c \<or> \<not> p \<noteq> Null"
    using that by (auto simp: ring_push_locked_def)
  show "fst (ring_push_locked p c) \<and> channel_shape (snd (ring_push_locked p c))
      \<and> channel_contents (snd (ring_push_locked p c)) = channel_contents c @ [p]
      \<and> ch_ordinary_capacity (snd (ring_push_locked p c)) = ch_ordinary_capacity c"
    if "p \<noteq> Null" "length (channel_contents c) < ch_ordinary_capacity c"
    using that ring_push_locked_fits [OF c, of p]
    by (auto simp: ring_push_locked_def Let_def)
  show "channel_shape (ring_pop_locked c)
      \<and> channel_contents (ring_pop_locked c) = tl (channel_contents c)
      \<and> ch_ordinary_capacity (ring_pop_locked c) = ch_ordinary_capacity c"
    if "channel_contents c \<noteq> []"
    using that ring_pop_locked_front [OF c] by (auto simp: ring_pop_locked_def)
  show "ch_ordinary_ring c ! ch_head c = hd (channel_contents c)" if "channel_contents c \<noteq> []"
    using that c by (simp add: ring_contents_hd channel_shape_def)
  show "length (channel_contents c) \<le> ch_ordinary_capacity c"
    using c by (simp add: channel_shape_def)
qed

text \<open>
  A well-formed channel: the ring has its shape, every queued pointer is live, and the
  terminal slot agrees with the state.
\<close>

definition channel_wf :: "'s channel \<Rightarrow> bool" where
  "channel_wf c \<longleftrightarrow> channel_shape c \<and> Null \<notin> set (channel_contents c)
     \<and> (ch_state c = SubActive \<longrightarrow> ch_terminal c = None)
     \<and> (ch_state c = SubTerminalGap \<longrightarrow> ch_terminal c \<noteq> None)"

lemma channel_wf_shape [simp, intro]: "channel_wf c \<Longrightarrow> channel_shape c"
  by (simp add: channel_wf_def)

lemma clear_ring_locked_empty:
  assumes "channel_shape c"
  shows "channel_shape (clear_ring_locked c) \<and> ch_size (clear_ring_locked c) = 0
    \<and> ch_state (clear_ring_locked c) = ch_state c
    \<and> ch_ordinary_capacity (clear_ring_locked c) = ch_ordinary_capacity c
    \<and> ch_next_session_sequence (clear_ring_locked c) = ch_next_session_sequence c"
  using assms
proof (induction c rule: clear_ring_locked.induct)
  case (1 c)
  show ?case
  proof (cases "ch_size c = 0")
    case True
    with "1.prems" show ?thesis by (simp add: clear_ring_locked.simps [of c])
  next
    case False
    with 1 ring_pop_locked_front [of c] show ?thesis
      by (simp add: clear_ring_locked.simps [of c]) (simp add: ring_pop_locked_def)
  qed
qed

lemma make_channel_wf: "make_channel i g n = Some c \<Longrightarrow> channel_wf c"
  by (auto simp: make_channel_def channel_wf_def channel_shape_def split: if_splits)

lemma close_from_owner_wf: "channel_wf c \<Longrightarrow> channel_wf (close_from_owner c)"
  by (auto simp: close_from_owner_def channel_wf_def channel_shape_def)

lemma close_from_writer_wf: "channel_wf c \<Longrightarrow> channel_wf (close_from_writer c)"
  using clear_ring_locked_empty [of "c\<lparr>ch_state := SubClosed\<rparr>"]
  by (auto simp: close_from_writer_def clear_from_writer_locked_def channel_wf_def channel_shape_def)

lemma terminalize_wf: "channel_wf c \<Longrightarrow> channel_wf (snd (terminalize r a g t c))"
  by (auto simp: terminalize_def channel_wf_def channel_shape_def)

text \<open>A push of a live pointer, as the operations use it: on a channel that is not full.\<close>

lemma ring_push_locked_eq:
  assumes "channel_shape c" and "ch_size c < ch_ordinary_capacity c"
  obtains r where "ring_push_locked (Ptr a x) c
      = (True, c\<lparr>ch_ordinary_ring := r, ch_size := ch_size c + 1\<rparr>)"
    and "length r = ch_ordinary_capacity c"
    and "ring_contents r (ch_head c) (Suc (ch_size c)) = channel_contents c @ [Ptr a x]"
proof
  let ?r = "(ch_ordinary_ring c)
    [(ch_head c + ch_size c) mod ch_ordinary_capacity c := Ptr a x]"
  show "ring_push_locked (Ptr a x) c = (True, c\<lparr>ch_ordinary_ring := ?r, ch_size := ch_size c + 1\<rparr>)"
    using assms by (simp add: ring_push_locked_def Let_def)
  show "length ?r = ch_ordinary_capacity c"
    using assms by (simp add: channel_shape_def)
  show "ring_contents ?r (ch_head c) (Suc (ch_size c)) = channel_contents c @ [Ptr a x]"
    using assms ring_contents_push [of "ch_head c" "ch_ordinary_ring c" "ch_size c" "Ptr a x"]
    by (simp add: channel_shape_def)
qed

lemma admit_update_admits:
  assumes "channel_wf c" and "ch_state c = SubActive" and "ch_size c < ch_ordinary_capacity c"
    and "ch_next_session_sequence c \<noteq> u64_max"
  obtains r where
    "admit_update (Some a) u g t c
       = (AdmAdmitted, c\<lparr>ch_ordinary_ring := r, ch_size := ch_size c + 1,
            ch_next_session_sequence := ch_next_session_sequence c + 1\<rparr>)"
    and "length r = ch_ordinary_capacity c"
    and "ring_contents r (ch_head c) (Suc (ch_size c)) = channel_contents c
       @ [Ptr a \<lparr>pr_session_sequence = ch_next_session_sequence c, pr_connection_generation = g,
                pr_published_at = t, pr_payload = PayloadUpdate u\<rparr>]"
proof -
  let ?x = "\<lparr>pr_session_sequence = ch_next_session_sequence c, pr_connection_generation = g,
    pr_published_at = t, pr_payload = PayloadUpdate u\<rparr>"
  from assms obtain r where r: "ring_push_locked (Ptr a ?x) c
      = (True, c\<lparr>ch_ordinary_ring := r, ch_size := ch_size c + 1\<rparr>)"
    and rest: "length r = ch_ordinary_capacity c"
      "ring_contents r (ch_head c) (Suc (ch_size c)) = channel_contents c @ [Ptr a ?x]"
    using ring_push_locked_eq [of c a ?x] by auto
  from r assms have "admit_update (Some a) u g t c
       = (AdmAdmitted, c\<lparr>ch_ordinary_ring := r, ch_size := ch_size c + 1,
            ch_next_session_sequence := ch_next_session_sequence c + 1\<rparr>)"
    by (simp add: admit_update_def)
  with rest that show ?thesis by blast
qed

section \<open>The channel refines the egress contract\<close>

text \<open>
  Steps of a channel shared by the owner (admission, terminal notice, closure) and the RPC
  writer (acknowledgement of any publication it peeked earlier, closure), in any order. The
  label is the session sequence number whose delivery the step acknowledged.
\<close>

definition ack_label :: "'s peeked_publication \<Rightarrow> 's channel \<Rightarrow> nat option" where
  "ack_label p c =
     (if ch_state c = SubClosed then None
      else case fst (acknowledge p c) of
        AckAcknowledged \<Rightarrow>
          Some (unat (pr_session_sequence (object (ch_ordinary_ring c ! ch_head c))))
      | AckClosed \<Rightarrow> map_option (\<lambda>t. unat (td_session_sequence t)) (ch_terminal c)
      | AckMismatch \<Rightarrow> None)"

inductive channel_step :: "'s channel \<Rightarrow> nat option \<Rightarrow> 's channel \<Rightarrow> bool" where
  cs_admit: "channel_step c None (snd (admit_update alloc u g t c))"
| cs_terminalize: "channel_step c None (snd (terminalize r act g t c))"
| cs_acknowledge: "channel_step c (ack_label p c) (snd (acknowledge p c))"
| cs_close_owner: "channel_step c None (close_from_owner c)"
| cs_close_writer: "channel_step c None (close_from_writer c)"

fun phase_of :: "subscriber_state \<Rightarrow> egress_phase" where
  "phase_of SubActive = Flowing"
| "phase_of SubTerminalGap = Ending"
| "phase_of SubClosed = Ended"

lemma phase_of_Ended [simp]: "phase_of s = Ended \<longleftrightarrow> s = SubClosed"
  by (cases s) simp_all

definition channel_abs :: "'s channel \<Rightarrow> egress" where
  "channel_abs c =
     \<lparr>eg_pending = map (\<lambda>p. unat (pr_session_sequence (object p))) (channel_contents c),
      eg_terminal = map_option (\<lambda>t. unat (td_session_sequence t)) (ch_terminal c),
      eg_next = (case ch_terminal c of
                   None \<Rightarrow> unat (ch_next_session_sequence c)
                 | Some t \<Rightarrow> Suc (unat (td_session_sequence t))),
      eg_phase = phase_of (ch_state c)\<rparr>"

lemma admit_update_cases:
  assumes "channel_wf c"
  obtains (same) "snd (admit_update al u g t c) = c"
  | (slow) "ch_state c = SubActive" "ch_terminal c = None"
      "snd (admit_update al u g t c) = c\<lparr>ch_terminal := Some
         \<lparr>td_session_sequence = ch_next_session_sequence c, td_connection_generation = None,
          td_published_at = t, td_reason = CONSUMER_GAP_REASON_SLOW_CONSUMER,
          td_recovery_action = RECOVERY_ACTION_RESUBSCRIBE\<rparr>,
         ch_next_session_sequence := (if ch_next_session_sequence c \<noteq> u64_max
            then ch_next_session_sequence c + 1 else ch_next_session_sequence c),
         ch_state := SubTerminalGap\<rparr>"
  | (admit) a where "ch_state c = SubActive" "ch_size c < ch_ordinary_capacity c"
      "ch_next_session_sequence c \<noteq> u64_max" "al = Some a"
proof (cases "ch_state c = SubActive")
  case False
  then show ?thesis by (intro same) (simp add: admit_update_def)
next
  case True
  with assms have t: "ch_terminal c = None" and le: "ch_size c \<le> ch_ordinary_capacity c"
    by (auto simp: channel_wf_def channel_shape_def)
  show ?thesis
  proof (cases "ch_size c = ch_ordinary_capacity c")
    case full: True
    with True t show ?thesis by (intro slow) (simp_all add: admit_update_def)
  next
    case room: False
    show ?thesis
    proof (cases "ch_next_session_sequence c = u64_max \<or> al = None")
      case True
      with room show ?thesis by (intro same) (auto simp: admit_update_def split: option.splits)
    next
      case False
      with True room le admit show ?thesis by auto
    qed
  qed
qed

lemma admit_update_simulation:
  assumes "channel_wf c"
  shows "channel_wf (snd (admit_update al u g t c))
    \<and> egress_step (channel_abs c) None (channel_abs (snd (admit_update al u g t c)))"
  using assms
proof (cases rule: admit_update_cases [where al = al and u = u and g = g and t = t])
  case same
  with assms show ?thesis by (simp add: eg_stutter)
next
  case slow
  have "egress_step (channel_abs c) None
      ((channel_abs c)\<lparr>eg_terminal := Some (eg_next (channel_abs c)),
         eg_next := Suc (eg_next (channel_abs c)), eg_phase := Ending\<rparr>)"
    using slow by (intro eg_terminalize) (simp add: channel_abs_def)
  with slow assms show ?thesis
    by (auto simp: channel_abs_def channel_wf_def channel_shape_def)
next
  case (admit a)
  then obtain r where r: "snd (admit_update al u g t c)
      = c\<lparr>ch_ordinary_ring := r, ch_size := ch_size c + 1,
            ch_next_session_sequence := ch_next_session_sequence c + 1\<rparr>"
    "length r = ch_ordinary_capacity c"
    "ring_contents r (ch_head c) (Suc (ch_size c)) = channel_contents c
       @ [Ptr a \<lparr>pr_session_sequence = ch_next_session_sequence c, pr_connection_generation = g,
                pr_published_at = t, pr_payload = PayloadUpdate u\<rparr>]"
    using admit_update_admits [OF assms, of a u g t] by (metis snd_conv)
  have "ch_terminal c = None" using assms admit by (simp add: channel_wf_def)
  have "egress_step (channel_abs c) None
      ((channel_abs c)\<lparr>eg_pending := eg_pending (channel_abs c) @ [eg_next (channel_abs c)],
         eg_next := Suc (eg_next (channel_abs c))\<rparr>)"
    using admit by (intro eg_admit) (simp add: channel_abs_def)
  with r assms admit \<open>ch_terminal c = None\<close> show ?thesis
    by (auto simp: channel_abs_def channel_wf_def channel_shape_def unat_Suc_u64)
qed

lemma terminalize_simulation:
  assumes "channel_wf c"
  shows "egress_step (channel_abs c) None (channel_abs (snd (terminalize r a g t c)))"
proof (cases "ch_state c = SubActive \<and> ch_terminal c = None")
  case True
  have "egress_step (channel_abs c) None
      ((channel_abs c)\<lparr>eg_terminal := Some (eg_next (channel_abs c)),
         eg_next := Suc (eg_next (channel_abs c)), eg_phase := Ending\<rparr>)"
    using True by (intro eg_terminalize) (simp add: channel_abs_def)
  with True show ?thesis by (simp add: terminalize_def channel_abs_def)
next
  case False
  then show ?thesis by (auto simp: terminalize_def eg_stutter)
qed

lemma acknowledge_cases:
  assumes "channel_wf c"
  obtains (same) "snd (acknowledge p c) = c" "ack_label p c = None"
  | (pop) x xs where "ch_state c \<noteq> SubClosed" "channel_contents c = x # xs"
      "snd (acknowledge p c) = ring_pop_locked c"
      "ack_label p c = Some (unat (pr_session_sequence (object x)))"
  | (terminal) t where "ch_state c = SubTerminalGap" "channel_contents c = []"
      "ch_terminal c = Some t" "ack_label p c = Some (unat (td_session_sequence t))"
      "snd (acknowledge p c) = c\<lparr>ch_terminal := None, ch_state := SubClosed\<rparr>"
proof (cases "fst (acknowledge p c)")
  case AckAcknowledged
  then have pop: "snd (acknowledge p c) = ring_pop_locked c" "ch_size c \<noteq> 0"
      "ch_state c \<noteq> SubClosed"
    by (auto simp: acknowledge_def split: if_splits)
  then have "channel_contents c = ch_ordinary_ring c ! ch_head c # tl (channel_contents c)"
    using ob.front_hd [of c] assms by (metis channel_wf_shape list.collapse ring_contents_eq_Nil)
  with pop AckAcknowledged that(2) show ?thesis by (auto simp: ack_label_def)
next
  case AckClosed
  show ?thesis
  proof (cases "ch_state c = SubClosed")
    case True
    with that(1) show ?thesis by (simp add: acknowledge_def ack_label_def)
  next
    case False
    with AckClosed obtain t where t: "ch_size c = 0" "ch_terminal c = Some t"
        "snd (acknowledge p c) = c\<lparr>ch_terminal := None, ch_state := SubClosed\<rparr>"
      by (auto simp: acknowledge_def split: if_splits)
    with False assms have "ch_state c = SubTerminalGap"
      by (cases "ch_state c") (auto simp: channel_wf_def)
    with t False AckClosed that(3) show ?thesis by (simp add: ack_label_def)
  qed
next
  case AckMismatch
  then have "snd (acknowledge p c) = c" by (auto simp: acknowledge_def split: if_splits)
  with AckMismatch that(1) show ?thesis by (auto simp: ack_label_def)
qed

lemma ring_pop_locked_wf:
  assumes "channel_wf c" and "channel_contents c \<noteq> []"
  shows "channel_wf (ring_pop_locked c)"
proof -
  have "ch_size c \<noteq> 0" using assms(2) by simp
  then have c': "channel_shape (ring_pop_locked c)"
      "channel_contents (ring_pop_locked c) = tl (channel_contents c)"
    using ring_pop_locked_front [of c] assms(1) by blast+
  moreover have "set (tl (channel_contents c)) \<subseteq> set (channel_contents c)"
    by (simp add: list.set_sel(2) [OF assms(2)] subsetI)
  moreover have "ch_state (ring_pop_locked c) = ch_state c" "ch_terminal (ring_pop_locked c) = ch_terminal c"
    by (simp_all add: ring_pop_locked_def)
  ultimately show ?thesis using assms(1) unfolding channel_wf_def by auto
qed

lemma acknowledge_simulation:
  assumes "channel_wf c"
  shows "channel_wf (snd (acknowledge p c))
    \<and> egress_step (channel_abs c) (ack_label p c) (channel_abs (snd (acknowledge p c)))"
  using assms
proof (cases rule: acknowledge_cases [where p = p])
  case same
  with assms show ?thesis by (simp add: eg_stutter)
next
  case (pop x xs)
  then have xs: "channel_contents (ring_pop_locked c) = xs"
    using ob.pop_front [of c] assms by auto
  have "egress_step (channel_abs c) (Some (unat (pr_session_sequence (object x))))
      ((channel_abs c)\<lparr>eg_pending := map (\<lambda>p. unat (pr_session_sequence (object p))) xs\<rparr>)"
    using pop by (intro eg_deliver) (simp_all add: channel_abs_def)
  moreover have "channel_abs (ring_pop_locked c) =
      (channel_abs c)\<lparr>eg_pending := map (\<lambda>p. unat (pr_session_sequence (object p))) xs\<rparr>"
    unfolding channel_abs_def xs by (simp add: ring_pop_locked_def split: option.splits)
  ultimately show ?thesis
    using pop assms ring_pop_locked_wf [of c] by simp
next
  case (terminal t)
  then have "egress_step (channel_abs c) (Some (unat (td_session_sequence t)))
      (channel_abs (c\<lparr>ch_terminal := None, ch_state := SubClosed\<rparr>))"
    by (intro eg_deliver_terminal) (simp_all add: channel_abs_def)
  with terminal assms show ?thesis
    by (auto simp: channel_wf_def channel_shape_def)
qed

lemma close_from_writer_closed [simp]:
  "channel_wf c \<Longrightarrow> ch_state (close_from_writer c) = SubClosed"
  using clear_ring_locked_empty [of "c\<lparr>ch_state := SubClosed\<rparr>"]
  by (simp add: close_from_writer_def clear_from_writer_locked_def channel_wf_def channel_shape_def)

interpretation ob_egress: egress_channel channel_step channel_wf channel_abs
proof unfold_locales
  fix c c' :: "'s channel" and l
  assume wf: "channel_wf c" and st: "channel_step c l c'"
  from st show "channel_wf c' \<and> egress_step (channel_abs c) l (channel_abs c')"
  proof cases
    case cs_close_owner
    with wf show ?thesis
      by (simp add: close_from_owner_wf) (intro eg_close, simp add: channel_abs_def close_from_owner_def)
  next
    case cs_close_writer
    with wf show ?thesis
      by (simp add: close_from_writer_wf) (intro eg_close, simp add: channel_abs_def)
  qed (use wf admit_update_simulation terminalize_simulation terminalize_wf
        acknowledge_simulation in blast)+
qed

section \<open>Staging the two mandatory records\<close>

lemma stage_initial_push:
  assumes "channel_wf c" and "ch_state c = SubActive" and "ch_size c = 0"
    and "2 \<le> ch_ordinary_capacity c"
    and "pr_session_sequence a = 1" and "pr_session_sequence s = 2"
    and "kind a = KindSubscriptionAccepted" and "kind s = KindSnapshot"
  obtains r where "stage_initial (Ptr i a) (Ptr j s) c
      = (True, c\<lparr>ch_ordinary_ring := r, ch_size := 2, ch_next_session_sequence := 3\<rparr>)"
    and "length r = ch_ordinary_capacity c"
    and "ring_contents r (ch_head c) 2 = [Ptr i a, Ptr j s]"
proof -
  obtain r1 where r1: "ring_push_locked (Ptr i a) c
      = (True, c\<lparr>ch_ordinary_ring := r1, ch_size := ch_size c + 1\<rparr>)"
    and l1: "length r1 = ch_ordinary_capacity c"
    and c1: "ring_contents r1 (ch_head c) (Suc (ch_size c)) = channel_contents c @ [Ptr i a]"
    using ring_push_locked_eq [of c i a] assms by auto
  let ?c1 = "c\<lparr>ch_ordinary_ring := r1, ch_size := ch_size c + 1\<rparr>"
  have "channel_shape ?c1" using assms l1 by (auto simp: channel_wf_def channel_shape_def)
  then obtain r2 where r2: "ring_push_locked (Ptr j s) ?c1
      = (True, ?c1\<lparr>ch_ordinary_ring := r2, ch_size := ch_size ?c1 + 1\<rparr>)"
    and l2: "length r2 = ch_ordinary_capacity ?c1"
    and c2: "ring_contents r2 (ch_head ?c1) (Suc (ch_size ?c1)) = channel_contents ?c1 @ [Ptr j s]"
    using ring_push_locked_eq [of ?c1 j s] assms by auto
  show ?thesis
  proof (rule that)
    show "stage_initial (Ptr i a) (Ptr j s) c
        = (True, c\<lparr>ch_ordinary_ring := r2, ch_size := 2, ch_next_session_sequence := 3\<rparr>)"
      using assms r1 r2 by (simp add: stage_initial_def)
  qed (use l2 c1 c2 assms in \<open>simp_all add: numeral_2_eq_2\<close>)
qed

lemma stage_initial_conditions:
  assumes "stage_initial p q c = (True, c')"
  obtains i a j s where "p = Ptr i a" "q = Ptr j s" "pr_session_sequence a = 1"
    "pr_session_sequence s = 2" "kind a = KindSubscriptionAccepted" "kind s = KindSnapshot"
    "ch_state c = SubActive" "ch_size c = 0" "2 \<le> ch_ordinary_capacity c"
  using assms that
  by (cases p; cases q) (auto simp: stage_initial_def simp del: kind.simps split: if_splits)

lemma staged_channel:
  assumes "make_channel i g n = Some c0" and "stage_initial p q c0 = (True, c)"
  shows "channel_wf c"
    and "channel_contents c = [p, q]"
    and "channel_abs c = \<lparr>eg_pending = [1, 2], eg_terminal = None, eg_next = 3, eg_phase = Flowing\<rparr>"
proof -
  obtain x a y s where cond: "p = Ptr x a" "q = Ptr y s" "pr_session_sequence a = 1"
    "pr_session_sequence s = 2" "kind a = KindSubscriptionAccepted" "kind s = KindSnapshot"
    "ch_state c0 = SubActive" "ch_size c0 = 0" "2 \<le> ch_ordinary_capacity c0"
    using stage_initial_conditions [OF assms(2)] .
  have wf: "channel_wf c0" using assms(1) by (rule make_channel_wf)
  obtain r where r: "c = c0\<lparr>ch_ordinary_ring := r, ch_size := 2, ch_next_session_sequence := 3\<rparr>"
    "length r = ch_ordinary_capacity c0" "ring_contents r (ch_head c0) 2 = [p, q]"
    using stage_initial_push [OF wf, of a s x y] cond assms(2) by (metis Pair_inject)
  show "channel_contents c = [p, q]" using r by simp
  moreover show "channel_wf c"
    using r wf cond by (auto simp: channel_wf_def channel_shape_def)
  ultimately show "channel_abs c
      = \<lparr>eg_pending = [1, 2], eg_terminal = None, eg_next = 3, eg_phase = Flowing\<rparr>"
    using r wf cond by (simp add: channel_abs_def channel_wf_def)
qed

section \<open>Properties\<close>

text \<open>C1: whatever the owner and the RPC writer do to an admitted order-book channel, in any
  interleaving, the session sequence numbers acknowledged by the consumer are 1, 2, 3, ...
  without a gap, a duplicate or a reordering.\<close>

theorem order_book_delivery_contiguous:
  assumes "make_channel i g n = Some c0" and "stage_initial p q c0 = (True, c)"
    and "run channel_step c ls c'"
  shows "delivered ls = [1..<Suc (length (delivered ls))]"
proof (rule ob_egress.delivery_contiguous [OF assms(3)])
  show "channel_wf c" using assms staged_channel by blast
  show "egress_inv [] (channel_abs c)"
    using staged_channel(3) [OF assms(1,2)] by (simp add: egress_inv_def upt_rec)
qed

definition example_accepted :: "nat publication_record shared_ptr" where
  "example_accepted = Ptr 0 (make_accepted_record ''r'' ''ob-1'' ''gw'' default_publication_time)"

definition example_snapshot :: "nat publication_record shared_ptr" where
  "example_snapshot = Ptr 1 (make_snapshot_record 7 (Some 1) default_publication_time)"

definition example_channel :: "nat channel" where
  "example_channel = snd (stage_initial example_accepted example_snapshot
     (the (make_channel ''ob-1'' ''gw'' 2)))"

lemmas example_channel_defs = example_channel_def example_accepted_def example_snapshot_def
  make_channel_def stage_initial_def make_accepted_record_def make_snapshot_record_def
  ring_push_locked_def

lemma example_channel_staged:
  "make_channel ''ob-1'' ''gw'' 2 = Some (the (make_channel ''ob-1'' ''gw'' 2))"
  "stage_initial example_accepted example_snapshot (the (make_channel ''ob-1'' ''gw'' 2))
     = (True, example_channel)"
  by (simp_all add: example_channel_defs)

lemma example_channel_full:
  "ch_state example_channel = SubActive"
  "ch_size example_channel = ch_ordinary_capacity example_channel"
  by (simp_all add: example_channel_defs)

lemmas example_channel_wf = staged_channel(1) [OF example_channel_staged]

theorem order_book_delivery_contiguous_witness:
  "delivered [ack_label (peek example_channel) example_channel]
     = [1..<Suc (length (delivered [ack_label (peek example_channel) example_channel]))]"
proof (rule order_book_delivery_contiguous [OF example_channel_staged])
  show "run channel_step example_channel [ack_label (peek example_channel) example_channel]
      (snd (acknowledge (peek example_channel) example_channel))"
    by (rule run_single, rule cs_acknowledge)
qed

text \<open>A channel that is closed stays closed and delivers nothing more, whatever is still
  tried on it; in particular nothing follows an acknowledged terminal notice.\<close>

theorem order_book_closed_is_final:
  assumes "channel_wf c" and "ch_state c = SubClosed" and "run channel_step c ls c'"
  shows "delivered ls = [] \<and> ch_state c' = SubClosed"
  using ob_egress.run_ended_silent [OF assms(3,1)] assms(2) by (simp add: channel_abs_def)

theorem order_book_closed_is_final_witness:
  "delivered [None] = [] \<and>
   ch_state (snd (admit_update (Some 9) Null None default_publication_time
     (close_from_owner example_channel))) = SubClosed"
proof (rule order_book_closed_is_final)
  show "channel_wf (close_from_owner example_channel)"
    by (rule close_from_owner_wf [OF example_channel_wf])
  show "ch_state (close_from_owner example_channel) = SubClosed"
    by (simp add: close_from_owner_def)
  show "run channel_step (close_from_owner example_channel) [None]
      (snd (admit_update (Some 9) Null None default_publication_time
        (close_from_owner example_channel)))"
    by (rule run_single, rule cs_admit)
qed

text \<open>Staging is all or nothing: it either queues exactly the acceptance and the snapshot
  with the next number 3, or leaves the channel as it was.\<close>

theorem stage_initial_all_or_nothing:
  assumes "channel_wf c"
  shows "case stage_initial p q c of
      (True, c') \<Rightarrow> channel_contents c' = [p, q] \<and> ch_next_session_sequence c' = 3
        \<and> channel_wf c' \<and> ch_state c' = SubActive
    | (False, c') \<Rightarrow> c' = c"
proof (cases "fst (stage_initial p q c)")
  case True
  then obtain c' where c': "stage_initial p q c = (True, c')" by (metis prod.collapse)
  obtain x a y s where cond: "p = Ptr x a" "q = Ptr y s" "pr_session_sequence a = 1"
    "pr_session_sequence s = 2" "kind a = KindSubscriptionAccepted" "kind s = KindSnapshot"
    "ch_state c = SubActive" "ch_size c = 0" "2 \<le> ch_ordinary_capacity c"
    using stage_initial_conditions [OF c'] .
  obtain r where r: "c' = c\<lparr>ch_ordinary_ring := r, ch_size := 2, ch_next_session_sequence := 3\<rparr>"
    "length r = ch_ordinary_capacity c" "ring_contents r (ch_head c) 2 = [p, q]"
    using stage_initial_push [OF assms, of a s x y] cond c' by (metis Pair_inject)
  with c' cond assms show ?thesis by (auto simp: channel_wf_def channel_shape_def)
next
  case False
  have "snd (stage_initial p q c) = c"
  proof (rule ccontr)
    assume ne: "snd (stage_initial p q c) \<noteq> c"
    then obtain x a y s where cond: "p = Ptr x a" "q = Ptr y s" "pr_session_sequence a = 1"
      "pr_session_sequence s = 2" "kind a = KindSubscriptionAccepted" "kind s = KindSnapshot"
      "ch_state c = SubActive" "ch_size c = 0" "2 \<le> ch_ordinary_capacity c"
      by (cases p; cases q) (auto simp: stage_initial_def simp del: kind.simps split: if_splits)
    then show False
      using stage_initial_push [OF assms, of a s x y] False by (metis fst_conv)
  qed
  with False show ?thesis by (simp add: case_prod_beta split: bool.splits)
qed

theorem stage_initial_all_or_nothing_witness:
  "case stage_initial example_accepted Null example_channel of
      (True, c') \<Rightarrow> channel_contents c' = [example_accepted, Null]
        \<and> ch_next_session_sequence c' = 3 \<and> channel_wf c' \<and> ch_state c' = SubActive
    | (False, c') \<Rightarrow> c' = example_channel"
  by (rule stage_initial_all_or_nothing [OF example_channel_wf])

text \<open>An update offered to a full active channel ends the session as a slow consumer: the
  queued records stay deliverable, the terminal notice takes the next number, and no later
  update or second terminal notice is taken.\<close>

theorem slow_consumer_terminalized:
  assumes "channel_wf c" and "ch_state c = SubActive" and "ch_size c = ch_ordinary_capacity c"
    and "admit_update al u g t c = (res, c')"
  shows "res = AdmTerminalized \<and> channel_contents c' = channel_contents c
    \<and> map_option td_reason (ch_terminal c') = Some CONSUMER_GAP_REASON_SLOW_CONSUMER
    \<and> map_option td_session_sequence (ch_terminal c') = Some (ch_next_session_sequence c)
    \<and> admit_update al' u' g' t' c' = (AdmInactive, c')
    \<and> terminalize r a g'' t'' c' = (False, c')"
proof -
  from assms have c': "res = AdmTerminalized" "ch_state c' = SubTerminalGap"
      "channel_contents c' = channel_contents c"
      "map_option td_reason (ch_terminal c') = Some CONSUMER_GAP_REASON_SLOW_CONSUMER"
      "map_option td_session_sequence (ch_terminal c') = Some (ch_next_session_sequence c)"
    by (auto simp: admit_update_def)
  then show ?thesis by (simp add: admit_update_def terminalize_def)
qed

theorem slow_consumer_terminalized_witness:
  "\<exists>res c'. admit_update (Some 5) Null None default_publication_time example_channel = (res, c')
     \<and> res = AdmTerminalized \<and> channel_contents c' = channel_contents example_channel
     \<and> admit_update (Some 6) Null None default_publication_time c' = (AdmInactive, c')"
proof -
  obtain res c' where r: "admit_update (Some 5) Null None default_publication_time example_channel
      = (res, c')"
    by fastforce
  from slow_consumer_terminalized [OF example_channel_wf example_channel_full r] r
  show ?thesis by blast
qed

end
