(* ===== verification/EventChannel.thy ===== *)
theory EventChannel
  imports Wire Egress RingFifo
begin

text \<open>
  The event subscriber channel of \<open>src/src/g9/event_publication.{hpp,cpp}\<close>: a ring like the
  order-book channel's, bound to one stream and one source generation, with a second way to
  end (the source becomes unavailable, without a terminal notice).
\<close>

section \<open>Data\<close>

definition kMaximumActiveEventSubscriptions :: nat where
  "kMaximumActiveEventSubscriptions = 8"

definition kEventOrdinaryQueueCapacity :: nat where
  "kEventOrdinaryQueueCapacity = 64"

definition kEventSubscriptionAcceptedSchema :: string where
  "kEventSubscriptionAcceptedSchema = ''subscription-accepted.v1''"

record event_publication_limits =
  el_maximum_active_subscriptions :: nat
  el_ordinary_queue_capacity :: nat

record validated_event_subscription =
  ves_request_id :: string
  ves_stream :: wire_stream
  ves_negotiated_payload_schema_version :: string

record event_publication_time =
  et_utc_ns :: u64
  et_monotonic_ns :: "u64 option"

datatype event_ordinary_payload =
    EvPayloadAccepted subscription_accepted
  | EvPayloadEvent "normalized_market_event shared_ptr"

record event_publication_record =
  er_session_sequence :: u64
  er_connection_generation :: "u64 option"
  er_published_at :: event_publication_time
  er_payload :: event_ordinary_payload

record event_terminal_descriptor =
  etd_session_sequence :: u64
  etd_connection_generation :: u64
  etd_published_at :: event_publication_time
  etd_reason :: consumer_gap_reason
  etd_recovery_action :: recovery_action

datatype event_channel_state = EvActive | EvTerminalGap | EvTerminalUnavailable | EvClosed

datatype event_admission_result =
    EvAdmAdmitted | EvAdmTerminalized | EvAdmInactive | EvAdmAllocationFailure

record peeked_event_publication =
  pe_ordinary :: "event_publication_record shared_ptr"
  pe_terminal :: "event_terminal_descriptor option"

datatype event_acknowledge_result = EvAckAcknowledged | EvAckClosed | EvAckMismatch

record event_channel =
  ec_subscription_id :: string
  ec_gateway_instance_id :: string
  ec_stream :: wire_stream
  ec_source_generation :: u64
  ec_ordinary_capacity :: nat
  ec_ordinary_ring :: "event_publication_record shared_ptr list"
  ec_head :: nat
  ec_size :: nat
  ec_terminal :: "event_terminal_descriptor option"
  ec_state :: event_channel_state
  ec_next_session_sequence :: u64

section \<open>Operations\<close>

fun normalized_event_stream :: "normalized_market_event \<Rightarrow> wire_stream" where
  "normalized_event_stream (EvDepthUpdate _) = STREAM_DIFF_DEPTH"
| "normalized_event_stream (EvAggTrade _) = STREAM_AGG_TRADE"
| "normalized_event_stream (EvBookTicker _) = STREAM_BOOK_TICKER"

definition make_event_accepted_record ::
  "validated_event_subscription \<Rightarrow> string \<Rightarrow> string \<Rightarrow> event_publication_time
     \<Rightarrow> event_publication_record" where
  "make_event_accepted_record subscription subscription_id gateway_instance_id published_at =
     \<lparr>er_session_sequence = 1, er_connection_generation = None,
      er_published_at = published_at,
      er_payload = EvPayloadAccepted
        \<lparr>sa_request_id = ves_request_id subscription, sa_subscription_id = subscription_id,
         sa_schema_version = kEventSubscriptionAcceptedSchema,
         sa_gateway_instance_id = gateway_instance_id,
         sa_accepted_time_utc_ns = et_utc_ns published_at,
         sa_negotiated_payload_schema_versions =
           [ves_negotiated_payload_schema_version subscription]\<rparr>\<rparr>"

text \<open>The constructor; \<open>None\<close> is its \<open>std::invalid_argument\<close>.\<close>

definition make_event_channel ::
  "string \<Rightarrow> string \<Rightarrow> wire_stream \<Rightarrow> u64 \<Rightarrow> nat \<Rightarrow> event_channel option" where
  "make_event_channel subscription_id gateway_instance_id stream source_generation ordinary_capacity =
     (if ordinary_capacity = 0 \<or> source_generation = 0 \<or> stream = STREAM_UNSPECIFIED then None
      else Some \<lparr>ec_subscription_id = subscription_id,
                 ec_gateway_instance_id = gateway_instance_id,
                 ec_stream = stream, ec_source_generation = source_generation,
                 ec_ordinary_capacity = ordinary_capacity,
                 ec_ordinary_ring = replicate ordinary_capacity Null,
                 ec_head = 0, ec_size = 0, ec_terminal = None, ec_state = EvActive,
                 ec_next_session_sequence = 1\<rparr>)"

definition ev_ring_push_locked ::
  "event_publication_record shared_ptr \<Rightarrow> event_channel \<Rightarrow> bool \<times> event_channel" where
  "ev_ring_push_locked p c =
     (if ec_size c = ec_ordinary_capacity c \<or> p = Null then (False, c)
      else let tail = (ec_head c + ec_size c) mod ec_ordinary_capacity c
           in (True, c\<lparr>ec_ordinary_ring := (ec_ordinary_ring c)[tail := p],
                       ec_size := ec_size c + 1\<rparr>))"

definition ev_ring_pop_locked :: "event_channel \<Rightarrow> event_channel" where
  "ev_ring_pop_locked c =
     c\<lparr>ec_ordinary_ring := (ec_ordinary_ring c)[ec_head c := Null],
       ec_head := (ec_head c + 1) mod ec_ordinary_capacity c,
       ec_size := ec_size c - 1\<rparr>"

function ev_clear_ring_locked :: "event_channel \<Rightarrow> event_channel" where
  "ev_clear_ring_locked c =
     (if ec_size c \<noteq> 0 then ev_clear_ring_locked (ev_ring_pop_locked c) else c)"
  by pat_completeness auto
termination
  by (relation "measure ec_size") (auto simp: ev_ring_pop_locked_def)

declare ev_clear_ring_locked.simps [simp del]

definition ev_clear_from_writer_locked :: "event_channel \<Rightarrow> event_channel" where
  "ev_clear_from_writer_locked c = (ev_clear_ring_locked c)\<lparr>ec_terminal := None\<rparr>"

definition stage_accepted ::
  "event_publication_record shared_ptr \<Rightarrow> event_channel \<Rightarrow> bool \<times> event_channel" where
  "stage_accepted accepted c =
     (case accepted of
        Null \<Rightarrow> (False, c)
      | Ptr _ a \<Rightarrow>
          if er_session_sequence a \<noteq> 1 \<or> er_connection_generation a \<noteq> None
             \<or> (case er_payload a of EvPayloadAccepted _ \<Rightarrow> False | _ \<Rightarrow> True)
          then (False, c)
          else if ec_state c \<noteq> EvActive \<or> ec_size c \<noteq> 0 then (False, c)
          else let (ok, c') = ev_ring_push_locked accepted c
               in if \<not> ok then (False, c')
                  else (True, c'\<lparr>ec_next_session_sequence := 2\<rparr>))"

definition ev_bump_sequence :: "u64 \<Rightarrow> u64" where
  "ev_bump_sequence n = (if n \<noteq> u64_max then n + 1 else n)"

definition admit_event ::
  "nat option \<Rightarrow> normalized_market_event shared_ptr \<Rightarrow> event_publication_time \<Rightarrow> event_channel
     \<Rightarrow> event_admission_result \<times> event_channel" where
  "admit_event alloc event published_at c =
     (if ec_state c \<noteq> EvActive then (EvAdmInactive, c)
      else case event of
        Null \<Rightarrow> (EvAdmAllocationFailure, c)
      | Ptr _ e \<Rightarrow>
        if normalized_event_stream e \<noteq> ec_stream c then (EvAdmAllocationFailure, c)
        else if ec_size c = ec_ordinary_capacity c then
          (EvAdmTerminalized,
           c\<lparr>ec_terminal := Some
               \<lparr>etd_session_sequence = ec_next_session_sequence c,
                etd_connection_generation = ec_source_generation c,
                etd_published_at = published_at,
                etd_reason = CONSUMER_GAP_REASON_SLOW_CONSUMER,
                etd_recovery_action = RECOVERY_ACTION_RESUBSCRIBE\<rparr>,
             ec_next_session_sequence := ev_bump_sequence (ec_next_session_sequence c),
             ec_state := EvTerminalGap\<rparr>)
        else if ec_next_session_sequence c = u64_max then (EvAdmAllocationFailure, c)
        else case alloc of
          None \<Rightarrow> (EvAdmAllocationFailure, c)
        | Some a \<Rightarrow>
            let (ok, c') = ev_ring_push_locked
                  (Ptr a \<lparr>er_session_sequence = ec_next_session_sequence c,
                          er_connection_generation = Some (ec_source_generation c),
                          er_published_at = published_at,
                          er_payload = EvPayloadEvent event\<rparr>) c
            in if \<not> ok then (EvAdmAllocationFailure, c')
               else (EvAdmAdmitted,
                     c'\<lparr>ec_next_session_sequence := ec_next_session_sequence c' + 1\<rparr>))"

definition terminalize_replacement ::
  "event_publication_time \<Rightarrow> event_channel \<Rightarrow> bool \<times> event_channel" where
  "terminalize_replacement published_at c =
     (if ec_state c \<noteq> EvActive \<or> ec_terminal c \<noteq> None then (False, c)
      else (True,
        c\<lparr>ec_terminal := Some
            \<lparr>etd_session_sequence = ec_next_session_sequence c,
             etd_connection_generation = ec_source_generation c,
             etd_published_at = published_at,
             etd_reason = CONSUMER_GAP_REASON_CONNECTION_GENERATION_CHANGED,
             etd_recovery_action = RECOVERY_ACTION_RESUBSCRIBE\<rparr>,
          ec_next_session_sequence := ev_bump_sequence (ec_next_session_sequence c),
          ec_state := EvTerminalGap\<rparr>))"

definition close_unavailable :: "event_channel \<Rightarrow> bool \<times> event_channel" where
  "close_unavailable c =
     (if ec_state c \<noteq> EvActive then (False, c)
      else (True, c\<lparr>ec_state := EvTerminalUnavailable\<rparr>))"

definition ev_peek :: "event_channel \<Rightarrow> peeked_event_publication" where
  "ev_peek c =
     (if ec_state c = EvClosed then \<lparr>pe_ordinary = Null, pe_terminal = None\<rparr>
      else if ec_size c \<noteq> 0
      then \<lparr>pe_ordinary = ec_ordinary_ring c ! ec_head c, pe_terminal = None\<rparr>
      else \<lparr>pe_ordinary = Null, pe_terminal = ec_terminal c\<rparr>)"

definition ev_acknowledge ::
  "peeked_event_publication \<Rightarrow> event_channel \<Rightarrow> event_acknowledge_result \<times> event_channel" where
  "ev_acknowledge p c =
     (if ec_state c = EvClosed then (EvAckClosed, c)
      else if pe_ordinary p \<noteq> Null then
        (if ec_size c = 0 \<or> \<not> ptr_eq (ec_ordinary_ring c ! ec_head c) (pe_ordinary p)
         then (EvAckMismatch, c)
         else (EvAckAcknowledged, ev_ring_pop_locked c))
      else if pe_terminal p \<noteq> None \<and> ec_size c = 0 \<and> ec_terminal c \<noteq> None
              \<and> ec_terminal c = pe_terminal p
      then (EvAckClosed, c\<lparr>ec_terminal := None, ec_state := EvClosed\<rparr>)
      else (EvAckMismatch, c))"

text \<open>The predicate \<open>wait_for_change\<close> blocks on.\<close>

definition ev_change_ready :: "event_channel \<Rightarrow> bool" where
  "ev_change_ready c \<longleftrightarrow> ec_state c \<noteq> EvActive \<or> ec_size c \<noteq> 0"

definition ev_close_from_owner :: "event_channel \<Rightarrow> event_channel" where
  "ev_close_from_owner c = c\<lparr>ec_state := EvClosed\<rparr>"

definition ev_close_from_writer :: "event_channel \<Rightarrow> event_channel" where
  "ev_close_from_writer c = ev_clear_from_writer_locked (c\<lparr>ec_state := EvClosed\<rparr>)"

section \<open>Well-formed channels and the ring interface\<close>

abbreviation ev_contents :: "event_channel \<Rightarrow> event_publication_record shared_ptr list" where
  "ev_contents c \<equiv> ring_contents (ec_ordinary_ring c) (ec_head c) (ec_size c)"

definition ev_shape :: "event_channel \<Rightarrow> bool" where
  "ev_shape c \<longleftrightarrow> length (ec_ordinary_ring c) = ec_ordinary_capacity c
     \<and> ec_head c < ec_ordinary_capacity c \<and> ec_size c \<le> ec_ordinary_capacity c"

interpretation ev: ring_fifo ev_ring_push_locked ev_ring_pop_locked
  "\<lambda>c. ec_ordinary_ring c ! ec_head c" ev_contents ec_ordinary_capacity ev_shape
  "\<lambda>p. p \<noteq> Null"
proof unfold_locales
  fix c :: event_channel and p
  assume c: "ev_shape c"
  show "ev_ring_push_locked p c = (False, c)"
    if "length (ev_contents c) = ec_ordinary_capacity c \<or> \<not> p \<noteq> Null"
    using that by (auto simp: ev_ring_push_locked_def)
  show "fst (ev_ring_push_locked p c) \<and> ev_shape (snd (ev_ring_push_locked p c))
      \<and> ev_contents (snd (ev_ring_push_locked p c)) = ev_contents c @ [p]
      \<and> ec_ordinary_capacity (snd (ev_ring_push_locked p c)) = ec_ordinary_capacity c"
    if "p \<noteq> Null" "length (ev_contents c) < ec_ordinary_capacity c"
    using that c ring_contents_push [of "ec_head c" "ec_ordinary_ring c" "ec_size c" p]
    by (auto simp: ev_ring_push_locked_def ev_shape_def Let_def)
  show "ev_shape (ev_ring_pop_locked c) \<and> ev_contents (ev_ring_pop_locked c) = tl (ev_contents c)
      \<and> ec_ordinary_capacity (ev_ring_pop_locked c) = ec_ordinary_capacity c"
    if "ev_contents c \<noteq> []"
    using that c ring_contents_pop [of "ec_head c" "ec_ordinary_ring c" "ec_size c" Null]
    by (auto simp: ev_ring_pop_locked_def ev_shape_def)
  show "ec_ordinary_ring c ! ec_head c = hd (ev_contents c)" if "ev_contents c \<noteq> []"
    using that c by (simp add: ring_contents_hd ev_shape_def)
  show "length (ev_contents c) \<le> ec_ordinary_capacity c"
    using c by (simp add: ev_shape_def)
qed

text \<open>
  A well-formed event channel also carries only its own data: the first record of a session
  is the acceptance, and every event record holds an event of the channel's stream and is
  stamped with the channel's source generation.
\<close>

definition own_record :: "u64 \<Rightarrow> wire_stream \<Rightarrow> event_publication_record shared_ptr \<Rightarrow> bool" where
  "own_record gen stream p \<longleftrightarrow> (case p of Null \<Rightarrow> False | Ptr _ r \<Rightarrow>
     (case er_payload r of
        EvPayloadAccepted _ \<Rightarrow> er_session_sequence r = 1
      | EvPayloadEvent e \<Rightarrow> er_connection_generation r = Some gen
          \<and> (\<exists>a x. e = Ptr a x \<and> normalized_event_stream x = stream)))"

definition ev_wf :: "event_channel \<Rightarrow> bool" where
  "ev_wf c \<longleftrightarrow> ev_shape c
     \<and> (\<forall>p\<in>set (ev_contents c). own_record (ec_source_generation c) (ec_stream c) p)
     \<and> (ec_state c = EvActive \<longrightarrow> ec_terminal c = None)
     \<and> (ec_state c = EvTerminalUnavailable \<longrightarrow> ec_terminal c = None)
     \<and> (ec_state c = EvTerminalGap \<longrightarrow> ec_terminal c \<noteq> None)"

lemma ev_wf_shape [simp, intro]: "ev_wf c \<Longrightarrow> ev_shape c"
  by (simp add: ev_wf_def)

lemma ev_ring_push_locked_eq:
  assumes "ev_shape c" and "ec_size c < ec_ordinary_capacity c"
  obtains r where "ev_ring_push_locked (Ptr a x) c
      = (True, c\<lparr>ec_ordinary_ring := r, ec_size := ec_size c + 1\<rparr>)"
    and "length r = ec_ordinary_capacity c"
    and "ring_contents r (ec_head c) (Suc (ec_size c)) = ev_contents c @ [Ptr a x]"
proof
  let ?r = "(ec_ordinary_ring c)
    [(ec_head c + ec_size c) mod ec_ordinary_capacity c := Ptr a x]"
  show "ev_ring_push_locked (Ptr a x) c = (True, c\<lparr>ec_ordinary_ring := ?r, ec_size := ec_size c + 1\<rparr>)"
    using assms by (simp add: ev_ring_push_locked_def Let_def)
  show "length ?r = ec_ordinary_capacity c"
    using assms by (simp add: ev_shape_def)
  show "ring_contents ?r (ec_head c) (Suc (ec_size c)) = ev_contents c @ [Ptr a x]"
    using assms ring_contents_push [of "ec_head c" "ec_ordinary_ring c" "ec_size c" "Ptr a x"]
    by (simp add: ev_shape_def)
qed

lemma ev_clear_ring_locked_empty:
  assumes "ev_shape c"
  shows "ev_shape (ev_clear_ring_locked c) \<and> ec_size (ev_clear_ring_locked c) = 0
    \<and> ec_state (ev_clear_ring_locked c) = ec_state c
    \<and> ec_source_generation (ev_clear_ring_locked c) = ec_source_generation c
    \<and> ec_stream (ev_clear_ring_locked c) = ec_stream c
    \<and> ec_subscription_id (ev_clear_ring_locked c) = ec_subscription_id c"
  using assms
proof (induction c rule: ev_clear_ring_locked.induct)
  case (1 c)
  show ?case
  proof (cases "ec_size c = 0")
    case True
    with "1.prems" show ?thesis by (simp add: ev_clear_ring_locked.simps [of c])
  next
    case False
    with 1 ev.pop_front [of c] show ?thesis
      by (simp add: ev_clear_ring_locked.simps [of c]) (simp add: ev_ring_pop_locked_def)
  qed
qed

lemma ev_close_from_writer_facts:
  assumes "ev_wf c"
  shows "ev_wf (ev_close_from_writer c)" and "ec_state (ev_close_from_writer c) = EvClosed"
    and "ec_source_generation (ev_close_from_writer c) = ec_source_generation c"
    and "ec_stream (ev_close_from_writer c) = ec_stream c"
    and "ec_subscription_id (ev_close_from_writer c) = ec_subscription_id c"
  using assms ev_clear_ring_locked_empty [of "c\<lparr>ec_state := EvClosed\<rparr>"]
  by (auto simp: ev_close_from_writer_def ev_clear_from_writer_locked_def ev_wf_def ev_shape_def)

lemma ev_close_from_owner_wf: "ev_wf c \<Longrightarrow> ev_wf (ev_close_from_owner c)"
  by (auto simp: ev_close_from_owner_def ev_wf_def ev_shape_def)

section \<open>The channel refines the egress contract\<close>

definition ev_ack_label :: "peeked_event_publication \<Rightarrow> event_channel \<Rightarrow> nat option" where
  "ev_ack_label p c =
     (if ec_state c = EvClosed then None
      else case fst (ev_acknowledge p c) of
        EvAckAcknowledged \<Rightarrow>
          Some (unat (er_session_sequence (object (ec_ordinary_ring c ! ec_head c))))
      | EvAckClosed \<Rightarrow> map_option (\<lambda>t. unat (etd_session_sequence t)) (ec_terminal c)
      | EvAckMismatch \<Rightarrow> None)"

inductive event_channel_step :: "event_channel \<Rightarrow> nat option \<Rightarrow> event_channel \<Rightarrow> bool" where
  es_admit: "event_channel_step c None (snd (admit_event alloc e t c))"
| es_replacement: "event_channel_step c None (snd (terminalize_replacement t c))"
| es_unavailable: "event_channel_step c None (snd (close_unavailable c))"
| es_acknowledge: "event_channel_step c (ev_ack_label p c) (snd (ev_acknowledge p c))"
| es_close_owner: "event_channel_step c None (ev_close_from_owner c)"
| es_close_writer: "event_channel_step c None (ev_close_from_writer c)"

fun ev_phase_of :: "event_channel_state \<Rightarrow> egress_phase" where
  "ev_phase_of EvActive = Flowing"
| "ev_phase_of EvTerminalGap = Ending"
| "ev_phase_of EvTerminalUnavailable = Ending"
| "ev_phase_of EvClosed = Ended"

lemma ev_phase_of_Ended [simp]: "ev_phase_of s = Ended \<longleftrightarrow> s = EvClosed"
  by (cases s) simp_all

definition ev_abs :: "event_channel \<Rightarrow> egress" where
  "ev_abs c =
     \<lparr>eg_pending = map (\<lambda>p. unat (er_session_sequence (object p))) (ev_contents c),
      eg_terminal = map_option (\<lambda>t. unat (etd_session_sequence t)) (ec_terminal c),
      eg_next = (case ec_terminal c of
                   None \<Rightarrow> unat (ec_next_session_sequence c)
                 | Some t \<Rightarrow> Suc (unat (etd_session_sequence t))),
      eg_phase = ev_phase_of (ec_state c)\<rparr>"

lemma admit_event_cases:
  assumes "ev_wf c"
  obtains (same) "snd (admit_event al e t c) = c"
  | (slow) "ec_state c = EvActive" "ec_terminal c = None" "ec_size c = ec_ordinary_capacity c"
      "snd (admit_event al e t c) = c\<lparr>ec_terminal := Some
         \<lparr>etd_session_sequence = ec_next_session_sequence c,
          etd_connection_generation = ec_source_generation c,
          etd_published_at = t, etd_reason = CONSUMER_GAP_REASON_SLOW_CONSUMER,
          etd_recovery_action = RECOVERY_ACTION_RESUBSCRIBE\<rparr>,
         ec_next_session_sequence := ev_bump_sequence (ec_next_session_sequence c),
         ec_state := EvTerminalGap\<rparr>"
  | (admit) a b x r where "ec_state c = EvActive" "ec_terminal c = None"
      "ec_next_session_sequence c \<noteq> u64_max" "e = Ptr b x" "normalized_event_stream x = ec_stream c"
      "snd (admit_event al e t c) = c\<lparr>ec_ordinary_ring := r, ec_size := ec_size c + 1,
          ec_next_session_sequence := ec_next_session_sequence c + 1\<rparr>"
      "length r = ec_ordinary_capacity c" "ec_size c < ec_ordinary_capacity c"
      "ring_contents r (ec_head c) (Suc (ec_size c)) = ev_contents c
         @ [Ptr a \<lparr>er_session_sequence = ec_next_session_sequence c,
                  er_connection_generation = Some (ec_source_generation c),
                  er_published_at = t, er_payload = EvPayloadEvent e\<rparr>]"
proof (cases "ec_state c = EvActive \<and> (\<exists>b x. e = Ptr b x \<and> normalized_event_stream x = ec_stream c)")
  case False
  then have "snd (admit_event al e t c) = c"
    by (cases e) (auto simp: admit_event_def)
  then show ?thesis by (rule same)
next
  case True
  then obtain b x where e: "e = Ptr b x" "normalized_event_stream x = ec_stream c"
    and act: "ec_state c = EvActive" by blast
  with assms have t: "ec_terminal c = None" and le: "ec_size c \<le> ec_ordinary_capacity c"
    by (auto simp: ev_wf_def ev_shape_def)
  show ?thesis
  proof (cases "ec_size c = ec_ordinary_capacity c")
    case full: True
    with act t e show ?thesis by (intro slow) (simp_all add: admit_event_def)
  next
    case room: False
    show ?thesis
    proof (cases "ec_next_session_sequence c = u64_max \<or> al = None")
      case True
      with room e show ?thesis by (intro same) (auto simp: admit_event_def split: option.splits)
    next
      case False
      then obtain a where al: "al = Some a" by auto
      let ?x = "\<lparr>er_session_sequence = ec_next_session_sequence c,
                  er_connection_generation = Some (ec_source_generation c),
                  er_published_at = t, er_payload = EvPayloadEvent e\<rparr>"
      from room le have lt: "ec_size c < ec_ordinary_capacity c" by simp
      obtain r where r: "ev_ring_push_locked (Ptr a ?x) c
          = (True, c\<lparr>ec_ordinary_ring := r, ec_size := ec_size c + 1\<rparr>)"
        "length r = ec_ordinary_capacity c"
        "ring_contents r (ec_head c) (Suc (ec_size c)) = ev_contents c @ [Ptr a ?x]"
        using ev_ring_push_locked_eq [of c a ?x] lt assms by auto
      have "snd (admit_event al e t c) = c\<lparr>ec_ordinary_ring := r, ec_size := ec_size c + 1,
          ec_next_session_sequence := ec_next_session_sequence c + 1\<rparr>"
        using False act room e al r(1) by (simp add: admit_event_def)
      with False act t e lt r(2,3) show ?thesis by (intro admit) simp_all
    qed
  qed
qed

lemma admit_event_simulation:
  assumes "ev_wf c"
  shows "ev_wf (snd (admit_event al e t c))
    \<and> egress_step (ev_abs c) None (ev_abs (snd (admit_event al e t c)))"
  using assms
proof (cases rule: admit_event_cases [where al = al and e = e and t = t])
  case same
  with assms show ?thesis by (simp add: eg_stutter)
next
  case slow
  have "egress_step (ev_abs c) None ((ev_abs c)\<lparr>eg_terminal := Some (eg_next (ev_abs c)),
         eg_next := Suc (eg_next (ev_abs c)), eg_phase := Ending\<rparr>)"
    using slow by (intro eg_terminalize) (simp add: ev_abs_def)
  with slow assms show ?thesis
    by (auto simp: ev_abs_def ev_wf_def ev_shape_def)
next
  case (admit a b x r)
  have "egress_step (ev_abs c) None
      ((ev_abs c)\<lparr>eg_pending := eg_pending (ev_abs c) @ [eg_next (ev_abs c)],
         eg_next := Suc (eg_next (ev_abs c))\<rparr>)"
    using admit by (intro eg_admit) (simp add: ev_abs_def)
  moreover have "own_record (ec_source_generation c) (ec_stream c)
      (Ptr a \<lparr>er_session_sequence = ec_next_session_sequence c,
                  er_connection_generation = Some (ec_source_generation c),
                  er_published_at = t, er_payload = EvPayloadEvent e\<rparr>)"
    using admit by (simp add: own_record_def)
  ultimately show ?thesis
    using admit assms by (auto simp: ev_abs_def ev_wf_def ev_shape_def unat_Suc_u64)
qed

lemma terminalize_replacement_simulation:
  assumes "ev_wf c"
  shows "ev_wf (snd (terminalize_replacement t c))
    \<and> egress_step (ev_abs c) None (ev_abs (snd (terminalize_replacement t c)))"
proof (cases "ec_state c = EvActive \<and> ec_terminal c = None")
  case True
  have "egress_step (ev_abs c) None ((ev_abs c)\<lparr>eg_terminal := Some (eg_next (ev_abs c)),
         eg_next := Suc (eg_next (ev_abs c)), eg_phase := Ending\<rparr>)"
    using True by (intro eg_terminalize) (simp add: ev_abs_def)
  with True assms show ?thesis
    by (simp add: terminalize_replacement_def ev_abs_def ev_wf_def ev_shape_def)
next
  case False
  with assms show ?thesis by (auto simp: terminalize_replacement_def eg_stutter)
qed

lemma close_unavailable_simulation:
  assumes "ev_wf c"
  shows "ev_wf (snd (close_unavailable c))
    \<and> egress_step (ev_abs c) None (ev_abs (snd (close_unavailable c)))"
proof (cases "ec_state c = EvActive")
  case True
  have "egress_step (ev_abs c) None ((ev_abs c)\<lparr>eg_phase := Ending\<rparr>)"
    using True by (intro eg_unavailable) (simp add: ev_abs_def)
  with True assms show ?thesis
    by (simp add: close_unavailable_def ev_abs_def ev_wf_def ev_shape_def)
next
  case False
  with assms show ?thesis by (auto simp: close_unavailable_def eg_stutter)
qed

lemma ev_acknowledge_cases:
  assumes "ev_wf c"
  obtains (same) "snd (ev_acknowledge p c) = c" "ev_ack_label p c = None"
  | (pop) x xs where "ec_state c \<noteq> EvClosed" "ev_contents c = x # xs"
      "snd (ev_acknowledge p c) = ev_ring_pop_locked c"
      "ev_ack_label p c = Some (unat (er_session_sequence (object x)))"
  | (terminal) t where "ec_state c = EvTerminalGap" "ev_contents c = []"
      "ec_terminal c = Some t" "ev_ack_label p c = Some (unat (etd_session_sequence t))"
      "snd (ev_acknowledge p c) = c\<lparr>ec_terminal := None, ec_state := EvClosed\<rparr>"
proof (cases "fst (ev_acknowledge p c)")
  case EvAckAcknowledged
  then have pop: "snd (ev_acknowledge p c) = ev_ring_pop_locked c" "ec_size c \<noteq> 0"
      "ec_state c \<noteq> EvClosed"
    by (auto simp: ev_acknowledge_def split: if_splits)
  then have "ev_contents c = ec_ordinary_ring c ! ec_head c # tl (ev_contents c)"
    using ev.front_hd [of c] assms by (metis ev_wf_shape list.collapse ring_contents_eq_Nil)
  with pop EvAckAcknowledged that(2) show ?thesis by (auto simp: ev_ack_label_def)
next
  case EvAckClosed
  show ?thesis
  proof (cases "ec_state c = EvClosed")
    case True
    with that(1) show ?thesis by (simp add: ev_acknowledge_def ev_ack_label_def)
  next
    case False
    with EvAckClosed obtain t where t: "ec_size c = 0" "ec_terminal c = Some t"
        "snd (ev_acknowledge p c) = c\<lparr>ec_terminal := None, ec_state := EvClosed\<rparr>"
      by (auto simp: ev_acknowledge_def split: if_splits)
    with False assms have "ec_state c = EvTerminalGap"
      by (cases "ec_state c") (auto simp: ev_wf_def)
    with t False EvAckClosed that(3) show ?thesis by (simp add: ev_ack_label_def)
  qed
next
  case EvAckMismatch
  then have "snd (ev_acknowledge p c) = c" by (auto simp: ev_acknowledge_def split: if_splits)
  with EvAckMismatch that(1) show ?thesis by (auto simp: ev_ack_label_def)
qed

lemma ev_ring_pop_locked_wf:
  assumes "ev_wf c" and "ev_contents c = x # xs"
  shows "ev_wf (ev_ring_pop_locked c)"
proof -
  have xs: "ev_contents (ev_ring_pop_locked c) = xs" and sh: "ev_shape (ev_ring_pop_locked c)"
    using assms ev.pop_front [of c] by auto
  have same: "ec_state (ev_ring_pop_locked c) = ec_state c"
      "ec_terminal (ev_ring_pop_locked c) = ec_terminal c"
      "ec_source_generation (ev_ring_pop_locked c) = ec_source_generation c"
      "ec_stream (ev_ring_pop_locked c) = ec_stream c"
    by (simp_all add: ev_ring_pop_locked_def)
  show ?thesis
    using assms unfolding ev_wf_def xs same by (simp add: sh)
qed

lemma ev_acknowledge_simulation:
  assumes "ev_wf c"
  shows "ev_wf (snd (ev_acknowledge p c))
    \<and> egress_step (ev_abs c) (ev_ack_label p c) (ev_abs (snd (ev_acknowledge p c)))"
  using assms
proof (cases rule: ev_acknowledge_cases [where p = p])
  case same
  with assms show ?thesis by (simp add: eg_stutter)
next
  case (pop x xs)
  then have xs: "ev_contents (ev_ring_pop_locked c) = xs"
    using ev.pop_front [of c] assms by auto
  have "egress_step (ev_abs c) (Some (unat (er_session_sequence (object x))))
      ((ev_abs c)\<lparr>eg_pending := map (\<lambda>p. unat (er_session_sequence (object p))) xs\<rparr>)"
    using pop by (intro eg_deliver) (simp_all add: ev_abs_def)
  moreover have "ev_abs (ev_ring_pop_locked c) =
      (ev_abs c)\<lparr>eg_pending := map (\<lambda>p. unat (er_session_sequence (object p))) xs\<rparr>"
    unfolding ev_abs_def xs by (simp add: ev_ring_pop_locked_def split: option.splits)
  ultimately show ?thesis
    using pop assms ev_ring_pop_locked_wf [of c] by simp
next
  case (terminal t)
  then have "egress_step (ev_abs c) (Some (unat (etd_session_sequence t)))
      (ev_abs (c\<lparr>ec_terminal := None, ec_state := EvClosed\<rparr>))"
    by (intro eg_deliver_terminal) (simp_all add: ev_abs_def)
  with terminal assms show ?thesis
    by (auto simp: ev_wf_def ev_shape_def)
qed

interpretation ev_egress: egress_channel event_channel_step ev_wf ev_abs
proof unfold_locales
  fix c l c'
  assume wf: "ev_wf c" and st: "event_channel_step c l c'"
  from st show "ev_wf c' \<and> egress_step (ev_abs c) l (ev_abs c')"
  proof cases
    case es_close_owner
    with wf show ?thesis
      by (simp add: ev_close_from_owner_wf) (intro eg_close, simp add: ev_abs_def ev_close_from_owner_def)
  next
    case es_close_writer
    with wf show ?thesis
      by (simp add: ev_close_from_writer_facts)
        (intro eg_close, simp add: ev_abs_def ev_close_from_writer_facts)
  qed (use wf admit_event_simulation terminalize_replacement_simulation
        close_unavailable_simulation ev_acknowledge_simulation in blast)+
qed

end
