(* ===== verification/EventPublication.thy ===== *)
theory EventPublication
  imports EventChannel
begin

text \<open>
  The event publication hub of \<open>src/src/g9/event_publication.{hpp,cpp}\<close>: the life cycle of
  one source generation at a time and the fan-out of normalized events to the channels of
  that generation. Channels are objects in a store, addressed by the pointers the hub keeps
  and the RPC writers share. A clock reading is an argument (\<open>None\<close>: the clock threw), and
  so is the address of every object the operation allocates (\<open>None\<close>: \<open>std::bad_alloc\<close>).
\<close>

section \<open>Data\<close>

datatype event_source_state = SrcClosed | SrcOpen | SrcQuiesced | SrcPermanentlyClosed | SrcShutdown

datatype event_subscription_admission_error =
    EvSourceUnavailable | EvActiveLimit | EvClockError | EvIdExhausted | EvInternalError
  | EvShuttingDown

datatype event_publish_result = EvPublished | EvIgnoredBeforeOpen | EvInvariantFailure

record event_publication_observation =
  eo_source_state :: event_source_state
  eo_source_generation :: "u64 option"
  eo_active_subscriptions :: nat

record event_publication =
  ep_gateway_instance_id :: string
  ep_limits :: event_publication_limits
  ep_source_state :: event_source_state
  ep_source_generation :: "u64 option"
  ep_next_subscription_id :: u64
  ep_channels :: "nat list"
  ep_store :: "nat \<Rightarrow> event_channel option"

section \<open>Operations\<close>

text \<open>The constructor; \<open>has_clock\<close> is whether a clock function was injected.\<close>

definition make_event_publication ::
  "string \<Rightarrow> bool \<Rightarrow> event_publication_limits \<Rightarrow> event_publication option" where
  "make_event_publication gateway_instance_id has_clock limits =
     (if gateway_instance_id = [] \<or> \<not> has_clock
         \<or> el_maximum_active_subscriptions limits = 0
         \<or> el_maximum_active_subscriptions limits > kMaximumActiveEventSubscriptions
         \<or> el_ordinary_queue_capacity limits = 0
         \<or> el_ordinary_queue_capacity limits > kEventOrdinaryQueueCapacity
      then None
      else Some \<lparr>ep_gateway_instance_id = gateway_instance_id, ep_limits = limits,
                 ep_source_state = SrcClosed, ep_source_generation = None,
                 ep_next_subscription_id = 1, ep_channels = [], ep_store = (\<lambda>_. None)\<rparr>)"

definition sample_event_time :: "clock_sample option \<Rightarrow> event_publication_time option" where
  "sample_event_time clock =
     map_option (\<lambda>s. \<lparr>et_utc_ns = cs_utc_ns s, et_monotonic_ns = Some (cs_monotonic_ns s)\<rparr>) clock"

definition open_generation :: "u64 \<Rightarrow> event_publication \<Rightarrow> bool \<times> event_publication" where
  "open_generation generation p =
     (if generation = 0 \<or> ep_source_state p = SrcShutdown
         \<or> ep_source_state p = SrcPermanentlyClosed \<or> ep_source_state p = SrcOpen
         \<or> ep_source_state p = SrcQuiesced
         \<or> (case ep_source_generation p of None \<Rightarrow> False | Some g \<Rightarrow> generation \<le> g)
      then (False, p)
      else (True, p\<lparr>ep_source_generation := Some generation, ep_source_state := SrcOpen\<rparr>))"

definition quiesce_generation :: "u64 \<Rightarrow> event_publication \<Rightarrow> bool \<times> event_publication" where
  "quiesce_generation generation p =
     (if ep_source_state p \<noteq> SrcOpen \<or> ep_source_generation p \<noteq> Some generation then (False, p)
      else (True, p\<lparr>ep_source_state := SrcQuiesced\<rparr>))"

text \<open>A pass over the channels that changes those of one generation.\<close>

fun update_generation ::
  "u64 \<Rightarrow> (event_channel \<Rightarrow> event_channel) \<Rightarrow> nat list \<Rightarrow> (nat \<Rightarrow> event_channel option)
     \<Rightarrow> (nat \<Rightarrow> event_channel option)" where
  "update_generation generation f [] store = store"
| "update_generation generation f (a # as) store =
     update_generation generation f as
       (case store a of
          None \<Rightarrow> store
        | Some c \<Rightarrow> if ec_source_generation c = generation then store(a \<mapsto> f c) else store)"

definition terminalize_replaced_locked ::
  "u64 \<Rightarrow> event_publication_time \<Rightarrow> event_publication \<Rightarrow> bool \<times> event_publication" where
  "terminalize_replaced_locked generation published_at p =
     (True, p\<lparr>ep_store := update_generation generation
        (\<lambda>c. snd (terminalize_replacement published_at c)) (ep_channels p) (ep_store p)\<rparr>)"

definition close_generation_replaced ::
  "clock_sample option \<Rightarrow> u64 \<Rightarrow> event_publication \<Rightarrow> bool \<times> event_publication" where
  "close_generation_replaced clock generation p =
     (case sample_event_time clock of
        None \<Rightarrow> (False, p)
      | Some published_at \<Rightarrow>
          if ep_source_state p \<noteq> SrcQuiesced \<or> ep_source_generation p \<noteq> Some generation
          then (False, p)
          else let (ok, p') = terminalize_replaced_locked generation published_at p
               in if \<not> ok then (False, p') else (True, p'\<lparr>ep_source_state := SrcClosed\<rparr>))"

definition close_generation_permanently :: "u64 \<Rightarrow> event_publication \<Rightarrow> bool \<times> event_publication" where
  "close_generation_permanently generation p =
     (if ep_source_state p \<noteq> SrcQuiesced \<or> ep_source_generation p \<noteq> Some generation
      then (False, p)
      else (True, p\<lparr>ep_store := update_generation generation (\<lambda>c. snd (close_unavailable c))
                      (ep_channels p) (ep_store p),
                    ep_source_state := SrcPermanentlyClosed\<rparr>))"

text \<open>Admission; the result is the address of the accepted channel.\<close>

definition ep_admit ::
  "clock_sample option \<Rightarrow> nat option \<Rightarrow> nat option \<Rightarrow> validated_event_subscription
     \<Rightarrow> event_publication \<Rightarrow> (event_subscription_admission_error + nat) \<times> event_publication" where
  "ep_admit clock channel_alloc record_alloc subscription p =
     (case sample_event_time clock of
        None \<Rightarrow> (Inl EvClockError, p)
      | Some published_at \<Rightarrow>
          if ep_source_state p = SrcShutdown then (Inl EvShuttingDown, p)
          else case (ep_source_state p, ep_source_generation p) of
            (SrcOpen, Some generation) \<Rightarrow>
              if length (ep_channels p) = el_maximum_active_subscriptions (ep_limits p)
              then (Inl EvActiveLimit, p)
              else if ep_next_subscription_id p = u64_max then (Inl EvIdExhausted, p)
              else
                let subscription_id = ''ev-'' @ to_string_u64 (ep_next_subscription_id p) in
                (case (channel_alloc,
                       make_event_channel subscription_id (ep_gateway_instance_id p)
                         (ves_stream subscription) generation
                         (el_ordinary_queue_capacity (ep_limits p)),
                       record_alloc) of
                   (Some a, Some c, Some r) \<Rightarrow>
                     (case stage_accepted (Ptr r (make_event_accepted_record subscription
                             subscription_id (ep_gateway_instance_id p) published_at)) c of
                        (False, _) \<Rightarrow> (Inl EvInternalError, p)
                      | (True, c') \<Rightarrow>
                          (Inr a, p\<lparr>ep_channels := ep_channels p @ [a],
                                    ep_store := (ep_store p)(a \<mapsto> c'),
                                    ep_next_subscription_id := ep_next_subscription_id p + 1\<rparr>))
                 | _ \<Rightarrow> (Inl EvInternalError, p))
          | _ \<Rightarrow> (Inl EvSourceUnavailable, p))"

text \<open>The fan-out loop: \<open>False\<close> is the early return on an allocation failure.\<close>

fun publish_loop ::
  "(nat \<Rightarrow> nat option) \<Rightarrow> normalized_market_event shared_ptr \<Rightarrow> wire_stream \<Rightarrow> u64
     \<Rightarrow> event_publication_time \<Rightarrow> nat list \<Rightarrow> (nat \<Rightarrow> event_channel option)
     \<Rightarrow> bool \<times> (nat \<Rightarrow> event_channel option)" where
  "publish_loop alloc event stream generation published_at [] store = (True, store)"
| "publish_loop alloc event stream generation published_at (a # as) store =
     (case store a of
        None \<Rightarrow> publish_loop alloc event stream generation published_at as store
      | Some c \<Rightarrow>
          if ec_stream c \<noteq> stream \<or> ec_source_generation c \<noteq> generation
          then publish_loop alloc event stream generation published_at as store
          else case admit_event (alloc a) event published_at c of
            (res, c') \<Rightarrow>
              if res = EvAdmAllocationFailure then (False, store(a \<mapsto> c'))
              else publish_loop alloc event stream generation published_at as (store(a \<mapsto> c')))"

definition publish ::
  "clock_sample option \<Rightarrow> (nat \<Rightarrow> nat option) \<Rightarrow> normalized_market_event shared_ptr \<Rightarrow> u64
     \<Rightarrow> event_publication \<Rightarrow> event_publish_result \<times> event_publication" where
  "publish clock alloc event generation p =
     (case event of
        Null \<Rightarrow> (EvInvariantFailure, p)
      | Ptr _ e \<Rightarrow>
         (case sample_event_time clock of
            None \<Rightarrow> (EvInvariantFailure, p)
          | Some published_at \<Rightarrow>
              if ep_source_state p = SrcShutdown
                 \<or> (ep_source_state p = SrcClosed
                    \<and> (case ep_source_generation p of None \<Rightarrow> True | Some g \<Rightarrow> generation > g))
              then (EvIgnoredBeforeOpen, p)
              else if ep_source_state p \<noteq> SrcOpen \<or> ep_source_generation p \<noteq> Some generation
              then (EvInvariantFailure, p)
              else case publish_loop alloc event (normalized_event_stream e) generation
                     published_at (ep_channels p) (ep_store p) of
                (ok, store') \<Rightarrow>
                  (if ok then EvPublished else EvInvariantFailure, p\<lparr>ep_store := store'\<rparr>)))"

text \<open>\<open>remove\<close> erases the first occurrence of the pointer; the channel object itself lives on
  while a writer holds it.\<close>

definition ep_remove :: "nat option \<Rightarrow> event_publication \<Rightarrow> event_publication" where
  "ep_remove channel p =
     (case channel of
        None \<Rightarrow> p
      | Some a \<Rightarrow> p\<lparr>ep_channels := remove1 a (ep_channels p)\<rparr>)"

fun close_all_from_owner ::
  "nat list \<Rightarrow> (nat \<Rightarrow> event_channel option) \<Rightarrow> (nat \<Rightarrow> event_channel option)" where
  "close_all_from_owner [] store = store"
| "close_all_from_owner (a # as) store =
     close_all_from_owner as
       (case store a of None \<Rightarrow> store | Some c \<Rightarrow> store(a \<mapsto> ev_close_from_owner c))"

definition ep_shutdown :: "event_publication \<Rightarrow> event_publication" where
  "ep_shutdown p =
     (if ep_source_state p = SrcShutdown then p
      else p\<lparr>ep_source_state := SrcShutdown,
             ep_store := close_all_from_owner (ep_channels p) (ep_store p)\<rparr>)"

definition ep_observe :: "event_publication \<Rightarrow> event_publication_observation" where
  "ep_observe p = \<lparr>eo_source_state = ep_source_state p, eo_source_generation = ep_source_generation p,
     eo_active_subscriptions = length (ep_channels p)\<rparr>"

section \<open>Steps of the hub and its writers\<close>

inductive event_publication_step :: "event_publication \<Rightarrow> event_publication \<Rightarrow> bool" where
  eps_open: "event_publication_step p (snd (open_generation g p))"
| eps_quiesce: "event_publication_step p (snd (quiesce_generation g p))"
| eps_replaced: "event_publication_step p (snd (close_generation_replaced clk g p))"
| eps_permanent: "event_publication_step p (snd (close_generation_permanently g p))"
| eps_admit: "(case ca of None \<Rightarrow> True | Some a \<Rightarrow> ep_store p a = None) \<Longrightarrow>
    event_publication_step p (snd (ep_admit clk ca ra sub p))"
| eps_publish: "event_publication_step p (snd (publish clk alloc e g p))"
| eps_remove: "event_publication_step p (ep_remove ch p)"
| eps_shutdown: "event_publication_step p (ep_shutdown p)"
| eps_writer_ack: "ep_store p a = Some c \<Longrightarrow> event_publication_step p
    (p\<lparr>ep_store := (ep_store p)(a \<mapsto> snd (ev_acknowledge q c))\<rparr>)"
| eps_writer_close: "ep_store p a = Some c \<Longrightarrow> event_publication_step p
    (p\<lparr>ep_store := (ep_store p)(a \<mapsto> ev_close_from_writer c)\<rparr>)"

text \<open>
  What the hub keeps true: the registered channels are distinct live objects, at most as many
  as configured, with distinct subscription ids below the next one; every channel is
  well-formed; and a registered channel that is still active belongs to the source
  generation that is open (or quiesced, waiting to be closed).
\<close>

definition id_of :: "u64 \<Rightarrow> string" where
  "id_of k = ''ev-'' @ to_string_u64 k"

lemma id_of_inject [simp]: "id_of j = id_of k \<longleftrightarrow> j = k"
  by (simp add: id_of_def)

definition source_live :: "event_publication \<Rightarrow> u64 \<Rightarrow> bool" where
  "source_live p g \<longleftrightarrow> ep_source_state p \<in> {SrcOpen, SrcQuiesced} \<and> ep_source_generation p = Some g"

definition ep_inv :: "event_publication \<Rightarrow> bool" where
  "ep_inv p \<longleftrightarrow>
     0 < el_ordinary_queue_capacity (ep_limits p)
   \<and> length (ep_channels p) \<le> el_maximum_active_subscriptions (ep_limits p)
   \<and> distinct (ep_channels p)
   \<and> (\<forall>a c. ep_store p a = Some c \<longrightarrow> ev_wf c)
   \<and> (\<forall>a\<in>set (ep_channels p). \<exists>c k. ep_store p a = Some c \<and> ec_subscription_id c = id_of k
        \<and> k < ep_next_subscription_id p
        \<and> (ec_state c = EvActive \<longrightarrow> source_live p (ec_source_generation c)))
   \<and> (\<forall>a\<in>set (ep_channels p). \<forall>b\<in>set (ep_channels p).
        map_option ec_subscription_id (ep_store p a) = map_option ec_subscription_id (ep_store p b)
        \<longrightarrow> a = b)"

section \<open>How channels in the store evolve\<close>

text \<open>
  Every operation on a channel keeps it well-formed, keeps its identity, stream and
  generation, and never revives it. Lifted to the store, this is all the hub's invariant
  needs to know about them.
\<close>

definition evolves :: "event_channel \<Rightarrow> event_channel \<Rightarrow> bool" where
  "evolves c c' \<longleftrightarrow> (ev_wf c \<longrightarrow> ev_wf c' \<and> ec_subscription_id c' = ec_subscription_id c
     \<and> ec_source_generation c' = ec_source_generation c \<and> ec_stream c' = ec_stream c
     \<and> (ec_state c' = EvActive \<longrightarrow> ec_state c = EvActive))"

definition store_evolves ::
  "(nat \<Rightarrow> event_channel option) \<Rightarrow> (nat \<Rightarrow> event_channel option) \<Rightarrow> bool" where
  "store_evolves s s' \<longleftrightarrow> (\<forall>a. rel_option evolves (s a) (s' a))"

lemma evolves_refl [simp, intro]: "evolves c c"
  by (simp add: evolves_def)

lemma evolves_trans: "evolves a b \<Longrightarrow> evolves b c \<Longrightarrow> evolves a c"
  by (auto simp: evolves_def)

lemma evolves_admit_event: "evolves c (snd (admit_event al e t c))"
proof (cases "ev_wf c")
  case True
  then show ?thesis
    using admit_event_simulation [OF True, of al e t]
    by (cases rule: admit_event_cases [where al = al and e = e and t = t]) (auto simp: evolves_def)
qed (simp add: evolves_def)

lemma evolves_acknowledge: "evolves c (snd (ev_acknowledge q c))"
  using ev_acknowledge_simulation [of c q]
  by (auto simp: evolves_def ev_acknowledge_def ev_ring_pop_locked_def)

lemma evolves_replacement: "evolves c (snd (terminalize_replacement t c))"
  using terminalize_replacement_simulation [of c t]
  by (auto simp: evolves_def terminalize_replacement_def)

lemma evolves_unavailable: "evolves c (snd (close_unavailable c))"
  using close_unavailable_simulation [of c]
  by (auto simp: evolves_def close_unavailable_def)

lemma evolves_close_owner: "evolves c (ev_close_from_owner c)"
  using ev_close_from_owner_wf [of c] by (auto simp: evolves_def ev_close_from_owner_def)

lemma evolves_close_writer: "evolves c (ev_close_from_writer c)"
  using ev_close_from_writer_facts [of c] by (auto simp: evolves_def)

lemmas evolves_intros = evolves_admit_event evolves_acknowledge evolves_replacement
  evolves_unavailable evolves_close_owner evolves_close_writer

lemma rel_option_evolves_refl [simp, intro]: "rel_option evolves x x"
  by (cases x) auto

lemma store_evolves_refl [simp, intro]: "store_evolves s s"
  by (simp add: store_evolves_def)

lemma store_evolves_trans:
  assumes "store_evolves s t" and "store_evolves t u"
  shows "store_evolves s u"
  unfolding store_evolves_def
proof
  fix a
  from assms have "rel_option evolves (s a) (t a)" "rel_option evolves (t a) (u a)"
    by (simp_all add: store_evolves_def)
  then show "rel_option evolves (s a) (u a)"
    by (cases "s a"; cases "t a"; cases "u a") (auto intro: evolves_trans)
qed

lemma store_evolves_upd:
  "s a = Some c \<Longrightarrow> evolves c c' \<Longrightarrow> store_evolves s (s(a \<mapsto> c'))"
  by (auto simp: store_evolves_def)

lemma publish_loop_evolves:
  "store_evolves store (snd (publish_loop al e st g t as store))"
proof (induction as arbitrary: store)
  case (Cons a as)
  show ?case
  proof (cases "store a")
    case None
    with Cons show ?thesis by simp
  next
    case (Some c)
    obtain res c' where adm: "admit_event (al a) e t c = (res, c')" by fastforce
    then have "store_evolves store (store(a \<mapsto> c'))"
      using evolves_admit_event [of c "al a" e t] Some by (intro store_evolves_upd) auto
    moreover from this have "store_evolves store (snd (publish_loop al e st g t as (store(a \<mapsto> c'))))"
      using Cons store_evolves_trans by blast
    ultimately show ?thesis using Some adm Cons [of store] by simp
  qed
qed simp

lemma update_generation_apply:
  "distinct as \<Longrightarrow> update_generation g f as store a =
     (if a \<in> set as
      then map_option (\<lambda>c. if ec_source_generation c = g then f c else c) (store a)
      else store a)"
  by (induction as arbitrary: store) (auto split: option.splits)

lemma update_generation_evolves:
  "distinct as \<Longrightarrow> (\<And>c. evolves c (f c)) \<Longrightarrow> store_evolves store (update_generation g f as store)"
  unfolding store_evolves_def
  by (auto simp: update_generation_apply option.rel_map intro: option.rel_refl_strong)

lemma close_all_from_owner_apply:
  "distinct as \<Longrightarrow> close_all_from_owner as store a =
     (if a \<in> set as then map_option ev_close_from_owner (store a) else store a)"
  by (induction as arbitrary: store) (auto split: option.splits)

lemma close_all_from_owner_evolves:
  "distinct as \<Longrightarrow> store_evolves store (close_all_from_owner as store)"
  unfolding store_evolves_def
  by (auto simp: close_all_from_owner_apply option.rel_map evolves_close_owner
      intro: option.rel_refl_strong)

section \<open>The invariant is kept\<close>

lemma store_evolvesE:
  assumes "store_evolves s s'" and "s a = Some c"
  obtains c' where "s' a = Some c'" and "evolves c c'"
  using assms by (metis option_rel_Some1 store_evolves_def)

lemma store_evolves_back:
  assumes "store_evolves s s'" and "s' a = Some c'"
  obtains c where "s a = Some c" and "evolves c c'"
  using assms by (metis option_rel_Some2 store_evolves_def)

text \<open>The workhorse: the store evolves, and the source state changes only in a way under which
  every registered channel that is still active stays covered.\<close>

lemma ep_inv_evolve:
  assumes inv: "ep_inv p" and ev: "store_evolves (ep_store p) (ep_store p')"
    and same: "ep_channels p' = ep_channels p" "ep_limits p' = ep_limits p"
      "ep_next_subscription_id p' = ep_next_subscription_id p"
    and live: "\<And>a c c'. a \<in> set (ep_channels p) \<Longrightarrow> ep_store p a = Some c \<Longrightarrow>
        ep_store p' a = Some c' \<Longrightarrow> evolves c c' \<Longrightarrow> ev_wf c \<Longrightarrow> ec_state c' = EvActive \<Longrightarrow>
        source_live p (ec_source_generation c) \<Longrightarrow> source_live p' (ec_source_generation c)"
  shows "ep_inv p'"
proof -
  have wf: "ev_wf c'" if "ep_store p' a = Some c'" for a c'
    using store_evolves_back [OF ev that] inv by (metis ep_inv_def evolves_def)
  have chan: "\<exists>c k. ep_store p' a = Some c \<and> ec_subscription_id c = id_of k
        \<and> k < ep_next_subscription_id p'
        \<and> (ec_state c = EvActive \<longrightarrow> source_live p' (ec_source_generation c))"
    if a: "a \<in> set (ep_channels p)" for a
  proof -
    from inv a obtain c k where c: "ep_store p a = Some c" "ec_subscription_id c = id_of k"
        "k < ep_next_subscription_id p" "ec_state c = EvActive \<longrightarrow> source_live p (ec_source_generation c)"
      by (auto simp: ep_inv_def)
    from inv c have cwf: "ev_wf c" by (auto simp: ep_inv_def)
    obtain c' where c': "ep_store p' a = Some c'" "evolves c c'"
      using store_evolvesE [OF ev c(1)] .
    with cwf c live [OF a c(1) c'(1) c'(2) cwf] show ?thesis
      using same by (auto simp: evolves_def)
  qed
  have ids: "map_option ec_subscription_id (ep_store p' a) = map_option ec_subscription_id (ep_store p a)"
    if "a \<in> set (ep_channels p)" for a
    using that inv store_evolvesE [OF ev, of a]
    by (metis (no_types, lifting) ep_inv_def evolves_def option.map(2))
  show ?thesis
    using inv wf chan ids same by (auto simp: ep_inv_def)
qed

lemma ep_inv_store:
  assumes "ep_inv p" and "store_evolves (ep_store p) s'"
  shows "ep_inv (p\<lparr>ep_store := s'\<rparr>)"
  by (rule ep_inv_evolve [OF assms(1)]) (use assms(2) in \<open>auto simp: source_live_def\<close>)

lemma ep_inv_distinct: "ep_inv p \<Longrightarrow> distinct (ep_channels p)"
  by (simp add: ep_inv_def)

lemma stage_accepted_fresh:
  assumes "make_event_channel i gw st g n = Some c" and "stage_accepted (Ptr r rec) c = (True, c')"
  shows "ev_wf c'" and "ec_subscription_id c' = i" and "ec_source_generation c' = g"
    and "ec_stream c' = st" and "ec_state c' = EvActive" and "ev_contents c' = [Ptr r rec]"
    and "ec_next_session_sequence c' = 2" and "ec_terminal c' = None"
    and "er_session_sequence rec = 1"
proof -
  have c: "ev_shape c" "ec_size c = 0" "ec_size c < ec_ordinary_capacity c" "ec_subscription_id c = i"
      "ec_source_generation c = g" "ec_stream c = st" "ec_state c = EvActive" "ec_terminal c = None"
    using assms(1) by (auto simp: make_event_channel_def ev_shape_def split: if_splits)
  obtain q where q: "ev_ring_push_locked (Ptr r rec) c
      = (True, c\<lparr>ec_ordinary_ring := q, ec_size := ec_size c + 1\<rparr>)"
    "length q = ec_ordinary_capacity c"
    "ring_contents q (ec_head c) (Suc (ec_size c)) = ev_contents c @ [Ptr r rec]"
    using ev_ring_push_locked_eq [OF c(1,3)] .
  then have c': "c' = c\<lparr>ec_ordinary_ring := q, ec_size := 1, ec_next_session_sequence := 2\<rparr>"
    and rec: "er_session_sequence rec = 1" "\<exists>x. er_payload rec = EvPayloadAccepted x"
    using assms(2) c by (auto simp: stage_accepted_def split: if_splits event_ordinary_payload.splits)
  have cont: "ev_contents c' = [Ptr r rec]" using q(3) c c' by simp
  then show "ev_wf c'"
    using c q(2) rec unfolding c' by (auto simp: ev_wf_def ev_shape_def own_record_def)
  show "ec_subscription_id c' = i" "ec_source_generation c' = g" "ec_stream c' = st"
    "ec_state c' = EvActive" "ec_next_session_sequence c' = 2" "ec_terminal c' = None"
    using c c' by simp_all
  show "ev_contents c' = [Ptr r rec]" by (fact cont)
  show "er_session_sequence rec = 1" by (fact rec(1))
qed

lemma ep_admit_cases:
  obtains (rejected) e where "ep_admit clk ca ra sub p = (Inl e, p)"
  | (accepted) a r c c' g t where "ca = Some a" "ep_source_state p = SrcOpen"
      "ep_source_generation p = Some g" "sample_event_time clk = Some t"
      "length (ep_channels p) \<noteq> el_maximum_active_subscriptions (ep_limits p)"
      "ep_next_subscription_id p \<noteq> u64_max"
      "make_event_channel (id_of (ep_next_subscription_id p)) (ep_gateway_instance_id p)
         (ves_stream sub) g (el_ordinary_queue_capacity (ep_limits p)) = Some c"
      "stage_accepted (Ptr r (make_event_accepted_record sub (id_of (ep_next_subscription_id p))
         (ep_gateway_instance_id p) t)) c = (True, c')"
      "ep_admit clk ca ra sub p = (Inr a, p\<lparr>ep_channels := ep_channels p @ [a],
         ep_store := (ep_store p)(a \<mapsto> c'), ep_next_subscription_id := ep_next_subscription_id p + 1\<rparr>)"
proof (cases "\<exists>e. ep_admit clk ca ra sub p = (Inl e, p)")
  case True
  then show ?thesis using rejected by blast
next
  case False
  then obtain t where t: "sample_event_time clk = Some t"
    by (cases "sample_event_time clk") (auto simp: ep_admit_def)
  from False t have open_: "ep_source_state p = SrcOpen"
    by (cases "ep_source_state p") (auto simp: ep_admit_def)
  from False t open_ obtain g where g: "ep_source_generation p = Some g"
    by (cases "ep_source_generation p") (auto simp: ep_admit_def)
  from False t open_ g have room: "length (ep_channels p) \<noteq> el_maximum_active_subscriptions (ep_limits p)"
    by (auto simp: ep_admit_def)
  from False t open_ g room have "ep_next_subscription_id p \<noteq> u64_max"
    by (auto simp: ep_admit_def)
  note lim = room this
  from False t open_ g lim obtain a where a: "ca = Some a"
    by (cases ca) (auto simp: ep_admit_def)
  from False t open_ g lim a obtain c where c: "make_event_channel (id_of (ep_next_subscription_id p))
      (ep_gateway_instance_id p) (ves_stream sub) g (el_ordinary_queue_capacity (ep_limits p)) = Some c"
    by (cases "make_event_channel (id_of (ep_next_subscription_id p))
      (ep_gateway_instance_id p) (ves_stream sub) g (el_ordinary_queue_capacity (ep_limits p))")
      (auto simp: ep_admit_def id_of_def)
  from False t open_ g lim a c obtain r where r: "ra = Some r"
    by (cases ra) (auto simp: ep_admit_def id_of_def)
  obtain ok c' where s: "stage_accepted (Ptr r (make_event_accepted_record sub
      (id_of (ep_next_subscription_id p)) (ep_gateway_instance_id p) t)) c = (ok, c')"
    by fastforce
  from False t open_ g lim a c r s have "ok"
    by (cases ok) (auto simp: ep_admit_def id_of_def)
  with t open_ g lim a c r s show ?thesis
    by (intro accepted) (auto simp: ep_admit_def id_of_def)
qed

lemma ep_inv_admit:
  assumes inv: "ep_inv p" and fresh: "case ca of None \<Rightarrow> True | Some a \<Rightarrow> ep_store p a = None"
  shows "ep_inv (snd (ep_admit clk ca ra sub p))"
proof (cases rule: ep_admit_cases [where clk = clk and ca = ca and ra = ra and sub = sub and p = p])
  case (rejected e)
  with inv show ?thesis by simp
next
  case (accepted a r c c' g t)
  let ?p = "snd (ep_admit clk ca ra sub p)"
  note c' = stage_accepted_fresh [OF accepted(7,8)]
  from fresh accepted(1) have none: "ep_store p a = None" by simp
  with inv have a: "a \<notin> set (ep_channels p)" by (auto simp: ep_inv_def)
  have next_: "k < ep_next_subscription_id p \<Longrightarrow> k < ep_next_subscription_id p + 1" for k
    using less_Suc_u64 [OF accepted(6)] by (metis order.strict_trans)
  have live: "source_live ?p x = source_live p x" for x
    using accepted(9) by (simp add: source_live_def)
  have chan: "\<exists>d k. ep_store ?p b = Some d \<and> ec_subscription_id d = id_of k
        \<and> k < ep_next_subscription_id ?p \<and> (ec_state d = EvActive \<longrightarrow> source_live ?p (ec_source_generation d))"
    if "b \<in> set (ep_channels ?p)" for b
  proof (cases "b = a")
    case True
    with accepted c' less_Suc_u64 [OF accepted(6)] show ?thesis
      by (auto simp: source_live_def)
  next
    case False
    with that accepted(9) have "b \<in> set (ep_channels p)" by simp
    with inv next_ False accepted(9) live show ?thesis by (fastforce simp: ep_inv_def)
  qed
  have other: "map_option ec_subscription_id (ep_store p b) \<noteq> Some (id_of (ep_next_subscription_id p))"
    if "b \<in> set (ep_channels p)" for b
    using inv that by (force simp: ep_inv_def)
  have ids: "x = y" if "x \<in> set (ep_channels ?p)" "y \<in> set (ep_channels ?p)"
      "map_option ec_subscription_id (ep_store ?p x) = map_option ec_subscription_id (ep_store ?p y)" for x y
    using that accepted(9) c'(2) other [of x] other [of y] inv
    by (auto simp: ep_inv_def split: if_splits)
  show ?thesis
    unfolding ep_inv_def
  proof (intro conjI)
    show "0 < el_ordinary_queue_capacity (ep_limits ?p)" using inv accepted(9) by (simp add: ep_inv_def)
    show "length (ep_channels ?p) \<le> el_maximum_active_subscriptions (ep_limits ?p)"
      using inv accepted(5,9) by (simp add: ep_inv_def)
    show "distinct (ep_channels ?p)" using inv a accepted(9) by (simp add: ep_inv_def)
    show "\<forall>b d. ep_store ?p b = Some d \<longrightarrow> ev_wf d"
      using inv c'(1) accepted(9) by (simp add: ep_inv_def)
  qed (use chan ids in blast)+
qed

lemma ep_inv_open: "ep_inv p \<Longrightarrow> ep_inv (snd (open_generation g p))"
  by (rule ep_inv_evolve [of p]) (auto simp: open_generation_def source_live_def)

lemma ep_inv_quiesce: "ep_inv p \<Longrightarrow> ep_inv (snd (quiesce_generation g p))"
  by (rule ep_inv_evolve [of p]) (auto simp: quiesce_generation_def source_live_def)

text \<open>Closing a generation leaves no registered channel of it active.\<close>

lemma close_generation_inactive:
  assumes "ep_inv p" and "\<And>c. evolves c (f c)" and "\<And>c. ev_wf c \<Longrightarrow> ec_state (f c) \<noteq> EvActive"
    and "ep_source_generation p = Some g"
  shows "ep_inv (p\<lparr>ep_store := update_generation g f (ep_channels p) (ep_store p),
    ep_source_state := st\<rparr>)"
proof (rule ep_inv_evolve [OF assms(1)])
  show "store_evolves (ep_store p)
     (ep_store (p\<lparr>ep_store := update_generation g f (ep_channels p) (ep_store p), ep_source_state := st\<rparr>))"
    using assms(1,2) by (simp add: update_generation_evolves ep_inv_distinct)
next
  fix a c c'
  assume "a \<in> set (ep_channels p)" "ep_store p a = Some c" "ev_wf c" "ec_state c' = EvActive"
    "ep_store (p\<lparr>ep_store := update_generation g f (ep_channels p) (ep_store p),
        ep_source_state := st\<rparr>) a = Some c'"
    "source_live p (ec_source_generation c)"
  then have False
    using assms(1,3,4) by (auto simp: update_generation_apply ep_inv_distinct source_live_def split: if_splits)
  then show "source_live (p\<lparr>ep_store := update_generation g f (ep_channels p) (ep_store p),
      ep_source_state := st\<rparr>) (ec_source_generation c)" ..
qed simp_all

lemma terminalize_replacement_inactive:
  "ev_wf c \<Longrightarrow> ec_state (snd (terminalize_replacement t c)) \<noteq> EvActive"
  by (auto simp: terminalize_replacement_def ev_wf_def)

lemma close_unavailable_inactive: "ec_state (snd (close_unavailable c)) \<noteq> EvActive"
  by (simp add: close_unavailable_def)

lemma ep_inv_replaced: "ep_inv p \<Longrightarrow> ep_inv (snd (close_generation_replaced clk g p))"
  using close_generation_inactive [of p "\<lambda>c. snd (terminalize_replacement t c)" g SrcClosed for t]
  by (auto simp: close_generation_replaced_def terminalize_replaced_locked_def
      evolves_replacement terminalize_replacement_inactive split: option.splits)

lemma ep_inv_permanent: "ep_inv p \<Longrightarrow> ep_inv (snd (close_generation_permanently g p))"
  using close_generation_inactive [of p "\<lambda>c. snd (close_unavailable c)" g SrcPermanentlyClosed]
  by (auto simp: close_generation_permanently_def evolves_unavailable close_unavailable_inactive)

lemma publish_store:
  obtains s' where "snd (publish clk al e g p) = p\<lparr>ep_store := s'\<rparr>"
    and "store_evolves (ep_store p) s'"
proof (cases "snd (publish clk al e g p) = p")
  case True
  then show ?thesis using that [of "ep_store p"] by simp
next
  case False
  then obtain t x i where "sample_event_time clk = Some t" "e = Ptr i x"
    by (cases e; cases "sample_event_time clk") (auto simp: publish_def)
  with False that publish_loop_evolves [of "ep_store p" al e "normalized_event_stream x" g t "ep_channels p"]
  show ?thesis by (auto simp: publish_def split: if_splits prod.splits)
qed

lemma ep_inv_publish: "ep_inv p \<Longrightarrow> ep_inv (snd (publish clk al e g p))"
  by (metis ep_inv_store publish_store)

lemma ep_inv_remove: "ep_inv p \<Longrightarrow> ep_inv (ep_remove ch p)"
proof (cases ch)
  case (Some a)
  moreover assume inv: "ep_inv p"
  moreover have "set (remove1 a (ep_channels p)) \<subseteq> set (ep_channels p)"
    by (rule set_remove1_subset)
  moreover have "length (remove1 a (ep_channels p)) \<le> length (ep_channels p)"
    by (simp add: length_remove1)
  ultimately show ?thesis
    unfolding ep_inv_def ep_remove_def
    by (simp add: source_live_def distinct_remove1)
qed (simp add: ep_remove_def)

lemma ep_inv_shutdown:
  assumes "ep_inv p"
  shows "ep_inv (ep_shutdown p)"
proof (cases "ep_source_state p = SrcShutdown")
  case False
  show ?thesis
  proof (rule ep_inv_evolve [OF assms])
    show "store_evolves (ep_store p) (ep_store (ep_shutdown p))"
      using assms by (simp add: ep_shutdown_def close_all_from_owner_evolves ep_inv_distinct)
    fix a c c'
    assume "a \<in> set (ep_channels p)" "ep_store p a = Some c" "ec_state c' = EvActive"
      "ep_store (ep_shutdown p) a = Some c'"
    then have False using assms False
      by (auto simp: ep_shutdown_def close_all_from_owner_apply ep_inv_distinct ev_close_from_owner_def)
    then show "source_live (ep_shutdown p) (ec_source_generation c)" ..
  qed (simp_all add: ep_shutdown_def)
qed (use assms in \<open>simp add: ep_shutdown_def\<close>)

definition event_publication_init :: "event_publication \<Rightarrow> bool" where
  "event_publication_init p \<longleftrightarrow> (\<exists>gw limits. make_event_publication gw True limits = Some p)"

interpretation event_hub: invariant_system event_publication_init event_publication_step ep_inv
proof unfold_locales
  fix p assume "event_publication_init p"
  then show "ep_inv p"
    by (auto simp: event_publication_init_def make_event_publication_def ep_inv_def split: if_splits)
next
  fix p p' assume inv: "ep_inv p" and "event_publication_step p p'"
  from this(2) show "ep_inv p'"
    by cases (use inv ep_inv_open ep_inv_quiesce ep_inv_replaced ep_inv_permanent ep_inv_admit
        ep_inv_publish ep_inv_remove ep_inv_shutdown
        in \<open>auto intro!: ep_inv_store store_evolves_upd evolves_intros\<close>)
qed

section \<open>Properties\<close>

text \<open>C2: in every reachable state of the event hub the registered channels are distinct live
  objects, no more than configured, and one that is still active belongs to the source
  generation that is currently open or quiesced: no session outlives its generation.\<close>

theorem event_sessions_bound_to_generation:
  assumes "reachable event_publication_init event_publication_step p"
  shows "distinct (ep_channels p)
    \<and> length (ep_channels p) \<le> el_maximum_active_subscriptions (ep_limits p)
    \<and> (\<forall>a\<in>set (ep_channels p). \<exists>c. ep_store p a = Some c
         \<and> (ec_state c = EvActive \<longrightarrow> ep_source_state p \<in> {SrcOpen, SrcQuiesced}
              \<and> ep_source_generation p = Some (ec_source_generation c)))"
  using event_hub.inv_reachable [OF assms] unfolding ep_inv_def source_live_def by blast

text \<open>Every record queued in a registered channel is its acceptance (number 1) or an event of
  the channel's own stream stamped with the channel's own source generation.\<close>

theorem event_queues_hold_own_stream:
  assumes "reachable event_publication_init event_publication_step p"
    and "a \<in> set (ep_channels p)" and "ep_store p a = Some c" and "r \<in> set (ev_contents c)"
  shows "own_record (ec_source_generation c) (ec_stream c) r"
  using event_hub.inv_reachable [OF assms(1)] assms(3,4) by (auto simp: ep_inv_def ev_wf_def)

lemma publish_loop_apply:
  assumes "distinct as" and "publish_loop al e st g t as store = (True, store')"
  shows "store' a = (if a \<in> set as
     then map_option (\<lambda>c. if ec_stream c = st \<and> ec_source_generation c = g
                          then snd (admit_event (al a) e t c) else c) (store a)
     else store a)"
  using assms
proof (induction as arbitrary: store)
  case (Cons b as)
  show ?case
  proof (cases "store b")
    case None
    with Cons show ?thesis by auto
  next
    case (Some c)
    obtain res c' where adm: "admit_event (al b) e t c = (res, c')" by fastforce
    show ?thesis
    proof (cases "ec_stream c = st \<and> ec_source_generation c = g")
      case True
      with Cons.prems Some adm have "publish_loop al e st g t as (store(b \<mapsto> c')) = (True, store')"
        by (auto split: if_splits)
      from Cons.IH [OF _ this] Cons.prems(1) Some adm True show ?thesis by auto
    next
      case False
      with Cons.prems Some have "publish_loop al e st g t as store = (True, store')"
        by auto
      from Cons.IH [OF _ this] Cons.prems(1) Some False show ?thesis by auto
    qed
  qed
qed simp

text \<open>C3: a published event is offered to every registered channel of its stream and generation,
  each exactly once, and touches no other channel; a channel that cannot take it is ended as
  a slow consumer without any effect on the others.\<close>

theorem publish_fans_out:
  assumes "reachable event_publication_init event_publication_step p"
    and "publish clk al (Ptr i x) g p = (EvPublished, p')" and "sample_event_time clk = Some t"
  shows "ep_store p' a = (if a \<in> set (ep_channels p)
     then map_option (\<lambda>c. if ec_stream c = normalized_event_stream x \<and> ec_source_generation c = g
                          then snd (admit_event (al a) (Ptr i x) t c) else c) (ep_store p a)
     else ep_store p a)
   \<and> ep_channels p' = ep_channels p \<and> ep_source_state p = SrcOpen
   \<and> ep_source_generation p = Some g"
proof -
  have "distinct (ep_channels p)"
    using event_hub.inv_reachable [OF assms(1)] by (rule ep_inv_distinct)
  moreover obtain s' where "publish_loop al (Ptr i x) (normalized_event_stream x) g t
        (ep_channels p) (ep_store p) = (True, s')" "p' = p\<lparr>ep_store := s'\<rparr>"
      "ep_source_state p = SrcOpen" "ep_source_generation p = Some g"
    using assms(2,3) by (auto simp: publish_def split: if_splits prod.splits)
  ultimately show ?thesis
    using publish_loop_apply [of "ep_channels p" al "Ptr i x" "normalized_event_stream x" g t "ep_store p"]
    by simp
qed

text \<open>Source generations only move forward: a generation is opened only from the closed state
  and only above every earlier one, and no other operation changes the generation number.\<close>

theorem source_generation_monotone:
  assumes "event_publication_step p p'" and "ep_source_generation p = Some g"
  shows "\<exists>g'. ep_source_generation p' = Some g' \<and> g \<le> g'
    \<and> (g' \<noteq> g \<longrightarrow> ep_source_state p = SrcClosed \<and> ep_source_state p' = SrcOpen)"
  using assms(1)
proof cases
  case (eps_open h)
  then show ?thesis using assms(2)
    by (cases "ep_source_state p") (auto simp: open_generation_def)
next
  case (eps_admit ca clk ra sub)
  then show ?thesis
    using assms(2)
    by (cases rule: ep_admit_cases [where clk = clk and ca = ca and ra = ra and sub = sub and p = p]) auto
next
  case (eps_publish clk al e h)
  then show ?thesis using assms(2) by (metis eq_refl publish_store event_publication.select_convs(4)
        event_publication.surjective event_publication.update_convs(7))
qed (use assms(2) in \<open>auto simp: quiesce_generation_def close_generation_replaced_def
      terminalize_replaced_locked_def close_generation_permanently_def ep_remove_def ep_shutdown_def
      split: option.splits\<close>)

text \<open>Whatever the hub and the RPC writer do to an accepted event channel, in any interleaving,
  the session sequence numbers acknowledged by its consumer are 1, 2, 3, ... without a gap.\<close>

theorem event_delivery_contiguous:
  assumes "make_event_channel i gw st g n = Some c0" and "stage_accepted (Ptr k rec) c0 = (True, c)"
    and "run event_channel_step c ls c'"
  shows "delivered ls = [1..<Suc (length (delivered ls))]"
proof (rule ev_egress.delivery_contiguous [OF assms(3)])
  note c = stage_accepted_fresh [OF assms(1,2)]
  show "ev_wf c" by (fact c(1))
  show "egress_inv [] (ev_abs c)"
    using c(5-9) by (simp add: egress_inv_def ev_abs_def upt_rec)
qed

section \<open>Witnesses\<close>

definition example_limits :: event_publication_limits where
  "example_limits = \<lparr>el_maximum_active_subscriptions = 2, el_ordinary_queue_capacity = 2\<rparr>"

definition example_hub0 :: event_publication where
  "example_hub0 = the (make_event_publication ''gw'' True example_limits)"

definition example_hub1 :: event_publication where
  "example_hub1 = snd (open_generation 1 example_hub0)"

definition example_sub :: validated_event_subscription where
  "example_sub = \<lparr>ves_request_id = ''r'', ves_stream = STREAM_BOOK_TICKER,
     ves_negotiated_payload_schema_version = ''book-ticker.v1''\<rparr>"

definition example_clock :: "clock_sample option" where
  "example_clock = Some \<lparr>cs_utc_ns = 5, cs_monotonic_ns = 6\<rparr>"

definition example_hub2 :: event_publication where
  "example_hub2 = snd (ep_admit example_clock (Some 10) (Some 11) example_sub example_hub1)"

lemmas example_hub_defs = example_hub2_def example_hub1_def example_hub0_def example_sub_def
  example_clock_def example_limits_def make_event_publication_def open_generation_def ep_admit_def
  sample_event_time_def make_event_channel_def stage_accepted_def ev_ring_push_locked_def
  make_event_accepted_record_def kMaximumActiveEventSubscriptions_def kEventOrdinaryQueueCapacity_def
  u64_max_def Let_def

lemma example_hub2_reachable: "reachable event_publication_init event_publication_step example_hub2"
proof -
  have "event_publication_init example_hub0"
    unfolding event_publication_init_def
    by (intro exI [of _ "''gw''"] exI [of _ example_limits])
      (simp add: example_hub0_def make_event_publication_def example_limits_def
        kMaximumActiveEventSubscriptions_def kEventOrdinaryQueueCapacity_def)
  then have "reachable event_publication_init event_publication_step example_hub1"
    unfolding example_hub1_def by (metis reach_init reach_step eps_open)
  moreover have "event_publication_step example_hub1 example_hub2"
    unfolding example_hub2_def by (rule eps_admit) (simp add: example_hub_defs)
  ultimately show ?thesis by (rule reach_step)
qed

theorem event_sessions_bound_to_generation_witness:
  "\<exists>c. ep_store example_hub2 10 = Some c \<and> ec_state c = EvActive
    \<and> ep_source_generation example_hub2 = Some (ec_source_generation c)"
proof -
  have "10 \<in> set (ep_channels example_hub2)" "\<exists>c. ep_store example_hub2 10 = Some c \<and> ec_state c = EvActive"
    by (simp_all add: example_hub_defs)
  with event_sessions_bound_to_generation [OF example_hub2_reachable] show ?thesis by fastforce
qed

definition example_event_channel :: event_channel where
  "example_event_channel = the (ep_store example_hub2 10)"

lemma example_hub2_channel:
  "10 \<in> set (ep_channels example_hub2)" "ep_store example_hub2 10 = Some example_event_channel"
  "ec_ordinary_ring example_event_channel ! 0 \<in> set (ev_contents example_event_channel)"
  by (simp_all add: example_event_channel_def example_hub_defs ring_contents_def)

theorem event_queues_hold_own_stream_witness:
  "own_record (ec_source_generation example_event_channel) (ec_stream example_event_channel)
     (ec_ordinary_ring example_event_channel ! 0)"
  by (rule event_queues_hold_own_stream [OF example_hub2_reachable example_hub2_channel])

definition example_ticker :: "normalized_market_event" where
  "example_ticker = EvBookTicker
     \<lparr>bt_metadata = \<lparr>md_venue = VENUE_BINANCE, md_market = MARKET_SPOT, md_symbol = ''BTCUSDT'',
        md_producer = [], md_producer_version = [], md_connection_id = ''c'',
        md_stream = STREAM_BOOK_TICKER, md_schema_version = [], md_exchange_event_time_ms = None,
        md_exchange_trade_time_ms = None, md_exchange_transaction_time_ms = None,
        md_receive_time_utc_ns = Some 1, md_receive_monotonic_ns = Some 1\<rparr>,
      bt_update_id = 1, bt_best_bid_price = ''1'', bt_best_bid_quantity = ''1'',
      bt_best_ask_price = ''2'', bt_best_ask_quantity = ''1''\<rparr>"

theorem publish_fans_out_witness:
  "\<exists>p'. publish example_clock (\<lambda>a. Some (a + 100)) (Ptr 50 example_ticker) 1 example_hub2
      = (EvPublished, p')
    \<and> ep_store p' 10 = Some (snd (admit_event (Some 110) (Ptr 50 example_ticker)
        \<lparr>et_utc_ns = 5, et_monotonic_ns = Some 6\<rparr> example_event_channel))"
proof -
  obtain p' where pub: "publish example_clock (\<lambda>a. Some (a + 100)) (Ptr 50 example_ticker) 1 example_hub2
      = (EvPublished, p')"
    by (simp add: publish_def example_ticker_def example_hub_defs admit_event_def)
  have clk: "sample_event_time example_clock = Some \<lparr>et_utc_ns = 5, et_monotonic_ns = Some 6\<rparr>"
    by (simp add: sample_event_time_def example_clock_def)
  have "ec_stream example_event_channel = normalized_event_stream example_ticker"
    "ec_source_generation example_event_channel = 1"
    by (simp_all add: example_event_channel_def example_ticker_def example_hub_defs)
  with publish_fans_out [OF example_hub2_reachable pub clk, of 10] example_hub2_channel pub
  show ?thesis by auto
qed

theorem source_generation_monotone_witness:
  "\<exists>g'. ep_source_generation (ep_shutdown example_hub1) = Some g' \<and> 1 \<le> g'"
proof -
  have "ep_source_generation example_hub1 = Some 1" by (simp add: example_hub_defs)
  from source_generation_monotone [OF eps_shutdown this] show ?thesis by blast
qed

theorem event_delivery_contiguous_witness:
  "\<exists>c. delivered [ev_ack_label (ev_peek c) c]
     = [1..<Suc (length (delivered [ev_ack_label (ev_peek c) c]))] \<and> ec_size c = 1"
proof -
  let ?rec = "make_event_accepted_record example_sub ''ev-1'' ''gw'' \<lparr>et_utc_ns = 5, et_monotonic_ns = None\<rparr>"
  obtain c0 c where c0: "make_event_channel ''ev-1'' ''gw'' STREAM_BOOK_TICKER 1 2 = Some c0"
    and c: "stage_accepted (Ptr 3 ?rec) c0 = (True, c)" and sz: "ec_size c = 1"
    by (simp add: make_event_channel_def stage_accepted_def make_event_accepted_record_def
        ev_ring_push_locked_def)
  have "run event_channel_step c [ev_ack_label (ev_peek c) c] (snd (ev_acknowledge (ev_peek c) c))"
    by (rule run_single, rule es_acknowledge)
  from event_delivery_contiguous [OF c0 c this] sz show ?thesis by blast
qed

end
