(* ===== verification/RuntimeTypes.thy ===== *)
theory RuntimeTypes
  imports OrderBookChannel
begin

text \<open>
  The data of the single-product runtime, \<open>src/src/g3/market_runtime.{hpp,cpp}\<close>: its limits,
  results, observation, mailboxes and state, and the code it calls that is not part of the
  sources.

  The order-book projection and its protobuf adapter come from the Projection repository. They
  are the parameter record \<open>projection_ops\<close>: an argument of every definition that uses them,
  over type variables for the projection object (\<open>'p\<close>), its gap description (\<open>'g\<close>), the local
  snapshot message (\<open>'s\<close>) and the adapted update and baseline (\<open>'b\<close>, \<open>'c\<close>). The injected
  clock and the allocator are part of the same record: the \<open>n\<close>-th reading of the clock may be
  an exception (\<open>None\<close>), and the \<open>n\<close>-th allocation may fail. An allocated object is addressed
  by the number of its allocation, so distinct objects have distinct addresses.
\<close>

section \<open>Enumerations and results\<close>

datatype runtime_state =
    RsConstructed | RsBuffering | RsAwaitingBridge | RsLive | RsNeedsResync | RsFaulted
  | RsStopping | RsStopped

datatype fault_reason =
    FrIngressOverflow | FrBootstrapBufferOverflow | FrAdapterError | FrTransportFailure
  | FrSnapshotFailure | FrProjectionRejected | FrClockError | FrInternalError

datatype start_result = StartStarted | StartAlreadyStarted | StartStopped

datatype admission_result =
    AdAccepted | AdFull | AdNotStarted | AdStopping | AdStopped | AdFaulted

datatype rebootstrap_reset_result =
    RrReset | RrNotStarted | RrInvalidState | RrBusy | RrStopping | RrStopped | RrInternalError

datatype planned_rebootstrap_reset_result =
    PrReset | PrNotStarted | PrInvalidState | PrBusy | PrStopping | PrStopped | PrInternalError

datatype timed_recovery_wait_result = TwRecoveryRequired | TwDeadlineReached | TwStopped

datatype snapshot_request_error =
    SeNotStarted | SeNotLive | SeBusy | SeFaulted | SeStopping | SeStopped | SeClockError
  | SeInternalError

datatype subscription_admission_error =
    SaNotStarted | SaNotLive | SaPendingLimit | SaActiveLimit | SaInvalidDepthLimit
  | SaShuttingDown | SaClockError | SaIdExhausted | SaInternalError | SaStopped

datatype publication_shutdown_result =
    PsShutDown | PsAlreadyShutDown | PsNotStarted | PsStopped

section \<open>The projection and its adapter\<close>

datatype projection_status = AwaitingBaseline | AwaitingBridge | Synchronized | NeedsResync

datatype apply_disposition =
    Applied | IgnoredStale | IgnoredDuplicate | GapDetected | RejectedWrongState

datatype install_disposition = Installed | NotInstalled nat

datatype adapter_error_code = InvalidDepthLimit | OtherAdapterError nat

record apply_result = ar_disposition :: apply_disposition
record install_result = ir_disposition :: install_disposition
record adapter_error = ae_code :: adapter_error_code

text \<open>What a call into the adapter gives: an exception, an \<open>AdapterError\<close> or a value.\<close>

datatype 'x outcome = Threw | Failed adapter_error | Returned 'x

record snapshot_context =
  sc_producer :: string
  sc_producer_version :: string
  sc_utc_ns :: u64
  sc_monotonic_ns :: "u64 option"

record ('p, 'g, 's, 'b, 'c) projection_ops =
  po_status :: "'p \<Rightarrow> projection_status"
  po_last_update_id :: "'p \<Rightarrow> u64 option"
  po_last_gap :: "'p \<Rightarrow> 'g option"
  po_reset :: "'p \<Rightarrow> 'p option"
  po_adapt_depth_update :: "depth_update \<Rightarrow> 'p \<Rightarrow> 'b outcome"
  po_apply_to :: "'b \<Rightarrow> 'p \<Rightarrow> apply_result outcome \<times> 'p"
  po_adapt_snapshot :: "exchange_depth_snapshot \<Rightarrow> 'p \<Rightarrow> 'c outcome"
  po_install_into :: "'c \<Rightarrow> 'p \<Rightarrow> install_result outcome \<times> 'p"
  po_depth_limit_ok :: "int \<Rightarrow> bool"
  po_make_snapshot :: "'p \<Rightarrow> snapshot_context \<Rightarrow> int option \<Rightarrow> 's outcome"
  po_clock :: "nat \<Rightarrow> clock_sample option"
  po_alloc_ok :: "nat \<Rightarrow> bool"

section \<open>Inputs, requests and state\<close>

record runtime_limits =
  rl_ingress_capacity :: nat
  rl_bootstrap_capacity :: nat
  rl_publication :: publication_limits

datatype injected_failure = InjectTransport | InjectSnapshot

record depth_update_input =
  di_update :: depth_update
  di_provenance :: source_provenance

record snapshot_input =
  si_snapshot :: exchange_depth_snapshot
  si_provenance :: source_provenance

datatype runtime_input =
    InDepth depth_update_input | InSnapshot snapshot_input | InFailure injected_failure

record ingress_item =
  ii_ticket :: u64
  ii_input :: runtime_input

record applied_depth_observation =
  ad_receive_time_utc_ns :: "u64 option"
  ad_receive_monotonic_ns :: "u64 option"
  ad_connection_generation :: "u64 option"

record 'g runtime_observation =
  ob_state :: runtime_state
  ob_projection_status :: projection_status
  ob_last_update_id :: "u64 option"
  ob_last_gap :: "'g option"
  ob_last_install :: "install_result option"
  ob_last_apply :: "apply_result option"
  ob_last_applied_depth :: "applied_depth_observation option"
  ob_adapter_error :: "adapter_error option"
  ob_fault_reason :: "fault_reason option"
  ob_ingress_occupancy :: nat
  ob_ingress_capacity :: nat
  ob_bootstrap_occupancy :: nat
  ob_bootstrap_capacity :: nat
  ob_owner_thread_id :: "nat option"
  ob_last_publication_thread_id :: "nat option"
  ob_last_reset_thread_id :: "nat option"
  ob_reset_count :: u64
  ob_last_admitted_ticket :: u64
  ob_processed_ticket :: u64
  ob_current_projection_generation :: "u64 option"
  ob_resident_subscription_count :: nat
  ob_pending_admission_count :: nat
  ob_publication_admission_open :: bool
  ob_publication_shutdown :: bool
  ob_owner_joined :: bool

datatype reset_kind = ResetRecovery | ResetPlanned

record admission_request =
  aq_target :: u64
  aq_subscription :: validated_order_book_subscription

text \<open>The accepted channel is given by its address.\<close>

type_synonym subscription_admission_result = "subscription_admission_error + nat"

record 's captured_snapshot =
  cap_snapshot :: 's
  cap_generated_at :: clock_sample

datatype 's snapshot_result =
    SnapCaptured "'s captured_snapshot" | SnapAdapter adapter_error | SnapError snapshot_request_error

record 's snapshot_request =
  sr_target :: u64
  sr_result :: "'s snapshot_result option"

record reset_request =
  rr_target :: u64
  rr_kind :: reset_kind
  rr_result :: "rebootstrap_reset_result option"

text \<open>
  What the owner thread is doing: it has not been created, it waits for work, it carries out
  one piece of work selected under the mutex, or it has left its loop. An admission is carried
  out in two parts, because the owner releases the mutex between preparing the channel and
  committing it.
\<close>

datatype 's owner_work =
    WorkShutdown
  | WorkFault fault_reason
  | WorkReset
  | WorkAdmission nat admission_request
  | WorkCommit nat nat "'s channel"
  | WorkSnapshot
  | WorkSweep
  | WorkItem ingress_item

datatype 's owner_phase = OwnerAbsent | OwnerWaiting | OwnerWorking "'s owner_work" | OwnerExited

record ('p, 'g, 's) runtime =
  rt_limits :: runtime_limits
  rt_projection :: 'p
  rt_bootstrap :: "depth_update_input list"
  rt_current_projection_generation :: "u64 option"
  rt_subscribers :: "nat list"
  rt_next_subscription_id :: u64
  rt_ingress :: "ingress_item list"
  rt_admission_requests :: "(nat \<times> admission_request) list"
  rt_admission_results :: "nat \<Rightarrow> subscription_admission_result option"
  rt_pending_fault :: "fault_reason option"
  rt_snapshot_request :: "'s snapshot_request option"
  rt_reset_request :: "reset_request option"
  rt_observation :: "'g runtime_observation"
  rt_last_admitted_ticket :: u64
  rt_processed_ticket :: u64
  rt_pending_admission_count :: nat
  rt_started :: bool
  rt_accepting :: bool
  rt_publication_admission_open :: bool
  rt_publication_shutdown_requested :: bool
  rt_publication_shutdown_completed :: bool
  rt_publication_removal_pending :: bool
  rt_stop_requested :: bool
  rt_stopped :: bool
  rt_owner_paused :: bool
  rt_owner :: "'s owner_phase"
  rt_owner_tid :: nat
  rt_heap :: "nat \<Rightarrow> 's channel option"
  rt_clock_calls :: nat
  rt_alloc_calls :: nat

abbreviation map_observation ::
  "('g runtime_observation \<Rightarrow> 'g runtime_observation) \<Rightarrow> ('p, 'g, 's) runtime \<Rightarrow> ('p, 'g, 's) runtime"
where
  "map_observation f st \<equiv> rt_observation_update f st"

abbreviation rt_state :: "('p, 'g, 's) runtime \<Rightarrow> runtime_state" where
  "rt_state st \<equiv> ob_state (rt_observation st)"

end
