(* ===== verification/MarketRuntime.thy ===== *)
theory MarketRuntime
  imports RuntimeTypes
begin

text \<open>
  The operations of the single-product runtime, \<open>src/src/g3/market_runtime.cpp\<close>. A member
  function that locks the runtime's mutex once is one function of the state. A call that
  blocks on the condition variable is two: the part before the wait, which leaves a request
  in a mailbox, and the part after it, which returns \<open>None\<close> while its predicate is false.
  The owner thread is a loop of two steps: it selects work under the mutex
  (\<open>owner_select\<close>) and carries it out (\<open>owner_perform\<close>); operations of other threads fall
  between any two steps. The build without performance instrumentation is modelled; the test
  hooks are left out, the test pause gate is kept.
\<close>

section \<open>Construction and life cycle\<close>

definition initial_observation :: "runtime_limits \<Rightarrow> 'g runtime_observation" where
  "initial_observation limits =
     \<lparr>ob_state = RsConstructed, ob_projection_status = AwaitingBaseline, ob_last_update_id = None,
      ob_last_gap = None, ob_last_install = None, ob_last_apply = None,
      ob_last_applied_depth = None, ob_adapter_error = None, ob_fault_reason = None,
      ob_ingress_occupancy = 0, ob_ingress_capacity = rl_ingress_capacity limits,
      ob_bootstrap_occupancy = 0, ob_bootstrap_capacity = rl_bootstrap_capacity limits,
      ob_owner_thread_id = None, ob_last_publication_thread_id = None,
      ob_last_reset_thread_id = None, ob_reset_count = 0, ob_last_admitted_ticket = 0,
      ob_processed_ticket = 0, ob_current_projection_generation = None,
      ob_resident_subscription_count = 0, ob_pending_admission_count = 0,
      ob_publication_admission_open = False, ob_publication_shutdown = False,
      ob_owner_joined = False\<rparr>"

text \<open>
  The constructor: \<open>None\<close> is one of its \<open>std::invalid_argument\<close> exceptions. \<open>has_clock\<close> is
  whether a clock was injected, \<open>projection\<close> the freshly constructed projection, \<open>symbol\<close> the
  symbol of the expected identity and \<open>tid\<close> the id its owner thread will have.
\<close>

definition make_runtime ::
  "runtime_limits \<Rightarrow> bool \<Rightarrow> string \<Rightarrow> 'p \<Rightarrow> bool \<Rightarrow> nat \<Rightarrow> ('p, 'g, 's) runtime option" where
  "make_runtime limits has_clock symbol projection owner_starts_paused tid =
     (if rl_ingress_capacity limits = 0 \<or> rl_bootstrap_capacity limits = 0 then None
      else if \<not> has_clock then None
      else if symbol = [] then None
      else if pl_maximum_active_subscriptions (rl_publication limits) = 0
           \<or> pl_ordinary_queue_capacity (rl_publication limits) = 0
           \<or> pl_pending_admission_capacity (rl_publication limits) = 0 then None
      else Some
        \<lparr>rt_limits = limits, rt_projection = projection, rt_bootstrap = [],
         rt_current_projection_generation = None, rt_subscribers = [],
         rt_next_subscription_id = 1, rt_ingress = [], rt_admission_requests = [],
         rt_admission_results = (\<lambda>_. None), rt_pending_fault = None,
         rt_snapshot_request = None, rt_reset_request = None,
         rt_observation = initial_observation limits,
         rt_last_admitted_ticket = 0, rt_processed_ticket = 0, rt_pending_admission_count = 0,
         rt_started = False, rt_accepting = False, rt_publication_admission_open = False,
         rt_publication_shutdown_requested = False, rt_publication_shutdown_completed = False,
         rt_publication_removal_pending = False, rt_stop_requested = False, rt_stopped = False,
         rt_owner_paused = owner_starts_paused, rt_owner = OwnerAbsent, rt_owner_tid = tid,
         rt_heap = (\<lambda>_. None), rt_clock_calls = 0, rt_alloc_calls = 0\<rparr>)"

fun state_for_projection :: "projection_status \<Rightarrow> runtime_state" where
  "state_for_projection AwaitingBaseline = RsBuffering"
| "state_for_projection AwaitingBridge = RsAwaitingBridge"
| "state_for_projection Synchronized = RsLive"
| "state_for_projection NeedsResync = RsNeedsResync"

definition refresh_projection_observation_locked ::
  "('p, 'g, 's, 'b, 'c) projection_ops \<Rightarrow> ('p, 'g, 's) runtime \<Rightarrow> ('p, 'g, 's) runtime" where
  "refresh_projection_observation_locked ops st =
     map_observation (\<lambda>ob. ob
       \<lparr>ob_projection_status := po_status ops (rt_projection st),
        ob_last_update_id := po_last_update_id ops (rt_projection st),
        ob_last_gap := po_last_gap ops (rt_projection st),
        ob_current_projection_generation := rt_current_projection_generation st\<rparr>) st"

text \<open>
  \<open>start\<close>, with the prologue of \<open>owner_loop\<close> that it waits for; \<open>thread_ok\<close> is whether the
  owner thread could be created (otherwise the exception leaves the state as it was).
\<close>

definition start ::
  "('p, 'g, 's, 'b, 'c) projection_ops \<Rightarrow> bool \<Rightarrow> ('p, 'g, 's) runtime
     \<Rightarrow> start_result option \<times> ('p, 'g, 's) runtime" where
  "start ops thread_ok st =
     (if rt_stopped st then (Some StartStopped, st)
      else if rt_started st then (Some StartAlreadyStarted, st)
      else if \<not> thread_ok then (None, st)
      else (Some StartStarted,
        refresh_projection_observation_locked ops
          (map_observation (\<lambda>ob. ob
             \<lparr>ob_publication_admission_open := \<not> rt_publication_shutdown_completed st,
              ob_owner_thread_id := Some (rt_owner_tid st),
              ob_state := RsBuffering\<rparr>)
           (st\<lparr>rt_started := True, rt_accepting := True,
               rt_publication_admission_open := \<not> rt_publication_shutdown_completed st,
               rt_owner := OwnerWaiting\<rparr>))))"

fun complete_results ::
  "subscription_admission_error \<Rightarrow> (nat \<times> admission_request) list
     \<Rightarrow> (nat \<Rightarrow> subscription_admission_result option)
     \<Rightarrow> (nat \<Rightarrow> subscription_admission_result option)" where
  "complete_results err [] results = results"
| "complete_results err ((i, _) # rs) results =
     complete_results err rs
       (case results i of None \<Rightarrow> results(i \<mapsto> Inl err) | Some _ \<Rightarrow> results)"

definition complete_all_admissions_locked ::
  "subscription_admission_error \<Rightarrow> ('p, 'g, 's) runtime \<Rightarrow> ('p, 'g, 's) runtime" where
  "complete_all_admissions_locked err st =
     map_observation (\<lambda>ob. ob\<lparr>ob_pending_admission_count := 0\<rparr>)
       (st\<lparr>rt_admission_results :=
             complete_results err (rt_admission_requests st) (rt_admission_results st),
           rt_admission_requests := [],
           rt_pending_admission_count := 0\<rparr>)"

definition complete_snapshot_if_pending ::
  "snapshot_request_error \<Rightarrow> ('p, 'g, 's) runtime \<Rightarrow> ('p, 'g, 's) runtime" where
  "complete_snapshot_if_pending err st =
     (case rt_snapshot_request st of
        Some r \<Rightarrow> if sr_result r = None
                  then st\<lparr>rt_snapshot_request := Some (r\<lparr>sr_result := Some (SnapError err)\<rparr>)\<rparr>
                  else st
      | None \<Rightarrow> st)"

text \<open>\<open>stop\<close> up to joining the owner. \<open>True\<close>: the call has finished without one.\<close>

definition stop_request :: "('p, 'g, 's) runtime \<Rightarrow> bool \<times> ('p, 'g, 's) runtime" where
  "stop_request st =
     (if rt_stopped st then (True, st)
      else if \<not> rt_started st then
        (True, map_observation (\<lambda>ob. ob\<lparr>ob_state := RsStopped, ob_owner_joined := True\<rparr>)
                 (st\<lparr>rt_accepting := False, rt_stopped := True\<rparr>))
      else
        (False, map_observation (\<lambda>ob. ob
            \<lparr>ob_publication_admission_open := False,
             ob_state := (if ob_state ob \<noteq> RsFaulted \<and> ob_state ob \<noteq> RsNeedsResync
                          then RsStopping else ob_state ob)\<rparr>)
          (st\<lparr>rt_accepting := False, rt_publication_admission_open := False,
              rt_publication_shutdown_requested := True, rt_stop_requested := True,
              rt_owner_paused := False\<rparr>)))"

text \<open>\<open>stop\<close> after the join, which returns only when the owner has left its loop.\<close>

definition stop_finish :: "('p, 'g, 's) runtime \<Rightarrow> ('p, 'g, 's) runtime option" where
  "stop_finish st =
     (if rt_owner st = OwnerExited \<and> rt_stop_requested st
      then Some (complete_all_admissions_locked SaStopped
             (complete_snapshot_if_pending SeStopped
               (map_observation (\<lambda>ob. ob\<lparr>ob_state := RsStopped, ob_owner_joined := True\<rparr>)
                 (st\<lparr>rt_stopped := True\<rparr>))))
      else None)"

section \<open>Admission of input\<close>

definition submit ::
  "runtime_input \<Rightarrow> ('p, 'g, 's) runtime \<Rightarrow> admission_result \<times> ('p, 'g, 's) runtime" where
  "submit input st =
     (if rt_stopped st then (AdStopped, st)
      else if \<not> rt_started st then (AdNotStarted, st)
      else if rt_stop_requested st then (AdStopping, st)
      else if \<not> rt_accepting st then (AdFaulted, st)
      else if length (rt_ingress st) = rl_ingress_capacity (rt_limits st) then
        (AdFull, st\<lparr>rt_accepting := False, rt_pending_fault := Some FrIngressOverflow\<rparr>)
      else
        let ticket = rt_last_admitted_ticket st + 1;
            ingress = rt_ingress st @ [\<lparr>ii_ticket = ticket, ii_input = input\<rparr>]
        in (AdAccepted,
            map_observation (\<lambda>ob. ob\<lparr>ob_ingress_occupancy := length ingress\<rparr>)
              (st\<lparr>rt_last_admitted_ticket := ticket, rt_ingress := ingress\<rparr>)))"

definition submit_depth_update ::
  "depth_update \<Rightarrow> source_provenance \<Rightarrow> ('p, 'g, 's) runtime \<Rightarrow> admission_result \<times> ('p, 'g, 's) runtime"
where
  "submit_depth_update update provenance =
     submit (InDepth \<lparr>di_update = update, di_provenance = provenance\<rparr>)"

definition submit_snapshot ::
  "exchange_depth_snapshot \<Rightarrow> source_provenance \<Rightarrow> ('p, 'g, 's) runtime
     \<Rightarrow> admission_result \<times> ('p, 'g, 's) runtime" where
  "submit_snapshot snapshot provenance =
     submit (InSnapshot \<lparr>si_snapshot = snapshot, si_provenance = provenance\<rparr>)"

definition submit_transport_failure ::
  "('p, 'g, 's) runtime \<Rightarrow> admission_result \<times> ('p, 'g, 's) runtime" where
  "submit_transport_failure = submit (InFailure InjectTransport)"

definition submit_snapshot_failure ::
  "('p, 'g, 's) runtime \<Rightarrow> admission_result \<times> ('p, 'g, 's) runtime" where
  "submit_snapshot_failure = submit (InFailure InjectSnapshot)"

section \<open>Observation and waiting\<close>

definition publish_tickets_locked :: "('p, 'g, 's) runtime \<Rightarrow> ('p, 'g, 's) runtime" where
  "publish_tickets_locked st =
     map_observation (\<lambda>ob. ob\<lparr>ob_last_admitted_ticket := rt_last_admitted_ticket st,
                              ob_processed_ticket := rt_processed_ticket st\<rparr>) st"

text \<open>
  \<open>observe_until\<close>: the barrier ticket is taken first; the observation is returned once the
  owner has processed that ticket, \<open>None\<close> while it has not (the caller waits, and gives up at
  its deadline or when its stop token fires).
\<close>

definition observe_target :: "('p, 'g, 's) runtime \<Rightarrow> u64 option" where
  "observe_target st =
     (if rt_started st \<and> \<not> rt_stopped st then Some (rt_last_admitted_ticket st) else None)"

definition observe_finish ::
  "u64 option \<Rightarrow> ('p, 'g, 's) runtime \<Rightarrow> ('g runtime_observation \<times> ('p, 'g, 's) runtime) option" where
  "observe_finish target st =
     (if (case target of None \<Rightarrow> True | Some t \<Rightarrow> rt_processed_ticket st \<ge> t \<or> rt_stopped st)
      then let st' = publish_tickets_locked
                 (map_observation (\<lambda>ob. ob\<lparr>ob_ingress_occupancy := length (rt_ingress st)\<rparr>) st)
           in Some (rt_observation st', st')
      else None)"

definition recovery_required_locked :: "('p, 'g, 's) runtime \<Rightarrow> bool" where
  "recovery_required_locked st \<longleftrightarrow>
     rt_state st = RsFaulted \<or> rt_state st = RsNeedsResync \<or> rt_state st = RsStopping
     \<or> rt_state st = RsStopped"

text \<open>
  The three waits of the recovery coordinator: \<open>token\<close> is whether the stop token has fired,
  \<open>timed_out\<close> whether the time is up. The outer \<open>None\<close> is a call that still waits.
\<close>

definition wait_until_live_or_recovery_required ::
  "bool \<Rightarrow> ('p, 'g, 's) runtime \<Rightarrow> ('g runtime_observation option \<times> ('p, 'g, 's) runtime) option" where
  "wait_until_live_or_recovery_required token st =
     (if token then Some (None, st)
      else if rt_state st = RsLive \<or> recovery_required_locked st \<or> rt_stop_requested st
              \<or> rt_stopped st
      then Some (Some (rt_observation (publish_tickets_locked st)), publish_tickets_locked st)
      else None)"

definition wait_until_recovery_required ::
  "bool \<Rightarrow> ('p, 'g, 's) runtime \<Rightarrow> ('g runtime_observation option \<times> ('p, 'g, 's) runtime) option" where
  "wait_until_recovery_required token st =
     (if token then Some (None, st)
      else if recovery_required_locked st \<or> rt_stop_requested st \<or> rt_stopped st
      then Some (Some (rt_observation (publish_tickets_locked st)), publish_tickets_locked st)
      else None)"

definition wait_until_recovery_required_for ::
  "bool \<Rightarrow> bool \<Rightarrow> ('p, 'g, 's) runtime \<Rightarrow> timed_recovery_wait_result option" where
  "wait_until_recovery_required_for token timed_out st =
     (let ready = recovery_required_locked st \<or> rt_stop_requested st \<or> rt_stopped st
      in if token \<or> rt_stop_requested st \<or> rt_stopped st then Some TwStopped
         else if ready then Some TwRecoveryRequired
         else if timed_out then Some TwDeadlineReached
         else None)"

section \<open>Mailbox requests of other threads\<close>

definition live_and_synchronized :: "('p, 'g, 's) runtime \<Rightarrow> bool" where
  "live_and_synchronized st \<longleftrightarrow> rt_state st = RsLive
     \<and> ob_projection_status (rt_observation st) = Synchronized
     \<and> ob_fault_reason (rt_observation st) = None"

definition reset_begin ::
  "('p, 'g, 's) runtime \<Rightarrow> (rebootstrap_reset_result + unit) \<times> ('p, 'g, 's) runtime" where
  "reset_begin st =
     (if rt_stopped st then (Inl RrStopped, st)
      else if \<not> rt_started st then (Inl RrNotStarted, st)
      else if rt_stop_requested st then (Inl RrStopping, st)
      else if rt_state st \<noteq> RsFaulted \<and> rt_state st \<noteq> RsNeedsResync then (Inl RrInvalidState, st)
      else if rt_reset_request st \<noteq> None then (Inl RrBusy, st)
      else (Inr (), st\<lparr>rt_reset_request := Some \<lparr>rr_target = rt_last_admitted_ticket st,
              rr_kind = ResetRecovery, rr_result = None\<rparr>\<rparr>))"

definition reset_finish ::
  "('p, 'g, 's) runtime \<Rightarrow> (rebootstrap_reset_result \<times> ('p, 'g, 's) runtime) option" where
  "reset_finish st =
     (case rt_reset_request st of
        None \<Rightarrow> None
      | Some r \<Rightarrow>
          (case rr_result r of
             Some res \<Rightarrow> Some (res, st\<lparr>rt_reset_request := None\<rparr>)
           | None \<Rightarrow> if rt_stopped st then Some (RrStopped, st\<lparr>rt_reset_request := None\<rparr>) else None))"

fun to_planned_reset_result :: "rebootstrap_reset_result \<Rightarrow> planned_rebootstrap_reset_result" where
  "to_planned_reset_result RrReset = PrReset"
| "to_planned_reset_result RrNotStarted = PrNotStarted"
| "to_planned_reset_result RrInvalidState = PrInvalidState"
| "to_planned_reset_result RrBusy = PrBusy"
| "to_planned_reset_result RrStopping = PrStopping"
| "to_planned_reset_result RrStopped = PrStopped"
| "to_planned_reset_result RrInternalError = PrInternalError"

definition planned_reset_begin ::
  "('p, 'g, 's) runtime \<Rightarrow> (planned_rebootstrap_reset_result + unit) \<times> ('p, 'g, 's) runtime" where
  "planned_reset_begin st =
     (if rt_stopped st then (Inl PrStopped, st)
      else if \<not> rt_started st then (Inl PrNotStarted, st)
      else if rt_stop_requested st then (Inl PrStopping, st)
      else if \<not> live_and_synchronized st then (Inl PrInvalidState, st)
      else if rt_reset_request st \<noteq> None then (Inl PrBusy, st)
      else (Inr (), st\<lparr>rt_reset_request := Some \<lparr>rr_target = rt_last_admitted_ticket st,
              rr_kind = ResetPlanned, rr_result = None\<rparr>\<rparr>))"

definition planned_reset_finish ::
  "('p, 'g, 's) runtime \<Rightarrow> (planned_rebootstrap_reset_result \<times> ('p, 'g, 's) runtime) option" where
  "planned_reset_finish st =
     map_option (\<lambda>(r, st'). (to_planned_reset_result r, st')) (reset_finish st)"

definition capture_begin ::
  "('p, 'g, 's) runtime \<Rightarrow> (snapshot_request_error + unit) \<times> ('p, 'g, 's) runtime" where
  "capture_begin st =
     (if rt_stopped st then (Inl SeStopped, st)
      else if \<not> rt_started st then (Inl SeNotStarted, st)
      else if rt_stop_requested st then (Inl SeStopping, st)
      else if rt_state st = RsFaulted \<or> rt_state st = RsNeedsResync then (Inl SeFaulted, st)
      else if rt_snapshot_request st \<noteq> None then (Inl SeBusy, st)
      else (Inr (), st\<lparr>rt_snapshot_request :=
              Some \<lparr>sr_target = rt_last_admitted_ticket st, sr_result = None\<rparr>\<rparr>))"

definition capture_finish ::
  "('p, 'g, 's) runtime \<Rightarrow> ('s snapshot_result \<times> ('p, 'g, 's) runtime) option" where
  "capture_finish st =
     (case rt_snapshot_request st of
        None \<Rightarrow> None
      | Some r \<Rightarrow>
          (case sr_result r of
             Some res \<Rightarrow> Some (res, st\<lparr>rt_snapshot_request := None\<rparr>)
           | None \<Rightarrow> if rt_stopped st then Some (SnapError SeStopped, st\<lparr>rt_snapshot_request := None\<rparr>)
                     else None))"

text \<open>An allocation by \<open>std::make_shared\<close>: the number of the allocation is the address.\<close>

definition allocate ::
  "('p, 'g, 's, 'b, 'c) projection_ops \<Rightarrow> ('p, 'g, 's) runtime \<Rightarrow> nat option \<times> ('p, 'g, 's) runtime" where
  "allocate ops st =
     (if po_alloc_ok ops (rt_alloc_calls st) then Some (rt_alloc_calls st) else None,
      st\<lparr>rt_alloc_calls := rt_alloc_calls st + 1\<rparr>)"

definition admit_begin ::
  "('p, 'g, 's, 'b, 'c) projection_ops \<Rightarrow> validated_order_book_subscription \<Rightarrow> ('p, 'g, 's) runtime
     \<Rightarrow> (subscription_admission_error + nat) \<times> ('p, 'g, 's) runtime" where
  "admit_begin ops subscription st =
     (if rt_stopped st then (Inl SaStopped, st)
      else if \<not> rt_started st then (Inl SaNotStarted, st)
      else if \<not> rt_publication_admission_open st \<or> rt_publication_shutdown_requested st
              \<or> rt_publication_shutdown_completed st \<or> rt_stop_requested st
      then (Inl SaShuttingDown, st)
      else if \<not> live_and_synchronized st then (Inl SaNotLive, st)
      else if rt_pending_admission_count st
              = pl_pending_admission_capacity (rl_publication (rt_limits st))
      then (Inl SaPendingLimit, st)
      else case allocate ops st of
        (None, st') \<Rightarrow> (Inl SaInternalError, st')
      | (Some i, st') \<Rightarrow>
          (Inr i, map_observation (\<lambda>ob. ob
               \<lparr>ob_pending_admission_count := rt_pending_admission_count st' + 1\<rparr>)
             (st'\<lparr>rt_admission_requests := rt_admission_requests st'
                    @ [(i, \<lparr>aq_target = rt_last_admitted_ticket st', aq_subscription = subscription\<rparr>)],
                  rt_pending_admission_count := rt_pending_admission_count st' + 1\<rparr>)))"

definition admit_finish ::
  "nat \<Rightarrow> ('p, 'g, 's) runtime \<Rightarrow> subscription_admission_result option" where
  "admit_finish i st =
     (case rt_admission_results st i of
        Some res \<Rightarrow> Some res
      | None \<Rightarrow> if rt_stopped st then Some (Inl SaStopped) else None)"

definition notify_subscriber_closed :: "('p, 'g, 's) runtime \<Rightarrow> ('p, 'g, 's) runtime" where
  "notify_subscriber_closed st = st\<lparr>rt_publication_removal_pending := True\<rparr>"

definition close_publication_admission :: "('p, 'g, 's) runtime \<Rightarrow> ('p, 'g, 's) runtime" where
  "close_publication_admission st =
     map_observation (\<lambda>ob. ob\<lparr>ob_publication_admission_open := False\<rparr>)
       (st\<lparr>rt_publication_admission_open := False\<rparr>)"

text \<open>\<open>Inl\<close>: the call returned; \<open>Inr\<close>: it waits for the owner.\<close>

definition shutdown_begin ::
  "('p, 'g, 's) runtime \<Rightarrow> (publication_shutdown_result + unit) \<times> ('p, 'g, 's) runtime" where
  "shutdown_begin st =
     (let st1 = close_publication_admission st in
      if rt_publication_shutdown_completed st1 then (Inl PsAlreadyShutDown, st1)
      else if rt_stopped st1 then (Inl PsStopped, st1)
      else if \<not> rt_started st1 then
        (Inl PsNotStarted,
         map_observation (\<lambda>ob. ob\<lparr>ob_publication_shutdown := True\<rparr>)
           (st1\<lparr>rt_publication_shutdown_requested := True,
                rt_publication_shutdown_completed := True\<rparr>))
      else (Inr (), st1\<lparr>rt_publication_shutdown_requested := True\<rparr>))"

definition shutdown_finish :: "('p, 'g, 's) runtime \<Rightarrow> publication_shutdown_result option" where
  "shutdown_finish st =
     (if rt_publication_shutdown_completed st then Some PsShutDown
      else if rt_stopped st then Some PsStopped else None)"

definition release_owner_for_testing :: "('p, 'g, 's) runtime \<Rightarrow> ('p, 'g, 's) runtime" where
  "release_owner_for_testing st = st\<lparr>rt_owner_paused := False\<rparr>"

definition pause_owner_for_testing :: "('p, 'g, 's) runtime \<Rightarrow> ('p, 'g, 's) runtime" where
  "pause_owner_for_testing st =
     (if rt_started st \<and> \<not> rt_stop_requested st \<and> \<not> rt_stopped st
      then st\<lparr>rt_owner_paused := True\<rparr> else st)"

end
