(* ===== verification/RuntimeOwner.thy ===== *)
theory RuntimeOwner
  imports MarketRuntime
begin

text \<open>
  The owner domain of the runtime, \<open>src/src/g3/market_runtime.cpp\<close>: selection of work,
  processing of input against the projection, publication to the subscribers, faults, resets,
  snapshots and admissions. Everything here runs on the owner thread.
\<close>

section \<open>Subscribers\<close>

definition sample_publication_time ::
  "('p, 'g, 's, 'b, 'c) projection_ops \<Rightarrow> ('p, 'g, 's) runtime
     \<Rightarrow> publication_time option \<times> ('p, 'g, 's) runtime" where
  "sample_publication_time ops st =
     (map_option (\<lambda>s. \<lparr>pt_utc_ns = cs_utc_ns s, pt_monotonic_ns = Some (cs_monotonic_ns s)\<rparr>)
        (po_clock ops (rt_clock_calls st)),
      st\<lparr>rt_clock_calls := rt_clock_calls st + 1\<rparr>)"

definition subscriber_closed :: "(nat \<Rightarrow> 's channel option) \<Rightarrow> nat \<Rightarrow> bool" where
  "subscriber_closed heap a \<longleftrightarrow> (case heap a of None \<Rightarrow> True | Some c \<Rightarrow> ch_state c = SubClosed)"

definition sweep_closed_subscribers :: "('p, 'g, 's) runtime \<Rightarrow> ('p, 'g, 's) runtime" where
  "sweep_closed_subscribers st =
     (let subscribers = filter (\<lambda>a. \<not> subscriber_closed (rt_heap st) a) (rt_subscribers st)
      in map_observation (\<lambda>ob. ob\<lparr>ob_resident_subscription_count := length subscribers\<rparr>)
           (st\<lparr>rt_subscribers := subscribers\<rparr>))"

text \<open>A pass over the subscribers that changes each of their channels.\<close>

fun update_channels ::
  "('s channel \<Rightarrow> 's channel) \<Rightarrow> nat list \<Rightarrow> (nat \<Rightarrow> 's channel option) \<Rightarrow> (nat \<Rightarrow> 's channel option)" where
  "update_channels f [] heap = heap"
| "update_channels f (a # as) heap =
     update_channels f as (case heap a of None \<Rightarrow> heap | Some c \<Rightarrow> heap(a \<mapsto> f c))"

definition close_all_subscribers_for_shutdown :: "('p, 'g, 's) runtime \<Rightarrow> ('p, 'g, 's) runtime" where
  "close_all_subscribers_for_shutdown st =
     map_observation (\<lambda>ob. ob\<lparr>ob_resident_subscription_count := 0\<rparr>)
       (st\<lparr>rt_heap := update_channels close_from_owner (rt_subscribers st) (rt_heap st),
           rt_subscribers := []\<rparr>)"

definition perform_publication_shutdown_control :: "('p, 'g, 's) runtime \<Rightarrow> ('p, 'g, 's) runtime" where
  "perform_publication_shutdown_control st =
     map_observation (\<lambda>ob. ob\<lparr>ob_publication_admission_open := False, ob_publication_shutdown := True\<rparr>)
       ((complete_all_admissions_locked SaShuttingDown
           ((close_all_subscribers_for_shutdown st)\<lparr>rt_publication_admission_open := False\<rparr>))
         \<lparr>rt_publication_shutdown_completed := True\<rparr>)"

definition terminalize_active_subscribers ::
  "('p, 'g, 's, 'b, 'c) projection_ops \<Rightarrow> consumer_gap_reason \<Rightarrow> recovery_action \<Rightarrow> u64 option
     \<Rightarrow> ('p, 'g, 's) runtime \<Rightarrow> ('p, 'g, 's) runtime" where
  "terminalize_active_subscribers ops reason action generation st =
     (let st1 = sweep_closed_subscribers st;
          (sampled, st2) = sample_publication_time ops st1;
          published_at = (case sampled of None \<Rightarrow> default_publication_time | Some t \<Rightarrow> t);
          st3 = map_observation (\<lambda>ob. ob\<lparr>ob_last_publication_thread_id := Some (rt_owner_tid st2)\<rparr>) st2
      in st3\<lparr>rt_heap := update_channels
               (\<lambda>c. snd (terminalize reason action generation published_at c))
               (rt_subscribers st3) (rt_heap st3)\<rparr>)"

section \<open>Faults and projection state\<close>

definition discard_ingress_locked :: "('p, 'g, 's) runtime \<Rightarrow> ('p, 'g, 's) runtime" where
  "discard_ingress_locked st =
     (if rt_ingress st \<noteq> [] then
        map_observation (\<lambda>ob. ob\<lparr>ob_ingress_occupancy := 0\<rparr>)
          (st\<lparr>rt_processed_ticket := max (rt_processed_ticket st) (ii_ticket (last (rt_ingress st))),
              rt_ingress := []\<rparr>)
      else st)"

definition transition_to_fault ::
  "('p, 'g, 's, 'b, 'c) projection_ops \<Rightarrow> fault_reason \<Rightarrow> adapter_error option
     \<Rightarrow> ('p, 'g, 's) runtime \<Rightarrow> ('p, 'g, 's) runtime" where
  "transition_to_fault ops reason err st =
     (let st1 = terminalize_active_subscribers ops CONSUMER_GAP_REASON_RESUME_NOT_AVAILABLE
                  RECOVERY_ACTION_REQUEST_NEW_SNAPSHOT (rt_current_projection_generation st) st;
          st2 = map_observation (\<lambda>ob. ob\<lparr>ob_bootstrap_occupancy := 0,
                    ob_fault_reason := Some reason, ob_adapter_error := err\<rparr>)
                  (st1\<lparr>rt_accepting := False, rt_bootstrap := []\<rparr>);
          st3 = refresh_projection_observation_locked ops st2;
          st4 = map_observation (\<lambda>ob. ob\<lparr>ob_state := RsFaulted\<rparr>) st3
      in complete_snapshot_if_pending SeFaulted (discard_ingress_locked st4))"

definition publish_projection_state ::
  "('p, 'g, 's, 'b, 'c) projection_ops \<Rightarrow> ('p, 'g, 's) runtime \<Rightarrow> ('p, 'g, 's) runtime" where
  "publish_projection_state ops st =
     (let status = po_status ops (rt_projection st);
          st1 = map_observation (\<lambda>ob. ob\<lparr>ob_bootstrap_occupancy := length (rt_bootstrap st)\<rparr>)
                  (refresh_projection_observation_locked ops st);
          st2 = map_observation (\<lambda>ob.
                  if ob_state ob \<noteq> RsFaulted \<and> ob_state ob \<noteq> RsStopping \<and> ob_state ob \<noteq> RsStopped
                  then ob\<lparr>ob_state := state_for_projection status\<rparr> else ob) st1
      in if status = NeedsResync then discard_ingress_locked (st2\<lparr>rt_accepting := False\<rparr>) else st2)"

definition is_faulted :: "('p, 'g, 's) runtime \<Rightarrow> bool" where
  "is_faulted st \<longleftrightarrow> rt_state st = RsFaulted"

section \<open>Processing input\<close>

text \<open>Offering an applied update to each subscriber; \<open>False\<close> is an allocation failure.\<close>

fun publish_to ::
  "('p, 'g, 's, 'b, 'c) projection_ops \<Rightarrow> depth_update shared_ptr \<Rightarrow> u64 option \<Rightarrow> publication_time
     \<Rightarrow> nat list \<Rightarrow> ('p, 'g, 's) runtime \<Rightarrow> bool \<times> ('p, 'g, 's) runtime" where
  "publish_to ops upd generation published_at [] st = (True, st)"
| "publish_to ops upd generation published_at (a # as) st =
     (case rt_heap st a of
        None \<Rightarrow> publish_to ops upd generation published_at as st
      | Some c \<Rightarrow>
          (case allocate ops st of
             (alloc, st1) \<Rightarrow>
               (case admit_update alloc upd generation published_at c of
                  (res, c') \<Rightarrow>
                    let st2 = st1\<lparr>rt_heap := (rt_heap st1)(a \<mapsto> c')\<rparr>
                    in if res = AdmAllocationFailure then (False, st2)
                       else publish_to ops upd generation published_at as st2)))"

definition publish_applied_update ::
  "('p, 'g, 's, 'b, 'c) projection_ops \<Rightarrow> depth_update \<Rightarrow> source_provenance
     \<Rightarrow> ('p, 'g, 's) runtime \<Rightarrow> ('p, 'g, 's) runtime" where
  "publish_applied_update ops update provenance st =
     (if rt_publication_shutdown_completed st then st
      else
        let st1 = sweep_closed_subscribers st in
        if rt_subscribers st1 = [] then st1
        else case sample_publication_time ops st1 of
          (None, st2) \<Rightarrow> transition_to_fault ops FrClockError None st2
        | (Some published_at, st2) \<Rightarrow>
            (case allocate ops st2 of
               (None, st3) \<Rightarrow> transition_to_fault ops FrInternalError None st3
             | (Some a, st3) \<Rightarrow>
                 let st4 = map_observation (\<lambda>ob. ob
                       \<lparr>ob_last_publication_thread_id := Some (rt_owner_tid st3)\<rparr>) st3 in
                 (case publish_to ops (Ptr a update) (sp_connection_generation provenance)
                         published_at (rt_subscribers st4) st4 of
                    (True, st5) \<Rightarrow> st5
                  | (False, st5) \<Rightarrow> transition_to_fault ops FrInternalError None st5)))"

text \<open>The processing functions return \<open>False\<close> when an exception leaves them.\<close>

definition generation_mismatch :: "source_provenance \<Rightarrow> ('p, 'g, 's) runtime \<Rightarrow> bool" where
  "generation_mismatch provenance st \<longleftrightarrow>
     rt_current_projection_generation st \<noteq> None \<and> sp_connection_generation provenance \<noteq> None
     \<and> rt_current_projection_generation st \<noteq> sp_connection_generation provenance"

definition record_apply ::
  "depth_update_input \<Rightarrow> apply_result \<Rightarrow> ('p, 'g, 's) runtime \<Rightarrow> ('p, 'g, 's) runtime" where
  "record_apply input res st =
     map_observation (\<lambda>ob.
       let ob1 = ob\<lparr>ob_last_apply := Some res\<rparr> in
       if ar_disposition res = Applied
       then ob1\<lparr>ob_last_applied_depth := Some
              \<lparr>ad_receive_time_utc_ns = md_receive_time_utc_ns (du_metadata (di_update input)),
               ad_receive_monotonic_ns = md_receive_monotonic_ns (du_metadata (di_update input)),
               ad_connection_generation = sp_connection_generation (di_provenance input)\<rparr>\<rparr>
       else ob1) st"

definition apply_update ::
  "('p, 'g, 's, 'b, 'c) projection_ops \<Rightarrow> depth_update_input \<Rightarrow> ('p, 'g, 's) runtime
     \<Rightarrow> bool \<times> ('p, 'g, 's) runtime" where
  "apply_update ops input st =
     (if generation_mismatch (di_provenance input) st
      then (True, transition_to_fault ops FrInternalError None st)
      else case po_adapt_depth_update ops (di_update input) (rt_projection st) of
        Threw \<Rightarrow> (False, st)
      | Failed err \<Rightarrow> (True, transition_to_fault ops FrAdapterError (Some err) st)
      | Returned batch \<Rightarrow>
          (case po_apply_to ops batch (rt_projection st) of
             (outcome, projection) \<Rightarrow>
               let st1 = st\<lparr>rt_projection := projection\<rparr> in
               (case outcome of
                  Threw \<Rightarrow> (False, st1)
                | Failed err \<Rightarrow> (True, transition_to_fault ops FrAdapterError (Some err) st1)
                | Returned res \<Rightarrow>
                    let st2 = record_apply input res st1;
                        st3 = (if ar_disposition res = Applied
                               then publish_applied_update ops (di_update input) (di_provenance input) st2
                               else if ar_disposition res = GapDetected
                               then terminalize_active_subscribers ops
                                      CONSUMER_GAP_REASON_UPSTREAM_SEQUENCE_GAP
                                      RECOVERY_ACTION_REQUEST_NEW_SNAPSHOT
                                      (sp_connection_generation (di_provenance input)) st2
                               else st2)
                    in (True, publish_projection_state ops st3))))"

definition process_depth_update ::
  "('p, 'g, 's, 'b, 'c) projection_ops \<Rightarrow> depth_update_input \<Rightarrow> ('p, 'g, 's) runtime
     \<Rightarrow> bool \<times> ('p, 'g, 's) runtime" where
  "process_depth_update ops input st =
     (if po_status ops (rt_projection st) = AwaitingBaseline then
        (if length (rt_bootstrap st) = rl_bootstrap_capacity (rt_limits st)
         then (True, transition_to_fault ops FrBootstrapBufferOverflow None st)
         else (True, publish_projection_state ops (st\<lparr>rt_bootstrap := rt_bootstrap st @ [input]\<rparr>)))
      else apply_update ops input st)"

text \<open>
  What each building block changes: the fields it leaves alone are read off these equations.
\<close>

lemma sweep_effect:
  obtains n where "sweep_closed_subscribers st
     = st\<lparr>rt_subscribers := filter (\<lambda>a. \<not> subscriber_closed (rt_heap st) a) (rt_subscribers st),
          rt_observation := rt_observation st\<lparr>ob_resident_subscription_count := n\<rparr>\<rparr>"
    and "n = length (filter (\<lambda>a. \<not> subscriber_closed (rt_heap st) a) (rt_subscribers st))"
  by (simp add: sweep_closed_subscribers_def Let_def)

lemma sweep_bootstrap [simp]: "rt_bootstrap (sweep_closed_subscribers st) = rt_bootstrap st"
  by (simp add: sweep_closed_subscribers_def Let_def)

lemma sample_bootstrap [simp]: "rt_bootstrap (snd (sample_publication_time ops st)) = rt_bootstrap st"
  by (simp add: sample_publication_time_def)

lemma allocate_bootstrap [simp]: "rt_bootstrap (snd (allocate ops st)) = rt_bootstrap st"
  by (simp add: allocate_def)

lemma terminalize_bootstrap [simp]:
  "rt_bootstrap (terminalize_active_subscribers ops r a g st) = rt_bootstrap st"
  by (simp add: terminalize_active_subscribers_def Let_def case_prod_beta)

lemma discard_bootstrap [simp]: "rt_bootstrap (discard_ingress_locked st) = rt_bootstrap st"
  by (simp add: discard_ingress_locked_def)

lemma refresh_bootstrap [simp]:
  "rt_bootstrap (refresh_projection_observation_locked ops st) = rt_bootstrap st"
  by (simp add: refresh_projection_observation_locked_def)

lemma complete_snapshot_bootstrap [simp]:
  "rt_bootstrap (complete_snapshot_if_pending e st) = rt_bootstrap st"
  by (simp add: complete_snapshot_if_pending_def split: option.splits)

lemma fault_bootstrap [simp]: "rt_bootstrap (transition_to_fault ops r e st) = []"
  by (simp add: transition_to_fault_def Let_def)

lemma publish_state_bootstrap [simp]: "rt_bootstrap (publish_projection_state ops st) = rt_bootstrap st"
  by (simp add: publish_projection_state_def Let_def)

text \<open>Offering an update changes the channels and the number of allocations only.\<close>

lemma publish_to_effect:
  "\<exists>h n. snd (publish_to ops u g t as st) = st\<lparr>rt_heap := h, rt_alloc_calls := n\<rparr>"
proof (induction as arbitrary: st)
  case Nil
  have "st = st\<lparr>rt_heap := rt_heap st, rt_alloc_calls := rt_alloc_calls st\<rparr>" by simp
  then show ?case by (metis publish_to.simps(1) snd_conv)
next
  case (Cons a as)
  show ?case
  proof (cases "rt_heap st a")
    case None
    with Cons show ?thesis by simp
  next
    case (Some c)
    let ?r = "admit_update (fst (allocate ops st)) u g t c"
    let ?st = "st\<lparr>rt_alloc_calls := rt_alloc_calls st + 1, rt_heap := (rt_heap st)(a \<mapsto> snd ?r)\<rparr>"
    have eq: "publish_to ops u g t (a # as) st
        = (if fst ?r = AdmAllocationFailure then (False, ?st) else publish_to ops u g t as ?st)"
      using Some by (simp add: allocate_def case_prod_beta Let_def)
    obtain h n where "snd (publish_to ops u g t as ?st) = ?st\<lparr>rt_heap := h, rt_alloc_calls := n\<rparr>"
      using Cons.IH by blast
    then have rec: "\<exists>h n. snd (publish_to ops u g t as ?st) = st\<lparr>rt_heap := h, rt_alloc_calls := n\<rparr>"
      by (intro exI [of _ h] exI [of _ n]) simp
    have "?st = st\<lparr>rt_heap := (rt_heap st)(a \<mapsto> snd ?r), rt_alloc_calls := rt_alloc_calls st + 1\<rparr>"
      by simp
    with eq rec show ?thesis by (metis snd_conv)
  qed
qed

lemma publish_to_bootstrap [simp]:
  "rt_bootstrap (snd (publish_to ops u g t as st)) = rt_bootstrap st"
  using publish_to_effect [of ops u g t as st] by auto

lemma publish_applied_bootstrap:
  "length (rt_bootstrap (publish_applied_update ops u v st)) \<le> length (rt_bootstrap st)"
  unfolding publish_applied_update_def Let_def case_prod_beta
  by (simp split: option.split bool.split)

lemma record_apply_bootstrap [simp]: "rt_bootstrap (record_apply i r st) = rt_bootstrap st"
  by (simp add: record_apply_def)

lemma apply_update_bootstrap:
  "length (rt_bootstrap (snd (apply_update ops i st))) \<le> length (rt_bootstrap st)"
  unfolding apply_update_def Let_def case_prod_beta
  by (simp split: outcome.split) (auto intro: order_trans [OF publish_applied_bootstrap])

text \<open>The loop of \<open>process_snapshot\<close> over the buffered updates.\<close>

function replay_bootstrap ::
  "('p, 'g, 's, 'b, 'c) projection_ops \<Rightarrow> ('p, 'g, 's) runtime \<Rightarrow> bool \<times> ('p, 'g, 's) runtime" where
  "replay_bootstrap ops st =
     (case rt_bootstrap st of
        [] \<Rightarrow> (True, st)
      | update # rest \<Rightarrow>
          let r = apply_update ops update (st\<lparr>rt_bootstrap := rest\<rparr>) in
          if \<not> fst r then (False, snd r)
          else if po_status ops (rt_projection (snd r)) = NeedsResync \<or> is_faulted (snd r)
          then (True, (snd r)\<lparr>rt_bootstrap := []\<rparr>)
          else replay_bootstrap ops (snd r))"
  by pat_completeness auto
termination
  by (relation "measure (\<lambda>(ops, st). length (rt_bootstrap st))")
    (auto simp: less_Suc_eq_le intro: order_trans [OF apply_update_bootstrap])

declare replay_bootstrap.simps [simp del]

definition process_snapshot ::
  "('p, 'g, 's, 'b, 'c) projection_ops \<Rightarrow> snapshot_input \<Rightarrow> ('p, 'g, 's) runtime
     \<Rightarrow> bool \<times> ('p, 'g, 's) runtime" where
  "process_snapshot ops input st =
     (case po_adapt_snapshot ops (si_snapshot input) (rt_projection st) of
        Threw \<Rightarrow> (False, st)
      | Failed err \<Rightarrow> (True, transition_to_fault ops FrAdapterError (Some err) st)
      | Returned baseline \<Rightarrow>
          (case po_install_into ops baseline (rt_projection st) of
             (outcome, projection) \<Rightarrow>
               let st1 = st\<lparr>rt_projection := projection\<rparr> in
               (case outcome of
                  Threw \<Rightarrow> (False, st1)
                | Failed err \<Rightarrow> (True, transition_to_fault ops FrAdapterError (Some err) st1)
                | Returned res \<Rightarrow>
                    let st2 = map_observation (\<lambda>ob. ob\<lparr>ob_last_install := Some res\<rparr>) st1 in
                    if ir_disposition res \<noteq> Installed
                    then (True, transition_to_fault ops FrProjectionRejected None st2)
                    else
                      let g = sp_connection_generation (si_provenance input);
                          st3 = map_observation (\<lambda>ob. ob\<lparr>ob_current_projection_generation := g\<rparr>)
                                  (st2\<lparr>rt_current_projection_generation := g\<rparr>);
                          r = replay_bootstrap ops st3
                      in if fst r then (True, publish_projection_state ops (snd r)) else r)))"

fun process_input ::
  "('p, 'g, 's, 'b, 'c) projection_ops \<Rightarrow> runtime_input \<Rightarrow> ('p, 'g, 's) runtime
     \<Rightarrow> bool \<times> ('p, 'g, 's) runtime" where
  "process_input ops (InDepth value) st = process_depth_update ops value st"
| "process_input ops (InSnapshot value) st = process_snapshot ops value st"
| "process_input ops (InFailure value) st =
     (True, transition_to_fault ops
        (if value = InjectTransport then FrTransportFailure else FrSnapshotFailure) None st)"

definition finish_ticket :: "u64 \<Rightarrow> ('p, 'g, 's) runtime \<Rightarrow> ('p, 'g, 's) runtime" where
  "finish_ticket ticket st =
     map_observation (\<lambda>ob. ob\<lparr>ob_bootstrap_occupancy := length (rt_bootstrap st)\<rparr>)
       (st\<lparr>rt_processed_ticket := max (rt_processed_ticket st) ticket\<rparr>)"

text \<open>One ingress item of \<open>owner_loop\<close>: an exception becomes an internal fault.\<close>

definition process_item ::
  "('p, 'g, 's, 'b, 'c) projection_ops \<Rightarrow> ingress_item \<Rightarrow> ('p, 'g, 's) runtime
     \<Rightarrow> ('p, 'g, 's) runtime" where
  "process_item ops item st =
     (let r = process_input ops (ii_input item) st in
      finish_ticket (ii_ticket item)
        (if fst r then snd r else transition_to_fault ops FrInternalError None (snd r)))"

section \<open>Serving requests\<close>

definition reset_valid :: "reset_kind \<Rightarrow> ('p, 'g, 's) runtime \<Rightarrow> bool" where
  "reset_valid k st \<longleftrightarrow>
     (case k of ResetRecovery \<Rightarrow> rt_state st = RsFaulted \<or> rt_state st = RsNeedsResync
      | ResetPlanned \<Rightarrow> live_and_synchronized st)"

definition set_reset_result ::
  "rebootstrap_reset_result \<Rightarrow> ('p, 'g, 's) runtime \<Rightarrow> ('p, 'g, 's) runtime" where
  "set_reset_result res st =
     st\<lparr>rt_reset_request := map_option (\<lambda>r. r\<lparr>rr_result := Some res\<rparr>) (rt_reset_request st)\<rparr>"

definition perform_reset_request ::
  "('p, 'g, 's, 'b, 'c) projection_ops \<Rightarrow> ('p, 'g, 's) runtime \<Rightarrow> ('p, 'g, 's) runtime" where
  "perform_reset_request ops st =
     (case rt_reset_request st of
        None \<Rightarrow> st
      | Some r \<Rightarrow>
          if \<not> reset_valid (rr_kind r) st then set_reset_result RrInvalidState st
          else
            let st1 = (if rr_kind r = ResetPlanned
                       then terminalize_active_subscribers ops
                              CONSUMER_GAP_REASON_CONNECTION_GENERATION_CHANGED
                              RECOVERY_ACTION_RESUBSCRIBE (rt_current_projection_generation st) st
                       else terminalize_active_subscribers ops
                              CONSUMER_GAP_REASON_RESUME_NOT_AVAILABLE
                              RECOVERY_ACTION_REQUEST_NEW_SNAPSHOT
                              (rt_current_projection_generation st) st)
            in case po_reset ops (rt_projection st1) of
              None \<Rightarrow> set_reset_result RrInternalError
                (map_observation (\<lambda>ob. ob\<lparr>ob_fault_reason := Some FrInternalError,
                                           ob_state := RsFaulted\<rparr>)
                  (st1\<lparr>rt_accepting := False\<rparr>))
            | Some projection \<Rightarrow>
                let st2 = map_observation (\<lambda>ob. ob
                      \<lparr>ob_last_gap := None, ob_last_install := None, ob_last_apply := None,
                       ob_last_applied_depth := None, ob_adapter_error := None,
                       ob_fault_reason := None, ob_last_update_id := None,
                       ob_current_projection_generation := None, ob_bootstrap_occupancy := 0,
                       ob_last_reset_thread_id := Some (rt_owner_tid st1),
                       ob_reset_count := ob_reset_count ob + 1\<rparr>)
                      (st1\<lparr>rt_projection := projection, rt_bootstrap := [],
                           rt_current_projection_generation := None\<rparr>);
                    st3 = map_observation (\<lambda>ob. ob\<lparr>ob_state := RsBuffering\<rparr>)
                      (refresh_projection_observation_locked ops st2)
                in set_reset_result RrReset
                     (publish_tickets_locked (st3\<lparr>rt_accepting := True\<rparr>)))"

definition complete_snapshot_request ::
  "'s snapshot_result \<Rightarrow> ('p, 'g, 's) runtime \<Rightarrow> ('p, 'g, 's) runtime" where
  "complete_snapshot_request res st =
     st\<lparr>rt_snapshot_request := map_option (\<lambda>r. r\<lparr>sr_result := Some res\<rparr>) (rt_snapshot_request st)\<rparr>"

definition perform_snapshot_request ::
  "('p, 'g, 's, 'b, 'c) projection_ops \<Rightarrow> ('p, 'g, 's) runtime \<Rightarrow> ('p, 'g, 's) runtime" where
  "perform_snapshot_request ops st =
     (if rt_state st \<noteq> RsLive then complete_snapshot_request (SnapError SeNotLive) st
      else
        let st1 = st\<lparr>rt_clock_calls := rt_clock_calls st + 1\<rparr> in
        case po_clock ops (rt_clock_calls st) of
          None \<Rightarrow> complete_snapshot_request (SnapError SeClockError) st1
        | Some sample \<Rightarrow>
            let context = \<lparr>sc_producer = ''gateway-g3-runtime'', sc_producer_version = ''1.0.0'',
                           sc_utc_ns = cs_utc_ns sample,
                           sc_monotonic_ns = Some (cs_monotonic_ns sample)\<rparr>
            in complete_snapshot_request
                 (case po_make_snapshot ops (rt_projection st1) context None of
                    Threw \<Rightarrow> SnapError SeInternalError
                  | Failed err \<Rightarrow> SnapAdapter err
                  | Returned snapshot \<Rightarrow>
                      SnapCaptured \<lparr>cap_snapshot = snapshot, cap_generated_at = sample\<rparr>) st1)"

definition complete_admission_request_unlocked ::
  "nat \<Rightarrow> subscription_admission_result \<Rightarrow> ('p, 'g, 's) runtime \<Rightarrow> ('p, 'g, 's) runtime" where
  "complete_admission_request_unlocked i res st =
     (case rt_admission_results st i of
        Some _ \<Rightarrow> st
      | None \<Rightarrow>
          let n = (if rt_pending_admission_count st \<noteq> 0 then rt_pending_admission_count st - 1
                   else rt_pending_admission_count st)
          in map_observation (\<lambda>ob. ob\<lparr>ob_pending_admission_count := n\<rparr>)
               (st\<lparr>rt_admission_results := (rt_admission_results st)(i \<mapsto> res),
                   rt_pending_admission_count := n\<rparr>))"

text \<open>The gates under the mutex that open and that close \<open>perform_admission_request\<close>.\<close>

definition admission_gate :: "('p, 'g, 's) runtime \<Rightarrow> subscription_admission_error option" where
  "admission_gate st =
     (if \<not> rt_publication_admission_open st \<or> rt_publication_shutdown_requested st
         \<or> rt_stop_requested st \<or> rt_stopped st then Some SaShuttingDown
      else if \<not> live_and_synchronized st then Some SaNotLive
      else None)"

text \<open>
  The body of the \<open>try\<close> block up to the second gate: the private channel with its two records,
  or the error the request is completed with.
\<close>

definition prepare_channel ::
  "('p, 'g, 's, 'b, 'c) projection_ops \<Rightarrow> admission_request \<Rightarrow> publication_time
     \<Rightarrow> ('p, 'g, 's) runtime
     \<Rightarrow> (subscription_admission_error + nat \<times> 's channel) \<times> ('p, 'g, 's) runtime" where
  "prepare_channel ops request published_at st =
     (let subscription = aq_subscription request;
          context = \<lparr>sc_producer = ''gateway-g7-publication'', sc_producer_version = ''1.0.0'',
                     sc_utc_ns = pt_utc_ns published_at, sc_monotonic_ns = pt_monotonic_ns published_at\<rparr>
      in case po_make_snapshot ops (rt_projection st) context (vs_depth_limit subscription) of
        Threw \<Rightarrow> (Inl SaInternalError, st)
      | Failed err \<Rightarrow>
          (Inl (if ae_code err = InvalidDepthLimit then SaInvalidDepthLimit else SaInternalError), st)
      | Returned snapshot \<Rightarrow>
          let subscription_id = ''ob-'' @ to_string_u64 (rt_next_subscription_id st);
              (a, st1) = allocate ops st;
              (b, st2) = allocate ops st1;
              (c, st3) = allocate ops st2
          in case a of
            None \<Rightarrow> (Inl SaInternalError, st1)
          | Some addr \<Rightarrow>
              (case make_channel subscription_id (vs_gateway_instance_id subscription)
                      (pl_ordinary_queue_capacity (rl_publication (rt_limits st))) of
                 None \<Rightarrow> (Inl SaInternalError, st1)
               | Some ch \<Rightarrow>
                   (case b of
                      None \<Rightarrow> (Inl SaInternalError, st2)
                    | Some accepted_at \<Rightarrow>
                        (case c of
                           None \<Rightarrow> (Inl SaInternalError, st3)
                         | Some snapshot_at \<Rightarrow>
                             (case stage_initial
                                 (Ptr accepted_at (make_accepted_record (vs_request_id subscription)
                                    subscription_id (vs_gateway_instance_id subscription) published_at))
                                 (Ptr snapshot_at (make_snapshot_record snapshot
                                    (rt_current_projection_generation st) published_at)) ch of
                                (True, ch') \<Rightarrow> (Inr (addr, ch'), st3)
                              | (False, _) \<Rightarrow> (Inl SaActiveLimit, st3))))))"

definition perform_admission_request ::
  "('p, 'g, 's, 'b, 'c) projection_ops \<Rightarrow> nat \<Rightarrow> admission_request \<Rightarrow> ('p, 'g, 's) runtime
     \<Rightarrow> (nat \<times> 's channel) option \<times> ('p, 'g, 's) runtime" where
  "perform_admission_request ops i request st =
     (let st1 = sweep_closed_subscribers st;
          fail = (\<lambda>e s. (None, complete_admission_request_unlocked i (Inl e) s))
      in case admission_gate st1 of
        Some e \<Rightarrow> fail e st1
      | None \<Rightarrow>
          if length (rt_subscribers st1) \<ge> pl_maximum_active_subscriptions (rl_publication (rt_limits st1))
          then fail SaActiveLimit st1
          else if (case vs_depth_limit (aq_subscription request) of
                     None \<Rightarrow> False | Some d \<Rightarrow> \<not> po_depth_limit_ok ops d)
          then fail SaInvalidDepthLimit st1
          else case sample_publication_time ops st1 of
            (None, st2) \<Rightarrow> fail SaClockError st2
          | (Some published_at, st2) \<Rightarrow>
              if rt_next_subscription_id st2 = u64_max then fail SaIdExhausted st2
              else case prepare_channel ops request published_at st2 of
                (Inl e, st3) \<Rightarrow> fail e st3
              | (Inr prepared, st3) \<Rightarrow> (Some prepared, st3))"

text \<open>The commit under the mutex, which checks both gates again.\<close>

definition commit_admission ::
  "nat \<Rightarrow> nat \<Rightarrow> 's channel \<Rightarrow> ('p, 'g, 's) runtime \<Rightarrow> ('p, 'g, 's) runtime" where
  "commit_admission i addr ch st =
     (case admission_gate st of
        Some e \<Rightarrow> complete_admission_request_unlocked i (Inl e) st
      | None \<Rightarrow>
          let subscribers = rt_subscribers st @ [addr];
              st1 = map_observation (\<lambda>ob. ob
                      \<lparr>ob_resident_subscription_count := length subscribers,
                       ob_last_publication_thread_id := Some (rt_owner_tid st)\<rparr>)
                    (st\<lparr>rt_heap := (rt_heap st)(addr \<mapsto> ch),
                        rt_subscribers := subscribers,
                        rt_next_subscription_id := rt_next_subscription_id st + 1\<rparr>)
          in complete_admission_request_unlocked i (Inr addr) st1)"

section \<open>The owner loop\<close>

definition snapshot_ready_locked :: "('p, 'g, 's) runtime \<Rightarrow> bool" where
  "snapshot_ready_locked st \<longleftrightarrow>
     (case rt_snapshot_request st of None \<Rightarrow> False
      | Some r \<Rightarrow> sr_result r = None \<and> rt_processed_ticket st \<ge> sr_target r)"

definition reset_ready_locked :: "('p, 'g, 's) runtime \<Rightarrow> bool" where
  "reset_ready_locked st \<longleftrightarrow>
     (case rt_reset_request st of None \<Rightarrow> False
      | Some r \<Rightarrow> rr_result r = None \<and> rt_processed_ticket st \<ge> rr_target r)"

definition admission_ready_locked :: "('p, 'g, 's) runtime \<Rightarrow> bool" where
  "admission_ready_locked st \<longleftrightarrow>
     (case rt_admission_requests st of [] \<Rightarrow> False
      | (_, q) # _ \<Rightarrow> rt_processed_ticket st \<ge> aq_target q)"

definition shutdown_pending :: "('p, 'g, 's) runtime \<Rightarrow> bool" where
  "shutdown_pending st \<longleftrightarrow>
     rt_publication_shutdown_requested st \<and> \<not> rt_publication_shutdown_completed st"

definition owner_wait_ready :: "('p, 'g, 's) runtime \<Rightarrow> bool" where
  "owner_wait_ready st \<longleftrightarrow>
     (if rt_stop_requested st then True
      else if shutdown_pending st then True
      else if rt_owner_paused st then False
      else rt_pending_fault st \<noteq> None \<or> reset_ready_locked st \<or> admission_ready_locked st
           \<or> snapshot_ready_locked st \<or> rt_publication_removal_pending st \<or> rt_ingress st \<noteq> [])"

text \<open>What the owner does after leaving its loop.\<close>

definition owner_exit ::
  "('p, 'g, 's, 'b, 'c) projection_ops \<Rightarrow> ('p, 'g, 's) runtime \<Rightarrow> ('p, 'g, 's) runtime" where
  "owner_exit ops st =
     (let st1 = map_observation (\<lambda>ob. ob\<lparr>ob_state := RsStopped\<rparr>)
                  (refresh_projection_observation_locked ops st);
          st2 = complete_snapshot_if_pending SeStopped st1;
          st3 = (case rt_reset_request st2 of
                   Some r \<Rightarrow> if rr_result r = None then set_reset_result RrStopped st2 else st2
                 | None \<Rightarrow> st2);
          st4 = close_all_subscribers_for_shutdown (complete_all_admissions_locked SaStopped st3)
      in st4\<lparr>rt_owner := OwnerExited\<rparr>)"

text \<open>The selection under the mutex; \<open>None\<close> while the owner waits.\<close>

definition owner_select ::
  "('p, 'g, 's, 'b, 'c) projection_ops \<Rightarrow> ('p, 'g, 's) runtime \<Rightarrow> ('p, 'g, 's) runtime option" where
  "owner_select ops st =
     (if \<not> owner_wait_ready st then None
      else if shutdown_pending st then Some (st\<lparr>rt_owner := OwnerWorking WorkShutdown\<rparr>)
      else case rt_pending_fault st of
        Some f \<Rightarrow> Some (st\<lparr>rt_pending_fault := None, rt_owner := OwnerWorking (WorkFault f)\<rparr>)
      | None \<Rightarrow>
          if reset_ready_locked st then Some (st\<lparr>rt_owner := OwnerWorking WorkReset\<rparr>)
          else if admission_ready_locked st then
            (case rt_admission_requests st of
               (i, q) # rest \<Rightarrow> Some (st\<lparr>rt_admission_requests := rest,
                                         rt_owner := OwnerWorking (WorkAdmission i q)\<rparr>)
             | [] \<Rightarrow> None)
          else if snapshot_ready_locked st then Some (st\<lparr>rt_owner := OwnerWorking WorkSnapshot\<rparr>)
          else if rt_publication_removal_pending st then
            Some (st\<lparr>rt_publication_removal_pending := False, rt_owner := OwnerWorking WorkSweep\<rparr>)
          else (case rt_ingress st of
              item # rest \<Rightarrow>
                Some (map_observation (\<lambda>ob. ob\<lparr>ob_ingress_occupancy := length rest\<rparr>)
                  (st\<lparr>rt_ingress := rest, rt_owner := OwnerWorking (WorkItem item)\<rparr>))
            | [] \<Rightarrow> if rt_stop_requested st then Some (owner_exit ops st) else Some st))"

fun owner_perform ::
  "('p, 'g, 's, 'b, 'c) projection_ops \<Rightarrow> 's owner_work \<Rightarrow> ('p, 'g, 's) runtime
     \<Rightarrow> ('p, 'g, 's) runtime" where
  "owner_perform ops WorkShutdown st = (perform_publication_shutdown_control st)\<lparr>rt_owner := OwnerWaiting\<rparr>"
| "owner_perform ops (WorkFault f) st = (transition_to_fault ops f None st)\<lparr>rt_owner := OwnerWaiting\<rparr>"
| "owner_perform ops WorkReset st = (perform_reset_request ops st)\<lparr>rt_owner := OwnerWaiting\<rparr>"
| "owner_perform ops (WorkAdmission i q) st =
     (case perform_admission_request ops i q st of
        (None, st') \<Rightarrow> st'\<lparr>rt_owner := OwnerWaiting\<rparr>
      | (Some (a, ch), st') \<Rightarrow> st'\<lparr>rt_owner := OwnerWorking (WorkCommit i a ch)\<rparr>)"
| "owner_perform ops (WorkCommit i a ch) st = (commit_admission i a ch st)\<lparr>rt_owner := OwnerWaiting\<rparr>"
| "owner_perform ops WorkSnapshot st = (perform_snapshot_request ops st)\<lparr>rt_owner := OwnerWaiting\<rparr>"
| "owner_perform ops WorkSweep st = (sweep_closed_subscribers st)\<lparr>rt_owner := OwnerWaiting\<rparr>"
| "owner_perform ops (WorkItem item) st = (process_item ops item st)\<lparr>rt_owner := OwnerWaiting\<rparr>"

text \<open>One step of the owner thread; \<open>None\<close> when it cannot move.\<close>

definition owner_step ::
  "('p, 'g, 's, 'b, 'c) projection_ops \<Rightarrow> ('p, 'g, 's) runtime \<Rightarrow> ('p, 'g, 's) runtime option" where
  "owner_step ops st =
     (case rt_owner st of
        OwnerAbsent \<Rightarrow> None
      | OwnerWaiting \<Rightarrow> owner_select ops st
      | OwnerWorking w \<Rightarrow> Some (owner_perform ops w st)
      | OwnerExited \<Rightarrow> None)"

end
