(* ===== verification/RuntimeInvariant.thy ===== *)
theory RuntimeInvariant
  imports RuntimeOwner
begin

text \<open>
  What processing by the owner may change. \<open>owner_frame\<close> relates the state before and after
  any of the owner's processing functions: the client-side fields are untouched, the ingress
  queue is kept or discarded as a whole, subscribers are only dropped, and every channel goes
  through steps of the channel that deliver nothing. The relation is reflexive and transitive,
  so a composed function is framed by the frames of its parts.
\<close>

section \<open>Channels of the heap\<close>

definition quiet :: "'s channel \<Rightarrow> 's channel \<Rightarrow> bool" where
  "quiet = (\<lambda>c c'. channel_step c None c')\<^sup>*\<^sup>*"

lemma quiet_refl [simp, intro]: "quiet c c"
  by (simp add: quiet_def)

lemma quiet_trans: "quiet a b \<Longrightarrow> quiet b c \<Longrightarrow> quiet a c"
  unfolding quiet_def by (rule rtranclp_trans)

lemma quiet_step: "channel_step c None c' \<Longrightarrow> quiet c c'"
  unfolding quiet_def by (rule r_into_rtranclp)

lemma quiet_admit: "admit_update al u g t c = (res, c') \<Longrightarrow> quiet c c'"
  using cs_admit [of c al u g t] by (auto intro: quiet_step)

lemma quiet_terminalize: "quiet c (snd (terminalize r a g t c))"
  by (rule quiet_step) (rule cs_terminalize)

lemma quiet_close: "quiet c (close_from_owner c)"
  by (rule quiet_step) (rule cs_close_owner)

lemma quiet_keeps:
  assumes "quiet c c'" and "channel_wf c"
  shows "channel_wf c' \<and> (egress_inv (delivered ks) (channel_abs c)
      \<longrightarrow> egress_inv (delivered ks) (channel_abs c'))"
  using assms unfolding quiet_def
proof (induction rule: rtranclp_induct)
  case (step b c')
  then have "channel_wf c'" "egress_step (channel_abs b) None (channel_abs c')"
    using ob_egress.simulation by blast+
  with step show ?case
    using egress_inv_step [of ks "channel_abs b" None "channel_abs c'"] by auto
qed simp

definition channels_evolve ::
  "(nat \<Rightarrow> 's channel option) \<Rightarrow> (nat \<Rightarrow> 's channel option) \<Rightarrow> bool" where
  "channels_evolve h h' \<longleftrightarrow> (\<forall>a. rel_option quiet (h a) (h' a))"

lemma channels_evolve_refl [simp, intro]: "channels_evolve h h"
  unfolding channels_evolve_def by (simp add: option.rel_refl)

lemma channels_evolve_trans:
  assumes "channels_evolve h h1" and "channels_evolve h1 h2"
  shows "channels_evolve h h2"
  unfolding channels_evolve_def
proof
  fix a
  have "rel_option quiet (h a) (h1 a)" "rel_option quiet (h1 a) (h2 a)"
    using assms by (simp_all add: channels_evolve_def)
  then show "rel_option quiet (h a) (h2 a)"
    by (cases "h a"; cases "h1 a"; cases "h2 a") (auto intro: quiet_trans)
qed

lemma channels_evolve_upd:
  "h a = Some c \<Longrightarrow> quiet c c' \<Longrightarrow> channels_evolve h (h(a \<mapsto> c'))"
  by (simp add: channels_evolve_def option.rel_refl)

lemma channels_evolve_Some:
  assumes "channels_evolve h h'" and "h a = Some c"
  obtains c' where "h' a = Some c'" and "quiet c c'"
  using assms by (metis channels_evolve_def option_rel_Some1)

lemma channels_evolve_None: "channels_evolve h h' \<Longrightarrow> h' a = None \<longleftrightarrow> h a = None"
  by (metis channels_evolve_def rel_option_None1 rel_option_None2)

lemma update_channels_evolve:
  assumes "\<And>c. quiet c (f c)"
  shows "channels_evolve h (update_channels f as h)"
proof (induction as arbitrary: h)
  case (Cons a as)
  have "channels_evolve h (case h a of None \<Rightarrow> h | Some c \<Rightarrow> h(a \<mapsto> f c))"
    using assms by (auto simp del: fun_upd_apply split: option.split intro: channels_evolve_upd)
  then show ?case
    using Cons.IH channels_evolve_trans unfolding update_channels.simps by blast
qed simp

lemma update_channels_apply:
  assumes "\<And>c. f (f c) = f c"
  shows "update_channels f as h a = (if a \<in> set as then map_option f (h a) else h a)"
  by (induction as arbitrary: h) (auto split: option.split simp: assms)

section \<open>The frame of the owner's processing\<close>

definition same_control :: "('p, 'g, 's) runtime \<Rightarrow> ('p, 'g, 's) runtime \<Rightarrow> bool" where
  "same_control st st' \<longleftrightarrow>
     rt_limits st' = rt_limits st \<and> rt_next_subscription_id st' = rt_next_subscription_id st
     \<and> rt_admission_requests st' = rt_admission_requests st
     \<and> rt_admission_results st' = rt_admission_results st
     \<and> rt_pending_fault st' = rt_pending_fault st \<and> rt_reset_request st' = rt_reset_request st
     \<and> rt_last_admitted_ticket st' = rt_last_admitted_ticket st
     \<and> rt_pending_admission_count st' = rt_pending_admission_count st
     \<and> rt_started st' = rt_started st
     \<and> rt_publication_admission_open st' = rt_publication_admission_open st
     \<and> rt_publication_shutdown_requested st' = rt_publication_shutdown_requested st
     \<and> rt_publication_shutdown_completed st' = rt_publication_shutdown_completed st
     \<and> rt_publication_removal_pending st' = rt_publication_removal_pending st
     \<and> rt_stop_requested st' = rt_stop_requested st \<and> rt_stopped st' = rt_stopped st
     \<and> rt_owner_paused st' = rt_owner_paused st \<and> rt_owner st' = rt_owner st
     \<and> rt_owner_tid st' = rt_owner_tid st
     \<and> ob_reset_count (rt_observation st') = ob_reset_count (rt_observation st)
     \<and> ob_owner_joined (rt_observation st') = ob_owner_joined (rt_observation st)"

definition discards :: "('p, 'g, 's) runtime \<Rightarrow> ('p, 'g, 's) runtime \<Rightarrow> bool" where
  "discards st st' \<longleftrightarrow>
     (rt_ingress st' = rt_ingress st \<and> rt_processed_ticket st' = rt_processed_ticket st)
     \<or> (rt_ingress st' = [] \<and> rt_ingress st \<noteq> []
        \<and> rt_processed_ticket st' = max (rt_processed_ticket st) (ii_ticket (last (rt_ingress st))))"

definition snapshot_open :: "('p, 'g, 's) runtime \<Rightarrow> bool" where
  "snapshot_open st \<longleftrightarrow> (\<exists>r. rt_snapshot_request st = Some r \<and> sr_result r = None)"

definition owner_frame :: "('p, 'g, 's) runtime \<Rightarrow> ('p, 'g, 's) runtime \<Rightarrow> bool" where
  "owner_frame st st' \<longleftrightarrow>
     same_control st st' \<and> discards st st' \<and> (snapshot_open st' \<longrightarrow> snapshot_open st)
     \<and> channels_evolve (rt_heap st) (rt_heap st')
     \<and> (\<exists>P. rt_subscribers st' = filter P (rt_subscribers st))
     \<and> (ob_resident_subscription_count (rt_observation st) = length (rt_subscribers st) \<longrightarrow>
        ob_resident_subscription_count (rt_observation st') = length (rt_subscribers st'))
     \<and> rt_alloc_calls st \<le> rt_alloc_calls st'"

lemma owner_frame_refl [simp, intro]: "owner_frame st st"
  by (auto simp: owner_frame_def same_control_def discards_def intro: exI [of _ "\<lambda>_. True"])

lemma same_control_trans: "same_control a b \<Longrightarrow> same_control b c \<Longrightarrow> same_control a c"
  by (simp add: same_control_def)

lemma discards_trans: "discards a b \<Longrightarrow> discards b c \<Longrightarrow> discards a c"
  by (auto simp: discards_def)

lemma owner_frame_trans [trans]:
  assumes "owner_frame a b" and "owner_frame b c"
  shows "owner_frame a c"
proof -
  obtain P Q where "rt_subscribers b = filter P (rt_subscribers a)"
      "rt_subscribers c = filter Q (rt_subscribers b)"
    using assms by (auto simp: owner_frame_def)
  then have "rt_subscribers c = filter (\<lambda>x. P x \<and> Q x) (rt_subscribers a)"
    by simp
  then show ?thesis
    using assms same_control_trans [of a b c] discards_trans [of a b c] channels_evolve_trans
    unfolding owner_frame_def by (meson order_trans)
qed

text \<open>An update of fields the frame does not mention.\<close>

lemma owner_frame_eqI:
  assumes "same_control st st'" and "rt_ingress st' = rt_ingress st"
    and "rt_processed_ticket st' = rt_processed_ticket st"
    and "rt_snapshot_request st' = rt_snapshot_request st" and "rt_heap st' = rt_heap st"
    and "rt_subscribers st' = rt_subscribers st" and "rt_alloc_calls st' = rt_alloc_calls st"
    and "ob_resident_subscription_count (rt_observation st')
       = ob_resident_subscription_count (rt_observation st)"
  shows "owner_frame st st'"
  using assms by (auto simp: owner_frame_def discards_def snapshot_open_def intro: exI [of _ "\<lambda>_. True"])

lemma frame_fields:
  "owner_frame st (st\<lparr>rt_projection := p\<rparr>)" "owner_frame st (st\<lparr>rt_bootstrap := b\<rparr>)"
  "owner_frame st (st\<lparr>rt_accepting := x\<rparr>)"
  "owner_frame st (st\<lparr>rt_current_projection_generation := g\<rparr>)"
  by (rule owner_frame_eqI; simp add: same_control_def)+

lemma frame_observation:
  assumes "owner_frame st s"
    and "\<And>ob. ob_resident_subscription_count (f ob) = ob_resident_subscription_count ob"
    and "\<And>ob. ob_reset_count (f ob) = ob_reset_count ob"
    and "\<And>ob. ob_owner_joined (f ob) = ob_owner_joined ob"
  shows "owner_frame st (map_observation f s)"
  by (rule owner_frame_trans [OF assms(1)], rule owner_frame_eqI)
    (use assms in \<open>simp_all add: same_control_def\<close>)

lemma frame_sweep: "owner_frame st (sweep_closed_subscribers st)"
  by (auto simp: owner_frame_def same_control_def discards_def snapshot_open_def
      sweep_closed_subscribers_def Let_def)

lemma frame_sample: "owner_frame st (snd (sample_publication_time ops st))"
  by (rule owner_frame_eqI; simp add: same_control_def sample_publication_time_def)

lemma frame_heap:
  "channels_evolve (rt_heap st) h \<Longrightarrow> owner_frame st (st\<lparr>rt_heap := h\<rparr>)"
  by (auto simp: owner_frame_def same_control_def discards_def snapshot_open_def
      intro: exI [of _ "\<lambda>_. True"])

lemma frame_allocate: "owner_frame st (snd (allocate ops st))"
  by (auto simp: owner_frame_def same_control_def discards_def snapshot_open_def allocate_def
      intro: exI [of _ "\<lambda>_. True"])

lemma frame_discard: "owner_frame st (discard_ingress_locked st)"
  by (auto simp: owner_frame_def same_control_def discards_def snapshot_open_def
      discard_ingress_locked_def intro: exI [of _ "\<lambda>_. True"])

lemma frame_refresh: "owner_frame st (refresh_projection_observation_locked ops st)"
  by (rule owner_frame_eqI; simp add: same_control_def refresh_projection_observation_locked_def)

lemma frame_complete_snapshot: "owner_frame st (complete_snapshot_if_pending e st)"
  by (auto simp: owner_frame_def same_control_def discards_def snapshot_open_def
      complete_snapshot_if_pending_def intro: exI [of _ "\<lambda>_. True"] split: option.split)

lemma frame_record_apply: "owner_frame st (record_apply i r st)"
  by (rule owner_frame_eqI; simp add: same_control_def record_apply_def Let_def)

named_theorems framed

lemmas [framed] = owner_frame_trans [OF _ frame_fields(1)] owner_frame_trans [OF _ frame_fields(2)]
  owner_frame_trans [OF _ frame_fields(3)] owner_frame_trans [OF _ frame_fields(4)]
  frame_observation owner_frame_trans [OF _ frame_sweep] owner_frame_trans [OF _ frame_sample]
  owner_frame_trans [OF _ frame_heap] owner_frame_trans [OF _ frame_allocate]
  owner_frame_trans [OF _ frame_discard] owner_frame_trans [OF _ frame_refresh]
  owner_frame_trans [OF _ frame_complete_snapshot] owner_frame_trans [OF _ frame_record_apply]

lemma frame_terminalize: "owner_frame st (terminalize_active_subscribers ops r a g st)"
  unfolding terminalize_active_subscribers_def Let_def case_prod_beta
  by (intro framed owner_frame_refl update_channels_evolve quiet_terminalize) simp_all

lemmas [framed] = owner_frame_trans [OF _ frame_terminalize]

lemma frame_fault: "owner_frame st (transition_to_fault ops r e st)"
  unfolding transition_to_fault_def Let_def
  by (intro framed owner_frame_refl) simp_all

lemmas [framed] = owner_frame_trans [OF _ frame_fault]

lemma frame_publish_state: "owner_frame st (publish_projection_state ops st)"
proof (cases "po_status ops (rt_projection st) = NeedsResync")
  case True
  show ?thesis
    unfolding publish_projection_state_def Let_def if_P [OF True]
    by (intro framed owner_frame_refl) simp_all
next
  case False
  show ?thesis
    unfolding publish_projection_state_def Let_def if_not_P [OF False]
    by (intro framed owner_frame_refl) simp_all
qed

lemmas [framed] = owner_frame_trans [OF _ frame_publish_state]

lemma frame_publish_to: "owner_frame st (snd (publish_to ops u g t as st))"
proof (induction as arbitrary: st)
  case (Cons a as)
  show ?case
  proof (cases "rt_heap st a")
    case (Some c)
    obtain res c' where r: "admit_update (fst (allocate ops st)) u g t c = (res, c')" by fastforce
    let ?s1 = "snd (allocate ops st)"
    let ?s2 = "?s1\<lparr>rt_heap := (rt_heap ?s1)(a \<mapsto> c')\<rparr>"
    have "rt_heap ?s1 a = Some c" using Some by (simp add: allocate_def)
    then have "channels_evolve (rt_heap ?s1) ((rt_heap ?s1)(a \<mapsto> c'))"
      by (rule channels_evolve_upd) (rule quiet_admit [OF r])
    then have s2: "owner_frame st ?s2"
      by (intro framed owner_frame_refl)
    have eq: "publish_to ops u g t (a # as) st
        = (if res = AdmAllocationFailure then (False, ?s2) else publish_to ops u g t as ?s2)"
      using Some r by (simp add: case_prod_beta Let_def)
    have "owner_frame st (snd (publish_to ops u g t as ?s2))"
      by (rule owner_frame_trans [OF s2 Cons.IH])
    then show ?thesis unfolding eq using s2 by (simp only: snd_conv split: if_split) simp
  qed (use Cons in simp)
qed simp

lemmas [framed] = owner_frame_trans [OF _ frame_publish_to]

lemma frame_publish_applied: "owner_frame st (publish_applied_update ops u v st)"
  unfolding publish_applied_update_def Let_def case_prod_beta
  by (auto split: option.split bool.split intro!: framed)

lemmas [framed] = owner_frame_trans [OF _ frame_publish_applied]

lemma frame_apply_update: "owner_frame st (snd (apply_update ops i st))"
  unfolding apply_update_def Let_def case_prod_beta
  by (auto split: outcome.split intro!: framed)

lemmas [framed] = owner_frame_trans [OF _ frame_apply_update]

lemma frame_replay: "owner_frame st (snd (replay_bootstrap ops st))"
proof (induction ops st rule: replay_bootstrap.induct)
  case (1 ops st)
  show ?case
  proof (cases "rt_bootstrap st")
    case (Cons update rest)
    let ?r = "apply_update ops update (st\<lparr>rt_bootstrap := rest\<rparr>)"
    have r: "owner_frame st (snd ?r)" "owner_frame st ((snd ?r)\<lparr>rt_bootstrap := []\<rparr>)"
      by (intro framed owner_frame_refl)+
    moreover have "owner_frame st (snd (replay_bootstrap ops (snd ?r)))"
      if "fst ?r" "\<not> (po_status ops (rt_projection (snd ?r)) = NeedsResync \<or> is_faulted (snd ?r))"
      using 1 [OF Cons refl] that r(1) owner_frame_trans by blast
    ultimately show ?thesis
      unfolding replay_bootstrap.simps [of ops st] Let_def using Cons by simp
  qed (simp add: replay_bootstrap.simps [of ops st])
qed

lemmas [framed] = owner_frame_trans [OF _ frame_replay]

lemma frame_process_input: "owner_frame st (snd (process_input ops i st))"
proof (cases i)
  case (InDepth x)
  then show ?thesis by (auto simp: process_depth_update_def intro!: framed)
next
  case (InSnapshot x)
  show ?thesis
    unfolding InSnapshot process_input.simps process_snapshot_def Let_def case_prod_beta
    by (auto split: outcome.split intro!: framed)
qed (auto intro!: framed)

lemmas [framed] = owner_frame_trans [OF _ frame_process_input]

section \<open>Coherence of state, fault and admission\<close>

lemma clear_ring_locked_state [simp]: "ch_state (clear_ring_locked c) = ch_state c"
proof (induction c rule: clear_ring_locked.induct)
  case (1 c)
  then show ?case by (simp add: clear_ring_locked.simps [of c]) (simp add: ring_pop_locked_def)
qed

lemma channel_step_inactive:
  "channel_step c l c' \<Longrightarrow> ch_state c \<noteq> SubActive \<Longrightarrow> ch_state c' \<noteq> SubActive"
  by (erule channel_step.cases)
    (auto simp: admit_update_def terminalize_def acknowledge_def close_from_owner_def
      close_from_writer_def clear_from_writer_locked_def ring_pop_locked_def)

lemma quiet_inactive: "quiet c c' \<Longrightarrow> ch_state c \<noteq> SubActive \<Longrightarrow> ch_state c' \<noteq> SubActive"
  unfolding quiet_def by (induction rule: rtranclp_induct) (auto dest: channel_step_inactive)

definition heap_wf :: "('p, 'g, 's) runtime \<Rightarrow> bool" where
  "heap_wf st \<longleftrightarrow> (\<forall>a c. rt_heap st a = Some c \<longrightarrow> channel_wf c)"

definition no_active :: "('p, 'g, 's) runtime \<Rightarrow> bool" where
  "no_active st \<longleftrightarrow>
     (\<forall>a\<in>set (rt_subscribers st). \<forall>c. rt_heap st a = Some c \<longrightarrow> ch_state c \<noteq> SubActive)"

lemma heap_wf_frame:
  assumes "owner_frame st s" and "heap_wf st"
  shows "heap_wf s"
  unfolding heap_wf_def
proof (intro allI impI)
  fix a c assume c: "rt_heap s a = Some c"
  have ev: "channels_evolve (rt_heap st) (rt_heap s)" using assms by (simp add: owner_frame_def)
  then obtain c0 where "rt_heap st a = Some c0"
    using c channels_evolve_None [OF ev, of a] by fastforce
  with ev c assms(2) show "channel_wf c"
    using quiet_keeps by (metis channels_evolve_Some heap_wf_def option.inject)
qed

lemma no_active_frame:
  assumes "owner_frame st s" and "no_active st"
  shows "no_active s"
  unfolding no_active_def
proof (intro ballI allI impI)
  fix a c assume a: "a \<in> set (rt_subscribers s)" and c: "rt_heap s a = Some c"
  have ev: "channels_evolve (rt_heap st) (rt_heap s)" and a': "a \<in> set (rt_subscribers st)"
    using assms a by (auto simp: owner_frame_def)
  obtain c0 where c0: "rt_heap st a = Some c0"
    using c channels_evolve_None [OF ev, of a] by fastforce
  with a' assms(2) have "ch_state c0 \<noteq> SubActive" by (simp add: no_active_def)
  moreover have "quiet c0 c" using channels_evolve_Some [OF ev c0] c by auto
  ultimately show "ch_state c \<noteq> SubActive" by (blast dest: quiet_inactive)
qed

definition pre_coherent :: "('p, 'g, 's) runtime \<Rightarrow> bool" where
  "pre_coherent st \<longleftrightarrow>
     (ob_fault_reason (rt_observation st) \<noteq> None \<longrightarrow>
        rt_state st = RsFaulted \<or> rt_state st = RsStopping \<or> rt_state st = RsStopped)
     \<and> (rt_state st = RsFaulted \<longrightarrow> ob_fault_reason (rt_observation st) \<noteq> None
        \<and> \<not> rt_accepting st \<and> no_active st)"

definition coherent ::
  "('p, 'g, 's, 'b, 'c) projection_ops \<Rightarrow> ('p, 'g, 's) runtime \<Rightarrow> bool" where
  "coherent ops st \<longleftrightarrow> pre_coherent st
     \<and> (rt_state st = RsNeedsResync \<longrightarrow> \<not> rt_accepting st \<and> rt_ingress st = [])
     \<and> (rt_state st = RsLive \<longrightarrow> po_status ops (rt_projection st) = Synchronized
        \<and> ob_projection_status (rt_observation st) = Synchronized)"

lemma coherent_pre: "coherent ops st \<Longrightarrow> pre_coherent st"
  by (simp add: coherent_def)

lemma frame_ingress_Nil: "owner_frame st s \<Longrightarrow> rt_ingress st = [] \<Longrightarrow> rt_ingress s = []"
  by (auto simp: owner_frame_def discards_def)

lemma pre_coherent_frame:
  assumes "owner_frame st s" and "pre_coherent st" and "rt_state s = rt_state st"
    and "ob_fault_reason (rt_observation s) = ob_fault_reason (rt_observation st)"
    and "rt_accepting s = rt_accepting st"
  shows "pre_coherent s"
  using assms no_active_frame [OF assms(1)] frame_ingress_Nil [OF assms(1)]
  by (simp add: pre_coherent_def)

lemma terminalize_idem: "snd (terminalize r a g t (snd (terminalize r a g t c))) = snd (terminalize r a g t c)"
  by (simp add: terminalize_def)

lemma terminalize_not_active:
  "channel_wf c \<Longrightarrow> ch_state (snd (terminalize r a g t c)) \<noteq> SubActive"
  by (auto simp: terminalize_def channel_wf_def)

lemma terminalize_fields [simp]:
  "ob_state (rt_observation (terminalize_active_subscribers ops r a g st)) = rt_state st"
  "ob_fault_reason (rt_observation (terminalize_active_subscribers ops r a g st))
     = ob_fault_reason (rt_observation st)"
  "ob_projection_status (rt_observation (terminalize_active_subscribers ops r a g st))
     = ob_projection_status (rt_observation st)"
  "rt_accepting (terminalize_active_subscribers ops r a g st) = rt_accepting st"
  "rt_ingress (terminalize_active_subscribers ops r a g st) = rt_ingress st"
  "rt_projection (terminalize_active_subscribers ops r a g st) = rt_projection st"
  "rt_processed_ticket (terminalize_active_subscribers ops r a g st) = rt_processed_ticket st"
  "rt_snapshot_request (terminalize_active_subscribers ops r a g st) = rt_snapshot_request st"
  "rt_alloc_calls (terminalize_active_subscribers ops r a g st) = rt_alloc_calls st"
  by (simp_all add: terminalize_active_subscribers_def sweep_closed_subscribers_def
      sample_publication_time_def Let_def)

lemma terminalize_no_active:
  assumes "heap_wf st"
  shows "no_active (terminalize_active_subscribers ops r a g st)"
proof -
  let ?t = "case fst (sample_publication_time ops (sweep_closed_subscribers st)) of
      None \<Rightarrow> default_publication_time | Some t \<Rightarrow> t"
  let ?f = "\<lambda>c. snd (terminalize r a g ?t c)"
  let ?subs = "rt_subscribers (sweep_closed_subscribers st)"
  have subs: "rt_subscribers (terminalize_active_subscribers ops r a g st) = ?subs"
    and heap: "rt_heap (terminalize_active_subscribers ops r a g st)
       = update_channels ?f ?subs (rt_heap st)"
    by (simp_all add: terminalize_active_subscribers_def sample_publication_time_def
        sweep_closed_subscribers_def Let_def)
  have "ch_state c \<noteq> SubActive"
    if x: "x \<in> set ?subs" and c: "update_channels ?f ?subs (rt_heap st) x = Some c" for x c
  proof -
    have "update_channels ?f ?subs (rt_heap st) x = map_option ?f (rt_heap st x)"
      using x by (subst update_channels_apply) (simp_all add: terminalize_idem)
    then obtain c0 where "rt_heap st x = Some c0" "c = ?f c0"
      using c by (cases "rt_heap st x") auto
    with assms show ?thesis by (auto simp: heap_wf_def terminalize_not_active)
  qed
  then show ?thesis unfolding no_active_def subs heap by blast
qed

lemma discard_ingress [simp]: "rt_ingress (discard_ingress_locked st) = []"
  by (simp add: discard_ingress_locked_def)

lemma discard_fields [simp]:
  "ob_state (rt_observation (discard_ingress_locked st)) = rt_state st"
  "ob_fault_reason (rt_observation (discard_ingress_locked st)) = ob_fault_reason (rt_observation st)"
  "ob_projection_status (rt_observation (discard_ingress_locked st))
     = ob_projection_status (rt_observation st)"
  "rt_accepting (discard_ingress_locked st) = rt_accepting st"
  "rt_projection (discard_ingress_locked st) = rt_projection st"
  "rt_subscribers (discard_ingress_locked st) = rt_subscribers st"
  "rt_heap (discard_ingress_locked st) = rt_heap st"
  by (simp_all add: discard_ingress_locked_def)

lemma complete_snapshot_fields [simp]:
  "rt_observation (complete_snapshot_if_pending e st) = rt_observation st"
  "rt_accepting (complete_snapshot_if_pending e st) = rt_accepting st"
  "rt_ingress (complete_snapshot_if_pending e st) = rt_ingress st"
  "rt_projection (complete_snapshot_if_pending e st) = rt_projection st"
  "rt_subscribers (complete_snapshot_if_pending e st) = rt_subscribers st"
  "rt_heap (complete_snapshot_if_pending e st) = rt_heap st"
  by (simp_all add: complete_snapshot_if_pending_def split: option.split)

lemma fault_fields [simp]:
  "ob_state (rt_observation (transition_to_fault ops r e st)) = RsFaulted"
  "ob_fault_reason (rt_observation (transition_to_fault ops r e st)) = Some r"
  "rt_accepting (transition_to_fault ops r e st) = False"
  "rt_ingress (transition_to_fault ops r e st) = []"
  "rt_projection (transition_to_fault ops r e st) = rt_projection st"
  by (simp_all add: transition_to_fault_def refresh_projection_observation_locked_def Let_def)

lemma fault_no_active:
  assumes "heap_wf st"
  shows "no_active (transition_to_fault ops r e st)"
proof -
  have "rt_subscribers (transition_to_fault ops r e st)
      = rt_subscribers (terminalize_active_subscribers ops CONSUMER_GAP_REASON_RESUME_NOT_AVAILABLE
          RECOVERY_ACTION_REQUEST_NEW_SNAPSHOT (rt_current_projection_generation st) st)"
    "rt_heap (transition_to_fault ops r e st)
      = rt_heap (terminalize_active_subscribers ops CONSUMER_GAP_REASON_RESUME_NOT_AVAILABLE
          RECOVERY_ACTION_REQUEST_NEW_SNAPSHOT (rt_current_projection_generation st) st)"
    by (simp_all add: transition_to_fault_def refresh_projection_observation_locked_def Let_def)
  then show ?thesis using terminalize_no_active [OF assms] unfolding no_active_def by metis
qed

lemma fault_coherent: "heap_wf st \<Longrightarrow> coherent ops (transition_to_fault ops r e st)"
  by (simp add: coherent_def pre_coherent_def fault_no_active)

lemma publish_state_projection [simp]: "rt_projection (publish_projection_state ops st) = rt_projection st"
  by (simp add: publish_projection_state_def refresh_projection_observation_locked_def Let_def)

lemma publish_state_coherent:
  assumes "pre_coherent st"
  shows "coherent ops (publish_projection_state ops st)"
proof -
  let ?s = "publish_projection_state ops st"
  let ?p = "po_status ops (rt_projection st)"
  have state: "rt_state ?s = (if rt_state st \<noteq> RsFaulted \<and> rt_state st \<noteq> RsStopping \<and> rt_state st \<noteq> RsStopped
      then state_for_projection ?p else rt_state st)"
    and fault: "ob_fault_reason (rt_observation ?s) = ob_fault_reason (rt_observation st)"
    and status: "ob_projection_status (rt_observation ?s) = ?p"
    and acc: "rt_accepting ?s = (rt_accepting st \<and> ?p \<noteq> NeedsResync)"
    and ing: "?p = NeedsResync \<Longrightarrow> rt_ingress ?s = []"
    by (auto simp: publish_projection_state_def refresh_projection_observation_locked_def Let_def)
  have "no_active st \<Longrightarrow> no_active ?s" "rt_ingress st = [] \<Longrightarrow> rt_ingress ?s = []"
    using no_active_frame frame_ingress_Nil frame_publish_state by blast+
  with assms have "pre_coherent ?s"
    unfolding pre_coherent_def state fault acc by (cases ?p) auto
  moreover have "rt_state ?s = RsNeedsResync \<longrightarrow> \<not> rt_accepting ?s \<and> rt_ingress ?s = []"
    using ing unfolding state acc by (cases ?p) auto
  moreover have "rt_state ?s = RsLive \<longrightarrow> ?p = Synchronized"
    unfolding state by (cases ?p) auto
  ultimately show ?thesis unfolding coherent_def status publish_state_projection by blast
qed

lemma sample_fields [simp]:
  "rt_observation (snd (sample_publication_time ops st)) = rt_observation st"
  "rt_accepting (snd (sample_publication_time ops st)) = rt_accepting st"
  "rt_subscribers (snd (sample_publication_time ops st)) = rt_subscribers st"
  "rt_projection (snd (sample_publication_time ops st)) = rt_projection st"
  "rt_heap (snd (sample_publication_time ops st)) = rt_heap st"
  by (simp_all add: sample_publication_time_def)

lemma sweep_fields [simp]:
  "ob_state (rt_observation (sweep_closed_subscribers st)) = rt_state st"
  "ob_fault_reason (rt_observation (sweep_closed_subscribers st)) = ob_fault_reason (rt_observation st)"
  "rt_accepting (sweep_closed_subscribers st) = rt_accepting st"
  "rt_projection (sweep_closed_subscribers st) = rt_projection st"
  "rt_heap (sweep_closed_subscribers st) = rt_heap st"
  by (simp_all add: sweep_closed_subscribers_def Let_def)

lemma allocate_fields [simp]:
  "rt_observation (snd (allocate ops st)) = rt_observation st"
  "rt_accepting (snd (allocate ops st)) = rt_accepting st"
  "rt_subscribers (snd (allocate ops st)) = rt_subscribers st"
  "rt_projection (snd (allocate ops st)) = rt_projection st"
  "rt_heap (snd (allocate ops st)) = rt_heap st"
  by (simp_all add: allocate_def)

lemma publish_to_fields [simp]:
  "rt_observation (snd (publish_to ops u g t as st)) = rt_observation st"
  "rt_accepting (snd (publish_to ops u g t as st)) = rt_accepting st"
  "rt_subscribers (snd (publish_to ops u g t as st)) = rt_subscribers st"
  "rt_projection (snd (publish_to ops u g t as st)) = rt_projection st"
  using publish_to_effect [of ops u g t as st] by auto

text \<open>Publishing an applied update either faults or leaves state, fault and admission alone.\<close>

lemma publish_applied_cases:
  obtains (fault) r s where "publish_applied_update ops u v st = transition_to_fault ops r None s"
      "owner_frame st s" "rt_projection s = rt_projection st"
  | (same) "rt_state (publish_applied_update ops u v st) = rt_state st"
      "ob_fault_reason (rt_observation (publish_applied_update ops u v st))
         = ob_fault_reason (rt_observation st)"
      "rt_accepting (publish_applied_update ops u v st) = rt_accepting st"
      "rt_projection (publish_applied_update ops u v st) = rt_projection st"
proof -
  let ?s1 = "sweep_closed_subscribers st"
  let ?s2 = "snd (sample_publication_time ops ?s1)"
  let ?s3 = "snd (allocate ops ?s2)"
  let ?s4 = "map_observation (\<lambda>ob. ob\<lparr>ob_last_publication_thread_id := Some (rt_owner_tid ?s3)\<rparr>) ?s3"
  let ?r = "\<lambda>a t. publish_to ops (Ptr a u) (sp_connection_generation v) t (rt_subscribers ?s4) ?s4"
  have f: "owner_frame st ?s2" "owner_frame st ?s3" "owner_frame st (snd (?r a t))" for a t
    by (intro framed owner_frame_refl; simp)+
  have eq: "publish_applied_update ops u v st =
      (if rt_publication_shutdown_completed st then st
       else if rt_subscribers ?s1 = [] then ?s1
       else case fst (sample_publication_time ops ?s1) of
         None \<Rightarrow> transition_to_fault ops FrClockError None ?s2
       | Some t \<Rightarrow> (case fst (allocate ops ?s2) of
           None \<Rightarrow> transition_to_fault ops FrInternalError None ?s3
         | Some a \<Rightarrow> if fst (?r a t) then snd (?r a t)
             else transition_to_fault ops FrInternalError None (snd (?r a t))))"
    unfolding publish_applied_update_def Let_def case_prod_beta
    by (simp split: option.split bool.split)
  consider (quiet) "rt_publication_shutdown_completed st \<or> rt_subscribers ?s1 = []"
    | (clock) "\<not> rt_publication_shutdown_completed st" "rt_subscribers ?s1 \<noteq> []"
        "fst (sample_publication_time ops ?s1) = None"
    | (go) t where "\<not> rt_publication_shutdown_completed st" "rt_subscribers ?s1 \<noteq> []"
        "fst (sample_publication_time ops ?s1) = Some t"
    by blast
  then show thesis
  proof cases
    case quiet
    then have "publish_applied_update ops u v st = st \<or> publish_applied_update ops u v st = ?s1"
      unfolding eq by auto
    then show thesis using same by auto
  next
    case clock
    then have "publish_applied_update ops u v st = transition_to_fault ops FrClockError None ?s2"
      unfolding eq by simp
    then show thesis using fault f(1) by simp
  next
    case go
    show thesis
    proof (cases "fst (allocate ops ?s2)")
      case None
      with go have "publish_applied_update ops u v st = transition_to_fault ops FrInternalError None ?s3"
        unfolding eq by simp
      then show thesis using fault f(2) by simp
    next
      case (Some a)
      with go have "publish_applied_update ops u v st = (if fst (?r a t) then snd (?r a t)
          else transition_to_fault ops FrInternalError None (snd (?r a t)))"
        unfolding eq by simp
      then show thesis using fault same f(3) [of a t] by (cases "fst (?r a t)") simp_all
    qed
  qed
qed

end
