(* ===== verification/RuntimeSystem.thy ===== *)
theory RuntimeSystem
  imports RuntimeInvariant
begin

text \<open>
  The runtime as a system of threads: any number of clients, the owner, and one RPC writer per
  subscription, whose steps interleave in any order; the invariant of its reachable states and
  the properties that follow.
\<close>

section \<open>Processing keeps the runtime coherent\<close>

lemma apply_update_coherent:
  assumes "pre_coherent st" and "heap_wf st"
  shows "if fst (apply_update ops i st) then coherent ops (snd (apply_update ops i st))
    else pre_coherent (snd (apply_update ops i st))"
proof -
  have wf: "owner_frame st s \<Longrightarrow> heap_wf s" for s using heap_wf_frame assms(2) by blast
  have fault: "owner_frame st s \<Longrightarrow> coherent ops (transition_to_fault ops r e s)" for r e s
    using wf fault_coherent by blast
  have proj: "pre_coherent (st\<lparr>rt_projection := p\<rparr>)" for p
    by (rule pre_coherent_frame [OF frame_fields(1) assms(1)]) simp_all
  have rec: "pre_coherent (record_apply i res (st\<lparr>rt_projection := p\<rparr>))" for res p
    by (rule pre_coherent_frame [OF frame_record_apply proj]) (simp_all add: record_apply_def Let_def)
  have pub: "pre_coherent (publish_applied_update ops u v s)"
    if "pre_coherent s" "owner_frame st s" for u v s
  proof (cases rule: publish_applied_cases [of ops u v s])
    case (fault r s')
    then have "heap_wf s'" using that wf owner_frame_trans by blast
    then show ?thesis unfolding fault(1) by (blast intro: fault_coherent coherent_pre)
  next
    case same
    then show ?thesis by (intro pre_coherent_frame [OF frame_publish_applied that(1)])
  qed
  have stop: "pre_coherent s \<Longrightarrow> pre_coherent (terminalize_active_subscribers ops r a g s)" for r a g s
    by (rule pre_coherent_frame [OF frame_terminalize]) simp_all
  have frame: "owner_frame st (record_apply i res (st\<lparr>rt_projection := p\<rparr>))"
    "owner_frame st (st\<lparr>rt_projection := p\<rparr>)" for res p
    by (intro framed owner_frame_refl)+
  show ?thesis
    unfolding apply_update_def Let_def case_prod_beta
    using assms(1)
    by (auto split: outcome.split intro!: fault publish_state_coherent pub stop rec proj frame)
qed

lemma replay_coherent:
  assumes "pre_coherent st" and "heap_wf st"
  shows "pre_coherent (snd (replay_bootstrap ops st))
    \<and> (fst (replay_bootstrap ops st) \<longrightarrow> rt_bootstrap (snd (replay_bootstrap ops st)) = [])"
  using assms
proof (induction ops st rule: replay_bootstrap.induct)
  case (1 ops st)
  show ?case
  proof (cases "rt_bootstrap st")
    case (Cons update rest)
    let ?s = "st\<lparr>rt_bootstrap := rest\<rparr>"
    let ?r = "apply_update ops update ?s"
    have s: "pre_coherent ?s" "heap_wf ?s"
      using "1.prems" pre_coherent_frame [OF frame_fields(2)] by (simp_all add: heap_wf_def)
    then have r: "pre_coherent (snd ?r)" "heap_wf (snd ?r)"
      using apply_update_coherent [of ?s ops update] coherent_pre
        heap_wf_frame [OF frame_apply_update] by (metis (full_types))+
    then have "pre_coherent ((snd ?r)\<lparr>rt_bootstrap := []\<rparr>)"
      using pre_coherent_frame [OF frame_fields(2)] by simp
    then show ?thesis
      unfolding replay_bootstrap.simps [of ops st] Let_def
      using Cons r "1.IH" [OF Cons refl] by simp
  qed (use "1.prems" in \<open>simp add: replay_bootstrap.simps [of ops st]\<close>)
qed

definition bootstrap_ok :: "('p, 'g, 's, 'b, 'c) projection_ops \<Rightarrow> ('p, 'g, 's) runtime \<Rightarrow> bool" where
  "bootstrap_ok ops st \<longleftrightarrow> length (rt_bootstrap st) \<le> rl_bootstrap_capacity (rt_limits st)
     \<and> (rt_bootstrap st \<noteq> [] \<longrightarrow> po_status ops (rt_projection st) = AwaitingBaseline)"

lemma process_snapshot_coherent:
  assumes "pre_coherent st" and "heap_wf st"
  shows "if fst (process_snapshot ops i st)
    then coherent ops (snd (process_snapshot ops i st)) \<and> rt_bootstrap (snd (process_snapshot ops i st)) = []
    else pre_coherent (snd (process_snapshot ops i st))"
proof -
  have fault: "owner_frame st s \<Longrightarrow> coherent ops (transition_to_fault ops r e s)" for r e s
    using heap_wf_frame [OF _ assms(2)] fault_coherent by blast
  have proj: "pre_coherent (st\<lparr>rt_projection := p\<rparr>)" for p
    by (rule pre_coherent_frame [OF frame_fields(1) assms(1)]) simp_all
  have frame: "owner_frame st (st\<lparr>rt_projection := p\<rparr>)"
    "owner_frame st (map_observation (\<lambda>ob. ob\<lparr>ob_last_install := x\<rparr>) (st\<lparr>rt_projection := p\<rparr>))" for p x
    by (intro framed owner_frame_refl; simp)+
  let ?g = "sp_connection_generation (si_provenance i)"
  let ?s = "\<lambda>p x. map_observation (\<lambda>ob. ob\<lparr>ob_current_projection_generation := ?g\<rparr>)
      (map_observation (\<lambda>ob. ob\<lparr>ob_last_install := Some x\<rparr>)
        (st\<lparr>rt_projection := p\<rparr>)\<lparr>rt_current_projection_generation := ?g\<rparr>)"
  have s: "pre_coherent (?s p x)" "heap_wf (?s p x)" for p x
    using assms by (simp_all add: pre_coherent_def no_active_def heap_wf_def)
  note replay = replay_coherent [OF s]
  show ?thesis
    unfolding process_snapshot_def Let_def case_prod_beta
    using assms(1) replay
    by (auto split: outcome.split intro!: fault publish_state_coherent proj frame)
qed

lemma process_input_coherent:
  assumes "pre_coherent st" and "heap_wf st" and "bootstrap_ok ops st"
  shows "if fst (process_input ops i st)
    then coherent ops (snd (process_input ops i st)) \<and> bootstrap_ok ops (snd (process_input ops i st))
    else pre_coherent (snd (process_input ops i st))"
proof (cases i)
  case (InDepth d)
  have limits: "rt_limits (snd (apply_update ops d st)) = rt_limits st"
    "rt_limits (publish_projection_state ops s) = rt_limits s" for s
    using frame_apply_update [of st ops d] frame_publish_state [of s ops]
    by (simp_all add: owner_frame_def same_control_def)
  have push: "pre_coherent (st\<lparr>rt_bootstrap := b\<rparr>)" for b
    by (rule pre_coherent_frame [OF frame_fields(2) assms(1)]) simp_all
  have "rt_bootstrap (snd (apply_update ops d st)) = []"
    if "po_status ops (rt_projection st) \<noteq> AwaitingBaseline"
    using that assms(3) apply_update_bootstrap [of ops d st] by (auto simp: bootstrap_ok_def)
  then show ?thesis
    using InDepth assms apply_update_coherent [OF assms(1,2), of ops d] push
    by (auto simp: process_depth_update_def bootstrap_ok_def fault_coherent limits
        intro!: publish_state_coherent split: if_splits)
next
  case (InSnapshot s)
  then show ?thesis
    using process_snapshot_coherent [OF assms(1,2), of ops s] by (auto simp: bootstrap_ok_def)
next
  case (InFailure f)
  then show ?thesis using assms(2) by (simp add: fault_coherent bootstrap_ok_def)
qed

lemma finish_ticket_fields [simp]:
  "rt_state (finish_ticket t st) = rt_state st" "rt_accepting (finish_ticket t st) = rt_accepting st"
  "ob_fault_reason (rt_observation (finish_ticket t st)) = ob_fault_reason (rt_observation st)"
  "ob_projection_status (rt_observation (finish_ticket t st)) = ob_projection_status (rt_observation st)"
  "rt_ingress (finish_ticket t st) = rt_ingress st" "rt_projection (finish_ticket t st) = rt_projection st"
  "rt_bootstrap (finish_ticket t st) = rt_bootstrap st" "rt_limits (finish_ticket t st) = rt_limits st"
  "rt_subscribers (finish_ticket t st) = rt_subscribers st" "rt_heap (finish_ticket t st) = rt_heap st"
  "rt_processed_ticket (finish_ticket t st) = max (rt_processed_ticket st) t"
  by (simp_all add: finish_ticket_def)

lemma process_item_coherent:
  assumes "pre_coherent st" and "heap_wf st" and "bootstrap_ok ops st"
  shows "coherent ops (process_item ops item st) \<and> bootstrap_ok ops (process_item ops item st)"
proof -
  let ?r = "process_input ops (ii_input item) st"
  let ?s = "if fst ?r then snd ?r else transition_to_fault ops FrInternalError None (snd ?r)"
  have "coherent ops ?s \<and> bootstrap_ok ops ?s"
  proof (cases "fst ?r")
    case False
    moreover have "heap_wf (snd ?r)" using heap_wf_frame [OF frame_process_input assms(2)] .
    ultimately show ?thesis by (simp add: fault_coherent bootstrap_ok_def)
  qed (use process_input_coherent [OF assms, of "ii_input item"] in simp)
  moreover have "process_item ops item st = finish_ticket (ii_ticket item) ?s"
    by (simp add: process_item_def Let_def)
  ultimately show ?thesis
    by (simp add: coherent_def pre_coherent_def no_active_def bootstrap_ok_def)
qed

section \<open>The system\<close>

text \<open>
  Steps of the system. The label of a step of an RPC writer is the channel and the session
  sequence number whose delivery it acknowledged. A submission is taken while ticket numbers
  remain, that is for the first \<open>2 ^ 64 - 1\<close> inputs of a process.
\<close>

inductive runtime_step ::
  "('p, 'g, 's, 'b, 'c) projection_ops \<Rightarrow> ('p, 'g, 's) runtime \<Rightarrow> (nat \<times> nat) option
     \<Rightarrow> ('p, 'g, 's) runtime \<Rightarrow> bool"
  for ops :: "('p, 'g, 's, 'b, 'c) projection_ops" where
  rs_start: "runtime_step ops st None (snd (start ops thread_ok st))"
| rs_stop: "runtime_step ops st None (snd (stop_request st))"
| rs_stop_finish: "stop_finish st = Some st' \<Longrightarrow> runtime_step ops st None st'"
| rs_submit: "rt_last_admitted_ticket st \<noteq> u64_max \<Longrightarrow> runtime_step ops st None (snd (submit input st))"
| rs_observe: "observe_finish target st = Some (ob, st') \<Longrightarrow> runtime_step ops st None st'"
| rs_wait_live: "wait_until_live_or_recovery_required token st = Some (res, st')
    \<Longrightarrow> runtime_step ops st None st'"
| rs_wait_recovery: "wait_until_recovery_required token st = Some (res, st')
    \<Longrightarrow> runtime_step ops st None st'"
| rs_reset_begin: "runtime_step ops st None (snd (reset_begin st))"
| rs_planned_begin: "runtime_step ops st None (snd (planned_reset_begin st))"
| rs_reset_finish: "reset_finish st = Some (rr, st') \<Longrightarrow> runtime_step ops st None st'"
| rs_capture_begin: "runtime_step ops st None (snd (capture_begin st))"
| rs_capture_finish: "capture_finish st = Some (sr, st') \<Longrightarrow> runtime_step ops st None st'"
| rs_admit_begin: "runtime_step ops st None (snd (admit_begin ops sub st))"
| rs_notify: "runtime_step ops st None (notify_subscriber_closed st)"
| rs_close_admission: "runtime_step ops st None (close_publication_admission st)"
| rs_shutdown: "runtime_step ops st None (snd (shutdown_begin st))"
| rs_release: "runtime_step ops st None (release_owner_for_testing st)"
| rs_pause: "runtime_step ops st None (pause_owner_for_testing st)"
| rs_owner: "owner_step ops st = Some st' \<Longrightarrow> runtime_step ops st None st'"
| rs_acknowledge: "rt_heap st a = Some ch \<Longrightarrow>
    runtime_step ops st (map_option (Pair a) (ack_label p ch))
      (st\<lparr>rt_heap := (rt_heap st)(a \<mapsto> snd (acknowledge p ch))\<rparr>)"
| rs_writer_close: "rt_heap st a = Some ch \<Longrightarrow>
    runtime_step ops st None (st\<lparr>rt_heap := (rt_heap st)(a \<mapsto> close_from_writer ch)\<rparr>)"

section \<open>Tickets\<close>

definition tickets_at :: "u64 \<Rightarrow> u64 \<Rightarrow> ingress_item list \<Rightarrow> bool" where
  "tickets_at p l items \<longleftrightarrow> unat p \<le> unat l
     \<and> map (\<lambda>i. unat (ii_ticket i)) items = [Suc (unat p)..<Suc (unat l)]"

lemma tickets_at_Cons:
  assumes "tickets_at p l (i # items)"
  shows "tickets_at (max p (ii_ticket i)) l items" and "unat (max p (ii_ticket i)) = Suc (unat p)"
proof -
  from assms have lt: "unat p < unat l"
    by (auto simp: tickets_at_def split: if_splits)
  then have "[Suc (unat p)..<Suc (unat l)] = Suc (unat p) # [Suc (Suc (unat p))..<Suc (unat l)]"
    by (simp add: upt_rec)
  with assms have i: "unat (ii_ticket i) = Suc (unat p)"
    and xs: "map (\<lambda>i. unat (ii_ticket i)) items = [Suc (Suc (unat p))..<Suc (unat l)]"
    by (auto simp: tickets_at_def)
  then show m: "unat (max p (ii_ticket i)) = Suc (unat p)" by (simp add: unat_max_u64)
  show "tickets_at (max p (ii_ticket i)) l items"
    using lt xs by (simp add: tickets_at_def m)
qed

lemma tickets_at_discard:
  assumes "tickets_at p l (pre @ items)" and "items \<noteq> []"
  shows "max p (ii_ticket (last items)) = l"
proof -
  have "unat (ii_ticket (last items)) = last (map (\<lambda>i. unat (ii_ticket i)) (pre @ items))"
    using assms(2) by (simp add: last_map)
  also have "\<dots> = last [Suc (unat p)..<Suc (unat l)]" using assms(1) by (simp add: tickets_at_def)
  also have "\<dots> = unat l"
  proof -
    have "[Suc (unat p)..<Suc (unat l)] \<noteq> []"
      using assms by (metis append_is_Nil_conv map_is_Nil_conv tickets_at_def)
    then show ?thesis by (simp split: if_splits)
  qed
  finally have "ii_ticket (last items) = l" by (simp add: word_unat_eq_iff)
  moreover have "p \<le> l" using assms(1) by (simp add: tickets_at_def word_le_nat_alt)
  ultimately show ?thesis by (simp add: max_def)
qed

lemma tickets_at_Nil [simp]: "tickets_at l l []"
  by (simp add: tickets_at_def)

lemma tickets_at_snoc:
  assumes "tickets_at p l items" and "l \<noteq> u64_max"
  shows "tickets_at p (l + 1) (items @ [\<lparr>ii_ticket = l + 1, ii_input = x\<rparr>])"
  using assms unat_Suc_u64 [of l] by (simp add: tickets_at_def)

definition in_flight :: "('p, 'g, 's) runtime \<Rightarrow> ingress_item list" where
  "in_flight st = (case rt_owner st of OwnerWorking (WorkItem i) \<Rightarrow> [i] | _ \<Rightarrow> [])"

definition tickets_inv :: "('p, 'g, 's) runtime \<Rightarrow> bool" where
  "tickets_inv st \<longleftrightarrow>
     tickets_at (rt_processed_ticket st) (rt_last_admitted_ticket st) (in_flight st @ rt_ingress st)"

lemma tickets_frame:
  assumes "owner_frame st s" and "tickets_inv st" and "in_flight st = []"
  shows "tickets_inv s"
proof -
  have "in_flight s = []" "rt_last_admitted_ticket s = rt_last_admitted_ticket st"
    using assms by (simp_all add: owner_frame_def same_control_def in_flight_def)
  moreover have "discards st s" using assms by (simp add: owner_frame_def)
  ultimately show ?thesis
    using assms tickets_at_discard [of "rt_processed_ticket st" "rt_last_admitted_ticket st" "[]"]
    by (auto simp: tickets_inv_def discards_def)
qed

lemma tickets_item:
  assumes "owner_frame st s" and "tickets_inv st" and "in_flight st = [i]"
  shows "tickets_at (max (rt_processed_ticket s) (ii_ticket i)) (rt_last_admitted_ticket s) (rt_ingress s)"
proof -
  let ?p = "rt_processed_ticket st" and ?l = "rt_last_admitted_ticket st"
  have t: "tickets_at ?p ?l ([i] @ rt_ingress st)" using assms by (simp add: tickets_inv_def)
  then have i: "tickets_at (max ?p (ii_ticket i)) ?l (rt_ingress st)"
    using tickets_at_Cons(1) by simp
  then have "ii_ticket i \<le> ?l" by (simp add: tickets_at_def unat_max_u64 word_le_nat_alt)
  moreover have "rt_last_admitted_ticket s = ?l" and "discards st s"
    using assms by (simp_all add: owner_frame_def same_control_def)
  ultimately show ?thesis
    using i tickets_at_discard [OF t] by (auto simp: discards_def max_absorb1)
qed

section \<open>The invariant\<close>

definition in_admission :: "('p, 'g, 's) runtime \<Rightarrow> nat list" where
  "in_admission st =
     (case rt_owner st of
        OwnerWorking (WorkAdmission i q) \<Rightarrow> [i] | OwnerWorking (WorkCommit i a c) \<Rightarrow> [i] | _ \<Rightarrow> [])"

text \<open>Every pending admission is counted once, and none has its result yet.\<close>

definition admissions_inv :: "('p, 'g, 's) runtime \<Rightarrow> bool" where
  "admissions_inv st \<longleftrightarrow>
     rt_pending_admission_count st = length (rt_admission_requests st) + length (in_admission st)
     \<and> rt_pending_admission_count st \<le> pl_pending_admission_capacity (rl_publication (rt_limits st))
     \<and> distinct (map fst (rt_admission_requests st) @ in_admission st)
     \<and> (\<forall>i \<in> set (map fst (rt_admission_requests st) @ in_admission st). rt_admission_results st i = None
          \<and> i < rt_alloc_calls st)
     \<and> (\<forall>i. rt_admission_results st i \<noteq> None \<longrightarrow> i < rt_alloc_calls st)"

definition staged :: "'s channel \<Rightarrow> bool" where
  "staged c \<longleftrightarrow> channel_wf c
     \<and> channel_abs c = \<lparr>eg_pending = [1, 2], eg_terminal = None, eg_next = 3, eg_phase = Flowing\<rparr>"

definition subscription_name :: "u64 \<Rightarrow> string" where
  "subscription_name k = ''ob-'' @ to_string_u64 k"

text \<open>
  The channels: subscribers are distinct channels of the heap within the limit, subscription
  ids are numbered and never shared, and a channel about to be committed is still private.
\<close>

definition commit_inv :: "('p, 'g, 's) runtime \<Rightarrow> bool" where
  "commit_inv st \<longleftrightarrow>
     (\<forall>i a c. rt_owner st = OwnerWorking (WorkCommit i a c) \<longrightarrow>
        rt_heap st a = None \<and> a < rt_alloc_calls st \<and> staged c
        \<and> ch_subscription_id c = subscription_name (rt_next_subscription_id st)
        \<and> rt_next_subscription_id st \<noteq> u64_max
        \<and> length (rt_subscribers st) < pl_maximum_active_subscriptions (rl_publication (rt_limits st)))"

definition names_inv :: "('p, 'g, 's) runtime \<Rightarrow> bool" where
  "names_inv st \<longleftrightarrow>
     (\<forall>a c. rt_heap st a = Some c \<longrightarrow>
        (\<exists>k < rt_next_subscription_id st. ch_subscription_id c = subscription_name k))
     \<and> (\<forall>a b c d. rt_heap st a = Some c \<longrightarrow> rt_heap st b = Some d
          \<longrightarrow> ch_subscription_id c = ch_subscription_id d \<longrightarrow> a = b)"

definition subscribers_inv :: "('p, 'g, 's) runtime \<Rightarrow> bool" where
  "subscribers_inv st \<longleftrightarrow>
     distinct (rt_subscribers st) \<and> set (rt_subscribers st) \<subseteq> dom (rt_heap st)
     \<and> dom (rt_heap st) \<subseteq> {..<rt_alloc_calls st}
     \<and> length (rt_subscribers st) \<le> pl_maximum_active_subscriptions (rl_publication (rt_limits st))
     \<and> ob_resident_subscription_count (rt_observation st) = length (rt_subscribers st)"

text \<open>The life cycle of the owner thread.\<close>

definition phase_inv :: "('p, 'g, 's) runtime \<Rightarrow> bool" where
  "phase_inv st \<longleftrightarrow>
     (rt_owner st = OwnerAbsent \<longleftrightarrow> \<not> rt_started st)
     \<and> (\<not> rt_started st \<longrightarrow> rt_subscribers st = [] \<and> rt_ingress st = [] \<and> rt_bootstrap st = []
          \<and> rt_admission_requests st = [] \<and> ob_fault_reason (rt_observation st) = None
          \<and> rt_state st \<in> {RsConstructed, RsStopped})
     \<and> (rt_owner st = OwnerExited \<longrightarrow> rt_stop_requested st \<and> rt_subscribers st = []
          \<and> rt_ingress st = [] \<and> rt_admission_requests st = [])
     \<and> (rt_stop_requested st \<longrightarrow> rt_started st \<and> rt_publication_shutdown_requested st
          \<and> \<not> rt_owner_paused st)
     \<and> (rt_stopped st \<longrightarrow> \<not> rt_started st \<or> rt_owner st = OwnerExited)"

definition rt_inv ::
  "('p, 'g, 's, 'b, 'c) projection_ops \<Rightarrow> runtime_limits \<Rightarrow> ('p, 'g, 's) runtime \<Rightarrow> bool" where
  "rt_inv ops limits st \<longleftrightarrow>
     rt_limits st = limits \<and> length (rt_ingress st) \<le> rl_ingress_capacity (rt_limits st)
     \<and> tickets_inv st \<and> admissions_inv st \<and> commit_inv st \<and> names_inv st \<and> subscribers_inv st
     \<and> phase_inv st \<and> coherent ops st \<and> heap_wf st \<and> bootstrap_ok ops st"

text \<open>Each part depends on a few fields only.\<close>

lemma tickets_same:
  "tickets_inv st \<Longrightarrow> rt_processed_ticket s = rt_processed_ticket st
     \<Longrightarrow> rt_last_admitted_ticket s = rt_last_admitted_ticket st \<Longrightarrow> rt_ingress s = rt_ingress st
     \<Longrightarrow> in_flight s = in_flight st \<Longrightarrow> tickets_inv s"
  by (simp only: tickets_inv_def)

lemma in_same:
  "rt_owner s = rt_owner st \<Longrightarrow> in_flight s = in_flight st"
  "rt_owner s = rt_owner st \<Longrightarrow> in_admission s = in_admission st"
  by (simp_all only: in_flight_def in_admission_def)

lemma admissions_same:
  assumes "admissions_inv st" and "rt_pending_admission_count s = rt_pending_admission_count st"
    and "rt_admission_requests s = rt_admission_requests st" and "in_admission s = in_admission st"
    and "rt_limits s = rt_limits st" and "rt_admission_results s = rt_admission_results st"
    and "rt_alloc_calls st \<le> rt_alloc_calls s"
  shows "admissions_inv s"
  using assms unfolding admissions_inv_def by (metis order_less_le_trans)

lemma commit_same:
  assumes "commit_inv st" and "rt_owner s = rt_owner st" and "rt_heap s = rt_heap st"
    and "rt_alloc_calls st \<le> rt_alloc_calls s" and "rt_limits s = rt_limits st"
    and "rt_next_subscription_id s = rt_next_subscription_id st"
    and "length (rt_subscribers s) \<le> length (rt_subscribers st)"
  shows "commit_inv s"
  using assms unfolding commit_inv_def by (metis order_less_le_trans order_le_less_trans)

lemma commit_free: "(\<And>i a c. rt_owner s \<noteq> OwnerWorking (WorkCommit i a c)) \<Longrightarrow> commit_inv s"
  by (simp add: commit_inv_def)

lemma names_same:
  "names_inv st \<Longrightarrow> rt_heap s = rt_heap st \<Longrightarrow> rt_next_subscription_id s = rt_next_subscription_id st
     \<Longrightarrow> names_inv s"
  by (simp only: names_inv_def)

lemma subscribers_same:
  assumes "subscribers_inv st" and "rt_subscribers s = rt_subscribers st" and "rt_heap s = rt_heap st"
    and "rt_alloc_calls st \<le> rt_alloc_calls s" and "rt_limits s = rt_limits st"
    and "ob_resident_subscription_count (rt_observation s) = ob_resident_subscription_count (rt_observation st)"
  shows "subscribers_inv s"
  using assms unfolding subscribers_inv_def by (metis lessThan_subset_iff order_trans)

lemma no_active_same:
  "no_active st \<Longrightarrow> rt_subscribers s = rt_subscribers st \<Longrightarrow> rt_heap s = rt_heap st \<Longrightarrow> no_active s"
  by (simp only: no_active_def)

lemma heap_wf_same: "heap_wf st \<Longrightarrow> rt_heap s = rt_heap st \<Longrightarrow> heap_wf s"
  by (simp only: heap_wf_def)

lemma bootstrap_same:
  "bootstrap_ok ops st \<Longrightarrow> rt_bootstrap s = rt_bootstrap st \<Longrightarrow> rt_projection s = rt_projection st
     \<Longrightarrow> rt_limits s = rt_limits st \<Longrightarrow> bootstrap_ok ops s"
  by (simp add: bootstrap_ok_def)

lemma coherent_same:
  assumes "coherent ops st" and "rt_state s = rt_state st" and "rt_projection s = rt_projection st"
    and "ob_fault_reason (rt_observation s) = ob_fault_reason (rt_observation st)"
    and "ob_projection_status (rt_observation s) = ob_projection_status (rt_observation st)"
    and "rt_accepting s \<Longrightarrow> rt_accepting st"
    and "rt_accepting st \<Longrightarrow> rt_ingress s = [] \<or> rt_ingress st \<noteq> []"
    and "rt_ingress st = [] \<Longrightarrow> \<not> rt_accepting st \<Longrightarrow> rt_ingress s = []"
    and "rt_subscribers s = rt_subscribers st" and "rt_heap s = rt_heap st"
  shows "coherent ops s"
  using assms no_active_same [of st s] unfolding coherent_def pre_coherent_def by metis

lemma phase_same:
  assumes "phase_inv st" and "rt_owner s = rt_owner st" and "rt_started s = rt_started st"
    and "rt_subscribers s = rt_subscribers st" and "rt_ingress s = rt_ingress st"
    and "rt_bootstrap s = rt_bootstrap st" and "rt_admission_requests s = rt_admission_requests st"
    and "ob_fault_reason (rt_observation s) = ob_fault_reason (rt_observation st)"
    and "rt_state s = rt_state st" and "rt_stop_requested s = rt_stop_requested st"
    and "rt_publication_shutdown_requested st \<Longrightarrow> rt_publication_shutdown_requested s"
    and "rt_stop_requested st \<Longrightarrow> rt_owner_paused s \<Longrightarrow> rt_owner_paused st"
    and "rt_stopped s = rt_stopped st"
  shows "phase_inv s"
  using assms unfolding phase_inv_def by auto

lemmas parts_same = tickets_same admissions_same commit_same names_same subscribers_same
  heap_wf_same bootstrap_same coherent_same phase_same in_same

lemma rt_inv_same:
  assumes "rt_inv ops limits st"
    and "tickets_inv st \<Longrightarrow> tickets_inv s" "admissions_inv st \<Longrightarrow> admissions_inv s"
    and "phase_inv st \<Longrightarrow> phase_inv s" "coherent ops st \<Longrightarrow> coherent ops s"
    and "rt_limits s = rt_limits st" "length (rt_ingress s) \<le> rl_ingress_capacity limits"
    and "rt_owner s = rt_owner st" "rt_heap s = rt_heap st" "rt_alloc_calls st \<le> rt_alloc_calls s"
    and "rt_next_subscription_id s = rt_next_subscription_id st" "rt_subscribers s = rt_subscribers st"
    and "ob_resident_subscription_count (rt_observation s) = ob_resident_subscription_count (rt_observation st)"
    and "rt_bootstrap s = rt_bootstrap st" "rt_projection s = rt_projection st"
  shows "rt_inv ops limits s"
proof -
  note i = assms(1) [unfolded rt_inv_def]
  have "commit_inv s" using commit_same [of st s] assms(6-) i by simp
  moreover have "names_inv s" using names_same [of st s] assms(6-) i by simp
  moreover have "subscribers_inv s" using subscribers_same [of st s] assms(6-) i by simp
  moreover have "heap_wf s" using heap_wf_same [of st s] assms(6-) i by simp
  moreover have "bootstrap_ok ops s" using bootstrap_same [of ops st s] assms(6-) i by simp
  ultimately show ?thesis using assms(2-7) i unfolding rt_inv_def by simp
qed

lemma make_runtime_inv:
  "make_runtime limits hc symbol p paused tid = Some st \<Longrightarrow> rt_inv ops limits st"
  by (auto simp: make_runtime_def initial_observation_def rt_inv_def tickets_inv_def in_flight_def
      admissions_inv_def in_admission_def commit_inv_def names_inv_def subscribers_inv_def
      phase_inv_def coherent_def pre_coherent_def heap_wf_def bootstrap_ok_def split: if_splits)

section \<open>The client operations keep the invariant\<close>

lemma rt_inv_ingress: "rt_inv ops limits st \<Longrightarrow> length (rt_ingress st) \<le> rl_ingress_capacity limits"
  by (auto simp: rt_inv_def)

lemma stop_request_inv:
  assumes "rt_inv ops limits st"
  shows "rt_inv ops limits (snd (stop_request st))"
proof (rule rt_inv_same [OF assms])
  let ?s = "snd (stop_request st)"
  show "coherent ops ?s" if "coherent ops st"
    using that no_active_same [of st ?s] unfolding coherent_def pre_coherent_def
    by (auto simp: stop_request_def)
  show "phase_inv ?s" if "phase_inv st"
    using that by (auto simp: stop_request_def phase_inv_def)
  show "tickets_inv ?s" if "tickets_inv st"
    by (rule tickets_same [OF that]) (auto simp: stop_request_def in_flight_def)
  show "admissions_inv ?s" if "admissions_inv st"
    by (rule admissions_same [OF that]) (auto simp: stop_request_def in_admission_def)
qed (use rt_inv_ingress [OF assms] in \<open>auto simp: stop_request_def\<close>)

text \<open>Operations that change nothing the invariant speaks of.\<close>

lemma rt_inv_keep:
  assumes "rt_inv ops limits st"
    and "rt_processed_ticket s = rt_processed_ticket st"
    "rt_last_admitted_ticket s = rt_last_admitted_ticket st" "rt_ingress s = rt_ingress st"
    "rt_pending_admission_count s = rt_pending_admission_count st"
    "rt_admission_requests s = rt_admission_requests st" "rt_admission_results s = rt_admission_results st"
    "rt_limits s = rt_limits st" "rt_owner s = rt_owner st" "rt_heap s = rt_heap st"
    "rt_alloc_calls st \<le> rt_alloc_calls s" "rt_next_subscription_id s = rt_next_subscription_id st"
    "rt_subscribers s = rt_subscribers st"
    "ob_resident_subscription_count (rt_observation s) = ob_resident_subscription_count (rt_observation st)"
    "rt_bootstrap s = rt_bootstrap st" "rt_projection s = rt_projection st" "rt_state s = rt_state st"
    "ob_fault_reason (rt_observation s) = ob_fault_reason (rt_observation st)"
    "ob_projection_status (rt_observation s) = ob_projection_status (rt_observation st)"
    "rt_accepting s \<Longrightarrow> rt_accepting st"
    "rt_started s = rt_started st" "rt_stop_requested s = rt_stop_requested st"
    "rt_publication_shutdown_requested st \<Longrightarrow> rt_publication_shutdown_requested s"
    "rt_stop_requested st \<Longrightarrow> rt_owner_paused s \<Longrightarrow> rt_owner_paused st"
    "rt_stopped s = rt_stopped st"
  shows "rt_inv ops limits s"
proof (rule rt_inv_same [OF assms(1)])
  show "coherent ops s" if "coherent ops st"
    by (rule coherent_same [OF that]) (use assms(2-) in auto)
  show "phase_inv s" if "phase_inv st"
    by (rule phase_same [OF that]) (use assms(2-) in auto)
  show "tickets_inv s" if "tickets_inv st"
    by (rule tickets_same [OF that]) (use assms(2-) in_same [of s st] in auto)
  show "admissions_inv s" if "admissions_inv st"
    by (rule admissions_same [OF that]) (use assms(2-) in_same [of s st] in auto)
qed (use assms(2-) rt_inv_ingress [OF assms(1)] in auto)

lemma client_inv:
  assumes "rt_inv ops limits st"
  shows "rt_inv ops limits (snd (reset_begin st))"
    and "rt_inv ops limits (snd (planned_reset_begin st))"
    and "rt_inv ops limits (snd (capture_begin st))"
    and "rt_inv ops limits (notify_subscriber_closed st)"
    and "rt_inv ops limits (close_publication_admission st)"
    and "rt_inv ops limits (snd (shutdown_begin st))"
    and "rt_inv ops limits (release_owner_for_testing st)"
    and "rt_inv ops limits (pause_owner_for_testing st)"
    and "rt_inv ops limits (publish_tickets_locked st)"
    and "rt_inv ops limits (map_observation (\<lambda>ob. ob\<lparr>ob_ingress_occupancy := n\<rparr>) st)"
    and "rt_inv ops limits (st\<lparr>rt_reset_request := r\<rparr>)"
    and "rt_inv ops limits (st\<lparr>rt_snapshot_request := q\<rparr>)"
    and "rt_inv ops limits (st\<lparr>rt_clock_calls := k\<rparr>)"
    and "rt_inv ops limits (snd (allocate ops st))"
  by (rule rt_inv_keep [OF assms]; simp add: reset_begin_def planned_reset_begin_def capture_begin_def
      notify_subscriber_closed_def close_publication_admission_def shutdown_begin_def
      release_owner_for_testing_def pause_owner_for_testing_def publish_tickets_locked_def
      allocate_def Let_def split: if_splits)+

lemma finish_inv:
  assumes "rt_inv ops limits st"
  shows "reset_finish st = Some (rr, st') \<Longrightarrow> rt_inv ops limits st'"
    and "capture_finish st = Some (sr, st') \<Longrightarrow> rt_inv ops limits st'"
    and "observe_finish target st = Some (ob, st') \<Longrightarrow> rt_inv ops limits st'"
    and "wait_until_live_or_recovery_required token st = Some (res, st') \<Longrightarrow> rt_inv ops limits st'"
    and "wait_until_recovery_required token st = Some (res, st') \<Longrightarrow> rt_inv ops limits st'"
  using assms
  by (auto simp: reset_finish_def capture_finish_def observe_finish_def Let_def
      wait_until_live_or_recovery_required_def wait_until_recovery_required_def
      intro!: client_inv split: option.splits if_splits)

lemma start_inv:
  assumes "rt_inv ops limits st"
  shows "rt_inv ops limits (snd (start ops ok st))"
proof (cases "\<not> rt_stopped st \<and> \<not> rt_started st \<and> ok")
  case True
  then have st: "rt_owner st = OwnerAbsent" "ob_fault_reason (rt_observation st) = None"
      "rt_subscribers st = []" "rt_ingress st = []" "rt_bootstrap st = []"
    using assms by (auto simp: rt_inv_def phase_inv_def)
  let ?s = "snd (start ops ok st)"
  note s = start_def refresh_projection_observation_locked_def
  have "tickets_inv ?s" using assms True st by (simp add: s rt_inv_def tickets_inv_def in_flight_def)
  moreover have "admissions_inv ?s"
    using admissions_same [of st ?s] assms True st by (simp add: s rt_inv_def in_admission_def)
  moreover have "commit_inv ?s" by (rule commit_free) (simp add: s True)
  moreover have "names_inv ?s" "subscribers_inv ?s" "heap_wf ?s" "bootstrap_ok ops ?s"
    using names_same [of st ?s] subscribers_same [of st ?s] heap_wf_same [of st ?s]
      bootstrap_same [of ops st ?s] assms True by (simp_all add: s rt_inv_def)
  moreover have "phase_inv ?s" "coherent ops ?s"
    using assms True st by (auto simp: s rt_inv_def phase_inv_def coherent_def pre_coherent_def)
  moreover have "rt_limits ?s = rt_limits st" "rt_ingress ?s = []" using True st by (simp_all add: s)
  ultimately show ?thesis using assms by (simp add: rt_inv_def)
qed (use assms in \<open>auto simp: start_def\<close>)

lemma submit_inv:
  assumes "rt_inv ops limits st" and "rt_last_admitted_ticket st \<noteq> u64_max"
  shows "rt_inv ops limits (snd (submit input st))"
proof (cases "\<not> rt_stopped st \<and> rt_started st \<and> \<not> rt_stop_requested st \<and> rt_accepting st
    \<and> length (rt_ingress st) \<noteq> rl_ingress_capacity (rt_limits st)")
  case True
  let ?i = "\<lparr>ii_ticket = rt_last_admitted_ticket st + 1, ii_input = input\<rparr>"
  let ?s = "map_observation
      (\<lambda>ob. ob\<lparr>ob_ingress_occupancy := length (rt_ingress st @ [?i])\<rparr>)
      (st\<lparr>rt_last_admitted_ticket := rt_last_admitted_ticket st + 1, rt_ingress := rt_ingress st @ [?i]\<rparr>)"
  have "rt_inv ops limits ?s"
  proof (rule rt_inv_same [OF assms(1)])
    show "tickets_inv ?s" if "tickets_inv st"
      using that assms(2) tickets_at_snoc [of "rt_processed_ticket st" "rt_last_admitted_ticket st"
          "in_flight st @ rt_ingress st" input]
      by (simp add: tickets_inv_def in_flight_def)
    show "admissions_inv ?s" if "admissions_inv st"
      by (rule admissions_same [OF that]) (simp_all add: in_admission_def)
    show "phase_inv ?s" if "phase_inv st" using that True by (simp add: phase_inv_def)
    show "coherent ops ?s" if "coherent ops st"
      using that True by (auto simp: coherent_def pre_coherent_def)
    have "rt_limits st = limits" using assms(1) by (simp add: rt_inv_def)
    then show "length (rt_ingress ?s) \<le> rl_ingress_capacity limits"
      using rt_inv_ingress [OF assms(1)] True by simp
  qed simp_all
  then show ?thesis using True by (simp add: submit_def Let_def)
next
  case False
  then have "snd (submit input st) = st \<or> snd (submit input st)
      = st\<lparr>rt_accepting := False, rt_pending_fault := Some FrIngressOverflow\<rparr>"
    by (auto simp: submit_def)
  moreover have "rt_inv ops limits (st\<lparr>rt_accepting := False, rt_pending_fault := Some FrIngressOverflow\<rparr>)"
    by (rule rt_inv_keep [OF assms(1)]) simp_all
  ultimately show ?thesis using assms(1) by metis
qed

lemma admit_begin_inv:
  assumes "rt_inv ops limits st"
  shows "rt_inv ops limits (snd (admit_begin ops sub st))"
proof -
  let ?s = "map_observation (\<lambda>ob. ob
               \<lparr>ob_pending_admission_count := rt_pending_admission_count st + 1\<rparr>)
             (st\<lparr>rt_alloc_calls := rt_alloc_calls st + 1,
                 rt_admission_requests := rt_admission_requests st @ [(rt_alloc_calls st,
                   \<lparr>aq_target = rt_last_admitted_ticket st, aq_subscription = sub\<rparr>)],
                 rt_pending_admission_count := rt_pending_admission_count st + 1\<rparr>)"
  consider (refused) "snd (admit_begin ops sub st) = st"
    | (failed) "snd (admit_begin ops sub st) = snd (allocate ops st)"
    | (queued) "rt_started st" "\<not> rt_stop_requested st"
        "rt_pending_admission_count st \<noteq> pl_pending_admission_capacity (rl_publication (rt_limits st))"
        "snd (admit_begin ops sub st) = ?s"
  proof (cases "\<not> rt_stopped st \<and> rt_started st \<and> rt_publication_admission_open st
      \<and> \<not> rt_publication_shutdown_requested st \<and> \<not> rt_publication_shutdown_completed st
      \<and> \<not> rt_stop_requested st \<and> live_and_synchronized st
      \<and> rt_pending_admission_count st \<noteq> pl_pending_admission_capacity (rl_publication (rt_limits st))")
    case gates: True
    show thesis
    proof (cases "po_alloc_ok ops (rt_alloc_calls st)")
      case True
      with gates have "snd (admit_begin ops sub st) = ?s" by (simp add: admit_begin_def allocate_def)
      with gates show thesis by (intro queued) simp_all
    next
      case False
      with gates have "snd (admit_begin ops sub st) = snd (allocate ops st)"
        by (simp add: admit_begin_def allocate_def)
      then show thesis by (rule failed)
    qed
  next
    case False
    then have "snd (admit_begin ops sub st) = st" unfolding admit_begin_def by auto
    then show thesis by (rule refused)
  qed
  then show ?thesis
  proof cases
    case queued
    have "rt_inv ops limits ?s"
    proof (rule rt_inv_same [OF assms])
      show "tickets_inv ?s" if "tickets_inv st"
        by (rule tickets_same [OF that]) (simp_all add: in_flight_def)
      show "admissions_inv ?s" if a: "admissions_inv st"
      proof -
        have "in_admission ?s = in_admission st" by (rule in_same) simp
        with a queued(3) show ?thesis
          by (auto simp: admissions_inv_def less_SucI)
      qed
      show "phase_inv ?s" if "phase_inv st" using that queued(1,2) by (simp add: phase_inv_def)
      show "coherent ops ?s" if "coherent ops st" by (rule coherent_same [OF that]) auto
    qed (use rt_inv_ingress [OF assms] in simp_all)
    then show ?thesis unfolding queued(4) .
  qed (use assms client_inv in simp_all)
qed

lemma stop_finish_inv:
  assumes "rt_inv ops limits st" and "stop_finish st = Some s"
  shows "rt_inv ops limits s"
proof -
  have owner: "rt_owner st = OwnerExited"
    using assms(2) by (auto simp: stop_finish_def split: if_splits)
  then have st: "rt_admission_requests st = []" "rt_subscribers st = []" "rt_ingress st = []"
      "rt_stop_requested st" "rt_started st" "in_admission st = []"
      "rt_pending_admission_count st = 0"
    using assms(1) by (auto simp: rt_inv_def phase_inv_def admissions_inv_def in_admission_def)
  have s: "s = complete_all_admissions_locked SaStopped (complete_snapshot_if_pending SeStopped
      (map_observation (\<lambda>ob. ob\<lparr>ob_state := RsStopped, ob_owner_joined := True\<rparr>) (st\<lparr>rt_stopped := True\<rparr>)))"
    using assms(2) by (auto simp: stop_finish_def split: if_splits)
  note defs = s complete_all_admissions_locked_def complete_snapshot_if_pending_def
  show ?thesis
  proof (rule rt_inv_same [OF assms(1)])
    show "tickets_inv s" if "tickets_inv st"
      by (rule tickets_same [OF that]) (simp_all add: defs in_flight_def split: option.split)
    show "admissions_inv s" if "admissions_inv st"
      by (rule admissions_same [OF that])
        (simp_all add: defs st in_admission_def split: option.split)
    show "phase_inv s" if "phase_inv st"
      using that st owner by (auto simp: defs phase_inv_def split: option.split)
    show "coherent ops s" if "coherent ops st"
      using that st by (auto simp: defs coherent_def pre_coherent_def split: option.split)
  qed (use rt_inv_ingress [OF assms(1)] in \<open>simp_all add: defs split: option.split\<close>)
qed

section \<open>The owner keeps the invariant\<close>

lemma channel_step_name: "channel_step c l c' \<Longrightarrow> ch_subscription_id c' = ch_subscription_id c"
proof (erule channel_step.cases)
  have clear: "ch_subscription_id (clear_ring_locked x) = ch_subscription_id x" for x :: "'a channel"
  proof (induction x rule: clear_ring_locked.induct)
    case (1 x)
    then show ?case by (simp add: clear_ring_locked.simps [of x]) (simp add: ring_pop_locked_def)
  qed
  show "c = d \<Longrightarrow> l = None \<Longrightarrow> c' = close_from_writer d
      \<Longrightarrow> ch_subscription_id c' = ch_subscription_id c" for d
    by (simp add: close_from_writer_def clear_from_writer_locked_def clear)
qed (auto simp: admit_update_def terminalize_def acknowledge_def close_from_owner_def
      ring_pop_locked_def ring_push_locked_def Let_def split: option.splits)

lemma quiet_name: "quiet c c' \<Longrightarrow> ch_subscription_id c' = ch_subscription_id c"
  unfolding quiet_def by (induction rule: rtranclp_induct) (auto dest: channel_step_name)

lemma evolved_from:
  assumes "channels_evolve h h'" and "h' a = Some c'"
  obtains c where "h a = Some c" and "quiet c c'"
  using assms by (metis channels_evolve_def option_rel_Some2)

lemma names_frame:
  assumes "channels_evolve (rt_heap st) (rt_heap s)" and "names_inv st"
    and "rt_next_subscription_id s = rt_next_subscription_id st"
  shows "names_inv s"
  unfolding names_inv_def assms(3)
proof (intro conjI allI impI)
  fix a c' assume "rt_heap s a = Some c'"
  then obtain c where "rt_heap st a = Some c" "quiet c c'" by (rule evolved_from [OF assms(1)])
  moreover from this have "\<exists>k<rt_next_subscription_id st. ch_subscription_id c = subscription_name k"
    using assms(2) unfolding names_inv_def by blast
  ultimately show "\<exists>k<rt_next_subscription_id st. ch_subscription_id c' = subscription_name k"
    by (simp add: quiet_name)
next
  fix a b c' d' assume "rt_heap s a = Some c'" "rt_heap s b = Some d'"
    and e: "ch_subscription_id c' = ch_subscription_id d'"
  obtain c where c: "rt_heap st a = Some c" "quiet c c'"
    using \<open>rt_heap s a = Some c'\<close> by (rule evolved_from [OF assms(1)])
  obtain d where d: "rt_heap st b = Some d" "quiet d d'"
    using \<open>rt_heap s b = Some d'\<close> by (rule evolved_from [OF assms(1)])
  have "ch_subscription_id c = ch_subscription_id d" using e c(2) d(2) by (simp add: quiet_name)
  then show "a = b" using assms(2) c(1) d(1) unfolding names_inv_def by blast
qed

lemma subscribers_frame:
  assumes "owner_frame st s" and "subscribers_inv st"
  shows "subscribers_inv s"
proof -
  have ev: "channels_evolve (rt_heap st) (rt_heap s)" using assms(1) by (simp add: owner_frame_def)
  then have "dom (rt_heap s) = dom (rt_heap st)"
    unfolding dom_def by (simp add: channels_evolve_None [OF ev])
  moreover obtain P where "rt_subscribers s = filter P (rt_subscribers st)"
    using assms(1) by (auto simp: owner_frame_def)
  moreover have "length (filter P (rt_subscribers st)) \<le> length (rt_subscribers st)" by simp
  moreover have "rt_alloc_calls st \<le> rt_alloc_calls s" "rt_limits s = rt_limits st"
    "ob_resident_subscription_count (rt_observation s) = length (rt_subscribers s)"
    using assms by (auto simp: owner_frame_def same_control_def subscribers_inv_def)
  ultimately show ?thesis
    using assms(2) unfolding subscribers_inv_def
    by (auto intro: order_trans order_trans [OF length_filter_le])
qed

lemma frameD:
  assumes "owner_frame st s"
  shows "rt_limits s = rt_limits st" "rt_next_subscription_id s = rt_next_subscription_id st"
    "rt_admission_requests s = rt_admission_requests st"
    "rt_admission_results s = rt_admission_results st"
    "rt_pending_admission_count s = rt_pending_admission_count st"
    "rt_started s = rt_started st" "rt_stop_requested s = rt_stop_requested st"
    "rt_publication_shutdown_requested s = rt_publication_shutdown_requested st"
    "rt_stopped s = rt_stopped st" "rt_owner_paused s = rt_owner_paused st" "rt_owner s = rt_owner st"
    "rt_alloc_calls st \<le> rt_alloc_calls s" "channels_evolve (rt_heap st) (rt_heap s)"
    "length (rt_subscribers s) \<le> length (rt_subscribers st)"
    "length (rt_ingress s) \<le> length (rt_ingress st)"
proof -
  obtain P where P: "rt_subscribers s = filter P (rt_subscribers st)"
    using assms by (auto simp: owner_frame_def)
  show "length (rt_subscribers s) \<le> length (rt_subscribers st)" unfolding P by simp
  have "discards st s" using assms unfolding owner_frame_def by blast
  then show "length (rt_ingress s) \<le> length (rt_ingress st)" by (auto simp: discards_def)
qed (use assms in \<open>unfold owner_frame_def same_control_def, blast+\<close>)

lemma rt_invD:
  assumes "rt_inv ops limits st"
  shows "rt_limits st = limits" "length (rt_ingress st) \<le> rl_ingress_capacity limits"
    "tickets_inv st" "admissions_inv st" "commit_inv st" "names_inv st" "subscribers_inv st"
    "phase_inv st" "coherent ops st" "pre_coherent st" "heap_wf st" "bootstrap_ok ops st"
  using assms by (auto simp: rt_inv_def dest: coherent_pre)

lemma frame_parts:
  assumes "owner_frame st s" and "rt_inv ops limits st"
  shows "admissions_inv s" "names_inv s" "subscribers_inv s" "heap_wf s" "rt_limits s = limits"
    "length (rt_ingress s) \<le> rl_ingress_capacity limits"
    "length (rt_subscribers s) \<le> length (rt_subscribers st)"
proof -
  note c = frameD [OF assms(1)] and i = rt_invD [OF assms(2)]
  show "admissions_inv s"
    by (rule admissions_same [OF i(4)]) (simp_all add: c in_same(2) [OF c(11)])
  show "names_inv s" by (rule names_frame [OF c(13) i(6) c(2)])
  show "subscribers_inv s" by (rule subscribers_frame [OF assms(1) i(7)])
  show "heap_wf s" by (rule heap_wf_frame [OF assms(1) i(11)])
  show "rt_limits s = limits" using c(1) i(1) by simp
  show "length (rt_ingress s) \<le> rl_ingress_capacity limits" using c(15) i(2) by simp
  show "length (rt_subscribers s) \<le> length (rt_subscribers st)" by (rule c(14))
qed

text \<open>The owner finishing a piece of work that is neither an item nor an admission.\<close>

lemma waiting_coherent [simp]:
  "coherent ops (s\<lparr>rt_owner := w\<rparr>) = coherent ops s" "heap_wf (s\<lparr>rt_owner := w\<rparr>) = heap_wf s"
  "bootstrap_ok ops (s\<lparr>rt_owner := w\<rparr>) = bootstrap_ok ops s"
  "names_inv (s\<lparr>rt_owner := w\<rparr>) = names_inv s"
  "subscribers_inv (s\<lparr>rt_owner := w\<rparr>) = subscribers_inv s"
  by (simp_all only: coherent_def pre_coherent_def no_active_def heap_wf_def bootstrap_ok_def
      names_inv_def subscribers_inv_def) simp_all

lemma owner_done:
  assumes "tickets_at (rt_processed_ticket s) (rt_last_admitted_ticket s) (rt_ingress s)"
    and "admissions_inv s" "names_inv s" "subscribers_inv s" "heap_wf s" "rt_limits s = limits"
    and "length (rt_ingress s) \<le> rl_ingress_capacity limits" "coherent ops s" "bootstrap_ok ops s"
    and "in_admission s = []" "rt_started s"
    and "rt_stop_requested s \<Longrightarrow> rt_publication_shutdown_requested s \<and> \<not> rt_owner_paused s" "\<not> rt_stopped s"
  shows "rt_inv ops limits (s\<lparr>rt_owner := OwnerWaiting\<rparr>)"
proof -
  have "admissions_inv (s\<lparr>rt_owner := OwnerWaiting\<rparr>)"
    by (rule admissions_same [OF assms(2)]) (use assms(10) in \<open>simp_all add: in_admission_def\<close>)
  then show ?thesis
    using assms unfolding rt_inv_def
    by (simp add: tickets_inv_def in_flight_def commit_inv_def phase_inv_def)
qed

lemma working_facts:
  assumes "rt_inv ops limits st" and "rt_owner st = OwnerWorking w"
  shows "rt_started st" "\<not> rt_stopped st"
    "rt_stop_requested st \<Longrightarrow> rt_publication_shutdown_requested st \<and> \<not> rt_owner_paused st"
  using assms by (auto simp: rt_inv_def phase_inv_def)

lemma frame_work_inv:
  assumes "owner_frame st s" and "rt_inv ops limits st" and "rt_owner st = OwnerWorking w"
    and "in_admission st = []" and "in_flight st = []"
    and "coherent ops s" and "bootstrap_ok ops s"
  shows "rt_inv ops limits (s\<lparr>rt_owner := OwnerWaiting\<rparr>)"
proof -
  note c = frameD [OF assms(1)]
    and w = working_facts [OF assms(2,3)] and f = frame_parts [OF assms(1,2)]
  have "tickets_inv s" using tickets_frame [OF assms(1)] assms(5) rt_invD(3) [OF assms(2)] by simp
  then have "tickets_at (rt_processed_ticket s) (rt_last_admitted_ticket s) (rt_ingress s)"
    using in_same(1) [OF c(11)] assms(5) by (simp add: tickets_inv_def)
  then show ?thesis
    using c(6-10) w assms(4,6,7) in_same(2) [OF c(11)]
    by (intro owner_done [OF _ f(1-6)]) simp_all
qed

lemma process_item_inv:
  assumes "rt_inv ops limits st" and "rt_owner st = OwnerWorking (WorkItem item)"
  shows "rt_inv ops limits ((process_item ops item st)\<lparr>rt_owner := OwnerWaiting\<rparr>)"
proof -
  define s where "s = (let r = process_input ops (ii_input item) st in
      if fst r then snd r else transition_to_fault ops FrInternalError None (snd r))"
  have eq: "process_item ops item st = finish_ticket (ii_ticket item) s"
    by (simp add: process_item_def s_def Let_def)
  have fr: "owner_frame st s" unfolding s_def Let_def by (auto intro!: framed)
  note c = frameD [OF fr]
    and w = working_facts [OF assms] and f = frame_parts [OF fr assms(1)]
  have i: "in_flight st = [item]" "in_admission st = []"
    using assms(2) by (simp_all add: in_flight_def in_admission_def)
  have t: "tickets_at (max (rt_processed_ticket s) (ii_ticket item)) (rt_last_admitted_ticket s) (rt_ingress s)"
    using tickets_item [OF fr rt_invD(3) [OF assms(1)] i(1)] .
  have co: "coherent ops (process_item ops item st) \<and> bootstrap_ok ops (process_item ops item st)"
    using rt_invD [OF assms(1)] by (intro process_item_coherent)
  have adm: "in_admission s = []" using i in_same(2) [OF c(11)] by simp
  let ?f = "finish_ticket (ii_ticket item) s"
  show ?thesis
    unfolding eq
  proof (rule owner_done)
    show "admissions_inv ?f"
      by (rule admissions_same [OF f(1)]) (simp_all add: finish_ticket_def in_admission_def)
    show "names_inv ?f" by (rule names_same [OF f(2)]) (simp_all add: finish_ticket_def)
    show "subscribers_inv ?f" by (rule subscribers_same [OF f(3)]) (simp_all add: finish_ticket_def)
    show "heap_wf ?f" by (rule heap_wf_same [OF f(4)]) simp
    show "tickets_at (rt_processed_ticket ?f) (rt_last_admitted_ticket ?f) (rt_ingress ?f)"
      using t by (simp add: finish_ticket_def)
    show "in_admission ?f = []" using adm by (simp add: finish_ticket_def in_admission_def)
    show "coherent ops ?f" "bootstrap_ok ops ?f" using co unfolding eq by simp_all
    show "rt_limits ?f = limits" "length (rt_ingress ?f) \<le> rl_ingress_capacity limits"
      using f(5,6) by simp_all
    show "rt_started ?f" "\<not> rt_stopped ?f" using c(6,9) w by (simp_all add: finish_ticket_def)
    show "rt_publication_shutdown_requested ?f \<and> \<not> rt_owner_paused ?f" if "rt_stop_requested ?f"
      using that c(7,8,10) w by (simp add: finish_ticket_def)
  qed
qed

lemma coherent_frame:
  assumes "owner_frame st s" and "coherent ops st" and "rt_state s = rt_state st"
    and "ob_fault_reason (rt_observation s) = ob_fault_reason (rt_observation st)"
    and "ob_projection_status (rt_observation s) = ob_projection_status (rt_observation st)"
    and "rt_accepting s = rt_accepting st" and "rt_projection s = rt_projection st"
  shows "coherent ops s"
  using assms pre_coherent_frame [OF assms(1) coherent_pre [OF assms(2)]]
    frame_ingress_Nil [OF assms(1)] by (simp add: coherent_def)

lemma waiting_inv:
  assumes "rt_inv ops limits st" and "rt_owner st = OwnerWorking w"
    and "in_admission st = []" and "in_flight st = []"
  shows "rt_inv ops limits (st\<lparr>rt_owner := OwnerWaiting\<rparr>)"
  using frame_work_inv [OF owner_frame_refl assms] rt_invD(9,12) [OF assms(1)] by blast

lemma work_fault_inv:
  assumes "rt_inv ops limits st" and "rt_owner st = OwnerWorking (WorkFault f)"
  shows "rt_inv ops limits ((transition_to_fault ops f None st)\<lparr>rt_owner := OwnerWaiting\<rparr>)"
  using assms rt_invD(11) [OF assms(1)]
  by (intro frame_work_inv [OF frame_fault assms])
    (simp_all add: in_admission_def in_flight_def fault_coherent bootstrap_ok_def)

lemma sweep_status [simp]:
  "ob_projection_status (rt_observation (sweep_closed_subscribers st))
     = ob_projection_status (rt_observation st)"
  by (simp add: sweep_closed_subscribers_def Let_def)

lemma sweep_parts:
  assumes "rt_inv ops limits st"
  shows "coherent ops (sweep_closed_subscribers st)" "bootstrap_ok ops (sweep_closed_subscribers st)"
proof -
  show "coherent ops (sweep_closed_subscribers st)"
    by (rule coherent_frame [OF frame_sweep rt_invD(9) [OF assms]]) simp_all
  show "bootstrap_ok ops (sweep_closed_subscribers st)"
    by (rule bootstrap_same [OF rt_invD(12) [OF assms]]) (simp_all add: frameD(1) [OF frame_sweep])
qed

lemma work_sweep_inv:
  assumes "rt_inv ops limits st" and "rt_owner st = OwnerWorking WorkSweep"
  shows "rt_inv ops limits ((sweep_closed_subscribers st)\<lparr>rt_owner := OwnerWaiting\<rparr>)"
  using sweep_parts [OF assms(1)] assms(2)
  by (intro frame_work_inv [OF frame_sweep assms]) (simp_all add: in_admission_def in_flight_def)

lemma complete_snapshot_inv:
  "rt_inv ops limits st \<Longrightarrow> rt_inv ops limits (complete_snapshot_request res st)"
  unfolding complete_snapshot_request_def by (rule client_inv(12))

lemma work_snapshot_inv:
  assumes "rt_inv ops limits st" and "rt_owner st = OwnerWorking WorkSnapshot"
  shows "rt_inv ops limits ((perform_snapshot_request ops st)\<lparr>rt_owner := OwnerWaiting\<rparr>)"
proof (rule waiting_inv)
  show "rt_inv ops limits (perform_snapshot_request ops st)"
    unfolding perform_snapshot_request_def Let_def
    using client_inv(13) [OF assms(1)] assms(1)
    by (auto split: option.split intro!: complete_snapshot_inv)
  show "rt_owner (perform_snapshot_request ops st) = OwnerWorking WorkSnapshot"
    using assms(2) by (simp add: perform_snapshot_request_def complete_snapshot_request_def Let_def
        split: option.split)
  then show "in_admission (perform_snapshot_request ops st) = []"
      "in_flight (perform_snapshot_request ops st) = []"
    by (simp_all add: in_admission_def in_flight_def)
qed

text \<open>Shutdown of publication: no subscriber and no pending admission is left.\<close>

lemma complete_results_domain:
  "complete_results e rs results i \<noteq> None \<Longrightarrow> results i \<noteq> None \<or> i \<in> fst ` set rs"
  by (induction e rs results rule: complete_results.induct) (auto split: option.splits if_splits)

lemma complete_results_keeps:
  "results i = Some x \<Longrightarrow> complete_results e rs results i = Some x"
proof (induction rs arbitrary: results)
  case (Cons r rs)
  obtain a q where r: "r = (a, q)" by force
  have "(case results a of None \<Rightarrow> results(a \<mapsto> Inl e) | Some _ \<Rightarrow> results) i = Some x"
    using Cons.prems by (auto split: option.split)
  then show ?case using Cons.IH unfolding r complete_results.simps by blast
qed simp

lemma complete_results_total:
  "i \<in> fst ` set rs \<Longrightarrow> complete_results e rs results i \<noteq> None"
proof (induction e rs results rule: complete_results.induct)
  case (2 err j q rs results)
  show ?case
  proof (cases "i \<in> fst ` set rs")
    case False
    then have "i = j" using "2.prems" by auto
    then show ?thesis by (auto simp: complete_results_keeps split: option.split)
  qed (use 2 in simp)
qed simp

lemma complete_all_admissions:
  assumes "admissions_inv st" and "in_admission st = []"
  shows "admissions_inv (complete_all_admissions_locked e st)"
proof -
  have in0: "in_admission (complete_all_admissions_locked e st) = []"
    using assms(2) by (simp add: complete_all_admissions_locked_def in_admission_def)
  have "i < rt_alloc_calls st"
    if "complete_results e (rt_admission_requests st) (rt_admission_results st) i \<noteq> None" for i
    using complete_results_domain [OF that] assms by (auto simp: admissions_inv_def)
  with in0 show ?thesis
    unfolding admissions_inv_def in0 by (simp add: complete_all_admissions_locked_def)
qed

lemma close_from_owner_idem: "close_from_owner (close_from_owner c) = close_from_owner c"
  by (simp add: close_from_owner_def)

lemma frame_close_all: "owner_frame st (close_all_subscribers_for_shutdown st)"
proof -
  have "channels_evolve (rt_heap st)
      (update_channels close_from_owner (rt_subscribers st) (rt_heap st))"
    by (intro update_channels_evolve quiet_close)
  then show ?thesis
    by (auto simp: owner_frame_def same_control_def discards_def snapshot_open_def
        close_all_subscribers_for_shutdown_def intro: exI [of _ "\<lambda>_. False"])
qed

lemma work_shutdown_inv:
  assumes "rt_inv ops limits st" and "rt_owner st = OwnerWorking WorkShutdown"
  shows "rt_inv ops limits ((perform_publication_shutdown_control st)\<lparr>rt_owner := OwnerWaiting\<rparr>)"
proof -
  let ?c = "close_all_subscribers_for_shutdown st"
  let ?s = "perform_publication_shutdown_control st"
  have fr: "owner_frame st ?c" by (rule frame_close_all)
  note c = frameD [OF fr] and w = working_facts [OF assms] and f = frame_parts [OF fr assms(1)]
  have fl: "in_flight st = []" "in_admission st = []" "in_admission ?c = []" "in_flight ?c = []"
    using assms(2) in_same [OF c(11)] by (simp_all add: in_flight_def in_admission_def)
  note defs = perform_publication_shutdown_control_def complete_all_admissions_locked_def
  have t: "tickets_inv ?c" by (rule tickets_frame [OF fr rt_invD(3) [OF assms(1)] fl(1)])
  have adm: "admissions_inv (complete_all_admissions_locked SaShuttingDown
      (?c\<lparr>rt_publication_admission_open := False\<rparr>))"
    by (rule complete_all_admissions [OF admissions_same [OF f(1)]])
      (use fl in \<open>simp_all add: in_admission_def\<close>)
  have co: "coherent ops ?c"
    by (rule coherent_frame [OF fr rt_invD(9) [OF assms(1)]])
      (simp_all add: close_all_subscribers_for_shutdown_def)
  show ?thesis
  proof (rule owner_done)
    show "admissions_inv ?s"
      by (rule admissions_same [OF adm])
        (simp_all add: perform_publication_shutdown_control_def in_admission_def)
    show "names_inv ?s" by (rule names_same [OF f(2)]) (simp_all add: defs)
    show "subscribers_inv ?s" by (rule subscribers_same [OF f(3)]) (simp_all add: defs)
    show "heap_wf ?s" by (rule heap_wf_same [OF f(4)]) (simp add: defs)
    show "coherent ops ?s" by (rule coherent_same [OF co]) (simp_all add: defs)
    show "bootstrap_ok ops ?s"
      by (rule bootstrap_same [OF rt_invD(12) [OF assms(1)]])
        (simp_all add: defs close_all_subscribers_for_shutdown_def)
    show "tickets_at (rt_processed_ticket ?s) (rt_last_admitted_ticket ?s) (rt_ingress ?s)"
      using t fl(4) by (simp add: defs tickets_inv_def)
    show "in_admission ?s = []" using fl(3) by (simp add: defs in_admission_def)
    show "rt_limits ?s = limits" "length (rt_ingress ?s) \<le> rl_ingress_capacity limits"
      using f(5,6) by (simp_all add: defs)
    show "rt_started ?s" "\<not> rt_stopped ?s" using c(6,9) w by (simp_all add: defs)
    show "rt_publication_shutdown_requested ?s \<and> \<not> rt_owner_paused ?s" if "rt_stop_requested ?s"
      using that c(7,8,10) w by (simp add: defs)
  qed
qed

lemma reset_request_update [simp]:
  "in_admission (set_reset_result r st) = in_admission st" "in_flight (set_reset_result r st) = in_flight st"
  "rt_owner (set_reset_result r st) = rt_owner st"
  by (simp_all add: set_reset_result_def in_admission_def in_flight_def)

lemma set_reset_result_inv: "rt_inv ops limits st \<Longrightarrow> rt_inv ops limits (set_reset_result r st)"
  unfolding set_reset_result_def by (rule client_inv(11))

text \<open>A reset, in the cases of its body.\<close>

definition reset_subscribers ::
  "('p, 'g, 's, 'b, 'c) projection_ops \<Rightarrow> reset_kind \<Rightarrow> ('p, 'g, 's) runtime \<Rightarrow> ('p, 'g, 's) runtime" where
  "reset_subscribers ops k st =
     (if k = ResetPlanned
      then terminalize_active_subscribers ops CONSUMER_GAP_REASON_CONNECTION_GENERATION_CHANGED
             RECOVERY_ACTION_RESUBSCRIBE (rt_current_projection_generation st) st
      else terminalize_active_subscribers ops CONSUMER_GAP_REASON_RESUME_NOT_AVAILABLE
             RECOVERY_ACTION_REQUEST_NEW_SNAPSHOT (rt_current_projection_generation st) st)"

lemma reset_subscribers_facts:
  "owner_frame st (reset_subscribers ops k st)"
  "heap_wf st \<Longrightarrow> no_active (reset_subscribers ops k st)"
  "rt_projection (reset_subscribers ops k st) = rt_projection st"
  "rt_bootstrap (reset_subscribers ops k st) = rt_bootstrap st"
  "rt_ingress (reset_subscribers ops k st) = rt_ingress st"
  by (simp_all add: reset_subscribers_def frame_terminalize terminalize_no_active)

lemma perform_reset_cases:
  obtains (absent) "rt_reset_request st = None" "perform_reset_request ops st = st"
  | (invalid) r where "rt_reset_request st = Some r" "\<not> reset_valid (rr_kind r) st"
      "perform_reset_request ops st = set_reset_result RrInvalidState st"
  | (threw) r where "rt_reset_request st = Some r" "reset_valid (rr_kind r) st"
      "po_reset ops (rt_projection st) = None"
      "perform_reset_request ops st = set_reset_result RrInternalError
         (map_observation (\<lambda>ob. ob\<lparr>ob_fault_reason := Some FrInternalError, ob_state := RsFaulted\<rparr>)
           ((reset_subscribers ops (rr_kind r) st)\<lparr>rt_accepting := False\<rparr>))"
  | (reset) r p s where "rt_reset_request st = Some r" "reset_valid (rr_kind r) st"
      "po_reset ops (rt_projection st) = Some p"
      "perform_reset_request ops st = set_reset_result RrReset s"
      "\<exists>ob. s = (reset_subscribers ops (rr_kind r) st)\<lparr>rt_projection := p, rt_bootstrap := [],
          rt_current_projection_generation := None, rt_accepting := True, rt_observation := ob\<rparr>"
      "rt_state s = RsBuffering" "ob_fault_reason (rt_observation s) = None"
      "ob_resident_subscription_count (rt_observation s)
         = ob_resident_subscription_count (rt_observation (reset_subscribers ops (rr_kind r) st))"
proof (cases "rt_reset_request st")
  case None
  then show thesis using absent by (simp add: perform_reset_request_def)
next
  case (Some r)
  show thesis
  proof (cases "reset_valid (rr_kind r) st")
    case False
    then show thesis using invalid Some by (simp add: perform_reset_request_def)
  next
    case valid: True
    let ?s1 = "reset_subscribers ops (rr_kind r) st"
    show thesis
    proof (cases "po_reset ops (rt_projection st)")
      case None
      then show thesis
        using Some valid threw reset_subscribers_facts(3) [of ops "rr_kind r" st]
        by (simp add: perform_reset_request_def reset_subscribers_def Let_def)
    next
      case p: (Some p)
      let ?f = "\<lambda>ob. ob\<lparr>ob_last_gap := None, ob_last_install := None, ob_last_apply := None,
           ob_last_applied_depth := None, ob_adapter_error := None,
           ob_fault_reason := None, ob_last_update_id := None,
           ob_current_projection_generation := None, ob_bootstrap_occupancy := 0,
           ob_last_reset_thread_id := Some (rt_owner_tid ?s1), ob_reset_count := ob_reset_count ob + 1\<rparr>"
      let ?s2 = "map_observation ?f (?s1\<lparr>rt_projection := p, rt_bootstrap := [],
           rt_current_projection_generation := None\<rparr>)"
      let ?s = "publish_tickets_locked ((map_observation (\<lambda>ob. ob\<lparr>ob_state := RsBuffering\<rparr>)
          (refresh_projection_observation_locked ops ?s2))\<lparr>rt_accepting := True\<rparr>)"
      have eq: "perform_reset_request ops st = set_reset_result RrReset ?s"
        using Some valid p reset_subscribers_facts(3) [of ops "rr_kind r" st]
        by (simp add: perform_reset_request_def reset_subscribers_def Let_def)
      have "?s = ?s1\<lparr>rt_projection := p, rt_bootstrap := [], rt_current_projection_generation := None,
          rt_accepting := True, rt_observation := rt_observation ?s\<rparr>"
        by (simp add: publish_tickets_locked_def refresh_projection_observation_locked_def)
      then have ex: "\<exists>ob. ?s = ?s1\<lparr>rt_projection := p, rt_bootstrap := [],
          rt_current_projection_generation := None, rt_accepting := True, rt_observation := ob\<rparr>" ..
      show thesis
        by (rule reset [OF Some valid p eq ex])
          (simp_all add: publish_tickets_locked_def refresh_projection_observation_locked_def)
    qed
  qed
qed

lemma frame_fields_parts:
  assumes "owner_frame st s" and "rt_inv ops limits st" and "rt_owner st = OwnerWorking w"
    and "in_admission st = []" and "in_flight st = []"
    and "rt_ingress s' = rt_ingress s" "rt_processed_ticket s' = rt_processed_ticket s"
    "rt_last_admitted_ticket s' = rt_last_admitted_ticket s"
    "rt_pending_admission_count s' = rt_pending_admission_count s"
    "rt_admission_requests s' = rt_admission_requests s" "rt_admission_results s' = rt_admission_results s"
    "rt_owner s' = rt_owner s" "rt_limits s' = rt_limits s" "rt_alloc_calls s' = rt_alloc_calls s"
    "rt_heap s' = rt_heap s" "rt_subscribers s' = rt_subscribers s"
    "rt_next_subscription_id s' = rt_next_subscription_id s"
    "ob_resident_subscription_count (rt_observation s') = ob_resident_subscription_count (rt_observation s)"
    "rt_started s' = rt_started s" "rt_stopped s' = rt_stopped s"
    "rt_stop_requested s' = rt_stop_requested s" "rt_owner_paused s' = rt_owner_paused s"
    "rt_publication_shutdown_requested s' = rt_publication_shutdown_requested s"
    and "coherent ops s'" and "bootstrap_ok ops s'"
  shows "rt_inv ops limits (s'\<lparr>rt_owner := OwnerWaiting\<rparr>)"
proof -
  note c = frameD [OF assms(1)]
    and w = working_facts [OF assms(2,3)] and f = frame_parts [OF assms(1,2)]
  have fl: "in_flight s = []" "in_admission s = []" "in_admission s' = []"
    using assms(4,5) in_same [OF c(11)] in_same(2) [OF assms(12)] by simp_all
  have "tickets_inv s" by (rule tickets_frame [OF assms(1) rt_invD(3) [OF assms(2)] assms(5)])
  then have t: "tickets_at (rt_processed_ticket s') (rt_last_admitted_ticket s') (rt_ingress s')"
    using fl(1) assms(6-8) by (simp add: tickets_inv_def)
  show ?thesis
  proof (rule owner_done [OF t])
    show "admissions_inv s'" by (rule admissions_same [OF f(1)]) (use assms(6-) fl in simp_all)
    show "names_inv s'" by (rule names_same [OF f(2)]) (use assms(6-) in simp_all)
    show "subscribers_inv s'" by (rule subscribers_same [OF f(3)]) (use assms(6-) in simp_all)
    show "heap_wf s'" by (rule heap_wf_same [OF f(4)]) (use assms(6-) in simp)
  qed (use assms(6-) c(6-10) w f(5,6) fl in simp_all)
qed

lemma work_reset_inv:
  assumes "rt_inv ops limits st" and "rt_owner st = OwnerWorking WorkReset"
  shows "rt_inv ops limits ((perform_reset_request ops st)\<lparr>rt_owner := OwnerWaiting\<rparr>)"
proof -
  have fl: "in_flight st = []" "in_admission st = []"
    using assms(2) by (simp_all add: in_flight_def in_admission_def)
  show ?thesis
  proof (cases rule: perform_reset_cases [of st ops])
    case absent
    then show ?thesis using waiting_inv [OF assms fl(2,1)] by simp
  next
    case (invalid r)
    then show ?thesis
      using waiting_inv [OF set_reset_result_inv [OF assms(1)]] assms(2) fl by simp
  next
    case (threw r)
    let ?s1 = "reset_subscribers ops (rr_kind r) st"
    note fr = reset_subscribers_facts(1) [of st ops "rr_kind r"]
    let ?s' = "set_reset_result RrInternalError
         (map_observation (\<lambda>ob. ob\<lparr>ob_fault_reason := Some FrInternalError, ob_state := RsFaulted\<rparr>)
           (?s1\<lparr>rt_accepting := False\<rparr>))"
    have na: "no_active ?s'"
      by (rule no_active_same [OF reset_subscribers_facts(2) [OF rt_invD(11) [OF assms(1)]]])
        (simp_all add: set_reset_result_def)
    have "rt_inv ops limits (?s'\<lparr>rt_owner := OwnerWaiting\<rparr>)"
    proof (rule frame_fields_parts [OF fr assms fl(2,1)])
      show "coherent ops ?s'" using na by (simp add: coherent_def pre_coherent_def set_reset_result_def)
      show "bootstrap_ok ops ?s'"
        by (rule bootstrap_same [OF rt_invD(12) [OF assms(1)]])
          (simp_all add: set_reset_result_def reset_subscribers_facts frameD(1) [OF fr])
    qed (simp_all add: set_reset_result_def)
    then show ?thesis unfolding threw(4) .
  next
    case (reset r p s)
    note fr = reset_subscribers_facts(1) [of st ops "rr_kind r"]
    obtain ob where s: "s = (reset_subscribers ops (rr_kind r) st)\<lparr>rt_projection := p, rt_bootstrap := [],
          rt_current_projection_generation := None, rt_accepting := True, rt_observation := ob\<rparr>"
      using reset(5) by blast
    have "rt_inv ops limits ((set_reset_result RrReset s)\<lparr>rt_owner := OwnerWaiting\<rparr>)"
    proof (rule frame_fields_parts [OF fr assms fl(2,1)])
      show "coherent ops (set_reset_result RrReset s)"
        using reset(6,7) by (simp add: coherent_def pre_coherent_def set_reset_result_def)
      show "bootstrap_ok ops (set_reset_result RrReset s)"
        by (simp add: bootstrap_ok_def set_reset_result_def s)
    qed (use reset(8) in \<open>simp_all add: set_reset_result_def s\<close>)
    then show ?thesis unfolding reset(4) .
  qed
qed

end
