(* ===== verification/RuntimeAdmission.thy ===== *)
theory RuntimeAdmission
  imports RuntimeSystem
begin

text \<open>
  The owner's work on admissions keeps the invariant of the runtime: the preparation of a
  private channel, its refusal, and its commit.
\<close>

section \<open>Admissions keep the invariant\<close>

lemma admission_done:
  assumes "tickets_at (rt_processed_ticket s) (rt_last_admitted_ticket s) (rt_ingress s)"
    and "admissions_inv s" "names_inv s" "subscribers_inv s" "heap_wf s" "rt_limits s = limits"
    and "length (rt_ingress s) \<le> rl_ingress_capacity limits" "coherent ops s" "bootstrap_ok ops s"
    and "in_admission s = [i]" "rt_started s"
    and "rt_stop_requested s \<Longrightarrow> rt_publication_shutdown_requested s \<and> \<not> rt_owner_paused s" "\<not> rt_stopped s"
  shows "rt_inv ops limits ((complete_admission_request_unlocked i res s)\<lparr>rt_owner := OwnerWaiting\<rparr>)"
proof -
  have i: "rt_admission_results s i = None" "i < rt_alloc_calls s" "i \<notin> fst ` set (rt_admission_requests s)"
    and n: "rt_pending_admission_count s = length (rt_admission_requests s) + 1"
    using assms(2,10) by (auto simp: admissions_inv_def)
  let ?c = "map_observation (\<lambda>ob. ob\<lparr>ob_pending_admission_count := length (rt_admission_requests s)\<rparr>)
      (s\<lparr>rt_admission_results := (rt_admission_results s)(i \<mapsto> res),
         rt_pending_admission_count := length (rt_admission_requests s)\<rparr>)"
  let ?s = "?c\<lparr>rt_owner := OwnerWaiting\<rparr>"
  have c: "complete_admission_request_unlocked i res s = ?c"
    using i(1) n by (simp add: complete_admission_request_unlocked_def Let_def)
  have inw: "in_admission ?s = []" by (simp add: in_admission_def)
  have req: "rt_admission_results s j = None \<and> j < rt_alloc_calls s \<and> j \<noteq> i"
    if "j \<in> fst ` set (rt_admission_requests s)" for j
    using that i(3) assms(2) by (auto simp: admissions_inv_def)
  have "distinct (map fst (rt_admission_requests s))"
    "length (rt_admission_requests s) \<le> pl_pending_admission_capacity (rl_publication (rt_limits s))"
    "rt_admission_results s j \<noteq> None \<Longrightarrow> j < rt_alloc_calls s" for j
    using assms(2) n by (auto simp: admissions_inv_def)
  then have "admissions_inv ?s"
    using i(2) req unfolding admissions_inv_def inw by auto
  moreover have "names_inv ?s" by (rule names_same [OF assms(3)]) simp_all
  moreover have "subscribers_inv ?s" by (rule subscribers_same [OF assms(4)]) simp_all
  moreover have "heap_wf ?s" by (rule heap_wf_same [OF assms(5)]) simp
  moreover have "coherent ops ?s" by (rule coherent_same [OF assms(8)]) simp_all
  moreover have "bootstrap_ok ops ?s" by (rule bootstrap_same [OF assms(9)]) simp_all
  ultimately show ?thesis
    unfolding c using assms unfolding rt_inv_def
    by (simp add: tickets_inv_def in_flight_def commit_inv_def phase_inv_def)
qed

lemma admission_refused:
  assumes "owner_frame st s" and "rt_inv ops limits st" and "rt_owner st = OwnerWorking w"
    and "in_admission st = [i]" and "in_flight st = []" and "coherent ops s" and "bootstrap_ok ops s"
  shows "rt_inv ops limits ((complete_admission_request_unlocked i res s)\<lparr>rt_owner := OwnerWaiting\<rparr>)"
proof -
  note c = frameD [OF assms(1)] and w = working_facts [OF assms(2,3)]
    and f = frame_parts [OF assms(1,2)]
  have fl: "in_flight s = []" "in_admission s = [i]"
    using assms(4,5) in_same [OF c(11)] by simp_all
  have "tickets_inv s" by (rule tickets_frame [OF assms(1) rt_invD(3) [OF assms(2)] assms(5)])
  then have "tickets_at (rt_processed_ticket s) (rt_last_admitted_ticket s) (rt_ingress s)"
    using fl(1) by (simp add: tickets_inv_def)
  then show ?thesis
    by (rule admission_done [OF _ f(1-6) assms(6,7) fl(2)]) (use c(6-10) w in simp_all)
qed

lemma staged_name:
  assumes "make_channel name g n = Some c0" and "stage_initial p q c0 = (True, c)"
  shows "ch_subscription_id c = name"
proof -
  have wf: "channel_wf c0" using assms(1) by (rule make_channel_wf)
  have name: "ch_subscription_id c0 = name" using assms(1) by (auto simp: make_channel_def split: if_splits)
  obtain x a y s where cond: "p = Ptr x a" "q = Ptr y s" "pr_session_sequence a = 1"
    "pr_session_sequence s = 2" "kind a = KindSubscriptionAccepted" "kind s = KindSnapshot"
    "ch_state c0 = SubActive" "ch_size c0 = 0" "2 \<le> ch_ordinary_capacity c0"
    using stage_initial_conditions [OF assms(2)] .
  obtain r where "stage_initial p q c0
      = (True, c0\<lparr>ch_ordinary_ring := r, ch_size := 2, ch_next_session_sequence := 3\<rparr>)"
    using stage_initial_push [OF wf, of a s x y] cond by metis
  then show ?thesis using assms(2) name by auto
qed

lemma frame_alloc_calls: "rt_alloc_calls s \<le> n \<Longrightarrow> owner_frame s (s\<lparr>rt_alloc_calls := n\<rparr>)"
  by (auto simp: owner_frame_def same_control_def discards_def snapshot_open_def
      intro: exI [of _ "\<lambda>_. True"])

lemma prepare_channel_effect:
  fixes st :: "('p, 'g, 's) runtime"
  obtains n where "snd (prepare_channel ops q t st) = st\<lparr>rt_alloc_calls := n\<rparr>" and "rt_alloc_calls st \<le> n"
    and "\<And>a ch. fst (prepare_channel ops q t st) = Inr (a, ch) \<Longrightarrow>
      a = rt_alloc_calls st \<and> a < n \<and> staged ch
      \<and> ch_subscription_id ch = subscription_name (rt_next_subscription_id st)"
proof -
  note result = that
  let ?k = "rt_alloc_calls st"
  let ?ctx = "\<lparr>sc_producer = ''gateway-g7-publication'', sc_producer_version = ''1.0.0'',
      sc_utc_ns = pt_utc_ns t, sc_monotonic_ns = pt_monotonic_ns t\<rparr>"
  let ?name = "subscription_name (rt_next_subscription_id st)"
  let ?gw = "vs_gateway_instance_id (aq_subscription q)"
  let ?new = "make_channel ?name ?gw (pl_ordinary_queue_capacity (rl_publication (rt_limits st)))
      :: 's channel option"
  have failed: thesis if "prepare_channel ops q t st = (Inl e, st\<lparr>rt_alloc_calls := n\<rparr>)" "?k \<le> n" for e n
    by (rule result [of n]) (use that in simp_all)
  show thesis
  proof (cases "po_make_snapshot ops (rt_projection st) ?ctx (vs_depth_limit (aq_subscription q))")
    case Threw
    then show thesis by (intro failed [of SaInternalError ?k]) (simp_all add: prepare_channel_def Let_def)
  next
    case (Failed e)
    then show thesis
      by (intro failed [of "if ae_code e = InvalidDepthLimit then SaInvalidDepthLimit else SaInternalError" ?k])
        (simp_all add: prepare_channel_def Let_def)
  next
    case snap: (Returned x)
    note simps = prepare_channel_def allocate_def Let_def subscription_name_def
    show thesis
    proof (cases "po_alloc_ok ops ?k")
      case False
      with snap show thesis by (intro failed [of SaInternalError "?k + 1"]) (simp_all add: simps)
    next
      case a: True
      show thesis
      proof (cases ?new)
        case None
        with snap a show thesis by (intro failed [of SaInternalError "?k + 1"]) (simp_all add: simps)
      next
        case new: (Some ch0)
        show thesis
        proof (cases "po_alloc_ok ops (?k + 1)")
          case False
          with snap a new show thesis by (intro failed [of SaInternalError "?k + 2"]) (simp_all add: simps)
        next
          case b: True
          show thesis
          proof (cases "po_alloc_ok ops (?k + 2)")
            case False
            with snap a new b show thesis by (intro failed [of SaInternalError "?k + 3"]) (simp_all add: simps)
          next
            case c: True
            let ?stage = "stage_initial
              (Ptr (?k + 1) (make_accepted_record (vs_request_id (aq_subscription q)) ?name ?gw t))
              (Ptr (?k + 2) (make_snapshot_record x (rt_current_projection_generation st) t)) ch0"
            obtain ok ch where st: "?stage = (ok, ch)" by force
            show thesis
            proof (cases ok)
              case False
              with snap a new b c st show thesis
                by (intro failed [of SaActiveLimit "?k + 3"]) (simp_all add: simps eval_nat_numeral)
            next
              case True
              with snap a new b c st have "prepare_channel ops q t st
                  = (Inr (?k, ch), st\<lparr>rt_alloc_calls := ?k + 3\<rparr>)"
                by (simp add: simps eval_nat_numeral)
              moreover have st': "?stage = (True, ch)" using st True by simp
              moreover have "staged ch"
                unfolding staged_def using staged_channel(1,3) [OF new st'] by blast
              moreover have "ch_subscription_id ch = ?name" by (rule staged_name [OF new st'])
              ultimately show thesis by (intro that [of "?k + 3"]) simp_all
            qed
          qed
        qed
      qed
    qed
  qed
qed

lemma gate_open:
  "admission_gate st = None \<Longrightarrow> live_and_synchronized st \<and> rt_publication_admission_open st
     \<and> \<not> rt_publication_shutdown_requested st \<and> \<not> rt_stop_requested st"
  by (auto simp: admission_gate_def split: if_splits)

text \<open>A prepared admission: the private channel of a state that differs in clock, allocations
  and swept subscribers only.\<close>

lemma perform_admission_cases:
  obtains (refused) e s where
      "perform_admission_request ops i q st = (None, complete_admission_request_unlocked i (Inl e) s)"
      "owner_frame st s" "rt_observation s = rt_observation (sweep_closed_subscribers st)"
      "rt_projection s = rt_projection st" "rt_accepting s = rt_accepting st" "rt_bootstrap s = rt_bootstrap st"
  | (prepared) a ch s where
      "perform_admission_request ops i q st = (Some (a, ch), s)"
      "owner_frame st s" "rt_observation s = rt_observation (sweep_closed_subscribers st)"
      "rt_projection s = rt_projection st" "rt_accepting s = rt_accepting st" "rt_bootstrap s = rt_bootstrap st"
      "a = rt_alloc_calls st" "a < rt_alloc_calls s" "staged ch"
      "ch_subscription_id ch = subscription_name (rt_next_subscription_id st)"
      "rt_next_subscription_id st \<noteq> u64_max" "rt_heap s = rt_heap st"
      "length (rt_subscribers s) < pl_maximum_active_subscriptions (rl_publication (rt_limits st))"
proof -
  let ?s1 = "sweep_closed_subscribers st"
  let ?s2 = "snd (sample_publication_time ops ?s1)"
  have f1: "owner_frame st ?s1" "owner_frame st ?s2" by (intro framed owner_frame_refl)+
  have s1: "rt_limits ?s1 = rt_limits st" "rt_next_subscription_id ?s1 = rt_next_subscription_id st"
      "rt_limits ?s2 = rt_limits st" "rt_next_subscription_id ?s2 = rt_next_subscription_id st"
      "rt_alloc_calls ?s2 = rt_alloc_calls st"
    using frameD(1,2) [OF f1(1)] frameD(1,2) [OF f1(2)]
    by (simp_all add: sample_publication_time_def sweep_closed_subscribers_def Let_def)
  have r1: thesis if "perform_admission_request ops i q st
      = (None, complete_admission_request_unlocked i (Inl e) ?s1)" for e
    by (rule refused [OF that f1(1)]) simp_all
  have r2: thesis if "perform_admission_request ops i q st
      = (None, complete_admission_request_unlocked i (Inl e) ?s2)" for e
    by (rule refused [OF that f1(2)]) simp_all
  show thesis
  proof (cases "admission_gate ?s1")
    case (Some e)
    then show thesis by (intro r1 [of e]) (simp add: perform_admission_request_def Let_def)
  next
    case gate: None
    show thesis
    proof (cases "length (rt_subscribers ?s1) \<ge> pl_maximum_active_subscriptions (rl_publication (rt_limits ?s1))")
      case True
      with gate show thesis
        by (intro r1 [of SaActiveLimit]) (simp add: perform_admission_request_def Let_def)
    next
      case room: False
      let ?bad = "case vs_depth_limit (aq_subscription q) of None \<Rightarrow> False | Some d \<Rightarrow> \<not> po_depth_limit_ok ops d"
      show thesis
      proof (cases ?bad)
        case True
        with gate room show thesis
          by (intro r1 [of SaInvalidDepthLimit]) (simp add: perform_admission_request_def Let_def)
      next
        case depth: False
        show thesis
        proof (cases "fst (sample_publication_time ops ?s1)")
          case None
          with gate room depth show thesis
            by (intro r2 [of SaClockError]) (simp add: perform_admission_request_def Let_def case_prod_beta)
        next
          case (Some t)
          show thesis
          proof (cases "rt_next_subscription_id ?s2 = u64_max")
            case True
            with gate room depth Some show thesis
              by (intro r2 [of SaIdExhausted]) (simp add: perform_admission_request_def Let_def case_prod_beta)
          next
            case id: False
            obtain n where n: "snd (prepare_channel ops q t ?s2) = ?s2\<lparr>rt_alloc_calls := n\<rparr>"
                "rt_alloc_calls ?s2 \<le> n"
              and p: "\<And>a ch. fst (prepare_channel ops q t ?s2) = Inr (a, ch) \<Longrightarrow>
                a = rt_alloc_calls ?s2 \<and> a < n \<and> staged ch
                \<and> ch_subscription_id ch = subscription_name (rt_next_subscription_id ?s2)"
              by (rule prepare_channel_effect [of ops q t ?s2]) blast
            let ?s3 = "?s2\<lparr>rt_alloc_calls := n\<rparr>"
            have f3: "owner_frame st ?s3"
              by (rule owner_frame_trans [OF f1(2) frame_alloc_calls [OF n(2)]])
            show thesis
            proof (cases "fst (prepare_channel ops q t ?s2)")
              case (Inl e)
              with gate room depth Some id n(1) have "perform_admission_request ops i q st
                  = (None, complete_admission_request_unlocked i (Inl e) ?s3)"
                by (simp add: perform_admission_request_def Let_def case_prod_beta)
              then show thesis by (rule refused [OF _ f3]) simp_all
            next
              case (Inr x)
              obtain a ch where x: "x = (a, ch)" by force
              with gate room depth Some id n(1) Inr have eq: "perform_admission_request ops i q st
                  = (Some (a, ch), ?s3)"
                by (simp add: perform_admission_request_def Let_def case_prod_beta)
              show thesis
                by (rule prepared [OF eq f3]) (use p [of a ch] Inr x id s1 room in simp_all)
            qed
          qed
        qed
      qed
    qed
  qed
qed

lemma frame_projection_status:
  assumes "owner_frame st s" and "rt_inv ops limits st"
    and "rt_observation s = rt_observation (sweep_closed_subscribers st)"
    and "rt_projection s = rt_projection st" "rt_accepting s = rt_accepting st"
    and "rt_bootstrap s = rt_bootstrap st"
  shows "coherent ops s" "bootstrap_ok ops s"
proof -
  show "coherent ops s"
    by (rule coherent_frame [OF assms(1) rt_invD(9) [OF assms(2)]]) (simp_all add: assms(3-5))
  show "bootstrap_ok ops s"
    by (rule bootstrap_same [OF rt_invD(12) [OF assms(2)]])
      (simp_all add: assms(4,6) frameD(1) [OF assms(1)])
qed

lemma work_admission_inv:
  assumes "rt_inv ops limits st" and "rt_owner st = OwnerWorking (WorkAdmission i q)"
  shows "rt_inv ops limits (owner_perform ops (WorkAdmission i q) st)"
proof -
  have fl: "in_flight st = []" "in_admission st = [i]"
    using assms(2) by (simp_all add: in_flight_def in_admission_def)
  show ?thesis
  proof (cases rule: perform_admission_cases [of ops i q st])
    case (refused e s)
    have "rt_inv ops limits ((complete_admission_request_unlocked i (Inl e) s)\<lparr>rt_owner := OwnerWaiting\<rparr>)"
      by (rule admission_refused [OF refused(2) assms fl(2,1)])
        (rule frame_projection_status [OF refused(2) assms(1) refused(3-6)])+
    then show ?thesis using refused(1) by simp
  next
    case (prepared a ch s)
    note c = frameD [OF prepared(2)] and f = frame_parts [OF prepared(2) assms(1)]
      and w = working_facts [OF assms]
      and co = frame_projection_status [OF prepared(2) assms(1) prepared(3-6)]
    let ?s = "s\<lparr>rt_owner := OwnerWorking (WorkCommit i a ch)\<rparr>"
    have fls: "in_flight s = []" "in_admission s = [i]"
      using fl in_same [OF c(11)] by simp_all
    have "tickets_inv s" by (rule tickets_frame [OF prepared(2) rt_invD(3) [OF assms(1)] fl(1)])
    then have "tickets_inv ?s"
      by (rule tickets_same) (use fls in \<open>simp_all add: in_flight_def\<close>)
    moreover have "admissions_inv ?s"
      by (rule admissions_same [OF f(1)]) (use fls in \<open>simp_all add: in_admission_def\<close>)
    moreover have "commit_inv ?s"
    proof -
      have "dom (rt_heap st) \<subseteq> {..<rt_alloc_calls st}"
        using rt_invD(7) [OF assms(1)] by (simp add: subscribers_inv_def)
      then have "rt_heap s a = None" using prepared(7,12) by auto
      then show ?thesis
        using prepared(8-13) c(1,2) by (simp add: commit_inv_def)
    qed
    moreover have "phase_inv ?s" using w c(6-10) by (simp add: phase_inv_def)
    ultimately have "rt_inv ops limits ?s"
      using f co unfolding rt_inv_def by simp
    then show ?thesis using prepared(1) by simp
  qed
qed

lemma subscription_name_inject [simp]: "subscription_name k = subscription_name l \<longleftrightarrow> k = l"
  by (simp add: subscription_name_def)

lemma names_commit:
  assumes "names_inv st" and "ch_subscription_id ch = subscription_name (rt_next_subscription_id st)"
    and "rt_next_subscription_id st \<noteq> u64_max"
    and "rt_heap s = (rt_heap st)(a \<mapsto> ch)" and "rt_next_subscription_id s = rt_next_subscription_id st + 1"
  shows "names_inv s"
proof -
  let ?n = "rt_next_subscription_id st"
  have lt: "?n < ?n + 1" using assms(3) by (rule less_Suc_u64)
  have old: "\<exists>k<?n. ch_subscription_id c = subscription_name k" if "rt_heap st b = Some c" for b c
    using assms(1) that unfolding names_inv_def by blast
  have fresh: "ch_subscription_id c \<noteq> subscription_name ?n" if "rt_heap st b = Some c" for b c
    using old [OF that] by auto
  show ?thesis
    unfolding names_inv_def assms(4,5)
  proof (intro conjI allI impI)
    fix b c assume b: "((rt_heap st)(a \<mapsto> ch)) b = Some c"
    show "\<exists>k<?n + 1. ch_subscription_id c = subscription_name k"
    proof (cases "b = a")
      case True
      then show ?thesis using b assms(2) lt by auto
    next
      case False
      then obtain k where "k < ?n" "ch_subscription_id c = subscription_name k" using old [of b c] b by auto
      then show ?thesis using lt by (intro exI [of _ k]) auto
    qed
  next
    fix b b' c c'
    assume b: "((rt_heap st)(a \<mapsto> ch)) b = Some c" "((rt_heap st)(a \<mapsto> ch)) b' = Some c'"
      and e: "ch_subscription_id c = ch_subscription_id c'"
    consider "b = a" "b' = a" | "b = a" "b' \<noteq> a" | "b \<noteq> a" "b' = a" | "b \<noteq> a" "b' \<noteq> a" by blast
    then show "b = b'"
    proof cases
      case 2
      then show ?thesis using b e assms(2) fresh [of b' c'] by auto
    next
      case 3
      then show ?thesis using b e assms(2) fresh [of b c] by auto
    next
      case 4
      then have "rt_heap st b = Some c" "rt_heap st b' = Some c'" using b by auto
      then show ?thesis using assms(1) e unfolding names_inv_def by blast
    qed simp
  qed
qed

lemma work_commit_inv:
  assumes "rt_inv ops limits st" and "rt_owner st = OwnerWorking (WorkCommit i a ch)"
  shows "rt_inv ops limits ((commit_admission i a ch st)\<lparr>rt_owner := OwnerWaiting\<rparr>)"
proof -
  have fl: "in_flight st = []" "in_admission st = [i]"
    using assms(2) by (simp_all add: in_flight_def in_admission_def)
  note iv = rt_invD [OF assms(1)]
  show ?thesis
  proof (cases "admission_gate st")
    case (Some e)
    then show ?thesis
      using admission_refused [OF owner_frame_refl assms fl(2,1) iv(9,12)]
      by (simp add: commit_admission_def)
  next
    case None
    let ?subs = "rt_subscribers st @ [a]"
    let ?s = "map_observation (\<lambda>ob. ob
                \<lparr>ob_resident_subscription_count := length ?subs,
                 ob_last_publication_thread_id := Some (rt_owner_tid st)\<rparr>)
              (st\<lparr>rt_heap := (rt_heap st)(a \<mapsto> ch), rt_subscribers := ?subs,
                  rt_next_subscription_id := rt_next_subscription_id st + 1\<rparr>)"
    have eq: "commit_admission i a ch st = complete_admission_request_unlocked i (Inr a) ?s"
      using None by (simp add: commit_admission_def Let_def)
    have ci: "rt_heap st a = None" "a < rt_alloc_calls st" "staged ch"
        "ch_subscription_id ch = subscription_name (rt_next_subscription_id st)"
        "rt_next_subscription_id st \<noteq> u64_max"
        "length (rt_subscribers st) < pl_maximum_active_subscriptions (rl_publication (rt_limits st))"
      using iv(5) assms(2) by (auto simp: commit_inv_def)
    note w = working_facts [OF assms] and g = gate_open [OF None]
    show ?thesis
      unfolding eq
    proof (rule admission_done)
      show "tickets_at (rt_processed_ticket ?s) (rt_last_admitted_ticket ?s) (rt_ingress ?s)"
        using iv(3) fl(1) by (simp add: tickets_inv_def)
      show "in_admission ?s = [i]" using fl(2) by (simp add: in_admission_def)
      show "admissions_inv ?s"
        by (rule admissions_same [OF iv(4)]) (simp_all add: in_admission_def)
      show "names_inv ?s" by (rule names_commit [OF iv(6) ci(4,5)]) simp_all
      show "subscribers_inv ?s"
        using iv(7) ci(1,2,6) by (auto simp: subscribers_inv_def)
      show "heap_wf ?s"
        using iv(11) ci(3) by (simp add: heap_wf_def staged_def)
      show "coherent ops ?s"
        using iv(9) g by (simp add: coherent_def pre_coherent_def live_and_synchronized_def)
      show "bootstrap_ok ops ?s" by (rule bootstrap_same [OF iv(12)]) simp_all
    qed (use iv(1,2) w in simp_all)
  qed
qed

lemma owner_work_inv:
  assumes "rt_inv ops limits st" and "rt_owner st = OwnerWorking w"
  shows "rt_inv ops limits (owner_perform ops w st)"
proof (cases w)
  case (WorkAdmission i q)
  then show ?thesis using work_admission_inv assms by blast
qed (use assms work_shutdown_inv work_fault_inv work_reset_inv work_commit_inv work_snapshot_inv
      work_sweep_inv process_item_inv in simp_all)

end
