(* ===== verification/RuntimeReach.thy ===== *)
theory RuntimeReach
  imports RuntimeAdmission
begin

text \<open>
  The owner's selection of work and the writers' steps keep the invariant, so that it holds of
  every reachable state of the runtime system; and a concrete projection with a few reachable
  states for the witnesses.
\<close>

section \<open>Selection of work keeps the invariant\<close>

lemma select_inv:
  assumes "rt_inv ops limits st" and "rt_owner st = OwnerWaiting" and "in_flight s = []"
    and "in_admission s = []" and "\<And>i a c. rt_owner s \<noteq> OwnerWorking (WorkCommit i a c)"
    and "rt_owner s \<noteq> OwnerAbsent" "rt_owner s \<noteq> OwnerExited"
    and "\<exists>w f p. s = st\<lparr>rt_owner := w, rt_pending_fault := f, rt_publication_removal_pending := p\<rparr>"
  shows "rt_inv ops limits s"
proof -
  obtain w f p where s: "s = st\<lparr>rt_owner := w, rt_pending_fault := f, rt_publication_removal_pending := p\<rparr>"
    using assms(8) by blast
  note iv = rt_invD [OF assms(1)]
  have st: "in_flight st = []" "in_admission st = []" "rt_started st" "\<not> rt_stopped st"
    using assms(2) iv(8) by (auto simp: in_flight_def in_admission_def phase_inv_def)
  have "tickets_inv s" by (rule tickets_same [OF iv(3)]) (use assms st in \<open>simp_all add: s\<close>)
  moreover have "admissions_inv s"
    by (rule admissions_same [OF iv(4)]) (use assms st in \<open>simp_all add: s\<close>)
  moreover have "commit_inv s" by (rule commit_free) (use assms in simp)
  moreover have "names_inv s" by (rule names_same [OF iv(6)]) (simp_all add: s)
  moreover have "subscribers_inv s" by (rule subscribers_same [OF iv(7)]) (simp_all add: s)
  moreover have "heap_wf s" by (rule heap_wf_same [OF iv(11)]) (simp add: s)
  moreover have "bootstrap_ok ops s" by (rule bootstrap_same [OF iv(12)]) (simp_all add: s)
  moreover have "coherent ops s" by (rule coherent_same [OF iv(9)]) (simp_all add: s)
  moreover have "phase_inv s" using iv(8) st assms(6,7) by (simp add: s phase_inv_def)
  ultimately show ?thesis using iv(1,2) by (simp add: rt_inv_def s)
qed

lemma select_item_inv:
  assumes "rt_inv ops limits st" and "rt_owner st = OwnerWaiting" and "rt_ingress st = item # rest"
  shows "rt_inv ops limits (map_observation (\<lambda>ob. ob\<lparr>ob_ingress_occupancy := length rest\<rparr>)
           (st\<lparr>rt_ingress := rest, rt_owner := OwnerWorking (WorkItem item)\<rparr>))"
    (is "rt_inv ops limits ?s")
proof -
  note iv = rt_invD [OF assms(1)]
  have st: "in_flight st = []" "in_admission st = []" "rt_started st" "\<not> rt_stopped st"
    using assms(2) iv(8) by (auto simp: in_flight_def in_admission_def phase_inv_def)
  have "tickets_inv ?s" using iv(3) st assms(3) by (simp add: tickets_inv_def in_flight_def)
  moreover have "admissions_inv ?s"
    by (rule admissions_same [OF iv(4)]) (use st in \<open>simp_all add: in_admission_def\<close>)
  moreover have "commit_inv ?s" by (rule commit_free) simp
  moreover have "names_inv ?s" by (rule names_same [OF iv(6)]) simp_all
  moreover have "subscribers_inv ?s" by (rule subscribers_same [OF iv(7)]) simp_all
  moreover have "heap_wf ?s" by (rule heap_wf_same [OF iv(11)]) simp
  moreover have "bootstrap_ok ops ?s" by (rule bootstrap_same [OF iv(12)]) simp_all
  moreover have "coherent ops ?s"
    by (rule coherent_same [OF iv(9)]) (use iv(9) assms(3) in \<open>simp_all\<close>)
  moreover have "phase_inv ?s" using iv(8) st by (simp add: phase_inv_def)
  ultimately show ?thesis using iv(1,2) assms(3) by (simp add: rt_inv_def)
qed

lemma select_admission_inv:
  assumes "rt_inv ops limits st" and "rt_owner st = OwnerWaiting"
    and "rt_admission_requests st = (i, q) # rest"
  shows "rt_inv ops limits (st\<lparr>rt_admission_requests := rest, rt_owner := OwnerWorking (WorkAdmission i q)\<rparr>)"
    (is "rt_inv ops limits ?s")
proof -
  note iv = rt_invD [OF assms(1)]
  have st: "in_flight st = []" "in_admission st = []" "rt_started st" "\<not> rt_stopped st"
    using assms(2) iv(8) by (auto simp: in_flight_def in_admission_def phase_inv_def)
  have "in_admission ?s = [i]" by (simp add: in_admission_def)
  then have "admissions_inv ?s" using iv(4) st assms(3) by (auto simp: admissions_inv_def)
  moreover have "tickets_inv ?s"
    by (rule tickets_same [OF iv(3)]) (use st in \<open>simp_all add: in_flight_def\<close>)
  moreover have "commit_inv ?s" by (rule commit_free) simp
  moreover have "names_inv ?s" by (rule names_same [OF iv(6)]) simp_all
  moreover have "subscribers_inv ?s" by (rule subscribers_same [OF iv(7)]) simp_all
  moreover have "heap_wf ?s" by (rule heap_wf_same [OF iv(11)]) simp
  moreover have "bootstrap_ok ops ?s" by (rule bootstrap_same [OF iv(12)]) simp_all
  moreover have "coherent ops ?s" by (rule coherent_same [OF iv(9)]) simp_all
  moreover have "phase_inv ?s" using iv(8) st by (simp add: phase_inv_def)
  ultimately show ?thesis using iv(1,2) by (simp add: rt_inv_def)
qed

lemma owner_exit_inv:
  assumes "rt_inv ops limits st" and "rt_owner st = OwnerWaiting" and "rt_ingress st = []"
    and "rt_stop_requested st"
  shows "rt_inv ops limits (owner_exit ops st)"
proof -
  note iv = rt_invD [OF assms(1)]
  have st: "in_flight st = []" "in_admission st = []" "rt_started st" "\<not> rt_stopped st"
    using assms(2) iv(8) by (auto simp: in_flight_def in_admission_def phase_inv_def)
  let ?c = "close_all_subscribers_for_shutdown (complete_all_admissions_locked SaStopped st)"
  note defs = owner_exit_def complete_snapshot_if_pending_def set_reset_result_def
    refresh_projection_observation_locked_def close_all_subscribers_for_shutdown_def
    complete_all_admissions_locked_def Let_def
  have fields: "rt_heap (owner_exit ops st) = update_channels close_from_owner (rt_subscribers st) (rt_heap st)"
    "rt_subscribers (owner_exit ops st) = []" "rt_ingress (owner_exit ops st) = []"
    "rt_admission_requests (owner_exit ops st) = []"
    "rt_admission_results (owner_exit ops st)
       = complete_results SaStopped (rt_admission_requests st) (rt_admission_results st)"
    "rt_pending_admission_count (owner_exit ops st) = 0" "rt_alloc_calls (owner_exit ops st) = rt_alloc_calls st"
    "rt_limits (owner_exit ops st) = rt_limits st" "rt_owner (owner_exit ops st) = OwnerExited"
    "rt_processed_ticket (owner_exit ops st) = rt_processed_ticket st"
    "rt_last_admitted_ticket (owner_exit ops st) = rt_last_admitted_ticket st"
    "rt_next_subscription_id (owner_exit ops st) = rt_next_subscription_id st"
    "rt_state (owner_exit ops st) = RsStopped"
    "ob_resident_subscription_count (rt_observation (owner_exit ops st)) = 0"
    "rt_bootstrap (owner_exit ops st) = rt_bootstrap st" "rt_projection (owner_exit ops st) = rt_projection st"
    "rt_started (owner_exit ops st) = rt_started st" "rt_stopped (owner_exit ops st) = rt_stopped st"
    "rt_stop_requested (owner_exit ops st) = rt_stop_requested st"
    "rt_publication_shutdown_requested (owner_exit ops st) = rt_publication_shutdown_requested st"
    "rt_owner_paused (owner_exit ops st) = rt_owner_paused st"
    using assms(3) by (simp_all add: defs split: option.split)
  have ev: "channels_evolve (rt_heap st) (rt_heap (owner_exit ops st))"
    unfolding fields by (intro update_channels_evolve quiet_close)
  have dom: "dom (rt_heap (owner_exit ops st)) = dom (rt_heap st)"
    unfolding dom_def by (simp add: channels_evolve_None [OF ev])
  have "tickets_inv (owner_exit ops st)"
    using iv(3) st assms(3) by (simp add: tickets_inv_def fields in_flight_def)
  moreover have "admissions_inv (owner_exit ops st)"
  proof -
    have "i < rt_alloc_calls st"
      if "complete_results SaStopped (rt_admission_requests st) (rt_admission_results st) i \<noteq> None" for i
      using complete_results_domain [OF that] iv(4) by (auto simp: admissions_inv_def)
    moreover have "in_admission (owner_exit ops st) = []" by (simp add: in_admission_def fields)
    ultimately show ?thesis unfolding admissions_inv_def fields by simp
  qed
  moreover have "commit_inv (owner_exit ops st)" by (rule commit_free) (simp add: fields)
  moreover have "names_inv (owner_exit ops st)" by (rule names_frame [OF ev iv(6)]) (simp add: fields)
  moreover have "subscribers_inv (owner_exit ops st)"
    using iv(7) dom by (simp add: subscribers_inv_def fields)
  moreover have "heap_wf (owner_exit ops st)"
    unfolding heap_wf_def
  proof (intro allI impI)
    fix a c assume "rt_heap (owner_exit ops st) a = Some c"
    then obtain c0 where "rt_heap st a = Some c0" "quiet c0 c" by (rule evolved_from [OF ev])
    moreover from this have "channel_wf c0" using iv(11) unfolding heap_wf_def by blast
    ultimately show "channel_wf c" using quiet_keeps by blast
  qed
  moreover have "bootstrap_ok ops (owner_exit ops st)" by (rule bootstrap_same [OF iv(12)]) (simp_all add: fields)
  moreover have "coherent ops (owner_exit ops st)" by (simp add: coherent_def pre_coherent_def fields)
  moreover have "phase_inv (owner_exit ops st)"
    using iv(8) st assms(4) by (simp add: phase_inv_def fields)
  ultimately show ?thesis using iv(1) by (simp add: rt_inv_def fields)
qed

lemma owner_select_inv:
  assumes "rt_inv ops limits st" and "rt_owner st = OwnerWaiting" and "owner_select ops st = Some s"
  shows "rt_inv ops limits s"
proof -
  have keep: "rt_inv ops limits (st\<lparr>rt_owner := OwnerWorking w\<rparr>)"
    if "w \<in> {WorkShutdown, WorkReset, WorkSnapshot}" for w
  proof (rule select_inv [OF assms(1,2)])
    show "\<exists>w' f p. st\<lparr>rt_owner := OwnerWorking w\<rparr>
        = st\<lparr>rt_owner := w', rt_pending_fault := f, rt_publication_removal_pending := p\<rparr>"
      by (rule exI [of _ "OwnerWorking w"], rule exI [of _ "rt_pending_fault st"],
          rule exI [of _ "rt_publication_removal_pending st"]) simp
  qed (use that in \<open>auto simp: in_flight_def in_admission_def\<close>)
  have fault: "rt_inv ops limits (st\<lparr>rt_pending_fault := None, rt_owner := OwnerWorking (WorkFault f)\<rparr>)" for f
    by (rule select_inv [OF assms(1,2)])
      (auto simp: in_flight_def in_admission_def
        intro!: exI [of _ "OwnerWorking (WorkFault f)"] exI [of _ None]
          exI [of _ "rt_publication_removal_pending st"])
  have sweep: "rt_inv ops limits (st\<lparr>rt_publication_removal_pending := False, rt_owner := OwnerWorking WorkSweep\<rparr>)"
    by (rule select_inv [OF assms(1,2)])
      (auto simp: in_flight_def in_admission_def
        intro!: exI [of _ "OwnerWorking WorkSweep"] exI [of _ "rt_pending_fault st"] exI [of _ False])
  show ?thesis
    using assms(3) keep fault sweep select_item_inv [OF assms(1,2)] select_admission_inv [OF assms(1,2)]
      owner_exit_inv [OF assms(1,2)] assms(1)
    by (auto simp: owner_select_def split: if_splits option.splits list.splits prod.splits)
qed

section \<open>The invariant of the system\<close>

lemma writer_step_inv:
  assumes "rt_inv ops limits st" and "rt_heap st a = Some c" and "channel_step c l c'"
  shows "rt_inv ops limits (st\<lparr>rt_heap := (rt_heap st)(a \<mapsto> c')\<rparr>)" (is "rt_inv ops limits ?s")
proof -
  note iv = rt_invD [OF assms(1)]
  have name: "ch_subscription_id c' = ch_subscription_id c" by (rule channel_step_name [OF assms(3)])
  have "channel_wf c" using iv(11) assms(2) unfolding heap_wf_def by blast
  then have wf: "channel_wf c'" using ob_egress.simulation assms(3) by blast
  have old: "\<exists>d. rt_heap st b = Some d \<and> ch_subscription_id d = ch_subscription_id x"
    if "rt_heap ?s b = Some x" for b x
    using that assms(2) name by (cases "b = a") auto
  have "names_inv ?s"
    unfolding names_inv_def
  proof (intro conjI allI impI)
    fix b x assume "rt_heap ?s b = Some x"
    then obtain d where d: "rt_heap st b = Some d" "ch_subscription_id d = ch_subscription_id x"
      using old by blast
    have "\<exists>k<rt_next_subscription_id st. ch_subscription_id d = subscription_name k"
      using iv(6) d(1) unfolding names_inv_def by blast
    then show "\<exists>k<rt_next_subscription_id ?s. ch_subscription_id x = subscription_name k"
      using d(2) by simp
  next
    fix b b' x x'
    assume "rt_heap ?s b = Some x" "rt_heap ?s b' = Some x'"
      and e: "ch_subscription_id x = ch_subscription_id x'"
    then obtain d d' where "rt_heap st b = Some d" "ch_subscription_id d = ch_subscription_id x"
        "rt_heap st b' = Some d'" "ch_subscription_id d' = ch_subscription_id x'"
      using old by blast
    then show "b = b'" using iv(6) e unfolding names_inv_def by metis
  qed
  moreover have "tickets_inv ?s" by (rule tickets_same [OF iv(3)]) (simp_all add: in_flight_def)
  moreover have "admissions_inv ?s" by (rule admissions_same [OF iv(4)]) (simp_all add: in_admission_def)
  moreover have "commit_inv ?s"
    using iv(5) assms(2) unfolding commit_inv_def by (auto simp: fun_upd_apply)
  moreover have "subscribers_inv ?s" using iv(7) assms(2) by (auto simp: subscribers_inv_def)
  moreover have "heap_wf ?s" using iv(11) wf by (simp add: heap_wf_def)
  moreover have "bootstrap_ok ops ?s" by (rule bootstrap_same [OF iv(12)]) simp_all
  moreover have "no_active ?s" if "no_active st"
    using that channel_step_inactive [OF assms(3)] assms(2) by (simp add: no_active_def)
  then have "coherent ops ?s" using iv(9) by (simp add: coherent_def pre_coherent_def)
  moreover have "phase_inv ?s" using iv(8) by (simp add: phase_inv_def)
  ultimately show ?thesis using iv(1,2) by (simp add: rt_inv_def)
qed

lemma runtime_step_inv:
  assumes "runtime_step ops st l s" and "rt_inv ops limits st"
  shows "rt_inv ops limits s"
  using assms(1)
proof cases
  case rs_owner
  then show ?thesis
    using owner_select_inv [OF assms(2)] owner_work_inv [OF assms(2)]
    by (auto simp: owner_step_def split: owner_phase.splits)
next
  case (rs_acknowledge a ch p)
  show ?thesis unfolding rs_acknowledge(2)
    by (rule writer_step_inv [OF assms(2) rs_acknowledge(3) cs_acknowledge])
next
  case (rs_writer_close a ch)
  show ?thesis unfolding rs_writer_close(2)
    by (rule writer_step_inv [OF assms(2) rs_writer_close(3) cs_close_writer])
qed (use assms(2) start_inv stop_request_inv stop_finish_inv [OF assms(2)] submit_inv [OF assms(2)]
      admit_begin_inv client_inv [OF assms(2)] finish_inv [OF assms(2)] in \<open>simp_all\<close>)

definition runtime_init :: "runtime_limits \<Rightarrow> ('p, 'g, 's) runtime \<Rightarrow> bool" where
  "runtime_init limits st \<longleftrightarrow>
     (\<exists>has_clock symbol projection paused tid.
        make_runtime limits has_clock symbol projection paused tid = Some st)"

definition some_step ::
  "('p, 'g, 's, 'b, 'c) projection_ops \<Rightarrow> ('p, 'g, 's) runtime \<Rightarrow> ('p, 'g, 's) runtime \<Rightarrow> bool" where
  "some_step ops s t \<longleftrightarrow> (\<exists>l. runtime_step ops s l t)"

abbreviation runtime_reachable ::
  "('p, 'g, 's, 'b, 'c) projection_ops \<Rightarrow> runtime_limits \<Rightarrow> ('p, 'g, 's) runtime \<Rightarrow> bool" where
  "runtime_reachable ops limits \<equiv> reachable (runtime_init limits) (some_step ops)"

interpretation runtime_system: invariant_system
  "runtime_init limits" "some_step ops" "rt_inv ops limits" for limits ops
proof unfold_locales
  show "runtime_init limits s \<Longrightarrow> rt_inv ops limits s" for s
    using make_runtime_inv by (auto simp: runtime_init_def)
  show "rt_inv ops limits s \<Longrightarrow> some_step ops s t \<Longrightarrow> rt_inv ops limits t" for s t
    using runtime_step_inv by (auto simp: some_step_def)
qed

section \<open>A concrete projection\<close>

text \<open>
  A projection for the witnesses: a counter of applied updates that is synchronized from the
  start, adapts and applies everything, and never fails.
\<close>

definition toy_ops :: "(nat, unit, nat, nat, nat) projection_ops" where
  "toy_ops =
     \<lparr>po_status = (\<lambda>_. Synchronized), po_last_update_id = (\<lambda>_. None), po_last_gap = (\<lambda>_. None),
      po_reset = (\<lambda>_. Some 0), po_adapt_depth_update = (\<lambda>_ _. Returned 1),
      po_apply_to = (\<lambda>b p. (Returned \<lparr>ar_disposition = Applied\<rparr>, p + b)),
      po_adapt_snapshot = (\<lambda>_ _. Returned 5),
      po_install_into = (\<lambda>c p. (Returned \<lparr>ir_disposition = Installed\<rparr>, c)),
      po_depth_limit_ok = (\<lambda>d. 0 < d), po_make_snapshot = (\<lambda>p _ _. Returned p),
      po_clock = (\<lambda>n. Some \<lparr>cs_utc_ns = of_nat n, cs_monotonic_ns = of_nat n\<rparr>),
      po_alloc_ok = (\<lambda>_. True)\<rparr>"

definition toy_limits :: runtime_limits where
  "toy_limits = \<lparr>rl_ingress_capacity = 2, rl_bootstrap_capacity = 2,
     rl_publication = \<lparr>pl_maximum_active_subscriptions = 2, pl_ordinary_queue_capacity = 2,
       pl_pending_admission_capacity = 1\<rparr>\<rparr>"

definition toy_runtime :: "(nat, unit, nat) runtime" where
  "toy_runtime = the (make_runtime toy_limits True ''BTCUSDT'' 0 False 7)"

definition toy_started :: "(nat, unit, nat) runtime" where
  "toy_started = snd (start toy_ops True toy_runtime)"

lemma toy_runtime_init: "runtime_init toy_limits toy_runtime"
  unfolding runtime_init_def
  by (rule exI [of _ True], rule exI [of _ "''BTCUSDT''"], rule exI [of _ 0], rule exI [of _ False],
      rule exI [of _ 7]) (simp add: toy_runtime_def make_runtime_def toy_limits_def)

lemma toy_reachable: "runtime_reachable toy_ops toy_limits toy_runtime"
  by (rule reach_init) (rule toy_runtime_init)

definition example_update :: depth_update where
  "example_update =
     \<lparr>du_metadata = \<lparr>md_venue = VENUE_BINANCE, md_market = MARKET_SPOT, md_symbol = ''BTCUSDT'',
        md_producer = ''p'', md_producer_version = ''1'', md_connection_id = ''c'',
        md_stream = STREAM_DIFF_DEPTH, md_schema_version = ''v1'', md_exchange_event_time_ms = None,
        md_exchange_trade_time_ms = None, md_exchange_transaction_time_ms = None,
        md_receive_time_utc_ns = None, md_receive_monotonic_ns = None\<rparr>,
      du_first_update_id = 1, du_final_update_id = 2, du_previous_final_update_id = None,
      du_bids = [], du_asks = []\<rparr>"

definition toy_input :: runtime_input where
  "toy_input = InDepth \<lparr>di_update = example_update, di_provenance = \<lparr>sp_connection_generation = Some 1\<rparr>\<rparr>"

definition toy_owner :: "(nat, unit, nat) runtime \<Rightarrow> (nat, unit, nat) runtime" where
  "toy_owner st = the (owner_step toy_ops st)"

definition toy_queued :: "(nat, unit, nat) runtime" where
  "toy_queued = snd (submit toy_input toy_started)"

definition toy_live :: "(nat, unit, nat) runtime" where
  "toy_live = toy_owner (toy_owner toy_queued)"

definition toy_faulted :: "(nat, unit, nat) runtime" where
  "toy_faulted = toy_owner (toy_owner (snd (submit (InFailure InjectTransport) toy_live)))"

lemma toy_states:
  "rt_state toy_started = RsBuffering" "rt_state toy_live = RsLive" "rt_state toy_faulted = RsFaulted"
  "rt_last_admitted_ticket toy_started = 0" "rt_last_admitted_ticket toy_live = 1"
  by code_simp+

lemma reach_more: "runtime_reachable ops limits s \<Longrightarrow> runtime_step ops s l t \<Longrightarrow> runtime_reachable ops limits t"
  by (rule reach_step) (auto simp: some_step_def)

lemma toy_owner_reachable:
  "runtime_reachable toy_ops toy_limits st \<Longrightarrow> owner_step toy_ops st \<noteq> None
     \<Longrightarrow> runtime_reachable toy_ops toy_limits (toy_owner st)"
  by (rule reach_more, assumption, rule rs_owner) (auto simp: toy_owner_def)

lemma toy_reachable_states:
  "runtime_reachable toy_ops toy_limits toy_started" "runtime_reachable toy_ops toy_limits toy_queued"
  "runtime_reachable toy_ops toy_limits toy_live" "runtime_reachable toy_ops toy_limits toy_faulted"
proof -
  show s: "runtime_reachable toy_ops toy_limits toy_started"
    unfolding toy_started_def by (rule reach_more [OF toy_reachable rs_start])
  have "rt_last_admitted_ticket toy_started \<noteq> u64_max" by (simp add: toy_states u64_max_def)
  then show q: "runtime_reachable toy_ops toy_limits toy_queued"
    unfolding toy_queued_def by (rule reach_more [OF s rs_submit])
  have "owner_step toy_ops toy_queued \<noteq> None" "owner_step toy_ops (toy_owner toy_queued) \<noteq> None"
    by code_simp+
  then show l: "runtime_reachable toy_ops toy_limits toy_live"
    unfolding toy_live_def by (intro toy_owner_reachable q)
  let ?q = "snd (submit (InFailure InjectTransport) toy_live)"
  have "rt_last_admitted_ticket toy_live \<noteq> u64_max" by (simp add: toy_states u64_max_def)
  then have f: "runtime_reachable toy_ops toy_limits ?q" by (rule reach_more [OF l rs_submit])
  have "owner_step toy_ops ?q \<noteq> None" "owner_step toy_ops (toy_owner ?q) \<noteq> None"
    by code_simp+
  then show "runtime_reachable toy_ops toy_limits toy_faulted"
    unfolding toy_faulted_def by (intro toy_owner_reachable f)
qed

end
