(* ===== verification/RuntimeProperties.thy ===== *)
theory RuntimeProperties
  imports RuntimeReach
begin

text \<open>
  The properties of the single-product runtime: tickets and barriers, bounds, coherence of
  states and faults, the fate of an update, resets, closed admission, end-to-end delivery of an
  accepted subscription, and termination after a stop.
\<close>

section \<open>Reachable states\<close>

lemmas reachable_inv = runtime_system.inv_reachable

lemmas reachable_parts = rt_invD [OF reachable_inv]



text \<open>Observe() is a barrier: when it returns from a runtime that has not stopped, every
  input admitted before the call has been processed or discarded, and none is queued or in work.\<close>

theorem observe_is_barrier:
  assumes "runtime_reachable ops limits st" and "observe_target st = Some t"
    and "runtime_reachable ops limits st'" and "observe_finish (Some t) st' = Some (ob, st'')"
    and "\<not> rt_stopped st'" and "i \<in> set (in_flight st' @ rt_ingress st')"
  shows "rt_last_admitted_ticket st < ii_ticket i"
proof -
  have t: "t = rt_last_admitted_ticket st" using assms(2) by (auto simp: observe_target_def split: if_splits)
  have "t \<le> rt_processed_ticket st'"
    using assms(4,5) by (auto simp: observe_finish_def split: if_splits)
  moreover have "unat (ii_ticket i) \<in> set (map (\<lambda>i. unat (ii_ticket i)) (in_flight st' @ rt_ingress st'))"
    using assms(6) by auto
  then have "unat (ii_ticket i) \<in> set [Suc (unat (rt_processed_ticket st'))..<Suc (unat (rt_last_admitted_ticket st'))]"
    using reachable_parts(3) [OF assms(3)] by (simp only: tickets_inv_def tickets_at_def)
  then have "unat (rt_processed_ticket st') < unat (ii_ticket i)" by auto
  ultimately show ?thesis unfolding t by (simp add: word_less_nat_alt word_le_nat_alt)
qed

theorem observe_is_barrier_witness:
  "rt_last_admitted_ticket toy_started < ii_ticket (hd (in_flight toy_queued @ rt_ingress toy_queued))"
proof -
  obtain ob s where fin: "observe_finish (Some 0) toy_queued = Some (ob, s)"
    by (simp add: observe_finish_def Let_def)
  have "observe_target toy_started = Some 0" "\<not> rt_stopped toy_queued" by code_simp+
  note barrier = observe_is_barrier [OF toy_reachable_states(1) this(1) toy_reachable_states(2) fin this(2)]
  have "in_flight toy_queued @ rt_ingress toy_queued \<noteq> []" by code_simp
  then have "hd (in_flight toy_queued @ rt_ingress toy_queued) \<in> set (in_flight toy_queued @ rt_ingress toy_queued)"
    by (rule hd_in_set)
  then show ?thesis by (rule barrier)
qed

text \<open>C5: every queue of the runtime stays within its configured bound, whatever the clients
  do: ingress, bootstrap buffer, resident subscriptions and pending admissions.\<close>

theorem runtime_queues_bounded:
  assumes "runtime_reachable ops limits st"
  shows "length (rt_ingress st) \<le> rl_ingress_capacity limits
    \<and> length (rt_bootstrap st) \<le> rl_bootstrap_capacity limits
    \<and> length (rt_subscribers st) \<le> pl_maximum_active_subscriptions (rl_publication limits)
    \<and> length (rt_admission_requests st) \<le> pl_pending_admission_capacity (rl_publication limits)"
  using reachable_parts [OF assms]
  by (auto simp: bootstrap_ok_def subscribers_inv_def admissions_inv_def)

theorem runtime_queues_bounded_witness:
  "length (rt_ingress toy_live) \<le> rl_ingress_capacity toy_limits
    \<and> length (rt_bootstrap toy_live) \<le> rl_bootstrap_capacity toy_limits
    \<and> length (rt_subscribers toy_live) \<le> pl_maximum_active_subscriptions (rl_publication toy_limits)
    \<and> length (rt_admission_requests toy_live) \<le> pl_pending_admission_capacity (rl_publication toy_limits)"
  by (rule runtime_queues_bounded [OF toy_reachable_states(3)])

text \<open>C6: a runtime that reports Faulted accepts no input, says why, and has no active
  subscriber left: each resident channel has its terminal notice or is closed.\<close>

theorem faulted_is_quiescent:
  assumes "runtime_reachable ops limits st" and "rt_state st = RsFaulted"
  shows "fst (submit input st) \<noteq> AdAccepted \<and> ob_fault_reason (rt_observation st) \<noteq> None
    \<and> (\<forall>a \<in> set (rt_subscribers st). \<exists>c. rt_heap st a = Some c \<and> ch_state c \<noteq> SubActive)"
proof -
  have p: "ob_fault_reason (rt_observation st) \<noteq> None" "\<not> rt_accepting st" "no_active st"
    using reachable_parts(10) [OF assms(1)] assms(2) unfolding pre_coherent_def by blast+
  have "set (rt_subscribers st) \<subseteq> dom (rt_heap st)"
    using reachable_parts(7) [OF assms(1)] unfolding subscribers_inv_def by blast
  then have "\<forall>a \<in> set (rt_subscribers st). \<exists>c. rt_heap st a = Some c \<and> ch_state c \<noteq> SubActive"
    using p(3) unfolding no_active_def by (meson domD subsetD)
  moreover have "fst (submit input st) \<noteq> AdAccepted" using p(2) by (simp add: submit_def)
  ultimately show ?thesis using p(1) by blast
qed

theorem faulted_is_quiescent_witness:
  "fst (submit toy_input toy_faulted) \<noteq> AdAccepted \<and> ob_fault_reason (rt_observation toy_faulted) \<noteq> None"
  using faulted_is_quiescent [OF toy_reachable_states(4) toy_states(3), of toy_input] by blast

text \<open>A runtime that reports Live has a synchronized projection, reports no fault, and has
  replayed its whole bootstrap buffer.\<close>

theorem live_is_synchronized:
  assumes "runtime_reachable ops limits st" and "rt_state st = RsLive"
  shows "po_status ops (rt_projection st) = Synchronized \<and> live_and_synchronized st \<and> rt_bootstrap st = []"
  using reachable_parts(9,10,12) [OF assms(1)] assms(2)
  by (auto simp: coherent_def pre_coherent_def bootstrap_ok_def live_and_synchronized_def)

theorem live_is_synchronized_witness:
  "po_status toy_ops (rt_projection toy_live) = Synchronized \<and> live_and_synchronized toy_live
    \<and> rt_bootstrap toy_live = []"
  by (rule live_is_synchronized [OF toy_reachable_states(3) toy_states(2)])

text \<open>No two channels of a runtime, living or gone, ever share a subscription id.\<close>

theorem subscription_ids_unique:
  assumes "runtime_reachable ops limits st" and "rt_heap st a = Some c" and "rt_heap st b = Some d"
    and "ch_subscription_id c = ch_subscription_id d"
  shows "a = b"
  using reachable_parts(6) [OF assms(1)] assms(2-4) unfolding names_inv_def by blast

definition toy_subscription :: validated_order_book_subscription where
  "toy_subscription = \<lparr>vs_request_id = ''r'', vs_gateway_instance_id = ''gw'', vs_depth_limit = None\<rparr>"

definition toy_requested :: "(nat, unit, nat) runtime" where
  "toy_requested = snd (admit_begin toy_ops toy_subscription toy_live)"

definition toy_prepared :: "(nat, unit, nat) runtime" where
  "toy_prepared = toy_owner (toy_owner toy_requested)"

definition toy_admitted :: "(nat, unit, nat) runtime" where
  "toy_admitted = toy_owner toy_prepared"

lemma toy_admission_reachable:
  "runtime_reachable toy_ops toy_limits toy_requested" "runtime_reachable toy_ops toy_limits toy_prepared"
  "runtime_reachable toy_ops toy_limits toy_admitted"
proof -
  show r: "runtime_reachable toy_ops toy_limits toy_requested"
    unfolding toy_requested_def by (rule reach_more [OF toy_reachable_states(3) rs_admit_begin])
  have "owner_step toy_ops toy_requested \<noteq> None" "owner_step toy_ops (toy_owner toy_requested) \<noteq> None"
    by code_simp+
  then show p: "runtime_reachable toy_ops toy_limits toy_prepared"
    unfolding toy_prepared_def by (intro toy_owner_reachable r)
  have "owner_step toy_ops toy_prepared \<noteq> None" by code_simp
  then show "runtime_reachable toy_ops toy_limits toy_admitted"
    unfolding toy_admitted_def by (rule toy_owner_reachable [OF p])
qed

lemma toy_channel:
  "rt_subscribers toy_admitted = [1]"
  "map_option ch_subscription_id (rt_heap toy_admitted 1) = Some ''ob-1''"
  by code_simp+

theorem subscription_ids_unique_witness: "rt_heap toy_admitted 1 \<noteq> None \<and> (1 :: nat) = 1"
proof -
  obtain c where c: "rt_heap toy_admitted 1 = Some c" using toy_channel(2) by auto
  from subscription_ids_unique [OF toy_admission_reachable(3) c c refl] c show ?thesis by simp
qed

section \<open>The fate of an update\<close>

text \<open>An update of another connection generation than the installed baseline never reaches
  the projection: it faults the runtime, and no subscriber stays active.\<close>

theorem stale_generation_faults:
  assumes "heap_wf st" and "generation_mismatch (di_provenance input) st"
    and "apply_update ops input st = (ok, s)"
  shows "ok \<and> rt_projection s = rt_projection st \<and> rt_state s = RsFaulted
    \<and> ob_fault_reason (rt_observation s) = Some FrInternalError \<and> rt_ingress s = [] \<and> no_active s"
proof -
  have "ok" and s: "s = transition_to_fault ops FrInternalError None st"
    using assms(2,3) by (simp_all add: apply_update_def)
  then show ?thesis using fault_no_active [OF assms(1)] by simp
qed

theorem stale_generation_faults_witness:
  "rt_state (snd (apply_update toy_ops
     \<lparr>di_update = example_update, di_provenance = \<lparr>sp_connection_generation = Some 1\<rparr>\<rparr>
     (toy_admitted\<lparr>rt_current_projection_generation := Some 2\<rparr>))) = RsFaulted"
proof -
  have "heap_wf (toy_admitted\<lparr>rt_current_projection_generation := Some 2\<rparr>)"
    by (rule heap_wf_same [OF reachable_parts(11) [OF toy_admission_reachable(3)]]) simp
  moreover have "generation_mismatch
      (di_provenance \<lparr>di_update = example_update, di_provenance = \<lparr>sp_connection_generation = Some 1\<rparr>\<rparr>)
      (toy_admitted\<lparr>rt_current_projection_generation := Some 2\<rparr>)"
    by (simp add: generation_mismatch_def)
  ultimately show ?thesis
    using stale_generation_faults [OF _ _ surjective_pairing] by blast
qed

lemma update_channels_contents:
  assumes "\<And>c. channel_contents (f c) = channel_contents c"
  shows "map_option channel_contents (update_channels f as h a) = map_option channel_contents (h a)"
proof (induction as arbitrary: h)
  case (Cons b as)
  show ?case
    unfolding update_channels.simps Cons.IH
    using assms by (cases "h b") (simp_all add: option.map_comp)
qed simp

lemma terminalize_contents: "channel_contents (snd (terminalize r a g t c)) = channel_contents c"
  by (simp add: terminalize_def)

lemma terminalize_subscribers_contents:
  "map_option channel_contents (rt_heap (terminalize_active_subscribers ops r a g st) x)
     = map_option channel_contents (rt_heap st x)"
  by (simp add: terminalize_active_subscribers_def case_prod_beta Let_def update_channels_contents
      terminalize_contents)

lemma fault_contents:
  "map_option channel_contents (rt_heap (transition_to_fault ops r e st) x)
     = map_option channel_contents (rt_heap st x)"
  by (simp add: transition_to_fault_def refresh_projection_observation_locked_def Let_def
      terminalize_subscribers_contents)

lemma publish_state_heap [simp]: "rt_heap (publish_projection_state ops st) = rt_heap st"
  by (simp add: publish_projection_state_def refresh_projection_observation_locked_def Let_def)

text \<open>C7: only updates the projection applied are published: on every other outcome (stale,
  duplicate, gap, rejection, adapter error, generation mismatch, exception) every subscriber's
  queue is left exactly as it was.\<close>

theorem only_applied_updates_published:
  assumes "apply_update ops input st = (ok, s)"
    and "\<forall>b res p. po_adapt_depth_update ops (di_update input) (rt_projection st) = Returned b \<longrightarrow>
      po_apply_to ops b (rt_projection st) = (Returned res, p) \<longrightarrow> ar_disposition res \<noteq> Applied"
  shows "map_option channel_contents (rt_heap s a) = map_option channel_contents (rt_heap st a)"
proof (cases "generation_mismatch (di_provenance input) st")
  case True
  then show ?thesis using assms(1) fault_contents by (auto simp: apply_update_def)
next
  case False
  show ?thesis
  proof (cases "po_adapt_depth_update ops (di_update input) (rt_projection st)")
    case (Returned b)
    obtain outcome p where ap: "po_apply_to ops b (rt_projection st) = (outcome, p)" by force
    show ?thesis
    proof (cases outcome)
      case res: (Returned res)
      then have "ar_disposition res \<noteq> Applied" using assms(2) Returned ap by blast
      then show ?thesis
        using assms(1) False Returned ap res
        by (auto simp: apply_update_def Let_def record_apply_def terminalize_subscribers_contents)
    qed (use assms(1) False Returned ap in
        \<open>auto simp: apply_update_def Let_def fault_contents\<close>)
  qed (use assms(1) False fault_contents in \<open>auto simp: apply_update_def\<close>)
qed

definition gap_ops :: "(nat, unit, nat, nat, nat) projection_ops" where
  "gap_ops = toy_ops\<lparr>po_apply_to := (\<lambda>b p. (Returned \<lparr>ar_disposition = GapDetected\<rparr>, p))\<rparr>"

theorem only_applied_updates_published_witness:
  "map_option channel_contents (rt_heap (snd (apply_update gap_ops
      \<lparr>di_update = example_update, di_provenance = \<lparr>sp_connection_generation = Some 1\<rparr>\<rparr> toy_admitted)) 1)
    = map_option channel_contents (rt_heap toy_admitted 1)"
  by (rule only_applied_updates_published [OF surjective_pairing]) (auto simp: gap_ops_def)

lemma publish_to_other:
  assumes "a \<notin> set as"
  shows "rt_heap (snd (publish_to ops u g t as st)) a = rt_heap st a"
  using assms
proof (induction as arbitrary: st)
  case (Cons b as)
  show ?case
  proof (cases "rt_heap st b")
    case (Some c)
    obtain res c' where "admit_update (fst (allocate ops st)) u g t c = (res, c')" by force
    then show ?thesis
      using Some Cons.prems Cons.IH by (simp add: case_prod_beta Let_def)
  qed (use Cons in simp)
qed simp

lemma publish_to_apply:
  assumes "distinct as" and "publish_to ops u g t as st = (True, s)" and "a \<in> set as"
    and "rt_heap st a = Some c"
  obtains al where "rt_heap s a = Some (snd (admit_update al u g t c))"
    and "fst (admit_update al u g t c) \<noteq> AdmAllocationFailure"
  using assms
proof (induction as arbitrary: st thesis)
  case (Cons b as)
  show ?case
  proof (cases "rt_heap st b")
    case None
    with Cons show ?thesis by auto
  next
    case (Some d)
    let ?al = "fst (allocate ops st)"
    obtain res d' where r: "admit_update ?al u g t d = (res, d')" by force
    let ?st = "(snd (allocate ops st))\<lparr>rt_heap := (rt_heap st)(b \<mapsto> d')\<rparr>"
    have rest: "res \<noteq> AdmAllocationFailure" "publish_to ops u g t as ?st = (True, s)"
      using Cons.prems(3) Some r by (simp_all add: case_prod_beta Let_def split: if_splits)
    show ?thesis
    proof (cases "a = b")
      case True
      then have "a \<notin> set as" using Cons.prems(2) by simp
      then have "rt_heap s a = rt_heap ?st a" using publish_to_other rest(2) by (metis snd_conv)
      then show ?thesis using Cons.prems(1) [of ?al] Cons.prems(5) Some r rest(1) True by simp
    next
      case False
      then show ?thesis
        using Cons.IH [OF Cons.prems(1) _ rest(2)] Cons.prems by auto
    qed
  qed
qed simp

text \<open>An applied update that does not fault the runtime reaches every active subscriber:
  it is appended, with the channel's next session sequence number, to the queue of one with
  room, and ends the session of one without as a slow consumer.\<close>

theorem applied_update_fans_out:
  assumes "heap_wf st" and "distinct (rt_subscribers st)" and "\<not> rt_publication_shutdown_completed st"
    and "rt_state (publish_applied_update ops u v st) \<noteq> RsFaulted"
    and "a \<in> set (rt_subscribers st)" and "rt_heap st a = Some c" and "ch_state c = SubActive"
  shows "\<exists>c'. rt_heap (publish_applied_update ops u v st) a = Some c' \<and>
    (if ch_size c < ch_ordinary_capacity c
     then \<exists>x y t. channel_contents c' = channel_contents c @ [Ptr x
         \<lparr>pr_session_sequence = ch_next_session_sequence c,
          pr_connection_generation = sp_connection_generation v, pr_published_at = t,
          pr_payload = PayloadUpdate (Ptr y u)\<rparr>]
     else ch_state c' = SubTerminalGap \<and> channel_contents c' = channel_contents c
       \<and> map_option td_reason (ch_terminal c') = Some CONSUMER_GAP_REASON_SLOW_CONSUMER)"
proof -
  let ?s1 = "sweep_closed_subscribers st"
  let ?s2 = "snd (sample_publication_time ops ?s1)"
  let ?s3 = "snd (allocate ops ?s2)"
  let ?s4 = "map_observation (\<lambda>ob. ob\<lparr>ob_last_publication_thread_id := Some (rt_owner_tid ?s3)\<rparr>) ?s3"
  let ?g = "sp_connection_generation v"
  have subs: "rt_subscribers ?s1 = filter (\<lambda>a. \<not> subscriber_closed (rt_heap st) a) (rt_subscribers st)"
    by (simp add: sweep_closed_subscribers_def Let_def)
  have a: "a \<in> set (rt_subscribers ?s4)" "distinct (rt_subscribers ?s4)" "rt_heap ?s4 a = Some c"
    using assms(2,5-7) by (simp_all add: subs subscriber_closed_def)
  then have ne: "rt_subscribers ?s1 \<noteq> []" by auto
  obtain t where t: "fst (sample_publication_time ops ?s1) = Some t"
    using assms(3,4) ne by (cases "fst (sample_publication_time ops ?s1)")
      (auto simp: publish_applied_update_def Let_def case_prod_beta)
  obtain y where y: "fst (allocate ops ?s2) = Some y"
    using assms(3,4) ne t by (cases "fst (allocate ops ?s2)")
      (auto simp: publish_applied_update_def Let_def case_prod_beta)
  obtain ok s where r: "publish_to ops (Ptr y u) ?g t (rt_subscribers ?s4) ?s4 = (ok, s)" by force
  have "publish_applied_update ops u v st = (if ok then s else transition_to_fault ops FrInternalError None s)"
    using assms(3) ne t y r by (simp add: publish_applied_update_def Let_def case_prod_beta split: bool.split)
  with assms(4) have ok: "ok" "publish_applied_update ops u v st = s" by (auto split: if_splits)
  obtain al where c': "rt_heap s a = Some (snd (admit_update al (Ptr y u) ?g t c))"
      "fst (admit_update al (Ptr y u) ?g t c) \<noteq> AdmAllocationFailure"
    using publish_to_apply [OF a(2) _ a(1,3), of ops "Ptr y u" ?g t s] r ok(1) by auto
  have wf: "channel_wf c" using assms(1,6) by (auto simp: heap_wf_def)
  show ?thesis
  proof (cases "ch_size c < ch_ordinary_capacity c")
    case True
    then obtain x where x: "al = Some x" "ch_next_session_sequence c \<noteq> u64_max"
      using c'(2) assms(7) by (auto simp: admit_update_def split: option.splits if_splits)
    let ?x = "\<lparr>pr_session_sequence = ch_next_session_sequence c, pr_connection_generation = ?g,
        pr_published_at = t, pr_payload = PayloadUpdate (Ptr y u)\<rparr>"
    obtain r where r: "admit_update (Some x) (Ptr y u) ?g t c
         = (AdmAdmitted, c\<lparr>ch_ordinary_ring := r, ch_size := ch_size c + 1,
              ch_next_session_sequence := ch_next_session_sequence c + 1\<rparr>)"
        "ring_contents r (ch_head c) (Suc (ch_size c)) = channel_contents c @ [Ptr x ?x]"
      using admit_update_admits [OF wf assms(7) True x(2), of x "Ptr y u" ?g t] by blast
    let ?c' = "snd (admit_update al (Ptr y u) ?g t c)"
    have "channel_contents ?c' = channel_contents c @ [Ptr x ?x]"
      using r x(1) by simp
    then have "\<exists>x y t. channel_contents ?c' = channel_contents c @ [Ptr x
         \<lparr>pr_session_sequence = ch_next_session_sequence c,
          pr_connection_generation = ?g, pr_published_at = t, pr_payload = PayloadUpdate (Ptr y u)\<rparr>]"
      by blast
    then show ?thesis using c'(1) ok(2) True by (simp only: if_True) blast
  next
    case False
    then have "ch_size c = ch_ordinary_capacity c" using wf by (simp add: channel_wf_def channel_shape_def)
    then have "snd (admit_update al (Ptr y u) ?g t c) = snd (admit_update None Null None t c)"
        "ch_state (snd (admit_update None Null None t c)) = SubTerminalGap"
        "channel_contents (snd (admit_update None Null None t c)) = channel_contents c"
        "map_option td_reason (ch_terminal (snd (admit_update None Null None t c)))
           = Some CONSUMER_GAP_REASON_SLOW_CONSUMER"
      using assms(7) by (simp_all add: admit_update_def)
    then show ?thesis using c'(1) ok(2) False by simp
  qed
qed

theorem applied_update_fans_out_witness:
  "\<exists>c c'. rt_heap toy_admitted 1 = Some c \<and>
     rt_heap (publish_applied_update toy_ops example_update \<lparr>sp_connection_generation = Some 1\<rparr> toy_admitted) 1
       = Some c' \<and> ch_state c' = SubTerminalGap"
proof -
  let ?s = "publish_applied_update toy_ops example_update \<lparr>sp_connection_generation = Some 1\<rparr> toy_admitted"
  obtain c where c: "rt_heap toy_admitted 1 = Some c" using toy_channel(2) by auto
  have "map_option (\<lambda>c. (ch_state c, ch_size c, ch_ordinary_capacity c)) (rt_heap toy_admitted 1)
      = Some (SubActive, 2, 2)"
    by code_simp
  then have st: "ch_state c = SubActive" "ch_size c = 2" "ch_ordinary_capacity c = 2" using c by simp_all
  have live: "\<not> rt_publication_shutdown_completed toy_admitted" "rt_state ?s \<noteq> RsFaulted"
    by code_simp+
  note sub = toy_channel(1) and inv = reachable_parts [OF toy_admission_reachable(3)]
  obtain c' where "rt_heap ?s 1 = Some c'" "ch_state c' = SubTerminalGap"
    using applied_update_fans_out [OF inv(11) _ live _ c st(1)] sub st(2,3)
    by auto
  with c show ?thesis by blast
qed

section \<open>Resets\<close>

text \<open>A reset the owner grants puts the runtime back to the beginning of a bootstrap: it is
  buffering and accepting with an empty bootstrap buffer, no fault, no generation and no active
  subscriber, while its ticket counters and its queued input are kept.\<close>

theorem granted_reset_restarts_bootstrap:
  assumes "heap_wf st" and "rt_reset_request st = Some r" and "reset_valid (rr_kind r) st"
    and "po_reset ops (rt_projection st) = Some p" and "perform_reset_request ops st = s"
  shows "map_option rr_result (rt_reset_request s) = Some (Some RrReset)
    \<and> rt_state s = RsBuffering \<and> rt_accepting s \<and> rt_bootstrap s = [] \<and> rt_projection s = p
    \<and> ob_fault_reason (rt_observation s) = None \<and> rt_current_projection_generation s = None
    \<and> no_active s \<and> ob_reset_count (rt_observation s) = ob_reset_count (rt_observation st) + 1
    \<and> rt_last_admitted_ticket s = rt_last_admitted_ticket st
    \<and> rt_processed_ticket s = rt_processed_ticket st \<and> rt_ingress s = rt_ingress st"
proof -
  let ?t = "reset_subscribers ops (rr_kind r) st"
  have fr: "owner_frame st ?t" by (rule reset_subscribers_facts)
  have keep: "rt_reset_request ?t = rt_reset_request st" "rt_last_admitted_ticket ?t = rt_last_admitted_ticket st"
      "ob_reset_count (rt_observation ?t) = ob_reset_count (rt_observation st)"
      "rt_processed_ticket ?t = rt_processed_ticket st"
    using fr by (simp_all add: owner_frame_def same_control_def reset_subscribers_def)
  have na: "no_active ?t" by (rule reset_subscribers_facts(2) [OF assms(1)])
  have s: "s = set_reset_result RrReset
      (publish_tickets_locked ((map_observation (\<lambda>ob. ob\<lparr>ob_state := RsBuffering\<rparr>)
          (refresh_projection_observation_locked ops
            (map_observation (\<lambda>ob. ob\<lparr>ob_last_gap := None, ob_last_install := None, ob_last_apply := None,
               ob_last_applied_depth := None, ob_adapter_error := None,
               ob_fault_reason := None, ob_last_update_id := None,
               ob_current_projection_generation := None, ob_bootstrap_occupancy := 0,
               ob_last_reset_thread_id := Some (rt_owner_tid ?t), ob_reset_count := ob_reset_count ob + 1\<rparr>)
              (?t\<lparr>rt_projection := p, rt_bootstrap := [], rt_current_projection_generation := None\<rparr>))))
         \<lparr>rt_accepting := True\<rparr>))"
    using assms(2-5) reset_subscribers_facts(3) [of ops "rr_kind r" st]
    by (simp add: perform_reset_request_def reset_subscribers_def Let_def)
  have "no_active s"
    by (rule no_active_same [OF na])
      (simp_all add: s set_reset_result_def publish_tickets_locked_def refresh_projection_observation_locked_def)
  then show ?thesis
    using keep assms(2) reset_subscribers_facts(5) [of ops "rr_kind r" st]
    by (simp add: s set_reset_result_def publish_tickets_locked_def refresh_projection_observation_locked_def)
qed

definition toy_reset_pending :: "(nat, unit, nat) runtime" where
  "toy_reset_pending = snd (planned_reset_begin toy_admitted)"

theorem granted_reset_restarts_bootstrap_witness:
  "rt_state (perform_reset_request toy_ops toy_reset_pending) = RsBuffering
    \<and> no_active (perform_reset_request toy_ops toy_reset_pending)"
proof -
  have "runtime_reachable toy_ops toy_limits toy_reset_pending"
    unfolding toy_reset_pending_def by (rule reach_more [OF toy_admission_reachable(3) rs_planned_begin])
  note wf = reachable_parts(11) [OF this]
  have "map_option rr_kind (rt_reset_request toy_reset_pending) = Some ResetPlanned"
    "reset_valid ResetPlanned toy_reset_pending"
    by code_simp+
  then obtain r where r: "rt_reset_request toy_reset_pending = Some r" "reset_valid (rr_kind r) toy_reset_pending"
    by auto
  have "po_reset toy_ops (rt_projection toy_reset_pending) = Some 0" by (simp add: toy_ops_def)
  from granted_reset_restarts_bootstrap [OF wf r this refl] show ?thesis by blast
qed

end
