(* ===== verification/RuntimeRuns.thy ===== *)
theory RuntimeRuns
  imports RuntimeReach
begin

text \<open>
  Properties of whole runs of the runtime system: the session of an accepted subscription from
  its first record to its end, admission after it was closed, and the termination of the owner
  after a stop.
\<close>

section \<open>What a step does to the channels\<close>

definition channels_step ::
  "('p, 'g, 's) runtime \<Rightarrow> (nat \<times> nat) option \<Rightarrow> ('p, 'g, 's) runtime \<Rightarrow> bool" where
  "channels_step st l s \<longleftrightarrow>
     (l = None \<and> channels_evolve (rt_heap st) (rt_heap s))
     \<or> (l = None \<and> (\<exists>a c. rt_heap st a = None \<and> staged c \<and> rt_heap s = (rt_heap st)(a \<mapsto> c)))
     \<or> (\<exists>a c c' k. rt_heap st a = Some c \<and> channel_step c k c' \<and> l = map_option (Pair a) k
          \<and> rt_heap s = (rt_heap st)(a \<mapsto> c'))"

definition closing :: "('p, 'g, 's) runtime \<Rightarrow> ('p, 'g, 's) runtime \<Rightarrow> bool" where
  "closing st s \<longleftrightarrow>
     (rt_started st \<and> \<not> rt_publication_admission_open st \<longrightarrow>
        rt_started s \<and> \<not> rt_publication_admission_open s \<and> set (rt_subscribers s) \<subseteq> set (rt_subscribers st))"

lemma calm_step:
  assumes "rt_heap s = rt_heap st" and "rt_subscribers s = rt_subscribers st"
    and "rt_started st \<Longrightarrow> rt_started s"
    and "rt_started st \<Longrightarrow> rt_publication_admission_open s \<Longrightarrow> rt_publication_admission_open st"
  shows "channels_step st None s \<and> closing st s"
  using assms by (auto simp: channels_step_def closing_def)

lemma frame_step:
  assumes "owner_frame st s" and "rt_heap s' = rt_heap s" and "rt_subscribers s' = rt_subscribers s"
    and "rt_started s' = rt_started s"
    and "rt_publication_admission_open s' \<Longrightarrow> rt_publication_admission_open s"
  shows "channels_step st None s' \<and> closing st s'"
proof -
  have "channels_evolve (rt_heap st) (rt_heap s)" "rt_started s = rt_started st"
    "rt_publication_admission_open s = rt_publication_admission_open st"
    using assms(1) unfolding owner_frame_def same_control_def by blast+
  moreover have "set (rt_subscribers s) \<subseteq> set (rt_subscribers st)"
    using assms(1) unfolding owner_frame_def by auto
  ultimately show ?thesis using assms(2-) by (auto simp: channels_step_def closing_def)
qed

lemma complete_request_fields [simp]:
  "rt_heap (complete_admission_request_unlocked i r st) = rt_heap st"
  "rt_subscribers (complete_admission_request_unlocked i r st) = rt_subscribers st"
  "rt_started (complete_admission_request_unlocked i r st) = rt_started st"
  "rt_publication_admission_open (complete_admission_request_unlocked i r st) = rt_publication_admission_open st"
  by (simp_all add: complete_admission_request_unlocked_def Let_def split: option.split)

lemma client_steps:
  "channels_step st None (snd (start ops ok st)) \<and> closing st (snd (start ops ok st))"
  "channels_step st None (snd (stop_request st)) \<and> closing st (snd (stop_request st))"
  "channels_step st None (snd (submit i st)) \<and> closing st (snd (submit i st))"
  "channels_step st None (snd (reset_begin st)) \<and> closing st (snd (reset_begin st))"
  "channels_step st None (snd (planned_reset_begin st)) \<and> closing st (snd (planned_reset_begin st))"
  "channels_step st None (snd (capture_begin st)) \<and> closing st (snd (capture_begin st))"
  "channels_step st None (notify_subscriber_closed st) \<and> closing st (notify_subscriber_closed st)"
  "channels_step st None (close_publication_admission st) \<and> closing st (close_publication_admission st)"
  "channels_step st None (snd (shutdown_begin st)) \<and> closing st (snd (shutdown_begin st))"
  "channels_step st None (release_owner_for_testing st) \<and> closing st (release_owner_for_testing st)"
  "channels_step st None (pause_owner_for_testing st) \<and> closing st (pause_owner_for_testing st)"
  by (rule calm_step; simp add: start_def refresh_projection_observation_locked_def stop_request_def
      submit_def Let_def reset_begin_def planned_reset_begin_def capture_begin_def
      notify_subscriber_closed_def close_publication_admission_def shutdown_begin_def
      release_owner_for_testing_def pause_owner_for_testing_def split: if_splits)+

lemma finish_steps:
  "reset_finish st = Some (rr, s) \<Longrightarrow> channels_step st None s \<and> closing st s"
  "capture_finish st = Some (sr, s) \<Longrightarrow> channels_step st None s \<and> closing st s"
  "observe_finish target st = Some (ob, s) \<Longrightarrow> channels_step st None s \<and> closing st s"
  "wait_until_live_or_recovery_required token st = Some (res, s) \<Longrightarrow> channels_step st None s \<and> closing st s"
  "wait_until_recovery_required token st = Some (res, s) \<Longrightarrow> channels_step st None s \<and> closing st s"
  "stop_finish st = Some s \<Longrightarrow> channels_step st None s \<and> closing st s"
  by (rule calm_step; auto simp: reset_finish_def capture_finish_def observe_finish_def Let_def
      wait_until_live_or_recovery_required_def wait_until_recovery_required_def publish_tickets_locked_def
      stop_finish_def complete_all_admissions_locked_def complete_snapshot_if_pending_def
      split: option.splits if_splits)+

lemma admit_begin_step:
  "channels_step st None (snd (admit_begin ops sub st)) \<and> closing st (snd (admit_begin ops sub st))"
  by (rule calm_step) (simp_all add: admit_begin_def allocate_def split: if_splits)

lemma process_item_frame:
  obtains s where "owner_frame st s" and "process_item ops item st = finish_ticket (ii_ticket item) s"
proof -
  let ?r = "process_input ops (ii_input item) st"
  have "owner_frame st (if fst ?r then snd ?r else transition_to_fault ops FrInternalError None (snd ?r))"
    by (auto intro!: framed)
  then show thesis by (rule that) (simp add: process_item_def Let_def)
qed

lemma work_step:
  assumes "rt_inv ops limits st" and "rt_owner st = OwnerWorking w"
  shows "channels_step st None (owner_perform ops w st) \<and> closing st (owner_perform ops w st)"
proof (cases w)
  case WorkShutdown
  show ?thesis unfolding WorkShutdown
    by (rule frame_step [OF frame_close_all])
      (simp_all add: perform_publication_shutdown_control_def complete_all_admissions_locked_def)
next
  case (WorkFault f)
  show ?thesis unfolding WorkFault by (rule frame_step [OF frame_fault]) simp_all
next
  case WorkReset
  show ?thesis
  proof (cases rule: perform_reset_cases [of st ops])
    case absent
    then show ?thesis unfolding WorkReset by (intro calm_step) simp_all
  next
    case (invalid r)
    then show ?thesis unfolding WorkReset by (intro calm_step) (simp_all add: set_reset_result_def)
  next
    case (threw r)
    show ?thesis unfolding WorkReset owner_perform.simps threw(4)
      by (rule frame_step [OF reset_subscribers_facts(1)]) (simp_all add: set_reset_result_def)
  next
    case (reset r p s)
    then obtain ob where s: "s = (reset_subscribers ops (rr_kind r) st)\<lparr>rt_projection := p, rt_bootstrap := [],
          rt_current_projection_generation := None, rt_accepting := True, rt_observation := ob\<rparr>"
      by blast
    show ?thesis unfolding WorkReset owner_perform.simps reset(4)
      by (rule frame_step [OF reset_subscribers_facts(1)]) (simp_all add: set_reset_result_def s)
  qed
next
  case (WorkAdmission i q)
  show ?thesis
  proof (cases rule: perform_admission_cases [of ops i q st])
    case (refused e s)
    show ?thesis unfolding WorkAdmission using refused(1)
      by (simp, intro frame_step [OF refused(2)]) simp_all
  next
    case (prepared a ch s)
    show ?thesis unfolding WorkAdmission using prepared(1)
      by (simp, intro frame_step [OF prepared(2)]) simp_all
  qed
next
  case (WorkCommit i a ch)
  have c: "rt_heap st a = None" "staged ch"
    using rt_invD(5) [OF assms(1)] assms(2) unfolding WorkCommit commit_inv_def by blast+
  show ?thesis
  proof (cases "admission_gate st")
    case None
    then have "rt_publication_admission_open st" using gate_open by blast
    then show ?thesis
      using c None by (auto simp: WorkCommit commit_admission_def channels_step_def closing_def Let_def)
  next
    case (Some e)
    then show ?thesis unfolding WorkCommit
      by (intro calm_step) (simp_all add: commit_admission_def)
  qed
next
  case WorkSnapshot
  have "rt_heap (perform_snapshot_request ops st) = rt_heap st"
    "rt_subscribers (perform_snapshot_request ops st) = rt_subscribers st"
    "rt_started (perform_snapshot_request ops st) = rt_started st"
    "rt_publication_admission_open (perform_snapshot_request ops st) = rt_publication_admission_open st"
    by (simp_all add: perform_snapshot_request_def complete_snapshot_request_def Let_def split: option.split)
  then show ?thesis unfolding WorkSnapshot by (intro calm_step) simp_all
next
  case WorkSweep
  show ?thesis unfolding WorkSweep by (rule frame_step [OF frame_sweep]) simp_all
next
  case (WorkItem item)
  obtain s where fr: "owner_frame st s"
    and eq: "process_item ops item st = finish_ticket (ii_ticket item) s"
    by (rule process_item_frame)
  from eq show ?thesis unfolding WorkItem
    by (simp, intro frame_step [OF fr]) (simp_all add: finish_ticket_def)
qed

lemma select_step:
  assumes "owner_select ops st = Some s"
  shows "channels_step st None s \<and> closing st s"
proof -
  have "rt_heap (owner_exit ops st) = rt_heap (close_all_subscribers_for_shutdown st)"
    "rt_subscribers (owner_exit ops st) = rt_subscribers (close_all_subscribers_for_shutdown st)"
    "rt_started (owner_exit ops st) = rt_started (close_all_subscribers_for_shutdown st)"
    "rt_publication_admission_open (owner_exit ops st)
       = rt_publication_admission_open (close_all_subscribers_for_shutdown st)"
    by (simp_all add: owner_exit_def complete_snapshot_if_pending_def set_reset_result_def
        refresh_projection_observation_locked_def close_all_subscribers_for_shutdown_def
        complete_all_admissions_locked_def Let_def split: option.split)
  then have exit: "channels_step st None (owner_exit ops st) \<and> closing st (owner_exit ops st)"
    by (intro frame_step [OF frame_close_all]) simp_all
  consider "s = owner_exit ops st"
    | "rt_heap s = rt_heap st" "rt_subscribers s = rt_subscribers st" "rt_started s = rt_started st"
      "rt_publication_admission_open s = rt_publication_admission_open st"
    using assms by (auto simp: owner_select_def split: if_splits option.splits list.splits prod.splits)
  then show ?thesis
  proof cases
    case 2
    then show ?thesis by (intro calm_step) simp_all
  qed (use exit in simp)
qed

lemma writer_channels_step:
  assumes "rt_heap st a = Some c" and "channel_step c k c'"
  shows "channels_step st (map_option (Pair a) k) (st\<lparr>rt_heap := (rt_heap st)(a \<mapsto> c')\<rparr>)
    \<and> closing st (st\<lparr>rt_heap := (rt_heap st)(a \<mapsto> c')\<rparr>)"
proof
  show "channels_step st (map_option (Pair a) k) (st\<lparr>rt_heap := (rt_heap st)(a \<mapsto> c')\<rparr>)"
    unfolding channels_step_def
    by (intro disjI2 exI [of _ a] exI [of _ c] exI [of _ c'] exI [of _ k] conjI assms) simp_all
qed (simp add: closing_def)

lemma runtime_step_channels:
  assumes "runtime_step ops st l s" and "rt_inv ops limits st"
  shows "channels_step st l s \<and> closing st s"
  using assms(1)
proof cases
  case rs_owner
  then show ?thesis
    using select_step work_step [OF assms(2)] by (auto simp: owner_step_def split: owner_phase.splits)
next
  case (rs_acknowledge a ch p)
  show ?thesis unfolding rs_acknowledge(1,2)
    by (rule writer_channels_step [OF rs_acknowledge(3) cs_acknowledge])
next
  case (rs_writer_close a ch)
  show ?thesis unfolding rs_writer_close(1,2)
    using writer_channels_step [OF rs_writer_close(3) cs_close_writer] by simp
next
  case rs_stop_finish
  then show ?thesis using finish_steps(6) by simp
next
  case rs_observe
  then show ?thesis using finish_steps(3) by simp
next
  case rs_wait_live
  then show ?thesis using finish_steps(4) by simp
next
  case rs_wait_recovery
  then show ?thesis using finish_steps(5) by simp
next
  case rs_reset_finish
  then show ?thesis using finish_steps(1) by simp
next
  case rs_capture_finish
  then show ?thesis using finish_steps(2) by simp
qed (simp_all only: client_steps admit_begin_step simp_thms)

section \<open>The session of a subscription\<close>

definition channel_label :: "nat \<Rightarrow> (nat \<times> nat) option \<Rightarrow> nat option" where
  "channel_label a l = (case l of Some (b, n) \<Rightarrow> if b = a then Some n else None | None \<Rightarrow> None)"

text \<open>The session sequence numbers acknowledged on the channel at an address during a run.\<close>

definition deliveries :: "nat \<Rightarrow> (nat \<times> nat) option list \<Rightarrow> nat list" where
  "deliveries a ls = delivered (map (channel_label a) ls)"

definition session_inv :: "(nat \<times> nat) option list \<Rightarrow> ('p, 'g, 's) runtime \<Rightarrow> nat \<Rightarrow> bool" where
  "session_inv ls st a \<longleftrightarrow>
     (case rt_heap st a of
        None \<Rightarrow> deliveries a ls = []
      | Some c \<Rightarrow> egress_inv (deliveries a ls) (channel_abs c))"

lemma deliveries_snoc:
  "deliveries a (ls @ [l]) = deliveries a ls @ (case channel_label a l of None \<Rightarrow> [] | Some n \<Rightarrow> [n])"
  by (simp add: deliveries_def split: option.split)

lemma channel_label_simps [simp]:
  "channel_label a None = None"
  "channel_label a (map_option (Pair b) k) = (if b = a then k else None)"
  by (auto simp: channel_label_def split: option.split)

lemma session_step:
  assumes "channels_step st l s" and "heap_wf st" and "session_inv ls st a"
  shows "session_inv (ls @ [l]) s a"
proof -
  consider (quiet) "l = None" "channels_evolve (rt_heap st) (rt_heap s)"
    | (new) b c where "l = None" "rt_heap st b = None" "staged c" "rt_heap s = (rt_heap st)(b \<mapsto> c)"
    | (step) b c c' k where "rt_heap st b = Some c" "channel_step c k c'" "l = map_option (Pair b) k"
        "rt_heap s = (rt_heap st)(b \<mapsto> c')"
    using assms(1) unfolding channels_step_def by blast
  then show ?thesis
  proof cases
    case quiet
    show ?thesis
    proof (cases "rt_heap st a")
      case None
      then have "rt_heap s a = None" using channels_evolve_None [OF quiet(2)] by blast
      then show ?thesis using assms(3) None quiet(1) by (simp add: session_inv_def deliveries_snoc)
    next
      case (Some c)
      then obtain c' where c': "rt_heap s a = Some c'" "quiet c c'"
        by (rule channels_evolve_Some [OF quiet(2)])
      have "channel_wf c" using assms(2) Some unfolding heap_wf_def by blast
      then have "egress_inv (deliveries a ls) (channel_abs c')"
        using quiet_keeps [OF c'(2)] assms(3) Some unfolding session_inv_def deliveries_def by auto
      then show ?thesis using c' quiet(1) by (simp add: session_inv_def deliveries_snoc)
    qed
  next
    case new
    have d: "deliveries a (ls @ [l]) = deliveries a ls" using new(1) by (simp add: deliveries_snoc)
    show ?thesis
    proof (cases "b = a")
      case True
      then have "deliveries a ls = []" using assms(3) new(2) by (simp add: session_inv_def)
      moreover have "egress_inv [] (channel_abs c)"
        using new(3) by (simp add: staged_def egress_inv_def upt_rec)
      ultimately show ?thesis using True new(4) by (simp add: session_inv_def d)
    next
      case False
      then show ?thesis using assms(3) new(4) unfolding session_inv_def d by simp
    qed
  next
    case (step b c c' k)
    show ?thesis
    proof (cases "b = a")
      case True
      have "channel_wf c" using assms(2) step(1) unfolding heap_wf_def by blast
      then have "egress_step (channel_abs c) k (channel_abs c')"
        using ob_egress.simulation step(2) by blast
      moreover have "egress_inv (delivered (map (channel_label a) ls)) (channel_abs c)"
        using assms(3) step(1) True by (simp add: session_inv_def deliveries_def)
      ultimately have "egress_inv (delivered (map (channel_label a) ls @ [k])) (channel_abs c')"
        by (rule egress_inv_step [rotated])
      then show ?thesis using step True by (simp add: session_inv_def deliveries_def)
    next
      case False
      then have d: "deliveries a (ls @ [l]) = deliveries a ls" using step(3) by (simp add: deliveries_snoc)
      show ?thesis using assms(3) step(4) False unfolding session_inv_def d by simp
    qed
  qed
qed

lemma session_run:
  assumes "run (runtime_step ops) st ls s" and "rt_inv ops limits st" and "session_inv ks st a"
  shows "session_inv (ks @ ls) s a \<and> rt_inv ops limits s"
  using assms
proof (induction arbitrary: ks rule: run.induct)
  case (run_Cons st l t ls u)
  have "session_inv (ks @ [l]) t a"
    using runtime_step_channels [OF run_Cons.hyps(1) run_Cons.prems(1)] run_Cons.prems
      rt_invD(11) [OF run_Cons.prems(1)] by (blast intro: session_step)
  moreover have "rt_inv ops limits t" by (rule runtime_step_inv [OF run_Cons.hyps(1) run_Cons.prems(1)])
  ultimately show ?case using run_Cons.IH [of "ks @ [l]"] by simp
qed simp



section \<open>Closed admission\<close>

lemma closing_run:
  assumes "run (runtime_step ops) st ls s" and "rt_inv ops limits st"
  shows "closing st s"
  using assms
proof (induction rule: run.induct)
  case (run_Cons st l t ls u)
  have "closing st t" using runtime_step_channels [OF run_Cons.hyps(1) run_Cons.prems] by blast
  moreover have "closing t u"
    by (rule run_Cons.IH) (rule runtime_step_inv [OF run_Cons.hyps(1) run_Cons.prems])
  ultimately show ?case by (auto simp: closing_def)
qed (simp add: closing_def)

text \<open>Once publication admission of a started runtime is closed, no run reopens it, and no
  subscriber is added any more, not even for a request that was already being prepared.\<close>

theorem closed_admission_is_final:
  assumes "runtime_reachable ops limits st" and "rt_started st"
    and "run (runtime_step ops) (close_publication_admission st) ls s"
  shows "\<not> rt_publication_admission_open s \<and> set (rt_subscribers s) \<subseteq> set (rt_subscribers st)"
proof -
  have "rt_inv ops limits (close_publication_admission st)"
    using client_inv(5) [OF runtime_system.inv_reachable [OF assms(1)]] .
  from closing_run [OF assms(3) this] assms(2) show ?thesis
    by (simp add: closing_def close_publication_admission_def)
qed

theorem closed_admission_is_final_witness:
  "\<not> rt_publication_admission_open (snd (submit toy_input (close_publication_admission toy_started)))
    \<and> set (rt_subscribers (snd (submit toy_input (close_publication_admission toy_started))))
        \<subseteq> set (rt_subscribers toy_started)"
proof (rule closed_admission_is_final [OF toy_reachable_states(1)])
  show "rt_started toy_started" by code_simp
  have "rt_last_admitted_ticket (close_publication_admission toy_started) \<noteq> u64_max"
    by (simp add: close_publication_admission_def toy_states u64_max_def)
  then show "run (runtime_step toy_ops) (close_publication_admission toy_started) [None]
      (snd (submit toy_input (close_publication_admission toy_started)))"
    by (intro run_single rs_submit)
qed

section \<open>Termination after a stop\<close>

text \<open>The owner alone: \<open>n\<close> of its steps.\<close>

fun owner_run ::
  "('p, 'g, 's, 'b, 'c) projection_ops \<Rightarrow> nat \<Rightarrow> ('p, 'g, 's) runtime \<Rightarrow> ('p, 'g, 's) runtime option" where
  "owner_run ops 0 st = Some st"
| "owner_run ops (Suc n) st = Option.bind (owner_step ops st) (owner_run ops n)"

lemma owner_run_add:
  "owner_run ops (m + n) st = Option.bind (owner_run ops m st) (owner_run ops n)"
proof (induction m arbitrary: st)
  case (Suc m)
  then show ?case by (cases "owner_step ops st") simp_all
qed simp

definition reset_open :: "('p, 'g, 's) runtime \<Rightarrow> bool" where
  "reset_open st \<longleftrightarrow> (\<exists>r. rt_reset_request st = Some r \<and> rr_result r = None)"

text \<open>The pieces of work that wait for the owner.\<close>

definition backlog :: "('p, 'g, 's) runtime \<Rightarrow> nat" where
  "backlog st = of_bool (shutdown_pending st) + of_bool (rt_pending_fault st \<noteq> None)
     + of_bool (reset_open st) + length (rt_admission_requests st) + of_bool (snapshot_open st)
     + of_bool (rt_publication_removal_pending st) + length (rt_ingress st)"

lemma backlog_mono:
  assumes "shutdown_pending u \<longrightarrow> shutdown_pending s" "rt_pending_fault u \<noteq> None \<longrightarrow> rt_pending_fault s \<noteq> None"
    and "reset_open u \<longrightarrow> reset_open s"
    and "length (rt_admission_requests u) \<le> length (rt_admission_requests s)"
    and "snapshot_open u \<longrightarrow> snapshot_open s"
    and "rt_publication_removal_pending u \<longrightarrow> rt_publication_removal_pending s"
    and "length (rt_ingress u) \<le> length (rt_ingress s)"
  shows "backlog u \<le> backlog s"
  unfolding backlog_def
  by (intro add_mono) (use assms in \<open>simp_all add: of_bool_less_eq_iff\<close>)

lemma frameD_work:
  assumes "owner_frame s u"
  shows "shutdown_pending u = shutdown_pending s" "rt_pending_fault u = rt_pending_fault s"
    "reset_open u = reset_open s" "rt_admission_requests u = rt_admission_requests s"
    "snapshot_open u \<longrightarrow> snapshot_open s"
    "rt_publication_removal_pending u = rt_publication_removal_pending s"
    "length (rt_ingress u) \<le> length (rt_ingress s)" "rt_stop_requested u = rt_stop_requested s"
proof -
  have sc: "same_control s u" using assms unfolding owner_frame_def by blast
  show "shutdown_pending u = shutdown_pending s" "rt_pending_fault u = rt_pending_fault s"
    "reset_open u = reset_open s" "rt_admission_requests u = rt_admission_requests s"
    "rt_publication_removal_pending u = rt_publication_removal_pending s"
    "rt_stop_requested u = rt_stop_requested s"
    using sc unfolding same_control_def by (simp_all add: shutdown_pending_def reset_open_def)
  show "snapshot_open u \<longrightarrow> snapshot_open s" using assms unfolding owner_frame_def by blast
  show "length (rt_ingress u) \<le> length (rt_ingress s)" by (rule frameD(15) [OF assms])
qed

lemma backlog_frame: "owner_frame s u \<Longrightarrow> backlog u \<le> backlog s"
  using frameD_work [of s u] by (intro backlog_mono) simp_all

lemma backlog_owner [simp]: "backlog (s\<lparr>rt_owner := w\<rparr>) = backlog s"
  by (simp add: backlog_def shutdown_pending_def reset_open_def snapshot_open_def)

lemma backlog_updates [simp]:
  "backlog (map_observation f s) = backlog s"
  "backlog (s\<lparr>rt_admission_results := x\<rparr>) = backlog s"
  "backlog (s\<lparr>rt_pending_admission_count := n\<rparr>) = backlog s"
  by (simp_all add: backlog_def shutdown_pending_def reset_open_def snapshot_open_def)

lemma complete_request_work [simp]:
  "rt_owner (complete_admission_request_unlocked i r s) = rt_owner s"
  "rt_stop_requested (complete_admission_request_unlocked i r s) = rt_stop_requested s"
  "backlog (complete_admission_request_unlocked i r s) = backlog s"
  unfolding complete_admission_request_unlocked_def Let_def by (simp_all split: option.split)

lemma commit_work:
  "rt_stop_requested (commit_admission i a c s) = rt_stop_requested s"
  "backlog (commit_admission i a c s) = backlog s"
proof -
  have "backlog (map_observation f (s\<lparr>rt_heap := h, rt_subscribers := xs, rt_next_subscription_id := k\<rparr>))
      = backlog s" for f h xs k
    by (simp add: backlog_def shutdown_pending_def reset_open_def snapshot_open_def)
  then show "backlog (commit_admission i a c s) = backlog s"
    by (simp add: commit_admission_def Let_def split: option.split)
  show "rt_stop_requested (commit_admission i a c s) = rt_stop_requested s"
    by (simp add: commit_admission_def Let_def split: option.split)
qed

text \<open>Each piece of work, once selected, is done for good.\<close>

lemma simple_round:
  assumes "rt_owner st = OwnerWaiting" and "owner_select ops st = Some s"
    and "rt_owner s = OwnerWorking w" and "rt_owner (owner_perform ops w s) = OwnerWaiting"
    and "backlog (owner_perform ops w s) < backlog st" and "rt_stop_requested (owner_perform ops w s)"
  shows "\<exists>k \<le> 3. \<exists>u. owner_run ops k st = Some u \<and> (rt_owner u = OwnerExited
    \<or> rt_owner u = OwnerWaiting \<and> backlog u < backlog st \<and> rt_stop_requested u)"
proof (intro exI conjI)
  show "(2 :: nat) \<le> 3" by simp
  show "owner_run ops 2 st = Some (owner_perform ops w s)"
    using assms(1-3) by (simp add: numeral_2_eq_2 owner_step_def)
  show "rt_owner (owner_perform ops w s) = OwnerExited \<or> rt_owner (owner_perform ops w s) = OwnerWaiting
      \<and> backlog (owner_perform ops w s) < backlog st \<and> rt_stop_requested (owner_perform ops w s)"
    using assms by blast
qed

lemma round_shutdown:
  assumes "rt_stop_requested st" and "shutdown_pending st"
  shows "backlog (owner_perform ops WorkShutdown (st\<lparr>rt_owner := OwnerWorking WorkShutdown\<rparr>)) < backlog st"
    "rt_stop_requested (owner_perform ops WorkShutdown (st\<lparr>rt_owner := OwnerWorking WorkShutdown\<rparr>))"
proof -
  let ?s = "st\<lparr>rt_owner := OwnerWorking WorkShutdown\<rparr>"
  let ?u = "perform_publication_shutdown_control ?s"
  note defs = perform_publication_shutdown_control_def complete_all_admissions_locked_def
    close_all_subscribers_for_shutdown_def
  have "backlog ?u \<le> backlog (st\<lparr>rt_publication_shutdown_completed := True\<rparr>)"
    by (rule backlog_mono) (simp_all add: defs shutdown_pending_def reset_open_def snapshot_open_def)
  also have "\<dots> < backlog st"
    using assms(2) by (simp add: backlog_def shutdown_pending_def reset_open_def snapshot_open_def)
  finally show "backlog (owner_perform ops WorkShutdown ?s) < backlog st" by simp
  show "rt_stop_requested (owner_perform ops WorkShutdown ?s)" using assms(1) by (simp add: defs)
qed

lemma round_frame:
  assumes "owner_frame s u" and "rt_stop_requested s" and "backlog s < n"
  shows "backlog (u\<lparr>rt_owner := OwnerWaiting\<rparr>) < n" "rt_stop_requested (u\<lparr>rt_owner := OwnerWaiting\<rparr>)"
  using backlog_frame [OF assms(1)] frameD_work(8) [OF assms(1)] assms(2,3) by simp_all

lemma set_reset_result_work [simp]:
  "\<not> reset_open (set_reset_result r s)" "shutdown_pending (set_reset_result r s) = shutdown_pending s"
  "snapshot_open (set_reset_result r s) = snapshot_open s"
  "rt_pending_fault (set_reset_result r s) = rt_pending_fault s"
  "rt_admission_requests (set_reset_result r s) = rt_admission_requests s"
  "rt_publication_removal_pending (set_reset_result r s) = rt_publication_removal_pending s"
  "rt_ingress (set_reset_result r s) = rt_ingress s"
  "rt_stop_requested (set_reset_result r s) = rt_stop_requested s"
  by (auto simp: reset_open_def shutdown_pending_def snapshot_open_def set_reset_result_def)

lemma work_updates [simp]:
  "shutdown_pending (map_observation f s) = shutdown_pending s"
  "shutdown_pending (s\<lparr>rt_accepting := x\<rparr>) = shutdown_pending s"
  "shutdown_pending (s\<lparr>rt_projection := p\<rparr>) = shutdown_pending s"
  "shutdown_pending (s\<lparr>rt_bootstrap := b\<rparr>) = shutdown_pending s"
  "shutdown_pending (s\<lparr>rt_current_projection_generation := g\<rparr>) = shutdown_pending s"
  "snapshot_open (map_observation f s) = snapshot_open s"
  "snapshot_open (s\<lparr>rt_accepting := x\<rparr>) = snapshot_open s"
  "snapshot_open (s\<lparr>rt_projection := p\<rparr>) = snapshot_open s"
  "snapshot_open (s\<lparr>rt_bootstrap := b\<rparr>) = snapshot_open s"
  "snapshot_open (s\<lparr>rt_current_projection_generation := g\<rparr>) = snapshot_open s"
  by (simp_all add: shutdown_pending_def snapshot_open_def)

lemma round_reset:
  assumes "rt_stop_requested st" and "reset_open st" and "rt_owner st = w"
  shows "backlog (perform_reset_request ops st) < backlog st"
    "rt_stop_requested (perform_reset_request ops st)"
proof -
  let ?u = "perform_reset_request ops st"
  have "\<not> reset_open ?u \<and> rt_stop_requested ?u = rt_stop_requested st
      \<and> shutdown_pending ?u = shutdown_pending st \<and> rt_pending_fault ?u = rt_pending_fault st
      \<and> rt_admission_requests ?u = rt_admission_requests st \<and> (snapshot_open ?u \<longrightarrow> snapshot_open st)
      \<and> rt_publication_removal_pending ?u = rt_publication_removal_pending st
      \<and> length (rt_ingress ?u) \<le> length (rt_ingress st)"
  proof (cases rule: perform_reset_cases [of st ops])
    case absent
    then show ?thesis using assms(2) by (simp add: reset_open_def)
  next
    case (invalid r)
    then show ?thesis by simp
  next
    case (threw r)
    note f = frameD_work [OF reset_subscribers_facts(1) [of st ops "rr_kind r"]]
    show ?thesis unfolding threw(4)
      using f by simp
  next
    case (reset r p s)
    note f = frameD_work [OF reset_subscribers_facts(1) [of st ops "rr_kind r"]]
    obtain ob where s: "s = (reset_subscribers ops (rr_kind r) st)\<lparr>rt_projection := p, rt_bootstrap := [],
          rt_current_projection_generation := None, rt_accepting := True, rt_observation := ob\<rparr>"
      using reset(5) by blast
    show ?thesis unfolding reset(4)
      using f by (simp add: s)
  qed
  note u = this
  have "backlog ?u \<le> backlog (st\<lparr>rt_reset_request := None\<rparr>)"
    using u by (intro backlog_mono) (simp_all add: shutdown_pending_def reset_open_def snapshot_open_def)
  also have "\<dots> < backlog st"
    using assms(2) by (simp add: backlog_def shutdown_pending_def reset_open_def snapshot_open_def)
  finally show "backlog ?u < backlog st" .
  show "rt_stop_requested ?u" using u assms(1) by simp
qed

lemma round_snapshot:
  assumes "rt_stop_requested st" and "snapshot_open st"
  shows "backlog (perform_snapshot_request ops st) < backlog st"
    "rt_stop_requested (perform_snapshot_request ops st)"
proof -
  let ?u = "perform_snapshot_request ops st"
  note defs = perform_snapshot_request_def complete_snapshot_request_def Let_def
  have u: "\<not> snapshot_open ?u" "shutdown_pending ?u = shutdown_pending st" "reset_open ?u = reset_open st"
    "rt_pending_fault ?u = rt_pending_fault st" "rt_admission_requests ?u = rt_admission_requests st"
    "rt_publication_removal_pending ?u = rt_publication_removal_pending st" "rt_ingress ?u = rt_ingress st"
    "rt_stop_requested ?u = rt_stop_requested st"
    by (auto simp: defs shutdown_pending_def reset_open_def snapshot_open_def split: option.splits if_splits)
  have "backlog ?u \<le> backlog (st\<lparr>rt_snapshot_request := None\<rparr>)"
    using u by (intro backlog_mono) (simp_all add: shutdown_pending_def reset_open_def snapshot_open_def)
  also have "\<dots> < backlog st"
    using assms(2) by (simp add: backlog_def shutdown_pending_def reset_open_def snapshot_open_def)
  finally show "backlog ?u < backlog st" .
  show "rt_stop_requested ?u" using u(8) assms(1) by simp
qed

lemma round_admission:
  assumes "rt_owner st = OwnerWaiting" and "rt_stop_requested st" and "rt_inv ops limits st"
    and "rt_admission_requests st = (i, q) # rest"
    and "owner_select ops st = Some (st\<lparr>rt_admission_requests := rest, rt_owner := OwnerWorking (WorkAdmission i q)\<rparr>)"
  shows "\<exists>k \<le> 3. \<exists>u. owner_run ops k st = Some u \<and> (rt_owner u = OwnerExited
    \<or> rt_owner u = OwnerWaiting \<and> backlog u < backlog st \<and> rt_stop_requested u)"
proof -
  let ?s = "st\<lparr>rt_admission_requests := rest, rt_owner := OwnerWorking (WorkAdmission i q)\<rparr>"
  have lt: "backlog ?s < backlog st"
    using assms(4) by (simp add: backlog_def shutdown_pending_def reset_open_def snapshot_open_def)
  show ?thesis
  proof (cases rule: perform_admission_cases [of ops i q ?s])
    case (refused e s)
    note f = backlog_frame [OF refused(2)] frameD_work(8) [OF refused(2)]
    show ?thesis
      by (rule simple_round [OF assms(1,5), where w = "WorkAdmission i q"])
        (use f lt assms(2) refused(1) in simp_all)
  next
    case (prepared a ch s)
    note f = backlog_frame [OF prepared(2)] frameD_work(8) [OF prepared(2)]
    let ?t = "s\<lparr>rt_owner := OwnerWorking (WorkCommit i a ch)\<rparr>"
    let ?u = "(commit_admission i a ch ?t)\<lparr>rt_owner := OwnerWaiting\<rparr>"
    have "owner_run ops 3 st = Some ?u"
      using assms(1,5) prepared(1) by (simp add: numeral_3_eq_3 owner_step_def)
    moreover have "backlog ?u < backlog st" "rt_stop_requested ?u"
      using f lt assms(2) by (simp_all add: commit_work)
    ultimately show ?thesis by (intro exI [of _ "3 :: nat"] conjI exI [of _ ?u]) simp_all
  qed
qed

lemma owner_round:
  assumes "rt_owner st = OwnerWaiting" and "rt_stop_requested st" and "rt_inv ops limits st"
  shows "\<exists>k \<le> 3. \<exists>u. owner_run ops k st = Some u \<and> (rt_owner u = OwnerExited
    \<or> rt_owner u = OwnerWaiting \<and> backlog u < backlog st \<and> rt_stop_requested u)"
proof -
  have ready: "owner_wait_ready st" using assms(2) by (simp add: owner_wait_ready_def)
  note sel = owner_select_def
  consider (shutdown) "shutdown_pending st"
    | (fault) f where "\<not> shutdown_pending st" "rt_pending_fault st = Some f"
    | (reset) "\<not> shutdown_pending st" "rt_pending_fault st = None" "reset_ready_locked st"
    | (admission) "\<not> shutdown_pending st" "rt_pending_fault st = None" "\<not> reset_ready_locked st"
        "admission_ready_locked st"
    | (rest) "\<not> shutdown_pending st" "rt_pending_fault st = None" "\<not> reset_ready_locked st"
        "\<not> admission_ready_locked st"
    by blast
  then show ?thesis
  proof cases
    case shutdown
    then show ?thesis
      using ready round_shutdown [OF assms(2) shutdown] assms(1)
      by (intro simple_round [OF assms(1), where s = "st\<lparr>rt_owner := OwnerWorking WorkShutdown\<rparr>"
          and w = WorkShutdown]) (simp_all add: sel)
  next
    case (fault f)
    let ?s = "st\<lparr>rt_pending_fault := None, rt_owner := OwnerWorking (WorkFault f)\<rparr>"
    have "backlog ?s < backlog st"
      using fault(2) by (simp add: backlog_def shutdown_pending_def reset_open_def snapshot_open_def)
    from round_frame [OF frame_fault [of ?s ops f None] _ this] assms(2)
    show ?thesis
      using fault ready
      by (intro simple_round [OF assms(1), where s = ?s and w = "WorkFault f"]) (simp_all add: sel)
  next
    case reset
    let ?s = "st\<lparr>rt_owner := OwnerWorking WorkReset\<rparr>"
    have "reset_open ?s" using reset(3) by (auto simp: reset_ready_locked_def reset_open_def split: option.splits)
    from round_reset [OF _ this refl, of ops] assms(2)
    show ?thesis
      using reset ready
      by (intro simple_round [OF assms(1), where s = ?s and w = WorkReset]) (simp_all add: sel)
  next
    case admission
    then obtain i q rest where req: "rt_admission_requests st = (i, q) # rest"
      by (auto simp: admission_ready_locked_def split: list.splits)
    show ?thesis
      by (rule round_admission [OF assms req]) (use admission ready req in \<open>simp add: sel\<close>)
  next
    case rest
    show ?thesis
    proof (cases "snapshot_ready_locked st")
      case True
      let ?s = "st\<lparr>rt_owner := OwnerWorking WorkSnapshot\<rparr>"
      have "snapshot_open ?s"
        using True by (auto simp: snapshot_ready_locked_def snapshot_open_def split: option.splits)
      from round_snapshot [OF _ this, of ops] assms(2)
      show ?thesis
        using rest ready True
        by (intro simple_round [OF assms(1), where s = ?s and w = WorkSnapshot]) (simp_all add: sel)
    next
      case nosnap: False
      show ?thesis
      proof (cases "rt_publication_removal_pending st")
        case True
        let ?s = "st\<lparr>rt_publication_removal_pending := False, rt_owner := OwnerWorking WorkSweep\<rparr>"
        have "backlog ?s < backlog st"
          using True by (simp add: backlog_def shutdown_pending_def reset_open_def snapshot_open_def)
        from round_frame [OF frame_sweep [of ?s] _ this] assms(2)
        show ?thesis
          using rest ready True nosnap
          by (intro simple_round [OF assms(1), where s = ?s and w = WorkSweep]) (simp_all add: sel)
      next
        case nosweep: False
        show ?thesis
        proof (cases "rt_ingress st")
          case Nil
          then have "owner_run ops 1 st = Some (owner_exit ops st)"
            using rest ready nosnap nosweep assms(1,2) by (simp add: owner_step_def sel)
          moreover have "rt_owner (owner_exit ops st) = OwnerExited" by (simp add: owner_exit_def Let_def)
          ultimately show ?thesis by (intro exI [of _ "1 :: nat"] conjI) auto
        next
          case (Cons item items)
          let ?s = "map_observation (\<lambda>ob. ob\<lparr>ob_ingress_occupancy := length items\<rparr>)
              (st\<lparr>rt_ingress := items, rt_owner := OwnerWorking (WorkItem item)\<rparr>)"
          obtain s where fr: "owner_frame ?s s"
            and eq: "process_item ops item ?s = finish_ticket (ii_ticket item) s"
            by (rule process_item_frame)
          have "backlog ?s < backlog st"
            using Cons by (simp add: backlog_def shutdown_pending_def reset_open_def snapshot_open_def)
          then have "backlog s < backlog st" "rt_stop_requested s"
            using backlog_frame [OF fr] frameD_work(8) [OF fr] assms(2) by simp_all
          moreover have "backlog (finish_ticket t s) = backlog s"
            "rt_stop_requested (finish_ticket t s) = rt_stop_requested s" for t
            by (simp_all add: finish_ticket_def backlog_def shutdown_pending_def reset_open_def snapshot_open_def)
          ultimately show ?thesis
            using rest ready nosnap nosweep Cons eq
            by (intro simple_round [OF assms(1), where s = ?s and w = "WorkItem item"]) (simp_all add: sel)
        qed
      qed
    qed
  qed
qed

lemma owner_run_inv:
  "owner_run ops k st = Some u \<Longrightarrow> rt_inv ops limits st \<Longrightarrow> rt_inv ops limits u"
  by (induction k arbitrary: st) (auto simp: Option.bind_eq_Some_conv dest!: rs_owner runtime_step_inv)

lemma owner_drains:
  assumes "rt_owner st = OwnerWaiting" and "rt_stop_requested st" and "rt_inv ops limits st"
  shows "\<exists>n \<le> 3 * backlog st + 3. \<exists>u. owner_run ops n st = Some u \<and> rt_owner u = OwnerExited"
  using assms
proof (induction "backlog st" arbitrary: st rule: less_induct)
  case less
  from owner_round [OF less.prems] obtain k u where k: "k \<le> 3" "owner_run ops k st = Some u"
    and u: "rt_owner u = OwnerExited
      \<or> rt_owner u = OwnerWaiting \<and> backlog u < backlog st \<and> rt_stop_requested u"
    by blast
  from u show ?case
  proof (elim disjE conjE)
    assume "rt_owner u = OwnerExited"
    with k show ?thesis by (intro exI [of _ k]) auto
  next
    assume w: "rt_owner u = OwnerWaiting" and b: "backlog u < backlog st" and s: "rt_stop_requested u"
    have "rt_inv ops limits u" by (rule owner_run_inv [OF k(2) less.prems(3)])
    from less.hyps [OF b w s this] obtain n v where n: "n \<le> 3 * backlog u + 3"
      "owner_run ops n u = Some v" "rt_owner v = OwnerExited" by blast
    then have "owner_run ops (k + n) st = Some v" using k(2) by (simp add: owner_run_add)
    moreover have "k + n \<le> 3 * backlog st + 3" using k(1) n(1) b by simp
    ultimately show ?thesis using n(3) by blast
  qed
qed



end
