(* ===== verification/CharConv.thy ===== *)
theory CharConv
  imports Wire
begin

text \<open>
  The parts of the C++ standard library's text handling the sources use: \<open>std::from_chars\<close> for
  unsigned integers, searching a character in a \<open>std::string_view\<close>, the order of strings as
  sequences of unsigned bytes, and ASCII case.
\<close>

section \<open>Reading unsigned integers\<close>

text \<open>
  \<open>std::from_chars\<close> for an unsigned type whose largest value is \<open>limit\<close>: no sign, no white
  space, the longest run of digits. The result is the value and the unread rest of the text;
  \<open>None\<close> is an error code (no digit, or out of range).
\<close>

definition from_chars :: "nat \<Rightarrow> string \<Rightarrow> (nat \<times> string) option" where
  "from_chars limit s =
     (let ds = takeWhile is_digit s in
      if ds = [] \<or> digits_value ds > limit then None
      else Some (digits_value ds, dropWhile is_digit s))"

text \<open>The idiom \<open>error == errc{} && end == last\<close>.\<close>

definition from_chars_whole :: "nat \<Rightarrow> string \<Rightarrow> nat option" where
  "from_chars_whole limit s =
     (case from_chars limit s of Some (v, []) \<Rightarrow> Some v | _ \<Rightarrow> None)"

lemma takeWhile_digits [simp]: "list_all is_digit s \<Longrightarrow> takeWhile is_digit s = s"
  by (simp add: list_all_iff takeWhile_eq_all_conv)

lemma from_chars_whole_eq:
  "from_chars_whole limit s =
     (if s \<noteq> [] \<and> list_all is_digit s \<and> digits_value s \<le> limit then Some (digits_value s) else None)"
proof (cases "list_all is_digit s")
  case True
  then have rest: "dropWhile is_digit s = []"
    by (simp add: list_all_iff dropWhile_eq_Nil_conv)
  show ?thesis
    using True by (simp add: from_chars_whole_def from_chars_def Let_def rest)
next
  case False
  then have "dropWhile is_digit s \<noteq> []"
    by (simp add: list_all_iff dropWhile_eq_Nil_conv)
  then have "from_chars_whole limit s = None"
    by (auto simp: from_chars_whole_def from_chars_def Let_def split: list.splits)
  with False show ?thesis by simp
qed

lemma from_chars_whole_print [simp]:
  "from_chars_whole limit (nat_digits n) = (if n \<le> limit then Some n else None)"
  by (simp add: from_chars_whole_eq nat_digits_nonempty list_all_nat_digits)

lemma from_chars_whole_bound: "from_chars_whole limit s = Some v \<Longrightarrow> v \<le> limit"
  by (auto simp: from_chars_whole_eq split: if_splits)

lemma from_chars_whole_SomeD:
  "from_chars_whole limit s = Some v \<Longrightarrow> s \<noteq> [] \<and> list_all is_digit s \<and> v = digits_value s"
  by (auto simp: from_chars_whole_eq split: if_splits)

section \<open>Searching\<close>

text \<open>\<open>find\<close> and \<open>rfind\<close>; \<open>None\<close> is \<open>npos\<close>.\<close>

fun find_char :: "char \<Rightarrow> string \<Rightarrow> nat option" where
  "find_char c [] = None"
| "find_char c (x # xs) = (if x = c then Some 0 else map_option Suc (find_char c xs))"

fun rfind_char :: "char \<Rightarrow> string \<Rightarrow> nat option" where
  "rfind_char c [] = None"
| "rfind_char c (x # xs) =
     (case rfind_char c xs of Some i \<Rightarrow> Some (Suc i) | None \<Rightarrow> if x = c then Some 0 else None)"

lemma find_char_None [simp]: "find_char c s = None \<longleftrightarrow> c \<notin> set s"
  by (induction s) auto

lemma rfind_char_None [simp]: "rfind_char c s = None \<longleftrightarrow> c \<notin> set s"
  by (induction s) (auto split: option.splits)

lemma find_char_append [simp]: "c \<notin> set s \<Longrightarrow> find_char c (s @ c # t) = Some (length s)"
  by (induction s) auto

lemma rfind_char_append [simp]: "c \<notin> set t \<Longrightarrow> rfind_char c (s @ c # t) = Some (length s)"
proof (induction s)
  case Nil
  then show ?case by (simp add: rfind_char_None [THEN iffD2])
qed simp

lemma find_char_SomeD:
  "find_char c s = Some i \<Longrightarrow> i < length s \<and> s ! i = c \<and> c \<notin> set (take i s)"
proof (induction s arbitrary: i)
  case (Cons x xs)
  then show ?case by (cases i) (auto split: if_splits)
qed simp

section \<open>Byte order and case\<close>

text \<open>\<open>std::lexicographical_compare\<close> over unsigned bytes.\<close>

fun bytes_less :: "string \<Rightarrow> string \<Rightarrow> bool" where
  "bytes_less _ [] = False"
| "bytes_less [] (_ # _) = True"
| "bytes_less (x # xs) (y # ys) =
     ((of_char x :: nat) < of_char y \<or> (\<not> (of_char y :: nat) < of_char x \<and> bytes_less xs ys))"

lemma bytes_less_irrefl [simp]: "\<not> bytes_less s s"
  by (induction s) auto

lemma bytes_less_trans: "bytes_less s t \<Longrightarrow> bytes_less t u \<Longrightarrow> bytes_less s u"
proof (induction s t arbitrary: u rule: bytes_less.induct)
  case (2 y ys)
  then show ?case by (cases u) auto
next
  case (3 x xs y ys)
  then show ?case by (cases u) auto
qed simp

lemma bytes_less_total: "bytes_less s t \<or> s = t \<or> bytes_less t s"
proof (induction s t rule: bytes_less.induct)
  case (1 s)
  then show ?case by (cases s) auto
next
  case (3 x xs y ys)
  then show ?case
    using linorder_less_linear [of "of_char x :: nat" "of_char y"] by auto
qed simp

text \<open>Letters and digits as the sources test them, and ASCII lower case.\<close>

definition between :: "nat \<Rightarrow> char \<Rightarrow> nat \<Rightarrow> bool" where
  "between lo c hi \<longleftrightarrow> lo \<le> (of_char c :: nat) \<and> (of_char c :: nat) \<le> hi"

end
