(* ===== verification/Foundation.thy ===== *)
theory Foundation
  imports CharConv
begin

text \<open>
  The configuration surface and the lifecycle seam:
  \<open>src/include/binance_market_data/gateway/v1/{config,lifecycle}.hpp\<close>, \<open>src/src/config.cpp\<close> and
  \<open>src/src/lifecycle.cpp\<close>. A string is a list of bytes. An enumeration may hold a value that is
  none of its enumerators, which \<open>validate_config\<close> rejects: one more constructor.
\<close>

section \<open>Data\<close>

datatype venue = Binance | VenueOther u8

datatype market = Spot | UsdMPerpetual | MarketOther u8

datatype config_error_code =
    InvalidVenue | InvalidMarket | InvalidSymbol | InvalidEndpoint | InvalidQueueCapacity

record config_error =
  ce_code :: config_error_code
  ce_field :: string
  ce_message :: string

record listen_endpoint =
  le_host :: string
  le_port :: u16

record gateway_config =
  gc_venue :: venue
  gc_market :: market
  gc_symbol :: string
  gc_grpc_listen :: listen_endpoint
  gc_queue_capacity :: u32

text \<open>Only \<open>validate_config\<close> makes one.\<close>

datatype validated_gateway_config = ValidatedGatewayConfig (validated_get: gateway_config)

definition make_config_error :: "config_error_code \<Rightarrow> string \<Rightarrow> string \<Rightarrow> config_error" where
  "make_config_error code field message = \<lparr>ce_code = code, ce_field = field, ce_message = message\<rparr>"

section \<open>Symbols\<close>

abbreviation byte :: "char \<Rightarrow> nat" where
  "byte \<equiv> of_char"

definition is_continuation :: "nat \<Rightarrow> bool" where
  "is_continuation b \<longleftrightarrow> 0x80 \<le> b \<and> b \<le> 0xBF"

text \<open>The \<open>while\<close> loop of \<open>valid_symbol\<close>, over the offset.\<close>

function valid_symbol_from :: "string \<Rightarrow> nat \<Rightarrow> bool" where
  "valid_symbol_from value offset =
     (if offset < length value then
        let lead = byte (value ! offset) in
        if lead \<le> 0x7F then
          (if lead \<le> 0x20 \<or> lead = 0x7F then False else valid_symbol_from value (offset + 1))
        else if 0xC2 \<le> lead \<and> lead \<le> 0xDF then
          (if offset + 1 \<ge> length value \<or> \<not> is_continuation (byte (value ! (offset + 1))) then False
           else valid_symbol_from value (offset + 2))
        else if 0xE0 \<le> lead \<and> lead \<le> 0xEF then
          (if offset + 2 \<ge> length value then False
           else let second = byte (value ! (offset + 1)); third = byte (value ! (offset + 2)) in
             if \<not> is_continuation third \<or> (lead = 0xE0 \<and> second < 0xA0)
                \<or> (lead = 0xED \<and> second \<ge> 0xA0) \<or> \<not> is_continuation second then False
             else valid_symbol_from value (offset + 3))
        else if 0xF0 \<le> lead \<and> lead \<le> 0xF4 then
          (if offset + 3 \<ge> length value then False
           else let second = byte (value ! (offset + 1)); third = byte (value ! (offset + 2));
                    fourth = byte (value ! (offset + 3)) in
             if \<not> is_continuation third \<or> \<not> is_continuation fourth
                \<or> (lead = 0xF0 \<and> second < 0x90) \<or> (lead = 0xF4 \<and> second > 0x8F)
                \<or> \<not> is_continuation second then False
             else valid_symbol_from value (offset + 4))
        else False
      else True)"
  by pat_completeness auto
termination
  by (relation "measure (\<lambda>(value, offset). length value - offset)") auto

declare valid_symbol_from.simps [simp del]

definition valid_symbol :: "string \<Rightarrow> bool" where
  "valid_symbol value \<longleftrightarrow> (if value = [] then False else valid_symbol_from value 0)"

section \<open>Endpoints\<close>

definition kMaxHostLength :: nat where
  "kMaxHostLength = 253"

definition hostname_character :: "char \<Rightarrow> bool" where
  "hostname_character c \<longleftrightarrow> between 97 c 122 \<or> between 65 c 90 \<or> between 48 c 57
     \<or> c = CHR ''.'' \<or> c = CHR ''-'' \<or> c = CHR '':''"

definition valid_host_token :: "string \<Rightarrow> bool" where
  "valid_host_token value \<longleftrightarrow>
     (if value = [] \<or> length value > kMaxHostLength then False else list_all hostname_character value)"

definition endpoint_error :: "string \<Rightarrow> config_error" where
  "endpoint_error message = make_config_error InvalidEndpoint ''grpc-listen'' message"

definition parse_port :: "string \<Rightarrow> string \<Rightarrow> config_error + listen_endpoint" where
  "parse_port host port =
     (if \<not> valid_host_token host \<or> port = [] then
        Inl (endpoint_error ''endpoint must contain a non-empty safe ASCII host token and port'')
      else case from_chars_whole 4294967295 port of
        None \<Rightarrow> Inl (endpoint_error ''port must be an integer in the range 1..65535'')
      | Some parsed \<Rightarrow>
          if parsed = 0 \<or> parsed > 65535
          then Inl (endpoint_error ''port must be an integer in the range 1..65535'')
          else Inr \<lparr>le_host = host, le_port = of_nat parsed\<rparr>)"

definition parse_listen_endpoint :: "string \<Rightarrow> config_error + listen_endpoint" where
  "parse_listen_endpoint value =
     (if value = [] then Inl (endpoint_error ''endpoint is required'')
      else if hd value = CHR ''['' then
        (case find_char (CHR '']'') value of
           None \<Rightarrow> Inl (endpoint_error ''IPv6 endpoints must use [host]:port'')
         | Some close_bracket \<Rightarrow>
             if close_bracket + 1 \<ge> length value \<or> value ! (close_bracket + 1) \<noteq> CHR '':''
             then Inl (endpoint_error ''IPv6 endpoints must use [host]:port'')
             else parse_port (take (close_bracket - 1) (drop 1 value)) (drop (close_bracket + 2) value))
      else
        (case rfind_char (CHR '':'') value of
           None \<Rightarrow> Inl (endpoint_error ''endpoint must use host:port or [ipv6]:port'')
         | Some colon \<Rightarrow>
             if find_char (CHR '':'') value \<noteq> Some colon
             then Inl (endpoint_error ''endpoint must use host:port or [ipv6]:port'')
             else parse_port (take colon value) (drop (colon + 1) value)))"

section \<open>Validation and lifecycle\<close>

definition validate_endpoint :: "gateway_config \<Rightarrow> config_error + validated_gateway_config" where
  "validate_endpoint config =
     (let endpoint = gc_grpc_listen config in
      if \<not> valid_host_token (le_host endpoint) \<or> le_port endpoint = 0
      then Inl (endpoint_error ''endpoint must contain a non-empty safe ASCII host token and port'')
      else Inr (ValidatedGatewayConfig config))"

definition validate_config :: "gateway_config \<Rightarrow> config_error + validated_gateway_config" where
  "validate_config config =
     (if gc_venue config \<noteq> Binance
      then Inl (make_config_error InvalidVenue ''venue'' ''only binance is supported'')
      else if gc_market config \<noteq> Spot \<and> gc_market config \<noteq> UsdMPerpetual
      then Inl (make_config_error InvalidMarket ''market'' ''market must be spot or usd-m-perpetual'')
      else if \<not> valid_symbol (gc_symbol config)
      then Inl (make_config_error InvalidSymbol ''symbol''
             (''symbol must be a non-empty strict UTF-8 scalar identity without ''
              @ ''ASCII C0/whitespace or DEL bytes''))
      else if gc_queue_capacity config = 0
      then Inl (make_config_error InvalidQueueCapacity ''queue-capacity''
             ''queue capacity must be greater than zero'')
      else validate_endpoint config)"

datatype lifecycle_state = LcConstructed | LcRunning | LcStopped

datatype lifecycle_error_code = LcAlreadyRunning | LcAlreadyStopped | LcNotRunning

record lifecycle_error =
  lc_code :: lifecycle_error_code
  lc_state :: lifecycle_state

record foundation =
  fd_config :: gateway_config
  fd_state :: lifecycle_state

definition make_foundation :: "validated_gateway_config \<Rightarrow> foundation" where
  "make_foundation config = \<lparr>fd_config = validated_get config, fd_state = LcConstructed\<rparr>"

definition foundation_start :: "foundation \<Rightarrow> (lifecycle_error + lifecycle_state) \<times> foundation" where
  "foundation_start f =
     (if fd_state f = LcRunning
      then (Inl \<lparr>lc_code = LcAlreadyRunning, lc_state = fd_state f\<rparr>, f)
      else if fd_state f = LcStopped
      then (Inl \<lparr>lc_code = LcAlreadyStopped, lc_state = fd_state f\<rparr>, f)
      else (Inr LcRunning, f\<lparr>fd_state := LcRunning\<rparr>))"

definition foundation_stop :: "foundation \<Rightarrow> (lifecycle_error + lifecycle_state) \<times> foundation" where
  "foundation_stop f =
     (if fd_state f = LcConstructed
      then (Inl \<lparr>lc_code = LcNotRunning, lc_state = fd_state f\<rparr>, f)
      else if fd_state f = LcStopped
      then (Inl \<lparr>lc_code = LcAlreadyStopped, lc_state = fd_state f\<rparr>, f)
      else (Inr LcStopped, f\<lparr>fd_state := LcStopped\<rparr>))"

section \<open>The reference: strict UTF-8\<close>

text \<open>
  A Unicode scalar value and its UTF-8 encoding, from the standard's definition (the number of
  bytes by range, six bits per continuation byte).
\<close>

definition scalar_value :: "nat \<Rightarrow> bool" where
  "scalar_value n \<longleftrightarrow> n < 0xD800 \<or> (0xE000 \<le> n \<and> n < 0x110000)"

definition utf8_encode :: "nat \<Rightarrow> nat list" where
  "utf8_encode n =
     (if n < 0x80 then [n]
      else if n < 0x800 then [0xC0 + n div 64, 0x80 + n mod 64]
      else if n < 0x10000 then [0xE0 + n div 4096, 0x80 + n div 64 mod 64, 0x80 + n mod 64]
      else [0xF0 + n div 262144, 0x80 + n div 4096 mod 64, 0x80 + n div 64 mod 64, 0x80 + n mod 64])"

text \<open>No ASCII control character, space or DEL.\<close>

definition printing :: "nat \<Rightarrow> bool" where
  "printing n \<longleftrightarrow> 0x20 < n \<and> n \<noteq> 0x7F"

definition utf8_symbol :: "nat list \<Rightarrow> bool" where
  "utf8_symbol bytes \<longleftrightarrow>
     (\<exists>ns. list_all (\<lambda>n. scalar_value n \<and> printing n) ns \<and> bytes = concat (map utf8_encode ns))"

lemma six_bits:
  assumes "b < 64" and "(n :: nat) = 64 * a + b"
  shows "n div 64 = a" and "n mod 64 = b"
  using assms by simp_all

lemma continuationE:
  assumes "is_continuation b"
  obtains y where "b = 0x80 + y" and "y < 64"
proof (rule that [of "b - 0x80"])
  show "b = 0x80 + (b - 0x80)" "b - 0x80 < 64" using assms unfolding is_continuation_def by linarith+
qed

lemma div_4096: "(n :: nat) div 4096 = n div 64 div 64"
  and div_262144: "n div 262144 = n div 64 div 64 div 64"
  by (simp_all add: div_mult2_eq [symmetric])

text \<open>What the bytes of one character are, read off a lead byte and its continuations.\<close>

lemma utf8_encode_two:
  assumes "0xC2 \<le> l" and "l \<le> 0xDF" and "is_continuation b"
  obtains n where "scalar_value n" and "printing n" and "utf8_encode n = [l, b]"
proof -
  obtain x where x: "l = 0xC0 + x" "2 \<le> x" "x < 32"
    by (rule that [of "l - 0xC0"]) (use assms(1,2) in linarith)+
  obtain y where y: "b = 0x80 + y" "y < 64" using assms(3) by (rule continuationE)
  let ?n = "64 * x + y"
  note six_bits [OF y(2), of ?n x, simp]
  show thesis
  proof (rule that [of ?n])
    show "scalar_value ?n" "printing ?n" using x y by (simp_all add: scalar_value_def printing_def)
    show "utf8_encode ?n = [l, b]" using x y by (simp add: utf8_encode_def)
  qed
qed

lemma utf8_encode_three:
  assumes "0xE0 \<le> l" and "l \<le> 0xEF" and "is_continuation b" and "is_continuation c"
    and "l = 0xE0 \<longrightarrow> 0xA0 \<le> b" and "l = 0xED \<longrightarrow> b < 0xA0"
  obtains n where "scalar_value n" and "printing n" and "utf8_encode n = [l, b, c]"
proof -
  obtain x where x: "l = 0xE0 + x" using assms(1) le_Suc_ex by blast
  obtain y where y: "b = 0x80 + y" "y < 64" using assms(3) by (rule continuationE)
  obtain z where z: "c = 0x80 + z" "z < 64" using assms(4) by (rule continuationE)
  obtain m n where mn: "m = 64 * x + y" "n = 64 * m + z" by blast
  have ranges: "x < 16" "x = 0 \<Longrightarrow> 32 \<le> y" "x = 13 \<Longrightarrow> y < 32" using assms(2,5,6) x y by simp_all
  note bits = six_bits [OF y(2) mn(1)] six_bits [OF z(2) mn(2)]
  have big: "0x800 \<le> n" using ranges(2) mn by (cases "x = 0") simp_all
  have small: "n < 0x10000" using ranges(1) y z mn by simp
  have "n < 0xD800 \<or> 0xE000 \<le> n"
  proof (cases "x = 13")
    case True
    with ranges(3) z mn show ?thesis by simp
  next
    case False
    then have "x \<le> 12 \<or> 14 \<le> x" by linarith
    with y z mn show ?thesis by auto
  qed
  then have "scalar_value n" using small by (auto simp: scalar_value_def)
  moreover have "printing n" using big by (simp add: printing_def)
  moreover have "utf8_encode n = [l, b, c]"
    using big small bits x y z by (simp add: utf8_encode_def div_4096)
  ultimately show thesis by (rule that)
qed

lemma utf8_encode_four:
  assumes "0xF0 \<le> l" and "l \<le> 0xF4" and "is_continuation b" and "is_continuation c"
    and "is_continuation d" and "l = 0xF0 \<longrightarrow> 0x90 \<le> b" and "l = 0xF4 \<longrightarrow> b \<le> 0x8F"
  obtains n where "scalar_value n" and "printing n" and "utf8_encode n = [l, b, c, d]"
proof -
  obtain x where x: "l = 0xF0 + x" using assms(1) le_Suc_ex by blast
  obtain y where y: "b = 0x80 + y" "y < 64" using assms(3) by (rule continuationE)
  obtain z where z: "c = 0x80 + z" "z < 64" using assms(4) by (rule continuationE)
  obtain w where w: "d = 0x80 + w" "w < 64" using assms(5) by (rule continuationE)
  obtain k m n where kmn: "k = 64 * x + y" "m = 64 * k + z" "n = 64 * m + w" by blast
  have ranges: "x \<le> 4" "x = 0 \<Longrightarrow> 16 \<le> y" "x = 4 \<Longrightarrow> y \<le> 15" using assms(2,6,7) x y by simp_all
  note bits = six_bits [OF y(2) kmn(1)] six_bits [OF z(2) kmn(2)] six_bits [OF w(2) kmn(3)]
  have big: "0x10000 \<le> n" using ranges(2) kmn by (cases "x = 0") simp_all
  have small: "n < 0x110000"
  proof (cases "x = 4")
    case True
    with ranges(3) z w kmn show ?thesis by simp
  next
    case False
    then have "x \<le> 3" using ranges(1) by linarith
    with y z w kmn show ?thesis by simp
  qed
  have "scalar_value n" using big small by (simp add: scalar_value_def)
  moreover have "printing n" using big by (simp add: printing_def)
  moreover have "utf8_encode n = [l, b, c, d]"
    using big bits x y z w by (simp add: utf8_encode_def div_4096 div_262144)
  ultimately show thesis by (rule that)
qed

lemma utf8_encode_one: "l \<le> 0x7F \<Longrightarrow> utf8_encode l = [l]"
  by (simp add: utf8_encode_def)

lemma utf8_symbol_Nil [simp]: "utf8_symbol []"
  unfolding utf8_symbol_def by (intro exI [of _ "[]"]) simp

lemma utf8_symbol_Cons:
  assumes "utf8_symbol rest" and "scalar_value n" and "printing n" and "utf8_encode n = bytes"
  shows "utf8_symbol (bytes @ rest)"
proof -
  obtain ns where "list_all (\<lambda>n. scalar_value n \<and> printing n) ns" "rest = concat (map utf8_encode ns)"
    using assms(1) unfolding utf8_symbol_def by blast
  with assms(2-4) show ?thesis
    unfolding utf8_symbol_def by (intro exI [of _ "n # ns"]) simp
qed

lemma drop_bytes:
  "offset < length value \<Longrightarrow> map f (drop offset value) = f (value ! offset) # map f (drop (Suc offset) value)"
  by (simp add: Cons_nth_drop_Suc [symmetric])

lemma valid_symbol_from_sound:
  "valid_symbol_from str offset \<Longrightarrow> utf8_symbol (map byte (drop offset str))"
proof (induction str offset rule: valid_symbol_from.induct)
  case (1 str offset)
  show ?case
  proof (cases "offset < length str")
    case False
    then show ?thesis by simp
  next
    case in_range: True
    let ?l = "byte (str ! offset)"
    note split = drop_bytes [of offset str byte, OF in_range]
    note step = "1.prems" [unfolded valid_symbol_from.simps [of str offset] Let_def]
    consider (one) "?l \<le> 0x7F" | (two) "0xC2 \<le> ?l" "?l \<le> 0xDF" | (three) "0xE0 \<le> ?l" "?l \<le> 0xEF"
      | (four) "0xF0 \<le> ?l" "?l \<le> 0xF4"
      using step in_range by (auto split: if_splits)
    then show ?thesis
    proof cases
      case one
      then have "0x20 < ?l" "?l \<noteq> 0x7F" and rest: "valid_symbol_from str (offset + 1)"
        using step in_range by (auto split: if_splits)
      moreover from "1.IH"(1) [OF in_range refl one _ rest] this
      have "utf8_symbol (map byte (drop (offset + 1) str))" by simp
      ultimately show ?thesis
        using utf8_symbol_Cons [of _ ?l "[?l]"] one split
        by (simp add: utf8_encode_one scalar_value_def printing_def)
    next
      case two
      then have c: "offset + 1 < length str" "is_continuation (byte (str ! (offset + 1)))"
        and rest: "valid_symbol_from str (offset + 2)"
        using step in_range by (auto split: if_splits)
      have "utf8_symbol (map byte (drop (offset + 2) str))"
        using "1.IH"(2) [OF in_range refl _ _ _ rest] two c by simp
      with utf8_encode_two [OF two c(2)] utf8_symbol_Cons
        split drop_bytes [of "offset + 1" str byte, OF c(1)]
      show ?thesis by (metis Suc_1 Suc_eq_plus1 add_Suc_right append_Cons append_Nil)
    next
      case three
      then have c: "offset + 2 < length str" "is_continuation (byte (str ! (offset + 1)))"
          "is_continuation (byte (str ! (offset + 2)))"
          "?l = 0xE0 \<longrightarrow> 0xA0 \<le> byte (str ! (offset + 1))" "?l = 0xED \<longrightarrow> byte (str ! (offset + 1)) < 0xA0"
        and rest: "valid_symbol_from str (offset + 3)"
        using step in_range by (auto split: if_splits)
      have "utf8_symbol (map byte (drop (offset + 3) str))"
        using "1.IH"(3) [OF in_range refl _ _ _ _ refl refl _ rest] three c by auto
      moreover obtain n where "scalar_value n" "printing n"
        "utf8_encode n = [?l, byte (str ! (offset + 1)), byte (str ! (offset + 2))]"
        using utf8_encode_three [OF three c(2,3,4,5)] by blast
      ultimately show ?thesis
        using utf8_symbol_Cons split c(1) drop_bytes [of "offset + 1" str byte]
          drop_bytes [of "offset + 2" str byte]
        by (fastforce simp: eval_nat_numeral)
    next
      case four
      then have c: "offset + 3 < length str" "is_continuation (byte (str ! (offset + 1)))"
          "is_continuation (byte (str ! (offset + 2)))" "is_continuation (byte (str ! (offset + 3)))"
          "?l = 0xF0 \<longrightarrow> 0x90 \<le> byte (str ! (offset + 1))" "?l = 0xF4 \<longrightarrow> byte (str ! (offset + 1)) \<le> 0x8F"
        and rest: "valid_symbol_from str (offset + 4)"
        using step in_range by (auto split: if_splits)
      have "utf8_symbol (map byte (drop (offset + 4) str))"
        using "1.IH"(4) [OF in_range refl _ _ _ _ _ refl refl refl _ rest] four c by auto
      moreover obtain n where "scalar_value n" "printing n"
        "utf8_encode n = [?l, byte (str ! (offset + 1)), byte (str ! (offset + 2)), byte (str ! (offset + 3))]"
        using utf8_encode_four [OF four c(2-6)] by blast
      ultimately show ?thesis
        using utf8_symbol_Cons split c(1) drop_bytes [of "offset + 1" str byte]
          drop_bytes [of "offset + 2" str byte] drop_bytes [of "offset + 3" str byte]
        by (fastforce simp: eval_nat_numeral)
    qed
  qed
qed

lemma bytes_at:
  assumes "map byte (drop i s) = bs @ rest" and "i \<le> length s"
  shows "i + length bs \<le> length s" and "map byte (drop (i + length bs) s) = rest"
    and "\<And>k. k < length bs \<Longrightarrow> byte (s ! (i + k)) = bs ! k"
proof -
  have "length (map byte (drop i s)) = length (bs @ rest)" using assms(1) by simp
  then show len: "i + length bs \<le> length s" using assms(2) by simp
  have "drop (length bs) (map byte (drop i s)) = rest" using assms(1) by simp
  then show "map byte (drop (i + length bs) s) = rest" by (simp add: drop_map add.commute)
  show "byte (s ! (i + k)) = bs ! k" if "k < length bs" for k
  proof -
    have "map byte (drop i s) ! k = bs ! k" using assms(1) that by (simp add: nth_append)
    with that len show ?thesis by simp
  qed
qed

text \<open>One round of the loop over the encoding of one character.\<close>

lemma valid_symbol_from_step:
  assumes at: "map byte (drop i s) = utf8_encode n @ rest" and i: "i \<le> length s"
    and n: "scalar_value n" "printing n" and rest: "valid_symbol_from s (i + length (utf8_encode n))"
  shows "valid_symbol_from s i"
proof -
  note at = bytes_at [OF at i]
  consider (one) "n < 0x80" | (two) "0x80 \<le> n" "n < 0x800" | (three) "0x800 \<le> n" "n < 0x10000"
    | (four) "0x10000 \<le> n" "n < 0x110000"
    using n(1) by (fastforce simp: scalar_value_def)
  then show ?thesis
  proof cases
    case one
    then have e: "utf8_encode n = [n]" by (simp add: utf8_encode_def)
    from at(1,3) [unfolded e] rest [unfolded e] n(2) one show ?thesis
      by (simp add: valid_symbol_from.simps [of s i] printing_def)
  next
    case two
    obtain x y where xy: "n = 64 * x + y" "y < 64"
      using that [of "n div 64" "n mod 64"] by simp
    then have x: "2 \<le> x" "x < 32" using two by linarith+
    from two six_bits [OF xy(2,1)] have e: "utf8_encode n = [0xC0 + x, 0x80 + y]"
      by (simp add: utf8_encode_def)
    have "byte (s ! i) = 0xC0 + x" "byte (s ! (i + 1)) = 0x80 + y" "i + 1 < length s"
      using at(3) [of 0] at(3) [of 1] at(1) by (simp_all add: e)
    with rest [unfolded e] x xy(2) show ?thesis
      by (simp add: valid_symbol_from.simps [of s i] is_continuation_def)
  next
    case three
    obtain m z where mz: "n = 64 * m + z" "z < 64"
      using that [of "n div 64" "n mod 64"] by simp
    obtain x y where xy: "m = 64 * x + y" "y < 64"
      using that [of "m div 64" "m mod 64"] by simp
    have x: "x < 16" "x = 0 \<Longrightarrow> 32 \<le> y" "x = 13 \<Longrightarrow> y < 32"
      using three n(1) mz xy unfolding scalar_value_def by linarith+
    from three six_bits [OF mz(2,1)] six_bits [OF xy(2,1)]
    have e: "utf8_encode n = [0xE0 + x, 0x80 + y, 0x80 + z]"
      by (simp add: utf8_encode_def div_4096)
    have "byte (s ! i) = 0xE0 + x" "byte (s ! (i + 1)) = 0x80 + y" "byte (s ! (i + 2)) = 0x80 + z"
      "i + 2 < length s"
      using at(3) [of 0] at(3) [of 1] at(3) [of 2] at(1) by (simp_all add: e)
    moreover have "valid_symbol_from s (i + 3)" using rest by (simp add: e numeral_3_eq_3)
    ultimately show ?thesis
      using x xy(2) mz(2) by (auto simp: valid_symbol_from.simps [of s i] is_continuation_def Let_def)
  next
    case four
    obtain m w where mw: "n = 64 * m + w" "w < 64"
      using that [of "n div 64" "n mod 64"] by simp
    obtain k z where kz: "m = 64 * k + z" "z < 64"
      using that [of "m div 64" "m mod 64"] by simp
    obtain x y where xy: "k = 64 * x + y" "y < 64"
      using that [of "k div 64" "k mod 64"] by simp
    have x: "x \<le> 4" "x = 0 \<Longrightarrow> 16 \<le> y" "x = 4 \<Longrightarrow> y \<le> 15"
      using four mw kz xy by linarith+
    from four six_bits [OF mw(2,1)] six_bits [OF kz(2,1)] six_bits [OF xy(2,1)]
    have e: "utf8_encode n = [0xF0 + x, 0x80 + y, 0x80 + z, 0x80 + w]"
      by (simp add: utf8_encode_def div_4096 div_262144)
    have "byte (s ! i) = 0xF0 + x" "byte (s ! (i + 1)) = 0x80 + y" "byte (s ! (i + 2)) = 0x80 + z"
      "byte (s ! (i + 3)) = 0x80 + w" "i + 3 < length s"
      using at(3) [of 0] at(3) [of 1] at(3) [of 2] at(3) [of 3] at(1) by (simp_all add: e)
    moreover have "valid_symbol_from s (i + 4)" using rest by (simp add: e eval_nat_numeral)
    ultimately show ?thesis
      using x xy(2) kz(2) mw(2) by (auto simp: valid_symbol_from.simps [of s i] is_continuation_def Let_def)
  qed
qed

lemma valid_symbol_from_complete:
  assumes "map byte (drop i s) = concat (map utf8_encode ns)" and "i \<le> length s"
    and "list_all (\<lambda>n. scalar_value n \<and> printing n) ns"
  shows "valid_symbol_from s i"
  using assms
proof (induction ns arbitrary: i)
  case Nil
  then show ?case by (simp add: valid_symbol_from.simps [of s i])
next
  case (Cons n ns)
  have at: "map byte (drop i s) = utf8_encode n @ concat (map utf8_encode ns)" using Cons.prems(1) by simp
  note here = bytes_at [OF at Cons.prems(2)]
  from Cons.prems(3) have "scalar_value n" "printing n" and "list_all (\<lambda>n. scalar_value n \<and> printing n) ns"
    by simp_all
  with Cons.IH [OF here(2,1)] valid_symbol_from_step [OF at Cons.prems(2)] show ?case by blast
qed

section \<open>Properties\<close>

text \<open>C19: the hand-written byte scanner of \<open>valid_symbol\<close> accepts exactly the nonempty strict UTF-8
  texts: encodings of Unicode scalar values (no surrogates, no overlong forms, nothing above
  U+10FFFF) none of which is an ASCII control character, a space or DEL.\<close>

theorem valid_symbol_is_utf8:
  "valid_symbol s \<longleftrightarrow> s \<noteq> [] \<and> utf8_symbol (map byte s)"
  using valid_symbol_from_sound [of s 0] valid_symbol_from_complete [of 0 s]
  by (auto simp: valid_symbol_def utf8_symbol_def)

lemma valid_host_token_nonempty: "valid_host_token h \<Longrightarrow> h \<noteq> [] \<and> set h \<subseteq> {c. hostname_character c}"
  by (auto simp: valid_host_token_def list_all_iff split: if_splits)

lemma parse_port_print:
  assumes "valid_host_token host" and "port \<noteq> 0"
  shows "parse_port host (nat_digits (unat port)) = Inr \<lparr>le_host = host, le_port = port\<rparr>"
proof -
  have "unat port \<le> 65535" using unsigned_less [of port, where ?'a = nat] by simp
  moreover have "unat port \<noteq> 0" using assms(2) by (simp add: unat_eq_0)
  ultimately show ?thesis
    using assms(1) by (simp add: parse_port_def nat_digits_nonempty)
qed

text \<open>The text of an endpoint: the host in brackets when it contains a colon.\<close>

definition print_endpoint :: "listen_endpoint \<Rightarrow> string" where
  "print_endpoint e =
     (if CHR '':'' \<in> set (le_host e) then CHR ''['' # le_host e @ CHR '']'' # CHR '':'' # nat_digits (unat (le_port e))
      else le_host e @ CHR '':'' # nat_digits (unat (le_port e)))"

lemma nat_digits_no_colon: "CHR '':'' \<notin> set (nat_digits n)"
proof
  assume "CHR '':'' \<in> set (nat_digits n)"
  then have "is_digit (CHR '':'')" using list_all_nat_digits [of n] by (simp add: list_all_iff)
  then show False by (simp add: is_digit_def)
qed

lemma host_no_bracket:
  assumes "valid_host_token h"
  shows "CHR '']'' \<notin> set h" and "CHR ''['' \<notin> set h"
  using valid_host_token_nonempty [OF assms] by (auto simp: hostname_character_def between_def)

text \<open>An endpoint that is valid is read back from its printed form, host and port unchanged,
  with the host in brackets when it contains colons.\<close>

theorem endpoint_roundtrip:
  assumes "valid_host_token (le_host e)" and "le_port e \<noteq> 0"
  shows "parse_listen_endpoint (print_endpoint e) = Inr e"
proof (cases "CHR '':'' \<in> set (le_host e)")
  case True
  let ?v = "CHR ''['' # le_host e @ CHR '']'' # CHR '':'' # nat_digits (unat (le_port e))"
  have "find_char (CHR '']'') ?v = Some (Suc (length (le_host e)))"
    using host_no_bracket [OF assms(1)] by simp
  then have "parse_listen_endpoint ?v = parse_port (le_host e) (nat_digits (unat (le_port e)))"
    by (simp add: parse_listen_endpoint_def nth_append)
  with True show ?thesis by (simp add: print_endpoint_def parse_port_print [OF assms])
next
  case False
  let ?v = "le_host e @ CHR '':'' # nat_digits (unat (le_port e))"
  have "hd ?v \<noteq> CHR ''[''"
    using valid_host_token_nonempty [OF assms(1)] host_no_bracket [OF assms(1)] by (cases "le_host e") auto
  moreover have "find_char (CHR '':'') ?v = Some (length (le_host e))"
    "rfind_char (CHR '':'') ?v = Some (length (le_host e))"
    using False nat_digits_no_colon by simp_all
  ultimately have "parse_listen_endpoint ?v = parse_port (le_host e) (nat_digits (unat (le_port e)))"
    by (simp add: parse_listen_endpoint_def)
  with False show ?thesis by (simp add: print_endpoint_def parse_port_print [OF assms])
qed

theorem endpoint_roundtrip_witness:
  "parse_listen_endpoint (print_endpoint \<lparr>le_host = ''::1'', le_port = 50051\<rparr>)
     = Inr \<lparr>le_host = ''::1'', le_port = 50051\<rparr>"
  by (rule endpoint_roundtrip)
    (simp_all add: valid_host_token_def kMaxHostLength_def hostname_character_def between_def)

lemma parse_port_valid:
  assumes "parse_port host port = Inr e"
  shows "valid_host_token (le_host e) \<and> le_port e \<noteq> 0"
proof -
  obtain v where v: "0 < v" "v \<le> 65535" "e = \<lparr>le_host = host, le_port = of_nat v\<rparr>" "valid_host_token host"
    using assms by (auto simp: parse_port_def split: if_splits option.splits)
  have "unat (of_nat v :: u16) = v"
    using v(2) by (simp add: unat_of_nat)
  then have "(of_nat v :: u16) \<noteq> 0" using v(1) by (metis less_irrefl unat_0)
  with v show ?thesis by simp
qed

text \<open>Whatever text an endpoint was read from, \<open>validate_config\<close> never rejects it afterwards:
  a configuration with a parsed endpoint fails only for its venue, market, symbol or capacity.\<close>

theorem parsed_endpoint_validates:
  assumes "parse_listen_endpoint text = Inr (gc_grpc_listen config)"
    and "validate_config config = Inl err"
  shows "ce_code err \<noteq> InvalidEndpoint"
proof -
  have "valid_host_token (le_host (gc_grpc_listen config)) \<and> le_port (gc_grpc_listen config) \<noteq> 0"
    using assms(1) parse_port_valid by (fastforce simp: parse_listen_endpoint_def split: if_splits option.splits)
  with assms(2) show ?thesis
    by (auto simp: validate_config_def validate_endpoint_def make_config_error_def split: if_splits)
qed

definition example_config :: gateway_config where
  "example_config = \<lparr>gc_venue = Binance, gc_market = Spot, gc_symbol = ''BTC USDT'',
     gc_grpc_listen = \<lparr>le_host = ''127.0.0.1'', le_port = 50051\<rparr>, gc_queue_capacity = 64\<rparr>"

theorem parsed_endpoint_validates_witness:
  "\<exists>err. validate_config example_config = Inl err \<and> ce_code err = InvalidSymbol \<and> ce_code err \<noteq> InvalidEndpoint"
proof -
  have parsed: "parse_listen_endpoint ''127.0.0.1:50051'' = Inr (gc_grpc_listen example_config)"
    by (simp add: parse_listen_endpoint_def parse_port_def example_config_def valid_host_token_def
        kMaxHostLength_def hostname_character_def between_def from_chars_whole_eq is_digit_def
        digits_value_def digit_val_def)
  have bad: "\<not> valid_symbol (gc_symbol example_config)" "gc_venue example_config = Binance"
    "gc_market example_config = Spot"
    by (simp_all add: example_config_def valid_symbol_def valid_symbol_from.simps)
  then obtain err where err: "validate_config example_config = Inl err" "ce_code err = InvalidSymbol"
    by (simp add: validate_config_def make_config_error_def)
  with parsed_endpoint_validates [OF parsed err(1)] show ?thesis by blast
qed

text \<open>The lifecycle seam as a state machine.\<close>

datatype lifecycle_call = CallStart | CallStop

fun call_lifecycle :: "lifecycle_call \<Rightarrow> foundation \<Rightarrow> (lifecycle_error + lifecycle_state) \<times> foundation" where
  "call_lifecycle CallStart f = foundation_start f"
| "call_lifecycle CallStop f = foundation_stop f"

fun lifecycle_run :: "lifecycle_call list \<Rightarrow> foundation \<Rightarrow> lifecycle_state list \<times> foundation" where
  "lifecycle_run [] f = ([], f)"
| "lifecycle_run (c # cs) f =
     (case call_lifecycle c f of
        (Inl _, f') \<Rightarrow> lifecycle_run cs f'
      | (Inr st, f') \<Rightarrow> (case lifecycle_run cs f' of (sts, f'') \<Rightarrow> (st # sts, f'')))"

lemma lifecycle_run_stopped: "fd_state f = LcStopped \<Longrightarrow> lifecycle_run cs f = ([], f)"
proof (induction cs)
  case (Cons c cs)
  then show ?case by (cases c) (simp_all add: foundation_start_def foundation_stop_def)
qed simp

lemma lifecycle_run_running:
  "fd_state f = LcRunning \<Longrightarrow> fst (lifecycle_run cs f) = (if CallStop \<in> set cs then [LcStopped] else [])"
proof (induction cs)
  case (Cons c cs)
  then show ?case
    by (cases c) (simp_all add: foundation_start_def foundation_stop_def lifecycle_run_stopped)
qed simp

text \<open>Whatever sequence of start and stop calls a foundation gets, it goes through at most one
  life, Running then Stopped, in that order and each once; every other call is refused.\<close>

theorem lifecycle_lives_once:
  "fst (lifecycle_run cs (make_foundation config))
     = (case dropWhile (\<lambda>c. c = CallStop) cs of
          [] \<Rightarrow> []
        | _ # rest \<Rightarrow> LcRunning # (if CallStop \<in> set rest then [LcStopped] else []))"
proof (induction cs)
  case (Cons c cs)
  have start: "lifecycle_run (CallStart # cs) (make_foundation config)
      = (let (sts, f) = lifecycle_run cs ((make_foundation config)\<lparr>fd_state := LcRunning\<rparr>) in (LcRunning # sts, f))"
    by (simp add: make_foundation_def foundation_start_def)
  show ?case
  proof (cases c)
    case CallStart
    then show ?thesis
      by (simp add: start case_prod_beta Let_def lifecycle_run_running del: lifecycle_run.simps)
  next
    case CallStop
    with Cons show ?thesis by (simp add: make_foundation_def foundation_stop_def)
  qed
qed (simp add: make_foundation_def)

end
