(* ===== verification/MarketRegistry.thy ===== *)
theory MarketRegistry
  imports CharConv "HOL-Library.Multiset"
begin

text \<open>
  Product identities and the immutable registry of configured products:
  \<open>src/src/g11/market_key.hpp\<close> and \<open>src/src/g11/market_registry.{hpp,cpp}\<close>. A service pointer is
  the address of the object, \<open>None\<close> for null. The canonical order compares the numbers of the
  protobuf enumerators, which are assigned in the Contracts repository: they are the parameter
  \<open>enum_numbers\<close>, whose one property used here is that different enumerators have different
  numbers.
\<close>

section \<open>Keys\<close>

record enum_numbers =
  en_venue :: "wire_venue \<Rightarrow> int"
  en_market :: "wire_market \<Rightarrow> int"

definition distinct_numbers :: "enum_numbers \<Rightarrow> bool" where
  "distinct_numbers en \<longleftrightarrow> inj (en_venue en) \<and> inj (en_market en)"

record market_key =
  mk_venue :: wire_venue
  mk_market :: wire_market
  mk_symbol :: string

definition market_key_less :: "enum_numbers \<Rightarrow> market_key \<Rightarrow> market_key \<Rightarrow> bool" where
  "market_key_less en left right =
     (if mk_venue left \<noteq> mk_venue right
      then en_venue en (mk_venue left) < en_venue en (mk_venue right)
      else if mk_market left \<noteq> mk_market right
      then en_market en (mk_market left) < en_market en (mk_market right)
      else bytes_less (mk_symbol left) (mk_symbol right))"

definition spot_btcusdt_key :: market_key where
  "spot_btcusdt_key = \<lparr>mk_venue = VENUE_BINANCE, mk_market = MARKET_SPOT, mk_symbol = ''BTCUSDT''\<rparr>"

definition usdm_btcusdt_key :: market_key where
  "usdm_btcusdt_key =
     \<lparr>mk_venue = VENUE_BINANCE, mk_market = MARKET_USD_M_PERPETUAL, mk_symbol = ''BTCUSDT''\<rparr>"

section \<open>The registry\<close>

definition kMaximumConfiguredProducts :: nat where
  "kMaximumConfiguredProducts = 8"

record market_services =
  ms_key :: market_key
  ms_runtime :: "nat option"
  ms_recovery :: "nat option"
  ms_event_publication :: "nat option"

text \<open>
  \<open>std::sort\<close> by key. Which of several sorted orders of entries with equal keys it produces is
  left open by the standard; its callers reject all of them.
\<close>

fun insert_keyed :: "enum_numbers \<Rightarrow> ('a \<Rightarrow> market_key) \<Rightarrow> 'a \<Rightarrow> 'a list \<Rightarrow> 'a list" where
  "insert_keyed en key e [] = [e]"
| "insert_keyed en key e (x # xs) =
     (if market_key_less en (key x) (key e) then x # insert_keyed en key e xs else e # x # xs)"

definition sort_keyed :: "enum_numbers \<Rightarrow> ('a \<Rightarrow> market_key) \<Rightarrow> 'a list \<Rightarrow> 'a list" where
  "sort_keyed en key entries = foldr (insert_keyed en key) entries []"

definition sort_services :: "enum_numbers \<Rightarrow> market_services list \<Rightarrow> market_services list" where
  "sort_services en entries = sort_keyed en ms_key entries"

definition services_alias :: "market_services \<Rightarrow> market_services \<Rightarrow> bool" where
  "services_alias a b \<longleftrightarrow> ms_runtime a = ms_runtime b \<or> ms_recovery a = ms_recovery b
     \<or> ms_event_publication a = ms_event_publication b"

text \<open>The loop over the sorted entries; \<open>False\<close> is one of its exceptions.\<close>

fun check_services :: "market_services list \<Rightarrow> market_services list \<Rightarrow> bool" where
  "check_services earlier [] = True"
| "check_services earlier (entry # rest) =
     (if earlier \<noteq> [] \<and> ms_key (last earlier) = ms_key entry then False
      else if ms_runtime entry = None \<or> ms_recovery entry = None \<or> ms_event_publication entry = None
      then False
      else if list_ex (\<lambda>e. services_alias e entry) earlier then False
      else check_services (earlier @ [entry]) rest)"

definition make_registry :: "enum_numbers \<Rightarrow> market_services list \<Rightarrow> market_services list option" where
  "make_registry en entries =
     (if entries = [] \<or> length entries > kMaximumConfiguredProducts then None
      else let sorted = sort_services en entries in
        if check_services [] sorted then Some sorted else None)"

definition registry_find :: "market_services list \<Rightarrow> market_key \<Rightarrow> market_services option" where
  "registry_find entries key = List.find (\<lambda>entry. ms_key entry = key) entries"

section \<open>The order of keys\<close>

lemma market_key_less_irrefl [simp]: "\<not> market_key_less en k k"
  by (simp add: market_key_less_def)

lemma market_key_less_trans:
  "market_key_less en a b \<Longrightarrow> market_key_less en b c \<Longrightarrow> market_key_less en a c"
  using bytes_less_trans [of "mk_symbol a" "mk_symbol b" "mk_symbol c"]
  by (auto simp: market_key_less_def split: if_splits)

lemma market_key_less_total:
  assumes "distinct_numbers en"
  shows "market_key_less en a b \<or> a = b \<or> market_key_less en b a"
  using assms bytes_less_total [of "mk_symbol a" "mk_symbol b"]
  by (auto simp: market_key_less_def distinct_numbers_def inj_eq not_less_iff_gr_or_eq
      intro: market_key.equality)

definition key_le :: "enum_numbers \<Rightarrow> ('a \<Rightarrow> market_key) \<Rightarrow> 'a \<Rightarrow> 'a \<Rightarrow> bool" where
  "key_le en key a b \<longleftrightarrow> \<not> market_key_less en (key b) (key a)"

lemma key_le_trans:
  "distinct_numbers en \<Longrightarrow> key_le en key a b \<Longrightarrow> key_le en key b c \<Longrightarrow> key_le en key a c"
  unfolding key_le_def by (metis market_key_less_total market_key_less_trans)

lemma mset_insert_keyed [simp]: "mset (insert_keyed en key e xs) = add_mset e (mset xs)"
  by (induction xs) auto

lemma set_insert_keyed [simp]: "set (insert_keyed en key e xs) = insert e (set xs)"
  by (induction xs) auto

lemma mset_sort_keyed [simp]: "mset (sort_keyed en key es) = mset es"
  by (induction es) (simp_all add: sort_keyed_def)

lemma set_sort_keyed [simp]: "set (sort_keyed en key es) = set es"
  by (metis mset_sort_keyed set_mset_mset)

lemma length_sort_keyed [simp]: "length (sort_keyed en key es) = length es"
  by (metis mset_sort_keyed size_mset)

lemma sort_services_simps [simp]:
  "mset (sort_services en es) = mset es" "set (sort_services en es) = set es"
  by (simp_all add: sort_services_def)

lemma sorted_insert_keyed:
  assumes "distinct_numbers en" and "sorted_wrt (key_le en key) xs"
  shows "sorted_wrt (key_le en key) (insert_keyed en key e xs)"
  using assms(2)
proof (induction xs)
  case (Cons x xs)
  show ?case
  proof (cases "market_key_less en (key x) (key e)")
    case True
    then have "key_le en key x e" unfolding key_le_def by (metis market_key_less_irrefl market_key_less_trans)
    with Cons True show ?thesis by auto
  next
    case False
    then have "key_le en key e x" by (simp add: key_le_def)
    with Cons.prems False show ?thesis by (auto dest: key_le_trans [OF assms(1)])
  qed
qed simp

lemma sorted_sort_keyed: "distinct_numbers en \<Longrightarrow> sorted_wrt (key_le en key) (sort_keyed en key es)"
  by (induction es) (simp_all add: sort_keyed_def sorted_insert_keyed)

text \<open>Two sorted lists with distinct keys and the same entries are the same list.\<close>

lemma sorted_keys_unique:
  assumes "distinct_numbers en" and "sorted_wrt (key_le en key) xs" and "sorted_wrt (key_le en key) ys"
    and "mset xs = mset ys" and "distinct (map key xs)"
  shows "xs = ys"
  using assms(2-5)
proof (induction xs arbitrary: ys)
  case (Cons x xs)
  then obtain y ys' where ys: "ys = y # ys'" by (cases ys) auto
  have "x = y"
  proof (rule ccontr)
    assume "x \<noteq> y"
    with Cons.prems(3) ys have "y \<in> set xs" "x \<in> set ys'"
      by (metis insert_iff list.set(2) set_mset_mset)+
    with Cons.prems(1,2) ys have "key_le en key x y" "key_le en key y x" by simp_all
    then have "key x = key y" unfolding key_le_def by (metis assms(1) market_key_less_total)
    with \<open>y \<in> set xs\<close> Cons.prems(4) show False by simp
  qed
  with Cons ys show ?case by simp
qed simp

lemma sort_keyed_unique:
  assumes "distinct_numbers en" and "mset xs = mset ys" and "distinct (map key xs)"
  shows "sort_keyed en key xs = sort_keyed en key ys"
proof (rule sorted_keys_unique [OF assms(1) sorted_sort_keyed [OF assms(1)] sorted_sort_keyed [OF assms(1)]])
  show "mset (sort_keyed en key xs) = mset (sort_keyed en key ys)" by (simp add: assms(2))
  show "distinct (map key (sort_keyed en key xs))"
    using assms(3) by (metis mset_eq_imp_distinct_iff mset_map mset_sort_keyed)
qed

section \<open>What the constructor accepts\<close>

definition complete_services :: "market_services \<Rightarrow> bool" where
  "complete_services e \<longleftrightarrow>
     ms_runtime e \<noteq> None \<and> ms_recovery e \<noteq> None \<and> ms_event_publication e \<noteq> None"

lemma check_services_iff:
  assumes "distinct_numbers en" and "sorted_wrt (key_le en ms_key) (earlier @ es)"
    and "distinct (map ms_key earlier)" and "sorted_wrt (\<lambda>a b. \<not> services_alias a b) earlier"
  shows "check_services earlier es \<longleftrightarrow>
     distinct (map ms_key (earlier @ es)) \<and> list_all complete_services es
     \<and> sorted_wrt (\<lambda>a b. \<not> services_alias a b) (earlier @ es)"
  using assms(2-4)
proof (induction es arbitrary: earlier)
  case (Cons e es)
  have fresh: "ms_key e \<notin> ms_key ` set earlier" if "earlier = [] \<or> ms_key (last earlier) \<noteq> ms_key e"
  proof
    assume "ms_key e \<in> ms_key ` set earlier"
    then obtain x where x: "x \<in> set earlier" "ms_key x = ms_key e" by auto
    then obtain init where init: "earlier = init @ [last earlier]" and ne: "earlier \<noteq> []"
      by (metis append_butlast_last_id empty_iff list.set(1))
    have le: "key_le en ms_key (last earlier) e"
      using Cons.prems(1) ne by (simp add: sorted_wrt_append)
    have "x = last earlier \<or> key_le en ms_key x (last earlier)"
      using x(1) Cons.prems(1) by (subst (asm) init, subst (asm) (2) init) (auto simp: sorted_wrt_append)
    with le x(2) that ne show False
      unfolding key_le_def by (metis assms(1) market_key_less_total)
  qed
  show ?case
  proof (cases "earlier \<noteq> [] \<and> ms_key (last earlier) = ms_key e")
    case True
    then have "ms_key e \<in> ms_key ` set earlier" by (metis image_eqI last_in_set)
    with True show ?thesis by simp
  next
    case False
    show ?thesis
    proof (cases "complete_services e \<and> \<not> list_ex (\<lambda>x. services_alias x e) earlier")
      case True
      with False fresh Cons.prems have
        "distinct (map ms_key (earlier @ [e]))"
        "sorted_wrt (\<lambda>a b. \<not> services_alias a b) (earlier @ [e])"
        by (auto simp: sorted_wrt_append list_ex_iff)
      with Cons.IH [of "earlier @ [e]"] Cons.prems(1) True False show ?thesis
        by (auto simp: complete_services_def)
    next
      case bad: False
      with False show ?thesis
        by (auto simp: complete_services_def sorted_wrt_append list_ex_iff)
    qed
  qed
qed simp

definition services_ok :: "market_services list \<Rightarrow> bool" where
  "services_ok es \<longleftrightarrow> es \<noteq> [] \<and> length es \<le> kMaximumConfiguredProducts \<and> list_all complete_services es
     \<and> distinct (map ms_key es) \<and> distinct (map ms_runtime es) \<and> distinct (map ms_recovery es)
     \<and> distinct (map ms_event_publication es)"

lemma no_alias_iff:
  "sorted_wrt (\<lambda>a b. \<not> services_alias a b) es \<longleftrightarrow>
     distinct (map ms_runtime es) \<and> distinct (map ms_recovery es) \<and> distinct (map ms_event_publication es)"
  by (induction es) (auto simp: services_alias_def)

lemma distinct_map_mset: "mset xs = mset ys \<Longrightarrow> distinct (map f xs) = distinct (map f ys)"
  by (metis mset_eq_imp_distinct_iff mset_map)

lemma services_ok_perm:
  assumes "mset xs = mset ys"
  shows "services_ok xs = services_ok ys"
  using mset_eq_setD [OF assms] mset_eq_length [OF assms]
  by (simp add: services_ok_def distinct_map_mset [OF assms] list_all_iff flip: length_greater_0_conv)

lemma make_registry_iff:
  assumes "distinct_numbers en"
  shows "make_registry en es = (if services_ok es then Some (sort_services en es) else None)"
proof -
  let ?s = "sort_services en es"
  have perm: "mset ?s = mset es" by simp
  have "check_services [] ?s \<longleftrightarrow> distinct (map ms_key ?s) \<and> list_all complete_services ?s
      \<and> distinct (map ms_runtime ?s) \<and> distinct (map ms_recovery ?s) \<and> distinct (map ms_event_publication ?s)"
    using check_services_iff [OF assms, of "[]" ?s] sorted_sort_keyed [OF assms, of ms_key es]
    by (simp add: no_alias_iff sort_services_def)
  then show ?thesis
    unfolding make_registry_def services_ok_def
    by (auto simp: Let_def distinct_map_mset [OF perm] list_all_iff)
qed

section \<open>The lookup interface\<close>

text \<open>
  What the router and the status assembler rely on: a lookup of a well-formed table finds
  exactly the entries of the table, at most one per key.
\<close>

locale keyed_table =
  fixes table_ok :: "'t \<Rightarrow> bool" and entries :: "'t \<Rightarrow> 'e list" and key :: "'e \<Rightarrow> 'k"
    and find :: "'t \<Rightarrow> 'k \<Rightarrow> 'e option"
  assumes find_iff: "table_ok t \<Longrightarrow> find t k = Some e \<longleftrightarrow> e \<in> set (entries t) \<and> key e = k"
begin

lemma find_key: "table_ok t \<Longrightarrow> find t k = Some e \<Longrightarrow> key e = k"
  by (simp add: find_iff)

lemma find_own: "table_ok t \<Longrightarrow> e \<in> set (entries t) \<Longrightarrow> find t (key e) = Some e"
  by (simp add: find_iff)

lemma key_inj: "table_ok t \<Longrightarrow> d \<in> set (entries t) \<Longrightarrow> e \<in> set (entries t) \<Longrightarrow> key d = key e \<Longrightarrow> d = e"
  by (metis find_own option.inject)

lemma find_None: "table_ok t \<Longrightarrow> find t k = None \<longleftrightarrow> (\<forall>e \<in> set (entries t). key e \<noteq> k)"
  by (metis find_iff not_None_eq)

end

definition registry_ok :: "market_services list \<Rightarrow> bool" where
  "registry_ok r \<longleftrightarrow> services_ok r"

interpretation registry: keyed_table registry_ok "\<lambda>r. r" ms_key registry_find
proof
  fix r k e assume "registry_ok r"
  then have keys: "distinct (map ms_key r)" by (simp add: registry_ok_def services_ok_def)
  show "registry_find r k = Some e \<longleftrightarrow> e \<in> set r \<and> ms_key e = k"
    unfolding registry_find_def
  proof
    assume "find (\<lambda>e. ms_key e = k) r = Some e"
    then show "e \<in> set r \<and> ms_key e = k" by (auto simp: find_Some_iff)
  next
    assume e: "e \<in> set r \<and> ms_key e = k"
    then obtain d where d: "find (\<lambda>e. ms_key e = k) r = Some d"
      by (metis (mono_tags, lifting) find_None_iff not_None_eq)
    then have "d \<in> set r" "ms_key d = k" by (auto simp: find_Some_iff)
    with e keys have "d = e" by (simp add: distinct_map inj_on_def)
    with d show "find (\<lambda>e. ms_key e = k) r = Some e" by simp
  qed
qed

section \<open>Properties\<close>

text \<open>The registry constructor accepts exactly the entry lists of one to eight products with
  pairwise different keys, complete services, and no service shared between products; it throws
  on every other list, and the registry it builds does not depend on the order of the list.\<close>

theorem registry_accepts_exactly:
  assumes "distinct_numbers en" and "mset es' = mset es"
  shows "(make_registry en es \<noteq> None \<longleftrightarrow> services_ok es) \<and> make_registry en es' = make_registry en es"
proof -
  have ok: "services_ok es' = services_ok es" by (rule services_ok_perm [OF assms(2)])
  have "sort_services en es' = sort_services en es" if "services_ok es"
    using sort_keyed_unique [OF assms(1) assms(2) [symmetric], of ms_key] that
    by (simp add: services_ok_def sort_services_def)
  with ok show ?thesis by (simp add: make_registry_iff [OF assms(1)])
qed

text \<open>A lookup in a constructed registry finds exactly the product configured under that key.\<close>

theorem registry_find_exact:
  assumes "distinct_numbers en" and "make_registry en es = Some r"
  shows "registry_find r k = Some e \<longleftrightarrow> e \<in> set es \<and> ms_key e = k"
proof -
  have r: "r = sort_services en es" and ok: "services_ok es"
    using assms(2) make_registry_iff [OF assms(1), of es] by (simp_all split: if_splits)
  then have "registry_ok r" using services_ok_perm [of r es] by (simp add: registry_ok_def)
  from registry.find_iff [OF this, of k e] show ?thesis by (simp add: r)
qed

text \<open>Two products, listed against the canonical order.\<close>

definition example_numbers :: enum_numbers where
  "example_numbers =
     \<lparr>en_venue = (\<lambda>v. case v of VENUE_UNSPECIFIED \<Rightarrow> 0 | VENUE_BINANCE \<Rightarrow> 1 | VENUE_OTHER n \<Rightarrow> 2 + int n),
      en_market = (\<lambda>m. case m of MARKET_UNSPECIFIED \<Rightarrow> 0 | MARKET_SPOT \<Rightarrow> 1
        | MARKET_USD_M_PERPETUAL \<Rightarrow> 2 | MARKET_OTHER n \<Rightarrow> 3 + int n)\<rparr>"

definition example_usdm :: market_services where
  "example_usdm = \<lparr>ms_key = usdm_btcusdt_key, ms_runtime = Some 4, ms_recovery = Some 5,
     ms_event_publication = Some 6\<rparr>"

definition example_spot :: market_services where
  "example_spot = \<lparr>ms_key = spot_btcusdt_key, ms_runtime = Some 1, ms_recovery = Some 2,
     ms_event_publication = Some 3\<rparr>"

lemma example_numbers_distinct: "distinct_numbers example_numbers"
  by (auto simp: distinct_numbers_def example_numbers_def inj_def split: wire_venue.splits wire_market.splits)

lemmas example_registry_defs = example_usdm_def example_spot_def example_numbers_def make_registry_def
  sort_services_def sort_keyed_def market_key_less_def spot_btcusdt_key_def usdm_btcusdt_key_def services_alias_def
  kMaximumConfiguredProducts_def

theorem registry_accepts_exactly_witness:
  "make_registry example_numbers [example_spot, example_usdm] = make_registry example_numbers [example_usdm, example_spot]
    \<and> make_registry example_numbers [example_usdm, example_spot] = Some [example_spot, example_usdm]
    \<and> make_registry example_numbers [example_spot, example_spot] = None"
  using registry_accepts_exactly [OF example_numbers_distinct, of "[example_spot, example_usdm]" "[example_usdm, example_spot]"]
  by (simp add: example_registry_defs)

theorem registry_find_exact_witness:
  "registry_find [example_spot, example_usdm] usdm_btcusdt_key = Some example_usdm"
proof -
  have "make_registry example_numbers [example_usdm, example_spot] = Some [example_spot, example_usdm]"
    by (simp add: example_registry_defs)
  from registry_find_exact [OF example_numbers_distinct this, of usdm_btcusdt_key example_usdm]
  show ?thesis by (simp add: example_usdm_def)
qed

end
