(* ===== verification/RecoveryPolicy.thy ===== *)
theory RecoveryPolicy
  imports RuntimeTypes CharConv
begin

text \<open>
  The data of the recovery coordinator and its pure policy functions:
  \<open>src/src/g5/recovery_coordinator.hpp\<close>, \<open>src/src/g5/spot_recovery.cpp\<close>,
  \<open>src/src/g6/planned_rotation.hpp\<close>, and the transport observations of
  \<open>src/src/g4/spot_transport.hpp\<close> they read. Durations are numbers of their unit:
  \<open>std::chrono::seconds\<close> is a natural number here (none is ever negative), a planned rotation
  age is an integer number of nanoseconds.
\<close>

section \<open>Transport observations\<close>

datatype network_error_code =
    NeTimeout | NeDns | NeTcp | NeTls | NeWebSocketHandshake | NeWebSocketRead | NeHttpWrite
  | NeHttpRead | NeHttpStatus | NeProtocol | NeRuntimeAdmission | NeServerShutdown | NeInternal

record network_error =
  ne_code :: network_error_code
  ne_stage :: string
  ne_message :: string
  ne_http_status :: "nat option"
  ne_retry_after :: "string option"

datatype transport_start_result = TsStarted | TsAlreadyStarted | TsFailed | TsStopped

datatype transport_profile = DepthOnly | G9CombinedEvents | DepthWithEvents

datatype normalized_event_sink_result = SinkContinue | SinkInvariantFailure

record transport_observation =
  to_started :: bool
  to_running :: bool
  to_stopped :: bool
  to_tls_verified :: bool
  to_websocket_handshake :: bool
  to_rest_depth_fetched :: bool
  to_server_ping_observed :: bool
  to_server_shutdown_observed :: bool
  to_depth_frame_count :: nat
  to_agg_trade_frame_count :: nat
  to_book_ticker_frame_count :: nat
  to_last_event_utc_ns :: "u64 option"
  to_profile :: transport_profile
  to_connection_id :: string
  to_connection_generation :: u64
  to_terminal_error :: "network_error option"

section \<open>Recovery data\<close>

datatype recovery_state =
    RecStarting | RecLive | RecRotating | RecBackoff | RecRecovering | RecExhausted | RecStopping
  | RecStopped

datatype source_generation_close_outcome = CloseReplacement | ClosePermanentFailure | CloseGlobalShutdown

datatype recovery_cause =
    CauseNeedsResync | CauseTransportFailure | CauseSnapshotFailure | CauseIngressOverflow
  | CauseBootstrapBufferOverflow | CauseProtocol | CauseServerShutdown | CauseHttp429 | CauseHttp418
  | CauseHttp5xx | CauseTerminalHttp4xx | CauseInternalFailure

datatype recovery_start_result = RsrStarted | RsrAlreadyStarted | RsrStopped | RsrRuntimeStartFailed

definition kMaximumRecoveryAttempts :: nat where
  "kMaximumRecoveryAttempts = 6"

definition kRecoveryFailureHistoryCapacity :: nat where
  "kRecoveryFailureHistoryCapacity = kMaximumRecoveryAttempts + 1"

record 'g planned_rotation_cut =
  prc_generation :: u64
  prc_transport :: transport_observation
  prc_runtime :: "'g runtime_observation"

record 'g recovery_failure_diagnostic =
  fd_connection_generation :: u64
  fd_cause :: recovery_cause
  fd_network_error :: "network_error option"
  fd_runtime_state :: runtime_state
  fd_projection_status :: projection_status
  fd_last_gap :: "'g option"
  fd_fault_reason :: "fault_reason option"
  fd_adapter_error :: "adapter_error option"

text \<open>The default member values of a diagnostic.\<close>

definition default_diagnostic :: "'g recovery_failure_diagnostic" where
  "default_diagnostic =
     \<lparr>fd_connection_generation = 0, fd_cause = CauseInternalFailure, fd_network_error = None,
      fd_runtime_state = RsConstructed, fd_projection_status = AwaitingBaseline, fd_last_gap = None,
      fd_fault_reason = None, fd_adapter_error = None\<rparr>"

record 'g recovery_observation =
  ro_state :: recovery_state
  ro_connection_generation :: u64
  ro_connection_id :: string
  ro_last_event_utc_ns :: "u64 option"
  ro_consecutive_recovery_attempts :: nat
  ro_total_recovery_count :: u64
  ro_planned_rotation_count :: u64
  ro_last_rotation_generation :: "u64 option"
  ro_last_planned_rotation_cut :: "'g planned_rotation_cut option"
  ro_generation_started_monotonic_ns :: "u64 option"
  ro_last_recovery_cause :: "recovery_cause option"
  ro_last_requested_delay :: nat
  ro_in_backoff :: bool
  ro_terminal :: bool
  ro_exhausted :: bool
  ro_active_transport_count :: nat
  ro_max_active_transport_count :: nat
  ro_terminal_error :: "network_error option"
  ro_failure_history :: "'g recovery_failure_diagnostic list"
  ro_failure_history_size :: nat

definition initial_recovery_observation :: "'g recovery_observation" where
  "initial_recovery_observation =
     \<lparr>ro_state = RecStarting, ro_connection_generation = 0, ro_connection_id = [],
      ro_last_event_utc_ns = None, ro_consecutive_recovery_attempts = 0, ro_total_recovery_count = 0,
      ro_planned_rotation_count = 0, ro_last_rotation_generation = None,
      ro_last_planned_rotation_cut = None, ro_generation_started_monotonic_ns = None,
      ro_last_recovery_cause = None, ro_last_requested_delay = 0, ro_in_backoff = False,
      ro_terminal = False, ro_exhausted = False, ro_active_transport_count = 0,
      ro_max_active_transport_count = 0, ro_terminal_error = None,
      ro_failure_history = replicate kRecoveryFailureHistoryCapacity default_diagnostic,
      ro_failure_history_size = 0\<rparr>"

section \<open>Policy\<close>

record recovery_decision =
  rd_recoverable :: bool
  rd_cause :: recovery_cause
  rd_minimum_delay :: "nat option"

text \<open>\<open>RecoveryDecision{}\<close>.\<close>

definition default_decision :: recovery_decision where
  "default_decision = \<lparr>rd_recoverable = False, rd_cause = CauseInternalFailure, rd_minimum_delay = None\<rparr>"

text \<open>The largest \<open>std::chrono::seconds::rep\<close>, a signed 64-bit count.\<close>

definition seconds_max :: nat where
  "seconds_max = 9223372036854775807"

definition parse_retry_after :: "string option \<Rightarrow> nat option" where
  "parse_retry_after value =
     (case value of
        None \<Rightarrow> None
      | Some text \<Rightarrow>
          if text = [] then None
          else case from_chars_whole 18446744073709551615 text of
            None \<Rightarrow> None
          | Some seconds \<Rightarrow> if seconds > seconds_max then None else Some seconds)"

definition backoff_delays :: "nat list" where
  "backoff_delays = [1, 2, 4, 8, 16, 30]"

text \<open>\<open>None\<close> is \<open>std::out_of_range\<close>.\<close>

definition normal_backoff_delay :: "nat \<Rightarrow> nat option" where
  "normal_backoff_delay recovery_attempt =
     (if recovery_attempt = 0 \<or> recovery_attempt > length backoff_delays then None
      else Some (backoff_delays ! (recovery_attempt - 1)))"

text \<open>
  The two halves of \<open>classify_failure\<close>: what the runtime reports (\<open>Inl\<close>: decided), and how a
  transport error refines it.
\<close>

definition decision :: "recovery_cause \<Rightarrow> recovery_decision" where
  "decision cause = \<lparr>rd_recoverable = True, rd_cause = cause, rd_minimum_delay = None\<rparr>"

definition classify_runtime ::
  "'g runtime_observation \<Rightarrow> transport_observation \<Rightarrow> recovery_decision + recovery_decision" where
  "classify_runtime runtime transport =
     (if ob_state runtime = RsNeedsResync then Inr (decision CauseNeedsResync)
      else if ob_state runtime = RsFaulted \<and> ob_fault_reason runtime \<noteq> None then
        (case the (ob_fault_reason runtime) of
           FrTransportFailure \<Rightarrow> Inr (decision CauseTransportFailure)
         | FrSnapshotFailure \<Rightarrow> Inr (decision CauseSnapshotFailure)
         | FrIngressOverflow \<Rightarrow> Inr (decision CauseIngressOverflow)
         | FrBootstrapBufferOverflow \<Rightarrow> Inr (decision CauseBootstrapBufferOverflow)
         | _ \<Rightarrow> Inl default_decision)
      else if to_terminal_error transport \<noteq> None then Inr (decision CauseTransportFailure)
      else Inl default_decision)"

definition refine_by_transport :: "recovery_decision \<Rightarrow> network_error \<Rightarrow> recovery_decision" where
  "refine_by_transport d err =
     (if ne_code err = NeInternal then default_decision
      else if ne_code err = NeProtocol then d\<lparr>rd_cause := CauseProtocol\<rparr>
      else if ne_code err = NeServerShutdown then d\<lparr>rd_cause := CauseServerShutdown\<rparr>
      else if ne_code err \<noteq> NeHttpStatus then d
      else case ne_http_status err of
        None \<Rightarrow> default_decision
      | Some status \<Rightarrow>
          if status = 429 \<or> status = 418 then
            (case parse_retry_after (ne_retry_after err) of
               None \<Rightarrow> default_decision
             | Some retry_after \<Rightarrow>
                 d\<lparr>rd_recoverable := True,
                   rd_cause := (if status = 429 then CauseHttp429 else CauseHttp418),
                   rd_minimum_delay := Some retry_after\<rparr>)
          else if 500 \<le> status \<and> status \<le> 599 then d\<lparr>rd_recoverable := True, rd_cause := CauseHttp5xx\<rparr>
          else if 400 \<le> status \<and> status \<le> 499
          then d\<lparr>rd_recoverable := False, rd_cause := CauseTerminalHttp4xx\<rparr>
          else default_decision)"

definition classify_failure ::
  "'g runtime_observation \<Rightarrow> transport_observation \<Rightarrow> recovery_decision" where
  "classify_failure runtime transport =
     (case classify_runtime runtime transport of
        Inl d \<Rightarrow> d
      | Inr d \<Rightarrow>
          (case to_terminal_error transport of
             None \<Rightarrow> d
           | Some err \<Rightarrow> refine_by_transport d err))"

definition internal_error :: "string \<Rightarrow> network_error" where
  "internal_error message =
     \<lparr>ne_code = NeInternal, ne_stage = ''g5-recovery'', ne_message = message, ne_http_status = None,
      ne_retry_after = None\<rparr>"

definition is_clean_planned_cut :: "'g runtime_observation \<Rightarrow> transport_observation \<Rightarrow> bool" where
  "is_clean_planned_cut runtime transport \<longleftrightarrow>
     to_stopped transport \<and> \<not> to_running transport \<and> to_terminal_error transport = None
     \<and> ob_state runtime = RsLive \<and> ob_projection_status runtime = Synchronized
     \<and> ob_fault_reason runtime = None"

text \<open>\<open>planned_rotation_deadline\<close> for a configured age; \<open>None\<close> is the overflow exception.\<close>

definition planned_rotation_deadline :: "int \<Rightarrow> u64 \<Rightarrow> u64 option" where
  "planned_rotation_deadline age generation_started =
     (let unsigned_age = (of_int age :: u64) in
      if generation_started > u64_max - unsigned_age then None
      else Some (generation_started + unsigned_age))"

text \<open>\<open>g6::production_policy\<close>: 23 hours and 50 minutes, in nanoseconds.\<close>

definition production_policy :: int where
  "production_policy = (23 * 60 + 50) * 60 * 1000000000"

section \<open>The failure history\<close>

text \<open>
  The array of the last failures: once full, every entry moves down by one.
\<close>

definition shift_history :: "nat \<Rightarrow> 'a list \<Rightarrow> 'a list" where
  "shift_history used history = foldl (\<lambda>h index. h[index - 1 := h ! index]) history [1..<used]"

definition failure_diagnostic ::
  "u64 \<Rightarrow> recovery_cause \<Rightarrow> transport_observation \<Rightarrow> 'g runtime_observation
     \<Rightarrow> 'g recovery_failure_diagnostic" where
  "failure_diagnostic generation cause transport runtime =
     \<lparr>fd_connection_generation = generation, fd_cause = cause,
     fd_network_error = to_terminal_error transport, fd_runtime_state = ob_state runtime,
     fd_projection_status = ob_projection_status runtime, fd_last_gap = ob_last_gap runtime,
     fd_fault_reason = ob_fault_reason runtime, fd_adapter_error = ob_adapter_error runtime\<rparr>"

definition record_failure ::
  "u64 \<Rightarrow> recovery_cause \<Rightarrow> transport_observation \<Rightarrow> 'g runtime_observation
     \<Rightarrow> 'g recovery_observation \<Rightarrow> 'g recovery_observation" where
  "record_failure generation cause transport runtime ob =
     (let diagnostic = failure_diagnostic generation cause transport runtime;
          used = ro_failure_history_size ob;
          history = ro_failure_history ob
      in if used = length history
         then ob\<lparr>ro_failure_history := (shift_history used history)[used - 1 := diagnostic]\<rparr>
         else ob\<lparr>ro_failure_history := history[used := diagnostic],
                 ro_failure_history_size := used + 1\<rparr>)"

text \<open>The failures on record, oldest first.\<close>

definition failures :: "'g recovery_observation \<Rightarrow> 'g recovery_failure_diagnostic list" where
  "failures ob = take (ro_failure_history_size ob) (ro_failure_history ob)"

definition history_ok :: "'g recovery_observation \<Rightarrow> bool" where
  "history_ok ob \<longleftrightarrow> length (ro_failure_history ob) = kRecoveryFailureHistoryCapacity
     \<and> ro_failure_history_size ob \<le> kRecoveryFailureHistoryCapacity"

lemma shift_history_prefix:
  "n < length h \<Longrightarrow> shift_history (Suc n) h = take n (tl h) @ drop n h"
proof (induction n)
  case 0
  then show ?case by (simp add: shift_history_def)
next
  case (Suc n)
  then have len: "n < length h" by simp
  have "shift_history (Suc (Suc n)) h = (shift_history (Suc n) h)[n := shift_history (Suc n) h ! Suc n]"
    by (simp add: shift_history_def)
  also have "\<dots> = (take n (tl h) @ drop n h)[n := h ! Suc n]"
    using Suc.IH [OF len] Suc.prems by (simp add: nth_append)
  also have "\<dots> = take n (tl h) @ (drop n h)[0 := h ! Suc n]"
    using len by (simp add: list_update_append)
  also have "(drop n h)[0 := h ! Suc n] = h ! Suc n # drop (Suc n) h"
    using len by (simp flip: Cons_nth_drop_Suc)
  also have "take n (tl h) @ h ! Suc n # drop (Suc n) h = take (Suc n) (tl h) @ drop (Suc n) h"
    using Suc.prems by (simp add: take_Suc_conv_app_nth nth_tl)
  finally show ?case .
qed

lemma shift_history_full:
  assumes "h \<noteq> []"
  shows "(shift_history (length h) h)[length h - 1 := x] = tl h @ [x]"
proof -
  obtain n where n: "length h = Suc n" using assms by (cases "length h") auto
  then have "shift_history (length h) h = take n (tl h) @ drop n h"
    using shift_history_prefix [of n h] by simp
  also have "take n (tl h) = tl h" using n by simp
  also have "drop n h = [last h]" using n assms by (metis Suc_eq_plus1 append_eq_conv_conj
        append_butlast_last_id diff_Suc_1 length_butlast)
  finally show ?thesis using n by (simp add: list_update_append)
qed

text \<open>
  Recording a failure is appending it to the failures on record and keeping the most recent
  seven of them.
\<close>

lemma record_failure_failures:
  assumes "history_ok ob"
  shows "history_ok (record_failure generation cause transport runtime ob)
    \<and> failures (record_failure generation cause transport runtime ob)
        = drop (Suc (length (failures ob)) - kRecoveryFailureHistoryCapacity) (failures ob @ [failure_diagnostic generation cause transport runtime])"
proof -
  let ?d = "failure_diagnostic generation cause transport runtime"
  have len: "length (ro_failure_history ob) = 7" and size: "ro_failure_history_size ob \<le> 7"
    using assms(1) by (simp_all add: history_ok_def kRecoveryFailureHistoryCapacity_def
        kMaximumRecoveryAttempts_def)
  show ?thesis
  proof (cases "ro_failure_history_size ob = 7")
    case True
    have "(shift_history 7 (ro_failure_history ob))[6 := ?d] = tl (ro_failure_history ob) @ [?d]"
      using shift_history_full [of "ro_failure_history ob" ?d] len by (cases "ro_failure_history ob") simp_all
    with True len show ?thesis
      by (simp add: record_failure_def failures_def history_ok_def Let_def
          kRecoveryFailureHistoryCapacity_def kMaximumRecoveryAttempts_def drop_Suc)
  next
    case False
    with size len show ?thesis
      by (simp add: record_failure_def failures_def history_ok_def Let_def
          kRecoveryFailureHistoryCapacity_def kMaximumRecoveryAttempts_def take_Suc_conv_app_nth
          min_def)
  qed
qed

section \<open>Facts about the policy\<close>

lemma parse_retry_after_bound: "parse_retry_after v = Some d \<Longrightarrow> d \<le> seconds_max"
  by (auto simp: parse_retry_after_def split: option.splits if_splits)

lemma normal_backoff_delay_Some:
  assumes "0 < n" and "n \<le> kMaximumRecoveryAttempts"
  obtains d where "normal_backoff_delay n = Some d" and "1 \<le> d" and "d \<le> 30"
proof -
  have "n \<in> {1, 2, 3, 4, 5, 6}" using assms by (auto simp: kMaximumRecoveryAttempts_def)
  then show thesis using that by (auto simp: normal_backoff_delay_def backoff_delays_def)
qed

lemma deadline_exact:
  assumes "planned_rotation_deadline age s = Some d" and "0 < age" and "age < 2 ^ 63"
  shows "uint d = uint s + age"
proof -
  have age: "uint (of_int age :: u64) = age"
    using assms(2,3) by (simp add: uint_word_of_int)
  have le: "s \<le> u64_max - of_int age" and d: "d = s + of_int age"
    using assms(1) by (auto simp: planned_rotation_deadline_def Let_def not_less split: if_splits)
  have "of_int age \<le> u64_max" by (simp add: u64_max_eq)
  then have "uint (u64_max - of_int age) = uint u64_max - age"
    using age by (simp add: uint_sub_if' word_le_def)
  moreover have "uint u64_max = 18446744073709551615" by (simp add: u64_max_def)
  ultimately have "uint s + age \<le> 18446744073709551615" using le by (simp add: word_le_def)
  then show ?thesis using d age by (simp add: uint_plus_if')
qed

end
