(* ===== verification/RecoveryCoordinator.thy ===== *)
theory RecoveryCoordinator
  imports RecoveryPolicy
begin

text \<open>
  The recovery coordinator, \<open>RecoveryCoordinator::Impl\<close> of \<open>src/src/g5/spot_recovery.cpp\<close>: the
  coordinator thread's loop as a machine with one phase per point of the loop where the thread
  looks at the shutdown flag or waits, and the operations of the other threads.

  What the thread gets from outside during a step is the argument \<open>w\<close> of the step: the attempt
  (transport) it drives, the runtime it waits for, the clock, and the waiters. A member of \<open>w\<close> is
  only read where the code makes that call. The source generation callbacks are a record of
  functions on the state \<open>'h\<close> of their owner, which is part of the state, so that they can be
  the operations of the event hub. The stop token of the thread is only ever requested after
  \<open>shutdown_requested_\<close> was set, so a test of either flag or of both is a test of the flag. An
  exception is the message it carries; \<open>None\<close> stands for none. The test hooks are left out.
\<close>

section \<open>State\<close>

record 'h source_lifecycle =
  sl_open :: "u64 \<Rightarrow> 'h \<Rightarrow> bool \<times> 'h"
  sl_quiesce :: "u64 \<Rightarrow> 'h \<Rightarrow> bool \<times> 'h"
  sl_close :: "u64 \<Rightarrow> source_generation_close_outcome \<Rightarrow> 'h \<Rightarrow> bool \<times> 'h"

record 'g coordinator_world =
  cw_factory :: "string + transport_observation option"
  cw_clock :: "string + clock_sample"
  cw_attempt_start :: transport_start_result
  cw_attempt_running :: transport_observation
  cw_attempt_stopped :: transport_observation
  cw_wait_live :: "'g runtime_observation option"
  cw_wait_recovery :: bool
  cw_wait_rotation :: timed_recovery_wait_result
  cw_observe :: "'g runtime_observation option"
  cw_observe_again :: "'g runtime_observation option"
  cw_submit_failure :: admission_result
  cw_planned_reset :: planned_rebootstrap_reset_result
  cw_reset :: rebootstrap_reset_result
  cw_backoff :: bool

text \<open>
  The phases carry the local variables of the loop that are still needed: the attempt, the start
  and the deadline of a planned rotation, whether it is due, and the observations of the cut.
\<close>

type_synonym rotation = "(u64 \<times> u64) option"

datatype 'g coordinator_phase =
    PhAbsent
  | PhTop
  | PhCreated nat
  | PhStarted nat rotation transport_start_result
  | PhAwaitLive nat rotation
  | PhLive nat rotation
  | PhRotate nat
  | PhQuiesce nat bool
  | PhBarrier bool transport_observation
  | PhPlannedReset transport_observation "'g runtime_observation"
  | PhClassify transport_observation "'g runtime_observation"
  | PhCommit recovery_decision transport_observation
  | PhBackoff
  | PhRecover
  | PhReset
  | PhEnded

record ('g, 'h) coordinator =
  rc_planned_rotation :: "int option"
  rc_source_generation_open :: "u64 option"
  rc_source_generation_quiesced :: bool
  rc_observation :: "'g recovery_observation"
  rc_started :: bool
  rc_stopped :: bool
  rc_shutdown_requested :: bool
  rc_active_attempt :: "nat option"
  rc_attempts :: nat
  rc_generation :: u64
  rc_phase :: "'g coordinator_phase"
  rc_hub :: 'h

abbreviation observe_with ::
  "('g recovery_observation \<Rightarrow> 'g recovery_observation) \<Rightarrow> ('g, 'h) coordinator \<Rightarrow> ('g, 'h) coordinator"
where
  "observe_with f st \<equiv> rc_observation_update f st"

abbreviation rc_state :: "('g, 'h) coordinator \<Rightarrow> recovery_state" where
  "rc_state st \<equiv> ro_state (rc_observation st)"

text \<open>
  The constructor; \<open>None\<close> is one of its exceptions. \<open>callbacks\<close> tells which of the three
  lifecycle callbacks are set, \<open>has_factory\<close> whether an attempt factory was configured.
\<close>

definition make_coordinator ::
  "bool \<Rightarrow> int option \<Rightarrow> bool \<times> bool \<times> bool \<Rightarrow> bool \<Rightarrow> 'h \<Rightarrow> ('g, 'h) coordinator option" where
  "make_coordinator has_clock planned_rotation callbacks has_factory hub =
     (if \<not> has_clock then None
      else if (case planned_rotation of None \<Rightarrow> False | Some age \<Rightarrow> age \<le> 0) then None
      else if \<not> (callbacks = (True, True, True) \<or> callbacks = (False, False, False)) then None
      else if \<not> has_factory then None
      else Some
        \<lparr>rc_planned_rotation = planned_rotation, rc_source_generation_open = None,
         rc_source_generation_quiesced = False, rc_observation = initial_recovery_observation,
         rc_started = False, rc_stopped = False, rc_shutdown_requested = False,
         rc_active_attempt = None, rc_attempts = 0, rc_generation = 1, rc_phase = PhAbsent,
         rc_hub = hub\<rparr>)"

section \<open>Pieces of the loop\<close>

definition persist_last_event :: "transport_observation \<Rightarrow> ('g, 'h) coordinator \<Rightarrow> ('g, 'h) coordinator" where
  "persist_last_event transport st =
     (if to_last_event_utc_ns transport = None then st
      else observe_with (\<lambda>ob. ob\<lparr>ro_last_event_utc_ns := to_last_event_utc_ns transport\<rparr>) st)"

definition set_terminal ::
  "recovery_cause \<Rightarrow> network_error \<Rightarrow> bool \<Rightarrow> ('g, 'h) coordinator \<Rightarrow> ('g, 'h) coordinator" where
  "set_terminal cause err exhausted st =
     (if rc_shutdown_requested st then st
      else observe_with (\<lambda>ob. ob
        \<lparr>ro_last_recovery_cause := Some cause, ro_state := RecExhausted, ro_terminal := True,
         ro_exhausted := exhausted, ro_in_backoff := False, ro_terminal_error := Some err\<rparr>) st)"

text \<open>\<open>attempt->stop()\<close>, then the observation of the stopped attempt and the quiescence of its
  source generation. \<open>lc\<close> are the callbacks, if configured.\<close>

definition quiesce_attempt ::
  "'h source_lifecycle option \<Rightarrow> nat \<Rightarrow> transport_observation \<Rightarrow> ('g, 'h) coordinator
     \<Rightarrow> string option \<times> ('g, 'h) coordinator" where
  "quiesce_attempt lc attempt transport st =
     (let st1 = persist_last_event transport st;
          finish = (\<lambda>s. observe_with (\<lambda>ob. ob
             \<lparr>ro_active_transport_count := 0,
              ro_connection_generation := to_connection_generation transport,
              ro_connection_id := to_connection_id transport\<rparr>)
            (if rc_active_attempt s = Some attempt then s\<lparr>rc_active_attempt := None\<rparr> else s))
      in if rc_source_generation_open st1 = Some (to_connection_generation transport)
            \<and> \<not> rc_source_generation_quiesced st1
         then case lc of
             None \<Rightarrow> (Some ''bad_function_call'', st1)
           | Some callbacks \<Rightarrow>
               (case sl_quiesce callbacks (to_connection_generation transport) (rc_hub st1) of
                  (ok, hub) \<Rightarrow>
                    let st2 = st1\<lparr>rc_hub := hub\<rparr> in
                    if \<not> ok then (Some ''G9 source generation quiesce invariant failed'', st2)
                    else (None, finish (st2\<lparr>rc_source_generation_quiesced := True\<rparr>)))
         else (None, finish st1))"

definition open_source_generation ::
  "'h source_lifecycle option \<Rightarrow> transport_observation \<Rightarrow> u64 \<Rightarrow> ('g, 'h) coordinator
     \<Rightarrow> string option \<times> ('g, 'h) coordinator" where
  "open_source_generation lc transport expected st =
     (case lc of
        None \<Rightarrow> (None, st)
      | Some callbacks \<Rightarrow>
          if rc_source_generation_open st \<noteq> None \<or> rc_source_generation_quiesced st
             \<or> \<not> to_started transport \<or> \<not> to_running transport \<or> to_stopped transport
             \<or> \<not> to_websocket_handshake transport \<or> to_connection_generation transport \<noteq> expected
          then (Some ''G9 source generation open invariant failed'', st)
          else case sl_open callbacks expected (rc_hub st) of
            (ok, hub) \<Rightarrow>
              let st1 = st\<lparr>rc_hub := hub\<rparr> in
              if \<not> ok then (Some ''G9 source generation open invariant failed'', st1)
              else (None, st1\<lparr>rc_source_generation_open := Some expected\<rparr>))"

definition close_source_generation ::
  "'h source_lifecycle option \<Rightarrow> source_generation_close_outcome \<Rightarrow> ('g, 'h) coordinator
     \<Rightarrow> string option \<times> ('g, 'h) coordinator" where
  "close_source_generation lc outcome st =
     (case (lc, rc_source_generation_open st) of
        (Some callbacks, Some generation) \<Rightarrow>
          if \<not> rc_source_generation_quiesced st
          then (Some ''G9 source generation close invariant failed'', st)
          else (case sl_close callbacks generation outcome (rc_hub st) of
            (ok, hub) \<Rightarrow>
              let st1 = st\<lparr>rc_hub := hub\<rparr> in
              if \<not> ok then (Some ''G9 source generation close invariant failed'', st1)
              else (None, st1\<lparr>rc_source_generation_open := None, rc_source_generation_quiesced := False\<rparr>))
      | _ \<Rightarrow> (None, st))"

definition close_source_after_exception ::
  "'h source_lifecycle option \<Rightarrow> transport_observation \<Rightarrow> ('g, 'h) coordinator \<Rightarrow> ('g, 'h) coordinator" where
  "close_source_after_exception lc stopped st =
     (if rc_source_generation_open st = None then st
      else case (if \<not> rc_source_generation_quiesced st
                 then (case rc_active_attempt st of
                         Some attempt \<Rightarrow> quiesce_attempt lc attempt stopped st
                       | None \<Rightarrow> (None, st))
                 else (None, st)) of
        (Some _, st1) \<Rightarrow> st1
      | (None, st1) \<Rightarrow> snd (close_source_generation lc ClosePermanentFailure st1))"

text \<open>The two exception handlers that end the loop.\<close>

definition coordinator_exception ::
  "'h source_lifecycle option \<Rightarrow> 'g coordinator_world \<Rightarrow> string \<Rightarrow> ('g, 'h) coordinator
     \<Rightarrow> ('g, 'h) coordinator" where
  "coordinator_exception lc w message st =
     (set_terminal CauseInternalFailure (internal_error message) False
        (close_source_after_exception lc (cw_attempt_stopped w) st))\<lparr>rc_phase := PhEnded\<rparr>"

text \<open>Go on with the state of a call that returned, or into the handler.\<close>

definition attempt_then ::
  "'h source_lifecycle option \<Rightarrow> 'g coordinator_world \<Rightarrow> string option \<times> ('g, 'h) coordinator
     \<Rightarrow> (('g, 'h) coordinator \<Rightarrow> ('g, 'h) coordinator) \<Rightarrow> ('g, 'h) coordinator" where
  "attempt_then lc w r k =
     (case r of (None, st) \<Rightarrow> k st | (Some message, st) \<Rightarrow> coordinator_exception lc w message st)"

definition leave_loop :: "('g, 'h) coordinator \<Rightarrow> ('g, 'h) coordinator" where
  "leave_loop st = st\<lparr>rc_phase := PhEnded\<rparr>"

text \<open>The cleanup before a \<open>break\<close>: quiesce the attempt, close its generation with an outcome.\<close>

definition abandon_attempt ::
  "'h source_lifecycle option \<Rightarrow> 'g coordinator_world \<Rightarrow> nat \<Rightarrow> ('g, 'h) coordinator
     \<Rightarrow> ('g, 'h) coordinator" where
  "abandon_attempt lc w attempt st =
     attempt_then lc w (quiesce_attempt lc attempt (cw_attempt_stopped w) st) (\<lambda>st1.
       attempt_then lc w (close_source_generation lc CloseGlobalShutdown st1) leave_loop)"

definition close_and_leave ::
  "'h source_lifecycle option \<Rightarrow> 'g coordinator_world \<Rightarrow> ('g, 'h) coordinator \<Rightarrow> ('g, 'h) coordinator" where
  "close_and_leave lc w st = attempt_then lc w (close_source_generation lc CloseGlobalShutdown st) leave_loop"

definition create_attempt ::
  "transport_observation \<Rightarrow> ('g, 'h) coordinator \<Rightarrow> ('g, 'h) coordinator" where
  "create_attempt transport st =
     observe_with (\<lambda>ob. ob
       \<lparr>ro_connection_generation := rc_generation st,
        ro_connection_id := to_connection_id transport,
        ro_active_transport_count := 1,
        ro_max_active_transport_count := max (ro_max_active_transport_count ob) 1\<rparr>)
     (st\<lparr>rc_active_attempt := Some (rc_attempts st), rc_attempts := rc_attempts st + 1\<rparr>)"

definition try_mark_live ::
  "'g runtime_observation \<Rightarrow> transport_observation \<Rightarrow> ('g, 'h) coordinator \<Rightarrow> bool \<times> ('g, 'h) coordinator" where
  "try_mark_live runtime transport st =
     (if ob_state runtime \<noteq> RsLive \<or> ob_projection_status runtime \<noteq> Synchronized
         \<or> ob_fault_reason runtime \<noteq> None \<or> \<not> to_running transport \<or> to_stopped transport
         \<or> to_terminal_error transport \<noteq> None \<or> \<not> to_websocket_handshake transport
         \<or> \<not> to_rest_depth_fetched transport \<or> to_connection_generation transport \<noteq> rc_generation st
      then (False, st)
      else if rc_stopped st \<or> rc_shutdown_requested st \<or> ro_terminal (rc_observation st)
              \<or> rc_state st = RecStopping
      then (False, st)
      else (True, observe_with (\<lambda>ob. ob
             \<lparr>ro_state := RecLive,
              ro_connection_generation := to_connection_generation transport,
              ro_connection_id := to_connection_id transport,
              ro_consecutive_recovery_attempts := 0, ro_in_backoff := False,
              ro_terminal_error := None\<rparr>) st))"

text \<open>\<open>wait_for_rotation_or_recovery\<close>: its exception, or its result.\<close>

definition wait_for_rotation_or_recovery ::
  "'g coordinator_world \<Rightarrow> u64 \<Rightarrow> u64 \<Rightarrow> string + timed_recovery_wait_result" where
  "wait_for_rotation_or_recovery w generation_started deadline =
     (case cw_clock w of
        Inl message \<Rightarrow> Inl message
      | Inr sample \<Rightarrow>
          let now = cs_monotonic_ns sample in
          if now < generation_started then Inl ''G6 monotonic clock moved backwards''
          else if now \<ge> deadline then Inr TwDeadlineReached
          else Inr (cw_wait_rotation w))"

definition commit_planned_rotation ::
  "transport_observation \<Rightarrow> 'g runtime_observation \<Rightarrow> ('g, 'h) coordinator \<Rightarrow> ('g, 'h) coordinator" where
  "commit_planned_rotation transport runtime st =
     observe_with (\<lambda>ob. ob
       \<lparr>ro_last_rotation_generation := Some (rc_generation st),
        ro_last_planned_rotation_cut := Some \<lparr>prc_generation = rc_generation st,
           prc_transport = transport, prc_runtime = runtime\<rparr>,
        ro_planned_rotation_count := ro_planned_rotation_count ob + 1,
        ro_state := RecStarting\<rparr>)
     (st\<lparr>rc_generation := rc_generation st + 1\<rparr>)"

definition exhaust ::
  "recovery_decision \<Rightarrow> transport_observation \<Rightarrow> ('g, 'h) coordinator \<Rightarrow> ('g, 'h) coordinator" where
  "exhaust d transport st =
     observe_with (\<lambda>ob. ob
       \<lparr>ro_last_recovery_cause := Some (rd_cause d), ro_state := RecExhausted, ro_terminal := True,
        ro_exhausted := True, ro_in_backoff := False,
        ro_terminal_error := to_terminal_error transport\<rparr>) st"

text \<open>The next attempt's number and delay; \<open>None\<close> is the exception of \<open>normal_backoff_delay\<close>.\<close>

definition begin_backoff ::
  "recovery_decision \<Rightarrow> ('g, 'h) coordinator \<Rightarrow> string option \<times> ('g, 'h) coordinator" where
  "begin_backoff d st =
     (let recovery_attempt = ro_consecutive_recovery_attempts (rc_observation st) + 1;
          st1 = observe_with (\<lambda>ob. ob
            \<lparr>ro_consecutive_recovery_attempts := recovery_attempt,
             ro_last_recovery_cause := Some (rd_cause d)\<rparr>) st
      in case normal_backoff_delay recovery_attempt of
           None \<Rightarrow> (Some ''G5 recovery attempt is outside bounded policy'', st1)
         | Some delay \<Rightarrow>
             (None, observe_with (\<lambda>ob. ob
                \<lparr>ro_last_requested_delay :=
                   (case rd_minimum_delay d of None \<Rightarrow> delay | Some m \<Rightarrow> max delay m),
                 ro_state := RecBackoff, ro_in_backoff := True\<rparr>) st1))"

section \<open>The coordinator thread\<close>

text \<open>\<open>coordinator_step\<close>: from one look at the shutdown flag to the next; \<open>None\<close> when there is no
  thread or it has left its loop.\<close>

abbreviation go :: "'g coordinator_phase \<Rightarrow> ('g, 'h) coordinator \<Rightarrow> ('g, 'h) coordinator" where
  "go ph st \<equiv> st\<lparr>rc_phase := ph\<rparr>"

definition step_top ::
  "'h source_lifecycle option \<Rightarrow> 'g coordinator_world \<Rightarrow> ('g, 'h) coordinator \<Rightarrow> ('g, 'h) coordinator" where
  "step_top lc w st =
     (if rc_shutdown_requested st then leave_loop st
      else case cw_factory w of
        Inl message \<Rightarrow> coordinator_exception lc w message st
      | Inr None \<Rightarrow>
          leave_loop (set_terminal CauseInternalFailure
            (internal_error ''attempt factory returned null'') False st)
      | Inr (Some transport) \<Rightarrow> go (PhCreated (rc_attempts st)) (create_attempt transport st))"

definition step_created ::
  "'h source_lifecycle option \<Rightarrow> 'g coordinator_world \<Rightarrow> nat \<Rightarrow> ('g, 'h) coordinator \<Rightarrow> ('g, 'h) coordinator" where
  "step_created lc w attempt st =
     (if rc_shutdown_requested st then abandon_attempt lc w attempt st
      else
        let quiesce_and_throw = (\<lambda>message.
              attempt_then lc w (quiesce_attempt lc attempt (cw_attempt_stopped w) st)
                (coordinator_exception lc w message));
            proceed = (\<lambda>rotation. go (PhStarted attempt rotation (cw_attempt_start w))
              (observe_with (\<lambda>ob. ob
                 \<lparr>ro_generation_started_monotonic_ns := map_option fst rotation\<rparr>) st))
        in case rc_planned_rotation st of
             None \<Rightarrow> proceed None
           | Some age \<Rightarrow>
               (case cw_clock w of
                  Inl message \<Rightarrow> quiesce_and_throw message
                | Inr sample \<Rightarrow>
                    (case planned_rotation_deadline age (cs_monotonic_ns sample) of
                       None \<Rightarrow> quiesce_and_throw ''G6 planned rotation deadline overflow''
                     | Some deadline \<Rightarrow> proceed (Some (cs_monotonic_ns sample, deadline)))))"

definition step_started ::
  "'h source_lifecycle option \<Rightarrow> 'g coordinator_world \<Rightarrow> nat \<Rightarrow> rotation \<Rightarrow> transport_start_result
     \<Rightarrow> ('g, 'h) coordinator \<Rightarrow> ('g, 'h) coordinator" where
  "step_started lc w attempt rotation result st =
     (if rc_shutdown_requested st then abandon_attempt lc w attempt st
      else if result = TsStarted then
        attempt_then lc w (open_source_generation lc (cw_attempt_running w) (rc_generation st) st)
          (go (PhAwaitLive attempt rotation))
      else go (PhQuiesce attempt False) st)"

text \<open>The token only ends the wait when shutdown was requested.\<close>

definition step_await_live ::
  "'h source_lifecycle option \<Rightarrow> 'g coordinator_world \<Rightarrow> nat \<Rightarrow> rotation
     \<Rightarrow> ('g, 'h) coordinator \<Rightarrow> ('g, 'h) coordinator" where
  "step_await_live lc w attempt rotation st =
     (case cw_wait_live w of
        None \<Rightarrow> abandon_attempt lc w attempt st
      | Some runtime \<Rightarrow>
          if ob_state runtime = RsLive then
            (case cw_observe w of
               None \<Rightarrow> coordinator_exception lc w ''runtime owner observation deadline exceeded'' st
             | Some qualified \<Rightarrow>
                 (case try_mark_live qualified (cw_attempt_running w) st of
                    (True, st1) \<Rightarrow> go (PhLive attempt rotation) st1
                  | (False, st1) \<Rightarrow> go (PhQuiesce attempt False) st1))
          else go (PhQuiesce attempt False) st)"

definition step_live ::
  "'h source_lifecycle option \<Rightarrow> 'g coordinator_world \<Rightarrow> nat \<Rightarrow> rotation
     \<Rightarrow> ('g, 'h) coordinator \<Rightarrow> ('g, 'h) coordinator" where
  "step_live lc w attempt rotation st =
     (case rotation of
        None \<Rightarrow>
          if cw_wait_recovery w then go (PhQuiesce attempt False) st else abandon_attempt lc w attempt st
      | Some (generation_started, deadline) \<Rightarrow>
          (case wait_for_rotation_or_recovery w generation_started deadline of
             Inl message \<Rightarrow>
               attempt_then lc w (quiesce_attempt lc attempt (cw_attempt_stopped w) st) (\<lambda>st1.
                 attempt_then lc w (close_source_generation lc ClosePermanentFailure st1)
                   (coordinator_exception lc w message))
           | Inr TwStopped \<Rightarrow> abandon_attempt lc w attempt st
           | Inr TwDeadlineReached \<Rightarrow> go (PhRotate attempt) st
           | Inr TwRecoveryRequired \<Rightarrow> go (PhQuiesce attempt False) st))"

definition step_rotate ::
  "'h source_lifecycle option \<Rightarrow> 'g coordinator_world \<Rightarrow> nat \<Rightarrow> ('g, 'h) coordinator \<Rightarrow> ('g, 'h) coordinator" where
  "step_rotate lc w attempt st =
     (if rc_shutdown_requested st then abandon_attempt lc w attempt st
      else go (PhQuiesce attempt True) (observe_with (\<lambda>ob. ob\<lparr>ro_state := RecRotating\<rparr>) st))"

definition step_quiesce ::
  "'h source_lifecycle option \<Rightarrow> 'g coordinator_world \<Rightarrow> nat \<Rightarrow> bool \<Rightarrow> ('g, 'h) coordinator
     \<Rightarrow> ('g, 'h) coordinator" where
  "step_quiesce lc w attempt due st =
     attempt_then lc w (quiesce_attempt lc attempt (cw_attempt_stopped w) st)
       (go (PhBarrier due (cw_attempt_stopped w)))"

text \<open>The owner barrier after the transport has stopped, and the fault it may have to reflect.\<close>

definition step_barrier ::
  "'h source_lifecycle option \<Rightarrow> 'g coordinator_world \<Rightarrow> bool \<Rightarrow> transport_observation
     \<Rightarrow> ('g, 'h) coordinator \<Rightarrow> ('g, 'h) coordinator" where
  "step_barrier lc w due transport st =
     (if rc_shutdown_requested st then close_and_leave lc w st
      else
        let timeout = coordinator_exception lc w ''runtime owner observation deadline exceeded'' st;
            decide = (\<lambda>runtime. if due \<and> is_clean_planned_cut runtime transport
                               then go (PhPlannedReset transport runtime) st
                               else go (PhClassify transport runtime) st)
        in case cw_observe w of
             None \<Rightarrow> timeout
           | Some runtime \<Rightarrow>
               if to_terminal_error transport \<noteq> None \<and> ob_state runtime = RsLive
                  \<and> ob_fault_reason runtime = None
               then if cw_submit_failure w \<noteq> AdAccepted then
                      attempt_then lc w (close_source_generation lc ClosePermanentFailure st) (\<lambda>st1.
                        leave_loop (set_terminal CauseInternalFailure
                          (internal_error ''terminal transport fault admission failed'') False st1))
                    else (case cw_observe_again w of None \<Rightarrow> timeout | Some again \<Rightarrow> decide again)
               else decide runtime)"

definition step_planned_reset ::
  "'h source_lifecycle option \<Rightarrow> 'g coordinator_world \<Rightarrow> transport_observation
     \<Rightarrow> 'g runtime_observation \<Rightarrow> ('g, 'h) coordinator \<Rightarrow> ('g, 'h) coordinator" where
  "step_planned_reset lc w transport runtime st =
     (if rc_shutdown_requested st then close_and_leave lc w st
      else attempt_then lc w (close_source_generation lc CloseReplacement st) (\<lambda>st1.
        if cw_planned_reset w = PrReset then go PhTop (commit_planned_rotation transport runtime st1)
        else leave_loop (set_terminal CauseInternalFailure
               (internal_error ''owner-domain planned rebootstrap reset failed'') False st1)))"

definition step_classify ::
  "'h source_lifecycle option \<Rightarrow> 'g coordinator_world \<Rightarrow> transport_observation
     \<Rightarrow> 'g runtime_observation \<Rightarrow> ('g, 'h) coordinator \<Rightarrow> ('g, 'h) coordinator" where
  "step_classify lc w transport runtime st =
     (let d = classify_failure runtime transport;
          st1 = observe_with (record_failure (rc_generation st) (rd_cause d) transport runtime) st
      in if \<not> rd_recoverable d then
           attempt_then lc w (close_source_generation lc ClosePermanentFailure st1) (\<lambda>st2.
             leave_loop (set_terminal (rd_cause d)
               (case to_terminal_error transport of
                  Some err \<Rightarrow> err
                | None \<Rightarrow> internal_error ''nonrecoverable G5 failure'') False st2))
         else go (PhCommit d transport) st1)"

definition step_commit ::
  "'h source_lifecycle option \<Rightarrow> 'g coordinator_world \<Rightarrow> recovery_decision \<Rightarrow> transport_observation
     \<Rightarrow> ('g, 'h) coordinator \<Rightarrow> ('g, 'h) coordinator" where
  "step_commit lc w d transport st =
     (if rc_shutdown_requested st then close_and_leave lc w st
      else if ro_consecutive_recovery_attempts (rc_observation st) \<ge> kMaximumRecoveryAttempts then
        attempt_then lc w (close_source_generation lc ClosePermanentFailure st) (\<lambda>st1.
          leave_loop (exhaust d transport st1))
      else attempt_then lc w (close_source_generation lc CloseReplacement st) (\<lambda>st1.
        attempt_then lc w (begin_backoff d st1) (go PhBackoff)))"

definition step_backoff :: "'g coordinator_world \<Rightarrow> ('g, 'h) coordinator \<Rightarrow> ('g, 'h) coordinator" where
  "step_backoff w st = (if \<not> cw_backoff w then leave_loop st else go PhRecover st)"

definition step_recover :: "('g, 'h) coordinator \<Rightarrow> ('g, 'h) coordinator" where
  "step_recover st =
     (if rc_shutdown_requested st then leave_loop st
      else go PhReset (observe_with (\<lambda>ob. ob\<lparr>ro_state := RecRecovering, ro_in_backoff := False\<rparr>) st))"

definition step_reset :: "'g coordinator_world \<Rightarrow> ('g, 'h) coordinator \<Rightarrow> ('g, 'h) coordinator" where
  "step_reset w st =
     (if rc_shutdown_requested st then leave_loop st
      else if cw_reset w = RrReset then
        go PhTop (observe_with (\<lambda>ob. ob\<lparr>ro_total_recovery_count := ro_total_recovery_count ob + 1\<rparr>)
          (st\<lparr>rc_generation := rc_generation st + 1\<rparr>))
      else leave_loop (set_terminal CauseInternalFailure
             (internal_error ''owner-domain rebootstrap reset failed'') False st))"

fun coordinator_step ::
  "'h source_lifecycle option \<Rightarrow> 'g coordinator_world \<Rightarrow> ('g, 'h) coordinator
     \<Rightarrow> ('g, 'h) coordinator option" where
  "coordinator_step lc w st =
     (case rc_phase st of
        PhAbsent \<Rightarrow> None
      | PhTop \<Rightarrow> Some (step_top lc w st)
      | PhCreated attempt \<Rightarrow> Some (step_created lc w attempt st)
      | PhStarted attempt rotation result \<Rightarrow> Some (step_started lc w attempt rotation result st)
      | PhAwaitLive attempt rotation \<Rightarrow> Some (step_await_live lc w attempt rotation st)
      | PhLive attempt rotation \<Rightarrow> Some (step_live lc w attempt rotation st)
      | PhRotate attempt \<Rightarrow> Some (step_rotate lc w attempt st)
      | PhQuiesce attempt due \<Rightarrow> Some (step_quiesce lc w attempt due st)
      | PhBarrier due transport \<Rightarrow> Some (step_barrier lc w due transport st)
      | PhPlannedReset transport runtime \<Rightarrow> Some (step_planned_reset lc w transport runtime st)
      | PhClassify transport runtime \<Rightarrow> Some (step_classify lc w transport runtime st)
      | PhCommit d transport \<Rightarrow> Some (step_commit lc w d transport st)
      | PhBackoff \<Rightarrow> Some (step_backoff w st)
      | PhRecover \<Rightarrow> Some (step_recover st)
      | PhReset \<Rightarrow> Some (step_reset w st)
      | PhEnded \<Rightarrow> None)"

section \<open>The other threads\<close>

text \<open>\<open>start\<close>, in two parts around the call of the runtime's \<open>start\<close>.\<close>

definition recovery_start_begin ::
  "('g, 'h) coordinator \<Rightarrow> (recovery_start_result + unit) \<times> ('g, 'h) coordinator" where
  "recovery_start_begin st =
     (if rc_stopped st then (Inl RsrStopped, st)
      else if rc_started st then (Inl RsrAlreadyStarted, st)
      else (Inr (), observe_with (\<lambda>ob. ob\<lparr>ro_state := RecStarting\<rparr>) (st\<lparr>rc_started := True\<rparr>)))"

definition recovery_start_finish ::
  "start_result \<Rightarrow> ('g, 'h) coordinator \<Rightarrow> recovery_start_result \<times> ('g, 'h) coordinator" where
  "recovery_start_finish runtime_start st =
     (if runtime_start \<noteq> StartStarted then
        (RsrRuntimeStartFailed, observe_with (\<lambda>ob. ob
           \<lparr>ro_terminal := True, ro_state := RecExhausted,
            ro_terminal_error := Some (internal_error ''MarketRuntime did not start for G5'')\<rparr>) st)
      else (RsrStarted, go PhTop st))"

text \<open>\<open>stop\<close> up to joining the thread. \<open>True\<close>: the call has finished.\<close>

definition recovery_stop_begin :: "('g, 'h) coordinator \<Rightarrow> bool \<times> ('g, 'h) coordinator" where
  "recovery_stop_begin st =
     (if rc_stopped st then (True, st)
      else if \<not> rc_started st then
        (True, observe_with (\<lambda>ob. ob\<lparr>ro_state := RecStopped\<rparr>)
                 (st\<lparr>rc_shutdown_requested := True, rc_stopped := True\<rparr>))
      else (False, observe_with (\<lambda>ob. ob\<lparr>ro_state := RecStopping, ro_in_backoff := False\<rparr>)
                 (st\<lparr>rc_shutdown_requested := True\<rparr>)))"

text \<open>\<open>stop\<close> after the join; \<open>stopped\<close> is the observation of a still registered attempt.\<close>

definition joinable_done :: "('g, 'h) coordinator \<Rightarrow> bool" where
  "joinable_done st \<longleftrightarrow> rc_phase st = PhEnded \<or> rc_phase st = PhAbsent"

definition recovery_stop_finish ::
  "transport_observation \<Rightarrow> ('g, 'h) coordinator \<Rightarrow> ('g, 'h) coordinator option" where
  "recovery_stop_finish stopped st =
     (if joinable_done st \<and> rc_shutdown_requested st then
        Some (observe_with (\<lambda>ob. ob
            \<lparr>ro_state := RecStopped, ro_in_backoff := False, ro_active_transport_count := 0\<rparr>)
          ((if rc_active_attempt st \<noteq> None then persist_last_event stopped st else st)
             \<lparr>rc_active_attempt := None, rc_stopped := True\<rparr>))
      else None)"

text \<open>\<open>observe_until\<close>, once it has the lock; \<open>running\<close> is the active attempt's observation.\<close>

definition recovery_observe ::
  "transport_observation \<Rightarrow> ('g, 'h) coordinator \<Rightarrow> 'g recovery_observation" where
  "recovery_observe running st =
     (let copy = rc_observation st in
      if rc_active_attempt st = None \<or> ro_active_transport_count copy \<noteq> 1
         \<or> ro_connection_generation copy = 0
      then copy
      else if to_connection_generation running = ro_connection_generation copy
              \<and> to_last_event_utc_ns running \<noteq> None
      then copy\<lparr>ro_last_event_utc_ns := to_last_event_utc_ns running\<rparr>
      else copy)"

text \<open>The two blocking observations; \<open>None\<close> while the predicate of the wait is false.\<close>

definition wait_for_generation_live ::
  "u64 \<Rightarrow> ('g, 'h) coordinator \<Rightarrow> 'g recovery_observation option" where
  "wait_for_generation_live generation st =
     (if (rc_state st = RecLive \<and> ro_connection_generation (rc_observation st) \<ge> generation)
         \<or> ro_terminal (rc_observation st) \<or> rc_stopped st
      then Some (rc_observation st) else None)"

definition wait_until_terminal :: "('g, 'h) coordinator \<Rightarrow> 'g recovery_observation option" where
  "wait_until_terminal st =
     (if ro_terminal (rc_observation st) \<or> rc_stopped st then Some (rc_observation st) else None)"

text \<open>\<open>request_controlled_recovery_for_acceptance\<close>: \<open>submitted\<close> is the runtime's answer.\<close>

definition request_controlled_recovery ::
  "admission_result \<Rightarrow> ('g, 'h) coordinator \<Rightarrow> bool" where
  "request_controlled_recovery submitted st =
     (if rc_state st \<noteq> RecLive \<or> rc_stopped st \<or> rc_shutdown_requested st then False
      else submitted = AdAccepted)"

text \<open>\<open>quiesce_for_acceptance\<close>, in two parts around the join; the retained attempt is its argument
  and its result is the cut, with the stopped transport and a last runtime observation.\<close>

definition quiesce_for_acceptance_begin ::
  "('g, 'h) coordinator \<Rightarrow> (nat option) option \<times> ('g, 'h) coordinator" where
  "quiesce_for_acceptance_begin st =
     (if \<not> rc_started st \<or> rc_stopped st \<or> ro_terminal (rc_observation st) \<or> rc_state st \<noteq> RecLive
         \<or> rc_shutdown_requested st
      then (None, st)
      else (Some (rc_active_attempt st),
            observe_with (\<lambda>ob. ob\<lparr>ro_state := RecStopping, ro_in_backoff := False\<rparr>)
              (st\<lparr>rc_shutdown_requested := True\<rparr>)))"

definition quiesce_for_acceptance_finish ::
  "nat option \<Rightarrow> transport_observation \<Rightarrow> ('g, 'h) coordinator \<Rightarrow> (bool \<times> ('g, 'h) coordinator) option" where
  "quiesce_for_acceptance_finish retained stopped st =
     (if \<not> joinable_done st then None
      else
        let final_attempt = rc_active_attempt st;
            st1 = st\<lparr>rc_active_attempt := None\<rparr>
        in if final_attempt \<noteq> None \<and> final_attempt \<noteq> retained then
             Some (False, observe_with (\<lambda>ob. ob\<lparr>ro_active_transport_count := 0\<rparr>)
                            (persist_last_event stopped st1))
           else if retained = None then Some (False, st1)
           else Some (True, observe_with (\<lambda>ob. ob
                  \<lparr>ro_active_transport_count := 0,
                   ro_connection_generation := to_connection_generation stopped,
                   ro_connection_id := to_connection_id stopped\<rparr>)
                  (persist_last_event stopped st1)))"

end
