(* ===== verification/RecoverySystem.thy ===== *)
theory RecoverySystem
  imports RecoveryCoordinator
begin

text \<open>
  The coordinator with its surroundings as a step system, what its building blocks leave alone,
  its invariant, and the contract with the owner of the source generations.
\<close>

section \<open>What the building blocks leave alone\<close>

text \<open>
  \<open>calm\<close>: an attempt may have been given up and the source generation and its owner may have
  moved, but nothing the recovery policy decides on has changed.
\<close>

definition policy_view :: "'g recovery_observation \<Rightarrow> recovery_state \<times> bool \<times> bool \<times> bool \<times> nat \<times> u64 \<times> u64
     \<times> nat \<times> nat \<times> 'g recovery_failure_diagnostic list \<times> nat" where
  "policy_view ob =
     (ro_state ob, ro_terminal ob, ro_exhausted ob, ro_in_backoff ob, ro_consecutive_recovery_attempts ob,
      ro_total_recovery_count ob, ro_planned_rotation_count ob, ro_last_requested_delay ob,
      ro_max_active_transport_count ob, ro_failure_history ob, ro_failure_history_size ob)"

definition control_view :: "('g, 'h) coordinator \<Rightarrow> 'g coordinator_phase \<times> u64 \<times> nat \<times> bool \<times> bool \<times> bool \<times> int option" where
  "control_view st = (rc_phase st, rc_generation st, rc_attempts st, rc_started st, rc_stopped st,
     rc_shutdown_requested st, rc_planned_rotation st)"

definition calm :: "('g, 'h) coordinator \<Rightarrow> ('g, 'h) coordinator \<Rightarrow> bool" where
  "calm st st' \<longleftrightarrow>
     policy_view (rc_observation st') = policy_view (rc_observation st)
     \<and> control_view st' = control_view st
     \<and> (ro_active_transport_count (rc_observation st') = 0
        \<or> ro_active_transport_count (rc_observation st') = ro_active_transport_count (rc_observation st))
     \<and> (rc_active_attempt st' = None \<or> rc_active_attempt st' = rc_active_attempt st)"

lemmas calm_defs = calm_def policy_view_def control_view_def

named_theorems calms

lemma calm_refl [calms]: "calm st st"
  by (simp add: calm_def)

lemma calm_trans: "calm a b \<Longrightarrow> calm b c \<Longrightarrow> calm a c"
  by (auto simp: calm_def)

lemma calm_control:
  assumes "calm st st'"
  shows "rc_phase st' = rc_phase st" "rc_generation st' = rc_generation st"
    "rc_attempts st' = rc_attempts st" "rc_shutdown_requested st' = rc_shutdown_requested st"
    "rc_started st' = rc_started st" "rc_stopped st' = rc_stopped st"
    "rc_planned_rotation st' = rc_planned_rotation st"
  using assms by (simp_all add: calm_def control_view_def)

lemma calm_policy:
  assumes "calm st st'"
  shows "ro_state (rc_observation st') = ro_state (rc_observation st)"
    "ro_terminal (rc_observation st') = ro_terminal (rc_observation st)"
    "ro_exhausted (rc_observation st') = ro_exhausted (rc_observation st)"
    "ro_in_backoff (rc_observation st') = ro_in_backoff (rc_observation st)"
    "ro_consecutive_recovery_attempts (rc_observation st') = ro_consecutive_recovery_attempts (rc_observation st)"
    "ro_total_recovery_count (rc_observation st') = ro_total_recovery_count (rc_observation st)"
    "ro_planned_rotation_count (rc_observation st') = ro_planned_rotation_count (rc_observation st)"
    "ro_last_requested_delay (rc_observation st') = ro_last_requested_delay (rc_observation st)"
    "ro_max_active_transport_count (rc_observation st') = ro_max_active_transport_count (rc_observation st)"
    "ro_failure_history (rc_observation st') = ro_failure_history (rc_observation st)"
    "ro_failure_history_size (rc_observation st') = ro_failure_history_size (rc_observation st)"
  using assms by (simp_all add: calm_def policy_view_def)

lemma calm_persist [calms]: "calm st (persist_last_event t st)"
  by (simp add: persist_last_event_def calm_defs)

lemma calm_source [calms]:
  "calm st (st\<lparr>rc_hub := h\<rparr>)" "calm st (st\<lparr>rc_hub := h, rc_source_generation_quiesced := q\<rparr>)"
  "calm st (st\<lparr>rc_hub := h, rc_source_generation_open := g\<rparr>)"
  "calm st (st\<lparr>rc_hub := h, rc_source_generation_open := g, rc_source_generation_quiesced := q\<rparr>)"
  by (simp_all add: calm_defs)

text \<open>What \<open>quiesce_attempt\<close> does after the source generation has been quiesced.\<close>

definition attempt_gone :: "nat \<Rightarrow> transport_observation \<Rightarrow> ('g, 'h) coordinator \<Rightarrow> ('g, 'h) coordinator" where
  "attempt_gone attempt transport s = observe_with (\<lambda>ob. ob
     \<lparr>ro_active_transport_count := 0,
      ro_connection_generation := to_connection_generation transport,
      ro_connection_id := to_connection_id transport\<rparr>)
    (if rc_active_attempt s = Some attempt then s\<lparr>rc_active_attempt := None\<rparr> else s)"

lemma calm_gone [calms]: "calm st (attempt_gone a t st)"
  by (simp add: attempt_gone_def calm_defs)

lemma quiesce_attempt_cases:
  obtains (idle) "\<not> (rc_source_generation_open st = Some (to_connection_generation t)
        \<and> \<not> rc_source_generation_quiesced st)"
      "quiesce_attempt lc a t st = (None, attempt_gone a t (persist_last_event t st))"
  | (no_callback) "lc = None" "rc_source_generation_open st = Some (to_connection_generation t)"
      "quiesce_attempt lc a t st = (Some ''bad_function_call'', persist_last_event t st)"
  | (refused) callbacks hub where "lc = Some callbacks"
      "rc_source_generation_open st = Some (to_connection_generation t)" "\<not> rc_source_generation_quiesced st"
      "sl_quiesce callbacks (to_connection_generation t) (rc_hub st) = (False, hub)"
      "quiesce_attempt lc a t st = (Some ''G9 source generation quiesce invariant failed'',
         (persist_last_event t st)\<lparr>rc_hub := hub\<rparr>)"
  | (quiesced) callbacks hub where "lc = Some callbacks"
      "rc_source_generation_open st = Some (to_connection_generation t)" "\<not> rc_source_generation_quiesced st"
      "sl_quiesce callbacks (to_connection_generation t) (rc_hub st) = (True, hub)"
      "quiesce_attempt lc a t st = (None, attempt_gone a t
         ((persist_last_event t st)\<lparr>rc_hub := hub, rc_source_generation_quiesced := True\<rparr>))"
proof -
  have same: "rc_source_generation_open (persist_last_event t st) = rc_source_generation_open st"
    "rc_source_generation_quiesced (persist_last_event t st) = rc_source_generation_quiesced st"
    "rc_hub (persist_last_event t st) = rc_hub st"
    by (simp_all add: persist_last_event_def)
  note eq = quiesce_attempt_def [of lc a t st, unfolded Let_def same, folded attempt_gone_def]
  show thesis
  proof (cases "rc_source_generation_open st = Some (to_connection_generation t)
      \<and> \<not> rc_source_generation_quiesced st")
    case False
    show thesis by (rule idle [OF False]) (use False in \<open>auto simp: eq\<close>)
  next
    case True
    show thesis
    proof (cases lc)
      case None
      have "quiesce_attempt lc a t st = (Some ''bad_function_call'', persist_last_event t st)"
        unfolding eq using True by (simp add: None)
      with None True show thesis using no_callback by blast
    next
      case (Some callbacks)
      obtain ok hub where q: "sl_quiesce callbacks (to_connection_generation t) (rc_hub st) = (ok, hub)"
        by fastforce
      show thesis
      proof (cases ok)
        case False
        have "quiesce_attempt lc a t st = (Some ''G9 source generation quiesce invariant failed'',
            (persist_last_event t st)\<lparr>rc_hub := hub\<rparr>)"
          unfolding eq using True q False by (simp add: Some)
        moreover have "sl_quiesce callbacks (to_connection_generation t) (rc_hub st) = (False, hub)"
          using q False by simp
        ultimately show thesis using refused [OF Some] True by blast
      next
        case ok: True
        have "quiesce_attempt lc a t st = (None, attempt_gone a t
            ((persist_last_event t st)\<lparr>rc_hub := hub, rc_source_generation_quiesced := True\<rparr>))"
          unfolding eq using True q ok by (simp add: Some)
        moreover have "sl_quiesce callbacks (to_connection_generation t) (rc_hub st) = (True, hub)"
          using q ok by simp
        ultimately show thesis using quiesced [OF Some] True by blast
      qed
    qed
  qed
qed

lemma calm_quiesce [calms]: "calm st (snd (quiesce_attempt lc a t st))"
proof (cases rule: quiesce_attempt_cases [of st t lc a])
  case idle
  then show ?thesis by (simp add: calm_trans [OF calm_persist calm_gone])
next
  case no_callback
  then show ?thesis by (simp add: calm_persist)
next
  case refused
  then show ?thesis by (simp add: calm_trans [OF calm_persist calm_source(1)])
next
  case quiesced
  then show ?thesis
    by (simp add: calm_trans [OF calm_trans [OF calm_persist calm_source(2)] calm_gone])
qed

lemma open_source_cases:
  obtains (unused) "lc = None" "open_source_generation lc t g st = (None, st)"
  | (refused) "open_source_generation lc t g st = (Some ''G9 source generation open invariant failed'', st)"
  | (failed) callbacks hub where "lc = Some callbacks" "sl_open callbacks g (rc_hub st) = (False, hub)"
      "open_source_generation lc t g st
        = (Some ''G9 source generation open invariant failed'', st\<lparr>rc_hub := hub\<rparr>)"
  | (opened) callbacks hub where "lc = Some callbacks" "sl_open callbacks g (rc_hub st) = (True, hub)"
      "rc_source_generation_open st = None" "\<not> rc_source_generation_quiesced st"
      "to_connection_generation t = g"
      "open_source_generation lc t g st
        = (None, st\<lparr>rc_hub := hub, rc_source_generation_open := Some g\<rparr>)"
proof (cases lc)
  case None
  then show thesis using unused by (simp add: open_source_generation_def)
next
  case (Some callbacks)
  obtain ok hub where o: "sl_open callbacks g (rc_hub st) = (ok, hub)" by fastforce
  note eq = open_source_generation_def Let_def Some o
  show thesis
  proof (cases "rc_source_generation_open st \<noteq> None \<or> rc_source_generation_quiesced st
      \<or> \<not> to_started t \<or> \<not> to_running t \<or> to_stopped t
      \<or> \<not> to_websocket_handshake t \<or> to_connection_generation t \<noteq> g")
    case True
    show thesis by (rule refused) (unfold eq option.case if_P [OF True], rule refl)
  next
    case False
    show thesis
    proof (cases ok)
      case no: False
      show thesis by (rule failed [OF Some]) (use o no False in \<open>auto simp: eq\<close>)
    next
      case ok: True
      show thesis by (rule opened [OF Some]) (use o ok False in \<open>auto simp: eq\<close>)
    qed
  qed
qed

lemma calm_open [calms]: "calm st (snd (open_source_generation lc t g st))"
  by (cases rule: open_source_cases [of lc t g st]) (simp_all add: calms)

lemma close_source_cases:
  obtains (unused) "lc = None \<or> rc_source_generation_open st = None"
      "close_source_generation lc out st = (None, st)"
  | (refused) "rc_source_generation_open st \<noteq> None" "\<not> rc_source_generation_quiesced st"
      "close_source_generation lc out st = (Some ''G9 source generation close invariant failed'', st)"
  | (failed) callbacks generation hub where "lc = Some callbacks"
      "rc_source_generation_open st = Some generation" "rc_source_generation_quiesced st"
      "sl_close callbacks generation out (rc_hub st) = (False, hub)"
      "close_source_generation lc out st
        = (Some ''G9 source generation close invariant failed'', st\<lparr>rc_hub := hub\<rparr>)"
  | (closed) callbacks generation hub where "lc = Some callbacks"
      "rc_source_generation_open st = Some generation" "rc_source_generation_quiesced st"
      "sl_close callbacks generation out (rc_hub st) = (True, hub)"
      "close_source_generation lc out st = (None, st\<lparr>rc_hub := hub,
         rc_source_generation_open := None, rc_source_generation_quiesced := False\<rparr>)"
proof (cases "lc = None \<or> rc_source_generation_open st = None")
  case True
  then show thesis using unused by (auto simp: close_source_generation_def split: option.splits)
next
  case False
  then obtain callbacks generation where
    s: "lc = Some callbacks" "rc_source_generation_open st = Some generation" by auto
  obtain ok hub where c: "sl_close callbacks generation out (rc_hub st) = (ok, hub)" by fastforce
  note eq = close_source_generation_def Let_def s c
  show thesis
  proof (cases "rc_source_generation_quiesced st")
    case False
    show thesis by (rule refused [OF _ False]) (use False in \<open>simp_all add: eq\<close>)
  next
    case True
    show thesis
    proof (cases ok)
      case False
      show thesis by (rule failed [OF s True]) (use c False True in \<open>simp_all add: eq\<close>)
    next
      case ok: True
      show thesis by (rule closed [OF s True]) (use c ok True in \<open>simp_all add: eq\<close>)
    qed
  qed
qed

lemma calm_close [calms]: "calm st (snd (close_source_generation lc out st))"
  by (cases rule: close_source_cases [of lc st out]) (simp_all add: calms)

lemma after_exception_cases:
  obtains (no_source) "rc_source_generation_open st = None" "close_source_after_exception lc t st = st"
  | (quiet) "rc_source_generation_open st \<noteq> None"
      "rc_source_generation_quiesced st \<or> rc_active_attempt st = None"
      "close_source_after_exception lc t st = snd (close_source_generation lc ClosePermanentFailure st)"
  | (stuck) a e where "rc_source_generation_open st \<noteq> None" "\<not> rc_source_generation_quiesced st"
      "rc_active_attempt st = Some a" "fst (quiesce_attempt lc a t st) = Some e"
      "close_source_after_exception lc t st = snd (quiesce_attempt lc a t st)"
  | (active) a where "rc_source_generation_open st \<noteq> None" "\<not> rc_source_generation_quiesced st"
      "rc_active_attempt st = Some a" "fst (quiesce_attempt lc a t st) = None"
      "close_source_after_exception lc t st
        = snd (close_source_generation lc ClosePermanentFailure (snd (quiesce_attempt lc a t st)))"
proof (cases "rc_source_generation_open st = None")
  case True
  then show thesis using no_source by (simp add: close_source_after_exception_def)
next
  case False
  show thesis
  proof (cases "rc_source_generation_quiesced st \<or> rc_active_attempt st = None")
    case True
    with False quiet show thesis by (auto simp: close_source_after_exception_def)
  next
    case act: False
    then obtain a where a: "rc_active_attempt st = Some a" by auto
    obtain e s where q: "quiesce_attempt lc a t st = (e, s)" by fastforce
    note eq = close_source_after_exception_def a q
    show thesis
    proof (cases e)
      case None
      show thesis by (rule active [OF False _ a]) (use act q None False in \<open>auto simp: eq\<close>)
    next
      case (Some m)
      show thesis by (rule stuck [OF False _ a]) (use act q Some False in \<open>auto simp: eq\<close>)
    qed
  qed
qed

lemma calm_after_exception [calms]: "calm st (close_source_after_exception lc t st)"
  by (cases rule: after_exception_cases [of st lc t])
    (simp_all add: calms calm_trans [OF calm_quiesce calm_close])

text \<open>
  A step that ends the loop leaves a calm state, in which the terminal verdict may have been
  entered: by \<open>set_terminal\<close>, or because the attempts are exhausted.
\<close>

definition gives_up :: "('g, 'h) coordinator \<Rightarrow> ('g, 'h) coordinator \<Rightarrow> bool" where
  "gives_up st st' \<longleftrightarrow> rc_phase st' = PhEnded \<and>
     (\<exists>s. calm st s \<and> (st' = leave_loop s \<or> (\<exists>cause err. st' = leave_loop (set_terminal cause err False s))))"

lemma gives_up_leave: "calm st s \<Longrightarrow> gives_up st (leave_loop s)"
  unfolding gives_up_def by (auto simp: leave_loop_def)

lemma gives_up_terminal: "calm st s \<Longrightarrow> gives_up st (leave_loop (set_terminal cause err False s))"
  unfolding gives_up_def by (auto simp: leave_loop_def)

lemma gives_up_exception: "calm st s \<Longrightarrow> gives_up st (coordinator_exception lc w m s)"
proof -
  assume "calm st s"
  then have "calm st (close_source_after_exception lc (cw_attempt_stopped w) s)"
    by (rule calm_trans [OF _ calm_after_exception])
  from gives_up_terminal [OF this] show ?thesis
    unfolding coordinator_exception_def leave_loop_def .
qed

lemma attempt_then_cases:
  assumes "calm st (snd r)"
  shows "gives_up st (attempt_then lc w r k) \<or> (\<exists>s. calm st s \<and> r = (None, s) \<and> attempt_then lc w r k = k s)"
proof (cases r)
  case (Pair e s)
  with assms show ?thesis
    by (cases e) (auto simp: attempt_then_def gives_up_exception)
qed

lemma attempt_thenE:
  assumes "calm st (snd r)"
  obtains "gives_up st (attempt_then lc w r k)"
    | s where "calm st s" "attempt_then lc w r k = k s"
  using attempt_then_cases [OF assms, of lc w k] by blast

lemma gives_up_attempt_then:
  assumes "calm st (snd r)" and "\<And>s. calm st s \<Longrightarrow> r = (None, s) \<Longrightarrow> gives_up st (k s)"
  shows "gives_up st (attempt_then lc w r k)"
  using attempt_then_cases [OF assms(1), of lc w k] assms(2) by auto

lemma gives_up_close_and_leave: "calm st s \<Longrightarrow> gives_up st (close_and_leave lc w s)"
  unfolding close_and_leave_def
  by (rule gives_up_attempt_then) (auto intro: calm_trans [OF _ calm_close] gives_up_leave)

lemma gives_up_abandon: "gives_up st (abandon_attempt lc w a st)"
  unfolding abandon_attempt_def
proof (rule gives_up_attempt_then [OF calm_quiesce])
  fix s assume s: "calm st s"
  show "gives_up st (attempt_then lc w (close_source_generation lc CloseGlobalShutdown s) leave_loop)"
    by (rule gives_up_attempt_then) (auto intro: calm_trans [OF s calm_close] gives_up_leave)
qed

section \<open>The steps of the thread, by effect\<close>

text \<open>
  What one step of the thread does, as far as the policy is concerned: it gives up, it moves on
  with a calm state, or it is one of the six steps that change the policy's state.
\<close>

inductive thread_effect ::
  "'g coordinator_world \<Rightarrow> ('g, 'h) coordinator \<Rightarrow> ('g, 'h) coordinator \<Rightarrow> bool" for w where
  te_give_up: "gives_up st st' \<Longrightarrow> thread_effect w st st'"
| te_create: "rc_phase st = PhTop \<Longrightarrow> \<not> rc_shutdown_requested st \<Longrightarrow> cw_factory w = Inr (Some t) \<Longrightarrow>
    thread_effect w st (go (PhCreated (rc_attempts st)) (create_attempt t st))"
| te_started: "rc_phase st = PhCreated a \<Longrightarrow>
    thread_effect w st (go (PhStarted a rot res)
      (observe_with (\<lambda>ob. ob\<lparr>ro_generation_started_monotonic_ns := x\<rparr>) st))"
| te_move: "calm st s \<Longrightarrow> (rc_phase st, ph) \<in> {(PhStarted a rot res, PhAwaitLive a rot),
      (PhStarted a rot res, PhQuiesce a False), (PhAwaitLive a rot, PhQuiesce a False),
      (PhLive a rot, PhQuiesce a False), (PhLive a rot, PhRotate a), (PhQuiesce a due, PhBarrier due t),
      (PhBarrier True t, PhPlannedReset t r), (PhBarrier due t, PhClassify t r)} \<Longrightarrow>
    thread_effect w st (go ph s)"
| te_live: "rc_phase st = PhAwaitLive a rot \<Longrightarrow> try_mark_live q t st = (True, s) \<Longrightarrow>
    thread_effect w st (go (PhLive a rot) s)"
| te_rotate: "rc_phase st = PhRotate a \<Longrightarrow> \<not> rc_shutdown_requested st \<Longrightarrow>
    thread_effect w st (go (PhQuiesce a True) (observe_with (\<lambda>ob. ob\<lparr>ro_state := RecRotating\<rparr>) st))"
| te_rotated: "rc_phase st = PhPlannedReset t r \<Longrightarrow> \<not> rc_shutdown_requested st \<Longrightarrow> calm st s \<Longrightarrow>
    cw_planned_reset w = PrReset \<Longrightarrow>
    thread_effect w st (go PhTop (commit_planned_rotation t r s))"
| te_record: "rc_phase st = PhClassify t r \<Longrightarrow>
    s = observe_with (record_failure (rc_generation st) (rd_cause (classify_failure r t)) t r) st \<Longrightarrow>
    st' = go (PhCommit (classify_failure r t) t) s \<and> rd_recoverable (classify_failure r t)
      \<or> gives_up s st' \<Longrightarrow> thread_effect w st st'"
| te_exhaust: "rc_phase st = PhCommit d t \<Longrightarrow> \<not> rc_shutdown_requested st \<Longrightarrow> calm st s \<Longrightarrow>
    ro_consecutive_recovery_attempts (rc_observation st) \<ge> kMaximumRecoveryAttempts \<Longrightarrow>
    thread_effect w st (leave_loop (exhaust d t s))"
| te_backoff: "rc_phase st = PhCommit d t \<Longrightarrow> \<not> rc_shutdown_requested st \<Longrightarrow> calm st s \<Longrightarrow>
    ro_consecutive_recovery_attempts (rc_observation st) < kMaximumRecoveryAttempts \<Longrightarrow>
    begin_backoff d s = (None, s') \<Longrightarrow> thread_effect w st (go PhBackoff s')"
| te_waited: "rc_phase st = PhBackoff \<Longrightarrow> thread_effect w st (go PhRecover st)"
| te_recover: "rc_phase st = PhRecover \<Longrightarrow> \<not> rc_shutdown_requested st \<Longrightarrow>
    thread_effect w st (go PhReset (observe_with (\<lambda>ob. ob\<lparr>ro_state := RecRecovering, ro_in_backoff := False\<rparr>) st))"
| te_reset: "rc_phase st = PhReset \<Longrightarrow> \<not> rc_shutdown_requested st \<Longrightarrow> cw_reset w = RrReset \<Longrightarrow>
    thread_effect w st (go PhTop (observe_with (\<lambda>ob. ob\<lparr>ro_total_recovery_count := ro_total_recovery_count ob + 1\<rparr>)
      (st\<lparr>rc_generation := rc_generation st + 1\<rparr>)))"

lemma begin_backoff_returns:
  assumes "ro_consecutive_recovery_attempts (rc_observation st) < kMaximumRecoveryAttempts"
  obtains d' where "begin_backoff d st = (None, observe_with (\<lambda>ob. ob
      \<lparr>ro_consecutive_recovery_attempts := ro_consecutive_recovery_attempts ob + 1,
       ro_last_recovery_cause := Some (rd_cause d), ro_last_requested_delay := d',
       ro_state := RecBackoff, ro_in_backoff := True\<rparr>) st)"
    and "backoff_delays ! ro_consecutive_recovery_attempts (rc_observation st) \<le> d'"
    and "rd_minimum_delay d \<noteq> None \<longrightarrow> the (rd_minimum_delay d) \<le> d'"
    and "rd_minimum_delay d = None \<longrightarrow> d' = backoff_delays ! ro_consecutive_recovery_attempts (rc_observation st)"
proof -
  let ?n = "ro_consecutive_recovery_attempts (rc_observation st)"
  have delay: "normal_backoff_delay (Suc ?n) = Some (backoff_delays ! ?n)"
    using assms by (simp add: normal_backoff_delay_def backoff_delays_def kMaximumRecoveryAttempts_def)
  show thesis
  proof (rule that [of "case rd_minimum_delay d of None \<Rightarrow> backoff_delays ! ?n | Some m \<Rightarrow> max (backoff_delays ! ?n) m"])
    show "begin_backoff d st = (None, observe_with (\<lambda>ob. ob
      \<lparr>ro_consecutive_recovery_attempts := ro_consecutive_recovery_attempts ob + 1,
       ro_last_recovery_cause := Some (rd_cause d),
       ro_last_requested_delay := (case rd_minimum_delay d of None \<Rightarrow> backoff_delays ! ?n
           | Some m \<Rightarrow> max (backoff_delays ! ?n) m),
       ro_state := RecBackoff, ro_in_backoff := True\<rparr>) st)"
      by (simp add: begin_backoff_def Let_def delay)
  qed (auto split: option.splits)
qed

lemma calm_consecutive:
  "calm st s \<Longrightarrow> ro_consecutive_recovery_attempts (rc_observation s) = ro_consecutive_recovery_attempts (rc_observation st)"
  by (rule calm_policy(5))

lemma try_mark_live_False: "try_mark_live q t st = (False, s) \<Longrightarrow> s = st"
  by (auto simp: try_mark_live_def split: if_splits)

lemma effect_top:
  assumes "rc_phase st = PhTop"
  shows "thread_effect w st (step_top lc w st)"
proof (cases "rc_shutdown_requested st")
  case True
  then show ?thesis
    by (simp add: step_top_def te_give_up gives_up_leave calm_refl)
next
  case False
  show ?thesis
  proof (cases "cw_factory w")
    case (Inl m)
    with False show ?thesis
      by (simp add: step_top_def te_give_up gives_up_exception calm_refl)
  next
    case (Inr r)
    with False assms show ?thesis
      by (cases r) (simp_all add: step_top_def te_give_up gives_up_terminal calm_refl te_create)
  qed
qed

lemma gives_up_quiesce_throw:
  "gives_up st (attempt_then lc w (quiesce_attempt lc a t st) (coordinator_exception lc w m))"
  by (rule gives_up_attempt_then [OF calm_quiesce]) (rule gives_up_exception)

lemma effect_created:
  assumes "rc_phase st = PhCreated a"
  shows "thread_effect w st (step_created lc w a st)"
proof (cases "rc_shutdown_requested st")
  case True
  then show ?thesis by (simp add: step_created_def te_give_up gives_up_abandon)
next
  case False
  note eq = step_created_def [of lc w a st, unfolded Let_def]
  show ?thesis
  proof (cases "rc_planned_rotation st")
    case None
    show ?thesis using False te_started [OF assms] by (simp add: eq None)
  next
    case (Some age)
    show ?thesis
    proof (cases "cw_clock w")
      case (Inl m)
      show ?thesis using False by (simp add: eq Some Inl te_give_up gives_up_quiesce_throw)
    next
      case (Inr sample)
      show ?thesis
        using False te_started [OF assms] te_give_up [OF gives_up_quiesce_throw]
        by (cases "planned_rotation_deadline age (cs_monotonic_ns sample)") (simp_all add: eq Some Inr)
    qed
  qed
qed

lemma effect_started:
  assumes "rc_phase st = PhStarted a rot res"
  shows "thread_effect w st (step_started lc w a rot res st)"
proof (cases "rc_shutdown_requested st")
  case True
  then show ?thesis by (simp add: step_started_def te_give_up gives_up_abandon)
next
  case False
  let ?r = "open_source_generation lc (cw_attempt_running w) (rc_generation st) st"
  show ?thesis
  proof (cases "res = TsStarted")
    case True
    consider "gives_up st (attempt_then lc w ?r (go (PhAwaitLive a rot)))"
      | s where "calm st s" "attempt_then lc w ?r (go (PhAwaitLive a rot)) = go (PhAwaitLive a rot) s"
      by (rule attempt_thenE [OF calm_open])
    then show ?thesis
    proof cases
      case 1
      with True False show ?thesis by (simp add: step_started_def te_give_up)
    next
      case 2
      then have "thread_effect w st (go (PhAwaitLive a rot) s)"
        using assms by (intro te_move [where a = a and rot = rot and res = res]) simp_all
      with 2 True False show ?thesis by (simp add: step_started_def)
    qed
  next
    case not: False
    have "thread_effect w st (go (PhQuiesce a False) st)"
      using assms by (intro te_move [where a = a and rot = rot and res = res]) (simp_all add: calm_refl)
    with not False show ?thesis by (simp add: step_started_def)
  qed
qed

lemma effect_await_live:
  assumes "rc_phase st = PhAwaitLive a rot"
  shows "thread_effect w st (step_await_live lc w a rot st)"
proof -
  have quiesce: "thread_effect w st (go (PhQuiesce a False) st)"
    using assms by (intro te_move [where a = a and rot = rot]) (simp_all add: calm_refl)
  show ?thesis
  proof (cases "cw_wait_live w")
    case None
    then show ?thesis by (simp add: step_await_live_def te_give_up gives_up_abandon)
  next
    case (Some runtime)
    show ?thesis
    proof (cases "ob_state runtime = RsLive")
      case False
      with Some quiesce show ?thesis by (simp add: step_await_live_def)
    next
      case True
      show ?thesis
      proof (cases "cw_observe w")
        case None
        with Some True show ?thesis
          by (simp add: step_await_live_def te_give_up gives_up_exception calm_refl)
      next
        case (Some q)
        obtain ok s where live: "try_mark_live q (cw_attempt_running w) st = (ok, s)" by fastforce
        show ?thesis
        proof (cases ok)
          case True
          with live te_live [OF assms] \<open>cw_wait_live w = Some runtime\<close> \<open>ob_state runtime = RsLive\<close> Some
          show ?thesis by (simp add: step_await_live_def)
        next
          case False
          with live have "s = st" by (simp add: try_mark_live_False)
          with live False quiesce \<open>cw_wait_live w = Some runtime\<close> \<open>ob_state runtime = RsLive\<close> Some
          show ?thesis by (simp add: step_await_live_def)
        qed
      qed
    qed
  qed
qed

lemma effect_live:
  assumes "rc_phase st = PhLive a rot"
  shows "thread_effect w st (step_live lc w a rot st)"
proof -
  have quiesce: "thread_effect w st (go (PhQuiesce a False) st)"
    and rotate: "thread_effect w st (go (PhRotate a) st)"
    using assms by (intro te_move [where a = a and rot = rot]; simp add: calm_refl)+
  have abandon: "thread_effect w st (abandon_attempt lc w a st)" by (rule te_give_up [OF gives_up_abandon])
  show ?thesis
  proof (cases rot)
    case None
    with quiesce abandon show ?thesis by (simp add: step_live_def)
  next
    case (Some sd)
    obtain started deadline where sd: "sd = (started, deadline)" by fastforce
    show ?thesis
    proof (cases "wait_for_rotation_or_recovery w started deadline")
      case (Inl m)
      have "gives_up st (attempt_then lc w (quiesce_attempt lc a (cw_attempt_stopped w) st) (\<lambda>st1.
                 attempt_then lc w (close_source_generation lc ClosePermanentFailure st1)
                   (coordinator_exception lc w m)))"
      proof (rule gives_up_attempt_then [OF calm_quiesce])
        fix s assume s: "calm st s"
        show "gives_up st (attempt_then lc w (close_source_generation lc ClosePermanentFailure s)
                   (coordinator_exception lc w m))"
          by (rule gives_up_attempt_then) (auto intro: calm_trans [OF s calm_close] gives_up_exception)
      qed
      with Some sd Inl show ?thesis by (simp add: step_live_def te_give_up)
    next
      case (Inr res)
      with Some sd quiesce rotate abandon show ?thesis
        by (cases res) (simp_all add: step_live_def)
    qed
  qed
qed

lemma effect_quiesce:
  assumes "rc_phase st = PhQuiesce a due"
  shows "thread_effect w st (step_quiesce lc w a due st)"
proof -
  let ?r = "quiesce_attempt lc a (cw_attempt_stopped w) st"
  let ?k = "go (PhBarrier due (cw_attempt_stopped w))"
  consider "gives_up st (attempt_then lc w ?r ?k)" | s where "calm st s" "attempt_then lc w ?r ?k = ?k s"
    by (rule attempt_thenE [OF calm_quiesce])
  then show ?thesis
  proof cases
    case 1
    then show ?thesis by (simp add: step_quiesce_def te_give_up)
  next
    case 2
    then have "thread_effect w st (?k s)"
      using assms by (intro te_move [where a = a and due = due and t = "cw_attempt_stopped w"]) simp_all
    with 2 show ?thesis by (simp add: step_quiesce_def)
  qed
qed

lemma effect_barrier:
  assumes "rc_phase st = PhBarrier due t"
  shows "thread_effect w st (step_barrier lc w due t st)"
proof (cases "rc_shutdown_requested st")
  case True
  then show ?thesis by (simp add: step_barrier_def te_give_up gives_up_close_and_leave calm_refl)
next
  case False
  let ?timeout = "coordinator_exception lc w ''runtime owner observation deadline exceeded'' st"
  let ?decide = "\<lambda>runtime. if due \<and> is_clean_planned_cut runtime t
     then go (PhPlannedReset t runtime) st else go (PhClassify t runtime) st"
  have timeout: "thread_effect w st ?timeout" by (rule te_give_up [OF gives_up_exception [OF calm_refl]])
  have decide: "thread_effect w st (?decide runtime)" for runtime
    using assms by (auto intro!: te_move [where due = due and t = t and r = runtime] calm_refl)
  have refused: "gives_up st (attempt_then lc w (close_source_generation lc ClosePermanentFailure st)
      (\<lambda>st1. leave_loop (set_terminal CauseInternalFailure (internal_error m) False st1)))" for m
    by (rule gives_up_attempt_then [OF calm_close]) (rule gives_up_terminal)
  note eq = step_barrier_def [of lc w due t st, unfolded Let_def]
  show ?thesis
  proof (cases "cw_observe w")
    case None
    show ?thesis using False timeout by (simp add: eq None)
  next
    case (Some runtime)
    show ?thesis
    proof (cases "to_terminal_error t \<noteq> None \<and> ob_state runtime = RsLive \<and> ob_fault_reason runtime = None")
      case no_fault: False
      have "step_barrier lc w due t st = ?decide runtime"
        unfolding eq using False no_fault by (simp only: Some option.case if_False)
      then show ?thesis using decide by simp
    next
      case fault: True
      show ?thesis
      proof (cases "cw_submit_failure w = AdAccepted")
        case False
        with \<open>\<not> rc_shutdown_requested st\<close> fault te_give_up [OF refused] show ?thesis
          by (simp add: eq Some)
      next
        case True
        show ?thesis
        proof (cases "cw_observe_again w")
          case None
          show ?thesis using \<open>\<not> rc_shutdown_requested st\<close> fault True timeout by (simp add: eq Some None)
        next
          case (Some again)
          have "step_barrier lc w due t st = ?decide again"
            unfolding eq using \<open>\<not> rc_shutdown_requested st\<close> fault True
            by (simp add: \<open>cw_observe w = Some runtime\<close> Some)
          then show ?thesis using decide by simp
        qed
      qed
    qed
  qed
qed

lemma effect_planned_reset:
  assumes "rc_phase st = PhPlannedReset t r"
  shows "thread_effect w st (step_planned_reset lc w t r st)"
proof (cases "rc_shutdown_requested st")
  case True
  then show ?thesis by (simp add: step_planned_reset_def te_give_up gives_up_close_and_leave calm_refl)
next
  case False
  let ?k = "\<lambda>st1. if cw_planned_reset w = PrReset then go PhTop (commit_planned_rotation t r st1)
        else leave_loop (set_terminal CauseInternalFailure
               (internal_error ''owner-domain planned rebootstrap reset failed'') False st1)"
  let ?r = "close_source_generation lc CloseReplacement st"
  consider "gives_up st (attempt_then lc w ?r ?k)" | s where "calm st s" "attempt_then lc w ?r ?k = ?k s"
    by (rule attempt_thenE [OF calm_close])
  then show ?thesis
  proof cases
    case 1
    with False show ?thesis by (simp add: step_planned_reset_def te_give_up)
  next
    case 2
    have "thread_effect w st (?k s)"
      by (cases "cw_planned_reset w = PrReset")
        (simp_all add: te_rotated [OF assms False 2(1)] te_give_up [OF gives_up_terminal [OF 2(1)]])
    with 2 False show ?thesis by (simp add: step_planned_reset_def)
  qed
qed

lemma effect_classify:
  assumes "rc_phase st = PhClassify t r"
  shows "thread_effect w st (step_classify lc w t r st)"
proof -
  let ?d = "classify_failure r t"
  let ?s = "observe_with (record_failure (rc_generation st) (rd_cause ?d) t r) st"
  have "gives_up ?s (attempt_then lc w (close_source_generation lc ClosePermanentFailure ?s)
      (\<lambda>st2. leave_loop (set_terminal c e False st2)))" for c e
    by (rule gives_up_attempt_then [OF calm_close]) (rule gives_up_terminal)
  then show ?thesis
    by (intro te_record [OF assms refl]) (simp add: step_classify_def Let_def)
qed

lemma effect_commit:
  assumes "rc_phase st = PhCommit d t"
  shows "thread_effect w st (step_commit lc w d t st)"
proof (cases "rc_shutdown_requested st")
  case True
  then show ?thesis by (simp add: step_commit_def te_give_up gives_up_close_and_leave calm_refl)
next
  case running: False
  show ?thesis
  proof (cases "ro_consecutive_recovery_attempts (rc_observation st) \<ge> kMaximumRecoveryAttempts")
    case True
    let ?r = "close_source_generation lc ClosePermanentFailure st"
    consider "gives_up st (attempt_then lc w ?r (\<lambda>st1. leave_loop (exhaust d t st1)))"
      | s where "calm st s" "attempt_then lc w ?r (\<lambda>st1. leave_loop (exhaust d t st1)) = leave_loop (exhaust d t s)"
      by (rule attempt_thenE [OF calm_close])
    then show ?thesis
    proof cases
      case 1
      with running True show ?thesis by (simp add: step_commit_def te_give_up)
    next
      case 2
      with running True te_exhaust [OF assms running 2(1) True] show ?thesis by (simp add: step_commit_def)
    qed
  next
    case False
    let ?r = "close_source_generation lc CloseReplacement st"
    let ?k = "\<lambda>st1. attempt_then lc w (begin_backoff d st1) (go PhBackoff)"
    consider "gives_up st (attempt_then lc w ?r ?k)" | s where "calm st s" "attempt_then lc w ?r ?k = ?k s"
      by (rule attempt_thenE [OF calm_close])
    then show ?thesis
    proof cases
      case 1
      with running False show ?thesis by (simp add: step_commit_def te_give_up)
    next
      case 2
      have less: "ro_consecutive_recovery_attempts (rc_observation st) < kMaximumRecoveryAttempts"
        using False by simp
      then have "ro_consecutive_recovery_attempts (rc_observation s) < kMaximumRecoveryAttempts"
        by (simp add: calm_consecutive [OF 2(1)])
      then obtain s' where s': "begin_backoff d s = (None, s')" by (rule begin_backoff_returns)
      with 2 running False te_backoff [OF assms running 2(1) less s'] show ?thesis
        by (simp add: step_commit_def attempt_then_def)
    qed
  qed
qed

lemma effect_rotate:
  assumes "rc_phase st = PhRotate a"
  shows "thread_effect w st (step_rotate lc w a st)"
  by (auto simp: step_rotate_def intro: te_rotate [OF assms] te_give_up gives_up_abandon)

lemma effect_backoff:
  assumes "rc_phase st = PhBackoff"
  shows "thread_effect w st (step_backoff w st)"
  by (auto simp: step_backoff_def intro: te_waited [OF assms] te_give_up gives_up_leave calm_refl)

lemma effect_recover:
  assumes "rc_phase st = PhRecover"
  shows "thread_effect w st (step_recover st)"
  by (auto simp: step_recover_def intro: te_recover [OF assms] te_give_up gives_up_leave calm_refl)

lemma effect_reset:
  assumes "rc_phase st = PhReset"
  shows "thread_effect w st (step_reset w st)"
  by (auto simp: step_reset_def
      intro: te_reset [OF assms] te_give_up gives_up_leave gives_up_terminal calm_refl)

declare coordinator_step.simps [simp del]

lemmas thread_effects = effect_top effect_created effect_started effect_await_live effect_live
  effect_rotate effect_quiesce effect_barrier effect_planned_reset effect_classify effect_commit
  effect_backoff effect_recover effect_reset

lemma thread_step_effect:
  assumes "coordinator_step lc w st = Some st'"
  shows "thread_effect w st st'"
proof -
  note eq = assms [unfolded coordinator_step.simps]
  show ?thesis
  proof (cases "rc_phase st")
    case PhTop
    with eq have st': "st' = step_top lc w st" by simp
    show ?thesis unfolding st' by (rule effect_top [OF PhTop])
  next
    case (PhCreated a)
    with eq have st': "st' = step_created lc w a st" by simp
    show ?thesis unfolding st' by (rule effect_created [OF PhCreated])
  next
    case (PhStarted a rot res)
    with eq have st': "st' = step_started lc w a rot res st" by simp
    show ?thesis unfolding st' by (rule effect_started [OF PhStarted])
  next
    case (PhAwaitLive a rot)
    with eq have st': "st' = step_await_live lc w a rot st" by simp
    show ?thesis unfolding st' by (rule effect_await_live [OF PhAwaitLive])
  next
    case (PhLive a rot)
    with eq have st': "st' = step_live lc w a rot st" by simp
    show ?thesis unfolding st' by (rule effect_live [OF PhLive])
  next
    case (PhQuiesce a due)
    with eq have st': "st' = step_quiesce lc w a due st" by simp
    show ?thesis unfolding st' by (rule effect_quiesce [OF PhQuiesce])
  next
    case (PhBarrier due t)
    with eq have st': "st' = step_barrier lc w due t st" by simp
    show ?thesis unfolding st' by (rule effect_barrier [OF PhBarrier])
  next
    case (PhPlannedReset t r)
    with eq have st': "st' = step_planned_reset lc w t r st" by simp
    show ?thesis unfolding st' by (rule effect_planned_reset [OF PhPlannedReset])
  next
    case (PhClassify t r)
    with eq have st': "st' = step_classify lc w t r st" by simp
    show ?thesis unfolding st' by (rule effect_classify [OF PhClassify])
  next
    case (PhCommit d t)
    with eq have st': "st' = step_commit lc w d t st" by simp
    show ?thesis unfolding st' by (rule effect_commit [OF PhCommit])
  next
    case (PhRotate a)
    with eq have st': "st' = step_rotate lc w a st" by simp
    show ?thesis unfolding st' by (rule effect_rotate [OF PhRotate])
  next
    case PhBackoff
    with eq have st': "st' = step_backoff w st" by simp
    show ?thesis unfolding st' by (rule effect_backoff [OF PhBackoff])
  next
    case PhRecover
    with eq have st': "st' = step_recover st" by simp
    show ?thesis unfolding st' by (rule effect_recover [OF PhRecover])
  next
    case PhReset
    with eq have st': "st' = step_reset w st" by simp
    show ?thesis unfolding st' by (rule effect_reset [OF PhReset])
  qed (use eq in simp_all)
qed

end
