(* ===== verification/RecoveryInvariant.thy ===== *)
theory RecoveryInvariant
  imports RecoverySystem
begin

text \<open>
  The coordinator among the other threads as a step system, its policy invariant, and the
  contract with the owner of the source generations (the locale \<open>source_provider\<close>), from which
  it follows that the coordinator never leaves a generation open behind it.
\<close>

section \<open>Steps of all threads\<close>

text \<open>
  What the surroundings promise: an attempt reports the generation it was made for, and the
  waits that a stop token can end without a result only do so after shutdown was requested. A
  call of \<open>start\<close> is in progress while the coordinator is started, has no thread and no verdict.
\<close>

definition faithful_world :: "('g, 'h) coordinator \<Rightarrow> 'g coordinator_world \<Rightarrow> bool" where
  "faithful_world st w \<longleftrightarrow>
     to_connection_generation (cw_attempt_stopped w) = rc_generation st
     \<and> (cw_wait_live w = None \<longrightarrow> rc_shutdown_requested st)
     \<and> (\<not> cw_wait_recovery w \<longrightarrow> rc_shutdown_requested st)
     \<and> (\<not> cw_backoff w \<longrightarrow> rc_shutdown_requested st)"

inductive recovery_step ::
  "'h source_lifecycle option \<Rightarrow> ('h \<Rightarrow> 'h \<Rightarrow> bool) \<Rightarrow> ('g, 'h) coordinator \<Rightarrow> ('g, 'h) coordinator \<Rightarrow> bool"
  for lc client_step where
  rs_thread: "faithful_world st w \<Longrightarrow> coordinator_step lc w st = Some st' \<Longrightarrow>
    recovery_step lc client_step st st'"
| rs_start: "recovery_step lc client_step st (snd (recovery_start_begin st))"
| rs_started: "rc_started st \<Longrightarrow> rc_phase st = PhAbsent \<Longrightarrow> \<not> ro_terminal (rc_observation st) \<Longrightarrow>
    recovery_step lc client_step st (snd (recovery_start_finish r st))"
| rs_stop: "recovery_step lc client_step st (snd (recovery_stop_begin st))"
| rs_stopped: "recovery_stop_finish t st = Some st' \<Longrightarrow> recovery_step lc client_step st st'"
| rs_acceptance: "recovery_step lc client_step st (snd (quiesce_for_acceptance_begin st))"
| rs_accepted: "quiesce_for_acceptance_finish retained t st = Some (b, st') \<Longrightarrow>
    recovery_step lc client_step st st'"
| rs_hub: "client_step (rc_hub st) h \<Longrightarrow> recovery_step lc client_step st (st\<lparr>rc_hub := h\<rparr>)"

section \<open>The policy invariant\<close>

definition policy_inv :: "('g, 'h) coordinator \<Rightarrow> bool" where
  "policy_inv st \<longleftrightarrow> (let ob = rc_observation st in
     history_ok ob
     \<and> ro_consecutive_recovery_attempts ob \<le> kMaximumRecoveryAttempts
     \<and> ro_active_transport_count ob \<le> 1 \<and> ro_max_active_transport_count ob \<le> 1
     \<and> rc_generation st = 1 + ro_total_recovery_count ob + ro_planned_rotation_count ob
     \<and> (ro_in_backoff ob \<longrightarrow> 0 < ro_consecutive_recovery_attempts ob
          \<and> backoff_delays ! (ro_consecutive_recovery_attempts ob - 1) \<le> ro_last_requested_delay ob)
     \<and> (ro_exhausted ob \<longrightarrow> ro_terminal ob
          \<and> ro_consecutive_recovery_attempts ob = kMaximumRecoveryAttempts)
     \<and> (ro_terminal ob \<longrightarrow> rc_started st \<and> rc_phase st \<in> {PhEnded, PhAbsent})
     \<and> (\<not> rc_started st \<longrightarrow> rc_phase st = PhAbsent))"

lemma policy_inv_calm:
  assumes "policy_inv st" and "calm st s"
  shows "policy_inv s"
  using assms(1) assms(2)
  unfolding policy_inv_def Let_def history_ok_def calm_policy [OF assms(2)] calm_control [OF assms(2)]
  by (auto simp: calm_def)

lemma policy_inv_phase:
  assumes "policy_inv st" and "ph \<noteq> PhAbsent \<longrightarrow> rc_started st"
    and "ro_terminal (rc_observation st) \<longrightarrow> ph = PhEnded"
  shows "policy_inv (go ph st)"
  using assms by (auto simp: policy_inv_def Let_def history_ok_def)

lemma policy_inv_leave: "policy_inv st \<Longrightarrow> rc_started st \<Longrightarrow> policy_inv (leave_loop st)"
  unfolding leave_loop_def by (rule policy_inv_phase) simp_all

lemma policy_inv_set_terminal:
  assumes "policy_inv st" and "rc_started st"
  shows "policy_inv (leave_loop (set_terminal cause err False st))"
  using assms by (simp add: policy_inv_def set_terminal_def leave_loop_def Let_def history_ok_def)

lemma policy_inv_gives_up:
  assumes "policy_inv st" and "rc_started st" and "gives_up st st'"
  shows "policy_inv st'"
proof -
  obtain s where s: "calm st s" "st' = leave_loop s \<or> (\<exists>cause err. st' = leave_loop (set_terminal cause err False s))"
    using assms(3) by (auto simp: gives_up_def)
  have "policy_inv s" "rc_started s"
    using policy_inv_calm [OF assms(1) s(1)] calm_control [OF s(1)] assms(2) by simp_all
  with s(2) policy_inv_leave policy_inv_set_terminal show ?thesis by blast
qed

lemma running_phase:
  assumes "policy_inv st" and "rc_phase st \<noteq> PhEnded" and "rc_phase st \<noteq> PhAbsent"
  shows "rc_started st" and "\<not> ro_terminal (rc_observation st)" and "\<not> ro_exhausted (rc_observation st)"
  using assms by (auto simp: policy_inv_def Let_def)

lemma policy_inv_record:
  assumes "policy_inv st"
  shows "policy_inv (observe_with (record_failure g c t r) st)"
proof -
  have "history_ok (record_failure g c t r (rc_observation st))"
    using assms record_failure_failures [of "rc_observation st"] by (simp add: policy_inv_def Let_def)
  with assms show ?thesis
    by (simp add: policy_inv_def Let_def) (simp add: record_failure_def Let_def)
qed

lemma policy_inv_effect:
  assumes inv: "policy_inv st" and run: "rc_phase st \<noteq> PhEnded" "rc_phase st \<noteq> PhAbsent"
    and effect: "thread_effect w st st'"
  shows "policy_inv st'"
  using effect
proof cases
  case te_give_up
  with policy_inv_gives_up [OF inv running_phase(1) [OF inv run]] show ?thesis .
next
  case (te_create t)
  with inv running_phase [OF inv run] show ?thesis
    by (simp add: policy_inv_def create_attempt_def Let_def history_ok_def)
next
  case (te_started a rot res x)
  with inv running_phase [OF inv run] show ?thesis
    by (simp add: policy_inv_def Let_def history_ok_def)
next
  case (te_move s ph)
  then have "policy_inv s" "rc_started s" "\<not> ro_terminal (rc_observation s)"
    using policy_inv_calm [OF inv] calm_control calm_policy running_phase [OF inv run] by metis+
  with te_move(1) show ?thesis by (simp add: policy_inv_phase)
next
  case (te_live a rot q t s)
  with inv running_phase [OF inv run] show ?thesis
    by (auto simp: policy_inv_def try_mark_live_def Let_def history_ok_def split: if_splits)
next
  case (te_rotate a)
  with inv running_phase [OF inv run] show ?thesis
    by (simp add: policy_inv_def Let_def history_ok_def)
next
  case (te_rotated t r s)
  then have "policy_inv s" "rc_started s" "\<not> ro_terminal (rc_observation s)"
    using policy_inv_calm [OF inv] calm_control calm_policy running_phase [OF inv run] by metis+
  with te_rotated(1) show ?thesis
    by (simp add: policy_inv_def commit_planned_rotation_def Let_def history_ok_def)
next
  case (te_record t r s)
  have s: "policy_inv s" "rc_started s" "\<not> ro_terminal (rc_observation s)"
    using policy_inv_record [OF inv] running_phase [OF inv run] te_record(2)
    by (simp_all add: record_failure_def Let_def)
  with te_record(3) policy_inv_gives_up [OF s(1,2)] show ?thesis
    by (auto intro: policy_inv_phase)
next
  case (te_exhaust d t s)
  then have "policy_inv s" "rc_started s"
    "ro_consecutive_recovery_attempts (rc_observation s) = kMaximumRecoveryAttempts"
    using policy_inv_calm [OF inv] calm_control calm_consecutive running_phase [OF inv run] inv
    by (metis, metis, simp add: calm_consecutive policy_inv_def Let_def)
  with te_exhaust(1) show ?thesis
    by (simp add: policy_inv_def exhaust_def leave_loop_def Let_def history_ok_def)
next
  case (te_backoff d t s s')
  then have s: "policy_inv s" "rc_started s" "\<not> ro_terminal (rc_observation s)"
    "\<not> ro_exhausted (rc_observation s)"
    using policy_inv_calm [OF inv] calm_control calm_policy running_phase [OF inv run] by metis+
  have less: "ro_consecutive_recovery_attempts (rc_observation s) < kMaximumRecoveryAttempts"
    using te_backoff by (simp add: calm_consecutive)
  obtain d' where "begin_backoff d s = (None, observe_with (\<lambda>ob. ob
      \<lparr>ro_consecutive_recovery_attempts := ro_consecutive_recovery_attempts ob + 1,
       ro_last_recovery_cause := Some (rd_cause d), ro_last_requested_delay := d',
       ro_state := RecBackoff, ro_in_backoff := True\<rparr>) s)"
    and bound: "backoff_delays ! ro_consecutive_recovery_attempts (rc_observation s) \<le> d'"
    by (rule begin_backoff_returns [OF less, of d])
  with te_backoff(6) have "s' = observe_with (\<lambda>ob. ob
      \<lparr>ro_consecutive_recovery_attempts := ro_consecutive_recovery_attempts ob + 1,
       ro_last_recovery_cause := Some (rd_cause d), ro_last_requested_delay := d',
       ro_state := RecBackoff, ro_in_backoff := True\<rparr>) s" by simp
  with s less bound te_backoff(1) show ?thesis
    by (simp add: policy_inv_def Let_def history_ok_def)
next
  case te_waited
  with inv running_phase [OF inv run] show ?thesis by (simp add: policy_inv_phase)
next
  case te_recover
  with inv running_phase [OF inv run] show ?thesis
    by (simp add: policy_inv_def Let_def history_ok_def)
next
  case te_reset
  with inv running_phase [OF inv run] show ?thesis
    by (simp add: policy_inv_def Let_def history_ok_def)
qed

lemma coordinator_step_running:
  "coordinator_step lc w st = Some st' \<Longrightarrow> rc_phase st \<noteq> PhEnded \<and> rc_phase st \<noteq> PhAbsent"
  by (auto simp: coordinator_step.simps)

definition coordinator_init :: "'h \<Rightarrow> ('g, 'h) coordinator \<Rightarrow> bool" where
  "coordinator_init hub st \<longleftrightarrow>
     (\<exists>rotation callbacks. make_coordinator True rotation callbacks True hub = Some st)"

lemma policy_inv_init: "coordinator_init hub st \<Longrightarrow> policy_inv st"
  by (auto simp: coordinator_init_def make_coordinator_def policy_inv_def initial_recovery_observation_def
      history_ok_def Let_def split: if_splits)

lemma policy_inv_step:
  assumes inv: "policy_inv st" and step: "recovery_step lc client st st'"
  shows "policy_inv st'"
  using step
proof cases
  case (rs_thread w)
  with policy_inv_effect [OF inv] coordinator_step_running thread_step_effect show ?thesis by blast
next
  case rs_start
  with inv show ?thesis
    by (auto simp: recovery_start_begin_def policy_inv_def Let_def history_ok_def)
next
  case (rs_started r)
  with inv show ?thesis
    by (auto simp: recovery_start_finish_def policy_inv_def Let_def history_ok_def)
next
  case rs_stop
  with inv show ?thesis
    by (auto simp: recovery_stop_begin_def policy_inv_def Let_def history_ok_def)
next
  case (rs_stopped t)
  let ?s = "if rc_active_attempt st \<noteq> None then persist_last_event t st else st"
  have calm: "calm st ?s" by (simp add: calm_persist calm_refl)
  have "policy_inv ?s" by (rule policy_inv_calm [OF inv calm])
  moreover have "st' = observe_with (\<lambda>ob. ob
      \<lparr>ro_state := RecStopped, ro_in_backoff := False, ro_active_transport_count := 0\<rparr>)
      (?s\<lparr>rc_active_attempt := None, rc_stopped := True\<rparr>)"
    using rs_stopped unfolding recovery_stop_finish_def by (simp split: if_splits)
  ultimately show ?thesis
    unfolding policy_inv_def Let_def history_ok_def by (simp del: if_not_P if_P split del: if_split)
next
  case rs_acceptance
  with inv show ?thesis
    by (auto simp: quiesce_for_acceptance_begin_def policy_inv_def Let_def history_ok_def)
next
  case (rs_accepted retained t b)
  have gone: "calm st (st\<lparr>rc_active_attempt := None\<rparr>)" by (simp add: calm_defs)
  have "calm st (observe_with (\<lambda>ob. ob\<lparr>ro_active_transport_count := 0\<rparr>)
      (persist_last_event t (st\<lparr>rc_active_attempt := None\<rparr>)))"
    "calm st (observe_with (\<lambda>ob. ob\<lparr>ro_active_transport_count := 0,
        ro_connection_generation := to_connection_generation t, ro_connection_id := to_connection_id t\<rparr>)
      (persist_last_event t (st\<lparr>rc_active_attempt := None\<rparr>)))"
    by (simp_all add: calm_defs persist_last_event_def)
  with rs_accepted gone have "calm st st'"
    by (auto simp: quiesce_for_acceptance_finish_def Let_def split: if_splits)
  with policy_inv_calm [OF inv] show ?thesis .
next
  case (rs_hub h)
  with policy_inv_calm [OF inv calm_source(1)] show ?thesis by simp
qed

interpretation recovery_system: invariant_system "coordinator_init hub" "recovery_step lc client" policy_inv
  for hub lc client
  by unfold_locales (auto intro: policy_inv_init policy_inv_step)

end
