(* ===== verification/SourceGenerations.thy ===== *)
theory SourceGenerations
  imports RecoveryInvariant EventPublication
begin

text \<open>
  The contract between the coordinator and the owner of its source generations, and that the
  event hub fulfils it: the wiring of \<open>coordinator_options\<close> in
  \<open>src/src/g11/multi_market_runtime.cpp\<close>.
\<close>

section \<open>The contract\<close>

text \<open>
  How a generation owner looks to the coordinator: no generation, one that is open, one that is
  quiesced, shut down by somebody else, or given up for good.
\<close>

datatype source_view = SvIdle | SvServing u64 | SvQuiet u64 | SvShutdown | SvFailed

definition settled :: "source_view \<Rightarrow> bool" where
  "settled v \<longleftrightarrow> v = SvIdle \<or> v = SvShutdown \<or> v = SvFailed"

locale source_provider =
  fixes ops :: "'h source_lifecycle" and view :: "'h \<Rightarrow> source_view" and sound :: "'h \<Rightarrow> bool"
    and client_step :: "'h \<Rightarrow> 'h \<Rightarrow> bool"
  assumes open_law: "sound h \<Longrightarrow> sl_open ops g h = (ok, h') \<Longrightarrow>
      sound h' \<and> (if ok then view h' = SvServing g else view h' = view h)"
    and quiesce_law: "sound h \<Longrightarrow> view h = SvServing g \<or> view h = SvShutdown \<Longrightarrow>
      \<exists>h'. sl_quiesce ops g h = (True, h') \<and> sound h'
        \<and> view h' = (if view h = SvShutdown then SvShutdown else SvQuiet g)"
    and close_law: "sound h \<Longrightarrow> view h = SvQuiet g \<or> view h = SvShutdown \<Longrightarrow>
      sl_close ops g out h = (ok, h') \<Longrightarrow>
      sound h' \<and> (if ok then settled (view h') else view h' = view h)
        \<and> (\<not> ok \<and> out = ClosePermanentFailure \<longrightarrow> view h = SvShutdown)"
    and client_law: "sound h \<Longrightarrow> client_step h h' \<Longrightarrow> sound h' \<and> (view h' = view h \<or> view h' = SvShutdown)"
begin

text \<open>The three situations of the coordinator, and the one in which it may end.\<close>

definition src_none :: "('g, 'h) coordinator \<Rightarrow> bool" where
  "src_none st \<longleftrightarrow> rc_source_generation_open st = None \<and> \<not> rc_source_generation_quiesced st
     \<and> sound (rc_hub st) \<and> settled (view (rc_hub st))"

definition src_serving :: "('g, 'h) coordinator \<Rightarrow> bool" where
  "src_serving st \<longleftrightarrow> rc_source_generation_open st = Some (rc_generation st)
     \<and> \<not> rc_source_generation_quiesced st \<and> sound (rc_hub st)
     \<and> (view (rc_hub st) = SvServing (rc_generation st) \<or> view (rc_hub st) = SvShutdown)"

definition src_quiet :: "('g, 'h) coordinator \<Rightarrow> bool" where
  "src_quiet st \<longleftrightarrow> (\<exists>g. rc_source_generation_open st = Some g
     \<and> rc_source_generation_quiesced st \<and> sound (rc_hub st)
     \<and> (view (rc_hub st) = SvQuiet g \<or> view (rc_hub st) = SvShutdown))"

definition src_done :: "('g, 'h) coordinator \<Rightarrow> bool" where
  "src_done st \<longleftrightarrow> sound (rc_hub st) \<and> settled (view (rc_hub st))"

lemma src_none_done: "src_none st \<Longrightarrow> src_done st"
  by (simp add: src_none_def src_done_def)

lemma src_shutdown_done: "sound (rc_hub st) \<Longrightarrow> view (rc_hub st) = SvShutdown \<Longrightarrow> src_done st"
  by (simp add: src_done_def settled_def)

text \<open>They only depend on the source fields, the owner, and the generation.\<close>

lemma src_same:
  assumes "rc_source_generation_open s = rc_source_generation_open st"
    and "rc_source_generation_quiesced s = rc_source_generation_quiesced st" and "rc_hub s = rc_hub st"
  shows "src_none s = src_none st" and "src_quiet s = src_quiet st" and "src_done s = src_done st"
    and "rc_generation s = rc_generation st \<Longrightarrow> src_serving s = src_serving st"
  using assms by (simp_all add: src_none_def src_quiet_def src_done_def src_serving_def)

lemma src_moved:
  assumes "sound (rc_hub st) \<Longrightarrow> sound h \<and> (view h = view (rc_hub st) \<or> view h = SvShutdown)"
  shows "src_none st \<Longrightarrow> src_none (st\<lparr>rc_hub := h\<rparr>)"
    and "src_quiet st \<Longrightarrow> src_quiet (st\<lparr>rc_hub := h\<rparr>)"
    and "src_serving st \<Longrightarrow> src_serving (st\<lparr>rc_hub := h\<rparr>)"
    and "src_done st \<Longrightarrow> src_done (st\<lparr>rc_hub := h\<rparr>)"
  using assms by (auto simp: src_none_def src_quiet_def src_done_def src_serving_def settled_def)

lemma gone_source:
  "rc_source_generation_open (attempt_gone a t st) = rc_source_generation_open st"
  "rc_source_generation_quiesced (attempt_gone a t st) = rc_source_generation_quiesced st"
  "rc_hub (attempt_gone a t st) = rc_hub st" "rc_generation (attempt_gone a t st) = rc_generation st"
  by (simp_all add: attempt_gone_def)

lemma persist_source:
  "rc_source_generation_open (persist_last_event t st) = rc_source_generation_open st"
  "rc_source_generation_quiesced (persist_last_event t st) = rc_source_generation_quiesced st"
  "rc_hub (persist_last_event t st) = rc_hub st" "rc_generation (persist_last_event t st) = rc_generation st"
  "rc_active_attempt (persist_last_event t st) = rc_active_attempt st"
  by (simp_all add: persist_last_event_def)

lemmas source_fields = gone_source persist_source

lemma quiesce_none:
  assumes "src_none st"
  obtains s where "quiesce_attempt lc a t st = (None, s)" and "src_none s"
proof (cases rule: quiesce_attempt_cases [of st t lc a])
  case idle
  then show thesis using assms src_same(1) [of "attempt_gone a t (persist_last_event t st)" st]
    by (auto intro: that simp: source_fields)
qed (use assms in \<open>simp_all add: src_none_def\<close>)

lemma quiesce_serving:
  assumes "src_serving st" and gen: "to_connection_generation t = rc_generation st"
  obtains s where "quiesce_attempt (Some ops) a t st = (None, s)" and "src_quiet s"
proof -
  have st: "rc_source_generation_open st = Some (to_connection_generation t)"
    "\<not> rc_source_generation_quiesced st" "sound (rc_hub st)"
    "view (rc_hub st) = SvServing (to_connection_generation t) \<or> view (rc_hub st) = SvShutdown"
    using assms by (auto simp: src_serving_def)
  from quiesce_law [OF st(3,4)] obtain hub where
    hub: "sl_quiesce ops (to_connection_generation t) (rc_hub st) = (True, hub)" "sound hub"
      "view hub = (if view (rc_hub st) = SvShutdown then SvShutdown else SvQuiet (to_connection_generation t))"
    by auto
  let ?s = "attempt_gone a t ((persist_last_event t st)\<lparr>rc_hub := hub, rc_source_generation_quiesced := True\<rparr>)"
  have "quiesce_attempt (Some ops) a t st = (None, ?s)"
    by (cases rule: quiesce_attempt_cases [of st t "Some ops" a]) (use st hub(1) in simp_all)
  moreover have "src_quiet ?s"
    using st(1) hub(2,3) by (auto simp: src_quiet_def source_fields)
  ultimately show thesis by (rule that)
qed

lemma close_none: "src_none st \<Longrightarrow> close_source_generation lc out st = (None, st)"
  by (cases rule: close_source_cases [of lc st out]) (auto simp: src_none_def)

lemma close_quiet:
  assumes "src_quiet st"
  obtains (closed) s where "close_source_generation (Some ops) out st = (None, s)" "src_none s"
  | (failed) m s where "close_source_generation (Some ops) out st = (Some m, s)" "src_quiet s"
      "out = ClosePermanentFailure \<Longrightarrow> src_done s"
proof (cases rule: close_source_cases [of "Some ops" st out])
  case unused
  then show thesis using assms by (auto simp: src_quiet_def)
next
  case refused
  then show thesis using assms by (simp add: src_quiet_def)
next
  case (failed callbacks g hub)
  have "sound (rc_hub st)" "view (rc_hub st) = SvQuiet g \<or> view (rc_hub st) = SvShutdown"
    using assms failed(2) by (auto simp: src_quiet_def)
  from close_law [OF this] failed(1,4)
  have h: "sound hub" "view hub = view (rc_hub st)" "out = ClosePermanentFailure \<longrightarrow> view hub = SvShutdown"
    by fastforce+
  with assms have "src_quiet (st\<lparr>rc_hub := hub\<rparr>)" unfolding src_quiet_def by auto
  moreover have "out = ClosePermanentFailure \<Longrightarrow> src_done (st\<lparr>rc_hub := hub\<rparr>)"
    using h by (simp add: src_done_def settled_def)
  ultimately show thesis using failed(5) that(2) by blast
next
  case (closed callbacks g hub)
  have "sound (rc_hub st)" "view (rc_hub st) = SvQuiet g \<or> view (rc_hub st) = SvShutdown"
    using assms closed(2) by (auto simp: src_quiet_def)
  from close_law [OF this] closed(1,4) have "sound hub" "settled (view hub)" by fastforce+
  then have "src_none (st\<lparr>rc_hub := hub, rc_source_generation_open := None, rc_source_generation_quiesced := False\<rparr>)"
    by (simp add: src_none_def)
  with closed(5) that(1) show thesis by blast
qed

section \<open>The exception handler\<close>

text \<open>In a situation the handler can deal with, an open generation still has its attempt.\<close>

definition src_ok :: "('g, 'h) coordinator \<Rightarrow> bool" where
  "src_ok st \<longleftrightarrow> src_none st \<or> src_quiet st \<or> (src_serving st \<and> rc_active_attempt st \<noteq> None)"

lemma handler_done:
  assumes "src_ok st" and "to_connection_generation t = rc_generation st"
  shows "src_done (close_source_after_exception (Some ops) t st)"
proof -
  consider "src_none st" | "src_quiet st" | a where "src_serving st" "rc_active_attempt st = Some a"
    using assms(1) by (auto simp: src_ok_def)
  then show ?thesis
  proof cases
    case 1
    then show ?thesis by (auto simp: close_source_after_exception_def src_none_def src_done_def)
  next
    case 2
    have "close_source_after_exception (Some ops) t st
        = snd (close_source_generation (Some ops) ClosePermanentFailure st)"
      using 2 by (auto simp: close_source_after_exception_def src_quiet_def)
    with close_quiet [OF 2, of ClosePermanentFailure] src_none_done show ?thesis by (metis snd_conv)
  next
    case 3
    obtain s where s: "quiesce_attempt (Some ops) a t st = (None, s)" "src_quiet s"
      using quiesce_serving [OF 3(1) assms(2)] by blast
    have "close_source_after_exception (Some ops) t st
        = snd (close_source_generation (Some ops) ClosePermanentFailure s)"
      using 3 s(1) by (auto simp: close_source_after_exception_def src_serving_def)
    with close_quiet [OF s(2), of ClosePermanentFailure] src_none_done show ?thesis by (metis snd_conv)
  qed
qed

lemma set_terminal_source:
  "rc_source_generation_open (set_terminal c e x st) = rc_source_generation_open st"
  "rc_source_generation_quiesced (set_terminal c e x st) = rc_source_generation_quiesced st"
  "rc_hub (set_terminal c e x st) = rc_hub st" "rc_generation (set_terminal c e x st) = rc_generation st"
  by (simp_all add: set_terminal_def)

lemma exception_done:
  assumes "src_ok st" and "to_connection_generation (cw_attempt_stopped w) = rc_generation st"
  shows "src_done (coordinator_exception (Some ops) w m st)"
  using handler_done [OF assms]
  by (simp add: coordinator_exception_def src_done_def set_terminal_source)

lemma leave_done: "src_done st \<Longrightarrow> src_done (leave_loop st)"
  by (simp add: leave_loop_def src_done_def)

text \<open>Closing a generation before the loop is left, with or without an exception.\<close>

lemma close_then_done:
  assumes st: "src_none st \<or> src_quiet st"
    and gen: "to_connection_generation (cw_attempt_stopped w) = rc_generation st"
    and k: "\<And>s. src_none s \<Longrightarrow> rc_generation s = rc_generation st \<Longrightarrow> src_done (k s)"
  shows "src_done (attempt_then (Some ops) w (close_source_generation (Some ops) out st) k)"
proof -
  have calm: "calm st (snd (close_source_generation (Some ops) out st))" by (rule calm_close)
  consider (closed) s where "close_source_generation (Some ops) out st = (None, s)" "src_none s"
    | (failed) m s where "close_source_generation (Some ops) out st = (Some m, s)" "src_quiet s"
    using st close_none [of st "Some ops" out] close_quiet [of st out] by metis
  then show ?thesis
  proof cases
    case closed
    with calm_control(2) [OF calm] k show ?thesis by (simp add: attempt_then_def)
  next
    case failed
    then have "src_ok s" "rc_generation s = rc_generation st"
      using calm_control(2) [OF calm] by (simp_all add: src_ok_def)
    with gen have "src_done (coordinator_exception (Some ops) w m s)"
      by (intro exception_done) simp_all
    with failed(1) show ?thesis by (simp add: attempt_then_def)
  qed
qed

lemma close_and_leave_done:
  assumes "src_none st \<or> src_quiet st" and "to_connection_generation (cw_attempt_stopped w) = rc_generation st"
  shows "src_done (close_and_leave (Some ops) w st)"
  unfolding close_and_leave_def
  by (rule close_then_done [OF assms]) (simp add: leave_done src_none_done)

text \<open>Quiescing an attempt never throws.\<close>

lemma quiesce_attempt_done:
  assumes "src_none st \<or> src_serving st"
    and gen: "to_connection_generation (cw_attempt_stopped w) = rc_generation st"
    and k: "\<And>s. src_none s \<or> src_quiet s \<Longrightarrow> rc_generation s = rc_generation st \<Longrightarrow> P (k s)"
  shows "P (attempt_then (Some ops) w (quiesce_attempt (Some ops) a (cw_attempt_stopped w) st) k)"
proof -
  obtain s where s: "quiesce_attempt (Some ops) a (cw_attempt_stopped w) st = (None, s)"
      "src_none s \<or> src_quiet s"
    using assms(1) quiesce_none [of st "Some ops" a "cw_attempt_stopped w"] quiesce_serving [OF _ gen, of a]
    by metis
  moreover have "rc_generation s = rc_generation st"
    using calm_control(2) [OF calm_quiesce [of st "Some ops" a "cw_attempt_stopped w"]] s(1) by simp
  ultimately show ?thesis using k by (simp add: attempt_then_def)
qed

lemma abandon_done:
  assumes "src_none st \<or> src_serving st" and gen: "to_connection_generation (cw_attempt_stopped w) = rc_generation st"
  shows "src_done (abandon_attempt (Some ops) w a st)"
  unfolding abandon_attempt_def
  by (rule quiesce_attempt_done [OF assms])
    (rule close_then_done, use gen in \<open>auto simp: leave_done src_none_done\<close>)

section \<open>The loop\<close>

text \<open>Which situation the coordinator is in at each point of its loop.\<close>

fun source_at :: "'g coordinator_phase \<Rightarrow> ('g, 'h) coordinator \<Rightarrow> bool" where
  "source_at (PhAwaitLive a _) st = (src_serving st \<and> rc_active_attempt st = Some a)"
| "source_at (PhLive a _) st = (src_serving st \<and> rc_active_attempt st = Some a)"
| "source_at (PhRotate a) st = (src_serving st \<and> rc_active_attempt st = Some a)"
| "source_at (PhQuiesce a _) st = (src_none st \<or> src_serving st \<and> rc_active_attempt st = Some a)"
| "source_at (PhBarrier _ _) st = (src_none st \<or> src_quiet st)"
| "source_at (PhPlannedReset _ _) st = (src_none st \<or> src_quiet st)"
| "source_at (PhClassify _ _) st = (src_none st \<or> src_quiet st)"
| "source_at (PhCommit _ _) st = (src_none st \<or> src_quiet st)"
| "source_at (PhCreated a) st = (src_none st \<and> rc_active_attempt st = Some a)"
| "source_at (PhStarted a _ _) st = (src_none st \<and> rc_active_attempt st = Some a)"
| "source_at PhEnded st = src_done st"
| "source_at _ st = src_none st"

definition source_inv :: "('g, 'h) coordinator \<Rightarrow> bool" where
  "source_inv st \<longleftrightarrow> source_at (rc_phase st) st"

lemma src_frame [simp]:
  "src_none (go ph st) = src_none st" "src_none (observe_with f st) = src_none st"
  "src_quiet (go ph st) = src_quiet st" "src_quiet (observe_with f st) = src_quiet st"
  "src_serving (go ph st) = src_serving st" "src_serving (observe_with f st) = src_serving st"
  "src_done (go ph st) = src_done st" "src_done (observe_with f st) = src_done st"
  "src_none (rc_generation_update n st) = src_none st" "src_none (create_attempt t st) = src_none st"
  "src_none (commit_planned_rotation t r st) = src_none st"
  "src_none (set_terminal c e x st) = src_none st" "src_done (set_terminal c e x st) = src_done st"
  "src_done (leave_loop st) = src_done st"
  by (simp_all add: src_none_def src_quiet_def src_serving_def src_done_def create_attempt_def
      commit_planned_rotation_def set_terminal_source leave_loop_def)

lemma source_inv_done: "src_done st' \<Longrightarrow> gives_up st st' \<Longrightarrow> source_inv st'"
  by (simp add: source_inv_def gives_up_def)

lemma source_inv_go [simp]: "source_inv (go ph st) = source_at ph (go ph st)"
  by (simp add: source_inv_def)

lemma active_created: "rc_active_attempt (create_attempt t st) = Some (rc_attempts st)"
  by (simp add: create_attempt_def)

lemma source_top:
  assumes "src_none st" and gen: "to_connection_generation (cw_attempt_stopped w) = rc_generation st"
  shows "source_inv (step_top (Some ops) w st)"
proof (cases "rc_shutdown_requested st")
  case True
  then show ?thesis
    using assms(1) by (auto simp: step_top_def source_inv_def leave_loop_def src_none_done)
next
  case False
  have "source_inv (coordinator_exception (Some ops) w m st)" for m
    using exception_done [OF _ gen] assms(1)
    by (intro source_inv_done [OF _ gives_up_exception [OF calm_refl]]) (simp add: src_ok_def)
  moreover have "source_inv (leave_loop (set_terminal c e x st))" for c e x
    using assms(1) by (simp add: source_inv_def leave_loop_def src_none_done)
  moreover have "source_inv (go (PhCreated (rc_attempts st)) (create_attempt t st))" for t
    using assms(1) by (simp add: active_created)
  ultimately show ?thesis
    using False by (simp add: step_top_def split: sum.split option.split)
qed

lemma source_abandon:
  assumes "src_none st \<or> src_serving st" and "to_connection_generation (cw_attempt_stopped w) = rc_generation st"
  shows "source_inv (abandon_attempt (Some ops) w a st)"
  by (rule source_inv_done [OF abandon_done [OF assms] gives_up_abandon])

lemma source_quiesce_throw:
  assumes "src_none st \<or> src_serving st" and gen: "to_connection_generation (cw_attempt_stopped w) = rc_generation st"
  shows "source_inv (attempt_then (Some ops) w
    (quiesce_attempt (Some ops) a (cw_attempt_stopped w) st) (coordinator_exception (Some ops) w m))"
  by (rule source_inv_done [OF _ gives_up_quiesce_throw], rule quiesce_attempt_done [OF assms],
      rule exception_done) (use gen in \<open>auto simp: src_ok_def\<close>)

lemma source_exception:
  assumes "src_ok st" and "to_connection_generation (cw_attempt_stopped w) = rc_generation st"
  shows "source_inv (coordinator_exception (Some ops) w m st)"
  by (rule source_inv_done [OF exception_done [OF assms] gives_up_exception [OF calm_refl]])

lemma source_created:
  assumes "src_none st" and active: "rc_active_attempt st = Some a"
    and gen: "to_connection_generation (cw_attempt_stopped w) = rc_generation st"
  shows "source_inv (step_created (Some ops) w a st)"
  using assms(1) active source_abandon [OF _ gen, of a] source_quiesce_throw [OF _ gen, of a]
  by (simp add: step_created_def Let_def split: option.split sum.split)

lemma source_started:
  assumes st: "src_none st" and active: "rc_active_attempt st = Some a"
    and gen: "to_connection_generation (cw_attempt_stopped w) = rc_generation st"
  shows "source_inv (step_started (Some ops) w a rot res st)"
proof -
  let ?r = "open_source_generation (Some ops) (cw_attempt_running w) (rc_generation st) st"
  let ?k = "go (PhAwaitLive a rot)"
  have sound: "sound (rc_hub st)" "settled (view (rc_hub st))" using st by (simp_all add: src_none_def)
  have fail: "source_inv (coordinator_exception (Some ops) w m s)"
    if "src_none s" "rc_generation s = rc_generation st" for m s
    by (rule source_exception) (use that gen in \<open>simp_all add: src_ok_def\<close>)
  have "source_inv (attempt_then (Some ops) w ?r ?k)"
  proof (cases rule: open_source_cases [of "Some ops" "cw_attempt_running w" "rc_generation st" st])
    case refused
    then show ?thesis using fail [OF st refl] by (simp add: attempt_then_def)
  next
    case (failed callbacks hub)
    then have "sound hub" "view hub = view (rc_hub st)" using open_law [OF sound(1)] by fastforce+
    then have "src_none (st\<lparr>rc_hub := hub\<rparr>)" using st sound(2) by (simp add: src_none_def)
    then show ?thesis using failed(3) fail by (simp add: attempt_then_def)
  next
    case (opened callbacks hub)
    then have "sound hub" "view hub = SvServing (rc_generation st)" using open_law [OF sound(1)] by fastforce+
    then have "src_serving (st\<lparr>rc_hub := hub, rc_source_generation_open := Some (rc_generation st)\<rparr>)"
      using st by (simp add: src_none_def src_serving_def)
    then show ?thesis using opened(6) active by (simp add: attempt_then_def)
  qed simp
  moreover have "source_inv (abandon_attempt (Some ops) w a st)" using source_abandon [OF _ gen] st by blast
  ultimately show ?thesis using st by (simp add: step_started_def)
qed

lemma source_await_live:
  assumes st: "src_serving st" and active: "rc_active_attempt st = Some a"
    and gen: "to_connection_generation (cw_attempt_stopped w) = rc_generation st"
  shows "source_inv (step_await_live (Some ops) w a rot st)"
proof -
  have "source_inv (abandon_attempt (Some ops) w a st)" using source_abandon [OF _ gen] st by blast
  moreover have "source_inv (coordinator_exception (Some ops) w m st)" for m
    by (rule source_exception [OF _ gen]) (use st active in \<open>simp add: src_ok_def\<close>)
  moreover have "src_serving s \<and> rc_active_attempt s = Some a" if "try_mark_live q t st = (ok, s)" for q t ok s
    using that st active by (auto simp: try_mark_live_def split: if_splits)
  ultimately show ?thesis
    using st active by (fastforce simp: step_await_live_def split: option.split prod.split bool.split)
qed

lemma source_live:
  assumes st: "src_serving st" and active: "rc_active_attempt st = Some a"
    and gen: "to_connection_generation (cw_attempt_stopped w) = rc_generation st"
  shows "source_inv (step_live (Some ops) w a rot st)"
proof -
  have a: "source_inv (abandon_attempt (Some ops) w a st)" using source_abandon [OF _ gen] st by blast
  have q: "source_inv (go (PhQuiesce a False) st)" "source_inv (go (PhRotate a) st)" using st active by simp_all
  have thrown: "source_inv (attempt_then (Some ops) w (quiesce_attempt (Some ops) a (cw_attempt_stopped w) st)
      (\<lambda>st1. attempt_then (Some ops) w (close_source_generation (Some ops) ClosePermanentFailure st1)
                 (coordinator_exception (Some ops) w m)))" for m
  proof (rule source_inv_done)
    show "gives_up st (attempt_then (Some ops) w (quiesce_attempt (Some ops) a (cw_attempt_stopped w) st)
      (\<lambda>st1. attempt_then (Some ops) w (close_source_generation (Some ops) ClosePermanentFailure st1)
                 (coordinator_exception (Some ops) w m)))"
      by (rule gives_up_attempt_then [OF calm_quiesce], rule gives_up_attempt_then)
        (auto intro: calm_trans calm_close gives_up_exception)
    show "src_done (attempt_then (Some ops) w (quiesce_attempt (Some ops) a (cw_attempt_stopped w) st)
      (\<lambda>st1. attempt_then (Some ops) w (close_source_generation (Some ops) ClosePermanentFailure st1)
                 (coordinator_exception (Some ops) w m)))"
      by (rule quiesce_attempt_done [OF _ gen], use st in blast, rule close_then_done)
        (use gen in \<open>auto simp: src_ok_def intro!: exception_done\<close>)
  qed
  show ?thesis
    using a q thrown by (simp add: step_live_def split: option.split sum.split prod.split timed_recovery_wait_result.split)
qed

lemma source_quiesce:
  assumes st: "src_none st \<or> src_serving st"
    and gen: "to_connection_generation (cw_attempt_stopped w) = rc_generation st"
  shows "source_inv (step_quiesce (Some ops) w a due st)"
  unfolding step_quiesce_def
  by (rule quiesce_attempt_done [OF assms]) simp

lemma source_barrier:
  assumes st: "src_none st \<or> src_quiet st"
    and gen: "to_connection_generation (cw_attempt_stopped w) = rc_generation st"
  shows "source_inv (step_barrier (Some ops) w due t st)"
proof -
  let ?timeout = "coordinator_exception (Some ops) w ''runtime owner observation deadline exceeded'' st"
  have leave: "source_inv (close_and_leave (Some ops) w st)"
    by (rule source_inv_done [OF close_and_leave_done [OF assms] gives_up_close_and_leave [OF calm_refl]])
  have timeout: "source_inv ?timeout"
    by (rule source_exception [OF _ gen]) (use st in \<open>auto simp: src_ok_def\<close>)
  have decide: "source_inv (if due \<and> is_clean_planned_cut r t then go (PhPlannedReset t r) st
      else go (PhClassify t r) st)" for r
    using st by simp
  have refused: "source_inv (attempt_then (Some ops) w (close_source_generation (Some ops) ClosePermanentFailure st)
      (\<lambda>st1. leave_loop (set_terminal CauseInternalFailure (internal_error m) False st1)))" for m
    by (rule source_inv_done [OF close_then_done [OF assms] gives_up_attempt_then [OF calm_close]])
      (simp_all add: src_none_done gives_up_terminal)
  show ?thesis
    unfolding step_barrier_def Let_def
    by (intro leave timeout decide refused conjI impI allI
        if_splits(1) [where P = source_inv, THEN iffD2] option.split [where P = source_inv, THEN iffD2])
qed

lemma close_then_inv:
  assumes st: "src_none st \<or> src_quiet st"
    and gen: "to_connection_generation (cw_attempt_stopped w) = rc_generation st"
    and k: "\<And>s. src_none s \<Longrightarrow> calm st s \<Longrightarrow> source_inv (k s)"
  shows "source_inv (attempt_then (Some ops) w (close_source_generation (Some ops) out st) k)"
proof -
  have calm: "calm st (snd (close_source_generation (Some ops) out st))" by (rule calm_close)
  consider (closed) s where "close_source_generation (Some ops) out st = (None, s)" "src_none s"
    | (failed) m s where "close_source_generation (Some ops) out st = (Some m, s)" "src_quiet s"
    using st close_none [of st "Some ops" out] close_quiet [of st out] by metis
  then show ?thesis
  proof cases
    case closed
    with calm k show ?thesis by (simp add: attempt_then_def)
  next
    case failed
    then have "src_ok s" "rc_generation s = rc_generation st"
      using calm_control(2) [OF calm] by (simp_all add: src_ok_def)
    with gen have "source_inv (coordinator_exception (Some ops) w m s)"
      by (intro source_exception) simp_all
    with failed(1) show ?thesis by (simp add: attempt_then_def)
  qed
qed

lemma source_leave: "src_done st \<Longrightarrow> source_inv (leave_loop st)"
  by (simp add: source_inv_def leave_loop_def)

lemma source_planned_reset:
  assumes st: "src_none st \<or> src_quiet st"
    and gen: "to_connection_generation (cw_attempt_stopped w) = rc_generation st"
  shows "source_inv (step_planned_reset (Some ops) w t r st)"
  unfolding step_planned_reset_def close_and_leave_def
  by (simp add: close_then_inv [OF assms] source_leave src_none_done)

lemma source_classify:
  assumes st: "src_none st \<or> src_quiet st"
    and gen: "to_connection_generation (cw_attempt_stopped w) = rc_generation st"
  shows "source_inv (step_classify (Some ops) w t r st)"
  unfolding step_classify_def Let_def
  by (simp add: assms close_then_inv source_leave src_none_done)

lemma source_commit:
  assumes st: "src_none st \<or> src_quiet st"
    and gen: "to_connection_generation (cw_attempt_stopped w) = rc_generation st"
  shows "source_inv (step_commit (Some ops) w d t st)"
proof -
  have resume: "source_inv (attempt_then (Some ops) w (begin_backoff d s) (go PhBackoff))"
    if s: "src_none s" "calm st s" for s
  proof -
    obtain e s' where r: "begin_backoff d s = (e, s')" by fastforce
    then have s': "src_none s'" "rc_generation s' = rc_generation st"
      using s(1) calm_control(2) [OF s(2)] by (auto simp: begin_backoff_def Let_def split: option.splits)
    have "source_inv (coordinator_exception (Some ops) w m s')" for m
      by (rule source_exception) (use s' gen in \<open>simp_all add: src_ok_def\<close>)
    with s'(1) r show ?thesis by (cases e) (simp_all add: attempt_then_def)
  qed
  show ?thesis
    unfolding step_commit_def close_and_leave_def
    by (simp add: close_then_inv [OF assms] source_leave src_none_done exhaust_def resume)
qed

lemma source_reset: "src_none st \<Longrightarrow> source_inv (step_reset w st)"
  by (simp add: step_reset_def source_leave src_none_done)

text \<open>A step of the thread keeps the situation.\<close>

lemma source_inv_thread:
  assumes inv: "source_inv st" and world: "faithful_world st w"
    and step: "coordinator_step (Some ops) w st = Some st'"
  shows "source_inv st'"
proof -
  have gen: "to_connection_generation (cw_attempt_stopped w) = rc_generation st"
    using world by (simp add: faithful_world_def)
  note at = inv [unfolded source_inv_def] and eq = step [unfolded coordinator_step.simps]
  show ?thesis
  proof (cases "rc_phase st")
    case PhTop
    then show ?thesis using at eq source_top [OF _ gen] by simp
  next
    case PhCreated
    then show ?thesis using at eq source_created [OF _ _ gen] by auto
  next
    case PhStarted
    then show ?thesis using at eq source_started [OF _ _ gen] by auto
  next
    case PhAwaitLive
    then show ?thesis using at eq source_await_live [OF _ _ gen] by auto
  next
    case PhLive
    then show ?thesis using at eq source_live [OF _ _ gen] by auto
  next
    case (PhRotate a)
    then show ?thesis
      using at eq source_abandon [OF _ gen] by (auto simp: step_rotate_def split: if_splits)
  next
    case PhQuiesce
    then show ?thesis using at eq source_quiesce [OF _ gen] by auto
  next
    case PhBarrier
    then show ?thesis using at eq source_barrier [OF _ gen] by auto
  next
    case PhPlannedReset
    then show ?thesis using at eq source_planned_reset [OF _ gen] by auto
  next
    case PhClassify
    then show ?thesis using at eq source_classify [OF _ gen] by auto
  next
    case PhCommit
    then show ?thesis using at eq source_commit [OF _ gen] by auto
  next
    case PhBackoff
    then show ?thesis using at eq by (auto simp: step_backoff_def source_leave src_none_done)
  next
    case PhRecover
    then show ?thesis using at eq by (auto simp: step_recover_def source_leave src_none_done)
  next
    case PhReset
    then show ?thesis using at eq source_reset by auto
  qed (use eq in simp_all)
qed

lemma source_at_same:
  assumes "rc_source_generation_open s = rc_source_generation_open st"
    and "rc_source_generation_quiesced s = rc_source_generation_quiesced st" and "rc_hub s = rc_hub st"
    and "rc_generation s = rc_generation st" and "rc_active_attempt s = rc_active_attempt st"
    and "rc_phase s = rc_phase st"
  shows "source_inv s = source_inv st"
  unfolding source_inv_def assms(6)
  by (cases "rc_phase st") (simp_all add: src_same [OF assms(1-3)] assms(4,5))

lemma source_moved:
  assumes "source_inv st" and "client_step (rc_hub st) h"
  shows "source_inv (st\<lparr>rc_hub := h\<rparr>)"
  using assms(1) src_moved [OF client_law [OF _ assms(2)]]
  unfolding source_inv_def by (cases "rc_phase st") auto

lemma joinable_source:
  assumes "source_inv st" and "joinable_done st"
    and "rc_source_generation_open s = rc_source_generation_open st"
    and "rc_source_generation_quiesced s = rc_source_generation_quiesced st" and "rc_hub s = rc_hub st"
    and "rc_phase s = rc_phase st"
  shows "source_inv s"
  using assms(1,2) src_same [OF assms(3-5)] unfolding source_inv_def joinable_done_def assms(6) by auto

lemma source_inv_step:
  assumes inv: "source_inv st"
    and step: "recovery_step (Some ops) client_step st st'"
  shows "source_inv st'"
  using step
proof cases
  case (rs_thread w)
  with source_inv_thread [OF inv] show ?thesis by blast
next
  case rs_start
  then have "source_inv st' = source_inv st"
    by (intro source_at_same) (simp_all add: recovery_start_begin_def)
  with inv show ?thesis by simp
next
  case (rs_started r)
  then have "src_none st" using inv by (simp add: source_inv_def)
  with rs_started show ?thesis by (simp add: recovery_start_finish_def source_inv_def)
next
  case rs_stop
  then have "source_inv st' = source_inv st"
    by (intro source_at_same) (simp_all add: recovery_stop_begin_def)
  with inv show ?thesis by simp
next
  case (rs_stopped t)
  show ?thesis
    by (rule joinable_source [OF inv])
      (use rs_stopped in \<open>auto simp: recovery_stop_finish_def persist_source persist_last_event_def split: if_splits\<close>)
next
  case rs_acceptance
  then have "source_inv st' = source_inv st"
    by (intro source_at_same) (simp_all add: quiesce_for_acceptance_begin_def)
  with inv show ?thesis by simp
next
  case (rs_accepted retained t b)
  show ?thesis
    by (rule joinable_source [OF inv])
      (use rs_accepted in \<open>auto simp: quiesce_for_acceptance_finish_def Let_def persist_last_event_def split: if_splits\<close>)
next
  case (rs_hub h)
  with source_moved [OF inv] show ?thesis by simp
qed

end

end
