(* ===== verification/ProductRuntime.thy ===== *)
theory ProductRuntime
  imports SourceGenerations
begin

text \<open>
  One product of \<open>src/src/g11/multi_market_runtime.cpp\<close>: how the recovery coordinator's source
  generation callbacks drive the event hub (\<open>coordinator_options\<close>), how the attempts' event sink
  feeds it, and the composition of both with the hub's own clients. The hub fulfils the
  coordinator's contract, so no run of a product leaves a source generation open behind the
  coordinator thread.
\<close>

section \<open>The wiring\<close>

text \<open>The sink of \<open>make_options\<close>; it is the same for both markets.\<close>

definition product_event_sink ::
  "clock_sample option \<Rightarrow> (nat \<Rightarrow> nat option) \<Rightarrow> normalized_market_event shared_ptr \<Rightarrow> u64
     \<Rightarrow> event_publication \<Rightarrow> normalized_event_sink_result \<times> event_publication" where
  "product_event_sink clock alloc event generation p =
     (case publish clock alloc event generation p of
        (r, p') \<Rightarrow> (if r = EvInvariantFailure then SinkInvariantFailure else SinkContinue, p'))"

text \<open>
  The callbacks. The state of their owner is the hub together with the number of clock readings
  taken so far; \<open>clock\<close> gives the readings (\<open>None\<close>: the clock threw).
\<close>

type_synonym hub = "event_publication \<times> nat"

definition hub_open :: "u64 \<Rightarrow> hub \<Rightarrow> bool \<times> hub" where
  "hub_open generation h =
     (case open_generation generation (fst h) of (ok, p) \<Rightarrow> (ok, (p, snd h)))"

definition hub_quiesce :: "u64 \<Rightarrow> hub \<Rightarrow> bool \<times> hub" where
  "hub_quiesce generation h =
     (if eo_source_state (ep_observe (fst h)) = SrcShutdown then (True, h)
      else case quiesce_generation generation (fst h) of (ok, p) \<Rightarrow> (ok, (p, snd h)))"

definition hub_close ::
  "(nat \<Rightarrow> clock_sample option) \<Rightarrow> u64 \<Rightarrow> source_generation_close_outcome \<Rightarrow> hub \<Rightarrow> bool \<times> hub" where
  "hub_close clock generation outcome h =
     (if outcome = CloseGlobalShutdown then (True, (ep_shutdown (fst h), snd h))
      else if outcome = CloseReplacement then
        (case close_generation_replaced (clock (snd h)) generation (fst h) of
           (ok, p) \<Rightarrow> (ok, (p, snd h + 1)))
      else case close_generation_permanently generation (fst h) of (ok, p) \<Rightarrow> (ok, (p, snd h)))"

definition coordinator_options :: "(nat \<Rightarrow> clock_sample option) \<Rightarrow> hub source_lifecycle" where
  "coordinator_options clock =
     \<lparr>sl_open = hub_open, sl_quiesce = hub_quiesce, sl_close = hub_close clock\<rparr>"

text \<open>
  What everybody else does to the hub meanwhile: the transports publish, the writers of the
  subscriptions come, read and go, and \<open>shutdown_publications\<close> may close it.
\<close>

inductive hub_client :: "hub \<Rightarrow> hub \<Rightarrow> bool" where
  hc_admit: "(case ca of None \<Rightarrow> True | Some a \<Rightarrow> ep_store p a = None) \<Longrightarrow>
    hub_client (p, n) (snd (ep_admit clk ca ra sub p), n)"
| hc_publish: "hub_client (p, n) (snd (product_event_sink clk alloc e g p), n)"
| hc_remove: "hub_client (p, n) (ep_remove ch p, n)"
| hc_shutdown: "hub_client (p, n) (ep_shutdown p, n)"
| hc_writer_ack: "ep_store p a = Some c \<Longrightarrow>
    hub_client (p, n) (p\<lparr>ep_store := (ep_store p)(a \<mapsto> snd (ev_acknowledge q c))\<rparr>, n)"
| hc_writer_close: "ep_store p a = Some c \<Longrightarrow>
    hub_client (p, n) (p\<lparr>ep_store := (ep_store p)(a \<mapsto> ev_close_from_writer c)\<rparr>, n)"

section \<open>The hub as a provider of source generations\<close>

definition hub_view :: "hub \<Rightarrow> source_view" where
  "hub_view h = (case ep_source_state (fst h) of
       SrcClosed \<Rightarrow> SvIdle
     | SrcOpen \<Rightarrow> SvServing (the (ep_source_generation (fst h)))
     | SrcQuiesced \<Rightarrow> SvQuiet (the (ep_source_generation (fst h)))
     | SrcPermanentlyClosed \<Rightarrow> SvFailed
     | SrcShutdown \<Rightarrow> SvShutdown)"

definition hub_sound :: "hub \<Rightarrow> bool" where
  "hub_sound h \<longleftrightarrow> ep_inv (fst h)
     \<and> (ep_source_state (fst h) \<in> {SrcOpen, SrcQuiesced} \<longrightarrow> ep_source_generation (fst h) \<noteq> None)"

lemma publish_source:
  "ep_source_state (snd (publish clk al e g p)) = ep_source_state p"
  "ep_source_generation (snd (publish clk al e g p)) = ep_source_generation p"
  by (simp_all add: publish_def split: shared_ptr.split option.split prod.split)

lemma ep_admit_source:
  "ep_source_state (snd (ep_admit clk ca ra sub p)) = ep_source_state p"
  "ep_source_generation (snd (ep_admit clk ca ra sub p)) = ep_source_generation p"
  by (cases rule: ep_admit_cases [of clk ca ra sub p]; simp)+

lemma sink_publish: "snd (product_event_sink clk al e g p) = snd (publish clk al e g p)"
  by (simp add: product_event_sink_def split: prod.split)

lemma hub_client_step: "hub_client (p, n) (p', n') \<Longrightarrow> event_publication_step p p'"
  by (induction "(p, n)" "(p', n')" arbitrary: rule: hub_client.induct)
    (auto simp: sink_publish intro: event_publication_step.intros)

lemma hub_open_law:
  assumes "hub_sound h" and "hub_open g h = (ok, h')"
  shows "hub_sound h' \<and> (if ok then hub_view h' = SvServing g else hub_view h' = hub_view h)"
proof -
  have "ep_inv (snd (open_generation g (fst h)))"
    using assms(1) event_hub.inv_step [OF _ eps_open] by (simp add: hub_sound_def)
  with assms show ?thesis
    by (auto simp: hub_open_def open_generation_def hub_view_def hub_sound_def split: if_splits)
qed

lemma hub_quiesce_law:
  assumes "hub_sound h" and "hub_view h = SvServing g \<or> hub_view h = SvShutdown"
  shows "\<exists>h'. hub_quiesce g h = (True, h') \<and> hub_sound h'
    \<and> hub_view h' = (if hub_view h = SvShutdown then SvShutdown else SvQuiet g)"
proof -
  have "ep_inv (snd (quiesce_generation g (fst h)))"
    using assms(1) event_hub.inv_step [OF _ eps_quiesce] by (simp add: hub_sound_def)
  with assms show ?thesis
    by (cases "ep_source_state (fst h)")
      (auto simp: hub_quiesce_def ep_observe_def quiesce_generation_def hub_view_def hub_sound_def)
qed

lemma hub_close_law:
  assumes "hub_sound h" and "hub_view h = SvQuiet g \<or> hub_view h = SvShutdown"
    and "hub_close clock g out h = (ok, h')"
  shows "hub_sound h' \<and> (if ok then settled (hub_view h') else hub_view h' = hub_view h)
    \<and> (\<not> ok \<and> out = ClosePermanentFailure \<longrightarrow> hub_view h = SvShutdown)"
proof -
  have p: "ep_inv (fst h)" using assms(1) by (simp add: hub_sound_def)
  have inv: "ep_inv (ep_shutdown (fst h))" "ep_inv (snd (close_generation_replaced clk g (fst h)))"
      "ep_inv (snd (close_generation_permanently g (fst h)))" for clk
    using event_hub.inv_step [OF p] eps_shutdown eps_replaced eps_permanent by blast+
  have shutdown: "ep_source_state (ep_shutdown (fst h)) = SrcShutdown" by (simp add: ep_shutdown_def)
  show ?thesis
  proof (cases out)
    case CloseGlobalShutdown
    with assms inv(1) shutdown show ?thesis
      by (auto simp: hub_close_def hub_view_def hub_sound_def settled_def)
  next
    case CloseReplacement
    with assms inv(2) [of "clock (snd h)"] show ?thesis
      by (auto simp: hub_close_def close_generation_replaced_def terminalize_replaced_locked_def
          hub_view_def hub_sound_def settled_def split: option.splits if_splits event_source_state.splits)
  next
    case ClosePermanentFailure
    with assms inv(3) show ?thesis
      by (auto simp: hub_close_def close_generation_permanently_def
          hub_view_def hub_sound_def settled_def split: if_splits event_source_state.splits)
  qed
qed

lemma hub_client_law:
  assumes "hub_sound h" and "hub_client h h'"
  shows "hub_sound h' \<and> (hub_view h' = hub_view h \<or> hub_view h' = SvShutdown)"
proof -
  obtain p n p' n' where h: "h = (p, n)" "h' = (p', n')" by fastforce
  have inv: "ep_inv p'"
    using assms event_hub.inv_step hub_client_step unfolding h hub_sound_def fst_conv by blast
  have "ep_source_state p' = SrcShutdown
      \<or> ep_source_state p' = ep_source_state p \<and> ep_source_generation p' = ep_source_generation p"
    using assms(2) unfolding h
    by cases (simp_all add: ep_admit_source publish_source sink_publish ep_shutdown_def ep_remove_def
        split: option.split)
  with inv assms(1) show ?thesis
    unfolding h by (cases "ep_source_state p") (auto simp: hub_view_def hub_sound_def)
qed

interpretation hub_sources: source_provider "coordinator_options clock" hub_view hub_sound hub_client
  for clock
proof
  fix h h' :: hub and g ok out
  show "hub_sound h \<Longrightarrow> sl_open (coordinator_options clock) g h = (ok, h') \<Longrightarrow>
      hub_sound h' \<and> (if ok then hub_view h' = SvServing g else hub_view h' = hub_view h)"
    by (simp only: coordinator_options_def source_lifecycle.simps) (rule hub_open_law)
  show "hub_sound h \<Longrightarrow> hub_view h = SvServing g \<or> hub_view h = SvShutdown \<Longrightarrow>
      \<exists>h'. sl_quiesce (coordinator_options clock) g h = (True, h') \<and> hub_sound h'
        \<and> hub_view h' = (if hub_view h = SvShutdown then SvShutdown else SvQuiet g)"
    by (simp only: coordinator_options_def source_lifecycle.simps) (rule hub_quiesce_law)
  show "hub_sound h \<Longrightarrow> hub_view h = SvQuiet g \<or> hub_view h = SvShutdown \<Longrightarrow>
      sl_close (coordinator_options clock) g out h = (ok, h') \<Longrightarrow>
      hub_sound h' \<and> (if ok then settled (hub_view h') else hub_view h' = hub_view h)
        \<and> (\<not> ok \<and> out = ClosePermanentFailure \<longrightarrow> hub_view h = SvShutdown)"
    by (simp only: coordinator_options_def source_lifecycle.simps) (rule hub_close_law)
  show "hub_sound h \<Longrightarrow> hub_client h h' \<Longrightarrow> hub_sound h' \<and> (hub_view h' = hub_view h \<or> hub_view h' = SvShutdown)"
    by (rule hub_client_law)
qed

section \<open>A product\<close>

text \<open>A fresh product: a fresh hub, and a coordinator that has not been started.\<close>

definition product_init :: "('g, hub) coordinator \<Rightarrow> bool" where
  "product_init st \<longleftrightarrow> (\<exists>gateway limits p.
     make_event_publication gateway True limits = Some p \<and> coordinator_init (p, 0) st)"

text \<open>
  The steps of a product are those of its coordinator, in whose course the hub moves, and of the
  hub's other clients.
\<close>

abbreviation product_step ::
  "(nat \<Rightarrow> clock_sample option) \<Rightarrow> ('g, hub) coordinator \<Rightarrow> ('g, hub) coordinator \<Rightarrow> bool" where
  "product_step clock \<equiv> recovery_step (Some (coordinator_options clock)) hub_client"

definition product_inv :: "('g, hub) coordinator \<Rightarrow> bool" where
  "product_inv st \<longleftrightarrow> policy_inv st \<and> hub_sources.source_inv st"

lemma product_inv_init: "product_init st \<Longrightarrow> product_inv st"
proof -
  assume "product_init st"
  then obtain gateway limits p where p: "make_event_publication gateway True limits = Some p"
    and st: "coordinator_init (p, 0) st" by (auto simp: product_init_def)
  have "event_publication_init p" using p by (auto simp: event_publication_init_def)
  then have "hub_sound (p, 0)" "settled (hub_view (p, 0))"
    using event_hub.inv_init p
    by (auto simp: hub_sound_def hub_view_def settled_def make_event_publication_def split: if_splits)
  then have "hub_sources.source_inv st"
    using st by (auto simp: coordinator_init_def make_coordinator_def hub_sources.source_inv_def
        hub_sources.src_none_def split: if_splits)
  with policy_inv_init [OF st] show ?thesis by (simp add: product_inv_def)
qed

interpretation product: invariant_system product_init "product_step clock" product_inv for clock
proof
  fix st st' :: "('g, hub) coordinator"
  show "product_init st \<Longrightarrow> product_inv st" by (rule product_inv_init)
  show "product_inv st \<Longrightarrow> product_step clock st st' \<Longrightarrow> product_inv st'"
    using policy_inv_step hub_sources.source_inv_step unfolding product_inv_def by blast
qed

end
