(* ===== verification/RecoveryRuns.thy ===== *)
theory RecoveryRuns
  imports ProductRuntime
begin

text \<open>
  Runs of the coordinator thread: the measure that shows that it gives up, how it winds down
  after a shutdown request, and what classifying a failure and backing off do.
\<close>

section \<open>Runs of the thread alone\<close>

text \<open>The thread's steps against a sequence of surroundings, until it has left its loop.\<close>

fun thread_run ::
  "'h source_lifecycle option \<Rightarrow> 'g coordinator_world list \<Rightarrow> ('g, 'h) coordinator \<Rightarrow> ('g, 'h) coordinator" where
  "thread_run lc [] st = st"
| "thread_run lc (w # ws) st =
     (case coordinator_step lc w st of None \<Rightarrow> st | Some st' \<Rightarrow> thread_run lc ws st')"

lemma coordinator_step_None: "coordinator_step lc w st = None \<longleftrightarrow> rc_phase st = PhEnded \<or> rc_phase st = PhAbsent"
  by (cases "rc_phase st") (simp_all add: coordinator_step.simps)

text \<open>A measure that every step decreases that does not find the source live.\<close>

fun phase_rank :: "'g coordinator_phase \<Rightarrow> nat" where
  "phase_rank PhAbsent = 0"
| "phase_rank PhEnded = 0"
| "phase_rank (PhCommit _ _) = 4"
| "phase_rank (PhClassify _ _) = 5"
| "phase_rank (PhBarrier due _) = (if due then 15 else 7)"
| "phase_rank (PhQuiesce _ due) = (if due then 16 else 8)"
| "phase_rank (PhAwaitLive _ _) = 10"
| "phase_rank (PhStarted _ _ _) = 11"
| "phase_rank (PhCreated _) = 12"
| "phase_rank PhTop = 13"
| "phase_rank PhReset = 14"
| "phase_rank (PhPlannedReset _ _) = 14"
| "phase_rank PhRecover = 15"
| "phase_rank PhBackoff = 16"
| "phase_rank (PhRotate _) = 17"
| "phase_rank (PhLive _ _) = 18"

definition loop_rank :: "('g, 'h) coordinator \<Rightarrow> nat" where
  "loop_rank st = (if rc_phase st = PhEnded \<or> rc_phase st = PhAbsent then 0
     else 20 * (kMaximumRecoveryAttempts - ro_consecutive_recovery_attempts (rc_observation st))
            + phase_rank (rc_phase st))"

definition is_live :: "('g, 'h) coordinator \<Rightarrow> bool" where
  "is_live st \<longleftrightarrow> (case rc_phase st of PhLive _ _ \<Rightarrow> True | _ \<Rightarrow> False)"

lemma phase_rank_pos: "ph \<noteq> PhEnded \<Longrightarrow> ph \<noteq> PhAbsent \<Longrightarrow> 0 < phase_rank ph"
  by (cases ph) simp_all

lemma loop_rank_0: "loop_rank st = 0 \<longleftrightarrow> rc_phase st = PhEnded \<or> rc_phase st = PhAbsent"
  using phase_rank_pos [of "rc_phase st"] by (auto simp: loop_rank_def)

lemma loop_rank_less:
  assumes "rc_phase st \<noteq> PhEnded" and "rc_phase st \<noteq> PhAbsent"
    and "ro_consecutive_recovery_attempts (rc_observation st')
           = ro_consecutive_recovery_attempts (rc_observation st)"
    and "phase_rank (rc_phase st') < phase_rank (rc_phase st)"
  shows "loop_rank st' < loop_rank st"
  using assms phase_rank_pos [OF assms(1,2)] by (simp add: loop_rank_def)

lemma begin_backoff_counts:
  "begin_backoff d s = (None, s') \<Longrightarrow> ro_consecutive_recovery_attempts (rc_observation s')
     = Suc (ro_consecutive_recovery_attempts (rc_observation s))"
  by (auto simp: begin_backoff_def Let_def split: option.splits)

lemma rank_decreases:
  assumes run: "rc_phase st \<noteq> PhEnded" "rc_phase st \<noteq> PhAbsent"
    and effect: "thread_effect w st st'" and "\<not> is_live st'"
  shows "loop_rank st' < loop_rank st"
  using effect
proof cases
  case te_give_up
  then have "loop_rank st' = 0" by (simp add: loop_rank_0 gives_up_def)
  moreover have "0 < loop_rank st" using run loop_rank_0 [of st] by simp
  ultimately show ?thesis by simp
next
  case (te_create t)
  then show ?thesis by (intro loop_rank_less [OF run]) (simp_all add: create_attempt_def)
next
  case (te_started a rot res x)
  then show ?thesis by (intro loop_rank_less [OF run]) simp_all
next
  case (te_move s ph)
  then show ?thesis by (intro loop_rank_less [OF run]) (auto simp: calm_consecutive)
next
  case (te_live a rot q t s)
  with assms(4) show ?thesis by (simp add: is_live_def)
next
  case (te_rotate a)
  then show ?thesis by (intro loop_rank_less [OF run]) simp_all
next
  case (te_rotated t r s)
  then show ?thesis by (intro loop_rank_less [OF run]) (simp_all add: commit_planned_rotation_def calm_consecutive)
next
  case (te_record t r s)
  have "0 < loop_rank st" using run loop_rank_0 [of st] by simp
  moreover have "loop_rank st' = 0" if "gives_up s st'" using that by (simp add: loop_rank_0 gives_up_def)
  moreover have "loop_rank st' < loop_rank st" if "st' = go (PhCommit (classify_failure r t) t) s"
    using that te_record(1,2)
    by (intro loop_rank_less [OF run]) (simp_all add: record_failure_def Let_def)
  ultimately show ?thesis using te_record(3) by auto
next
  case (te_exhaust d t s)
  then have "loop_rank st' = 0" by (simp add: loop_rank_0 leave_loop_def)
  moreover have "0 < loop_rank st" using run loop_rank_0 [of st] by simp
  ultimately show ?thesis by simp
next
  case (te_backoff d t s s')
  have less: "ro_consecutive_recovery_attempts (rc_observation s) < kMaximumRecoveryAttempts"
    using te_backoff by (simp add: calm_consecutive)
  note begin_backoff_counts [OF te_backoff(6)]
  with te_backoff less show ?thesis by (simp add: loop_rank_def calm_consecutive)
next
  case te_waited
  then show ?thesis by (intro loop_rank_less [OF run]) simp_all
next
  case te_recover
  then show ?thesis by (intro loop_rank_less [OF run]) simp_all
next
  case te_reset
  then show ?thesis by (intro loop_rank_less [OF run]) simp_all
qed

lemma effect_phase:
  assumes "rc_phase st \<noteq> PhEnded" and "rc_phase st \<noteq> PhAbsent" and "thread_effect w st st'"
  shows "rc_phase st' \<noteq> PhAbsent"
  using assms(3) by cases (auto simp: gives_up_def leave_loop_def)

lemma thread_run_ended: "rc_phase st = PhEnded \<Longrightarrow> thread_run lc ws st = st"
  using coordinator_step_None [of lc _ st] by (cases ws) simp_all

lemma run_gives_up:
  assumes "rc_phase st \<noteq> PhAbsent" and "loop_rank st \<le> length ws"
  shows "(\<exists>n\<le>length ws. 0 < n \<and> is_live (thread_run lc (take n ws) st))
    \<or> rc_phase (thread_run lc ws st) = PhEnded"
  using assms
proof (induction ws arbitrary: st)
  case Nil
  then show ?case by (simp add: loop_rank_0)
next
  case (Cons w ws)
  show ?case
  proof (cases "coordinator_step lc w st")
    case None
    with Cons.prems(1) have "rc_phase st = PhEnded" by (simp add: coordinator_step_None)
    with None show ?thesis by simp
  next
    case (Some s)
    then have run: "rc_phase st \<noteq> PhEnded" "rc_phase st \<noteq> PhAbsent"
      using coordinator_step_running by blast+
    show ?thesis
    proof (cases "is_live s")
      case True
      with Some have "is_live (thread_run lc (take 1 (w # ws)) st)" by simp
      then show ?thesis by (intro disjI1 exI [of _ 1]) simp
    next
      case False
      note effect = thread_step_effect [OF Some]
      have "loop_rank s \<le> length ws"
        using rank_decreases [OF run effect False] Cons.prems(2) by simp
      moreover have "rc_phase s \<noteq> PhAbsent" using effect_phase [OF run effect] .
      ultimately have "(\<exists>n\<le>length ws. 0 < n \<and> is_live (thread_run lc (take n ws) s))
          \<or> rc_phase (thread_run lc ws s) = PhEnded" by (rule Cons.IH [rotated])
      then show ?thesis
      proof
        assume "\<exists>n\<le>length ws. 0 < n \<and> is_live (thread_run lc (take n ws) s)"
        then obtain n where "n \<le> length ws" "is_live (thread_run lc (take n ws) s)" by blast
        with Some show ?thesis by (intro disjI1 exI [of _ "Suc n"]) simp
      qed (simp add: Some)
    qed
  qed
qed

section \<open>After shutdown was requested\<close>

text \<open>How many more steps the thread may take.\<close>

fun steps_to_exit :: "'g coordinator_phase \<Rightarrow> nat" where
  "steps_to_exit PhAbsent = 0"
| "steps_to_exit PhEnded = 0"
| "steps_to_exit (PhQuiesce _ _) = 2"
| "steps_to_exit (PhAwaitLive _ _) = 3"
| "steps_to_exit (PhLive _ _) = 3"
| "steps_to_exit (PhClassify _ _) = 2"
| "steps_to_exit PhBackoff = 2"
| "steps_to_exit _ = 1"

definition winding_down :: "('g, 'h) coordinator \<Rightarrow> ('g, 'h) coordinator \<Rightarrow> bool" where
  "winding_down st st' \<longleftrightarrow> steps_to_exit (rc_phase st') < steps_to_exit (rc_phase st)
    \<and> rc_shutdown_requested st' \<and> rc_attempts st' = rc_attempts st \<and> rc_generation st' = rc_generation st
    \<and> rc_phase st' \<noteq> PhAbsent"

lemma gives_up_winds_down:
  assumes "rc_shutdown_requested st" and "0 < steps_to_exit (rc_phase st)" and "gives_up st0 st'"
    and "calm st st0"
  shows "winding_down st st'"
proof -
  obtain s where s: "calm st0 s" "st' = leave_loop s \<or> (\<exists>cause err. st' = leave_loop (set_terminal cause err False s))"
    using assms(3) by (auto simp: gives_up_def)
  have s_st: "calm st s" by (rule calm_trans [OF assms(4) s(1)])
  from s(2) assms(1,2) show ?thesis
    unfolding winding_down_def
    by (auto simp: leave_loop_def set_terminal_def calm_control [OF s_st])
qed

lemma calm_winds_down:
  assumes "rc_shutdown_requested st" and "calm st s"
    and "steps_to_exit ph < steps_to_exit (rc_phase st)" and "ph \<noteq> PhAbsent"
  shows "winding_down st (go ph s)"
  using assms by (simp add: winding_down_def calm_control [OF assms(2)])

lemma shutdown_step:
  assumes shut: "rc_shutdown_requested st" and step: "coordinator_step lc w st = Some st'"
  shows "winding_down st st'"
proof -
  note eq = step [unfolded coordinator_step.simps]
  note gone = gives_up_winds_down [OF shut _ _ calm_refl] and moved = calm_winds_down [OF shut calm_refl]
  have leave: "0 < steps_to_exit (rc_phase st) \<Longrightarrow> winding_down st (leave_loop st)"
    using gone gives_up_leave [OF calm_refl] by blast
  have abandon: "0 < steps_to_exit (rc_phase st) \<Longrightarrow> winding_down st (abandon_attempt lc w a st)" for a
    using gone gives_up_abandon by blast
  have close: "0 < steps_to_exit (rc_phase st) \<Longrightarrow> winding_down st (close_and_leave lc w st)"
    using gone gives_up_close_and_leave [OF calm_refl] by blast
  have throw: "0 < steps_to_exit (rc_phase st) \<Longrightarrow> winding_down st (coordinator_exception lc w m st)" for m
    using gone gives_up_exception [OF calm_refl] by blast
  show ?thesis
  proof (cases "rc_phase st")
    case PhTop
    with eq shut leave show ?thesis by (auto simp: step_top_def)
  next
    case PhCreated
    with eq shut abandon show ?thesis by (auto simp: step_created_def)
  next
    case PhStarted
    with eq shut abandon show ?thesis by (auto simp: step_started_def)
  next
    case (PhAwaitLive a rot)
    have "try_mark_live q t st = (False, st)" for q t
      using shut by (simp add: try_mark_live_def)
    with eq PhAwaitLive abandon throw moved [of "PhQuiesce a False"] show ?thesis
      by (auto simp: step_await_live_def split: option.splits if_splits)
  next
    case (PhLive a rot)
    have "winding_down st (attempt_then lc w (quiesce_attempt lc a (cw_attempt_stopped w) st) (\<lambda>st1.
        attempt_then lc w (close_source_generation lc ClosePermanentFailure st1)
          (coordinator_exception lc w m)))" for m
      by (rule gone, use PhLive in simp, rule gives_up_attempt_then [OF calm_quiesce], rule gives_up_attempt_then)
        (auto intro: calm_trans calm_close gives_up_exception)
    with eq PhLive abandon moved [of "PhQuiesce a False"] moved [of "PhRotate a"] show ?thesis
      by (auto simp: step_live_def split: option.splits sum.splits if_splits timed_recovery_wait_result.splits)
  next
    case PhRotate
    with eq shut abandon show ?thesis by (auto simp: step_rotate_def)
  next
    case (PhQuiesce a due)
    let ?r = "quiesce_attempt lc a (cw_attempt_stopped w) st" and ?k = "go (PhBarrier due (cw_attempt_stopped w))"
    consider "gives_up st (attempt_then lc w ?r ?k)" | s where "calm st s" "attempt_then lc w ?r ?k = ?k s"
      by (rule attempt_thenE [OF calm_quiesce])
    then show ?thesis
    proof cases
      case 1
      with eq PhQuiesce gone show ?thesis by (auto simp: step_quiesce_def)
    next
      case 2
      have "winding_down st (?k s)" by (rule calm_winds_down [OF shut 2(1)]) (use PhQuiesce in simp_all)
      with eq PhQuiesce 2(2) show ?thesis by (auto simp: step_quiesce_def)
    qed
  next
    case PhBarrier
    with eq shut close show ?thesis by (auto simp: step_barrier_def)
  next
    case PhPlannedReset
    with eq shut close show ?thesis by (auto simp: step_planned_reset_def)
  next
    case (PhClassify t r)
    let ?s = "observe_with (record_failure (rc_generation st) (rd_cause (classify_failure r t)) t r) st"
    have "winding_down st s'" if "gives_up ?s s'" for s'
    proof -
      obtain s where "calm ?s s" "s' = leave_loop s \<or> (\<exists>cause err. s' = leave_loop (set_terminal cause err False s))"
        using \<open>gives_up ?s s'\<close> by (auto simp: gives_up_def)
      then show ?thesis using shut PhClassify calm_control [of ?s s]
        by (auto simp: winding_down_def leave_loop_def set_terminal_def)
    qed
    moreover have "winding_down st (go (PhCommit (classify_failure r t) t) ?s)"
      using shut PhClassify by (simp add: winding_down_def)
    moreover have "thread_effect w st st'" by (rule thread_step_effect [OF step])
    ultimately show ?thesis using eq PhClassify effect_classify [OF PhClassify]
      by (auto simp: step_classify_def Let_def gives_up_attempt_then [OF calm_close] gives_up_terminal split: if_splits)
  next
    case PhCommit
    with eq shut close show ?thesis by (auto simp: step_commit_def)
  next
    case PhBackoff
    with eq leave moved [of PhRecover] show ?thesis by (auto simp: step_backoff_def split: if_splits)
  next
    case PhRecover
    with eq shut leave show ?thesis by (auto simp: step_recover_def)
  next
    case PhReset
    with eq shut leave show ?thesis by (auto simp: step_reset_def)
  qed (use eq in simp_all)
qed

lemma shutdown_run:
  assumes "rc_shutdown_requested st" and "rc_phase st \<noteq> PhAbsent"
    and "steps_to_exit (rc_phase st) \<le> length ws"
  shows "rc_phase (thread_run lc ws st) = PhEnded \<and> rc_attempts (thread_run lc ws st) = rc_attempts st
    \<and> rc_generation (thread_run lc ws st) = rc_generation st"
  using assms
proof (induction ws arbitrary: st)
  case Nil
  then show ?case by (cases "rc_phase st") simp_all
next
  case (Cons w ws)
  show ?case
  proof (cases "coordinator_step lc w st")
    case None
    with Cons.prems(2) have "rc_phase st = PhEnded" by (simp add: coordinator_step_None)
    with None show ?thesis by simp
  next
    case (Some s)
    with shutdown_step [OF Cons.prems(1) Some] Cons.IH [of s] Cons.prems(3) show ?thesis
      by (simp add: winding_down_def)
  qed
qed

section \<open>Classifying and backing off\<close>

lemma gives_up_classify:
  assumes "rc_phase st = PhClassify t r" and "coordinator_step lc w st = Some st'"
  shows "let s = observe_with (record_failure (rc_generation st) (rd_cause (classify_failure r t)) t r) st
    in rd_recoverable (classify_failure r t) \<and> st' = go (PhCommit (classify_failure r t) t) s \<or> gives_up s st'"
proof -
  let ?s = "observe_with (record_failure (rc_generation st) (rd_cause (classify_failure r t)) t r) st"
  have "gives_up ?s (attempt_then lc w (close_source_generation lc ClosePermanentFailure ?s)
      (\<lambda>st2. leave_loop (set_terminal c e False st2)))" for c e
    by (rule gives_up_attempt_then [OF calm_close]) (rule gives_up_terminal)
  moreover have "st' = step_classify lc w t r st" using assms by (simp add: coordinator_step.simps)
  ultimately show ?thesis by (simp add: step_classify_def Let_def)
qed

lemma after_classify:
  assumes "rc_phase st = PhClassify t r" and "coordinator_step lc w st = Some st'"
    and "rc_phase st' \<noteq> PhEnded"
  shows "rc_phase st' = PhCommit (classify_failure r t) t \<and> rd_recoverable (classify_failure r t)
    \<and> ro_consecutive_recovery_attempts (rc_observation st') = ro_consecutive_recovery_attempts (rc_observation st)"
proof -
  let ?s = "observe_with (record_failure (rc_generation st) (rd_cause (classify_failure r t)) t r) st"
  have "\<not> gives_up ?s st'" using assms(3) by (simp add: gives_up_def)
  with gives_up_classify [OF assms(1,2)]
  have "rd_recoverable (classify_failure r t)" "st' = go (PhCommit (classify_failure r t) t) ?s"
    by (simp_all add: Let_def)
  then show ?thesis by (simp add: record_failure_def Let_def)
qed

lemma into_backoff:
  assumes "rc_phase st = PhCommit d t" and "coordinator_step lc w st = Some st'" and "rc_phase st' = PhBackoff"
  obtains s s' where "calm st s"
    and "ro_consecutive_recovery_attempts (rc_observation s) < kMaximumRecoveryAttempts"
    and "begin_backoff d s = (None, s')" and "st' = go PhBackoff s'"
proof -
  have "thread_effect w st st'" by (rule thread_step_effect [OF assms(2)])
  then show thesis
  proof cases
    case (te_backoff d' t' s s')
    with assms(1) calm_consecutive [OF te_backoff(4)] that show thesis by simp
  qed (use assms in \<open>auto simp: gives_up_def leave_loop_def\<close>)
qed

lemma calm_failures: "calm st s \<Longrightarrow> failures (rc_observation s) = failures (rc_observation st)"
  by (simp add: failures_def calm_policy)

lemma gives_up_failures:
  assumes "gives_up st s"
  shows "failures (rc_observation s) = failures (rc_observation st)"
proof -
  obtain s0 where s0: "calm st s0" "s = leave_loop s0 \<or> (\<exists>c e. s = leave_loop (set_terminal c e False s0))"
    using assms by (auto simp: gives_up_def)
  then have "failures (rc_observation s) = failures (rc_observation s0)"
    by (auto simp: leave_loop_def set_terminal_def failures_def)
  then show ?thesis by (simp add: calm_failures [OF s0(1)])
qed

lemma effect_failures:
  assumes "thread_effect w st st'" and "\<nexists>t r. rc_phase st = PhClassify t r"
  shows "failures (rc_observation st') = failures (rc_observation st)"
  using assms(1)
proof cases
  case te_give_up
  then show ?thesis by (rule gives_up_failures)
next
  case (te_move s ph)
  then show ?thesis by (simp add: calm_failures)
next
  case (te_live a rot q t s)
  then show ?thesis by (auto simp: try_mark_live_def failures_def split: if_splits)
next
  case (te_rotated t r s)
  then show ?thesis by (simp add: commit_planned_rotation_def failures_def calm_policy)
next
  case (te_exhaust d t s)
  then show ?thesis by (simp add: exhaust_def leave_loop_def failures_def calm_policy)
next
  case (te_backoff d t s s')
  have "failures (rc_observation s') = failures (rc_observation s)"
    using te_backoff(6) by (auto simp: begin_backoff_def failures_def Let_def split: option.splits)
  with te_backoff show ?thesis by (simp add: calm_failures)
qed (use assms(2) in \<open>simp_all add: failures_def create_attempt_def\<close>)

lemma begin_backoff_delay:
  assumes "ro_consecutive_recovery_attempts (rc_observation st) < kMaximumRecoveryAttempts"
    and "begin_backoff d st = (None, st')"
  shows "backoff_delays ! ro_consecutive_recovery_attempts (rc_observation st) \<le> ro_last_requested_delay (rc_observation st')
    \<and> (\<forall>m. rd_minimum_delay d = Some m \<longrightarrow> m \<le> ro_last_requested_delay (rc_observation st'))"
proof -
  obtain d' where d': "begin_backoff d st = (None, observe_with (\<lambda>ob. ob
      \<lparr>ro_consecutive_recovery_attempts := ro_consecutive_recovery_attempts ob + 1,
       ro_last_recovery_cause := Some (rd_cause d), ro_last_requested_delay := d',
       ro_state := RecBackoff, ro_in_backoff := True\<rparr>) st)"
    "backoff_delays ! ro_consecutive_recovery_attempts (rc_observation st) \<le> d'"
    "rd_minimum_delay d \<noteq> None \<longrightarrow> the (rd_minimum_delay d) \<le> d'"
    by (rule begin_backoff_returns [OF assms(1), of d]) 
  from d'(1) assms(2) have "st' = observe_with (\<lambda>ob. ob
      \<lparr>ro_consecutive_recovery_attempts := ro_consecutive_recovery_attempts ob + 1,
       ro_last_recovery_cause := Some (rd_cause d), ro_last_requested_delay := d',
       ro_state := RecBackoff, ro_in_backoff := True\<rparr>) st" by simp
  with d'(2,3) show ?thesis by auto
qed

end
