(* ===== verification/RecoveryProperties.thy ===== *)
theory RecoveryProperties
  imports RecoveryRuns
begin

text \<open>
  What the recovery coordinator promises: its bounds and counts, which failures it recovers
  from, how long it waits, that it gives up, and that it stops when told to; and what a product
  promises, in which the coordinator drives the event hub.
\<close>

section \<open>An example run\<close>

text \<open>
  A connection whose snapshot request is answered with status 429 and \<open>Retry-After: 7\<close>: the
  first attempt never gets live, and the coordinator backs off.
\<close>

definition example_transport :: transport_observation where
  "example_transport =
     \<lparr>to_started = True, to_running = True, to_stopped = False, to_tls_verified = True,
      to_websocket_handshake = True, to_rest_depth_fetched = False, to_server_ping_observed = False,
      to_server_shutdown_observed = False, to_depth_frame_count = 0, to_agg_trade_frame_count = 0,
      to_book_ticker_frame_count = 0, to_last_event_utc_ns = Some 3, to_profile = G9CombinedEvents,
      to_connection_id = ''c-1'', to_connection_generation = 1, to_terminal_error = None\<rparr>"

definition example_rate_limit :: network_error where
  "example_rate_limit = \<lparr>ne_code = NeHttpStatus, ne_stage = ''snapshot'', ne_message = ''rejected'',
     ne_http_status = Some 429, ne_retry_after = Some ''7''\<rparr>"

definition example_stopped :: transport_observation where
  "example_stopped = example_transport\<lparr>to_running := False, to_stopped := True,
     to_terminal_error := Some example_rate_limit\<rparr>"

definition example_runtime :: "nat runtime_observation" where
  "example_runtime =
     \<lparr>ob_state = RsFaulted, ob_projection_status = AwaitingBaseline, ob_last_update_id = None,
      ob_last_gap = None, ob_last_install = None, ob_last_apply = None, ob_last_applied_depth = None,
      ob_adapter_error = None, ob_fault_reason = Some FrSnapshotFailure, ob_ingress_occupancy = 0,
      ob_ingress_capacity = 1, ob_bootstrap_occupancy = 0, ob_bootstrap_capacity = 1,
      ob_owner_thread_id = None, ob_last_publication_thread_id = None, ob_last_reset_thread_id = None,
      ob_reset_count = 0, ob_last_admitted_ticket = 1, ob_processed_ticket = 1,
      ob_current_projection_generation = None, ob_resident_subscription_count = 0,
      ob_pending_admission_count = 0, ob_publication_admission_open = True,
      ob_publication_shutdown = False, ob_owner_joined = False\<rparr>"

definition example_world :: "nat coordinator_world" where
  "example_world =
     \<lparr>cw_factory = Inr (Some example_transport), cw_clock = Inr \<lparr>cs_utc_ns = 5, cs_monotonic_ns = 6\<rparr>,
      cw_attempt_start = TsStarted, cw_attempt_running = example_transport,
      cw_attempt_stopped = example_stopped, cw_wait_live = Some example_runtime,
      cw_wait_recovery = True, cw_wait_rotation = TwRecoveryRequired, cw_observe = Some example_runtime,
      cw_observe_again = Some example_runtime, cw_submit_failure = AdAccepted,
      cw_planned_reset = PrReset, cw_reset = RrReset, cw_backoff = True\<rparr>"

definition example_coordinator :: "(nat, nat) coordinator" where
  "example_coordinator = the (make_coordinator True None (True, True, True) True 0)"

definition example_started :: "(nat, nat) coordinator" where
  "example_started = snd (recovery_start_finish StartStarted (snd (recovery_start_begin example_coordinator)))"

fun faithful_run ::
  "'h source_lifecycle option \<Rightarrow> 'g coordinator_world list \<Rightarrow> ('g, 'h) coordinator \<Rightarrow> bool" where
  "faithful_run lc [] st \<longleftrightarrow> True"
| "faithful_run lc (w # ws) st \<longleftrightarrow> faithful_world st w
     \<and> (case coordinator_step lc w st of None \<Rightarrow> True | Some st' \<Rightarrow> faithful_run lc ws st')"

lemma thread_run_reachable:
  "reachable init (recovery_step lc client) st \<Longrightarrow> faithful_run lc ws st \<Longrightarrow>
    reachable init (recovery_step lc client) (thread_run lc ws st)"
proof (induction ws arbitrary: st)
  case (Cons w ws)
  show ?case
  proof (cases "coordinator_step lc w st")
    case (Some s)
    with Cons.prems have "reachable init (recovery_step lc client) s"
      by (auto intro: reach_step rs_thread)
    with Cons Some show ?thesis by simp
  qed (use Cons.prems in simp)
qed simp

lemmas recovery_example_defs = example_started_def example_coordinator_def make_coordinator_def
  recovery_start_begin_def recovery_start_finish_def initial_recovery_observation_def

lemma example_started_reachable:
  "reachable (coordinator_init 0) (recovery_step None (\<lambda>_ _. False)) example_started"
proof -
  have "coordinator_init 0 example_coordinator"
    unfolding coordinator_init_def
    by (intro exI [of _ None] exI [of _ "(True, True, True)"])
      (simp add: example_coordinator_def make_coordinator_def)
  then have "reachable (coordinator_init 0) (recovery_step None (\<lambda>_ _. False))
      (snd (recovery_start_begin example_coordinator))"
    by (metis reach_init reach_step rs_start)
  moreover have "recovery_step None (\<lambda>_ _. False) (snd (recovery_start_begin example_coordinator)) example_started"
    unfolding example_started_def by (rule rs_started) (simp_all add: recovery_example_defs)
  ultimately show ?thesis by (rule reach_step)
qed

text \<open>The states of the run.\<close>

definition example_decision :: recovery_decision where
  "example_decision = \<lparr>rd_recoverable = True, rd_cause = CauseHttp429, rd_minimum_delay = Some 7\<rparr>"

definition example_quiesced :: "(nat, nat) coordinator" where
  "example_quiesced = attempt_gone 0 example_stopped (persist_last_event example_stopped
     (observe_with (\<lambda>ob. ob\<lparr>ro_generation_started_monotonic_ns := None\<rparr>)
       (create_attempt example_transport example_started)))"

definition example_recorded :: "(nat, nat) coordinator" where
  "example_recorded = observe_with (record_failure 1 CauseHttp429 example_stopped example_runtime) example_quiesced"

definition example_backoff :: "(nat, nat) coordinator" where
  "example_backoff = go PhBackoff (snd (begin_backoff example_decision
     (go (PhCommit example_decision example_stopped) example_recorded)))"

lemma example_seven: "from_chars_whole 18446744073709551615 ''7'' = Some 7"
proof -
  have "char_of (55 :: nat) = CHR ''7''" by code_simp
  with from_chars_whole_print [of 18446744073709551615 7] show ?thesis
    by (simp add: nat_digits.simps digit_char_def)
qed

lemma example_decided: "classify_failure example_runtime example_stopped = example_decision"
  by (simp add: classify_failure_def classify_runtime_def refine_by_transport_def decision_def
      parse_retry_after_def example_seven example_runtime_def example_stopped_def example_transport_def
      example_rate_limit_def example_decision_def seconds_max_def)

text \<open>The control fields of those states, and the steps between them.\<close>

lemma example_started_fields [simp]:
  "rc_phase example_started = PhTop" "\<not> rc_shutdown_requested example_started"
  "rc_attempts example_started = 0" "rc_generation example_started = 1"
  "rc_planned_rotation example_started = None" "rc_source_generation_open example_started = None"
  "\<not> rc_source_generation_quiesced example_started" "rc_active_attempt example_started = None"
  by (simp_all add: recovery_example_defs)

lemma example_world_fields [simp]:
  "cw_factory example_world = Inr (Some example_transport)" "cw_attempt_start example_world = TsStarted"
  "cw_attempt_running example_world = example_transport" "cw_attempt_stopped example_world = example_stopped"
  "cw_wait_live example_world = Some example_runtime" "cw_observe example_world = Some example_runtime"
  "ob_state example_runtime = RsFaulted" "ob_fault_reason example_runtime = Some FrSnapshotFailure"
  by (simp_all add: example_world_def example_runtime_def)

lemma example_stopped_error: "to_terminal_error example_stopped = Some example_rate_limit"
  by (simp add: example_stopped_def)

lemma example_faithful: "rc_generation st = 1 \<Longrightarrow> faithful_world st example_world"
  by (simp add: faithful_world_def example_world_def example_stopped_def example_transport_def)

lemmas example_run_defs = coordinator_step.simps step_top_def step_created_def step_started_def
  step_await_live_def step_quiesce_def step_barrier_def step_classify_def step_commit_def
  create_attempt_def Let_def open_source_generation_def close_source_generation_def quiesce_attempt_def
  attempt_then_def attempt_gone_def persist_last_event_def

lemma example_quiesced_run:
  "thread_run None (replicate 5 example_world) example_started
     = go (PhBarrier False example_stopped) example_quiesced"
  "faithful_run None (replicate 5 example_world) example_started"
  by (simp_all add: numeral_eq_Suc example_run_defs example_quiesced_def
      example_faithful)

lemma example_quiesced_fields [simp]:
  "\<not> rc_shutdown_requested example_quiesced" "rc_generation example_quiesced = 1"
  "rc_source_generation_open example_quiesced = None"
  "ro_consecutive_recovery_attempts (rc_observation example_quiesced) = 0"
  "ro_failure_history_size (rc_observation example_quiesced) = 0"
  by (simp_all add: example_quiesced_def attempt_gone_def persist_last_event_def create_attempt_def
      recovery_example_defs)

lemma example_recorded_fields [simp]:
  "rc_generation example_recorded = 1" "\<not> rc_shutdown_requested example_recorded"
  "rc_source_generation_open example_recorded = None"
  "ro_consecutive_recovery_attempts (rc_observation example_recorded) = 0"
  by (simp_all add: example_recorded_def record_failure_def Let_def)

lemma example_classified:
  "coordinator_step None example_world (go (PhBarrier False example_stopped) example_quiesced)
     = Some (go (PhClassify example_stopped example_runtime) example_quiesced)"
  "coordinator_step None example_world (go (PhClassify example_stopped example_runtime) example_quiesced)
     = Some (go (PhCommit example_decision example_stopped) example_recorded)"
  "coordinator_step None example_world (go (PhCommit example_decision example_stopped) example_recorded)
     = Some example_backoff"
  subgoal by (simp add: example_run_defs)
  subgoal by (simp add: example_decided coordinator_step.simps step_classify_def Let_def example_recorded_def)
      (simp add: example_decision_def)
  subgoal by (simp add: coordinator_step.simps step_commit_def example_backoff_def begin_backoff_def
      kMaximumRecoveryAttempts_def close_source_generation_def attempt_then_def normal_backoff_delay_def
      backoff_delays_def)
  done

lemma example_backoff_fields:
  "rc_phase example_backoff = PhBackoff" "ro_in_backoff (rc_observation example_backoff)"
  "ro_last_requested_delay (rc_observation example_backoff) = 7"
  "ro_consecutive_recovery_attempts (rc_observation example_backoff) = 1"
  by (simp_all add: example_backoff_def begin_backoff_def normal_backoff_delay_def backoff_delays_def
      example_decision_def)

lemma example_reachable:
  "reachable (coordinator_init 0) (recovery_step None (\<lambda>_ _. False))
     (go (PhBarrier False example_stopped) example_quiesced)"
  "reachable (coordinator_init 0) (recovery_step None (\<lambda>_ _. False))
     (go (PhClassify example_stopped example_runtime) example_quiesced)"
  "reachable (coordinator_init 0) (recovery_step None (\<lambda>_ _. False)) example_backoff"
proof -
  let ?R = "reachable (coordinator_init 0) (recovery_step None (\<lambda>_ _. False))"
  have step: "?R s'" if "?R s" "rc_generation s = 1" "coordinator_step None example_world s = Some s'" for s s'
    using that example_faithful by (blast intro: reach_step rs_thread)
  show 1: "?R (go (PhBarrier False example_stopped) example_quiesced)"
    using thread_run_reachable [OF example_started_reachable example_quiesced_run(2)]
    by (simp add: example_quiesced_run(1))
  show 2: "?R (go (PhClassify example_stopped example_runtime) example_quiesced)"
    by (rule step [OF 1 _ example_classified(1)]) simp
  have 3: "?R (go (PhCommit example_decision example_stopped) example_recorded)"
    by (rule step [OF 2 _ example_classified(2)]) simp
  show "?R example_backoff" by (rule step [OF 3 _ example_classified(3)]) simp
qed

section \<open>Properties\<close>



text \<open>The connection generation counts: it is one more than the recoveries and the planned
  rotations so far, so no generation is ever used for two connections.\<close>

theorem recovery_generation_counts:
  assumes "reachable (coordinator_init hub) (recovery_step lc client) st"
  shows "rc_generation st = 1 + ro_total_recovery_count (rc_observation st)
    + ro_planned_rotation_count (rc_observation st)"
  using recovery_system.inv_reachable [OF assms] by (simp add: policy_inv_def Let_def)

theorem recovery_generation_counts_witness:
  "rc_generation example_backoff = 1 + ro_total_recovery_count (rc_observation example_backoff)
    + ro_planned_rotation_count (rc_observation example_backoff)"
  by (rule recovery_generation_counts [OF example_reachable(3)])

text \<open>The failures that a fresh connection can cure.\<close>

definition curable :: "'g runtime_observation \<Rightarrow> transport_observation \<Rightarrow> bool" where
  "curable runtime transport \<longleftrightarrow> ob_state runtime = RsNeedsResync
     \<or> (ob_state runtime = RsFaulted \<and> ob_fault_reason runtime
          \<in> Some ` {FrTransportFailure, FrSnapshotFailure, FrIngressOverflow, FrBootstrapBufferOverflow})
     \<or> (\<not> (ob_state runtime = RsFaulted \<and> ob_fault_reason runtime \<noteq> None) \<and> to_terminal_error transport \<noteq> None)"

definition curable_error :: "network_error \<Rightarrow> bool" where
  "curable_error err \<longleftrightarrow> (if ne_code err = NeHttpStatus then
       (\<exists>status. ne_http_status err = Some status
          \<and> (status \<in> {418, 429} \<and> parse_retry_after (ne_retry_after err) \<noteq> None \<or> 500 \<le> status \<and> status \<le> 599))
     else ne_code err \<noteq> NeInternal)"

text \<open>Exactly which failures are recovered from: those of the runtime that a fresh connection
  can cure, unless the transport's own error is an internal fault, or an HTTP status that is
  neither a server error nor a rate limit with a usable \<open>Retry-After\<close>.\<close>

theorem failure_is_recoverable_iff:
  "rd_recoverable (classify_failure runtime transport) \<longleftrightarrow>
     curable runtime transport \<and> pred_option curable_error (to_terminal_error transport)"
proof -
  have run: "(case classify_runtime runtime transport of Inl d \<Rightarrow> \<not> curable runtime transport \<and> \<not> rd_recoverable d
      | Inr d \<Rightarrow> curable runtime transport \<and> rd_recoverable d)"
    by (auto simp: classify_runtime_def curable_def decision_def default_decision_def
        split: option.splits fault_reason.splits)
  have refine: "rd_recoverable (refine_by_transport d err) \<longleftrightarrow> curable_error err" if "rd_recoverable d" for d err
    using that by (auto simp: refine_by_transport_def curable_error_def default_decision_def
        split: option.splits)
  show ?thesis
    using run refine by (auto simp: classify_failure_def split: sum.splits option.splits)
qed

text \<open>C16: a rate limit is honoured: when a failure with status 429 or 418 takes the coordinator to
  its backoff, the delay is at least the number of seconds the server asked for, and at least
  the one of the schedule.\<close>

theorem backoff_honours_retry_after:
  assumes "rc_phase st = PhClassify transport runtime"
    and "to_terminal_error transport = Some err" and "ne_code err = NeHttpStatus"
    and "ne_http_status err \<in> {Some 429, Some 418}"
    and "parse_retry_after (ne_retry_after err) = Some seconds"
    and "coordinator_step lc w st = Some st1" and "coordinator_step lc w' st1 = Some st2"
    and "rc_phase st2 = PhBackoff"
  shows "seconds \<le> ro_last_requested_delay (rc_observation st2)
    \<and> [1, 2, 4, 8, 16, 30] ! ro_consecutive_recovery_attempts (rc_observation st)
         \<le> ro_last_requested_delay (rc_observation st2)"
proof -
  let ?d = "classify_failure runtime transport"
  have phase1: "rc_phase st1 = PhCommit ?d transport" and live: "rd_recoverable ?d"
    and same: "ro_consecutive_recovery_attempts (rc_observation st1)
      = ro_consecutive_recovery_attempts (rc_observation st)"
    using after_classify [OF assms(1,6)] coordinator_step_running [OF assms(7)] by auto
  have delay: "rd_minimum_delay ?d = Some seconds"
    using assms(2-5) live
    by (auto simp: classify_failure_def refine_by_transport_def classify_runtime_def default_decision_def
        split: sum.splits if_splits fault_reason.splits)
  from into_backoff [OF phase1 assms(7,8)] obtain s s' where
    s: "calm st1 s" "ro_consecutive_recovery_attempts (rc_observation s) < kMaximumRecoveryAttempts"
      "begin_backoff ?d s = (None, s')" and st2: "st2 = go PhBackoff s'"
    by blast
  from begin_backoff_delay [OF s(2,3)] show ?thesis
    by (simp add: st2 delay same calm_consecutive [OF s(1)] backoff_delays_def)
qed

theorem backoff_honours_retry_after_witness:
  "(7 :: nat) \<le> ro_last_requested_delay (rc_observation example_backoff)"
proof -
  have "7 \<le> ro_last_requested_delay (rc_observation example_backoff)
    \<and> [1, 2, 4, 8, 16, 30] ! ro_consecutive_recovery_attempts
        (rc_observation (go (PhClassify example_stopped example_runtime) example_quiesced))
      \<le> ro_last_requested_delay (rc_observation example_backoff)"
    by (rule backoff_honours_retry_after [OF _ example_stopped_error _ _ _ example_classified(2,3)])
      (simp_all add: example_rate_limit_def example_seven parse_retry_after_def
        seconds_max_def example_backoff_fields)
  then show ?thesis by simp
qed



text \<open>C15: the thread does not go on for ever without a live source: from any point of its loop,
  after at most 138 steps, it has found the source live or has left the loop.\<close>

theorem recovery_gives_up:
  assumes "rc_phase st \<noteq> PhAbsent" and "138 \<le> length ws"
  shows "(\<exists>n. 0 < n \<and> n \<le> length ws \<and> is_live (thread_run lc (take n ws) st))
    \<or> rc_phase (thread_run lc ws st) = PhEnded"
proof -
  have "phase_rank (rc_phase st) \<le> 18" by (cases "rc_phase st") simp_all
  then have "loop_rank st \<le> 138" by (auto simp: loop_rank_def kMaximumRecoveryAttempts_def)
  with run_gives_up [OF assms(1), of ws lc] assms(2) show ?thesis by auto
qed

theorem recovery_gives_up_witness:
  "(\<exists>n. 0 < n \<and> n \<le> 138 \<and> is_live (thread_run None (take n (replicate 138 example_world)) example_started))
    \<or> rc_phase (thread_run None (replicate 138 example_world) example_started) = PhEnded"
  using recovery_gives_up [of example_started "replicate 138 example_world" None] by simp

text \<open>Once shutdown has been requested the thread leaves its loop within three steps, from
  wherever it is, without creating another attempt or taking another generation.\<close>

theorem shutdown_ends_thread:
  assumes "rc_shutdown_requested st" and "rc_phase st \<noteq> PhAbsent" and "3 \<le> length ws"
  shows "rc_phase (thread_run lc ws st) = PhEnded \<and> rc_attempts (thread_run lc ws st) = rc_attempts st
    \<and> rc_generation (thread_run lc ws st) = rc_generation st"
proof -
  have "steps_to_exit (rc_phase st) \<le> 3" by (cases "rc_phase st") simp_all
  with shutdown_run [OF assms(1,2)] assms(3) show ?thesis by simp
qed

theorem shutdown_ends_thread_witness:
  "rc_phase (thread_run None [example_world, example_world, example_world]
     (snd (recovery_stop_begin example_backoff))) = PhEnded"
proof -
  have "rc_started example_backoff" "\<not> rc_stopped example_backoff"
    by (simp_all add: example_backoff_def begin_backoff_def normal_backoff_delay_def backoff_delays_def
        example_decision_def example_recorded_def example_quiesced_def attempt_gone_def persist_last_event_def
        create_attempt_def recovery_example_defs)
  then have s: "rc_shutdown_requested (snd (recovery_stop_begin example_backoff))"
      "rc_phase (snd (recovery_stop_begin example_backoff)) = PhBackoff"
    by (simp_all add: recovery_stop_begin_def example_backoff_fields)
  then have p: "rc_phase (snd (recovery_stop_begin example_backoff)) \<noteq> PhAbsent" by simp
  show ?thesis
    using shutdown_ends_thread [OF s(1) p, of "[example_world, example_world, example_world]" None] by simp
qed

text \<open>C13: when the coordinator thread of a product has left its loop, for whatever reason and
  whatever the transports, the subscribers' writers and the shutdown did meanwhile, the event
  hub has no open or quiesced source generation, and no session registered with it is still
  active: nobody waits for events of a generation that nobody will close.\<close>

theorem no_generation_stranded:
  assumes "reachable product_init (product_step clock) st" and "rc_phase st = PhEnded"
  shows "ep_source_state (fst (rc_hub st)) \<notin> {SrcOpen, SrcQuiesced}
    \<and> (\<forall>a\<in>set (ep_channels (fst (rc_hub st))).
         \<exists>c. ep_store (fst (rc_hub st)) a = Some c \<and> ec_state c \<noteq> EvActive)"
proof -
  have "hub_sources.src_done st"
    using product.inv_reachable [OF assms(1)] assms(2) by (simp add: product_inv_def hub_sources.source_inv_def)
  then have inv: "ep_inv (fst (rc_hub st))" and idle: "settled (hub_view (rc_hub st))"
    by (simp_all add: hub_sources.src_done_def hub_sound_def)
  have closed: "ep_source_state (fst (rc_hub st)) \<notin> {SrcOpen, SrcQuiesced}"
    using idle by (auto simp: settled_def hub_view_def)
  with inv show ?thesis unfolding ep_inv_def source_live_def by blast
qed


text \<open>A product that has a subscriber when it is stopped.\<close>

definition example_product_world :: "nat coordinator_world" where
  "example_product_world = example_world\<lparr>cw_wait_live := None\<rparr>"

definition example_product :: "(nat, hub) coordinator" where
  "example_product = the (make_coordinator True None (True, True, True) True (example_hub0, 0))"

definition example_serving :: "(nat, hub) coordinator" where
  "example_serving = thread_run (Some (coordinator_options (\<lambda>_. None))) (replicate 3 example_world)
     (snd (recovery_start_finish StartStarted (snd (recovery_start_begin example_product))))"

definition example_leaving :: "(nat, hub) coordinator" where
  "example_leaving = snd (recovery_stop_begin (example_serving\<lparr>rc_hub := (example_hub2, 0)\<rparr>))"

lemma example_hub1_open: "open_generation 1 example_hub0 = (True, example_hub1)"
  by (simp add: example_hub_defs)

lemma example_serving_run:
  "faithful_run (Some (coordinator_options (\<lambda>_. None))) (replicate 3 example_world)
     (snd (recovery_start_finish StartStarted (snd (recovery_start_begin example_product))))"
  "rc_phase example_serving = PhAwaitLive 0 None" "rc_hub example_serving = (example_hub1, 0)"
  "rc_started example_serving" "\<not> rc_stopped example_serving" "rc_generation example_serving = 1"
  by (simp_all add: example_serving_def numeral_eq_Suc example_run_defs example_product_def
      recovery_example_defs(3-6) example_faithful coordinator_options_def hub_open_def example_hub1_open
      example_transport_def)

definition example_left :: "(nat, hub) coordinator" where
  "example_left = the (coordinator_step (Some (coordinator_options (\<lambda>_. None))) example_product_world example_leaving)"

lemma example_leaving_fields:
  "rc_phase example_leaving = PhAwaitLive 0 None" "rc_generation example_leaving = 1"
  "rc_shutdown_requested example_leaving"
  using example_serving_run
  by (simp_all add: example_leaving_def recovery_stop_begin_def del: example_serving_run(1))

lemma example_left_step:
  "coordinator_step (Some (coordinator_options (\<lambda>_. None))) example_product_world example_leaving = Some example_left"
  by (simp add: example_left_def coordinator_step.simps example_leaving_fields)

lemma example_left_ended: "rc_phase example_left = PhEnded"
proof -
  have "example_left = abandon_attempt (Some (coordinator_options (\<lambda>_. None))) example_product_world 0 example_leaving"
    using example_left_step
    by (simp add: coordinator_step.simps example_leaving_fields step_await_live_def example_product_world_def)
  then show ?thesis using gives_up_abandon by (metis gives_up_def)
qed

lemma example_left_reachable: "reachable product_init (product_step (\<lambda>_. None)) example_left"
proof -
  let ?R = "reachable product_init (product_step (\<lambda>_. None))"
  let ?start = "snd (recovery_start_finish StartStarted (snd (recovery_start_begin example_product)))"
  have hub: "make_event_publication ''gw'' True example_limits = Some example_hub0"
    by (simp add: example_hub_defs)
  have "coordinator_init (example_hub0, 0) example_product"
    unfolding coordinator_init_def
    by (intro exI [of _ None] exI [of _ "(True, True, True)"])
      (simp add: example_product_def make_coordinator_def)
  then have "product_init example_product" using hub unfolding product_init_def by blast
  then have "?R (snd (recovery_start_begin example_product))" by (metis reach_init reach_step rs_start)
  moreover have "product_step (\<lambda>_. None) (snd (recovery_start_begin example_product)) ?start"
    by (rule rs_started)
      (simp_all add: recovery_start_begin_def example_product_def make_coordinator_def initial_recovery_observation_def)
  ultimately have "?R ?start" by (rule reach_step)
  from thread_run_reachable [OF this example_serving_run(1)]
  have "?R example_serving" by (simp only: example_serving_def)
  moreover have "hub_client (rc_hub example_serving) (example_hub2, 0)"
    unfolding example_serving_run(3) example_hub2_def by (rule hc_admit) (simp add: example_hub_defs)
  ultimately have "?R (example_serving\<lparr>rc_hub := (example_hub2, 0)\<rparr>)"
    by (blast intro: reach_step rs_hub)
  then have "?R example_leaving"
    unfolding example_leaving_def by (blast intro: reach_step rs_stop)
  moreover have "faithful_world example_leaving example_product_world"
    by (simp add: faithful_world_def example_leaving_fields example_product_world_def
        example_stopped_def example_transport_def)
  ultimately show ?thesis using example_left_step by (blast intro: reach_step rs_thread)
qed

theorem no_generation_stranded_witness:
  "ep_source_state (fst (rc_hub example_left)) \<notin> {SrcOpen, SrcQuiesced}"
  using no_generation_stranded [OF example_left_reachable example_left_ended] by blast

text \<open>C18: the order in which a product is stopped shows: its publications are shut down first,
  so an attempt that has just been started finds the hub shut down while the coordinator does
  not know of the shutdown yet, and the coordinator ends with the terminal verdict of an
  internal failure.\<close>

theorem shutdown_race_is_internal_failure:
  assumes "rc_phase st = PhStarted attempt rotation TsStarted" and "\<not> rc_shutdown_requested st"
    and "rc_source_generation_open st = None"
    and "coordinator_step (Some (coordinator_options clock)) w (st\<lparr>rc_hub := (ep_shutdown (fst (rc_hub st)), n)\<rparr>)
           = Some st'"
  shows "rc_phase st' = PhEnded \<and> ro_terminal (rc_observation st')
    \<and> ro_last_recovery_cause (rc_observation st') = Some CauseInternalFailure"
proof -
  let ?s = "st\<lparr>rc_hub := (ep_shutdown (fst (rc_hub st)), n)\<rparr>"
  let ?lc = "Some (coordinator_options clock)"
  have shut: "ep_source_state (ep_shutdown p) = SrcShutdown" for p by (simp add: ep_shutdown_def)
  have ended: "rc_phase (coordinator_exception ?lc w m s) = PhEnded
      \<and> ro_terminal (rc_observation (coordinator_exception ?lc w m s))
      \<and> ro_last_recovery_cause (rc_observation (coordinator_exception ?lc w m s)) = Some CauseInternalFailure"
    if "\<not> rc_shutdown_requested s" "rc_source_generation_open s = None" for m s
    using that by (simp add: coordinator_exception_def close_source_after_exception_def set_terminal_def)
  have st': "st' = attempt_then ?lc w
      (open_source_generation ?lc (cw_attempt_running w) (rc_generation ?s) ?s) (go (PhAwaitLive attempt rotation))"
    using assms(1,2,4) by (simp add: coordinator_step.simps step_started_def)
  show ?thesis
  proof (cases rule: open_source_cases [of ?lc "cw_attempt_running w" "rc_generation ?s" ?s])
    case refused
    with st' ended [of ?s] assms(2,3) show ?thesis by (simp add: attempt_then_def)
  next
    case (failed callbacks hub)
    with st' ended [of "?s\<lparr>rc_hub := hub\<rparr>"] assms(2,3) show ?thesis by (simp add: attempt_then_def)
  next
    case (opened callbacks hub)
    from opened(1) have "callbacks = coordinator_options clock" by simp
    with opened(2) show ?thesis by (simp add: coordinator_options_def hub_open_def open_generation_def shut)
  qed simp
qed

definition example_starting :: "(nat, hub) coordinator" where
  "example_starting = thread_run (Some (coordinator_options (\<lambda>_. None))) [example_world, example_world]
     (snd (recovery_start_finish StartStarted (snd (recovery_start_begin example_product))))"

theorem shutdown_race_is_internal_failure_witness:
  "ro_last_recovery_cause (rc_observation (the (coordinator_step (Some (coordinator_options (\<lambda>_. None)))
     example_world (example_starting\<lparr>rc_hub := (ep_shutdown example_hub0, 0)\<rparr>)))) = Some CauseInternalFailure"
proof -
  have s: "rc_phase example_starting = PhStarted 0 None TsStarted" "\<not> rc_shutdown_requested example_starting"
    "rc_source_generation_open example_starting = None" "fst (rc_hub example_starting) = example_hub0"
    by (simp_all add: example_starting_def example_run_defs example_product_def recovery_example_defs(3-6))
  then have "coordinator_step (Some (coordinator_options (\<lambda>_. None))) example_world
        (example_starting\<lparr>rc_hub := (ep_shutdown (fst (rc_hub example_starting)), 0)\<rparr>)
      = Some (the (coordinator_step (Some (coordinator_options (\<lambda>_. None))) example_world
          (example_starting\<lparr>rc_hub := (ep_shutdown (fst (rc_hub example_starting)), 0)\<rparr>)))"
    by (simp add: coordinator_step.simps)
  from shutdown_race_is_internal_failure [OF s(1-3) this] show ?thesis by (simp add: s(4))
qed

end
