(* ===== verification/Json.thy ===== *)
theory Json
  imports CharConv
begin

text \<open>
  What the exchange protocols share: JSON values as the library's documented interface presents
  them, the field helpers of \<open>src/src/g4/spot_protocol.cpp\<close> and \<open>src/src/g11/usdm_protocol.cpp\<close> (which
  has its own copies of them), the protocol errors, and plain decimals. The JSON parser itself is
  third-party code: wherever a payload is decoded, \<open>parse\<close> is an argument, and \<open>None\<close> stands for
  a discarded value or an exception.
\<close>

section \<open>Values\<close>

text \<open>\<open>is_number_unsigned\<close> holds of the numbers of the constructor \<open>JUnsigned\<close>, and only there.\<close>

datatype json =
    JNull
  | JBool bool
  | JUnsigned u64
  | JInteger int
  | JFloat string
  | JString string
  | JArray "json list"
  | JObject "(string \<times> json) list"

definition is_object :: "json \<Rightarrow> bool" where
  "is_object v \<longleftrightarrow> (case v of JObject _ \<Rightarrow> True | _ \<Rightarrow> False)"

text \<open>\<open>find\<close>: only an object has members. \<open>contains\<close> is whether it finds one.\<close>

definition json_find :: "json \<Rightarrow> string \<Rightarrow> json option" where
  "json_find v key = (case v of JObject members \<Rightarrow> map_of members key | _ \<Rightarrow> None)"

definition json_contains :: "json \<Rightarrow> string \<Rightarrow> bool" where
  "json_contains v key \<longleftrightarrow> json_find v key \<noteq> None"

definition has_required_keys :: "json \<Rightarrow> string list \<Rightarrow> bool" where
  "has_required_keys v expected \<longleftrightarrow> is_object v \<and> list_all (json_contains v) expected"

definition unsigned_field :: "json \<Rightarrow> string \<Rightarrow> u64 option" where
  "unsigned_field v name = (case json_find v name of Some (JUnsigned n) \<Rightarrow> Some n | _ \<Rightarrow> None)"

definition string_field :: "json \<Rightarrow> string \<Rightarrow> string option" where
  "string_field v name = (case json_find v name of Some (JString s) \<Rightarrow> Some s | _ \<Rightarrow> None)"

definition boolean_field :: "json \<Rightarrow> string \<Rightarrow> bool option" where
  "boolean_field v name = (case json_find v name of Some (JBool b) \<Rightarrow> Some b | _ \<Rightarrow> None)"

section \<open>Errors\<close>

datatype protocol_error_code =
    InvalidJson | InvalidShape | InvalidField | WrongEvent | WrongSymbol | InvalidQuantum
  | InvalidMarketMetadata

record protocol_error =
  pe_code :: protocol_error_code
  pe_field :: string
  pe_message :: string

definition protocol_error_of :: "protocol_error_code \<Rightarrow> string \<Rightarrow> string \<Rightarrow> protocol_error" where
  "protocol_error_of code field message = \<lparr>pe_code = code, pe_field = field, pe_message = message\<rparr>"

text \<open>The two messages of \<open>parse_json\<close>: \<open>threw\<close> is whether the parser threw.\<close>

datatype parsed_json = Parsed json | Discarded | ParserThrew

definition parse_json :: "(string \<Rightarrow> parsed_json) \<Rightarrow> string \<Rightarrow> protocol_error + json" where
  "parse_json parse payload =
     (case parse payload of
        Parsed v \<Rightarrow> Inr v
      | Discarded \<Rightarrow> Inl (protocol_error_of InvalidJson ''payload'' ''payload is not valid JSON'')
      | ParserThrew \<Rightarrow> Inl (protocol_error_of InvalidJson ''payload'' ''payload could not be decoded''))"

section \<open>Depth levels\<close>

fun append_levels_loop :: "string \<Rightarrow> json list \<Rightarrow> price_level list \<Rightarrow> protocol_error + price_level list" where
  "append_levels_loop field_name [] output = Inr output"
| "append_levels_loop field_name (level # levels) output =
     (case level of
        JArray [JString price, JString quantity] \<Rightarrow>
          append_levels_loop field_name levels
            (output @ [\<lparr>pl_price = price, pl_quantity = quantity\<rparr>])
      | _ \<Rightarrow> Inl (protocol_error_of InvalidField field_name ''each depth level must be exactly two strings''))"

definition append_levels :: "json \<Rightarrow> price_level list \<Rightarrow> string \<Rightarrow> protocol_error + price_level list" where
  "append_levels levels output field_name =
     (case levels of
        JArray items \<Rightarrow> append_levels_loop field_name items output
      | _ \<Rightarrow> Inl (protocol_error_of InvalidField field_name ''depth side must be an array''))"

section \<open>Decimals\<close>

definition all_digits :: "string \<Rightarrow> bool" where
  "all_digits s \<longleftrightarrow> list_all is_digit s"

text \<open>The part before the first point, and the part after it if there is one.\<close>

definition whole_part :: "string \<Rightarrow> string" where
  "whole_part value = (case find_char CHR ''.'' value of None \<Rightarrow> value | Some i \<Rightarrow> take i value)"

definition fraction_part :: "string \<Rightarrow> string" where
  "fraction_part value = (case find_char CHR ''.'' value of None \<Rightarrow> [] | Some i \<Rightarrow> drop (i + 1) value)"

definition has_point :: "string \<Rightarrow> bool" where
  "has_point value \<longleftrightarrow> find_char CHR ''.'' value \<noteq> None"

definition signed_decimal :: "string \<Rightarrow> bool" where
  "signed_decimal value \<longleftrightarrow> hd value = CHR ''+'' \<or> hd value = CHR ''-''"

definition plain_decimal :: "string \<Rightarrow> bool \<Rightarrow> bool" where
  "plain_decimal value allow_zero =
     (if value = [] \<or> signed_decimal value then False
      else if has_point value \<and> find_char CHR ''.'' (fraction_part value) \<noteq> None then False
      else if whole_part value = [] \<or> \<not> all_digits (whole_part value)
         \<or> (has_point value \<and> fraction_part value = []) \<or> \<not> all_digits (fraction_part value)
      then False
      else allow_zero \<or> list_ex (\<lambda>c. c \<noteq> CHR ''0'') value)"

text \<open>\<open>find_last_not_of('0')\<close>.\<close>

fun find_last_not_zero :: "string \<Rightarrow> nat option" where
  "find_last_not_zero [] = None"
| "find_last_not_zero (c # s) =
     (case find_last_not_zero s of
        Some i \<Rightarrow> Some (Suc i)
      | None \<Rightarrow> if c \<noteq> CHR ''0'' then Some 0 else None)"

definition quantum_error :: "string \<Rightarrow> protocol_error" where
  "quantum_error message = protocol_error_of InvalidQuantum ''quantum'' message"

text \<open>\<open>create\<close> is \<open>DecimalScale::create\<close> of the Projection library.\<close>

definition decimal_scale_from_quantum :: "(u32 \<Rightarrow> 'd option) \<Rightarrow> string \<Rightarrow> protocol_error + 'd" where
  "decimal_scale_from_quantum create quantum =
     (if quantum = [] then Inl (quantum_error ''decimal quantum is empty'')
      else if signed_decimal quantum then Inl (quantum_error ''decimal quantum must not contain a sign'')
      else if has_point quantum \<and> find_char CHR ''.'' (fraction_part quantum) \<noteq> None
      then Inl (quantum_error ''decimal quantum has multiple decimal points'')
      else if whole_part quantum = [] \<or> \<not> all_digits (whole_part quantum)
         \<or> (has_point quantum \<and> fraction_part quantum = []) \<or> \<not> all_digits (fraction_part quantum)
      then Inl (quantum_error ''decimal quantum must use plain decimal syntax'')
      else
        let nonzero_whole = list_ex (\<lambda>c. c \<noteq> CHR ''0'') (whole_part quantum);
            significant_end = find_last_not_zero (fraction_part quantum)
        in if \<not> nonzero_whole \<and> significant_end = None
           then Inl (quantum_error ''decimal quantum must be greater than zero'')
           else
             let scale = (case significant_end of None \<Rightarrow> 0 | Some i \<Rightarrow> i + 1)
             in case create (of_nat scale) of
                  None \<Rightarrow> Inl (quantum_error ''decimal quantum exceeds Projection scale capacity'')
                | Some d \<Rightarrow> Inr d)"

section \<open>What decimals mean\<close>

text \<open>
  The grammar of plain decimals: digits, and optionally a point and more digits. The value is a
  whole number of units of its last place.
\<close>

definition decimal_text :: "string \<Rightarrow> string option \<Rightarrow> string" where
  "decimal_text whole fraction = whole @ (case fraction of None \<Rightarrow> [] | Some f \<Rightarrow> CHR ''.'' # f)"

definition plain_parts :: "string \<Rightarrow> string option \<Rightarrow> bool" where
  "plain_parts whole fraction \<longleftrightarrow> whole \<noteq> [] \<and> list_all is_digit whole
     \<and> (case fraction of None \<Rightarrow> True | Some f \<Rightarrow> f \<noteq> [] \<and> list_all is_digit f)"

lemma point_no_digit [simp]: "\<not> is_digit CHR ''.''" "\<not> is_digit CHR ''+''" "\<not> is_digit CHR ''-''"
  by (simp_all add: is_digit_def)

lemma digits_no_point: "list_all is_digit s \<Longrightarrow> CHR ''.'' \<notin> set s"
  by (auto simp: list_all_iff)

lemma decimal_text_parts:
  assumes "plain_parts whole fraction"
  shows "whole_part (decimal_text whole fraction) = whole"
    and "fraction_part (decimal_text whole fraction) = (case fraction of None \<Rightarrow> [] | Some f \<Rightarrow> f)"
    and "has_point (decimal_text whole fraction) \<longleftrightarrow> fraction \<noteq> None"
proof -
  have clean: "CHR ''.'' \<notin> set whole" using assms digits_no_point by (simp add: plain_parts_def)
  have find: "find_char CHR ''.'' (decimal_text whole fraction)
      = (case fraction of None \<Rightarrow> None | Some _ \<Rightarrow> Some (length whole))"
    using clean by (cases fraction) (simp_all add: decimal_text_def)
  show "whole_part (decimal_text whole fraction) = whole"
    unfolding whole_part_def find by (cases fraction) (simp_all add: decimal_text_def)
  show "fraction_part (decimal_text whole fraction) = (case fraction of None \<Rightarrow> [] | Some f \<Rightarrow> f)"
    unfolding fraction_part_def find by (cases fraction) (simp_all add: decimal_text_def)
  show "has_point (decimal_text whole fraction) \<longleftrightarrow> fraction \<noteq> None"
    unfolding has_point_def find by (cases fraction) simp_all
qed

lemma decimal_text_unsigned: "plain_parts whole fraction \<Longrightarrow> \<not> signed_decimal (decimal_text whole fraction)"
  by (cases whole) (auto simp: signed_decimal_def decimal_text_def plain_parts_def)

lemma decimal_text_of_parts:
  "value = decimal_text (whole_part value) (if has_point value then Some (fraction_part value) else None)"
proof (cases "find_char CHR ''.'' value")
  case None
  show ?thesis unfolding whole_part_def has_point_def None by (simp add: decimal_text_def)
next
  case (Some i)
  with find_char_SomeD [OF Some] have "value = take i value @ CHR ''.'' # drop (i + 1) value"
    by (metis Suc_eq_plus1 id_take_nth_drop)
  with Some show ?thesis by (simp add: decimal_text_def whole_part_def fraction_part_def has_point_def)
qed

text \<open>The two parsers share their syntax check.\<close>

lemma syntax_iff:
  "(value \<noteq> [] \<and> \<not> signed_decimal value \<and> \<not> (has_point value \<and> find_char CHR ''.'' (fraction_part value) \<noteq> None)
     \<and> \<not> (whole_part value = [] \<or> \<not> all_digits (whole_part value)
         \<or> (has_point value \<and> fraction_part value = []) \<or> \<not> all_digits (fraction_part value)))
   \<longleftrightarrow> plain_parts (whole_part value) (if has_point value then Some (fraction_part value) else None)"
  (is "?ok \<longleftrightarrow> ?plain")
proof
  show "?ok \<Longrightarrow> ?plain" by (auto simp: plain_parts_def all_digits_def)
next
  assume plain: ?plain
  let ?f = "if has_point value then Some (fraction_part value) else None"
  have eq: "value = decimal_text (whole_part value) ?f" by (rule decimal_text_of_parts)
  have "\<not> signed_decimal value" using decimal_text_unsigned [OF plain] eq by simp
  moreover have "value \<noteq> []" using plain by (auto simp: plain_parts_def whole_part_def split: option.splits)
  moreover have "fraction_part value = []" if "\<not> has_point value"
    using that unfolding has_point_def fraction_part_def by (metis option.simps(4))
  ultimately show ?ok
    using plain by (auto simp: plain_parts_def all_digits_def digits_no_point split: if_splits)
qed

lemma plain_decimal_iff:
  "plain_decimal value allow_zero \<longleftrightarrow>
     plain_parts (whole_part value) (if has_point value then Some (fraction_part value) else None)
     \<and> (allow_zero \<or> list_ex (\<lambda>c. c \<noteq> CHR ''0'') value)"
  using syntax_iff [of "value"] unfolding plain_decimal_def by auto

lemma find_last_not_zero_None: "find_last_not_zero s = None \<longleftrightarrow> list_all (\<lambda>c. c = CHR ''0'') s"
  by (induction s) (auto split: option.splits)

lemma find_last_not_zero_Some:
  "find_last_not_zero s = Some i \<Longrightarrow> i < length s \<and> s ! i \<noteq> CHR ''0'' \<and> list_all (\<lambda>c. c = CHR ''0'') (drop (Suc i) s)"
proof (induction s arbitrary: i)
  case (Cons c s)
  then show ?case
    by (cases "find_last_not_zero s") (auto simp: find_last_not_zero_None split: if_splits)
qed simp

lemma digits_value_zeros: "list_all (\<lambda>c. c = CHR ''0'') s \<Longrightarrow> digits_value s = 0"
  by (induction s rule: rev_induct) (auto simp: digit_val_def)

end
