(* ===== verification/SpotProtocol.thy ===== *)
theory SpotProtocol
  imports Json
begin

text \<open>
  The Spot exchange protocol, \<open>src/src/g4/spot_protocol.{hpp,cpp}\<close>: exchange metadata, raw and
  combined stream frames, and depth snapshots, from JSON to wire messages.
\<close>

section \<open>Stream symbols\<close>

definition lower_letter :: "char \<Rightarrow> char" where
  "lower_letter c = char_of ((of_char c :: nat) - 65 + 97)"

fun spot_stream_symbol_loop :: "string \<Rightarrow> string \<Rightarrow> string option" where
  "spot_stream_symbol_loop [] encoded = Some encoded"
| "spot_stream_symbol_loop (c # cs) encoded =
     (if between 65 c 90 then spot_stream_symbol_loop cs (encoded @ [lower_letter c])
      else if is_digit c then spot_stream_symbol_loop cs (encoded @ [c])
      else None)"

definition spot_stream_symbol :: "string \<Rightarrow> string option" where
  "spot_stream_symbol canonical_symbol =
     (if canonical_symbol = [] then None else spot_stream_symbol_loop canonical_symbol [])"

section \<open>Exchange metadata\<close>

record 'd spot_metadata =
  sm_tick_size :: string
  sm_step_size :: string
  sm_price_scale :: 'd
  sm_quantity_scale :: 'd

definition metadata_error :: "string \<Rightarrow> string \<Rightarrow> protocol_error" where
  "metadata_error field message = protocol_error_of InvalidMarketMetadata field message"

definition unroutable_symbol :: protocol_error where
  "unroutable_symbol = metadata_error ''symbol''
     ''requested Spot symbol cannot be represented by a Binance route''"

text \<open>The loop over the symbols; the result is the selected one, if any.\<close>

fun select_symbol :: "string \<Rightarrow> json list \<Rightarrow> json option \<Rightarrow> protocol_error + json option" where
  "select_symbol requested [] selected = Inr selected"
| "select_symbol requested (candidate # rest) selected =
     (if \<not> is_object candidate
      then Inl (metadata_error ''symbols'' ''each exchangeInfo symbol must be an object'')
      else case string_field candidate ''symbol'' of
        None \<Rightarrow> Inl (metadata_error ''symbol'' ''each exchangeInfo symbol needs a string symbol'')
      | Some name \<Rightarrow>
          if name = requested then
            (if selected \<noteq> None
             then Inl (metadata_error ''symbol'' ''exchangeInfo contains a duplicate requested symbol'')
             else select_symbol requested rest (Some candidate))
          else select_symbol requested rest selected)"

text \<open>The loop over the filters; the result is the tick size and the step size.\<close>

fun read_filters ::
  "json list \<Rightarrow> string option \<Rightarrow> string option \<Rightarrow> protocol_error + string option \<times> string option" where
  "read_filters [] tick_size step_size = Inr (tick_size, step_size)"
| "read_filters (entry # rest) tick_size step_size =
     (if \<not> is_object entry
      then Inl (metadata_error ''filters'' ''each symbol filter must be an object'')
      else case string_field entry ''filterType'' of
        None \<Rightarrow> Inl (metadata_error ''filterType'' ''each symbol filter needs a string filterType'')
      | Some type \<Rightarrow>
          if type = ''PRICE_FILTER'' then
            (case string_field entry ''tickSize'' of
               Some v \<Rightarrow>
                 if tick_size \<noteq> None
                 then Inl (metadata_error ''PRICE_FILTER'' ''exactly one valid PRICE_FILTER is required'')
                 else read_filters rest (Some v) step_size
             | None \<Rightarrow> Inl (metadata_error ''PRICE_FILTER'' ''exactly one valid PRICE_FILTER is required''))
          else if type = ''LOT_SIZE'' then
            (case string_field entry ''stepSize'' of
               Some v \<Rightarrow>
                 if step_size \<noteq> None
                 then Inl (metadata_error ''LOT_SIZE'' ''exactly one valid LOT_SIZE is required'')
                 else read_filters rest tick_size (Some v)
             | None \<Rightarrow> Inl (metadata_error ''LOT_SIZE'' ''exactly one valid LOT_SIZE is required''))
          else read_filters rest tick_size step_size)"

text \<open>Filters and scales of the selected symbol, which the USD-M parser reads the same way up to \<open>unit\<close>, the
  market's name in the messages.\<close>

definition read_numeric_spec ::
  "(u32 \<Rightarrow> 'd option) \<Rightarrow> string \<Rightarrow> json \<Rightarrow> protocol_error + 'd spot_metadata" where
  "read_numeric_spec create filters_message selected =
     (case json_find selected ''filters'' of
        Some (JArray filters) \<Rightarrow>
          (case read_filters filters None None of
             Inl failure \<Rightarrow> Inl failure
           | Inr (Some tick_size, Some step_size) \<Rightarrow>
               (case (decimal_scale_from_quantum create tick_size,
                      decimal_scale_from_quantum create step_size) of
                  (Inl failure, _) \<Rightarrow> Inl failure
                | (_, Inl failure) \<Rightarrow> Inl failure
                | (Inr price_scale, Inr quantity_scale) \<Rightarrow>
                    Inr \<lparr>sm_tick_size = tick_size, sm_step_size = step_size,
                         sm_price_scale = price_scale, sm_quantity_scale = quantity_scale\<rparr>)
           | Inr _ \<Rightarrow> Inl (metadata_error ''filters'' ''PRICE_FILTER and LOT_SIZE are both required''))
      | _ \<Rightarrow> Inl (metadata_error ''filters'' filters_message))"

definition find_requested :: "string \<Rightarrow> string \<Rightarrow> json \<Rightarrow> protocol_error + json" where
  "find_requested missing_message requested root =
     (case json_find root ''symbols'' of
        Some (JArray symbols) \<Rightarrow>
          (case select_symbol requested symbols None of
             Inl failure \<Rightarrow> Inl failure
           | Inr None \<Rightarrow> Inl (metadata_error ''symbol'' missing_message)
           | Inr (Some selected) \<Rightarrow> Inr selected)
      | _ \<Rightarrow> Inl (metadata_error ''symbols'' ''exchangeInfo symbols must be an array''))"

definition parse_exchange_info ::
  "(string \<Rightarrow> parsed_json) \<Rightarrow> (u32 \<Rightarrow> 'd option) \<Rightarrow> string \<Rightarrow> string
     \<Rightarrow> protocol_error + 'd spot_metadata" where
  "parse_exchange_info parse create payload requested_symbol =
     (case parse_json parse payload of
        Inl failure \<Rightarrow> Inl failure
      | Inr root \<Rightarrow>
          if spot_stream_symbol requested_symbol = None then Inl unroutable_symbol
          else (case find_requested ''exchangeInfo must contain the requested Spot symbol''
                       requested_symbol root of
             Inl failure \<Rightarrow> Inl failure
           | Inr selected \<Rightarrow>
               if string_field selected ''status'' \<noteq> Some ''TRADING''
               then Inl (metadata_error ''status'' ''requested Spot symbol must be TRADING'')
               else if boolean_field selected ''isSpotTradingAllowed'' \<noteq> Some True
               then Inl (metadata_error ''isSpotTradingAllowed''
                           ''requested Spot symbol trading must be allowed'')
               else read_numeric_spec create ''requested Spot symbol filters must be an array'' selected))"

section \<open>Frames\<close>

definition spot_metadata_base ::
  "string \<Rightarrow> string \<Rightarrow> clock_sample \<Rightarrow> wire_stream \<Rightarrow> string \<Rightarrow> event_metadata" where
  "spot_metadata_base symbol connection_id received_at stream schema =
     \<lparr>md_venue = VENUE_BINANCE, md_market = MARKET_SPOT, md_symbol = symbol,
      md_producer = ''gateway-g4-spot'', md_producer_version = ''1.0.0'',
      md_connection_id = connection_id, md_stream = stream, md_schema_version = schema,
      md_exchange_event_time_ms = None, md_exchange_trade_time_ms = None,
      md_exchange_transaction_time_ms = None,
      md_receive_time_utc_ns = Some (cs_utc_ns received_at),
      md_receive_monotonic_ns = Some (cs_monotonic_ns received_at)\<rparr>"

definition depth_metadata :: "string \<Rightarrow> string \<Rightarrow> clock_sample \<Rightarrow> u64 \<Rightarrow> event_metadata" where
  "depth_metadata symbol connection_id received_at event_time =
     (spot_metadata_base symbol connection_id received_at STREAM_DIFF_DEPTH ''depth-update.v1'')
       \<lparr>md_exchange_event_time_ms := Some event_time\<rparr>"

definition trade_metadata :: "string \<Rightarrow> string \<Rightarrow> clock_sample \<Rightarrow> u64 \<Rightarrow> u64 \<Rightarrow> event_metadata" where
  "trade_metadata symbol connection_id received_at event_time trade_time =
     (spot_metadata_base symbol connection_id received_at STREAM_AGG_TRADE ''agg-trade.v1'')
       \<lparr>md_exchange_event_time_ms := Some event_time, md_exchange_trade_time_ms := Some trade_time\<rparr>"

definition ticker_metadata :: "string \<Rightarrow> string \<Rightarrow> clock_sample \<Rightarrow> event_metadata" where
  "ticker_metadata symbol connection_id received_at =
     spot_metadata_base symbol connection_id received_at STREAM_BOOK_TICKER ''book-ticker.v1''"

datatype depth_frame_result = DfUpdate depth_update | DfShutdown u64 | DfError protocol_error

definition shutdown_frame :: "json \<Rightarrow> depth_frame_result" where
  "shutdown_frame root =
     (if \<not> has_required_keys root [''e'', ''E'']
      then DfError (protocol_error_of InvalidShape ''payload'' ''serverShutdown has an unexpected shape'')
      else case unsigned_field root ''E'' of
        None \<Rightarrow> DfError (protocol_error_of InvalidField ''E'' ''serverShutdown event time must be uint64'')
      | Some event_time \<Rightarrow> DfShutdown event_time)"

text \<open>The two depth sides of an update; the members exist when it is called.\<close>

definition with_levels :: "json \<Rightarrow> depth_update \<Rightarrow> depth_frame_result" where
  "with_levels root update =
     (case append_levels (the (json_find root ''b'')) [] ''b'' of
        Inl failure \<Rightarrow> DfError failure
      | Inr bids \<Rightarrow>
          (case append_levels (the (json_find root ''a'')) [] ''a'' of
             Inl failure \<Rightarrow> DfError failure
           | Inr asks \<Rightarrow> DfUpdate (update\<lparr>du_bids := bids, du_asks := asks\<rparr>)))"

definition parse_depth_object :: "json \<Rightarrow> clock_sample \<Rightarrow> string \<Rightarrow> string \<Rightarrow> depth_frame_result" where
  "parse_depth_object root received_at connection_id requested_symbol =
     (if spot_stream_symbol requested_symbol = None then DfError unroutable_symbol
      else case string_field root ''e'' of
        None \<Rightarrow> DfError (protocol_error_of InvalidField ''e'' ''event type must be a string'')
      | Some event \<Rightarrow>
          if event = ''serverShutdown'' then shutdown_frame root
          else if event \<noteq> ''depthUpdate''
          then DfError (protocol_error_of WrongEvent ''e'' ''raw stream payload is not a depthUpdate'')
          else if \<not> has_required_keys root [''e'', ''E'', ''s'', ''U'', ''u'', ''b'', ''a'']
                  \<or> json_contains root ''pu''
          then DfError (protocol_error_of InvalidShape ''payload'' ''depthUpdate has an unexpected shape'')
          else if string_field root ''s'' \<noteq> Some requested_symbol
          then DfError (protocol_error_of WrongSymbol ''s''
                          ''depthUpdate symbol does not match the configured symbol'')
          else case (unsigned_field root ''E'', unsigned_field root ''U'', unsigned_field root ''u'') of
            (Some event_time, Some first_id, Some final_id) \<Rightarrow>
              if connection_id = []
              then DfError (protocol_error_of InvalidField ''connection_id''
                              ''connection_id must be non-empty'')
              else with_levels root
                \<lparr>du_metadata = depth_metadata requested_symbol connection_id received_at event_time,
                 du_first_update_id = first_id, du_final_update_id = final_id,
                 du_previous_final_update_id = None, du_bids = [], du_asks = []\<rparr>
          | _ \<Rightarrow> DfError (protocol_error_of InvalidField ''sequence'' ''E, U, and u must be uint64 values''))"

definition parse_depth_frame ::
  "(string \<Rightarrow> parsed_json) \<Rightarrow> string \<Rightarrow> clock_sample \<Rightarrow> string \<Rightarrow> string \<Rightarrow> depth_frame_result" where
  "parse_depth_frame parse payload received_at connection_id requested_symbol =
     (case parse_json parse payload of
        Inl failure \<Rightarrow> DfError failure
      | Inr root \<Rightarrow> parse_depth_object root received_at connection_id requested_symbol)"

section \<open>Combined stream frames\<close>

datatype combined_frame_result =
    CfEvent normalized_market_event | CfShutdown u64 | CfError protocol_error

definition parse_agg_trade ::
  "json \<Rightarrow> clock_sample \<Rightarrow> string \<Rightarrow> string \<Rightarrow> combined_frame_result" where
  "parse_agg_trade data received_at connection_id requested_symbol =
     (if \<not> has_required_keys data
            [''e'', ''E'', ''s'', ''a'', ''p'', ''q'', ''f'', ''l'', ''T'', ''m'', ''M'']
      then CfError (protocol_error_of InvalidShape ''data'' ''aggTrade has an unexpected shape'')
      else if string_field data ''e'' \<noteq> Some ''aggTrade''
      then CfError (protocol_error_of WrongEvent ''e'' ''combined stream payload is not aggTrade'')
      else if string_field data ''s'' \<noteq> Some requested_symbol
      then CfError (protocol_error_of WrongSymbol ''s''
                      ''aggTrade symbol does not match the configured symbol'')
      else case (unsigned_field data ''a'', string_field data ''p'', string_field data ''q'',
                 unsigned_field data ''f'', unsigned_field data ''l'', unsigned_field data ''E'',
                 unsigned_field data ''T'', boolean_field data ''m'', boolean_field data ''M'') of
        (Some aggregate_id, Some price, Some quantity, Some first_trade_id, Some last_trade_id,
         Some event_time, Some trade_time, Some buyer_is_maker, Some best_match) \<Rightarrow>
          if plain_decimal price False \<and> plain_decimal quantity False
          then CfEvent (EvAggTrade
            \<lparr>at_metadata = trade_metadata requested_symbol connection_id received_at event_time trade_time,
             at_aggregate_trade_id = aggregate_id, at_price = price, at_quantity = quantity,
             at_first_trade_id = first_trade_id, at_last_trade_id = last_trade_id,
             at_trade_time_ms = trade_time, at_buyer_is_maker = buyer_is_maker\<rparr>)
          else CfError (protocol_error_of InvalidField ''aggTrade''
                          ''aggTrade fields have invalid types or decimal values'')
      | _ \<Rightarrow> CfError (protocol_error_of InvalidField ''aggTrade''
                        ''aggTrade fields have invalid types or decimal values''))"

definition parse_book_ticker ::
  "json \<Rightarrow> clock_sample \<Rightarrow> string \<Rightarrow> string \<Rightarrow> combined_frame_result" where
  "parse_book_ticker data received_at connection_id requested_symbol =
     (if \<not> has_required_keys data [''u'', ''s'', ''b'', ''B'', ''a'', ''A'']
      then CfError (protocol_error_of InvalidShape ''data'' ''bookTicker has an unexpected shape'')
      else if string_field data ''s'' \<noteq> Some requested_symbol
      then CfError (protocol_error_of WrongSymbol ''s''
                      ''bookTicker symbol does not match the configured symbol'')
      else case (unsigned_field data ''u'', string_field data ''b'', string_field data ''B'',
                 string_field data ''a'', string_field data ''A'') of
        (Some update_id, Some bid_price, Some bid_quantity, Some ask_price, Some ask_quantity) \<Rightarrow>
          if plain_decimal bid_price False \<and> plain_decimal bid_quantity True
             \<and> plain_decimal ask_price False \<and> plain_decimal ask_quantity True
          then CfEvent (EvBookTicker
            \<lparr>bt_metadata = ticker_metadata requested_symbol connection_id received_at,
             bt_update_id = update_id, bt_best_bid_price = bid_price,
             bt_best_bid_quantity = bid_quantity, bt_best_ask_price = ask_price,
             bt_best_ask_quantity = ask_quantity\<rparr>)
          else CfError (protocol_error_of InvalidField ''bookTicker''
                          ''bookTicker fields have invalid types or decimal values'')
      | _ \<Rightarrow> CfError (protocol_error_of InvalidField ''bookTicker''
                        ''bookTicker fields have invalid types or decimal values''))"

text \<open>\<open>std::get<ProtocolError>\<close> of a nested result that is not a shutdown would throw on an update, which
  the event type excludes; that case is mapped to \<open>undefined_frame\<close> and shown not to arise.\<close>

definition undefined_frame :: combined_frame_result where
  "undefined_frame = CfError (protocol_error_of InvalidField ''bad_variant_access'' [])"

definition parse_combined_event_frame ::
  "(string \<Rightarrow> parsed_json) \<Rightarrow> string \<Rightarrow> clock_sample \<Rightarrow> string \<Rightarrow> string \<Rightarrow> combined_frame_result" where
  "parse_combined_event_frame parse payload received_at connection_id requested_symbol =
     (case parse_json parse payload of
        Inl failure \<Rightarrow> CfError failure
      | Inr root \<Rightarrow>
          (case spot_stream_symbol requested_symbol of
             None \<Rightarrow> CfError unroutable_symbol
           | Some stream_symbol \<Rightarrow>
               if \<not> has_required_keys root [''stream'', ''data'']
               then CfError (protocol_error_of InvalidShape ''payload''
                               ''combined stream envelope has an unexpected shape'')
               else case (string_field root ''stream'', json_find root ''data'') of
                 (Some stream, Some data) \<Rightarrow>
                   if \<not> is_object data
                   then CfError (protocol_error_of InvalidField ''stream''
                                   ''combined stream and data must be valid'')
                   else if connection_id = []
                   then CfError (protocol_error_of InvalidField ''connection_id''
                                   ''connection_id must be non-empty'')
                   else if stream = ''!serverShutdown'' then
                     (if string_field data ''e'' \<noteq> Some ''serverShutdown''
                      then CfError (protocol_error_of WrongEvent ''e''
                                      ''server shutdown stream requires a serverShutdown event'')
                      else case parse_depth_object data received_at connection_id requested_symbol of
                        DfShutdown event_time \<Rightarrow> CfShutdown event_time
                      | DfError failure \<Rightarrow> CfError failure
                      | DfUpdate _ \<Rightarrow> undefined_frame)
                   else if stream = stream_symbol @ ''@depth@100ms'' then
                     (case parse_depth_object data received_at connection_id requested_symbol of
                        DfShutdown event_time \<Rightarrow> CfShutdown event_time
                      | DfError failure \<Rightarrow> CfError failure
                      | DfUpdate update \<Rightarrow> CfEvent (EvDepthUpdate update))
                   else if stream = stream_symbol @ ''@aggTrade''
                   then parse_agg_trade data received_at connection_id requested_symbol
                   else if stream = stream_symbol @ ''@bookTicker''
                   then parse_book_ticker data received_at connection_id requested_symbol
                   else CfError (protocol_error_of WrongEvent ''stream''
                                   ''combined stream is not configured for G9'')
               | _ \<Rightarrow> CfError (protocol_error_of InvalidField ''stream''
                                 ''combined stream and data must be valid'')))"

section \<open>Snapshots\<close>

definition with_sides ::
  "json \<Rightarrow> exchange_depth_snapshot \<Rightarrow> protocol_error + exchange_depth_snapshot" where
  "with_sides root snapshot =
     (case append_levels (the (json_find root ''bids'')) [] ''bids'' of
        Inl failure \<Rightarrow> Inl failure
      | Inr bids \<Rightarrow>
          (case append_levels (the (json_find root ''asks'')) [] ''asks'' of
             Inl failure \<Rightarrow> Inl failure
           | Inr asks \<Rightarrow> Inr (snapshot\<lparr>ds_bids := bids, ds_asks := asks\<rparr>)))"

definition parse_depth_snapshot ::
  "(string \<Rightarrow> parsed_json) \<Rightarrow> string \<Rightarrow> clock_sample \<Rightarrow> string \<Rightarrow> string
     \<Rightarrow> protocol_error + exchange_depth_snapshot" where
  "parse_depth_snapshot parse payload received_at request_id requested_symbol =
     (case parse_json parse payload of
        Inl failure \<Rightarrow> Inl failure
      | Inr root \<Rightarrow>
          if spot_stream_symbol requested_symbol = None then Inl unroutable_symbol
          else if \<not> has_required_keys root [''lastUpdateId'', ''bids'', ''asks'']
          then Inl (protocol_error_of InvalidShape ''payload'' ''depth snapshot has an unexpected shape'')
          else (case unsigned_field root ''lastUpdateId'' of
             None \<Rightarrow> Inl (protocol_error_of InvalidField ''lastUpdateId''
                             ''lastUpdateId must be uint64 and request_id non-empty'')
           | Some last_update_id \<Rightarrow>
               if request_id = []
               then Inl (protocol_error_of InvalidField ''lastUpdateId''
                           ''lastUpdateId must be uint64 and request_id non-empty'')
               else with_sides root
                 \<lparr>ds_venue = VENUE_BINANCE, ds_market = MARKET_SPOT, ds_symbol = requested_symbol,
                  ds_schema_version = ''exchange-depth-snapshot.v1'', ds_producer = ''gateway-g4-spot'',
                  ds_producer_version = ''1.0.0'', ds_request_id = request_id,
                  ds_last_update_id = last_update_id, ds_exchange_transaction_time_ms = None,
                  ds_receive_time_utc_ns = cs_utc_ns received_at,
                  ds_receive_monotonic_ns = cs_monotonic_ns received_at, ds_bids = [], ds_asks = []\<rparr>))"

end
