(* ===== verification/UsdmProtocol.thy ===== *)
theory UsdmProtocol
  imports SpotProtocol
begin

text \<open>
  The USD-M perpetual protocol, \<open>src/src/g11/usdm_protocol.{hpp,cpp}\<close>. Its helpers are copies of
  the Spot ones; the loops over symbols and filters are the same up to their messages, so the
  definitions of the Spot protocol model them here as well.
\<close>

definition usdm_stream_symbol :: "string \<Rightarrow> string option" where
  "usdm_stream_symbol canonical_symbol = spot_stream_symbol canonical_symbol"

definition usdm_unroutable_symbol :: protocol_error where
  "usdm_unroutable_symbol = metadata_error ''symbol''
     ''requested USD-M symbol cannot be represented by a Binance route''"

definition parse_usdm_exchange_info ::
  "(string \<Rightarrow> parsed_json) \<Rightarrow> (u32 \<Rightarrow> 'd option) \<Rightarrow> string \<Rightarrow> string
     \<Rightarrow> protocol_error + 'd spot_metadata" where
  "parse_usdm_exchange_info parse create payload requested_symbol =
     (case parse_json parse payload of
        Inl failure \<Rightarrow> Inl failure
      | Inr root \<Rightarrow>
          if usdm_stream_symbol requested_symbol = None then Inl usdm_unroutable_symbol
          else (case find_requested ''exchangeInfo must contain the requested USD-M symbol''
                       requested_symbol root of
             Inl failure \<Rightarrow> Inl failure
           | Inr selected \<Rightarrow>
               if string_field selected ''contractType'' \<noteq> Some ''PERPETUAL''
               then Inl (metadata_error ''contractType''
                           ''requested USD-M symbol contractType must be PERPETUAL'')
               else if string_field selected ''status'' \<noteq> Some ''TRADING''
               then Inl (metadata_error ''status'' ''requested USD-M perpetual symbol must be TRADING'')
               else read_numeric_spec create ''requested USD-M symbol filters must be an array'' selected))"

definition usdm_depth_metadata ::
  "string \<Rightarrow> string \<Rightarrow> clock_sample \<Rightarrow> u64 \<Rightarrow> u64 option \<Rightarrow> event_metadata" where
  "usdm_depth_metadata symbol connection_id received_at event_time transaction_time =
     \<lparr>md_venue = VENUE_BINANCE, md_market = MARKET_USD_M_PERPETUAL, md_symbol = symbol,
      md_producer = ''gateway-g11-usdm'', md_producer_version = ''1.0.0'',
      md_connection_id = connection_id, md_stream = STREAM_DIFF_DEPTH,
      md_schema_version = ''depth-update.v1'', md_exchange_event_time_ms = Some event_time,
      md_exchange_trade_time_ms = None, md_exchange_transaction_time_ms = transaction_time,
      md_receive_time_utc_ns = Some (cs_utc_ns received_at),
      md_receive_monotonic_ns = Some (cs_monotonic_ns received_at)\<rparr>"

text \<open>A member that may be missing but must be an unsigned number when it is there.\<close>

definition optional_unsigned :: "json \<Rightarrow> string \<Rightarrow> u64 option option" where
  "optional_unsigned root name =
     (if json_contains root name
      then (case unsigned_field root name of None \<Rightarrow> None | Some n \<Rightarrow> Some (Some n))
      else Some None)"

definition usdm_depth_update ::
  "json \<Rightarrow> clock_sample \<Rightarrow> string \<Rightarrow> string \<Rightarrow> depth_frame_result" where
  "usdm_depth_update root received_at connection_id requested_symbol =
     (case (unsigned_field root ''E'', unsigned_field root ''U'', unsigned_field root ''u'') of
        (Some event_time, Some first_id, Some final_id) \<Rightarrow>
          (case optional_unsigned root ''T'' of
             None \<Rightarrow> DfError (protocol_error_of InvalidField ''T''
                                ''USD-M transaction time must be uint64 when present'')
           | Some transaction_time \<Rightarrow>
               (case optional_unsigned root ''pu'' of
                  None \<Rightarrow> DfError (protocol_error_of InvalidField ''pu''
                                     ''USD-M previous final update ID must be uint64 when present'')
                | Some previous_final \<Rightarrow>
                    if connection_id = []
                    then DfError (protocol_error_of InvalidField ''connection_id''
                                    ''connection_id must be non-empty'')
                    else with_levels root
                      \<lparr>du_metadata = usdm_depth_metadata requested_symbol connection_id received_at
                                       event_time transaction_time,
                       du_first_update_id = first_id, du_final_update_id = final_id,
                       du_previous_final_update_id = previous_final, du_bids = [], du_asks = []\<rparr>))
      | _ \<Rightarrow> DfError (protocol_error_of InvalidField ''sequence'' ''E, U, and u must be uint64 values''))"

definition parse_usdm_depth_frame ::
  "(string \<Rightarrow> parsed_json) \<Rightarrow> string \<Rightarrow> clock_sample \<Rightarrow> string \<Rightarrow> string \<Rightarrow> depth_frame_result" where
  "parse_usdm_depth_frame parse payload received_at connection_id requested_symbol =
     (case parse_json parse payload of
        Inl failure \<Rightarrow> DfError failure
      | Inr root \<Rightarrow>
          if usdm_stream_symbol requested_symbol = None then DfError usdm_unroutable_symbol
          else (case string_field root ''e'' of
             None \<Rightarrow> DfError (protocol_error_of InvalidField ''e'' ''event type must be a string'')
           | Some event \<Rightarrow>
               if event = ''serverShutdown'' then shutdown_frame root
               else if event \<noteq> ''depthUpdate''
               then DfError (protocol_error_of WrongEvent ''e''
                               ''USD-M raw stream payload is not a depthUpdate'')
               else if \<not> has_required_keys root [''e'', ''E'', ''s'', ''U'', ''u'', ''b'', ''a'']
               then DfError (protocol_error_of InvalidShape ''payload''
                               ''USD-M depthUpdate has an unexpected shape'')
               else if string_field root ''s'' \<noteq> Some requested_symbol
               then DfError (protocol_error_of WrongSymbol ''s''
                               ''USD-M depthUpdate symbol does not match the configured symbol'')
               else if json_contains root ''ps'' \<and> string_field root ''ps'' = None
               then DfError (protocol_error_of InvalidField ''ps''
                               ''USD-M depthUpdate pair must be a string when present'')
               else if json_contains root ''st'' \<and> unsigned_field root ''st'' \<noteq> Some 1
               then DfError (protocol_error_of InvalidMarketMetadata ''st''
                               ''USD-M depthUpdate symbol type must be 1'')
               else usdm_depth_update root received_at connection_id requested_symbol))"

definition parse_usdm_depth_snapshot ::
  "(string \<Rightarrow> parsed_json) \<Rightarrow> string \<Rightarrow> clock_sample \<Rightarrow> string \<Rightarrow> string
     \<Rightarrow> protocol_error + exchange_depth_snapshot" where
  "parse_usdm_depth_snapshot parse payload received_at request_id requested_symbol =
     (case parse_json parse payload of
        Inl failure \<Rightarrow> Inl failure
      | Inr root \<Rightarrow>
          if usdm_stream_symbol requested_symbol = None then Inl usdm_unroutable_symbol
          else if \<not> has_required_keys root [''lastUpdateId'', ''bids'', ''asks'']
          then Inl (protocol_error_of InvalidShape ''payload''
                      ''USD-M depth snapshot has an unexpected shape'')
          else (case unsigned_field root ''lastUpdateId'' of
             None \<Rightarrow> Inl (protocol_error_of InvalidField ''lastUpdateId''
                             ''lastUpdateId must be uint64 and request_id non-empty'')
           | Some last_update_id \<Rightarrow>
               if request_id = []
               then Inl (protocol_error_of InvalidField ''lastUpdateId''
                           ''lastUpdateId must be uint64 and request_id non-empty'')
               else if json_contains root ''E'' \<and> unsigned_field root ''E'' = None
               then Inl (protocol_error_of InvalidField ''E''
                           ''snapshot message output time must be uint64 when present'')
               else (case optional_unsigned root ''T'' of
                  None \<Rightarrow> Inl (protocol_error_of InvalidField ''T''
                                  ''snapshot transaction time must be uint64 when present'')
                | Some transaction_time \<Rightarrow>
                    with_sides root
                      \<lparr>ds_venue = VENUE_BINANCE, ds_market = MARKET_USD_M_PERPETUAL,
                       ds_symbol = requested_symbol,
                       ds_schema_version = ''exchange-depth-snapshot.v1'',
                       ds_producer = ''gateway-g11-usdm'', ds_producer_version = ''1.0.0'',
                       ds_request_id = request_id, ds_last_update_id = last_update_id,
                       ds_exchange_transaction_time_ms = transaction_time,
                       ds_receive_time_utc_ns = cs_utc_ns received_at,
                       ds_receive_monotonic_ns = cs_monotonic_ns received_at,
                       ds_bids = [], ds_asks = []\<rparr>)))"

end
