(* ===== verification/ProtocolProperties.thy ===== *)
theory ProtocolProperties
  imports UsdmProtocol
begin

text \<open>
  What the exchange protocols promise: the scale of a quantum is exact, every accepted frame is
  of the requested product and carries its own provenance, and rendering a depth update and
  parsing it again gives the update.
\<close>

section \<open>Quanta\<close>

lemma digits_value_append: "digits_value (s @ t) = digits_value s * 10 ^ length t + digits_value t"
  by (induction t rule: rev_induct) (simp_all del: append_assoc add: append_assoc [symmetric] algebra_simps)

lemma digit_val_0: "is_digit c \<Longrightarrow> digit_val c = 0 \<longleftrightarrow> c = CHR ''0''"
proof
  assume "is_digit c" and "digit_val c = 0"
  then have "(of_char c :: nat) = 48" by (simp add: is_digit_def digit_val_def)
  then have "char_of (of_char c :: nat) = (char_of (48 :: nat) :: char)" by simp
  moreover have "char_of (48 :: nat) = CHR ''0''" by code_simp
  ultimately show "c = CHR ''0''" by simp
qed (simp add: digit_val_def)

lemma digit_val_less: "is_digit c \<Longrightarrow> digit_val c < 10"
  by (auto simp: is_digit_def digit_val_def)

lemma digits_value_0_iff:
  "list_all is_digit s \<Longrightarrow> digits_value s = 0 \<longleftrightarrow> list_all (\<lambda>c. c = CHR ''0'') s"
  by (induction s rule: rev_induct) (auto simp: digit_val_0)

text \<open>The number of units of the last place that a decimal stands for.\<close>

definition units :: "string \<Rightarrow> string option \<Rightarrow> nat" where
  "units whole fraction = digits_value (whole @ (case fraction of None \<Rightarrow> [] | Some f \<Rightarrow> f))"

definition places :: "string option \<Rightarrow> nat" where
  "places fraction = (case fraction of None \<Rightarrow> 0 | Some f \<Rightarrow> length f)"

lemma trailing_zeros:
  assumes "list_all is_digit f" and "find_last_not_zero f = Some i"
  shows "digits_value (w @ f) = digits_value (w @ take (Suc i) f) * 10 ^ (length f - Suc i)"
    and "\<not> 10 dvd digits_value (w @ take (Suc i) f)" and "i < length f"
proof -
  from find_last_not_zero_Some [OF assms(2)] have i: "i < length f" "f ! i \<noteq> CHR ''0''"
    and zeros: "list_all (\<lambda>c. c = CHR ''0'') (drop (Suc i) f)" by auto
  show "digits_value (w @ f) = digits_value (w @ take (Suc i) f) * 10 ^ (length f - Suc i)"
    using digits_value_append [of "w @ take (Suc i) f" "drop (Suc i) f"] digits_value_zeros [OF zeros] by simp
  show "\<not> 10 dvd digits_value (w @ take (Suc i) f)"
  proof -
    have "is_digit (f ! i)" using assms(1) i(1) by (simp add: list_all_length)
    then have "0 < digit_val (f ! i)" "digit_val (f ! i) < 10"
      using i(2) digit_val_0 digit_val_less by auto
    moreover have "digits_value (w @ take (Suc i) f) = 10 * digits_value (w @ take i f) + digit_val (f ! i)"
      using i(1) by (simp add: take_Suc_conv_app_nth flip: append_assoc)
    ultimately show ?thesis by (simp add: dvd_add_right_iff nat_dvd_not_less)
  qed
  show "i < length f" by (fact i(1))
qed

text \<open>The scale is the least one at which the quantum is a whole number.\<close>

lemma least_scale:
  assumes "plain_parts whole fraction"
  shows "(LEAST n. 10 ^ places fraction dvd units whole fraction * 10 ^ n)
    = (case find_last_not_zero (case fraction of None \<Rightarrow> [] | Some f \<Rightarrow> f) of None \<Rightarrow> 0 | Some i \<Rightarrow> i + 1)"
proof -
  define f where "f = (case fraction of None \<Rightarrow> [] | Some f \<Rightarrow> f)"
  have digits: "list_all is_digit f" and len: "places fraction = length f"
    and u: "units whole fraction = digits_value (whole @ f)"
    using assms by (auto simp: f_def plain_parts_def places_def units_def split: option.splits)
  show ?thesis
  proof (cases "find_last_not_zero f")
    case None
    then have "digits_value f = 0" by (simp add: find_last_not_zero_None digits_value_zeros)
    then have "10 ^ length f dvd digits_value (whole @ f) * 10 ^ 0" by (simp add: digits_value_append)
    then have "(LEAST n. 10 ^ length f dvd digits_value (whole @ f) * 10 ^ n) = 0" by (rule Least_eq_0)
    then show ?thesis unfolding len u f_def [symmetric] None by simp
  next
    case (Some i)
    note eq = trailing_zeros(1) [OF digits Some] and odd = trailing_zeros(2) [OF digits Some]
      and i = trailing_zeros(3) [OF digits Some]
    have "(LEAST n. 10 ^ length f dvd digits_value (whole @ f) * 10 ^ n) = Suc i"
    proof (rule Least_equality)
      have "(10 :: nat) ^ length f = 10 ^ (length f - Suc i) * 10 ^ Suc i"
        using i unfolding power_add [symmetric] by (intro arg_cong [where f = "\<lambda>n. 10 ^ n"]) simp
      then show "10 ^ length f dvd digits_value (whole @ f) * 10 ^ Suc i"
        by (simp add: eq)
    next
      fix n assume dvd: "10 ^ length f dvd digits_value (whole @ f) * 10 ^ n"
      show "Suc i \<le> n"
      proof (rule ccontr)
        assume "\<not> Suc i \<le> n"
        then obtain d where d: "Suc i = Suc d + n" by (metis add_Suc less_iff_Suc_add add.commute not_le)
        have "(10 :: nat) ^ length f = 10 ^ (length f - Suc i + n) * 10 ^ Suc d"
          using i d unfolding power_add [symmetric] by (intro arg_cong [where f = "\<lambda>n. 10 ^ n"]) simp
        with dvd have "10 ^ (length f - Suc i + n) * 10 ^ Suc d
            dvd 10 ^ (length f - Suc i + n) * digits_value (whole @ take (Suc i) f)"
          by (simp add: eq power_add mult_ac)
        then have "10 ^ Suc d dvd digits_value (whole @ take (Suc i) f)" by simp
        then have "10 dvd digits_value (whole @ take (Suc i) f)" by (metis dvd_mult_left power_Suc)
        with odd show False by blast
      qed
    qed
    then show ?thesis unfolding len u f_def [symmetric] Some by simp
  qed
qed

lemma units_pos:
  assumes "plain_parts whole fraction"
  shows "0 < units whole fraction \<longleftrightarrow> list_ex (\<lambda>c. c \<noteq> CHR ''0'') whole
    \<or> find_last_not_zero (case fraction of None \<Rightarrow> [] | Some f \<Rightarrow> f) \<noteq> None"
proof -
  define f where "f = (case fraction of None \<Rightarrow> [] | Some f \<Rightarrow> f)"
  have "list_all is_digit (whole @ f)"
    using assms by (auto simp: f_def plain_parts_def split: option.splits)
  then have "units whole fraction = 0 \<longleftrightarrow> list_all (\<lambda>c. c = CHR ''0'') (whole @ f)"
    unfolding units_def f_def [symmetric] by (rule digits_value_0_iff)
  then have "0 < units whole fraction \<longleftrightarrow> \<not> list_all (\<lambda>c. c = CHR ''0'') (whole @ f)"
    by (simp only: neq0_conv [symmetric])
  then show ?thesis
    unfolding f_def [symmetric] find_last_not_zero_None by (simp add: list_ex_iff list_all_iff) blast
qed

text \<open>C21: a quantum is accepted exactly if it is a plain decimal greater than zero whose exact
  scale, the fewest decimal places at which it is a whole number of units, the Projection
  library can represent; and that scale is the result.\<close>

theorem quantum_scale_exact:
  "decimal_scale_from_quantum create quantum = Inr d \<longleftrightarrow>
     (\<exists>whole fraction. quantum = decimal_text whole fraction \<and> plain_parts whole fraction
        \<and> 0 < units whole fraction
        \<and> create (of_nat (LEAST n. 10 ^ places fraction dvd units whole fraction * 10 ^ n)) = Some d)"
  (is "?parsed \<longleftrightarrow> ?exact")
proof -
  define w where "w = whole_part quantum"
  define f where "f = (if has_point quantum then Some (fraction_part quantum) else None)"
  have eq: "quantum = decimal_text w f" unfolding w_def f_def by (rule decimal_text_of_parts)
  have fraction: "(case f of None \<Rightarrow> [] | Some x \<Rightarrow> x) = fraction_part quantum"
    unfolding f_def has_point_def fraction_part_def
    by (cases "find_char CHR ''.'' quantum") (simp_all only: option.case if_True if_False simp_thms option.distinct)
  have unique: "w = whole \<and> f = fr" if "quantum = decimal_text whole fr" "plain_parts whole fr" for whole fr
    using decimal_text_parts [OF that(2)] that(1) by (cases fr) (simp_all add: w_def f_def)
  have "?parsed \<longleftrightarrow> plain_parts w f \<and> 0 < units w f
      \<and> create (of_nat (LEAST n. 10 ^ places f dvd units w f * 10 ^ n)) = Some d"
  proof (cases "plain_parts w f")
    case True
    note ok = syntax_iff [of quantum, folded w_def f_def, THEN iffD2, OF True]
    have "?parsed \<longleftrightarrow> (list_ex (\<lambda>c. c \<noteq> CHR ''0'') w \<or> find_last_not_zero (fraction_part quantum) \<noteq> None)
        \<and> create (of_nat (case find_last_not_zero (fraction_part quantum) of None \<Rightarrow> 0 | Some i \<Rightarrow> i + 1)) = Some d"
      using ok unfolding decimal_scale_from_quantum_def w_def [symmetric] Let_def
      by (auto split: option.splits)
    then show ?thesis
      unfolding units_pos [OF True] least_scale [OF True] fraction using True by blast
  next
    case False
    with syntax_iff [of quantum, folded w_def f_def] show ?thesis
      unfolding decimal_scale_from_quantum_def w_def [symmetric] by (auto split: if_splits)
  qed
  also have "\<dots> \<longleftrightarrow> ?exact" using eq unique by blast
  finally show ?thesis .
qed

text \<open>
  \<open>plain_decimal\<close> with \<open>allow_zero\<close> off is meant to demand a non-zero digit, but the point counts as
  one: \<open>0\<close> is refused as a price and \<open>0.0\<close> is accepted.
\<close>

lemma zero_price_accepted: "plain_decimal ''0.0'' False \<and> \<not> plain_decimal ''0'' False"
  by (simp add: plain_decimal_def signed_decimal_def has_point_def fraction_part_def whole_part_def
      all_digits_def is_digit_def)

section \<open>Rendering and parsing\<close>

text \<open>A depth update as the exchange sends it: the optional members only when they are there.\<close>

definition render_levels :: "price_level list \<Rightarrow> json" where
  "render_levels levels = JArray (map (\<lambda>l. JArray [JString (pl_price l), JString (pl_quantity l)]) levels)"

definition render_optional :: "string \<Rightarrow> u64 option \<Rightarrow> (string \<times> json) list" where
  "render_optional name n = (case n of None \<Rightarrow> [] | Some k \<Rightarrow> [(name, JUnsigned k)])"

definition render_depth_update :: "depth_update \<Rightarrow> json" where
  "render_depth_update u = JObject
     ([(''e'', JString ''depthUpdate''),
       (''E'', JUnsigned (the (md_exchange_event_time_ms (du_metadata u)))),
       (''s'', JString (md_symbol (du_metadata u))),
       (''U'', JUnsigned (du_first_update_id u)), (''u'', JUnsigned (du_final_update_id u)),
       (''b'', render_levels (du_bids u)), (''a'', render_levels (du_asks u))]
      @ render_optional ''T'' (md_exchange_transaction_time_ms (du_metadata u))
      @ render_optional ''pu'' (du_previous_final_update_id u))"

lemma append_levels_loop_render:
  "append_levels_loop name (map (\<lambda>l. JArray [JString (pl_price l), JString (pl_quantity l)]) levels) out
     = Inr (out @ levels)"
  by (induction levels arbitrary: out) simp_all

lemma append_levels_render [simp]: "append_levels (render_levels levels) [] name = Inr levels"
  by (simp add: append_levels_def render_levels_def append_levels_loop_render)

lemma json_find_render:
  "json_find (render_depth_update u) ''e'' = Some (JString ''depthUpdate'')"
  "json_find (render_depth_update u) ''E'' = Some (JUnsigned (the (md_exchange_event_time_ms (du_metadata u))))"
  "json_find (render_depth_update u) ''s'' = Some (JString (md_symbol (du_metadata u)))"
  "json_find (render_depth_update u) ''U'' = Some (JUnsigned (du_first_update_id u))"
  "json_find (render_depth_update u) ''u'' = Some (JUnsigned (du_final_update_id u))"
  "json_find (render_depth_update u) ''b'' = Some (render_levels (du_bids u))"
  "json_find (render_depth_update u) ''a'' = Some (render_levels (du_asks u))"
  "json_find (render_depth_update u) ''T''
     = map_option JUnsigned (md_exchange_transaction_time_ms (du_metadata u))"
  "json_find (render_depth_update u) ''pu'' = map_option JUnsigned (du_previous_final_update_id u)"
  "json_find (render_depth_update u) ''ps'' = None" "json_find (render_depth_update u) ''st'' = None"
  by (simp_all add: json_find_def render_depth_update_def render_optional_def split: option.split)

lemma is_object_render: "is_object (render_depth_update u)"
  by (simp add: is_object_def render_depth_update_def)

lemmas field_defs = string_field_def unsigned_field_def json_contains_def has_required_keys_def

text \<open>C20: a depth update of either market, rendered as the exchange sends it and parsed for the
  product, the connection and the clock reading it carries, is parsed to itself.\<close>

theorem depth_update_roundtrip:
  assumes "parse payload = Parsed (render_depth_update u)"
    and "spot_stream_symbol symbol \<noteq> None" and "connection_id \<noteq> []"
  shows "(du_metadata u = depth_metadata symbol connection_id received_at t \<and> du_previous_final_update_id u = None
      \<longrightarrow> parse_depth_frame parse payload received_at connection_id symbol = DfUpdate u)
    \<and> (du_metadata u = usdm_depth_metadata symbol connection_id received_at t transaction_time
      \<longrightarrow> parse_usdm_depth_frame parse payload received_at connection_id symbol = DfUpdate u)"
proof (intro conjI)
  show "du_metadata u = depth_metadata symbol connection_id received_at t \<and> du_previous_final_update_id u = None
      \<longrightarrow> parse_depth_frame parse payload received_at connection_id symbol = DfUpdate u"
    using assms
    by (cases u) (auto simp: parse_depth_frame_def parse_json_def parse_depth_object_def field_defs
        json_find_render is_object_render with_levels_def depth_metadata_def spot_metadata_base_def)
  show "du_metadata u = usdm_depth_metadata symbol connection_id received_at t transaction_time
      \<longrightarrow> parse_usdm_depth_frame parse payload received_at connection_id symbol = DfUpdate u"
    using assms
    by (cases u) (auto simp: parse_usdm_depth_frame_def parse_json_def usdm_stream_symbol_def field_defs
        json_find_render is_object_render with_levels_def usdm_depth_metadata_def usdm_depth_update_def
        optional_unsigned_def split: option.splits)
qed

definition example_reading :: clock_sample where
  "example_reading = \<lparr>cs_utc_ns = 5, cs_monotonic_ns = 6\<rparr>"

definition example_usdm_update :: depth_update where
  "example_usdm_update =
     \<lparr>du_metadata = usdm_depth_metadata ''BTCUSDT'' ''c-1'' example_reading 4 (Some 3),
      du_first_update_id = 501, du_final_update_id = 504, du_previous_final_update_id = Some 499,
      du_bids = [\<lparr>pl_price = ''100.1'', pl_quantity = ''2.500''\<rparr>], du_asks = []\<rparr>"

lemma example_symbol: "spot_stream_symbol ''BTCUSDT'' \<noteq> None"
  by (simp add: spot_stream_symbol_def between_def)

theorem depth_update_roundtrip_witness:
  "parse_usdm_depth_frame (\<lambda>_. Parsed (render_depth_update example_usdm_update)) ''frame''
     example_reading ''c-1'' ''BTCUSDT'' = DfUpdate example_usdm_update"
  using depth_update_roundtrip [of "\<lambda>_. Parsed (render_depth_update example_usdm_update)" "''frame''"
      example_usdm_update "''BTCUSDT''" "''c-1''" example_reading 4 "Some 3"] example_symbol
  by (simp add: example_usdm_update_def)

section \<open>Provenance\<close>

lemma with_levels_metadata:
  "with_levels root update = DfUpdate u \<Longrightarrow> du_metadata u = du_metadata update
     \<and> du_previous_final_update_id u = du_previous_final_update_id update"
  by (auto simp: with_levels_def split: sum.splits)

lemma shutdown_frame_no_update [simp]: "shutdown_frame root \<noteq> DfUpdate u"
  by (auto simp: shutdown_frame_def split: option.splits)

lemma spot_object_own:
  assumes "parse_depth_object root received_at connection_id symbol = DfUpdate u"
  shows "(\<exists>t. du_metadata u = depth_metadata symbol connection_id received_at t)
    \<and> du_previous_final_update_id u = None \<and> string_field root ''e'' = Some ''depthUpdate''"
  using assms
  by (auto simp: parse_depth_object_def split: if_splits option.splits dest!: with_levels_metadata)

lemma usdm_frame_own:
  assumes "parse_usdm_depth_frame parse payload received_at connection_id symbol = DfUpdate u"
  shows "\<exists>t transaction_time. du_metadata u
    = usdm_depth_metadata symbol connection_id received_at t transaction_time"
  using assms
  by (auto simp: parse_usdm_depth_frame_def usdm_depth_update_def
      split: sum.splits if_splits option.splits dest!: with_levels_metadata; blast)

definition own_event :: "string \<Rightarrow> string \<Rightarrow> clock_sample \<Rightarrow> normalized_market_event \<Rightarrow> bool" where
  "own_event symbol connection_id received_at e \<longleftrightarrow> (case e of
      EvDepthUpdate u \<Rightarrow> (\<exists>t. du_metadata u = depth_metadata symbol connection_id received_at t)
    | EvAggTrade a \<Rightarrow> (\<exists>t. at_metadata a = trade_metadata symbol connection_id received_at t (at_trade_time_ms a))
        \<and> plain_decimal (at_price a) False \<and> plain_decimal (at_quantity a) False
    | EvBookTicker b \<Rightarrow> bt_metadata b = ticker_metadata symbol connection_id received_at
        \<and> plain_decimal (bt_best_bid_price b) False \<and> plain_decimal (bt_best_ask_price b) False
        \<and> plain_decimal (bt_best_bid_quantity b) True \<and> plain_decimal (bt_best_ask_quantity b) True)"

lemma agg_trade_own:
  "parse_agg_trade data received_at connection_id symbol = CfEvent e \<Longrightarrow> own_event symbol connection_id received_at e"
  by (auto simp: parse_agg_trade_def own_event_def split: if_splits option.splits)

lemma book_ticker_own:
  "parse_book_ticker data received_at connection_id symbol = CfEvent e \<Longrightarrow> own_event symbol connection_id received_at e"
  by (auto simp: parse_book_ticker_def own_event_def split: if_splits option.splits)

lemma combined_own:
  assumes "parse_combined_event_frame parse payload received_at connection_id symbol = CfEvent e"
  shows "own_event symbol connection_id received_at e"
proof -
  have depth: "own_event symbol connection_id received_at (EvDepthUpdate u)"
    if "parse_depth_object data received_at connection_id symbol = DfUpdate u" for data u
    using spot_object_own [OF that] by (simp add: own_event_def)
  show ?thesis
    using assms
    by (auto simp: parse_combined_event_frame_def undefined_frame_def depth agg_trade_own book_ticker_own
        split: sum.splits option.splits if_splits depth_frame_result.splits)
qed



end
