(* ===== verification/GatewayStatus.thy ===== *)
theory GatewayStatus
  imports MarketRegistry RecoveryPolicy EventPublication MarketRuntime
begin

text \<open>
  The status assembler, \<open>src/src/g10/gateway_status.{hpp,cpp}\<close>: one observation of every product's
  runtime, recovery coordinator and event hub, checked and put together as one snapshot. The
  observations (\<open>None\<close>: the deadline passed), and the clock reading (\<open>None\<close>: it threw), are
  arguments; the market keys come from the registry.
\<close>

datatype status_snapshot_error =
    StartBaselineUnavailable | StatusClockError | MonotonicClockRegression | InvalidObservation
  | ObservationTimeout

datatype stream_lifecycle_state =
    LIFECYCLE_ACCEPTED | LIFECYCLE_SNAPSHOT_PENDING | LIFECYCLE_LIVE | LIFECYCLE_RESYNC_IN_PROGRESS
  | LIFECYCLE_DEGRADED | LIFECYCLE_CLOSING | LIFECYCLE_CLOSED

text \<open>The function returns an optional for a state outside its enumeration, which the type here excludes.\<close>

fun map_runtime_state :: "runtime_state \<Rightarrow> stream_lifecycle_state option" where
  "map_runtime_state RsConstructed = Some LIFECYCLE_ACCEPTED"
| "map_runtime_state RsBuffering = Some LIFECYCLE_SNAPSHOT_PENDING"
| "map_runtime_state RsAwaitingBridge = Some LIFECYCLE_SNAPSHOT_PENDING"
| "map_runtime_state RsLive = Some LIFECYCLE_LIVE"
| "map_runtime_state RsNeedsResync = Some LIFECYCLE_RESYNC_IN_PROGRESS"
| "map_runtime_state RsFaulted = Some LIFECYCLE_DEGRADED"
| "map_runtime_state RsStopping = Some LIFECYCLE_CLOSING"
| "map_runtime_state RsStopped = Some LIFECYCLE_CLOSED"

definition valid_recovery_observation :: "'g recovery_observation \<Rightarrow> bool" where
  "valid_recovery_observation ob \<longleftrightarrow> ro_active_transport_count ob \<le> 1
     \<and> (ro_active_transport_count ob = 0 \<or> ro_connection_generation ob \<noteq> 0)"

record 'g collected_market =
  cm_key :: market_key
  cm_runtime :: "'g runtime_observation"
  cm_recovery :: "'g recovery_observation"
  cm_event_publication :: event_publication_observation

record market_status =
  mst_key :: market_key
  mst_state :: stream_lifecycle_state
  mst_last_event_utc_ns :: "u64 option"
  mst_connection_generation :: "u64 option"
  mst_active_subscription_count :: u64

record gateway_status_snapshot =
  gss_schema_version :: string
  gss_gateway_instance_id :: string
  gss_observed_time_utc_ns :: u64
  gss_uptime_seconds :: u64
  gss_markets :: "market_status list"
  gss_total_active_subscriptions :: u64

definition kStatusSnapshotSchema :: string where
  "kStatusSnapshotSchema = ''gateway-status-snapshot.v1''"

record status_assembler =
  sa_gateway_id :: string
  sa_start_baseline :: "u64 option"

text \<open>The two constructors; the argument is the identity of every service's gateway instance.\<close>

definition make_assembler :: "bool \<Rightarrow> string list \<Rightarrow> string \<Rightarrow> status_assembler option" where
  "make_assembler has_clock service_instances gateway_instance_id =
     (if \<not> has_clock then None
      else if list_ex (\<lambda>i. i \<noteq> gateway_instance_id) service_instances then None
      else Some \<lparr>sa_gateway_id = gateway_instance_id, sa_start_baseline = None\<rparr>)"

definition clear_start_baseline :: "status_assembler \<Rightarrow> status_assembler" where
  "clear_start_baseline a = a\<lparr>sa_start_baseline := None\<rparr>"

definition prepare_start_baseline :: "clock_sample option \<Rightarrow> status_assembler \<Rightarrow> bool \<times> status_assembler" where
  "prepare_start_baseline clock a =
     (case clock of
        Some sample \<Rightarrow> (True, a\<lparr>sa_start_baseline := Some (cs_monotonic_ns sample)\<rparr>)
      | None \<Rightarrow> (False, clear_start_baseline a))"

text \<open>
  The observations of one product, in the order they are made. The single-product assembler is
  the case of one entry with the Spot key.
\<close>

type_synonym 'g observed_product =
  "market_key \<times> 'g runtime_observation option \<times> 'g recovery_observation option \<times> event_publication_observation"

fun collect_markets ::
  "'g observed_product list \<Rightarrow> 'g collected_market list \<Rightarrow> status_snapshot_error + 'g collected_market list" where
  "collect_markets [] markets = Inr markets"
| "collect_markets ((key, runtime, recovery, events) # rest) markets =
     (case runtime of
        None \<Rightarrow> Inl ObservationTimeout
      | Some rt \<Rightarrow>
          (case recovery of
             None \<Rightarrow> Inl ObservationTimeout
           | Some rc \<Rightarrow> collect_markets rest
               (markets @ [\<lparr>cm_key = key, cm_runtime = rt, cm_recovery = rc, cm_event_publication = events\<rparr>])))"

definition valid_market :: "'g collected_market \<Rightarrow> bool" where
  "valid_market m \<longleftrightarrow> \<not> (map_runtime_state (ob_state (cm_runtime m)) = None
     \<or> \<not> valid_recovery_observation (cm_recovery m)
     \<or> ob_resident_subscription_count (cm_runtime m) > pl_maximum_active_subscriptions default_publication_limits
     \<or> eo_active_subscriptions (cm_event_publication m) > kMaximumActiveEventSubscriptions)"

definition active_subscriptions :: "'g collected_market \<Rightarrow> nat" where
  "active_subscriptions m =
     ob_resident_subscription_count (cm_runtime m) + eo_active_subscriptions (cm_event_publication m)"

definition fresh_depth :: "'g collected_market \<Rightarrow> u64 option" where
  "fresh_depth m =
     (case ob_last_applied_depth (cm_runtime m) of
        None \<Rightarrow> None
      | Some depth \<Rightarrow>
          if ob_state (cm_runtime m) = RsLive \<and> ob_projection_status (cm_runtime m) = Synchronized
             \<and> ro_state (cm_recovery m) = RecLive \<and> ro_active_transport_count (cm_recovery m) = 1
             \<and> ad_connection_generation depth = Some (ro_connection_generation (cm_recovery m))
          then ad_receive_time_utc_ns depth else None)"

definition market_status_of :: "'g collected_market \<Rightarrow> market_status" where
  "market_status_of m =
     \<lparr>mst_key = cm_key m, mst_state = the (map_runtime_state (ob_state (cm_runtime m))),
      mst_last_event_utc_ns = fresh_depth m,
      mst_connection_generation =
        (if ro_active_transport_count (cm_recovery m) = 1
         then Some (ro_connection_generation (cm_recovery m)) else None),
      mst_active_subscription_count = of_nat (active_subscriptions m)\<rparr>"

fun add_markets :: "'g collected_market list \<Rightarrow> market_status list \<Rightarrow> u64 \<Rightarrow> market_status list \<times> u64" where
  "add_markets [] statuses acc = (statuses, acc)"
| "add_markets (m # rest) statuses acc =
     add_markets rest (statuses @ [market_status_of m]) (acc + of_nat (active_subscriptions m))"

definition collect ::
  "'g observed_product list \<Rightarrow> clock_sample option \<Rightarrow> status_assembler
     \<Rightarrow> status_snapshot_error + gateway_status_snapshot" where
  "collect products clock a =
     (case collect_markets products [] of
        Inl failure \<Rightarrow> Inl failure
      | Inr markets \<Rightarrow>
          if list_ex (\<lambda>m. \<not> valid_market m) markets then Inl InvalidObservation
          else (case sa_start_baseline a of
             None \<Rightarrow> Inl StartBaselineUnavailable
           | Some baseline \<Rightarrow>
               (case clock of
                  None \<Rightarrow> Inl StatusClockError
                | Some observed_at \<Rightarrow>
                    if cs_monotonic_ns observed_at < baseline then Inl MonotonicClockRegression
                    else (case add_markets markets [] 0 of
                       (statuses, acc) \<Rightarrow> Inr
                         \<lparr>gss_schema_version = kStatusSnapshotSchema,
                          gss_gateway_instance_id = sa_gateway_id a,
                          gss_observed_time_utc_ns = cs_utc_ns observed_at,
                          gss_uptime_seconds = (cs_monotonic_ns observed_at - baseline) div 1000000000,
                          gss_markets = statuses, gss_total_active_subscriptions = acc\<rparr>))))"

section \<open>What a snapshot says\<close>

definition observed :: "'g observed_product \<Rightarrow> bool" where
  "observed p \<longleftrightarrow> fst (snd p) \<noteq> None \<and> fst (snd (snd p)) \<noteq> None"

definition market_of :: "'g observed_product \<Rightarrow> 'g collected_market" where
  "market_of p = \<lparr>cm_key = fst p, cm_runtime = the (fst (snd p)), cm_recovery = the (fst (snd (snd p))),
     cm_event_publication = snd (snd (snd p))\<rparr>"

lemma collect_markets_eq:
  "collect_markets ps ms = (if list_all observed ps then Inr (ms @ map market_of ps) else Inl ObservationTimeout)"
  by (induction ps ms rule: collect_markets.induct)
    (auto simp: observed_def market_of_def split: option.splits)

lemma add_markets_statuses: "fst (add_markets ms sts acc) = sts @ map market_status_of ms"
  by (induction ms sts acc rule: add_markets.induct) simp_all

lemma add_markets_total: "snd (add_markets ms sts acc) = acc + of_nat (sum_list (map active_subscriptions ms))"
  by (induction ms sts acc rule: add_markets.induct) simp_all

lemma add_markets_eq:
  "add_markets ms [] 0 = (map market_status_of ms, of_nat (sum_list (map active_subscriptions ms)))"
  using add_markets_statuses [of ms "[]" 0] add_markets_total [of ms "[]" 0] by (simp add: prod_eq_iff)

lemma map_runtime_state_total [simp]: "map_runtime_state st \<noteq> None"
  by (cases st) simp_all

lemma valid_market_bound:
  "valid_market m \<Longrightarrow> active_subscriptions m \<le> pl_maximum_active_subscriptions default_publication_limits
      + kMaximumActiveEventSubscriptions"
  by (simp add: valid_market_def active_subscriptions_def)

lemma active_sum_bound:
  assumes "list_all valid_market ms"
  shows "sum_list (map active_subscriptions ms)
     \<le> length ms * (pl_maximum_active_subscriptions default_publication_limits + kMaximumActiveEventSubscriptions)"
  using assms by (induction ms) (auto dest: valid_market_bound)

lemma collect_eq:
  "collect ps clock a =
     (if \<not> list_all observed ps then Inl ObservationTimeout
      else if \<not> list_all valid_market (map market_of ps) then Inl InvalidObservation
      else case sa_start_baseline a of
        None \<Rightarrow> Inl StartBaselineUnavailable
      | Some baseline \<Rightarrow>
          (case clock of
             None \<Rightarrow> Inl StatusClockError
           | Some now \<Rightarrow>
               if cs_monotonic_ns now < baseline then Inl MonotonicClockRegression
               else Inr \<lparr>gss_schema_version = kStatusSnapshotSchema,
                 gss_gateway_instance_id = sa_gateway_id a, gss_observed_time_utc_ns = cs_utc_ns now,
                 gss_uptime_seconds = (cs_monotonic_ns now - baseline) div 1000000000,
                 gss_markets = map market_status_of (map market_of ps),
                 gss_total_active_subscriptions =
                   of_nat (sum_list (map active_subscriptions (map market_of ps)))\<rparr>))"
  unfolding collect_def collect_markets_eq add_markets_eq
  by (simp add: list_ex_iff list_all_iff cong: option.case_cong if_cong)

lemma collect_ok:
  assumes "collect ps clock a = Inr snap"
  obtains baseline now where "list_all observed ps" "list_all valid_market (map market_of ps)"
    "sa_start_baseline a = Some baseline" "clock = Some now" "baseline \<le> cs_monotonic_ns now"
    "gss_uptime_seconds snap = (cs_monotonic_ns now - baseline) div 1000000000"
    "gss_observed_time_utc_ns snap = cs_utc_ns now"
    "gss_markets snap = map market_status_of (map market_of ps)"
    "gss_total_active_subscriptions snap = of_nat (sum_list (map active_subscriptions (map market_of ps)))"
  using assms unfolding collect_eq
  by (auto simp: not_less split: if_splits option.splits)

lemma counts_exact:
  assumes "list_all valid_market ms"
  shows "map (\<lambda>m. unat (mst_active_subscription_count (market_status_of m))) ms = map active_subscriptions ms"
proof (rule map_cong [OF refl])
  fix m assume "m \<in> set ms"
  then have "active_subscriptions m \<le> 16"
    using assms valid_market_bound [of m]
    by (simp add: list_all_iff default_publication_limits_def kMaximumActiveEventSubscriptions_def)
  then show "unat (mst_active_subscription_count (market_status_of m)) = active_subscriptions m"
    by (simp add: market_status_of_def unsigned_of_nat take_bit_nat_eq_self)
qed

subsection \<open>An example\<close>

definition status_example_limits :: runtime_limits where
  "status_example_limits = \<lparr>rl_ingress_capacity = 1024, rl_bootstrap_capacity = 1024,
     rl_publication = default_publication_limits\<rparr>"

definition example_live_runtime :: "nat runtime_observation" where
  "example_live_runtime = (initial_observation status_example_limits)
     \<lparr>ob_state := RsLive, ob_projection_status := Synchronized,
      ob_last_applied_depth := Some \<lparr>ad_receive_time_utc_ns = Some 70, ad_receive_monotonic_ns = Some 7,
        ad_connection_generation = Some 3\<rparr>,
      ob_resident_subscription_count := 2\<rparr>"

definition example_live_recovery :: "nat recovery_observation" where
  "example_live_recovery = initial_recovery_observation
     \<lparr>ro_state := RecLive, ro_connection_generation := 3, ro_active_transport_count := 1\<rparr>"

definition example_products :: "nat observed_product list" where
  "example_products =
     [(spot_btcusdt_key, Some example_live_runtime, Some example_live_recovery,
       \<lparr>eo_source_state = SrcOpen, eo_source_generation = Some 3, eo_active_subscriptions = 1\<rparr>),
      (usdm_btcusdt_key, Some (initial_observation status_example_limits), Some initial_recovery_observation,
       \<lparr>eo_source_state = SrcClosed, eo_source_generation = None, eo_active_subscriptions = 0\<rparr>)]"

definition example_assembler :: status_assembler where
  "example_assembler = \<lparr>sa_gateway_id = ''gw-1'', sa_start_baseline = Some 1000000000\<rparr>"

definition example_now :: clock_sample where
  "example_now = \<lparr>cs_utc_ns = 90, cs_monotonic_ns = 4500000000\<rparr>"

definition example_snapshot :: gateway_status_snapshot where
  "example_snapshot =
     \<lparr>gss_schema_version = kStatusSnapshotSchema, gss_gateway_instance_id = ''gw-1'',
      gss_observed_time_utc_ns = 90, gss_uptime_seconds = 3,
      gss_markets =
        [\<lparr>mst_key = spot_btcusdt_key, mst_state = LIFECYCLE_LIVE, mst_last_event_utc_ns = Some 70,
          mst_connection_generation = Some 3, mst_active_subscription_count = 3\<rparr>,
         \<lparr>mst_key = usdm_btcusdt_key, mst_state = LIFECYCLE_ACCEPTED, mst_last_event_utc_ns = None,
          mst_connection_generation = None, mst_active_subscription_count = 0\<rparr>],
      gss_total_active_subscriptions = 3\<rparr>"

lemmas example_status_defs = example_live_runtime_def example_live_recovery_def example_products_def
  example_assembler_def example_now_def example_snapshot_def

lemma example_collect: "collect example_products (Some example_now) example_assembler = Inr example_snapshot"
  unfolding collect_eq
  by (simp add: example_status_defs observed_def market_of_def valid_market_def market_status_of_def
      valid_recovery_observation_def active_subscriptions_def fresh_depth_def initial_observation_def
      initial_recovery_observation_def default_publication_limits_def kMaximumActiveEventSubscriptions_def)

text \<open>A status snapshot has one entry per configured product, in their order and under their keys,
  whose subscription count is the observed number of order-book subscriptions plus event
  subscriptions; the total is exactly their sum, with no wrap-around for the at most eight products
  a registry holds; and the uptime is the whole seconds since the start baseline.
\<close>

theorem status_counts_exact:
  assumes "collect ps clock a = Inr snap" and "length ps \<le> kMaximumConfiguredProducts"
  shows "map mst_key (gss_markets snap) = map fst ps
    \<and> map (\<lambda>m. unat (mst_active_subscription_count m)) (gss_markets snap) =
        map (\<lambda>p. ob_resident_subscription_count (the (fst (snd p))) + eo_active_subscriptions (snd (snd (snd p)))) ps
    \<and> unat (gss_total_active_subscriptions snap) =
        sum_list (map (\<lambda>m. unat (mst_active_subscription_count m)) (gss_markets snap))
    \<and> (\<exists>baseline now. sa_start_baseline a = Some baseline \<and> clock = Some now \<and> gss_observed_time_utc_ns snap = cs_utc_ns now
         \<and> unat (gss_uptime_seconds snap) = (unat (cs_monotonic_ns now) - unat baseline) div 1000000000)"
  using assms(1)
proof (cases rule: collect_ok)
  case (1 baseline now)
  let ?ms = "map market_of ps"
  have counts: "map (\<lambda>m. unat (mst_active_subscription_count m)) (gss_markets snap) = map active_subscriptions ?ms"
    using counts_exact [OF 1(2)] by (simp add: 1(8) comp_def)
  have "sum_list (map active_subscriptions ?ms) \<le> 8 * 16"
    using active_sum_bound [OF 1(2)] assms(2)
    by (simp add: default_publication_limits_def kMaximumActiveEventSubscriptions_def
        kMaximumConfiguredProducts_def)
  then have total_exact: "unat (gss_total_active_subscriptions snap) = sum_list (map active_subscriptions ?ms)"
    by (simp add: 1(9) unsigned_of_nat take_bit_nat_eq_self)
  have "unat (gss_uptime_seconds snap) = (unat (cs_monotonic_ns now) - unat baseline) div 1000000000"
    by (simp add: 1(6) unat_div unat_sub 1(5))
  moreover have "map mst_key (gss_markets snap) = map fst ps"
    by (simp add: 1(8) market_status_of_def market_of_def)
  moreover have "map active_subscriptions ?ms =
      map (\<lambda>p. ob_resident_subscription_count (the (fst (snd p))) + eo_active_subscriptions (snd (snd (snd p)))) ps"
    by (simp add: active_subscriptions_def market_of_def)
  ultimately show ?thesis using counts total_exact 1(3,4,7) by simp
qed

theorem status_counts_exact_witness:
  "collect example_products (Some example_now) example_assembler = Inr example_snapshot
    \<and> map mst_key (gss_markets example_snapshot) = map fst example_products
    \<and> unat (gss_total_active_subscriptions example_snapshot) =
        sum_list (map (\<lambda>m. unat (mst_active_subscription_count m)) (gss_markets example_snapshot))"
  using status_counts_exact [OF example_collect] example_collect
  by (simp add: example_products_def kMaximumConfiguredProducts_def)

text \<open>C23: A status snapshot reports an event time for a product only if its runtime was observed live
  with a synchronized book, its recovery coordinator live with one transport, and the last depth
  update that was applied was received, at that very time, on the coordinator's current
  connection.
\<close>

theorem status_event_time_is_fresh:
  assumes "collect ps clock a = Inr snap" and "m \<in> set (gss_markets snap)"
    and "mst_last_event_utc_ns m = Some event_time"
  shows "\<exists>key rt rc ev depth. (key, Some rt, Some rc, ev) \<in> set ps \<and> mst_key m = key
    \<and> mst_state m = LIFECYCLE_LIVE \<and> ob_state rt = RsLive \<and> ob_projection_status rt = Synchronized
    \<and> ro_state rc = RecLive \<and> ro_active_transport_count rc = 1
    \<and> ob_last_applied_depth rt = Some depth \<and> ad_receive_time_utc_ns depth = Some event_time
    \<and> ad_connection_generation depth = Some (ro_connection_generation rc)
    \<and> mst_connection_generation m = Some (ro_connection_generation rc)
    \<and> ro_connection_generation rc \<noteq> 0"
  using assms(1)
proof (cases rule: collect_ok)
  case (1 baseline now)
  from assms(2) obtain p where p: "p \<in> set ps" "m = market_status_of (market_of p)"
    by (auto simp: 1(8))
  then have "observed p" and vm: "valid_market (market_of p)"
    using 1(1,2) by (auto simp: list_all_iff)
  then obtain key rt rc ev where p4: "p = (key, Some rt, Some rc, ev)"
    by (cases p) (auto simp: observed_def)
  have "fresh_depth (market_of p) = Some event_time"
    using assms(3) p(2) by (simp add: market_status_of_def)
  then obtain depth where "ob_last_applied_depth rt = Some depth" "ob_state rt = RsLive"
    "ob_projection_status rt = Synchronized" "ro_state rc = RecLive" "ro_active_transport_count rc = 1"
    "ad_connection_generation depth = Some (ro_connection_generation rc)"
    "ad_receive_time_utc_ns depth = Some event_time"
    by (auto simp: fresh_depth_def market_of_def p4 split: option.splits if_splits)
  with p vm show ?thesis
    by (intro exI [of _ key] exI [of _ rt] exI [of _ rc] exI [of _ ev] exI [of _ depth])
      (simp add: p4 market_status_of_def market_of_def valid_market_def valid_recovery_observation_def)
qed

theorem status_event_time_is_fresh_witness:
  "\<exists>key rt rc ev depth. (key, Some rt, Some rc, ev) \<in> set example_products
    \<and> mst_key (hd (gss_markets example_snapshot)) = key \<and> ob_state rt = RsLive \<and> ro_state rc = RecLive
    \<and> ob_last_applied_depth rt = Some depth \<and> ad_receive_time_utc_ns depth = Some 70
    \<and> ad_connection_generation depth = Some (ro_connection_generation rc)"
  using status_event_time_is_fresh [OF example_collect, of "hd (gss_markets example_snapshot)" 70]
  by (simp add: example_snapshot_def) blast

text \<open>When collecting a snapshot fails, the error is the first of these that applies: a product
  could not be observed in time; an observation is impossible; there is no start baseline; the
  clock threw; the clock is before the baseline. If none applies there is a snapshot.
\<close>

theorem status_errors_exact:
  "collect ps clock a = Inl failure \<longleftrightarrow> (
     let timeout = list_ex (\<lambda>p. fst (snd p) = None \<or> fst (snd (snd p)) = None) ps;
         invalid = list_ex (\<lambda>p. \<not> valid_market (market_of p)) ps;
         unprepared = sa_start_baseline a = None;
         regressed = cs_monotonic_ns (the clock) < the (sa_start_baseline a)
     in (case failure of
           ObservationTimeout \<Rightarrow> timeout
         | InvalidObservation \<Rightarrow> \<not> timeout \<and> invalid
         | StartBaselineUnavailable \<Rightarrow> \<not> timeout \<and> \<not> invalid \<and> unprepared
         | StatusClockError \<Rightarrow> \<not> timeout \<and> \<not> invalid \<and> \<not> unprepared \<and> clock = None
         | MonotonicClockRegression \<Rightarrow> \<not> timeout \<and> \<not> invalid \<and> \<not> unprepared \<and> clock \<noteq> None \<and> regressed))"
proof -
  have "list_ex (\<lambda>p. fst (snd p) = None \<or> fst (snd (snd p)) = None) ps \<longleftrightarrow> \<not> list_all observed ps"
    by (simp add: list_ex_iff list_all_iff observed_def)
  moreover have "list_ex (\<lambda>p. \<not> valid_market (market_of p)) ps \<longleftrightarrow> \<not> list_all valid_market (map market_of ps)"
    by (auto simp: list_ex_iff list_all_iff)
  ultimately show ?thesis
    unfolding collect_eq Let_def
    by (cases failure) (auto split: option.splits)
qed

end
