(* ===== verification/GrpcRequests.thy ===== *)
theory GrpcRequests
  imports CharConv OrderBookChannel EventPublication
begin

text \<open>
  The pure part of the gRPC service, \<open>src/src/g7/grpc_service.cpp\<close>: which requests and listen
  addresses it accepts, and how a queued publication becomes an item of the response stream. An
  exception is \<open>None\<close>. Reading an IP address (\<open>boost::asio::ip::make_address\<close>) is the argument
  \<open>make_address\<close>: \<open>None\<close> for a parse error, otherwise whether the address is a loopback address
  and whether it is an IPv6 address.
\<close>

section \<open>Requests\<close>

datatype initial_snapshot_mode = INITIAL_SNAPSHOT_MODE_REQUIRED | INITIAL_SNAPSHOT_MODE_OTHER nat

datatype delivery_mode = DELIVERY_MODE_CONTIGUOUS_EVENTS | DELIVERY_MODE_OTHER nat

record order_book_request =
  obr_request_id :: string
  obr_schema_version :: string
  obr_venue :: wire_venue
  obr_market :: wire_market
  obr_symbol :: string
  obr_initial_snapshot_mode :: initial_snapshot_mode
  obr_depth_limit :: "int option"
  obr_snapshot_versions :: "string list"
  obr_update_versions :: "string list"

record event_selector =
  sel_venue :: wire_venue
  sel_market :: wire_market
  sel_symbol :: string
  sel_stream :: wire_stream

record event_request =
  evr_request_id :: string
  evr_schema_version :: string
  evr_delivery_mode :: delivery_mode
  evr_selectors :: "event_selector list"
  evr_payload_versions :: "string list"

record status_request =
  str_request_id :: string
  str_schema_version :: string

datatype request_validation_error = ReqInvalidArgument | ReqFailedPrecondition

definition kProtocolVersion :: string where
  "kProtocolVersion = ''gateway-stream.v1''"

definition kOrderBookRequestSchema :: string where
  "kOrderBookRequestSchema = ''order-book-subscription-request.v1''"

definition kConsumerGapSchema :: string where
  "kConsumerGapSchema = ''consumer-gap-notice.v1''"

definition kEventRequestSchema :: string where
  "kEventRequestSchema = ''event-subscription-request.v1''"

definition kStatusRequestSchema :: string where
  "kStatusRequestSchema = ''gateway-status-request.v1''"

definition alphanumeric :: "char \<Rightarrow> bool" where
  "alphanumeric c \<longleftrightarrow> between 65 c 90 \<or> between 97 c 122 \<or> between 48 c 57"

definition allowed :: "char \<Rightarrow> bool" where
  "allowed c \<longleftrightarrow> alphanumeric c \<or> c = CHR ''.'' \<or> c = CHR ''_'' \<or> c = CHR '':''
     \<or> c = CHR ''/'' \<or> c = CHR ''-''"

definition identifier_safe :: "string \<Rightarrow> bool" where
  "identifier_safe v \<longleftrightarrow>
     (if v = [] \<or> length v > 128 then False
      else if \<not> alphanumeric (hd v) then False
      else list_all allowed v)"

definition contains_version :: "string list \<Rightarrow> string \<Rightarrow> bool" where
  "contains_version versions expected \<longleftrightarrow> list_ex (\<lambda>version. version = expected) versions"

text \<open>\<open>std::isspace\<close> of the C locale.\<close>

definition is_space :: "char \<Rightarrow> bool" where
  "is_space c \<longleftrightarrow> c = CHR '' '' \<or> between 9 c 13"

fun valid_version_list_from :: "string list \<Rightarrow> string list \<Rightarrow> bool" where
  "valid_version_list_from earlier [] = True"
| "valid_version_list_from earlier (version # rest) =
     (if version = [] \<or> is_space (hd version) \<or> is_space (last version) then False
      else if list_ex (\<lambda>e. e = version) earlier then False
      else valid_version_list_from (earlier @ [version]) rest)"

definition valid_version_list :: "string list \<Rightarrow> bool" where
  "valid_version_list versions = valid_version_list_from [] versions"

definition validate_gateway_status_request :: "status_request \<Rightarrow> bool" where
  "validate_gateway_status_request r \<longleftrightarrow>
     identifier_safe (str_request_id r) \<and> str_schema_version r = kStatusRequestSchema"

definition validate_order_book_request_impl ::
  "order_book_request \<Rightarrow> string \<Rightarrow> bool \<Rightarrow> bool
     \<Rightarrow> request_validation_error + validated_order_book_subscription" where
  "validate_order_book_request_impl request gateway_instance_id allow_usdm require_legacy_btcusdt =
     (let supported_market = obr_market request = MARKET_SPOT
        \<or> allow_usdm \<and> obr_market request = MARKET_USD_M_PERPETUAL in
      if \<not> identifier_safe gateway_instance_id then Inl ReqInvalidArgument
      else if \<not> identifier_safe (obr_request_id request)
        \<or> obr_schema_version request \<noteq> kOrderBookRequestSchema
        \<or> obr_venue request \<noteq> VENUE_BINANCE \<or> \<not> supported_market
        \<or> require_legacy_btcusdt \<and> obr_symbol request \<noteq> ''BTCUSDT''
        \<or> obr_initial_snapshot_mode request \<noteq> INITIAL_SNAPSHOT_MODE_REQUIRED
        \<or> (case obr_depth_limit request of None \<Rightarrow> False | Some limit \<Rightarrow> limit \<le> 0)
        \<or> \<not> valid_version_list (obr_snapshot_versions request)
        \<or> \<not> valid_version_list (obr_update_versions request)
      then Inl ReqInvalidArgument
      else if \<not> contains_version (obr_snapshot_versions request) kSnapshotSchema
        \<or> \<not> contains_version (obr_update_versions request) kUpdateSchema
      then Inl ReqFailedPrecondition
      else Inr \<lparr>vs_request_id = obr_request_id request, vs_gateway_instance_id = gateway_instance_id,
                vs_depth_limit = obr_depth_limit request\<rparr>)"

definition validate_order_book_request ::
  "order_book_request \<Rightarrow> string \<Rightarrow> request_validation_error + validated_order_book_subscription" where
  "validate_order_book_request request gateway_instance_id =
     validate_order_book_request_impl request gateway_instance_id False True"

definition validate_g11_order_book_request ::
  "order_book_request \<Rightarrow> string \<Rightarrow> request_validation_error + validated_order_book_subscription" where
  "validate_g11_order_book_request request gateway_instance_id =
     validate_order_book_request_impl request gateway_instance_id True False"

text \<open>\<open>STREAM_DEPTH_SNAPSHOT\<close> is one of the other values, which all have no event schema.\<close>

fun required_event_schema :: "wire_stream \<Rightarrow> string option" where
  "required_event_schema STREAM_DIFF_DEPTH = Some ''depth-update.v1''"
| "required_event_schema STREAM_AGG_TRADE = Some ''agg-trade.v1''"
| "required_event_schema STREAM_BOOK_TICKER = Some ''book-ticker.v1''"
| "required_event_schema STREAM_UNSPECIFIED = None"
| "required_event_schema (STREAM_OTHER _) = None"

definition validate_event_request_impl ::
  "event_request \<Rightarrow> string \<Rightarrow> bool \<Rightarrow> bool \<Rightarrow> request_validation_error + validated_event_subscription" where
  "validate_event_request_impl request gateway_instance_id allow_usdm require_legacy_btcusdt =
     (if \<not> identifier_safe gateway_instance_id \<or> \<not> identifier_safe (evr_request_id request)
        \<or> evr_schema_version request \<noteq> kEventRequestSchema
        \<or> evr_delivery_mode request \<noteq> DELIVERY_MODE_CONTIGUOUS_EVENTS
        \<or> length (evr_selectors request) \<noteq> 1 \<or> evr_payload_versions request = []
        \<or> \<not> valid_version_list (evr_payload_versions request)
      then Inl ReqInvalidArgument
      else
        let selector = evr_selectors request ! 0;
            required_schema = required_event_schema (sel_stream selector);
            spot = sel_market selector = MARKET_SPOT;
            usdm = allow_usdm \<and> sel_market selector = MARKET_USD_M_PERPETUAL;
            supported_stream = spot \<and> required_schema \<noteq> None
              \<or> usdm \<and> sel_stream selector = STREAM_DIFF_DEPTH
        in if sel_venue selector \<noteq> VENUE_BINANCE
              \<or> require_legacy_btcusdt \<and> sel_symbol selector \<noteq> ''BTCUSDT''
              \<or> \<not> supported_stream \<or> required_schema = None
           then Inl ReqInvalidArgument
           else if \<not> contains_version (evr_payload_versions request) (the required_schema)
           then Inl ReqFailedPrecondition
           else Inr \<lparr>ves_request_id = evr_request_id request, ves_stream = sel_stream selector,
                     ves_negotiated_payload_schema_version = the required_schema\<rparr>)"

definition validate_event_request ::
  "event_request \<Rightarrow> string \<Rightarrow> request_validation_error + validated_event_subscription" where
  "validate_event_request request gateway_instance_id =
     validate_event_request_impl request gateway_instance_id False True"

definition validate_g11_event_request ::
  "event_request \<Rightarrow> string \<Rightarrow> request_validation_error + validated_event_subscription" where
  "validate_g11_event_request request gateway_instance_id =
     validate_event_request_impl request gateway_instance_id True False"

section \<open>Listen addresses\<close>

definition starts_with :: "string \<Rightarrow> char \<Rightarrow> bool" where
  "starts_with s c \<longleftrightarrow> s \<noteq> [] \<and> hd s = c"

definition ends_with :: "string \<Rightarrow> char \<Rightarrow> bool" where
  "ends_with s c \<longleftrightarrow> s \<noteq> [] \<and> last s = c"

definition valid_loopback_listen_address ::
  "(string \<Rightarrow> (bool \<times> bool) option) \<Rightarrow> string \<Rightarrow> bool \<Rightarrow> bool" where
  "valid_loopback_listen_address make_address addr allow_ephemeral_port =
     (case rfind_char CHR '':'' addr of
        None \<Rightarrow> False
      | Some colon \<Rightarrow>
          let host = take colon addr;
              port = drop (colon + 1) addr;
              bracketed = starts_with host CHR ''['' \<and> ends_with host CHR '']'';
              host = (if bracketed then take (length host - 2) (drop 1 host) else host)
          in (case from_chars_whole 4294967295 port of
                None \<Rightarrow> False
              | Some number \<Rightarrow>
                  if number > 65535 \<or> number = 0 \<and> \<not> allow_ephemeral_port
                     \<or> find_char CHR ''%'' host \<noteq> None
                  then False
                  else (case make_address host of
                          None \<Rightarrow> False
                        | Some (is_loopback, is_v6) \<Rightarrow> is_loopback \<and> bracketed = is_v6)))"

section \<open>Stream items\<close>

record delivery_metadata =
  dm_protocol_version :: string
  dm_gateway_instance_id :: string
  dm_subscription_id :: string
  dm_connection_generation :: "u64 option"
  dm_session_sequence :: u64
  dm_publish_time_utc_ns :: u64
  dm_publish_monotonic_ns :: "u64 option"

record consumer_gap =
  cg_schema_version :: string
  cg_subscription_id :: string
  cg_detected_time_utc_ns :: u64
  cg_reason :: consumer_gap_reason
  cg_recovery_action :: recovery_action
  cg_market :: wire_market
  cg_symbol :: string
  cg_stream :: wire_stream

datatype 's order_book_item_payload =
    ItemAccepted subscription_accepted | ItemSnapshot 's | ItemDepthUpdate depth_update
  | ItemConsumerGap consumer_gap

record 's order_book_stream_item =
  osi_delivery_metadata :: delivery_metadata
  osi_payload :: "'s order_book_item_payload"

definition populate_delivery_metadata ::
  "'s channel \<Rightarrow> u64 \<Rightarrow> u64 option \<Rightarrow> publication_time \<Rightarrow> delivery_metadata" where
  "populate_delivery_metadata channel session_sequence connection_generation published_at =
     \<lparr>dm_protocol_version = kProtocolVersion, dm_gateway_instance_id = ch_gateway_instance_id channel,
      dm_subscription_id = ch_subscription_id channel,
      dm_connection_generation = connection_generation, dm_session_sequence = session_sequence,
      dm_publish_time_utc_ns = pt_utc_ns published_at,
      dm_publish_monotonic_ns = pt_monotonic_ns published_at\<rparr>"

definition materialize_stream_item_for ::
  "'s channel \<Rightarrow> 's peeked_publication \<Rightarrow> wire_market \<Rightarrow> string \<Rightarrow> 's order_book_stream_item option" where
  "materialize_stream_item_for channel publication market symbol =
     (case pk_ordinary publication of
        Ptr _ r \<Rightarrow>
          map_option (\<lambda>payload. \<lparr>osi_delivery_metadata = populate_delivery_metadata channel
                (pr_session_sequence r) (pr_connection_generation r) (pr_published_at r),
              osi_payload = payload\<rparr>)
            (case pr_payload r of
               PayloadAccepted accepted \<Rightarrow> Some (ItemAccepted accepted)
             | PayloadSnapshot snapshot \<Rightarrow> Some (ItemSnapshot snapshot)
             | PayloadUpdate Null \<Rightarrow> None
             | PayloadUpdate (Ptr _ update) \<Rightarrow> Some (ItemDepthUpdate update))
      | Null \<Rightarrow>
          (case pk_terminal publication of
             None \<Rightarrow> None
           | Some terminal \<Rightarrow> Some
               \<lparr>osi_delivery_metadata = populate_delivery_metadata channel
                  (td_session_sequence terminal) (td_connection_generation terminal)
                  (td_published_at terminal),
                osi_payload = ItemConsumerGap
                  \<lparr>cg_schema_version = kConsumerGapSchema,
                   cg_subscription_id = ch_subscription_id channel,
                   cg_detected_time_utc_ns = pt_utc_ns (td_published_at terminal),
                   cg_reason = td_reason terminal, cg_recovery_action = td_recovery_action terminal,
                   cg_market = market, cg_symbol = symbol, cg_stream = STREAM_DIFF_DEPTH\<rparr>\<rparr>))"

datatype event_item_payload =
    EnvAccepted subscription_accepted | EnvDepthUpdate depth_update | EnvAggTrade agg_trade
  | EnvBookTicker book_ticker | EnvConsumerGap consumer_gap

record event_envelope =
  env_delivery_metadata :: delivery_metadata
  env_payload :: event_item_payload

definition populate_event_delivery_metadata ::
  "event_channel \<Rightarrow> u64 \<Rightarrow> u64 option \<Rightarrow> event_publication_time \<Rightarrow> delivery_metadata" where
  "populate_event_delivery_metadata channel session_sequence connection_generation published_at =
     \<lparr>dm_protocol_version = kProtocolVersion, dm_gateway_instance_id = ec_gateway_instance_id channel,
      dm_subscription_id = ec_subscription_id channel,
      dm_connection_generation = connection_generation, dm_session_sequence = session_sequence,
      dm_publish_time_utc_ns = et_utc_ns published_at,
      dm_publish_monotonic_ns = et_monotonic_ns published_at\<rparr>"

fun event_item :: "normalized_market_event \<Rightarrow> event_item_payload" where
  "event_item (EvDepthUpdate depth) = EnvDepthUpdate depth"
| "event_item (EvAggTrade trade) = EnvAggTrade trade"
| "event_item (EvBookTicker ticker) = EnvBookTicker ticker"

definition materialize_event_envelope_for ::
  "event_channel \<Rightarrow> peeked_event_publication \<Rightarrow> wire_market \<Rightarrow> string \<Rightarrow> event_envelope option" where
  "materialize_event_envelope_for channel publication market symbol =
     (case pe_ordinary publication of
        Ptr _ r \<Rightarrow>
          map_option (\<lambda>payload. \<lparr>env_delivery_metadata = populate_event_delivery_metadata channel
                (er_session_sequence r) (er_connection_generation r) (er_published_at r),
              env_payload = payload\<rparr>)
            (case er_payload r of
               EvPayloadAccepted accepted \<Rightarrow> Some (EnvAccepted accepted)
             | EvPayloadEvent Null \<Rightarrow> None
             | EvPayloadEvent (Ptr _ event) \<Rightarrow>
                 if normalized_event_stream event \<noteq> ec_stream channel then None
                 else Some (event_item event))
      | Null \<Rightarrow>
          (case pe_terminal publication of
             None \<Rightarrow> None
           | Some terminal \<Rightarrow> Some
               \<lparr>env_delivery_metadata = populate_event_delivery_metadata channel
                  (etd_session_sequence terminal) (Some (etd_connection_generation terminal))
                  (etd_published_at terminal),
                env_payload = EnvConsumerGap
                  \<lparr>cg_schema_version = kConsumerGapSchema,
                   cg_subscription_id = ec_subscription_id channel,
                   cg_detected_time_utc_ns = et_utc_ns (etd_published_at terminal),
                   cg_reason = etd_reason terminal, cg_recovery_action = etd_recovery_action terminal,
                   cg_market = market, cg_symbol = symbol, cg_stream = ec_stream channel\<rparr>\<rparr>))"

end
