(* ===== verification/Serving.thy ===== *)
theory Serving
  imports Egress
begin

text \<open>
  The contract between a subscriber channel and the RPC handler that serves it. A handler peeks at
  the front of its channel, writes it to its stream, and acknowledges it, while the producer goes
  on using the channel. \<open>serving\<close> lists what the pair may do, whatever the channel is; the locale
  \<open>served_channel\<close> states what a channel must promise for the stream to carry the numbers
  1, 2, 3, \<dots> and for every acknowledgement to find what was peeked.
\<close>

datatype 'p handling = Idle | Holding 'p | Sent 'p | Over

type_synonym ('p, 'c) serving_state = "'p handling \<times> nat list \<times> 'c"

inductive serving ::
  "('c \<Rightarrow> 'p) \<Rightarrow> ('p \<Rightarrow> nat option) \<Rightarrow> ('p \<Rightarrow> 'c \<Rightarrow> 'c) \<Rightarrow> ('c \<Rightarrow> 'c \<Rightarrow> bool) \<Rightarrow> ('c \<Rightarrow> bool)
     \<Rightarrow> ('p, 'c) serving_state \<Rightarrow> ('p, 'c) serving_state \<Rightarrow> bool"
  for front number ack producer ended where
  sg_producer: "producer c c' \<Longrightarrow> serving front number ack producer ended (h, ws, c) (h, ws, c')"
| sg_stay: "serving front number ack producer ended st st"
| sg_over: "serving front number ack producer ended (h, ws, c) (Over, ws, c)"
| sg_peek: "number (front c) = Some n \<Longrightarrow>
    serving front number ack producer ended (Idle, ws, c) (Holding (front c), ws, c)"
| sg_write: "number p = Some n \<Longrightarrow>
    serving front number ack producer ended (Holding p, ws, c) (Sent p, ws @ [n], c)"
| sg_ack: "\<not> ended c \<Longrightarrow>
    serving front number ack producer ended (Sent p, ws, c) (Idle, ws, ack p c)"
| sg_last: "serving front number ack producer ended (Sent p, ws, c) (Over, ws, ack p c)"

lemma delivered_Some [simp]: "delivered (map Some ds) = ds"
  by (induction ds) (simp_all add: delivered_def List.map_filter_def)

lemma egress_inv_silent:
  assumes "egress_inv ds e" and "egress_step e None e'"
  shows "egress_inv ds e'"
  using egress_inv_step [of "map Some ds" e None e'] assms by simp

lemma egress_inv_deliver:
  assumes "egress_inv ds e" and "egress_step e (Some n) e'"
  shows "egress_inv (ds @ [n]) e'" and "n = Suc (length ds)"
proof -
  show *: "egress_inv (ds @ [n]) e'"
    using egress_inv_step [of "map Some ds" e "Some n" e'] assms by simp
  have "ds @ [n] = [1..<Suc (Suc (length ds))]"
    using egress_inv_prefix [OF *] by simp
  then show "n = Suc (length ds)" by simp
qed

locale served_channel =
  fixes wf :: "'c \<Rightarrow> bool"
    and abs :: "'c \<Rightarrow> egress"
    and front :: "'c \<Rightarrow> 'p"
    and number :: "'p \<Rightarrow> nat option"
    and ack :: "'p \<Rightarrow> 'c \<Rightarrow> 'c"
    and producer :: "'c \<Rightarrow> 'c \<Rightarrow> bool"
  assumes producer_silent: "wf c \<Longrightarrow> producer c c' \<Longrightarrow> wf c' \<and> egress_step (abs c) None (abs c')"
    and front_stable: "wf c \<Longrightarrow> producer c c' \<Longrightarrow> number (front c) \<noteq> None
          \<Longrightarrow> eg_phase (abs c') \<noteq> Ended \<Longrightarrow> front c' = front c"
    and ack_delivers: "wf c \<Longrightarrow> number (front c) = Some n
          \<Longrightarrow> egress_step (abs c) (Some n) (abs (ack (front c) c))"
    and ack_wf: "wf c \<Longrightarrow> wf (ack p c)"
begin

abbreviation step :: "('p, 'c) serving_state \<Rightarrow> ('p, 'c) serving_state \<Rightarrow> bool" where
  "step \<equiv> serving front number ack producer (\<lambda>c. eg_phase (abs c) = Ended)"

text \<open>The item in hand is still the front of the channel, unless the channel has been closed.\<close>

definition in_hand :: "'p \<Rightarrow> 'c \<Rightarrow> bool" where
  "in_hand p c \<longleftrightarrow> number p \<noteq> None \<and> (eg_phase (abs c) = Ended \<or> front c = p)"

definition serving_inv :: "('p, 'c) serving_state \<Rightarrow> bool" where
  "serving_inv st \<longleftrightarrow> (case st of (h, ws, c) \<Rightarrow>
     wf c \<and> ws = [1..<Suc (length ws)] \<and>
     (case h of
        Idle \<Rightarrow> egress_inv ws (abs c)
      | Holding p \<Rightarrow> egress_inv ws (abs c) \<and> number p = Some (Suc (length ws)) \<and> in_hand p c
      | Sent p \<Rightarrow> \<exists>ds n. ws = ds @ [n] \<and> egress_inv ds (abs c) \<and> number p = Some n \<and> in_hand p c
      | Over \<Rightarrow> True))"

lemma in_hand_producer:
  assumes "wf c" and "producer c c'" and "in_hand p c"
  shows "in_hand p c'"
proof (cases "eg_phase (abs c') = Ended")
  case True
  then show ?thesis using assms(3) by (simp add: in_hand_def)
next
  case False
  have "egress_step (abs c) None (abs c')" using producer_silent [OF assms(1,2)] by simp
  then have "eg_phase (abs c) \<noteq> Ended" using False egress_ended_silent by blast
  then have front: "front c = p" "number p \<noteq> None" using assms(3) by (auto simp: in_hand_def)
  then have "front c' = front c" using front_stable [OF assms(1,2) _ False] by simp
  then show ?thesis using front by (simp add: in_hand_def)
qed

lemma serving_inv_step:
  assumes "serving_inv st" and "step st st'"
  shows "serving_inv st'"
  using assms(2)
proof cases
  case (sg_producer c c' h ws)
  have wf: "wf c" using assms(1) sg_producer by (simp add: serving_inv_def)
  note keep = producer_silent [OF wf sg_producer(3)]
  have "egress_inv ds (abs c')" if "egress_inv ds (abs c)" for ds
    using egress_inv_silent [OF that] keep by blast
  moreover have "in_hand p c'" if "in_hand p c" for p
    by (rule in_hand_producer [OF wf sg_producer(3) that])
  ultimately show ?thesis
    using assms(1) sg_producer(1,2) keep by (cases h) (auto simp: serving_inv_def)
next
  case sg_stay
  then show ?thesis using assms(1) by simp
next
  case sg_over
  then show ?thesis using assms(1) by (simp add: serving_inv_def)
next
  case (sg_peek c n ws)
  have wf: "wf c" and inv: "egress_inv ws (abs c)"
    using assms(1) sg_peek by (simp_all add: serving_inv_def)
  have "n = Suc (length ws)"
    by (rule egress_inv_deliver(2) [OF inv ack_delivers [OF wf sg_peek(3)]])
  then show ?thesis
    using assms(1) sg_peek by (simp add: serving_inv_def in_hand_def)
next
  case (sg_write p n ws c)
  then have "wf c" "ws = [1..<Suc (length ws)]" "egress_inv ws (abs c)" "n = Suc (length ws)" "in_hand p c"
    using assms(1) by (simp_all add: serving_inv_def)
  then show ?thesis
    unfolding sg_write(2) serving_inv_def using sg_write(3) by (simp add: in_hand_def)
next
  case (sg_ack c p ws)
  then obtain ds n where s: "wf c" "ws = [1..<Suc (length ws)]" "ws = ds @ [n]" "egress_inv ds (abs c)"
    "number p = Some n" "front c = p"
    using assms(1) by (auto simp: serving_inv_def in_hand_def)
  have "egress_inv ws (abs (ack p c))"
    using egress_inv_deliver(1) [OF s(4)] ack_delivers [OF s(1)] s(3,5,6) by blast
  then show ?thesis
    unfolding sg_ack(2) serving_inv_def using s(1,2) ack_wf by simp
next
  case (sg_last p ws c)
  then have "wf c" "ws = [1..<Suc (length ws)]" using assms(1) by (simp_all add: serving_inv_def)
  then show ?thesis unfolding sg_last(2) serving_inv_def using ack_wf by simp
qed

lemma serving_inv_run:
  assumes "step\<^sup>*\<^sup>* st st'" and "serving_inv st"
  shows "serving_inv st'"
  using assms by (induction rule: rtranclp_induct) (auto intro: serving_inv_step)

lemma written_contiguous: "serving_inv (h, ws, c) \<Longrightarrow> ws = [1..<Suc (length ws)]"
  by (simp add: serving_inv_def)

lemma sent_in_hand: "serving_inv (Sent p, ws, c) \<Longrightarrow> wf c \<and> (eg_phase (abs c) = Ended \<or> front c = p)"
  by (auto simp: serving_inv_def in_hand_def)

lemma held_in_hand: "serving_inv (Holding p, ws, c) \<Longrightarrow> wf c \<and> (eg_phase (abs c) = Ended \<or> front c = p)"
  by (auto simp: serving_inv_def in_hand_def)

end

end
