(* ===== verification/GrpcStreams.thy ===== *)
theory GrpcStreams
  imports GrpcRequests Serving
begin

text \<open>
  The serving loops of \<open>SubscribeOrderBook\<close> and \<open>SubscribeEvents\<close>,
  \<open>src/src/g7/grpc_service.cpp\<close>, from one access to shared state to the next. What
  \<open>IsCancelled\<close> and the stream writer answer is the world argument of a step; the items a
  successful write put on the stream are kept in order. A wait may return at any time (its
  condition, or its 250 ms are up).
\<close>

section \<open>The loops\<close>

datatype grpc_code =
    GOK | GCANCELLED | GINVALID_ARGUMENT | GDEADLINE_EXCEEDED | GRESOURCE_EXHAUSTED
  | GFAILED_PRECONDITION | GINTERNAL | GUNAVAILABLE

type_synonym grpc_status = "grpc_code \<times> string"

datatype ('p, 'i) serve_phase =
    SvTop | SvPeek | SvEmpty | SvWait | SvItem 'p | SvWrite 'p 'i | SvWritten 'p bool | SvCut
  | SvAck 'p | SvDone grpc_status

record ('p, 'i) server =
  sv_phase :: "('p, 'i) serve_phase"
  sv_written :: "'i list"

text \<open>\<open>sw_write\<close>: what \<open>Write\<close> returns; \<open>None\<close>: the writer threw.\<close>

record serve_world =
  sw_cancelled :: bool
  sw_write :: "bool option"

definition start_serving :: "('p, 'i) server" where
  "start_serving = \<lparr>sv_phase = SvTop, sv_written = []\<rparr>"

definition has_publication :: "'s peeked_publication \<Rightarrow> bool" where
  "has_publication p \<longleftrightarrow> pk_ordinary p \<noteq> Null \<or> pk_terminal p \<noteq> None"

definition serve_order_book ::
  "wire_market \<Rightarrow> string \<Rightarrow> serve_world
     \<Rightarrow> ('s peeked_publication, 's order_book_stream_item) server \<Rightarrow> 's channel
     \<Rightarrow> ('s peeked_publication, 's order_book_stream_item) server \<times> 's channel" where
  "serve_order_book market symbol w sv c =
     (case sv_phase sv of
        SvTop \<Rightarrow>
          (sv\<lparr>sv_phase := (if sw_cancelled w then SvDone (GCANCELLED, ''client cancelled'') else SvPeek)\<rparr>, c)
      | SvPeek \<Rightarrow>
          (sv\<lparr>sv_phase := (if has_publication (peek c) then SvItem (peek c) else SvEmpty)\<rparr>, c)
      | SvEmpty \<Rightarrow> (sv\<lparr>sv_phase := (if ch_state c = SubClosed then SvDone (GOK, []) else SvWait)\<rparr>, c)
      | SvWait \<Rightarrow> (sv\<lparr>sv_phase := SvTop\<rparr>, c)
      | SvItem p \<Rightarrow>
          (sv\<lparr>sv_phase := (case materialize_stream_item_for c p market symbol of
              None \<Rightarrow> SvDone (GINTERNAL, ''failed to materialize order-book stream item'')
            | Some item \<Rightarrow> SvWrite p item)\<rparr>, c)
      | SvWrite p item \<Rightarrow>
          (case sw_write w of
             None \<Rightarrow> (sv\<lparr>sv_phase := SvDone (GINTERNAL, ''subscriber writer test seam failed'')\<rparr>, c)
           | Some ok \<Rightarrow> (sv\<lparr>sv_phase := SvWritten p ok,
                           sv_written := sv_written sv @ (if ok then [item] else [])\<rparr>, c))
      | SvWritten p ok \<Rightarrow> (sv\<lparr>sv_phase := (if sw_cancelled w \<or> \<not> ok then SvCut else SvAck p)\<rparr>, c)
      | SvCut \<Rightarrow>
          (sv\<lparr>sv_phase := SvDone (if sw_cancelled w then (GCANCELLED, ''client cancelled'') else (GOK, []))\<rparr>, c)
      | SvAck p \<Rightarrow>
          (case acknowledge p c of (acknowledged, c') \<Rightarrow>
             (sv\<lparr>sv_phase :=
                (if acknowledged = AckMismatch
                 then SvDone (GINTERNAL, ''subscriber peek/ack invariant failed'')
                 else if acknowledged = AckClosed then SvDone (GOK, [])
                 else if pk_terminal p \<noteq> None then SvDone (GOK, [])
                 else SvTop)\<rparr>, c'))
      | SvDone _ \<Rightarrow> (sv, c))"

definition has_event :: "peeked_event_publication \<Rightarrow> bool" where
  "has_event p \<longleftrightarrow> pe_ordinary p \<noteq> Null \<or> pe_terminal p \<noteq> None"

definition serve_events ::
  "wire_market \<Rightarrow> string \<Rightarrow> serve_world \<Rightarrow> (peeked_event_publication, event_envelope) server
     \<Rightarrow> event_channel \<Rightarrow> (peeked_event_publication, event_envelope) server \<times> event_channel" where
  "serve_events market symbol w sv c =
     (case sv_phase sv of
        SvTop \<Rightarrow>
          (sv\<lparr>sv_phase := (if sw_cancelled w then SvDone (GCANCELLED, ''client cancelled'') else SvPeek)\<rparr>, c)
      | SvPeek \<Rightarrow>
          (sv\<lparr>sv_phase := (if has_event (ev_peek c) then SvItem (ev_peek c) else SvEmpty)\<rparr>, c)
      | SvEmpty \<Rightarrow>
          (sv\<lparr>sv_phase :=
             (if ec_state c = EvTerminalUnavailable
              then SvDone (GUNAVAILABLE, ''event source terminated permanently'')
              else if ec_state c = EvClosed then SvDone (GOK, [])
              else SvWait)\<rparr>, c)
      | SvWait \<Rightarrow> (sv\<lparr>sv_phase := SvTop\<rparr>, c)
      | SvItem p \<Rightarrow>
          (sv\<lparr>sv_phase := (case materialize_event_envelope_for c p market symbol of
              None \<Rightarrow> SvDone (GINTERNAL, ''failed to materialize event stream item'')
            | Some item \<Rightarrow> SvWrite p item)\<rparr>, c)
      | SvWrite p item \<Rightarrow>
          (case sw_write w of
             None \<Rightarrow> (sv\<lparr>sv_phase := SvDone (GINTERNAL, ''event subscriber writer test seam failed'')\<rparr>, c)
           | Some ok \<Rightarrow> (sv\<lparr>sv_phase := SvWritten p ok,
                           sv_written := sv_written sv @ (if ok then [item] else [])\<rparr>, c))
      | SvWritten p ok \<Rightarrow> (sv\<lparr>sv_phase := (if sw_cancelled w \<or> \<not> ok then SvCut else SvAck p)\<rparr>, c)
      | SvCut \<Rightarrow>
          (sv\<lparr>sv_phase := SvDone (if sw_cancelled w then (GCANCELLED, ''client cancelled'') else (GOK, []))\<rparr>, c)
      | SvAck p \<Rightarrow>
          (case ev_acknowledge p c of (acknowledged, c') \<Rightarrow>
             (sv\<lparr>sv_phase :=
                (if acknowledged = EvAckMismatch
                 then SvDone (GINTERNAL, ''event subscriber peek/ack invariant failed'')
                 else if acknowledged = EvAckClosed then SvDone (GOK, [])
                 else SvTop)\<rparr>, c'))
      | SvDone _ \<Rightarrow> (sv, c))"

section \<open>The order-book channel as a served channel\<close>

text \<open>What the owner may do to a channel that a handler serves.\<close>

inductive owner_channel_step :: "'s channel \<Rightarrow> 's channel \<Rightarrow> bool" where
  os_admit: "u \<noteq> Null \<Longrightarrow> owner_channel_step c (snd (admit_update alloc u g t c))"
| os_terminalize: "owner_channel_step c (snd (terminalize r act g t c))"
| os_close: "owner_channel_step c (close_from_owner c)"

fun payload_present :: "'s publication_record shared_ptr \<Rightarrow> bool" where
  "payload_present Null = False"
| "payload_present (Ptr _ r) = (pr_payload r \<noteq> PayloadUpdate Null)"

definition servable :: "'s channel \<Rightarrow> bool" where
  "servable c \<longleftrightarrow> channel_wf c \<and> list_all payload_present (channel_contents c)"

text \<open>The session number an item made of this publication carries, if one can be made.\<close>

definition publication_number :: "'s peeked_publication \<Rightarrow> nat option" where
  "publication_number p =
     (case pk_ordinary p of
        Ptr a r \<Rightarrow> if payload_present (Ptr a r) then Some (unat (pr_session_sequence r)) else None
      | Null \<Rightarrow> map_option (\<lambda>t. unat (td_session_sequence t)) (pk_terminal p))"

lemma materialized:
  assumes "publication_number p = Some n"
  shows "map_option (\<lambda>item. unat (dm_session_sequence (osi_delivery_metadata item)))
    (materialize_stream_item_for c p market symbol) = Some n"
  using assms
  by (auto simp: publication_number_def materialize_stream_item_for_def populate_delivery_metadata_def
      split: shared_ptr.splits ordinary_payload.splits if_splits)

lemma peek_eq:
  assumes "channel_wf c"
  shows "peek c =
    (if ch_state c = SubClosed then \<lparr>pk_ordinary = Null, pk_terminal = None\<rparr>
     else case channel_contents c of
       x # _ \<Rightarrow> \<lparr>pk_ordinary = x, pk_terminal = None\<rparr>
     | [] \<Rightarrow> \<lparr>pk_ordinary = Null, pk_terminal = ch_terminal c\<rparr>)"
proof (cases "ch_size c = 0")
  case True
  then have "channel_contents c = []" by simp
  with True show ?thesis by (simp add: peek_def)
next
  case False
  then have "channel_contents c \<noteq> []" by simp
  then obtain x xs where "channel_contents c = x # xs" by (meson list.exhaust)
  moreover have "ch_ordinary_ring c ! ch_head c = hd (channel_contents c)"
    using ob.front_hd [of c] assms False by simp
  ultimately show ?thesis using False by (simp add: peek_def)
qed

lemma servable_front:
  assumes "servable c"
  shows "has_publication (peek c) \<longleftrightarrow> publication_number (peek c) \<noteq> None"
proof (cases "channel_contents c")
  case Nil
  with assms show ?thesis
    by (simp add: peek_eq servable_def has_publication_def publication_number_def)
next
  case (Cons x xs)
  then have "payload_present x" using assms by (simp add: servable_def)
  with Cons assms show ?thesis
    by (cases x) (auto simp: peek_eq servable_def has_publication_def publication_number_def)
qed

lemma owner_silent:
  assumes "servable c" and "owner_channel_step c c'"
  shows "servable c' \<and> egress_step (channel_abs c) None (channel_abs c')"
  using assms(2)
proof cases
  case (os_admit u alloc g t)
  have wf: "channel_wf c" using assms(1) by (simp add: servable_def)
  have "list_all payload_present (channel_contents c')"
    using wf
  proof (cases rule: admit_update_cases [where al = alloc and u = u and g = g and t = t])
    case same
    then show ?thesis using assms(1) os_admit by (simp add: servable_def)
  next
    case slow
    then show ?thesis using assms(1) os_admit by (simp add: servable_def)
  next
    case (admit a)
    then show ?thesis
      using admit_update_admits [OF wf, of a u g t] assms(1) os_admit
      by (fastforce simp: servable_def)
  qed
  then show ?thesis
    using admit_update_simulation [OF wf, of alloc u g t] os_admit by (simp add: servable_def)
next
  case (os_terminalize r act g t)
  have "channel_contents c' = channel_contents c"
    by (simp add: os_terminalize terminalize_def)
  then show ?thesis
    using assms(1) terminalize_simulation [of c r act g t] terminalize_wf [of c r act g t]
    by (simp add: os_terminalize servable_def)
next
  case os_close
  then show ?thesis
    using assms(1) close_from_owner_wf [of c]
    by (auto simp: servable_def close_from_owner_def channel_abs_def intro: eg_close)
qed

lemma owner_keeps_front:
  assumes "servable c" and "owner_channel_step c c'"
    and "publication_number (peek c) \<noteq> None" and "ch_state c' \<noteq> SubClosed"
  shows "peek c' = peek c"
proof -
  have wf: "channel_wf c" "channel_wf c'"
    using assms(1) owner_silent [OF assms(1,2)] by (simp_all add: servable_def)
  have open_: "ch_state c \<noteq> SubClosed"
    using assms(3) by (auto simp: peek_def publication_number_def)
  have some: "channel_contents c \<noteq> [] \<or> ch_state c \<noteq> SubActive"
    using assms(3) wf(1) open_
    by (auto simp: peek_eq publication_number_def channel_wf_def)
  have "(channel_contents c' = channel_contents c \<and> (channel_contents c = [] \<longrightarrow> ch_terminal c' = ch_terminal c))
      \<or> (\<exists>x. channel_contents c' = channel_contents c @ [x] \<and> channel_contents c \<noteq> [])"
    using assms(2)
  proof cases
    case (os_admit u alloc g t)
    show ?thesis using wf(1)
    proof (cases rule: admit_update_cases [where al = alloc and u = u and g = g and t = t])
      case (admit a)
      then show ?thesis
        using some admit_update_admits [OF wf(1), of a u g t] os_admit by fastforce
    qed (use some os_admit in auto)
  next
    case os_terminalize
    then show ?thesis using some by (auto simp: terminalize_def)
  next
    case os_close
    then show ?thesis by (simp add: close_from_owner_def)
  qed
  then show ?thesis
    using open_ assms(4) by (auto simp: peek_eq wf split: list.splits)
qed

lemma servable_acknowledge:
  assumes "servable c"
  shows "servable (snd (acknowledge p c))"
proof -
  have wf: "channel_wf c" using assms by (simp add: servable_def)
  have "list_all payload_present (channel_contents (snd (acknowledge p c)))"
    using wf
  proof (cases rule: acknowledge_cases [where p = p])
    case same
    then show ?thesis using assms by (simp add: servable_def)
  next
    case (pop x xs)
    then have "channel_contents (ring_pop_locked c) = xs" using ob.pop_front [of c] wf by auto
    then show ?thesis using assms pop by (simp add: servable_def)
  next
    case (terminal t)
    then show ?thesis using assms by (simp add: servable_def)
  qed
  then show ?thesis using acknowledge_simulation [OF wf, of p] by (simp add: servable_def)
qed

lemma acknowledge_peeked:
  assumes "servable c" and "publication_number (peek c) = Some n"
  shows "ack_label (peek c) c = Some n" and "fst (acknowledge (peek c) c) \<noteq> AckMismatch"
    and "fst (acknowledge (peek c) c) = AckAcknowledged \<longleftrightarrow> pk_terminal (peek c) = None"
proof -
  have wf: "channel_wf c" and open_: "ch_state c \<noteq> SubClosed"
    using assms by (auto simp: servable_def peek_def publication_number_def)
  have "ack_label (peek c) c = Some n \<and> fst (acknowledge (peek c) c) \<noteq> AckMismatch
    \<and> (fst (acknowledge (peek c) c) = AckAcknowledged \<longleftrightarrow> pk_terminal (peek c) = None)"
  proof (cases "ch_size c = 0")
    case True
    then have p: "peek c = \<lparr>pk_ordinary = Null, pk_terminal = ch_terminal c\<rparr>"
      using open_ by (simp add: peek_def)
    with assms(2) obtain t where "ch_terminal c = Some t" "unat (td_session_sequence t) = n"
      by (auto simp: publication_number_def)
    then show ?thesis using True open_ by (simp add: p acknowledge_def ack_label_def)
  next
    case False
    then have p: "peek c = \<lparr>pk_ordinary = ch_ordinary_ring c ! ch_head c, pk_terminal = None\<rparr>"
      using open_ by (simp add: peek_def)
    with assms(2) obtain a r where "ch_ordinary_ring c ! ch_head c = Ptr a r"
      "unat (pr_session_sequence r) = n"
      by (auto simp: publication_number_def split: shared_ptr.splits if_splits)
    then show ?thesis using False open_ by (simp add: p acknowledge_def ack_label_def)
  qed
  then show "ack_label (peek c) c = Some n" "fst (acknowledge (peek c) c) \<noteq> AckMismatch"
    "fst (acknowledge (peek c) c) = AckAcknowledged \<longleftrightarrow> pk_terminal (peek c) = None"
    by blast+
qed

interpretation ob_served: served_channel servable channel_abs peek publication_number
  "\<lambda>p c. snd (acknowledge p c)" owner_channel_step
proof unfold_locales
  fix c c' :: "'s channel" and n p
  show "servable c' \<and> egress_step (channel_abs c) None (channel_abs c')"
    if "servable c" "owner_channel_step c c'"
    by (rule owner_silent [OF that])
  show "peek c' = peek c"
    if "servable c" "owner_channel_step c c'" "publication_number (peek c) \<noteq> None"
      "eg_phase (channel_abs c') \<noteq> Ended"
    using owner_keeps_front [OF that(1,2,3)] that(4) by (simp add: channel_abs_def)
  show "egress_step (channel_abs c) (Some n) (channel_abs (snd (acknowledge (peek c) c)))"
    if "servable c" "publication_number (peek c) = Some n"
    using acknowledge_simulation [of c "peek c"] acknowledge_peeked(1) [OF that] that(1)
    by (simp add: servable_def)
  show "servable (snd (acknowledge p c))" if "servable c"
    by (rule servable_acknowledge [OF that])
qed

section \<open>The order-book handler\<close>

fun handling_of :: "('p, 'i) serve_phase \<Rightarrow> 'p handling" where
  "handling_of (SvItem p) = Holding p"
| "handling_of (SvWrite p _) = Holding p"
| "handling_of (SvWritten p ok) = (if ok then Sent p else Over)"
| "handling_of (SvAck p) = Sent p"
| "handling_of SvCut = Over"
| "handling_of (SvDone _) = Over"
| "handling_of _ = Idle"

definition item_number :: "'s order_book_stream_item \<Rightarrow> nat" where
  "item_number item = unat (dm_session_sequence (osi_delivery_metadata item))"

text \<open>A handler and the owner of its channel, in any interleaving.\<close>

inductive order_book_session ::
  "wire_market \<Rightarrow> string
     \<Rightarrow> ('s peeked_publication, 's order_book_stream_item) server \<times> 's channel
     \<Rightarrow> ('s peeked_publication, 's order_book_stream_item) server \<times> 's channel \<Rightarrow> bool"
  for market symbol where
  obs_handler: "order_book_session market symbol (sv, c) (serve_order_book market symbol w sv c)"
| obs_owner: "owner_channel_step c c' \<Longrightarrow> order_book_session market symbol (sv, c) (sv, c')"

definition only_writer_fails :: "string \<Rightarrow> grpc_status \<Rightarrow> bool" where
  "only_writer_fails message status \<longleftrightarrow> (fst status = GINTERNAL \<longrightarrow> snd status = message)"

definition session_ok ::
  "('s peeked_publication, 's order_book_stream_item) server \<times> 's channel \<Rightarrow> bool" where
  "session_ok st \<longleftrightarrow> (case st of (sv, c) \<Rightarrow>
     ob_served.serving_inv (handling_of (sv_phase sv), map item_number (sv_written sv), c)
     \<and> (case sv_phase sv of
          SvWrite p item \<Rightarrow> publication_number p = Some (item_number item)
        | SvDone status \<Rightarrow> only_writer_fails ''subscriber writer test seam failed'' status
        | _ \<Rightarrow> True))"

lemma serve_order_book_serving:
  assumes ok: "session_ok (sv, c)" and st: "serve_order_book market symbol w sv c = (sv', c')"
  shows "ob_served.step (handling_of (sv_phase sv), map item_number (sv_written sv), c)
      (handling_of (sv_phase sv'), map item_number (sv_written sv'), c')
    \<and> (case sv_phase sv' of
          SvWrite p item \<Rightarrow> publication_number p = Some (item_number item)
        | SvDone status \<Rightarrow> only_writer_fails ''subscriber writer test seam failed'' status
        | _ \<Rightarrow> True)"
proof (cases "sv_phase sv")
  case SvPeek
  have "servable c" using ok SvPeek by (simp add: session_ok_def ob_served.serving_inv_def)
  then show ?thesis
    using st SvPeek servable_front [of c]
    by (auto simp: serve_order_book_def only_writer_fails_def split: if_splits intro: serving.intros)
next
  case (SvItem p)
  then have "publication_number p = Some (Suc (length (sv_written sv)))"
    using ok by (simp add: session_ok_def ob_served.serving_inv_def)
  then obtain item where "materialize_stream_item_for c p market symbol = Some item"
    "item_number item = Suc (length (sv_written sv))"
    using materialized [of p _ c market symbol] by (auto simp: item_number_def)
  then show ?thesis
    using st SvItem \<open>publication_number p = _\<close>
    by (auto simp: serve_order_book_def only_writer_fails_def intro: serving.intros)
next
  case (SvWrite p item)
  then show ?thesis
    using ok st
    by (auto simp: session_ok_def serve_order_book_def only_writer_fails_def split: option.splits
        intro: serving.intros)
next
  case (SvWritten p sent)
  then show ?thesis using st by (auto simp: serve_order_book_def only_writer_fails_def intro: serving.intros)
next
  case (SvAck p)
  have held: "servable c \<and> (eg_phase (channel_abs c) = Ended \<or> peek c = p)"
    using ok SvAck ob_served.sent_in_hand [of p _ c] by (simp add: session_ok_def)
  have num: "publication_number p \<noteq> None"
    using ok SvAck by (auto simp: session_ok_def ob_served.serving_inv_def)
  show ?thesis
  proof (cases "ch_state c = SubClosed")
    case True
    then have "acknowledge p c = (AckClosed, c)" by (simp add: acknowledge_def)
    then show ?thesis using st SvAck by (auto simp: serve_order_book_def only_writer_fails_def intro: serving.intros)
  next
    case False
    then have "peek c = p" using held by (simp add: channel_abs_def)
    then have "fst (acknowledge p c) \<noteq> AckMismatch" "eg_phase (channel_abs c) \<noteq> Ended"
      using acknowledge_peeked [of c] held num False by (auto simp: channel_abs_def)
    moreover have "c' = snd (acknowledge p c)"
      using st SvAck by (simp add: serve_order_book_def split: prod.splits)
    ultimately have "ob_served.step (Sent p, ws, c) (Over, ws, c')"
      "ob_served.step (Sent p, ws, c) (Idle, ws, c')" for ws
      using serving.sg_ack [where ack = "\<lambda>p c. snd (acknowledge p c)"]
        serving.sg_last [where ack = "\<lambda>p c. snd (acknowledge p c)"] by simp_all
    then show ?thesis
      using st SvAck \<open>fst (acknowledge p c) \<noteq> AckMismatch\<close>
      by (cases "acknowledge p c") (auto simp: serve_order_book_def only_writer_fails_def)
  qed
qed (use st ok in \<open>auto simp: serve_order_book_def session_ok_def only_writer_fails_def intro: serving.intros\<close>)

end
