(* ===== verification/GrpcService.thy ===== *)
theory GrpcService
  imports GrpcStreams GatewayStatus
begin

text \<open>
  The shared state of \<open>OrderBookGrpcService\<close>, \<open>src/src/g7/grpc_service.{hpp,cpp}\<close>: the tracked
  RPC contexts, the status slot and the shutdown, one function per critical section. A context is
  its address. A function that waits on \<open>contexts_condition_\<close> is \<open>None\<close> while it waits. The test
  gates of the options are left out.
\<close>

section \<open>State and construction\<close>

definition kMaximumGrpcTrackedContexts :: nat where
  "kMaximumGrpcTrackedContexts = 48"

datatype track_result = TrackTracked | TrackClosed | TrackFull

record tracked_context =
  tc_context :: nat
  tc_selected_for_try_cancel :: bool

record grpc_service =
  gsv_gateway_instance_id :: string
  gsv_maximum_tracked_contexts :: nat
  gsv_status_assembler :: "status_assembler option"
  gsv_status_inflight :: bool
  gsv_status_stop_requested :: bool
  gsv_contexts :: "tracked_context list"
  gsv_admission_open :: bool
  gsv_shutdown_started :: bool
  gsv_cancellation_snapshot_active :: bool

text \<open>
  The four constructors: \<open>hubs\<close> are the gateway instance ids of the event publications that are
  passed (none for the first constructor), \<open>status_clock\<close> is \<open>None\<close> for the two constructors
  without a status assembler and otherwise whether the injected clock is a function.
\<close>

definition make_grpc_service ::
  "string \<Rightarrow> int \<Rightarrow> nat \<Rightarrow> string list \<Rightarrow> bool option \<Rightarrow> grpc_service option" where
  "make_grpc_service gateway_instance_id idle_interval maximum_tracked_contexts hubs status_clock =
     (if \<not> identifier_safe gateway_instance_id then None
      else if idle_interval \<le> 0 \<or> maximum_tracked_contexts = 0
         \<or> maximum_tracked_contexts > kMaximumGrpcTrackedContexts then None
      else if list_ex (\<lambda>h. h \<noteq> gateway_instance_id) hubs then None
      else
        let make = (\<lambda>assembler. \<lparr>gsv_gateway_instance_id = gateway_instance_id,
               gsv_maximum_tracked_contexts = maximum_tracked_contexts,
               gsv_status_assembler = assembler, gsv_status_inflight = False,
               gsv_status_stop_requested = False, gsv_contexts = [], gsv_admission_open = True,
               gsv_shutdown_started = False, gsv_cancellation_snapshot_active = False\<rparr>)
        in (case status_clock of
              None \<Rightarrow> Some (make None)
            | Some has_clock \<Rightarrow>
                (case make_assembler has_clock hubs gateway_instance_id of
                   None \<Rightarrow> None
                 | Some assembler \<Rightarrow> Some (make (Some assembler)))))"

section \<open>Tracking of contexts\<close>

definition track_context :: "nat \<Rightarrow> grpc_service \<Rightarrow> track_result \<times> grpc_service" where
  "track_context ctx s =
     (if \<not> gsv_admission_open s then (TrackClosed, s)
      else if length (gsv_contexts s) = gsv_maximum_tracked_contexts s then (TrackFull, s)
      else (TrackTracked, s\<lparr>gsv_contexts := gsv_contexts s
              @ [\<lparr>tc_context = ctx, tc_selected_for_try_cancel = False\<rparr>]\<rparr>))"

text \<open>\<open>find_if\<close> and \<open>erase\<close> of the first entry of a context.\<close>

fun erase_context :: "nat \<Rightarrow> tracked_context list \<Rightarrow> tracked_context list" where
  "erase_context ctx [] = []"
| "erase_context ctx (e # es) = (if tc_context e = ctx then es else e # erase_context ctx es)"

definition finalize_context ::
  "nat \<Rightarrow> grpc_status \<Rightarrow> grpc_service \<Rightarrow> (grpc_status \<times> grpc_service) option" where
  "finalize_context ctx proposed_status s =
     (if gsv_cancellation_snapshot_active s then None
      else
        let found = List.find (\<lambda>e. tc_context e = ctx) (gsv_contexts s);
            selected_for_try_cancel =
              (case found of None \<Rightarrow> False | Some e \<Rightarrow> tc_selected_for_try_cancel e);
            s' = (case found of
                    None \<Rightarrow> s
                  | Some _ \<Rightarrow> s\<lparr>gsv_contexts := erase_context ctx (gsv_contexts s)\<rparr>)
        in Some (if fst proposed_status = GOK \<and> selected_for_try_cancel
                 then (GCANCELLED, ''server shutdown'') else proposed_status, s'))"

definition untrack_context :: "nat \<Rightarrow> grpc_service \<Rightarrow> grpc_service option" where
  "untrack_context ctx s =
     (if gsv_cancellation_snapshot_active s then None
      else Some (case List.find (\<lambda>e. tc_context e = ctx) (gsv_contexts s) of
                   None \<Rightarrow> s
                 | Some _ \<Rightarrow> s\<lparr>gsv_contexts := erase_context ctx (gsv_contexts s)\<rparr>))"

definition tracked_context_count :: "grpc_service \<Rightarrow> nat" where
  "tracked_context_count s = length (gsv_contexts s)"

section \<open>Gateway status\<close>

text \<open>
  \<open>GetGatewayStatus\<close> up to taking the slot: \<open>Inl\<close> is its status when it returns before that.
  \<open>arguments\<close> is whether no pointer is null.
\<close>

definition status_call_begin ::
  "bool \<Rightarrow> status_request \<Rightarrow> grpc_service \<Rightarrow> (grpc_status + unit) \<times> grpc_service" where
  "status_call_begin arguments request s =
     (if \<not> arguments then (Inl (GINVALID_ARGUMENT, ''null RPC argument''), s)
      else if \<not> validate_gateway_status_request request then
        (Inl (GINVALID_ARGUMENT, ''unsupported or malformed gateway status request''), s)
      else if \<not> gsv_admission_open s then
        (Inl (GUNAVAILABLE, ''gateway status admission is shutting down''), s)
      else if gsv_status_assembler s = None then
        (Inl (GUNAVAILABLE, ''gateway status is not configured''), s)
      else if gsv_status_inflight s then
        (Inl (GRESOURCE_EXHAUSTED, ''gateway status request is already in progress''), s)
      else (Inr (), s\<lparr>gsv_status_inflight := True\<rparr>))"

text \<open>
  What the call answers while it holds the slot: the two readings of \<open>IsCancelled\<close>, the result of
  \<open>collect\<close> (\<open>None\<close>: an exception) and whether a stop was requested.
\<close>

definition status_call_answer ::
  "bool \<Rightarrow> (status_snapshot_error + gateway_status_snapshot) option \<Rightarrow> bool \<Rightarrow> bool
     \<Rightarrow> grpc_status \<times> gateway_status_snapshot option" where
  "status_call_answer cancelled_before result cancelled_after stop_requested =
     (if cancelled_before then ((GCANCELLED, ''client cancelled''), None)
      else case result of
        None \<Rightarrow> ((GINTERNAL, ''gateway status assembly failed''), None)
      | Some result \<Rightarrow>
          if cancelled_after then ((GCANCELLED, ''client cancelled''), None)
          else (case result of
             Inr snapshot \<Rightarrow> ((GOK, []), Some snapshot)
           | Inl failure \<Rightarrow>
               if stop_requested then ((GUNAVAILABLE, ''gateway status is shutting down''), None)
               else if failure = ObservationTimeout then
                 ((GDEADLINE_EXCEEDED, ''gateway owner observation deadline exceeded''), None)
               else ((GINTERNAL, ''gateway status observation is invalid''), None)))"

definition release_status_slot :: "grpc_service \<Rightarrow> grpc_service" where
  "release_status_slot s = s\<lparr>gsv_status_inflight := False\<rparr>"

definition prepare_status_start :: "clock_sample option \<Rightarrow> grpc_service \<Rightarrow> bool \<times> grpc_service" where
  "prepare_status_start clock s =
     (case gsv_status_assembler s of
        None \<Rightarrow> (True, s)
      | Some assembler \<Rightarrow>
          (case prepare_start_baseline clock assembler of
             (ok, assembler') \<Rightarrow> (ok, s\<lparr>gsv_status_assembler := Some assembler'\<rparr>)))"

definition clear_status_start :: "grpc_service \<Rightarrow> grpc_service" where
  "clear_status_start s =
     (case gsv_status_assembler s of
        None \<Rightarrow> s
      | Some assembler \<Rightarrow> s\<lparr>gsv_status_assembler := Some (clear_start_baseline assembler)\<rparr>)"

section \<open>Shutdown\<close>

text \<open>
  \<open>begin_shutdown\<close>: the claim (\<open>False\<close>: another call has it), the stop request to a running
  status collection, the snapshot of the contexts, and its release. The publications are shut
  down between the second and the third (GrpcCalls).
\<close>

definition shutdown_claim :: "grpc_service \<Rightarrow> bool \<times> grpc_service" where
  "shutdown_claim s =
     (if gsv_shutdown_started s then (False, s)
      else (True, s\<lparr>gsv_shutdown_started := True, gsv_admission_open := False\<rparr>))"

definition shutdown_stop_status :: "grpc_service \<Rightarrow> grpc_service" where
  "shutdown_stop_status s = s\<lparr>gsv_status_stop_requested := True\<rparr>"

definition shutdown_snapshot :: "grpc_service \<Rightarrow> nat list \<times> grpc_service" where
  "shutdown_snapshot s =
     (map tc_context (gsv_contexts s),
      s\<lparr>gsv_cancellation_snapshot_active := True,
        gsv_contexts := map (\<lambda>e. e\<lparr>tc_selected_for_try_cancel := True\<rparr>) (gsv_contexts s)\<rparr>)"

definition shutdown_release :: "grpc_service \<Rightarrow> grpc_service" where
  "shutdown_release s = s\<lparr>gsv_cancellation_snapshot_active := False\<rparr>"

section \<open>The service and its calls\<close>

text \<open>
  What a call is to the service: not begun, running, or returned with a status. The steps are
  those of every RPC thread, of the server thread that shuts the service down, and of
  \<open>TryCancel\<close>, which the third component records.
\<close>

datatype rpc_state = RpcNotBegun | RpcRunning | RpcReturned grpc_code

type_synonym service_state = "grpc_service \<times> (nat \<Rightarrow> rpc_state) \<times> nat set"

inductive service_step :: "service_state \<Rightarrow> service_state \<Rightarrow> bool" where
  sv_track: "calls k = RpcNotBegun \<Longrightarrow> track_context k s = (TrackTracked, s')
    \<Longrightarrow> service_step (s, calls, cancelled) (s', calls(k := RpcRunning), cancelled)"
| sv_refuse: "calls k = RpcNotBegun \<Longrightarrow> code \<noteq> GOK
    \<Longrightarrow> service_step (s, calls, cancelled) (s, calls(k := RpcReturned code), cancelled)"
| sv_finalize: "calls k = RpcRunning \<Longrightarrow> finalize_context k proposed s = Some (status, s')
    \<Longrightarrow> service_step (s, calls, cancelled) (s', calls(k := RpcReturned (fst status)), cancelled)"
| sv_untrack: "calls k = RpcRunning \<Longrightarrow> untrack_context k s = Some s'
    \<Longrightarrow> service_step (s, calls, cancelled) (s', calls(k := RpcReturned GINTERNAL), cancelled)"
| sv_claim: "shutdown_claim s = (won, s') \<Longrightarrow> service_step (s, calls, cancelled) (s', calls, cancelled)"
| sv_stop_status: "gsv_shutdown_started s
    \<Longrightarrow> service_step (s, calls, cancelled) (shutdown_stop_status s, calls, cancelled)"
| sv_snapshot: "gsv_shutdown_started s \<Longrightarrow> shutdown_snapshot s = (contexts, s')
    \<Longrightarrow> service_step (s, calls, cancelled) (s', calls, cancelled)"
| sv_cancel: "gsv_cancellation_snapshot_active s \<Longrightarrow> k \<in> tc_context ` set (gsv_contexts s)
    \<Longrightarrow> service_step (s, calls, cancelled) (s, calls, insert k cancelled)"
| sv_release: "gsv_cancellation_snapshot_active s
    \<Longrightarrow> service_step (s, calls, cancelled) (shutdown_release s, calls, cancelled)"
| sv_status_begin: "status_call_begin arguments request s = (answer, s')
    \<Longrightarrow> service_step (s, calls, cancelled) (s', calls, cancelled)"
| sv_status_end: "service_step (s, calls, cancelled) (release_status_slot s, calls, cancelled)"

definition service_init :: "service_state \<Rightarrow> bool" where
  "service_init st \<longleftrightarrow> (case st of (s, calls, cancelled) \<Rightarrow>
     (\<exists>gateway_instance_id idle_interval maximum hubs status_clock.
        make_grpc_service gateway_instance_id idle_interval maximum hubs status_clock = Some s)
     \<and> calls = (\<lambda>_. RpcNotBegun) \<and> cancelled = {})"

section \<open>The invariant\<close>

definition service_inv :: "service_state \<Rightarrow> bool" where
  "service_inv st \<longleftrightarrow> (case st of (s, calls, cancelled) \<Rightarrow>
     length (gsv_contexts s) \<le> gsv_maximum_tracked_contexts s
   \<and> gsv_maximum_tracked_contexts s \<le> kMaximumGrpcTrackedContexts
   \<and> distinct (map tc_context (gsv_contexts s))
   \<and> (\<forall>k. k \<in> tc_context ` set (gsv_contexts s) \<longleftrightarrow> calls k = RpcRunning)
   \<and> (gsv_admission_open s \<longleftrightarrow> \<not> gsv_shutdown_started s)
   \<and> (gsv_cancellation_snapshot_active s \<longrightarrow> gsv_shutdown_started s
        \<and> list_all tc_selected_for_try_cancel (gsv_contexts s)))"

lemma erase_context_filter:
  "distinct (map tc_context es) \<Longrightarrow> erase_context ctx es = List.filter (\<lambda>e. tc_context e \<noteq> ctx) es"
  by (induction es) (auto simp: image_iff intro!: filter_True [symmetric])

lemma erase_contexts:
  assumes "distinct (map tc_context es)"
  shows "distinct (map tc_context (erase_context ctx es))"
    and "tc_context ` set (erase_context ctx es) = tc_context ` set es - {ctx}"
    and "length (erase_context ctx es) \<le> length es"
    and "list_all p es \<Longrightarrow> list_all p (erase_context ctx es)"
  using assms
  by (auto simp: erase_context_filter distinct_map_filter list_all_iff)

lemma finalize_context_eq:
  assumes "finalize_context ctx proposed s = Some (status, s')"
  shows "\<not> gsv_cancellation_snapshot_active s"
    and "s' = s\<lparr>gsv_contexts := erase_context ctx (gsv_contexts s)\<rparr>"
proof -
  have keep: "erase_context ctx es = es" if "List.find (\<lambda>e. tc_context e = ctx) es = None" for es
    using that by (induction es) (auto split: if_splits)
  show "\<not> gsv_cancellation_snapshot_active s" "s' = s\<lparr>gsv_contexts := erase_context ctx (gsv_contexts s)\<rparr>"
    using assms keep [of "gsv_contexts s"]
    by (auto simp: finalize_context_def Let_def split: if_splits option.splits)
qed

lemma untrack_context_eq:
  assumes "untrack_context ctx s = Some s'"
  shows "\<not> gsv_cancellation_snapshot_active s \<and> s' = s\<lparr>gsv_contexts := erase_context ctx (gsv_contexts s)\<rparr>"
  using finalize_context_eq [of ctx "(GINTERNAL, [])" s "(GINTERNAL, [])" s'] assms
  by (auto simp: untrack_context_def finalize_context_def Let_def split: if_splits option.splits)

lemma service_inv_erase:
  assumes inv: "service_inv (s, calls, cancelled)" and "\<not> gsv_cancellation_snapshot_active s"
  shows "service_inv (s\<lparr>gsv_contexts := erase_context k (gsv_contexts s)\<rparr>, calls(k := RpcReturned code), cancelled)"
proof -
  have d: "distinct (map tc_context (gsv_contexts s))" using inv by (simp add: service_inv_def)
  note erased = erase_contexts(1-3) [OF d, of k]
  have "length (erase_context k (gsv_contexts s)) \<le> gsv_maximum_tracked_contexts s"
    using erased(3) inv by (simp add: service_inv_def)
  then show ?thesis
    using inv assms(2) erased(1) unfolding service_inv_def by (simp add: erased(2))
qed

lemma service_inv_frame:
  assumes "service_inv (s, calls, cancelled)"
    and "gsv_contexts s' = gsv_contexts s"
    and "gsv_maximum_tracked_contexts s' = gsv_maximum_tracked_contexts s"
    and "gsv_admission_open s' = gsv_admission_open s"
    and "gsv_shutdown_started s' = gsv_shutdown_started s"
    and "gsv_cancellation_snapshot_active s' = gsv_cancellation_snapshot_active s"
  shows "service_inv (s', calls, cancelled')"
  using assms by (simp add: service_inv_def)

lemma service_inv_refuse:
  assumes "service_inv (s, calls, cancelled)" and "calls k = RpcNotBegun"
  shows "service_inv (s, calls(k := RpcReturned code), cancelled)"
  using assms by (simp add: service_inv_def)

lemma service_inv_track:
  assumes "service_inv (s, calls, cancelled)" and "calls k = RpcNotBegun"
    and "track_context k s = (TrackTracked, s')"
  shows "service_inv (s', calls(k := RpcRunning), cancelled)"
proof -
  have s': "s' = s\<lparr>gsv_contexts := gsv_contexts s @ [\<lparr>tc_context = k, tc_selected_for_try_cancel = False\<rparr>]\<rparr>"
    "gsv_admission_open s" "length (gsv_contexts s) \<noteq> gsv_maximum_tracked_contexts s"
    using assms(3) by (auto simp: track_context_def split: if_splits)
  have "k \<notin> tc_context ` set (gsv_contexts s)" using assms(1,2) by (simp add: service_inv_def)
  then show ?thesis using assms(1) s' by (auto simp: service_inv_def)
qed

lemma service_inv_snapshot:
  assumes "service_inv (s, calls, cancelled)" and "gsv_shutdown_started s"
  shows "service_inv (snd (shutdown_snapshot s), calls, cancelled)"
  using assms
  by (simp add: service_inv_def shutdown_snapshot_def comp_def image_image list_all_length)

lemma service_inv_step:
  assumes "service_inv st" and "service_step st st'"
  shows "service_inv st'"
  using assms(2)
proof cases
  case sv_track
  then show ?thesis using service_inv_track assms(1) by simp
next
  case sv_refuse
  then show ?thesis using service_inv_refuse assms(1) by simp
next
  case (sv_finalize calls k proposed s status s' cancelled)
  then show ?thesis
    using service_inv_erase [of s calls cancelled k] finalize_context_eq [of k proposed s status s'] assms(1)
    by simp
next
  case (sv_untrack calls k s s' cancelled)
  then show ?thesis
    using service_inv_erase [of s calls cancelled k] untrack_context_eq [of k s s'] assms(1) by simp
next
  case (sv_claim s won s' calls cancelled)
  then show ?thesis
    using assms(1) by (auto simp: service_inv_def shutdown_claim_def split: if_splits)
next
  case (sv_stop_status s calls cancelled)
  then show ?thesis
    using assms(1) service_inv_frame [of s calls cancelled "shutdown_stop_status s" cancelled]
    by (simp add: shutdown_stop_status_def)
next
  case (sv_snapshot s contexts s' calls cancelled)
  then have "snd (shutdown_snapshot s) = s'" by simp
  then show ?thesis using sv_snapshot service_inv_snapshot [of s calls cancelled] assms(1) by simp
next
  case (sv_cancel s k calls cancelled)
  then show ?thesis
    using assms(1) service_inv_frame [of s calls cancelled s "insert k cancelled"] by simp
next
  case (sv_release s calls cancelled)
  then show ?thesis using assms(1) by (simp add: service_inv_def shutdown_release_def)
next
  case (sv_status_begin arguments request s answer s' calls cancelled)
  then have "service_inv (s', calls, cancelled)"
    by (intro service_inv_frame [of s calls cancelled s' cancelled])
      (use assms(1) in \<open>auto simp: status_call_begin_def split: if_splits\<close>)
  then show ?thesis using sv_status_begin by simp
next
  case (sv_status_end s calls cancelled)
  then show ?thesis
    using assms(1) service_inv_frame [of s calls cancelled "release_status_slot s" cancelled]
    by (simp add: release_status_slot_def)
qed

lemma make_grpc_service_fresh:
  assumes "make_grpc_service gateway_instance_id idle_interval maximum hubs status_clock = Some s"
  shows "gsv_contexts s = [] \<and> gsv_maximum_tracked_contexts s \<le> kMaximumGrpcTrackedContexts
    \<and> gsv_admission_open s \<and> \<not> gsv_shutdown_started s \<and> \<not> gsv_cancellation_snapshot_active s"
proof (cases status_clock)
  case None
  then show ?thesis
    using assms by (auto simp: make_grpc_service_def Let_def split: if_split_asm)
next
  case (Some has_clock)
  then show ?thesis
    using assms by (auto simp: make_grpc_service_def Let_def split: if_split_asm option.split_asm)
qed

lemma service_inv_init:
  assumes "service_init st"
  shows "service_inv st"
proof -
  obtain s calls cancelled where st: "st = (s, calls, cancelled)" by (metis prod_cases3)
  then show ?thesis
    using assms make_grpc_service_fresh
    by (auto simp: service_init_def service_inv_def)
qed

interpretation service: invariant_system service_init service_step service_inv
  using service_inv_init service_inv_step by unfold_locales blast+

section \<open>Cancelled calls\<close>

text \<open>A call that \<open>TryCancel\<close> has reached is selected while it runs, and never returns OK.\<close>

definition cancelled_inv :: "service_state \<Rightarrow> bool" where
  "cancelled_inv st \<longleftrightarrow> (case st of (s, calls, cancelled) \<Rightarrow>
     \<forall>k\<in>cancelled.
       calls k = RpcRunning \<and> (\<exists>e\<in>set (gsv_contexts s). tc_context e = k \<and> tc_selected_for_try_cancel e)
       \<or> (\<exists>code. calls k = RpcReturned code \<and> code \<noteq> GOK))"

lemma find_context:
  assumes "distinct (map tc_context es)" and "e \<in> set es" and "tc_context e = k"
  shows "List.find (\<lambda>e. tc_context e = k) es = Some e"
  using assms by (induction es) (auto simp: image_iff)

lemma erase_keeps_others:
  "e \<in> set es \<Longrightarrow> tc_context e \<noteq> k \<Longrightarrow> e \<in> set (erase_context k es)"
  by (induction es) auto

lemma cancelled_inv_erase:
  assumes "cancelled_inv (s, calls, cancelled)" and "k \<in> cancelled \<longrightarrow> code \<noteq> GOK"
  shows "cancelled_inv (s\<lparr>gsv_contexts := erase_context k (gsv_contexts s)\<rparr>, calls(k := RpcReturned code), cancelled)"
  unfolding cancelled_inv_def prod.case
proof
  fix j assume j: "j \<in> cancelled"
  let ?s = "s\<lparr>gsv_contexts := erase_context k (gsv_contexts s)\<rparr>"
  let ?calls = "calls(k := RpcReturned code)"
  show "?calls j = RpcRunning \<and> (\<exists>e\<in>set (gsv_contexts ?s). tc_context e = j \<and> tc_selected_for_try_cancel e)
     \<or> (\<exists>code. ?calls j = RpcReturned code \<and> code \<noteq> GOK)"
  proof (cases "j = k")
    case True
    then show ?thesis using assms(2) j by simp
  next
    case False
    have old: "calls j = RpcRunning \<and> (\<exists>e\<in>set (gsv_contexts s). tc_context e = j \<and> tc_selected_for_try_cancel e)
     \<or> (\<exists>code. calls j = RpcReturned code \<and> code \<noteq> GOK)"
      using assms(1) j by (simp add: cancelled_inv_def)
    then show ?thesis
      using False erase_keeps_others [of _ "gsv_contexts s" k] by auto
  qed
qed

lemma finalized_not_ok:
  assumes "service_inv (s, calls, cancelled)" and "cancelled_inv (s, calls, cancelled)"
    and "calls k = RpcRunning" and "finalize_context k proposed s = Some (status, s')" and "k \<in> cancelled"
  shows "fst status \<noteq> GOK"
proof -
  obtain e where e: "e \<in> set (gsv_contexts s)" "tc_context e = k" "tc_selected_for_try_cancel e"
    using assms(2,3,5) by (fastforce simp: cancelled_inv_def)
  have "List.find (\<lambda>e. tc_context e = k) (gsv_contexts s) = Some e"
    using find_context [OF _ e(1,2)] assms(1) by (simp add: service_inv_def)
  then show ?thesis
    using assms(4) e(3) by (auto simp: finalize_context_def split: if_splits)
qed

lemma cancelled_inv_frame:
  assumes "cancelled_inv (s, calls, cancelled)" and "gsv_contexts s' = gsv_contexts s"
  shows "cancelled_inv (s', calls, cancelled)"
  using assms by (simp add: cancelled_inv_def)

lemma cancelled_inv_select:
  assumes "cancelled_inv (s, calls, cancelled)"
  shows "cancelled_inv (snd (shutdown_snapshot s), calls, cancelled)"
  using assms by (fastforce simp: cancelled_inv_def shutdown_snapshot_def)

lemma cancelled_inv_cancel:
  assumes "service_inv (s, calls, cancelled)" and "cancelled_inv (s, calls, cancelled)"
    and "gsv_cancellation_snapshot_active s" and "k \<in> tc_context ` set (gsv_contexts s)"
  shows "cancelled_inv (s, calls, insert k cancelled)"
proof -
  obtain e where e: "e \<in> set (gsv_contexts s)" "tc_context e = k" using assms(4) by blast
  then have "tc_selected_for_try_cancel e" "calls k = RpcRunning"
    using assms(1,3,4) by (auto simp: service_inv_def list_all_iff)
  then show ?thesis using assms(2) e by (auto simp: cancelled_inv_def)
qed

lemma cancelled_inv_fresh:
  assumes "cancelled_inv (s, calls, cancelled)" and "calls k = RpcNotBegun"
    and "set (gsv_contexts s) \<subseteq> set (gsv_contexts s')"
  shows "cancelled_inv (s', calls(k := r), cancelled)"
  using assms by (fastforce simp: cancelled_inv_def)

lemma cancelled_inv_step:
  assumes "service_inv st" and "cancelled_inv st" and "service_step st st'"
  shows "cancelled_inv st'"
  using assms(3)
proof cases
  case (sv_track calls k s s' cancelled)
  have "set (gsv_contexts s) \<subseteq> set (gsv_contexts s')"
    using sv_track by (auto simp: track_context_def split: if_splits)
  then show ?thesis using sv_track assms(2) cancelled_inv_fresh by simp
next
  case (sv_refuse calls k code s cancelled)
  then show ?thesis using assms(2) cancelled_inv_fresh [of s calls cancelled k s] by simp
next
  case (sv_finalize calls k proposed s status s' cancelled)
  then have "k \<in> cancelled \<longrightarrow> fst status \<noteq> GOK"
    using finalized_not_ok [of s calls cancelled k proposed status s'] assms(1,2) by blast
  then show ?thesis
    using sv_finalize cancelled_inv_erase [of s calls cancelled k] finalize_context_eq [of k proposed s status s']
      assms(2) by simp
next
  case (sv_untrack calls k s s' cancelled)
  then show ?thesis
    using cancelled_inv_erase [of s calls cancelled k GINTERNAL] untrack_context_eq [of k s s'] assms(2) by simp
next
  case (sv_claim s won s' calls cancelled)
  then have "gsv_contexts s' = gsv_contexts s" by (auto simp: shutdown_claim_def split: if_splits)
  then show ?thesis using sv_claim assms(2) cancelled_inv_frame by simp
next
  case (sv_stop_status s calls cancelled)
  then show ?thesis
    using assms(2) cancelled_inv_frame [of s calls cancelled] by (simp add: shutdown_stop_status_def)
next
  case (sv_snapshot s contexts s' calls cancelled)
  then have "snd (shutdown_snapshot s) = s'" by simp
  then show ?thesis using sv_snapshot assms(2) cancelled_inv_select [of s calls cancelled] by simp
next
  case sv_cancel
  then show ?thesis using assms(1,2) cancelled_inv_cancel by simp
next
  case (sv_release s calls cancelled)
  then show ?thesis
    using assms(2) cancelled_inv_frame [of s calls cancelled] by (simp add: shutdown_release_def)
next
  case (sv_status_begin arguments request s answer s' calls cancelled)
  then have "gsv_contexts s' = gsv_contexts s" by (auto simp: status_call_begin_def split: if_splits)
  then show ?thesis using sv_status_begin assms(2) cancelled_inv_frame by simp
next
  case (sv_status_end s calls cancelled)
  then show ?thesis
    using assms(2) cancelled_inv_frame [of s calls cancelled] by (simp add: release_status_slot_def)
qed

end
