(* ===== verification/GrpcEvents.thy ===== *)
theory GrpcEvents
  imports GrpcStreams
begin

text \<open>
  The event channel as a served channel, and the event handler's loop over it: the counterpart of
  what GrpcStreams and GrpcShape show of the order-book stream.
\<close>

section \<open>The event channel as a served channel\<close>

inductive hub_channel_step :: "event_channel \<Rightarrow> event_channel \<Rightarrow> bool" where
  hs_admit: "hub_channel_step c (snd (admit_event alloc e t c))"
| hs_replacement: "hub_channel_step c (snd (terminalize_replacement t c))"
| hs_unavailable: "hub_channel_step c (snd (close_unavailable c))"
| hs_close: "hub_channel_step c (ev_close_from_owner c)"

fun event_present :: "wire_stream \<Rightarrow> event_publication_record shared_ptr \<Rightarrow> bool" where
  "event_present stream Null = False"
| "event_present stream (Ptr _ r) =
     (case er_payload r of
        EvPayloadAccepted _ \<Rightarrow> True
      | EvPayloadEvent Null \<Rightarrow> False
      | EvPayloadEvent (Ptr _ e) \<Rightarrow> normalized_event_stream e = stream)"

definition ev_servable :: "wire_stream \<Rightarrow> event_channel \<Rightarrow> bool" where
  "ev_servable stream c \<longleftrightarrow> ev_wf c \<and> ec_stream c = stream"

definition event_number :: "wire_stream \<Rightarrow> peeked_event_publication \<Rightarrow> nat option" where
  "event_number stream p =
     (case pe_ordinary p of
        Ptr a r \<Rightarrow> if event_present stream (Ptr a r) then Some (unat (er_session_sequence r)) else None
      | Null \<Rightarrow> map_option (\<lambda>t. unat (etd_session_sequence t)) (pe_terminal p))"

definition envelope_number :: "event_envelope \<Rightarrow> nat" where
  "envelope_number item = unat (dm_session_sequence (env_delivery_metadata item))"

lemma event_materialized:
  assumes "event_number (ec_stream c) p = Some n"
  shows "map_option envelope_number (materialize_event_envelope_for c p market symbol) = Some n"
  using assms
  by (auto simp: event_number_def materialize_event_envelope_for_def populate_event_delivery_metadata_def
      envelope_number_def split: shared_ptr.splits event_ordinary_payload.splits if_splits)

lemma own_record_present: "own_record gen stream p \<Longrightarrow> event_present stream p"
  by (cases p) (auto simp: own_record_def split: event_ordinary_payload.splits shared_ptr.splits)

lemma ev_peek_eq:
  assumes "ev_wf c"
  shows "ev_peek c =
    (if ec_state c = EvClosed then \<lparr>pe_ordinary = Null, pe_terminal = None\<rparr>
     else case ev_contents c of
       x # _ \<Rightarrow> \<lparr>pe_ordinary = x, pe_terminal = None\<rparr>
     | [] \<Rightarrow> \<lparr>pe_ordinary = Null, pe_terminal = ec_terminal c\<rparr>)"
proof (cases "ec_size c = 0")
  case True
  then have "ev_contents c = []" by simp
  with True show ?thesis by (simp add: ev_peek_def)
next
  case False
  then have "ev_contents c \<noteq> []" by simp
  then obtain x xs where "ev_contents c = x # xs" by (meson list.exhaust)
  moreover have "ec_ordinary_ring c ! ec_head c = hd (ev_contents c)"
    using ev.front_hd [of c] assms False by simp
  ultimately show ?thesis using False by (simp add: ev_peek_def)
qed

lemma ev_servable_front:
  assumes "ev_servable stream c"
  shows "has_event (ev_peek c) \<longleftrightarrow> event_number stream (ev_peek c) \<noteq> None"
proof (cases "ev_contents c")
  case Nil
  with assms show ?thesis
    by (simp add: ev_peek_eq ev_servable_def has_event_def event_number_def)
next
  case (Cons x xs)
  then have "event_present stream x"
    using assms own_record_present by (auto simp: ev_servable_def ev_wf_def)
  with Cons assms show ?thesis
    by (cases x) (auto simp: ev_peek_eq ev_servable_def has_event_def event_number_def)
qed

lemma admit_event_keeps_stream: "ec_stream (snd (admit_event al e t c)) = ec_stream c"
  by (simp add: admit_event_def ev_ring_push_locked_def Let_def split: shared_ptr.splits option.splits)

lemma hub_silent:
  assumes "ev_servable stream c" and "hub_channel_step c c'"
  shows "ev_servable stream c' \<and> egress_step (ev_abs c) None (ev_abs c')"
  using assms(2)
proof cases
  case hs_admit
  then show ?thesis
    using assms(1) admit_event_simulation [of c] by (simp add: ev_servable_def admit_event_keeps_stream)
next
  case hs_replacement
  then show ?thesis
    using assms(1) terminalize_replacement_simulation [of c]
    by (simp add: ev_servable_def) (simp add: terminalize_replacement_def)
next
  case hs_unavailable
  then show ?thesis
    using assms(1) close_unavailable_simulation [of c]
    by (simp add: ev_servable_def) (simp add: close_unavailable_def)
next
  case hs_close
  then show ?thesis
    using assms(1) ev_close_from_owner_wf [of c]
    by (auto simp: ev_servable_def ev_close_from_owner_def ev_abs_def intro: eg_close)
qed

lemma hub_keeps_front:
  assumes "ev_servable stream c" and "hub_channel_step c c'"
    and "event_number stream (ev_peek c) \<noteq> None" and "ec_state c' \<noteq> EvClosed"
  shows "ev_peek c' = ev_peek c"
proof -
  have wf: "ev_wf c" "ev_wf c'"
    using assms(1) hub_silent [OF assms(1,2)] by (simp_all add: ev_servable_def)
  have open_: "ec_state c \<noteq> EvClosed"
    using assms(3) by (auto simp: ev_peek_def event_number_def)
  have some: "ev_contents c \<noteq> [] \<or> ec_state c \<noteq> EvActive"
    using assms(3) wf(1) open_ by (auto simp: ev_peek_eq event_number_def ev_wf_def)
  have "(ev_contents c' = ev_contents c \<and> (ev_contents c = [] \<longrightarrow> ec_terminal c' = ec_terminal c))
      \<or> (\<exists>x. ev_contents c' = ev_contents c @ [x] \<and> ev_contents c \<noteq> [])"
    using assms(2)
  proof cases
    case (hs_admit alloc e t)
    show ?thesis using wf(1)
    proof (cases rule: admit_event_cases [where al = alloc and e = e and t = t])
      case (admit a b x r)
      then show ?thesis using some hs_admit by auto
    qed (use some hs_admit in auto)
  qed (use some in \<open>auto simp: terminalize_replacement_def close_unavailable_def ev_close_from_owner_def\<close>)
  then show ?thesis
    using open_ assms(4) by (auto simp: ev_peek_eq wf split: list.splits)
qed

lemma ev_acknowledge_peeked:
  assumes "event_number stream (ev_peek c) = Some n"
  shows "ev_ack_label (ev_peek c) c = Some n" and "fst (ev_acknowledge (ev_peek c) c) \<noteq> EvAckMismatch"
proof -
  have open_: "ec_state c \<noteq> EvClosed"
    using assms by (auto simp: ev_peek_def event_number_def)
  have "ev_ack_label (ev_peek c) c = Some n \<and> fst (ev_acknowledge (ev_peek c) c) \<noteq> EvAckMismatch"
  proof (cases "ec_size c = 0")
    case True
    then have p: "ev_peek c = \<lparr>pe_ordinary = Null, pe_terminal = ec_terminal c\<rparr>"
      using open_ by (simp add: ev_peek_def)
    with assms obtain t where "ec_terminal c = Some t" "unat (etd_session_sequence t) = n"
      by (auto simp: event_number_def)
    then show ?thesis using True open_ by (simp add: p ev_acknowledge_def ev_ack_label_def)
  next
    case False
    then have p: "ev_peek c = \<lparr>pe_ordinary = ec_ordinary_ring c ! ec_head c, pe_terminal = None\<rparr>"
      using open_ by (simp add: ev_peek_def)
    with assms obtain a r where "ec_ordinary_ring c ! ec_head c = Ptr a r"
      "unat (er_session_sequence r) = n"
      by (auto simp: event_number_def split: shared_ptr.splits if_splits)
    then show ?thesis using False open_ by (simp add: p ev_acknowledge_def ev_ack_label_def)
  qed
  then show "ev_ack_label (ev_peek c) c = Some n" "fst (ev_acknowledge (ev_peek c) c) \<noteq> EvAckMismatch"
    by blast+
qed

interpretation ev_served: served_channel "ev_servable stream" ev_abs ev_peek "event_number stream"
  "\<lambda>p c. snd (ev_acknowledge p c)" hub_channel_step for stream
proof unfold_locales
  fix c c' :: event_channel and n p
  show "ev_servable stream c' \<and> egress_step (ev_abs c) None (ev_abs c')"
    if "ev_servable stream c" "hub_channel_step c c'"
    by (rule hub_silent [OF that])
  show "ev_peek c' = ev_peek c"
    if "ev_servable stream c" "hub_channel_step c c'" "event_number stream (ev_peek c) \<noteq> None"
      "eg_phase (ev_abs c') \<noteq> Ended"
    using hub_keeps_front [OF that(1,2,3)] that(4) by (simp add: ev_abs_def)
  show "egress_step (ev_abs c) (Some n) (ev_abs (snd (ev_acknowledge (ev_peek c) c)))"
    if "ev_servable stream c" "event_number stream (ev_peek c) = Some n"
    using ev_acknowledge_simulation [of c "ev_peek c"] ev_acknowledge_peeked(1) [OF that(2)] that(1)
    by (simp add: ev_servable_def)
  show "ev_servable stream (snd (ev_acknowledge p c))" if "ev_servable stream c"
    using that ev_acknowledge_simulation [of c p]
    by (simp add: ev_servable_def) (simp add: ev_acknowledge_def ev_ring_pop_locked_def)
qed

section \<open>The event handler\<close>

inductive event_session ::
  "wire_market \<Rightarrow> string
     \<Rightarrow> (peeked_event_publication, event_envelope) server \<times> event_channel
     \<Rightarrow> (peeked_event_publication, event_envelope) server \<times> event_channel \<Rightarrow> bool"
  for market symbol where
  evs_handler: "event_session market symbol (sv, c) (serve_events market symbol w sv c)"
| evs_hub: "hub_channel_step c c' \<Longrightarrow> event_session market symbol (sv, c) (sv, c')"

definition event_session_ok ::
  "wire_stream \<Rightarrow> (peeked_event_publication, event_envelope) server \<times> event_channel \<Rightarrow> bool" where
  "event_session_ok stream st \<longleftrightarrow> (case st of (sv, c) \<Rightarrow>
     ev_served.serving_inv stream (handling_of (sv_phase sv), map envelope_number (sv_written sv), c)
     \<and> (case sv_phase sv of
          SvWrite p item \<Rightarrow> event_number stream p = Some (envelope_number item)
        | SvDone status \<Rightarrow> only_writer_fails ''event subscriber writer test seam failed'' status
        | _ \<Rightarrow> True))"

lemma serve_events_serving:
  assumes ok: "event_session_ok stream (sv, c)" and st: "serve_events market symbol w sv c = (sv', c')"
  shows "ev_served.step stream (handling_of (sv_phase sv), map envelope_number (sv_written sv), c)
      (handling_of (sv_phase sv'), map envelope_number (sv_written sv'), c')
    \<and> (case sv_phase sv' of
          SvWrite p item \<Rightarrow> event_number stream p = Some (envelope_number item)
        | SvDone status \<Rightarrow> only_writer_fails ''event subscriber writer test seam failed'' status
        | _ \<Rightarrow> True)"
proof (cases "sv_phase sv")
  case SvPeek
  have "ev_servable stream c" using ok SvPeek by (simp add: event_session_ok_def ev_served.serving_inv_def)
  then show ?thesis
    using st SvPeek ev_servable_front [of stream c]
    by (auto simp: serve_events_def only_writer_fails_def split: if_splits intro: serving.intros)
next
  case (SvItem p)
  then have "event_number stream p = Some (Suc (length (sv_written sv)))" "ec_stream c = stream"
    using ok by (simp_all add: event_session_ok_def ev_served.serving_inv_def ev_servable_def)
  then obtain item where "materialize_event_envelope_for c p market symbol = Some item"
    "envelope_number item = Suc (length (sv_written sv))"
    using event_materialized [of c p _ market symbol] by auto
  then show ?thesis
    using st SvItem \<open>event_number stream p = _\<close>
    by (auto simp: serve_events_def only_writer_fails_def intro: serving.intros)
next
  case (SvWrite p item)
  then show ?thesis
    using ok st
    by (auto simp: event_session_ok_def serve_events_def only_writer_fails_def split: option.splits
        intro: serving.intros)
next
  case (SvWritten p sent)
  then show ?thesis using st by (auto simp: serve_events_def only_writer_fails_def intro: serving.intros)
next
  case (SvAck p)
  have held: "ev_servable stream c \<and> (eg_phase (ev_abs c) = Ended \<or> ev_peek c = p)"
    using ok SvAck ev_served.sent_in_hand [of stream p _ c] by (simp add: event_session_ok_def)
  have num: "event_number stream p \<noteq> None"
    using ok SvAck by (auto simp: event_session_ok_def ev_served.serving_inv_def)
  show ?thesis
  proof (cases "ec_state c = EvClosed")
    case True
    then have "ev_acknowledge p c = (EvAckClosed, c)" by (simp add: ev_acknowledge_def)
    then show ?thesis using st SvAck by (auto simp: serve_events_def only_writer_fails_def intro: serving.intros)
  next
    case False
    then have "ev_peek c = p" using held by (simp add: ev_abs_def)
    then have "fst (ev_acknowledge p c) \<noteq> EvAckMismatch" "eg_phase (ev_abs c) \<noteq> Ended"
      using ev_acknowledge_peeked [of stream c] num False by (auto simp: ev_abs_def)
    moreover have "c' = snd (ev_acknowledge p c)"
      using st SvAck by (simp add: serve_events_def split: prod.splits)
    ultimately have "ev_served.step stream (Sent p, ws, c) (Over, ws, c')"
      "ev_served.step stream (Sent p, ws, c) (Idle, ws, c')" for ws
      using serving.sg_ack [where ack = "\<lambda>p c. snd (ev_acknowledge p c)"]
        serving.sg_last [where ack = "\<lambda>p c. snd (ev_acknowledge p c)"] by simp_all
    then show ?thesis
      using st SvAck \<open>fst (ev_acknowledge p c) \<noteq> EvAckMismatch\<close>
      by (cases "ev_acknowledge p c") (auto simp: serve_events_def only_writer_fails_def)
  qed
qed (use st ok in \<open>auto simp: serve_events_def only_writer_fails_def event_session_ok_def intro: serving.intros\<close>)

lemma event_session_step:
  assumes "event_session_ok stream st" and "event_session market symbol st st'"
  shows "event_session_ok stream st'"
  using assms(2)
proof cases
  case (evs_handler sv c w)
  obtain sv' c' where st': "serve_events market symbol w sv c = (sv', c')" by fastforce
  have ok: "event_session_ok stream (sv, c)" using assms(1) evs_handler by simp
  note step = serve_events_serving [OF ok st']
  have "ev_served.serving_inv stream (handling_of (sv_phase sv'), map envelope_number (sv_written sv'), c')"
    using ev_served.serving_inv_step [OF _ conjunct1 [OF step]] ok by (simp add: event_session_ok_def)
  then show ?thesis using conjunct2 [OF step] evs_handler st' by (simp add: event_session_ok_def)
next
  case (evs_hub c c' sv)
  have "ev_served.serving_inv stream (handling_of (sv_phase sv), map envelope_number (sv_written sv), c')"
    by (rule ev_served.serving_inv_step [OF _ serving.sg_producer [where producer = hub_channel_step]])
      (use assms(1) evs_hub in \<open>simp_all add: event_session_ok_def\<close>)
  then show ?thesis using assms(1) evs_hub by (simp add: event_session_ok_def)
qed

lemma event_session_run:
  assumes "(event_session market symbol)\<^sup>*\<^sup>* st st'" and "event_session_ok stream st"
  shows "event_session_ok stream st'"
  using assms by (induction rule: rtranclp_induct) (auto intro: event_session_step)

end
