(* ===== verification/GrpcCalls.thy ===== *)
theory GrpcCalls
  imports GrpcService GrpcEvents MarketRegistry
begin

text \<open>
  The subscription RPCs and the shutdown of the service as threads, \<open>SubscribeOrderBook\<close>,
  \<open>SubscribeEvents\<close> and \<open>begin_shutdown\<close> of \<open>src/src/g7/grpc_service.cpp\<close>: one step from one
  access to shared state to the next. The runtimes and event hubs are objects in a store; the
  registry, or the pointers of the single-product constructors, say which of them a request
  reaches. A step of a thread that waits leaves everything as it is.
\<close>

section \<open>Routing\<close>

text \<open>\<open>rg_registry\<close>: the entries of the registry, \<open>None\<close> for the single-product constructors.\<close>

record routing =
  rg_registry :: "market_services list option"
  rg_runtime :: "nat option"
  rg_event_publication :: "nat option"

fun map_admission_error :: "subscription_admission_error \<Rightarrow> grpc_status" where
  "map_admission_error SaNotLive = (GUNAVAILABLE, ''market runtime is not Live/Synchronized'')"
| "map_admission_error SaPendingLimit =
     (GRESOURCE_EXHAUSTED, ''bounded order-book subscription capacity is full'')"
| "map_admission_error SaActiveLimit =
     (GRESOURCE_EXHAUSTED, ''bounded order-book subscription capacity is full'')"
| "map_admission_error SaInvalidDepthLimit = (GINVALID_ARGUMENT, ''invalid depth_limit'')"
| "map_admission_error SaShuttingDown = (GUNAVAILABLE, ''order-book publication is unavailable'')"
| "map_admission_error SaStopped = (GUNAVAILABLE, ''order-book publication is unavailable'')"
| "map_admission_error SaNotStarted = (GUNAVAILABLE, ''order-book publication is unavailable'')"
| "map_admission_error SaClockError = (GINTERNAL, ''order-book subscription admission failed'')"
| "map_admission_error SaIdExhausted = (GINTERNAL, ''order-book subscription admission failed'')"
| "map_admission_error SaInternalError = (GINTERNAL, ''order-book subscription admission failed'')"

fun map_event_admission_error :: "event_subscription_admission_error \<Rightarrow> grpc_status" where
  "map_event_admission_error EvSourceUnavailable = (GUNAVAILABLE, ''event source is unavailable'')"
| "map_event_admission_error EvShuttingDown = (GUNAVAILABLE, ''event source is unavailable'')"
| "map_event_admission_error EvActiveLimit =
     (GRESOURCE_EXHAUSTED, ''bounded event subscription capacity is full'')"
| "map_event_admission_error EvClockError = (GINTERNAL, ''event subscription admission failed'')"
| "map_event_admission_error EvIdExhausted = (GINTERNAL, ''event subscription admission failed'')"
| "map_event_admission_error EvInternalError = (GINTERNAL, ''event subscription admission failed'')"

text \<open>
  The request is validated and its runtime selected: \<open>Inl\<close> is the status to finish with,
  otherwise the runtime, the subscription, and the market and symbol its items carry.
\<close>

definition select_runtime ::
  "routing \<Rightarrow> string \<Rightarrow> order_book_request
     \<Rightarrow> grpc_status + (nat \<times> validated_order_book_subscription \<times> wire_market \<times> string)" where
  "select_runtime route gateway_instance_id request =
     (case (if rg_registry route \<noteq> None then validate_g11_order_book_request request gateway_instance_id
            else validate_order_book_request request gateway_instance_id) of
        Inl ReqInvalidArgument \<Rightarrow>
          Inl (GINVALID_ARGUMENT, ''unsupported or malformed order-book request'')
      | Inl ReqFailedPrecondition \<Rightarrow>
          Inl (GFAILED_PRECONDITION, ''required payload schema negotiation unavailable'')
      | Inr validated \<Rightarrow>
          (case rg_registry route of
             None \<Rightarrow>
               (case rg_runtime route of
                  None \<Rightarrow> Inl (GUNAVAILABLE, ''order-book runtime is unavailable'')
                | Some r \<Rightarrow> Inr (r, validated, MARKET_SPOT, ''BTCUSDT''))
           | Some entries \<Rightarrow>
               (case registry_find entries \<lparr>mk_venue = obr_venue request, mk_market = obr_market request,
                       mk_symbol = obr_symbol request\<rparr> of
                  None \<Rightarrow> Inl (GINVALID_ARGUMENT, ''unsupported order-book market'')
                | Some services \<Rightarrow>
                    (case ms_runtime services of
                       None \<Rightarrow> Inl (GUNAVAILABLE, ''order-book runtime is unavailable'')
                     | Some r \<Rightarrow> Inr (r, validated, mk_market (ms_key services), mk_symbol (ms_key services))))))"

definition select_event_publication ::
  "routing \<Rightarrow> string \<Rightarrow> event_request
     \<Rightarrow> grpc_status + (nat \<times> validated_event_subscription \<times> wire_market \<times> string)" where
  "select_event_publication route gateway_instance_id request =
     (case (if rg_registry route \<noteq> None then validate_g11_event_request request gateway_instance_id
            else validate_event_request request gateway_instance_id) of
        Inl ReqInvalidArgument \<Rightarrow> Inl (GINVALID_ARGUMENT, ''unsupported or malformed event request'')
      | Inl ReqFailedPrecondition \<Rightarrow>
          Inl (GFAILED_PRECONDITION, ''required event payload schema unavailable'')
      | Inr validated \<Rightarrow>
          (case rg_registry route of
             None \<Rightarrow>
               (case rg_event_publication route of
                  None \<Rightarrow> Inl (GUNAVAILABLE, ''G9 event publication is not configured'')
                | Some h \<Rightarrow> Inr (h, validated, MARKET_SPOT, ''BTCUSDT''))
           | Some entries \<Rightarrow>
               (let selector = evr_selectors request ! 0 in
                case registry_find entries \<lparr>mk_venue = sel_venue selector, mk_market = sel_market selector,
                        mk_symbol = sel_symbol selector\<rparr> of
                  None \<Rightarrow> Inl (GINVALID_ARGUMENT, ''unsupported event market'')
                | Some services \<Rightarrow>
                    (case ms_event_publication services of
                       None \<Rightarrow> Inl (GUNAVAILABLE, ''G9 event publication is not configured'')
                     | Some h \<Rightarrow> Inr (h, validated, mk_market (ms_key services), mk_symbol (ms_key services))))))"

section \<open>SubscribeOrderBook\<close>

datatype 's order_book_phase =
    ObBegin
  | ObRequest
  | ObAdmit nat validated_order_book_subscription wire_market string
  | ObAwait nat nat wire_market string
  | ObServe nat nat wire_market string "('s peeked_publication, 's order_book_stream_item) server"
  | ObFinalize grpc_status "(nat \<times> nat) option"
  | ObClose grpc_status nat nat
  | ObNotify grpc_status nat
  | ObReturned grpc_status

text \<open>\<open>obc_arguments\<close>: no pointer argument is null.\<close>

record 's order_book_call =
  obc_context :: nat
  obc_arguments :: bool
  obc_request :: order_book_request
  obc_phase :: "'s order_book_phase"

definition order_book_call_step ::
  "('p, 'g, 's, 'b, 'c) projection_ops \<Rightarrow> routing \<Rightarrow> serve_world \<Rightarrow> 's order_book_call
     \<Rightarrow> grpc_service \<Rightarrow> (nat \<Rightarrow> ('p, 'g, 's) runtime option)
     \<Rightarrow> 's order_book_call \<times> grpc_service \<times> (nat \<Rightarrow> ('p, 'g, 's) runtime option)" where
  "order_book_call_step ops route w call s rts =
     (case obc_phase call of
        ObBegin \<Rightarrow>
          if \<not> obc_arguments call
          then (call\<lparr>obc_phase := ObReturned (GINVALID_ARGUMENT, ''null RPC argument'')\<rparr>, s, rts)
          else (case track_context (obc_context call) s of
             (TrackClosed, s') \<Rightarrow> (call\<lparr>obc_phase := ObReturned
               (GUNAVAILABLE, ''order-book publication is shutting down'')\<rparr>, s', rts)
           | (TrackFull, s') \<Rightarrow> (call\<lparr>obc_phase := ObReturned
               (GRESOURCE_EXHAUSTED, ''bounded G7 handler tracking is full'')\<rparr>, s', rts)
           | (TrackTracked, s') \<Rightarrow> (call\<lparr>obc_phase := ObRequest\<rparr>, s', rts))
      | ObRequest \<Rightarrow>
          (case select_runtime route (gsv_gateway_instance_id s) (obc_request call) of
             Inl status \<Rightarrow> (call\<lparr>obc_phase := ObFinalize status None\<rparr>, s, rts)
           | Inr (r, sub, market, symbol) \<Rightarrow> (call\<lparr>obc_phase := ObAdmit r sub market symbol\<rparr>, s, rts))
      | ObAdmit r sub market symbol \<Rightarrow>
          (case rts r of
             None \<Rightarrow> (call, s, rts)
           | Some rt \<Rightarrow>
               (case admit_begin ops sub rt of
                  (Inl failure, rt') \<Rightarrow>
                    (call\<lparr>obc_phase := ObFinalize (map_admission_error failure) None\<rparr>, s, rts(r \<mapsto> rt'))
                | (Inr i, rt') \<Rightarrow> (call\<lparr>obc_phase := ObAwait r i market symbol\<rparr>, s, rts(r \<mapsto> rt'))))
      | ObAwait r i market symbol \<Rightarrow>
          (case rts r of
             None \<Rightarrow> (call, s, rts)
           | Some rt \<Rightarrow>
               (case admit_finish i rt of
                  None \<Rightarrow> (call, s, rts)
                | Some (Inl failure) \<Rightarrow>
                    (call\<lparr>obc_phase := ObFinalize (map_admission_error failure) None\<rparr>, s, rts)
                | Some (Inr a) \<Rightarrow> (call\<lparr>obc_phase := ObServe r a market symbol start_serving\<rparr>, s, rts)))
      | ObServe r a market symbol sv \<Rightarrow>
          (case sv_phase sv of
             SvDone status \<Rightarrow> (call\<lparr>obc_phase := ObFinalize status (Some (r, a))\<rparr>, s, rts)
           | _ \<Rightarrow>
               (case rts r of
                  None \<Rightarrow> (call, s, rts)
                | Some rt \<Rightarrow>
                    (case rt_heap rt a of
                       None \<Rightarrow> (call, s, rts)
                     | Some c \<Rightarrow>
                         (case serve_order_book market symbol w sv c of
                            (sv', c') \<Rightarrow> (call\<lparr>obc_phase := ObServe r a market symbol sv'\<rparr>, s,
                              rts(r \<mapsto> rt\<lparr>rt_heap := (rt_heap rt)(a \<mapsto> c')\<rparr>))))))
      | ObFinalize status channel \<Rightarrow>
          (case finalize_context (obc_context call) status s of
             None \<Rightarrow> (call, s, rts)
           | Some (status', s') \<Rightarrow>
               (call\<lparr>obc_phase := (case channel of None \<Rightarrow> ObReturned status'
                                    | Some (r, a) \<Rightarrow> ObClose status' r a)\<rparr>, s', rts))
      | ObClose status r a \<Rightarrow>
          (case rts r of
             None \<Rightarrow> (call, s, rts)
           | Some rt \<Rightarrow>
               (case rt_heap rt a of
                  None \<Rightarrow> (call, s, rts)
                | Some c \<Rightarrow> (call\<lparr>obc_phase := ObNotify status r\<rparr>, s,
                    rts(r \<mapsto> rt\<lparr>rt_heap := (rt_heap rt)(a \<mapsto> close_from_writer c)\<rparr>))))
      | ObNotify status r \<Rightarrow>
          (case rts r of
             None \<Rightarrow> (call, s, rts)
           | Some rt \<Rightarrow>
               (call\<lparr>obc_phase := ObReturned status\<rparr>, s, rts(r \<mapsto> notify_subscriber_closed rt)))
      | ObReturned status \<Rightarrow> (call, s, rts))"

section \<open>SubscribeEvents\<close>

datatype event_phase =
    EvBegin
  | EvRequest
  | EvAdmit nat validated_event_subscription wire_market string
  | EvServe nat nat wire_market string "(peeked_event_publication, event_envelope) server"
  | EvFinalize grpc_status "(nat \<times> nat) option"
  | EvClose grpc_status nat nat
  | EvRemove grpc_status nat nat
  | EvReturned grpc_status

record event_call =
  evc_context :: nat
  evc_arguments :: bool
  evc_request :: event_request
  evc_phase :: event_phase

text \<open>The clock reading and the allocations of the hub's \<open>admit\<close>.\<close>

record hub_world =
  hw_clock :: "clock_sample option"
  hw_channel_alloc :: "nat option"
  hw_record_alloc :: "nat option"

definition event_call_step ::
  "routing \<Rightarrow> hub_world \<Rightarrow> serve_world \<Rightarrow> event_call \<Rightarrow> grpc_service
     \<Rightarrow> (nat \<Rightarrow> event_publication option)
     \<Rightarrow> event_call \<times> grpc_service \<times> (nat \<Rightarrow> event_publication option)" where
  "event_call_step route hw w call s hubs =
     (case evc_phase call of
        EvBegin \<Rightarrow>
          if \<not> evc_arguments call
          then (call\<lparr>evc_phase := EvReturned (GINVALID_ARGUMENT, ''null RPC argument'')\<rparr>, s, hubs)
          else (case track_context (evc_context call) s of
             (TrackClosed, s') \<Rightarrow> (call\<lparr>evc_phase := EvReturned
               (GUNAVAILABLE, ''event publication is shutting down'')\<rparr>, s', hubs)
           | (TrackFull, s') \<Rightarrow> (call\<lparr>evc_phase := EvReturned
               (GRESOURCE_EXHAUSTED, ''bounded gRPC handler tracking is full'')\<rparr>, s', hubs)
           | (TrackTracked, s') \<Rightarrow> (call\<lparr>evc_phase := EvRequest\<rparr>, s', hubs))
      | EvRequest \<Rightarrow>
          (case select_event_publication route (gsv_gateway_instance_id s) (evc_request call) of
             Inl status \<Rightarrow> (call\<lparr>evc_phase := EvFinalize status None\<rparr>, s, hubs)
           | Inr (h, sub, market, symbol) \<Rightarrow> (call\<lparr>evc_phase := EvAdmit h sub market symbol\<rparr>, s, hubs))
      | EvAdmit h sub market symbol \<Rightarrow>
          (case hubs h of
             None \<Rightarrow> (call, s, hubs)
           | Some hub \<Rightarrow>
               (case ep_admit (hw_clock hw) (hw_channel_alloc hw) (hw_record_alloc hw) sub hub of
                  (Inl failure, hub') \<Rightarrow>
                    (call\<lparr>evc_phase := EvFinalize (map_event_admission_error failure) None\<rparr>, s,
                     hubs(h \<mapsto> hub'))
                | (Inr a, hub') \<Rightarrow>
                    (call\<lparr>evc_phase := EvServe h a market symbol start_serving\<rparr>, s, hubs(h \<mapsto> hub'))))
      | EvServe h a market symbol sv \<Rightarrow>
          (case sv_phase sv of
             SvDone status \<Rightarrow> (call\<lparr>evc_phase := EvFinalize status (Some (h, a))\<rparr>, s, hubs)
           | _ \<Rightarrow>
               (case hubs h of
                  None \<Rightarrow> (call, s, hubs)
                | Some hub \<Rightarrow>
                    (case ep_store hub a of
                       None \<Rightarrow> (call, s, hubs)
                     | Some c \<Rightarrow>
                         (case serve_events market symbol w sv c of
                            (sv', c') \<Rightarrow> (call\<lparr>evc_phase := EvServe h a market symbol sv'\<rparr>, s,
                              hubs(h \<mapsto> hub\<lparr>ep_store := (ep_store hub)(a \<mapsto> c')\<rparr>))))))
      | EvFinalize status channel \<Rightarrow>
          (case finalize_context (evc_context call) status s of
             None \<Rightarrow> (call, s, hubs)
           | Some (status', s') \<Rightarrow>
               (call\<lparr>evc_phase := (case channel of None \<Rightarrow> EvReturned status'
                                    | Some (h, a) \<Rightarrow> EvClose status' h a)\<rparr>, s', hubs))
      | EvClose status h a \<Rightarrow>
          (case hubs h of
             None \<Rightarrow> (call, s, hubs)
           | Some hub \<Rightarrow>
               (case ep_store hub a of
                  None \<Rightarrow> (call, s, hubs)
                | Some c \<Rightarrow> (call\<lparr>evc_phase := EvRemove status h a\<rparr>, s,
                    hubs(h \<mapsto> hub\<lparr>ep_store := (ep_store hub)(a \<mapsto> ev_close_from_writer c)\<rparr>))))
      | EvRemove status h a \<Rightarrow>
          (case hubs h of
             None \<Rightarrow> (call, s, hubs)
           | Some hub \<Rightarrow>
               (call\<lparr>evc_phase := EvReturned status\<rparr>, s, hubs(h \<mapsto> ep_remove (Some a) hub)))
      | EvReturned status \<Rightarrow> (call, s, hubs))"

section \<open>begin_shutdown\<close>

datatype shutdown_phase =
    SdClaim | SdStopStatus | SdCloseAdmission "nat list" | SdShutdownPublication "nat list"
  | SdAwaitPublication nat "nat list" | SdShutdownHubs "nat list" | SdSnapshot
  | SdTryCancel "nat list" | SdRelease | SdFinished

text \<open>
  The runtimes and hubs of the registry in its order, or the single product's. The contexts that
  were cancelled so far are recorded in the last component.
\<close>

record shutdown_thread =
  sdt_runtimes :: "nat list"
  sdt_hubs :: "nat list"
  sdt_phase :: shutdown_phase
  sdt_cancelled :: "nat list"

definition shutdown_thread_step ::
  "shutdown_thread \<Rightarrow> grpc_service \<Rightarrow> (nat \<Rightarrow> ('p, 'g, 's) runtime option) \<Rightarrow> (nat \<Rightarrow> event_publication option)
     \<Rightarrow> shutdown_thread \<times> grpc_service \<times> (nat \<Rightarrow> ('p, 'g, 's) runtime option)
          \<times> (nat \<Rightarrow> event_publication option)" where
  "shutdown_thread_step th s rts hubs =
     (case sdt_phase th of
        SdClaim \<Rightarrow>
          (case shutdown_claim s of
             (won, s') \<Rightarrow> (th\<lparr>sdt_phase := (if won then SdStopStatus else SdFinished)\<rparr>, s', rts, hubs))
      | SdStopStatus \<Rightarrow>
          (th\<lparr>sdt_phase := SdCloseAdmission (sdt_runtimes th)\<rparr>, shutdown_stop_status s, rts, hubs)
      | SdCloseAdmission [] \<Rightarrow> (th\<lparr>sdt_phase := SdShutdownPublication (sdt_runtimes th)\<rparr>, s, rts, hubs)
      | SdCloseAdmission (r # rs) \<Rightarrow>
          (th\<lparr>sdt_phase := SdCloseAdmission rs\<rparr>, s,
           rts(r := map_option close_publication_admission (rts r)), hubs)
      | SdShutdownPublication [] \<Rightarrow> (th\<lparr>sdt_phase := SdShutdownHubs (sdt_hubs th)\<rparr>, s, rts, hubs)
      | SdShutdownPublication (r # rs) \<Rightarrow>
          (case rts r of
             None \<Rightarrow> (th, s, rts, hubs)
           | Some rt \<Rightarrow>
               (case shutdown_begin rt of
                  (Inl _, rt') \<Rightarrow> (th\<lparr>sdt_phase := SdShutdownPublication rs\<rparr>, s, rts(r \<mapsto> rt'), hubs)
                | (Inr _, rt') \<Rightarrow> (th\<lparr>sdt_phase := SdAwaitPublication r rs\<rparr>, s, rts(r \<mapsto> rt'), hubs)))
      | SdAwaitPublication r rs \<Rightarrow>
          (case rts r of
             None \<Rightarrow> (th, s, rts, hubs)
           | Some rt \<Rightarrow>
               (if shutdown_finish rt = None then (th, s, rts, hubs)
                else (th\<lparr>sdt_phase := SdShutdownPublication rs\<rparr>, s, rts, hubs)))
      | SdShutdownHubs [] \<Rightarrow> (th\<lparr>sdt_phase := SdSnapshot\<rparr>, s, rts, hubs)
      | SdShutdownHubs (h # hs) \<Rightarrow>
          (th\<lparr>sdt_phase := SdShutdownHubs hs\<rparr>, s, rts, hubs(h := map_option ep_shutdown (hubs h)))
      | SdSnapshot \<Rightarrow>
          (case shutdown_snapshot s of
             (contexts, s') \<Rightarrow> (th\<lparr>sdt_phase := SdTryCancel contexts\<rparr>, s', rts, hubs))
      | SdTryCancel [] \<Rightarrow> (th\<lparr>sdt_phase := SdRelease\<rparr>, s, rts, hubs)
      | SdTryCancel (k # ks) \<Rightarrow>
          (th\<lparr>sdt_phase := SdTryCancel ks, sdt_cancelled := sdt_cancelled th @ [k]\<rparr>, s, rts, hubs)
      | SdRelease \<Rightarrow> (th\<lparr>sdt_phase := SdFinished\<rparr>, shutdown_release s, rts, hubs)
      | SdFinished \<Rightarrow> (th, s, rts, hubs))"

end
