(* ===== verification/GrpcGateway.thy ===== *)
theory GrpcGateway
  imports GrpcCalls
begin

text \<open>
  All threads of the gRPC service together: any number of subscription calls, the thread that shuts
  the service down, status calls, and everything else that happens to the runtimes and hubs
  (\<open>gw_world\<close>). The composition refines the protocol \<open>service_step\<close> of GrpcService, which
  carries the invariants.
\<close>

datatype 's rpc_call = OrderBookCall "'s order_book_call" | EventCall event_call

type_synonym ('p, 'g, 's) gateway =
  "grpc_service \<times> (nat \<Rightarrow> 's rpc_call) \<times> shutdown_thread
     \<times> (nat \<Rightarrow> ('p, 'g, 's) runtime option) \<times> (nat \<Rightarrow> event_publication option)"

inductive gateway_step ::
  "('p, 'g, 's, 'b, 'c) projection_ops \<Rightarrow> routing \<Rightarrow> ('p, 'g, 's) gateway \<Rightarrow> ('p, 'g, 's) gateway \<Rightarrow> bool"
  for ops route where
  gw_order_book: "calls k = OrderBookCall call
    \<Longrightarrow> order_book_call_step ops route w call s rts = (call', s', rts')
    \<Longrightarrow> gateway_step ops route (s, calls, th, rts, hubs)
          (s', calls(k := OrderBookCall call'), th, rts', hubs)"
| gw_events: "calls k = EventCall call
    \<Longrightarrow> event_call_step route hw w call s hubs = (call', s', hubs')
    \<Longrightarrow> gateway_step ops route (s, calls, th, rts, hubs)
          (s', calls(k := EventCall call'), th, rts, hubs')"
| gw_shutdown: "shutdown_thread_step th s rts hubs = (th', s', rts', hubs')
    \<Longrightarrow> gateway_step ops route (s, calls, th, rts, hubs) (s', calls, th', rts', hubs')"
| gw_status_begin: "status_call_begin arguments request s = (answer, s')
    \<Longrightarrow> gateway_step ops route (s, calls, th, rts, hubs) (s', calls, th, rts, hubs)"
| gw_status_end: "gateway_step ops route (s, calls, th, rts, hubs) (release_status_slot s, calls, th, rts, hubs)"
| gw_world: "gateway_step ops route (s, calls, th, rts, hubs) (s, calls, th, rts', hubs')"

definition call_begins :: "nat \<Rightarrow> 's rpc_call \<Rightarrow> bool" where
  "call_begins k call \<longleftrightarrow>
     (case call of
        OrderBookCall c \<Rightarrow> obc_context c = k \<and> obc_phase c = ObBegin
      | EventCall c \<Rightarrow> evc_context c = k \<and> evc_phase c = EvBegin)"

definition gateway_init :: "('p, 'g, 's) gateway \<Rightarrow> bool" where
  "gateway_init g \<longleftrightarrow> (case g of (s, calls, th, rts, hubs) \<Rightarrow>
     (\<exists>gateway_instance_id idle_interval maximum ids status_clock.
        make_grpc_service gateway_instance_id idle_interval maximum ids status_clock = Some s)
     \<and> (\<forall>k. call_begins k (calls k)) \<and> sdt_phase th = SdClaim \<and> sdt_cancelled th = [])"

section \<open>What a call is to the service\<close>

fun order_book_rpc :: "'s order_book_phase \<Rightarrow> rpc_state" where
  "order_book_rpc ObBegin = RpcNotBegun"
| "order_book_rpc (ObReturned status) = RpcReturned (fst status)"
| "order_book_rpc (ObClose status _ _) = RpcReturned (fst status)"
| "order_book_rpc (ObNotify status _) = RpcReturned (fst status)"
| "order_book_rpc _ = RpcRunning"

fun event_rpc :: "event_phase \<Rightarrow> rpc_state" where
  "event_rpc EvBegin = RpcNotBegun"
| "event_rpc (EvReturned status) = RpcReturned (fst status)"
| "event_rpc (EvClose status _ _) = RpcReturned (fst status)"
| "event_rpc (EvRemove status _ _) = RpcReturned (fst status)"
| "event_rpc _ = RpcRunning"

fun rpc_of :: "'s rpc_call \<Rightarrow> rpc_state" where
  "rpc_of (OrderBookCall c) = order_book_rpc (obc_phase c)"
| "rpc_of (EventCall c) = event_rpc (evc_phase c)"

fun rpc_context :: "'s rpc_call \<Rightarrow> nat" where
  "rpc_context (OrderBookCall c) = obc_context c"
| "rpc_context (EventCall c) = evc_context c"

abbreviation service_steps :: "service_state \<Rightarrow> service_state \<Rightarrow> bool" where
  "service_steps \<equiv> service_step\<^sup>=\<^sup>="

lemma track_refused: "track_context k s = (refusal, s') \<Longrightarrow> refusal \<noteq> TrackTracked \<Longrightarrow> s' = s"
  by (auto simp: track_context_def split: if_splits)

text \<open>A step of a call is silent to the service, or begins it, refuses it, or ends it.\<close>

definition call_effect ::
  "nat \<Rightarrow> grpc_service \<Rightarrow> rpc_state \<Rightarrow> grpc_service \<Rightarrow> rpc_state \<Rightarrow> bool" where
  "call_effect k s r s' r' \<longleftrightarrow> s' = s \<and> r' = r
     \<or> r = RpcNotBegun \<and> track_context k s = (TrackTracked, s') \<and> r' = RpcRunning
     \<or> r = RpcNotBegun \<and> s' = s \<and> (\<exists>code. r' = RpcReturned code \<and> code \<noteq> GOK)
     \<or> r = RpcRunning \<and> (\<exists>proposed status. finalize_context k proposed s = Some (status, s')
           \<and> r' = RpcReturned (fst status))"

lemma call_effect_service:
  assumes "call_effect k s (calls k) s' r'"
  shows "service_steps (s, calls, cancelled) (s', calls(k := r'), cancelled)"
  using assms unfolding call_effect_def
proof (elim disjE conjE exE)
  assume "calls k = RpcNotBegun" "track_context k s = (TrackTracked, s')" "r' = RpcRunning"
  then show ?thesis using sv_track [of calls k s s' cancelled] by simp
next
  fix code assume "calls k = RpcNotBegun" "s' = s" "r' = RpcReturned code" "code \<noteq> GOK"
  then show ?thesis using sv_refuse [of calls k code s cancelled] by simp
next
  fix proposed status
  assume "calls k = RpcRunning" "finalize_context k proposed s = Some (status, s')" "r' = RpcReturned (fst status)"
  then show ?thesis using sv_finalize [of calls k proposed s status s' cancelled] by simp
qed simp

lemma finalize_effect:
  "finalize_context k proposed s = Some (status, s') \<Longrightarrow> call_effect k s RpcRunning s' (RpcReturned (fst status))"
  unfolding call_effect_def by blast

lemma silent_effect [simp]: "call_effect k s r s r"
  by (simp add: call_effect_def)

lemma order_book_call_effect:
  assumes "order_book_call_step ops route w call s rts = (call', s', rts')"
  shows "obc_context call' = obc_context call"
    and "call_effect (obc_context call) s (order_book_rpc (obc_phase call)) s' (order_book_rpc (obc_phase call'))"
proof -
  have "obc_context call' = obc_context call \<and>
    call_effect (obc_context call) s (order_book_rpc (obc_phase call)) s' (order_book_rpc (obc_phase call'))"
  proof (cases "obc_phase call")
    case ObBegin
    then show ?thesis
      using assms
      by (auto simp: order_book_call_step_def call_effect_def dest: track_refused
          split: if_splits prod.splits track_result.splits)
  next
    case ObRequest
    then show ?thesis
      using assms by (auto simp: order_book_call_step_def call_effect_def split: sum.splits prod.splits)
  next
    case ObAdmit
    then show ?thesis
      using assms
      by (auto simp: order_book_call_step_def call_effect_def split: option.splits sum.splits prod.splits)
  next
    case ObAwait
    then show ?thesis
      using assms
      by (auto simp: order_book_call_step_def call_effect_def split: option.splits sum.splits)
  next
    case (ObServe r a market symbol sv)
    then show ?thesis
      using assms
      by (cases "sv_phase sv")
        (auto simp: order_book_call_step_def call_effect_def split: option.splits prod.splits)
  next
    case (ObFinalize status channel)
    show ?thesis
    proof (cases "finalize_context (obc_context call) status s")
      case None
      then show ?thesis using assms ObFinalize by (simp add: order_book_call_step_def)
    next
      case (Some result)
      obtain status' s'' where "result = (status', s'')" by fastforce
      with Some have final: "finalize_context (obc_context call) status s = Some (status', s'')" by simp
      then show ?thesis
        using assms ObFinalize finalize_effect [OF final] by (cases channel) (auto simp: order_book_call_step_def)
    qed
  next
    case ObClose
    then show ?thesis
      using assms by (auto simp: order_book_call_step_def call_effect_def split: option.splits)
  next
    case ObNotify
    then show ?thesis
      using assms by (auto simp: order_book_call_step_def call_effect_def split: option.splits)
  next
    case ObReturned
    then show ?thesis using assms by (auto simp: order_book_call_step_def call_effect_def)
  qed
  then show "obc_context call' = obc_context call"
    "call_effect (obc_context call) s (order_book_rpc (obc_phase call)) s' (order_book_rpc (obc_phase call'))"
    by blast+
qed

lemma event_call_effect:
  assumes "event_call_step route hw w call s hubs = (call', s', hubs')"
  shows "evc_context call' = evc_context call"
    and "call_effect (evc_context call) s (event_rpc (evc_phase call)) s' (event_rpc (evc_phase call'))"
proof -
  have "evc_context call' = evc_context call \<and>
    call_effect (evc_context call) s (event_rpc (evc_phase call)) s' (event_rpc (evc_phase call'))"
  proof (cases "evc_phase call")
    case EvBegin
    then show ?thesis
      using assms
      by (auto simp: event_call_step_def call_effect_def dest: track_refused
          split: if_splits prod.splits track_result.splits)
  next
    case EvRequest
    then show ?thesis
      using assms by (auto simp: event_call_step_def call_effect_def split: sum.splits prod.splits)
  next
    case EvAdmit
    then show ?thesis
      using assms
      by (auto simp: event_call_step_def call_effect_def split: option.splits sum.splits prod.splits)
  next
    case (EvServe r a market symbol sv)
    then show ?thesis
      using assms
      by (cases "sv_phase sv")
        (auto simp: event_call_step_def call_effect_def split: option.splits prod.splits)
  next
    case (EvFinalize status channel)
    show ?thesis
    proof (cases "finalize_context (evc_context call) status s")
      case None
      then show ?thesis using assms EvFinalize by (simp add: event_call_step_def)
    next
      case (Some result)
      obtain status' s'' where "result = (status', s'')" by fastforce
      with Some have final: "finalize_context (evc_context call) status s = Some (status', s'')" by simp
      then show ?thesis
        using assms EvFinalize finalize_effect [OF final] by (cases channel) (auto simp: event_call_step_def)
    qed
  next
    case EvClose
    then show ?thesis
      using assms by (auto simp: event_call_step_def call_effect_def split: option.splits)
  next
    case EvRemove
    then show ?thesis
      using assms by (auto simp: event_call_step_def call_effect_def split: option.splits)
  next
    case EvReturned
    then show ?thesis using assms by (auto simp: event_call_step_def call_effect_def)
  qed
  then show "evc_context call' = evc_context call"
    "call_effect (evc_context call) s (event_rpc (evc_phase call)) s' (event_rpc (evc_phase call'))"
    by blast+
qed

section \<open>The gateway refines the service protocol\<close>

fun service_view :: "('p, 'g, 's) gateway \<Rightarrow> service_state" where
  "service_view (s, calls, th, rts, hubs) = (s, (\<lambda>k. rpc_of (calls k)), set (sdt_cancelled th))"

text \<open>Where the shutdown thread is, and what it has left to do.\<close>

definition thread_inv :: "grpc_service \<Rightarrow> (nat \<Rightarrow> rpc_state) \<Rightarrow> shutdown_thread \<Rightarrow> bool" where
  "thread_inv s calls th \<longleftrightarrow>
     (gsv_shutdown_started s \<longleftrightarrow> sdt_phase th \<noteq> SdClaim)
   \<and> (gsv_cancellation_snapshot_active s \<longleftrightarrow> (\<exists>ks. sdt_phase th = SdTryCancel ks) \<or> sdt_phase th = SdRelease)
   \<and> (\<forall>ks. sdt_phase th = SdTryCancel ks \<longrightarrow> set ks \<subseteq> tc_context ` set (gsv_contexts s)
        \<and> (\<forall>k. calls k = RpcRunning \<longrightarrow> k \<in> set ks \<union> set (sdt_cancelled th)))
   \<and> (sdt_phase th = SdRelease \<or> sdt_phase th = SdFinished \<longrightarrow>
        (\<forall>k. calls k = RpcRunning \<longrightarrow> k \<in> set (sdt_cancelled th)))"

definition gateway_inv :: "('p, 'g, 's) gateway \<Rightarrow> bool" where
  "gateway_inv g \<longleftrightarrow> service_inv (service_view g) \<and> cancelled_inv (service_view g)
     \<and> (case g of (s, calls, th, rts, hubs) \<Rightarrow>
          (\<forall>k. rpc_context (calls k) = k) \<and> thread_inv s (\<lambda>k. rpc_of (calls k)) th)"

lemma service_steps_inv:
  assumes "service_inv st" and "cancelled_inv st" and "service_steps st st'"
  shows "service_inv st' \<and> cancelled_inv st'"
  using assms service_inv_step cancelled_inv_step by blast

lemma call_effect_cases:
  assumes "call_effect k s r s' r'"
  obtains (silent) "s' = s" "r' = RpcRunning \<Longrightarrow> r = RpcRunning"
  | (track) "gsv_admission_open s" "\<exists>e. s' = s\<lparr>gsv_contexts := gsv_contexts s @ [e]\<rparr>"
  | (final) "\<not> gsv_cancellation_snapshot_active s" "r' \<noteq> RpcRunning"
      "s' = s\<lparr>gsv_contexts := erase_context k (gsv_contexts s)\<rparr>"
  using assms unfolding call_effect_def
proof (elim disjE conjE exE)
  assume "track_context k s = (TrackTracked, s')"
  then show ?thesis by (intro track) (auto simp: track_context_def split: if_splits)
next
  fix proposed status
  assume fin: "finalize_context k proposed s = Some (status, s')" and "r' = RpcReturned (fst status)"
  then show ?thesis using finalize_context_eq [OF fin] by (intro final) simp_all
qed (auto intro: silent)

lemma call_effect_flags:
  assumes "call_effect k s r s' r'"
  shows "gsv_shutdown_started s' = gsv_shutdown_started s"
    and "gsv_cancellation_snapshot_active s' = gsv_cancellation_snapshot_active s"
    and "r' = RpcRunning \<Longrightarrow> r = RpcRunning \<or> gsv_admission_open s"
    and "gsv_cancellation_snapshot_active s \<Longrightarrow> s' = s \<or> gsv_admission_open s"
  using assms by (cases rule: call_effect_cases; auto)+

lemma thread_inv_call:
  assumes "service_inv (s, calls, cancelled)" and "thread_inv s calls th"
    and "call_effect k s (calls k) s' r'"
  shows "thread_inv s' (calls(k := r')) th"
proof (cases "gsv_shutdown_started s")
  case False
  then have "sdt_phase th = SdClaim" using assms(2) by (simp add: thread_inv_def)
  then show ?thesis
    using assms(2) call_effect_flags(1,2) [OF assms(3)] by (simp add: thread_inv_def)
next
  case True
  then have closed: "\<not> gsv_admission_open s" using assms(1) by (simp add: service_inv_def)
  have "(calls(k := r')) j = RpcRunning \<Longrightarrow> calls j = RpcRunning" for j
    using call_effect_flags(3) [OF assms(3)] closed by (cases "j = k") auto
  moreover have "gsv_cancellation_snapshot_active s \<Longrightarrow> gsv_contexts s' = gsv_contexts s"
    using call_effect_flags(4) [OF assms(3)] closed by auto
  ultimately show ?thesis
    using assms(2) call_effect_flags(1,2) [OF assms(3)] unfolding thread_inv_def by metis
qed

lemma rpc_of_upd: "(\<lambda>k. rpc_of ((calls(j := c)) k)) = (\<lambda>k. rpc_of (calls k))(j := rpc_of c)"
  by auto

lemma gateway_invD:
  assumes "gateway_inv (s, calls, th, rts, hubs)"
  shows "service_inv (s, \<lambda>k. rpc_of (calls k), set (sdt_cancelled th))"
    and "cancelled_inv (s, \<lambda>k. rpc_of (calls k), set (sdt_cancelled th))"
    and "thread_inv s (\<lambda>k. rpc_of (calls k)) th"
    and "rpc_context (calls k) = k"
  using assms by (simp_all add: gateway_inv_def)

text \<open>It suffices that the service takes a step or stays, and the thread keeps its place.\<close>

lemma gateway_invI:
  assumes "gateway_inv (s, calls, th, rts, hubs)"
    and "service_steps (s, \<lambda>k. rpc_of (calls k), set (sdt_cancelled th))
      (s', \<lambda>k. rpc_of (calls' k), set (sdt_cancelled th'))"
    and "thread_inv s' (\<lambda>k. rpc_of (calls' k)) th'" and "\<And>k. rpc_context (calls' k) = k"
  shows "gateway_inv (s', calls', th', rts', hubs')"
  using service_steps_inv [OF gateway_invD(1,2) [OF assms(1)] assms(2)] assms(3,4)
  by (simp add: gateway_inv_def)

lemma gateway_call_inv:
  assumes inv: "gateway_inv (s, calls, th, rts, hubs)"
    and eff: "call_effect k s (rpc_of (calls k)) s' (rpc_of call')" and "rpc_context call' = k"
  shows "gateway_inv (s', calls(k := call'), th, rts', hubs')"
proof -
  let ?calls = "\<lambda>k. rpc_of (calls k)"
  show ?thesis
  proof (rule gateway_invI [OF inv])
    show "service_steps (s, ?calls, set (sdt_cancelled th))
        (s', \<lambda>j. rpc_of ((calls(k := call')) j), set (sdt_cancelled th))"
      unfolding rpc_of_upd by (rule call_effect_service) (use eff in simp)
    show "thread_inv s' (\<lambda>j. rpc_of ((calls(k := call')) j)) th"
      unfolding rpc_of_upd
      by (rule thread_inv_call [OF gateway_invD(1,3) [OF inv]]) (use eff in simp)
    show "rpc_context ((calls(k := call')) j) = j" for j
      using assms(3) gateway_invD(4) [OF inv] by simp
  qed
qed

text \<open>The steps of the shutdown thread that the service sees, and what they leave for the rest.\<close>

lemma shutdown_thread_service:
  assumes "service_inv (s, calls, set (sdt_cancelled th))" and "thread_inv s calls th"
    and "shutdown_thread_step th s rts hubs = (th', s', rts', hubs')"
  shows "service_steps (s, calls, set (sdt_cancelled th)) (s', calls, set (sdt_cancelled th'))
    \<and> thread_inv s' calls th'"
proof (cases "sdt_phase th")
  case SdClaim
  then have "\<not> gsv_shutdown_started s" using assms(2) by (simp add: thread_inv_def)
  then have claim: "shutdown_claim s = (True, s\<lparr>gsv_shutdown_started := True, gsv_admission_open := False\<rparr>)"
    by (simp add: shutdown_claim_def)
  then have "s' = s\<lparr>gsv_shutdown_started := True, gsv_admission_open := False\<rparr>"
    "th' = th\<lparr>sdt_phase := SdStopStatus\<rparr>"
    using assms(3) SdClaim by (simp_all add: shutdown_thread_step_def)
  then show ?thesis
    using sv_claim [OF claim, of calls] assms(2) SdClaim by (simp add: thread_inv_def)
next
  case SdStopStatus
  then have "gsv_shutdown_started s" using assms(2) by (simp add: thread_inv_def)
  then show ?thesis
    using sv_stop_status [of s calls] assms(2,3) SdStopStatus
    by (auto simp: shutdown_thread_step_def thread_inv_def shutdown_stop_status_def)
next
  case (SdCloseAdmission rs)
  then show ?thesis
    using assms(2,3) by (cases rs) (auto simp: shutdown_thread_step_def thread_inv_def)
next
  case (SdShutdownPublication rs)
  then show ?thesis
    using assms(2,3)
    by (cases rs) (auto simp: shutdown_thread_step_def thread_inv_def split: option.splits prod.splits sum.splits)
next
  case (SdAwaitPublication r rs)
  then show ?thesis
    using assms(2,3) by (auto simp: shutdown_thread_step_def thread_inv_def split: option.splits if_splits)
next
  case (SdShutdownHubs rs)
  then show ?thesis
    using assms(2,3) by (cases rs) (auto simp: shutdown_thread_step_def thread_inv_def)
next
  case SdSnapshot
  then have started: "gsv_shutdown_started s" using assms(2) by (simp add: thread_inv_def)
  obtain contexts s'' where snap: "shutdown_snapshot s = (contexts, s'')" by fastforce
  then have s'': "contexts = map tc_context (gsv_contexts s)" "gsv_shutdown_started s''"
    "gsv_cancellation_snapshot_active s''"
    "tc_context ` set (gsv_contexts s'') = tc_context ` set (gsv_contexts s)"
    using started by (auto simp: shutdown_snapshot_def image_image)
  have "s' = s''" "th' = th\<lparr>sdt_phase := SdTryCancel contexts\<rparr>"
    using assms(3) SdSnapshot snap by (simp_all add: shutdown_thread_step_def)
  then show ?thesis
    using sv_snapshot [OF started snap, of calls] s'' assms(1)
    by (auto simp: thread_inv_def service_inv_def)
next
  case (SdTryCancel ks)
  show ?thesis
  proof (cases ks)
    case Nil
    then show ?thesis using assms(2,3) SdTryCancel by (auto simp: shutdown_thread_step_def thread_inv_def)
  next
    case (Cons k rest)
    then have *: "gsv_cancellation_snapshot_active s" "k \<in> tc_context ` set (gsv_contexts s)"
      using assms(2) SdTryCancel by (auto simp: thread_inv_def)
    have "s' = s" "th' = th\<lparr>sdt_phase := SdTryCancel rest, sdt_cancelled := sdt_cancelled th @ [k]\<rparr>"
      using assms(3) SdTryCancel Cons by (simp_all add: shutdown_thread_step_def)
    then show ?thesis
      using sv_cancel [OF *, of calls "set (sdt_cancelled th)"] assms(2) SdTryCancel Cons
      by (auto simp: thread_inv_def)
  qed
next
  case SdRelease
  then have "gsv_cancellation_snapshot_active s" using assms(2) by (simp add: thread_inv_def)
  then show ?thesis
    using sv_release [of s calls] assms(2,3) SdRelease
    by (auto simp: shutdown_thread_step_def thread_inv_def shutdown_release_def)
next
  case SdFinished
  then show ?thesis using assms(2,3) by (simp add: shutdown_thread_step_def)
qed

lemma thread_inv_frame:
  assumes "thread_inv s calls th" and "gsv_contexts s' = gsv_contexts s"
    and "gsv_shutdown_started s' = gsv_shutdown_started s"
    and "gsv_cancellation_snapshot_active s' = gsv_cancellation_snapshot_active s"
  shows "thread_inv s' calls th"
  using assms by (simp add: thread_inv_def)

lemma gateway_inv_step:
  assumes "gateway_inv g" and "gateway_step ops route g g'"
  shows "gateway_inv g'"
  using assms(2)
proof cases
  case (gw_order_book calls k call w s rts call' s' rts' th hubs)
  have inv: "gateway_inv (s, calls, th, rts, hubs)" using assms(1) gw_order_book by simp
  have "obc_context call = k" using gateway_invD(4) [OF inv, of k] gw_order_book by simp
  then show ?thesis
    using gateway_call_inv [OF inv, of k s' "OrderBookCall call'"] gw_order_book
      order_book_call_effect [OF gw_order_book(4)] by simp
next
  case (gw_events calls k call hw w s hubs call' s' hubs' th rts)
  have inv: "gateway_inv (s, calls, th, rts, hubs)" using assms(1) gw_events by simp
  have "evc_context call = k" using gateway_invD(4) [OF inv, of k] gw_events by simp
  then show ?thesis
    using gateway_call_inv [OF inv, of k s' "EventCall call'"] gw_events
      event_call_effect [OF gw_events(4)] by simp
next
  case (gw_shutdown th s rts hubs th' s' rts' hubs' calls)
  have inv: "gateway_inv (s, calls, th, rts, hubs)" using assms(1) gw_shutdown by simp
  note step = shutdown_thread_service [OF gateway_invD(1,3) [OF inv] gw_shutdown(3)]
  show ?thesis
    unfolding gw_shutdown(2)
    by (rule gateway_invI [OF inv conjunct1 [OF step] conjunct2 [OF step] gateway_invD(4) [OF inv]])
next
  case (gw_status_begin arguments request s answer s' calls th rts hubs)
  have inv: "gateway_inv (s, calls, th, rts, hubs)" using assms(1) gw_status_begin by simp
  have frame: "gsv_contexts s' = gsv_contexts s" "gsv_shutdown_started s' = gsv_shutdown_started s"
      "gsv_cancellation_snapshot_active s' = gsv_cancellation_snapshot_active s"
    using gw_status_begin(3) by (auto simp: status_call_begin_def split: if_splits)
  show ?thesis
    unfolding gw_status_begin(2)
  proof (rule gateway_invI [OF inv])
    show "service_steps (s, \<lambda>k. rpc_of (calls k), set (sdt_cancelled th))
        (s', \<lambda>k. rpc_of (calls k), set (sdt_cancelled th))"
      using sv_status_begin [OF gw_status_begin(3)] by simp
  qed (rule thread_inv_frame [OF gateway_invD(3) [OF inv] frame], rule gateway_invD(4) [OF inv])
next
  case (gw_status_end s calls th rts hubs)
  have inv: "gateway_inv (s, calls, th, rts, hubs)" using assms(1) gw_status_end by simp
  show ?thesis
    unfolding gw_status_end(2)
  proof (rule gateway_invI [OF inv])
    show "service_steps (s, \<lambda>k. rpc_of (calls k), set (sdt_cancelled th))
        (release_status_slot s, \<lambda>k. rpc_of (calls k), set (sdt_cancelled th))"
      using sv_status_end by simp
    show "thread_inv (release_status_slot s) (\<lambda>k. rpc_of (calls k)) th"
      by (rule thread_inv_frame [OF gateway_invD(3) [OF inv]]) (simp_all add: release_status_slot_def)
  qed (rule gateway_invD(4) [OF inv])
next
  case gw_world
  then show ?thesis using assms(1) by (simp add: gateway_inv_def)
qed

lemma gateway_inv_init:
  assumes "gateway_init g"
  shows "gateway_inv g"
proof -
  obtain s calls th rts hubs where g: "g = (s, calls, th, rts, hubs)" by (metis prod_cases5)
  have begins: "call_begins k (calls k)" for k using assms g by (simp add: gateway_init_def)
  have calls: "rpc_context (calls k) = k \<and> rpc_of (calls k) = RpcNotBegun" for k
    using begins [of k] by (auto simp: call_begins_def split: rpc_call.splits)
  obtain gid idle maximum ids clock where "make_grpc_service gid idle maximum ids clock = Some s"
    and th: "sdt_phase th = SdClaim" "sdt_cancelled th = []"
    using assms g by (auto simp: gateway_init_def)
  note s = make_grpc_service_fresh [OF this(1)]
  show ?thesis
    using s th calls by (simp add: g gateway_inv_def service_inv_def cancelled_inv_def thread_inv_def)
qed

interpretation gateway: invariant_system gateway_init "gateway_step ops route" gateway_inv for ops route
  using gateway_inv_init gateway_inv_step by unfold_locales blast+

end
