(* ===== verification/GrpcShape.thy ===== *)
theory GrpcShape
  imports GrpcStreams
begin

text \<open>
  What an order-book stream looks like, item by item: which kind of item a session number can
  carry, and that a consumer gap ends the stream.
\<close>

section \<open>Kinds and numbers\<close>

fun expected_kind :: "nat \<Rightarrow> 's order_book_item_payload \<Rightarrow> bool" where
  "expected_kind n (ItemAccepted _) \<longleftrightarrow> n = 1"
| "expected_kind n (ItemSnapshot _) \<longleftrightarrow> n = 2"
| "expected_kind n (ItemDepthUpdate _) \<longleftrightarrow> 3 \<le> n"
| "expected_kind n (ItemConsumerGap _) \<longleftrightarrow> 3 \<le> n"

definition item_kind_ok :: "'s order_book_stream_item \<Rightarrow> bool" where
  "item_kind_ok item \<longleftrightarrow> expected_kind (item_number item) (osi_payload item)"

definition record_kind_ok :: "'s publication_record \<Rightarrow> bool" where
  "record_kind_ok r \<longleftrightarrow>
     (case pr_payload r of
        PayloadAccepted _ \<Rightarrow> unat (pr_session_sequence r) = 1
      | PayloadSnapshot _ \<Rightarrow> unat (pr_session_sequence r) = 2
      | PayloadUpdate _ \<Rightarrow> 3 \<le> unat (pr_session_sequence r))"

definition terminal_kind_ok :: "terminal_descriptor option \<Rightarrow> bool" where
  "terminal_kind_ok t \<longleftrightarrow> (case t of None \<Rightarrow> True | Some d \<Rightarrow> 3 \<le> unat (td_session_sequence d))"

definition channel_kinds_ok :: "'s channel \<Rightarrow> bool" where
  "channel_kinds_ok c \<longleftrightarrow> list_all (\<lambda>p. record_kind_ok (object p)) (channel_contents c)
     \<and> 3 \<le> unat (ch_next_session_sequence c) \<and> terminal_kind_ok (ch_terminal c)"

definition publication_kind_ok :: "'s peeked_publication \<Rightarrow> bool" where
  "publication_kind_ok p \<longleftrightarrow>
     (case pk_ordinary p of Ptr _ r \<Rightarrow> record_kind_ok r | Null \<Rightarrow> terminal_kind_ok (pk_terminal p))"

lemma peek_kind:
  assumes "channel_wf c" and "channel_kinds_ok c"
  shows "publication_kind_ok (peek c)"
  using assms
  by (auto simp: peek_eq publication_kind_ok_def channel_kinds_ok_def terminal_kind_ok_def
      split: list.splits shared_ptr.splits)

lemma materialized_kind:
  assumes "publication_kind_ok p" and "materialize_stream_item_for c p market symbol = Some item"
  shows "item_kind_ok item"
    and "(\<exists>gap. osi_payload item = ItemConsumerGap gap) \<longleftrightarrow> pk_ordinary p = Null"
  using assms
  by (auto simp: materialize_stream_item_for_def publication_kind_ok_def record_kind_ok_def item_kind_ok_def
      item_number_def populate_delivery_metadata_def terminal_kind_ok_def
      split: shared_ptr.splits ordinary_payload.splits option.splits)

lemma owner_keeps_kinds:
  assumes "servable c" and "channel_kinds_ok c" and "owner_channel_step c c'"
  shows "channel_kinds_ok c'"
  using assms(3)
proof cases
  case (os_admit u alloc g t)
  have wf: "channel_wf c" using assms(1) by (simp add: servable_def)
  show ?thesis using wf
  proof (cases rule: admit_update_cases [where al = alloc and u = u and g = g and t = t])
    case same
    then show ?thesis using assms(2) os_admit by simp
  next
    case slow
    then show ?thesis
      using assms(2) os_admit
      by (auto simp: channel_kinds_ok_def terminal_kind_ok_def unat_Suc_u64)
  next
    case (admit a)
    then show ?thesis
      using admit_update_admits [OF wf, of a u g t] assms(2) os_admit
      by (fastforce simp: channel_kinds_ok_def record_kind_ok_def unat_Suc_u64)
  qed
next
  case (os_terminalize r act g t)
  then show ?thesis
    using assms(2) by (auto simp: terminalize_def channel_kinds_ok_def terminal_kind_ok_def unat_Suc_u64)
next
  case os_close
  then show ?thesis using assms(2) by (simp add: close_from_owner_def channel_kinds_ok_def)
qed

lemma acknowledge_keeps_kinds:
  assumes "channel_wf c" and "channel_kinds_ok c"
  shows "channel_kinds_ok (snd (acknowledge p c))"
  using assms(1)
proof (cases rule: acknowledge_cases [where p = p])
  case (pop x xs)
  then have "channel_contents (ring_pop_locked c) = xs" using ob.pop_front [of c] assms(1) by auto
  then show ?thesis
    using pop assms(2) by (simp add: channel_kinds_ok_def) (simp add: ring_pop_locked_def)
qed (use assms(2) in \<open>simp_all add: channel_kinds_ok_def terminal_kind_ok_def\<close>)

section \<open>The shape of a stream\<close>

definition is_gap :: "'s order_book_stream_item \<Rightarrow> bool" where
  "is_gap item \<longleftrightarrow> (case osi_payload item of ItemConsumerGap _ \<Rightarrow> True | _ \<Rightarrow> False)"

lemma is_gap_iff: "is_gap item \<longleftrightarrow> (\<exists>gap. osi_payload item = ItemConsumerGap gap)"
  by (simp add: is_gap_def split: order_book_item_payload.splits)

text \<open>After a gap the handler only acknowledges it and returns.\<close>

fun winding_up :: "('s peeked_publication, 'i) serve_phase \<Rightarrow> bool" where
  "winding_up (SvWritten p _) = (pk_ordinary p = Null)"
| "winding_up (SvAck p) = (pk_ordinary p = Null)"
| "winding_up SvCut = True"
| "winding_up (SvDone _) = True"
| "winding_up _ = False"

definition shape_ok ::
  "('s peeked_publication, 's order_book_stream_item) server \<times> 's channel \<Rightarrow> bool" where
  "shape_ok st \<longleftrightarrow> (case st of (sv, c) \<Rightarrow>
     channel_kinds_ok c \<and> list_all item_kind_ok (sv_written sv)
     \<and> list_all (\<lambda>item. \<not> is_gap item) (butlast (sv_written sv))
     \<and> (sv_written sv \<noteq> [] \<and> is_gap (last (sv_written sv)) \<longrightarrow> winding_up (sv_phase sv))
     \<and> (case sv_phase sv of
          SvItem p \<Rightarrow> publication_kind_ok p
        | SvWrite p item \<Rightarrow> item_kind_ok item \<and> (is_gap item \<longrightarrow> pk_ordinary p = Null)
        | _ \<Rightarrow> True))"

lemma acknowledge_terminal:
  assumes "pk_ordinary p = Null"
  shows "fst (acknowledge p c) \<noteq> AckAcknowledged"
  using assms by (simp add: acknowledge_def)

lemma butlast_no_gap:
  assumes "list_all (\<lambda>item. \<not> is_gap item) (butlast ws)" and "ws \<noteq> [] \<longrightarrow> \<not> is_gap (last ws)"
  shows "list_all (\<lambda>item. \<not> is_gap item) ws"
  using assms by (cases ws rule: rev_cases) simp_all

lemma serve_order_book_shape:
  assumes wf: "servable c" and ok: "shape_ok (sv, c)"
    and st: "serve_order_book market symbol w sv c = (sv', c')"
  shows "shape_ok (sv', c')"
proof (cases "sv_phase sv")
  case SvPeek
  have "publication_kind_ok (peek c)"
    using peek_kind [of c] wf ok by (simp add: servable_def shape_ok_def)
  then show ?thesis
    using st SvPeek ok by (auto simp: serve_order_book_def shape_ok_def)
next
  case (SvItem p)
  then have "publication_kind_ok p" using ok by (simp add: shape_ok_def)
  from materialized_kind [OF this, of c market symbol] show ?thesis
    using st SvItem ok
    by (auto simp: serve_order_book_def shape_ok_def is_gap_iff split: option.splits)
next
  case (SvWrite p item)
  have "list_all (\<lambda>item. \<not> is_gap item) (sv_written sv)"
    using butlast_no_gap [of "sv_written sv"] SvWrite ok by (auto simp: shape_ok_def)
  then show ?thesis
    using st SvWrite ok
    by (auto simp: serve_order_book_def shape_ok_def split: option.splits if_splits)
next
  case (SvAck p)
  have "channel_kinds_ok (snd (acknowledge p c))"
    using acknowledge_keeps_kinds [of c p] wf ok by (simp add: servable_def shape_ok_def)
  then show ?thesis
    using st SvAck ok acknowledge_terminal [of p c]
    by (cases "acknowledge p c"; cases "fst (acknowledge p c)")
      (auto simp: serve_order_book_def shape_ok_def)
qed (use st ok in \<open>auto simp: serve_order_book_def shape_ok_def\<close>)

section \<open>Sessions\<close>

definition session_inv ::
  "('s peeked_publication, 's order_book_stream_item) server \<times> 's channel \<Rightarrow> bool" where
  "session_inv st \<longleftrightarrow> session_ok st \<and> shape_ok st"

lemma session_servable: "session_ok (sv, c) \<Longrightarrow> servable c"
  by (simp add: session_ok_def ob_served.serving_inv_def)

lemma session_inv_step:
  assumes "session_inv st" and "order_book_session market symbol st st'"
  shows "session_inv st'"
  using assms(2)
proof cases
  case (obs_handler sv c w)
  obtain sv' c' where st': "serve_order_book market symbol w sv c = (sv', c')" by fastforce
  have ok: "session_ok (sv, c)" "shape_ok (sv, c)"
    using assms(1) obs_handler by (simp_all add: session_inv_def)
  note step = serve_order_book_serving [OF ok(1) st']
  have "ob_served.serving_inv (handling_of (sv_phase sv'), map item_number (sv_written sv'), c')"
    using ob_served.serving_inv_step [OF _ conjunct1 [OF step]] ok(1) by (simp add: session_ok_def)
  then have "session_ok (sv', c')" using conjunct2 [OF step] by (simp add: session_ok_def)
  then show ?thesis
    using serve_order_book_shape [OF session_servable [OF ok(1)] ok(2) st'] obs_handler st'
    by (simp add: session_inv_def)
next
  case (obs_owner c c' sv)
  have ok: "session_ok (sv, c)" "shape_ok (sv, c)"
    using assms(1) obs_owner by (simp_all add: session_inv_def)
  have "ob_served.serving_inv (handling_of (sv_phase sv), map item_number (sv_written sv), c')"
    by (rule ob_served.serving_inv_step [OF _ serving.sg_producer [where producer = owner_channel_step]])
      (use ok(1) obs_owner in \<open>simp_all add: session_ok_def\<close>)
  then show ?thesis
    using ok owner_keeps_kinds [OF session_servable [OF ok(1)] _ obs_owner(3)] obs_owner
    by (simp add: session_inv_def session_ok_def shape_ok_def)
qed

lemma session_inv_run:
  assumes "(order_book_session market symbol)\<^sup>*\<^sup>* st st'" and "session_inv st"
  shows "session_inv st'"
  using assms by (induction rule: rtranclp_induct) (auto intro: session_inv_step)

lemma session_inv_init:
  assumes "make_channel i g n = Some c0" and "stage_initial p q c0 = (True, c)"
  shows "session_inv (start_serving, c)"
proof -
  obtain x a y s where cond: "p = Ptr x a" "q = Ptr y s" "pr_session_sequence a = 1"
    "pr_session_sequence s = 2" "kind a = KindSubscriptionAccepted" "kind s = KindSnapshot"
    using stage_initial_conditions [OF assms(2)] by metis
  note staged = staged_channel [OF assms]
  have kinds: "payload_present p" "payload_present q" "record_kind_ok (object p)" "record_kind_ok (object q)"
    using cond by (auto simp: record_kind_ok_def split: ordinary_payload.splits)
  have next_: "ch_terminal c = None" "unat (ch_next_session_sequence c) = 3"
    using staged(3) by (auto simp: channel_abs_def split: option.splits)
  have "servable c" using staged kinds by (simp add: servable_def)
  moreover have "egress_inv [] (channel_abs c)"
    unfolding staged(3) by (simp add: egress_inv_def upt_rec)
  ultimately have "session_ok (start_serving, c)"
    by (simp add: session_ok_def ob_served.serving_inv_def start_serving_def)
  moreover have "shape_ok (start_serving, c)"
    using staged(2) kinds next_
    by (simp add: shape_ok_def channel_kinds_ok_def terminal_kind_ok_def start_serving_def)
  ultimately show ?thesis by (simp add: session_inv_def)
qed

lemma session_numbers:
  assumes "session_inv (sv, c)"
  shows "map item_number (sv_written sv) = [1..<Suc (length (sv_written sv))]"
proof -
  have "ob_served.serving_inv (handling_of (sv_phase sv), map item_number (sv_written sv), c)"
    using assms by (simp add: session_inv_def session_ok_def)
  from ob_served.written_contiguous [OF this] show ?thesis by (simp del: upt_Suc)
qed

lemma session_number_at:
  assumes "session_inv (sv, c)" and "k < length (sv_written sv)"
  shows "item_number (sv_written sv ! k) = Suc k"
proof -
  have "map item_number (sv_written sv) ! k = [1..<Suc (length (sv_written sv))] ! k"
    using session_numbers [OF assms(1)] by simp
  then show ?thesis using assms(2) by (simp del: upt_Suc)
qed

lemma session_kind_at:
  assumes "session_inv (sv, c)" and "k < length (sv_written sv)"
  shows "expected_kind (Suc k) (osi_payload (sv_written sv ! k))"
proof -
  have "item_kind_ok (sv_written sv ! k)"
    using assms by (simp add: session_inv_def shape_ok_def list_all_length)
  then show ?thesis using session_number_at [OF assms] by (simp add: item_kind_ok_def)
qed

lemma session_gap_last:
  assumes "session_inv (sv, c)" and "k < length (sv_written sv)" and "is_gap (sv_written sv ! k)"
  shows "Suc k = length (sv_written sv) \<and> winding_up (sv_phase sv)"
proof -
  have no_gap: "list_all (\<lambda>item. \<not> is_gap item) (butlast (sv_written sv))"
    and up: "is_gap (last (sv_written sv)) \<Longrightarrow> winding_up (sv_phase sv)"
    using assms by (auto simp: session_inv_def shape_ok_def)
  have "Suc k = length (sv_written sv)"
  proof (rule ccontr)
    assume "Suc k \<noteq> length (sv_written sv)"
    then have "k < length (butlast (sv_written sv))" using assms(2) by simp
    then show False
      using no_gap assms(3) by (metis list_all_length nth_butlast)
  qed
  moreover from this have "sv_written sv ! k = last (sv_written sv)"
    by (metis assms(2) diff_Suc_1 last_conv_nth length_0_conv less_nat_zero_code)
  ultimately show ?thesis using up assms(3) by simp
qed

end
