(* ===== verification/GrpcProperties.thy ===== *)
theory GrpcProperties
  imports GrpcGateway GrpcShape
begin

text \<open>The properties of the gRPC service: its requests, its streams, and its shutdown.\<close>

section \<open>Requests\<close>

text \<open>The single-product service accepts exactly the requests of the multi-product service that
  ask for Binance Spot BTCUSDT, with the same result; every other request is an invalid argument
  to it.\<close>

theorem legacy_requests_are_spot_btcusdt:
  "validate_order_book_request r gid =
     (if obr_market r = MARKET_SPOT \<and> obr_symbol r = ''BTCUSDT''
      then validate_g11_order_book_request r gid else Inl ReqInvalidArgument)
   \<and> validate_event_request e gid =
     (if list_all (\<lambda>sel. sel_market sel = MARKET_SPOT \<and> sel_symbol sel = ''BTCUSDT'') (evr_selectors e)
      then validate_g11_event_request e gid else Inl ReqInvalidArgument)"
proof
  show "validate_order_book_request r gid =
     (if obr_market r = MARKET_SPOT \<and> obr_symbol r = ''BTCUSDT''
      then validate_g11_order_book_request r gid else Inl ReqInvalidArgument)"
    by (simp add: validate_order_book_request_def validate_g11_order_book_request_def
        validate_order_book_request_impl_def Let_def)
  show "validate_event_request e gid =
     (if list_all (\<lambda>sel. sel_market sel = MARKET_SPOT \<and> sel_symbol sel = ''BTCUSDT'') (evr_selectors e)
      then validate_g11_event_request e gid else Inl ReqInvalidArgument)"
  proof (cases "length (evr_selectors e) = 1")
    case True
    then obtain sel where "evr_selectors e = [sel]" by (auto simp: length_Suc_conv)
    then show ?thesis
      by (simp add: validate_event_request_def validate_g11_event_request_def
          validate_event_request_impl_def Let_def)
  next
    case False
    then show ?thesis
      by (simp add: validate_event_request_def validate_g11_event_request_def
          validate_event_request_impl_def)
  qed
qed

section \<open>Streams\<close>

lemma admitted_session_inv:
  assumes "make_channel i g n = Some c0" and "stage_initial p q c0 = (True, c)"
    and "(order_book_session market symbol)\<^sup>*\<^sup>* (start_serving, c) (sv, c')"
  shows "session_inv (sv, c')"
  by (rule session_inv_run [OF assms(3) session_inv_init [OF assms(1,2)]])

text \<open>C24: in every interleaving of an order-book handler with the owner of its channel, the stream is
  an acceptance, then a snapshot, then depth updates, with session numbers 1, 2, 3, ..., and at most
  one consumer gap, which is the last item and after which the handler returns.\<close>

theorem order_book_stream_shape:
  assumes "make_channel i g n = Some c0" and "stage_initial p q c0 = (True, c)"
    and "(order_book_session market symbol)\<^sup>*\<^sup>* (start_serving, c) (sv, c')"
    and "k < length (sv_written sv)"
  shows "unat (dm_session_sequence (osi_delivery_metadata (sv_written sv ! k))) = Suc k
    \<and> (case osi_payload (sv_written sv ! k) of
         ItemAccepted _ \<Rightarrow> k = 0
       | ItemSnapshot _ \<Rightarrow> k = 1
       | ItemDepthUpdate _ \<Rightarrow> 2 \<le> k
       | ItemConsumerGap _ \<Rightarrow> 2 \<le> k \<and> Suc k = length (sv_written sv) \<and> winding_up (sv_phase sv))"
proof -
  have inv: "session_inv (sv, c')" by (rule admitted_session_inv [OF assms(1-3)])
  show ?thesis
    using session_number_at [OF inv assms(4)] session_kind_at [OF inv assms(4)]
      session_gap_last [OF inv assms(4)]
    by (auto simp: item_number_def is_gap_def split: order_book_item_payload.splits)
qed

text \<open>Runs of the handler alone, for the witnesses.\<close>

fun serve_alone ::
  "wire_market \<Rightarrow> string \<Rightarrow> serve_world list
     \<Rightarrow> ('s peeked_publication, 's order_book_stream_item) server \<times> 's channel
     \<Rightarrow> ('s peeked_publication, 's order_book_stream_item) server \<times> 's channel" where
  "serve_alone market symbol [] st = st"
| "serve_alone market symbol (w # ws) (sv, c) =
     serve_alone market symbol ws (serve_order_book market symbol w sv c)"

lemma serve_alone_session: "(order_book_session market symbol)\<^sup>*\<^sup>* st (serve_alone market symbol ws st)"
proof (induction market symbol ws st rule: serve_alone.induct)
  case (2 market symbol w ws sv c)
  have "order_book_session market symbol (sv, c) (serve_order_book market symbol w sv c)"
    by (rule obs_handler)
  then show ?case using 2 by (simp add: converse_rtranclp_into_rtranclp)
qed simp

definition calm_world :: serve_world where
  "calm_world = \<lparr>sw_cancelled = False, sw_write = Some True\<rparr>"

definition example_served :: "(nat peeked_publication, nat order_book_stream_item) server \<times> nat channel" where
  "example_served = serve_alone MARKET_SPOT ''BTCUSDT'' (replicate 12 calm_world) (start_serving, example_channel)"

lemma example_served_items:
  "map (\<lambda>item. unat (dm_session_sequence (osi_delivery_metadata item))) (sv_written (fst example_served)) = [1, 2]"
  by code_simp

theorem order_book_stream_shape_witness:
  "unat (dm_session_sequence (osi_delivery_metadata (sv_written (fst example_served) ! 1))) = 2"
proof -
  have run: "(order_book_session MARKET_SPOT ''BTCUSDT'')\<^sup>*\<^sup>* (start_serving, example_channel)
      (fst example_served, snd example_served)"
    unfolding example_served_def using serve_alone_session by simp
  have "length (sv_written (fst example_served)) = 2"
    using arg_cong [OF example_served_items, of length] by simp
  then show ?thesis
    using order_book_stream_shape [OF example_channel_staged run, of 1] by simp
qed

text \<open>C25: in every interleaving of an event handler with the hub, the items on the stream carry the
  session numbers 1, 2, 3, ... without a gap, a duplicate or a reordering, and the only internal
  error the handler can return is a writer that throws.\<close>

theorem event_stream_contiguous:
  assumes "make_event_channel i gw stream g n = Some c0" and "stage_accepted (Ptr k rec) c0 = (True, c)"
    and "(event_session market symbol)\<^sup>*\<^sup>* (start_serving, c) (sv, c')"
  shows "map (\<lambda>item. unat (dm_session_sequence (env_delivery_metadata item))) (sv_written sv)
      = [1..<Suc (length (sv_written sv))]
    \<and> (\<forall>message. sv_phase sv = SvDone (GINTERNAL, message)
         \<longrightarrow> message = ''event subscriber writer test seam failed'')"
proof -
  note staged = stage_accepted_fresh [OF assms(1,2)]
  have "event_session_ok stream (start_serving, c)"
    using staged by (simp add: event_session_ok_def ev_served.serving_inv_def start_serving_def
        ev_servable_def egress_inv_def ev_abs_def upt_rec)
  then have ok: "event_session_ok stream (sv, c')" by (rule event_session_run [OF assms(3)])
  then have "ev_served.serving_inv stream (handling_of (sv_phase sv), map envelope_number (sv_written sv), c')"
    by (simp add: event_session_ok_def)
  from ev_served.written_contiguous [OF this] show ?thesis
    using ok by (auto simp: event_session_ok_def only_writer_fails_def simp del: upt_Suc)
      (simp add: envelope_number_def [abs_def] del: upt_Suc)
qed

fun serve_events_alone ::
  "wire_market \<Rightarrow> string \<Rightarrow> serve_world list
     \<Rightarrow> (peeked_event_publication, event_envelope) server \<times> event_channel
     \<Rightarrow> (peeked_event_publication, event_envelope) server \<times> event_channel" where
  "serve_events_alone market symbol [] st = st"
| "serve_events_alone market symbol (w # ws) (sv, c) =
     serve_events_alone market symbol ws (serve_events market symbol w sv c)"

lemma serve_events_alone_session:
  "(event_session market symbol)\<^sup>*\<^sup>* st (serve_events_alone market symbol ws st)"
proof (induction market symbol ws st rule: serve_events_alone.induct)
  case (2 market symbol w ws sv c)
  have "event_session market symbol (sv, c) (serve_events market symbol w sv c)"
    by (rule evs_handler)
  then show ?case using 2 by (simp add: converse_rtranclp_into_rtranclp)
qed simp

definition example_event_record :: event_publication_record where
  "example_event_record = make_event_accepted_record example_sub ''ev-1'' ''gw''
     \<lparr>et_utc_ns = 5, et_monotonic_ns = Some 6\<rparr>"

definition example_fresh_channel :: event_channel where
  "example_fresh_channel = the (make_event_channel ''ev-1'' ''gw'' STREAM_BOOK_TICKER 1 2)"

definition example_staged_channel :: event_channel where
  "example_staged_channel = snd (stage_accepted (Ptr 11 example_event_record) example_fresh_channel)"

lemma example_staged:
  "make_event_channel ''ev-1'' ''gw'' STREAM_BOOK_TICKER 1 2 = Some example_fresh_channel"
  "stage_accepted (Ptr 11 example_event_record) example_fresh_channel = (True, example_staged_channel)"
  by (simp_all add: example_staged_channel_def example_fresh_channel_def example_event_record_def
      make_event_channel_def stage_accepted_def make_event_accepted_record_def ev_ring_push_locked_def)

definition example_event_served :: "(peeked_event_publication, event_envelope) server \<times> event_channel" where
  "example_event_served = serve_events_alone MARKET_SPOT ''BTCUSDT'' (replicate 6 calm_world)
     (start_serving, example_staged_channel)"

theorem event_stream_contiguous_witness:
  "map (\<lambda>item. unat (dm_session_sequence (env_delivery_metadata item))) (sv_written (fst example_event_served))
    = [1..<Suc (length (sv_written (fst example_event_served)))]"
proof (rule conjunct1 [OF event_stream_contiguous [OF example_staged]])
  show "(event_session MARKET_SPOT ''BTCUSDT'')\<^sup>*\<^sup>* (start_serving, example_staged_channel)
      (fst example_event_served, snd example_event_served)"
    unfolding example_event_served_def using serve_events_alone_session by simp
qed

text \<open>A handler of an admitted subscription never fails to make an item of what it peeked, and its
  acknowledgement never mismatches: the only internal error it can return is a writer that throws.\<close>

theorem handler_fails_only_by_writer:
  assumes "make_channel i g n = Some c0" and "stage_initial p q c0 = (True, c)"
    and "(order_book_session market symbol)\<^sup>*\<^sup>* (start_serving, c) (sv, c')"
    and "sv_phase sv = SvDone (GINTERNAL, message)"
  shows "message = ''subscriber writer test seam failed''"
  using admitted_session_inv [OF assms(1-3)] assms(4)
  by (auto simp: session_inv_def session_ok_def only_writer_fails_def)

definition throwing_world :: serve_world where
  "throwing_world = \<lparr>sw_cancelled = False, sw_write = None\<rparr>"

definition example_thrown :: "(nat peeked_publication, nat order_book_stream_item) server \<times> nat channel" where
  "example_thrown = serve_alone MARKET_SPOT ''BTCUSDT'' (replicate 4 throwing_world) (start_serving, example_channel)"

lemma example_thrown_phase:
  "sv_phase (fst example_thrown) = SvDone (GINTERNAL, ''subscriber writer test seam failed'')"
  by code_simp

theorem handler_fails_only_by_writer_witness:
  "\<exists>message. sv_phase (fst example_thrown) = SvDone (GINTERNAL, message)
    \<and> message = ''subscriber writer test seam failed''"
proof -
  have run: "(order_book_session MARKET_SPOT ''BTCUSDT'')\<^sup>*\<^sup>* (start_serving, example_channel)
      (fst example_thrown, snd example_thrown)"
    unfolding example_thrown_def using serve_alone_session by simp
  obtain message where "sv_phase (fst example_thrown) = SvDone (GINTERNAL, message)"
    using example_thrown_phase by blast
  then show ?thesis
    using handler_fails_only_by_writer [OF example_channel_staged run] by blast
qed

section \<open>The service\<close>

text \<open>C26: in every interleaving of subscription calls, status calls, the shutdown and the rest of the
  gateway, the tracked contexts are exactly those of the calls in progress, each once, and never
  more than the configured bound or 48; when every call has returned, none is tracked.\<close>

theorem rpc_contexts_bounded:
  assumes "reachable gateway_init (gateway_step ops route) (s, calls, th, rts, hubs)"
  shows "tracked_context_count s \<le> gsv_maximum_tracked_contexts s \<and> tracked_context_count s \<le> 48
    \<and> distinct (map tc_context (gsv_contexts s))
    \<and> (k \<in> tc_context ` set (gsv_contexts s) \<longleftrightarrow> rpc_of (calls k) = RpcRunning)
    \<and> ((\<forall>j. rpc_of (calls j) \<noteq> RpcRunning) \<longrightarrow> tracked_context_count s = 0)"
proof -
  have inv: "service_inv (s, \<lambda>k. rpc_of (calls k), set (sdt_cancelled th))"
    by (rule gateway_invD(1) [OF gateway.inv_reachable [OF assms]])
  then have "gsv_contexts s = []" if "\<forall>j. rpc_of (calls j) \<noteq> RpcRunning"
    using that by (auto simp: service_inv_def)
  then show ?thesis
    using inv by (auto simp: service_inv_def tracked_context_count_def kMaximumGrpcTrackedContexts_def)
qed

text \<open>C27: once the shutdown has cancelled its snapshot of the contexts, every call still in progress is
  among the calls it cancelled, no call can begin any more, and no call it cancelled ever returns
  OK.\<close>

theorem shutdown_cancels_every_call:
  assumes "reachable gateway_init (gateway_step ops route) (s, calls, th, rts, hubs)"
    and "sdt_phase th = SdRelease \<or> sdt_phase th = SdFinished"
  shows "(rpc_of (calls k) = RpcRunning \<longrightarrow> k \<in> set (sdt_cancelled th))
    \<and> fst (track_context k s) = TrackClosed
    \<and> (k \<in> set (sdt_cancelled th) \<longrightarrow> rpc_of (calls k) = RpcRunning
         \<or> (\<exists>code. rpc_of (calls k) = RpcReturned code \<and> code \<noteq> GOK))"
proof -
  note inv = gateway.inv_reachable [OF assms(1)]
  have "thread_inv s (\<lambda>k. rpc_of (calls k)) th" "service_inv (s, \<lambda>k. rpc_of (calls k), set (sdt_cancelled th))"
    "cancelled_inv (s, \<lambda>k. rpc_of (calls k), set (sdt_cancelled th))"
    using gateway_invD [OF inv] by blast+
  then show ?thesis
    using assms(2) by (auto simp: thread_inv_def service_inv_def cancelled_inv_def track_context_def)
qed

subsection \<open>An example\<close>

definition example_service :: grpc_service where
  "example_service = the (make_grpc_service ''gw-1'' 250 48 [] None)"

lemma example_service_made: "make_grpc_service ''gw-1'' 250 48 [] None = Some example_service"
  by code_simp

definition example_request :: order_book_request where
  "example_request = \<lparr>obr_request_id = ''r'', obr_schema_version = kOrderBookRequestSchema,
     obr_venue = VENUE_BINANCE, obr_market = MARKET_SPOT, obr_symbol = ''BTCUSDT'',
     obr_initial_snapshot_mode = INITIAL_SNAPSHOT_MODE_REQUIRED, obr_depth_limit = None,
     obr_snapshot_versions = [kSnapshotSchema], obr_update_versions = [kUpdateSchema]\<rparr>"

definition example_calls :: "nat \<Rightarrow> nat rpc_call" where
  "example_calls k = OrderBookCall \<lparr>obc_context = k, obc_arguments = True,
     obc_request = example_request, obc_phase = ObBegin\<rparr>"

definition example_route :: routing where
  "example_route = \<lparr>rg_registry = None, rg_runtime = None, rg_event_publication = None\<rparr>"

definition example_thread :: shutdown_thread where
  "example_thread = \<lparr>sdt_runtimes = [], sdt_hubs = [], sdt_phase = SdClaim, sdt_cancelled = []\<rparr>"

type_synonym example_gateway = "(nat, nat, nat) gateway"

definition example_begun :: example_gateway where
  "example_begun = (snd (track_context 0 example_service),
     example_calls(0 := OrderBookCall \<lparr>obc_context = 0, obc_arguments = True,
       obc_request = example_request, obc_phase = ObRequest\<rparr>), example_thread, (\<lambda>_. None), (\<lambda>_. None))"

lemma example_begun_reachable: "reachable gateway_init (gateway_step ops example_route) example_begun"
proof -
  let ?start = "(example_service, example_calls, example_thread, \<lambda>_. None, \<lambda>_. None) :: example_gateway"
  have "\<exists>gid idle maximum ids clock. make_grpc_service gid idle maximum ids clock = Some example_service"
    by (intro exI) (rule example_service_made)
  then have "gateway_init ?start"
    by (simp add: gateway_init_def call_begins_def example_calls_def example_thread_def)
  then have start: "reachable gateway_init (gateway_step ops example_route) ?start" by (rule reach_init)
  have "fst (track_context 0 example_service) = TrackTracked" by code_simp
  then obtain s' where tracked: "track_context 0 example_service = (TrackTracked, s')"
    by (metis prod.collapse)
  then have "gateway_step ops example_route ?start example_begun"
    unfolding example_begun_def
    by (intro gw_order_book) (auto simp: example_calls_def order_book_call_step_def)
  then show ?thesis by (rule reach_step [OF start])
qed

fun shutdown_alone :: "nat \<Rightarrow> ('p, 'g, 's) gateway \<Rightarrow> ('p, 'g, 's) gateway" where
  "shutdown_alone 0 g = g"
| "shutdown_alone (Suc n) (s, calls, th, rts, hubs) =
     (case shutdown_thread_step th s rts hubs of
        (th', s', rts', hubs') \<Rightarrow> shutdown_alone n (s', calls, th', rts', hubs'))"

lemma shutdown_alone_reachable:
  "reachable gateway_init (gateway_step ops route) g
    \<Longrightarrow> reachable gateway_init (gateway_step ops route) (shutdown_alone n g)"
proof (induction n g rule: shutdown_alone.induct)
  case (2 n s calls th rts hubs)
  obtain th' s' rts' hubs' where st: "shutdown_thread_step th s rts hubs = (th', s', rts', hubs')"
    by (metis prod_cases4)
  have "gateway_step ops route (s, calls, th, rts, hubs) (s', calls, th', rts', hubs')"
    by (rule gw_shutdown [OF st])
  then have "reachable gateway_init (gateway_step ops route) (s', calls, th', rts', hubs')"
    by (rule reach_step [OF "2.prems"])
  then show ?case using "2.IH" [OF st [symmetric]] st by simp
qed simp

theorem rpc_contexts_bounded_witness:
  "\<exists>s calls th rts hubs. example_begun = (s, calls, th, rts, hubs)
    \<and> rpc_of (calls 0) = RpcRunning \<and> 0 \<in> tc_context ` set (gsv_contexts s) \<and> tracked_context_count s \<le> 48"
proof -
  obtain s calls th rts hubs where g: "example_begun = (s, calls, th, rts, hubs)" by (metis prod_cases5)
  have "rpc_of (calls 0) = RpcRunning" using g by (auto simp: example_begun_def)
  then show ?thesis
    using rpc_contexts_bounded [OF example_begun_reachable [of ops, unfolded g], of 0] g by blast
qed

lemma example_finished:
  "\<exists>s calls th rts hubs. shutdown_alone 9 example_begun = (s, calls, th, rts, hubs)
    \<and> sdt_phase th = SdFinished \<and> 0 \<in> set (sdt_cancelled th)"
proof -
  have service: "example_service = \<lparr>gsv_gateway_instance_id = ''gw-1'', gsv_maximum_tracked_contexts = 48,
      gsv_status_assembler = None, gsv_status_inflight = False, gsv_status_stop_requested = False,
      gsv_contexts = [], gsv_admission_open = True, gsv_shutdown_started = False,
      gsv_cancellation_snapshot_active = False\<rparr>"
    by code_simp
  have nine: "(9::nat) = Suc (Suc (Suc (Suc (Suc (Suc (Suc (Suc (Suc 0))))))))" by simp
  show ?thesis
    unfolding nine example_begun_def service example_thread_def
    by (simp add: shutdown_thread_step_def track_context_def shutdown_claim_def shutdown_stop_status_def
        shutdown_snapshot_def shutdown_release_def)
qed

theorem shutdown_cancels_every_call_witness:
  "\<exists>s calls th rts hubs. shutdown_alone 9 example_begun = (s, calls, th, rts, hubs)
    \<and> sdt_phase th = SdFinished \<and> fst (track_context 1 s) = TrackClosed"
proof -
  obtain s calls th rts hubs where g: "shutdown_alone 9 example_begun = (s, calls, th, rts, hubs)"
      "sdt_phase th = SdFinished"
    using example_finished by blast
  have "reachable gateway_init (gateway_step ops example_route) (s, calls, th, rts, hubs)" for ops
    using shutdown_alone_reachable [OF example_begun_reachable, of ops 9] g(1) by simp
  from shutdown_cancels_every_call [OF this, of 1] g show ?thesis by blast
qed

end
