(* ===== verification/GrpcServer.thy ===== *)
theory GrpcServer
  imports GrpcService
begin

text \<open>
  \<open>OrderBookGrpcServer\<close> and \<open>generate_gateway_instance_id\<close>, \<open>src/src/g7/grpc_service.cpp\<close>. What
  \<open>BuildAndStart\<close> does is an argument: \<open>None\<close> if it throws, otherwise whether there is a server and
  the port it selected.
\<close>

record grpc_server =
  gsr_service :: grpc_service
  gsr_running :: bool
  gsr_selected_port :: int
  gsr_shutdown :: bool

definition grpc_server_start ::
  "(string \<Rightarrow> (bool \<times> bool) option) \<Rightarrow> string \<Rightarrow> clock_sample option \<Rightarrow> (bool \<times> int) option
     \<Rightarrow> grpc_server \<Rightarrow> bool \<times> grpc_server" where
  "grpc_server_start make_address listen_address clock build st =
     (if gsr_running st \<or> gsr_shutdown st \<or> \<not> valid_loopback_listen_address make_address listen_address True
      then (False, st)
      else case prepare_status_start clock (gsr_service st) of
        (False, service) \<Rightarrow> (False, st\<lparr>gsr_service := service\<rparr>)
      | (True, service) \<Rightarrow>
          (case build of
             None \<Rightarrow> (False, st\<lparr>gsr_service := clear_status_start service\<rparr>)
           | Some (built, port) \<Rightarrow>
               if built \<and> port > 0
               then (True, st\<lparr>gsr_service := service, gsr_running := True, gsr_selected_port := port\<rparr>)
               else (False, st\<lparr>gsr_service := clear_status_start service, gsr_running := False,
                               gsr_selected_port := 0\<rparr>)))"

text \<open>The first call, up to \<open>begin_shutdown\<close> of the service, and what follows it.\<close>

definition grpc_server_shutdown_begin :: "grpc_server \<Rightarrow> bool \<times> grpc_server" where
  "grpc_server_shutdown_begin st =
     (if gsr_shutdown st then (False, st) else (True, st\<lparr>gsr_shutdown := True\<rparr>))"

definition grpc_server_shutdown_end :: "grpc_server \<Rightarrow> grpc_server" where
  "grpc_server_shutdown_end st = st\<lparr>gsr_running := False\<rparr>"

section \<open>Instance ids\<close>

definition hex_char :: "nat \<Rightarrow> char" where
  "hex_char d = (if d < 10 then char_of (48 + d) else char_of (87 + d))"

text \<open>\<open>std::setw(8)\<close> with \<open>std::hex\<close> and \<open>'0'\<close> as the fill character.\<close>

definition hex8 :: "u32 \<Rightarrow> string" where
  "hex8 w = map (\<lambda>i. hex_char (unat (drop_bit (4 * (7 - i)) w) mod 16)) [0..<8]"

definition generate_gateway_instance_id :: "u32 list \<Rightarrow> string" where
  "generate_gateway_instance_id entropy = ''gw-'' @ concat (map hex8 entropy)"

lemma hex_char_allowed:
  assumes "d < 16"
  shows "allowed (hex_char d)"
proof (cases "d < 10")
  case True
  then show ?thesis by (simp add: hex_char_def allowed_def alphanumeric_def between_def)
next
  case False
  with assms show ?thesis by (simp add: hex_char_def allowed_def alphanumeric_def between_def)
qed

lemma hex8_allowed: "list_all allowed (hex8 w)" and length_hex8: "length (hex8 w) = 8"
  by (simp_all add: hex8_def list_all_iff hex_char_allowed)

text \<open>A service accepts every instance id the gateway generates from four words of entropy.\<close>

lemma generated_id_safe:
  assumes "length entropy = 4"
  shows "identifier_safe (generate_gateway_instance_id entropy)"
proof -
  have "list_all allowed (concat (map hex8 ws))" for ws
    by (induction ws) (simp_all add: hex8_allowed)
  moreover have "length (concat (map hex8 ws)) = 8 * length ws" for ws
    by (induction ws) (simp_all add: length_hex8)
  moreover have "allowed CHR ''g''" "allowed CHR ''w''" "allowed CHR ''-''" "alphanumeric CHR ''g''"
    by (simp_all add: allowed_def alphanumeric_def between_def)
  ultimately show ?thesis
    using assms by (simp add: identifier_safe_def generate_gateway_instance_id_def)
qed

text \<open>A failed start leaves no start baseline behind, and a server that was shut down never starts.\<close>

lemma failed_start_clears_baseline:
  assumes "grpc_server_start mk listen clock build st = (False, st')"
    and "\<not> gsr_running st" and "\<not> gsr_shutdown st" and "valid_loopback_listen_address mk listen True"
    and "gsv_status_assembler (gsr_service st') = Some a"
  shows "sa_start_baseline a = None \<and> \<not> gsr_running st'"
  using assms
  by (auto simp: grpc_server_start_def prepare_status_start_def clear_status_start_def
      prepare_start_baseline_def clear_start_baseline_def split: option.splits prod.splits if_splits bool.splits)

lemma shutdown_is_final:
  "gsr_shutdown st \<Longrightarrow> grpc_server_start mk listen clock build st = (False, st)"
  by (simp add: grpc_server_start_def)

end
