(* ===== verification/TransportRoutes.thy ===== *)
theory TransportRoutes
  imports RecoveryPolicy UsdmProtocol
begin

text \<open>
  Where a transport connects to and how it decodes what it receives: the routes of
  \<open>make_spot_transport_routes\<close> (\<open>src/src/g4/spot_transport.cpp\<close>) and
  \<open>make_usdm_transport_routes\<close> (\<open>src/src/g11/usdm_transport.cpp\<close>), the transport configuration
  built from them, and the constructor of \<open>BinanceTransport::Impl\<close>, which checks it and names the
  connection. The JSON parser is a parameter of the frame parsers, as in the protocol theories.
\<close>

section \<open>Routes\<close>

record spot_transport_routes =
  sr_rest_host :: string
  sr_rest_port :: string
  sr_exchange_info_target :: string
  sr_depth_target :: string
  sr_websocket_host :: string
  sr_websocket_port :: string
  sr_websocket_target :: string
  sr_combined_websocket_target :: string
  sr_diff_depth_stream :: string
  sr_agg_trade_stream :: string
  sr_book_ticker_stream :: string
  sr_snapshot_limit :: nat
  sr_connection_id_prefix :: string
  sr_snapshot_request_id :: string

definition kRestHost :: string where "kRestHost = ''api.binance.com''"
definition kRestPort :: string where "kRestPort = ''443''"
definition kWebSocketHost :: string where "kWebSocketHost = ''stream.binance.com''"
definition kWebSocketPort :: string where "kWebSocketPort = ''9443''"

definition make_spot_transport_routes :: "string \<Rightarrow> spot_transport_routes option" where
  "make_spot_transport_routes exact_symbol =
     (case spot_stream_symbol exact_symbol of
        None \<Rightarrow> None
      | Some stream_symbol \<Rightarrow>
          let diff_depth = stream_symbol @ ''@depth@100ms'';
              agg_trade = stream_symbol @ ''@aggTrade'';
              book_ticker = stream_symbol @ ''@bookTicker''
          in Some
            \<lparr>sr_rest_host = kRestHost, sr_rest_port = kRestPort,
             sr_exchange_info_target = ''/api/v3/exchangeInfo?symbol='' @ exact_symbol,
             sr_depth_target = ''/api/v3/depth?symbol='' @ exact_symbol @ ''&limit=5000'',
             sr_websocket_host = kWebSocketHost, sr_websocket_port = kWebSocketPort,
             sr_websocket_target = ''/ws/'' @ stream_symbol @ ''@depth@100ms'',
             sr_combined_websocket_target =
               ''/stream?streams='' @ diff_depth @ ''/'' @ agg_trade @ ''/'' @ book_ticker,
             sr_diff_depth_stream = diff_depth,
             sr_agg_trade_stream = agg_trade,
             sr_book_ticker_stream = book_ticker,
             sr_snapshot_limit = 5000,
             sr_connection_id_prefix = ''binance-spot-'' @ stream_symbol @ ''-g'',
             sr_snapshot_request_id = ''g4-spot-'' @ stream_symbol @ ''-depth-request-1''\<rparr>)"

record usdm_transport_routes =
  ur_rest_host :: string
  ur_rest_port :: string
  ur_exchange_info_target :: string
  ur_depth_target :: string
  ur_websocket_host :: string
  ur_websocket_port :: string
  ur_websocket_target :: string
  ur_diff_depth_stream :: string
  ur_snapshot_limit :: nat
  ur_connection_id_prefix :: string
  ur_snapshot_request_id :: string

definition kUsdMTransportRoutes :: usdm_transport_routes where
  "kUsdMTransportRoutes =
     \<lparr>ur_rest_host = ''fapi.binance.com'', ur_rest_port = ''443'',
      ur_exchange_info_target = ''/fapi/v1/exchangeInfo'',
      ur_depth_target = ''/fapi/v1/depth?symbol=BTCUSDT&limit=1000'',
      ur_websocket_host = ''fstream.binance.com'', ur_websocket_port = ''443'',
      ur_websocket_target = ''/public/ws/btcusdt@depth@100ms'',
      ur_diff_depth_stream = ''btcusdt@depth@100ms'',
      ur_snapshot_limit = 1000,
      ur_connection_id_prefix = ''binance-usdm-btcusdt-g'',
      ur_snapshot_request_id = ''g11-usdm-btcusdt-depth-request-1''\<rparr>"

definition make_usdm_transport_routes :: "string \<Rightarrow> usdm_transport_routes option" where
  "make_usdm_transport_routes exact_symbol =
     (case usdm_stream_symbol exact_symbol of
        None \<Rightarrow> None
      | Some encoded_symbol \<Rightarrow> Some
          \<lparr>ur_rest_host = ur_rest_host kUsdMTransportRoutes,
           ur_rest_port = ur_rest_port kUsdMTransportRoutes,
           ur_exchange_info_target = ur_exchange_info_target kUsdMTransportRoutes,
           ur_depth_target = ''/fapi/v1/depth?symbol='' @ exact_symbol @ ''&limit=1000'',
           ur_websocket_host = ur_websocket_host kUsdMTransportRoutes,
           ur_websocket_port = ur_websocket_port kUsdMTransportRoutes,
           ur_websocket_target = ''/public/ws/'' @ encoded_symbol @ ''@depth@100ms'',
           ur_diff_depth_stream = encoded_symbol @ ''@depth@100ms'',
           ur_snapshot_limit = 1000,
           ur_connection_id_prefix = ''binance-usdm-'' @ encoded_symbol @ ''-g'',
           ur_snapshot_request_id = ''g11-usdm-'' @ encoded_symbol @ ''-depth-request-1''\<rparr>)"

section \<open>Configuration\<close>

text \<open>
  A \<open>std::function\<close> member may be empty: \<open>None\<close>. The normalized event sink is called through the
  handlers of the transport; here only whether one was given matters.
\<close>

type_synonym depth_frame_parser = "string \<Rightarrow> clock_sample \<Rightarrow> string \<Rightarrow> depth_frame_result"
type_synonym combined_frame_parser = "string \<Rightarrow> clock_sample \<Rightarrow> string \<Rightarrow> combined_frame_result"
type_synonym depth_snapshot_parser =
  "string \<Rightarrow> clock_sample \<Rightarrow> string \<Rightarrow> protocol_error + exchange_depth_snapshot"

record binance_transport_config =
  bc_rest_host :: string
  bc_rest_port :: string
  bc_depth_target :: string
  bc_websocket_host :: string
  bc_websocket_port :: string
  bc_websocket_target :: string
  bc_connection_id_prefix :: string
  bc_snapshot_request_id :: string
  bc_user_agent :: string
  bc_profile :: transport_profile
  bc_normalized_event_sink :: bool
  bc_depth_frame_parser :: "depth_frame_parser option"
  bc_combined_frame_parser :: "combined_frame_parser option"
  bc_depth_snapshot_parser :: "depth_snapshot_parser option"

text \<open>\<open>SpotTransportOptions\<close>: the profile and whether an event sink is given.\<close>

record spot_transport_options =
  so_profile :: transport_profile
  so_normalized_event_sink :: bool

text \<open>\<open>Inl\<close> is a thrown \<open>std::invalid_argument\<close>.\<close>

definition spot_transport_config ::
  "(string \<Rightarrow> parsed_json) \<Rightarrow> string \<Rightarrow> spot_transport_options \<Rightarrow> string + binance_transport_config" where
  "spot_transport_config parse exact_symbol options =
     (case make_spot_transport_routes exact_symbol of
        None \<Rightarrow> Inl ''Spot symbol cannot be represented by a Binance route''
      | Some routes \<Rightarrow>
          let combined = (so_profile options = G9CombinedEvents) in
          Inr \<lparr>bc_rest_host = sr_rest_host routes, bc_rest_port = sr_rest_port routes,
               bc_depth_target = sr_depth_target routes,
               bc_websocket_host = sr_websocket_host routes,
               bc_websocket_port = sr_websocket_port routes,
               bc_websocket_target =
                 (if combined then sr_combined_websocket_target routes else sr_websocket_target routes),
               bc_connection_id_prefix = sr_connection_id_prefix routes,
               bc_snapshot_request_id = sr_snapshot_request_id routes,
               bc_user_agent = ''bmd-gateway-g4/1.0.0'',
               bc_profile = so_profile options,
               bc_normalized_event_sink = so_normalized_event_sink options,
               bc_depth_frame_parser = Some (\<lambda>payload received_at connection_id.
                 parse_depth_frame parse payload received_at connection_id exact_symbol),
               bc_combined_frame_parser = Some (\<lambda>payload received_at connection_id.
                 parse_combined_event_frame parse payload received_at connection_id exact_symbol),
               bc_depth_snapshot_parser = Some (\<lambda>payload received_at request_id.
                 parse_depth_snapshot parse payload received_at request_id exact_symbol)\<rparr>)"

definition make_usdm_transport_config ::
  "(string \<Rightarrow> parsed_json) \<Rightarrow> string \<Rightarrow> bool \<Rightarrow> string + binance_transport_config" where
  "make_usdm_transport_config parse exact_symbol normalized_event_sink =
     (case make_usdm_transport_routes exact_symbol of
        None \<Rightarrow> Inl ''USD-M symbol cannot be represented by a Binance route''
      | Some routes \<Rightarrow>
          Inr \<lparr>bc_rest_host = ur_rest_host routes, bc_rest_port = ur_rest_port routes,
               bc_depth_target = ur_depth_target routes,
               bc_websocket_host = ur_websocket_host routes,
               bc_websocket_port = ur_websocket_port routes,
               bc_websocket_target = ur_websocket_target routes,
               bc_connection_id_prefix = ur_connection_id_prefix routes,
               bc_snapshot_request_id = ur_snapshot_request_id routes,
               bc_user_agent = ''bmd-gateway-g11-usdm/1.0.0'',
               bc_profile = (if normalized_event_sink then DepthWithEvents else DepthOnly),
               bc_normalized_event_sink = normalized_event_sink,
               bc_depth_frame_parser = Some (\<lambda>payload received_at connection_id.
                 parse_usdm_depth_frame parse payload received_at connection_id exact_symbol),
               bc_combined_frame_parser = None,
               bc_depth_snapshot_parser = Some (\<lambda>payload received_at request_id.
                 parse_usdm_depth_snapshot parse payload received_at request_id exact_symbol)\<rparr>)"

section \<open>The constructor\<close>

text \<open>
  \<open>BinanceTransport::Impl::Impl\<close>. \<open>clock\<close> is what the injected clock is: \<open>None\<close> an empty function,
  otherwise the reading it gives at construction. The result is the observation the transport
  starts with.
\<close>

definition routes_configured :: "binance_transport_config \<Rightarrow> bool" where
  "routes_configured config \<longleftrightarrow>
     \<not> (bc_rest_host config = [] \<or> bc_rest_port config = [] \<or> bc_depth_target config = []
        \<or> bc_websocket_host config = [] \<or> bc_websocket_port config = []
        \<or> bc_websocket_target config = [] \<or> bc_connection_id_prefix config = []
        \<or> bc_snapshot_request_id config = [] \<or> bc_user_agent config = []
        \<or> Option.is_none (bc_depth_frame_parser config)
        \<or> Option.is_none (bc_depth_snapshot_parser config))"

definition connection_id_for :: "binance_transport_config \<Rightarrow> u64 \<Rightarrow> clock_sample \<Rightarrow> string" where
  "connection_id_for config generation opened_at =
     bc_connection_id_prefix config @ to_string_u64 generation @ ''-'' @ to_string_u64 (cs_utc_ns opened_at)"

definition make_transport ::
  "clock_sample option \<Rightarrow> u64 \<Rightarrow> binance_transport_config \<Rightarrow> string + transport_observation" where
  "make_transport clock connection_generation config =
     (case clock of
        None \<Rightarrow> Inl ''G4 transport clock must be injected''
      | Some opened_at \<Rightarrow>
          if connection_generation = 0 then Inl ''G4 connection generation must be nonzero''
          else if \<not> routes_configured config then
            Inl ''Binance transport routes and depth parsers must be configured''
          else if bc_profile config = G9CombinedEvents \<and> Option.is_none (bc_combined_frame_parser config) then
            Inl ''Spot combined transport requires a combined parser''
          else if bc_profile config \<noteq> DepthOnly \<and> \<not> bc_normalized_event_sink config then
            Inl ''event-publishing transport requires an event sink''
          else Inr
            \<lparr>to_started = False, to_running = False, to_stopped = False, to_tls_verified = False,
             to_websocket_handshake = False, to_rest_depth_fetched = False,
             to_server_ping_observed = False, to_server_shutdown_observed = False,
             to_depth_frame_count = 0, to_agg_trade_frame_count = 0, to_book_ticker_frame_count = 0,
             to_last_event_utc_ns = None, to_profile = bc_profile config,
             to_connection_id = connection_id_for config connection_generation opened_at,
             to_connection_generation = connection_generation, to_terminal_error = None\<rparr>)"

text \<open>The public constructors of the two market transports.\<close>

definition make_spot_transport ::
  "(string \<Rightarrow> parsed_json) \<Rightarrow> clock_sample option \<Rightarrow> string \<Rightarrow> u64 \<Rightarrow> spot_transport_options
     \<Rightarrow> string + binance_transport_config \<times> transport_observation" where
  "make_spot_transport parse clock exact_symbol generation options =
     (case spot_transport_config parse exact_symbol options of
        Inl failure \<Rightarrow> Inl failure
      | Inr config \<Rightarrow>
          (case make_transport clock generation config of
             Inl failure \<Rightarrow> Inl failure
           | Inr observation \<Rightarrow> Inr (config, observation)))"

definition make_usdm_transport ::
  "(string \<Rightarrow> parsed_json) \<Rightarrow> clock_sample option \<Rightarrow> string \<Rightarrow> u64 \<Rightarrow> bool
     \<Rightarrow> string + binance_transport_config \<times> transport_observation" where
  "make_usdm_transport parse clock exact_symbol generation normalized_event_sink =
     (case make_usdm_transport_config parse exact_symbol normalized_event_sink of
        Inl failure \<Rightarrow> Inl failure
      | Inr config \<Rightarrow>
          (case make_transport clock generation config of
             Inl failure \<Rightarrow> Inl failure
           | Inr observation \<Rightarrow> Inr (config, observation)))"

end
