(* ===== verification/ProductSets.thy ===== *)
theory ProductSets
  imports MarketRegistry MarketRuntime ProductRuntime TransportRoutes
begin

text \<open>
  The configured set of products, \<open>src/src/g11/multi_market_runtime.{hpp,cpp}\<close>: which keys can be
  configured, how a product is put together from its three objects, how a set is prepared, owned
  and registered, and how the transport of an attempt is made for a product. Construction is in
  one thread; what happens to a set afterwards is in ProductSetSystem. The projection of a runtime
  is constructed by the third-party core, the parameter \<open>new_projection\<close>.
\<close>

section \<open>Keys and identities\<close>

datatype product_kind = KindSpot | KindUsdMPerpetual

datatype sequence_policy_kind = SequenceSpot | SequenceUsdMPerpetual

record expected_identity =
  xi_symbol :: string
  xi_sequence_policy :: sequence_policy_kind

text \<open>\<open>Inl\<close> is a thrown \<open>std::invalid_argument\<close>; below, \<open>None\<close> is an exception of a constructor.\<close>

definition validate_product_key :: "market_key \<Rightarrow> string + market_key" where
  "validate_product_key key =
     (if mk_venue key \<noteq> VENUE_BINANCE then Inl ''ProductRuntime requires Binance venue''
      else if mk_symbol key = [] then Inl ''ProductRuntime symbol must be non-empty''
      else case mk_market key of
        MARKET_SPOT \<Rightarrow>
          if spot_stream_symbol (mk_symbol key) = None
          then Inl ''ProductRuntime Spot symbol cannot be represented by a Binance route''
          else Inr key
      | MARKET_USD_M_PERPETUAL \<Rightarrow>
          if usdm_stream_symbol (mk_symbol key) = None
          then Inl ''ProductRuntime USD-M symbol cannot be represented by a Binance route''
          else Inr key
      | _ \<Rightarrow> Inl ''ProductRuntime requires Spot or USD-M perpetual market'')"

definition product_kind_for :: "market_key \<Rightarrow> product_kind option" where
  "product_kind_for key =
     (case mk_market key of MARKET_SPOT \<Rightarrow> Some KindSpot
      | MARKET_USD_M_PERPETUAL \<Rightarrow> Some KindUsdMPerpetual | _ \<Rightarrow> None)"

definition identity_for :: "market_key \<Rightarrow> expected_identity option" where
  "identity_for key =
     (case mk_market key of
        MARKET_SPOT \<Rightarrow> Some \<lparr>xi_symbol = mk_symbol key, xi_sequence_policy = SequenceSpot\<rparr>
      | MARKET_USD_M_PERPETUAL \<Rightarrow>
          Some \<lparr>xi_symbol = mk_symbol key, xi_sequence_policy = SequenceUsdMPerpetual\<rparr>
      | _ \<Rightarrow> None)"

definition legacy_key_for :: "product_kind \<Rightarrow> market_key" where
  "legacy_key_for product_kind =
     (case product_kind of KindSpot \<Rightarrow> spot_btcusdt_key | KindUsdMPerpetual \<Rightarrow> usdm_btcusdt_key)"

section \<open>A product\<close>

text \<open>Durations are in nanoseconds. Of \<open>RuntimeTestOptions\<close> only the paused start is kept.\<close>

definition kPlannedRotationAge :: int where
  "kPlannedRotationAge = (23 * 60 + 50) * 60 * 1000000000"

record product_options =
  po_runtime_limits :: runtime_limits
  po_owner_starts_paused :: bool
  po_event_limits :: event_publication_limits
  po_planned_rotation :: int

text \<open>\<open>ProductRuntimeOptions{}\<close>.\<close>

definition default_product_options :: product_options where
  "default_product_options =
     \<lparr>po_runtime_limits = \<lparr>rl_ingress_capacity = 64, rl_bootstrap_capacity = 64,
        rl_publication = default_publication_limits\<rparr>,
      po_owner_starts_paused = False,
      po_event_limits = \<lparr>el_maximum_active_subscriptions = kMaximumActiveEventSubscriptions,
        el_ordinary_queue_capacity = kEventOrdinaryQueueCapacity\<rparr>,
      po_planned_rotation = kPlannedRotationAge\<rparr>"

record 'n product_spec =
  px_key :: market_key
  px_numeric_spec :: 'n
  px_options :: product_options

text \<open>The event hub is the object behind the coordinator's callbacks, \<open>rc_hub\<close>.\<close>

record ('p, 'g, 's) product =
  pd_key :: market_key
  pd_runtime :: "('p, 'g, 's) runtime"
  pd_recovery :: "('g, hub) coordinator"

abbreviation pd_event_publication :: "('p, 'g, 's) product \<Rightarrow> event_publication" where
  "pd_event_publication product \<equiv> fst (rc_hub (pd_recovery product))"

text \<open>What the constructors of a set have in common: the projection, the clock, the identity of
  the gateway, and the thread id the owner of the \<open>i\<close>-th runtime will have.\<close>

record ('n, 'p) construction =
  cn_new_projection :: "'n \<Rightarrow> expected_identity \<Rightarrow> 'p"
  cn_has_clock :: bool
  cn_gateway_instance_id :: string
  cn_owner_thread :: "nat \<Rightarrow> nat"

definition make_product ::
  "('n, 'p) construction \<Rightarrow> nat \<Rightarrow> 'n product_spec \<Rightarrow> ('p, 'g, 's) product option" where
  "make_product cn i spec =
     (let options = px_options spec in
      case validate_product_key (px_key spec) of
        Inl _ \<Rightarrow> None
      | Inr key \<Rightarrow>
          Option.bind (identity_for key) (\<lambda>identity.
          Option.bind (make_runtime (po_runtime_limits options) (cn_has_clock cn) (xi_symbol identity)
            (cn_new_projection cn (px_numeric_spec spec) identity) (po_owner_starts_paused options)
            (cn_owner_thread cn i)) (\<lambda>runtime.
          Option.bind (make_event_publication (cn_gateway_instance_id cn) (cn_has_clock cn)
            (po_event_limits options)) (\<lambda>hub.
          Option.bind (make_coordinator (cn_has_clock cn) (Some (po_planned_rotation options))
            (True, True, True) True (hub, 0)) (\<lambda>recovery.
          Some \<lparr>pd_key = key, pd_runtime = runtime, pd_recovery = recovery\<rparr>)))))"

definition product_kind_of :: "('p, 'g, 's) product \<Rightarrow> product_kind option" where
  "product_kind_of product = product_kind_for (pd_key product)"

text \<open>
  The attempt factory of \<open>coordinator_options\<close>: the transport a product's coordinator creates. Both
  attempts are given the sink of \<open>ProductRuntime.product_event_sink\<close>.
\<close>

definition make_spot_attempt_options :: spot_transport_options where
  "make_spot_attempt_options = \<lparr>so_profile = G9CombinedEvents, so_normalized_event_sink = True\<rparr>"

definition product_attempt ::
  "(string \<Rightarrow> parsed_json) \<Rightarrow> clock_sample option \<Rightarrow> market_key \<Rightarrow> u64
     \<Rightarrow> string + binance_transport_config \<times> transport_observation" where
  "product_attempt parse clock key generation =
     (if mk_market key = MARKET_SPOT
      then make_spot_transport parse clock (mk_symbol key) generation make_spot_attempt_options
      else make_usdm_transport parse clock (mk_symbol key) generation True)"

section \<open>A set of products\<close>

fun has_adjacent :: "('a \<Rightarrow> 'a \<Rightarrow> bool) \<Rightarrow> 'a list \<Rightarrow> bool" where
  "has_adjacent same (x # y # rest) = (same x y \<or> has_adjacent same (y # rest))"
| "has_adjacent same _ = False"

definition prepare :: "enum_numbers \<Rightarrow> 'n product_spec list \<Rightarrow> 'n product_spec list option" where
  "prepare en specifications =
     (if specifications = [] \<or> length specifications > kMaximumConfiguredProducts then None
      else
        let sorted = sort_keyed en px_key specifications
        in if has_adjacent (\<lambda>left right. px_key left = px_key right) sorted then None else Some sorted)"

text \<open>A constructor that throws ends the loop; what was constructed before is destroyed.\<close>

fun construct_owners ::
  "('n, 'p) construction \<Rightarrow> nat \<Rightarrow> 'n product_spec list \<Rightarrow> ('p, 'g, 's) product list option" where
  "construct_owners cn i [] = Some []"
| "construct_owners cn i (spec # rest) =
     (case make_product cn i spec of
        None \<Rightarrow> None
      | Some owner \<Rightarrow> map_option ((#) owner) (construct_owners cn (Suc i) rest))"

text \<open>The address of an object of the \<open>i\<close>-th owner is \<open>i\<close>, among the objects of its type.\<close>

definition services_of :: "nat \<Rightarrow> ('p, 'g, 's) product \<Rightarrow> market_services" where
  "services_of i owner =
     \<lparr>ms_key = pd_key owner, ms_runtime = Some i, ms_recovery = Some i, ms_event_publication = Some i\<rparr>"

definition make_registry_entries :: "('p, 'g, 's) product list \<Rightarrow> market_services list" where
  "make_registry_entries owners = map (\<lambda>(i, owner). services_of i owner) (enumerate 0 owners)"

record ('p, 'g, 's) product_set =
  pset_owners :: "('p, 'g, 's) product list"
  pset_registry :: "market_services list"

definition make_product_set ::
  "enum_numbers \<Rightarrow> ('n, 'p) construction \<Rightarrow> 'n product_spec list \<Rightarrow> ('p, 'g, 's) product_set option" where
  "make_product_set en cn specifications =
     Option.bind (prepare en specifications) (\<lambda>prepared.
     Option.bind (construct_owners cn 0 prepared) (\<lambda>owners.
     Option.bind (make_registry en (make_registry_entries owners)) (\<lambda>registry.
       Some \<lparr>pset_owners = owners, pset_registry = registry\<rparr>)))"

definition set_size :: "('p, 'g, 's) product_set \<Rightarrow> nat" where
  "set_size products = length (pset_owners products)"

text \<open>\<open>find\<close> gives the position of the product; \<open>None\<close> is a null pointer.\<close>

definition set_find :: "('p, 'g, 's) product_set \<Rightarrow> market_key \<Rightarrow> nat option" where
  "set_find products key =
     List.find (\<lambda>i. pd_key (pset_owners products ! i) = key) [0..<length (pset_owners products)]"

section \<open>The two products of the fixed configuration\<close>

definition two_product_specifications ::
  "'n \<Rightarrow> 'n \<Rightarrow> product_options \<Rightarrow> product_options \<Rightarrow> 'n product_spec list" where
  "two_product_specifications spot_numeric_spec usdm_numeric_spec spot usdm =
     [\<lparr>px_key = spot_btcusdt_key, px_numeric_spec = spot_numeric_spec, px_options = spot\<rparr>,
      \<lparr>px_key = usdm_btcusdt_key, px_numeric_spec = usdm_numeric_spec, px_options = usdm\<rparr>]"

definition make_two_products ::
  "enum_numbers \<Rightarrow> ('n, 'p) construction \<Rightarrow> 'n \<Rightarrow> 'n \<Rightarrow> product_options \<Rightarrow> product_options
     \<Rightarrow> ('p, 'g, 's) product_set option" where
  "make_two_products en cn spot_numeric_spec usdm_numeric_spec spot usdm =
     make_product_set en cn (two_product_specifications spot_numeric_spec usdm_numeric_spec spot usdm)"

definition two_spot :: "('p, 'g, 's) product_set \<Rightarrow> nat option" where
  "two_spot products = set_find products spot_btcusdt_key"

definition two_usdm :: "('p, 'g, 's) product_set \<Rightarrow> nat option" where
  "two_usdm products = set_find products usdm_btcusdt_key"

section \<open>What can be constructed\<close>

definition limits_ok :: "product_options \<Rightarrow> bool" where
  "limits_ok options \<longleftrightarrow>
     (let runtime = po_runtime_limits options; publication = rl_publication runtime;
          events = po_event_limits options
      in 0 < rl_ingress_capacity runtime \<and> 0 < rl_bootstrap_capacity runtime
        \<and> 0 < pl_maximum_active_subscriptions publication \<and> 0 < pl_ordinary_queue_capacity publication
        \<and> 0 < pl_pending_admission_capacity publication
        \<and> 0 < el_maximum_active_subscriptions events
        \<and> el_maximum_active_subscriptions events \<le> kMaximumActiveEventSubscriptions
        \<and> 0 < el_ordinary_queue_capacity events
        \<and> el_ordinary_queue_capacity events \<le> kEventOrdinaryQueueCapacity
        \<and> 0 < po_planned_rotation options)"

definition product_key_ok :: "market_key \<Rightarrow> bool" where
  "product_key_ok key \<longleftrightarrow> mk_venue key = VENUE_BINANCE
     \<and> mk_market key \<in> {MARKET_SPOT, MARKET_USD_M_PERPETUAL} \<and> spot_stream_symbol (mk_symbol key) \<noteq> None"

definition constructible :: "('n, 'p) construction \<Rightarrow> 'n product_spec \<Rightarrow> bool" where
  "constructible cn spec \<longleftrightarrow> product_key_ok (px_key spec) \<and> limits_ok (px_options spec)
     \<and> cn_has_clock cn \<and> cn_gateway_instance_id cn \<noteq> []"

lemma spot_stream_symbol_empty [simp]: "spot_stream_symbol [] = None"
  by (simp add: spot_stream_symbol_def)

lemma validate_product_key_iff:
  "validate_product_key key = Inr k \<longleftrightarrow> product_key_ok key \<and> k = key"
  by (auto simp: validate_product_key_def product_key_ok_def usdm_stream_symbol_def
      split: wire_market.splits if_splits)

lemma validate_product_key_ok [simp]: "product_key_ok key \<Longrightarrow> validate_product_key key = Inr key"
  by (simp add: validate_product_key_iff)

lemma validate_product_key_bad: "\<not> product_key_ok key \<Longrightarrow> \<exists>what. validate_product_key key = Inl what"
  using validate_product_key_iff [of key] by (cases "validate_product_key key") auto

lemma identity_for_ok: "product_key_ok key \<Longrightarrow>
   \<exists>identity. identity_for key = Some identity \<and> xi_symbol identity = mk_symbol key \<and> mk_symbol key \<noteq> []"
  by (auto simp: identity_for_def product_key_ok_def)

lemma make_product_cases:
  "if constructible cn spec
   then \<exists>identity runtime hub recovery.
     identity_for (px_key spec) = Some identity
     \<and> make_runtime (po_runtime_limits (px_options spec)) True (xi_symbol identity)
         (cn_new_projection cn (px_numeric_spec spec) identity) (po_owner_starts_paused (px_options spec))
         (cn_owner_thread cn i) = Some runtime
     \<and> make_event_publication (cn_gateway_instance_id cn) True (po_event_limits (px_options spec)) = Some hub
     \<and> make_coordinator True (Some (po_planned_rotation (px_options spec))) (True, True, True) True (hub, 0)
         = Some recovery
     \<and> make_product cn i spec
         = Some \<lparr>pd_key = px_key spec, pd_runtime = runtime, pd_recovery = recovery\<rparr>
   else make_product cn i spec = None"
proof (cases "product_key_ok (px_key spec)")
  case False
  with validate_product_key_bad show ?thesis by (force simp: constructible_def make_product_def)
next
  case True
  with identity_for_ok obtain identity where "identity_for (px_key spec) = Some identity"
    "xi_symbol identity \<noteq> []" by metis
  with True show ?thesis
    by (auto simp: constructible_def make_product_def limits_ok_def Let_def make_runtime_def
        make_event_publication_def make_coordinator_def)
qed

lemma make_product_iff: "make_product cn i spec \<noteq> None \<longleftrightarrow> constructible cn spec"
  using make_product_cases [of cn spec i] by (auto split: if_splits)

lemma make_product_key: "make_product cn i spec = Some product \<Longrightarrow> pd_key product = px_key spec"
  by (auto simp: make_product_def Let_def bind_eq_Some_conv validate_product_key_iff split: sum.splits)

lemma construct_owners_iff: "construct_owners cn i specs \<noteq> None \<longleftrightarrow> list_all (constructible cn) specs"
proof (induction specs arbitrary: i)
  case (Cons spec specs)
  from make_product_iff [of cn i spec] Cons.IH [of "Suc i"] show ?case
    by (auto split: option.split)
qed simp

lemma construct_owners_nth:
  "construct_owners cn i specs = Some owners \<Longrightarrow>
     length owners = length specs \<and> (\<forall>j < length specs. make_product cn (i + j) (specs ! j) = Some (owners ! j))"
proof (induction specs arbitrary: i owners)
  case (Cons spec specs)
  then obtain owner rest where parts: "make_product cn i spec = Some owner"
    "construct_owners cn (Suc i) specs = Some rest" "owners = owner # rest"
    by (auto split: option.splits)
  from Cons.IH [OF parts(2)] have "length rest = length specs"
    "\<And>j. j < length specs \<Longrightarrow> make_product cn (i + Suc j) (specs ! j) = Some (rest ! j)" by auto
  with parts(1,3) show ?case by (auto simp: less_Suc_eq_0_disj)
qed simp

lemma construct_owners_keys:
  assumes "construct_owners cn i specs = Some owners"
  shows "map pd_key owners = map px_key specs"
  using construct_owners_nth [OF assms] by (intro nth_equalityI) (auto intro: make_product_key)

section \<open>What is prepared and registered\<close>

lemma has_adjacent_iff:
  assumes "distinct_numbers en"
  shows "sorted_wrt (key_le en key) xs \<Longrightarrow>
    has_adjacent (\<lambda>left right. key left = key right) xs \<longleftrightarrow> \<not> distinct (map key xs)"
proof (induction xs rule: induct_list012)
  case (3 x y zs)
  have "key x \<notin> key ` set zs" if "key x \<noteq> key y"
  proof
    assume "key x \<in> key ` set zs"
    then obtain z where z: "z \<in> set zs" "key z = key x" by auto
    with "3.prems" have "key_le en key x y" "key_le en key y x" by (auto simp: key_le_def)
    with that show False unfolding key_le_def by (metis assms market_key_less_total)
  qed
  with 3 show ?case by auto
qed simp_all

lemma prepare_iff:
  assumes "distinct_numbers en"
  shows "prepare en specs =
    (if specs \<noteq> [] \<and> length specs \<le> kMaximumConfiguredProducts \<and> distinct (map px_key specs)
     then Some (sort_keyed en px_key specs) else None)"
proof -
  have "mset (map px_key (sort_keyed en px_key specs)) = mset (map px_key specs)" by simp
  then have "distinct (map px_key (sort_keyed en px_key specs)) = distinct (map px_key specs)"
    by (metis mset_eq_imp_distinct_iff)
  with has_adjacent_iff [OF assms sorted_sort_keyed [OF assms], of px_key specs] show ?thesis
    by (auto simp: prepare_def Let_def)
qed

lemma registry_entries_simps [simp]:
  "length (make_registry_entries owners) = length owners"
  "map ms_key (make_registry_entries owners) = map pd_key owners"
  "map ms_runtime (make_registry_entries owners) = map Some [0..<length owners]"
  "map ms_recovery (make_registry_entries owners) = map Some [0..<length owners]"
  "map ms_event_publication (make_registry_entries owners) = map Some [0..<length owners]"
  by (auto simp: make_registry_entries_def services_of_def nth_enumerate_eq intro!: nth_equalityI)

lemma registry_entries_nth:
  "i < length owners \<Longrightarrow> make_registry_entries owners ! i = services_of i (owners ! i)"
  by (simp add: make_registry_entries_def nth_enumerate_eq)

lemma registry_entries_ok:
  assumes "owners \<noteq> []" and "length owners \<le> kMaximumConfiguredProducts" and "distinct (map pd_key owners)"
  shows "services_ok (make_registry_entries owners)"
proof -
  have "list_all complete_services (make_registry_entries owners)"
    by (auto simp: list_all_length registry_entries_nth services_of_def complete_services_def)
  moreover have "make_registry_entries owners \<noteq> []"
    using assms(1) registry_entries_simps(1) [of owners] by (metis length_0_conv)
  moreover have "distinct (map Some [0..<length owners])" by (simp add: distinct_map)
  ultimately show ?thesis using assms(2,3) by (simp add: services_ok_def)
qed

text \<open>The registry of a prepared set keeps its order.\<close>

lemma registry_in_order:
  assumes "distinct_numbers en" and "sorted_wrt (key_le en pd_key) owners" and "distinct (map pd_key owners)"
  shows "sort_services en (make_registry_entries owners) = make_registry_entries owners"
proof (rule sorted_keys_unique [OF assms(1)])
  show "sorted_wrt (key_le en ms_key) (sort_services en (make_registry_entries owners))"
    unfolding sort_services_def by (rule sorted_sort_keyed [OF assms(1)])
  show "sorted_wrt (key_le en ms_key) (make_registry_entries owners)"
    using assms(2) by (auto simp: sorted_wrt_iff_nth_less registry_entries_nth key_le_def services_of_def)
  have "mset (map ms_key (sort_services en (make_registry_entries owners))) = mset (map pd_key owners)"
    by (metis mset_map registry_entries_simps(2) sort_services_simps(1))
  then show "distinct (map ms_key (sort_services en (make_registry_entries owners)))"
    using assms(3) by (metis mset_eq_imp_distinct_iff)
qed simp

section \<open>Names of connections\<close>

definition stream_letter :: "char \<Rightarrow> char" where
  "stream_letter c = (if between 65 c 90 then lower_letter c else c)"

lemma spot_stream_symbol_loop_iff:
  "spot_stream_symbol_loop symbol encoded = Some e \<longleftrightarrow>
     list_all (\<lambda>c. between 65 c 90 \<or> is_digit c) symbol \<and> e = encoded @ map stream_letter symbol"
  by (induction symbol arbitrary: encoded) (auto simp: stream_letter_def)

lemma stream_symbolD:
  "spot_stream_symbol s = Some e \<Longrightarrow> (\<forall>c\<in>set s. between 65 c 90 \<or> is_digit c) \<and> e = map stream_letter s"
  by (simp add: spot_stream_symbol_def spot_stream_symbol_loop_iff list_all_iff split: if_splits)

lemma stream_letter_code:
  assumes "between 65 c 90 \<or> is_digit c"
  shows "(of_char c :: nat) = (let n = of_char (stream_letter c) in if n < 97 then n else n - 32)"
    and "(of_char (stream_letter c) :: nat) \<ge> 48"
proof -
  have "(of_char (lower_letter c) :: nat) = of_char c + 32" if "between 65 c 90"
    using that by (auto simp: lower_letter_def between_def)
  then show "(of_char c :: nat) = (let n = of_char (stream_letter c) in if n < 97 then n else n - 32)"
    and "(of_char (stream_letter c) :: nat) \<ge> 48"
    using assms by (auto simp: stream_letter_def between_def is_digit_def)
qed

lemma stream_letter_inject:
  assumes "between 65 c 90 \<or> is_digit c" and "between 65 d 90 \<or> is_digit d"
    and "stream_letter c = stream_letter d"
  shows "c = d"
proof -
  have "(of_char c :: nat) = of_char d"
    using stream_letter_code(1) [OF assms(1)] stream_letter_code(1) [OF assms(2)] assms(3) by simp
  then show ?thesis by (rule of_char_eq_iff [THEN iffD1])
qed

lemma stream_symbol_inject:
  assumes "spot_stream_symbol s = Some e" and "spot_stream_symbol t = Some e"
  shows "s = t"
proof (rule map_inj_on)
  show "map stream_letter s = map stream_letter t"
    using stream_symbolD [OF assms(1)] stream_symbolD [OF assms(2)] by simp
  show "inj_on stream_letter (set s \<union> set t)"
  proof (rule inj_onI)
    fix c d assume "c \<in> set s \<union> set t" "d \<in> set s \<union> set t" and same: "stream_letter c = stream_letter d"
    with stream_symbolD [OF assms(1)] stream_symbolD [OF assms(2)]
    have "between 65 c 90 \<or> is_digit c" "between 65 d 90 \<or> is_digit d" by blast+
    with same show "c = d" by (simp only: stream_letter_inject)
  qed
qed

lemma dash_not_in_symbol: "spot_stream_symbol s = Some e \<Longrightarrow> CHR ''-'' \<notin> set e"
proof
  assume e: "spot_stream_symbol s = Some e" and dash: "CHR ''-'' \<in> set e"
  with stream_symbolD [OF e] obtain c where "between 65 c 90 \<or> is_digit c" "stream_letter c = CHR ''-''"
    by fastforce
  with stream_letter_code(2) [of c] show False by simp
qed

lemma dash_not_in_number: "CHR ''-'' \<notin> set (to_string_u64 n)"
  using list_all_nat_digits [of "unat n"] by (auto simp: to_string_u64_def list_all_iff is_digit_def)

lemma dash_splits:
  assumes "(c :: char) \<notin> set a" and "c \<notin> set b"
  shows "a @ c # x = b @ c # y \<longleftrightarrow> a = b \<and> x = y"
proof
  assume eq: "a @ c # x = b @ c # y"
  have "Some (length a) = find_char c (a @ c # x)" using assms(1) by simp
  also have "\<dots> = Some (length b)" unfolding eq using assms(2) by simp
  finally have "length a = length b" by simp
  with eq show "a = b \<and> x = y" by simp
qed simp

text \<open>The prefix of a transport's connection ids.\<close>

definition market_prefix :: "wire_market \<Rightarrow> string" where
  "market_prefix market = (if market = MARKET_SPOT then ''binance-spot-'' else ''binance-usdm-'')"

lemma make_transport_id:
  "make_transport (Some opened_at) generation config = Inr ob \<Longrightarrow>
     to_connection_id ob = connection_id_for config generation opened_at"
  by (auto simp: make_transport_def split: if_splits)

lemma attempt_connection_id:
  assumes "product_key_ok key" and "product_attempt parse (Some opened_at) key generation = Inr (config, ob)"
  obtains e where "spot_stream_symbol (mk_symbol key) = Some e"
    and "to_connection_id ob = market_prefix (mk_market key)
      @ e @ ''-g'' @ to_string_u64 generation @ ''-'' @ to_string_u64 (cs_utc_ns opened_at)"
proof -
  obtain e where e: "spot_stream_symbol (mk_symbol key) = Some e"
    using assms(1) by (auto simp: product_key_ok_def)
  have made: "make_transport (Some opened_at) generation config = Inr ob
      \<and> bc_connection_id_prefix config = market_prefix (mk_market key) @ e @ ''-g''"
  proof (cases "mk_market key = MARKET_SPOT")
    case True
    with assms(2) have "make_spot_transport parse (Some opened_at) (mk_symbol key) generation
        make_spot_attempt_options = Inr (config, ob)" by (simp add: product_attempt_def)
    with e True show ?thesis
      by (auto simp: make_spot_transport_def spot_transport_config_def make_spot_transport_routes_def
          Let_def market_prefix_def split: sum.splits)
  next
    case False
    with assms(2) have "make_usdm_transport parse (Some opened_at) (mk_symbol key) generation True
        = Inr (config, ob)" by (simp add: product_attempt_def)
    with e False show ?thesis
      by (auto simp: make_usdm_transport_def make_usdm_transport_config_def make_usdm_transport_routes_def
          usdm_stream_symbol_def Let_def market_prefix_def split: sum.splits)
  qed
  have "to_connection_id ob = connection_id_for config generation opened_at"
    by (rule make_transport_id [OF made [THEN conjunct1]])
  with made show ?thesis by (intro that [OF e]) (simp add: connection_id_for_def)
qed

text \<open>The connection id under which an attempt receives, publishes and reports names the product,
  the generation and the time it was opened: two attempts of configured products with the same
  connection id are attempts of the same product and generation opened at the same reading of
  the clock, so events and observations of different connections are never taken for one
  another.\<close>

theorem connection_ids_identify:
  assumes "product_key_ok key" and "product_key_ok key'"
    and "product_attempt parse (Some opened_at) key generation = Inr (config, ob)"
    and "product_attempt parse' (Some opened_at') key' generation' = Inr (config', ob')"
    and "to_connection_id ob = to_connection_id ob'"
  shows "key = key' \<and> generation = generation' \<and> cs_utc_ns opened_at = cs_utc_ns opened_at'"
proof -
  let ?tail = "\<lambda>g t. CHR ''g'' # to_string_u64 g @ CHR ''-'' # to_string_u64 (cs_utc_ns t)"
  obtain e where e: "spot_stream_symbol (mk_symbol key) = Some e"
    "to_connection_id ob = market_prefix (mk_market key)
       @ e @ CHR ''-'' # ?tail generation opened_at"
    using attempt_connection_id [OF assms(1,3)] by (metis append_Cons append_Nil)
  obtain e' where e': "spot_stream_symbol (mk_symbol key') = Some e'"
    "to_connection_id ob' = market_prefix (mk_market key')
       @ e' @ CHR ''-'' # ?tail generation' opened_at'"
    using attempt_connection_id [OF assms(2,4)] by (metis append_Cons append_Nil)
  have market: "mk_market key = mk_market key'" and
    rest: "e @ CHR ''-'' # ?tail generation opened_at = e' @ CHR ''-'' # ?tail generation' opened_at'"
    using assms(1,2,5) e(2) e'(2) by (auto simp: product_key_ok_def market_prefix_def)
  from rest have "e = e'" and numbers: "to_string_u64 generation @ CHR ''-'' # to_string_u64 (cs_utc_ns opened_at)
      = to_string_u64 generation' @ CHR ''-'' # to_string_u64 (cs_utc_ns opened_at')"
    using dash_splits [OF dash_not_in_symbol [OF e(1)] dash_not_in_symbol [OF e'(1)]] by blast+
  with e(1) e'(1) have "mk_symbol key = mk_symbol key'" using stream_symbol_inject by blast
  moreover have "generation = generation' \<and> cs_utc_ns opened_at = cs_utc_ns opened_at'"
    using numbers by (simp add: dash_splits dash_not_in_number)
  ultimately show ?thesis using market assms(1,2) by (simp add: product_key_ok_def)
qed

text \<open>An attempt for each of the two fixed products.\<close>

definition example_clock_reading :: clock_sample where
  "example_clock_reading = \<lparr>cs_utc_ns = 5, cs_monotonic_ns = 7\<rparr>"

lemma example_attempt:
  obtains config ob where
    "product_attempt (\<lambda>_. Discarded) (Some example_clock_reading) usdm_btcusdt_key 3 = Inr (config, ob)"
proof (cases "product_attempt (\<lambda>_. Discarded) (Some example_clock_reading) usdm_btcusdt_key 3")
  case (Inl what)
  moreover have "\<not> isl (product_attempt (\<lambda>_. Discarded) (Some example_clock_reading) usdm_btcusdt_key 3)"
    by code_simp
  ultimately show ?thesis by simp
next
  case (Inr r)
  then show ?thesis by (cases r) (simp add: that)
qed

theorem connection_ids_identify_witness:
  "product_attempt (\<lambda>_. Discarded) (Some example_clock_reading) spot_btcusdt_key 3
     \<noteq> product_attempt (\<lambda>_. Discarded) (Some example_clock_reading) usdm_btcusdt_key 3"
proof -
  have ok: "product_key_ok spot_btcusdt_key" "product_key_ok usdm_btcusdt_key" by code_simp+
  obtain config ob where made:
    "product_attempt (\<lambda>_. Discarded) (Some example_clock_reading) usdm_btcusdt_key 3 = Inr (config, ob)"
    by (rule example_attempt)
  have "spot_btcusdt_key \<noteq> usdm_btcusdt_key" by (simp add: spot_btcusdt_key_def usdm_btcusdt_key_def)
  with made connection_ids_identify [OF ok _ made, of "\<lambda>_. Discarded" example_clock_reading 3 config ob]
  show ?thesis by auto
qed

section \<open>Properties of sets\<close>

lemma make_product_set_iff:
  assumes "distinct_numbers en"
  shows "make_product_set en cn specs =
    (if specs \<noteq> [] \<and> length specs \<le> kMaximumConfiguredProducts \<and> distinct (map px_key specs)
     then map_option (\<lambda>owners. \<lparr>pset_owners = owners, pset_registry = make_registry_entries owners\<rparr>)
            (construct_owners cn 0 (sort_keyed en px_key specs))
     else None :: ('p, 'g, 's) product_set option)"
proof (cases "specs \<noteq> [] \<and> length specs \<le> kMaximumConfiguredProducts \<and> distinct (map px_key specs)")
  case True
  let ?sorted = "sort_keyed en px_key specs"
  have "make_registry en (make_registry_entries owners) = Some (make_registry_entries owners)"
    if "construct_owners cn 0 ?sorted = Some owners" for owners :: "('p, 'g, 's) product list"
  proof -
    have keys: "map pd_key owners = map px_key ?sorted" by (rule construct_owners_keys [OF that])
    then have len: "length owners = length specs" by (metis length_map length_sort_keyed)
    have "mset (map px_key ?sorted) = mset (map px_key specs)" by simp
    with True have distinct: "distinct (map pd_key owners)"
      unfolding keys by (metis mset_eq_imp_distinct_iff)
    have nth: "pd_key (owners ! i) = px_key (?sorted ! i)" if "i < length owners" for i
      using keys that len by (metis length_sort_keyed nth_map)
    have sorted: "sorted_wrt (key_le en pd_key) owners"
      using sorted_sort_keyed [OF assms, of px_key specs] len
      by (auto simp: sorted_wrt_iff_nth_less key_le_def nth)
    have "services_ok (make_registry_entries owners)"
      using True len distinct by (intro registry_entries_ok) auto
    with registry_in_order [OF assms sorted distinct] show ?thesis
      by (simp add: make_registry_iff [OF assms])
  qed
  note registered = this
  show ?thesis
  proof (cases "construct_owners cn 0 ?sorted :: ('p, 'g, 's) product list option")
    case None
    with True show ?thesis by (simp add: make_product_set_def prepare_iff [OF assms])
  next
    case (Some owners)
    with True show ?thesis by (simp add: make_product_set_def prepare_iff [OF assms] registered)
  qed
next
  case False
  then show ?thesis by (auto simp: make_product_set_def prepare_iff [OF assms])
qed

lemma set_find_iff:
  assumes "distinct (map pd_key (pset_owners products))"
  shows "set_find products key = Some i
    \<longleftrightarrow> i < length (pset_owners products) \<and> pd_key (pset_owners products ! i) = key"
proof -
  let ?n = "length (pset_owners products)" and ?key = "\<lambda>i. pd_key (pset_owners products ! i)"
  have unique: "i = j" if "i < ?n" "j < ?n" "?key i = ?key j" for i j
    using assms that by (metis length_map nth_eq_iff_index_eq nth_map)
  show ?thesis
  proof
    assume "set_find products key = Some i"
    then show "i < ?n \<and> ?key i = key" by (auto simp: set_find_def find_Some_iff)
  next
    assume i: "i < ?n \<and> ?key i = key"
    then obtain j where j: "set_find products key = Some j"
      unfolding set_find_def by (metis (mono_tags, lifting) atLeastLessThan_iff atLeast_upt find_None_iff
          lessThan_iff not_None_eq)
    then have "j < ?n \<and> ?key j = key" by (auto simp: set_find_def find_Some_iff)
    with i j unique show "set_find products key = Some i" by metis
  qed
qed

text \<open>C12: a set of products can be constructed exactly from one to eight specifications with pairwise
  different keys, each of which names a routable Binance product and has non-degenerate limits;
  the set does not depend on the order of the specifications.\<close>

theorem configured_set_exact:
  assumes "distinct_numbers en" and "mset specs' = mset specs"
  shows "(make_product_set en cn specs = (None :: ('p, 'g, 's) product_set option) \<longleftrightarrow>
      \<not> (specs \<noteq> [] \<and> length specs \<le> kMaximumConfiguredProducts \<and> distinct (map px_key specs)
         \<and> list_all (constructible cn) specs))
    \<and> make_product_set en cn specs' = (make_product_set en cn specs :: ('p, 'g, 's) product_set option)"
proof
  have "list_all (constructible cn) (sort_keyed en px_key specs) = list_all (constructible cn) specs"
    by (simp add: list_all_iff)
  with construct_owners_iff [of cn 0 "sort_keyed en px_key specs"]
  show "make_product_set en cn specs = (None :: ('p, 'g, 's) product_set option) \<longleftrightarrow>
      \<not> (specs \<noteq> [] \<and> length specs \<le> kMaximumConfiguredProducts \<and> distinct (map px_key specs)
         \<and> list_all (constructible cn) specs)"
    unfolding make_product_set_iff [OF assms(1)] by (auto split: if_splits)
  have "length specs' = length specs" "specs' = [] \<longleftrightarrow> specs = []"
    using mset_eq_length [OF assms(2)] by auto
  moreover have "distinct (map px_key specs') = distinct (map px_key specs)"
    using assms(2) by (metis mset_eq_imp_distinct_iff mset_map)
  moreover have "sort_keyed en px_key specs' = sort_keyed en px_key specs" if "distinct (map px_key specs')"
    using sort_keyed_unique [OF assms(1,2) that] .
  ultimately show "make_product_set en cn specs' = (make_product_set en cn specs :: ('p, 'g, 's) product_set option)"
    unfolding make_product_set_iff [OF assms(1)] by auto
qed

text \<open>The two products of the fixed configuration, with default options.\<close>

definition example_construction :: "(unit, nat) construction" where
  "example_construction =
     \<lparr>cn_new_projection = (\<lambda>_ _. 0), cn_has_clock = True, cn_gateway_instance_id = ''gw'',
      cn_owner_thread = (\<lambda>i. i + 1)\<rparr>"

definition example_specs :: "unit product_spec list" where
  "example_specs = two_product_specifications () () default_product_options default_product_options"

lemma example_specs_ok: "example_specs \<noteq> []" "length example_specs \<le> kMaximumConfiguredProducts"
  "distinct (map px_key example_specs)" "list_all (constructible example_construction) example_specs"
  by code_simp+

theorem configured_set_exact_witness:
  "make_product_set example_numbers example_construction example_specs \<noteq> (None :: (nat, nat, nat) product_set option)
   \<and> make_product_set example_numbers example_construction (rev example_specs)
       = (make_product_set example_numbers example_construction example_specs :: (nat, nat, nat) product_set option)"
  using configured_set_exact [OF example_numbers_distinct, of "rev example_specs" example_specs example_construction]
    example_specs_ok
  by simp

text \<open>The registry of a constructed set maps each configured key to the runtime, the coordinator and the
  event hub of the product with that key, in the canonical order, and finds nothing else; the set's own
  lookup finds the same product.\<close>

theorem configured_set_serves_own:
  assumes "distinct_numbers en" and "make_product_set en cn specs = Some products"
  shows "map pd_key (pset_owners products) = map px_key (sort_keyed en px_key specs)
    \<and> registry_find (pset_registry products) key
        = map_option (\<lambda>i. services_of i (pset_owners products ! i)) (set_find products key)
    \<and> (set_find products key = None \<longleftrightarrow> key \<notin> px_key ` set specs)"
proof -
  from assms(2) have specs: "specs \<noteq> []" "length specs \<le> kMaximumConfiguredProducts" "distinct (map px_key specs)"
    and owners: "construct_owners cn 0 (sort_keyed en px_key specs) = Some (pset_owners products)"
    and entries: "pset_registry products = make_registry_entries (pset_owners products)"
    by (auto simp: make_product_set_iff [OF assms(1)] split: if_splits)
  have keys: "map pd_key (pset_owners products) = map px_key (sort_keyed en px_key specs)"
    by (rule construct_owners_keys [OF owners])
  have "mset (map px_key (sort_keyed en px_key specs)) = mset (map px_key specs)" by simp
  with specs(3) have distinct: "distinct (map pd_key (pset_owners products))"
    unfolding keys by (metis mset_eq_imp_distinct_iff)
  have "length (pset_owners products) = length specs" using keys by (metis length_map length_sort_keyed)
  with specs distinct have ok: "registry_ok (pset_registry products)"
    unfolding entries registry_ok_def by (intro registry_entries_ok) auto
  have "registry_find (pset_registry products) key
      = map_option (\<lambda>i. services_of i (pset_owners products ! i)) (set_find products key)"
  proof (cases "set_find products key")
    case None
    then have none: "\<forall>i < length (pset_owners products). pd_key (pset_owners products ! i) \<noteq> key"
      by (simp add: set_find_iff [OF distinct] flip: not_Some_eq)
    have "registry_find (pset_registry products) key = None"
      unfolding registry.find_None [OF ok]
    proof
      fix e assume "e \<in> set (pset_registry products)"
      then obtain i where "i < length (pset_owners products)" "e = services_of i (pset_owners products ! i)"
        by (auto simp: entries in_set_conv_nth registry_entries_nth)
      with none show "ms_key e \<noteq> key" by (simp add: services_of_def)
    qed
    with None show ?thesis by simp
  next
    case (Some i)
    then have i: "i < length (pset_owners products)" "pd_key (pset_owners products ! i) = key"
      by (simp_all add: set_find_iff [OF distinct])
    then have "services_of i (pset_owners products ! i) \<in> set (pset_registry products)"
      unfolding entries by (metis nth_mem registry_entries_nth registry_entries_simps(1))
    with i(2) Some show ?thesis
      by (simp add: registry.find_iff [OF ok] services_of_def)
  qed
  moreover have "set_find products key = None \<longleftrightarrow> key \<notin> set (map pd_key (pset_owners products))"
    using set_find_iff [OF distinct, of key]
    by (force simp: in_set_conv_nth simp flip: not_Some_eq)
  then have "set_find products key = None \<longleftrightarrow> key \<notin> px_key ` set specs" by (simp add: keys)
  ultimately show ?thesis using keys by simp
qed

theorem configured_set_serves_own_witness:
  "\<exists>products :: (nat, nat, nat) product_set.
     make_product_set example_numbers example_construction example_specs = Some products
     \<and> (\<exists>e. registry_find (pset_registry products) usdm_btcusdt_key = Some e)"
proof -
  obtain products :: "(nat, nat, nat) product_set" where made:
    "make_product_set example_numbers example_construction example_specs = Some products"
    using construct_owners_iff [of example_construction 0 "sort_keyed example_numbers px_key example_specs"] example_specs_ok
    by (auto simp: make_product_set_iff [OF example_numbers_distinct] list_all_iff)
  have "usdm_btcusdt_key \<in> px_key ` set example_specs"
    by (simp add: example_specs_def two_product_specifications_def)
  with configured_set_serves_own [OF example_numbers_distinct made, of usdm_btcusdt_key]
  have "registry_find (pset_registry products) usdm_btcusdt_key \<noteq> None" by auto
  with made show ?thesis by auto
qed

end
