(* ===== verification/ProductSteps.thy ===== *)
theory ProductSteps
  imports ProductRuntime RuntimeRuns RecoveryRuns
begin

text \<open>
  What the threads of a product leave alone: the flags of a runtime that are only ever set, the
  flags of a coordinator that its own thread does not touch, and that a hub which was shut down
  stays so. And how soon the owner thread serves a shutdown of the publications.
\<close>

section \<open>The flags of a runtime\<close>

definition latched :: "('p, 'g, 's) runtime \<Rightarrow> ('p, 'g, 's) runtime \<Rightarrow> bool" where
  "latched st s \<longleftrightarrow>
     (rt_stopped st \<longrightarrow> rt_stopped s) \<and> (rt_stop_requested st \<longrightarrow> rt_stop_requested s)
     \<and> (rt_publication_shutdown_requested st \<longrightarrow> rt_publication_shutdown_requested s)
     \<and> (rt_publication_shutdown_completed st \<longrightarrow> rt_publication_shutdown_completed s)"

lemma latched_refl [simp]: "latched st st"
  by (simp add: latched_def)

lemma latched_frame:
  assumes "owner_frame st s" and "rt_stopped s' = rt_stopped s" and "rt_stop_requested s' = rt_stop_requested s"
    and "rt_publication_shutdown_requested s' = rt_publication_shutdown_requested s"
    and "rt_publication_shutdown_completed s \<Longrightarrow> rt_publication_shutdown_completed s'"
  shows "latched st s'"
proof -
  have "same_control st s" using assms(1) unfolding owner_frame_def by blast
  with assms(2-) show ?thesis by (auto simp: same_control_def latched_def)
qed

lemma complete_request_latches [simp]:
  "rt_stopped (complete_admission_request_unlocked i r st) = rt_stopped st"
  "rt_stop_requested (complete_admission_request_unlocked i r st) = rt_stop_requested st"
  "rt_publication_shutdown_requested (complete_admission_request_unlocked i r st)
     = rt_publication_shutdown_requested st"
  "rt_publication_shutdown_completed (complete_admission_request_unlocked i r st)
     = rt_publication_shutdown_completed st"
  by (simp_all add: complete_admission_request_unlocked_def Let_def split: option.split)

lemma client_latched:
  "latched st (snd (start ops ok st))" "latched st (snd (stop_request st))"
  "latched st (snd (submit i st))" "latched st (snd (reset_begin st))"
  "latched st (snd (planned_reset_begin st))" "latched st (snd (capture_begin st))"
  "latched st (notify_subscriber_closed st)" "latched st (close_publication_admission st)"
  "latched st (snd (shutdown_begin st))" "latched st (release_owner_for_testing st)"
  "latched st (pause_owner_for_testing st)" "latched st (snd (admit_begin ops sub st))"
  by (simp_all add: latched_def start_def refresh_projection_observation_locked_def stop_request_def
      submit_def Let_def reset_begin_def planned_reset_begin_def capture_begin_def
      notify_subscriber_closed_def close_publication_admission_def shutdown_begin_def
      release_owner_for_testing_def pause_owner_for_testing_def admit_begin_def allocate_def
      split: if_splits)

lemma finish_latched:
  "reset_finish st = Some (rr, s) \<Longrightarrow> latched st s"
  "capture_finish st = Some (sr, s) \<Longrightarrow> latched st s"
  "observe_finish target st = Some (ob, s) \<Longrightarrow> latched st s"
  "wait_until_live_or_recovery_required token st = Some (res, s) \<Longrightarrow> latched st s"
  "wait_until_recovery_required token st = Some (res, s) \<Longrightarrow> latched st s"
  "stop_finish st = Some s \<Longrightarrow> latched st s"
  by (auto simp: latched_def reset_finish_def capture_finish_def observe_finish_def Let_def
      wait_until_live_or_recovery_required_def wait_until_recovery_required_def publish_tickets_locked_def
      stop_finish_def complete_all_admissions_locked_def complete_snapshot_if_pending_def
      split: option.splits if_splits)

lemma work_latched: "latched st (owner_perform ops w st)"
proof (cases w)
  case WorkShutdown
  show ?thesis unfolding WorkShutdown
    by (rule latched_frame [OF frame_close_all])
      (simp_all add: perform_publication_shutdown_control_def complete_all_admissions_locked_def)
next
  case (WorkFault f)
  show ?thesis unfolding WorkFault by (rule latched_frame [OF frame_fault]) simp_all
next
  case WorkReset
  show ?thesis
  proof (cases rule: perform_reset_cases [of st ops])
    case absent
    then show ?thesis unfolding WorkReset by (simp add: latched_def)
  next
    case (invalid r)
    then show ?thesis unfolding WorkReset by (simp add: set_reset_result_def latched_def)
  next
    case (threw r)
    show ?thesis unfolding WorkReset owner_perform.simps threw(4)
      by (rule latched_frame [OF reset_subscribers_facts(1)]) (simp_all add: set_reset_result_def)
  next
    case (reset r p s)
    then obtain ob where s: "s = (reset_subscribers ops (rr_kind r) st)\<lparr>rt_projection := p, rt_bootstrap := [],
          rt_current_projection_generation := None, rt_accepting := True, rt_observation := ob\<rparr>"
      by blast
    show ?thesis unfolding WorkReset owner_perform.simps reset(4)
      by (rule latched_frame [OF reset_subscribers_facts(1)]) (simp_all add: set_reset_result_def s)
  qed
next
  case (WorkAdmission i q)
  show ?thesis
  proof (cases rule: perform_admission_cases [of ops i q st])
    case (refused e s)
    show ?thesis unfolding WorkAdmission using refused(1)
      by (simp, intro latched_frame [OF refused(2)]) simp_all
  next
    case (prepared a ch s)
    show ?thesis unfolding WorkAdmission using prepared(1)
      by (simp, intro latched_frame [OF prepared(2)]) simp_all
  qed
next
  case (WorkCommit i a ch)
  show ?thesis
    by (simp add: WorkCommit commit_admission_def Let_def latched_def split: option.split)
next
  case WorkSnapshot
  show ?thesis
    by (simp add: WorkSnapshot perform_snapshot_request_def complete_snapshot_request_def Let_def latched_def
        split: option.split)
next
  case WorkSweep
  show ?thesis unfolding WorkSweep by (rule latched_frame [OF frame_sweep]) simp_all
next
  case (WorkItem item)
  obtain s where fr: "owner_frame st s"
    and eq: "process_item ops item st = finish_ticket (ii_ticket item) s"
    by (rule process_item_frame)
  from eq show ?thesis unfolding WorkItem
    by (simp, intro latched_frame [OF fr]) (simp_all add: finish_ticket_def)
qed

lemma select_latched:
  assumes "owner_select ops st = Some s"
  shows "latched st s"
proof -
  have exit: "latched st (owner_exit ops st)"
    by (rule latched_frame [OF frame_close_all [of st]])
      (simp_all add: owner_exit_def complete_snapshot_if_pending_def set_reset_result_def
        refresh_projection_observation_locked_def close_all_subscribers_for_shutdown_def
        complete_all_admissions_locked_def Let_def split: option.split)
  consider "s = owner_exit ops st"
    | "rt_stopped s = rt_stopped st" "rt_stop_requested s = rt_stop_requested st"
      "rt_publication_shutdown_requested s = rt_publication_shutdown_requested st"
      "rt_publication_shutdown_completed s = rt_publication_shutdown_completed st"
    using assms by (auto simp: owner_select_def split: if_splits option.splits list.splits prod.splits)
  then show ?thesis by cases (use exit in \<open>simp_all add: latched_def\<close>)
qed

lemma runtime_step_latched: "runtime_step ops st l s \<Longrightarrow> latched st s"
proof (induction rule: runtime_step.induct)
  case (rs_owner st s)
  then show ?case
    using select_latched work_latched by (auto simp: owner_step_def split: owner_phase.splits)
next
  case rs_acknowledge
  show ?case by (simp add: latched_def)
next
  case rs_writer_close
  show ?case by (simp add: latched_def)
qed (simp_all only: client_latched finish_latched)

section \<open>How soon a shutdown is served\<close>

text \<open>What the owner has begun is ended by one more step, two if it is an admission.\<close>

lemma perform_owner:
  "rt_owner (owner_perform ops w st) = OwnerWaiting
     \<or> (\<exists>i a ch. rt_owner (owner_perform ops w st) = OwnerWorking (WorkCommit i a ch))"
  by (cases w) (auto split: prod.splits option.splits)

lemma owner_comes_back:
  assumes "rt_owner st = OwnerWorking w"
  shows "\<exists>k \<le> 2. \<exists>u. owner_run ops k st = Some u \<and> rt_owner u = OwnerWaiting \<and> latched st u"
proof (cases "rt_owner (owner_perform ops w st) = OwnerWaiting")
  case True
  have "owner_run ops 1 st = Some (owner_perform ops w st)" using assms by (simp add: owner_step_def)
  with True work_latched show ?thesis by (intro exI [of _ "1 :: nat"]) auto
next
  case False
  let ?s = "owner_perform ops w st"
  obtain i a ch where s: "rt_owner ?s = OwnerWorking (WorkCommit i a ch)"
    using perform_owner [of ops w st] False by blast
  let ?u = "owner_perform ops (WorkCommit i a ch) ?s"
  have "owner_run ops 2 st = Some ?u" using assms s by (simp add: numeral_2_eq_2 owner_step_def)
  moreover have "rt_owner ?u = OwnerWaiting" by simp
  moreover have "latched st ?u"
    using work_latched [of st ops w] work_latched [of ?s ops "WorkCommit i a ch"]
    unfolding latched_def by blast
  ultimately show ?thesis by (intro exI [of _ "2 :: nat"] conjI exI [of _ ?u]) auto
qed

lemma shutdown_selected:
  assumes "rt_owner st = OwnerWaiting" and "shutdown_pending st"
  shows "\<exists>u. owner_run ops 2 st = Some u \<and> rt_publication_shutdown_completed u"
proof -
  have "owner_wait_ready st" using assms(2) by (simp add: owner_wait_ready_def)
  then show ?thesis
    using assms by (simp add: numeral_2_eq_2 owner_step_def owner_select_def
        perform_publication_shutdown_control_def Let_def)
qed

lemma shutdown_served:
  assumes "rt_publication_shutdown_requested st" and "\<not> rt_publication_shutdown_completed st"
    and "rt_owner st = OwnerWaiting \<or> (\<exists>w. rt_owner st = OwnerWorking w)"
  shows "\<exists>k \<le> 4. \<exists>u. owner_run ops k st = Some u \<and> rt_publication_shutdown_completed u"
proof -
  obtain k t where k: "k \<le> 2" "owner_run ops k st = Some t" and t: "rt_owner t = OwnerWaiting" "latched st t"
  proof (cases "rt_owner st = OwnerWaiting")
    case True
    with that [of 0 st] show ?thesis by simp
  next
    case False
    with assms(3) that owner_comes_back [of st _ ops] show ?thesis by blast
  qed
  show ?thesis
  proof (cases "rt_publication_shutdown_completed t")
    case True
    with k show ?thesis by (intro exI [of _ k]) auto
  next
    case False
    with t(2) assms(1) have "shutdown_pending t" by (auto simp: shutdown_pending_def latched_def)
    from shutdown_selected [OF t(1) this] obtain u where
      u: "owner_run ops 2 t = Some u" "rt_publication_shutdown_completed u" by blast
    have "owner_run ops (k + 2) st = Some u" unfolding owner_run_add k(2) bind.bind_lunit u(1) ..
    with k(1) u(2) show ?thesis by (intro exI [of _ "k + 2"]) auto
  qed
qed

section \<open>The owner leaves only when the shutdown was served\<close>

definition served_if_exited :: "('p, 'g, 's) runtime \<Rightarrow> bool" where
  "served_if_exited st \<longleftrightarrow> (rt_owner st = OwnerExited \<longrightarrow> rt_publication_shutdown_completed st)"

lemma client_owner [simp]:
  "rt_owner (snd (stop_request st)) = rt_owner st"
  "rt_owner (snd (submit i st)) = rt_owner st" "rt_owner (snd (reset_begin st)) = rt_owner st"
  "rt_owner (snd (planned_reset_begin st)) = rt_owner st" "rt_owner (snd (capture_begin st)) = rt_owner st"
  "rt_owner (notify_subscriber_closed st) = rt_owner st" "rt_owner (close_publication_admission st) = rt_owner st"
  "rt_owner (snd (shutdown_begin st)) = rt_owner st" "rt_owner (release_owner_for_testing st) = rt_owner st"
  "rt_owner (pause_owner_for_testing st) = rt_owner st" "rt_owner (snd (admit_begin ops sub st)) = rt_owner st"
  by (simp_all add: stop_request_def submit_def Let_def reset_begin_def planned_reset_begin_def
      capture_begin_def notify_subscriber_closed_def close_publication_admission_def shutdown_begin_def
      release_owner_for_testing_def pause_owner_for_testing_def admit_begin_def allocate_def)

lemma start_owner:
  "rt_owner (snd (start ops ok st)) = OwnerExited \<Longrightarrow> rt_owner st = OwnerExited"
  by (auto simp: start_def refresh_projection_observation_locked_def split: if_splits)

lemma finish_owner:
  "reset_finish st = Some (rr, s) \<Longrightarrow> rt_owner s = rt_owner st"
  "capture_finish st = Some (sr, s) \<Longrightarrow> rt_owner s = rt_owner st"
  "observe_finish target st = Some (ob, s) \<Longrightarrow> rt_owner s = rt_owner st"
  "wait_until_live_or_recovery_required token st = Some (res, s) \<Longrightarrow> rt_owner s = rt_owner st"
  "wait_until_recovery_required token st = Some (res, s) \<Longrightarrow> rt_owner s = rt_owner st"
  "stop_finish st = Some s \<Longrightarrow> rt_owner s = rt_owner st"
  by (auto simp: reset_finish_def capture_finish_def observe_finish_def Let_def
      wait_until_live_or_recovery_required_def wait_until_recovery_required_def publish_tickets_locked_def
      stop_finish_def complete_all_admissions_locked_def complete_snapshot_if_pending_def
      split: option.splits if_splits)

lemma perform_not_exited [simp]: "rt_owner (owner_perform ops w st) \<noteq> OwnerExited"
  using perform_owner [of ops w st] by auto

lemma exit_selected:
  assumes "owner_select ops st = Some s" and "rt_owner st = OwnerWaiting" and "rt_owner s = OwnerExited"
  shows "\<not> shutdown_pending st \<and> rt_stop_requested st"
  using assms by (auto simp: owner_select_def split: if_splits option.splits list.splits prod.splits)

lemma runtime_step_exit:
  assumes "runtime_step ops st l s" and "phase_inv st" and "served_if_exited st"
  shows "served_if_exited s"
proof -
  have later: "served_if_exited s" if "rt_owner s = OwnerExited \<Longrightarrow> rt_owner st = OwnerExited"
    using runtime_step_latched [OF assms(1)] assms(3) that by (auto simp: served_if_exited_def latched_def)
  have "owner_step ops st = Some s \<or> (rt_owner s = OwnerExited \<longrightarrow> rt_owner st = OwnerExited)"
    using assms(1) by cases (auto dest: start_owner finish_owner)
  then show ?thesis
  proof
    assume step: "owner_step ops st = Some s"
    have "rt_publication_shutdown_completed s" if ex: "rt_owner s = OwnerExited"
    proof -
      from step ex have sel: "owner_select ops st = Some s" "rt_owner st = OwnerWaiting"
        using perform_not_exited by (auto simp: owner_step_def split: owner_phase.splits)
      from exit_selected [OF this ex] assms(2) have "rt_publication_shutdown_completed st"
        by (auto simp: shutdown_pending_def phase_inv_def)
      with select_latched [OF sel(1)] show ?thesis by (simp add: latched_def)
    qed
    then show ?thesis by (simp add: served_if_exited_def)
  qed (rule later, simp)
qed

section \<open>What the coordinator thread leaves alone\<close>

text \<open>
  The flags of \<open>start\<close> and \<open>stop\<close>, and every property of the owner of the source generations that its
  callbacks keep.
\<close>

definition callbacks_keep :: "'h source_lifecycle option \<Rightarrow> ('h \<Rightarrow> bool) \<Rightarrow> bool" where
  "callbacks_keep lc P \<longleftrightarrow> (\<forall>callbacks. lc = Some callbacks \<longrightarrow> (\<forall>h g out. P h \<longrightarrow>
     P (snd (sl_open callbacks g h)) \<and> P (snd (sl_quiesce callbacks g h))
     \<and> P (snd (sl_close callbacks g out h))))"

definition kept :: "('h \<Rightarrow> bool) \<Rightarrow> ('g, 'h) coordinator \<Rightarrow> ('g, 'h) coordinator \<Rightarrow> bool" where
  "kept P st s \<longleftrightarrow> rc_started s = rc_started st \<and> rc_stopped s = rc_stopped st
     \<and> rc_shutdown_requested s = rc_shutdown_requested st \<and> (P (rc_hub st) \<longrightarrow> P (rc_hub s))"

named_theorems keeps

lemma kept_refl [keeps, simp]: "kept P st st"
  by (simp add: kept_def)

lemma kept_trans: "kept P st s \<Longrightarrow> kept P s u \<Longrightarrow> kept P st u"
  by (simp add: kept_def)

lemma kept_updates [keeps]:
  "kept P st s \<Longrightarrow> kept P st (observe_with f s)"
  "kept P st s \<Longrightarrow> kept P st (s\<lparr>rc_phase := ph\<rparr>)"
  "kept P st s \<Longrightarrow> kept P st (s\<lparr>rc_generation := g\<rparr>)"
  "kept P st s \<Longrightarrow> kept P st (s\<lparr>rc_active_attempt := a\<rparr>)"
  "kept P st s \<Longrightarrow> kept P st (s\<lparr>rc_attempts := n\<rparr>)"
  "kept P st s \<Longrightarrow> kept P st (s\<lparr>rc_source_generation_open := g'\<rparr>)"
  "kept P st s \<Longrightarrow> kept P st (s\<lparr>rc_source_generation_quiesced := q\<rparr>)"
  by (simp_all add: kept_def)

lemma kept_pieces [keeps]:
  "kept P st s \<Longrightarrow> kept P st (persist_last_event t s)"
  "kept P st s \<Longrightarrow> kept P st (set_terminal cause err exhausted s)"
  "kept P st s \<Longrightarrow> kept P st (leave_loop s)"
  "kept P st s \<Longrightarrow> kept P st (create_attempt t s)"
  "kept P st s \<Longrightarrow> kept P st (commit_planned_rotation t r s)"
  "kept P st s \<Longrightarrow> kept P st (exhaust d t s)"
  "kept P st s \<Longrightarrow> kept P st (snd (begin_backoff d s))"
  "kept P st s \<Longrightarrow> kept P st (snd (try_mark_live q t s))"
  by (simp_all add: kept_def persist_last_event_def set_terminal_def leave_loop_def create_attempt_def
      commit_planned_rotation_def exhaust_def begin_backoff_def try_mark_live_def Let_def split: option.split)

lemma kept_try: "kept P st s \<Longrightarrow> try_mark_live q t s = (live, u) \<Longrightarrow> kept P st u"
  using kept_pieces(8) [of P st s q t] by simp

lemma persist_hub [simp]: "rc_hub (persist_last_event t st) = rc_hub st"
  by (simp add: persist_last_event_def)

lemma kept_hub:
  "kept P st s \<Longrightarrow> (P (rc_hub s) \<Longrightarrow> P h) \<Longrightarrow> kept P st (s\<lparr>rc_hub := h\<rparr>)"
  by (auto simp: kept_def)

lemma kept_gone [keeps]: "kept P st s \<Longrightarrow> kept P st (attempt_gone a t s)"
  by (simp add: attempt_gone_def kept_def)

lemma kept_quiesce [keeps]:
  assumes "callbacks_keep lc P"
  shows "kept P st (snd (quiesce_attempt lc a t st))"
proof (cases rule: quiesce_attempt_cases [of st t lc a])
  case idle
  then show ?thesis by (simp add: keeps)
next
  case no_callback
  then show ?thesis by (simp add: keeps)
next
  case (refused callbacks hub)
  have "P (rc_hub st) \<longrightarrow> P hub"
    using assms refused(1) arg_cong [OF refused(4), of snd] unfolding callbacks_keep_def by auto
  then show ?thesis unfolding refused(5) snd_conv by (intro kept_hub keeps) simp_all
next
  case (quiesced callbacks hub)
  have "P (rc_hub st) \<longrightarrow> P hub"
    using assms quiesced(1) arg_cong [OF quiesced(4), of snd] unfolding callbacks_keep_def by auto
  then show ?thesis unfolding quiesced(5) snd_conv
    by (intro keeps kept_hub) simp_all
qed

lemma callbacks_keepD:
  assumes "callbacks_keep (Some callbacks) P" and "P h"
  shows "P (snd (sl_open callbacks g h))" "P (snd (sl_quiesce callbacks g h))"
    "P (snd (sl_close callbacks g out h))"
  using assms by (simp_all add: callbacks_keep_def)

lemma kept_open [keeps]:
  assumes "callbacks_keep lc P"
  shows "kept P st (snd (open_source_generation lc t g st))"
proof (cases lc)
  case None
  then show ?thesis by (simp add: open_source_generation_def keeps)
next
  case (Some callbacks)
  obtain r hub where r: "sl_open callbacks g (rc_hub st) = (r, hub)" by (cases "sl_open callbacks g (rc_hub st)")
  have "P (rc_hub st) \<longrightarrow> P hub"
    using callbacks_keepD(1) [of callbacks P "rc_hub st" g] assms r unfolding Some by auto
  then show ?thesis
    by (simp add: Some open_source_generation_def r kept_def Let_def split: option.split)
qed

lemma kept_close [keeps]:
  assumes "callbacks_keep lc P"
  shows "kept P st (snd (close_source_generation lc out st))"
proof (cases lc)
  case None
  then show ?thesis by (simp add: close_source_generation_def keeps split: option.split)
next
  case (Some callbacks)
  have "P (rc_hub st) \<longrightarrow> P hub" if "sl_close callbacks g out (rc_hub st) = (r, hub)" for g r hub
    using callbacks_keepD(3) [of callbacks P "rc_hub st" g out] assms that unfolding Some by auto
  then show ?thesis
    by (auto simp: Some close_source_generation_def kept_def Let_def split: option.split prod.split)
qed

lemma kept_after_exception [keeps]:
  assumes "callbacks_keep lc P"
  shows "kept P st (close_source_after_exception lc t st)"
proof -
  define r where "r = (if \<not> rc_source_generation_quiesced st
      then case rc_active_attempt st of Some attempt \<Rightarrow> quiesce_attempt lc attempt t st | None \<Rightarrow> (None, st)
      else (None, st))"
  have r: "kept P st (snd r)"
    using kept_quiesce [OF assms] by (auto simp: r_def split: option.split)
  have "close_source_after_exception lc t st = (if rc_source_generation_open st = None then st
      else case r of (Some _, st1) \<Rightarrow> st1
        | (None, st1) \<Rightarrow> snd (close_source_generation lc ClosePermanentFailure st1))"
    unfolding close_source_after_exception_def r_def ..
  then show ?thesis
    using r kept_trans [OF r kept_close [OF assms]]
    by (cases r) (auto split: option.split)
qed

lemma kept_exception [keeps]:
  assumes "callbacks_keep lc P" and "kept P st s"
  shows "kept P st (coordinator_exception lc w m s)"
  unfolding coordinator_exception_def
  by (intro keeps) (rule kept_trans [OF assms(2) kept_after_exception [OF assms(1)]])

lemma kept_attempt_then:
  assumes "callbacks_keep lc P" and "kept P st (snd r)" and "\<And>s. kept P st s \<Longrightarrow> kept P st (k s)"
  shows "kept P st (attempt_then lc w r k)"
  using assms kept_exception by (cases r) (auto simp: attempt_then_def split: option.split)

lemma kept_quiesce_then:
  assumes "callbacks_keep lc P" and "kept P st u" and "\<And>s. kept P st s \<Longrightarrow> kept P st (k s)"
  shows "kept P st (attempt_then lc w (quiesce_attempt lc a t u) k)"
  by (rule kept_attempt_then [OF assms(1) kept_trans [OF assms(2) kept_quiesce [OF assms(1)]] assms(3)])

lemma kept_close_then:
  assumes "callbacks_keep lc P" and "kept P st u" and "\<And>s. kept P st s \<Longrightarrow> kept P st (k s)"
  shows "kept P st (attempt_then lc w (close_source_generation lc out u) k)"
  by (rule kept_attempt_then [OF assms(1) kept_trans [OF assms(2) kept_close [OF assms(1)]] assms(3)])

lemma kept_open_then:
  assumes "callbacks_keep lc P" and "kept P st u" and "\<And>s. kept P st s \<Longrightarrow> kept P st (k s)"
  shows "kept P st (attempt_then lc w (open_source_generation lc t g u) k)"
  by (rule kept_attempt_then [OF assms(1) kept_trans [OF assms(2) kept_open [OF assms(1)]] assms(3)])

lemma kept_backoff_then:
  assumes "callbacks_keep lc P" and "kept P st u" and "\<And>s. kept P st s \<Longrightarrow> kept P st (k s)"
  shows "kept P st (attempt_then lc w (begin_backoff d u) k)"
  by (rule kept_attempt_then [OF assms(1) kept_pieces(7) [OF assms(2)] assms(3)])

lemmas kept_thens = kept_quiesce_then kept_close_then kept_open_then kept_backoff_then

lemma kept_abandon [keeps]: "callbacks_keep lc P \<Longrightarrow> kept P st (abandon_attempt lc w a st)"
  unfolding abandon_attempt_def by (intro kept_thens keeps)

lemma kept_close_and_leave [keeps]: "callbacks_keep lc P \<Longrightarrow> kept P st (close_and_leave lc w st)"
  unfolding close_and_leave_def by (intro kept_thens keeps)

lemma kept_steps:
  assumes "callbacks_keep lc P"
  shows "kept P st (step_top lc w st)" "kept P st (step_created lc w a st)"
    "kept P st (step_started lc w a rot res st)" "kept P st (step_await_live lc w a rot st)"
    "kept P st (step_live lc w a rot st)" "kept P st (step_rotate lc w a st)"
    "kept P st (step_quiesce lc w a due st)" "kept P st (step_barrier lc w due t st)"
    "kept P st (step_planned_reset lc w t r st)" "kept P st (step_classify lc w t r st)"
    "kept P st (step_commit lc w d t st)" "kept P st (step_backoff w st)"
    "kept P st (step_recover st)" "kept P st (step_reset w st)"
proof -
  note k = assms
  show "kept P st (step_top lc w st)"
    unfolding step_top_def by (auto split: sum.split option.split intro!: keeps k)
  show "kept P st (step_created lc w a st)"
    unfolding step_created_def Let_def by (auto split: sum.split option.split intro!: kept_thens keeps k)
  show "kept P st (step_started lc w a rot res st)"
    unfolding step_started_def by (auto intro!: kept_thens keeps k)
  show "kept P st (step_await_live lc w a rot st)"
    unfolding step_await_live_def
    by (auto split: option.split prod.split bool.split intro!: keeps k
        dest!: kept_try [OF kept_refl])
  show "kept P st (step_live lc w a rot st)"
    unfolding step_live_def
    by (auto split: option.split sum.split timed_recovery_wait_result.split intro!: kept_thens keeps k)
  show "kept P st (step_rotate lc w a st)" unfolding step_rotate_def by (auto intro!: keeps k)
  show "kept P st (step_quiesce lc w a due st)" unfolding step_quiesce_def by (intro kept_thens keeps k)
  show "kept P st (step_barrier lc w due t st)"
    unfolding step_barrier_def Let_def by (auto split: option.split intro!: kept_thens keeps k)
  show "kept P st (step_planned_reset lc w t r st)"
    unfolding step_planned_reset_def by (auto intro!: kept_thens keeps k)
  show "kept P st (step_classify lc w t r st)"
    unfolding step_classify_def Let_def by (auto intro!: kept_thens keeps k)
  show "kept P st (step_commit lc w d t st)"
    unfolding step_commit_def by (auto intro!: kept_thens keeps k)
  show "kept P st (step_backoff w st)" unfolding step_backoff_def by (auto intro!: keeps)
  show "kept P st (step_recover st)" unfolding step_recover_def by (auto intro!: keeps)
  show "kept P st (step_reset w st)" unfolding step_reset_def by (auto intro!: keeps)
qed

lemma coordinator_step_kept:
  assumes "callbacks_keep lc P" and "coordinator_step lc w st = Some s"
  shows "kept P st s"
  using assms(2) kept_steps [OF assms(1), of st] unfolding coordinator_step.simps
  by (cases "rc_phase st") auto

section \<open>A hub that was shut down\<close>

definition hub_down :: "hub \<Rightarrow> bool" where
  "hub_down h \<longleftrightarrow> ep_source_state (fst h) = SrcShutdown"

lemma hub_callbacks_keep_down: "callbacks_keep (Some (coordinator_options clock)) hub_down"
  by (auto simp: callbacks_keep_def coordinator_options_def hub_down_def hub_open_def open_generation_def
      hub_quiesce_def ep_observe_def hub_close_def ep_shutdown_def close_generation_replaced_def
      close_generation_permanently_def split: if_splits option.split)

lemma hub_client_down:
  assumes "hub_client h h'" and "hub_down h"
  shows "hub_down h'"
  using assms
  by (cases rule: hub_client.cases)
    (auto simp: hub_down_def ep_admit_source publish_source sink_publish ep_shutdown_def ep_remove_def
      split: option.split)

end
