(* ===== verification/ProductSetSystem.thy ===== *)
theory ProductSetSystem
  imports ProductSets ProductSteps
begin

text \<open>
  What happens to a set of products: the lifecycle owner's calls of \<open>start\<close>,
  \<open>shutdown_publications\<close> and \<open>stop\<close> of \<open>ConfiguredProductRuntimeSet\<close>
  (\<open>src/src/g11/multi_market_runtime.cpp\<close>), down to the calls they make on the runtimes, the hubs
  and the coordinators, interleaved with the owner thread, the coordinator thread and the clients
  of every product.
\<close>

section \<open>The lifecycle owner\<close>

text \<open>
  One statement of the owner's thread on one product: an action runs from one look at shared state to
  the next. \<open>start\<close> and \<open>stop\<close> of \<open>RecoveryCoordinator\<close> are several actions each, around the runtime's
  \<open>start\<close>, the join of the coordinator thread and the runtime's \<open>stop\<close>.
\<close>

datatype set_action =
    ActStart nat
  | ActStartRuntime nat
  | ActStarted nat start_result
  | ActCloseAdmission nat
  | ActShutdown nat
  | ActAwaitShutdown nat
  | ActHubShutdown nat
  | ActStop nat
  | ActJoinCoordinator nat
  | ActStopRuntime nat
  | ActJoinRuntime nat
  | ActStopped nat

fun action_product :: "set_action \<Rightarrow> nat" where
  "action_product (ActStart i) = i"
| "action_product (ActStartRuntime i) = i"
| "action_product (ActStarted i _) = i"
| "action_product (ActCloseAdmission i) = i"
| "action_product (ActShutdown i) = i"
| "action_product (ActAwaitShutdown i) = i"
| "action_product (ActHubShutdown i) = i"
| "action_product (ActStop i) = i"
| "action_product (ActJoinCoordinator i) = i"
| "action_product (ActStopRuntime i) = i"
| "action_product (ActJoinRuntime i) = i"
| "action_product (ActStopped i) = i"

text \<open>The action waits, throws, or is done: then the actions that follow it in the same call of the
  product, and the result if the product's \<open>start\<close> has returned one.\<close>

datatype ('p, 'g, 's) outcome =
    Waits
  | Threw "('p, 'g, 's) product"
  | Does "set_action list" "recovery_start_result option" "('p, 'g, 's) product"

text \<open>\<open>thread_ok\<close>: the runtime's thread can be created; \<open>stopped\<close>: the observation of an attempt that is
  still registered when the coordinator thread has been joined.\<close>

definition perform ::
  "('p, 'g, 's, 'b, 'c) projection_ops \<Rightarrow> bool \<Rightarrow> transport_observation \<Rightarrow> set_action
     \<Rightarrow> ('p, 'g, 's) product \<Rightarrow> ('p, 'g, 's) outcome" where
  "perform ops thread_ok stopped action product =
     (let runtime = pd_runtime product; recovery = pd_recovery product in
      case action of
        ActStart i \<Rightarrow>
          (case recovery_start_begin recovery of
             (Inl result, c) \<Rightarrow> Does [] (Some result) (product\<lparr>pd_recovery := c\<rparr>)
           | (Inr _, c) \<Rightarrow> Does [ActStartRuntime i] None (product\<lparr>pd_recovery := c\<rparr>))
      | ActStartRuntime i \<Rightarrow>
          (case start ops thread_ok runtime of
             (None, r) \<Rightarrow> Threw (product\<lparr>pd_runtime := r\<rparr>)
           | (Some result, r) \<Rightarrow> Does [ActStarted i result] None (product\<lparr>pd_runtime := r\<rparr>))
      | ActStarted i runtime_start \<Rightarrow>
          (case recovery_start_finish runtime_start recovery of
             (result, c) \<Rightarrow> Does [] (Some result) (product\<lparr>pd_recovery := c\<rparr>))
      | ActCloseAdmission i \<Rightarrow>
          Does [] None (product\<lparr>pd_runtime := close_publication_admission runtime\<rparr>)
      | ActShutdown i \<Rightarrow>
          (case shutdown_begin runtime of
             (Inl _, r) \<Rightarrow> Does [] None (product\<lparr>pd_runtime := r\<rparr>)
           | (Inr _, r) \<Rightarrow> Does [ActAwaitShutdown i] None (product\<lparr>pd_runtime := r\<rparr>))
      | ActAwaitShutdown i \<Rightarrow>
          if shutdown_finish runtime = None then Waits else Does [] None product
      | ActHubShutdown i \<Rightarrow>
          Does [] None (product\<lparr>pd_recovery := recovery
            \<lparr>rc_hub := (ep_shutdown (fst (rc_hub recovery)), snd (rc_hub recovery))\<rparr>\<rparr>)
      | ActStop i \<Rightarrow>
          (case recovery_stop_begin recovery of
             (True, c) \<Rightarrow> Does [] None (product\<lparr>pd_recovery := c\<rparr>)
           | (False, c) \<Rightarrow> Does [ActJoinCoordinator i] None (product\<lparr>pd_recovery := c\<rparr>))
      | ActJoinCoordinator i \<Rightarrow>
          if joinable_done recovery then Does [ActStopRuntime i] None product else Waits
      | ActStopRuntime i \<Rightarrow>
          (case stop_request runtime of
             (True, r) \<Rightarrow> Does [ActStopped i] None (product\<lparr>pd_runtime := r\<rparr>)
           | (False, r) \<Rightarrow> Does [ActJoinRuntime i] None (product\<lparr>pd_runtime := r\<rparr>))
      | ActJoinRuntime i \<Rightarrow>
          (case stop_finish runtime of
             None \<Rightarrow> Waits
           | Some r \<Rightarrow> Does [ActStopped i] None (product\<lparr>pd_runtime := r\<rparr>))
      | ActStopped i \<Rightarrow>
          (case recovery_stop_finish stopped recovery of
             None \<Rightarrow> Waits
           | Some c \<Rightarrow> Does [] None (product\<lparr>pd_recovery := c\<rparr>)))"

text \<open>The public operations of a set of \<open>n\<close> products, and those of its products, which can be called one
  by one.\<close>

datatype set_call = CallStart | CallShutdownPublications | CallStop
  | CallProductStart nat | CallProductShutdown nat | CallProductStop nat

definition shutdown_publications_actions :: "nat \<Rightarrow> set_action list" where
  "shutdown_publications_actions n =
     map ActCloseAdmission [0..<n] @ map ActShutdown [0..<n] @ map ActHubShutdown [0..<n]"

definition product_shutdown_actions :: "nat \<Rightarrow> set_action list" where
  "product_shutdown_actions i = [ActCloseAdmission i, ActShutdown i, ActHubShutdown i]"

definition product_stop_actions :: "nat \<Rightarrow> set_action list" where
  "product_stop_actions i = product_shutdown_actions i @ [ActStop i]"

fun call_actions :: "nat \<Rightarrow> set_call \<Rightarrow> set_action list" where
  "call_actions n CallStart = map ActStart [0..<n]"
| "call_actions n CallShutdownPublications = shutdown_publications_actions n"
| "call_actions n CallStop = shutdown_publications_actions n @ map ActStop [0..<n]"
| "call_actions n (CallProductStart i) = (if i < n then [ActStart i] else [])"
| "call_actions n (CallProductShutdown i) = (if i < n then product_shutdown_actions i else [])"
| "call_actions n (CallProductStop i) = (if i < n then product_stop_actions i else [])"

record ('p, 'g, 's) set_system =
  sy_products :: "('p, 'g, 's) product list"
  sy_actions :: "set_action list"
  sy_calls :: "set_call list"
  sy_results :: "(market_key \<times> recovery_start_result) list"

text \<open>
  The steps: of the runtime of a product (its owner thread, its writers and clients; only the lifecycle
  owner starts it), of its coordinator thread, of the clients of its hub, and of the lifecycle owner.
\<close>

inductive set_step ::
  "('p, 'g, 's, 'b, 'c) projection_ops \<Rightarrow> (nat \<Rightarrow> clock_sample option)
     \<Rightarrow> ('p, 'g, 's) set_system \<Rightarrow> ('p, 'g, 's) set_system \<Rightarrow> bool"
  for ops clock where
  set_runtime: "i < length (sy_products sy) \<Longrightarrow> runtime_step ops (pd_runtime (sy_products sy ! i)) l r \<Longrightarrow>
    rt_started r = rt_started (pd_runtime (sy_products sy ! i)) \<Longrightarrow>
    set_step ops clock sy
      (sy\<lparr>sy_products := (sy_products sy)[i := (sy_products sy ! i)\<lparr>pd_runtime := r\<rparr>]\<rparr>)"
| set_thread: "i < length (sy_products sy) \<Longrightarrow> faithful_world (pd_recovery (sy_products sy ! i)) w \<Longrightarrow>
    coordinator_step (Some (coordinator_options clock)) w (pd_recovery (sy_products sy ! i)) = Some c \<Longrightarrow>
    set_step ops clock sy
      (sy\<lparr>sy_products := (sy_products sy)[i := (sy_products sy ! i)\<lparr>pd_recovery := c\<rparr>]\<rparr>)"
| set_hub: "i < length (sy_products sy) \<Longrightarrow> hub_client (rc_hub (pd_recovery (sy_products sy ! i))) h \<Longrightarrow>
    set_step ops clock sy
      (sy\<lparr>sy_products := (sy_products sy)[i := (sy_products sy ! i)
          \<lparr>pd_recovery := (pd_recovery (sy_products sy ! i))\<lparr>rc_hub := h\<rparr>\<rparr>]\<rparr>)"
| set_call: "sy_actions sy = [] \<Longrightarrow> sy_calls sy = call # calls \<Longrightarrow>
    set_step ops clock sy
      (sy\<lparr>sy_actions := call_actions (length (sy_products sy)) call, sy_calls := calls, sy_results := []\<rparr>)"
| set_action: "sy_actions sy = action # rest \<Longrightarrow> i = action_product action \<Longrightarrow>
    perform ops thread_ok stopped action (sy_products sy ! i) = Does following result p \<Longrightarrow>
    set_step ops clock sy
      (sy\<lparr>sy_products := (sy_products sy)[i := p], sy_actions := following @ rest,
          sy_results := sy_results sy @ (case result of None \<Rightarrow> [] | Some r \<Rightarrow> [(pd_key p, r)])\<rparr>)"
| set_throw: "sy_actions sy = action # rest \<Longrightarrow> i = action_product action \<Longrightarrow>
    perform ops thread_ok stopped action (sy_products sy ! i) = Threw p \<Longrightarrow>
    set_step ops clock sy
      (sy\<lparr>sy_products := (sy_products sy)[i := p], sy_actions := [], sy_results := []\<rparr>)"

definition start_set :: "('p, 'g, 's) product_set \<Rightarrow> set_call list \<Rightarrow> ('p, 'g, 's) set_system" where
  "start_set products calls =
     \<lparr>sy_products = pset_owners products, sy_actions = [], sy_calls = calls, sy_results = []\<rparr>"

section \<open>What every product keeps\<close>

definition product_ok ::
  "('p, 'g, 's, 'b, 'c) projection_ops \<Rightarrow> ('p, 'g, 's) product \<Rightarrow> bool" where
  "product_ok ops p \<longleftrightarrow>
     rt_inv ops (rt_limits (pd_runtime p)) (pd_runtime p) \<and> served_if_exited (pd_runtime p)
     \<and> product_inv (pd_recovery p)
     \<and> (rt_started (pd_runtime p) \<longrightarrow> rc_started (pd_recovery p))
     \<and> (rc_stopped (pd_recovery p) \<longrightarrow>
          joinable_done (pd_recovery p) \<and> (rt_started (pd_runtime p) \<longrightarrow> rt_stopped (pd_runtime p)))"

text \<open>What the lifecycle owner knows of a product between two actions of one call.\<close>

fun head_ok :: "set_action \<Rightarrow> ('p, 'g, 's) product \<Rightarrow> bool" where
  "head_ok (ActStartRuntime i) p \<longleftrightarrow> rc_started (pd_recovery p) \<and> \<not> rc_stopped (pd_recovery p)
     \<and> rc_phase (pd_recovery p) = PhAbsent \<and> \<not> ro_terminal (rc_observation (pd_recovery p))"
| "head_ok (ActStarted i r) p \<longleftrightarrow> rc_started (pd_recovery p) \<and> \<not> rc_stopped (pd_recovery p)
     \<and> rc_phase (pd_recovery p) = PhAbsent \<and> \<not> ro_terminal (rc_observation (pd_recovery p))"
| "head_ok (ActAwaitShutdown i) p \<longleftrightarrow>
     rt_started (pd_runtime p) \<and> rt_publication_shutdown_requested (pd_runtime p)"
| "head_ok (ActJoinCoordinator i) p \<longleftrightarrow>
     rc_shutdown_requested (pd_recovery p) \<and> rc_started (pd_recovery p)"
| "head_ok (ActStopRuntime i) p \<longleftrightarrow> rc_shutdown_requested (pd_recovery p) \<and> joinable_done (pd_recovery p)
     \<and> rc_started (pd_recovery p)"
| "head_ok (ActJoinRuntime i) p \<longleftrightarrow> rc_shutdown_requested (pd_recovery p) \<and> joinable_done (pd_recovery p)
     \<and> rc_started (pd_recovery p) \<and> rt_stop_requested (pd_runtime p)"
| "head_ok (ActStopped i) p \<longleftrightarrow> rc_shutdown_requested (pd_recovery p) \<and> joinable_done (pd_recovery p)
     \<and> rc_started (pd_recovery p) \<and> (rt_started (pd_runtime p) \<longrightarrow> rt_stopped (pd_runtime p))"
| "head_ok _ p \<longleftrightarrow> True"

definition silenced :: "('p, 'g, 's) product \<Rightarrow> bool" where
  "silenced p \<longleftrightarrow> rt_publication_shutdown_completed (pd_runtime p) \<or> rt_stopped (pd_runtime p)"

text \<open>What another thread's step on a product leaves of this.\<close>

definition undisturbed :: "('p, 'g, 's) product \<Rightarrow> ('p, 'g, 's) product \<Rightarrow> bool" where
  "undisturbed p p' \<longleftrightarrow> pd_key p' = pd_key p \<and> (\<forall>a. head_ok a p \<longrightarrow> head_ok a p')
     \<and> (silenced p \<longrightarrow> silenced p') \<and> (hub_down (rc_hub (pd_recovery p)) \<longrightarrow> hub_down (rc_hub (pd_recovery p')))
     \<and> rc_stopped (pd_recovery p') = rc_stopped (pd_recovery p)"

lemma head_ok_mono:
  assumes "head_ok a p"
    and "rc_started (pd_recovery p') = rc_started (pd_recovery p)"
    and "rc_stopped (pd_recovery p') = rc_stopped (pd_recovery p)"
    and "rc_shutdown_requested (pd_recovery p') = rc_shutdown_requested (pd_recovery p)"
    and "joinable_done (pd_recovery p) \<Longrightarrow> rc_phase (pd_recovery p') = rc_phase (pd_recovery p)
      \<and> ro_terminal (rc_observation (pd_recovery p')) = ro_terminal (rc_observation (pd_recovery p))"
    and "latched (pd_runtime p) (pd_runtime p')"
    and "rt_started (pd_runtime p') = rt_started (pd_runtime p)"
  shows "head_ok a p'"
  using assms by (cases a) (auto simp: joinable_done_def latched_def)

lemma product_ok_runtime:
  assumes "product_ok ops p" and "runtime_step ops (pd_runtime p) l r"
    and "rt_started r \<Longrightarrow> rt_started (pd_runtime p)
      \<or> rc_started (pd_recovery p) \<and> \<not> rc_stopped (pd_recovery p)"
  shows "product_ok ops (p\<lparr>pd_runtime := r\<rparr>)" and "silenced p \<Longrightarrow> silenced (p\<lparr>pd_runtime := r\<rparr>)"
proof -
  have latched: "latched (pd_runtime p) r" by (rule runtime_step_latched [OF assms(2)])
  have inv: "rt_inv ops (rt_limits (pd_runtime p)) (pd_runtime p)" "served_if_exited (pd_runtime p)"
    using assms(1) by (simp_all add: product_ok_def)
  have "rt_inv ops (rt_limits (pd_runtime p)) r" by (rule runtime_step_inv [OF assms(2) inv(1)])
  then have "rt_inv ops (rt_limits r) r" by (metis rt_invD(1))
  moreover have "served_if_exited r" by (rule runtime_step_exit [OF assms(2) rt_invD(8) [OF inv(1)] inv(2)])
  ultimately show "product_ok ops (p\<lparr>pd_runtime := r\<rparr>)"
    using assms(1,3) latched by (auto simp: product_ok_def latched_def)
  show "silenced p \<Longrightarrow> silenced (p\<lparr>pd_runtime := r\<rparr>)"
    using latched by (auto simp: silenced_def latched_def)
qed

lemma product_ok_recovery:
  assumes "product_ok ops p" and "product_step (\<lambda>_. None) (pd_recovery p) c"
    and "rc_started (pd_recovery p) \<Longrightarrow> rc_started c"
    and "rc_stopped c \<Longrightarrow> joinable_done c \<and> (rt_started (pd_runtime p) \<longrightarrow> rt_stopped (pd_runtime p))"
  shows "product_ok ops (p\<lparr>pd_recovery := c\<rparr>)" and "silenced p \<Longrightarrow> silenced (p\<lparr>pd_recovery := c\<rparr>)"
proof -
  have "product_inv c"
    using product.inv_step [OF _ assms(2)] assms(1) by (simp add: product_ok_def)
  with assms show "product_ok ops (p\<lparr>pd_recovery := c\<rparr>)" by (auto simp: product_ok_def)
qed (simp add: silenced_def)

lemma runtime_undisturbed:
  assumes "product_ok ops p" and "runtime_step ops (pd_runtime p) l r"
    and "rt_started r = rt_started (pd_runtime p)"
  shows "product_ok ops (p\<lparr>pd_runtime := r\<rparr>) \<and> undisturbed p (p\<lparr>pd_runtime := r\<rparr>)"
proof -
  have "head_ok a (p\<lparr>pd_runtime := r\<rparr>)" if "head_ok a p" for a
    by (rule head_ok_mono [OF that]) (simp_all add: runtime_step_latched [OF assms(2)] assms(3))
  then show ?thesis
    using product_ok_runtime [OF assms(1,2)] assms(3) by (simp add: undisturbed_def)
qed

lemma thread_undisturbed:
  assumes "product_ok ops p" and "faithful_world (pd_recovery p) w"
    and "coordinator_step (Some (coordinator_options clock)) w (pd_recovery p) = Some c"
  shows "product_ok ops (p\<lparr>pd_recovery := c\<rparr>) \<and> undisturbed p (p\<lparr>pd_recovery := c\<rparr>)"
proof -
  have kept: "kept hub_down (pd_recovery p) c"
    by (rule coordinator_step_kept [OF hub_callbacks_keep_down assms(3)])
  have running: "\<not> joinable_done (pd_recovery p)"
    using coordinator_step_running [OF assms(3)] by (simp add: joinable_done_def)
  have "product_inv c"
    using assms(1) product.inv_step [OF _ rs_thread [OF assms(2,3)]] by (simp add: product_ok_def)
  then have "product_ok ops (p\<lparr>pd_recovery := c\<rparr>)"
    using assms(1) kept running by (auto simp: product_ok_def kept_def)
  moreover have "head_ok a (p\<lparr>pd_recovery := c\<rparr>)" if "head_ok a p" for a
    by (rule head_ok_mono [OF that]) (use kept running in \<open>simp_all add: kept_def\<close>)
  ultimately show ?thesis using kept by (simp add: undisturbed_def silenced_def kept_def)
qed

lemma hub_undisturbed:
  assumes "product_ok ops p" and "hub_client (rc_hub (pd_recovery p)) h"
  shows "product_ok ops (p\<lparr>pd_recovery := (pd_recovery p)\<lparr>rc_hub := h\<rparr>\<rparr>)
    \<and> undisturbed p (p\<lparr>pd_recovery := (pd_recovery p)\<lparr>rc_hub := h\<rparr>\<rparr>)" (is "_ \<and> undisturbed p ?p")
proof -
  have "product_inv ((pd_recovery p)\<lparr>rc_hub := h\<rparr>)"
  proof (rule product.inv_step)
    show "product_inv (pd_recovery p)" using assms(1) by (simp add: product_ok_def)
    show "product_step (\<lambda>_. None) (pd_recovery p) ((pd_recovery p)\<lparr>rc_hub := h\<rparr>)"
      by (rule rs_hub) (rule assms(2))
  qed
  then have "product_ok ops ?p" using assms(1) by (simp add: product_ok_def joinable_done_def)
  moreover have "head_ok a ?p" if "head_ok a p" for a
    by (rule head_ok_mono [OF that]) simp_all
  ultimately show ?thesis using hub_client_down [OF assms(2)] by (simp add: undisturbed_def silenced_def)
qed

section \<open>The actions\<close>

fun stopping :: "set_action \<Rightarrow> bool" where
  "stopping (ActStop i) \<longleftrightarrow> True"
| "stopping (ActJoinCoordinator i) \<longleftrightarrow> True"
| "stopping (ActStopRuntime i) \<longleftrightarrow> True"
| "stopping (ActJoinRuntime i) \<longleftrightarrow> True"
| "stopping (ActStopped i) \<longleftrightarrow> True"
| "stopping _ \<longleftrightarrow> False"

fun starting :: "set_action \<Rightarrow> bool" where
  "starting (ActStart i) \<longleftrightarrow> True"
| "starting (ActStartRuntime i) \<longleftrightarrow> True"
| "starting (ActStarted i r) \<longleftrightarrow> True"
| "starting _ \<longleftrightarrow> False"

fun silencing :: "set_action \<Rightarrow> bool" where
  "silencing (ActShutdown i) \<longleftrightarrow> True"
| "silencing (ActAwaitShutdown i) \<longleftrightarrow> True"
| "silencing _ \<longleftrightarrow> False"

fun closing :: "set_action \<Rightarrow> bool" where
  "closing (ActHubShutdown i) \<longleftrightarrow> True"
| "closing _ \<longleftrightarrow> False"

text \<open>An action that is done has brought about what it is there for, or is followed by one that will.\<close>

definition advanced ::
  "set_action \<Rightarrow> set_action list \<Rightarrow> ('p, 'g, 's) product \<Rightarrow> ('p, 'g, 's) product \<Rightarrow> bool" where
  "advanced a fs p p' \<longleftrightarrow> pd_key p' = pd_key p
     \<and> (silenced p \<or> (silencing a \<and> fs = []) \<longrightarrow> silenced p')
     \<and> (hub_down (rc_hub (pd_recovery p)) \<or> closing a \<longrightarrow> hub_down (rc_hub (pd_recovery p')))
     \<and> (rc_stopped (pd_recovery p) \<or> (stopping a \<and> fs = []) \<longrightarrow> rc_stopped (pd_recovery p'))
     \<and> (fs = [] \<or> (\<exists>f. fs = [f] \<and> action_product f = action_product a \<and> head_ok f p'
          \<and> stopping f = stopping a \<and> starting f = starting a \<and> silencing f = silencing a \<and> \<not> closing f))"

lemma unstarted:
  assumes "product_ok ops p" and "\<not> rc_started (pd_recovery p)"
  shows "rc_phase (pd_recovery p) = PhAbsent" and "\<not> rt_started (pd_runtime p)"
    and "\<not> ro_terminal (rc_observation (pd_recovery p))"
  using assms by (auto simp: product_ok_def product_inv_def policy_inv_def Let_def)

lemma start_begin_advanced:
  assumes "product_ok ops p" and "perform ops t x (ActStart i) p = Does fs r p'"
  shows "product_ok ops p' \<and> advanced (ActStart i) fs p p'"
proof -
  let ?c = "snd (recovery_start_begin (pd_recovery p))"
  have p': "p' = p\<lparr>pd_recovery := ?c\<rparr>" and fs: "fs = (if isl (fst (recovery_start_begin (pd_recovery p))) then [] else [ActStartRuntime i])"
    using assms(2) by (auto simp: perform_def Let_def split: prod.splits sum.splits)
  have step: "product_step (\<lambda>_. None) (pd_recovery p) ?c" by (rule recovery_step.rs_start)
  have "rc_stopped ?c = rc_stopped (pd_recovery p)" "rc_hub ?c = rc_hub (pd_recovery p)"
    "rc_phase ?c = rc_phase (pd_recovery p)" "rc_started (pd_recovery p) \<Longrightarrow> rc_started ?c"
    by (simp_all add: recovery_start_begin_def)
  note fields = this
  have "joinable_done ?c = joinable_done (pd_recovery p)" by (simp add: joinable_done_def fields)
  with assms(1) have "product_ok ops p'"
    unfolding p' by (intro product_ok_recovery(1) [OF assms(1) step fields(4)])
      (auto simp: fields product_ok_def)
  moreover have "head_ok (ActStartRuntime i) p'" if "fs \<noteq> []"
    using that unstarted(1,3) [OF assms(1)] unfolding fs p'
    by (auto simp: recovery_start_begin_def split: if_splits)
  ultimately show ?thesis
    using fs by (auto simp: advanced_def p' fields silenced_def split: if_splits)
qed

lemma start_runtime_advanced:
  assumes "product_ok ops p" and "head_ok (ActStartRuntime i) p"
    and "perform ops t x (ActStartRuntime i) p = Does fs r p'"
  shows "product_ok ops p' \<and> advanced (ActStartRuntime i) fs p p'"
proof -
  let ?r = "snd (start ops t (pd_runtime p))"
  have p': "p' = p\<lparr>pd_runtime := ?r\<rparr>" and fs: "\<exists>res. fs = [ActStarted i res]"
    using assms(3) by (auto simp: perform_def Let_def split: prod.splits option.splits)
  have step: "runtime_step ops (pd_runtime p) None ?r" by (rule runtime_step.rs_start)
  note ok = product_ok_runtime [OF assms(1) step]
  show ?thesis
    using ok assms(2) fs by (auto simp: p' advanced_def)
qed

lemma start_finish_advanced:
  assumes "product_ok ops p" and "head_ok (ActStarted i res) p"
    and "perform ops t x (ActStarted i res) p = Does fs r p'"
  shows "product_ok ops p' \<and> advanced (ActStarted i res) fs p p'"
proof -
  let ?c = "snd (recovery_start_finish res (pd_recovery p))"
  have p': "p' = p\<lparr>pd_recovery := ?c\<rparr>" and fs: "fs = []"
    using assms(3) by (auto simp: perform_def Let_def split: prod.splits)
  have step: "product_step (\<lambda>_. None) (pd_recovery p) ?c"
    using assms(2) by (intro rs_started) simp_all
  have fields: "rc_stopped ?c = rc_stopped (pd_recovery p)" "rc_hub ?c = rc_hub (pd_recovery p)"
    "rc_started ?c = rc_started (pd_recovery p)"
    by (simp_all add: recovery_start_finish_def)
  have "product_ok ops p'"
    unfolding p' by (rule product_ok_recovery(1) [OF assms(1) step])
      (use assms(2) in \<open>simp_all add: fields\<close>)
  then show ?thesis using fs by (simp add: advanced_def p' fields silenced_def)
qed

lemma close_admission_advanced:
  assumes "product_ok ops p" and "perform ops t x (ActCloseAdmission i) p = Does fs r p'"
  shows "product_ok ops p' \<and> advanced (ActCloseAdmission i) fs p p'"
proof -
  have p': "p' = p\<lparr>pd_runtime := close_publication_admission (pd_runtime p)\<rparr>" and fs: "fs = []"
    using assms(2) by (auto simp: perform_def Let_def)
  show ?thesis
    using product_ok_runtime [OF assms(1) rs_close_admission] fs
    by (simp add: p' advanced_def close_publication_admission_def)
qed

lemma shutdown_advanced:
  assumes "product_ok ops p" and "perform ops t x (ActShutdown i) p = Does fs r p'"
  shows "product_ok ops p' \<and> advanced (ActShutdown i) fs p p'"
proof -
  let ?r = "snd (shutdown_begin (pd_runtime p))"
  have p': "p' = p\<lparr>pd_runtime := ?r\<rparr>"
    and fs: "fs = (if isl (fst (shutdown_begin (pd_runtime p))) then [] else [ActAwaitShutdown i])"
    using assms(2) by (auto simp: perform_def Let_def split: prod.splits sum.splits)
  have st: "rt_started ?r = rt_started (pd_runtime p)"
    by (simp add: shutdown_begin_def close_publication_admission_def Let_def)
  note ok = product_ok_runtime [OF assms(1) rs_shutdown]
  have "fs = [] \<Longrightarrow> silenced p'" and "fs \<noteq> [] \<Longrightarrow> head_ok (ActAwaitShutdown i) p'"
    unfolding fs p' by (auto simp: silenced_def shutdown_begin_def close_publication_admission_def Let_def
        split: if_splits)
  with ok st show ?thesis by (auto simp: p' fs advanced_def split: if_splits)
qed

lemma await_advanced:
  assumes "product_ok ops p" and "perform ops t x (ActAwaitShutdown i) p = Does fs r p'"
  shows "product_ok ops p' \<and> advanced (ActAwaitShutdown i) fs p p'"
  using assms by (auto simp: perform_def Let_def advanced_def silenced_def shutdown_finish_def split: if_splits)

lemma hub_shutdown_advanced:
  assumes "product_ok ops p" and "perform ops t x (ActHubShutdown i) p = Does fs r p'"
  shows "product_ok ops p' \<and> advanced (ActHubShutdown i) fs p p'"
proof -
  obtain q n where hub: "rc_hub (pd_recovery p) = (q, n)" by (cases "rc_hub (pd_recovery p)")
  let ?c = "(pd_recovery p)\<lparr>rc_hub := (ep_shutdown q, n)\<rparr>"
  have p': "p' = p\<lparr>pd_recovery := ?c\<rparr>" and fs: "fs = []"
    using assms(2) by (auto simp: perform_def Let_def hub)
  have client: "hub_client (rc_hub (pd_recovery p)) (ep_shutdown q, n)" unfolding hub by (rule hc_shutdown)
  show ?thesis
    using hub_undisturbed [OF assms(1) client] fs
    by (simp add: p' advanced_def undisturbed_def hub_down_def ep_shutdown_def)
qed

lemma stop_begin_advanced:
  assumes "product_ok ops p" and "perform ops t x (ActStop i) p = Does fs r p'"
  shows "product_ok ops p' \<and> advanced (ActStop i) fs p p'"
proof -
  let ?c = "snd (recovery_stop_begin (pd_recovery p))"
  have p': "p' = p\<lparr>pd_recovery := ?c\<rparr>"
    and fs: "fs = (if fst (recovery_stop_begin (pd_recovery p)) then [] else [ActJoinCoordinator i])"
    using assms(2) by (auto simp: perform_def Let_def split: prod.splits bool.splits)
  have fields: "rc_hub ?c = rc_hub (pd_recovery p)" "rc_phase ?c = rc_phase (pd_recovery p)"
    "rc_started ?c = rc_started (pd_recovery p)"
    "rc_stopped ?c \<longleftrightarrow> rc_stopped (pd_recovery p) \<or> \<not> rc_started (pd_recovery p)"
    by (simp_all add: recovery_stop_begin_def)
  have "joinable_done ?c \<and> (rt_started (pd_runtime p) \<longrightarrow> rt_stopped (pd_runtime p))" if "rc_stopped ?c"
    using that assms(1) unstarted [OF assms(1)] by (auto simp: fields joinable_done_def product_ok_def)
  then have "product_ok ops p'"
    unfolding p' by (intro product_ok_recovery(1) [OF assms(1) recovery_step.rs_stop]) (simp_all add: fields)
  moreover have "fs = [] \<Longrightarrow> rc_stopped ?c" "fs \<noteq> [] \<Longrightarrow> head_ok (ActJoinCoordinator i) p'"
    unfolding fs p' by (auto simp: recovery_stop_begin_def split: if_splits)
  ultimately show ?thesis
    using fs by (auto simp: advanced_def p' fields silenced_def split: if_splits)
qed

lemma join_coordinator_advanced:
  assumes "product_ok ops p" and "head_ok (ActJoinCoordinator i) p"
    and "perform ops t x (ActJoinCoordinator i) p = Does fs r p'"
  shows "product_ok ops p' \<and> advanced (ActJoinCoordinator i) fs p p'"
  using assms by (auto simp: perform_def Let_def advanced_def split: if_splits)

lemma stop_runtime_advanced:
  assumes "product_ok ops p" and "head_ok (ActStopRuntime i) p"
    and "perform ops t x (ActStopRuntime i) p = Does fs r p'"
  shows "product_ok ops p' \<and> advanced (ActStopRuntime i) fs p p'"
proof -
  let ?r = "snd (stop_request (pd_runtime p))"
  have p': "p' = p\<lparr>pd_runtime := ?r\<rparr>"
    and fs: "fs = (if fst (stop_request (pd_runtime p)) then [ActStopped i] else [ActJoinRuntime i])"
    using assms(3) by (auto simp: perform_def Let_def split: prod.splits bool.splits)
  have st: "rt_started ?r = rt_started (pd_runtime p)" by (simp add: stop_request_def)
  have "if fst (stop_request (pd_runtime p)) then rt_started ?r \<longrightarrow> rt_stopped ?r else rt_stop_requested ?r"
    by (simp add: stop_request_def)
  with product_ok_runtime [OF assms(1) runtime_step.rs_stop] st assms(2) fs show ?thesis
    by (auto simp: p' advanced_def split: if_splits)
qed

lemma join_runtime_advanced:
  assumes "product_ok ops p" and "head_ok (ActJoinRuntime i) p"
    and "perform ops t x (ActJoinRuntime i) p = Does fs r p'"
  shows "product_ok ops p' \<and> advanced (ActJoinRuntime i) fs p p'"
proof -
  obtain u where u: "stop_finish (pd_runtime p) = Some u" and p': "p' = p\<lparr>pd_runtime := u\<rparr>"
    and fs: "fs = [ActStopped i]"
    using assms(3) by (auto simp: perform_def Let_def split: option.splits)
  have st: "rt_started u = rt_started (pd_runtime p)" "rt_stopped u"
    using u by (auto simp: stop_finish_def complete_all_admissions_locked_def complete_snapshot_if_pending_def
        Let_def split: if_splits option.splits)
  show ?thesis
    using product_ok_runtime [OF assms(1) rs_stop_finish [OF u]] st assms(2) fs
    by (simp add: p' advanced_def)
qed

lemma stopped_advanced:
  assumes "product_ok ops p" and "head_ok (ActStopped i) p"
    and "perform ops t x (ActStopped i) p = Does fs r p'"
  shows "product_ok ops p' \<and> advanced (ActStopped i) fs p p'"
proof -
  obtain c where c: "recovery_stop_finish x (pd_recovery p) = Some c" and p': "p' = p\<lparr>pd_recovery := c\<rparr>"
    and fs: "fs = []"
    using assms(3) by (auto simp: perform_def Let_def split: option.splits)
  have fields: "rc_hub c = rc_hub (pd_recovery p)" "rc_phase c = rc_phase (pd_recovery p)"
    "rc_started c = rc_started (pd_recovery p)" "rc_stopped c"
    using c by (auto simp: recovery_stop_finish_def persist_last_event_def split: if_splits)
  have "product_ok ops p'"
    unfolding p' by (rule product_ok_recovery(1) [OF assms(1) rs_stopped [OF c]])
      (use assms(2) in \<open>simp_all add: fields joinable_done_def\<close>)
  then show ?thesis using fs by (simp add: advanced_def p' fields silenced_def)
qed

lemma perform_advanced:
  assumes "product_ok ops p" and "head_ok a p" and "perform ops t x a p = Does fs r p'"
  shows "product_ok ops p' \<and> advanced a fs p p'"
proof (cases a)
  case ActStart show ?thesis using start_begin_advanced [OF assms(1)] assms(3) unfolding ActStart .
next
  case ActStartRuntime
  show ?thesis using start_runtime_advanced [OF assms(1)] assms(2,3) unfolding ActStartRuntime .
next
  case ActStarted show ?thesis using start_finish_advanced [OF assms(1)] assms(2,3) unfolding ActStarted .
next
  case ActCloseAdmission
  show ?thesis using close_admission_advanced [OF assms(1)] assms(3) unfolding ActCloseAdmission .
next
  case ActShutdown show ?thesis using shutdown_advanced [OF assms(1)] assms(3) unfolding ActShutdown .
next
  case ActAwaitShutdown
  show ?thesis using await_advanced [OF assms(1)] assms(3) unfolding ActAwaitShutdown .
next
  case ActHubShutdown
  show ?thesis using hub_shutdown_advanced [OF assms(1)] assms(3) unfolding ActHubShutdown .
next
  case ActStop show ?thesis using stop_begin_advanced [OF assms(1)] assms(3) unfolding ActStop .
next
  case ActJoinCoordinator
  show ?thesis using join_coordinator_advanced [OF assms(1)] assms(2,3) unfolding ActJoinCoordinator .
next
  case ActStopRuntime
  show ?thesis using stop_runtime_advanced [OF assms(1)] assms(2,3) unfolding ActStopRuntime .
next
  case ActJoinRuntime
  show ?thesis using join_runtime_advanced [OF assms(1)] assms(2,3) unfolding ActJoinRuntime .
next
  case ActStopped show ?thesis using stopped_advanced [OF assms(1)] assms(2,3) unfolding ActStopped .
qed

lemma perform_throws:
  assumes "product_ok ops p" and "perform ops t x a p = Threw p'"
  shows "starting a \<and> p' = p"
  using assms by (cases a) (auto simp: perform_def Let_def start_def split: prod.splits sum.splits option.splits bool.splits if_splits)

end
