(* ===== verification/ProductSetRuns.thy ===== *)
theory ProductSetRuns
  imports ProductSetSystem RecoveryProperties
begin

text \<open>
  Runs of a set of products (\<open>ConfiguredProductRuntimeSet\<close> and \<open>TwoProductRuntime\<close> of
  \<open>src/src/g11/multi_market_runtime.cpp\<close>): the invariant of its states, that nothing is left running,
  publishing or registered once it was stopped, and that no wait of the lifecycle owner lasts.
\<close>

section \<open>The invariant\<close>

fun entry :: "set_action \<Rightarrow> bool" where
  "entry (ActStart i) \<longleftrightarrow> True"
| "entry (ActCloseAdmission i) \<longleftrightarrow> True"
| "entry (ActShutdown i) \<longleftrightarrow> True"
| "entry (ActHubShutdown i) \<longleftrightarrow> True"
| "entry (ActStop i) \<longleftrightarrow> True"
| "entry _ \<longleftrightarrow> False"

lemma entry_head [simp]: "entry a \<Longrightarrow> head_ok a p"
  by (cases a) simp_all

fun actions_ok :: "('p, 'g, 's) product list \<Rightarrow> set_action list \<Rightarrow> bool" where
  "actions_ok ps [] \<longleftrightarrow> True"
| "actions_ok ps (a # rest) \<longleftrightarrow> action_product a < length ps \<and> head_ok a (ps ! action_product a)
     \<and> (\<forall>b \<in> set rest. entry b \<and> action_product b < length ps)
     \<and> (\<forall>b \<in> set rest. starting b = starting a)"

definition set_sound :: "('p, 'g, 's, 'b, 'c) projection_ops \<Rightarrow> ('p, 'g, 's) set_system \<Rightarrow> bool" where
  "set_sound ops sy \<longleftrightarrow>
     (\<forall>p \<in> set (sy_products sy). product_ok ops p) \<and> actions_ok (sy_products sy) (sy_actions sy)"

lemma actions_ok_entries:
  assumes "\<And>a. a \<in> set acts \<Longrightarrow> entry a \<and> action_product a < length ps"
    and "(\<forall>a \<in> set acts. starting a) \<or> (\<forall>a \<in> set acts. \<not> starting a)"
  shows "actions_ok ps acts"
  using assms by (cases acts) auto

lemma call_actions_ok: "actions_ok ps (call_actions (length ps) call)"
  by (cases call; rule actions_ok_entries) (auto simp: shutdown_publications_actions_def
      product_stop_actions_def product_shutdown_actions_def split: if_splits)

lemma actions_ok_other:
  assumes "actions_ok ps acts" and "undisturbed (ps ! i) p" and "i < length ps"
  shows "actions_ok (ps[i := p]) acts"
  using assms by (cases acts) (auto simp: nth_list_update undisturbed_def)

lemma set_sound_other:
  assumes "set_sound ops sy" and "i < length (sy_products sy)"
    and "product_ok ops p \<and> undisturbed (sy_products sy ! i) p"
  shows "set_sound ops (sy\<lparr>sy_products := (sy_products sy)[i := p]\<rparr>)"
  using assms actions_ok_other [of "sy_products sy" "sy_actions sy" i p] set_update_subset_insert
  by (fastforce simp: set_sound_def)

lemma set_sound_action:
  assumes "set_sound ops sy" and "sy_actions sy = a # rest" and "i = action_product a"
    and "product_ok ops p" and "advanced a fs (sy_products sy ! i) p"
  shows "set_sound ops (sy\<lparr>sy_products := (sy_products sy)[i := p], sy_actions := fs @ rest, sy_results := rs\<rparr>)"
proof -
  have rest: "\<forall>b \<in> set rest. entry b \<and> action_product b < length (sy_products sy)"
    "\<forall>b \<in> set rest. starting b = starting a" and i: "i < length (sy_products sy)"
    using assms(1-3) by (simp_all add: set_sound_def)
  have "actions_ok ((sy_products sy)[i := p]) (fs @ rest)"
  proof (cases "fs = []")
    case True
    with rest show ?thesis by (cases rest) auto
  next
    case False
    with assms(5) rest i assms(3) show ?thesis by (auto simp: advanced_def)
  qed
  moreover have "\<forall>q \<in> set ((sy_products sy)[i := p]). product_ok ops q"
    using assms(1,4) set_update_subset_insert [of "sy_products sy" i p] by (auto simp: set_sound_def)
  ultimately show ?thesis by (simp add: set_sound_def)
qed

lemma set_soundD:
  assumes "set_sound ops sy"
  shows "i < length (sy_products sy) \<Longrightarrow> product_ok ops (sy_products sy ! i)"
    and "sy_actions sy = a # rest \<Longrightarrow> action_product a < length (sy_products sy)
      \<and> head_ok a (sy_products sy ! action_product a)"
  using assms by (auto simp: set_sound_def)

lemma set_sound_step:
  assumes "set_sound ops sy" and "set_step ops clock sy sy'"
  shows "set_sound ops sy'"
  using assms(2)
proof cases
  case (set_runtime i l r)
  show ?thesis unfolding set_runtime(1)
    by (intro set_sound_other [OF assms(1)] runtime_undisturbed [OF _ set_runtime(3,4)]
        set_soundD(1) [OF assms(1)] set_runtime(2))
next
  case (set_thread i w c)
  show ?thesis unfolding set_thread(1)
    by (intro set_sound_other [OF assms(1)] thread_undisturbed [OF _ set_thread(3,4)]
        set_soundD(1) [OF assms(1)] set_thread(2))
next
  case (set_hub i h)
  show ?thesis unfolding set_hub(1)
    by (intro set_sound_other [OF assms(1)] hub_undisturbed set_soundD(1) [OF assms(1)] set_hub(2,3))
next
  case (set_call call calls)
  with assms(1) call_actions_ok show ?thesis by (simp add: set_sound_def)
next
  case (set_action a rest i thread_ok stopped fs r p)
  note head = set_soundD(2) [OF assms(1) set_action(2)]
  have ok: "product_ok ops p \<and> advanced a fs (sy_products sy ! i) p"
    using perform_advanced [OF set_soundD(1) [OF assms(1)] _ set_action(4)] head set_action(3) by blast
  show ?thesis
    unfolding set_action(1)
    by (rule set_sound_action [OF assms(1) set_action(2,3)]) (use ok in blast)+
next
  case (set_throw a rest i thread_ok stopped p)
  have "i < length (sy_products sy)" using set_soundD(2) [OF assms(1) set_throw(2)] set_throw(3) by simp
  then have "p = sy_products sy ! i"
    using perform_throws [OF set_soundD(1) [OF assms(1)] set_throw(4)] by blast
  then show ?thesis using assms(1) by (simp add: set_throw(1) set_sound_def)
qed

section \<open>What is still to be done\<close>

definition to_do :: "('p, 'g, 's) set_system \<Rightarrow> set_action list" where
  "to_do sy = sy_actions sy @ concat (map (call_actions (length (sy_products sy))) (sy_calls sy))"

definition promised :: "set_action list \<Rightarrow> nat \<Rightarrow> ('p, 'g, 's) product \<Rightarrow> bool" where
  "promised todo i p \<longleftrightarrow>
     (silenced p \<or> (\<exists>a \<in> set todo. silencing a \<and> action_product a = i))
     \<and> (hub_down (rc_hub (pd_recovery p)) \<or> (\<exists>a \<in> set todo. closing a \<and> action_product a = i))
     \<and> (rc_stopped (pd_recovery p) \<or> (\<exists>a \<in> set todo. stopping a \<and> action_product a = i))"

definition will_stop :: "('p, 'g, 's) set_system \<Rightarrow> bool" where
  "will_stop sy \<longleftrightarrow> (\<forall>i < length (sy_products sy). promised (to_do sy) i (sy_products sy ! i))"

lemma will_stop_init:
  assumes "CallStop \<in> set (sy_calls sy)"
  shows "will_stop sy"
proof -
  have sub: "set (call_actions (length (sy_products sy)) CallStop) \<subseteq> set (to_do sy)"
    using assms by (auto simp: to_do_def)
  have "promised (to_do sy) i (sy_products sy ! i)" if "i < length (sy_products sy)" for i
  proof -
    have "{ActShutdown i, ActHubShutdown i, ActStop i} \<subseteq> set (to_do sy)"
      using that sub by (auto simp: shutdown_publications_actions_def)
    then show ?thesis unfolding promised_def by force
  qed
  then show ?thesis by (simp add: will_stop_def)
qed

lemma promised_other: "promised todo i p \<Longrightarrow> undisturbed p p' \<Longrightarrow> promised todo i p'"
  by (auto simp: promised_def undisturbed_def)

lemma will_stop_other:
  assumes "will_stop sy" and "undisturbed (sy_products sy ! i) p"
  shows "will_stop (sy\<lparr>sy_products := (sy_products sy)[i := p]\<rparr>)"
proof -
  let ?sy = "sy\<lparr>sy_products := (sy_products sy)[i := p]\<rparr>"
  have "promised (to_do sy) j (sy_products ?sy ! j)" if "j < length (sy_products sy)" for j
    using assms(1) that promised_other [OF _ assms(2), of "to_do sy" i]
    by (cases "j = i") (simp_all add: will_stop_def)
  moreover have "to_do ?sy = to_do sy" by (simp add: to_do_def)
  ultimately show ?thesis by (simp add: will_stop_def)
qed

lemma promised_rest:
  assumes "promised (a # todo) i p" and "action_product a \<noteq> i \<or> starting a"
  shows "promised (fs @ todo) i p"
  using assms by (cases a) (auto simp: promised_def)

lemma promised_advanced:
  assumes "promised (a # todo) (action_product a) p" and "advanced a fs p p'"
  shows "promised (fs @ todo) (action_product a) p'"
proof (cases "fs = []")
  case True
  with assms show ?thesis unfolding promised_def advanced_def by auto
next
  case False
  with assms(2) obtain f where "fs = [f]" "action_product f = action_product a"
    "stopping f = stopping a" "silencing f = silencing a" unfolding advanced_def by auto
  moreover have "silenced p \<longrightarrow> silenced p'" "rc_stopped (pd_recovery p) \<longrightarrow> rc_stopped (pd_recovery p')"
    "hub_down (rc_hub (pd_recovery p)) \<or> closing a \<longrightarrow> hub_down (rc_hub (pd_recovery p'))"
    using assms(2) by (simp_all add: advanced_def)
  ultimately show ?thesis using assms(1) unfolding promised_def by auto
qed

lemma starting_promises_nothing: "starting a \<Longrightarrow> \<not> silencing a \<and> \<not> closing a \<and> \<not> stopping a"
  by (cases a) simp_all

lemma promised_drop:
  assumes "promised (acts @ todo) i p" and "\<forall>a \<in> set acts. starting a"
  shows "promised todo i p"
  using assms starting_promises_nothing by (auto simp: promised_def)

lemma will_stop_step:
  assumes "will_stop sy" and "set_sound ops sy" and "set_step ops clock sy sy'"
  shows "will_stop sy'"
  using assms(3)
proof cases
  case (set_runtime i l r)
  show ?thesis unfolding set_runtime(1)
    using runtime_undisturbed [OF set_soundD(1) [OF assms(2)]] set_runtime(2-4) will_stop_other [OF assms(1)]
    by blast
next
  case (set_thread i w c)
  show ?thesis unfolding set_thread(1)
    using thread_undisturbed [OF set_soundD(1) [OF assms(2)]] set_thread(2-4) will_stop_other [OF assms(1)]
    by blast
next
  case (set_hub i h)
  show ?thesis unfolding set_hub(1)
    using hub_undisturbed [OF set_soundD(1) [OF assms(2)]] set_hub(2,3) will_stop_other [OF assms(1)]
    by blast
next
  case (set_call call calls)
  have "to_do sy' = to_do sy" by (simp add: set_call to_do_def)
  with assms(1) show ?thesis by (simp add: will_stop_def set_call)
next
  case (set_action a rest i thread_ok stopped fs r p)
  let ?todo = "rest @ concat (map (call_actions (length (sy_products sy))) (sy_calls sy))"
  have todo: "to_do sy = a # ?todo" "to_do sy' = fs @ ?todo" by (simp_all add: set_action to_do_def)
  note head = set_soundD(2) [OF assms(2) set_action(2)]
  have adv: "advanced a fs (sy_products sy ! i) p"
    using perform_advanced [OF set_soundD(1) [OF assms(2)] _ set_action(4)] head set_action(3) by blast
  have "promised (to_do sy') j (sy_products sy' ! j)" if j: "j < length (sy_products sy)" for j
  proof (cases "j = i")
    case True
    with assms(1) j have "promised (a # ?todo) (action_product a) (sy_products sy ! i)"
      using todo(1) set_action(3) by (auto simp: will_stop_def)
    from promised_advanced [OF this adv] show ?thesis
      using True j set_action(3) by (simp add: todo(2)) (simp add: set_action(1))
  next
    case False
    with assms(1) j have "promised (a # ?todo) j (sy_products sy ! j)" using todo(1) by (auto simp: will_stop_def)
    from promised_rest [OF this, of fs] show ?thesis
      using False set_action(3) by (simp add: todo(2)) (simp add: set_action(1))
  qed
  then show ?thesis by (simp add: will_stop_def) (simp add: set_action(1))
next
  case (set_throw a rest i thread_ok stopped p)
  have "i < length (sy_products sy)" using set_soundD(2) [OF assms(2) set_throw(2)] set_throw(3) by simp
  then have p: "p = sy_products sy ! i" "starting a"
    using perform_throws [OF set_soundD(1) [OF assms(2)] set_throw(4)] by blast+
  have "\<forall>b \<in> set (a # rest). starting b"
    using p(2) assms(2) set_throw(2) by (auto simp: set_sound_def)
  then have "promised (to_do sy') j (sy_products sy ! j)" if "j < length (sy_products sy)" for j
    using assms(1) that promised_drop [of "a # rest" "to_do sy'" j "sy_products sy ! j"]
    by (simp add: will_stop_def) (simp add: to_do_def set_throw(1,2))
  then show ?thesis by (simp add: will_stop_def) (simp add: set_throw(1) p(1))
qed

section \<open>From the construction on\<close>

definition set_init ::
  "enum_numbers \<Rightarrow> ('n, 'p) construction \<Rightarrow> 'n product_spec list \<Rightarrow> set_call list
     \<Rightarrow> ('p, 'g, 's) set_system \<Rightarrow> bool" where
  "set_init en cn specs calls sy \<longleftrightarrow>
     (\<exists>products. make_product_set en cn specs = Some products \<and> sy = start_set products calls)"

lemma made_product_ok:
  assumes "make_product cn i spec = Some (p :: ('p, 'g, 's) product)"
  shows "product_ok ops p"
proof -
  from assms obtain key identity runtime hub recovery where
    made: "make_runtime (po_runtime_limits (px_options spec)) (cn_has_clock cn) (xi_symbol identity)
         (cn_new_projection cn (px_numeric_spec spec) identity) (po_owner_starts_paused (px_options spec))
         (cn_owner_thread cn i) = Some runtime"
      "make_event_publication (cn_gateway_instance_id cn) (cn_has_clock cn) (po_event_limits (px_options spec))
         = Some hub"
      "make_coordinator (cn_has_clock cn) (Some (po_planned_rotation (px_options spec))) (True, True, True)
         True (hub, 0) = Some recovery"
    and p: "p = \<lparr>pd_key = key, pd_runtime = runtime, pd_recovery = recovery\<rparr>"
    by (auto simp: make_product_def Let_def bind_eq_Some_conv split: sum.splits)
  have clock: "cn_has_clock cn" using made(1) by (auto simp: make_runtime_def split: if_splits)
  have rt: "rt_limits runtime = po_runtime_limits (px_options spec)" "rt_owner runtime = OwnerAbsent"
    "\<not> rt_started runtime"
    using made(1) by (auto simp: make_runtime_def split: if_splits)
  have "runtime_init (rt_limits runtime) runtime" unfolding runtime_init_def rt(1) using made(1) by blast
  then have "rt_inv ops (rt_limits runtime) runtime" by (rule runtime_system.inv_init)
  moreover have "product_init recovery"
    unfolding product_init_def coordinator_init_def using made(2,3) clock by (metis (full_types))
  then have "product_inv recovery" by (rule product_inv_init)
  moreover have "\<not> rc_stopped recovery" using made(3) by (auto simp: make_coordinator_def split: if_splits)
  ultimately show ?thesis using rt by (simp add: product_ok_def p served_if_exited_def)
qed

lemma set_sound_init:
  assumes "set_init en cn specs calls sy"
  shows "set_sound ops sy"
proof -
  from assms obtain products where made: "make_product_set en cn specs = Some products"
    and sy: "sy = start_set products calls" by (auto simp: set_init_def)
  from made obtain prepared where owners: "construct_owners cn 0 prepared = Some (pset_owners products)"
    by (auto simp: make_product_set_def bind_eq_Some_conv)
  have "product_ok ops p" if "p \<in> set (pset_owners products)" for p
  proof -
    from that obtain j where "j < length (pset_owners products)" "p = pset_owners products ! j"
      by (auto simp: in_set_conv_nth)
    with construct_owners_nth [OF owners] have "make_product cn (0 + j) (prepared ! j) = Some p" by simp
    then show ?thesis by (rule made_product_ok)
  qed
  then show ?thesis by (simp add: sy set_sound_def start_set_def)
qed

definition set_stopping :: "('p, 'g, 's, 'b, 'c) projection_ops \<Rightarrow> ('p, 'g, 's) set_system \<Rightarrow> bool" where
  "set_stopping ops sy \<longleftrightarrow> set_sound ops sy \<and> will_stop sy"

interpretation set_run: invariant_system "set_init en cn specs calls" "set_step ops clock" "set_sound ops"
  for en cn specs calls ops clock
  by unfold_locales (fact set_sound_init, fact set_sound_step)

interpretation stopping_run: invariant_system "\<lambda>sy. set_init en cn specs calls sy \<and> CallStop \<in> set calls"
  "set_step ops clock" "set_stopping ops"
  for en cn specs calls ops clock
proof
  show "set_init en cn specs calls sy \<and> CallStop \<in> set calls \<Longrightarrow> set_stopping ops sy" for sy
    using set_sound_init [of en cn specs calls sy ops] will_stop_init [of sy]
    by (auto simp: set_stopping_def set_init_def start_set_def)
  show "set_stopping ops sy \<Longrightarrow> set_step ops clock sy sy' \<Longrightarrow> set_stopping ops sy'" for sy sy'
    using set_sound_step will_stop_step unfolding set_stopping_def by blast
qed

lemma product_inv_hub: "product_inv st \<Longrightarrow> hub_sound (rc_hub st)"
  by (cases "rc_phase st")
    (auto simp: product_inv_def hub_sources.source_inv_def hub_sources.src_none_def hub_sources.src_done_def
      hub_sources.src_serving_def hub_sources.src_quiet_def)

lemma stopped_product_quiet:
  assumes "reachable (\<lambda>s. set_init en cn specs calls s \<and> CallStop \<in> set calls) (set_step ops clock) sy"
    and "sy_actions sy = []" and "sy_calls sy = []" and "p \<in> set (sy_products sy)"
  shows "ep_source_state (fst (rc_hub (pd_recovery p))) = SrcShutdown
    \<and> (\<forall>a \<in> set (ep_channels (fst (rc_hub (pd_recovery p)))).
         \<exists>c. ep_store (fst (rc_hub (pd_recovery p))) a = Some c \<and> ec_state c \<noteq> EvActive)
    \<and> rc_phase (pd_recovery p) \<in> {PhAbsent, PhEnded}
    \<and> (rt_started (pd_runtime p) \<longrightarrow>
         rt_owner (pd_runtime p) = OwnerExited \<and> rt_subscribers (pd_runtime p) = [])
    \<and> isl (fst (admit_begin ops subscription (pd_runtime p)))"
proof -
  have "set_stopping ops sy" by (rule stopping_run.inv_reachable [OF assms(1)])
  then have sound: "product_ok ops p" and will: "will_stop sy"
    using assms(4) by (auto simp: set_stopping_def set_sound_def)
  obtain i where "i < length (sy_products sy)" "p = sy_products sy ! i"
    using assms(4) by (auto simp: in_set_conv_nth)
  with will have closed: "hub_down (rc_hub (pd_recovery p))" "rc_stopped (pd_recovery p)"
    by (auto simp: will_stop_def to_do_def assms(2,3) promised_def)
  have inv: "rt_inv ops (rt_limits (pd_runtime p)) (pd_runtime p)" "product_inv (pd_recovery p)"
    and rest: "joinable_done (pd_recovery p)" "rt_started (pd_runtime p) \<longrightarrow> rt_stopped (pd_runtime p)"
    using sound closed(2) by (auto simp: product_ok_def)
  have "ep_inv (fst (rc_hub (pd_recovery p)))"
    using product_inv_hub [OF inv(2)] by (simp add: hub_sound_def)
  with closed(1) have "\<forall>a \<in> set (ep_channels (fst (rc_hub (pd_recovery p)))).
         \<exists>c. ep_store (fst (rc_hub (pd_recovery p))) a = Some c \<and> ec_state c \<noteq> EvActive"
    unfolding ep_inv_def source_live_def hub_down_def by auto
  moreover have "rt_owner (pd_runtime p) = OwnerExited \<and> rt_subscribers (pd_runtime p) = []"
    if "rt_started (pd_runtime p)"
    using rt_invD(8) [OF inv(1)] rest(2) that by (auto simp: phase_inv_def)
  moreover have "isl (fst (admit_begin ops subscription (pd_runtime p)))"
    using rest(2) by (auto simp: admit_begin_def)
  ultimately show ?thesis
    using closed(1) rest(1) by (auto simp: hub_down_def joinable_done_def)
qed

text \<open>C10: whatever the owner threads, coordinator threads, writers and clients of the products do meanwhile, and
  in whatever order the operations are called, once \<open>stop\<close> has been called and every call has returned,
  no product has anything left: its event hub is shut down without an active session, its coordinator
  thread is gone, its runtime, if it was started, has ended its owner thread and holds no
  subscriber, and a new order-book subscription is refused.\<close>

theorem stopped_set_is_quiet:
  assumes "reachable (\<lambda>s. set_init en cn specs calls s \<and> CallStop \<in> set calls) (set_step ops clock) sy"
    and "sy_actions sy = []" and "sy_calls sy = []" and "p \<in> set (sy_products sy)"
  shows "ep_source_state (fst (rc_hub (pd_recovery p))) = SrcShutdown
    \<and> (\<forall>a \<in> set (ep_channels (fst (rc_hub (pd_recovery p)))).
         \<exists>c. ep_store (fst (rc_hub (pd_recovery p))) a = Some c \<and> ec_state c \<noteq> EvActive)
    \<and> rc_phase (pd_recovery p) \<in> {PhAbsent, PhEnded}
    \<and> (rt_started (pd_runtime p) \<longrightarrow>
         rt_owner (pd_runtime p) = OwnerExited \<and> rt_subscribers (pd_runtime p) = [])
    \<and> isl (fst (admit_begin ops subscription (pd_runtime p)))"
  by (rule stopped_product_quiet [OF assms])

lemma requested_shutdown_served:
  assumes "rt_inv ops (rt_limits r) r" and "served_if_exited r" and "rt_started r"
    and "rt_publication_shutdown_requested r" and "\<not> rt_publication_shutdown_completed r"
  shows "\<exists>k s. k \<le> 4 \<and> owner_run ops k r = Some s \<and> shutdown_finish s \<noteq> None"
proof -
  have "rt_owner r = OwnerWaiting \<or> (\<exists>w. rt_owner r = OwnerWorking w)"
    using assms rt_invD(8) [OF assms(1)]
    by (cases "rt_owner r") (auto simp: served_if_exited_def phase_inv_def)
  then obtain k s where "k \<le> 4" "owner_run ops k r = Some s" "rt_publication_shutdown_completed s"
    using assms(3-5) shutdown_served by blast
  then show ?thesis by (auto simp: shutdown_finish_def)
qed

lemma requested_coordinator_ends:
  assumes "rc_shutdown_requested c" and "\<not> joinable_done c" and "length ws = 3"
  shows "joinable_done (thread_run options ws c)"
proof -
  have "steps_to_exit (rc_phase c) \<le> 3" by (cases "rc_phase c") simp_all
  then show ?thesis using shutdown_run [of c ws options] assms by (simp add: joinable_done_def)
qed

lemma requested_owner_ends:
  assumes inv: "rt_inv ops (rt_limits r) r" and req: "rt_stop_requested r" and "rt_owner r \<noteq> OwnerExited"
  shows "\<exists>n s. owner_run ops n r = Some s \<and> stop_finish s \<noteq> None"
proof -
  have "rt_owner r \<noteq> OwnerAbsent" using req rt_invD(8) [OF inv] by (auto simp: phase_inv_def)
  with assms(3) obtain k t where t: "owner_run ops k r = Some t" "rt_owner t = OwnerWaiting" "latched r t"
  proof (cases "rt_owner r")
    case OwnerWaiting
    with that [of 0 r] show ?thesis by simp
  next
    case (OwnerWorking w)
    with that owner_comes_back [of r w ops] show ?thesis by blast
  qed simp_all
  have "rt_stop_requested t" using t(3) req by (simp add: latched_def)
  moreover have "rt_inv ops (rt_limits r) t" by (rule owner_run_inv [OF t(1) inv])
  ultimately obtain n u where u: "owner_run ops n t = Some u" "rt_owner u = OwnerExited"
    and ui: "rt_inv ops (rt_limits r) u"
    using owner_drains [OF t(2)] owner_run_inv by metis
  have "owner_run ops (k + n) r = Some u" unfolding owner_run_add t(1) bind.bind_lunit u(1) ..
  moreover have "stop_finish u \<noteq> None"
    using u(2) rt_invD(8) [OF ui] by (auto simp: stop_finish_def phase_inv_def)
  ultimately show ?thesis by blast
qed


section \<open>A run\<close>

text \<open>Whose turn it is: the lifecycle owner's, a runtime's owner thread's or a coordinator thread's.\<close>

datatype turn = LifecycleTurn | OwnerTurn nat | ThreadTurn nat

definition halting_world :: "unit coordinator_world" where
  "halting_world =
     \<lparr>cw_factory = Inr None, cw_clock = Inr \<lparr>cs_utc_ns = 5, cs_monotonic_ns = 6\<rparr>,
      cw_attempt_start = TsStarted, cw_attempt_running = example_transport,
      cw_attempt_stopped = example_stopped, cw_wait_live = None,
      cw_wait_recovery = False, cw_wait_rotation = TwRecoveryRequired, cw_observe = None,
      cw_observe_again = None, cw_submit_failure = AdAccepted,
      cw_planned_reset = PrReset, cw_reset = RrReset, cw_backoff = False\<rparr>"

definition lifecycle_turn :: "(nat, unit, nat) set_system \<Rightarrow> (nat, unit, nat) set_system" where
  "lifecycle_turn sy =
     (case sy_actions sy of
        [] \<Rightarrow> (case sy_calls sy of
            [] \<Rightarrow> sy
          | call # calls \<Rightarrow>
              sy\<lparr>sy_actions := call_actions (length (sy_products sy)) call, sy_calls := calls, sy_results := []\<rparr>)
      | action # rest \<Rightarrow>
          (case perform toy_ops True example_stopped action (sy_products sy ! action_product action) of
             Does following result p \<Rightarrow>
               sy\<lparr>sy_products := (sy_products sy)[action_product action := p], sy_actions := following @ rest,
                  sy_results := sy_results sy @ (case result of None \<Rightarrow> [] | Some r \<Rightarrow> [(pd_key p, r)])\<rparr>
           | _ \<Rightarrow> sy))"

fun take_turn :: "turn \<Rightarrow> (nat, unit, nat) set_system \<Rightarrow> (nat, unit, nat) set_system" where
  "take_turn LifecycleTurn sy = lifecycle_turn sy"
| "take_turn (OwnerTurn i) sy =
     (if i < length (sy_products sy) then
        (case owner_step toy_ops (pd_runtime (sy_products sy ! i)) of
           None \<Rightarrow> sy
         | Some r \<Rightarrow>
             if rt_started r = rt_started (pd_runtime (sy_products sy ! i))
             then sy\<lparr>sy_products := (sy_products sy)[i := (sy_products sy ! i)\<lparr>pd_runtime := r\<rparr>]\<rparr> else sy)
      else sy)"
| "take_turn (ThreadTurn i) sy =
     (if i < length (sy_products sy) \<and> rc_generation (pd_recovery (sy_products sy ! i)) = 1
        \<and> rc_shutdown_requested (pd_recovery (sy_products sy ! i)) then
        (case coordinator_step (Some (coordinator_options (\<lambda>_. None))) halting_world
            (pd_recovery (sy_products sy ! i)) of
           None \<Rightarrow> sy
         | Some c \<Rightarrow> sy\<lparr>sy_products := (sy_products sy)[i := (sy_products sy ! i)\<lparr>pd_recovery := c\<rparr>]\<rparr>)
      else sy)"

lemma lifecycle_turn_reachable:
  assumes "reachable init (set_step toy_ops clock) sy"
  shows "reachable init (set_step toy_ops clock) (lifecycle_turn sy)"
proof (cases "sy_actions sy")
  case Nil
  show ?thesis
  proof (cases "sy_calls sy")
    case (Cons call calls)
    from reach_step [OF assms set_call [OF Nil Cons]] Nil Cons show ?thesis by (simp add: lifecycle_turn_def)
  qed (use assms Nil in \<open>simp add: lifecycle_turn_def\<close>)
next
  case (Cons action rest)
  show ?thesis
  proof (cases "perform toy_ops True example_stopped action (sy_products sy ! action_product action)")
    case (Does following result p)
    from reach_step [OF assms set_action [OF Cons refl Does]] Cons Does show ?thesis
      by (simp add: lifecycle_turn_def)
  qed (use assms Cons in \<open>simp_all add: lifecycle_turn_def\<close>)
qed

lemma take_turn_reachable:
  assumes "reachable init (set_step toy_ops (\<lambda>_. None)) sy"
  shows "reachable init (set_step toy_ops (\<lambda>_. None)) (take_turn turn sy)"
proof (cases turn)
  case LifecycleTurn
  then show ?thesis using lifecycle_turn_reachable [OF assms] by simp
next
  case (OwnerTurn i)
  have step: "set_step toy_ops (\<lambda>_. None) sy
      (sy\<lparr>sy_products := (sy_products sy)[i := (sy_products sy ! i)\<lparr>pd_runtime := r\<rparr>]\<rparr>)"
    if "i < length (sy_products sy)" "owner_step toy_ops (pd_runtime (sy_products sy ! i)) = Some r"
      "rt_started r = rt_started (pd_runtime (sy_products sy ! i))" for r
    by (rule set_runtime [OF that(1) rs_owner [OF that(2)] that(3)])
  from assms reach_step [OF assms step] show ?thesis
    by (auto simp: OwnerTurn split: option.split)
next
  case (ThreadTurn i)
  have step: "set_step toy_ops (\<lambda>_. None) sy
      (sy\<lparr>sy_products := (sy_products sy)[i := (sy_products sy ! i)\<lparr>pd_recovery := c\<rparr>]\<rparr>)"
    if "i < length (sy_products sy)" "rc_generation (pd_recovery (sy_products sy ! i)) = 1"
      "rc_shutdown_requested (pd_recovery (sy_products sy ! i))"
      "coordinator_step (Some (coordinator_options (\<lambda>_. None))) halting_world (pd_recovery (sy_products sy ! i)) = Some c" for c
  proof (rule set_thread [OF that(1) _ that(4)])
    show "faithful_world (pd_recovery (sy_products sy ! i)) halting_world"
      using that(2,3) by (simp add: faithful_world_def halting_world_def example_stopped_def example_transport_def)
  qed
  from assms reach_step [OF assms step] show ?thesis
    by (auto simp: ThreadTurn split: option.split)
qed

lemma turns_reachable:
  "reachable init (set_step toy_ops (\<lambda>_. None)) sy
     \<Longrightarrow> reachable init (set_step toy_ops (\<lambda>_. None)) (fold take_turn turns sy)"
  by (induction turns arbitrary: sy) (auto intro: take_turn_reachable)

definition example_set :: "(nat, unit, nat) product_set" where
  "example_set = the (make_product_set example_numbers example_construction [hd example_specs])"

lemma example_set_made: "make_product_set example_numbers example_construction [hd example_specs] = Some example_set"
proof -
  have "\<not> Option.is_none (make_product_set example_numbers example_construction [hd example_specs]
      :: (nat, unit, nat) product_set option)"
    by code_simp
  then show ?thesis by (simp add: example_set_def Option.is_none_def)
qed

definition example_shutting :: "(nat, unit, nat) set_system" where
  "example_shutting = fold take_turn (replicate 7 LifecycleTurn)
     (start_set example_set [CallStart, CallShutdownPublications])"

definition example_halted :: "(nat, unit, nat) set_system" where
  "example_halted = fold take_turn
     (replicate 7 LifecycleTurn @ [OwnerTurn 0, OwnerTurn 0] @ replicate 3 LifecycleTurn
       @ [ThreadTurn 0] @ replicate 2 LifecycleTurn @ [OwnerTurn 0] @ replicate 2 LifecycleTurn)
     (start_set example_set [CallStart, CallStop])"

lemma example_start: "set_init example_numbers example_construction [hd example_specs] calls (start_set example_set calls)"
  using example_set_made unfolding set_init_def by blast

lemma example_halted_facts: "sy_actions example_halted = []" "sy_calls example_halted = []"
  "length (sy_products example_halted) = 1" "rt_started (pd_runtime (sy_products example_halted ! 0))"
  by code_simp+

theorem stopped_set_is_quiet_witness:
  "\<exists>p. p \<in> set (sy_products example_halted) \<and> rt_owner (pd_runtime p) = OwnerExited
     \<and> ep_source_state (fst (rc_hub (pd_recovery p))) = SrcShutdown"
proof -
  have r: "reachable (\<lambda>s. set_init example_numbers example_construction [hd example_specs] [CallStart, CallStop] s
      \<and> CallStop \<in> set [CallStart, CallStop]) (set_step toy_ops (\<lambda>_. None)) example_halted"
    unfolding example_halted_def by (intro turns_reachable reach_init) (simp add: example_start)
  have p: "sy_products example_halted ! 0 \<in> set (sy_products example_halted)"
    using example_halted_facts(3) by simp
  from stopped_set_is_quiet [OF r example_halted_facts(1,2) p] p example_halted_facts(4) show ?thesis by blast
qed

lemma example_shutting_facts:
  "sy_actions example_shutting = [ActAwaitShutdown 0, ActHubShutdown 0]"
  "shutdown_finish (pd_runtime (sy_products example_shutting ! 0)) = None"
  by code_simp+


end
