(* ===== verification/AsyncOperation.thy ===== *)
theory AsyncOperation
  imports TransportRoutes
begin

text \<open>
  What the asynchronous network operations of \<open>src/src/g4/spot_transport.cpp\<close> have in common:
  \<open>AsyncExchangeInfoGet\<close>, \<open>AsyncHttpsGet\<close> and \<open>AsyncWebSocket\<close> keep the same flags and the same
  stage timer. Asio and Beast are third-party: what is modelled of them is their documented
  interface, that an operation that was started completes by calling its handler once, with an
  error code (\<open>None\<close>: success), and that a cancelled timer still calls the handlers of its waits.
  The handlers an operation still waits for are part of its state. All handlers of a transport
  run on its network thread, so each handler is one atomic step.
\<close>

section \<open>Errors\<close>

text \<open>\<open>boost::system::error_code\<close>, with its \<open>message()\<close>.\<close>

datatype error_value = OperationAborted | BeastTimeout | OtherErrorValue int

record error_code =
  ec_value :: error_value
  ec_message :: string

text \<open>A clock may throw, a standard exception with its text or something else.\<close>

datatype clock_reading = ClockRead clock_sample | ClockThrew "string option"

definition make_network_error ::
  "network_error_code \<Rightarrow> string \<Rightarrow> string \<Rightarrow> nat option \<Rightarrow> string option \<Rightarrow> network_error" where
  "make_network_error code stage message status retry_after =
     \<lparr>ne_code = code, ne_stage = stage, ne_message = message, ne_http_status = status,
      ne_retry_after = retry_after\<rparr>"

definition error_from_code :: "network_error_code \<Rightarrow> string \<Rightarrow> error_code \<Rightarrow> network_error" where
  "error_from_code code stage failure = make_network_error code stage (ec_message failure) None None"

definition is_clean_cancellation :: "error_code \<Rightarrow> bool \<Rightarrow> bool" where
  "is_clean_cancellation failure clean_cancel_requested \<longleftrightarrow>
     clean_cancel_requested \<and> ec_value failure = OperationAborted"

text \<open>\<open>configure_tls_stream\<close>: \<open>tls\<close> is the text of OpenSSL's error when SNI cannot be set.\<close>

definition configure_tls_stream :: "string option \<Rightarrow> network_error option" where
  "configure_tls_stream tls =
     (case tls of None \<Rightarrow> None | Some text \<Rightarrow> Some (make_network_error NeTls ''sni'' text None None))"

record http_response =
  hr_result :: nat
  hr_body :: string
  hr_retry_after :: "string option"

section \<open>Flags and the stage timer\<close>

text \<open>
  \<open>ao_io\<close> is the started operation whose handler has not run, \<open>ao_timers\<close> the waits on the stage
  timer whose handlers have not run: the generation and the stage each was armed with.
\<close>

record 's async_op =
  ao_io :: "'s option"
  ao_timers :: "(u64 \<times> string) list"
  ao_timeout_generation :: u64
  ao_cancellation_completions_pending :: nat
  ao_io_pending :: bool
  ao_timer_pending :: bool
  ao_cancel_requested :: bool
  ao_done :: bool

definition start_io :: "'s \<Rightarrow> ('s, 'z) async_op_scheme \<Rightarrow> ('s, 'z) async_op_scheme" where
  "start_io stage op = op\<lparr>ao_io := Some stage, ao_io_pending := True\<rparr>"

text \<open>The handler of the started operation is called: its first statement.\<close>

definition io_completed :: "('s, 'z) async_op_scheme \<Rightarrow> ('s, 'z) async_op_scheme" where
  "io_completed op = op\<lparr>ao_io := None, ao_io_pending := False\<rparr>"

definition arm_timeout :: "string \<Rightarrow> ('s, 'z) async_op_scheme \<Rightarrow> ('s, 'z) async_op_scheme" where
  "arm_timeout stage op =
     (let generation = ao_timeout_generation op + 1 in
      op\<lparr>ao_timeout_generation := generation, ao_timer_pending := True,
         ao_timers := ao_timers op @ [(generation, stage)]\<rparr>)"

definition disarm_timeout :: "('s, 'z) async_op_scheme \<Rightarrow> ('s, 'z) async_op_scheme" where
  "disarm_timeout op =
     op\<lparr>ao_timeout_generation := ao_timeout_generation op + 1, ao_timer_pending := False\<rparr>"

definition retire_cleanly :: "('s, 'z) async_op_scheme \<Rightarrow> ('s, 'z) async_op_scheme" where
  "retire_cleanly op = (if ao_done op then op else op\<lparr>ao_done := True\<rparr>)"

definition cancel :: "('s, 'z) async_op_scheme \<Rightarrow> ('s, 'z) async_op_scheme" where
  "cancel op =
     (if ao_done op \<or> ao_cancel_requested op then op
      else let pending = (if ao_io_pending op then 1 else 0) + (if ao_timer_pending op then 1 else 0);
               op1 = op\<lparr>ao_cancel_requested := True, ao_cancellation_completions_pending := pending\<rparr>
           in if pending = 0 then retire_cleanly op1 else op1)"

text \<open>The end of an operation that reports: the first statements of \<open>finish\<close> and \<open>fail\<close>.\<close>

definition conclude :: "('s, 'z) async_op_scheme \<Rightarrow> ('s, 'z) async_op_scheme" where
  "conclude op = disarm_timeout (op\<lparr>ao_done := True, ao_cancellation_completions_pending := 0\<rparr>)"

text \<open>A handler of the stage timer leaves the list of outstanding waits when it is called.\<close>

definition take_timer :: "nat \<Rightarrow> ('s, 'z) async_op_scheme \<Rightarrow> ('s, 'z) async_op_scheme" where
  "take_timer i op = op\<lparr>ao_timers := take i (ao_timers op) @ drop (Suc i) (ao_timers op)\<rparr>"

section \<open>The invariant of an operation\<close>

text \<open>
  \<open>stage_weight\<close> counts the stages before the current one: every stage takes at most two ticks of
  the generation counter, so it never comes near its end and a stale wait never has the current
  generation. While the operation is not done, something is outstanding that will end it, and
  after a cancellation the counter is exactly the number of handlers it still waits for.
\<close>

definition current_timers :: "('s, 'z) async_op_scheme \<Rightarrow> nat" where
  "current_timers op =
     length (filter (\<lambda>t. fst t = ao_timeout_generation op) (ao_timers op))"

definition timers_ok :: "('s, 'z) async_op_scheme \<Rightarrow> bool" where
  "timers_ok op \<longleftrightarrow> unat (ao_timeout_generation op) \<le> 12
     \<and> (\<forall>t\<in>set (ao_timers op). fst t \<le> ao_timeout_generation op)
     \<and> current_timers op = (if ao_timer_pending op then 1 else 0)"

definition op_inv :: "('s \<Rightarrow> nat) \<Rightarrow> ('s, 'z) async_op_scheme \<Rightarrow> bool" where
  "op_inv weight op \<longleftrightarrow>
     timers_ok op \<and> ao_io_pending op = (ao_io op \<noteq> None)
     \<and> (\<not> ao_done op \<longrightarrow> unat (ao_timeout_generation op)
           \<le> (case ao_io op of Some s \<Rightarrow> 2 * weight s + 1 | None \<Rightarrow> 11))
     \<and> (\<not> ao_done op \<and> \<not> ao_cancel_requested op \<longrightarrow> ao_io op \<noteq> None)
     \<and> (\<not> ao_done op \<and> ao_cancel_requested op \<longrightarrow>
          ao_cancellation_completions_pending op
            = (if ao_io_pending op then 1 else 0) + (if ao_timer_pending op then 1 else 0)
          \<and> 0 < ao_cancellation_completions_pending op)"

text \<open>The number of handlers an operation still waits for.\<close>

definition outstanding :: "('s, 'z) async_op_scheme \<Rightarrow> nat" where
  "outstanding op = (if ao_io op = None then 0 else 1) + length (ao_timers op)"

text \<open>The operation will end without a new operation being started.\<close>

definition ended :: "('s, 'z) async_op_scheme \<Rightarrow> bool" where
  "ended op \<longleftrightarrow> ao_done op \<or> ao_cancel_requested op"

section \<open>The stage timer\<close>

lemma tick: "unat (g :: u64) \<le> 12 \<Longrightarrow> unat (g + 1) = Suc (unat g)"
  using unat_Suc_u64 [of g] by (fastforce simp: unat_u64_max)

lemma timers_ok_frame [simp]:
  "timers_ok (op\<lparr>ao_io := a\<rparr>) = timers_ok op"
  "timers_ok (op\<lparr>ao_io_pending := b\<rparr>) = timers_ok op"
  "timers_ok (op\<lparr>ao_done := b\<rparr>) = timers_ok op"
  "timers_ok (op\<lparr>ao_cancel_requested := b\<rparr>) = timers_ok op"
  "timers_ok (op\<lparr>ao_cancellation_completions_pending := n\<rparr>) = timers_ok op"
  by (simp_all add: timers_ok_def current_timers_def)

lemma timers_ok_bound: "timers_ok op \<Longrightarrow> unat (ao_timeout_generation op) \<le> 12"
  by (simp add: timers_ok_def)

lemma none_current:
  assumes "timers_ok op" and "ao_timeout_generation op < g"
  shows "filter (\<lambda>t. fst t = g) (ao_timers op) = []"
  using assms by (auto simp: timers_ok_def filter_empty_conv)

lemma timers_ok_disarm:
  assumes "timers_ok op" and "unat (ao_timeout_generation op) < 12"
  shows "timers_ok (disarm_timeout op)"
proof -
  let ?g = "ao_timeout_generation op"
  have up: "?g < ?g + 1" using assms(2) by (simp add: word_less_nat_alt tick)
  with assms none_current [OF assms(1) up] show ?thesis
    by (auto simp: timers_ok_def disarm_timeout_def current_timers_def tick intro: order.strict_implies_order
        le_less_trans)
qed

lemma timers_ok_arm:
  assumes "timers_ok op" and "unat (ao_timeout_generation op) < 12"
  shows "timers_ok (arm_timeout stage op)"
proof -
  let ?g = "ao_timeout_generation op"
  have up: "?g < ?g + 1" using assms(2) by (simp add: word_less_nat_alt tick)
  with assms none_current [OF assms(1) up] show ?thesis
    by (auto simp: timers_ok_def arm_timeout_def current_timers_def tick Let_def
        intro: order.strict_implies_order le_less_trans)
qed

lemma timers_split:
  assumes "i < length ts"
  shows "length (filter P ts) = length (filter P (take i ts @ drop (Suc i) ts)) + (if P (ts ! i) then 1 else 0)"
  by (subst id_take_nth_drop [OF assms]) simp

lemma timers_ok_stale:
  assumes "timers_ok op" and "i < length (ao_timers op)"
    and "fst (ao_timers op ! i) \<noteq> ao_timeout_generation op"
  shows "timers_ok (take_timer i op)"
  using assms timers_split [OF assms(2), of "\<lambda>t. fst t = ao_timeout_generation op"]
  by (auto simp: timers_ok_def take_timer_def current_timers_def dest: in_set_takeD in_set_dropD)

lemma timers_ok_current:
  assumes "timers_ok op" and "i < length (ao_timers op)"
    and "fst (ao_timers op ! i) = ao_timeout_generation op"
  shows "ao_timer_pending op \<and> timers_ok ((take_timer i op)\<lparr>ao_timer_pending := False\<rparr>)"
  using assms timers_split [OF assms(2), of "\<lambda>t. fst t = ao_timeout_generation op"]
  by (auto simp: timers_ok_def take_timer_def current_timers_def dest: in_set_takeD in_set_dropD
      split: if_splits)

section \<open>The invariant is kept\<close>

lemma op_inv_fresh:
  assumes "ao_timers op = []" and "ao_timeout_generation op = 0" and "\<not> ao_timer_pending op"
    and "\<not> ao_done op" and "\<not> ao_cancel_requested op" and "weight s = 0"
  shows "op_inv weight (start_io s (arm_timeout stage op))"
proof -
  have "timers_ok op" using assms by (simp add: timers_ok_def current_timers_def)
  then have "timers_ok (arm_timeout stage op)" using assms by (intro timers_ok_arm) simp_all
  with assms show ?thesis by (simp add: op_inv_def start_io_def arm_timeout_def Let_def)
qed

lemma op_inv_fresh_fails:
  assumes "ao_timers op = []" and "ao_timeout_generation op = 0" and "\<not> ao_timer_pending op"
    and "ao_io op = None" and "\<not> ao_io_pending op"
  shows "op_inv weight (conclude op)"
proof -
  have "timers_ok op" using assms by (simp add: timers_ok_def current_timers_def)
  then have "timers_ok (conclude op)" unfolding conclude_def using assms by (intro timers_ok_disarm) simp_all
  with assms show ?thesis by (simp add: op_inv_def conclude_def disarm_timeout_def)
qed

text \<open>No stage comes after the fifth.\<close>

definition five_stages :: "('s \<Rightarrow> nat) \<Rightarrow> bool" where
  "five_stages weight \<longleftrightarrow> (\<forall>s. weight s \<le> 4)"

lemma op_inv_io_timers: "op_inv weight op \<Longrightarrow> timers_ok (io_completed op)"
  by (simp add: op_inv_def io_completed_def)

lemma op_inv_io_generation:
  assumes "op_inv weight op" and "five_stages weight" and "ao_io op = Some s" and "\<not> ao_done op"
  shows "unat (ao_timeout_generation (io_completed op)) \<le> 9"
    and "unat (ao_timeout_generation (io_completed op)) \<le> 2 * weight s + 1"
proof -
  have "weight s \<le> 4" using assms(2) by (simp add: five_stages_def)
  moreover have "unat (ao_timeout_generation op) \<le> 2 * weight s + 1"
    using assms by (simp add: op_inv_def)
  ultimately show "unat (ao_timeout_generation (io_completed op)) \<le> 9"
      and "unat (ao_timeout_generation (io_completed op)) \<le> 2 * weight s + 1"
    by (simp_all add: io_completed_def)
qed

lemma op_inv_io_done: "op_inv weight op \<Longrightarrow> ao_done op \<Longrightarrow> op_inv weight (io_completed op)"
  by (simp add: op_inv_def io_completed_def)

lemma op_inv_conclude_io:
  assumes "op_inv weight op" and "five_stages weight" and "ao_io op = Some s" and "\<not> ao_done op"
  shows "op_inv weight (conclude (io_completed op))"
proof -
  note small = op_inv_io_generation [OF assms]
  have "timers_ok (conclude (io_completed op))"
    unfolding conclude_def using op_inv_io_timers [OF assms(1)] small by (intro timers_ok_disarm) simp_all
  with assms show ?thesis by (simp add: op_inv_def conclude_def disarm_timeout_def io_completed_def)
qed

lemma op_inv_conclude_disarmed:
  assumes "op_inv weight op" and "five_stages weight" and "ao_io op = Some s" and "\<not> ao_done op"
  shows "op_inv weight (conclude (disarm_timeout (io_completed op)))"
proof -
  note small = op_inv_io_generation [OF assms]
  have "timers_ok (disarm_timeout (io_completed op))"
    using op_inv_io_timers [OF assms(1)] small by (intro timers_ok_disarm) simp_all
  moreover have "unat (ao_timeout_generation (disarm_timeout (io_completed op))) \<le> 10"
    using small by (simp add: disarm_timeout_def tick)
  ultimately have "timers_ok (conclude (disarm_timeout (io_completed op)))"
    unfolding conclude_def by (intro timers_ok_disarm) simp_all
  with assms show ?thesis by (simp add: op_inv_def conclude_def disarm_timeout_def io_completed_def)
qed

lemma op_inv_next:
  assumes "op_inv weight op" and "five_stages weight" and "ao_io op = Some s" and "\<not> ao_done op"
    and "\<not> ao_cancel_requested op" and "weight s' = Suc (weight s)"
  shows "op_inv weight (start_io s' (arm_timeout stage (disarm_timeout (io_completed op))))"
proof -
  note small = op_inv_io_generation [OF assms(1-4)]
  have disarmed: "timers_ok (disarm_timeout (io_completed op))"
    using op_inv_io_timers [OF assms(1)] small by (intro timers_ok_disarm) simp_all
  have generation: "unat (ao_timeout_generation (disarm_timeout (io_completed op)))
      = Suc (unat (ao_timeout_generation (io_completed op)))"
    using small by (simp add: disarm_timeout_def tick)
  define next_op where "next_op = start_io s' (arm_timeout stage (disarm_timeout (io_completed op)))"
  from disarmed generation small have "timers_ok (arm_timeout stage (disarm_timeout (io_completed op)))"
    by (intro timers_ok_arm) simp_all
  then have "timers_ok next_op" by (simp only: next_op_def start_io_def timers_ok_frame)
  moreover have "unat (ao_timeout_generation next_op) \<le> 2 * weight s' + 1"
    using small generation assms(6) by (simp add: next_op_def start_io_def arm_timeout_def Let_def tick)
  moreover have "ao_io next_op = Some s'" "ao_io_pending next_op" "ao_done next_op = ao_done op"
      "ao_cancel_requested next_op = ao_cancel_requested op"
    by (simp_all add: next_op_def start_io_def arm_timeout_def disarm_timeout_def io_completed_def Let_def)
  ultimately have "op_inv weight next_op" using assms(5) by (simp add: op_inv_def)
  then show ?thesis by (simp only: next_op_def)
qed

text \<open>A handler after a cancellation: one handler less to wait for, and the last one ends it.\<close>

lemma op_inv_piece_io:
  assumes "op_inv weight op" and "five_stages weight" and "ao_io op = Some s" and "\<not> ao_done op"
    and "ao_cancel_requested op"
  shows "0 < ao_cancellation_completions_pending (io_completed op)"
    and "ao_cancellation_completions_pending (io_completed op) \<noteq> 1 \<Longrightarrow> op_inv weight
      ((io_completed op)\<lparr>ao_cancellation_completions_pending
          := ao_cancellation_completions_pending (io_completed op) - 1\<rparr>)"
    and "op_inv weight ((io_completed op)\<lparr>ao_cancellation_completions_pending := n, ao_done := True\<rparr>)"
  using assms op_inv_io_generation [OF assms(1-4)] by (auto simp: op_inv_def io_completed_def)

lemma op_inv_cancel: "op_inv weight op \<Longrightarrow> op_inv weight (cancel op)"
  by (auto simp: op_inv_def cancel_def retire_cleanly_def Let_def)

lemma ended_cancel: "ended (cancel op)"
  by (auto simp: ended_def cancel_def retire_cleanly_def Let_def)

text \<open>A wait of the timer, stale or current.\<close>

lemma op_inv_stale:
  assumes "op_inv weight op" and "i < length (ao_timers op)"
    and "fst (ao_timers op ! i) \<noteq> ao_timeout_generation op"
  shows "op_inv weight (take_timer i op)"
  using assms timers_ok_stale [OF _ assms(2,3)]
  by (auto simp: op_inv_def take_timer_def split: if_splits)

lemma op_inv_current:
  assumes "op_inv weight op" and "five_stages weight" and "i < length (ao_timers op)"
    and "fst (ao_timers op ! i) = ao_timeout_generation op"
  defines "op' \<equiv> (take_timer i op)\<lparr>ao_timer_pending := False\<rparr>"
  shows "timers_ok op'"
    and "ao_done op \<or> \<not> ao_cancel_requested op \<Longrightarrow> op_inv weight op'"
    and "\<not> ao_done op \<Longrightarrow> op_inv weight (conclude op')"
    and "\<not> ao_done op \<Longrightarrow> ao_cancel_requested op \<Longrightarrow> 0 < ao_cancellation_completions_pending op'"
    and "\<not> ao_done op \<Longrightarrow> ao_cancel_requested op \<Longrightarrow> ao_cancellation_completions_pending op' \<noteq> 1 \<Longrightarrow>
      op_inv weight (op'\<lparr>ao_cancellation_completions_pending := ao_cancellation_completions_pending op' - 1\<rparr>)"
    and "\<not> ao_done op \<Longrightarrow> ao_cancel_requested op \<Longrightarrow>
      op_inv weight (op'\<lparr>ao_cancellation_completions_pending := n, ao_done := True\<rparr>)"
proof -
  have current: "ao_timer_pending op" "timers_ok op'"
    using assms timers_ok_current [OF _ assms(3,4)] by (simp_all add: op_inv_def)
  show "timers_ok op'" by (rule current)
  show "ao_done op \<or> \<not> ao_cancel_requested op \<Longrightarrow> op_inv weight op'"
    using assms(1) current by (auto simp: op_inv_def op'_def take_timer_def)
  show "op_inv weight (conclude op')" if "\<not> ao_done op"
  proof -
    have "unat (ao_timeout_generation op) \<le> 11"
    proof (cases "ao_io op")
      case (Some s)
      then show ?thesis
        using op_inv_io_generation(1) [OF assms(1,2) Some that] by (simp add: io_completed_def)
    qed (use assms(1) that in \<open>simp add: op_inv_def\<close>)
    then have "timers_ok (conclude op')"
      unfolding conclude_def using current(2) by (intro timers_ok_disarm) (simp_all add: op'_def take_timer_def)
    with assms(1) show ?thesis
      by (simp add: op_inv_def conclude_def disarm_timeout_def op'_def take_timer_def)
  qed
  show "0 < ao_cancellation_completions_pending op'" if "\<not> ao_done op" "ao_cancel_requested op"
    using assms(1) that by (auto simp: op_inv_def op'_def take_timer_def split: if_splits)
  show "op_inv weight (op'\<lparr>ao_cancellation_completions_pending := ao_cancellation_completions_pending op' - 1\<rparr>)"
    if "\<not> ao_done op" "ao_cancel_requested op" "ao_cancellation_completions_pending op' \<noteq> 1"
    using assms(1) that current by (auto simp: op_inv_def op'_def take_timer_def split: if_splits)
  show "op_inv weight (op'\<lparr>ao_cancellation_completions_pending := n, ao_done := True\<rparr>)"
    if "\<not> ao_done op" "ao_cancel_requested op"
    using assms(1) that current by (auto simp: op_inv_def op'_def take_timer_def split: if_splits)
qed

text \<open>The state in which \<open>complete_cancelled_piece\<close> is called.\<close>

definition awaits :: "('s \<Rightarrow> nat) \<Rightarrow> ('s, 'z) async_op_scheme \<Rightarrow> bool" where
  "awaits weight op \<longleftrightarrow> \<not> ao_done op \<and> ao_cancel_requested op
     \<and> 0 < ao_cancellation_completions_pending op
     \<and> (ao_cancellation_completions_pending op \<noteq> 1 \<longrightarrow> op_inv weight
          (op\<lparr>ao_cancellation_completions_pending := ao_cancellation_completions_pending op - 1\<rparr>))
     \<and> (\<forall>n. op_inv weight (op\<lparr>ao_cancellation_completions_pending := n, ao_done := True\<rparr>))
     \<and> op_inv weight (conclude op)"

lemma awaits_io:
  assumes "op_inv weight op" and "five_stages weight" and "ao_io op = Some s" and "\<not> ao_done op"
    and "ao_cancel_requested op"
  shows "awaits weight (io_completed op)"
  unfolding awaits_def using op_inv_piece_io [OF assms] op_inv_conclude_io [OF assms(1-4)] assms(4,5)
  by (simp add: io_completed_def)

lemma awaits_current:
  assumes "op_inv weight op" and "five_stages weight" and "i < length (ao_timers op)"
    and "fst (ao_timers op ! i) = ao_timeout_generation op" and "\<not> ao_done op"
    and "ao_cancel_requested op"
  shows "awaits weight ((take_timer i op)\<lparr>ao_timer_pending := False\<rparr>)"
  unfolding awaits_def using op_inv_current [OF assms(1-4)] assms(5,6)
  by (simp add: take_timer_def)

text \<open>
  What every handler does to its operation: it keeps the invariant, it reports at most once, and
  once the operation is to end, there is one outstanding handler less and no new operation.
\<close>

definition op_effect :: "('s \<Rightarrow> nat) \<Rightarrow> ('s, 'z) async_op_scheme \<Rightarrow> ('s, 'z) async_op_scheme \<Rightarrow> bool \<Rightarrow> bool"
where
  "op_effect weight op op' reported \<longleftrightarrow>
     op_inv weight op'
     \<and> (ao_done op \<longrightarrow> ao_done op' \<and> \<not> reported) \<and> (reported \<longrightarrow> ao_done op')
     \<and> (ended op \<longrightarrow> ended op' \<and> outstanding op' < outstanding op
          \<and> (ao_io op' = None \<or> ao_io op' = ao_io op))"

lemma outstanding_io_completed:
  "ao_io op = Some s \<Longrightarrow> outstanding (io_completed op) < outstanding op"
  by (simp add: outstanding_def io_completed_def)

lemma outstanding_take_timer:
  "i < length (ao_timers op) \<Longrightarrow> outstanding (take_timer i op) < outstanding op"
  by (simp add: outstanding_def take_timer_def)

lemma outstanding_frame [simp]:
  "outstanding (conclude op) = outstanding op"
  "outstanding (disarm_timeout op) = outstanding op"
  "outstanding (retire_cleanly op) = outstanding op"
  "outstanding (cancel op) = outstanding op"
  "outstanding (op\<lparr>ao_timer_pending := b\<rparr>) = outstanding op"
  "outstanding (op\<lparr>ao_done := b\<rparr>) = outstanding op"
  "outstanding (op\<lparr>ao_cancellation_completions_pending := n\<rparr>) = outstanding op"
  by (simp_all add: outstanding_def conclude_def disarm_timeout_def retire_cleanly_def cancel_def Let_def)

lemma conclude_fields [simp]:
  "ao_done (conclude op)" "ao_cancel_requested (conclude op) = ao_cancel_requested op"
  "ao_io (conclude op) = ao_io op"
  by (simp_all add: conclude_def disarm_timeout_def)

lemma io_completed_fields [simp]:
  "ao_done (io_completed op) = ao_done op"
  "ao_cancel_requested (io_completed op) = ao_cancel_requested op"
  "ao_io (io_completed op) = None"
  by (simp_all add: io_completed_def)

lemma disarm_timeout_fields [simp]:
  "ao_done (disarm_timeout op) = ao_done op"
  "ao_cancel_requested (disarm_timeout op) = ao_cancel_requested op"
  "ao_io (disarm_timeout op) = ao_io op"
  by (simp_all add: disarm_timeout_def)

lemma cancel_io [simp]:
  "ao_io (cancel op) = ao_io op" "ao_io (retire_cleanly op) = ao_io op"
  by (simp_all add: cancel_def retire_cleanly_def Let_def)

lemma take_timer_fields [simp]:
  "ao_done (take_timer i op) = ao_done op"
  "ao_cancel_requested (take_timer i op) = ao_cancel_requested op"
  "ao_timeout_generation (take_timer i op) = ao_timeout_generation op"
  "ao_io (take_timer i op) = ao_io op"
  by (simp_all add: take_timer_def)

end
