(* ===== verification/HttpsGet.thy ===== *)
theory HttpsGet
  imports AsyncOperation
begin

text \<open>
  The request for the REST depth snapshot of a connection, \<open>AsyncHttpsGet\<close> of
  \<open>src/src/g4/spot_transport.cpp\<close>, which can be cancelled. Every handler returns the new state and,
  when it ends by calling \<open>completion_\<close>, the result it passes.
\<close>

section \<open>The snapshot request\<close>

datatype get_stage = GetDns | GetTcp | GetTls | GetWrite | GetRead

type_synonym get_result = "network_error + http_response \<times> clock_sample"

record async_https_get = "get_stage async_op" +
  ag_cancelled_result :: "get_result option"

definition make_https_get :: async_https_get where
  "make_https_get =
     \<lparr>ao_io = None, ao_timers = [], ao_timeout_generation = 0,
      ao_cancellation_completions_pending = 0, ao_io_pending = False, ao_timer_pending = False,
      ao_cancel_requested = False, ao_done = False, ag_cancelled_result = None\<rparr>"

definition get_finish :: "get_result \<Rightarrow> async_https_get \<Rightarrow> async_https_get \<times> get_result option" where
  "get_finish result op = (if ao_done op then (op, None) else (conclude op, Some result))"

definition get_start ::
  "string option \<Rightarrow> async_https_get \<Rightarrow> async_https_get \<times> get_result option" where
  "get_start tls op =
     (case configure_tls_stream tls of
        Some failure \<Rightarrow> get_finish (Inl failure) op
      | None \<Rightarrow> (start_io GetDns (arm_timeout ''depth-dns'' op), None))"

definition get_connect :: "async_https_get \<Rightarrow> async_https_get" where
  "get_connect op = start_io GetTcp (arm_timeout ''depth-tcp-connect'' op)"

definition get_handshake :: "async_https_get \<Rightarrow> async_https_get" where
  "get_handshake op = start_io GetTls (arm_timeout ''depth-tls-handshake'' op)"

definition get_write_request :: "async_https_get \<Rightarrow> async_https_get" where
  "get_write_request op = start_io GetWrite (arm_timeout ''depth-http-write'' op)"

definition get_read_response :: "async_https_get \<Rightarrow> async_https_get" where
  "get_read_response op = start_io GetRead (arm_timeout ''depth-http-read'' op)"

definition get_complete_cancelled_piece ::
  "async_https_get \<Rightarrow> async_https_get \<times> get_result option" where
  "get_complete_cancelled_piece op =
     (let op1 = (if 0 < ao_cancellation_completions_pending op
                 then op\<lparr>ao_cancellation_completions_pending := ao_cancellation_completions_pending op - 1\<rparr>
                 else op)
      in if ao_cancellation_completions_pending op1 \<noteq> 0 \<or> ao_done op1 then (op1, None)
         else case ag_cancelled_result op1 of
           Some result \<Rightarrow> get_finish result (op1\<lparr>ag_cancelled_result := None\<rparr>)
         | None \<Rightarrow> (retire_cleanly op1, None))"

text \<open>\<open>None\<close>: the handler goes on.\<close>

definition get_handle_cancelled_io ::
  "error_code option \<Rightarrow> network_error_code \<Rightarrow> string \<Rightarrow> async_https_get
     \<Rightarrow> (async_https_get \<times> get_result option) option" where
  "get_handle_cancelled_io ec code stage op =
     (if \<not> ao_cancel_requested op then None
      else case ec of
        Some failure \<Rightarrow>
          if \<not> is_clean_cancellation failure (ao_cancel_requested op)
          then Some (get_finish (Inl (error_from_code code stage failure)) op)
          else Some (get_complete_cancelled_piece op)
      | None \<Rightarrow> Some (get_complete_cancelled_piece op))"

text \<open>The completion lambdas of \<open>start\<close>, \<open>connect\<close>, \<open>handshake\<close> and \<open>write_request\<close>: the same
  statements, up to the stage and what follows it.\<close>

definition get_stage_completed ::
  "network_error_code \<Rightarrow> string \<Rightarrow> (async_https_get \<Rightarrow> async_https_get) \<Rightarrow> error_code option
     \<Rightarrow> async_https_get \<Rightarrow> async_https_get \<times> get_result option" where
  "get_stage_completed code stage following ec op =
     (let op1 = io_completed op in
      if ao_done op1 then (op1, None)
      else case get_handle_cancelled_io ec code stage op1 of
        Some handled \<Rightarrow> handled
      | None \<Rightarrow>
          let op2 = disarm_timeout op1 in
          case ec of
            Some failure \<Rightarrow> get_finish (Inl (error_from_code code stage failure)) op2
          | None \<Rightarrow> (following op2, None))"

definition response_result :: "clock_reading \<Rightarrow> http_response \<Rightarrow> get_result" where
  "response_result clock response =
     (case clock of
        ClockThrew (Some what) \<Rightarrow> Inl (make_network_error NeInternal ''depth-receive-clock'' what None None)
      | ClockThrew None \<Rightarrow>
          Inl (make_network_error NeInternal ''depth-receive-clock'' ''receive clock failed'' None None)
      | ClockRead received_at \<Rightarrow>
          if hr_result response \<noteq> 200 then
            Inl (make_network_error NeHttpStatus ''depth-http-status''
                   ''Binance depth request returned non-200'' (Some (hr_result response))
                   (hr_retry_after response))
          else Inr (response, received_at))"

definition get_response_read ::
  "clock_reading \<Rightarrow> http_response \<Rightarrow> error_code option \<Rightarrow> async_https_get
     \<Rightarrow> async_https_get \<times> get_result option" where
  "get_response_read clock response ec op =
     (let op1 = io_completed op in
      if ao_done op1 then (op1, None)
      else if ao_cancel_requested op1 then
        (case ec of
           Some failure \<Rightarrow>
             if \<not> is_clean_cancellation failure (ao_cancel_requested op1)
             then get_finish (Inl (error_from_code NeHttpRead ''depth-http-read'' failure)) op1
             else get_complete_cancelled_piece op1
         | None \<Rightarrow> get_complete_cancelled_piece
                     (op1\<lparr>ag_cancelled_result := Some (response_result clock response)\<rparr>))
      else
        let op2 = disarm_timeout op1 in
        case ec of
          Some failure \<Rightarrow> get_finish (Inl (error_from_code NeHttpRead ''depth-http-read'' failure)) op2
        | None \<Rightarrow> get_finish (response_result clock response) op2)"

text \<open>The handler of the outstanding operation is called with \<open>ec\<close>.\<close>

definition get_io_handler ::
  "clock_reading \<Rightarrow> http_response \<Rightarrow> error_code option \<Rightarrow> async_https_get
     \<Rightarrow> (async_https_get \<times> get_result option) option" where
  "get_io_handler clock response ec op =
     (case ao_io op of
        None \<Rightarrow> None
      | Some GetDns \<Rightarrow> Some (get_stage_completed NeDns ''depth-dns'' get_connect ec op)
      | Some GetTcp \<Rightarrow> Some (get_stage_completed NeTcp ''depth-tcp-connect'' get_handshake ec op)
      | Some GetTls \<Rightarrow> Some (get_stage_completed NeTls ''depth-tls-handshake'' get_write_request ec op)
      | Some GetWrite \<Rightarrow>
          Some (get_stage_completed NeHttpWrite ''depth-http-write'' get_read_response ec op)
      | Some GetRead \<Rightarrow> Some (get_response_read clock response ec op))"

text \<open>The handler of the \<open>i\<close>-th outstanding wait on the stage timer.\<close>

definition timeout_error :: "string \<Rightarrow> network_error" where
  "timeout_error stage = make_network_error NeTimeout stage ''network stage timed out'' None None"

definition get_timeout ::
  "string \<Rightarrow> error_code option \<Rightarrow> async_https_get \<Rightarrow> async_https_get \<times> get_result option" where
  "get_timeout stage ec op =
     (if ao_done op then (op, None)
      else if ao_cancel_requested op then
        (case ec of
           None \<Rightarrow> get_finish (Inl (timeout_error stage)) op
         | Some failure \<Rightarrow>
             if is_clean_cancellation failure (ao_cancel_requested op)
             then get_complete_cancelled_piece op
             else get_finish (Inl (error_from_code NeInternal (stage @ ''-timer'') failure)) op)
      else (case ec of
           None \<Rightarrow> get_finish (Inl (timeout_error stage)) op
         | Some _ \<Rightarrow> (op, None)))"

definition get_timer_handler ::
  "nat \<Rightarrow> error_code option \<Rightarrow> async_https_get \<Rightarrow> (async_https_get \<times> get_result option) option" where
  "get_timer_handler i ec op =
     (if i \<ge> length (ao_timers op) then None
      else Some (case ao_timers op ! i of (generation, stage) \<Rightarrow>
        let op1 = take_timer i op in
        if generation \<noteq> ao_timeout_generation op1 then (op1, None)
        else get_timeout stage ec (op1\<lparr>ao_timer_pending := False\<rparr>)))"

section \<open>Its invariant\<close>

fun get_weight :: "get_stage \<Rightarrow> nat" where
  "get_weight GetDns = 0"
| "get_weight GetTcp = 1"
| "get_weight GetTls = 2"
| "get_weight GetWrite = 3"
| "get_weight GetRead = 4"

lemma five_get_stages: "five_stages get_weight"
  unfolding five_stages_def
proof
  fix s show "get_weight s \<le> 4" by (cases s) simp_all
qed

lemma get_more [simp]:
  "op_inv w (op\<lparr>ag_cancelled_result := r\<rparr>) = op_inv w op"
  "awaits w (op\<lparr>ag_cancelled_result := r\<rparr>) = awaits w op"
  "outstanding (op\<lparr>ag_cancelled_result := r\<rparr>) = outstanding op"
  by (simp_all add: op_inv_def awaits_def timers_ok_def current_timers_def outstanding_def conclude_def
      disarm_timeout_def)

lemma get_piece_effect:
  assumes "awaits get_weight op" and "get_complete_cancelled_piece op = (op', r)"
  shows "op_inv get_weight op' \<and> ao_cancel_requested op' \<and> (r \<noteq> None \<longrightarrow> ao_done op')
    \<and> outstanding op' = outstanding op \<and> ao_io op' = ao_io op"
proof -
  have conc: "conclude (op\<lparr>ao_cancellation_completions_pending := n, ag_cancelled_result := None\<rparr>)
      = (conclude op)\<lparr>ag_cancelled_result := None\<rparr>" for n
    by (simp add: conclude_def disarm_timeout_def)
  show ?thesis
    using assms
    by (auto simp: get_complete_cancelled_piece_def awaits_def get_finish_def Let_def conc retire_cleanly_def
        split: if_splits option.splits)
qed

lemma get_stage_completed_effect:
  assumes "op_inv get_weight op" and "ao_io op = Some s" and "get_weight s' = Suc (get_weight s)"
    and following: "\<And>x. following x = start_io s' (arm_timeout name x)"
    and step: "get_stage_completed code stage following ec op = (op', r)"
  shows "op_effect get_weight op op' (r \<noteq> None)"
proof -
  note io = assms(1) five_get_stages assms(2)
  note less = outstanding_io_completed [OF assms(2)]
  consider (finished) "ao_done op"
    | (cancelled) "\<not> ao_done op" "ao_cancel_requested op"
    | (going) "\<not> ao_done op" "\<not> ao_cancel_requested op" by blast
  then show ?thesis
  proof cases
    case finished
    with step have "op' = io_completed op" "r = None" by (simp_all add: get_stage_completed_def)
    with finished less op_inv_io_done [OF assms(1)] show ?thesis by (simp add: op_effect_def ended_def)
  next
    case cancelled
    then consider e where "get_finish e (io_completed op) = (op', r)"
      | "get_complete_cancelled_piece (io_completed op) = (op', r)"
      using step by (auto simp: get_stage_completed_def get_handle_cancelled_io_def Let_def
          split: option.splits if_splits)
    then show ?thesis
    proof cases
      case 1
      with cancelled less op_inv_conclude_io [OF io cancelled(1)] show ?thesis
        by (auto simp: op_effect_def ended_def get_finish_def)
    next
      case 2
      from get_piece_effect [OF awaits_io [OF io cancelled] 2] cancelled less show ?thesis
        by (simp add: op_effect_def ended_def)
    qed
  next
    case going
    have "op_inv get_weight (following (disarm_timeout (io_completed op)))"
      unfolding following by (rule op_inv_next [OF io going assms(3)])
    moreover have "ao_cancel_requested (following x) = ao_cancel_requested x" for x
      by (simp add: following start_io_def arm_timeout_def Let_def)
    moreover have "op' = following (disarm_timeout (io_completed op)) \<and> r = None
        \<or> op' = conclude (disarm_timeout (io_completed op)) \<and> r \<noteq> None"
      using going step
      by (cases ec) (auto simp: get_stage_completed_def get_handle_cancelled_io_def get_finish_def Let_def)
    ultimately consider "op' = following (disarm_timeout (io_completed op))" "r = None"
        "op_inv get_weight op'" "ao_cancel_requested op' = ao_cancel_requested op"
      | "op' = conclude (disarm_timeout (io_completed op))" "r \<noteq> None"
      by auto
    then show ?thesis
    proof cases
      case 1
      with going show ?thesis by (simp add: op_effect_def ended_def)
    next
      case 2
      with going op_inv_conclude_disarmed [OF io going(1)] show ?thesis
        by (simp add: op_effect_def ended_def)
    qed
  qed
qed

lemma get_response_read_effect:
  assumes "op_inv get_weight op" and "ao_io op = Some s"
    and step: "get_response_read clock response ec op = (op', r)"
  shows "op_effect get_weight op op' (r \<noteq> None)"
proof -
  note io = assms(1) five_get_stages assms(2)
  note less = outstanding_io_completed [OF assms(2)]
  consider (finished) "ao_done op"
    | (cancelled) "\<not> ao_done op" "ao_cancel_requested op"
    | (going) "\<not> ao_done op" "\<not> ao_cancel_requested op" by blast
  then show ?thesis
  proof cases
    case finished
    with step have "op' = io_completed op" "r = None" by (simp_all add: get_response_read_def)
    with finished less op_inv_io_done [OF assms(1)] show ?thesis by (simp add: op_effect_def ended_def)
  next
    case cancelled
    note last = awaits_io [OF io cancelled]
    from cancelled consider e where "get_finish e (io_completed op) = (op', r)"
      | "get_complete_cancelled_piece (io_completed op) = (op', r)"
      | c where "get_complete_cancelled_piece ((io_completed op)\<lparr>ag_cancelled_result := c\<rparr>) = (op', r)"
      using step by (cases ec) (auto simp: get_response_read_def Let_def split: if_splits)
    then show ?thesis
    proof cases
      case 1
      with cancelled less op_inv_conclude_io [OF io cancelled(1)] show ?thesis
        by (auto simp: op_effect_def ended_def get_finish_def)
    next
      case 2
      from get_piece_effect [OF last 2] cancelled less show ?thesis by (simp add: op_effect_def ended_def)
    next
      case 3
      from get_piece_effect [OF _ 3] last cancelled less show ?thesis by (simp add: op_effect_def ended_def)
    qed
  next
    case going
    with step have "op' = conclude (disarm_timeout (io_completed op))"
      by (cases ec) (auto simp: get_response_read_def get_finish_def Let_def)
    then show ?thesis
      using going op_inv_conclude_disarmed [OF io going(1)] by (simp add: op_effect_def ended_def)
  qed
qed

lemma get_io_handler_effect:
  assumes "op_inv get_weight op" and "get_io_handler clock response ec op = Some (op', r)"
  shows "op_effect get_weight op op' (r \<noteq> None)"
proof -
  from assms(2) obtain s where s: "ao_io op = Some s" by (auto simp: get_io_handler_def split: option.splits)
  note staged = get_stage_completed_effect [OF assms(1) s]
  show ?thesis
  proof (cases s)
    case GetDns
    with assms(2) s have "get_stage_completed NeDns ''depth-dns'' get_connect ec op = (op', r)"
      by (simp add: get_io_handler_def)
    then show ?thesis by (rule staged [rotated 2]) (simp_all add: GetDns get_connect_def)
  next
    case GetTcp
    with assms(2) s have "get_stage_completed NeTcp ''depth-tcp-connect'' get_handshake ec op = (op', r)"
      by (simp add: get_io_handler_def)
    then show ?thesis by (rule staged [rotated 2]) (simp_all add: GetTcp get_handshake_def)
  next
    case GetTls
    with assms(2) s have "get_stage_completed NeTls ''depth-tls-handshake'' get_write_request ec op = (op', r)"
      by (simp add: get_io_handler_def)
    then show ?thesis by (rule staged [rotated 2]) (simp_all add: GetTls get_write_request_def)
  next
    case GetWrite
    with assms(2) s have "get_stage_completed NeHttpWrite ''depth-http-write'' get_read_response ec op = (op', r)"
      by (simp add: get_io_handler_def)
    then show ?thesis by (rule staged [rotated 2]) (simp_all add: GetWrite get_read_response_def)
  next
    case GetRead
    with assms(2) s have "get_response_read clock response ec op = (op', r)" by (simp add: get_io_handler_def)
    then show ?thesis by (rule get_response_read_effect [OF assms(1) s])
  qed
qed

lemma get_timer_handler_effect:
  assumes "op_inv get_weight op" and "get_timer_handler i ec op = Some (op', r)"
  shows "op_effect get_weight op op' (r \<noteq> None)"
proof -
  from assms(2) have i: "i < length (ao_timers op)" by (simp add: get_timer_handler_def split: if_splits)
  note less = outstanding_take_timer [OF i]
  obtain generation stage where t: "ao_timers op ! i = (generation, stage)" by fastforce
  define op2 where "op2 = (take_timer i op)\<lparr>ao_timer_pending := False\<rparr>"
  show ?thesis
  proof (cases "generation = ao_timeout_generation op")
    case False
    then have "op' = take_timer i op" "r = None"
      using assms(2) i t by (simp_all add: get_timer_handler_def)
    with less op_inv_stale [OF assms(1) i] False t show ?thesis by (simp add: op_effect_def ended_def)
  next
    case True
    then have current: "fst (ao_timers op ! i) = ao_timeout_generation op" using t by simp
    have same: "ao_done op2 = ao_done op" "ao_cancel_requested op2 = ao_cancel_requested op"
        "outstanding op2 < outstanding op" "ao_io op2 = ao_io op"
      using less by (simp_all add: op2_def)
    note kept = op_inv_current(2,3) [OF assms(1) five_get_stages i current, folded op2_def]
    note last = awaits_current [OF assms(1) five_get_stages i current, folded op2_def]
    have "get_timeout stage ec op2 = (op', r)"
      using assms(2) i t True by (simp add: get_timer_handler_def op2_def)
    then consider "op' = op2" "r = None" "ao_done op \<or> \<not> ao_cancel_requested op"
      | e where "get_finish e op2 = (op', r)" "\<not> ao_done op"
      | "get_complete_cancelled_piece op2 = (op', r)" "\<not> ao_done op" "ao_cancel_requested op"
      by (cases "ao_done op"; cases "ao_cancel_requested op"; cases ec)
        (auto simp: same get_timeout_def split: if_splits)
    then show ?thesis
    proof cases
      case 1
      with kept(1) same show ?thesis by (simp add: op_effect_def ended_def)
    next
      case 2
      with kept(2) same show ?thesis by (auto simp: op_effect_def ended_def get_finish_def)
    next
      case 3
      with get_piece_effect [OF last, of op' r] same show ?thesis by (simp add: op_effect_def ended_def)
    qed
  qed
qed

lemma get_start_inv:
  assumes "get_start tls make_https_get = (op, r)"
  shows "op_inv get_weight op \<and> (r \<noteq> None \<longrightarrow> ao_done op)"
  using assms op_inv_fresh [of make_https_get get_weight GetDns "''depth-dns''"]
    op_inv_fresh_fails [of make_https_get get_weight]
  by (auto simp: get_start_def make_https_get_def get_finish_def split: option.splits)

end
