(* ===== verification/MetadataRequest.thy ===== *)
theory MetadataRequest
  imports HttpsGet
begin

text \<open>
  The request for the exchange metadata of \<open>src/src/g4/spot_transport.cpp\<close>: \<open>AsyncExchangeInfoGet\<close>,
  which cannot be cancelled, and \<open>fetch_exchange_info_https\<close>, which runs one on the calling thread and
  returns its result. The same request serves both markets.
\<close>

section \<open>The metadata request\<close>

record exchange_info_endpoint =
  ee_host :: string
  ee_port :: string
  ee_target :: string
  ee_stage_timeout :: int

record exchange_info_get =
  eg_io :: "get_stage option"
  eg_timers :: "(u64 \<times> string) list"
  eg_timeout_generation :: u64
  eg_done :: bool

record exchange_info_response =
  ei_body :: string
  ei_tls_verified :: bool

type_synonym exchange_info_result = "network_error + exchange_info_response"

definition make_exchange_info_get :: exchange_info_get where
  "make_exchange_info_get =
     \<lparr>eg_io = None, eg_timers = [], eg_timeout_generation = 0, eg_done = False\<rparr>"

definition info_disarm_timeout :: "exchange_info_get \<Rightarrow> exchange_info_get" where
  "info_disarm_timeout op = op\<lparr>eg_timeout_generation := eg_timeout_generation op + 1\<rparr>"

definition info_arm_timeout :: "string \<Rightarrow> exchange_info_get \<Rightarrow> exchange_info_get" where
  "info_arm_timeout stage op =
     (let generation = eg_timeout_generation op + 1 in
      op\<lparr>eg_timeout_generation := generation, eg_timers := eg_timers op @ [(generation, stage)]\<rparr>)"

definition info_finish ::
  "exchange_info_result \<Rightarrow> exchange_info_get \<Rightarrow> exchange_info_get \<times> exchange_info_result option" where
  "info_finish result op =
     (if eg_done op then (op, None)
      else (info_disarm_timeout (op\<lparr>eg_done := True\<rparr>), Some result))"

definition info_begin :: "get_stage \<Rightarrow> string \<Rightarrow> exchange_info_get \<Rightarrow> exchange_info_get" where
  "info_begin stage name op = (info_arm_timeout name op)\<lparr>eg_io := Some stage\<rparr>"

definition info_start ::
  "string option \<Rightarrow> exchange_info_get \<Rightarrow> exchange_info_get \<times> exchange_info_result option" where
  "info_start tls op =
     (case configure_tls_stream tls of
        Some failure \<Rightarrow> info_finish (Inl failure) op
      | None \<Rightarrow> (info_begin GetDns ''exchange-info-dns'' op, None))"

definition info_connect :: "exchange_info_get \<Rightarrow> exchange_info_get" where
  "info_connect = info_begin GetTcp ''exchange-info-tcp-connect''"

definition info_handshake :: "exchange_info_get \<Rightarrow> exchange_info_get" where
  "info_handshake = info_begin GetTls ''exchange-info-tls-handshake''"

definition info_write_request :: "exchange_info_get \<Rightarrow> exchange_info_get" where
  "info_write_request = info_begin GetWrite ''exchange-info-http-write''"

definition info_read_response :: "exchange_info_get \<Rightarrow> exchange_info_get" where
  "info_read_response = info_begin GetRead ''exchange-info-http-read''"

definition info_stage_completed ::
  "network_error_code \<Rightarrow> string \<Rightarrow> (exchange_info_get \<Rightarrow> exchange_info_get \<times> exchange_info_result option)
     \<Rightarrow> error_code option \<Rightarrow> exchange_info_get \<Rightarrow> exchange_info_get \<times> exchange_info_result option" where
  "info_stage_completed code stage following ec op =
     (let op1 = op\<lparr>eg_io := None\<rparr> in
      if eg_done op1 then (op1, None)
      else let op2 = info_disarm_timeout op1 in
        case ec of
          Some failure \<Rightarrow> info_finish (Inl (error_from_code code stage failure)) op2
        | None \<Rightarrow> following op2)"

definition info_response :: "http_response \<Rightarrow> exchange_info_result" where
  "info_response response =
     (if hr_result response \<noteq> 200 then
        Inl (make_network_error NeHttpStatus ''exchange-info-http-status''
               ''Binance exchangeInfo returned non-200'' (Some (hr_result response))
               (hr_retry_after response))
      else Inr \<lparr>ei_body = hr_body response, ei_tls_verified = True\<rparr>)"

definition info_io_handler ::
  "http_response \<Rightarrow> error_code option \<Rightarrow> exchange_info_get
     \<Rightarrow> (exchange_info_get \<times> exchange_info_result option) option" where
  "info_io_handler response ec op =
     (case eg_io op of
        None \<Rightarrow> None
      | Some GetDns \<Rightarrow>
          Some (info_stage_completed NeDns ''exchange-info-dns'' (\<lambda>p. (info_connect p, None)) ec op)
      | Some GetTcp \<Rightarrow>
          Some (info_stage_completed NeTcp ''exchange-info-tcp-connect'' (\<lambda>p. (info_handshake p, None)) ec op)
      | Some GetTls \<Rightarrow>
          Some (info_stage_completed NeTls ''exchange-info-tls-handshake''
                  (\<lambda>p. (info_write_request p, None)) ec op)
      | Some GetWrite \<Rightarrow>
          Some (info_stage_completed NeHttpWrite ''exchange-info-http-write''
                  (\<lambda>p. (info_read_response p, None)) ec op)
      | Some GetRead \<Rightarrow>
          Some (info_stage_completed NeHttpRead ''exchange-info-http-read''
                  (info_finish (info_response response)) ec op))"

definition info_timer_handler ::
  "nat \<Rightarrow> error_code option \<Rightarrow> exchange_info_get
     \<Rightarrow> (exchange_info_get \<times> exchange_info_result option) option" where
  "info_timer_handler i ec op =
     (if i \<ge> length (eg_timers op) then None
      else Some (case eg_timers op ! i of (generation, stage) \<Rightarrow>
        let op1 = op\<lparr>eg_timers := take i (eg_timers op) @ drop (Suc i) (eg_timers op)\<rparr> in
        if ec = None \<and> \<not> eg_done op1 \<and> generation = eg_timeout_generation op1
        then info_finish (Inl (timeout_error stage)) op1
        else (op1, None)))"

section \<open>Running the metadata request\<close>

text \<open>
  \<open>context.run()\<close> calls the handlers of completed operations until none is outstanding. What Asio
  completes, in which order and with which outcome, is the list of events; an event of a handler
  that is not outstanding does not occur. The first result that is reported is kept.
\<close>

datatype info_event = InfoIo http_response "error_code option" | InfoTimer nat "error_code option"

definition info_handler ::
  "info_event \<Rightarrow> exchange_info_get \<Rightarrow> (exchange_info_get \<times> exchange_info_result option) option" where
  "info_handler event op =
     (case event of
        InfoIo response ec \<Rightarrow> info_io_handler response ec op
      | InfoTimer i ec \<Rightarrow> info_timer_handler i ec op)"

fun run_exchange_info ::
  "info_event list \<Rightarrow> exchange_info_get \<times> exchange_info_result option
     \<Rightarrow> (exchange_info_get \<times> exchange_info_result option) option" where
  "run_exchange_info [] st = Some st"
| "run_exchange_info (event # events) (op, result) =
     (case info_handler event op of
        None \<Rightarrow> None
      | Some (op', completed) \<Rightarrow>
          run_exchange_info events (op', if result = None then completed else result))"

text \<open>Nothing is outstanding: \<open>context.run()\<close> returns.\<close>

definition info_drained :: "exchange_info_get \<Rightarrow> bool" where
  "info_drained op \<longleftrightarrow> eg_io op = None \<and> eg_timers op = []"

text \<open>\<open>None\<close>: the events are not those of a whole run.\<close>

definition fetch_exchange_info_https ::
  "exchange_info_endpoint \<Rightarrow> string option \<Rightarrow> info_event list \<Rightarrow> exchange_info_result option" where
  "fetch_exchange_info_https endpoint tls events =
     (if ee_host endpoint = [] \<or> ee_port endpoint = [] \<or> ee_target endpoint = []
         \<or> ee_stage_timeout endpoint \<le> 0
      then Some (Inl (make_network_error NeInternal ''exchange-info-config''
                        ''exchangeInfo endpoint and timeout must be finite'' None None))
      else case run_exchange_info events (info_start tls make_exchange_info_get) of
        None \<Rightarrow> None
      | Some (op, result) \<Rightarrow>
          if \<not> info_drained op then None
          else case result of
            None \<Rightarrow> Some (Inl (make_network_error NeInternal ''exchange-info-https''
                               ''exchangeInfo operation completed without a result'' None None))
          | Some r \<Rightarrow> Some r)"

text \<open>Durations of the endpoint are in seconds.\<close>

definition kStageTimeout :: int where "kStageTimeout = 10"

definition spot_exchange_info_set_endpoint :: exchange_info_endpoint where
  "spot_exchange_info_set_endpoint =
     \<lparr>ee_host = kRestHost, ee_port = kRestPort, ee_target = ''/api/v3/exchangeInfo'',
      ee_stage_timeout = kStageTimeout\<rparr>"

definition fetch_spot_exchange_info_set_https ::
  "string option \<Rightarrow> info_event list \<Rightarrow> exchange_info_result option" where
  "fetch_spot_exchange_info_set_https = fetch_exchange_info_https spot_exchange_info_set_endpoint"

definition fetch_symbol_exchange_info_https ::
  "string \<Rightarrow> string option \<Rightarrow> info_event list \<Rightarrow> exchange_info_result option" where
  "fetch_symbol_exchange_info_https exact_symbol tls events =
     (case make_spot_transport_routes exact_symbol of
        None \<Rightarrow> Some (Inl (make_network_error NeProtocol ''exchange-info-config''
                          ''Spot symbol cannot be represented by a Binance route'' None None))
      | Some routes \<Rightarrow> fetch_exchange_info_https
          \<lparr>ee_host = sr_rest_host routes, ee_port = sr_rest_port routes,
           ee_target = sr_exchange_info_target routes, ee_stage_timeout = kStageTimeout\<rparr> tls events)"

definition fetch_usdm_exchange_info_https ::
  "string option \<Rightarrow> info_event list \<Rightarrow> exchange_info_result option" where
  "fetch_usdm_exchange_info_https = fetch_exchange_info_https
     \<lparr>ee_host = ur_rest_host kUsdMTransportRoutes, ee_port = ur_rest_port kUsdMTransportRoutes,
      ee_target = ur_exchange_info_target kUsdMTransportRoutes, ee_stage_timeout = kStageTimeout\<rparr>"

section \<open>The request always reports\<close>

definition info_weight :: "exchange_info_get \<Rightarrow> nat" where
  "info_weight op = (if eg_io op = None then 0 else 1) + length (eg_timers op)
     + (if eg_done op then 0 else case eg_io op of None \<Rightarrow> 0 | Some s \<Rightarrow> 2 * (4 - get_weight s))"

definition info_inv :: "exchange_info_get \<Rightarrow> bool" where
  "info_inv op \<longleftrightarrow> eg_done op \<or> eg_io op \<noteq> None"

lemmas info_defs = info_finish_def info_disarm_timeout_def info_arm_timeout_def info_begin_def
  info_connect_def info_handshake_def info_write_request_def info_read_response_def

lemma info_io_step:
  assumes "info_io_handler response ec op = Some (op', completed)" and "info_inv op"
  shows "info_inv op' \<and> info_weight op' < info_weight op \<and> (eg_done op \<longrightarrow> eg_done op' \<and> completed = None)
    \<and> (\<not> eg_done op \<longrightarrow> eg_done op' = (completed \<noteq> None))"
proof -
  from assms(1) obtain s where s: "eg_io op = Some s" by (auto simp: info_io_handler_def split: option.splits)
  with assms show ?thesis
    by (cases s; cases ec; cases "eg_done op")
      (auto simp: info_io_handler_def info_stage_completed_def info_defs info_inv_def info_weight_def Let_def)
qed

lemma info_timer_step:
  assumes "info_timer_handler i ec op = Some (op', completed)" and "info_inv op"
  shows "info_inv op' \<and> info_weight op' < info_weight op \<and> (eg_done op \<longrightarrow> eg_done op' \<and> completed = None)
    \<and> (\<not> eg_done op \<longrightarrow> eg_done op' = (completed \<noteq> None))"
  using assms
  by (auto simp: info_timer_handler_def info_defs info_inv_def info_weight_def Let_def
      split: if_splits prod.splits option.splits)

lemma info_step:
  assumes "info_handler event op = Some (op', completed)" and "info_inv op"
  shows "info_inv op' \<and> info_weight op' < info_weight op \<and> (eg_done op \<longrightarrow> eg_done op' \<and> completed = None)
    \<and> (\<not> eg_done op \<longrightarrow> eg_done op' = (completed \<noteq> None))"
  using assms info_io_step info_timer_step by (cases event) (simp_all add: info_handler_def)

lemma run_exchange_info_inv:
  assumes "run_exchange_info events (op, result) = Some (op', result')"
    and "info_inv op" and "eg_done op = (result \<noteq> None)"
  shows "info_inv op' \<and> eg_done op' = (result' \<noteq> None) \<and> length events + info_weight op' \<le> info_weight op"
  using assms
proof (induction events arbitrary: op result)
  case (Cons event events)
  from Cons.prems(1) obtain op1 completed where step: "info_handler event op = Some (op1, completed)"
      "run_exchange_info events (op1, if result = None then completed else result) = Some (op', result')"
    by (auto split: option.splits)
  note kept = info_step [OF step(1) Cons.prems(2)]
  have "eg_done op1 = ((if result = None then completed else result) \<noteq> None)"
    using kept Cons.prems(3) by auto
  from Cons.IH [OF step(2) _ this] kept show ?case by auto
qed simp

lemma info_not_stuck: "\<not> info_drained op \<Longrightarrow> \<exists>event. info_handler event op \<noteq> None"
proof -
  assume "\<not> info_drained op"
  then consider s where "eg_io op = Some s" | "0 < length (eg_timers op)" by (auto simp: info_drained_def)
  then show ?thesis
  proof cases
    case 1
    then have "info_handler (InfoIo \<lparr>hr_result = 200, hr_body = [], hr_retry_after = None\<rparr> None) op \<noteq> None"
      by (simp add: info_handler_def info_io_handler_def split: get_stage.split)
    then show ?thesis by blast
  next
    case 2
    then have "info_handler (InfoTimer 0 None) op \<noteq> None"
      by (simp add: info_handler_def info_timer_handler_def)
    then show ?thesis by blast
  qed
qed

text \<open>C33: a metadata request ends with exactly what \<open>fetch_exchange_info_https\<close> waits for: whatever
  completes in whatever order, at most ten handlers run, one is there to run as long as the I/O
  context has work, and when it has none, a result has been reported. The error "completed without
  a result" never occurs.\<close>

theorem metadata_request_reports:
  assumes "run_exchange_info events (info_start tls make_exchange_info_get) = Some (op, result)"
  shows "length events \<le> 10 \<and> (if info_drained op then result \<noteq> None else \<exists>event. info_handler event op \<noteq> None)"
proof -
  obtain op0 r0 where start: "info_start tls make_exchange_info_get = (op0, r0)" by fastforce
  then have fresh: "info_inv op0" "eg_done op0 = (r0 \<noteq> None)" "info_weight op0 \<le> 10"
    by (auto simp: info_start_def make_exchange_info_get_def info_defs info_inv_def info_weight_def Let_def
        configure_tls_stream_def split: option.splits)
  from run_exchange_info_inv [OF assms [unfolded start] fresh(1,2)] fresh(3)
  have "info_inv op" "eg_done op = (result \<noteq> None)" "length events \<le> 10" by simp_all
  then show ?thesis using info_not_stuck by (auto simp: info_inv_def info_drained_def)
qed

text \<open>A request that is answered at once, and whose cancelled waits are then called.\<close>

definition example_info_events :: "info_event list" where
  "example_info_events =
     (let answer = \<lparr>hr_result = 200, hr_body = ''{}'', hr_retry_after = None\<rparr>;
          aborted = Some \<lparr>ec_value = OperationAborted, ec_message = ''aborted''\<rparr>
      in replicate 5 (InfoIo answer None) @ replicate 5 (InfoTimer 0 aborted))"

theorem metadata_request_reports_witness:
  "length example_info_events = 10
   \<and> fetch_exchange_info_https spot_exchange_info_set_endpoint None example_info_events
       = Some (Inr \<lparr>ei_body = ''{}'', ei_tls_verified = True\<rparr>)"
proof -
  let ?run = "run_exchange_info example_info_events (info_start None make_exchange_info_get)"
  have "?run = Some (\<lparr>eg_io = None, eg_timers = [], eg_timeout_generation = 11, eg_done = True\<rparr>,
      Some (Inr \<lparr>ei_body = ''{}'', ei_tls_verified = True\<rparr>))"
    by code_simp
  from metadata_request_reports [OF this] have "length example_info_events \<le> 10" by blast
  moreover have "length example_info_events = 10" by code_simp
  moreover have "fetch_exchange_info_https spot_exchange_info_set_endpoint None example_info_events
       = Some (Inr \<lparr>ei_body = ''{}'', ei_tls_verified = True\<rparr>)"
    by code_simp
  ultimately show ?thesis by simp
qed

end
