(* ===== verification/ProductionGateway.thy ===== *)
theory ProductionGateway
  imports ProductSetRuns GrpcRequests
begin

text \<open>
  The gateway of the daemon, \<open>src/src/production/production_gateway.{hpp,cpp}\<close>: the life cycle around one
  set of products and one server. The thread that holds the lifecycle mutex is a machine that is cut at every
  look at the stop flag, at a clock, or at a product; what it meets there is the argument of the step.
\<close>

section \<open>Values\<close>

datatype gateway_state = GyConstructed | GyStarting | GyServing | GyStopping | GyStopped

datatype start_code =
    ScServing | ScAlreadyStarted | ScStopRequested | ScProductStartFailed | ScProductInitialFailure
  | ScInitialStartupTimeout | ScGrpcBindFailed

record gateway_start_result =
  gs_code :: start_code
  gs_product :: "market_key option"

fun gateway_state_name :: "gateway_state \<Rightarrow> string" where
  "gateway_state_name GyConstructed = ''constructed''"
| "gateway_state_name GyStarting = ''starting''"
| "gateway_state_name GyServing = ''serving''"
| "gateway_state_name GyStopping = ''stopping''"
| "gateway_state_name GyStopped = ''stopped''"

fun start_code_name :: "start_code \<Rightarrow> string" where
  "start_code_name ScServing = ''serving''"
| "start_code_name ScAlreadyStarted = ''already-started''"
| "start_code_name ScStopRequested = ''stop-requested''"
| "start_code_name ScProductStartFailed = ''product-start-failed''"
| "start_code_name ScProductInitialFailure = ''product-initial-failure''"
| "start_code_name ScInitialStartupTimeout = ''initial-startup-timeout''"
| "start_code_name ScGrpcBindFailed = ''grpc-bind-failed''"

text \<open>Time is in nanoseconds.\<close>

definition kInitialStartupTimeout :: int where
  "kInitialStartupTimeout = 60 * 1000000000"

section \<open>Looking at the products\<close>

text \<open>The answers of the two observations of a product; \<open>None\<close>: the lock was not free in time.\<close>

type_synonym 'g product_view = "'g recovery_observation option \<times> 'g runtime_observation option"

definition initial_live :: "'g product_view \<Rightarrow> bool" where
  "initial_live view =
     (case view of
        (Some recovery, Some runtime) \<Rightarrow>
          ro_state recovery = RecLive \<and> \<not> ro_terminal recovery \<and> ro_connection_generation recovery \<ge> 1
          \<and> ro_active_transport_count recovery = 1
          \<and> ob_state runtime = RsLive \<and> ob_projection_status runtime = Synchronized
          \<and> ob_owner_thread_id runtime \<noteq> None
      | _ \<Rightarrow> False)"

definition initial_failure :: "'g product_view \<Rightarrow> bool" where
  "initial_failure view \<longleftrightarrow>
     (case fst view of None \<Rightarrow> False
      | Some recovery \<Rightarrow> ro_terminal recovery \<or> ro_exhausted recovery \<or> ro_state recovery = RecStopped)
     \<or> (case snd view of None \<Rightarrow> False
        | Some runtime \<Rightarrow> ob_state runtime = RsFaulted \<or> ob_state runtime = RsStopped)"

text \<open>One poll looks at every product for a failure, and then at every product for life.\<close>

record 'g product_poll =
  pp_key :: market_key
  pp_failure_view :: "'g product_view"
  pp_live_view :: "'g product_view"

definition poll_failure :: "'g product_poll list \<Rightarrow> market_key option" where
  "poll_failure polls = map_option pp_key (List.find (\<lambda>poll. initial_failure (pp_failure_view poll)) polls)"

definition poll_all_live :: "'g product_poll list \<Rightarrow> bool" where
  "poll_all_live polls \<longleftrightarrow> list_all (\<lambda>poll. initial_live (pp_live_view poll)) polls"

text \<open>\<open>observe_products\<close> over the same views: \<open>None\<close> is the exception of a missed deadline.\<close>

record 'g product_observation =
  po_key :: market_key
  po_recovery :: "'g recovery_observation"
  po_runtime :: "'g runtime_observation"
  po_events :: event_publication_observation

fun observe_products ::
  "(market_key \<times> 'g product_view \<times> event_publication_observation) list
     \<Rightarrow> 'g product_observation list option" where
  "observe_products [] = Some []"
| "observe_products ((key, view, events) # rest) =
     (case view of
        (Some recovery, Some runtime) \<Rightarrow>
          map_option ((#) \<lparr>po_key = key, po_recovery = recovery, po_runtime = runtime, po_events = events\<rparr>)
            (observe_products rest)
      | _ \<Rightarrow> None)"

section \<open>The lifecycle thread\<close>

text \<open>What it meets at one step; \<open>None\<close> is an exception. \<open>sw_request_stop\<close>: another thread has called
  \<open>request_stop\<close>, or \<open>stop\<close>, which then waits for the lifecycle mutex.\<close>

record 'g startup_world =
  sw_request_stop :: bool
  sw_external :: "bool option"
  sw_now :: "int option"
  sw_starts :: "(market_key \<times> recovery_start_result) list option"
  sw_polls :: "'g product_poll list option"
  sw_server :: "bool option"

text \<open>The calls on the parts, in order.\<close>

datatype graph_call = GcStartProducts | GcStartServer | GcShutdownServer | GcStopProducts

text \<open>What \<open>start\<close> gives; \<open>None\<close> is an exception.\<close>

type_synonym start_outcome = "gateway_start_result option"

datatype gateway_phase =
    GpIdle | GpCheckStop | GpStartProducts | GpWait int | GpBeforeServer | GpStartServer | GpAfterServer
  | GpServe | GpShutdownServer "start_outcome option" | GpStopProducts "start_outcome option"
  | GpStopped "start_outcome option"

record production_gateway =
  gy_state :: gateway_state
  gy_stop_requested :: bool
  gy_timeout :: int
  gy_phase :: gateway_phase
  gy_calls :: "graph_call list"
  gy_returned :: "start_outcome option"

definition start_result_of :: "start_code \<Rightarrow> market_key option \<Rightarrow> start_outcome" where
  "start_result_of code product = Some \<lparr>gs_code = code, gs_product = product\<rparr>"

text \<open>The constructor, once the products and the server have been constructed.\<close>

definition make_gateway ::
  "(string \<Rightarrow> (bool \<times> bool) option) \<Rightarrow> string \<Rightarrow> bool \<Rightarrow> int \<Rightarrow> bool \<Rightarrow> production_gateway option" where
  "make_gateway make_address listen allow_ephemeral timeout has_startup_now =
     (if timeout \<le> 0 then None
      else if \<not> has_startup_now then None
      else if \<not> valid_loopback_listen_address make_address listen allow_ephemeral then None
      else Some \<lparr>gy_state = GyConstructed, gy_stop_requested = False, gy_timeout = timeout,
                 gy_phase = GpIdle, gy_calls = [], gy_returned = None\<rparr>)"

definition gateway_stop_requested :: "'g startup_world \<Rightarrow> production_gateway \<Rightarrow> bool option" where
  "gateway_stop_requested w st = (if gy_stop_requested st then Some True else sw_external w)"

definition request_stop :: "production_gateway \<Rightarrow> production_gateway" where
  "request_stop st = st\<lparr>gy_stop_requested := True\<rparr>"

text \<open>\<open>start\<close> and \<open>stop\<close> up to their first call, when the lifecycle mutex is free.\<close>

definition gateway_start_begin :: "production_gateway \<Rightarrow> production_gateway" where
  "gateway_start_begin st =
     (if gy_state st \<noteq> GyConstructed
      then st\<lparr>gy_returned := Some (start_result_of ScAlreadyStarted None)\<rparr>
      else st\<lparr>gy_state := GyStarting, gy_phase := GpCheckStop\<rparr>)"

definition gateway_stop_begin :: "production_gateway \<Rightarrow> production_gateway" where
  "gateway_stop_begin st =
     (let st = request_stop st in
      if gy_state st = GyStopped then st
      else st\<lparr>gy_state := GyStopping, gy_phase := GpShutdownServer None\<rparr>)"

definition rollback :: "start_outcome \<Rightarrow> production_gateway \<Rightarrow> production_gateway" where
  "rollback result st = st\<lparr>gy_state := GyStopping, gy_phase := GpShutdownServer (Some result)\<rparr>"

definition graph_called :: "graph_call \<Rightarrow> production_gateway \<Rightarrow> production_gateway" where
  "graph_called call st = st\<lparr>gy_calls := gy_calls st @ [call]\<rparr>"

text \<open>A look at the stop flags: on to \<open>next\<close>, or back.\<close>

definition unless_stopped ::
  "'g startup_world \<Rightarrow> (production_gateway \<Rightarrow> production_gateway) \<Rightarrow> production_gateway \<Rightarrow> production_gateway" where
  "unless_stopped w go_on st =
     (case gateway_stop_requested w st of
        None \<Rightarrow> rollback None st
      | Some True \<Rightarrow> rollback (start_result_of ScStopRequested None) st
      | Some False \<Rightarrow> go_on st)"

definition start_products :: "'g startup_world \<Rightarrow> production_gateway \<Rightarrow> production_gateway" where
  "start_products w st =
     (case sw_now w of
        None \<Rightarrow> rollback None st
      | Some now \<Rightarrow>
          let deadline = now + gy_timeout st; st = graph_called GcStartProducts st in
          case sw_starts w of
            None \<Rightarrow> rollback None st
          | Some starts \<Rightarrow>
              (case List.find (\<lambda>started. snd started \<noteq> RsrStarted) starts of
                 Some started \<Rightarrow> rollback (start_result_of ScProductStartFailed (Some (fst started))) st
               | None \<Rightarrow> st\<lparr>gy_phase := GpWait deadline\<rparr>))"

text \<open>One round of \<open>wait_for_initial_live\<close>; its wait ends with a stop request or after at most 10 ms.\<close>

definition wait_for_initial_live :: "'g startup_world \<Rightarrow> int \<Rightarrow> production_gateway \<Rightarrow> production_gateway" where
  "wait_for_initial_live w deadline st =
     unless_stopped w (\<lambda>st.
       case (sw_polls w, sw_now w) of
         (Some polls, now) \<Rightarrow>
           (case poll_failure polls of
              Some key \<Rightarrow> rollback (start_result_of ScProductInitialFailure (Some key)) st
            | None \<Rightarrow>
                (case now of
                   None \<Rightarrow> rollback None st
                 | Some now \<Rightarrow>
                     if now \<ge> deadline then rollback (start_result_of ScInitialStartupTimeout None) st
                     else if poll_all_live polls then st\<lparr>gy_phase := GpBeforeServer\<rparr>
                     else st))
       | (None, _) \<Rightarrow> rollback None st) st"

definition start_server :: "'g startup_world \<Rightarrow> production_gateway \<Rightarrow> production_gateway" where
  "start_server w st =
     (let st = graph_called GcStartServer st in
      case sw_server w of
        None \<Rightarrow> rollback None st
      | Some False \<Rightarrow> rollback (start_result_of ScGrpcBindFailed None) st
      | Some True \<Rightarrow> st\<lparr>gy_phase := GpAfterServer\<rparr>)"

text \<open>A step; \<open>None\<close> when nobody holds the lifecycle mutex.\<close>

definition gateway_work :: "'g startup_world \<Rightarrow> production_gateway \<Rightarrow> production_gateway option" where
  "gateway_work w st =
     (case gy_phase st of
        GpIdle \<Rightarrow> None
      | GpCheckStop \<Rightarrow> Some (unless_stopped w (\<lambda>st. st\<lparr>gy_phase := GpStartProducts\<rparr>) st)
      | GpStartProducts \<Rightarrow> Some (start_products w st)
      | GpWait deadline \<Rightarrow> Some (wait_for_initial_live w deadline st)
      | GpBeforeServer \<Rightarrow> Some (unless_stopped w (\<lambda>st. st\<lparr>gy_phase := GpStartServer\<rparr>) st)
      | GpStartServer \<Rightarrow> Some (start_server w st)
      | GpAfterServer \<Rightarrow> Some (unless_stopped w (\<lambda>st. st\<lparr>gy_phase := GpServe\<rparr>) st)
      | GpServe \<Rightarrow> Some (st\<lparr>gy_state := GyServing, gy_phase := GpIdle,
            gy_returned := Some (start_result_of ScServing None)\<rparr>)
      | GpShutdownServer result \<Rightarrow>
          Some (graph_called GcShutdownServer (st\<lparr>gy_phase := GpStopProducts result\<rparr>))
      | GpStopProducts result \<Rightarrow> Some (graph_called GcStopProducts (st\<lparr>gy_phase := GpStopped result\<rparr>))
      | GpStopped result \<Rightarrow> Some (st\<lparr>gy_state := GyStopped, gy_phase := GpIdle,
            gy_returned := (if result = None then gy_returned st else result)\<rparr>))"

definition gateway_move :: "'g startup_world \<Rightarrow> production_gateway \<Rightarrow> production_gateway option" where
  "gateway_move w st = gateway_work w (if sw_request_stop w then request_stop st else st)"

inductive gateway_change :: "production_gateway \<Rightarrow> production_gateway \<Rightarrow> bool" where
  gc_start: "gy_phase st = GpIdle \<Longrightarrow> gateway_change st (gateway_start_begin st)"
| gc_stop: "gy_phase st = GpIdle \<Longrightarrow> gateway_change st (gateway_stop_begin st)"
| gc_request: "gateway_change st (request_stop st)"
| gc_move: "gateway_move (w :: unit startup_world) st = Some st' \<Longrightarrow> gateway_change st st'"

definition gateway_fresh :: "production_gateway \<Rightarrow> bool" where
  "gateway_fresh st \<longleftrightarrow> (\<exists>make_address listen allow timeout now.
     make_gateway make_address listen allow timeout now = Some st)"

section \<open>Phases, states and calls\<close>

fun phase_ok :: "gateway_phase \<Rightarrow> gateway_state \<Rightarrow> graph_call list \<Rightarrow> bool" where
  "phase_ok GpIdle s calls \<longleftrightarrow>
     s = GyConstructed \<and> calls = []
     \<or> s = GyServing \<and> calls = [GcStartProducts, GcStartServer]
     \<or> s = GyStopped \<and> (\<exists>before. calls = before @ [GcShutdownServer, GcStopProducts]
          \<and> before \<in> {[], [GcStartProducts], [GcStartProducts, GcStartServer]})"
| "phase_ok GpCheckStop s calls \<longleftrightarrow> s = GyStarting \<and> calls = []"
| "phase_ok GpStartProducts s calls \<longleftrightarrow> s = GyStarting \<and> calls = []"
| "phase_ok (GpWait d) s calls \<longleftrightarrow> s = GyStarting \<and> calls = [GcStartProducts]"
| "phase_ok GpBeforeServer s calls \<longleftrightarrow> s = GyStarting \<and> calls = [GcStartProducts]"
| "phase_ok GpStartServer s calls \<longleftrightarrow> s = GyStarting \<and> calls = [GcStartProducts]"
| "phase_ok GpAfterServer s calls \<longleftrightarrow> s = GyStarting \<and> calls = [GcStartProducts, GcStartServer]"
| "phase_ok GpServe s calls \<longleftrightarrow> s = GyStarting \<and> calls = [GcStartProducts, GcStartServer]"
| "phase_ok (GpShutdownServer r) s calls \<longleftrightarrow>
     s = GyStopping \<and> calls \<in> {[], [GcStartProducts], [GcStartProducts, GcStartServer]}"
| "phase_ok (GpStopProducts r) s calls \<longleftrightarrow> s = GyStopping \<and>
     (\<exists>before. calls = before @ [GcShutdownServer]
        \<and> before \<in> {[], [GcStartProducts], [GcStartProducts, GcStartServer]})"
| "phase_ok (GpStopped r) s calls \<longleftrightarrow> s = GyStopping \<and>
     (\<exists>before. calls = before @ [GcShutdownServer, GcStopProducts]
        \<and> before \<in> {[], [GcStartProducts], [GcStartProducts, GcStartServer]})"

definition gateway_ok :: "production_gateway \<Rightarrow> bool" where
  "gateway_ok st \<longleftrightarrow> phase_ok (gy_phase st) (gy_state st) (gy_calls st)"

lemma request_stop_ok [simp]: "gateway_ok (request_stop st) = gateway_ok st"
  by (simp add: request_stop_def gateway_ok_def)

lemma rollback_ok: "gy_calls st \<in> {[], [GcStartProducts], [GcStartProducts, GcStartServer]} \<Longrightarrow> gateway_ok (rollback r st)"
  by (simp add: rollback_def gateway_ok_def)

lemma unless_stopped_ok:
  "gy_calls st \<in> {[], [GcStartProducts], [GcStartProducts, GcStartServer]} \<Longrightarrow> gateway_ok (go_on st)
     \<Longrightarrow> gateway_ok (unless_stopped w go_on st)"
  by (simp add: unless_stopped_def rollback_ok split: option.split bool.split)

lemma gateway_work_ok:
  assumes "gateway_ok st" and "gateway_work w st = Some st'"
  shows "gateway_ok st'"
proof (cases "gy_phase st")
  case GpStartProducts
  with assms show ?thesis
    by (auto simp: gateway_work_def start_products_def graph_called_def gateway_ok_def Let_def rollback_def
        split: option.splits)
next
  case (GpWait d)
  with assms show ?thesis
    by (auto simp: gateway_work_def wait_for_initial_live_def gateway_ok_def
        intro!: unless_stopped_ok [unfolded gateway_ok_def] rollback_ok [unfolded gateway_ok_def]
        split: option.split)
next
  case GpStartServer
  with assms show ?thesis
    by (auto simp: gateway_work_def start_server_def graph_called_def gateway_ok_def Let_def rollback_def
        split: option.splits bool.splits)
qed (use assms in \<open>auto simp: gateway_work_def gateway_ok_def graph_called_def
      intro!: unless_stopped_ok [unfolded gateway_ok_def]\<close>)

lemma gateway_change_ok:
  assumes "gateway_ok st" and "gateway_change st st'"
  shows "gateway_ok st'"
  using assms(2)
proof cases
  case gc_start
  with assms(1) show ?thesis by (auto simp: gateway_ok_def gateway_start_begin_def)
next
  case gc_stop
  with assms(1) show ?thesis by (auto simp: gateway_ok_def gateway_stop_begin_def request_stop_def Let_def)
next
  case gc_request
  with assms(1) show ?thesis by simp
next
  case (gc_move w)
  with assms(1) gateway_work_ok [of "if sw_request_stop w then request_stop st else st" w st']
  show ?thesis by (simp add: gateway_move_def split: if_splits)
qed

lemma gateway_fresh_ok: "gateway_fresh st \<Longrightarrow> gateway_ok st"
  by (auto simp: gateway_fresh_def make_gateway_def gateway_ok_def split: if_splits)

interpretation gateway_run: invariant_system gateway_fresh gateway_change gateway_ok
  by unfold_locales (fact gateway_fresh_ok, fact gateway_change_ok)

section \<open>A gateway that has stopped\<close>

text \<open>The calls a gateway makes on its set of products.\<close>

fun product_calls :: "graph_call list \<Rightarrow> set_call list" where
  "product_calls [] = []"
| "product_calls (GcStartProducts # calls) = CallStart # product_calls calls"
| "product_calls (GcStopProducts # calls) = CallStop # product_calls calls"
| "product_calls (_ # calls) = product_calls calls"

lemma product_calls_append [simp]: "product_calls (xs @ ys) = product_calls xs @ product_calls ys"
  by (induction xs rule: product_calls.induct) simp_all

lemma ok_gateway_quiet:
  assumes "gateway_ok st" and "gy_state st = GyStopped"
    and "reachable (set_init en cn specs (product_calls (gy_calls st))) (set_step ops clock) sy"
    and "sy_actions sy = []" and "sy_calls sy = []" and "p \<in> set (sy_products sy)"
  shows "(\<exists>before. gy_calls st = before @ [GcShutdownServer, GcStopProducts]
      \<and> before \<in> {[], [GcStartProducts], [GcStartProducts, GcStartServer]})
    \<and> ep_source_state (fst (rc_hub (pd_recovery p))) = SrcShutdown
    \<and> rc_phase (pd_recovery p) \<in> {PhAbsent, PhEnded}
    \<and> (rt_started (pd_runtime p) \<longrightarrow>
         rt_owner (pd_runtime p) = OwnerExited \<and> rt_subscribers (pd_runtime p) = [])
    \<and> isl (fst (admit_begin ops subscription (pd_runtime p)))"
proof -
  have calls: "\<exists>before. gy_calls st = before @ [GcShutdownServer, GcStopProducts]
      \<and> before \<in> {[], [GcStartProducts], [GcStartProducts, GcStartServer]}"
    using assms(1,2) by (cases "gy_phase st") (auto simp: gateway_ok_def)
  then have "CallStop \<in> set (product_calls (gy_calls st))" by auto
  with assms(3) have "reachable (\<lambda>s. set_init en cn specs (product_calls (gy_calls st)) s
      \<and> CallStop \<in> set (product_calls (gy_calls st))) (set_step ops clock) sy"
    by simp
  from stopped_product_quiet [OF this assms(4-6)] calls show ?thesis by blast
qed

text \<open>C34: when a gateway has stopped, after a stop or because its start failed or threw, at whatever point, it has
  shut its server down and then stopped its products, as the last things it did; and when these calls on
  the products have returned, no product has anything left running, registered or admitted.\<close>

theorem stopped_gateway_is_quiet:
  assumes "reachable gateway_fresh gateway_change st" and "gy_state st = GyStopped"
    and "reachable (set_init en cn specs (product_calls (gy_calls st))) (set_step ops clock) sy"
    and "sy_actions sy = []" and "sy_calls sy = []" and "p \<in> set (sy_products sy)"
  shows "(\<exists>before. gy_calls st = before @ [GcShutdownServer, GcStopProducts]
      \<and> before \<in> {[], [GcStartProducts], [GcStartProducts, GcStartServer]})
    \<and> ep_source_state (fst (rc_hub (pd_recovery p))) = SrcShutdown
    \<and> rc_phase (pd_recovery p) \<in> {PhAbsent, PhEnded}
    \<and> (rt_started (pd_runtime p) \<longrightarrow>
         rt_owner (pd_runtime p) = OwnerExited \<and> rt_subscribers (pd_runtime p) = [])
    \<and> isl (fst (admit_begin ops subscription (pd_runtime p)))"
  by (rule ok_gateway_quiet [OF gateway_run.inv_reachable [OF assms(1)] assms(2-)])

section \<open>Runs of start\<close>

fun gateway_works :: "'g startup_world list \<Rightarrow> production_gateway \<Rightarrow> production_gateway" where
  "gateway_works [] st = st"
| "gateway_works (w # ws) st =
     (case gateway_move w st of None \<Rightarrow> st | Some st' \<Rightarrow> gateway_works ws st')"

lemma gateway_works_snoc:
  "gateway_works (ws @ [w]) st =
     (case gateway_move w (gateway_works ws st) of None \<Rightarrow> gateway_works ws st | Some st' \<Rightarrow> st')"
proof (induction ws arbitrary: st)
  case (Cons v vs)
  show ?case
  proof (cases "gateway_move v st")
    case None
    then have "gy_phase st = GpIdle"
      by (auto simp: gateway_move_def gateway_work_def request_stop_def split: gateway_phase.splits if_splits)
    then have "gateway_move w st = None"
      by (simp add: gateway_move_def gateway_work_def request_stop_def)
    with None show ?thesis by simp
  next
    case (Some u)
    then show ?thesis by (simp add: Cons split: option.split)
  qed
qed (simp split: option.split)

text \<open>What the steps so far have seen: the products were all started, with a deadline; then, at one
  poll before the deadline, no product had failed, every product was live, and nobody had asked for a stop.\<close>

definition launched :: "'g startup_world list \<Rightarrow> int \<Rightarrow> int \<Rightarrow> nat \<Rightarrow> bool" where
  "launched ws timeout deadline i \<longleftrightarrow> i < length ws
     \<and> (\<exists>now starts. sw_now (ws ! i) = Some now \<and> deadline = now + timeout \<and> sw_starts (ws ! i) = Some starts
          \<and> (\<forall>started \<in> set starts. snd started = RsrStarted))"

definition all_live_at :: "'g startup_world list \<Rightarrow> int \<Rightarrow> nat \<Rightarrow> bool" where
  "all_live_at ws deadline k \<longleftrightarrow> k < length ws
     \<and> (\<exists>now polls. sw_now (ws ! k) = Some now \<and> now < deadline \<and> sw_polls (ws ! k) = Some polls
          \<and> (\<forall>poll \<in> set polls. \<not> initial_failure (pp_failure_view poll) \<and> initial_live (pp_live_view poll)))"

definition bound_at :: "'g startup_world list \<Rightarrow> nat \<Rightarrow> bool" where
  "bound_at ws l \<longleftrightarrow> l < length ws \<and> sw_server (ws ! l) = Some True
     \<and> (\<forall>j \<le> l. \<not> sw_request_stop (ws ! j))"

fun progress :: "'g startup_world list \<Rightarrow> int \<Rightarrow> gateway_phase \<Rightarrow> gateway_state \<Rightarrow> bool" where
  "progress ws timeout (GpWait deadline) s \<longleftrightarrow> (\<exists>i. launched ws timeout deadline i)"
| "progress ws timeout GpBeforeServer s \<longleftrightarrow>
     (\<exists>deadline i k. i < k \<and> launched ws timeout deadline i \<and> all_live_at ws deadline k)"
| "progress ws timeout GpStartServer s \<longleftrightarrow>
     (\<exists>deadline i k. i < k \<and> launched ws timeout deadline i \<and> all_live_at ws deadline k)"
| "progress ws timeout GpAfterServer s \<longleftrightarrow>
     (\<exists>deadline i k l. i < k \<and> k < l \<and> launched ws timeout deadline i \<and> all_live_at ws deadline k
        \<and> l < length ws \<and> sw_server (ws ! l) = Some True)"
| "progress ws timeout GpServe s \<longleftrightarrow>
     (\<exists>deadline i k l. i < k \<and> k < l \<and> launched ws timeout deadline i \<and> all_live_at ws deadline k \<and> bound_at ws l)"
| "progress ws timeout GpIdle s \<longleftrightarrow> s = GyServing \<longrightarrow>
     (\<exists>deadline i k l. i < k \<and> k < l \<and> launched ws timeout deadline i \<and> all_live_at ws deadline k \<and> bound_at ws l)"
| "progress ws timeout _ s \<longleftrightarrow> True"

lemma evidence_snoc:
  "launched ws t d i \<Longrightarrow> launched (ws @ [w]) t d i" "all_live_at ws d k \<Longrightarrow> all_live_at (ws @ [w]) d k"
  "bound_at ws l \<Longrightarrow> bound_at (ws @ [w]) l"
  by (auto simp: launched_def all_live_at_def bound_at_def nth_append)

lemma unless_stopped_cases:
  obtains (undone) r where "unless_stopped w go_on st = rollback r st"
  | (on) "unless_stopped w go_on st = go_on st" "\<not> gy_stop_requested st"
proof (cases "gateway_stop_requested w st")
  case None
  then show thesis by (intro undone) (simp add: unless_stopped_def)
next
  case (Some b)
  show thesis
  proof (cases b)
    case True
    with Some show thesis by (intro undone) (simp add: unless_stopped_def)
  next
    case False
    with Some show thesis by (intro on) (auto simp: unless_stopped_def gateway_stop_requested_def split: if_splits)
  qed
qed

lemma rollback_fields [simp]:
  "gy_phase (rollback r st) = GpShutdownServer (Some r)" "gy_timeout (rollback r st) = gy_timeout st"
  "gy_stop_requested (rollback r st) = gy_stop_requested st" "gy_state (rollback r st) = GyStopping"
  by (simp_all add: rollback_def)

lemma called_fields [simp]:
  "gy_phase (graph_called c st) = gy_phase st" "gy_timeout (graph_called c st) = gy_timeout st"
  "gy_stop_requested (graph_called c st) = gy_stop_requested st" "gy_state (graph_called c st) = gy_state st"
  by (simp_all add: graph_called_def)

lemma wait_cases:
  obtains (undone) r where "wait_for_initial_live w d st = rollback r st"
  | (again) "wait_for_initial_live w d st = st"
  | (live) now polls where "wait_for_initial_live w d st = st\<lparr>gy_phase := GpBeforeServer\<rparr>"
      "sw_now w = Some now" "now < d" "sw_polls w = Some polls" "poll_failure polls = None" "poll_all_live polls"
proof (cases rule: unless_stopped_cases [of w "\<lambda>st.
       case (sw_polls w, sw_now w) of
         (Some polls, now) \<Rightarrow>
           (case poll_failure polls of
              Some key \<Rightarrow> rollback (start_result_of ScProductInitialFailure (Some key)) st
            | None \<Rightarrow>
                (case now of
                   None \<Rightarrow> rollback None st
                 | Some now \<Rightarrow>
                     if now \<ge> d then rollback (start_result_of ScInitialStartupTimeout None) st
                     else if poll_all_live polls then st\<lparr>gy_phase := GpBeforeServer\<rparr>
                     else st))
       | (None, _) \<Rightarrow> rollback None st" st])
  case (undone r)
  then have "wait_for_initial_live w d st = rollback r st" unfolding wait_for_initial_live_def .
  then show thesis by (rule that(1))
next
  case on
  note eq = on(1) [folded wait_for_initial_live_def]
  show thesis
  proof (cases "sw_polls w")
    case None
    with eq that(1) show thesis by auto
  next
    case (Some polls)
    show thesis
    proof (cases "poll_failure polls")
      case None
      with eq Some that show thesis by (auto split: option.splits if_splits)
    next
      case (Some key)
      with eq \<open>sw_polls w = Some polls\<close> that(1) show thesis by auto
    qed
  qed
qed

lemma poll_good:
  "poll_failure polls = None \<Longrightarrow> poll_all_live polls \<Longrightarrow> poll \<in> set polls
     \<Longrightarrow> \<not> initial_failure (pp_failure_view poll) \<and> initial_live (pp_live_view poll)"
  by (auto simp: poll_failure_def poll_all_live_def find_None_iff list_all_iff)

lemma progress_snoc: "progress ws t ph s \<Longrightarrow> progress (ws @ [w]) t ph s"
  using evidence_snoc by (cases ph) (fastforce simp: nth_append)+

lemma progress_step:
  assumes "gateway_work w st = Some st'" and "progress ws (gy_timeout st) (gy_phase st) (gy_state st)"
    and "\<not> gy_stop_requested st \<longrightarrow> (\<forall>v \<in> set (ws @ [w]). \<not> sw_request_stop v)"
  shows "progress (ws @ [w]) (gy_timeout st') (gy_phase st') (gy_state st')"
proof (cases "gy_phase st")
  case GpIdle
  with assms(1) show ?thesis by (simp add: gateway_work_def)
next
  case GpCheckStop
  with assms(1) show ?thesis
    by (cases rule: unless_stopped_cases [of w "\<lambda>st. st\<lparr>gy_phase := GpStartProducts\<rparr>" st])
      (auto simp: gateway_work_def)
next
  case GpStartProducts
  with assms(1) have st': "st' = start_products w st" by (simp add: gateway_work_def)
  show ?thesis
  proof (cases "sw_now w")
    case (Some now)
    note now = this
    show ?thesis
    proof (cases "sw_starts w")
      case (Some starts)
      show ?thesis
      proof (cases "List.find (\<lambda>started. snd started \<noteq> RsrStarted) starts")
        case None
        then have "launched (ws @ [w]) (gy_timeout st) (now + gy_timeout st) (length ws)"
          using now Some by (auto simp: launched_def find_None_iff)
        then show ?thesis using None now Some by (auto simp: st' start_products_def Let_def)
      qed (use now Some in \<open>simp add: st' start_products_def Let_def\<close>)
    qed (simp add: st' start_products_def now Let_def)
  qed (simp add: st' start_products_def)
next
  case (GpWait d)
  with assms(1) have st': "st' = wait_for_initial_live w d st" by (simp add: gateway_work_def)
  show ?thesis
  proof (cases rule: wait_cases [of w d st])
    case (undone r)
    then show ?thesis by (simp add: st')
  next
    case again
    with assms(2) progress_snoc show ?thesis by (simp add: st')
  next
    case (live now polls)
    obtain i where i: "launched ws (gy_timeout st) d i" using assms(2) GpWait by auto
    have "all_live_at (ws @ [w]) d (length ws)"
      using live poll_good [OF live(5,6)] by (auto simp: all_live_at_def)
    moreover have "i < length ws" using i by (simp add: launched_def)
    ultimately have "\<exists>deadline i k. i < k \<and> launched (ws @ [w]) (gy_timeout st) deadline i
        \<and> all_live_at (ws @ [w]) deadline k"
      using evidence_snoc(1) [OF i] by blast
    then show ?thesis by (simp add: st' live(1))
  qed
next
  case GpBeforeServer
  with assms(1) have st': "st' = unless_stopped w (\<lambda>st. st\<lparr>gy_phase := GpStartServer\<rparr>) st"
    by (simp add: gateway_work_def)
  from assms(2) GpBeforeServer have "progress ws (gy_timeout st) GpStartServer (gy_state st)" by simp
  from progress_snoc [OF this] show ?thesis
    by (cases rule: unless_stopped_cases [of w "\<lambda>st. st\<lparr>gy_phase := GpStartServer\<rparr>" st]) (simp_all add: st')
next
  case GpStartServer
  with assms(1) have st': "st' = start_server w st" by (simp add: gateway_work_def)
  show ?thesis
  proof (cases "sw_server w = Some True")
    case True
    from assms(2) GpStartServer obtain d i k where
      e: "i < k" "launched ws (gy_timeout st) d i" "all_live_at ws d k" by auto
    have "k < length ws" using e(3) by (simp add: all_live_at_def)
    then have "\<exists>deadline i k l. i < k \<and> k < l \<and> launched (ws @ [w]) (gy_timeout st) deadline i
        \<and> all_live_at (ws @ [w]) deadline k \<and> l < length (ws @ [w]) \<and> sw_server ((ws @ [w]) ! l) = Some True"
      using e True evidence_snoc by (intro exI [of _ d] exI [of _ i] exI [of _ k] exI [of _ "length ws"]) auto
    with True show ?thesis by (simp add: st' start_server_def Let_def)
  next
    case False
    then show ?thesis by (auto simp: st' start_server_def Let_def split: option.split bool.split)
  qed
next
  case GpAfterServer
  with assms(1) have st': "st' = unless_stopped w (\<lambda>st. st\<lparr>gy_phase := GpServe\<rparr>) st"
    by (simp add: gateway_work_def)
  show ?thesis
  proof (cases rule: unless_stopped_cases [of w "\<lambda>st. st\<lparr>gy_phase := GpServe\<rparr>" st])
    case (undone r)
    then show ?thesis by (simp add: st')
  next
    case on
    from assms(2) GpAfterServer obtain d i k l where
      e: "i < k" "k < l" "launched ws (gy_timeout st) d i" "all_live_at ws d k" "l < length ws"
      "sw_server (ws ! l) = Some True" by auto
    have "\<forall>v \<in> set ws. \<not> sw_request_stop v" using assms(3) on(2) by simp
    then have "bound_at ws l" using e(5,6) by (simp add: bound_at_def)
    with e have "progress (ws @ [w]) (gy_timeout st) GpServe (gy_state st)"
      using evidence_snoc by (fastforce simp del: progress.simps(5) simp: progress.simps(5))
    then show ?thesis by (simp add: st' on(1))
  qed
next
  case GpServe
  with assms(2) have "progress (ws @ [w]) (gy_timeout st) GpServe (gy_state st)" by (simp only: progress_snoc)
  moreover have "gy_phase st' = GpIdle" "gy_timeout st' = gy_timeout st"
    using assms(1) GpServe by (auto simp: gateway_work_def)
  ultimately show ?thesis by simp
next
  case (GpShutdownServer r)
  with assms(1) show ?thesis by (auto simp: gateway_work_def)
next
  case (GpStopProducts r)
  with assms(1) show ?thesis by (auto simp: gateway_work_def)
next
  case (GpStopped r)
  with assms(1) show ?thesis by (auto simp: gateway_work_def)
qed

text \<open>The timeout is a constant, and a stop request is not forgotten.\<close>

lemma unless_stopped_fields:
  assumes "\<And>u. gy_timeout (go_on u) = gy_timeout u \<and> gy_stop_requested (go_on u) = gy_stop_requested u"
  shows "gy_timeout (unless_stopped w go_on st) = gy_timeout st
    \<and> gy_stop_requested (unless_stopped w go_on st) = gy_stop_requested st"
  by (cases rule: unless_stopped_cases [of w go_on st]) (simp_all add: assms)

lemma gateway_work_fields:
  "gateway_work w st = Some st' \<Longrightarrow> gy_timeout st' = gy_timeout st \<and> gy_stop_requested st' = gy_stop_requested st"
proof (cases "gy_phase st")
  case GpStartProducts
  moreover assume "gateway_work w st = Some st'"
  ultimately show ?thesis
    by (auto simp: gateway_work_def start_products_def Let_def split: option.splits)
next
  case (GpWait d)
  moreover assume "gateway_work w st = Some st'"
  ultimately have "st' = wait_for_initial_live w d st" by (simp add: gateway_work_def)
  then show ?thesis by (cases rule: wait_cases [of w d st]) simp_all
next
  case GpStartServer
  moreover assume "gateway_work w st = Some st'"
  ultimately show ?thesis
    by (auto simp: gateway_work_def start_server_def Let_def split: option.splits bool.splits)
qed (auto simp: gateway_work_def unless_stopped_fields)

definition evidence :: "'g startup_world list \<Rightarrow> production_gateway \<Rightarrow> bool" where
  "evidence ws st \<longleftrightarrow> progress ws (gy_timeout st) (gy_phase st) (gy_state st)
     \<and> (gy_phase st \<noteq> GpIdle \<longrightarrow> \<not> gy_stop_requested st \<longrightarrow> (\<forall>v \<in> set ws. \<not> sw_request_stop v))"

lemma evidence_step:
  assumes "evidence ws st" and "gateway_move w st = Some st'"
  shows "evidence (ws @ [w]) st'"
proof -
  let ?u = "if sw_request_stop w then request_stop st else st"
  have work: "gateway_work w ?u = Some st'" using assms(2) by (simp add: gateway_move_def)
  have same: "gy_timeout ?u = gy_timeout st" "gy_phase ?u = gy_phase st" "gy_state ?u = gy_state st"
    by (simp_all add: request_stop_def)
  have "gy_phase st \<noteq> GpIdle" using work same(2) by (auto simp: gateway_work_def)
  then have flag: "\<not> gy_stop_requested ?u \<longrightarrow> (\<forall>v \<in> set (ws @ [w]). \<not> sw_request_stop v)"
    using assms(1) by (auto simp: evidence_def request_stop_def)
  have "progress ws (gy_timeout ?u) (gy_phase ?u) (gy_state ?u)"
    using assms(1) unfolding same evidence_def by blast
  then have "progress (ws @ [w]) (gy_timeout st') (gy_phase st') (gy_state st')" by (rule progress_step [OF work _ flag])
  moreover have "gy_stop_requested st' = gy_stop_requested ?u" using gateway_work_fields [OF work] by blast
  ultimately show ?thesis using flag unfolding evidence_def by (metis (mono_tags))
qed

lemma evidence_works:
  assumes "gy_state st = GyConstructed" and "gy_phase st = GpIdle"
  shows "evidence ws (gateway_works ws (gateway_start_begin st))"
proof (induction ws rule: rev_induct)
  case Nil
  then show ?case using assms by (simp add: evidence_def gateway_start_begin_def)
next
  case (snoc w ws)
  let ?st = "gateway_works ws (gateway_start_begin st)"
  show ?case
  proof (cases "gateway_move w ?st")
    case None
    then have "gy_phase ?st = GpIdle"
      by (auto simp: gateway_move_def gateway_work_def request_stop_def split: gateway_phase.splits if_splits)
    with None snoc progress_snoc [of ws "gy_timeout ?st" GpIdle "gy_state ?st" w] show ?thesis
      by (simp add: gateway_works_snoc evidence_def)
  next
    case (Some st')
    with evidence_step [OF snoc] show ?thesis by (simp add: gateway_works_snoc)
  qed
qed

lemma works_timeout: "gy_timeout (gateway_works ws st) = gy_timeout st"
proof (induction ws arbitrary: st)
  case (Cons w ws)
  show ?case
    using Cons gateway_work_fields [of w "if sw_request_stop w then request_stop st else st"]
    by (auto simp: gateway_move_def request_stop_def split: option.split if_splits)
qed simp

lemma works_ok: "gateway_ok st \<Longrightarrow> gateway_ok (gateway_works ws st)"
proof (induction ws arbitrary: st)
  case (Cons w ws)
  then show ?case
    using gateway_work_ok [of "if sw_request_stop w then request_stop st else st" w]
    by (auto simp: gateway_move_def split: option.split if_splits)
qed simp

lemma serving_evidence:
  assumes "gateway_fresh st" and "gy_state (gateway_works ws (gateway_start_begin st)) = GyServing"
  shows "\<exists>deadline i k l. i < k \<and> k < l \<and> launched ws (gy_timeout st) deadline i
    \<and> all_live_at ws deadline k \<and> bound_at ws l"
proof -
  let ?st = "gateway_works ws (gateway_start_begin st)"
  have fresh: "gy_state st = GyConstructed" "gy_phase st = GpIdle"
    using assms(1) by (auto simp: gateway_fresh_def make_gateway_def split: if_splits)
  have "evidence ws ?st" by (rule evidence_works [OF fresh])
  moreover have "gy_timeout ?st = gy_timeout st"
    by (simp add: works_timeout gateway_start_begin_def)
  moreover have "gateway_ok ?st"
    by (intro works_ok gateway_change_ok [OF gateway_fresh_ok [OF assms(1)] gc_start] fresh(2))
  then have "gy_phase ?st = GpIdle"
    using assms(2) by (cases "gy_phase ?st") (auto simp: gateway_ok_def)
  ultimately show ?thesis using assms(2) by (simp add: evidence_def)
qed

text \<open>A gateway that is serving has earned it: every product was started, at a reading of the clock that
  fixed the deadline; at one later poll before the deadline no product had failed and every product was live
  and synchronized; the server was bound after that; and nobody had asked for a stop until it was bound.\<close>

theorem serving_means_live:
  assumes "gateway_fresh st" and "gy_state (gateway_works ws (gateway_start_begin st)) = GyServing"
  shows "\<exists>deadline i k l. i < k \<and> k < l \<and> launched ws (gy_timeout st) deadline i
    \<and> all_live_at ws deadline k \<and> bound_at ws l"
  by (rule serving_evidence [OF assms])

section \<open>The end of a start\<close>

text \<open>How many steps are left, once the products have been started and no poll is repeated.\<close>

fun steps_left :: "gateway_phase \<Rightarrow> nat" where
  "steps_left GpIdle = 0"
| "steps_left GpServe = 1"
| "steps_left (GpStopped r) = 1"
| "steps_left (GpStopProducts r) = 2"
| "steps_left (GpShutdownServer r) = 3"
| "steps_left GpAfterServer = 4"
| "steps_left GpStartServer = 5"
| "steps_left GpBeforeServer = 6"
| "steps_left (GpWait d) = 7"
| "steps_left _ = 9"

lemma unless_stopped_left:
  assumes "3 \<le> steps_left (gy_phase (go_on st))"
  shows "steps_left (gy_phase (unless_stopped w go_on st)) \<le> steps_left (gy_phase (go_on st))"
  by (cases rule: unless_stopped_cases [of w go_on st]) (use assms in auto)

lemma after_server_left: "steps_left (gy_phase (unless_stopped w (\<lambda>st. st\<lparr>gy_phase := GpServe\<rparr>) st)) \<le> 3"
  by (cases rule: unless_stopped_cases [of w "\<lambda>st. st\<lparr>gy_phase := GpServe\<rparr>" st]) simp_all

lemma wait_late:
  assumes "sw_now w = Some now" and "d \<le> now"
  shows "steps_left (gy_phase (wait_for_initial_live w d st)) = 3"
  using assms unfolding wait_for_initial_live_def unless_stopped_def
  by (auto split: option.split bool.split)

lemma work_left:
  assumes "gateway_work w st = Some st'" and "steps_left (gy_phase st) \<le> 6"
  shows "steps_left (gy_phase st') < steps_left (gy_phase st)"
proof (cases "gy_phase st")
  case GpBeforeServer
  with assms(1) unless_stopped_left [of "\<lambda>st. st\<lparr>gy_phase := GpStartServer\<rparr>" st w] show ?thesis
    by (auto simp: gateway_work_def)
next
  case GpStartServer
  with assms(1) show ?thesis
    by (auto simp: gateway_work_def start_server_def Let_def split: option.split bool.split)
next
  case GpAfterServer
  with assms(1) after_server_left [of w st] show ?thesis by (auto simp: gateway_work_def)
qed (use assms in \<open>auto simp: gateway_work_def\<close>)

lemma steps_left_0: "steps_left ph = 0 \<longleftrightarrow> ph = GpIdle"
  by (cases ph) simp_all

lemma move_some: "gy_phase st \<noteq> GpIdle \<Longrightarrow> \<exists>st'. gateway_move w st = Some st'"
  by (auto simp: gateway_move_def gateway_work_def request_stop_def split: gateway_phase.split)

lemma move_work:
  assumes "gateway_move w st = Some st'"
  obtains u where "gateway_work w u = Some st'" and "gy_phase u = gy_phase st" and "gy_timeout u = gy_timeout st"
  using assms by (auto simp: gateway_move_def request_stop_def split: if_splits)

lemma works_end:
  "steps_left (gy_phase st) \<le> 6 \<Longrightarrow> steps_left (gy_phase st) \<le> length ws
     \<Longrightarrow> gy_phase (gateway_works ws st) = GpIdle"
proof (induction ws arbitrary: st)
  case Nil
  then show ?case by (simp add: steps_left_0)
next
  case (Cons w ws)
  show ?case
  proof (cases "gateway_move w st")
    case None
    with move_some [of st w] show ?thesis by auto
  next
    case (Some st')
    from move_work [OF this] obtain u where "gateway_work w u = Some st'" "gy_phase u = gy_phase st" by blast
    with work_left [of w u st'] Cons Some show ?thesis by simp
  qed
qed

lemma work_started:
  assumes "gateway_work w st = Some st'" and "steps_left (gy_phase st) \<le> 7"
  shows "steps_left (gy_phase st') \<le> 7"
proof (cases "gy_phase st")
  case (GpWait d)
  with assms(1) have "st' = wait_for_initial_live w d st" by (simp add: gateway_work_def)
  with GpWait show ?thesis by (cases rule: wait_cases [of w d st]) simp_all
next
  case GpCheckStop
  with assms(2) show ?thesis by simp
next
  case GpStartProducts
  with assms(2) show ?thesis by simp
qed (use work_left [OF assms(1)] in simp_all)

lemma works_started: "steps_left (gy_phase st) \<le> 7 \<Longrightarrow> steps_left (gy_phase (gateway_works ws st)) \<le> 7"
proof (induction ws arbitrary: st)
  case (Cons w ws)
  show ?case
  proof (cases "gateway_move w st")
    case (Some st')
    from move_work [OF this] obtain u where "gateway_work w u = Some st'" "gy_phase u = gy_phase st" by blast
    with work_started [of w u st'] Cons Some show ?thesis by simp
  qed (use Cons in simp)
qed simp

lemma works_append: "gateway_works (vs @ ws) st = gateway_works ws (gateway_works vs st)"
proof (induction ws rule: rev_induct)
  case (snoc w ws)
  have "gateway_works (vs @ ws @ [w]) st = gateway_works ((vs @ ws) @ [w]) st" by simp
  also have "\<dots> = gateway_works (ws @ [w]) (gateway_works vs st)"
    unfolding gateway_works_snoc snoc ..
  finally show ?case .
qed simp

lemma two_works_started:
  assumes "gy_phase st = GpCheckStop"
  shows "steps_left (gy_phase (gateway_works [v, w] st)) \<le> 7"
proof -
  obtain st1 where st1: "gateway_move v st = Some st1" using move_some [of st v] assms by auto
  have p1: "gy_phase st1 = GpStartProducts \<or> steps_left (gy_phase st1) \<le> 7"
  proof -
    from move_work [OF st1] obtain u where "gateway_work v u = Some st1" "gy_phase u = GpCheckStop"
      using assms by auto
    then show ?thesis
      by (cases rule: unless_stopped_cases [of v "\<lambda>st. st\<lparr>gy_phase := GpStartProducts\<rparr>" u])
        (auto simp: gateway_work_def)
  qed
  show ?thesis
  proof (cases "gy_phase st1 = GpStartProducts")
    case True
    then obtain st2 where st2: "gateway_move w st1 = Some st2" using move_some [of st1 w] by auto
    from move_work [OF st2] obtain u where "gateway_work w u = Some st2" "gy_phase u = GpStartProducts"
      using True by auto
    then have "steps_left (gy_phase st2) \<le> 7"
      by (auto simp: gateway_work_def start_products_def Let_def split: option.split)
    with st1 st2 show ?thesis by simp
  next
    case False
    with p1 works_started [of st1 "[w]"] st1 show ?thesis by simp
  qed
qed

lemma work_not_fresh:
  assumes "gateway_work w st = Some st'" and "gy_state st \<noteq> GyConstructed"
  shows "gy_state st' \<noteq> GyConstructed"
proof (cases "gy_phase st")
  case GpStartProducts
  with assms show ?thesis
    by (auto simp: gateway_work_def start_products_def Let_def split: option.splits)
next
  case (GpWait d)
  with assms(1) have "st' = wait_for_initial_live w d st" by (simp add: gateway_work_def)
  with assms(2) show ?thesis by (cases rule: wait_cases [of w d st]) simp_all
next
  case GpStartServer
  with assms show ?thesis
    by (auto simp: gateway_work_def start_server_def Let_def split: option.splits bool.splits)
next
  case GpCheckStop
  with assms show ?thesis
    by (cases rule: unless_stopped_cases [of w "\<lambda>st. st\<lparr>gy_phase := GpStartProducts\<rparr>" st])
      (auto simp: gateway_work_def)
next
  case GpBeforeServer
  with assms show ?thesis
    by (cases rule: unless_stopped_cases [of w "\<lambda>st. st\<lparr>gy_phase := GpStartServer\<rparr>" st])
      (auto simp: gateway_work_def)
next
  case GpAfterServer
  with assms show ?thesis
    by (cases rule: unless_stopped_cases [of w "\<lambda>st. st\<lparr>gy_phase := GpServe\<rparr>" st])
      (auto simp: gateway_work_def)
qed (use assms in \<open>auto simp: gateway_work_def\<close>)

lemma works_not_fresh: "gy_state st \<noteq> GyConstructed \<Longrightarrow> gy_state (gateway_works ws st) \<noteq> GyConstructed"
proof (induction ws arbitrary: st)
  case (Cons w ws)
  then show ?case
    using work_not_fresh [of w "if sw_request_stop w then request_stop st else st"]
    by (auto simp: gateway_move_def request_stop_def split: option.split if_splits)
qed simp

lemma start_ends:
  assumes "gateway_fresh st" and "2 \<le> n" and "length ws = n + 7"
    and "\<forall>i. n \<le> i \<and> i < length ws \<longrightarrow> (\<exists>now. sw_now (ws ! i) = Some now
      \<and> (\<forall>j t. j < n \<and> sw_now (ws ! j) = Some t \<longrightarrow> t + gy_timeout st \<le> now))"
  shows "gy_phase (gateway_works ws (gateway_start_begin st)) = GpIdle
    \<and> gy_state (gateway_works ws (gateway_start_begin st)) \<in> {GyServing, GyStopped}"
proof -
  have fresh: "gy_state st = GyConstructed" "gy_phase st = GpIdle"
    using assms(1) by (auto simp: gateway_fresh_def make_gateway_def split: if_splits)
  let ?s = "gateway_start_begin st" and ?vs = "take n ws"
  let ?m = "gateway_works ?vs ?s"
  have ws: "ws = ?vs @ drop n ws" by simp
  have "steps_left (gy_phase ?m) \<le> 7"
  proof -
    obtain v w us where us: "?vs = [v, w] @ us"
      using assms(2,3) by (cases ws rule: remdups_adj.cases) (auto simp: take_Cons' split: if_splits)
    have "gy_phase ?s = GpCheckStop" using fresh by (simp add: gateway_start_begin_def)
    from works_started [OF two_works_started [OF this]] show ?thesis unfolding us works_append .
  qed
  then consider "steps_left (gy_phase ?m) \<le> 6" | d where "gy_phase ?m = GpWait d"
    by (cases "gy_phase ?m") auto
  then have idle: "gy_phase (gateway_works (drop n ws) ?m) = GpIdle"
  proof cases
    case 1
    then show ?thesis by (rule works_end) (use assms(3) 1 in simp)
  next
    case (2 d)
    have "evidence ?vs ?m" by (rule evidence_works [OF fresh])
    then obtain i where i: "launched ?vs (gy_timeout st) d i"
      using 2 by (auto simp: evidence_def works_timeout gateway_start_begin_def split: if_splits)
    obtain w us where drop: "drop n ws = w # us" "length us = 6" proof (cases "drop n ws")
      case Nil
      then show thesis using assms(3) by simp
    next
      case (Cons w us)
      moreover have "length (drop n ws) = 7" using assms(3) by simp
      ultimately show thesis using that by simp
    qed
    have w: "w = ws ! n" using drop(1) by (metis nth_via_drop)
    obtain now where now: "sw_now w = Some now" "\<And>j t. j < n \<Longrightarrow> sw_now (ws ! j) = Some t \<Longrightarrow> t + gy_timeout st \<le> now"
      using assms(3,4) unfolding w by (metis add.commute le_refl less_add_same_cancel1 zero_less_numeral)
    have "d \<le> now" using i now(2) [of i] by (auto simp: launched_def)
    obtain st' where st': "gateway_move w ?m = Some st'" using move_some [of ?m w] 2 by auto
    from move_work [OF st'] obtain u where u: "gateway_work w u = Some st'" "gy_phase u = GpWait d" using 2 by auto
    then have "steps_left (gy_phase st') = 3"
      using wait_late [OF now(1) \<open>d \<le> now\<close>, of u] by (auto simp: gateway_work_def)
    with works_end [of st' us] drop st' show ?thesis by simp
  qed
  have "gateway_ok (gateway_works ws ?s)"
    by (intro works_ok gateway_change_ok [OF gateway_fresh_ok [OF assms(1)] gc_start] fresh(2))
  moreover have "gy_phase (gateway_works ws ?s) = GpIdle" using idle ws works_append by metis
  moreover have "gy_state (gateway_works ws ?s) \<noteq> GyConstructed"
    by (rule works_not_fresh) (simp add: fresh gateway_start_begin_def)
  ultimately show ?thesis by (auto simp: gateway_ok_def)
qed

text \<open>A start ends: as soon as the clock stands at or after every earlier reading plus the timeout, at
  whatever step that is, start has returned within seven further steps, whatever the products, the
  server and the other threads do.\<close>

theorem startup_ends:
  assumes "gateway_fresh st" and "2 \<le> n" and "length ws = n + 7"
    and "\<forall>i. n \<le> i \<and> i < length ws \<longrightarrow> (\<exists>now. sw_now (ws ! i) = Some now
      \<and> (\<forall>j t. j < n \<and> sw_now (ws ! j) = Some t \<longrightarrow> t + gy_timeout st \<le> now))"
  shows "gy_phase (gateway_works ws (gateway_start_begin st)) = GpIdle
    \<and> gy_state (gateway_works ws (gateway_start_begin st)) \<in> {GyServing, GyStopped}"
  by (rule start_ends [OF assms])

section \<open>A gateway that served\<close>

definition example_gateway :: production_gateway where
  "example_gateway = \<lparr>gy_state = GyConstructed, gy_stop_requested = False, gy_timeout = 10,
     gy_phase = GpIdle, gy_calls = [], gy_returned = None\<rparr>"

lemma example_gateway_fresh: "gateway_fresh example_gateway"
proof -
  have "make_gateway (\<lambda>_. Some (True, False)) ''127.0.0.1:80'' False 10 True = Some example_gateway"
    by (simp add: make_gateway_def example_gateway_def valid_loopback_listen_address_def Let_def
        from_chars_whole_eq is_digit_def digits_value_def digit_val_def starts_with_def ends_with_def)
  then show ?thesis unfolding gateway_fresh_def by blast
qed

definition example_live_view :: "unit product_view" where
  "example_live_view =
     (Some (initial_recovery_observation
        \<lparr>ro_state := RecLive, ro_connection_generation := 1, ro_active_transport_count := 1\<rparr>),
      Some ((initial_observation toy_limits)
        \<lparr>ob_state := RsLive, ob_projection_status := Synchronized, ob_owner_thread_id := Some 1\<rparr>))"

lemma example_live_view_good [simp]: "initial_live example_live_view" "\<not> initial_failure example_live_view"
  by (simp_all add: example_live_view_def initial_live_def initial_failure_def initial_recovery_observation_def)

text \<open>The only product is live, the clock stands still.\<close>

definition live_world :: "unit startup_world" where
  "live_world =
     \<lparr>sw_request_stop = False, sw_external = Some False, sw_now = Some 0,
      sw_starts = Some [(spot_btcusdt_key, RsrStarted)],
      sw_polls = Some [\<lparr>pp_key = spot_btcusdt_key, pp_failure_view = example_live_view,
                        pp_live_view = example_live_view\<rparr>],
      sw_server = Some True\<rparr>"

text \<open>A product never comes to life, and from some time on the clock stands at 10.\<close>

definition silent_world :: "int \<Rightarrow> unit startup_world" where
  "silent_world now = live_world\<lparr>sw_now := Some now, sw_polls := Some
     [\<lparr>pp_key = spot_btcusdt_key, pp_failure_view = (None, None), pp_live_view = (None, None)\<rparr>]\<rparr>"

definition example_serving_gateway :: production_gateway where
  "example_serving_gateway = gateway_works (replicate 7 live_world) (gateway_start_begin example_gateway)"

lemma live_world_facts [simp]: "sw_request_stop live_world = False" "sw_external live_world = Some False"
  "sw_now live_world = Some 0" "sw_starts live_world = Some [(spot_btcusdt_key, RsrStarted)]"
  "sw_polls live_world = Some [\<lparr>pp_key = spot_btcusdt_key, pp_failure_view = example_live_view,
     pp_live_view = example_live_view\<rparr>]" "sw_server live_world = Some True"
  by (simp_all add: live_world_def)

lemmas gateway_run_defs = gateway_move_def gateway_work_def unless_stopped_def gateway_stop_requested_def
  start_products_def wait_for_initial_live_def start_server_def graph_called_def poll_failure_def
  poll_all_live_def Let_def

lemma example_serving_gateway_eq: "example_serving_gateway = example_gateway
    \<lparr>gy_state := GyServing, gy_calls := [GcStartProducts, GcStartServer],
     gy_returned := Some (start_result_of ScServing None)\<rparr>"
  by (simp add: example_serving_gateway_def numeral_eq_Suc gateway_run_defs gateway_start_begin_def
      example_gateway_def)

theorem serving_means_live_witness:
  "\<exists>deadline i k l. i < k \<and> k < l \<and> launched (replicate 7 live_world) 10 deadline i
     \<and> all_live_at (replicate 7 live_world) deadline k \<and> bound_at (replicate 7 live_world) l"
proof -
  have "gy_state (gateway_works (replicate 7 live_world) (gateway_start_begin example_gateway)) = GyServing"
    by (simp add: example_serving_gateway_eq flip: example_serving_gateway_def)
  from serving_means_live [OF example_gateway_fresh this] show ?thesis by (simp add: example_gateway_def)
qed

lemma silent_world_facts [simp]: "sw_request_stop (silent_world t) = False"
  "sw_external (silent_world t) = Some False" "sw_now (silent_world t) = Some t"
  by (simp_all add: silent_world_def)

theorem startup_ends_witness:
  "gy_phase (gateway_works (replicate 2 (silent_world 0) @ replicate 7 (silent_world 10))
     (gateway_start_begin example_gateway)) = GpIdle"
proof -
  let ?ws = "replicate 2 (silent_world 0) @ replicate 7 (silent_world 10)"
  have early: "sw_now (?ws ! k) = Some 0" if "k < 2" for k using that by (simp add: nth_append)
  have late: "sw_now (?ws ! k) = Some 10" if "2 \<le> k" "k < length ?ws" for k
    using that by (simp add: nth_append)
  have "\<exists>now. sw_now (?ws ! i) = Some now
      \<and> (\<forall>j t. j < 2 \<and> sw_now (?ws ! j) = Some t \<longrightarrow> t + gy_timeout example_gateway \<le> now)"
    if "2 \<le> i \<and> i < length ?ws" for i
    using late [of i] that early by (intro exI [of _ 10]) (auto simp: example_gateway_def)
  then show ?thesis using startup_ends [OF example_gateway_fresh, of 2 ?ws] by simp
qed

definition example_stopped_gateway :: production_gateway where
  "example_stopped_gateway = gateway_works (replicate 3 live_world) (gateway_stop_begin example_serving_gateway)"

lemma works_reachable:
  "reachable gateway_fresh gateway_change st \<Longrightarrow>
     reachable gateway_fresh gateway_change (gateway_works (ws :: unit startup_world list) st)"
proof (induction ws arbitrary: st)
  case (Cons w ws)
  show ?case
  proof (cases "gateway_move w st")
    case (Some st')
    have "reachable gateway_fresh gateway_change st'"
      by (rule reach_step [OF Cons.prems], rule gc_move, rule Some)
    then show ?thesis using Some Cons.IH by simp
  qed (use Cons.prems Cons.IH in simp)
qed simp

lemma example_stopped_gateway_facts:
  "reachable gateway_fresh gateway_change example_stopped_gateway"
  "gy_state example_stopped_gateway = GyStopped"
  "product_calls (gy_calls example_stopped_gateway) = [CallStart, CallStop]"
proof -
  have "reachable gateway_fresh gateway_change (gateway_start_begin example_gateway)"
    by (rule reach_step, rule reach_init, rule example_gateway_fresh, rule gc_start) (simp add: example_gateway_def)
  then have "reachable gateway_fresh gateway_change example_serving_gateway"
    unfolding example_serving_gateway_def by (rule works_reachable)
  then have "reachable gateway_fresh gateway_change (gateway_stop_begin example_serving_gateway)"
    by (rule reach_step) (rule gc_stop, simp add: example_serving_gateway_eq example_gateway_def)
  then show "reachable gateway_fresh gateway_change example_stopped_gateway"
    unfolding example_stopped_gateway_def by (rule works_reachable)
  show "gy_state example_stopped_gateway = GyStopped"
    "product_calls (gy_calls example_stopped_gateway) = [CallStart, CallStop]"
    by (simp_all add: example_stopped_gateway_def example_serving_gateway_eq example_gateway_def numeral_eq_Suc
        gateway_run_defs gateway_stop_begin_def request_stop_def)
qed

theorem stopped_gateway_is_quiet_witness:
  "\<exists>p. p \<in> set (sy_products example_halted) \<and> rt_owner (pd_runtime p) = OwnerExited"
proof -
  have r: "reachable (set_init example_numbers example_construction [hd example_specs]
      (product_calls (gy_calls example_stopped_gateway))) (set_step toy_ops (\<lambda>_. None)) example_halted"
    unfolding example_halted_def example_stopped_gateway_facts(3)
    by (intro turns_reachable reach_init) (rule example_start)
  have p: "sy_products example_halted ! 0 \<in> set (sy_products example_halted)"
    using example_halted_facts(3) by simp
  from stopped_gateway_is_quiet [OF example_stopped_gateway_facts(1,2) r example_halted_facts(1,2) p]
    p example_halted_facts(4) show ?thesis by blast
qed

end
