(* ===== verification/DaemonDiagnostics.thy ===== *)
theory DaemonDiagnostics
  imports ProductionGateway
begin

text \<open>
  The recovery diagnostics the daemon writes when it ends, the first part of
  \<open>src/src/production/daemon_runtime.cpp\<close>: one line for every failure on record. Writing to a stream is
  appending to a string. A reader of such reports is defined here too, to say what they contain.
\<close>

section \<open>Names\<close>

fun recovery_cause_name :: "recovery_cause \<Rightarrow> string" where
  "recovery_cause_name CauseNeedsResync = ''needs-resync''"
| "recovery_cause_name CauseTransportFailure = ''transport-failure''"
| "recovery_cause_name CauseSnapshotFailure = ''snapshot-failure''"
| "recovery_cause_name CauseIngressOverflow = ''ingress-overflow''"
| "recovery_cause_name CauseBootstrapBufferOverflow = ''bootstrap-buffer-overflow''"
| "recovery_cause_name CauseProtocol = ''protocol''"
| "recovery_cause_name CauseServerShutdown = ''server-shutdown''"
| "recovery_cause_name CauseHttp429 = ''http-429''"
| "recovery_cause_name CauseHttp418 = ''http-418''"
| "recovery_cause_name CauseHttp5xx = ''http-5xx''"
| "recovery_cause_name CauseTerminalHttp4xx = ''terminal-http-4xx''"
| "recovery_cause_name CauseInternalFailure = ''internal-failure''"

fun network_error_name :: "network_error_code \<Rightarrow> string" where
  "network_error_name NeTimeout = ''timeout''"
| "network_error_name NeDns = ''dns''"
| "network_error_name NeTcp = ''tcp''"
| "network_error_name NeTls = ''tls''"
| "network_error_name NeWebSocketHandshake = ''websocket-handshake''"
| "network_error_name NeWebSocketRead = ''websocket-read''"
| "network_error_name NeHttpWrite = ''http-write''"
| "network_error_name NeHttpRead = ''http-read''"
| "network_error_name NeHttpStatus = ''http-status''"
| "network_error_name NeProtocol = ''protocol''"
| "network_error_name NeRuntimeAdmission = ''runtime-admission''"
| "network_error_name NeServerShutdown = ''server-shutdown''"
| "network_error_name NeInternal = ''internal''"

fun runtime_state_name :: "runtime_state \<Rightarrow> string" where
  "runtime_state_name RsConstructed = ''constructed''"
| "runtime_state_name RsBuffering = ''buffering''"
| "runtime_state_name RsAwaitingBridge = ''awaiting-bridge''"
| "runtime_state_name RsLive = ''live''"
| "runtime_state_name RsNeedsResync = ''needs-resync''"
| "runtime_state_name RsFaulted = ''faulted''"
| "runtime_state_name RsStopping = ''stopping''"
| "runtime_state_name RsStopped = ''stopped''"

fun fault_reason_name :: "fault_reason \<Rightarrow> string" where
  "fault_reason_name FrIngressOverflow = ''ingress-overflow''"
| "fault_reason_name FrBootstrapBufferOverflow = ''bootstrap-buffer-overflow''"
| "fault_reason_name FrAdapterError = ''adapter-error''"
| "fault_reason_name FrTransportFailure = ''transport-failure''"
| "fault_reason_name FrSnapshotFailure = ''snapshot-failure''"
| "fault_reason_name FrProjectionRejected = ''projection-rejected''"
| "fault_reason_name FrClockError = ''clock-error''"
| "fault_reason_name FrInternalError = ''internal-error''"

fun projection_status_name :: "projection_status \<Rightarrow> string" where
  "projection_status_name AwaitingBaseline = ''awaiting-baseline''"
| "projection_status_name AwaitingBridge = ''awaiting-bridge''"
| "projection_status_name Synchronized = ''synchronized''"
| "projection_status_name NeedsResync = ''needs-resync''"

text \<open>The enumerations of the projection core and its adapter; they hold the enumerators the sources name.\<close>

datatype gap_reason =
    GrSpotBootstrapForwardGap | GrSpotLiveForwardGap | GrFuturesBootstrapRangeMiss
  | GrFuturesMissingPreviousFinal | GrFuturesPreviousFinalMismatch | GrOther nat

fun gap_reason_name :: "gap_reason \<Rightarrow> string" where
  "gap_reason_name GrSpotBootstrapForwardGap = ''spot-bootstrap-forward-gap''"
| "gap_reason_name GrSpotLiveForwardGap = ''spot-live-forward-gap''"
| "gap_reason_name GrFuturesBootstrapRangeMiss = ''futures-bootstrap-range-miss''"
| "gap_reason_name GrFuturesMissingPreviousFinal = ''futures-missing-previous-final''"
| "gap_reason_name GrFuturesPreviousFinalMismatch = ''futures-previous-final-mismatch''"
| "gap_reason_name (GrOther n) = ''unknown''"

datatype sequence_policy =
    SpSpot | SpUsdMPerpetual | SpOther nat

fun sequence_policy_name :: "sequence_policy \<Rightarrow> string" where
  "sequence_policy_name SpSpot = ''spot''"
| "sequence_policy_name SpUsdMPerpetual = ''usdm-perpetual''"
| "sequence_policy_name (SpOther n) = ''unknown''"

datatype adapter_code =
    AcUnsupportedVenue | AcUnsupportedMarket | AcUnexpectedStream | AcIdentityMismatch
  | AcUnsupportedSchemaVersion | AcUnspecifiedEnum | AcUnknownEnumValue | AcInvalidUpdateRange
  | AcMissingRequiredField | AcInvalidIdentifier | AcInvalidDecimal | AcNegativeQuantity
  | AcNonPositivePrice | AcScaleMismatch | AcNumericOverflow | AcInvalidDepthLimit
  | AcInvalidOrdering | AcUnsupportedProjectionState | AcMissingLastUpdateId | AcInvalidGapContext
  | AcInvalidHostQualityCombination | AcContractsVersionMismatch | AcProjectionNumericSpecMismatch
  | AcProjectionPolicyMismatch | AcOther nat

fun adapter_code_name :: "adapter_code \<Rightarrow> string" where
  "adapter_code_name AcUnsupportedVenue = ''unsupported-venue''"
| "adapter_code_name AcUnsupportedMarket = ''unsupported-market''"
| "adapter_code_name AcUnexpectedStream = ''unexpected-stream''"
| "adapter_code_name AcIdentityMismatch = ''identity-mismatch''"
| "adapter_code_name AcUnsupportedSchemaVersion = ''unsupported-schema-version''"
| "adapter_code_name AcUnspecifiedEnum = ''unspecified-enum''"
| "adapter_code_name AcUnknownEnumValue = ''unknown-enum-value''"
| "adapter_code_name AcInvalidUpdateRange = ''invalid-update-range''"
| "adapter_code_name AcMissingRequiredField = ''missing-required-field''"
| "adapter_code_name AcInvalidIdentifier = ''invalid-identifier''"
| "adapter_code_name AcInvalidDecimal = ''invalid-decimal''"
| "adapter_code_name AcNegativeQuantity = ''negative-quantity''"
| "adapter_code_name AcNonPositivePrice = ''non-positive-price''"
| "adapter_code_name AcScaleMismatch = ''scale-mismatch''"
| "adapter_code_name AcNumericOverflow = ''numeric-overflow''"
| "adapter_code_name AcInvalidDepthLimit = ''invalid-depth-limit''"
| "adapter_code_name AcInvalidOrdering = ''invalid-ordering''"
| "adapter_code_name AcUnsupportedProjectionState = ''unsupported-projection-state''"
| "adapter_code_name AcMissingLastUpdateId = ''missing-last-update-id''"
| "adapter_code_name AcInvalidGapContext = ''invalid-gap-context''"
| "adapter_code_name AcInvalidHostQualityCombination = ''invalid-host-quality-combination''"
| "adapter_code_name AcContractsVersionMismatch = ''contracts-version-mismatch''"
| "adapter_code_name AcProjectionNumericSpecMismatch = ''projection-numeric-spec-mismatch''"
| "adapter_code_name AcProjectionPolicyMismatch = ''projection-policy-mismatch''"
| "adapter_code_name (AcOther n) = ''unknown''"

datatype adapter_field =
    AfNone | AfVenue | AfMarket | AfStream | AfSymbol | AfSchemaVersion | AfProducer
  | AfProducerVersion | AfRequestId | AfConnectionId | AfFirstUpdateId | AfFinalUpdateId
  | AfPreviousFinalUpdateId | AfBidPrice | AfBidQuantity | AfAskPrice | AfAskQuantity
  | AfQualityFlag | AfProjectionPriceScale | AfProjectionQuantityScale | AfProjectionPolicy
  | AfDepthLimit | AfSnapshotSource | AfLastUpdateId | AfCurrentGap | AfGapRecoveryState
  | AfHostQualityFact | AfOther nat

fun adapter_field_name :: "adapter_field \<Rightarrow> string" where
  "adapter_field_name AfNone = ''none''"
| "adapter_field_name AfVenue = ''venue''"
| "adapter_field_name AfMarket = ''market''"
| "adapter_field_name AfStream = ''stream''"
| "adapter_field_name AfSymbol = ''symbol''"
| "adapter_field_name AfSchemaVersion = ''schema-version''"
| "adapter_field_name AfProducer = ''producer''"
| "adapter_field_name AfProducerVersion = ''producer-version''"
| "adapter_field_name AfRequestId = ''request-id''"
| "adapter_field_name AfConnectionId = ''connection-id''"
| "adapter_field_name AfFirstUpdateId = ''first-update-id''"
| "adapter_field_name AfFinalUpdateId = ''final-update-id''"
| "adapter_field_name AfPreviousFinalUpdateId = ''previous-final-update-id''"
| "adapter_field_name AfBidPrice = ''bid-price''"
| "adapter_field_name AfBidQuantity = ''bid-quantity''"
| "adapter_field_name AfAskPrice = ''ask-price''"
| "adapter_field_name AfAskQuantity = ''ask-quantity''"
| "adapter_field_name AfQualityFlag = ''quality-flag''"
| "adapter_field_name AfProjectionPriceScale = ''projection-price-scale''"
| "adapter_field_name AfProjectionQuantityScale = ''projection-quantity-scale''"
| "adapter_field_name AfProjectionPolicy = ''projection-policy''"
| "adapter_field_name AfDepthLimit = ''depth-limit''"
| "adapter_field_name AfSnapshotSource = ''snapshot-source''"
| "adapter_field_name AfLastUpdateId = ''last-update-id''"
| "adapter_field_name AfCurrentGap = ''current-gap''"
| "adapter_field_name AfGapRecoveryState = ''gap-recovery-state''"
| "adapter_field_name AfHostQualityFact = ''host-quality-fact''"
| "adapter_field_name (AfOther n) = ''unknown''"

text \<open>
  What a report shows of an adapter error and of a gap. \<open>av_decimal\<close>: the name the core gives the code of the
  decimal error, and its offset.
\<close>

record adapter_details =
  av_code :: adapter_code
  av_field :: adapter_field
  av_decimal :: "(string \<times> nat) option"
  av_raw_enum :: "int option"

record gap_details =
  gp_reason :: gap_reason
  gp_policy :: sequence_policy
  gp_last_accepted_final :: u64
  gp_incoming_first :: u64
  gp_incoming_final :: u64
  gp_incoming_previous_final :: "u64 option"

text \<open>The functions of the generated contracts and of the core that a report calls.\<close>

record 'g report_sources =
  rs_venue_name :: "wire_venue \<Rightarrow> string"
  rs_market_name :: "wire_market \<Rightarrow> string"
  rs_adapter :: "adapter_error \<Rightarrow> adapter_details"
  rs_gap :: "'g \<Rightarrow> gap_details"

section \<open>Writing\<close>

definition kRecoveryDiagnosticStringLimit :: nat where
  "kRecoveryDiagnosticStringLimit = 256"

definition upper_hex :: "nat \<Rightarrow> char" where
  "upper_hex n = ''0123456789ABCDEF'' ! n"

definition escaped_byte :: "char \<Rightarrow> string" where
  "escaped_byte c =
     (let byte = of_char c :: nat in
      if c = CHR 0x5C then [CHR 0x5C, CHR 0x5C]
      else if c = CHR 0x22 then [CHR 0x5C, CHR 0x22]
      else if c = CHR 0x0A then [CHR 0x5C, CHR ''n'']
      else if c = CHR 0x0D then [CHR 0x5C, CHR ''r'']
      else if c = CHR 0x09 then [CHR 0x5C, CHR ''t'']
      else if byte \<ge> 0x20 \<and> byte \<le> 0x7E then [c]
      else [CHR 0x5C, CHR ''x'', upper_hex (byte div 16), upper_hex (byte mod 16)])"

definition write_escaped :: "string \<Rightarrow> string" where
  "write_escaped contents =
     [CHR 0x22] @ concat (map escaped_byte (take kRecoveryDiagnosticStringLimit contents)) @ [CHR 0x22]"

definition yes_no :: "bool \<Rightarrow> string" where
  "yes_no b = (if b then ''yes'' else ''no'')"

definition write_bounded_string :: "string \<Rightarrow> string \<Rightarrow> string" where
  "write_bounded_string name contents =
     '' '' @ name @ ''='' @ write_escaped contents
     @ '' '' @ name @ ''_truncated='' @ yes_no (length contents > kRecoveryDiagnosticStringLimit)"

definition write_absent_string :: "string \<Rightarrow> string" where
  "write_absent_string name = '' '' @ name @ ''=none '' @ name @ ''_truncated=no''"

definition int_digits :: "int \<Rightarrow> string" where
  "int_digits i = (if i < 0 then CHR ''-'' # nat_digits (nat (- i)) else nat_digits (nat i))"

definition write_network_error :: "network_error option \<Rightarrow> string" where
  "write_network_error failure =
     (case failure of
        Some err \<Rightarrow>
          '' network_error_code='' @ network_error_name (ne_code err)
          @ write_bounded_string ''network_stage'' (ne_stage err)
          @ write_bounded_string ''network_message'' (ne_message err)
          @ '' network_http_status=''
          @ (case ne_http_status err of Some status \<Rightarrow> nat_digits status | None \<Rightarrow> ''none'')
          @ (case ne_retry_after err of
               Some retry \<Rightarrow> write_bounded_string ''network_retry_after'' retry
             | None \<Rightarrow> write_absent_string ''network_retry_after'')
      | None \<Rightarrow>
          '' network_error_code=none'' @ write_absent_string ''network_stage''
          @ write_absent_string ''network_message'' @ '' network_http_status=none''
          @ write_absent_string ''network_retry_after'')"

definition write_adapter_error :: "adapter_details option \<Rightarrow> string" where
  "write_adapter_error failure =
     (case failure of
        Some err \<Rightarrow>
          '' adapter_error_code='' @ adapter_code_name (av_code err)
          @ '' adapter_error_field='' @ adapter_field_name (av_field err)
          @ '' adapter_decimal_error=''
          @ (case av_decimal err of
               Some (code, offset) \<Rightarrow> code @ '' adapter_decimal_offset='' @ nat_digits offset
             | None \<Rightarrow> ''none adapter_decimal_offset=none'')
          @ '' adapter_raw_enum=''
          @ (case av_raw_enum err of Some raw \<Rightarrow> int_digits raw | None \<Rightarrow> ''none'')
      | None \<Rightarrow>
          '' adapter_error_code=none adapter_error_field=none''
          @ '' adapter_decimal_error=none adapter_decimal_offset=none''
          @ '' adapter_raw_enum=none'')"

definition write_gap :: "gap_details option \<Rightarrow> string" where
  "write_gap last_gap =
     (case last_gap of
        Some gap \<Rightarrow>
          '' gap_reason='' @ gap_reason_name (gp_reason gap)
          @ '' gap_policy='' @ sequence_policy_name (gp_policy gap)
          @ '' gap_last_accepted_final='' @ to_string_u64 (gp_last_accepted_final gap)
          @ '' gap_incoming_first='' @ to_string_u64 (gp_incoming_first gap)
          @ '' gap_incoming_final='' @ to_string_u64 (gp_incoming_final gap)
          @ '' gap_incoming_previous_final=''
          @ (case gp_incoming_previous_final gap of Some final \<Rightarrow> to_string_u64 final | None \<Rightarrow> ''none'')
      | None \<Rightarrow>
          '' gap_reason=none gap_policy=none''
          @ '' gap_last_accepted_final=none gap_incoming_first=none''
          @ '' gap_incoming_final=none gap_incoming_previous_final=none'')"

definition write_failure ::
  "'g report_sources \<Rightarrow> market_key \<Rightarrow> nat \<Rightarrow> 'g recovery_failure_diagnostic \<Rightarrow> string" where
  "write_failure rs key index failure =
     ''gateway_recovery_failure venue='' @ rs_venue_name rs (mk_venue key)
     @ '' market='' @ rs_market_name rs (mk_market key)
     @ write_bounded_string ''symbol'' (mk_symbol key)
     @ '' index='' @ nat_digits index
     @ '' generation='' @ to_string_u64 (fd_connection_generation failure)
     @ '' cause='' @ recovery_cause_name (fd_cause failure)
     @ '' runtime_state='' @ runtime_state_name (fd_runtime_state failure)
     @ '' projection_status='' @ projection_status_name (fd_projection_status failure)
     @ '' fault_reason=''
     @ (case fd_fault_reason failure of Some reason \<Rightarrow> fault_reason_name reason | None \<Rightarrow> ''none'')
     @ write_network_error (fd_network_error failure)
     @ write_adapter_error (map_option (rs_adapter rs) (fd_adapter_error failure))
     @ write_gap (map_option (rs_gap rs) (fd_last_gap failure))
     @ [CHR 0x0A]"

definition write_product_failures ::
  "'g report_sources \<Rightarrow> market_key \<Rightarrow> 'g recovery_observation \<Rightarrow> string" where
  "write_product_failures rs key recovery =
     concat (map (\<lambda>index. write_failure rs key index (ro_failure_history recovery ! index))
       [0..<min (ro_failure_history_size recovery) (length (ro_failure_history recovery))])"

definition write_recovery_failure_diagnostics ::
  "'g report_sources \<Rightarrow> 'g product_observation list \<Rightarrow> string" where
  "write_recovery_failure_diagnostics rs products =
     concat (map (\<lambda>product. write_product_failures rs (po_key product) (po_recovery product)) products)"

definition write_product_identity :: "'g report_sources \<Rightarrow> market_key \<Rightarrow> string" where
  "write_product_identity rs key =
     '' venue='' @ rs_venue_name rs (mk_venue key)
     @ '' market='' @ rs_market_name rs (mk_market key)
     @ write_bounded_string ''symbol'' (mk_symbol key)"

section \<open>Reading an escaped string\<close>

definition hex_value :: "char \<Rightarrow> nat option" where
  "hex_value c = find_char c ''0123456789ABCDEF''"

text \<open>The contents up to the closing quote, and what follows it.\<close>

fun simple_escape :: "char \<Rightarrow> char" where
  "simple_escape c =
     (if c = CHR ''n'' then CHR 0x0A else if c = CHR ''r'' then CHR 0x0D
      else if c = CHR ''t'' then CHR 0x09 else c)"

fun hex_escape :: "string \<Rightarrow> (char \<times> string) option" where
  "hex_escape (h # l # s) =
     (case (hex_value h, hex_value l) of
        (Some a, Some b) \<Rightarrow> Some (char_of (16 * a + b), s)
      | _ \<Rightarrow> None)"
| "hex_escape _ = None"

lemma hex_escape_shorter: "hex_escape s = Some (c, r) \<Longrightarrow> length r < length s"
  by (cases s rule: hex_escape.cases) (auto split: option.splits)

function read_escaped :: "string \<Rightarrow> (string \<times> string) option" where
  "read_escaped [] = None"
| "read_escaped (c # s) =
     (if c = CHR 0x22 then Some ([], s)
      else if c \<noteq> CHR 0x5C then map_option (apfst ((#) c)) (read_escaped s)
      else case s of
        [] \<Rightarrow> None
      | e # s' \<Rightarrow>
          if e = CHR ''x'' then
            (case hex_escape s' of
               None \<Rightarrow> None
             | Some (d, r) \<Rightarrow> map_option (apfst ((#) d)) (read_escaped r))
          else map_option (apfst ((#) (simple_escape e))) (read_escaped s'))"
  by pat_completeness auto
termination by (relation "measure length") (auto dest: hex_escape_shorter)

lemma read_escaped_shorter: "read_escaped s = Some (t, r) \<Longrightarrow> length r < length s"
proof (induction s arbitrary: t r rule: read_escaped.induct)
  case (2 c s)
  show ?case
  proof (cases "c = CHR 0x22 \<or> c \<noteq> CHR 0x5C \<or> s = []")
    case True
    with 2 show ?thesis by (fastforce split: if_splits)
  next
    case False
    then obtain e s' where s: "s = e # s'" by (cases s) auto
    show ?thesis
    proof (cases "e = CHR ''x''")
      case True
      with False 2(4) s obtain d r' t' where h: "hex_escape s' = Some (d, r')" "read_escaped r' = Some (t', r)"
        by (auto split: option.splits)
      have "length r < length r'" by (rule 2(2) [OF _ _ s True h(1) refl h(2)]) (use False in auto)
      with hex_escape_shorter [OF h(1)] s show ?thesis by simp
    next
      case other: False
      with False 2(4) s obtain t' where "read_escaped s' = Some (t', r)" by auto
      from 2(3) [OF _ _ s other this] False s show ?thesis by fastforce
    qed
  qed
qed simp

lemma hex_value_upper_hex [simp]:
  assumes "n < 16"
  shows "hex_value (upper_hex n) = Some n"
proof -
  have "list_all (\<lambda>n. hex_value (upper_hex n) = Some n) [0..<16]"
    by (simp add: upt_conv_Cons hex_value_def upper_hex_def)
  with assms show ?thesis by (simp add: list_all_iff)
qed

lemma read_escaped_byte: "read_escaped (escaped_byte c @ s) = map_option (apfst ((#) c)) (read_escaped s)"
proof -
  have "(of_char c :: nat) < 256" by (rule nat_of_char_less_256)
  then have "of_char c div 16 < (16 :: nat)" "of_char c mod 16 < (16 :: nat)"
    by (simp_all add: less_mult_imp_div_less)
  then show ?thesis by (simp add: escaped_byte_def Let_def del: of_char_of)
qed

lemma read_escaped_bytes:
  "read_escaped (concat (map escaped_byte t) @ CHR 0x22 # s) = Some (t, s)"
  by (induction t) (simp_all add: read_escaped_byte)

lemma read_write_escaped:
  "\<exists>body. write_escaped contents @ s = CHR 0x22 # body
     \<and> read_escaped body = Some (take kRecoveryDiagnosticStringLimit contents, s)"
  by (simp add: write_escaped_def read_escaped_bytes)

section \<open>Reading a report\<close>

text \<open>A field has a name and a value, which is a bare word or a quoted string.\<close>

datatype field_value = Bare string | Quoted string

definition word_char :: "char \<Rightarrow> bool" where
  "word_char c \<longleftrightarrow> 0x20 < (of_char c :: nat) \<and> (of_char c :: nat) \<le> 0x7E \<and> c \<notin> {CHR 0x22, CHR ''=''}"

abbreviation report_word :: "string \<Rightarrow> bool" where
  "report_word s \<equiv> list_all word_char s"

fun read_value :: "string \<Rightarrow> (field_value \<times> string) option" where
  "read_value s =
     (if s \<noteq> [] \<and> hd s = CHR 0x22 then map_option (apfst Quoted) (read_escaped (tl s))
      else Some (Bare (takeWhile word_char s), dropWhile word_char s))"

lemma read_value_shorter: "read_value s = Some (v, r) \<Longrightarrow> length r \<le> length s"
  by (cases s) (auto split: if_splits dest!: read_escaped_shorter intro: length_dropWhile_le le_SucI)

text \<open>The fields of a line: \<open> name=value\<close>, up to the end of the line.\<close>

function read_fields :: "string \<Rightarrow> ((string \<times> field_value) list \<times> string) option" where
  "read_fields s =
     (if s = [] then None
      else if hd s = CHR 0x0A then Some ([], tl s)
      else if hd s \<noteq> CHR '' '' then None
      else case dropWhile word_char (tl s) of
        [] \<Rightarrow> None
      | c # rest \<Rightarrow>
          if c \<noteq> CHR ''='' then None
          else (case read_value rest of
             None \<Rightarrow> None
           | Some (v, r) \<Rightarrow> map_option (apfst ((#) (takeWhile word_char (tl s), v))) (read_fields r)))"
  by pat_completeness auto
termination
proof (relation "measure length", goal_cases)
  case (2 s c rest p v r)
  have "length (c # rest) \<le> length (tl s)" unfolding 2(4) [symmetric] by (rule length_dropWhile_le)
  moreover have "length r \<le> length rest" using 2 read_value_shorter by metis
  moreover have "length (tl s) < length s" using 2 by simp
  ultimately show ?case by simp
qed simp

declare read_fields.simps [simp del]

lemma read_fields_shorter: "read_fields s = Some (fs, r) \<Longrightarrow> length r < length s"
proof (induction s arbitrary: fs r rule: read_fields.induct)
  case (1 s)
  show ?case
  proof (cases "s \<noteq> [] \<and> hd s \<noteq> CHR 0x0A")
    case False
    with 1(2) show ?thesis by (subst (asm) read_fields.simps) (auto split: if_splits)
  next
    case True
    with 1(2) obtain c rest v r' fs' where f: "hd s = CHR '' ''" "dropWhile word_char (tl s) = c # rest"
      "c = CHR ''=''" "read_value rest = Some (v, r')" "read_fields r' = Some (fs', r)"
      by (subst (asm) read_fields.simps) (auto split: if_splits list.splits option.splits)
    have "length (c # rest) \<le> length (tl s)" unfolding f(2) [symmetric] by (rule length_dropWhile_le)
    moreover have "length r' \<le> length rest" by (rule read_value_shorter [OF f(4)])
    moreover have "length r < length r'" by (rule 1(1) [OF _ _ _ f(2) _ f(4) refl f(5)]) (use True f in auto)
    ultimately show ?thesis by (cases s) simp_all
  qed
qed

text \<open>A report is a sequence of lines: a word, and fields.\<close>

type_synonym report_record = "string \<times> (string \<times> field_value) list"

function read_report :: "string \<Rightarrow> report_record list option" where
  "read_report s =
     (if s = [] then Some []
      else case read_fields (dropWhile word_char s) of
        None \<Rightarrow> None
      | Some (fs, rest) \<Rightarrow> map_option ((#) (takeWhile word_char s, fs)) (read_report rest))"
  by pat_completeness auto
termination
  by (relation "measure length")
    (auto dest!: read_fields_shorter intro: less_le_trans [OF _ length_dropWhile_le])

declare read_report.simps [simp del]

section \<open>Writing fields\<close>

fun write_value :: "field_value \<Rightarrow> string" where
  "write_value (Bare s) = s"
| "write_value (Quoted s) = write_escaped s"

definition write_field :: "string \<times> field_value \<Rightarrow> string" where
  "write_field field = '' '' @ fst field @ ''='' @ write_value (snd field)"

text \<open>A field whose value comes back.\<close>

fun readable :: "field_value \<Rightarrow> bool" where
  "readable (Bare s) = report_word s"
| "readable (Quoted s) = (length s \<le> kRecoveryDiagnosticStringLimit)"

lemma takeWhile_stops: "report_word s \<Longrightarrow> r = [] \<or> \<not> word_char (hd r) \<Longrightarrow> takeWhile word_char (s @ r) = s"
  by (cases r) (auto simp: takeWhile_append list_all_iff takeWhile_eq_all_conv)

lemma dropWhile_stops: "report_word s \<Longrightarrow> r = [] \<or> \<not> word_char (hd r) \<Longrightarrow> dropWhile word_char (s @ r) = r"
  by (cases r) (auto simp: dropWhile_append list_all_iff dropWhile_eq_Nil_conv)

lemma read_written_value:
  assumes "readable v" and "r \<noteq> []" and "\<not> word_char (hd r)" and "hd r \<noteq> CHR 0x22"
  shows "read_value (write_value v @ r) = Some (v, r)"
proof (cases v)
  case (Bare s)
  have "\<not> word_char (CHR 0x22)" by (simp add: word_char_def)
  then have "hd (s @ r) \<noteq> CHR 0x22" using assms Bare by (cases s) auto
  with assms Bare show ?thesis by (simp add: takeWhile_stops dropWhile_stops)
next
  case (Quoted s)
  obtain body where "write_escaped s @ r = CHR 0x22 # body"
    "read_escaped body = Some (take kRecoveryDiagnosticStringLimit s, r)"
    using read_write_escaped by blast
  with assms(1) Quoted show ?thesis by simp
qed

lemma read_written_fields:
  assumes "list_all (\<lambda>field. report_word (fst field) \<and> readable (snd field)) fs"
  shows "read_fields (concat (map write_field fs) @ CHR 0x0A # r) = Some (fs, r)"
  using assms
proof (induction fs)
  case Nil
  then show ?case by (subst read_fields.simps) simp
next
  case (Cons field fs)
  obtain name v where field: "field = (name, v)" by force
  let ?rest = "concat (map write_field fs) @ CHR 0x0A # r"
  have not_word: "\<not> word_char (CHR ''='')" "\<not> word_char (CHR '' '')" "\<not> word_char (CHR 0x0A)"
    by (simp_all add: word_char_def)
  have rest: "?rest \<noteq> []" "\<not> word_char (hd ?rest)" "hd ?rest \<noteq> CHR 0x22"
    by (cases fs; simp add: write_field_def not_word)+
  have good: "report_word name" "readable v" using Cons.prems field by simp_all
  have line: "concat (map write_field (field # fs)) @ CHR 0x0A # r
      = CHR '' '' # name @ CHR ''='' # write_value v @ ?rest"
    by (simp add: field write_field_def)
  have "read_fields ?rest = Some (fs, r)" by (rule Cons.IH) (use Cons.prems in simp)
  then show ?case
    unfolding line
    by (subst read_fields.simps)
      (simp add: takeWhile_stops dropWhile_stops good not_word read_written_value [OF good(2) rest] field
        del: read_value.simps)
qed

lemma read_written_line:
  assumes "report_word title" and "list_all (\<lambda>field. report_word (fst field) \<and> readable (snd field)) fs"
  shows "read_report (title @ concat (map write_field fs) @ CHR 0x0A # r)
    = map_option ((#) (title, fs)) (read_report r)"
proof -
  let ?rest = "concat (map write_field fs) @ CHR 0x0A # r"
  have "\<not> word_char (CHR '' '')" "\<not> word_char (CHR 0x0A)" by (simp_all add: word_char_def)
  then have "\<not> word_char (hd ?rest)" by (cases fs) (simp_all add: write_field_def)
  then show ?thesis
    by (subst read_report.simps)
      (simp add: takeWhile_stops dropWhile_stops assms(1) read_written_fields [OF assms(2)])
qed

section \<open>What a report says\<close>

text \<open>The fields a failure is reported with. Of a long string the first part is kept, and it is marked.\<close>

definition bounded_fields :: "string \<Rightarrow> string \<Rightarrow> (string \<times> field_value) list" where
  "bounded_fields name contents =
     [(name, Quoted (take kRecoveryDiagnosticStringLimit contents)),
      (name @ ''_truncated'', Bare (yes_no (length contents > kRecoveryDiagnosticStringLimit)))]"

definition absent_fields :: "string \<Rightarrow> (string \<times> field_value) list" where
  "absent_fields name = [(name, Bare ''none''), (name @ ''_truncated'', Bare ''no'')]"

definition or_none :: "('a \<Rightarrow> string) \<Rightarrow> 'a option \<Rightarrow> field_value" where
  "or_none show_it a = Bare (case a of None \<Rightarrow> ''none'' | Some x \<Rightarrow> show_it x)"

definition bounded_or_absent :: "string \<Rightarrow> string option \<Rightarrow> (string \<times> field_value) list" where
  "bounded_or_absent name a = (case a of None \<Rightarrow> absent_fields name | Some contents \<Rightarrow> bounded_fields name contents)"

definition network_fields :: "network_error option \<Rightarrow> (string \<times> field_value) list" where
  "network_fields failure =
     [(''network_error_code'', or_none (\<lambda>err. network_error_name (ne_code err)) failure)]
     @ bounded_or_absent ''network_stage'' (map_option ne_stage failure)
     @ bounded_or_absent ''network_message'' (map_option ne_message failure)
     @ [(''network_http_status'', or_none nat_digits (Option.bind failure ne_http_status))]
     @ bounded_or_absent ''network_retry_after'' (Option.bind failure ne_retry_after)"

definition adapter_fields :: "adapter_details option \<Rightarrow> (string \<times> field_value) list" where
  "adapter_fields failure =
     [(''adapter_error_code'', or_none (\<lambda>err. adapter_code_name (av_code err)) failure),
      (''adapter_error_field'', or_none (\<lambda>err. adapter_field_name (av_field err)) failure),
      (''adapter_decimal_error'', or_none fst (Option.bind failure av_decimal)),
      (''adapter_decimal_offset'', or_none (\<lambda>e. nat_digits (snd e)) (Option.bind failure av_decimal)),
      (''adapter_raw_enum'', or_none int_digits (Option.bind failure av_raw_enum))]"

definition gap_fields :: "gap_details option \<Rightarrow> (string \<times> field_value) list" where
  "gap_fields last_gap =
     [(''gap_reason'', or_none (\<lambda>gap. gap_reason_name (gp_reason gap)) last_gap),
      (''gap_policy'', or_none (\<lambda>gap. sequence_policy_name (gp_policy gap)) last_gap),
      (''gap_last_accepted_final'', or_none (\<lambda>gap. to_string_u64 (gp_last_accepted_final gap)) last_gap),
      (''gap_incoming_first'', or_none (\<lambda>gap. to_string_u64 (gp_incoming_first gap)) last_gap),
      (''gap_incoming_final'', or_none (\<lambda>gap. to_string_u64 (gp_incoming_final gap)) last_gap),
      (''gap_incoming_previous_final'',
         or_none to_string_u64 (Option.bind last_gap gp_incoming_previous_final))]"

definition failure_fields ::
  "'g report_sources \<Rightarrow> market_key \<Rightarrow> nat \<Rightarrow> 'g recovery_failure_diagnostic \<Rightarrow> (string \<times> field_value) list" where
  "failure_fields rs key index failure =
     [(''venue'', Bare (rs_venue_name rs (mk_venue key))), (''market'', Bare (rs_market_name rs (mk_market key)))]
     @ bounded_fields ''symbol'' (mk_symbol key)
     @ [(''index'', Bare (nat_digits index)),
        (''generation'', Bare (to_string_u64 (fd_connection_generation failure))),
        (''cause'', Bare (recovery_cause_name (fd_cause failure))),
        (''runtime_state'', Bare (runtime_state_name (fd_runtime_state failure))),
        (''projection_status'', Bare (projection_status_name (fd_projection_status failure))),
        (''fault_reason'', or_none fault_reason_name (fd_fault_reason failure))]
     @ network_fields (fd_network_error failure)
     @ adapter_fields (map_option (rs_adapter rs) (fd_adapter_error failure))
     @ gap_fields (map_option (rs_gap rs) (fd_last_gap failure))"

definition failure_records :: "'g report_sources \<Rightarrow> 'g product_observation list \<Rightarrow> report_record list" where
  "failure_records rs products =
     concat (map (\<lambda>product. map (\<lambda>(index, failure).
         (''gateway_recovery_failure'', failure_fields rs (po_key product) index failure))
       (enumerate 0 (failures (po_recovery product)))) products)"

lemma write_escaped_take [simp]:
  "write_escaped (take kRecoveryDiagnosticStringLimit contents) = write_escaped contents"
  by (simp add: write_escaped_def)

lemma write_bounded_fields: "write_bounded_string name contents = concat (map write_field (bounded_fields name contents))"
  by (simp add: write_bounded_string_def bounded_fields_def write_field_def)

lemma write_absent_fields: "write_absent_string name = concat (map write_field (absent_fields name))"
  by (simp add: write_absent_string_def absent_fields_def write_field_def)

lemma write_network_fields: "write_network_error failure = concat (map write_field (network_fields failure))"
  by (cases failure)
    (simp_all add: write_network_error_def network_fields_def write_bounded_fields write_absent_fields
      bounded_or_absent_def or_none_def write_field_def split: option.split)

lemma write_adapter_fields: "write_adapter_error failure = concat (map write_field (adapter_fields failure))"
  by (cases failure)
    (simp_all add: write_adapter_error_def adapter_fields_def or_none_def write_field_def split: option.split)

lemma write_gap_fields: "write_gap last_gap = concat (map write_field (gap_fields last_gap))"
  by (cases last_gap) (simp_all add: write_gap_def gap_fields_def or_none_def write_field_def split: option.split)

lemma write_failure_fields:
  "write_failure rs key index failure =
     ''gateway_recovery_failure'' @ concat (map write_field (failure_fields rs key index failure)) @ [CHR 0x0A]"
  by (simp add: write_failure_def failure_fields_def write_bounded_fields write_network_fields write_adapter_fields
      write_gap_fields or_none_def write_field_def)

text \<open>Every word of a report is one.\<close>

lemma digit_word: "is_digit c \<Longrightarrow> word_char c"
  by (auto simp: is_digit_def word_char_def)

lemma number_word [simp]: "report_word (nat_digits n)" "report_word (to_string_u64 w)" "report_word (int_digits i)"
proof -
  show digits: "report_word (nat_digits n)" for n
    using list_all_nat_digits [of n] digit_word by (auto simp: list_all_iff)
  then show "report_word (to_string_u64 w)" by (simp add: to_string_u64_def)
  have "word_char (CHR ''-'')" by (simp add: word_char_def)
  with digits show "report_word (int_digits i)" by (simp add: int_digits_def)
qed

lemma name_word [simp]:
  "report_word (recovery_cause_name cause)" "report_word (network_error_name code)"
  "report_word (runtime_state_name state)" "report_word (projection_status_name status)"
  "report_word (fault_reason_name reason)" "report_word (gap_reason_name gap)"
  "report_word (sequence_policy_name policy)" "report_word (adapter_code_name ac)"
  "report_word (adapter_field_name af)" "report_word (yes_no b)"
proof -
  show "report_word (recovery_cause_name cause)" by (cases cause) (simp_all add: word_char_def)
  show "report_word (network_error_name code)" by (cases code) (simp_all add: word_char_def)
  show "report_word (runtime_state_name state)" by (cases state) (simp_all add: word_char_def)
  show "report_word (projection_status_name status)" by (cases status) (simp_all add: word_char_def)
  show "report_word (fault_reason_name reason)" by (cases reason) (simp_all add: word_char_def)
  show "report_word (gap_reason_name gap)" by (cases gap) (simp_all add: word_char_def)
  show "report_word (sequence_policy_name policy)" by (cases policy) (simp_all add: word_char_def)
  show "report_word (adapter_code_name ac)" by (cases ac) (simp_all add: word_char_def)
  show "report_word (adapter_field_name af)" by (cases af) (simp_all add: word_char_def)
  show "report_word (yes_no b)" by (simp add: yes_no_def word_char_def)
qed

text \<open>The words the contracts and the core provide.\<close>

definition plain_sources :: "'g report_sources \<Rightarrow> bool" where
  "plain_sources rs \<longleftrightarrow> (\<forall>venue. report_word (rs_venue_name rs venue)) \<and> (\<forall>market. report_word (rs_market_name rs market))
     \<and> (\<forall>err code offset. av_decimal (rs_adapter rs err) = Some (code, offset) \<longrightarrow> report_word code)"

abbreviation good_fields :: "(string \<times> field_value) list \<Rightarrow> bool" where
  "good_fields fs \<equiv> list_all (\<lambda>field. report_word (fst field) \<and> readable (snd field)) fs"

lemma or_none_readable: "readable (or_none show_it a) \<longleftrightarrow> (\<forall>x. a = Some x \<longrightarrow> report_word (show_it x))"
  by (cases a) (simp_all add: or_none_def word_char_def)

lemma bounded_fields_good: "report_word name \<Longrightarrow> good_fields (bounded_fields name contents)"
  by (simp add: bounded_fields_def word_char_def)

lemma bounded_or_absent_good: "report_word name \<Longrightarrow> good_fields (bounded_or_absent name a)"
  by (cases a) (simp_all add: bounded_or_absent_def bounded_fields_good absent_fields_def word_char_def)

lemma network_fields_good: "good_fields (network_fields failure)"
  by (simp add: network_fields_def bounded_or_absent_good or_none_readable word_char_def)

lemma adapter_fields_good:
  "(\<And>err code offset. failure = Some err \<Longrightarrow> av_decimal err = Some (code, offset) \<Longrightarrow> report_word code)
     \<Longrightarrow> good_fields (adapter_fields failure)"
  by (auto simp: adapter_fields_def or_none_readable word_char_def Option.bind_eq_Some_conv)

lemma gap_fields_good: "good_fields (gap_fields last_gap)"
  by (simp add: gap_fields_def or_none_readable word_char_def)

lemma failure_fields_good:
  assumes "plain_sources rs"
  shows "good_fields (failure_fields rs key index failure)"
proof -
  have "good_fields (adapter_fields (map_option (rs_adapter rs) (fd_adapter_error failure)))"
    by (rule adapter_fields_good) (use assms in \<open>unfold plain_sources_def, blast\<close>)
  with assms show ?thesis
    by (simp add: failure_fields_def plain_sources_def bounded_fields_good network_fields_good gap_fields_good
        or_none_readable word_char_def)
qed

definition written_record :: "report_record \<Rightarrow> string" where
  "written_record r = fst r @ concat (map write_field (snd r)) @ [CHR 0x0A]"

lemma read_written_report:
  assumes "list_all (\<lambda>r. report_word (fst r) \<and> good_fields (snd r)) rs"
  shows "read_report (concat (map written_record rs)) = Some rs"
  using assms
proof (induction rs)
  case Nil
  then show ?case by (simp add: read_report.simps)
next
  case (Cons r rs)
  then show ?case by (cases r) (simp add: read_written_line written_record_def)
qed

lemma written_product:
  "write_product_failures rs key recovery =
     concat (map written_record (map (\<lambda>(index, failure).
         (''gateway_recovery_failure'', failure_fields rs key index failure)) (enumerate 0 (failures recovery))))"
proof -
  let ?h = "ro_failure_history recovery"
  let ?n = "min (ro_failure_history_size recovery) (length ?h)"
  have "enumerate 0 (failures recovery) = map (\<lambda>i. (i, ?h ! i)) [0..<?n]"
    by (rule nth_equalityI) (simp_all add: failures_def nth_enumerate_eq)
  then show ?thesis
    by (simp only: write_product_failures_def map_map comp_def prod.case write_failure_fields written_record_def fst_conv snd_conv)
qed

lemma written_report:
  "write_recovery_failure_diagnostics rs products = concat (map written_record (failure_records rs products))"
  by (induction products)
    (simp_all add: write_recovery_failure_diagnostics_def failure_records_def written_product)

text \<open>C40: the diagnostics of a stopped gateway can be read back, whatever the symbols, stages and messages in them
  are: as one record for every failure on record, in the order of the products and oldest first, with the fields of
  that failure; a string that was too long is cut and says so.\<close>

theorem diagnostics_read_back:
  assumes "plain_sources rs"
  shows "read_report (write_recovery_failure_diagnostics rs products) = Some (failure_records rs products)"
proof -
  have "report_word (fst r) \<and> good_fields (snd r)" if r: "r \<in> set (failure_records rs products)" for r
  proof -
    from r obtain key index failure where "r = (''gateway_recovery_failure'', failure_fields rs key index failure)"
      by (auto simp: failure_records_def)
    then show ?thesis using failure_fields_good [OF assms] by (simp add: word_char_def)
  qed
  then show ?thesis unfolding written_report by (intro read_written_report) (simp add: list_all_iff)
qed

text \<open>A message that tries to look like a line of its own.\<close>

definition example_report_sources :: "nat report_sources" where
  "example_report_sources =
     \<lparr>rs_venue_name = (\<lambda>_. ''BINANCE''), rs_market_name = (\<lambda>_. ''SPOT''),
      rs_adapter = (\<lambda>_. \<lparr>av_code = AcOther 0, av_field = AfNone, av_decimal = None, av_raw_enum = None\<rparr>),
      rs_gap = (\<lambda>_. \<lparr>gp_reason = GrOther 0, gp_policy = SpSpot, gp_last_accepted_final = 0, gp_incoming_first = 0,
        gp_incoming_final = 0, gp_incoming_previous_final = None\<rparr>)\<rparr>"

definition example_failed_product :: "nat product_observation" where
  "example_failed_product =
     \<lparr>po_key = spot_btcusdt_key,
      po_recovery = initial_recovery_observation
        \<lparr>ro_failure_history := [default_diagnostic
           \<lparr>fd_network_error := Some \<lparr>ne_code = NeTls, ne_stage = ''tls'',
              ne_message = [CHR 0x22, CHR 0x0A] @ ''gateway_state=serving'', ne_http_status = None,
              ne_retry_after = None\<rparr>\<rparr>], ro_failure_history_size := 1\<rparr>,
      po_runtime = initial_observation toy_limits,
      po_events = \<lparr>eo_source_state = SrcShutdown, eo_source_generation = None, eo_active_subscriptions = 0\<rparr>\<rparr>"

theorem diagnostics_read_back_witness:
  "map_option (\<lambda>records. (length records, map_of (snd (hd records)) ''network_message''))
     (read_report (write_recovery_failure_diagnostics example_report_sources [example_failed_product]))
   = Some (1, Some (Quoted ([CHR 0x22, CHR 0x0A] @ ''gateway_state=serving'')))"
proof -
  have "plain_sources example_report_sources"
    by (simp add: plain_sources_def example_report_sources_def word_char_def)
  from diagnostics_read_back [OF this] show ?thesis
    by (simp add: failure_records_def example_failed_product_def failures_def failure_fields_def bounded_fields_def
        network_fields_def bounded_or_absent_def kRecoveryDiagnosticStringLimit_def spot_btcusdt_key_def
        default_diagnostic_def)
qed

end
