(* ===== verification/DaemonConfig.thy ===== *)
theory DaemonConfig
  imports ProductSets GrpcRequests Foundation Json
begin

text \<open>
  The startup configuration of the daemon, \<open>src/src/production/daemon_config.{hpp,cpp}\<close>: the command
  line, the bounded read of the file, the strict JSON object, and exactly which files are accepted. The
  file system, the JSON parser and the address parser of Asio are parameters.
\<close>

section \<open>Values\<close>

definition kMaximumDaemonConfigBytes :: nat where
  "kMaximumDaemonConfigBytes = 64 * 1024"

record daemon_config =
  dc_grpc_listen :: string
  dc_market_keys :: "market_key list"

text \<open>A \<open>DaemonConfigError\<close> is its message; an error result is \<open>Inl\<close>.\<close>

type_synonym daemon_config_error = string

datatype daemon_config_result =
    Accepted daemon_config | HelpRequested | Rejected daemon_config_error

text \<open>
  What the loader gets from outside. \<open>da_open\<close>: the bytes of the file and whether reading it went bad,
  \<open>None\<close> if it cannot be opened. \<open>da_parse\<close>: the keys the parser reported at depth 1 and the value,
  \<open>None\<close> if it was discarded. \<open>da_make_address\<close>: the argument of \<open>valid_loopback_listen_address\<close>.
\<close>

record daemon_environment =
  da_open :: "string \<Rightarrow> (string \<times> bool) option"
  da_parse :: "string \<Rightarrow> (string list \<times> json) option"
  da_make_address :: "string \<Rightarrow> (bool \<times> bool) option"
  da_numbers :: enum_numbers

section \<open>Reading\<close>

definition read_config_file :: "daemon_environment \<Rightarrow> string \<Rightarrow> daemon_config_error + string" where
  "read_config_file env path =
     (case da_open env path of
        None \<Rightarrow> Inl ''unable to open config file''
      | Some (bytes, bad) \<Rightarrow>
          let buffer = take (kMaximumDaemonConfigBytes + 1) bytes in
          if bad then Inl ''unable to read config file''
          else if length buffer > kMaximumDaemonConfigBytes
          then Inl ''config file exceeds 64 KiB limit''
          else Inr buffer)"

text \<open>The callback inserts every top-level key into a set and remembers a key that was there.\<close>

fun duplicate_key :: "string set \<Rightarrow> string list \<Rightarrow> bool" where
  "duplicate_key seen [] = False"
| "duplicate_key seen (key # keys) = (key \<in> seen \<or> duplicate_key (insert key seen) keys)"

definition parse_strict_json :: "daemon_environment \<Rightarrow> string \<Rightarrow> daemon_config_error + json" where
  "parse_strict_json env contents =
     (case da_parse env contents of
        None \<Rightarrow> Inl ''malformed JSON''
      | Some (top_level_keys, parsed) \<Rightarrow>
          if duplicate_key {} top_level_keys then Inl ''duplicate top-level JSON key'' else Inr parsed)"

definition required_keys :: "string list" where
  "required_keys = [''grpc_listen'', ''spot_symbols'', ''usdm_symbols'']"

text \<open>The members of an object are visited in the order of their keys, so the first unknown one is the least.\<close>

definition first_unknown :: "(string \<times> json) list \<Rightarrow> string option" where
  "first_unknown members =
     (case filter (\<lambda>key. key \<notin> set required_keys) (map fst members) of
        [] \<Rightarrow> None
      | key # keys \<Rightarrow> Some (fold (\<lambda>a b. if bytes_less a b then a else b) keys key))"

definition validate_keys :: "json \<Rightarrow> daemon_config_error option" where
  "validate_keys root =
     (case root of
        JObject members \<Rightarrow>
          (case first_unknown members of
             Some key \<Rightarrow> Some (''unknown top-level key: '' @ key)
           | None \<Rightarrow>
               (case List.find (\<lambda>key. \<not> json_contains root key) required_keys of
                  Some key \<Rightarrow> Some (''missing required top-level key: '' @ key)
                | None \<Rightarrow> None))
      | _ \<Rightarrow> Some ''config root must be an object'')"

fun symbols_loop :: "string \<Rightarrow> json list \<Rightarrow> string list \<Rightarrow> daemon_config_error + string list" where
  "symbols_loop field [] result = Inr result"
| "symbols_loop field (entry # entries) result =
     (case entry of
        JString symbol \<Rightarrow>
          if symbol = [] then Inl (field @ '' contains an empty symbol'')
          else symbols_loop field entries (result @ [symbol])
      | _ \<Rightarrow> Inl (field @ '' must be an array of strings''))"

definition symbols :: "json \<Rightarrow> string \<Rightarrow> daemon_config_error + string list" where
  "symbols root field =
     (case json_find root field of
        Some (JArray entries) \<Rightarrow> symbols_loop field entries []
      | _ \<Rightarrow> Inl (field @ '' must be an array of strings''))"

section \<open>Loading\<close>

definition spot_key :: "string \<Rightarrow> market_key" where
  "spot_key symbol = \<lparr>mk_venue = VENUE_BINANCE, mk_market = MARKET_SPOT, mk_symbol = symbol\<rparr>"

definition usdm_key :: "string \<Rightarrow> market_key" where
  "usdm_key symbol = \<lparr>mk_venue = VENUE_BINANCE, mk_market = MARKET_USD_M_PERPETUAL, mk_symbol = symbol\<rparr>"

definition check_listen :: "daemon_environment \<Rightarrow> json \<Rightarrow> daemon_config_error + string" where
  "check_listen env root =
     (case json_find root ''grpc_listen'' of
        Some (JString listen) \<Rightarrow>
          if listen = [] then Inl ''grpc_listen must not be empty''
          else (case parse_listen_endpoint listen of
                  Inl failure \<Rightarrow>
                    Inl (''invalid grpc_listen ['' @ ce_field failure @ '']: '' @ ce_message failure)
                | Inr _ \<Rightarrow>
                    if \<not> valid_loopback_listen_address (da_make_address env) listen False
                    then Inl ''grpc_listen must use a numeric loopback address and a port in 1..65535''
                    else Inr listen)
      | _ \<Rightarrow> Inl ''grpc_listen must be a string'')"

definition check_market_keys :: "daemon_environment \<Rightarrow> market_key list \<Rightarrow> daemon_config_error + market_key list" where
  "check_market_keys env keys =
     (if keys = [] \<or> length keys > kMaximumConfiguredProducts
      then Inl ''configured products require between one and eight symbols''
      else
        let sorted = sort_keyed (da_numbers env) id keys in
        if has_adjacent (=) sorted
        then Inl ''configured products contain a duplicate exact MarketKey''
        else Inr sorted)"

definition load_daemon_config :: "daemon_environment \<Rightarrow> string \<Rightarrow> daemon_config_error + daemon_config" where
  "load_daemon_config env config_path =
     (case read_config_file env config_path of Inl failure \<Rightarrow> Inl failure | Inr contents \<Rightarrow>
      case parse_strict_json env contents of Inl failure \<Rightarrow> Inl failure | Inr root \<Rightarrow>
      case validate_keys root of Some failure \<Rightarrow> Inl failure | None \<Rightarrow>
      case check_listen env root of Inl failure \<Rightarrow> Inl failure | Inr listen \<Rightarrow>
      case symbols root ''spot_symbols'' of Inl failure \<Rightarrow> Inl failure | Inr spot \<Rightarrow>
      case symbols root ''usdm_symbols'' of Inl failure \<Rightarrow> Inl failure | Inr usdm \<Rightarrow>
      case check_market_keys env (map spot_key spot @ map usdm_key usdm) of
        Inl failure \<Rightarrow> Inl failure
      | Inr keys \<Rightarrow> Inr \<lparr>dc_grpc_listen = listen, dc_market_keys = keys\<rparr>)"

section \<open>The command line\<close>

text \<open>The arguments after the program's name.\<close>

fun parse_options :: "string list \<Rightarrow> string option \<Rightarrow> daemon_config_error + string" where
  "parse_options [] None = Inl ''--config is required''"
| "parse_options [] (Some config_path) = Inr config_path"
| "parse_options (option # rest) seen =
     (if option \<noteq> ''--config'' then Inl (''unknown option: '' @ option)
      else if seen \<noteq> None then Inl ''duplicate option: --config''
      else (case rest of
              [] \<Rightarrow> Inl ''missing value for option: --config''
            | value # rest' \<Rightarrow>
                if value = [] then Inl ''missing value for option: --config''
                else parse_options rest' (Some value)))"

definition parse_daemon_config :: "daemon_environment \<Rightarrow> string list \<Rightarrow> daemon_config_result" where
  "parse_daemon_config env arguments =
     (if arguments = [''--help''] then HelpRequested
      else case parse_options arguments None of
        Inl failure \<Rightarrow> Rejected failure
      | Inr config_path \<Rightarrow>
          (case load_daemon_config env config_path of
             Inl failure \<Rightarrow> Rejected failure
           | Inr config \<Rightarrow> Accepted config))"

definition daemon_usage :: string where
  "daemon_usage = ''Usage: bmd-gatewayd --config PATH'' @ [CHR 0x0A, CHR 0x0A]
     @ ''Loads one strict startup-only JSON configuration file.'' @ [CHR 0x0A]"

section \<open>Which files are accepted\<close>

text \<open>Every check of the loader, as what it lets pass.\<close>

named_theorems passes

lemma duplicate_key_iff: "duplicate_key seen keys \<longleftrightarrow> \<not> (distinct keys \<and> set keys \<inter> seen = {})"
  by (induction keys arbitrary: seen) auto

lemma read_passes [passes]:
  "read_config_file env path = Inr contents \<longleftrightarrow>
     da_open env path = Some (contents, False) \<and> length contents \<le> kMaximumDaemonConfigBytes"
  by (auto simp: read_config_file_def Let_def min_def split: option.splits if_splits)

lemma parse_passes [passes]:
  "parse_strict_json env contents = Inr root \<longleftrightarrow>
     (\<exists>keys. da_parse env contents = Some (keys, root) \<and> distinct keys)"
  by (auto simp: parse_strict_json_def duplicate_key_iff split: option.splits if_splits)

lemma first_unknown_None: "first_unknown members = None \<longleftrightarrow> fst ` set members \<subseteq> set required_keys"
proof -
  have "first_unknown members = None \<longleftrightarrow> filter (\<lambda>key. key \<notin> set required_keys) (map fst members) = []"
    by (simp add: first_unknown_def split: list.split)
  then show ?thesis by (auto simp: filter_empty_conv)
qed

lemma validate_passes [passes]:
  "validate_keys root = None \<longleftrightarrow> (\<exists>members. root = JObject members \<and> fst ` set members = set required_keys)"
proof (cases root)
  case (JObject members)
  have "List.find (\<lambda>key. \<not> json_contains root key) required_keys = None
      \<longleftrightarrow> set required_keys \<subseteq> fst ` set members"
    by (auto simp: find_None_iff JObject json_contains_def json_find_def map_of_eq_None_iff)
  then show ?thesis
    using first_unknown_None [of members] unfolding validate_keys_def JObject
    by (auto split: option.split)
qed (simp_all add: validate_keys_def)

lemma symbols_loop_passes:
  "symbols_loop field entries acc = Inr result \<longleftrightarrow>
     (\<exists>names. entries = map JString names \<and> [] \<notin> set names \<and> result = acc @ names)"
proof (induction entries arbitrary: acc)
  case (Cons entry entries)
  show ?case
  proof (cases entry)
    case (JString symbol)
    with Cons show ?thesis by (auto simp: Cons_eq_map_conv)
  qed (auto simp: Cons_eq_map_conv)
qed auto

lemma symbols_passes [passes]:
  "symbols root field = Inr result \<longleftrightarrow>
     json_find root field = Some (JArray (map JString result)) \<and> [] \<notin> set result"
  by (auto simp: symbols_def symbols_loop_passes split: option.split json.split)

lemma listen_passes [passes]:
  "check_listen env root = Inr listen \<longleftrightarrow>
     json_find root ''grpc_listen'' = Some (JString listen) \<and> listen \<noteq> []
     \<and> \<not> isl (parse_listen_endpoint listen)
     \<and> valid_loopback_listen_address (da_make_address env) listen False"
  by (auto simp: check_listen_def split: option.splits json.splits sum.splits if_splits)

lemma keys_passes:
  assumes "distinct_numbers (da_numbers env)"
  shows "check_market_keys env keys = Inr result \<longleftrightarrow>
    keys \<noteq> [] \<and> length keys \<le> kMaximumConfiguredProducts \<and> distinct keys
    \<and> result = sort_keyed (da_numbers env) id keys"
proof -
  have "has_adjacent (=) (sort_keyed (da_numbers env) id keys) \<longleftrightarrow> \<not> distinct keys"
    using has_adjacent_iff [OF assms sorted_sort_keyed [OF assms, of id keys]]
    by (simp add: mset_eq_imp_distinct_iff [OF mset_sort_keyed])
  then show ?thesis by (auto simp: check_market_keys_def Let_def)
qed

text \<open>What a file says, and when that is good.\<close>

definition config_file ::
  "daemon_environment \<Rightarrow> string \<Rightarrow> string \<Rightarrow> string list \<Rightarrow> string list \<Rightarrow> bool" where
  "config_file env path listen spot usdm \<longleftrightarrow>
     (\<exists>contents keys members. da_open env path = Some (contents, False)
        \<and> length contents \<le> kMaximumDaemonConfigBytes
        \<and> da_parse env contents = Some (keys, JObject members) \<and> distinct keys
        \<and> fst ` set members = {''grpc_listen'', ''spot_symbols'', ''usdm_symbols''}
        \<and> map_of members ''grpc_listen'' = Some (JString listen)
        \<and> map_of members ''spot_symbols'' = Some (JArray (map JString spot))
        \<and> map_of members ''usdm_symbols'' = Some (JArray (map JString usdm)))"

definition config_good :: "daemon_environment \<Rightarrow> string \<Rightarrow> string list \<Rightarrow> string list \<Rightarrow> bool" where
  "config_good env listen spot usdm \<longleftrightarrow>
     listen \<noteq> [] \<and> \<not> isl (parse_listen_endpoint listen)
     \<and> valid_loopback_listen_address (da_make_address env) listen False
     \<and> [] \<notin> set spot \<and> [] \<notin> set usdm \<and> distinct spot \<and> distinct usdm
     \<and> 1 \<le> length spot + length usdm \<and> length spot + length usdm \<le> 8"

lemma keys_distinct: "distinct (map spot_key spot @ map usdm_key usdm) \<longleftrightarrow> distinct spot \<and> distinct usdm"
  by (auto simp: distinct_map inj_on_def spot_key_def usdm_key_def)

lemma load_iff:
  assumes "distinct_numbers (da_numbers env)"
  shows "load_daemon_config env path = Inr config \<longleftrightarrow>
    (\<exists>listen spot usdm. config_file env path listen spot usdm \<and> config_good env listen spot usdm
       \<and> config = \<lparr>dc_grpc_listen = listen, dc_market_keys =
           sort_keyed (da_numbers env) id (map spot_key spot @ map usdm_key usdm)\<rparr>)"
proof -
  have "load_daemon_config env path = Inr config \<longleftrightarrow> (\<exists>contents root listen spot usdm keys.
      read_config_file env path = Inr contents \<and> parse_strict_json env contents = Inr root
      \<and> validate_keys root = None \<and> check_listen env root = Inr listen
      \<and> symbols root ''spot_symbols'' = Inr spot \<and> symbols root ''usdm_symbols'' = Inr usdm
      \<and> check_market_keys env (map spot_key spot @ map usdm_key usdm) = Inr keys
      \<and> config = \<lparr>dc_grpc_listen = listen, dc_market_keys = keys\<rparr>)"
    by (auto simp: load_daemon_config_def split: sum.split option.split)
  also have "\<dots> \<longleftrightarrow> (\<exists>listen spot usdm. config_file env path listen spot usdm \<and> config_good env listen spot usdm
       \<and> config = \<lparr>dc_grpc_listen = listen, dc_market_keys =
           sort_keyed (da_numbers env) id (map spot_key spot @ map usdm_key usdm)\<rparr>)" (is "?L \<longleftrightarrow> ?R")
  proof
    assume ?L
    then obtain contents root listen spot usdm keys where
      l: "read_config_file env path = Inr contents" "parse_strict_json env contents = Inr root"
        "validate_keys root = None" "check_listen env root = Inr listen"
        "symbols root ''spot_symbols'' = Inr spot" "symbols root ''usdm_symbols'' = Inr usdm"
        "check_market_keys env (map spot_key spot @ map usdm_key usdm) = Inr keys"
        "config = \<lparr>dc_grpc_listen = listen, dc_market_keys = keys\<rparr>"
      by blast
    note l = l [unfolded passes keys_passes [OF assms] keys_distinct]
    from l(3) obtain members where m: "root = JObject members" "fst ` set members = set required_keys" by blast
    have "config_file env path listen spot usdm"
      using l(1,2,4-6) m unfolding config_file_def json_find_def required_keys_def by auto
    moreover have "config_good env listen spot usdm"
      using l(4-7) by (auto simp: config_good_def kMaximumConfiguredProducts_def Suc_le_eq)
    ultimately show ?R using l(7,8) by blast
  next
    assume ?R
    then obtain listen spot usdm where
      r: "config_file env path listen spot usdm" "config_good env listen spot usdm"
        "config = \<lparr>dc_grpc_listen = listen, dc_market_keys =
           sort_keyed (da_numbers env) id (map spot_key spot @ map usdm_key usdm)\<rparr>"
      by blast
    from r(1) obtain contents keys members where
      f: "da_open env path = Some (contents, False)" "length contents \<le> kMaximumDaemonConfigBytes"
        "da_parse env contents = Some (keys, JObject members)" "distinct keys"
        "fst ` set members = set required_keys" "json_find (JObject members) ''grpc_listen'' = Some (JString listen)"
        "json_find (JObject members) ''spot_symbols'' = Some (JArray (map JString spot))"
        "json_find (JObject members) ''usdm_symbols'' = Some (JArray (map JString usdm))"
      by (auto simp: config_file_def json_find_def required_keys_def)
    have "check_market_keys env (map spot_key spot @ map usdm_key usdm)
        = Inr (sort_keyed (da_numbers env) id (map spot_key spot @ map usdm_key usdm))"
      unfolding keys_passes [OF assms] keys_distinct
      using r(2) by (auto simp: config_good_def kMaximumConfiguredProducts_def)
    moreover have "read_config_file env path = Inr contents" using f(1,2) by (simp add: passes)
    moreover have "parse_strict_json env contents = Inr (JObject members)" using f(3,4) by (simp add: passes)
    moreover have "validate_keys (JObject members) = None" using f(5) by (simp add: passes)
    moreover have "check_listen env (JObject members) = Inr listen"
      using f(6) r(2) by (simp add: passes config_good_def)
    moreover have "symbols (JObject members) ''spot_symbols'' = Inr spot"
        "symbols (JObject members) ''usdm_symbols'' = Inr usdm"
      using f(7,8) r(2) by (simp_all add: symbols_passes config_good_def)
    ultimately show ?L using r(3) by blast
  qed
  finally show ?thesis .
qed

text \<open>C35: the daemon accepts a configuration file exactly if it can be read and has at most 64 KiB, is a JSON
  object with precisely the three known keys and no repeated one, names a numeric loopback endpoint,
  and lists between one and eight products, none twice in its market; the configuration then
  consists of that endpoint and of those products in the canonical order.\<close>

theorem config_accepted_iff:
  assumes "distinct_numbers (da_numbers env)"
  shows "load_daemon_config env path = Inr config \<longleftrightarrow>
    (\<exists>listen spot usdm. config_file env path listen spot usdm \<and> config_good env listen spot usdm
       \<and> config = \<lparr>dc_grpc_listen = listen, dc_market_keys =
           sort_keyed (da_numbers env) id (map spot_key spot @ map usdm_key usdm)\<rparr>)"
  by (rule load_iff [OF assms])

text \<open>A configuration file for both markets.\<close>

definition example_environment :: daemon_environment where
  "example_environment =
     \<lparr>da_open = (\<lambda>path. if path = ''gw.json'' then Some (''contents'', False) else None),
      da_parse = (\<lambda>_. Some ([''usdm_symbols'', ''grpc_listen'', ''spot_symbols''], JObject
        [(''usdm_symbols'', JArray [JString ''BTCUSDT'']), (''grpc_listen'', JString ''127.0.0.1:50051''),
         (''spot_symbols'', JArray [JString ''ETHUSDT'', JString ''BTCUSDT''])])),
      da_make_address = (\<lambda>host. if host = ''127.0.0.1'' then Some (True, False) else None),
      da_numbers = example_numbers\<rparr>"

definition example_loaded :: daemon_config where
  "example_loaded = \<lparr>dc_grpc_listen = ''127.0.0.1:50051'',
     dc_market_keys = [spot_key ''BTCUSDT'', spot_key ''ETHUSDT'', usdm_key ''BTCUSDT'']\<rparr>"

lemma example_file:
  "config_file example_environment ''gw.json'' ''127.0.0.1:50051'' [''ETHUSDT'', ''BTCUSDT''] [''BTCUSDT'']"
  by (auto simp: config_file_def example_environment_def kMaximumDaemonConfigBytes_def)

lemma example_good:
  "config_good example_environment ''127.0.0.1:50051'' [''ETHUSDT'', ''BTCUSDT''] [''BTCUSDT'']"
proof -
  have "\<not> isl (parse_listen_endpoint ''127.0.0.1:50051'')"
    "valid_loopback_listen_address (da_make_address example_environment) ''127.0.0.1:50051'' False"
    by (simp_all add: parse_listen_endpoint_def parse_port_def from_chars_whole_eq is_digit_def digits_value_def
        digit_val_def valid_host_token_def kMaxHostLength_def hostname_character_def between_def
        valid_loopback_listen_address_def starts_with_def ends_with_def example_environment_def Let_def)
  then show ?thesis by (simp add: config_good_def)
qed

lemma example_numbers_used: "distinct_numbers (da_numbers example_environment)"
  by (simp add: example_environment_def example_numbers_distinct)

lemma example_loaded_sorted: "example_loaded = \<lparr>dc_grpc_listen = ''127.0.0.1:50051'', dc_market_keys =
    sort_keyed (da_numbers example_environment) id
      (map spot_key [''ETHUSDT'', ''BTCUSDT''] @ map usdm_key [''BTCUSDT''])\<rparr>"
  by code_simp

lemma example_loads: "load_daemon_config example_environment ''gw.json'' = Inr example_loaded"
  unfolding load_iff [OF example_numbers_used] example_loaded_sorted using example_file example_good by blast

theorem config_accepted_iff_witness:
  "load_daemon_config example_environment ''gw.json'' = Inr example_loaded"
  unfolding config_accepted_iff [OF example_numbers_used] example_loaded_sorted
  using example_file example_good by blast

end
