(* ===== verification/ProductionMetadata.thy ===== *)
theory ProductionMetadata
  imports DaemonConfig MetadataRequest UsdmProtocol TransportRoutes
begin

text \<open>
  The instrument metadata of the configured products, \<open>src/src/production/production_metadata.{hpp,cpp}\<close>,
  and that a configuration which was accepted and whose metadata was acquired can be constructed. The JSON
  parser and \<open>DecimalScale::create\<close> are parameters.
\<close>

section \<open>Acquisition\<close>

datatype metadata_stage = SpotFetch | SpotParse | UsdMFetch | UsdMParse

text \<open>The numeric specification of a product is the pair of scales its metadata was read for.\<close>

record 'd resolved_product_spec =
  rp_key :: market_key
  rp_numeric_spec :: "'d spot_metadata"

record metadata_failure =
  me_stage :: metadata_stage
  me_product :: "market_key option"
  me_message :: string

definition network_message :: "network_error \<Rightarrow> string" where
  "network_message err = ne_stage err @ '': '' @ ne_message err"

definition protocol_message :: "protocol_error \<Rightarrow> string" where
  "protocol_message err = pe_field err @ '': '' @ pe_message err"

text \<open>What the acquisition calls: \<open>parse\<close> and \<open>create\<close>, and the answers of the two requests.\<close>

record 'd metadata_sources =
  ms_parse :: "string \<Rightarrow> parsed_json"
  ms_create :: "u32 \<Rightarrow> 'd option"
  ms_spot_fetch :: exchange_info_result
  ms_usdm_fetch :: exchange_info_result

definition has_market :: "market_key list \<Rightarrow> wire_market \<Rightarrow> bool" where
  "has_market keys market \<longleftrightarrow> list_ex (\<lambda>key. mk_market key = market) keys"

text \<open>The body for a market; it is only requested when a product needs it.\<close>

definition fetch_body ::
  "market_key list \<Rightarrow> wire_market \<Rightarrow> metadata_stage \<Rightarrow> exchange_info_result
     \<Rightarrow> metadata_failure + string option" where
  "fetch_body keys market stage response =
     (if has_market keys market
      then (case response of
              Inl err \<Rightarrow> Inl \<lparr>me_stage = stage, me_product = None, me_message = network_message err\<rparr>
            | Inr info \<Rightarrow> Inr (Some (ei_body info)))
      else Inr None)"

text \<open>\<open>Inr\<close> with \<open>None\<close> as the body stands for reading an empty \<open>optional\<close>; it does not occur.\<close>

definition resolve_product ::
  "'d metadata_sources \<Rightarrow> string option \<Rightarrow> string option \<Rightarrow> market_key
     \<Rightarrow> metadata_failure + 'd resolved_product_spec" where
  "resolve_product sources spot_body usdm_body key =
     (let failed = (\<lambda>stage message.
            Inl \<lparr>me_stage = stage, me_product = Some key, me_message = message\<rparr>) in
      if mk_venue key \<noteq> VENUE_BINANCE then failed SpotParse ''unsupported configured venue''
      else if mk_market key = MARKET_SPOT then
        (if make_spot_transport_routes (mk_symbol key) = None
         then failed SpotParse ''Spot symbol cannot be represented by a Binance route''
         else (case parse_exchange_info (ms_parse sources) (ms_create sources) (the spot_body) (mk_symbol key) of
                 Inl err \<Rightarrow> failed SpotParse (protocol_message err)
               | Inr metadata \<Rightarrow> Inr \<lparr>rp_key = key, rp_numeric_spec = metadata\<rparr>))
      else if mk_market key = MARKET_USD_M_PERPETUAL then
        (if make_usdm_transport_routes (mk_symbol key) = None
         then failed UsdMParse ''USD-M symbol cannot be represented by a Binance route''
         else (case parse_usdm_exchange_info (ms_parse sources) (ms_create sources) (the usdm_body) (mk_symbol key) of
                 Inl err \<Rightarrow> failed UsdMParse (protocol_message err)
               | Inr metadata \<Rightarrow> Inr \<lparr>rp_key = key, rp_numeric_spec = metadata\<rparr>))
      else failed SpotParse ''unsupported configured market'')"

fun resolve_products ::
  "'d metadata_sources \<Rightarrow> string option \<Rightarrow> string option \<Rightarrow> market_key list
     \<Rightarrow> metadata_failure + 'd resolved_product_spec list" where
  "resolve_products sources spot_body usdm_body [] = Inr []"
| "resolve_products sources spot_body usdm_body (key # keys) =
     (case resolve_product sources spot_body usdm_body key of
        Inl failure \<Rightarrow> Inl failure
      | Inr product \<Rightarrow>
          (case resolve_products sources spot_body usdm_body keys of
             Inl failure \<Rightarrow> Inl failure
           | Inr products \<Rightarrow> Inr (product # products)))"

definition acquire_production_metadata ::
  "enum_numbers \<Rightarrow> market_key list \<Rightarrow> 'd metadata_sources
     \<Rightarrow> metadata_failure + 'd resolved_product_spec list" where
  "acquire_production_metadata en market_keys sources =
     (case fetch_body market_keys MARKET_SPOT SpotFetch (ms_spot_fetch sources) of
        Inl failure \<Rightarrow> Inl failure
      | Inr spot_body \<Rightarrow>
          (case fetch_body market_keys MARKET_USD_M_PERPETUAL UsdMFetch (ms_usdm_fetch sources) of
             Inl failure \<Rightarrow> Inl failure
           | Inr usdm_body \<Rightarrow> resolve_products sources spot_body usdm_body (sort_keyed en id market_keys)))"

definition make_product_runtime_specs ::
  "enum_numbers \<Rightarrow> 'd resolved_product_spec list \<Rightarrow> 'd spot_metadata product_spec list" where
  "make_product_runtime_specs en products =
     map (\<lambda>product. \<lparr>px_key = rp_key product, px_numeric_spec = rp_numeric_spec product,
            px_options = default_product_options\<rparr>) (sort_keyed en rp_key products)"

fun metadata_stage_name :: "metadata_stage \<Rightarrow> string" where
  "metadata_stage_name SpotFetch = ''spot-fetch''"
| "metadata_stage_name SpotParse = ''spot-parse''"
| "metadata_stage_name UsdMFetch = ''usdm-fetch''"
| "metadata_stage_name UsdMParse = ''usdm-parse''"

section \<open>What was resolved\<close>

lemma resolve_product_ok:
  assumes "resolve_product sources spot usdm key = Inr product"
  shows "rp_key product = key \<and> product_key_ok key"
  using assms
  by (auto simp: resolve_product_def Let_def product_key_ok_def make_spot_transport_routes_def
      make_usdm_transport_routes_def usdm_stream_symbol_def split: if_splits sum.splits option.splits)

lemma resolve_products_ok:
  "resolve_products sources spot usdm keys = Inr products \<Longrightarrow>
     map rp_key products = keys \<and> list_all product_key_ok keys"
  by (induction keys arbitrary: products)
    (auto split: sum.splits dest: resolve_product_ok)

lemma map_insert_keyed: "map key (insert_keyed en key e xs) = insert_keyed en id (key e) (map key xs)"
  by (induction xs) simp_all

lemma map_sort_keyed: "map key (sort_keyed en key xs) = sort_keyed en id (map key xs)"
  by (induction xs) (simp_all add: sort_keyed_def map_insert_keyed id_def)

lemma default_limits_ok: "limits_ok default_product_options"
  by (simp add: limits_ok_def default_product_options_def default_publication_limits_def Let_def
      kMaximumActiveEventSubscriptions_def kEventOrdinaryQueueCapacity_def kPlannedRotationAge_def)

lemma accepted_products_construct:
  assumes "distinct_numbers (da_numbers env)" and "load_daemon_config env path = Inr config"
    and "acquire_production_metadata (da_numbers env) (dc_market_keys config) sources = Inr products"
    and "cn_has_clock cn" and "cn_gateway_instance_id cn \<noteq> []"
  shows "\<exists>owners. make_product_set (da_numbers env) cn (make_product_runtime_specs (da_numbers env) products)
      = Some (owners :: ('p, 'g, 's) product_set)
    \<and> map pd_key (pset_owners owners) = dc_market_keys config
    \<and> (\<forall>key. set_find owners key \<noteq> None \<longleftrightarrow> key \<in> set (dc_market_keys config))"
proof -
  let ?en = "da_numbers env"
  let ?keys = "dc_market_keys config"
  let ?specs = "make_product_runtime_specs ?en products"
  obtain listen spot usdm where good: "config_good env listen spot usdm"
    and keys: "?keys = sort_keyed ?en id (map spot_key spot @ map usdm_key usdm)"
    using assms(2) unfolding load_iff [OF assms(1)] by auto
  have len: "?keys \<noteq> []" "length ?keys \<le> kMaximumConfiguredProducts"
    using good by (auto simp: keys config_good_def kMaximumConfiguredProducts_def simp flip: length_greater_0_conv)
  have "distinct (map spot_key spot @ map usdm_key usdm)"
    unfolding keys_distinct using good by (simp add: config_good_def)
  then have dist: "distinct ?keys" by (simp add: keys mset_eq_imp_distinct_iff [OF mset_sort_keyed])
  have same: "sort_keyed ?en id ?keys = ?keys"
    using dist unfolding keys by (intro sort_keyed_unique [OF assms(1)]) simp_all
  obtain spot_body usdm_body where "resolve_products sources spot_body usdm_body ?keys = Inr products"
    using assms(3) by (auto simp: acquire_production_metadata_def same split: sum.splits)
  from resolve_products_ok [OF this] have products: "map rp_key products = ?keys" "list_all product_key_ok ?keys"
    by simp_all
  have specs: "mset (map px_key ?specs) = mset ?keys"
    by (simp add: make_product_runtime_specs_def comp_def flip: products(1))
  then have set: "px_key ` set ?specs = set ?keys" by (metis list.set_map mset_eq_setD)
  have dist_specs: "distinct (map px_key ?specs)" using specs dist by (metis mset_eq_imp_distinct_iff)
  have "length ?specs = length ?keys" using specs by (metis length_map mset_eq_length)
  with len have bounds: "?specs \<noteq> []" "length ?specs \<le> kMaximumConfiguredProducts" by auto
  have "product_key_ok (px_key spec)" if "spec \<in> set ?specs" for spec
    using that set products(2) by (auto simp: list_all_iff)
  then have "list_all (constructible cn) ?specs"
    using assms(4,5)
    by (auto simp: list_all_iff constructible_def make_product_runtime_specs_def default_limits_ok)
  then have "construct_owners cn 0 (sort_keyed ?en px_key ?specs) \<noteq> (None :: ('p, 'g, 's) product list option)"
    by (simp only: construct_owners_iff list_all_iff set_sort_keyed)
  then obtain built :: "('p, 'g, 's) product list" where
    built: "construct_owners cn 0 (sort_keyed ?en px_key ?specs) = Some built" by auto
  let ?owners = "\<lparr>pset_owners = built, pset_registry = make_registry_entries built\<rparr>"
  have made: "make_product_set ?en cn ?specs = Some ?owners"
    using bounds dist_specs built by (simp add: make_product_set_iff [OF assms(1)])
  have "map pd_key built = sort_keyed ?en id (map px_key ?specs)"
    unfolding construct_owners_keys [OF built] map_sort_keyed ..
  also have "\<dots> = ?keys"
    using sort_keyed_unique [OF assms(1) specs] dist_specs same by simp
  finally have built_keys: "map pd_key built = ?keys" .
  have "set_find ?owners key \<noteq> None \<longleftrightarrow> key \<in> set ?keys" for key
    unfolding built_keys [symmetric] by (auto simp: set_find_def find_None_iff in_set_conv_nth intro!: imageI)
  with made built_keys show ?thesis by auto
qed

text \<open>C36: what is configured and resolved can be built: if the configuration was accepted and the metadata of
  its products was acquired, the specifications made from them construct a product set, which has
  exactly the configured products, in the configured order, under the configured keys.\<close>

theorem accepted_config_constructs:
  assumes "distinct_numbers (da_numbers env)" and "load_daemon_config env path = Inr config"
    and "acquire_production_metadata (da_numbers env) (dc_market_keys config) sources = Inr products"
    and "cn_has_clock cn" and "cn_gateway_instance_id cn \<noteq> []"
  shows "\<exists>owners. make_product_set (da_numbers env) cn (make_product_runtime_specs (da_numbers env) products)
      = Some (owners :: ('p, 'g, 's) product_set)
    \<and> map pd_key (pset_owners owners) = dc_market_keys config
    \<and> (\<forall>key. set_find owners key \<noteq> None \<longleftrightarrow> key \<in> set (dc_market_keys config))"
  by (rule accepted_products_construct [OF assms])

text \<open>The three products of the example, with the answers of both exchanges.\<close>

definition example_symbol :: "string \<Rightarrow> json" where
  "example_symbol symbol = JObject
     [(''symbol'', JString symbol), (''status'', JString ''TRADING''), (''isSpotTradingAllowed'', JBool True),
      (''contractType'', JString ''PERPETUAL''),
      (''filters'', JArray
        [JObject [(''filterType'', JString ''PRICE_FILTER''), (''tickSize'', JString ''0.01'')],
         JObject [(''filterType'', JString ''LOT_SIZE''), (''stepSize'', JString ''0.1'')]])]"

definition example_sources :: "u32 metadata_sources" where
  "example_sources =
     \<lparr>ms_parse = (\<lambda>_. Parsed (JObject
        [(''symbols'', JArray [example_symbol ''BTCUSDT'', example_symbol ''ETHUSDT''])])),
      ms_create = Some, ms_spot_fetch = Inr \<lparr>ei_body = ''spot'', ei_tls_verified = True\<rparr>,
      ms_usdm_fetch = Inr \<lparr>ei_body = ''usdm'', ei_tls_verified = True\<rparr>\<rparr>"

definition example_resolved :: "u32 resolved_product_spec list" where
  "example_resolved = map (\<lambda>key. \<lparr>rp_key = key, rp_numeric_spec = \<lparr>sm_tick_size = ''0.01'', sm_step_size = ''0.1'',
     sm_price_scale = 2, sm_quantity_scale = 1\<rparr>\<rparr>) (dc_market_keys example_loaded)"

lemma example_acquired:
  "acquire_production_metadata (da_numbers example_environment) (dc_market_keys example_loaded) example_sources
     = Inr example_resolved"
  by code_simp

definition example_daemon_construction :: "(u32 spot_metadata, nat) construction" where
  "example_daemon_construction =
     \<lparr>cn_new_projection = (\<lambda>_ _. 0), cn_has_clock = True, cn_gateway_instance_id = ''gw'',
      cn_owner_thread = (\<lambda>i. i + 1)\<rparr>"

theorem accepted_config_constructs_witness:
  "\<exists>owners :: (nat, unit, nat) product_set.
     make_product_set (da_numbers example_environment) example_daemon_construction
       (make_product_runtime_specs (da_numbers example_environment) example_resolved) = Some owners
     \<and> map pd_key (pset_owners owners) = dc_market_keys example_loaded"
proof -
  have "load_daemon_config example_environment ''gw.json'' = Inr example_loaded" by (rule example_loads)
  from accepted_config_constructs [OF example_numbers_used this example_acquired, of example_daemon_construction]
  show ?thesis by (auto simp: example_daemon_construction_def)
qed

end
