(* ===== verification/DaemonService.thy ===== *)
theory DaemonService
  imports DaemonDiagnostics ProductionMetadata GrpcServer
begin

text \<open>
  The daemon: its termination signals (\<open>src/src/production/termination_signals.{hpp,cpp}\<close>), one run of its
  service (the second part of \<open>src/src/production/daemon_runtime.cpp\<close>) and the program
  \<open>src/app/gatewayd/main.cpp\<close>. The build is the default one, without the performance baseline.
\<close>

section \<open>Termination signals\<close>

datatype posix_signal = SIGINT | SIGTERM | SIGUSR1 | OtherSignal int

datatype sigwait_result = SwReceived posix_signal | SwFailed

text \<open>\<open>signal_\<close>: \<open>0\<close>, the number of a signal, and \<open>-1\<close>.\<close>

datatype signal_seen = NoSignal | SignalSeen posix_signal | SignalWaitError

record termination_signals =
  tg_requested :: bool
  tg_signal :: signal_seen
  tg_stop_token :: bool
  tg_looping :: bool

text \<open>The constructor; \<open>None\<close> is its exception, if the signals cannot be blocked or the thread not created.\<close>

definition make_termination_signals :: "bool \<Rightarrow> bool \<Rightarrow> termination_signals option" where
  "make_termination_signals blocked thread_created =
     (if \<not> blocked \<or> \<not> thread_created then None
      else Some \<lparr>tg_requested = False, tg_signal = NoSignal, tg_stop_token = False, tg_looping = True\<rparr>)"

text \<open>One round of the waiting thread, from the return of \<open>sigwait\<close> to its next call.\<close>

definition signal_loop :: "sigwait_result \<Rightarrow> termination_signals \<Rightarrow> termination_signals" where
  "signal_loop r st =
     (if \<not> tg_looping st then st
      else case r of
        SwReceived received \<Rightarrow>
          let st = (if received \<in> {SIGINT, SIGTERM} \<and> \<not> tg_requested st
                    then st\<lparr>tg_requested := True, tg_signal := SignalSeen received\<rparr> else st)
          in st\<lparr>tg_looping := \<not> tg_stop_token st\<rparr>
      | SwFailed \<Rightarrow> st\<lparr>tg_requested := True, tg_signal := SignalWaitError, tg_looping := False\<rparr>)"

text \<open>\<open>None\<close>: the caller is still waiting.\<close>

definition signals_wait :: "termination_signals \<Rightarrow> signal_seen option" where
  "signals_wait st = (if tg_requested st then Some (tg_signal st) else None)"

definition signals_destroy :: "termination_signals \<Rightarrow> termination_signals" where
  "signals_destroy st = signal_loop (SwReceived SIGUSR1) (st\<lparr>tg_stop_token := True\<rparr>)"

section \<open>What a gateway shows\<close>

record 'g gateway_view =
  gv_selected_port :: int
  gv_tracked_contexts :: nat
  gv_products :: "(market_key \<times> 'g product_view \<times> event_publication_observation) list"

record 'g gateway_observation =
  go_state :: gateway_state
  go_selected_port :: int
  go_tracked_contexts :: nat
  go_context_limit :: nat
  go_products :: "'g product_observation list"

definition gateway_observe :: "production_gateway \<Rightarrow> 'g gateway_view \<Rightarrow> 'g gateway_observation option" where
  "gateway_observe gateway view =
     map_option (\<lambda>products.
         \<lparr>go_state = gy_state gateway, go_selected_port = gv_selected_port view,
          go_tracked_contexts = gv_tracked_contexts view, go_context_limit = kMaximumGrpcTrackedContexts,
          go_products = products\<rparr>)
       (observe_products (gv_products view))"

record gateway_totals =
  gt_transports :: nat
  gt_subscriptions :: nat
  gt_owners_joined :: bool

definition totals :: "'g gateway_observation \<Rightarrow> gateway_totals" where
  "totals observation =
     foldl (\<lambda>result product.
         \<lparr>gt_transports = gt_transports result + ro_active_transport_count (po_recovery product),
          gt_subscriptions = gt_subscriptions result + (ob_resident_subscription_count (po_runtime product)
            + eo_active_subscriptions (po_events product)),
          gt_owners_joined = (gt_owners_joined result \<and> ob_owner_joined (po_runtime product))\<rparr>)
       \<lparr>gt_transports = 0, gt_subscriptions = 0, gt_owners_joined = True\<rparr> (go_products observation)"

definition legacy_performance_composition :: "market_key list \<Rightarrow> bool" where
  "legacy_performance_composition market_keys \<longleftrightarrow>
     length market_keys = 2 \<and> market_keys ! 0 = spot_btcusdt_key \<and> market_keys ! 1 = usdm_btcusdt_key"

text \<open>The first argument is the value of the environment variable; the answer comes with what is written.\<close>

definition performance_baseline_preflight :: "string option \<Rightarrow> daemon_config \<Rightarrow> bool \<times> string" where
  "performance_baseline_preflight path config =
     (if path \<noteq> None \<and> path \<noteq> Some [] \<and> \<not> legacy_performance_composition (dc_market_keys config)
      then (False, ''performance_baseline_export=unsupported reason=composition'' @ [CHR 0x0A])
      else (True, []))"

section \<open>One run of the service\<close>

definition EXIT_SUCCESS :: int where
  "EXIT_SUCCESS = 0"

definition EXIT_FAILURE :: int where
  "EXIT_FAILURE = 1"

text \<open>How far a run has come: to an exit status, to an exception, or not to its end.\<close>

datatype service_exit = Exit int | ServiceThrew | StillRunning

text \<open>\<open>sr_started\<close> is what \<open>start\<close> returned, \<open>sr_gateway\<close> the gateway at the end.\<close>

record service_result =
  sr_exit :: service_exit
  sr_output :: string
  sr_errors :: string
  sr_started :: "gateway_start_result option"
  sr_gateway :: "production_gateway option"

text \<open>
  What a run meets. The signals come with the step of the lifecycle they precede, or arrive during the wait;
  \<open>sv_stop\<close> and \<open>sv_destroy\<close> are as many steps of \<open>stop\<close> and of the destructor as have been made.
\<close>

record 'g service_world =
  sv_baseline_output :: "string option"
  sv_entropy :: "u32 list"
  sv_make_address :: "string \<Rightarrow> (bool \<times> bool) option"
  sv_server_made :: bool
  sv_startup :: "(sigwait_result list \<times> 'g startup_world) list"
  sv_observed :: "'g gateway_view"
  sv_waited :: "sigwait_result list"
  sv_stop :: "'g startup_world list"
  sv_final :: "'g gateway_view"
  sv_destroy :: "'g startup_world list"

text \<open>\<open>start\<close> asks \<open>signals.requested()\<close> at each step, and nobody else calls this gateway.\<close>

fun meet_signals ::
  "(sigwait_result list \<times> 'g startup_world) list \<Rightarrow> termination_signals
     \<Rightarrow> 'g startup_world list \<times> termination_signals" where
  "meet_signals [] signals = ([], signals)"
| "meet_signals ((received, w) # rest) signals =
     (let signals = fold signal_loop received signals;
          (ws, last) = meet_signals rest signals
      in (w\<lparr>sw_external := Some (tg_requested signals), sw_request_stop := False\<rparr> # ws, last))"

definition stopped_counts :: "'g gateway_observation \<Rightarrow> string" where
  "stopped_counts final =
     '' contexts='' @ nat_digits (go_tracked_contexts final)
     @ '' transports='' @ nat_digits (gt_transports (totals final))
     @ '' subscriptions='' @ nat_digits (gt_subscriptions (totals final))
     @ '' owners_joined='' @ yes_no (gt_owners_joined (totals final)) @ [CHR 0x0A]"

text \<open>Leaving the function destroys the gateway, which stops it.\<close>

definition service_end ::
  "'g service_world \<Rightarrow> service_exit \<Rightarrow> string \<Rightarrow> string \<Rightarrow> gateway_start_result option \<Rightarrow> production_gateway
     \<Rightarrow> service_result" where
  "service_end w result output errors started gateway =
     (let gateway = gateway_works (sv_destroy w) (gateway_stop_begin gateway) in
      \<lparr>sr_exit = (if gy_phase gateway \<noteq> GpIdle then StillRunning else result), sr_output = output,
       sr_errors = errors, sr_started = started, sr_gateway = Some gateway\<rparr>)"

definition service_running :: "string \<Rightarrow> gateway_start_result option \<Rightarrow> production_gateway \<Rightarrow> service_result" where
  "service_running output started gateway =
     \<lparr>sr_exit = StillRunning, sr_output = output, sr_errors = [], sr_started = started, sr_gateway = Some gateway\<rparr>"

definition service_threw :: "string \<Rightarrow> service_result" where
  "service_threw output =
     \<lparr>sr_exit = ServiceThrew, sr_output = output, sr_errors = [], sr_started = None, sr_gateway = None\<rparr>"

definition service_not_serving ::
  "'g report_sources \<Rightarrow> 'g service_world \<Rightarrow> string \<Rightarrow> gateway_start_result \<Rightarrow> production_gateway \<Rightarrow> service_result" where
  "service_not_serving rs w output started gateway =
     (case gateway_observe gateway (sv_observed w) of
        None \<Rightarrow> service_end w ServiceThrew output [] (Some started) gateway
      | Some final \<Rightarrow>
          if gs_code started = ScStopRequested
          then service_end w (Exit EXIT_SUCCESS)
                 (output @ ''gateway_state=stopped startup_result='' @ start_code_name (gs_code started)
                  @ stopped_counts final) [] (Some started) gateway
          else service_end w (Exit EXIT_FAILURE) output
                 (''gateway_start=failed reason='' @ start_code_name (gs_code started)
                  @ (case gs_product started of Some key \<Rightarrow> write_product_identity rs key | None \<Rightarrow> [])
                  @ [CHR 0x0A] @ write_recovery_failure_diagnostics rs (go_products final))
                 (Some started) gateway)"

fun signal_name :: "signal_seen \<Rightarrow> string" where
  "signal_name (SignalSeen SIGINT) = ''SIGINT''"
| "signal_name (SignalSeen SIGTERM) = ''SIGTERM''"
| "signal_name _ = ''signal-wait-error''"

definition service_stopping ::
  "'g report_sources \<Rightarrow> 'g service_world \<Rightarrow> string \<Rightarrow> gateway_start_result \<Rightarrow> signal_seen \<Rightarrow> production_gateway
     \<Rightarrow> service_result" where
  "service_stopping rs w output started received gateway =
     (let output = output @ ''gateway_state=stopping signal='' @ signal_name received @ [CHR 0x0A];
          gateway = gateway_works (sv_stop w) (gateway_stop_begin (request_stop gateway))
      in if gy_phase gateway \<noteq> GpIdle then service_running output (Some started) gateway
         else case gateway_observe gateway (sv_final w) of
           None \<Rightarrow> service_end w ServiceThrew output [] (Some started) gateway
         | Some final \<Rightarrow>
             service_end w (Exit (if received = SignalWaitError then EXIT_FAILURE else EXIT_SUCCESS))
               (output @ ''gateway_state=stopped'' @ stopped_counts final)
               (write_recovery_failure_diagnostics rs (go_products final)) (Some started) gateway)"

definition service_serving ::
  "'g report_sources \<Rightarrow> 'g service_world \<Rightarrow> nat \<Rightarrow> string \<Rightarrow> string \<Rightarrow> gateway_start_result \<Rightarrow> termination_signals
     \<Rightarrow> production_gateway \<Rightarrow> service_result" where
  "service_serving rs w product_count instance_id output started signals gateway =
     (case gateway_observe gateway (sv_observed w) of
        None \<Rightarrow> service_end w ServiceThrew output [] (Some started) gateway
      | Some observation \<Rightarrow>
          let output = output @ ''gateway_state=serving products='' @ nat_digits product_count
                @ '' grpc_port='' @ int_digits (go_selected_port observation)
                @ '' context_limit='' @ nat_digits (go_context_limit observation)
                @ '' gateway_instance_id='' @ instance_id @ [CHR 0x0A]
          in case signals_wait (fold signal_loop (sv_waited w) signals) of
               None \<Rightarrow> service_running output (Some started) gateway
             | Some received \<Rightarrow> service_stopping rs w output started received gateway)"

text \<open>\<open>cn\<close> is what the construction of the products gets from outside, without the identity of the gateway.\<close>

definition service_gateway ::
  "enum_numbers \<Rightarrow> ('n, 'p) construction \<Rightarrow> daemon_config \<Rightarrow> 'n product_spec list \<Rightarrow> 'g service_world
     \<Rightarrow> production_gateway option" where
  "service_gateway en cn config specifications w =
     (case make_product_set en (cn\<lparr>cn_gateway_instance_id := generate_gateway_instance_id (sv_entropy w)\<rparr>)
             specifications :: ('p, 'g, unit) product_set option of
        None \<Rightarrow> None
      | Some products \<Rightarrow>
          if \<not> sv_server_made w then None
          else make_gateway (sv_make_address w) (dc_grpc_listen config) False kInitialStartupTimeout True)"

definition run_production_service ::
  "enum_numbers \<Rightarrow> ('n, 'p) construction \<Rightarrow> 'g report_sources \<Rightarrow> daemon_config \<Rightarrow> 'n product_spec list
     \<Rightarrow> termination_signals \<Rightarrow> 'g service_world \<Rightarrow> service_result" where
  "run_production_service en cn rs config specifications signals w =
     (case performance_baseline_preflight (sv_baseline_output w) config of
        (False, message) \<Rightarrow>
          \<lparr>sr_exit = Exit EXIT_FAILURE, sr_output = [], sr_errors = message, sr_started = None, sr_gateway = None\<rparr>
      | (True, _) \<Rightarrow>
          let instance_id = generate_gateway_instance_id (sv_entropy w);
              product_count = length specifications;
              output = ''gateway_state=starting stage=runtime products='' @ nat_digits product_count
                @ '' grpc_listen='' @ dc_grpc_listen config @ [CHR 0x0A]
          in case service_gateway en cn config specifications w of
               None \<Rightarrow> service_threw output
             | Some gateway \<Rightarrow>
                 let (ws, signals) = meet_signals (sv_startup w) signals;
                     gateway = gateway_works ws (gateway_start_begin gateway)
                 in if gy_phase gateway \<noteq> GpIdle then service_running output None gateway
                    else case gy_returned gateway of
                        Some (Some started) \<Rightarrow>
                          if gs_code started \<noteq> ScServing then service_not_serving rs w output started gateway
                          else service_serving rs w product_count instance_id output started signals gateway
                      | _ \<Rightarrow> service_end w ServiceThrew output [] None gateway)"

section \<open>The program\<close>

text \<open>What the program meets before its service runs, and the text of an exception that reaches it.\<close>

record 'g daemon_world =
  dw_signals_blocked :: bool
  dw_thread_created :: bool
  dw_metadata_signals :: "sigwait_result list"
  dw_service :: "'g service_world"
  dw_what :: string

definition program_ends :: "int \<Rightarrow> string \<Rightarrow> string \<Rightarrow> service_result" where
  "program_ends status output errors =
     \<lparr>sr_exit = Exit status, sr_output = output, sr_errors = errors, sr_started = None, sr_gateway = None\<rparr>"

definition gateway_fatal :: "'g daemon_world \<Rightarrow> string" where
  "gateway_fatal w = ''gateway_fatal='' @ dw_what w @ [CHR 0x0A]"

definition metadata_failed :: "'g report_sources \<Rightarrow> metadata_failure \<Rightarrow> string" where
  "metadata_failed rs failure =
     ''metadata=failed stage='' @ metadata_stage_name (me_stage failure)
     @ (case me_product failure of Some key \<Rightarrow> write_product_identity rs key | None \<Rightarrow> [])
     @ '' message='' @ me_message failure @ [CHR 0x0A]"

definition run_daemon ::
  "enum_numbers \<Rightarrow> ('d spot_metadata, 'p) construction \<Rightarrow> 'g report_sources \<Rightarrow> 'd metadata_sources \<Rightarrow> 'g daemon_world
     \<Rightarrow> daemon_config \<Rightarrow> service_result" where
  "run_daemon en cn rs sources w config =
     (case performance_baseline_preflight (sv_baseline_output (dw_service w)) config of
        (False, message) \<Rightarrow> program_ends EXIT_FAILURE [] message
      | (True, _) \<Rightarrow>
          case make_termination_signals (dw_signals_blocked w) (dw_thread_created w) of
            None \<Rightarrow> program_ends EXIT_FAILURE [] (gateway_fatal w)
          | Some signals \<Rightarrow>
              let output = ''gateway_state=starting stage=metadata products=''
                    @ nat_digits (length (dc_market_keys config)) @ [CHR 0x0A];
                  signals = fold signal_loop (dw_metadata_signals w) signals
              in case acquire_production_metadata en (dc_market_keys config) sources of
                   Inl failure \<Rightarrow> program_ends EXIT_FAILURE output (metadata_failed rs failure)
                 | Inr metadata \<Rightarrow>
                     if tg_requested signals
                     then program_ends EXIT_SUCCESS (output @ ''gateway_state=stopped startup_result=stop-requested ''
                            @ ''contexts=0 transports=0 subscriptions=0 '' @ ''owners_joined=yes'' @ [CHR 0x0A]) []
                     else let result = run_production_service en cn rs config
                                         (make_product_runtime_specs en metadata) signals (dw_service w);
                              result = result\<lparr>sr_output := output @ sr_output result\<rparr>
                          in if sr_exit result = ServiceThrew
                             then result\<lparr>sr_exit := Exit EXIT_FAILURE,
                                         sr_errors := sr_errors result @ gateway_fatal w\<rparr>
                             else result)"

definition gatewayd_main ::
  "daemon_environment \<Rightarrow> ('d spot_metadata, 'p) construction \<Rightarrow> 'g report_sources \<Rightarrow> 'd metadata_sources
     \<Rightarrow> 'g daemon_world \<Rightarrow> string list \<Rightarrow> service_result" where
  "gatewayd_main env cn rs sources w arguments =
     (case parse_daemon_config env arguments of
        HelpRequested \<Rightarrow> program_ends EXIT_SUCCESS daemon_usage []
      | Rejected message \<Rightarrow>
          program_ends 2 [] (''configuration_error='' @ message @ [CHR 0x0A] @ daemon_usage)
      | Accepted config \<Rightarrow> run_daemon (da_numbers env) cn rs sources w config)"

section \<open>Which signal is seen\<close>

definition asks :: "sigwait_result \<Rightarrow> bool" where
  "asks r \<longleftrightarrow> r \<in> {SwReceived SIGINT, SwReceived SIGTERM, SwFailed}"

definition signal_of :: "sigwait_result \<Rightarrow> signal_seen" where
  "signal_of r = (case r of SwReceived received \<Rightarrow> SignalSeen received | SwFailed \<Rightarrow> SignalWaitError)"

lemma signal_loop_requested:
  "tg_requested (signal_loop r st) \<longleftrightarrow> tg_requested st \<or> tg_looping st \<and> asks r"
  by (auto simp: signal_loop_def asks_def Let_def split: sigwait_result.split)

lemma signals_requested:
  "tg_requested (fold signal_loop rs st) \<Longrightarrow> tg_requested st \<or> (\<exists>r \<in> set rs. asks r)"
proof (induction rs arbitrary: st)
  case (Cons r rs)
  then show ?case using Cons.IH [of "signal_loop r st"] by (auto simp: signal_loop_requested)
qed simp

lemma signals_stay_requested: "tg_requested st \<Longrightarrow> tg_requested (fold signal_loop rs st)"
  by (induction rs arbitrary: st) (simp_all add: signal_loop_requested)

lemma signals_seen:
  assumes "make_termination_signals blocked thread = Some st"
  shows "fold signal_loop rs st =
    \<lparr>tg_requested = (\<exists>r \<in> set rs. asks r),
     tg_signal = (if SwFailed \<in> set rs then SignalWaitError
                  else case List.find asks rs of None \<Rightarrow> NoSignal | Some r \<Rightarrow> signal_of r),
     tg_stop_token = False, tg_looping = (SwFailed \<notin> set rs)\<rparr>"
proof (induction rs rule: rev_induct)
  case Nil
  then show ?case using assms by (simp add: make_termination_signals_def split: if_splits)
next
  case (snoc r rs)
  have find: "List.find asks (rs @ [r]) = (case List.find asks rs of None \<Rightarrow> (if asks r then Some r else None) | Some x \<Rightarrow> Some x)"
    by (induction rs) auto
  have none: "List.find asks rs = None \<longleftrightarrow> \<not> (\<exists>r \<in> set rs. asks r)" by (auto simp: find_None_iff)
  have step: "fold signal_loop (rs @ [r]) st = signal_loop r (fold signal_loop rs st)" by simp
  show ?case
  proof (cases r)
    case (SwReceived s)
    have asks: "asks r \<longleftrightarrow> s \<in> {SIGINT, SIGTERM}" by (simp add: asks_def SwReceived)
    have failed: "SwFailed \<in> set (rs @ [r]) \<longleftrightarrow> SwFailed \<in> set rs" by (simp add: SwReceived)
    show ?thesis
    proof (cases "SwFailed \<in> set rs")
      case True
      then have "\<exists>r \<in> set rs. asks r" by (auto simp: asks_def)
      with True failed show ?thesis unfolding step snoc by (simp add: signal_loop_def)
    next
      case False
      show ?thesis
      proof (cases "List.find asks rs")
        case None
        with none have "\<not> (\<exists>r \<in> set rs. asks r)" by blast
        with False None show ?thesis unfolding step snoc failed find
          by (simp add: signal_loop_def Let_def asks_def SwReceived signal_of_def)
      next
        case (Some x)
        with none have "\<exists>r \<in> set rs. asks r" by (metis option.distinct(1))
        with False Some show ?thesis unfolding step snoc failed find
          by (simp add: signal_loop_def Let_def SwReceived)
      qed
    qed
  next
    case SwFailed
    then show ?thesis unfolding step snoc by (auto simp: signal_loop_def asks_def)
  qed
qed

text \<open>The waiting thread of the daemon is answered by the first \<open>SIGINT\<close> or \<open>SIGTERM\<close>, however many follow it,
  and by an error exactly if waiting for signals has failed; other signals do not wake it.\<close>

theorem first_signal_wins:
  assumes "make_termination_signals blocked thread = Some st"
  shows "signals_wait (fold signal_loop rs st) =
    (if SwFailed \<in> set rs then Some SignalWaitError else map_option signal_of (List.find asks rs))"
proof -
  have "List.find asks rs = None \<longleftrightarrow> \<not> (\<exists>r \<in> set rs. asks r)" by (auto simp: find_None_iff)
  moreover have "asks SwFailed" by (simp add: asks_def)
  ultimately show ?thesis unfolding signals_seen [OF assms]
    by (auto simp: signals_wait_def split: option.split)
qed

theorem first_signal_wins_witness:
  "signals_wait (fold signal_loop [SwReceived SIGUSR1, SwReceived SIGTERM, SwReceived SIGINT]
      \<lparr>tg_requested = False, tg_signal = NoSignal, tg_stop_token = False, tg_looping = True\<rparr>)
   = Some (SignalSeen SIGTERM)"
  using first_signal_wins [of True True _ "[SwReceived SIGUSR1, SwReceived SIGTERM, SwReceived SIGINT]"]
  by (simp add: make_termination_signals_def asks_def signal_of_def)

section \<open>What a start returns\<close>

text \<open>A failed start: nothing serves, and a stop was requested if it says so.\<close>

definition result_fine :: "'g startup_world list \<Rightarrow> start_outcome \<Rightarrow> bool" where
  "result_fine ws r \<longleftrightarrow>
     (case r of None \<Rightarrow> True
      | Some s \<Rightarrow> gs_code s \<notin> {ScServing, ScAlreadyStarted}
          \<and> (gs_code s = ScStopRequested \<longrightarrow> (\<exists>w \<in> set ws. sw_request_stop w \<or> sw_external w = Some True)))"

fun pending_result :: "gateway_phase \<Rightarrow> start_outcome option" where
  "pending_result (GpShutdownServer r) = r"
| "pending_result (GpStopProducts r) = r"
| "pending_result (GpStopped r) = r"
| "pending_result _ = None"

fun ending :: "gateway_phase \<Rightarrow> bool" where
  "ending (GpShutdownServer r) = True"
| "ending (GpStopProducts r) = True"
| "ending (GpStopped r) = True"
| "ending _ = False"

definition start_ok :: "'g startup_world list \<Rightarrow> production_gateway \<Rightarrow> bool" where
  "start_ok ws st \<longleftrightarrow>
     (gy_stop_requested st \<longrightarrow> (\<exists>w \<in> set ws. sw_request_stop w))
     \<and> (ending (gy_phase st) \<longrightarrow> pending_result (gy_phase st) \<noteq> None)
     \<and> (\<forall>r. pending_result (gy_phase st) = Some r \<longrightarrow> result_fine ws r)
     \<and> (if gy_phase st = GpIdle
        then gy_returned st = Some (start_result_of ScServing None) \<and> gy_state st = GyServing
          \<or> (\<exists>r. gy_returned st = Some r \<and> result_fine ws r) \<and> gy_state st = GyStopped
        else gy_returned st = None)"

lemma result_fine_more: "result_fine ws r \<Longrightarrow> result_fine (ws @ [w]) r"
  by (auto simp: result_fine_def split: option.split)

lemma pending_ending: "pending_result ph = Some r \<Longrightarrow> ending ph"
  by (cases ph) auto

lemma start_ok_more:
  assumes "start_ok ws st"
  shows "start_ok (ws @ [w]) (if sw_request_stop w then request_stop st else st)"
  using assms result_fine_more [of ws _ w] unfolding start_ok_def request_stop_def
  by (auto split: if_splits)

lemma rolled_back:
  assumes "start_ok ws st" and "gy_phase st \<noteq> GpIdle" and "result_fine ws r"
  shows "start_ok ws (rollback r (graph_called c st))" "start_ok ws (rollback r st)"
  using assms by (auto simp: start_ok_def rollback_def graph_called_def)

lemma unless_stopped_start_ok:
  assumes "start_ok ws st" and "gy_phase st \<noteq> GpIdle" and "w \<in> set ws" and "start_ok ws (go_on st)"
  shows "start_ok ws (unless_stopped w go_on st)"
proof -
  have "result_fine ws (start_result_of ScStopRequested None)" if "gateway_stop_requested w st = Some True"
    using that assms(1,3)
    by (auto simp: result_fine_def start_result_of_def gateway_stop_requested_def start_ok_def split: if_splits)
  moreover have "result_fine ws None" by (simp add: result_fine_def)
  ultimately show ?thesis
    using assms(4) rolled_back(2) [OF assms(1,2)]
    by (auto simp: unless_stopped_def split: option.split bool.split)
qed

lemma failed_fine [simp]:
  "result_fine ws None" "result_fine ws (start_result_of ScProductStartFailed p)"
  "result_fine ws (start_result_of ScProductInitialFailure p)"
  "result_fine ws (start_result_of ScInitialStartupTimeout p)" "result_fine ws (start_result_of ScGrpcBindFailed p)"
  by (simp_all add: result_fine_def start_result_of_def)

lemma phase_start_ok:
  assumes "start_ok ws st" and "gy_phase st \<noteq> GpIdle" and "ph \<noteq> GpIdle" and "\<not> ending ph"
  shows "start_ok ws (st\<lparr>gy_phase := ph\<rparr>)" "start_ok ws (graph_called c st\<lparr>gy_phase := ph\<rparr>)"
proof -
  have "pending_result ph = None" using assms(4) by (cases ph) auto
  with assms show "start_ok ws (st\<lparr>gy_phase := ph\<rparr>)" "start_ok ws (graph_called c st\<lparr>gy_phase := ph\<rparr>)"
    by (simp_all add: start_ok_def graph_called_def)
qed

lemma work_start_ok:
  assumes "start_ok ws st" and "w \<in> set ws" and "gateway_work w st = Some st'"
  shows "start_ok ws st'"
proof (cases "gy_phase st")
  case GpCheckStop
  with assms show ?thesis
    by (auto simp: gateway_work_def intro!: unless_stopped_start_ok phase_start_ok)
next
  case GpStartProducts
  with assms(3) have "st' = start_products w st" by (simp add: gateway_work_def)
  with GpStartProducts assms(1) show ?thesis
    by (auto simp: start_products_def Let_def intro!: rolled_back(1) phase_start_ok(2) intro: rolled_back(2)
        split: option.split)
next
  case (GpWait d)
  have "start_ok ws (case (sw_polls w, sw_now w) of
         (Some polls, now) \<Rightarrow>
           (case poll_failure polls of
              Some key \<Rightarrow> rollback (start_result_of ScProductInitialFailure (Some key)) st
            | None \<Rightarrow>
                (case now of
                   None \<Rightarrow> rollback None st
                 | Some now \<Rightarrow>
                     if now \<ge> d then rollback (start_result_of ScInitialStartupTimeout None) st
                     else if poll_all_live polls then st\<lparr>gy_phase := GpBeforeServer\<rparr>
                     else st))
       | (None, _) \<Rightarrow> rollback None st)"
    using GpWait assms(1) by (auto intro!: rolled_back phase_start_ok split: option.split)
  with GpWait assms show ?thesis
    by (auto simp: gateway_work_def wait_for_initial_live_def intro!: unless_stopped_start_ok)
next
  case GpBeforeServer
  with assms show ?thesis
    by (auto simp: gateway_work_def intro!: unless_stopped_start_ok phase_start_ok)
next
  case GpStartServer
  with assms(3) have "st' = start_server w st" by (simp add: gateway_work_def)
  with GpStartServer assms(1) show ?thesis
    by (auto simp: start_server_def Let_def intro!: rolled_back(1) phase_start_ok(2) split: option.split bool.split)
next
  case GpAfterServer
  with assms show ?thesis
    by (auto simp: gateway_work_def intro!: unless_stopped_start_ok phase_start_ok)
qed (use assms in \<open>auto simp: gateway_work_def start_ok_def graph_called_def\<close>)

lemma start_ok_run:
  assumes "gateway_fresh st"
  shows "start_ok ws (gateway_works ws (gateway_start_begin st))"
proof (induction ws rule: rev_induct)
  case Nil
  then show ?case using assms
    by (auto simp: start_ok_def gateway_start_begin_def gateway_fresh_def make_gateway_def split: if_splits)
next
  case (snoc w ws)
  let ?st = "gateway_works ws (gateway_start_begin st)"
  show ?case
  proof (cases "gateway_move w ?st")
    case None
    then have idle: "gy_phase ?st = GpIdle" using move_some [of ?st w] by auto
    with snoc result_fine_more [of ws _ w] have "start_ok (ws @ [w]) ?st"
      unfolding start_ok_def by auto
    with None show ?thesis by (simp add: gateway_works_snoc)
  next
    case (Some st')
    from start_ok_more [OF snoc] have "start_ok (ws @ [w]) (if sw_request_stop w then request_stop ?st else ?st)" .
    moreover have "w \<in> set (ws @ [w])" by simp
    moreover have "gateway_work w (if sw_request_stop w then request_stop ?st else ?st) = Some st'"
      using Some by (simp add: gateway_move_def)
    ultimately have "start_ok (ws @ [w]) st'" by (rule work_start_ok)
    with Some show ?thesis by (simp add: gateway_works_snoc)
  qed
qed

section \<open>How the program ends\<close>

text \<open>Everything the program is told about signals while it lives.\<close>

definition signals_delivered :: "'g daemon_world \<Rightarrow> sigwait_result list" where
  "signals_delivered w = dw_metadata_signals w @ concat (map fst (sv_startup (dw_service w))) @ sv_waited (dw_service w)"

lemma met_signals:
  assumes "meet_signals startup signals = (ws, after)"
  shows "map sw_now ws = map (\<lambda>step. sw_now (snd step)) startup
    \<and> after = fold signal_loop (concat (map fst startup)) signals
    \<and> (\<forall>w \<in> set ws. \<not> sw_request_stop w)
    \<and> ((\<exists>w \<in> set ws. sw_external w = Some True) \<longrightarrow> tg_requested after)"
  using assms
proof (induction startup arbitrary: signals ws)
  case (Cons step startup)
  obtain received w where step: "step = (received, w)" by force
  obtain vs where rest: "meet_signals startup (fold signal_loop received signals) = (vs, after)"
    and ws: "ws = w\<lparr>sw_external := Some (tg_requested (fold signal_loop received signals)), sw_request_stop := False\<rparr> # vs"
    using Cons.prems by (auto simp: step Let_def split: prod.splits)
  from Cons.IH [OF rest] ws signals_stay_requested show ?case by (auto simp: step)
qed simp

lemma service_end_fields [simp]:
  "sr_started (service_end w result output errors started gateway) = started"
  "sr_exit (service_end w result output errors started gateway) \<in> {result, StillRunning}"
  by (simp_all add: service_end_def Let_def)

lemma service_end_exit:
  "sr_exit (service_end w result output errors started gateway) = Exit status \<Longrightarrow> result = Exit status"
  by (auto simp: service_end_def Let_def split: if_splits)

lemma not_serving_success:
  "sr_exit (service_not_serving rs w output started gateway) = Exit EXIT_SUCCESS \<Longrightarrow> gs_code started = ScStopRequested"
  by (auto simp: service_not_serving_def EXIT_FAILURE_def EXIT_SUCCESS_def split: option.splits if_splits
      dest!: service_end_exit)

lemma stopping_success:
  "sr_exit (service_stopping rs w output started received gateway) = Exit EXIT_SUCCESS \<Longrightarrow> received \<noteq> SignalWaitError"
  by (auto simp: service_stopping_def Let_def EXIT_FAILURE_def EXIT_SUCCESS_def service_running_def
      split: option.splits if_splits dest!: service_end_exit)

lemma serving_success:
  assumes "sr_exit (service_serving rs w n instance_id output started signals gateway) = Exit EXIT_SUCCESS"
  shows "tg_requested (fold signal_loop (sv_waited w) signals)
    \<and> tg_signal (fold signal_loop (sv_waited w) signals) \<noteq> SignalWaitError"
proof (cases "gateway_observe gateway (sv_observed w)")
  case None
  with assms show ?thesis by (auto simp: service_serving_def dest!: service_end_exit)
next
  case (Some observation)
  show ?thesis
  proof (cases "signals_wait (fold signal_loop (sv_waited w) signals)")
    case None
    with assms Some show ?thesis by (simp add: service_serving_def Let_def service_running_def)
  next
    case (Some received)
    with assms \<open>gateway_observe _ _ = Some observation\<close> stopping_success
    have "received \<noteq> SignalWaitError" by (fastforce simp: service_serving_def Let_def)
    with Some show ?thesis by (auto simp: signals_wait_def split: if_splits)
  qed
qed

text \<open>A run, cut after \<open>start\<close>.\<close>

lemma service_cases:
  obtains (early) result where
      "run_production_service en cn rs config specs signals w = result" "sr_gateway result = None"
      "sr_started result = None" "sr_exit result \<in> {Exit EXIT_FAILURE, ServiceThrew}"
  | (started) gateway ws after instance_id out where
      "service_gateway en cn config specs w = Some gateway" "meet_signals (sv_startup w) signals = (ws, after)"
      "run_production_service en cn rs config specs signals w =
        (let gateway = gateway_works ws (gateway_start_begin gateway) in
         if gy_phase gateway \<noteq> GpIdle then service_running out None gateway
         else case gy_returned gateway of
             Some (Some started) \<Rightarrow>
               if gs_code started \<noteq> ScServing then service_not_serving rs w out started gateway
               else service_serving rs w (length specs) instance_id out started after gateway
           | _ \<Rightarrow> service_end w ServiceThrew out [] None gateway)"
proof (cases "performance_baseline_preflight (sv_baseline_output w) config")
  case (Pair ok message)
  show thesis
  proof (cases ok)
    case False
    with Pair show thesis by (intro early) (auto simp: run_production_service_def)
  next
    case True
    show thesis
    proof (cases "service_gateway en cn config specs w")
      case None
      with Pair True show thesis
        by (intro early) (auto simp: run_production_service_def Let_def service_threw_def)
    next
      case (Some gateway)
      obtain ws after where "meet_signals (sv_startup w) signals = (ws, after)" by force
      with Some Pair True show thesis
        by (intro started) (auto simp: run_production_service_def Let_def)
    qed
  qed
qed

lemma service_gateway_fresh: "service_gateway en cn config specs w = Some gateway \<Longrightarrow> gateway_fresh gateway"
proof -
  assume "service_gateway en cn config specs w = Some gateway"
  then have "make_gateway (sv_make_address w) (dc_grpc_listen config) False kInitialStartupTimeout True = Some gateway"
    by (auto simp: service_gateway_def split: option.splits if_splits)
  then show ?thesis unfolding gateway_fresh_def by blast
qed

lemma service_success:
  assumes "sr_exit (run_production_service en cn rs config specs signals w) = Exit EXIT_SUCCESS"
  shows "tg_requested (fold signal_loop (concat (map fst (sv_startup w)) @ sv_waited w) signals)"
proof (cases rule: service_cases [of en cn rs config specs signals w])
  case (early result)
  with assms show ?thesis by (auto simp: EXIT_SUCCESS_def EXIT_FAILURE_def)
next
  case (started gateway ws after instance_id out)
  let ?g = "gateway_works ws (gateway_start_begin gateway)"
  have met: "after = fold signal_loop (concat (map fst (sv_startup w))) signals"
    "\<forall>w \<in> set ws. \<not> sw_request_stop w" "(\<exists>w \<in> set ws. sw_external w = Some True) \<longrightarrow> tg_requested after"
    using met_signals [OF started(2)] by blast+
  have ok: "start_ok ws ?g" by (rule start_ok_run [OF service_gateway_fresh [OF started(1)]])
  have idle: "gy_phase ?g = GpIdle"
    using assms unfolding started(3) by (auto simp: Let_def service_running_def split: if_splits)
  then obtain s where s: "gy_returned ?g = Some (Some s)"
    using assms unfolding started(3) by (auto simp: Let_def split: option.splits dest!: service_end_exit)
  show ?thesis
  proof (cases "gs_code s = ScServing")
    case True
    then have "tg_requested (fold signal_loop (sv_waited w) after)"
      using assms serving_success unfolding started(3) by (fastforce simp: Let_def idle s)
    then show ?thesis by (simp add: met(1))
  next
    case False
    then have "gs_code s = ScStopRequested"
      using assms not_serving_success unfolding started(3) by (fastforce simp: Let_def idle s)
    moreover have "result_fine ws (Some s)"
      using ok False idle s by (auto simp: start_ok_def start_result_of_def)
    ultimately have "tg_requested after" using met(2,3) by (auto simp: result_fine_def)
    then show ?thesis by (simp add: met(1) signals_stay_requested)
  qed
qed

lemma service_end_statuses:
  "result \<in> {Exit EXIT_SUCCESS, Exit EXIT_FAILURE, ServiceThrew, StillRunning} \<Longrightarrow>
     sr_exit (service_end w result out errors started gateway)
       \<in> {Exit EXIT_SUCCESS, Exit EXIT_FAILURE, ServiceThrew, StillRunning}"
  by (auto simp: service_end_def Let_def)

lemma service_statuses:
  "sr_exit (run_production_service en cn rs config specs signals w)
     \<in> {Exit EXIT_SUCCESS, Exit EXIT_FAILURE, ServiceThrew, StillRunning}"
proof (cases rule: service_cases [of en cn rs config specs signals w])
  case (early result)
  then show ?thesis by auto
next
  case (started gateway ws after instance_id out)
  have "sr_exit (service_stopping rs w out s received g) \<in> {Exit EXIT_SUCCESS, Exit EXIT_FAILURE, ServiceThrew, StillRunning}"
    for out s received g
    by (simp add: service_stopping_def Let_def service_running_def service_end_statuses [simplified] split: option.split)
  then have "sr_exit (service_serving rs w (length specs) instance_id out s after g)
      \<in> {Exit EXIT_SUCCESS, Exit EXIT_FAILURE, ServiceThrew, StillRunning}" for s g
    by (simp add: service_serving_def Let_def service_running_def service_end_statuses [simplified] split: option.split)
  moreover have "sr_exit (service_not_serving rs w out s g) \<in> {Exit EXIT_SUCCESS, Exit EXIT_FAILURE, ServiceThrew, StillRunning}"
    for s g
    by (simp add: service_not_serving_def service_end_statuses [simplified] split: option.split)
  ultimately show ?thesis unfolding started(3)
    by (simp add: Let_def service_running_def service_end_statuses [simplified] split: option.split)
qed

text \<open>A daemon, cut before its service.\<close>

lemma daemon_cases:
  obtains (early) status where "sr_exit (run_daemon en cn rs sources w config) = Exit status"
      "sr_gateway (run_daemon en cn rs sources w config) = None"
      "sr_started (run_daemon en cn rs sources w config) = None" "status \<in> {EXIT_SUCCESS, EXIT_FAILURE}"
      "status = EXIT_SUCCESS \<Longrightarrow> \<exists>r \<in> set (dw_metadata_signals w). asks r"
  | (service) signals metadata result where
      "make_termination_signals (dw_signals_blocked w) (dw_thread_created w) = Some signals"
      "acquire_production_metadata en (dc_market_keys config) sources = Inr metadata"
      "run_production_service en cn rs config (make_product_runtime_specs en metadata)
         (fold signal_loop (dw_metadata_signals w) signals) (dw_service w) = result"
      "sr_exit (run_daemon en cn rs sources w config) =
         (if sr_exit result = ServiceThrew then Exit EXIT_FAILURE else sr_exit result)"
      "sr_gateway (run_daemon en cn rs sources w config) = sr_gateway result"
      "sr_started (run_daemon en cn rs sources w config) = sr_started result"
      "\<not> tg_requested (fold signal_loop (dw_metadata_signals w) signals)"
proof (cases "performance_baseline_preflight (sv_baseline_output (dw_service w)) config")
  case (Pair ok message)
  show thesis
  proof (cases ok)
    case False
    with Pair show thesis
      by (intro early [of EXIT_FAILURE]) (simp_all add: run_daemon_def program_ends_def EXIT_FAILURE_def EXIT_SUCCESS_def)
  next
    case True
    show thesis
    proof (cases "make_termination_signals (dw_signals_blocked w) (dw_thread_created w)")
      case None
      with Pair True show thesis
        by (intro early [of EXIT_FAILURE]) (simp_all add: run_daemon_def program_ends_def EXIT_FAILURE_def EXIT_SUCCESS_def)
    next
      case (Some signals)
      have fresh: "\<not> tg_requested signals" using Some by (auto simp: make_termination_signals_def split: if_splits)
      show thesis
      proof (cases "acquire_production_metadata en (dc_market_keys config) sources")
        case (Inl failure)
        with Pair True Some show thesis
          by (intro early [of EXIT_FAILURE])
            (simp_all add: run_daemon_def Let_def program_ends_def EXIT_FAILURE_def EXIT_SUCCESS_def)
      next
        case (Inr metadata)
        show thesis
        proof (cases "tg_requested (fold signal_loop (dw_metadata_signals w) signals)")
          case asked: True
          with signals_requested fresh have "\<exists>r \<in> set (dw_metadata_signals w). asks r" by blast
          with Pair True Some Inr asked show thesis
            by (intro early [of EXIT_SUCCESS]) (simp_all add: run_daemon_def Let_def program_ends_def)
        next
          case False
          with Pair True Some Inr show thesis
            by (intro service [OF Some Inr refl]) (simp_all add: run_daemon_def Let_def)
        qed
      qed
    qed
  qed
qed

lemma daemon_status:
  "sr_exit (run_daemon en cn rs sources w config) \<in> {Exit EXIT_SUCCESS, Exit EXIT_FAILURE, StillRunning}"
proof (cases rule: daemon_cases [of en cn rs sources w config])
  case (service signals metadata result)
  then show ?thesis using service_statuses [of en cn rs config "make_product_runtime_specs en metadata"] by auto
qed auto

lemma daemon_success:
  assumes "sr_exit (run_daemon en cn rs sources w config) = Exit EXIT_SUCCESS"
  shows "\<exists>r \<in> set (signals_delivered w). asks r"
proof (cases rule: daemon_cases [of en cn rs sources w config])
  case (early status)
  with assms show ?thesis by (auto simp: signals_delivered_def)
next
  case (service signals metadata result)
  with assms have "sr_exit result = Exit EXIT_SUCCESS"
    by (auto simp: EXIT_SUCCESS_def EXIT_FAILURE_def split: if_splits)
  from service_success [OF this [folded service(3)]]
  have "tg_requested (fold signal_loop (signals_delivered w) signals)" by (simp add: signals_delivered_def)
  moreover have "\<not> tg_requested signals" using service(1) by (auto simp: make_termination_signals_def split: if_splits)
  ultimately show ?thesis using signals_requested by blast
qed

text \<open>C39: the program reports success only if it was asked for help, or if its configuration was accepted and it was told
  to terminate or waiting for signals failed; and the status 2 is exactly that of a rejected command line or
  configuration.\<close>

theorem exit_status_means:
  "(sr_exit (gatewayd_main env cn rs sources w arguments) = Exit 2 \<longleftrightarrow>
      (\<exists>message. parse_daemon_config env arguments = Rejected message))
   \<and> (sr_exit (gatewayd_main env cn rs sources w arguments) = Exit EXIT_SUCCESS \<longrightarrow>
      arguments = [''--help'']
      \<or> (\<exists>config r. parse_daemon_config env arguments = Accepted config \<and> r \<in> set (signals_delivered w) \<and> asks r))"
proof (cases "parse_daemon_config env arguments")
  case (Accepted config)
  then have "gatewayd_main env cn rs sources w arguments = run_daemon (da_numbers env) cn rs sources w config"
    by (simp add: gatewayd_main_def)
  with Accepted daemon_success [of "da_numbers env" cn rs sources w config]
    daemon_status [of "da_numbers env" cn rs sources w config] show ?thesis
    by (auto simp: EXIT_SUCCESS_def EXIT_FAILURE_def)
next
  case HelpRequested
  then have "arguments = [''--help'']"
    by (auto simp: parse_daemon_config_def split: if_splits sum.splits)
  with HelpRequested show ?thesis by (simp add: gatewayd_main_def program_ends_def EXIT_SUCCESS_def)
next
  case (Rejected message)
  then show ?thesis by (simp add: gatewayd_main_def program_ends_def EXIT_SUCCESS_def)
qed

section \<open>What the program leaves behind\<close>

definition wound_up :: "production_gateway \<Rightarrow> bool" where
  "wound_up st \<longleftrightarrow> ending (gy_phase st) \<and> gy_state st = GyStopping \<or> gy_phase st = GpIdle \<and> gy_state st = GyStopped"

lemma wound_up_works: "wound_up st \<Longrightarrow> wound_up (gateway_works ws st)"
proof (induction ws arbitrary: st)
  case (Cons w ws)
  show ?case
  proof (cases "gateway_move w st")
    case (Some st')
    have "wound_up st'" using Some Cons.prems
      by (cases "gy_phase st")
        (auto simp: wound_up_def gateway_move_def gateway_work_def graph_called_def request_stop_def split: if_splits)
    with Some Cons.IH show ?thesis by simp
  qed (use Cons in simp)
qed simp

lemma stop_wound_up:
  assumes "gateway_ok st" and "gy_phase st = GpIdle"
  shows "gateway_ok (gateway_works ws (gateway_stop_begin st)) \<and> wound_up (gateway_works ws (gateway_stop_begin st))"
proof -
  have "wound_up (gateway_stop_begin st)"
    using assms(2) by (simp add: wound_up_def gateway_stop_begin_def Let_def request_stop_def)
  moreover have "gateway_ok (gateway_stop_begin st)" by (rule gateway_change_ok [OF assms(1) gc_stop [OF assms(2)]])
  ultimately show ?thesis using wound_up_works works_ok by blast
qed

lemma stop_wound_up_idle:
  assumes "gateway_ok st" and "gy_phase st = GpIdle"
    and "gy_phase (gateway_works ws (gateway_stop_begin st)) = GpIdle"
  shows "gateway_ok (gateway_works ws (gateway_stop_begin st))
    \<and> gy_state (gateway_works ws (gateway_stop_begin st)) = GyStopped"
  using stop_wound_up [OF assms(1,2), of ws] assms(3) by (auto simp: wound_up_def)

definition stopped_well :: "service_result \<Rightarrow> bool" where
  "stopped_well result \<longleftrightarrow>
     (sr_exit result = StillRunning \<or> (\<forall>g. sr_gateway result = Some g \<longrightarrow> gateway_ok g \<and> gy_state g = GyStopped))"

lemma service_end_stops:
  "gateway_ok gateway \<Longrightarrow> gy_phase gateway = GpIdle \<Longrightarrow>
     stopped_well (service_end w result out errors started gateway)"
  using stop_wound_up_idle [of gateway "sv_destroy w"] by (auto simp: stopped_well_def service_end_def Let_def)

lemma service_running_well [simp]: "stopped_well (service_running out started gateway)"
  by (simp add: stopped_well_def service_running_def)

lemma stopping_stops:
  assumes "gateway_ok gateway" and "gy_phase gateway = GpIdle"
  shows "stopped_well (service_stopping rs w out started received gateway)"
proof -
  have "gateway_ok (request_stop gateway)" "gy_phase (request_stop gateway) = GpIdle"
    using assms by (simp_all add: request_stop_def gateway_ok_def)
  from stop_wound_up [OF this] show ?thesis
    by (auto simp: service_stopping_def Let_def intro!: service_end_stops split: option.split)
qed

lemma service_stops: "stopped_well (run_production_service en cn rs config specs signals w)"
proof (cases rule: service_cases [of en cn rs config specs signals w])
  case (early result)
  then show ?thesis by (simp add: stopped_well_def)
next
  case (started gateway ws after instance_id out)
  let ?g = "gateway_works ws (gateway_start_begin gateway)"
  have fresh: "gateway_fresh gateway" by (rule service_gateway_fresh [OF started(1)])
  then have "gy_phase gateway = GpIdle" by (auto simp: gateway_fresh_def make_gateway_def split: if_splits)
  then have ok: "gateway_ok ?g" by (intro works_ok gateway_change_ok [OF gateway_fresh_ok [OF fresh] gc_start])
  show ?thesis
  proof (cases "gy_phase ?g = GpIdle")
    case True
    with ok show ?thesis unfolding started(3)
      by (auto simp: Let_def service_serving_def service_not_serving_def intro!: service_end_stops stopping_stops
          split: option.split)
  next
    case False
    then show ?thesis unfolding started(3) by (simp add: Let_def)
  qed
qed

lemma daemon_stops: "stopped_well (run_daemon en cn rs sources w config)"
proof (cases rule: daemon_cases [of en cn rs sources w config])
  case (early status)
  then show ?thesis by (simp add: stopped_well_def)
next
  case (service signals metadata result)
  have "stopped_well result" unfolding service(3) [symmetric] by (rule service_stops)
  then show ?thesis by (auto simp: stopped_well_def service(4,5))
qed

text \<open>Whenever the program has ended, for whatever reason, its gateway has shut the server down and then stopped the
  products, as the last things it did; and when these calls on the products have returned, no product has
  anything left running, registered or admitted.\<close>

theorem ended_program_is_quiet:
  assumes "sr_gateway (gatewayd_main env cn rs sources w arguments) = Some g"
    and "sr_exit (gatewayd_main env cn rs sources w arguments) \<noteq> StillRunning"
    and "reachable (set_init en cn' specs (product_calls (gy_calls g))) (set_step ops clock) sy"
    and "sy_actions sy = []" and "sy_calls sy = []" and "p \<in> set (sy_products sy)"
  shows "(\<exists>before. gy_calls g = before @ [GcShutdownServer, GcStopProducts]
      \<and> before \<in> {[], [GcStartProducts], [GcStartProducts, GcStartServer]})
    \<and> ep_source_state (fst (rc_hub (pd_recovery p))) = SrcShutdown
    \<and> rc_phase (pd_recovery p) \<in> {PhAbsent, PhEnded}
    \<and> (rt_started (pd_runtime p) \<longrightarrow>
         rt_owner (pd_runtime p) = OwnerExited \<and> rt_subscribers (pd_runtime p) = [])
    \<and> isl (fst (admit_begin ops subscription (pd_runtime p)))"
proof -
  obtain config where "gatewayd_main env cn rs sources w arguments = run_daemon (da_numbers env) cn rs sources w config"
    using assms(1) by (auto simp: gatewayd_main_def program_ends_def split: daemon_config_result.splits)
  with daemon_stops [of "da_numbers env" cn rs sources w config] assms(1,2)
  have "gateway_ok g" "gy_state g = GyStopped" by (auto simp: stopped_well_def)
  from ok_gateway_quiet [OF this assms(3-)] show ?thesis .
qed

section \<open>A program that serves\<close>

lemma service_started:
  assumes "sr_started (run_production_service en cn rs config specs signals w) = Some started"
    and "gs_code started = ScServing"
  shows "\<exists>gateway ws after. service_gateway en cn config specs w = Some gateway
    \<and> meet_signals (sv_startup w) signals = (ws, after)
    \<and> gy_state (gateway_works ws (gateway_start_begin gateway)) = GyServing"
proof (cases rule: service_cases [of en cn rs config specs signals w])
  case (early result)
  with assms show ?thesis by simp
next
  case (started gateway ws after instance_id out)
  let ?g = "gateway_works ws (gateway_start_begin gateway)"
  have idle: "gy_phase ?g = GpIdle"
    using assms unfolding started(3) by (auto simp: Let_def service_running_def split: if_splits)
  then obtain s where s: "gy_returned ?g = Some (Some s)"
    using assms unfolding started(3) by (auto simp: Let_def split: option.splits)
  have "sr_started (service_not_serving rs w out s ?g) = Some s"
    "sr_started (service_serving rs w (length specs) instance_id out s after ?g) = Some s"
    by (simp_all add: service_not_serving_def service_serving_def service_stopping_def service_running_def Let_def
        split: option.split)
  then have "gs_code s = ScServing"
    using assms unfolding started(3) by (auto simp: Let_def idle s split: if_splits)
  moreover have "start_ok ws ?g" by (rule start_ok_run [OF service_gateway_fresh [OF started(1)]])
  ultimately have "gy_state ?g = GyServing"
    using idle s by (auto simp: start_ok_def result_fine_def)
  with started(1,2) show ?thesis by blast
qed


section \<open>The end of the program\<close>

lemma stop_ends:
  assumes "gy_phase st = GpIdle" and "3 \<le> length ws"
  shows "gy_phase (gateway_works ws (gateway_stop_begin st)) = GpIdle"
proof (rule works_end)
  have "steps_left (gy_phase (gateway_stop_begin st)) \<le> 3"
    using assms(1) by (simp add: gateway_stop_begin_def Let_def request_stop_def)
  with assms(2) show "steps_left (gy_phase (gateway_stop_begin st)) \<le> 6"
    "steps_left (gy_phase (gateway_stop_begin st)) \<le> length ws" by simp_all
qed

lemma service_end_returns:
  "gy_phase gateway = GpIdle \<Longrightarrow> 3 \<le> length (sv_destroy w) \<Longrightarrow>
     sr_exit (service_end w result out errors started gateway) = result"
  by (simp add: service_end_def Let_def stop_ends)

lemma stopping_returns:
  assumes "gy_phase gateway = GpIdle" and "3 \<le> length (sv_stop w)" and "3 \<le> length (sv_destroy w)"
  shows "sr_exit (service_stopping rs w out started received gateway) \<noteq> StillRunning"
proof -
  have "gy_phase (request_stop gateway) = GpIdle" using assms(1) by (simp add: request_stop_def)
  from stop_ends [OF this assms(2)] service_end_returns [OF _ assms(3)] show ?thesis
    by (simp add: service_stopping_def Let_def split: option.split)
qed

lemma service_returns:
  assumes "2 \<le> n" and "length (sv_startup w) = n + 7"
    and "\<forall>i. n \<le> i \<and> i < n + 7 \<longrightarrow> (\<exists>now. sw_now (snd (sv_startup w ! i)) = Some now
      \<and> (\<forall>j t. j < n \<and> sw_now (snd (sv_startup w ! j)) = Some t \<longrightarrow> t + 60 * 1000000000 \<le> now))"
    and "\<And>received. tg_requested (fold signal_loop (received @ sv_waited w) signals)"
    and "3 \<le> length (sv_stop w)" and "3 \<le> length (sv_destroy w)"
  shows "sr_exit (run_production_service en cn rs config specs signals w) \<noteq> StillRunning"
proof (cases rule: service_cases [of en cn rs config specs signals w])
  case (early result)
  then show ?thesis by auto
next
  case (started gateway ws after instance_id out)
  let ?g = "gateway_works ws (gateway_start_begin gateway)"
  have fresh: "gateway_fresh gateway" by (rule service_gateway_fresh [OF started(1)])
  have timeout: "gy_timeout gateway = 60 * 1000000000"
    using started(1) by (auto simp: service_gateway_def make_gateway_def kInitialStartupTimeout_def split: option.splits if_splits)
  have met: "map sw_now ws = map (\<lambda>step. sw_now (snd step)) (sv_startup w)"
    "after = fold signal_loop (concat (map fst (sv_startup w))) signals"
    using met_signals [OF started(2)] by blast+
  then have len: "length ws = n + 7" using assms(2) by (metis length_map)
  have nows: "sw_now (ws ! i) = sw_now (snd (sv_startup w ! i))" if "i < n + 7" for i
    using that met(1) len assms(2) by (metis nth_map)
  have "gy_phase ?g = GpIdle \<and> gy_state ?g \<in> {GyServing, GyStopped}"
    by (rule start_ends [OF fresh assms(1) len]) (use assms(3) in \<open>simp add: nows len timeout cong: conj_cong\<close>)
  then have idle: "gy_phase ?g = GpIdle" by blast
  have "tg_requested (fold signal_loop (sv_waited w) after)"
    using assms(4) [of "concat (map fst (sv_startup w))"] by (simp add: met(2))
  then have "sr_exit (service_serving rs w (length specs) instance_id out s after ?g) \<noteq> StillRunning" for s
    using idle assms(5,6)
    by (auto simp: service_serving_def Let_def signals_wait_def service_end_returns stopping_returns split: option.split)
  moreover have "sr_exit (service_not_serving rs w out s ?g) \<noteq> StillRunning" for s
    using idle assms(6) by (simp add: service_not_serving_def service_end_returns split: option.split)
  ultimately show ?thesis
    unfolding started(3) using idle assms(6) by (auto simp: Let_def service_end_returns split: option.split)
qed

text \<open>C38: the program ends: once the clock has passed the startup timeout, a signal that asks for termination has arrived (or
  waiting for signals has failed), and the steps of the stop and of the destructor have been made, it has
  returned an exit status, whatever the products, the server, the exchanges and the configuration did.\<close>

theorem asked_program_ends:
  assumes "2 \<le> n" and "length (sv_startup (dw_service w)) = n + 7"
    and "\<forall>i. n \<le> i \<and> i < n + 7 \<longrightarrow> (\<exists>now. sw_now (snd (sv_startup (dw_service w) ! i)) = Some now
      \<and> (\<forall>j t. j < n \<and> sw_now (snd (sv_startup (dw_service w) ! j)) = Some t \<longrightarrow> t + 60 * 1000000000 \<le> now))"
    and "\<exists>r \<in> set (sv_waited (dw_service w)). asks r"
    and "3 \<le> length (sv_stop (dw_service w))" and "3 \<le> length (sv_destroy (dw_service w))"
  shows "sr_exit (gatewayd_main env cn rs sources w arguments) \<notin> {StillRunning, ServiceThrew}"
proof (cases "parse_daemon_config env arguments")
  case (Accepted config)
  have "sr_exit (run_daemon (da_numbers env) cn rs sources w config) \<noteq> StillRunning"
  proof (cases rule: daemon_cases [of "da_numbers env" cn rs sources w config])
    case (service signals metadata result)
    have "tg_requested (fold signal_loop (received @ sv_waited (dw_service w)) (fold signal_loop (dw_metadata_signals w) signals))"
      for received
    proof -
      have "tg_requested (fold signal_loop (dw_metadata_signals w @ received @ sv_waited (dw_service w)) signals)"
        unfolding signals_seen [OF service(1)] using assms(4) by auto
      then show ?thesis by simp
    qed
    from service_returns [OF assms(1-3) this assms(5,6)] have "sr_exit result \<noteq> StillRunning"
      unfolding service(3) [symmetric] .
    with service(4) show ?thesis by simp
  qed simp
  with Accepted daemon_status [of "da_numbers env" cn rs sources w config] show ?thesis
    by (auto simp: gatewayd_main_def)
qed (simp_all add: gatewayd_main_def program_ends_def)

section \<open>A failed wait for signals\<close>

text \<open>While the program starts, a failed wait for signals counts as a request to stop, and its status is success; while it
  serves, the status is failure.\<close>

lemma failed_wait_is_success_at_startup:
  assumes "fst (performance_baseline_preflight (sv_baseline_output (dw_service w)) config)"
    and "make_termination_signals (dw_signals_blocked w) (dw_thread_created w) = Some signals"
    and "acquire_production_metadata en (dc_market_keys config) sources = Inr metadata"
    and "SwFailed \<in> set (dw_metadata_signals w)"
  shows "sr_exit (run_daemon en cn rs sources w config) = Exit EXIT_SUCCESS"
    and "sr_exit (service_stopping rs' v out started SignalWaitError gateway) \<noteq> Exit EXIT_SUCCESS"
proof -
  have "tg_requested (fold signal_loop (dw_metadata_signals w) signals)"
    unfolding signals_seen [OF assms(2)] using assms(4) by (auto simp: asks_def)
  moreover obtain message where "performance_baseline_preflight (sv_baseline_output (dw_service w)) config = (True, message)"
    using assms(1) by (metis (full_types) prod.collapse)
  ultimately show "sr_exit (run_daemon en cn rs sources w config) = Exit EXIT_SUCCESS"
    using assms(2,3) by (simp add: run_daemon_def Let_def program_ends_def)
  show "sr_exit (service_stopping rs' v out started SignalWaitError gateway) \<noteq> Exit EXIT_SUCCESS"
    using stopping_success by blast
qed

section \<open>A program that served\<close>

definition example_served :: "unit service_world" where
  "example_served =
     \<lparr>sv_baseline_output = None, sv_entropy = [1, 2, 3, 4], sv_make_address = da_make_address example_environment,
      sv_server_made = True, sv_startup = replicate 7 ([], live_world),
      sv_observed = \<lparr>gv_selected_port = 50051, gv_tracked_contexts = 0, gv_products = []\<rparr>,
      sv_waited = [SwReceived SIGTERM], sv_stop = replicate 3 live_world,
      sv_final = \<lparr>gv_selected_port = 50051, gv_tracked_contexts = 0, gv_products = []\<rparr>, sv_destroy = []\<rparr>"

definition example_daemon_world :: "unit daemon_world" where
  "example_daemon_world =
     \<lparr>dw_signals_blocked = True, dw_thread_created = True, dw_metadata_signals = [], dw_service = example_served,
      dw_what = []\<rparr>"

definition example_unit_sources :: "unit report_sources" where
  "example_unit_sources =
     \<lparr>rs_venue_name = (\<lambda>_. ''BINANCE''), rs_market_name = (\<lambda>_. ''SPOT''),
      rs_adapter = (\<lambda>_. \<lparr>av_code = AcOther 0, av_field = AfNone, av_decimal = None, av_raw_enum = None\<rparr>),
      rs_gap = (\<lambda>_. \<lparr>gp_reason = GrOther 0, gp_policy = SpSpot, gp_last_accepted_final = 0, gp_incoming_first = 0,
        gp_incoming_final = 0, gp_incoming_previous_final = None\<rparr>)\<rparr>"

definition example_run :: "string list \<Rightarrow> service_result" where
  "example_run arguments = gatewayd_main example_environment example_daemon_construction example_unit_sources
     example_sources example_daemon_world arguments"

abbreviation "example_arguments \<equiv> [''--config'', ''gw.json'']"

lemma example_parsed: "parse_daemon_config example_environment example_arguments = Accepted example_loaded"
  by (simp add: parse_daemon_config_def example_loads)

definition minute_gateway :: production_gateway where
  "minute_gateway = example_gateway\<lparr>gy_timeout := 60 * 1000000000\<rparr>"

lemma example_service_gateway:
  fixes w :: "'x service_world"
  assumes "sv_make_address w = da_make_address example_environment" and "sv_server_made w"
  shows "service_gateway (da_numbers example_environment) example_daemon_construction example_loaded
     (make_product_runtime_specs (da_numbers example_environment) example_resolved) w = Some minute_gateway"
proof -
  let ?cn = "example_daemon_construction\<lparr>cn_gateway_instance_id := generate_gateway_instance_id (sv_entropy w)\<rparr>"
  have "make_product_set (da_numbers example_environment) ?cn
      (make_product_runtime_specs (da_numbers example_environment) example_resolved)
      \<noteq> (None :: (nat, 'x, unit) product_set option)"
    using accepted_products_construct [OF example_numbers_used example_loads example_acquired, of ?cn]
    by (auto simp: example_daemon_construction_def generate_gateway_instance_id_def)
  moreover have "valid_loopback_listen_address (da_make_address example_environment) ''127.0.0.1:50051'' False"
    using example_good by (simp add: config_good_def)
  ultimately show ?thesis
    using assms by (auto simp: service_gateway_def make_gateway_def minute_gateway_def example_gateway_def
        example_loaded_def kInitialStartupTimeout_def)
qed

lemma live_world_met [simp]: "live_world\<lparr>sw_external := Some False, sw_request_stop := False\<rparr> = live_world"
  by (simp add: live_world_def)

lemma minute_serving: "gateway_works (replicate 7 live_world) (gateway_start_begin minute_gateway) = minute_gateway
    \<lparr>gy_state := GyServing, gy_calls := [GcStartProducts, GcStartServer],
     gy_returned := Some (start_result_of ScServing None)\<rparr>"
  by (simp add: minute_gateway_def numeral_eq_Suc gateway_run_defs gateway_start_begin_def example_gateway_def)

definition minute_stopped :: production_gateway where
  "minute_stopped = minute_gateway
    \<lparr>gy_state := GyStopped, gy_stop_requested := True,
     gy_calls := [GcStartProducts, GcStartServer, GcShutdownServer, GcStopProducts],
     gy_returned := Some (start_result_of ScServing None)\<rparr>"

lemma minute_stopping: "gateway_works (replicate 3 live_world) (gateway_stop_begin (request_stop (minute_gateway
    \<lparr>gy_state := GyServing, gy_calls := [GcStartProducts, GcStartServer],
     gy_returned := Some (start_result_of ScServing None)\<rparr>))) = minute_stopped"
  by (simp add: minute_gateway_def minute_stopped_def numeral_eq_Suc gateway_run_defs gateway_stop_begin_def
      request_stop_def example_gateway_def)

lemma minute_gateway_idle: "gy_phase minute_gateway = GpIdle" "gy_state minute_gateway = GyConstructed"
  by (simp_all add: minute_gateway_def example_gateway_def)

lemma minute_stopped_again: "gateway_stop_begin minute_stopped = minute_stopped"
  by (simp add: gateway_stop_begin_def request_stop_def minute_stopped_def)

lemma example_served_run:
  "sr_exit (run_production_service (da_numbers example_environment) example_daemon_construction example_unit_sources
      example_loaded (make_product_runtime_specs (da_numbers example_environment) example_resolved)
      \<lparr>tg_requested = False, tg_signal = NoSignal, tg_stop_token = False, tg_looping = True\<rparr> example_served)
     = Exit EXIT_SUCCESS"
  "sr_started (run_production_service (da_numbers example_environment) example_daemon_construction example_unit_sources
      example_loaded (make_product_runtime_specs (da_numbers example_environment) example_resolved)
      \<lparr>tg_requested = False, tg_signal = NoSignal, tg_stop_token = False, tg_looping = True\<rparr> example_served)
     = Some \<lparr>gs_code = ScServing, gs_product = None\<rparr>"
  "sr_gateway (run_production_service (da_numbers example_environment) example_daemon_construction example_unit_sources
      example_loaded (make_product_runtime_specs (da_numbers example_environment) example_resolved)
      \<lparr>tg_requested = False, tg_signal = NoSignal, tg_stop_token = False, tg_looping = True\<rparr> example_served)
     = Some minute_stopped"
proof -
  let ?s = "\<lparr>tg_requested = False, tg_signal = NoSignal, tg_stop_token = False, tg_looping = True\<rparr>"
  let ?specs = "make_product_runtime_specs (da_numbers example_environment) example_resolved"
  let ?run = "run_production_service (da_numbers example_environment) example_daemon_construction example_unit_sources
      example_loaded ?specs ?s example_served"
  have pre: "performance_baseline_preflight (sv_baseline_output example_served) example_loaded = (True, [])"
    by (simp add: performance_baseline_preflight_def example_served_def)
  have met: "meet_signals (sv_startup example_served) ?s = (replicate 7 live_world, ?s)"
    by (simp add: example_served_def numeral_eq_Suc)
  have made: "service_gateway (da_numbers example_environment) example_daemon_construction example_loaded ?specs
      example_served = Some minute_gateway"
    by (rule example_service_gateway) (simp_all add: example_served_def)
  have waited: "signals_wait (fold signal_loop (sv_waited example_served) ?s) = Some (SignalSeen SIGTERM)"
    by (simp add: example_served_def signal_loop_def signals_wait_def)
  have views: "gateway_observe g (sv_observed example_served) = Some \<lparr>go_state = gy_state g, go_selected_port = 50051,
      go_tracked_contexts = 0, go_context_limit = kMaximumGrpcTrackedContexts, go_products = []\<rparr>"
    "sv_final example_served = sv_observed example_served" for g
    by (simp_all add: gateway_observe_def example_served_def)
  have steps: "sv_stop example_served = replicate 3 live_world" "sv_destroy example_served = []"
    by (simp_all add: example_served_def)
  have "minute_stopped = gateway_works [] (gateway_stop_begin minute_stopped)"
    by (simp only: minute_stopped_again gateway_works.simps)
  moreover have "gy_phase minute_stopped = GpIdle"
    by (simp add: minute_stopped_def minute_gateway_idle)
  ultimately have ends: "service_end example_served result out errors started minute_stopped =
      \<lparr>sr_exit = result, sr_output = out, sr_errors = errors, sr_started = started, sr_gateway = Some minute_stopped\<rparr>"
    for result out errors started
    by (simp add: service_end_def steps Let_def)
  show "sr_exit ?run = Exit EXIT_SUCCESS" "sr_started ?run = Some \<lparr>gs_code = ScServing, gs_product = None\<rparr>"
    "sr_gateway ?run = Some minute_stopped"
    using \<open>gy_phase minute_stopped = GpIdle\<close>
    by (simp_all add: run_production_service_def pre met made Let_def minute_serving minute_gateway_idle
        start_result_of_def service_serving_def waited service_stopping_def steps
        minute_stopping [unfolded start_result_of_def] ends views)
qed

lemma example_run_facts:
  "sr_exit (example_run example_arguments) = Exit EXIT_SUCCESS"
  "sr_started (example_run example_arguments) = Some \<lparr>gs_code = ScServing, gs_product = None\<rparr>"
  "sr_gateway (example_run example_arguments) = Some minute_stopped"
  by (simp_all add: example_run_def gatewayd_main_def example_parsed run_daemon_def performance_baseline_preflight_def
      example_daemon_world_def make_termination_signals_def Let_def example_acquired example_served_run
      , simp_all add: example_served_def)

theorem ended_program_is_quiet_witness:
  "\<exists>p. p \<in> set (sy_products example_halted) \<and> rt_owner (pd_runtime p) = OwnerExited"
proof -
  have calls: "product_calls (gy_calls minute_stopped) = [set_call.CallStart, set_call.CallStop]" by (simp add: minute_stopped_def)
  have r: "reachable (set_init example_numbers example_construction [hd example_specs]
      (product_calls (gy_calls minute_stopped))) (set_step toy_ops (\<lambda>_. None)) example_halted"
    unfolding example_halted_def calls
    by (intro turns_reachable reach_init) (rule example_start)
  have p: "sy_products example_halted ! 0 \<in> set (sy_products example_halted)"
    using example_halted_facts(3) by simp
  have "sr_exit (example_run example_arguments) \<noteq> StillRunning" by (simp add: example_run_facts)
  from ended_program_is_quiet [OF example_run_facts(3) [unfolded example_run_def] this [unfolded example_run_def] r
      example_halted_facts(1,2) p] p example_halted_facts(4) show ?thesis by blast
qed


text \<open>A program whose product never comes to life.\<close>

definition example_failing_world :: "unit daemon_world" where
  "example_failing_world = example_daemon_world\<lparr>dw_service := example_served
     \<lparr>sv_startup := replicate 2 ([], silent_world 0) @ replicate 7 ([], silent_world (60 * 1000000000)),
      sv_destroy := replicate 3 live_world\<rparr>\<rparr>"

theorem asked_program_ends_witness:
  "sr_exit (gatewayd_main example_environment example_daemon_construction example_unit_sources
     example_sources example_failing_world example_arguments) \<notin> {StillRunning, ServiceThrew}"
proof (rule asked_program_ends [of 2])
  let ?startup = "replicate 2 ([], silent_world 0) @ replicate 7 ([], silent_world (60 * 1000000000))"
  have startup: "sv_startup (dw_service example_failing_world) = ?startup" by (simp add: example_failing_world_def)
  show "length (sv_startup (dw_service example_failing_world)) = 2 + 7" by (simp add: startup)
  have early: "sw_now (snd (?startup ! k)) = Some 0" if "k < 2" for k using that by (simp add: nth_append)
  have late: "sw_now (snd (?startup ! k)) = Some (60 * 1000000000)" if "2 \<le> k" "k < 9" for k
    using that by (simp add: nth_append)
  show "\<forall>i. 2 \<le> i \<and> i < 2 + 7 \<longrightarrow> (\<exists>now. sw_now (snd (sv_startup (dw_service example_failing_world) ! i)) = Some now
      \<and> (\<forall>j t. j < 2 \<and> sw_now (snd (sv_startup (dw_service example_failing_world) ! j)) = Some t
           \<longrightarrow> t + 60 * 1000000000 \<le> now))"
    unfolding startup
  proof (intro allI impI, elim conjE)
    fix i :: nat
    assume "2 \<le> i" and "i < 2 + 7"
    then have "sw_now (snd (?startup ! i)) = Some (60 * 1000000000)" by (intro late) simp_all
    moreover have "t + 60 * 1000000000 \<le> 60 * 1000000000"
      if "j < 2 \<and> sw_now (snd (?startup ! j)) = Some t" for j t
    proof -
      from that have "sw_now (snd (?startup ! j)) = Some 0" by (intro early) blast
      with that have "Some t = Some 0" by metis
      then show ?thesis by simp
    qed
    ultimately show "\<exists>now. sw_now (snd (?startup ! i)) = Some now
        \<and> (\<forall>j t. j < 2 \<and> sw_now (snd (?startup ! j)) = Some t \<longrightarrow> t + 60 * 1000000000 \<le> now)" by blast
  qed
qed (simp_all add: example_failing_world_def example_daemon_world_def example_served_def asks_def)

theorem exit_status_means_witness:
  "\<exists>r \<in> set (signals_delivered example_daemon_world). asks r"
proof -
  have "sr_exit (gatewayd_main example_environment example_daemon_construction example_unit_sources
      example_sources example_daemon_world example_arguments) = Exit EXIT_SUCCESS"
    using example_run_facts(1) by (simp only: example_run_def)
  with exit_status_means [of example_environment example_daemon_construction example_unit_sources
      example_sources example_daemon_world example_arguments] show ?thesis by auto
qed

end
