(* ===== verification/PerformanceBaseline.thy ===== *)
theory PerformanceBaseline
  imports Wire
begin

text \<open>
  The trace buffer of the performance baseline, \<open>src/src/performance/performance_baseline.{hpp,cpp}\<close>, which a
  build with measurements gives to every product. A pointer to a buffer is its address.
\<close>

section \<open>Values\<close>

datatype performance_product = PpSpot | PpUsdMPerpetual

datatype t3_disposition =
    T3Unobserved | T3Applied | T3IgnoredStale | T3IgnoredDuplicate | T3GapDetected | T3RejectedWrongState
  | T3AdapterFailure | T3InternalFailure

datatype delivery_kind = DkOrderBook | DkEvent

record performance_limits =
  pf_trace_capacity :: nat
  pf_delivery_capacity_per_kind :: nat

definition default_performance_limits :: performance_limits where
  "default_performance_limits = \<lparr>pf_trace_capacity = 16384, pf_delivery_capacity_per_kind = 32768\<rparr>"

record trace_token =
  tk_owner :: "nat option"
  tk_row :: u32
  tk_trace_id :: u64

definition trace_token_valid :: "trace_token \<Rightarrow> bool" where
  "trace_token_valid token \<longleftrightarrow> tk_owner token \<noteq> None \<and> tk_trace_id token \<noteq> 0"

definition no_trace :: trace_token where
  "no_trace = \<lparr>tk_owner = None, tk_row = 0, tk_trace_id = 0\<rparr>"

record delivery_token =
  dl_owner :: "nat option"
  dl_kind :: delivery_kind
  dl_row :: u32

definition no_delivery :: delivery_token where
  "no_delivery = \<lparr>dl_owner = None, dl_kind = DkOrderBook, dl_row = 0\<rparr>"

record trace_evidence =
  te_trace_id :: u64
  te_t0_ns :: u64
  te_t1_ns :: u64
  te_q_ns :: u64
  te_t2_ns :: u64
  te_t3_ns :: u64
  te_ingress_occupancy_q :: nat
  te_t3_disposition :: t3_disposition
  te_stage_mask :: u8

definition empty_trace :: trace_evidence where
  "empty_trace = \<lparr>te_trace_id = 0, te_t0_ns = 0, te_t1_ns = 0, te_q_ns = 0, te_t2_ns = 0, te_t3_ns = 0,
     te_ingress_occupancy_q = 0, te_t3_disposition = T3Unobserved, te_stage_mask = 0\<rparr>"

record delivery_evidence =
  de_trace_id :: u64
  de_subscriber_ordinal :: u64
  de_session_sequence :: u64
  de_t4_ns :: u64
  de_t5_ns :: u64
  de_queue_occupancy_t4 :: nat
  de_t5_observed :: bool

definition empty_delivery :: delivery_evidence where
  "empty_delivery = \<lparr>de_trace_id = 0, de_subscriber_ordinal = 0, de_session_sequence = 0, de_t4_ns = 0,
     de_t5_ns = 0, de_queue_occupancy_t4 = 0, de_t5_observed = False\<rparr>"

record queue_evidence =
  qe_ingress_max_occupancy :: nat
  qe_ingress_full_count :: u64
  qe_order_book_max_occupancy :: nat
  qe_order_book_full_terminalization_count :: u64
  qe_event_max_occupancy :: nat
  qe_event_full_terminalization_count :: u64

record trace_buffer =
  tb_self :: nat
  tb_product :: performance_product
  tb_limits :: performance_limits
  tb_traces :: "trace_evidence list"
  tb_order_book_deliveries :: "delivery_evidence list"
  tb_event_deliveries :: "delivery_evidence list"
  tb_trace_count :: nat
  tb_order_book_delivery_count :: nat
  tb_event_delivery_count :: nat
  tb_trace_storage_overflow :: u64
  tb_order_book_delivery_overflow :: u64
  tb_event_delivery_overflow :: u64
  tb_clock_error_count :: u64
  tb_queue_evidence :: queue_evidence

definition kT0 :: u8 where "kT0 = 1"
definition kT1 :: u8 where "kT1 = 2"
definition kQ :: u8 where "kQ = 4"
definition kT2 :: u8 where "kT2 = 8"
definition kT3 :: u8 where "kT3 = 16"

section \<open>Recording\<close>

definition make_trace_buffer ::
  "nat \<Rightarrow> performance_product \<Rightarrow> bool \<Rightarrow> performance_limits \<Rightarrow> trace_buffer option" where
  "make_trace_buffer self product has_clock limits =
     (if \<not> has_clock \<or> pf_trace_capacity limits = 0 \<or> pf_delivery_capacity_per_kind limits = 0
         \<or> pf_trace_capacity limits > 4294967295 \<or> pf_delivery_capacity_per_kind limits > 4294967295
      then None
      else Some
        \<lparr>tb_self = self, tb_product = product, tb_limits = limits,
         tb_traces = replicate (pf_trace_capacity limits) empty_trace,
         tb_order_book_deliveries = replicate (pf_delivery_capacity_per_kind limits) empty_delivery,
         tb_event_deliveries = replicate (pf_delivery_capacity_per_kind limits) empty_delivery,
         tb_trace_count = 0, tb_order_book_delivery_count = 0, tb_event_delivery_count = 0,
         tb_trace_storage_overflow = 0, tb_order_book_delivery_overflow = 0, tb_event_delivery_overflow = 0,
         tb_clock_error_count = 0,
         tb_queue_evidence = \<lparr>qe_ingress_max_occupancy = 0, qe_ingress_full_count = 0,
           qe_order_book_max_occupancy = 0, qe_order_book_full_terminalization_count = 0,
           qe_event_max_occupancy = 0, qe_event_full_terminalization_count = 0\<rparr>\<rparr>)"

text \<open>\<open>None\<close> is an exception of the clock.\<close>

definition sample_monotonic :: "u64 option \<Rightarrow> trace_buffer \<Rightarrow> u64 \<times> trace_buffer" where
  "sample_monotonic reading st =
     (case reading of Some t \<Rightarrow> (t, st)
      | None \<Rightarrow> (0, st\<lparr>tb_clock_error_count := tb_clock_error_count st + 1\<rparr>))"

definition begin_trace :: "u64 \<Rightarrow> u64 \<Rightarrow> trace_buffer \<Rightarrow> trace_token \<times> trace_buffer" where
  "begin_trace t0_ns t1_ns st =
     (if tb_trace_count st = length (tb_traces st)
      then (no_trace, st\<lparr>tb_trace_storage_overflow := tb_trace_storage_overflow st + 1\<rparr>)
      else
        let row = tb_trace_count st; trace_id = of_nat row + 1 in
        (\<lparr>tk_owner = Some (tb_self st), tk_row = of_nat row, tk_trace_id = trace_id\<rparr>,
         st\<lparr>tb_trace_count := row + 1,
            tb_traces := (tb_traces st)[row := empty_trace
              \<lparr>te_trace_id := trace_id, te_t0_ns := t0_ns, te_t1_ns := t1_ns, te_stage_mask := or kT0 kT1\<rparr>]\<rparr>))"

text \<open>The row a token stands for.\<close>

definition resolve :: "trace_token \<Rightarrow> trace_buffer \<Rightarrow> nat option" where
  "resolve trace st =
     (if \<not> trace_token_valid trace \<or> tk_owner trace \<noteq> Some (tb_self st) \<or> unat (tk_row trace) \<ge> length (tb_traces st)
      then None
      else if te_trace_id (tb_traces st ! unat (tk_row trace)) = tk_trace_id trace then Some (unat (tk_row trace))
      else None)"

abbreviation at_row :: "nat \<Rightarrow> (trace_evidence \<Rightarrow> trace_evidence) \<Rightarrow> trace_buffer \<Rightarrow> trace_buffer" where
  "at_row row f st \<equiv> st\<lparr>tb_traces := (tb_traces st)[row := f (tb_traces st ! row)]\<rparr>"

definition record_q :: "trace_token \<Rightarrow> nat \<Rightarrow> u64 option \<Rightarrow> trace_buffer \<Rightarrow> trace_buffer" where
  "record_q trace occupancy reading st =
     (case resolve trace st of None \<Rightarrow> st
      | Some row \<Rightarrow>
          let (t, st) = sample_monotonic reading st;
              st = at_row row (\<lambda>e. e\<lparr>te_q_ns := t, te_ingress_occupancy_q := occupancy,
                     te_stage_mask := or (te_stage_mask e) kQ\<rparr>) st
          in st\<lparr>tb_queue_evidence := tb_queue_evidence st
                  \<lparr>qe_ingress_max_occupancy := max (qe_ingress_max_occupancy (tb_queue_evidence st)) occupancy\<rparr>\<rparr>)"

definition record_t2 :: "trace_token \<Rightarrow> u64 option \<Rightarrow> trace_buffer \<Rightarrow> trace_buffer" where
  "record_t2 trace reading st =
     (case resolve trace st of None \<Rightarrow> st
      | Some row \<Rightarrow>
          let (t, st) = sample_monotonic reading st
          in at_row row (\<lambda>e. e\<lparr>te_t2_ns := t, te_stage_mask := or (te_stage_mask e) kT2\<rparr>) st)"

definition record_t3 :: "trace_token \<Rightarrow> t3_disposition \<Rightarrow> u64 option \<Rightarrow> trace_buffer \<Rightarrow> trace_buffer" where
  "record_t3 trace disposition reading st =
     (case resolve trace st of None \<Rightarrow> st
      | Some row \<Rightarrow>
          let (t, st) = sample_monotonic reading st
          in at_row row (\<lambda>e. e\<lparr>te_t3_ns := t, te_t3_disposition := disposition,
               te_stage_mask := or (te_stage_mask e) kT3\<rparr>) st)"

fun delivery_storage :: "delivery_kind \<Rightarrow> trace_buffer \<Rightarrow> delivery_evidence list" where
  "delivery_storage DkOrderBook st = tb_order_book_deliveries st"
| "delivery_storage DkEvent st = tb_event_deliveries st"

fun delivery_size :: "delivery_kind \<Rightarrow> trace_buffer \<Rightarrow> nat" where
  "delivery_size DkOrderBook st = tb_order_book_delivery_count st"
| "delivery_size DkEvent st = tb_event_delivery_count st"

fun set_delivery_storage :: "delivery_kind \<Rightarrow> delivery_evidence list \<Rightarrow> trace_buffer \<Rightarrow> trace_buffer" where
  "set_delivery_storage DkOrderBook storage st = st\<lparr>tb_order_book_deliveries := storage\<rparr>"
| "set_delivery_storage DkEvent storage st = st\<lparr>tb_event_deliveries := storage\<rparr>"

fun set_delivery_size :: "delivery_kind \<Rightarrow> nat \<Rightarrow> trace_buffer \<Rightarrow> trace_buffer" where
  "set_delivery_size DkOrderBook n st = st\<lparr>tb_order_book_delivery_count := n\<rparr>"
| "set_delivery_size DkEvent n st = st\<lparr>tb_event_delivery_count := n\<rparr>"

fun note_delivery_occupancy :: "delivery_kind \<Rightarrow> nat \<Rightarrow> queue_evidence \<Rightarrow> queue_evidence" where
  "note_delivery_occupancy DkOrderBook occupancy q =
     q\<lparr>qe_order_book_max_occupancy := max (qe_order_book_max_occupancy q) occupancy\<rparr>"
| "note_delivery_occupancy DkEvent occupancy q =
     q\<lparr>qe_event_max_occupancy := max (qe_event_max_occupancy q) occupancy\<rparr>"

fun note_delivery_overflow :: "delivery_kind \<Rightarrow> trace_buffer \<Rightarrow> trace_buffer" where
  "note_delivery_overflow DkOrderBook st =
     st\<lparr>tb_order_book_delivery_overflow := tb_order_book_delivery_overflow st + 1\<rparr>"
| "note_delivery_overflow DkEvent st = st\<lparr>tb_event_delivery_overflow := tb_event_delivery_overflow st + 1\<rparr>"

definition record_t4 ::
  "trace_token \<Rightarrow> delivery_kind \<Rightarrow> u64 \<Rightarrow> u64 \<Rightarrow> nat \<Rightarrow> u64 option \<Rightarrow> trace_buffer \<Rightarrow> delivery_token \<times> trace_buffer" where
  "record_t4 trace kind subscriber_ordinal session_sequence occupancy reading st =
     (if resolve trace st = None then (no_delivery, st)
      else if delivery_size kind st = length (delivery_storage kind st)
      then (no_delivery, note_delivery_overflow kind st)
      else
        let row = delivery_size kind st;
            (t, st) = sample_monotonic reading (set_delivery_size kind (row + 1) st);
            evidence = \<lparr>de_trace_id = tk_trace_id trace, de_subscriber_ordinal = subscriber_ordinal,
              de_session_sequence = session_sequence, de_t4_ns = t, de_t5_ns = 0,
              de_queue_occupancy_t4 = occupancy, de_t5_observed = False\<rparr>;
            st = set_delivery_storage kind ((delivery_storage kind st)[row := evidence]) st
        in (\<lparr>dl_owner = Some (tb_self st), dl_kind = kind, dl_row = of_nat row\<rparr>,
            st\<lparr>tb_queue_evidence := note_delivery_occupancy kind occupancy (tb_queue_evidence st)\<rparr>))"

definition record_t5 :: "delivery_token \<Rightarrow> u64 option \<Rightarrow> trace_buffer \<Rightarrow> trace_buffer" where
  "record_t5 delivery reading st =
     (if dl_owner delivery \<noteq> Some (tb_self st) then st
      else
        let storage = delivery_storage (dl_kind delivery) st; row = unat (dl_row delivery) in
        if row \<ge> length storage \<or> de_trace_id (storage ! row) = 0 then st
        else
          let (t, st) = sample_monotonic reading st
          in set_delivery_storage (dl_kind delivery)
               ((delivery_storage (dl_kind delivery) st)[row := (storage ! row)\<lparr>de_t5_ns := t, de_t5_observed := True\<rparr>]) st)"

definition record_ingress_full :: "trace_buffer \<Rightarrow> trace_buffer" where
  "record_ingress_full st = st\<lparr>tb_queue_evidence := tb_queue_evidence st
     \<lparr>qe_ingress_full_count := qe_ingress_full_count (tb_queue_evidence st) + 1\<rparr>\<rparr>"

fun record_delivery_full :: "delivery_kind \<Rightarrow> trace_buffer \<Rightarrow> trace_buffer" where
  "record_delivery_full DkOrderBook st = st\<lparr>tb_queue_evidence := tb_queue_evidence st
     \<lparr>qe_order_book_full_terminalization_count := qe_order_book_full_terminalization_count (tb_queue_evidence st) + 1\<rparr>\<rparr>"
| "record_delivery_full DkEvent st = st\<lparr>tb_queue_evidence := tb_queue_evidence st
     \<lparr>qe_event_full_terminalization_count := qe_event_full_terminalization_count (tb_queue_evidence st) + 1\<rparr>\<rparr>"

definition delivery_storage_overflow :: "trace_buffer \<Rightarrow> u64" where
  "delivery_storage_overflow st = tb_order_book_delivery_overflow st + tb_event_delivery_overflow st"

definition evidence_valid :: "trace_buffer \<Rightarrow> bool" where
  "evidence_valid st \<longleftrightarrow>
     tb_trace_storage_overflow st = 0 \<and> delivery_storage_overflow st = 0 \<and> tb_clock_error_count st = 0"

text \<open>\<open>trace\<close>; \<open>None\<close> is its exception.\<close>

definition trace_at :: "nat \<Rightarrow> trace_buffer \<Rightarrow> trace_evidence option" where
  "trace_at index st = (if index \<ge> tb_trace_count st then None else Some (tb_traces st ! index))"

section \<open>The report\<close>

fun performance_product_name :: "performance_product \<Rightarrow> string" where
  "performance_product_name PpSpot = ''BINANCE/SPOT/BTCUSDT''"
| "performance_product_name PpUsdMPerpetual = ''BINANCE/USD_M_PERPETUAL/BTCUSDT''"

fun t3_disposition_name :: "t3_disposition \<Rightarrow> string" where
  "t3_disposition_name T3Unobserved = ''unobserved''"
| "t3_disposition_name T3Applied = ''applied''"
| "t3_disposition_name T3IgnoredStale = ''ignored_stale''"
| "t3_disposition_name T3IgnoredDuplicate = ''ignored_duplicate''"
| "t3_disposition_name T3GapDetected = ''gap_detected''"
| "t3_disposition_name T3RejectedWrongState = ''rejected_wrong_state''"
| "t3_disposition_name T3AdapterFailure = ''adapter_failure''"
| "t3_disposition_name T3InternalFailure = ''internal_failure''"

fun delivery_kind_name :: "delivery_kind \<Rightarrow> string" where
  "delivery_kind_name DkOrderBook = ''order_book''"
| "delivery_kind_name DkEvent = ''event''"

abbreviation stage_seen :: "trace_evidence \<Rightarrow> u8 \<Rightarrow> bool" where
  "stage_seen evidence stage \<equiv> and (te_stage_mask evidence) stage \<noteq> 0"

definition missing_trace_stage :: "trace_evidence \<Rightarrow> string" where
  "missing_trace_stage evidence =
     (if \<not> stage_seen evidence kT0 then ''t0_not_observed''
      else if \<not> stage_seen evidence kT1 then ''transport_parse_not_completed''
      else if \<not> stage_seen evidence kQ then ''runtime_enqueue_not_accepted''
      else if \<not> stage_seen evidence kT2 then ''owner_not_dequeued''
      else if \<not> stage_seen evidence kT3 then ''projection_not_completed_before_shutdown_or_reset''
      else ''none'')"

definition missing_event_delivery :: "nat \<Rightarrow> bool \<Rightarrow> string" where
  "missing_event_delivery delivery_count delivery_evidence_lost =
     (if delivery_count \<noteq> 0 then ''none''
      else if delivery_evidence_lost then ''no_recorded_delivery_or_delivery_storage_overflow''
      else ''no_matching_subscriber'')"

definition missing_book_delivery :: "trace_evidence \<Rightarrow> nat \<Rightarrow> bool \<Rightarrow> string" where
  "missing_book_delivery evidence delivery_count delivery_evidence_lost =
     (if delivery_count \<noteq> 0 then ''none''
      else if \<not> stage_seen evidence kT3 then ''projection_not_completed''
      else if te_t3_disposition evidence \<noteq> T3Applied then ''projection_disposition_not_applied''
      else if delivery_evidence_lost then ''no_recorded_delivery_or_delivery_storage_overflow''
      else ''no_matching_subscriber'')"

text \<open>A line is a JSON object; its members are written as they are given here.\<close>

definition quoted :: "string \<Rightarrow> string" where
  "quoted s = [CHR 0x22] @ s @ [CHR 0x22]"

fun json_members :: "(string \<times> string) list \<Rightarrow> string" where
  "json_members [] = []"
| "json_members [(name, contents)] = quoted name @ '':'' @ contents"
| "json_members ((name, contents) # rest) = quoted name @ '':'' @ contents @ '','' @ json_members rest"

definition json_line :: "(string \<times> string) list \<Rightarrow> string" where
  "json_line members = ''{'' @ json_members members @ ''}'' @ [CHR 0x0A]"

definition optional_time :: "string \<Rightarrow> u64 \<Rightarrow> bool \<Rightarrow> string \<times> string" where
  "optional_time name t present = (name, if present then to_string_u64 t else ''null'')"

definition campaign_members :: "trace_buffer \<Rightarrow> (string \<times> string) list" where
  "campaign_members st =
     [(''record'', quoted ''campaign''), (''schema'', quoted ''bmd-gateway-performance-baseline.v1''),
      (''product'', quoted (performance_product_name (tb_product st))),
      (''trace_capacity'', nat_digits (length (tb_traces st))),
      (''delivery_capacity_per_kind'', nat_digits (pf_delivery_capacity_per_kind (tb_limits st))),
      (''trace_count'', nat_digits (tb_trace_count st)),
      (''trace_storage_overflow'', to_string_u64 (tb_trace_storage_overflow st)),
      (''delivery_storage_overflow'', to_string_u64 (delivery_storage_overflow st)),
      (''clock_error_count'', to_string_u64 (tb_clock_error_count st)),
      (''evidence_valid'', if evidence_valid st then ''true'' else ''false''),
      (''ingress_max_occupancy'', nat_digits (qe_ingress_max_occupancy (tb_queue_evidence st))),
      (''ingress_full_count'', to_string_u64 (qe_ingress_full_count (tb_queue_evidence st))),
      (''order_book_max_occupancy'', nat_digits (qe_order_book_max_occupancy (tb_queue_evidence st))),
      (''order_book_full_terminalization_count'',
         to_string_u64 (qe_order_book_full_terminalization_count (tb_queue_evidence st))),
      (''event_max_occupancy'', nat_digits (qe_event_max_occupancy (tb_queue_evidence st))),
      (''event_full_terminalization_count'',
         to_string_u64 (qe_event_full_terminalization_count (tb_queue_evidence st)))]"

definition count_delivery :: "nat list \<Rightarrow> u64 \<Rightarrow> nat list" where
  "count_delivery counts trace_id =
     (if trace_id \<noteq> 0 \<and> unat trace_id \<le> length counts
      then counts[unat (trace_id - 1) := counts ! unat (trace_id - 1) + 1] else counts)"

definition count_deliveries :: "delivery_kind \<Rightarrow> trace_buffer \<Rightarrow> nat list" where
  "count_deliveries kind st =
     foldl (\<lambda>counts index. count_delivery counts (de_trace_id (delivery_storage kind st ! index)))
       (replicate (tb_trace_count st) 0) [0..<delivery_size kind st]"

definition trace_members :: "trace_buffer \<Rightarrow> nat list \<Rightarrow> nat list \<Rightarrow> nat \<Rightarrow> (string \<times> string) list" where
  "trace_members st book_counts event_counts index =
     (let evidence = tb_traces st ! index in
      [(''record'', quoted ''trace''), (''product'', quoted (performance_product_name (tb_product st))),
       (''trace_id'', to_string_u64 (te_trace_id evidence)),
       optional_time ''t0_ns'' (te_t0_ns evidence) (stage_seen evidence kT0),
       optional_time ''t1_ns'' (te_t1_ns evidence) (stage_seen evidence kT1),
       optional_time ''q_ns'' (te_q_ns evidence) (stage_seen evidence kQ),
       optional_time ''t2_ns'' (te_t2_ns evidence) (stage_seen evidence kT2),
       optional_time ''t3_ns'' (te_t3_ns evidence) (stage_seen evidence kT3),
       (''t3_disposition'', quoted (t3_disposition_name (te_t3_disposition evidence))),
       (''ingress_occupancy_q'', nat_digits (te_ingress_occupancy_q evidence)),
       (''book_delivery_count'', nat_digits (book_counts ! index)),
       (''event_delivery_count'', nat_digits (event_counts ! index)),
       (''missing_book_delivery_reason'',
          quoted (missing_book_delivery evidence (book_counts ! index) (tb_order_book_delivery_overflow st \<noteq> 0))),
       (''missing_event_delivery_reason'',
          quoted (missing_event_delivery (event_counts ! index) (tb_event_delivery_overflow st \<noteq> 0))),
       (''missing_stage_reason'', quoted (missing_trace_stage evidence))])"

definition delivery_members :: "trace_buffer \<Rightarrow> delivery_kind \<Rightarrow> delivery_evidence \<Rightarrow> (string \<times> string) list" where
  "delivery_members st kind evidence =
     [(''record'', quoted ''delivery''), (''product'', quoted (performance_product_name (tb_product st))),
      (''kind'', quoted (delivery_kind_name kind)), (''trace_id'', to_string_u64 (de_trace_id evidence)),
      (''subscriber_ordinal'', to_string_u64 (de_subscriber_ordinal evidence)),
      (''session_sequence'', to_string_u64 (de_session_sequence evidence)),
      (''t4_ns'', to_string_u64 (de_t4_ns evidence)),
      optional_time ''t5_ns'' (de_t5_ns evidence) (de_t5_observed evidence),
      (''queue_occupancy_t4'', nat_digits (de_queue_occupancy_t4 evidence)),
      (''missing_stage_reason'', quoted (if de_t5_observed evidence then ''none'' else ''grpc_write_not_completed''))]"

definition write_deliveries :: "trace_buffer \<Rightarrow> delivery_kind \<Rightarrow> string" where
  "write_deliveries st kind =
     concat (map (\<lambda>index. json_line (delivery_members st kind (delivery_storage kind st ! index)))
       [0..<delivery_size kind st])"

definition write_json_lines :: "trace_buffer \<Rightarrow> string" where
  "write_json_lines st =
     (let book_counts = count_deliveries DkOrderBook st; event_counts = count_deliveries DkEvent st in
      json_line (campaign_members st)
      @ concat (map (\<lambda>index. json_line (trace_members st book_counts event_counts index)) [0..<tb_trace_count st])
      @ write_deliveries st DkOrderBook @ write_deliveries st DkEvent)"

section \<open>What a buffer knows\<close>

text \<open>The calls on a buffer. The tokens are arbitrary: of this buffer, of another one, or empty.\<close>

datatype trace_call =
    TcBegin u64 u64 | TcQ trace_token nat "u64 option" | TcT2 trace_token "u64 option"
  | TcT3 trace_token t3_disposition "u64 option"
  | TcT4 trace_token delivery_kind u64 u64 nat "u64 option" | TcT5 delivery_token "u64 option"
  | TcIngressFull | TcDeliveryFull delivery_kind

fun perform_trace_call :: "trace_call \<Rightarrow> trace_buffer \<Rightarrow> trace_buffer" where
  "perform_trace_call (TcBegin t0 t1) st = snd (begin_trace t0 t1 st)"
| "perform_trace_call (TcQ trace occupancy reading) st = record_q trace occupancy reading st"
| "perform_trace_call (TcT2 trace reading) st = record_t2 trace reading st"
| "perform_trace_call (TcT3 trace disposition reading) st = record_t3 trace disposition reading st"
| "perform_trace_call (TcT4 trace kind ordinal sequence occupancy reading) st =
     snd (record_t4 trace kind ordinal sequence occupancy reading st)"
| "perform_trace_call (TcT5 delivery reading) st = record_t5 delivery reading st"
| "perform_trace_call TcIngressFull st = record_ingress_full st"
| "perform_trace_call (TcDeliveryFull kind) st = record_delivery_full kind st"

fun begins :: "trace_call list \<Rightarrow> (u64 \<times> u64) list" where
  "begins [] = []"
| "begins (TcBegin t0 t1 # calls) = (t0, t1) # begins calls"
| "begins (_ # calls) = begins calls"

lemma begins_append [simp]: "begins (xs @ ys) = begins xs @ begins ys"
  by (induction xs rule: begins.induct) simp_all

lemma begins_length: "length (begins calls) \<le> length calls"
  by (induction calls rule: begins.induct) simp_all

definition deliveries_ok :: "delivery_kind \<Rightarrow> trace_buffer \<Rightarrow> bool" where
  "deliveries_ok kind st \<longleftrightarrow> delivery_size kind st \<le> length (delivery_storage kind st)
     \<and> (\<forall>j < delivery_size kind st. 0 < unat (de_trace_id (delivery_storage kind st ! j))
          \<and> unat (de_trace_id (delivery_storage kind st ! j)) \<le> tb_trace_count st)"

definition traces_ok :: "(u64 \<times> u64) list \<Rightarrow> trace_buffer \<Rightarrow> bool" where
  "traces_ok begun st \<longleftrightarrow> length (tb_traces st) \<le> 4294967295
     \<and> tb_trace_count st = min (length begun) (length (tb_traces st))
     \<and> tb_trace_storage_overflow st = of_nat (length begun - length (tb_traces st))
     \<and> (\<forall>i < length (tb_traces st). te_trace_id (tb_traces st ! i) = (if i < tb_trace_count st then of_nat i + 1 else 0))
     \<and> (\<forall>i < tb_trace_count st. (te_t0_ns (tb_traces st ! i), te_t1_ns (tb_traces st ! i)) = begun ! i)"

definition buffer_ok :: "nat \<Rightarrow> trace_call list \<Rightarrow> trace_buffer \<Rightarrow> bool" where
  "buffer_ok capacity calls st \<longleftrightarrow> length (tb_traces st) = capacity \<and> traces_ok (begins calls) st
     \<and> deliveries_ok DkOrderBook st \<and> deliveries_ok DkEvent st"

lemma row_id: "i < 4294967295 \<Longrightarrow> unat (of_nat i + 1 :: u64) = Suc i"
proof -
  assume "i < 4294967295"
  then have "unat (of_nat (Suc i) :: u64) = Suc i" by (simp only: unat_of_nat) simp
  then show ?thesis by (simp add: add.commute)
qed

lemma resolved:
  assumes "traces_ok begun st" and "resolve trace st = Some row"
  shows "row < tb_trace_count st" "row < length (tb_traces st)" "0 < unat (tk_trace_id trace)"
    "unat (tk_trace_id trace) \<le> tb_trace_count st"
proof -
  from assms(2) have row: "row < length (tb_traces st)" "tk_trace_id trace \<noteq> 0"
    "te_trace_id (tb_traces st ! row) = tk_trace_id trace"
    by (auto simp: resolve_def trace_token_valid_def split: if_splits)
  from assms(1) row(1) have id: "te_trace_id (tb_traces st ! row) = (if row < tb_trace_count st then of_nat row + 1 else 0)"
    unfolding traces_ok_def by blast
  with row(2,3) show count: "row < tb_trace_count st" by (metis (full_types))
  with row(3) id have "tk_trace_id trace = of_nat row + 1" by simp
  moreover have "row < 4294967295" using row(1) assms(1) unfolding traces_ok_def by linarith
  ultimately have "unat (tk_trace_id trace) = Suc row" using row_id by simp
  with count show "0 < unat (tk_trace_id trace)" "unat (tk_trace_id trace) \<le> tb_trace_count st" by simp_all
  show "row < length (tb_traces st)" by (rule row(1))
qed

text \<open>What a call leaves alone.\<close>

definition same_traces :: "trace_buffer \<Rightarrow> trace_buffer \<Rightarrow> bool" where
  "same_traces st st' \<longleftrightarrow> tb_trace_count st' = tb_trace_count st
     \<and> tb_trace_storage_overflow st' = tb_trace_storage_overflow st
     \<and> map (\<lambda>e. (te_trace_id e, te_t0_ns e, te_t1_ns e)) (tb_traces st')
       = map (\<lambda>e. (te_trace_id e, te_t0_ns e, te_t1_ns e)) (tb_traces st)"

lemma same_traces_ok:
  assumes "same_traces st st'" and "traces_ok begun st"
  shows "traces_ok begun st' \<and> length (tb_traces st') = length (tb_traces st)"
proof -
  let ?key = "\<lambda>e. (te_trace_id e, te_t0_ns e, te_t1_ns e)"
  have "length (map ?key (tb_traces st')) = length (map ?key (tb_traces st))"
    using assms(1) by (simp only: same_traces_def)
  then have len: "length (tb_traces st') = length (tb_traces st)" by simp
  have keys: "?key (tb_traces st' ! i) = ?key (tb_traces st ! i)" if "i < length (tb_traces st)" for i
  proof -
    have "map ?key (tb_traces st') ! i = map ?key (tb_traces st) ! i"
      using assms(1) by (simp only: same_traces_def)
    then show ?thesis using that len by simp
  qed
  have counts: "tb_trace_count st' = tb_trace_count st" "tb_trace_storage_overflow st' = tb_trace_storage_overflow st"
    using assms(1) by (simp_all add: same_traces_def)
  have "tb_trace_count st \<le> length (tb_traces st)" using assms(2) by (simp add: traces_ok_def)
  with assms(2) keys show ?thesis unfolding traces_ok_def counts len by simp
qed

lemma sampled [simp]:
  "tb_traces (snd (sample_monotonic reading st)) = tb_traces st"
  "tb_trace_count (snd (sample_monotonic reading st)) = tb_trace_count st"
  "tb_trace_storage_overflow (snd (sample_monotonic reading st)) = tb_trace_storage_overflow st"
  "delivery_size kind (snd (sample_monotonic reading st)) = delivery_size kind st"
  "delivery_storage kind (snd (sample_monotonic reading st)) = delivery_storage kind st"
  by (cases kind; cases reading; simp add: sample_monotonic_def)+

lemma row_update_same:
  assumes "row < length (tb_traces st)" and "tb_traces st' = (tb_traces st)[row := e]"
    and "te_trace_id e = te_trace_id (tb_traces st ! row)" and "te_t0_ns e = te_t0_ns (tb_traces st ! row)"
    and "te_t1_ns e = te_t1_ns (tb_traces st ! row)"
    and "tb_trace_count st' = tb_trace_count st" and "tb_trace_storage_overflow st' = tb_trace_storage_overflow st"
  shows "same_traces st st'"
  using assms by (auto simp: same_traces_def intro!: nth_equalityI simp: nth_list_update)

lemma record_same:
  assumes "traces_ok begun st"
  shows "same_traces st (record_q trace occupancy reading st)" "same_traces st (record_t2 trace reading st)"
    "same_traces st (record_t3 trace disposition reading st)"
proof -
  have refl: "same_traces st st" by (simp add: same_traces_def)
  show "same_traces st (record_q trace occupancy reading st)" "same_traces st (record_t2 trace reading st)"
    "same_traces st (record_t3 trace disposition reading st)"
    by (auto simp: record_q_def record_t2_def record_t3_def refl Let_def case_prod_beta
        intro!: row_update_same [OF resolved(2) [OF assms]] split: option.split)
qed

lemma deliveries_same:
  "delivery_size k (record_q trace occupancy reading st) = delivery_size k st"
  "delivery_size k (record_t2 trace reading st) = delivery_size k st"
  "delivery_size k (record_t3 trace disposition reading st) = delivery_size k st"
  "delivery_storage k (record_q trace occupancy reading st) = delivery_storage k st"
  "delivery_storage k (record_t2 trace reading st) = delivery_storage k st"
  "delivery_storage k (record_t3 trace disposition reading st) = delivery_storage k st"
  by (cases k; cases reading; simp add: record_q_def record_t2_def record_t3_def sample_monotonic_def Let_def split: option.split)+

lemma deliveries_ok_same:
  "delivery_size k st' = delivery_size k st \<Longrightarrow> delivery_storage k st' = delivery_storage k st
     \<Longrightarrow> tb_trace_count st \<le> tb_trace_count st' \<Longrightarrow> deliveries_ok k st \<Longrightarrow> deliveries_ok k st'"
  unfolding deliveries_ok_def by (metis le_trans)

lemma storage_set [simp]:
  "delivery_storage k (set_delivery_storage k' x st) = (if k = k' then x else delivery_storage k st)"
  "delivery_size k (set_delivery_storage k' x st) = delivery_size k st"
  "delivery_size k (set_delivery_size k' n st) = (if k = k' then n else delivery_size k st)"
  "delivery_storage k (set_delivery_size k' n st) = delivery_storage k st"
  "delivery_size k (note_delivery_overflow k' st) = delivery_size k st"
  "delivery_storage k (note_delivery_overflow k' st) = delivery_storage k st"
  "delivery_size k (tb_queue_evidence_update f st) = delivery_size k st"
  "delivery_storage k (tb_queue_evidence_update f st) = delivery_storage k st"
  "tb_trace_count (set_delivery_storage k' x st) = tb_trace_count st"
  "tb_trace_count (set_delivery_size k' n st) = tb_trace_count st"
  "tb_trace_count (note_delivery_overflow k' st) = tb_trace_count st"
  "same_traces st (set_delivery_storage k' x st') = same_traces st st'"
  "same_traces st (set_delivery_size k' n st') = same_traces st st'"
  "same_traces st (note_delivery_overflow k' st') = same_traces st st'"
  "same_traces st (tb_queue_evidence_update f st') = same_traces st st'"
  by (cases k; cases k'; simp add: same_traces_def)+

lemma same_traces_sample [simp]: "same_traces st (snd (sample_monotonic reading st')) = same_traces st st'"
  by (simp add: same_traces_def)

lemma same_traces_refl [simp]: "same_traces st st"
  by (simp add: same_traces_def)

lemma record_t4_keeps:
  assumes "traces_ok begun st" and "deliveries_ok k st"
  shows "same_traces st (snd (record_t4 trace kind ordinal sequence occupancy reading st))
    \<and> deliveries_ok k (snd (record_t4 trace kind ordinal sequence occupancy reading st))"
proof (cases "resolve trace st = None \<or> delivery_size kind st = length (delivery_storage kind st)")
  case True
  then show ?thesis using assms(2)
    by (auto simp: record_t4_def intro: deliveries_ok_same [of k _ st])
next
  case False
  then obtain row where row: "resolve trace st = Some row" by auto
  show ?thesis
    using False row assms(2) resolved(3,4) [OF assms(1) row]
    by (auto simp: record_t4_def Let_def case_prod_beta deliveries_ok_def nth_list_update less_Suc_eq)
qed

lemma record_t5_keeps:
  assumes "deliveries_ok k st"
  shows "same_traces st (record_t5 delivery reading st) \<and> deliveries_ok k (record_t5 delivery reading st)"
  using assms
  by (auto simp: record_t5_def Let_def case_prod_beta deliveries_ok_def nth_list_update)

lemma full_keeps:
  "same_traces st (record_ingress_full st)" "same_traces st (record_delivery_full kind st)"
  "deliveries_ok k (record_ingress_full st) = deliveries_ok k st"
  "deliveries_ok k (record_delivery_full kind st) = deliveries_ok k st"
  by (cases k; cases kind; simp add: record_ingress_full_def deliveries_ok_def same_traces_def)+

lemma begin_traces_ok:
  assumes "traces_ok begun st"
  shows "traces_ok (begun @ [(t0, t1)]) (snd (begin_trace t0 t1 st))
    \<and> length (tb_traces (snd (begin_trace t0 t1 st))) = length (tb_traces st)
    \<and> tb_trace_count st \<le> tb_trace_count (snd (begin_trace t0 t1 st))"
proof (cases "tb_trace_count st = length (tb_traces st)")
  case True
  then have "length (tb_traces st) \<le> length begun"
    using assms unfolding traces_ok_def by (metis min.cobounded1)
  with True assms show ?thesis
    by (auto simp: begin_trace_def traces_ok_def nth_append Suc_diff_le)
next
  case False
  with assms have "tb_trace_count st = length begun" "length begun < length (tb_traces st)"
    by (auto simp: traces_ok_def)
  with assms show ?thesis
    by (auto simp: begin_trace_def Let_def traces_ok_def nth_append nth_list_update less_Suc_eq)
qed

lemma perform_ok:
  assumes "buffer_ok capacity calls st"
  shows "buffer_ok capacity (calls @ [call]) (perform_trace_call call st)"
proof -
  have ok: "length (tb_traces st) = capacity" "traces_ok (begins calls) st" "deliveries_ok DkOrderBook st" "deliveries_ok DkEvent st"
    using assms by (simp_all add: buffer_ok_def)
  have keep: "buffer_ok capacity (calls @ [call]) st'"
    if "same_traces st st'" "begins [call] = []" "deliveries_ok DkOrderBook st'" "deliveries_ok DkEvent st'" for st'
    using that same_traces_ok [OF that(1) ok(2)] ok(1) by (simp add: buffer_ok_def)
  have noted: "buffer_ok capacity (calls @ [call]) st'"
    if "same_traces st st'" "begins [call] = []" "\<And>k. delivery_size k st' = delivery_size k st"
      "\<And>k. delivery_storage k st' = delivery_storage k st" for st'
    using that ok(3,4) by (intro keep) (auto intro: deliveries_ok_same [of _ _ st] simp: same_traces_def)
  show ?thesis
  proof (cases call)
    case (TcBegin t0 t1)
    let ?st = "snd (begin_trace t0 t1 st)"
    have "delivery_size k ?st = delivery_size k st" "delivery_storage k ?st = delivery_storage k st" for k
      by (cases k; simp add: begin_trace_def Let_def)+
    with begin_traces_ok [OF ok(2), of t0 t1] ok show ?thesis
      by (auto simp: TcBegin buffer_ok_def intro: deliveries_ok_same [of _ _ st])
  next
    case (TcQ trace occupancy reading)
    have "buffer_ok capacity (calls @ [call]) (record_q trace occupancy reading st)"
      by (rule noted) (simp_all add: TcQ deliveries_same record_same [OF ok(2)])
    then show ?thesis by (simp add: TcQ)
  next
    case (TcT2 trace reading)
    have "buffer_ok capacity (calls @ [call]) (record_t2 trace reading st)"
      by (rule noted) (simp_all add: TcT2 deliveries_same record_same [OF ok(2)])
    then show ?thesis by (simp add: TcT2)
  next
    case (TcT3 trace disposition reading)
    have "buffer_ok capacity (calls @ [call]) (record_t3 trace disposition reading st)"
      by (rule noted) (simp_all add: TcT3 deliveries_same record_same [OF ok(2)])
    then show ?thesis by (simp add: TcT3)
  next
    case (TcT4 trace kind ordinal sequence occupancy reading)
    have "buffer_ok capacity (calls @ [call]) (snd (record_t4 trace kind ordinal sequence occupancy reading st))"
      by (rule keep) (use record_t4_keeps [OF ok(2,3)] record_t4_keeps [OF ok(2,4)] in \<open>simp_all add: TcT4\<close>)
    then show ?thesis by (simp add: TcT4)
  next
    case (TcT5 delivery reading)
    have "buffer_ok capacity (calls @ [call]) (record_t5 delivery reading st)"
      by (rule keep) (use record_t5_keeps [OF ok(3)] record_t5_keeps [OF ok(4)] in \<open>simp_all add: TcT5\<close>)
    then show ?thesis by (simp add: TcT5)
  next
    case TcIngressFull
    have "buffer_ok capacity (calls @ [call]) (record_ingress_full st)"
      by (rule keep) (simp_all add: TcIngressFull full_keeps ok)
    then show ?thesis by (simp add: TcIngressFull)
  next
    case (TcDeliveryFull kind)
    have "buffer_ok capacity (calls @ [call]) (record_delivery_full kind st)"
      by (rule keep) (simp_all add: TcDeliveryFull full_keeps ok)
    then show ?thesis by (simp add: TcDeliveryFull)
  qed
qed

lemma buffer_ok_run:
  assumes "make_trace_buffer self product has_clock limits = Some st"
  shows "buffer_ok (pf_trace_capacity limits) calls (fold perform_trace_call calls st)"
proof (induction calls rule: rev_induct)
  case Nil
  have "buffer_ok (pf_trace_capacity limits) [] st"
    using assms by (auto simp: make_trace_buffer_def buffer_ok_def traces_ok_def deliveries_ok_def empty_trace_def split: if_splits)
  then show ?case by simp
next
  case (snoc call calls)
  from perform_ok [OF this] show ?case by simp
qed

section \<open>What the report counts\<close>

lemma count_delivery_sum:
  assumes "0 < unat trace_id" and "unat trace_id \<le> length counts"
  shows "sum_list (count_delivery counts trace_id) = Suc (sum_list counts)
    \<and> length (count_delivery counts trace_id) = length counts"
proof -
  have nonzero: "trace_id \<noteq> 0" using assms(1) by auto
  have "unat (trace_id - 1) = unat trace_id - 1" by (rule unat_minus_one [OF nonzero])
  then have "unat (trace_id - 1) < length counts" using assms by linarith
  then show ?thesis
    using assms(2) nonzero by (simp add: count_delivery_def sum_list_update elem_le_sum_list)
qed

lemma count_deliveries_sum:
  assumes "deliveries_ok kind st"
  shows "sum_list (count_deliveries kind st) = delivery_size kind st \<and> length (count_deliveries kind st) = tb_trace_count st"
proof -
  let ?count = "\<lambda>counts index. count_delivery counts (de_trace_id (delivery_storage kind st ! index))"
  have "sum_list (foldl ?count (replicate (tb_trace_count st) 0) [0..<n]) = n
      \<and> length (foldl ?count (replicate (tb_trace_count st) 0) [0..<n]) = tb_trace_count st"
    if "n \<le> delivery_size kind st" for n
    using that
  proof (induction n)
    case (Suc n)
    let ?id = "de_trace_id (delivery_storage kind st ! n)"
    have "0 < unat ?id" "unat ?id \<le> tb_trace_count st" using assms Suc.prems by (auto simp: deliveries_ok_def)
    with Suc count_delivery_sum [of ?id "foldl ?count (replicate (tb_trace_count st) 0) [0..<n]"] show ?case by simp
  qed (simp add: sum_list_replicate)
  then show ?thesis by (simp add: count_deliveries_def)
qed

text \<open>The evidence of a buffer is exact, whatever tokens it is called with: the traces are the first ones that were
  begun, numbered from one, with their own times, until the storage is full; the ones it had no room for are
  counted; and the report attributes every recorded delivery to exactly one of its traces.\<close>

theorem evidence_is_exact:
  assumes "make_trace_buffer self product has_clock limits = Some fresh" and "length calls < 18446744073709551616"
    and "st = fold perform_trace_call calls fresh"
  shows "tb_trace_count st = min (length (begins calls)) (pf_trace_capacity limits)
    \<and> unat (tb_trace_storage_overflow st) = length (begins calls) - pf_trace_capacity limits
    \<and> (\<forall>i < tb_trace_count st. \<exists>e. trace_at i st = Some e \<and> unat (te_trace_id e) = Suc i
         \<and> (te_t0_ns e, te_t1_ns e) = begins calls ! i)
    \<and> length (count_deliveries kind st) = tb_trace_count st
    \<and> sum_list (count_deliveries kind st) = delivery_size kind st"
proof -
  have ok: "length (tb_traces st) = pf_trace_capacity limits" "traces_ok (begins calls) st" "deliveries_ok kind st"
    using buffer_ok_run [OF assms(1), of calls] by (cases kind; simp add: buffer_ok_def assms(3))+
  have "length (begins calls) - pf_trace_capacity limits < 18446744073709551616"
    using assms(2) begins_length [of calls] by linarith
  then have "unat (of_nat (length (begins calls) - pf_trace_capacity limits) :: u64)
      = length (begins calls) - pf_trace_capacity limits"
    by (simp only: unat_of_nat) simp
  moreover have "unat (te_trace_id (tb_traces st ! i)) = Suc i" if "i < tb_trace_count st" for i
    using that ok(2) row_id [of i] by (auto simp: traces_ok_def)
  ultimately show ?thesis
    using ok(1,2) count_deliveries_sum [OF ok(3)] by (auto simp: traces_ok_def trace_at_def)
qed

definition example_buffer :: trace_buffer where
  "example_buffer = the (make_trace_buffer 7 PpSpot True \<lparr>pf_trace_capacity = 1, pf_delivery_capacity_per_kind = 2\<rparr>)"

theorem evidence_is_exact_witness:
  "unat (tb_trace_storage_overflow (fold perform_trace_call [TcBegin 5 6, TcBegin 8 9] example_buffer)) = 1"
  using evidence_is_exact [of 7 PpSpot True "\<lparr>pf_trace_capacity = 1, pf_delivery_capacity_per_kind = 2\<rparr>" example_buffer
      "[TcBegin 5 6, TcBegin 8 9]" _ DkEvent]
  by (simp add: example_buffer_def make_trace_buffer_def)

end
