(* ===== verification/SyntheticHost.thy ===== *)
theory SyntheticHost
  imports ProductSets
begin

text \<open>
  The deterministic host of \<open>src/src/g2/synthetic_spot_host.{hpp,cpp}\<close>: one Spot projection, its adapter and a
  buffer of the updates before the snapshot. The projection and the adapter are the parameter
  \<open>projection_ops\<close>, made for the numeric specification and the identity of the host.
\<close>

section \<open>The host\<close>

record ('p, 'z) synthetic_host =
  sh_numeric_spec :: "'z \<times> 'z"
  sh_expected_identity :: expected_identity
  sh_projection :: 'p
  sh_buffered_updates :: "depth_update list"
  sh_snapshot_context :: snapshot_context

text \<open>\<open>None\<close> is a call of \<open>std::abort\<close>; \<open>create\<close> is \<open>DecimalScale::create\<close>.\<close>

definition make_numeric_spec :: "(u8 \<Rightarrow> 'z option) \<Rightarrow> ('z \<times> 'z) option" where
  "make_numeric_spec create =
     (case (create 2, create 3) of
        (Some price_scale, Some quantity_scale) \<Rightarrow> Some (price_scale, quantity_scale)
      | _ \<Rightarrow> None)"

definition make_expected_identity :: expected_identity where
  "make_expected_identity = \<lparr>xi_symbol = ''BTCUSDT'', xi_sequence_policy = SequenceSpot\<rparr>"

definition make_snapshot_context :: snapshot_context where
  "make_snapshot_context = \<lparr>sc_producer = ''gateway-g2-synthetic'', sc_producer_version = ''1.0.0'',
     sc_utc_ns = 1700000000123456000, sc_monotonic_ns = Some 1700000000123456789\<rparr>"

definition make_synthetic_host ::
  "(u8 \<Rightarrow> 'z option) \<Rightarrow> ('z \<times> 'z \<Rightarrow> sequence_policy_kind \<Rightarrow> 'p) \<Rightarrow> ('p, 'z) synthetic_host option" where
  "make_synthetic_host create make_projection =
     (case make_numeric_spec create of None \<Rightarrow> None
      | Some spec \<Rightarrow> Some
          \<lparr>sh_numeric_spec = spec, sh_expected_identity = make_expected_identity,
           sh_projection = make_projection spec SequenceSpot, sh_buffered_updates = [],
           sh_snapshot_context = make_snapshot_context\<rparr>)"

definition receive_pre_snapshot :: "depth_update \<Rightarrow> ('p, 'z) synthetic_host \<Rightarrow> ('p, 'z) synthetic_host" where
  "receive_pre_snapshot update host = host\<lparr>sh_buffered_updates := sh_buffered_updates host @ [update]\<rparr>"

definition host_install_snapshot ::
  "('p, 'g, 's, 'b, 'c) projection_ops \<Rightarrow> exchange_depth_snapshot \<Rightarrow> ('p, 'z) synthetic_host
     \<Rightarrow> install_result outcome \<times> ('p, 'z) synthetic_host" where
  "host_install_snapshot ops snapshot host =
     (case po_adapt_snapshot ops snapshot (sh_projection host) of
        Threw \<Rightarrow> (Threw, host)
      | Failed e \<Rightarrow> (Failed e, host)
      | Returned baseline \<Rightarrow>
          let (installed, projection) = po_install_into ops baseline (sh_projection host)
          in (installed, host\<lparr>sh_projection := projection\<rparr>))"

definition apply_live_update ::
  "('p, 'g, 's, 'b, 'c) projection_ops \<Rightarrow> depth_update \<Rightarrow> ('p, 'z) synthetic_host
     \<Rightarrow> apply_result outcome \<times> ('p, 'z) synthetic_host" where
  "apply_live_update ops update host =
     (case po_adapt_depth_update ops update (sh_projection host) of
        Threw \<Rightarrow> (Threw, host)
      | Failed e \<Rightarrow> (Failed e, host)
      | Returned batch \<Rightarrow>
          let (applied, projection) = po_apply_to ops batch (sh_projection host)
          in (applied, host\<lparr>sh_projection := projection\<rparr>))"

text \<open>The loop of the replay; \<open>None\<close> is an exception that leaves it.\<close>

fun replay_updates ::
  "('p, 'g, 's, 'b, 'c) projection_ops \<Rightarrow> depth_update list \<Rightarrow> ('p, 'z) synthetic_host
     \<Rightarrow> apply_result outcome list option \<times> ('p, 'z) synthetic_host" where
  "replay_updates ops [] host = (Some [], host)"
| "replay_updates ops (update # updates) host =
     (case apply_live_update ops update host of
        (Threw, host) \<Rightarrow> (None, host)
      | (applied, host) \<Rightarrow>
          let (outcomes, host) = replay_updates ops updates host
          in (map_option (\<lambda>rest. applied # rest) outcomes, host))"

definition replay_buffered_updates ::
  "('p, 'g, 's, 'b, 'c) projection_ops \<Rightarrow> ('p, 'z) synthetic_host
     \<Rightarrow> apply_result outcome list option \<times> ('p, 'z) synthetic_host" where
  "replay_buffered_updates ops host = replay_updates ops (sh_buffered_updates host) host"

definition make_snapshot ::
  "('p, 'g, 's, 'b, 'c) projection_ops \<Rightarrow> ('p, 'z) synthetic_host \<Rightarrow> 's outcome" where
  "make_snapshot ops host = po_make_snapshot ops (sh_projection host) (sh_snapshot_context host) None"

text \<open>\<open>None\<close> is \<open>std::terminate\<close>: the function is \<open>noexcept\<close>.\<close>

definition reset_host ::
  "('p, 'g, 's, 'b, 'c) projection_ops \<Rightarrow> ('p, 'z) synthetic_host \<Rightarrow> ('p, 'z) synthetic_host option" where
  "reset_host ops host =
     map_option (\<lambda>projection. host\<lparr>sh_projection := projection, sh_buffered_updates := []\<rparr>)
       (po_reset ops (sh_projection host))"

definition buffered_update_count :: "('p, 'z) synthetic_host \<Rightarrow> nat" where
  "buffered_update_count host = length (sh_buffered_updates host)"

section \<open>What a replay does\<close>

lemma apply_keeps_buffer [simp]:
  "sh_buffered_updates (snd (apply_live_update ops update host)) = sh_buffered_updates host"
  by (simp add: apply_live_update_def Let_def case_prod_beta split: outcome.split)

lemma append_functions: "(@) [] = (\<lambda>ys. ys)" "(@) (x # xs) = (\<lambda>ys. x # xs @ ys)"
  by (simp_all add: fun_eq_iff)

text \<open>A replay is a replay of the first updates and then of the others, unless an exception ends the first part.\<close>

theorem replay_splits:
  "replay_updates ops (xs @ ys) host =
     (case replay_updates ops xs host of
        (None, host) \<Rightarrow> (None, host)
      | (Some first, host) \<Rightarrow>
          let (rest, host) = replay_updates ops ys host in (map_option (\<lambda>rest. first @ rest) rest, host))"
  by (induction xs arbitrary: host)
    (auto simp: Let_def case_prod_beta option.map_comp comp_def option.map_ident append_functions
      split: outcome.split option.split prod.split)

text \<open>A replay keeps the buffer, and one that no exception ends has one outcome for each of its updates.\<close>

theorem replay_answers_each:
  assumes "replay_buffered_updates ops host = (outcomes, host')"
  shows "sh_buffered_updates host' = sh_buffered_updates host
    \<and> (\<forall>answers. outcomes = Some answers \<longrightarrow> length answers = buffered_update_count host \<and> Threw \<notin> set answers)"
proof -
  have "sh_buffered_updates (snd (replay_updates ops updates host)) = sh_buffered_updates host
      \<and> (\<forall>answers. fst (replay_updates ops updates host) = Some answers
           \<longrightarrow> length answers = length updates \<and> Threw \<notin> set answers)" for updates
  proof (induction updates arbitrary: host)
    case (Cons update updates)
    obtain applied after where once: "apply_live_update ops update host = (applied, after)"
      by (cases "apply_live_update ops update host") auto
    have "sh_buffered_updates after = sh_buffered_updates host"
      using apply_keeps_buffer [of ops update host] by (simp add: once)
    with Cons.IH [of after] show ?case
      by (cases applied) (auto simp: once Let_def case_prod_beta)
  qed simp
  from this [of "sh_buffered_updates host"] show ?thesis
    using assms by (simp add: replay_buffered_updates_def buffered_update_count_def)
qed

end
