(* ===== verification/WebSocket.thy ===== *)
theory WebSocket
  imports AsyncOperation
begin

text \<open>
  The stream connection of \<open>src/src/g4/spot_transport.cpp\<close>, \<open>AsyncWebSocket\<close>: its stages up to the
  handshake, then one read after the other. Every handler calls at most one of the callbacks it was
  given; the handler returns the new state and that call. The callback of a message returns
  whether the connection goes on, so a read handler that delivers a message is in two parts.
\<close>

datatype ws_stage = WsDns | WsTcp | WsTls | WsHandshake | WsRead

type_synonym web_socket = "ws_stage async_op"

datatype ws_callback =
    CbTlsVerified
  | CbActive
  | CbMessage string clock_sample bool
  | CbFailure network_error

definition make_web_socket :: web_socket where
  "make_web_socket =
     \<lparr>ao_io = None, ao_timers = [], ao_timeout_generation = 0,
      ao_cancellation_completions_pending = 0, ao_io_pending = False, ao_timer_pending = False,
      ao_cancel_requested = False, ao_done = False\<rparr>"

definition ws_fail :: "network_error \<Rightarrow> web_socket \<Rightarrow> web_socket \<times> ws_callback option" where
  "ws_fail failure op = (if ao_done op then (op, None) else (conclude op, Some (CbFailure failure)))"

definition ws_complete_cancelled_piece :: "web_socket \<Rightarrow> web_socket" where
  "ws_complete_cancelled_piece op =
     (let op1 = (if 0 < ao_cancellation_completions_pending op
                 then op\<lparr>ao_cancellation_completions_pending := ao_cancellation_completions_pending op - 1\<rparr>
                 else op)
      in if ao_cancellation_completions_pending op1 = 0 then retire_cleanly op1 else op1)"

definition ws_handle_cancelled_io ::
  "error_code option \<Rightarrow> network_error_code \<Rightarrow> string \<Rightarrow> web_socket
     \<Rightarrow> (web_socket \<times> ws_callback option) option" where
  "ws_handle_cancelled_io ec code stage op =
     (if \<not> ao_cancel_requested op then None
      else case ec of
        Some failure \<Rightarrow>
          if \<not> is_clean_cancellation failure (ao_cancel_requested op)
          then Some (ws_fail (error_from_code code stage failure) op)
          else Some (ws_complete_cancelled_piece op, None)
      | None \<Rightarrow> Some (ws_complete_cancelled_piece op, None))"

definition ws_start :: "string option \<Rightarrow> web_socket \<Rightarrow> web_socket \<times> ws_callback option" where
  "ws_start tls op =
     (case configure_tls_stream tls of
        Some failure \<Rightarrow> ws_fail failure op
      | None \<Rightarrow> (start_io WsDns (arm_timeout ''websocket-dns'' op), None))"

definition ws_connect :: "web_socket \<Rightarrow> web_socket \<times> ws_callback option" where
  "ws_connect op = (start_io WsTcp (arm_timeout ''websocket-tcp-connect'' op), None)"

definition ws_tls_handshake :: "web_socket \<Rightarrow> web_socket \<times> ws_callback option" where
  "ws_tls_handshake op = (start_io WsTls (arm_timeout ''websocket-tls-handshake'' op), None)"

definition ws_websocket_handshake :: "web_socket \<Rightarrow> web_socket" where
  "ws_websocket_handshake op = start_io WsHandshake (arm_timeout ''websocket-handshake'' op)"

definition ws_read :: "web_socket \<Rightarrow> web_socket" where
  "ws_read op = (if ao_done op then op else start_io WsRead op)"

text \<open>What follows the TLS handshake and the WebSocket handshake.\<close>

definition ws_tls_verified :: "web_socket \<Rightarrow> web_socket \<times> ws_callback option" where
  "ws_tls_verified op = (ws_websocket_handshake op, Some CbTlsVerified)"

definition ws_active :: "web_socket \<Rightarrow> web_socket \<times> ws_callback option" where
  "ws_active op = (ws_read op, Some CbActive)"

text \<open>The completion lambdas of \<open>start\<close>, \<open>connect\<close>, \<open>tls_handshake\<close> and \<open>websocket_handshake\<close>.\<close>

definition ws_stage_completed ::
  "network_error_code \<Rightarrow> string \<Rightarrow> (web_socket \<Rightarrow> web_socket \<times> ws_callback option)
     \<Rightarrow> error_code option \<Rightarrow> web_socket \<Rightarrow> web_socket \<times> ws_callback option" where
  "ws_stage_completed code stage following ec op =
     (let op1 = io_completed op in
      if ao_done op1 then (op1, None)
      else case ws_handle_cancelled_io ec code stage op1 of
        Some handled \<Rightarrow> handled
      | None \<Rightarrow>
          let op2 = disarm_timeout op1 in
          case ec of
            Some failure \<Rightarrow> ws_fail (error_from_code code stage failure) op2
          | None \<Rightarrow> following op2)"

text \<open>The completion lambda of \<open>read\<close> up to the message callback, and what follows it.\<close>

definition ws_read_completed ::
  "clock_reading \<Rightarrow> bool \<Rightarrow> string \<Rightarrow> error_code option \<Rightarrow> web_socket
     \<Rightarrow> web_socket \<times> ws_callback option" where
  "ws_read_completed clock got_text payload ec op =
     (let op1 = io_completed op in
      if ao_done op1 then (op1, None)
      else case ec of
        Some failure \<Rightarrow>
          if is_clean_cancellation failure (ao_cancel_requested op1)
          then (ws_complete_cancelled_piece op1, None)
          else if ec_value failure = BeastTimeout
          then ws_fail (error_from_code NeTimeout ''websocket-idle'' failure) op1
          else ws_fail (error_from_code NeWebSocketRead ''websocket-read'' failure) op1
      | None \<Rightarrow>
          (case clock of
             ClockThrew (Some what) \<Rightarrow>
               ws_fail (make_network_error NeInternal ''websocket-receive-clock'' what None None) op1
           | ClockThrew None \<Rightarrow>
               ws_fail (make_network_error NeInternal ''websocket-receive-clock'' ''receive clock failed''
                          None None) op1
           | ClockRead received_at \<Rightarrow>
               if \<not> got_text then
                 ws_fail (make_network_error NeProtocol ''websocket-frame''
                            ''Binance raw stream returned binary data'' None None) op1
               else (op1, Some (CbMessage payload received_at (ao_cancel_requested op1)))))"

definition ws_after_message :: "bool \<Rightarrow> bool \<Rightarrow> web_socket \<Rightarrow> web_socket" where
  "ws_after_message goes_on retire_after_message op =
     (if \<not> goes_on then retire_cleanly op
      else if retire_after_message then ws_complete_cancelled_piece op
      else ws_read op)"

definition ws_io_handler ::
  "clock_reading \<Rightarrow> bool \<Rightarrow> string \<Rightarrow> error_code option \<Rightarrow> web_socket
     \<Rightarrow> (web_socket \<times> ws_callback option) option" where
  "ws_io_handler clock got_text payload ec op =
     (case ao_io op of
        None \<Rightarrow> None
      | Some WsDns \<Rightarrow> Some (ws_stage_completed NeDns ''websocket-dns'' ws_connect ec op)
      | Some WsTcp \<Rightarrow> Some (ws_stage_completed NeTcp ''websocket-tcp-connect'' ws_tls_handshake ec op)
      | Some WsTls \<Rightarrow> Some (ws_stage_completed NeTls ''websocket-tls-handshake'' ws_tls_verified ec op)
      | Some WsHandshake \<Rightarrow>
          Some (ws_stage_completed NeWebSocketHandshake ''websocket-handshake'' ws_active ec op)
      | Some WsRead \<Rightarrow> Some (ws_read_completed clock got_text payload ec op))"

definition ws_timeout ::
  "string \<Rightarrow> error_code option \<Rightarrow> web_socket \<Rightarrow> web_socket \<times> ws_callback option" where
  "ws_timeout stage ec op =
     (if ao_done op then (op, None)
      else if ao_cancel_requested op then
        (case ec of
           None \<Rightarrow> ws_fail (make_network_error NeTimeout stage ''network stage timed out'' None None) op
         | Some failure \<Rightarrow>
             if is_clean_cancellation failure (ao_cancel_requested op)
             then (ws_complete_cancelled_piece op, None)
             else ws_fail (error_from_code NeInternal (stage @ ''-timer'') failure) op)
      else (case ec of
           None \<Rightarrow> ws_fail (make_network_error NeTimeout stage ''network stage timed out'' None None) op
         | Some _ \<Rightarrow> (op, None)))"

definition ws_timer_handler ::
  "nat \<Rightarrow> error_code option \<Rightarrow> web_socket \<Rightarrow> (web_socket \<times> ws_callback option) option" where
  "ws_timer_handler i ec op =
     (if i \<ge> length (ao_timers op) then None
      else Some (case ao_timers op ! i of (generation, stage) \<Rightarrow>
        let op1 = take_timer i op in
        if generation \<noteq> ao_timeout_generation op1 then (op1, None)
        else ws_timeout stage ec (op1\<lparr>ao_timer_pending := False\<rparr>)))"

section \<open>The invariant of the connection\<close>

fun ws_weight :: "ws_stage \<Rightarrow> nat" where
  "ws_weight WsDns = 0"
| "ws_weight WsTcp = 1"
| "ws_weight WsTls = 2"
| "ws_weight WsHandshake = 3"
| "ws_weight WsRead = 4"

lemma five_ws_stages: "five_stages ws_weight"
  unfolding five_stages_def
proof
  fix s show "ws_weight s \<le> 4" by (cases s) simp_all
qed

definition is_failure_callback :: "ws_callback option \<Rightarrow> bool" where
  "is_failure_callback callback \<longleftrightarrow> (\<exists>failure. callback = Some (CbFailure failure))"

lemma ws_piece_effect:
  assumes "awaits ws_weight op"
  shows "op_inv ws_weight (ws_complete_cancelled_piece op)" and "ended (ws_complete_cancelled_piece op)"
    and "outstanding (ws_complete_cancelled_piece op) = outstanding op"
    and "ao_io (ws_complete_cancelled_piece op) = ao_io op"
  using assms
  by (auto simp: ws_complete_cancelled_piece_def awaits_def retire_cleanly_def ended_def Let_def split: if_splits)

lemma ws_start_reading:
  assumes "op_inv ws_weight op" and "ao_io op = Some WsRead" and "\<not> ao_done op" and "\<not> ao_cancel_requested op"
  shows "op_inv ws_weight (start_io WsRead (io_completed op))"
  using assms by (auto simp: op_inv_def start_io_def io_completed_def)

lemma ws_first_read:
  assumes "op_inv ws_weight op" and "ao_io op = Some WsHandshake" and "\<not> ao_done op"
    and "\<not> ao_cancel_requested op"
  shows "op_inv ws_weight (start_io WsRead (disarm_timeout (io_completed op)))"
proof -
  note io = assms(1) five_ws_stages assms(2,3)
  define first_read where "first_read = start_io WsRead (disarm_timeout (io_completed op))"
  have "timers_ok (disarm_timeout (io_completed op))"
    using op_inv_io_timers [OF assms(1)] op_inv_io_generation [OF io] by (intro timers_ok_disarm) simp_all
  then have "timers_ok first_read" by (simp only: first_read_def start_io_def timers_ok_frame)
  moreover have "unat (ao_timeout_generation first_read) \<le> 9"
    using op_inv_io_generation [OF io] by (simp add: first_read_def start_io_def disarm_timeout_def tick)
  moreover have "ao_io first_read = Some WsRead" "ao_io_pending first_read"
      "\<not> ao_cancel_requested first_read"
    using assms(4) by (simp_all add: first_read_def start_io_def disarm_timeout_def io_completed_def)
  ultimately show ?thesis by (simp add: op_inv_def flip: first_read_def)
qed

lemma ws_stage_completed_effect:
  assumes "op_inv ws_weight op" and "ao_io op = Some s"
    and following: "\<not> ao_done op \<Longrightarrow> \<not> ao_cancel_requested op \<Longrightarrow>
      op_inv ws_weight (fst (following (disarm_timeout (io_completed op))))
      \<and> \<not> is_failure_callback (snd (following (disarm_timeout (io_completed op))))"
    and step: "ws_stage_completed code stage following ec op = (op', callback)"
  shows "op_effect ws_weight op op' (is_failure_callback callback)
    \<and> (ended op \<longrightarrow> callback = None \<or> is_failure_callback callback)
    \<and> (is_failure_callback callback \<or> callback = None
       \<or> callback = snd (following (disarm_timeout (io_completed op))))"
proof -
  note io = assms(1) five_ws_stages assms(2)
  note less = outstanding_io_completed [OF assms(2)]
  consider (finished) "ao_done op"
    | (cancelled) "\<not> ao_done op" "ao_cancel_requested op"
    | (going) "\<not> ao_done op" "\<not> ao_cancel_requested op" by blast
  then show ?thesis
  proof cases
    case finished
    with step have "op' = io_completed op" "callback = None" by (simp_all add: ws_stage_completed_def)
    with finished less op_inv_io_done [OF assms(1)] show ?thesis
      by (simp add: op_effect_def ended_def is_failure_callback_def)
  next
    case cancelled
    then consider e where "ws_fail e (io_completed op) = (op', callback)"
      | "op' = ws_complete_cancelled_piece (io_completed op)" "callback = None"
      using step by (cases ec) (auto simp: ws_stage_completed_def ws_handle_cancelled_io_def Let_def split: if_splits)
    then show ?thesis
    proof cases
      case 1
      with cancelled less op_inv_conclude_io [OF io cancelled(1)] show ?thesis
        by (auto simp: op_effect_def ended_def ws_fail_def is_failure_callback_def)
    next
      case 2
      with ws_piece_effect [OF awaits_io [OF io cancelled]] cancelled less show ?thesis
        by (simp add: op_effect_def ended_def is_failure_callback_def)
    qed
  next
    case going
    with step consider "(op', callback) = following (disarm_timeout (io_completed op))"
      | e where "op' = conclude (disarm_timeout (io_completed op))" "callback = Some (CbFailure e)"
      by (cases ec) (auto simp: ws_stage_completed_def ws_handle_cancelled_io_def ws_fail_def Let_def)
    then show ?thesis
    proof cases
      case 1
      then have "fst (following (disarm_timeout (io_completed op))) = op'"
          "snd (following (disarm_timeout (io_completed op))) = callback" by (metis fst_conv snd_conv)+
      with going following show ?thesis by (simp add: op_effect_def ended_def)
    next
      case 2
      with going op_inv_conclude_disarmed [OF io going(1)] show ?thesis
        by (simp add: op_effect_def ended_def is_failure_callback_def)
    qed
  qed
qed

lemma ws_read_completed_effect:
  assumes "op_inv ws_weight op" and "ao_io op = Some WsRead"
    and step: "ws_read_completed clock got_text payload ec op = (op', callback)"
  shows "(\<exists>received_at. callback = Some (CbMessage payload received_at (ao_cancel_requested op))
        \<and> op' = io_completed op \<and> \<not> ao_done op)
    \<or> op_effect ws_weight op op' (is_failure_callback callback)
      \<and> (callback = None \<or> is_failure_callback callback)"
proof -
  note io = assms(1) five_ws_stages assms(2)
  note less = outstanding_io_completed [OF assms(2)]
  show ?thesis
  proof (cases "ao_done op")
    case True
    with step have "op' = io_completed op" "callback = None" by (simp_all add: ws_read_completed_def)
    with True less op_inv_io_done [OF assms(1)] show ?thesis
      by (simp add: op_effect_def ended_def is_failure_callback_def)
  next
    case False
    consider (failure) e where "ws_read_completed clock got_text payload ec op = ws_fail e (io_completed op)"
      | (piece) "ws_read_completed clock got_text payload ec op
            = (ws_complete_cancelled_piece (io_completed op), None)" "ao_cancel_requested op"
      | (message) received_at where "ws_read_completed clock got_text payload ec op
            = (io_completed op, Some (CbMessage payload received_at (ao_cancel_requested op)))"
    proof (cases ec)
      case None
      show ?thesis
      proof (cases clock)
        case (ClockRead at)
        with None False that(1,3) show ?thesis by (cases got_text) (simp_all add: ws_read_completed_def)
      next
        case (ClockThrew what)
        with None False that(1) show ?thesis by (cases what) (simp_all add: ws_read_completed_def)
      qed
    next
      case (Some e)
      show ?thesis
      proof (cases "is_clean_cancellation e (ao_cancel_requested op)")
        case True
        with Some False that(2) show ?thesis
          by (simp add: ws_read_completed_def) (simp add: is_clean_cancellation_def)
      next
        case clean: False
        with Some False that(1) show ?thesis
          by (cases "ec_value e = BeastTimeout") (simp_all add: ws_read_completed_def)
      qed
    qed
    then show ?thesis
    proof cases
      case failure
      with step False less op_inv_conclude_io [OF io False] show ?thesis
        by (auto simp: op_effect_def ended_def ws_fail_def is_failure_callback_def)
    next
      case piece
      with step have "op' = ws_complete_cancelled_piece (io_completed op)" "callback = None" by simp_all
      with ws_piece_effect [OF awaits_io [OF io False piece(2)]] False less show ?thesis
        by (simp add: op_effect_def ended_def is_failure_callback_def)
    next
      case message
      with step False show ?thesis by (intro disjI1) auto
    qed
  qed
qed

text \<open>
  What a handler of the connection does: it delivers a message, of which the callback and
  \<open>ws_after_message\<close> remain to be run; or it goes through a stage; or it ends.
\<close>

definition ws_outcome :: "web_socket \<Rightarrow> web_socket \<Rightarrow> ws_callback option \<Rightarrow> bool" where
  "ws_outcome op op' callback \<longleftrightarrow>
     (case callback of
        Some (CbMessage _ _ retire_after_message) \<Rightarrow>
          retire_after_message = ao_cancel_requested op \<and> op' = io_completed op \<and> \<not> ao_done op
          \<and> ao_io op = Some WsRead
      | Some (CbFailure _) \<Rightarrow> op_effect ws_weight op op' True
      | Some _ \<Rightarrow> op_effect ws_weight op op' False \<and> \<not> ended op
      | None \<Rightarrow> op_effect ws_weight op op' False)"

lemma ws_outcome_stage:
  assumes "op_effect ws_weight op op' (is_failure_callback callback)"
    and "ended op \<longrightarrow> callback = None \<or> is_failure_callback callback"
    and "is_failure_callback callback \<or> callback \<in> {None, Some CbTlsVerified, Some CbActive}"
  shows "ws_outcome op op' callback"
  using assms by (auto simp: ws_outcome_def is_failure_callback_def)

lemma ws_io_handler_outcome:
  assumes "op_inv ws_weight op" and "ws_io_handler clock got_text payload ec op = Some (op', callback)"
  shows "ws_outcome op op' callback"
proof -
  from assms(2) obtain s where s: "ao_io op = Some s" by (auto simp: ws_io_handler_def split: option.splits)
  note staged = ws_stage_completed_effect [OF assms(1) s]
  note advanced = op_inv_next [OF assms(1) five_ws_stages s]
  show ?thesis
  proof (cases "s = WsRead")
    case True
    with assms(2) s have "ws_read_completed clock got_text payload ec op = (op', callback)"
      by (simp add: ws_io_handler_def)
    from ws_read_completed_effect [OF assms(1) s [unfolded True] this] s True show ?thesis
      by (auto simp: ws_outcome_def is_failure_callback_def)
  next
    case False
    then obtain code stage following where step: "ws_stage_completed code stage following ec op = (op', callback)"
      and follow: "s = WsDns \<and> following = ws_connect \<or> s = WsTcp \<and> following = ws_tls_handshake
        \<or> s = WsTls \<and> following = ws_tls_verified \<or> s = WsHandshake \<and> following = ws_active"
      using assms(2) s by (cases s) (auto simp: ws_io_handler_def)
    have followed: "op_inv ws_weight (fst (following (disarm_timeout (io_completed op))))
        \<and> \<not> is_failure_callback (snd (following (disarm_timeout (io_completed op))))"
      if going: "\<not> ao_done op" "\<not> ao_cancel_requested op"
      using follow advanced [OF going] ws_first_read [OF assms(1) _ going] s going
      by (auto simp: ws_connect_def ws_tls_handshake_def ws_tls_verified_def ws_websocket_handshake_def
          ws_active_def ws_read_def is_failure_callback_def)
    have effect: "op_effect ws_weight op op' (is_failure_callback callback)"
        "ended op \<longrightarrow> callback = None \<or> is_failure_callback callback"
        "is_failure_callback callback \<or> callback = None
         \<or> callback = snd (following (disarm_timeout (io_completed op)))"
      using staged [OF followed step] by simp_all
    have calls: "snd (following x) \<in> {None, Some CbTlsVerified, Some CbActive}" for x
      using follow by (auto simp: ws_connect_def ws_tls_handshake_def ws_tls_verified_def ws_active_def)
    from effect(3) calls [of "disarm_timeout (io_completed op)"]
    have "is_failure_callback callback \<or> callback \<in> {None, Some CbTlsVerified, Some CbActive}" by auto
    with effect show ?thesis by (intro ws_outcome_stage)
  qed
qed

lemma ws_timer_handler_outcome:
  assumes "op_inv ws_weight op" and "ws_timer_handler i ec op = Some (op', callback)"
  shows "ws_outcome op op' callback"
proof -
  from assms(2) have i: "i < length (ao_timers op)" by (simp add: ws_timer_handler_def split: if_splits)
  note less = outstanding_take_timer [OF i]
  obtain generation stage where t: "ao_timers op ! i = (generation, stage)" by fastforce
  define op2 where "op2 = (take_timer i op)\<lparr>ao_timer_pending := False\<rparr>"
  show ?thesis
  proof (cases "generation = ao_timeout_generation op")
    case False
    then have "op' = take_timer i op" "callback = None"
      using assms(2) i t by (simp_all add: ws_timer_handler_def)
    with less op_inv_stale [OF assms(1) i] False t show ?thesis
      by (simp add: ws_outcome_def op_effect_def ended_def)
  next
    case True
    then have current: "fst (ao_timers op ! i) = ao_timeout_generation op" using t by simp
    have same: "ao_done op2 = ao_done op" "ao_cancel_requested op2 = ao_cancel_requested op"
        "outstanding op2 < outstanding op" "ao_io op2 = ao_io op"
      using less by (simp_all add: op2_def)
    note kept = op_inv_current(2,3) [OF assms(1) five_ws_stages i current, folded op2_def]
    note last = awaits_current [OF assms(1) five_ws_stages i current, folded op2_def]
    have "ws_timeout stage ec op2 = (op', callback)"
      using assms(2) i t True by (simp add: ws_timer_handler_def op2_def)
    then consider "op' = op2" "callback = None" "ao_done op \<or> \<not> ao_cancel_requested op"
      | e where "op' = conclude op2" "callback = Some (CbFailure e)" "\<not> ao_done op"
      | "op' = ws_complete_cancelled_piece op2" "callback = None" "\<not> ao_done op" "ao_cancel_requested op"
      by (cases "ao_done op"; cases "ao_cancel_requested op"; cases ec)
        (auto simp: same ws_timeout_def ws_fail_def split: if_splits)
    then show ?thesis
    proof cases
      case 1
      with kept(1) same show ?thesis by (simp add: ws_outcome_def op_effect_def ended_def)
    next
      case 2
      with kept(2) same show ?thesis by (simp add: ws_outcome_def op_effect_def ended_def)
    next
      case 3
      with ws_piece_effect [OF last] same show ?thesis by (simp add: ws_outcome_def op_effect_def ended_def)
    qed
  qed
qed

lemma ws_after_message_effect:
  assumes "op_inv ws_weight op" and "ao_io op = Some WsRead" and "\<not> ao_done op"
  shows "op_effect ws_weight op (ws_after_message True (ao_cancel_requested op) (io_completed op)) False"
    and "op_effect ws_weight op (ws_after_message False r (io_completed op)) False"
    and "op_effect ws_weight op (ws_after_message False r (cancel (io_completed op))) False"
    and "ended (ws_after_message False r (io_completed op))"
    and "ended (ws_after_message False r (cancel (io_completed op)))"
proof -
  note io = assms(1) five_ws_stages assms(2,3)
  note less = outstanding_io_completed [OF assms(2)]
  show "op_effect ws_weight op (ws_after_message True (ao_cancel_requested op) (io_completed op)) False"
  proof (cases "ao_cancel_requested op")
    case True
    with ws_piece_effect [OF awaits_io [OF io True]] assms(3) less show ?thesis
      by (simp add: ws_after_message_def op_effect_def ended_def)
  next
    case False
    with ws_start_reading [OF assms False] assms(3) show ?thesis
      by (simp add: ws_after_message_def op_effect_def ended_def ws_read_def)
  qed
  have "op_inv ws_weight (ws_after_message False r (io_completed op))"
    using assms by (simp add: ws_after_message_def retire_cleanly_def op_inv_def io_completed_def)
  then show "op_effect ws_weight op (ws_after_message False r (io_completed op)) False"
    using assms(3) less by (simp add: op_effect_def ended_def ws_after_message_def retire_cleanly_def)
  have retired: "ao_done (ws_after_message False r x)" for x :: web_socket
    by (simp add: ws_after_message_def retire_cleanly_def)
  have "op_inv ws_weight (ws_after_message False r (cancel (io_completed op)))"
    using assms by (simp add: ws_after_message_def retire_cleanly_def op_inv_def io_completed_def cancel_def Let_def)
  then show "op_effect ws_weight op (ws_after_message False r (cancel (io_completed op))) False"
    using assms(3) less retired by (simp add: op_effect_def ended_def) (simp add: ws_after_message_def)
  show "ended (ws_after_message False r (io_completed op))"
    and "ended (ws_after_message False r (cancel (io_completed op)))"
    using retired by (simp_all add: ended_def)
qed

lemma ws_start_outcome:
  assumes "ws_start tls make_web_socket = (op, callback)"
  shows "op_inv ws_weight op \<and> (callback = None \<or> is_failure_callback callback \<and> ao_done op)"
  using assms op_inv_fresh [of make_web_socket ws_weight WsDns "''websocket-dns''"]
    op_inv_fresh_fails [of make_web_socket ws_weight]
  by (auto simp: ws_start_def make_web_socket_def ws_fail_def is_failure_callback_def split: option.splits)

end
