(* ===== verification/TransportSession.thy ===== *)
theory TransportSession
  imports HttpsGet WebSocket
begin

text \<open>
  One connection to the exchange, \<open>BinanceTransport::Impl\<close> of \<open>src/src/g4/spot_transport.cpp\<close>: the
  stream and the snapshot request on the network thread, what is published and submitted to the
  market runtime, the first failure, and the shutdown. The runtime and the event sink are behind
  their interfaces: every call a handler makes is listed, with its answer. The handlers of the
  network thread are atomic steps: their critical sections only share with \<open>start\<close>, \<open>stop\<close> and
  \<open>observe\<close> fields that one section of a handler reads. The test seam \<open>TransportTestOptions\<close> is not
  modelled.
\<close>

section \<open>State\<close>

datatype network_thread = NtAbsent | NtRunning | NtExited

datatype posted_work = PostedStart | PostedShutdown

text \<open>Where the call of \<open>stop\<close> that won is: before \<open>asio::post\<close>, waiting in \<open>join\<close>, before its last
  critical section.\<close>

datatype stopper = StopperNone | StopperPosting | StopperJoining | StopperFinishing

record transport =
  tr_config :: binance_transport_config
  tr_connection_generation :: u64
  tr_observation :: transport_observation
  tr_stop_requested :: bool
  tr_stop_in_progress :: bool
  tr_network_clean_cancel_requested :: bool
  tr_thread :: network_thread
  tr_posted :: "posted_work list"
  tr_work_guard :: bool
  tr_barrier :: bool
  tr_websocket :: "web_socket option"
  tr_websocket_held :: bool
  tr_depth_request :: "async_https_get option"
  tr_depth_request_held :: bool
  tr_stopper :: stopper

datatype transport_call =
    CallPublish normalized_market_event u64 normalized_event_sink_result
  | CallSubmitDepth depth_update source_provenance admission_result
  | CallSubmitSnapshot exchange_depth_snapshot source_provenance admission_result
  | CallTransportFailure
  | CallSnapshotFailure

text \<open>What the surroundings answer during one handler: OpenSSL, the clock, the allocator, the event
  sink (\<open>None\<close>: it threw) and the admission of the runtime.\<close>

record transport_world =
  tw_tls :: "string option"
  tw_clock :: clock_reading
  tw_allocation_ok :: bool
  tw_sink :: "normalized_event_sink_result option"
  tw_admission :: admission_result

type_synonym effect = "transport \<times> transport_call list"

definition map_transport :: "(transport_observation \<Rightarrow> transport_observation) \<Rightarrow> transport \<Rightarrow> transport" where
  "map_transport f st = st\<lparr>tr_observation := f (tr_observation st)\<rparr>"

definition new_transport :: "binance_transport_config \<Rightarrow> transport_observation \<Rightarrow> transport" where
  "new_transport config observation =
     \<lparr>tr_config = config, tr_connection_generation = to_connection_generation observation,
      tr_observation = observation, tr_stop_requested = False, tr_stop_in_progress = False,
      tr_network_clean_cancel_requested = False, tr_thread = NtAbsent, tr_posted = [],
      tr_work_guard = False, tr_barrier = False, tr_websocket = None, tr_websocket_held = False,
      tr_depth_request = None, tr_depth_request_held = False, tr_stopper = StopperNone\<rparr>"

section \<open>Ending the connection\<close>

definition cancel_network_operations :: "transport \<Rightarrow> transport" where
  "cancel_network_operations st =
     (let st1 = (if tr_websocket_held st
                 then st\<lparr>tr_websocket := map_option cancel (tr_websocket st), tr_websocket_held := False\<rparr>
                 else st)
      in if tr_depth_request_held st1
         then st1\<lparr>tr_depth_request := map_option cancel (tr_depth_request st1),
                  tr_depth_request_held := False\<rparr>
         else st1)"

definition release_network_work :: "transport \<Rightarrow> transport" where
  "release_network_work st = st\<lparr>tr_work_guard := False\<rparr>"

definition terminal_failure :: "network_error \<Rightarrow> bool \<Rightarrow> transport \<Rightarrow> effect" where
  "terminal_failure failure snapshot_failure st =
     (if to_terminal_error (tr_observation st) \<noteq> None then (st, [])
      else
        let st1 = map_transport (\<lambda>ob. ob\<lparr>to_terminal_error := Some failure, to_running := False\<rparr>) st
        in (release_network_work (cancel_network_operations st1),
            [if snapshot_failure then CallSnapshotFailure else CallTransportFailure]))"

definition begin_clean_shutdown :: "transport \<Rightarrow> transport" where
  "begin_clean_shutdown st =
     (if tr_network_clean_cancel_requested st then st
      else st\<lparr>tr_network_clean_cancel_requested := True, tr_barrier := True\<rparr>)"

definition shutdown_barrier :: "transport \<Rightarrow> transport" where
  "shutdown_barrier st = release_network_work (cancel_network_operations (st\<lparr>tr_barrier := False\<rparr>))"

section \<open>Messages\<close>

text \<open>\<open>True\<close>: the stream goes on.\<close>

definition publish_normalized_event ::
  "transport_world \<Rightarrow> normalized_market_event \<Rightarrow> transport \<Rightarrow> bool \<times> effect" where
  "publish_normalized_event w event st =
     (let sink_result = (case tw_sink w of None \<Rightarrow> SinkInvariantFailure | Some r \<Rightarrow> r);
          call = CallPublish event (tr_connection_generation st) sink_result
      in if sink_result \<noteq> SinkInvariantFailure then (True, st, [call])
         else case terminal_failure (make_network_error NeInternal ''websocket-event-publication''
                        ''normalized event sink failed closed'' None None) False st of
           (st', calls) \<Rightarrow> (False, st', call # calls))"

definition submit_depth_update_call ::
  "transport_world \<Rightarrow> depth_update \<Rightarrow> transport \<Rightarrow> bool \<times> effect" where
  "submit_depth_update_call w update st =
     (let call = CallSubmitDepth update
                   \<lparr>sp_connection_generation = Some (tr_connection_generation st)\<rparr> (tw_admission w)
      in if tw_admission w \<noteq> AdAccepted then
           (case terminal_failure (make_network_error NeRuntimeAdmission ''websocket-runtime-admission''
                   ''MarketRuntime rejected a depth frame'' None None) False st of
              (st', calls) \<Rightarrow> (False, st', call # calls))
         else (True, map_transport (\<lambda>ob. ob\<lparr>to_depth_frame_count := to_depth_frame_count ob + 1\<rparr>) st,
               [call]))"

definition receive_server_shutdown :: "transport \<Rightarrow> effect" where
  "receive_server_shutdown st =
     terminal_failure (make_network_error NeServerShutdown ''websocket-server-shutdown''
         ''Binance announced serverShutdown'' None None) False
       (map_transport (\<lambda>ob. ob\<lparr>to_server_shutdown_observed := True\<rparr>) st)"

definition receive_protocol_failure :: "protocol_error \<Rightarrow> transport \<Rightarrow> effect" where
  "receive_protocol_failure failure st =
     terminal_failure (make_network_error NeProtocol ''websocket-json'' (pe_message failure) None None) False st"

definition event_allocation_error :: network_error where
  "event_allocation_error =
     make_network_error NeInternal ''websocket-event-allocation'' ''normalized event allocation failed''
       None None"

definition note_event_time :: "clock_sample \<Rightarrow> transport \<Rightarrow> transport" where
  "note_event_time received_at =
     map_transport (\<lambda>ob. ob\<lparr>to_last_event_utc_ns := Some (cs_utc_ns received_at)\<rparr>)"

text \<open>Publish first, then go on with the state and the calls so far.\<close>

definition publish_then ::
  "transport_world \<Rightarrow> normalized_market_event \<Rightarrow> (transport \<Rightarrow> bool \<times> effect) \<Rightarrow> transport
     \<Rightarrow> bool \<times> effect" where
  "publish_then w event following st =
     (if \<not> tw_allocation_ok w then (False, terminal_failure event_allocation_error False st)
      else case publish_normalized_event w event st of
        (False, st', calls) \<Rightarrow> (False, st', calls)
      | (True, st', calls) \<Rightarrow>
          (case following st' of (goes_on, st'', calls') \<Rightarrow> (goes_on, st'', calls @ calls')))"

text \<open>The frame counters of the events that are not depth updates.\<close>

definition count_event_frame :: "normalized_market_event \<Rightarrow> transport \<Rightarrow> bool \<times> effect" where
  "count_event_frame event st =
     (True, map_transport (\<lambda>ob. case event of
          EvAggTrade _ \<Rightarrow> ob\<lparr>to_agg_trade_frame_count := to_agg_trade_frame_count ob + 1\<rparr>
        | _ \<Rightarrow> ob\<lparr>to_book_ticker_frame_count := to_book_ticker_frame_count ob + 1\<rparr>) st, [])"

text \<open>The parsers are those of the configuration; the constructor rejects one without them.\<close>

definition receive_depth_frame ::
  "transport_world \<Rightarrow> string \<Rightarrow> clock_sample \<Rightarrow> transport \<Rightarrow> bool \<times> effect" where
  "receive_depth_frame w payload received_at st =
     (case the (bc_depth_frame_parser (tr_config st)) payload received_at
             (to_connection_id (tr_observation st)) of
        DfShutdown _ \<Rightarrow> (False, receive_server_shutdown st)
      | DfError failure \<Rightarrow> (False, receive_protocol_failure failure st)
      | DfUpdate update \<Rightarrow>
          let st1 = note_event_time received_at st in
          if bc_profile (tr_config st) = DepthWithEvents
          then publish_then w (EvDepthUpdate update) (submit_depth_update_call w update) st1
          else submit_depth_update_call w update st1)"

definition receive_combined_frame ::
  "transport_world \<Rightarrow> string \<Rightarrow> clock_sample \<Rightarrow> transport \<Rightarrow> bool \<times> effect" where
  "receive_combined_frame w payload received_at st =
     (case the (bc_combined_frame_parser (tr_config st)) payload received_at
             (to_connection_id (tr_observation st)) of
        CfShutdown _ \<Rightarrow> (False, receive_server_shutdown st)
      | CfError failure \<Rightarrow> (False, receive_protocol_failure failure st)
      | CfEvent event \<Rightarrow>
          publish_then w event
            (case event of EvDepthUpdate depth \<Rightarrow> submit_depth_update_call w depth
                         | _ \<Rightarrow> count_event_frame event)
            (note_event_time received_at st))"

definition receive_websocket_message ::
  "transport_world \<Rightarrow> string \<Rightarrow> clock_sample \<Rightarrow> transport \<Rightarrow> bool \<times> effect" where
  "receive_websocket_message w payload received_at st =
     (if bc_profile (tr_config st) \<noteq> G9CombinedEvents then receive_depth_frame w payload received_at st
      else receive_combined_frame w payload received_at st)"

section \<open>The snapshot\<close>

definition receive_depth_response :: "transport_world \<Rightarrow> get_result \<Rightarrow> transport \<Rightarrow> effect" where
  "receive_depth_response w result st =
     (case result of
        Inl failure \<Rightarrow> terminal_failure failure True st
      | Inr (response, received_at) \<Rightarrow>
          (case the (bc_depth_snapshot_parser (tr_config st)) (hr_body response) received_at
                  (bc_snapshot_request_id (tr_config st)) of
             Inl failure \<Rightarrow>
               terminal_failure (make_network_error NeProtocol ''depth-snapshot-json'' (pe_message failure)
                                   None None) True st
           | Inr snapshot \<Rightarrow>
               let call = CallSubmitSnapshot snapshot
                            \<lparr>sp_connection_generation = Some (tr_connection_generation st)\<rparr>
                            (tw_admission w)
               in if tw_admission w \<noteq> AdAccepted then
                    (case terminal_failure (make_network_error NeRuntimeAdmission ''snapshot-runtime-admission''
                            ''MarketRuntime rejected the REST snapshot'' None None) True st of
                       (st', calls) \<Rightarrow> (st', call # calls))
                  else (map_transport (\<lambda>ob. ob\<lparr>to_rest_depth_fetched := True\<rparr>) st, [call])))"

text \<open>The request has changed, and has perhaps called its completion.\<close>

definition depth_request_event ::
  "transport_world \<Rightarrow> async_https_get \<times> get_result option \<Rightarrow> transport \<Rightarrow> effect" where
  "depth_request_event w outcome st =
     (case outcome of (op, completed) \<Rightarrow>
        let st1 = st\<lparr>tr_depth_request := Some op\<rparr> in
        case completed of None \<Rightarrow> (st1, []) | Some result \<Rightarrow> receive_depth_response w result st1)"

definition websocket_active :: "transport_world \<Rightarrow> transport \<Rightarrow> effect" where
  "websocket_active w st =
     (if tr_stop_requested st then (st, [])
      else
        let st1 = map_transport (\<lambda>ob. ob\<lparr>to_websocket_handshake := True, to_running := True\<rparr>) st
        in depth_request_event w (get_start (tw_tls w) make_https_get)
             (st1\<lparr>tr_depth_request_held := True\<rparr>))"

section \<open>The stream\<close>

text \<open>The connection has changed, and has perhaps called one of its callbacks.\<close>

definition websocket_event ::
  "transport_world \<Rightarrow> web_socket \<times> ws_callback option \<Rightarrow> transport \<Rightarrow> effect" where
  "websocket_event w outcome st =
     (case outcome of (op, callback) \<Rightarrow>
        let st1 = st\<lparr>tr_websocket := Some op\<rparr> in
        case callback of
          None \<Rightarrow> (st1, [])
        | Some CbTlsVerified \<Rightarrow> (map_transport (\<lambda>ob. ob\<lparr>to_tls_verified := True\<rparr>) st1, [])
        | Some CbActive \<Rightarrow> websocket_active w st1
        | Some (CbMessage payload received_at retire_after_message) \<Rightarrow>
            (case receive_websocket_message w payload received_at st1 of
               (goes_on, st2, calls) \<Rightarrow>
                 (st2\<lparr>tr_websocket :=
                        map_option (ws_after_message goes_on retire_after_message) (tr_websocket st2)\<rparr>,
                  calls))
        | Some (CbFailure failure) \<Rightarrow> terminal_failure failure False st1)"

definition start_websocket :: "transport_world \<Rightarrow> transport \<Rightarrow> effect" where
  "start_websocket w st =
     websocket_event w (ws_start (tw_tls w) make_web_socket) (st\<lparr>tr_websocket_held := True\<rparr>)"

text \<open>The control callback; it is called during a read.\<close>

definition websocket_ping :: "transport \<Rightarrow> transport" where
  "websocket_ping = map_transport (\<lambda>ob. ob\<lparr>to_server_ping_observed := True\<rparr>)"

section \<open>The network thread\<close>

text \<open>What \<open>context_.run()\<close> calls next. It returns when no work is left: the guard is released and
  nothing is posted or outstanding.\<close>

datatype network_event =
    RunPosted
  | RunWebSocketIo bool string "error_code option"
  | RunWebSocketTimer nat "error_code option"
  | RunPing
  | RunDepthIo http_response "error_code option"
  | RunDepthTimer nat "error_code option"
  | RunBarrier
  | RunReturns

definition run_posted :: "transport_world \<Rightarrow> transport \<Rightarrow> effect option" where
  "run_posted w st =
     (case tr_posted st of
        [] \<Rightarrow> None
      | PostedStart # rest \<Rightarrow> Some (start_websocket w (st\<lparr>tr_posted := rest\<rparr>))
      | PostedShutdown # rest \<Rightarrow> Some (begin_clean_shutdown (st\<lparr>tr_posted := rest\<rparr>), []))"

definition idle :: "transport \<Rightarrow> bool" where
  "idle st \<longleftrightarrow> \<not> tr_work_guard st \<and> tr_posted st = [] \<and> \<not> tr_barrier st
     \<and> (case tr_websocket st of None \<Rightarrow> True | Some op \<Rightarrow> outstanding op = 0)
     \<and> (case tr_depth_request st of None \<Rightarrow> True | Some op \<Rightarrow> outstanding op = 0)"

definition network_step :: "transport_world \<Rightarrow> network_event \<Rightarrow> transport \<Rightarrow> effect option" where
  "network_step w event st =
     (if tr_thread st \<noteq> NtRunning then None
      else case event of
        RunPosted \<Rightarrow> run_posted w st
      | RunWebSocketIo got_text payload ec \<Rightarrow>
          Option.bind (tr_websocket st) (\<lambda>op.
            map_option (\<lambda>outcome. websocket_event w outcome st)
              (ws_io_handler (tw_clock w) got_text payload ec op))
      | RunWebSocketTimer i ec \<Rightarrow>
          Option.bind (tr_websocket st) (\<lambda>op.
            map_option (\<lambda>outcome. websocket_event w outcome st) (ws_timer_handler i ec op))
      | RunPing \<Rightarrow>
          Option.bind (tr_websocket st) (\<lambda>op.
            if ao_io op = Some WsRead then Some (websocket_ping st, []) else None)
      | RunDepthIo response ec \<Rightarrow>
          Option.bind (tr_depth_request st) (\<lambda>op.
            map_option (\<lambda>outcome. depth_request_event w outcome st)
              (get_io_handler (tw_clock w) response ec op))
      | RunDepthTimer i ec \<Rightarrow>
          Option.bind (tr_depth_request st) (\<lambda>op.
            map_option (\<lambda>outcome. depth_request_event w outcome st) (get_timer_handler i ec op))
      | RunBarrier \<Rightarrow> if tr_barrier st then Some (shutdown_barrier st, []) else None
      | RunReturns \<Rightarrow> if idle st then Some (st\<lparr>tr_thread := NtExited\<rparr>, []) else None)"

section \<open>Start and stop\<close>

text \<open>\<open>start\<close> up to its wait on the condition variable, and its return.\<close>

definition transport_start_begin :: "transport \<Rightarrow> transport_start_result + transport" where
  "transport_start_begin st =
     (if to_stopped (tr_observation st) then Inl TsStopped
      else if to_started (tr_observation st) then Inl TsAlreadyStarted
      else Inr ((map_transport (\<lambda>ob. ob\<lparr>to_started := True\<rparr>) st)
             \<lparr>tr_work_guard := True, tr_thread := NtRunning, tr_posted := tr_posted st @ [PostedStart]\<rparr>))"

definition transport_start_finish :: "transport \<Rightarrow> transport_start_result option" where
  "transport_start_finish st =
     (let ob = tr_observation st in
      if \<not> (to_websocket_handshake ob \<or> to_terminal_error ob \<noteq> None \<or> to_stopped ob
             \<or> tr_stop_requested st) then None
      else if to_stopped ob \<or> tr_stop_requested st then Some TsStopped
      else Some (if to_websocket_handshake ob then TsStarted else TsFailed))"

text \<open>\<open>stop\<close>: its first critical section, with what the caller does next; the post; the end.\<close>

datatype stop_call = StopReturns | StopWaits | StopWinner

definition transport_stop_begin :: "transport \<Rightarrow> stop_call \<times> transport" where
  "transport_stop_begin st =
     (if to_stopped (tr_observation st) then (StopReturns, st)
      else if tr_stop_in_progress st then (StopWaits, st)
      else (StopWinner, (map_transport (\<lambda>ob. ob\<lparr>to_running := False\<rparr>) st)
             \<lparr>tr_stop_in_progress := True, tr_stop_requested := True,
              tr_stopper := (if to_started (tr_observation st) then StopperPosting else StopperFinishing)\<rparr>))"

definition transport_stop_post :: "transport \<Rightarrow> transport option" where
  "transport_stop_post st =
     (if tr_stopper st = StopperPosting
      then Some (st\<lparr>tr_posted := tr_posted st @ [PostedShutdown], tr_stopper := StopperJoining\<rparr>)
      else None)"

definition transport_stop_joined :: "transport \<Rightarrow> transport option" where
  "transport_stop_joined st =
     (if tr_stopper st = StopperJoining \<and> tr_thread st = NtExited
      then Some (st\<lparr>tr_stopper := StopperFinishing\<rparr>) else None)"

definition transport_stop_finish :: "transport \<Rightarrow> transport option" where
  "transport_stop_finish st =
     (if tr_stopper st = StopperFinishing
      then Some ((map_transport (\<lambda>ob. ob\<lparr>to_stopped := True, to_running := False\<rparr>) st)
                   \<lparr>tr_stop_in_progress := False, tr_stopper := StopperNone\<rparr>)
      else None)"

definition transport_observe :: "transport \<Rightarrow> transport_observation" where
  "transport_observe st = tr_observation st"

text \<open>
  All interleavings of the network thread with \<open>start\<close> and \<open>stop\<close>. \<open>coordinated\<close> is the contract of
  the class comment in the header, that one lifecycle owner coordinates the two: the critical
  section of \<open>start\<close> does not fall into a running \<open>stop\<close>.
\<close>

inductive transport_step :: "bool \<Rightarrow> transport \<Rightarrow> transport_call list \<Rightarrow> transport \<Rightarrow> bool"
  for coordinated :: bool where
  ts_network: "network_step w event st = Some (st', calls) \<Longrightarrow> transport_step coordinated st calls st'"
| ts_start: "transport_start_begin st = Inr st' \<Longrightarrow> (coordinated \<Longrightarrow> \<not> tr_stop_in_progress st) \<Longrightarrow>
    transport_step coordinated st [] st'"
| ts_stop: "transport_step coordinated st [] (snd (transport_stop_begin st))"
| ts_post: "transport_stop_post st = Some st' \<Longrightarrow> transport_step coordinated st [] st'"
| ts_join: "transport_stop_joined st = Some st' \<Longrightarrow> transport_step coordinated st [] st'"
| ts_stopped: "transport_stop_finish st = Some st' \<Longrightarrow> transport_step coordinated st [] st'"

definition transport_init :: "transport \<Rightarrow> bool" where
  "transport_init st \<longleftrightarrow> (\<exists>clock generation config observation.
     make_transport clock generation config = Inr observation \<and> st = new_transport config observation)"

end
