(* ===== verification/TransportInvariant.thy ===== *)
theory TransportInvariant
  imports TransportSession
begin

text \<open>
  The invariant of a transport under every interleaving of its network thread with \<open>start\<close> and
  \<open>stop\<close>: the operations are in order, whatever the transport no longer holds will end, and once
  the work guard is released nothing new is started.
\<close>

section \<open>What the handlers do to the control state\<close>

text \<open>The members of an observation no handler of the network thread writes.\<close>

definition same_identity :: "transport_observation \<Rightarrow> transport_observation \<Rightarrow> bool" where
  "same_identity ob ob' \<longleftrightarrow> to_started ob' = to_started ob \<and> to_stopped ob' = to_stopped ob
     \<and> to_profile ob' = to_profile ob \<and> to_connection_id ob' = to_connection_id ob
     \<and> to_connection_generation ob' = to_connection_generation ob"

lemma same_identity_refl [simp]: "same_identity ob ob"
  by (simp add: same_identity_def)

lemma same_identity_trans: "same_identity a b \<Longrightarrow> same_identity b c \<Longrightarrow> same_identity a c"
  by (simp add: same_identity_def)

text \<open>Only the observation changes, and not the failure in it.\<close>

definition goes_on :: "transport \<Rightarrow> transport \<Rightarrow> bool" where
  "goes_on st st' \<longleftrightarrow> (\<exists>ob. st' = st\<lparr>tr_observation := ob\<rparr> \<and> same_identity (tr_observation st) ob
     \<and> to_terminal_error ob = to_terminal_error (tr_observation st))"

text \<open>The first failure: the connection is ended.\<close>

definition end_connection :: "transport \<Rightarrow> transport" where
  "end_connection st = release_network_work (cancel_network_operations st)"

definition breaks_off :: "transport \<Rightarrow> transport \<Rightarrow> bool" where
  "breaks_off st st' \<longleftrightarrow> to_terminal_error (tr_observation st) = None
     \<and> (\<exists>ob. st' = end_connection (st\<lparr>tr_observation := ob\<rparr>) \<and> same_identity (tr_observation st) ob
             \<and> to_terminal_error ob \<noteq> None)"

lemma end_connection_fields [simp]:
  "tr_websocket (end_connection st)
     = (if tr_websocket_held st then map_option cancel (tr_websocket st) else tr_websocket st)"
  "tr_depth_request (end_connection st)
     = (if tr_depth_request_held st then map_option cancel (tr_depth_request st) else tr_depth_request st)"
  "\<not> tr_websocket_held (end_connection st)" "\<not> tr_depth_request_held (end_connection st)"
  "\<not> tr_work_guard (end_connection st)"
  "tr_observation (end_connection st) = tr_observation st" "tr_config (end_connection st) = tr_config st"
  "tr_connection_generation (end_connection st) = tr_connection_generation st"
  "tr_stop_requested (end_connection st) = tr_stop_requested st"
  "tr_stop_in_progress (end_connection st) = tr_stop_in_progress st"
  "tr_network_clean_cancel_requested (end_connection st) = tr_network_clean_cancel_requested st"
  "tr_thread (end_connection st) = tr_thread st" "tr_posted (end_connection st) = tr_posted st"
  "tr_barrier (end_connection st) = tr_barrier st" "tr_stopper (end_connection st) = tr_stopper st"
  by (simp_all add: end_connection_def release_network_work_def cancel_network_operations_def Let_def)

lemma end_connection_observation:
  "end_connection (st\<lparr>tr_observation := ob\<rparr>) = (end_connection st)\<lparr>tr_observation := ob\<rparr>"
  by (simp add: end_connection_def release_network_work_def cancel_network_operations_def Let_def)

lemma end_connection_barrier:
  "shutdown_barrier st = (end_connection st)\<lparr>tr_barrier := False\<rparr>"
  by (simp add: shutdown_barrier_def end_connection_def release_network_work_def cancel_network_operations_def
      Let_def)

lemma end_connection_websocket:
  "(end_connection (st\<lparr>tr_websocket := a\<rparr>))\<lparr>tr_websocket := b\<rparr> = (end_connection st)\<lparr>tr_websocket := b\<rparr>"
  by (simp add: end_connection_def release_network_work_def cancel_network_operations_def Let_def)

lemma goes_on_refl [simp]: "goes_on st st"
  unfolding goes_on_def by (intro exI [of _ "tr_observation st"]) simp

lemma goes_on_map:
  assumes "\<And>ob. same_identity ob (f ob) \<and> to_terminal_error (f ob) = to_terminal_error ob"
  shows "goes_on st (map_transport f st)"
  using assms by (auto simp: goes_on_def map_transport_def)

lemma goes_on_trans: "goes_on a b \<Longrightarrow> goes_on b c \<Longrightarrow> goes_on a c"
  by (auto simp: goes_on_def same_identity_def)

lemma goes_on_breaks_off: "goes_on a b \<Longrightarrow> breaks_off b c \<Longrightarrow> breaks_off a c"
  by (auto simp: goes_on_def breaks_off_def same_identity_def)

lemma terminal_failure_cases:
  assumes "terminal_failure failure snapshot_failure st = (st', calls)"
  shows "to_terminal_error (tr_observation st) \<noteq> None \<and> st' = st \<and> calls = []
    \<or> breaks_off st st' \<and> calls = [if snapshot_failure then CallSnapshotFailure else CallTransportFailure]"
proof (cases "to_terminal_error (tr_observation st)")
  case None
  let ?ob = "(tr_observation st)\<lparr>to_terminal_error := Some failure, to_running := False\<rparr>"
  have "st' = end_connection (st\<lparr>tr_observation := ?ob\<rparr>)"
    using assms None by (auto simp: terminal_failure_def end_connection_def map_transport_def Let_def)
  then have "breaks_off st st'"
    unfolding breaks_off_def using None by (intro conjI exI [of _ ?ob]) (simp_all add: same_identity_def)
  with assms None show ?thesis by (auto simp: terminal_failure_def Let_def)
qed (use assms in \<open>simp add: terminal_failure_def\<close>)

lemma terminal_failure_ends:
  "terminal_failure failure snapshot_failure st = (st', calls) \<Longrightarrow> goes_on st st' \<or> breaks_off st st'"
  using terminal_failure_cases by fastforce

section \<open>What the handlers call\<close>

definition is_failure_call :: "transport_call \<Rightarrow> bool" where
  "is_failure_call call \<longleftrightarrow> call = CallTransportFailure \<or> call = CallSnapshotFailure"

text \<open>The depth updates submitted to the runtime, and those the event sink took, in order.\<close>

definition submitted :: "transport_call list \<Rightarrow> depth_update list" where
  "submitted calls = concat (map (\<lambda>call. case call of CallSubmitDepth u _ _ \<Rightarrow> [u] | _ \<Rightarrow> []) calls)"

definition published :: "transport_call list \<Rightarrow> depth_update list" where
  "published calls = concat (map (\<lambda>call. case call of
       CallPublish (EvDepthUpdate u) _ SinkContinue \<Rightarrow> [u] | _ \<Rightarrow> []) calls)"

definition accepted_updates :: "transport_call list \<Rightarrow> nat" where
  "accepted_updates calls =
     length (filter (\<lambda>call. case call of CallSubmitDepth _ _ AdAccepted \<Rightarrow> True | _ \<Rightarrow> False) calls)"

definition accepted_snapshot :: "transport_call list \<Rightarrow> bool" where
  "accepted_snapshot calls \<longleftrightarrow>
     list_ex (\<lambda>call. case call of CallSubmitSnapshot _ _ AdAccepted \<Rightarrow> True | _ \<Rightarrow> False) calls"

fun own_call :: "u64 \<Rightarrow> transport_call \<Rightarrow> bool" where
  "own_call generation (CallPublish _ g _) = (g = generation)"
| "own_call generation (CallSubmitDepth _ provenance _) =
     (sp_connection_generation provenance = Some generation)"
| "own_call generation (CallSubmitSnapshot _ provenance _) =
     (sp_connection_generation provenance = Some generation)"
| "own_call generation _ = True"

text \<open>
  The account of some calls: how the observation changed with them. It is what a property of the
  calls of a whole run is put together from.
\<close>

definition accounted :: "transport_profile \<Rightarrow> u64 \<Rightarrow> transport_observation \<Rightarrow> transport_observation
    \<Rightarrow> transport_call list \<Rightarrow> bool" where
  "accounted profile generation ob ob' calls \<longleftrightarrow>
     to_depth_frame_count ob' = to_depth_frame_count ob + accepted_updates calls
     \<and> to_rest_depth_fetched ob' = (to_rest_depth_fetched ob \<or> accepted_snapshot calls)
     \<and> (if to_terminal_error ob = None then 0 else 1) + length (filter is_failure_call calls)
         = (if to_terminal_error ob' = None then 0 else 1)
     \<and> list_all (own_call generation) calls
     \<and> (if profile = DepthOnly then published calls = [] else submitted calls = published calls)"

lemma accounted_Nil:
  assumes "to_depth_frame_count ob' = to_depth_frame_count ob"
    and "to_rest_depth_fetched ob' = to_rest_depth_fetched ob"
    and "to_terminal_error ob' = to_terminal_error ob"
  shows "accounted profile generation ob ob' []"
  using assms by (simp add: accounted_def accepted_updates_def accepted_snapshot_def submitted_def published_def)

lemma accounted_append:
  "accounted profile generation a b xs \<Longrightarrow> accounted profile generation b c ys
    \<Longrightarrow> accounted profile generation a c (xs @ ys)"
  by (auto simp: accounted_def accepted_updates_def accepted_snapshot_def submitted_def published_def
      split: if_splits)

definition counters :: "transport_observation \<Rightarrow> nat \<times> bool" where
  "counters ob = (to_depth_frame_count ob, to_rest_depth_fetched ob)"

lemma terminal_failure_accounted:
  assumes "terminal_failure failure snapshot_failure st = (st', calls)"
    and "counters ob = counters (tr_observation st)"
    and "to_terminal_error ob = to_terminal_error (tr_observation st)"
  shows "accounted profile generation ob (tr_observation st') calls"
proof -
  have "counters (tr_observation st') = counters (tr_observation st)"
    using assms(1) by (auto simp: terminal_failure_def Let_def map_transport_def counters_def
        release_network_work_def cancel_network_operations_def split: if_splits)
  moreover have "to_terminal_error (tr_observation st) \<noteq> None \<and> st' = st \<and> calls = []
      \<or> to_terminal_error (tr_observation st) = None \<and> to_terminal_error (tr_observation st') \<noteq> None
        \<and> (calls = [CallTransportFailure] \<or> calls = [CallSnapshotFailure])"
    using terminal_failure_cases [OF assms(1)] by (auto simp: breaks_off_def)
  ultimately show ?thesis
    using assms(2,3)
    by (auto simp: accounted_def accepted_updates_def accepted_snapshot_def submitted_def published_def
        counters_def is_failure_call_def)
qed

text \<open>A handler's effect that leaves the operations and the work alone, or ends the connection.\<close>

definition effect_ok :: "transport \<Rightarrow> transport \<Rightarrow> transport_call list \<Rightarrow> bool" where
  "effect_ok st st' calls \<longleftrightarrow> (goes_on st st' \<or> breaks_off st st')
     \<and> accounted (bc_profile (tr_config st)) (tr_connection_generation st)
         (tr_observation st) (tr_observation st') calls"

lemma failure_ok:
  assumes "goes_on st st1" and "counters (tr_observation st1) = counters (tr_observation st)"
    and "terminal_failure failure snapshot_failure st1 = (st', calls)"
  shows "effect_ok st st' calls"
proof -
  have "to_terminal_error (tr_observation st) = to_terminal_error (tr_observation st1)"
    using assms(1) by (auto simp: goes_on_def)
  then have "accounted (bc_profile (tr_config st)) (tr_connection_generation st) (tr_observation st)
      (tr_observation st') calls"
    using assms(2) by (intro terminal_failure_accounted [OF assms(3)]) simp_all
  moreover have "goes_on st st' \<or> breaks_off st st'"
    using terminal_failure_ends [OF assms(3)] goes_on_trans [OF assms(1)] goes_on_breaks_off [OF assms(1)]
    by blast
  ultimately show ?thesis by (simp add: effect_ok_def)
qed

lemma goes_on_ok:
  assumes "goes_on st st'" and "counters (tr_observation st') = counters (tr_observation st)"
  shows "effect_ok st st' []"
  using assms by (auto simp: effect_ok_def goes_on_def counters_def intro: accounted_Nil)

text \<open>Frames go on in another state that differs only in what was observed.\<close>

lemma effect_ok_from:
  assumes "goes_on st st1" and "counters (tr_observation st1) = counters (tr_observation st)"
    and "effect_ok st1 st' calls"
  shows "effect_ok st st' calls"
proof -
  have same: "tr_config st1 = tr_config st" "tr_connection_generation st1 = tr_connection_generation st"
      "to_terminal_error (tr_observation st1) = to_terminal_error (tr_observation st)"
    using assms(1) by (auto simp: goes_on_def)
  with assms show ?thesis
    unfolding effect_ok_def
    using goes_on_trans goes_on_breaks_off by (fastforce simp: accounted_def counters_def)
qed

lemma note_event_time_goes_on:
  "goes_on st (note_event_time at st)"
  "counters (tr_observation (note_event_time at st)) = counters (tr_observation st)"
  "tr_config (note_event_time at st) = tr_config st"
  unfolding note_event_time_def
  by (rule goes_on_map) (simp_all add: same_identity_def map_transport_def counters_def)

lemma submit_depth_update_ok:
  assumes "submit_depth_update_call w u st = (on, st', calls)"
  shows "(goes_on st st' \<or> \<not> on \<and> breaks_off st st') \<and> submitted calls = [u]
    \<and> accounted DepthOnly (tr_connection_generation st) (tr_observation st) (tr_observation st') calls"
proof (cases "tw_admission w = AdAccepted")
  case True
  have "goes_on st (map_transport (\<lambda>ob. ob\<lparr>to_depth_frame_count := to_depth_frame_count ob + 1\<rparr>) st)"
    by (rule goes_on_map) (simp add: same_identity_def)
  with True assms show ?thesis
    by (auto simp: submit_depth_update_call_def submitted_def accounted_def accepted_updates_def
        accepted_snapshot_def published_def map_transport_def is_failure_call_def)
next
  case False
  then obtain cs where cs: "terminal_failure (make_network_error NeRuntimeAdmission ''websocket-runtime-admission''
        ''MarketRuntime rejected a depth frame'' None None) False st = (st', cs)"
      "calls = CallSubmitDepth u \<lparr>sp_connection_generation = Some (tr_connection_generation st)\<rparr>
                 (tw_admission w) # cs" "\<not> on"
    using assms by (auto simp: submit_depth_update_call_def split: prod.splits)
  from terminal_failure_accounted [OF cs(1), of "tr_observation st" DepthOnly "tr_connection_generation st"]
  have "accounted DepthOnly (tr_connection_generation st) (tr_observation st) (tr_observation st') calls"
    using False by (auto simp: accounted_def cs(2) accepted_updates_def accepted_snapshot_def published_def
        is_failure_call_def split: admission_result.splits)
  moreover have "submitted calls = [u]"
    using terminal_failure_cases [OF cs(1)] by (auto simp: cs(2) submitted_def)
  ultimately show ?thesis using terminal_failure_ends [OF cs(1)] cs(3) by auto
qed

lemma accounted_publish:
  assumes "accounted profile generation ob ob' calls" and "profile \<noteq> DepthOnly"
    and "r = SinkInvariantFailure \<or> (\<forall>u. event \<noteq> EvDepthUpdate u)"
  shows "accounted profile generation ob ob' (CallPublish event generation r # calls)"
  using assms by (auto simp: accounted_def accepted_updates_def accepted_snapshot_def published_def submitted_def
      is_failure_call_def split: normalized_event_sink_result.splits normalized_market_event.splits)

lemma accounted_publish_update:
  assumes "accounted DepthOnly generation ob ob' calls" and "submitted calls = [u]" and "profile \<noteq> DepthOnly"
  shows "accounted profile generation ob ob' (CallPublish (EvDepthUpdate u) generation SinkContinue # calls)"
  using assms by (simp add: accounted_def accepted_updates_def accepted_snapshot_def published_def submitted_def
      is_failure_call_def)

lemma publish_then_ok:
  assumes "publish_then w event following st = (on, st', calls)"
    and profile: "bc_profile (tr_config st) \<noteq> DepthOnly"
    and following: "\<And>on' st2 cs. following st = (on', st2, cs) \<Longrightarrow>
      (goes_on st st2 \<or> \<not> on' \<and> breaks_off st st2)
      \<and> accounted (bc_profile (tr_config st)) (tr_connection_generation st) (tr_observation st)
          (tr_observation st2) (CallPublish event (tr_connection_generation st) SinkContinue # cs)"
  shows "effect_ok st st' calls \<and> (on \<longrightarrow> goes_on st st')"
proof -
  let ?g = "tr_connection_generation st"
  consider (allocation) "\<not> tw_allocation_ok w"
    | (sink) "tw_allocation_ok w" "tw_sink w \<noteq> Some SinkContinue"
    | (taken) "tw_allocation_ok w" "tw_sink w = Some SinkContinue" by blast
  then show ?thesis
  proof cases
    case allocation
    with assms(1) have "terminal_failure event_allocation_error False st = (st', calls)" "\<not> on"
      by (auto simp: publish_then_def)
    then show ?thesis using failure_ok [of st st] by simp
  next
    case sink
    have "(case tw_sink w of None \<Rightarrow> SinkInvariantFailure | Some r \<Rightarrow> r) = SinkInvariantFailure"
    proof (cases "tw_sink w")
      case (Some r)
      with sink(2) show ?thesis by (cases r) simp_all
    qed simp
    then have "publish_normalized_event w event st
        = (case terminal_failure (make_network_error NeInternal ''websocket-event-publication''
                  ''normalized event sink failed closed'' None None) False st of
             (st', calls) \<Rightarrow> (False, st', CallPublish event ?g SinkInvariantFailure # calls))"
      by (simp add: publish_normalized_event_def)
    then obtain cs where cs: "terminal_failure (make_network_error NeInternal ''websocket-event-publication''
          ''normalized event sink failed closed'' None None) False st = (st', cs)"
        "calls = CallPublish event ?g SinkInvariantFailure # cs" "\<not> on"
      using assms(1) sink(1) by (auto simp: publish_then_def split: prod.splits)
    from failure_ok [OF goes_on_refl refl cs(1)] have "effect_ok st st' cs" .
    then show ?thesis
      using profile cs(2,3) accounted_publish [of "bc_profile (tr_config st)" ?g _ _ cs SinkInvariantFailure event]
      by (simp add: effect_ok_def)
  next
    case taken
    obtain on' st2 cs where f: "following st = (on', st2, cs)" by (cases "following st")
    with taken assms(1) have "on = on'" "st' = st2" "calls = CallPublish event ?g SinkContinue # cs"
      by (auto simp: publish_then_def publish_normalized_event_def)
    with following [OF f] show ?thesis by (auto simp: effect_ok_def)
  qed
qed

lemma count_event_frame_ok:
  assumes "count_event_frame event st = (on', st2, cs)"
  shows "goes_on st st2 \<and> counters (tr_observation st2) = counters (tr_observation st) \<and> cs = []"
proof -
  from assms have st2: "st2 = map_transport (\<lambda>ob. case event of
      EvAggTrade _ \<Rightarrow> ob\<lparr>to_agg_trade_frame_count := to_agg_trade_frame_count ob + 1\<rparr>
    | _ \<Rightarrow> ob\<lparr>to_book_ticker_frame_count := to_book_ticker_frame_count ob + 1\<rparr>) st" and "cs = []"
    by (simp_all add: count_event_frame_def)
  moreover have "goes_on st st2"
    unfolding st2 by (rule goes_on_map) (simp add: same_identity_def split: normalized_market_event.split)
  ultimately show ?thesis
    by (simp add: map_transport_def counters_def split: normalized_market_event.split)
qed

lemma submit_following:
  assumes "submit_depth_update_call w u st = (on', st2, cs)" and "profile \<noteq> DepthOnly"
  shows "(goes_on st st2 \<or> \<not> on' \<and> breaks_off st st2)
    \<and> accounted profile (tr_connection_generation st) (tr_observation st)
        (tr_observation st2) (CallPublish (EvDepthUpdate u) (tr_connection_generation st) SinkContinue # cs)"
  using submit_depth_update_ok [OF assms(1)] accounted_publish_update [OF _ _ assms(2)] by blast

lemma receive_depth_frame_ok:
  assumes "receive_depth_frame w payload received_at st = (on, st', calls)"
    and "bc_profile (tr_config st) \<noteq> G9CombinedEvents"
  shows "effect_ok st st' calls \<and> (on \<longrightarrow> goes_on st st')"
proof -
  let ?st1 = "note_event_time received_at st"
  note noted = note_event_time_goes_on [where st = st and at = received_at]
  have gen: "tr_connection_generation ?st1 = tr_connection_generation st"
    by (simp add: note_event_time_def map_transport_def)
  consider (down) t where "the (bc_depth_frame_parser (tr_config st)) payload received_at
        (to_connection_id (tr_observation st)) = DfShutdown t"
    | (broken) e where "the (bc_depth_frame_parser (tr_config st)) payload received_at
        (to_connection_id (tr_observation st)) = DfError e"
    | (update) u where "the (bc_depth_frame_parser (tr_config st)) payload received_at
        (to_connection_id (tr_observation st)) = DfUpdate u"
    by (meson depth_frame_result.exhaust)
  then show ?thesis
  proof cases
    case down
    let ?st0 = "map_transport (\<lambda>ob. ob\<lparr>to_server_shutdown_observed := True\<rparr>) st"
    have "goes_on st ?st0" by (rule goes_on_map) (simp add: same_identity_def)
    moreover have "counters (tr_observation ?st0) = counters (tr_observation st)"
      by (simp add: map_transport_def counters_def)
    ultimately show ?thesis
      using assms(1) down failure_ok by (auto simp: receive_depth_frame_def receive_server_shutdown_def)
  next
    case broken
    then show ?thesis
      using assms(1) failure_ok [OF goes_on_refl refl]
      by (auto simp: receive_depth_frame_def receive_protocol_failure_def)
  next
    case update
    show ?thesis
    proof (cases "bc_profile (tr_config st) = DepthWithEvents")
      case True
      with assms(1) update
      have step: "publish_then w (EvDepthUpdate u) (submit_depth_update_call w u) ?st1 = (on, st', calls)"
        by (simp add: receive_depth_frame_def Let_def)
      have "effect_ok ?st1 st' calls \<and> (on \<longrightarrow> goes_on ?st1 st')"
      proof (rule publish_then_ok [OF step])
        fix on' st2 cs assume "submit_depth_update_call w u ?st1 = (on', st2, cs)"
        from submit_following [OF this, of DepthWithEvents] True
        show "(goes_on ?st1 st2 \<or> \<not> on' \<and> breaks_off ?st1 st2)
          \<and> accounted (bc_profile (tr_config ?st1)) (tr_connection_generation ?st1) (tr_observation ?st1)
              (tr_observation st2)
              (CallPublish (EvDepthUpdate u) (tr_connection_generation ?st1) SinkContinue # cs)"
          by (simp add: noted(3))
      qed (simp add: noted(3) True)
      with effect_ok_from [OF noted(1,2)] goes_on_trans [OF noted(1)] show ?thesis by blast
    next
      case False
      with assms(2) have profile: "bc_profile (tr_config st) = DepthOnly"
        by (cases "bc_profile (tr_config st)") simp_all
      from assms(1) update False have step: "submit_depth_update_call w u ?st1 = (on, st', calls)"
        by (simp add: receive_depth_frame_def Let_def)
      have "effect_ok ?st1 st' calls \<and> (on \<longrightarrow> goes_on ?st1 st')"
        using submit_depth_update_ok [OF step] by (auto simp: effect_ok_def noted(3) profile)
      with effect_ok_from [OF noted(1,2)] goes_on_trans [OF noted(1)] show ?thesis by blast
    qed
  qed
qed

lemma receive_combined_frame_ok:
  assumes "receive_combined_frame w payload received_at st = (on, st', calls)"
    and "bc_profile (tr_config st) = G9CombinedEvents"
  shows "effect_ok st st' calls \<and> (on \<longrightarrow> goes_on st st')"
proof -
  let ?st1 = "note_event_time received_at st"
  note noted = note_event_time_goes_on [where st = st and at = received_at]
  consider (down) t where "the (bc_combined_frame_parser (tr_config st)) payload received_at
        (to_connection_id (tr_observation st)) = CfShutdown t"
    | (broken) e where "the (bc_combined_frame_parser (tr_config st)) payload received_at
        (to_connection_id (tr_observation st)) = CfError e"
    | (event) event where "the (bc_combined_frame_parser (tr_config st)) payload received_at
        (to_connection_id (tr_observation st)) = CfEvent event"
    by (meson combined_frame_result.exhaust)
  then show ?thesis
  proof cases
    case down
    let ?st0 = "map_transport (\<lambda>ob. ob\<lparr>to_server_shutdown_observed := True\<rparr>) st"
    have "goes_on st ?st0" by (rule goes_on_map) (simp add: same_identity_def)
    moreover have "counters (tr_observation ?st0) = counters (tr_observation st)"
      by (simp add: map_transport_def counters_def)
    ultimately show ?thesis
      using assms(1) down failure_ok by (auto simp: receive_combined_frame_def receive_server_shutdown_def)
  next
    case broken
    then show ?thesis
      using assms(1) failure_ok [OF goes_on_refl refl]
      by (auto simp: receive_combined_frame_def receive_protocol_failure_def)
  next
    case event
    let ?following = "case event of EvDepthUpdate depth \<Rightarrow> submit_depth_update_call w depth
                                  | _ \<Rightarrow> count_event_frame event"
    from assms(1) event have step: "publish_then w event ?following ?st1 = (on, st', calls)"
      by (simp add: receive_combined_frame_def)
    have "effect_ok ?st1 st' calls \<and> (on \<longrightarrow> goes_on ?st1 st')"
    proof (rule publish_then_ok [OF step])
      fix on' st2 cs assume f: "?following ?st1 = (on', st2, cs)"
      show "(goes_on ?st1 st2 \<or> \<not> on' \<and> breaks_off ?st1 st2)
        \<and> accounted (bc_profile (tr_config ?st1)) (tr_connection_generation ?st1) (tr_observation ?st1)
            (tr_observation st2) (CallPublish event (tr_connection_generation ?st1) SinkContinue # cs)"
      proof (cases "\<exists>u. event = EvDepthUpdate u")
        case True
        then obtain u where "event = EvDepthUpdate u" by blast
        with f have "submit_depth_update_call w u ?st1 = (on', st2, cs)" by simp
        from submit_following [OF this, of G9CombinedEvents] assms(2) \<open>event = _\<close> show ?thesis
          by (simp add: noted(3))
      next
        case False
        with f have "count_event_frame event ?st1 = (on', st2, cs)"
          by (simp split: normalized_market_event.splits)
        note counted = count_event_frame_ok [OF this]
        then have "accounted G9CombinedEvents (tr_connection_generation ?st1) (tr_observation ?st1)
            (tr_observation st2) cs"
          using goes_on_ok [of ?st1 st2] assms(2) by (simp add: effect_ok_def noted(3))
        from accounted_publish [OF this, of SinkContinue event] False counted assms(2) show ?thesis
          by (simp add: noted(3))
      qed
    qed (simp add: noted(3) assms(2))
    with effect_ok_from [OF noted(1,2)] goes_on_trans [OF noted(1)] show ?thesis by blast
  qed
qed

lemma receive_websocket_message_ok:
  assumes "receive_websocket_message w payload received_at st = (on, st', calls)"
  shows "effect_ok st st' calls \<and> (on \<longrightarrow> goes_on st st')"
  using assms receive_depth_frame_ok receive_combined_frame_ok
  by (cases "bc_profile (tr_config st) = G9CombinedEvents") (simp_all add: receive_websocket_message_def)

lemma receive_depth_response_ok:
  assumes "receive_depth_response w result st = (st', calls)"
  shows "effect_ok st st' calls"
proof (cases result)
  case (Inl failure)
  with assms failure_ok [OF goes_on_refl refl] show ?thesis by (simp add: receive_depth_response_def)
next
  case (Inr answer)
  obtain response received_at where answer: "answer = (response, received_at)" by (cases answer)
  let ?parsed = "the (bc_depth_snapshot_parser (tr_config st)) (hr_body response) received_at
      (bc_snapshot_request_id (tr_config st))"
  show ?thesis
  proof (cases ?parsed)
    case Inl': (Inl failure)
    with assms Inr answer failure_ok [OF goes_on_refl refl] show ?thesis
      by (simp add: receive_depth_response_def)
  next
    case Inr': (Inr snapshot)
    let ?call = "CallSubmitSnapshot snapshot
        \<lparr>sp_connection_generation = Some (tr_connection_generation st)\<rparr> (tw_admission w)"
    show ?thesis
    proof (cases "tw_admission w = AdAccepted")
      case True
      with assms Inr Inr' answer have st': "st' = map_transport (\<lambda>ob. ob\<lparr>to_rest_depth_fetched := True\<rparr>) st"
          and "calls = [?call]"
        by (simp_all add: receive_depth_response_def)
      moreover have "goes_on st st'" unfolding st' by (rule goes_on_map) (simp add: same_identity_def)
      ultimately show ?thesis
        using True by (simp add: effect_ok_def accounted_def accepted_updates_def accepted_snapshot_def
            submitted_def published_def map_transport_def is_failure_call_def)
    next
      case False
      then obtain cs where cs: "terminal_failure (make_network_error NeRuntimeAdmission
            ''snapshot-runtime-admission'' ''MarketRuntime rejected the REST snapshot'' None None) True st
            = (st', cs)" "calls = ?call # cs"
        using assms Inr Inr' answer by (auto simp: receive_depth_response_def split: prod.splits)
      from failure_ok [OF goes_on_refl refl cs(1)] show ?thesis
        using False by (auto simp: effect_ok_def accounted_def cs(2) accepted_updates_def accepted_snapshot_def
            submitted_def published_def is_failure_call_def split: admission_result.splits)
    qed
  qed
qed

section \<open>The network thread keeps the operations in order\<close>

definition operations_inv :: "transport \<Rightarrow> bool" where
  "operations_inv st \<longleftrightarrow>
     (\<forall>op. tr_websocket st = Some op \<longrightarrow> op_inv ws_weight op \<and> (tr_websocket_held st \<or> ended op))
     \<and> (\<forall>op. tr_depth_request st = Some op \<longrightarrow> op_inv get_weight op \<and> (tr_depth_request_held st \<or> ended op))
     \<and> (tr_websocket_held st \<longrightarrow> tr_websocket st \<noteq> None)
     \<and> (tr_depth_request_held st \<longrightarrow> tr_depth_request st \<noteq> None)"

definition work_inv :: "transport \<Rightarrow> bool" where
  "work_inv st \<longleftrightarrow>
     (\<not> tr_work_guard st \<longrightarrow> \<not> tr_websocket_held st \<and> \<not> tr_depth_request_held st
        \<and> PostedStart \<notin> set (tr_posted st))
     \<and> (PostedStart \<in> set (tr_posted st) \<longrightarrow> tr_websocket st = None \<and> tr_depth_request st = None)
     \<and> PostedStart \<notin> set (tl (tr_posted st))
     \<and> (to_terminal_error (tr_observation st) \<noteq> None \<longrightarrow> \<not> tr_work_guard st)
     \<and> (tr_network_clean_cancel_requested st \<longrightarrow> PostedStart \<notin> set (tr_posted st))
     \<and> (tr_network_clean_cancel_requested st \<and> \<not> tr_barrier st \<longrightarrow> \<not> tr_work_guard st)
     \<and> (tr_barrier st \<longrightarrow> tr_network_clean_cancel_requested st)"

definition network_inv :: "transport \<Rightarrow> bool" where
  "network_inv st \<longleftrightarrow> tr_thread st = NtRunning \<and> operations_inv st \<and> work_inv st"

lemma network_inv_goes_on:
  assumes "network_inv st" and "goes_on st st'"
  shows "network_inv st'"
proof -
  obtain ob where st': "st' = st\<lparr>tr_observation := ob\<rparr>"
      "to_terminal_error ob = to_terminal_error (tr_observation st)"
    using assms(2) by (auto simp: goes_on_def)
  have "operations_inv st'" using assms(1) by (simp add: st'(1) network_inv_def operations_inv_def)
  moreover have "work_inv st'" using assms(1) by (simp add: st' network_inv_def work_inv_def)
  ultimately show ?thesis using assms(1) by (simp add: st'(1) network_inv_def)
qed

lemma operations_inv_end:
  assumes "operations_inv st"
  shows "operations_inv (end_connection st)"
  unfolding operations_inv_def
proof (intro conjI allI impI)
  fix op assume "tr_websocket (end_connection st) = Some op"
  then obtain op0 where "tr_websocket st = Some op0" "op = (if tr_websocket_held st then cancel op0 else op0)"
    by (auto split: if_splits)
  with assms show "op_inv ws_weight op" and "tr_websocket_held (end_connection st) \<or> ended op"
    by (auto simp: operations_inv_def ended_cancel intro: op_inv_cancel)
next
  fix op assume "tr_depth_request (end_connection st) = Some op"
  then obtain op0 where "tr_depth_request st = Some op0"
      "op = (if tr_depth_request_held st then cancel op0 else op0)"
    by (auto split: if_splits)
  with assms show "op_inv get_weight op" and "tr_depth_request_held (end_connection st) \<or> ended op"
    by (auto simp: operations_inv_def ended_cancel intro: op_inv_cancel)
qed simp_all

lemma work_inv_end:
  assumes "work_inv st" and "PostedStart \<notin> set (tr_posted st)"
  shows "work_inv (end_connection st)"
  using assms by (simp add: work_inv_def)

text \<open>Once the guard is released, the failure may be noted.\<close>

lemma work_inv_observation:
  "work_inv st \<Longrightarrow> \<not> tr_work_guard st \<Longrightarrow> work_inv (st\<lparr>tr_observation := ob\<rparr>)"
  by (simp add: work_inv_def)

lemma operations_inv_observation: "operations_inv (st\<lparr>tr_observation := ob\<rparr>) = operations_inv st"
  by (simp add: operations_inv_def)

lemma operations_inv_barrier: "operations_inv (st\<lparr>tr_barrier := b\<rparr>) = operations_inv st"
  by (simp add: operations_inv_def)

lemma network_inv_breaks_off:
  assumes "network_inv st" and "breaks_off st st'" and "PostedStart \<notin> set (tr_posted st)"
  shows "network_inv st'"
proof -
  obtain ob where st': "st' = (end_connection st)\<lparr>tr_observation := ob\<rparr>"
    using assms(2) by (auto simp: breaks_off_def end_connection_observation)
  have "work_inv (end_connection st)" using assms work_inv_end by (simp add: network_inv_def)
  then have "work_inv st'" unfolding st' by (rule work_inv_observation) simp
  moreover have "operations_inv st'"
    using assms(1) operations_inv_end by (simp add: st' network_inv_def operations_inv_observation)
  ultimately show ?thesis using assms(1) by (simp add: network_inv_def st')
qed

lemma network_inv_effect:
  assumes "network_inv st" and "effect_ok st st' calls" and "PostedStart \<notin> set (tr_posted st)"
  shows "network_inv st'"
proof -
  from assms(2) consider "goes_on st st'" | "breaks_off st st'" unfolding effect_ok_def by blast
  then show ?thesis
    using network_inv_goes_on [OF assms(1)] network_inv_breaks_off [OF assms(1) _ assms(3)] by cases
qed

lemma no_start_posted:
  "network_inv st \<Longrightarrow> tr_websocket st \<noteq> None \<or> tr_depth_request st \<noteq> None
    \<Longrightarrow> PostedStart \<notin> set (tr_posted st)"
  by (auto simp: network_inv_def work_inv_def)

text \<open>An operation is replaced by what a handler made of it.\<close>

lemma network_inv_websocket:
  assumes "network_inv st" and "tr_websocket st = Some op" and "op_inv ws_weight op'"
    and "ended op \<Longrightarrow> ended op'"
  shows "network_inv (st\<lparr>tr_websocket := Some op'\<rparr>)"
proof -
  have "operations_inv (st\<lparr>tr_websocket := Some op'\<rparr>)"
    using assms by (auto simp: network_inv_def operations_inv_def)
  moreover have "work_inv (st\<lparr>tr_websocket := Some op'\<rparr>)"
    using assms(1) no_start_posted [OF assms(1)] assms(2) by (simp add: network_inv_def work_inv_def)
  ultimately show ?thesis using assms(1) by (simp add: network_inv_def)
qed

lemma network_inv_depth_request:
  assumes "network_inv st" and "tr_depth_request st = Some op" and "op_inv get_weight op'"
    and "ended op \<Longrightarrow> ended op'"
  shows "network_inv (st\<lparr>tr_depth_request := Some op'\<rparr>)"
proof -
  have "operations_inv (st\<lparr>tr_depth_request := Some op'\<rparr>)"
    using assms by (auto simp: network_inv_def operations_inv_def)
  moreover have "work_inv (st\<lparr>tr_depth_request := Some op'\<rparr>)"
    using assms(1) no_start_posted [OF assms(1)] assms(2) by (simp add: network_inv_def work_inv_def)
  ultimately show ?thesis using assms(1) by (simp add: network_inv_def)
qed

text \<open>What no handler changes or takes back.\<close>

definition shutdown_announced :: "transport \<Rightarrow> bool" where
  "shutdown_announced st \<longleftrightarrow> PostedShutdown \<in> set (tr_posted st) \<or> tr_network_clean_cancel_requested st"

definition same_frame :: "transport \<Rightarrow> transport \<Rightarrow> bool" where
  "same_frame st st' \<longleftrightarrow> tr_config st' = tr_config st
     \<and> tr_connection_generation st' = tr_connection_generation st
     \<and> same_identity (tr_observation st) (tr_observation st')
     \<and> tr_stop_requested st' = tr_stop_requested st \<and> tr_stop_in_progress st' = tr_stop_in_progress st
     \<and> tr_stopper st' = tr_stopper st \<and> (\<not> tr_work_guard st \<longrightarrow> \<not> tr_work_guard st')
     \<and> (shutdown_announced st \<longrightarrow> shutdown_announced st')"

lemma shutdown_announced_update [simp]:
  "shutdown_announced (st\<lparr>tr_websocket := a\<rparr>) = shutdown_announced st"
  "shutdown_announced (st\<lparr>tr_websocket_held := b\<rparr>) = shutdown_announced st"
  "shutdown_announced (st\<lparr>tr_depth_request := c\<rparr>) = shutdown_announced st"
  "shutdown_announced (st\<lparr>tr_depth_request_held := b\<rparr>) = shutdown_announced st"
  "shutdown_announced (st\<lparr>tr_barrier := b\<rparr>) = shutdown_announced st"
  "shutdown_announced (st\<lparr>tr_observation := ob\<rparr>) = shutdown_announced st"
  "shutdown_announced (end_connection st) = shutdown_announced st"
  by (simp_all add: shutdown_announced_def)

lemma same_frame_refl [simp]: "same_frame st st"
  by (simp add: same_frame_def)

lemma same_frame_trans: "same_frame a b \<Longrightarrow> same_frame b c \<Longrightarrow> same_frame a c"
  by (auto simp: same_frame_def intro: same_identity_trans)

lemma same_frame_update [simp]:
  "same_frame st (st\<lparr>tr_websocket := a\<rparr>)" "same_frame st (st\<lparr>tr_websocket_held := b\<rparr>)"
  "same_frame st (st\<lparr>tr_depth_request := c\<rparr>)" "same_frame st (st\<lparr>tr_depth_request_held := b\<rparr>)"
  "same_frame st (st\<lparr>tr_barrier := b\<rparr>)" "same_frame st (end_connection st)"
  by (simp_all add: same_frame_def)

lemma same_frame_effect: "effect_ok st st' calls \<Longrightarrow> same_frame st st'"
  by (auto simp: effect_ok_def goes_on_def breaks_off_def same_frame_def end_connection_observation)

text \<open>The calls of a step are accounted for, the frame is kept, and so is the invariant.\<close>

definition step_ok :: "transport \<Rightarrow> transport \<Rightarrow> transport_call list \<Rightarrow> bool" where
  "step_ok st st' calls \<longleftrightarrow> network_inv st' \<and> same_frame st st'
     \<and> accounted (bc_profile (tr_config st)) (tr_connection_generation st)
         (tr_observation st) (tr_observation st') calls"

lemma step_ok_effect:
  assumes "network_inv st1" and "PostedStart \<notin> set (tr_posted st1)" and "same_frame st st1"
    and "tr_observation st1 = tr_observation st" and "effect_ok st1 st' calls"
  shows "step_ok st st' calls"
proof -
  have "same_frame st st'" using same_frame_trans [OF assms(3) same_frame_effect [OF assms(5)]] .
  moreover have "network_inv st'" using network_inv_effect [OF assms(1,5,2)] .
  ultimately show ?thesis
    using assms(3-5) by (simp add: step_ok_def effect_ok_def same_frame_def)
qed

lemma step_ok_silent:
  assumes "network_inv st1" and "same_frame st st1" and "tr_observation st1 = tr_observation st"
  shows "step_ok st st1 []"
  using assms by (auto simp: step_ok_def intro: accounted_Nil)

lemma depth_request_event_ok:
  assumes "network_inv (st\<lparr>tr_depth_request := Some op\<rparr>)"
    and "depth_request_event w (op, r) st = (st', calls)"
  shows "step_ok st st' calls"
proof (cases r)
  case None
  with assms show ?thesis by (auto simp: depth_request_event_def intro: step_ok_silent)
next
  case (Some result)
  with assms(2) have "receive_depth_response w result (st\<lparr>tr_depth_request := Some op\<rparr>) = (st', calls)"
    by (simp add: depth_request_event_def)
  from receive_depth_response_ok [OF this] no_start_posted [OF assms(1)] show ?thesis
    by (intro step_ok_effect [OF assms(1)]) simp_all
qed

lemma step_ok_from:
  assumes "same_frame st st1" and "goes_on st st1" and "counters (tr_observation st1) = counters (tr_observation st)"
    and "step_ok st1 st' calls"
  shows "step_ok st st' calls"
proof -
  have "to_terminal_error (tr_observation st1) = to_terminal_error (tr_observation st)"
    using assms(2) by (auto simp: goes_on_def)
  with assms same_frame_trans [OF assms(1)] show ?thesis
    by (simp add: step_ok_def same_frame_def accounted_def counters_def)
qed

lemma websocket_active_ok:
  assumes "network_inv st" and "tr_websocket st = Some op" and "tr_websocket_held st"
    and "websocket_active w st = (st', calls)"
  shows "step_ok st st' calls"
proof (cases "tr_stop_requested st")
  case True
  with assms show ?thesis by (simp add: websocket_active_def step_ok_silent)
next
  case False
  define st1 where "st1 = map_transport (\<lambda>ob. ob\<lparr>to_websocket_handshake := True, to_running := True\<rparr>) st"
  have st1: "goes_on st st1" unfolding st1_def by (rule goes_on_map) (simp add: same_identity_def)
  obtain request r where request: "get_start (tw_tls w) make_https_get = (request, r)" by fastforce
  have inv1: "network_inv st1" by (rule network_inv_goes_on [OF assms(1) st1])
  have held: "tr_websocket_held st1" "tr_work_guard st1"
  proof -
    show "tr_websocket_held st1"
      using assms(3) by (simp add: st1_def map_transport_def)
    with inv1 show "tr_work_guard st1" by (auto simp: network_inv_def work_inv_def)
  qed
  let ?st2 = "st1\<lparr>tr_depth_request_held := True\<rparr>"
  have ws: "tr_websocket st1 = Some op" using assms(2) by (simp add: st1_def map_transport_def)
  have "operations_inv (?st2\<lparr>tr_depth_request := Some request\<rparr>)"
    using inv1 get_start_inv [OF request] by (simp add: network_inv_def operations_inv_def)
  moreover have "work_inv (?st2\<lparr>tr_depth_request := Some request\<rparr>)"
    using inv1 held no_start_posted [OF inv1] ws by (simp add: network_inv_def work_inv_def)
  ultimately have "network_inv (?st2\<lparr>tr_depth_request := Some request\<rparr>)"
    using inv1 by (simp add: network_inv_def)
  moreover have "depth_request_event w (request, r) ?st2 = (st', calls)"
    using assms(4) False request by (simp add: websocket_active_def st1_def)
  ultimately have "step_ok ?st2 st' calls" by (rule depth_request_event_ok)
  then have "step_ok st1 st' calls"
    by (simp add: step_ok_def same_frame_def)
  moreover have count: "counters (tr_observation st1) = counters (tr_observation st)"
    by (simp add: counters_def st1_def map_transport_def)
  ultimately show ?thesis
    using step_ok_from [OF same_frame_effect [OF goes_on_ok [OF st1 count]] st1 count] by simp
qed

text \<open>A handler of the stream.\<close>

lemma websocket_message_ok:
  assumes inv: "network_inv st" and ws: "tr_websocket st = Some op"
    and op: "op_inv ws_weight op" "ao_io op = Some WsRead" "\<not> ao_done op"
    and step: "receive_websocket_message w payload received_at (st\<lparr>tr_websocket := Some (io_completed op)\<rparr>)
      = (on, st2, calls)"
  defines "after \<equiv> ws_after_message on (ao_cancel_requested op)"
  shows "step_ok st (st2\<lparr>tr_websocket := map_option after (tr_websocket st2)\<rparr>) calls"
proof -
  let ?st1 = "st\<lparr>tr_websocket := Some (io_completed op)\<rparr>"
  note ok = receive_websocket_message_ok [OF step]
  note effects = ws_after_message_effect [OF op]
  let ?st' = "st2\<lparr>tr_websocket := map_option after (tr_websocket st2)\<rparr>"
  have accounts: "accounted (bc_profile (tr_config st)) (tr_connection_generation st) (tr_observation st)
      (tr_observation ?st') calls"
    using ok by (simp add: effect_ok_def)
  have "same_frame st st2"
    using same_frame_trans [of st ?st1 st2] same_frame_effect [of ?st1 st2 calls] ok by simp
  then have frame: "same_frame st ?st'" by (simp add: same_frame_def)
  have "network_inv ?st'"
  proof (cases "goes_on ?st1 st2")
    case True
    then obtain ob where st2: "st2 = ?st1\<lparr>tr_observation := ob\<rparr>" by (auto simp: goes_on_def)
    have "op_effect ws_weight op (after (io_completed op)) False"
      using effects(1,2) by (cases on) (simp_all add: after_def)
    then have inv': "network_inv (st\<lparr>tr_websocket := Some (after (io_completed op))\<rparr>)"
      by (intro network_inv_websocket [OF inv ws]) (simp_all add: op_effect_def)
    have "?st' = (st\<lparr>tr_websocket := Some (after (io_completed op))\<rparr>)\<lparr>tr_observation := ob\<rparr>"
      by (simp add: st2)
    moreover have "same_identity (tr_observation st) ob"
        "to_terminal_error ob = to_terminal_error (tr_observation st)"
      using True by (auto simp: goes_on_def st2 dest: arg_cong [where f = tr_observation])
    ultimately have "goes_on (st\<lparr>tr_websocket := Some (after (io_completed op))\<rparr>) ?st'"
      unfolding goes_on_def by (intro exI [of _ ob]) simp
    then show ?thesis by (rule network_inv_goes_on [OF inv'])
  next
    case False
    with ok have broken: "breaks_off ?st1 st2" "\<not> on" by (auto simp: effect_ok_def)
    then obtain ob where st2: "st2 = (end_connection ?st1)\<lparr>tr_observation := ob\<rparr>"
      by (auto simp: breaks_off_def end_connection_observation)
    define op' where "op' = after (if tr_websocket_held st then cancel (io_completed op) else io_completed op)"
    have op': "op_effect ws_weight op op' False" "ended op'"
      using effects(2-5) broken(2) by (simp_all add: op'_def after_def)
    have ended: "network_inv (end_connection st)"
      using inv no_start_posted [OF inv] ws operations_inv_end work_inv_end by (simp add: network_inv_def)
    have "tr_websocket (end_connection st) = Some (if tr_websocket_held st then cancel op else op)"
      using ws by simp
    from network_inv_websocket [OF ended this] op'
    have inv': "network_inv ((end_connection st)\<lparr>tr_websocket := Some op'\<rparr>)"
      by (simp add: op_effect_def)
    have "?st' = ((end_connection ?st1)\<lparr>tr_websocket := Some op'\<rparr>)\<lparr>tr_observation := ob\<rparr>"
      by (simp add: st2 op'_def)
    then have "?st' = ((end_connection st)\<lparr>tr_websocket := Some op'\<rparr>)\<lparr>tr_observation := ob\<rparr>"
      by (simp only: end_connection_websocket)
    with inv' show ?thesis
      by (simp add: network_inv_def operations_inv_observation work_inv_observation)
  qed
  with accounts frame show ?thesis by (simp add: step_ok_def)
qed

lemma websocket_event_ok:
  assumes "network_inv st" and ws: "tr_websocket st = Some op" and op: "op_inv ws_weight op"
    and outcome: "ws_outcome op op' callback" and step: "websocket_event w (op', callback) st = (st', calls)"
  shows "step_ok st st' calls"
proof (cases "\<exists>payload received_at retire. callback = Some (CbMessage payload received_at retire)")
  case True
  then obtain payload received_at retire where cb: "callback = Some (CbMessage payload received_at retire)"
    by blast
  with outcome have op': "op' = io_completed op" "retire = ao_cancel_requested op" "\<not> ao_done op"
      "ao_io op = Some WsRead"
    by (simp_all add: ws_outcome_def)
  obtain on st2 cs where message:
      "receive_websocket_message w payload received_at (st\<lparr>tr_websocket := Some (io_completed op)\<rparr>) = (on, st2, cs)"
    by (metis prod_cases3)
  with step cb op' have "st' = st2\<lparr>tr_websocket
        := map_option (ws_after_message on (ao_cancel_requested op)) (tr_websocket st2)\<rparr>" "calls = cs"
    by (auto simp: websocket_event_def)
  with websocket_message_ok [OF assms(1) ws op op'(4,3) message] show ?thesis by simp
next
  case False
  define st1 where "st1 = st\<lparr>tr_websocket := Some op'\<rparr>"
  have effect: "op_inv ws_weight op'" "ended op \<Longrightarrow> ended op'"
    using outcome False by (auto simp: ws_outcome_def op_effect_def split: option.splits ws_callback.splits)
  have inv1: "network_inv st1"
    unfolding st1_def by (rule network_inv_websocket [OF assms(1) ws effect])
  have st1: "tr_observation st1 = tr_observation st" "same_frame st st1" "tr_websocket st1 = Some op'"
    by (simp_all add: st1_def)
  have none: "PostedStart \<notin> set (tr_posted st1)" using no_start_posted [OF inv1] st1(3) by simp
  consider "callback = None" | "callback = Some CbTlsVerified" | "callback = Some CbActive"
    | failure where "callback = Some (CbFailure failure)"
    using False by (metis not_None_eq ws_callback.exhaust)
  then show ?thesis
  proof cases
    case 1
    with step have "st' = st1" "calls = []" by (simp_all add: websocket_event_def st1_def)
    with step_ok_silent [OF inv1 st1(2,1)] show ?thesis by simp
  next
    case 2
    with step have st': "st' = map_transport (\<lambda>ob. ob\<lparr>to_tls_verified := True\<rparr>) st1" "calls = []"
      by (simp_all add: websocket_event_def st1_def)
    have "goes_on st1 st'" unfolding st' by (rule goes_on_map) (simp add: same_identity_def)
    then have "effect_ok st1 st' []" by (rule goes_on_ok) (simp add: st' map_transport_def counters_def)
    with st'(2) show ?thesis by (intro step_ok_effect [OF inv1 none st1(2,1)]) simp
  next
    case 3
    then have "\<not> ended op" using outcome by (simp add: ws_outcome_def)
    with assms(1) ws have held: "tr_websocket_held st1"
      by (auto simp: network_inv_def operations_inv_def st1_def)
    from step 3 have "websocket_active w st1 = (st', calls)" by (simp add: websocket_event_def st1_def)
    from websocket_active_ok [OF inv1 st1(3) held this] st1(1,2) show ?thesis
      using same_frame_trans [OF st1(2)] by (simp add: step_ok_def same_frame_def)
  next
    case 4
    with step have "terminal_failure failure False st1 = (st', calls)"
      by (simp add: websocket_event_def st1_def)
    from failure_ok [OF goes_on_refl refl this] show ?thesis by (rule step_ok_effect [OF inv1 none st1(2,1)])
  qed
qed

lemma start_websocket_ok:
  assumes "network_inv st" and posted: "tr_posted st = PostedStart # rest"
    and step: "start_websocket w (st\<lparr>tr_posted := rest\<rparr>) = (st', calls)"
  shows "step_ok st st' calls"
proof -
  obtain op callback where op: "ws_start (tw_tls w) make_web_socket = (op, callback)" by fastforce
  define st1 where "st1 = st\<lparr>tr_posted := rest, tr_websocket_held := True, tr_websocket := Some op\<rparr>"
  have rest: "PostedStart \<notin> set rest"
    using assms(1) posted by (simp add: network_inv_def work_inv_def)
  have "operations_inv st1"
    using assms(1) ws_start_outcome [OF op] by (simp add: network_inv_def operations_inv_def st1_def)
  moreover have "work_inv st1"
    using assms(1) posted rest by (cases rest) (auto simp: network_inv_def work_inv_def st1_def)
  ultimately have inv1: "network_inv st1" using assms(1) by (simp add: network_inv_def st1_def)
  have st1: "tr_observation st1 = tr_observation st" "same_frame st st1" "PostedStart \<notin> set (tr_posted st1)"
    using rest posted by (simp_all add: st1_def same_frame_def shutdown_announced_def)
  from ws_start_outcome [OF op] consider "callback = None" | failure where "callback = Some (CbFailure failure)"
    by (auto simp: is_failure_callback_def)
  then show ?thesis
  proof cases
    case 1
    with step op have "st' = st1" "calls = []" by (simp_all add: start_websocket_def websocket_event_def st1_def)
    with step_ok_silent [OF inv1 st1(2,1)] show ?thesis by simp
  next
    case 2
    with step op have "terminal_failure failure False st1 = (st', calls)"
      by (simp add: start_websocket_def websocket_event_def st1_def)
    from failure_ok [OF goes_on_refl refl this] show ?thesis by (rule step_ok_effect [OF inv1 st1(3,2,1)])
  qed
qed

lemma begin_clean_shutdown_ok:
  assumes "network_inv st" and "tr_posted st = PostedShutdown # rest"
  shows "step_ok st (begin_clean_shutdown (st\<lparr>tr_posted := rest\<rparr>)) []"
proof (rule step_ok_silent)
  let ?st' = "begin_clean_shutdown (st\<lparr>tr_posted := rest\<rparr>)"
  have rest: "PostedStart \<notin> set rest" "PostedStart \<notin> set (tl rest)"
    using assms by (cases rest; simp add: network_inv_def work_inv_def)+
  have "operations_inv ?st'"
    using assms(1) by (simp add: network_inv_def operations_inv_def begin_clean_shutdown_def)
  moreover have "work_inv ?st'"
    using assms rest by (simp add: network_inv_def work_inv_def begin_clean_shutdown_def)
  ultimately show "network_inv ?st'" using assms(1) by (simp add: network_inv_def begin_clean_shutdown_def)
  show "same_frame st ?st'" by (simp add: begin_clean_shutdown_def same_frame_def shutdown_announced_def)
qed (simp add: begin_clean_shutdown_def)

lemma shutdown_barrier_ok:
  assumes "network_inv st" and "tr_barrier st"
  shows "step_ok st (shutdown_barrier st) []"
proof (rule step_ok_silent)
  note eq = end_connection_barrier [of st]
  have "operations_inv (shutdown_barrier st)"
    unfolding eq operations_inv_barrier
    using operations_inv_end assms(1) by (simp add: network_inv_def)
  moreover have "work_inv (shutdown_barrier st)" if "PostedStart \<notin> set (tr_posted st)"
    using assms(1) that by (simp add: eq network_inv_def work_inv_def)
  moreover have "PostedStart \<notin> set (tr_posted st)"
    using assms by (simp add: network_inv_def work_inv_def)
  ultimately show "network_inv (shutdown_barrier st)" using assms(1) by (simp add: eq network_inv_def)
  show "same_frame st (shutdown_barrier st)" by (simp add: eq same_frame_def)
  show "tr_observation (shutdown_barrier st) = tr_observation st" by (simp add: eq)
qed

text \<open>Every handler the network thread runs.\<close>

lemma network_step_ok:
  assumes inv: "network_inv st" and step: "network_step w event st = Some (st', calls)"
  shows "step_ok st st' calls \<or> event = RunReturns \<and> idle st \<and> st' = st\<lparr>tr_thread := NtExited\<rparr> \<and> calls = []"
proof -
  have running: "tr_thread st = NtRunning" using inv by (simp add: network_inv_def)
  have ops: "op_inv ws_weight op" if "tr_websocket st = Some op" for op
    using inv that by (simp add: network_inv_def operations_inv_def)
  have reqs: "op_inv get_weight op" if "tr_depth_request st = Some op" for op
    using inv that by (simp add: network_inv_def operations_inv_def)
  show ?thesis
  proof (cases event)
    case RunPosted
    with step running have "run_posted w st = Some (st', calls)" by (simp add: network_step_def)
    then consider rest where "tr_posted st = PostedStart # rest"
        "start_websocket w (st\<lparr>tr_posted := rest\<rparr>) = (st', calls)"
      | rest where "tr_posted st = PostedShutdown # rest"
        "st' = begin_clean_shutdown (st\<lparr>tr_posted := rest\<rparr>)" "calls = []"
      by (auto simp: run_posted_def split: list.splits posted_work.splits)
    then show ?thesis using start_websocket_ok [OF inv] begin_clean_shutdown_ok [OF inv] by cases simp_all
  next
    case (RunWebSocketIo got_text payload ec)
    with step running obtain op op' callback where op: "tr_websocket st = Some op"
      "ws_io_handler (tw_clock w) got_text payload ec op = Some (op', callback)"
      "websocket_event w (op', callback) st = (st', calls)"
      by (auto simp: network_step_def bind_eq_Some_conv)
    from websocket_event_ok [OF inv op(1) ops [OF op(1)] ws_io_handler_outcome [OF ops [OF op(1)] op(2)] op(3)]
    show ?thesis by simp
  next
    case (RunWebSocketTimer i ec)
    with step running obtain op op' callback where op: "tr_websocket st = Some op"
      "ws_timer_handler i ec op = Some (op', callback)"
      "websocket_event w (op', callback) st = (st', calls)"
      by (auto simp: network_step_def bind_eq_Some_conv)
    from websocket_event_ok [OF inv op(1) ops [OF op(1)] ws_timer_handler_outcome [OF ops [OF op(1)] op(2)] op(3)]
    show ?thesis by simp
  next
    case RunPing
    with step running have st': "st' = websocket_ping st" "calls = []"
      by (auto simp: network_step_def bind_eq_Some_conv split: if_splits)
    have on: "goes_on st st'"
      unfolding st' websocket_ping_def by (rule goes_on_map) (simp add: same_identity_def)
    then have "effect_ok st st' []"
      by (rule goes_on_ok) (simp add: st' websocket_ping_def map_transport_def counters_def)
    with network_inv_goes_on [OF inv on] same_frame_effect [OF this] st'(2) show ?thesis
      by (simp add: step_ok_def effect_ok_def)
  next
    case (RunDepthIo response ec)
    with step running obtain op op' r where op: "tr_depth_request st = Some op"
      "get_io_handler (tw_clock w) response ec op = Some (op', r)"
      "depth_request_event w (op', r) st = (st', calls)"
      by (auto simp: network_step_def bind_eq_Some_conv)
    from get_io_handler_effect [OF reqs [OF op(1)] op(2)]
    have "network_inv (st\<lparr>tr_depth_request := Some op'\<rparr>)"
      by (intro network_inv_depth_request [OF inv op(1)]) (simp_all add: op_effect_def)
    from depth_request_event_ok [OF this op(3)] show ?thesis by simp
  next
    case (RunDepthTimer i ec)
    with step running obtain op op' r where op: "tr_depth_request st = Some op"
      "get_timer_handler i ec op = Some (op', r)"
      "depth_request_event w (op', r) st = (st', calls)"
      by (auto simp: network_step_def bind_eq_Some_conv)
    from get_timer_handler_effect [OF reqs [OF op(1)] op(2)]
    have "network_inv (st\<lparr>tr_depth_request := Some op'\<rparr>)"
      by (intro network_inv_depth_request [OF inv op(1)]) (simp_all add: op_effect_def)
    from depth_request_event_ok [OF this op(3)] show ?thesis by simp
  next
    case RunBarrier
    with step running have "tr_barrier st" "st' = shutdown_barrier st" "calls = []"
      by (auto simp: network_step_def split: if_splits)
    with shutdown_barrier_ok [OF inv] show ?thesis by simp
  next
    case RunReturns
    with step running show ?thesis by (auto simp: network_step_def split: if_splits)
  qed
qed

section \<open>Start, stop and the whole invariant\<close>

text \<open>Before \<open>start\<close> there is nothing; after \<open>context_.run()\<close> returned nothing is left.\<close>

definition quiet :: "transport \<Rightarrow> bool" where
  "quiet st \<longleftrightarrow> \<not> tr_work_guard st \<and> \<not> tr_barrier st
     \<and> (\<forall>op. tr_websocket st = Some op \<longrightarrow> outstanding op = 0)
     \<and> (\<forall>op. tr_depth_request st = Some op \<longrightarrow> outstanding op = 0)"

definition unstarted :: "transport \<Rightarrow> bool" where
  "unstarted st \<longleftrightarrow> \<not> tr_work_guard st \<and> \<not> tr_barrier st \<and> tr_websocket st = None
     \<and> tr_depth_request st = None \<and> \<not> tr_websocket_held st \<and> \<not> tr_depth_request_held st
     \<and> tr_posted st = [] \<and> \<not> tr_network_clean_cancel_requested st
     \<and> to_terminal_error (tr_observation st) = None"

definition thread_inv :: "transport \<Rightarrow> bool" where
  "thread_inv st \<longleftrightarrow> (case tr_thread st of
       NtAbsent \<Rightarrow> \<not> to_started (tr_observation st) \<and> unstarted st
     | NtRunning \<Rightarrow> to_started (tr_observation st) \<and> network_inv st
     | NtExited \<Rightarrow> to_started (tr_observation st) \<and> quiet st)"

definition stop_inv :: "transport \<Rightarrow> bool" where
  "stop_inv st \<longleftrightarrow>
     (tr_stop_in_progress st \<longleftrightarrow> tr_stopper st \<noteq> StopperNone)
     \<and> (tr_stop_in_progress st \<or> to_stopped (tr_observation st) \<longrightarrow> tr_stop_requested st)
     \<and> \<not> (tr_stop_in_progress st \<and> to_stopped (tr_observation st))
     \<and> (tr_stopper st = StopperPosting \<or> tr_stopper st = StopperJoining \<longrightarrow> to_started (tr_observation st))
     \<and> (tr_stopper st = StopperJoining \<longrightarrow> tr_thread st = NtExited \<or> shutdown_announced st)"

definition transport_inv :: "transport \<Rightarrow> bool" where
  "transport_inv st \<longleftrightarrow> thread_inv st \<and> stop_inv st
     \<and> to_connection_generation (tr_observation st) = tr_connection_generation st"

end
