(* ===== verification/TransportRuns.thy ===== *)
theory TransportRuns
  imports TransportInvariant
begin

text \<open>
  Runs of a transport from its construction on: the invariant of every reachable state, the account
  of all the calls of a run, what can still be called once the connection has been ended, and how
  the network thread comes to its end.
\<close>

section \<open>The invariant holds\<close>

lemma stop_inv_frame:
  assumes "stop_inv st" and "same_frame st st'"
    and "tr_thread st' = tr_thread st \<or> tr_thread st' = NtExited"
  shows "stop_inv st'"
  using assms by (auto simp: stop_inv_def same_frame_def same_identity_def)

lemma transport_inv_network:
  assumes "transport_inv st" and "network_step w event st = Some (st', calls)"
  shows "transport_inv st'"
proof -
  have running: "tr_thread st = NtRunning" using assms(2) by (simp add: network_step_def split: if_splits)
  with assms(1) have inv: "network_inv st" "to_started (tr_observation st)"
    by (simp_all add: transport_inv_def thread_inv_def)
  from network_step_ok [OF inv(1) assms(2)] consider (step) "step_ok st st' calls"
    | (returned) "idle st" "st' = st\<lparr>tr_thread := NtExited\<rparr>" by blast
  then show ?thesis
  proof cases
    case step
    then have frame: "same_frame st st'" and inv': "network_inv st'" by (simp_all add: step_ok_def)
    have running': "tr_thread st' = NtRunning" using inv' unfolding network_inv_def by blast
    have "stop_inv st"  using assms(1) by (simp add: transport_inv_def)
    then have "stop_inv st'" by (rule stop_inv_frame [OF _ frame]) (simp add: running running')
    moreover have "thread_inv st'"
      using inv(2) inv' running' frame by (simp add: thread_inv_def same_frame_def same_identity_def)
    moreover have "to_connection_generation (tr_observation st') = tr_connection_generation st'"
      using assms(1) frame by (simp add: transport_inv_def same_frame_def same_identity_def)
    ultimately show ?thesis by (simp add: transport_inv_def)
  next
    case returned
    have "stop_inv st'"
      using assms(1) returned(2) by (auto simp: transport_inv_def stop_inv_def)
    moreover have "quiet st'"
      using returned by (simp add: idle_def quiet_def split: option.splits)
    ultimately show ?thesis
      using assms(1) inv(2) returned(2) by (simp add: transport_inv_def thread_inv_def)
  qed
qed

lemma transport_inv_start:
  assumes "transport_inv st" and "transport_start_begin st = Inr st'"
  shows "transport_inv st'"
proof -
  from assms(2) have "\<not> to_started (tr_observation st)"
    and st': "st' = (map_transport (\<lambda>ob. ob\<lparr>to_started := True\<rparr>) st)
      \<lparr>tr_work_guard := True, tr_thread := NtRunning, tr_posted := tr_posted st @ [PostedStart]\<rparr>"
    by (auto simp: transport_start_begin_def split: if_splits)
  with assms(1) have un: "unstarted st"
    by (cases "tr_thread st") (simp_all add: transport_inv_def thread_inv_def)
  have "operations_inv st'" using un by (simp add: st' map_transport_def operations_inv_def unstarted_def)
  moreover have "work_inv st'" using un by (simp add: st' map_transport_def work_inv_def unstarted_def)
  moreover have "stop_inv st'"
    using assms(1) \<open>\<not> to_started _\<close> by (auto simp: st' map_transport_def transport_inv_def stop_inv_def)
  ultimately show ?thesis
    using assms(1) by (simp add: st' map_transport_def transport_inv_def thread_inv_def network_inv_def)
qed

lemma thread_inv_update:
  assumes "thread_inv st" and "tr_thread st' = tr_thread st" and "tr_websocket st' = tr_websocket st"
    and "tr_depth_request st' = tr_depth_request st" and "tr_websocket_held st' = tr_websocket_held st"
    and "tr_depth_request_held st' = tr_depth_request_held st" and "tr_work_guard st' = tr_work_guard st"
    and "tr_barrier st' = tr_barrier st"
    and "tr_network_clean_cancel_requested st' = tr_network_clean_cancel_requested st"
    and "to_started (tr_observation st') = to_started (tr_observation st)"
    and "to_terminal_error (tr_observation st') = to_terminal_error (tr_observation st)"
    and "tr_posted st' = tr_posted st
      \<or> tr_thread st \<noteq> NtAbsent \<and> tr_posted st' = tr_posted st @ [PostedShutdown]"
  shows "thread_inv st'"
proof (cases "tr_thread st")
  case NtAbsent
  with assms show ?thesis by (simp add: thread_inv_def unstarted_def)
next
  case NtExited
  with assms show ?thesis by (simp add: thread_inv_def quiet_def)
next
  case NtRunning
  have "operations_inv st'" using NtRunning assms(1-6) by (simp add: thread_inv_def network_inv_def operations_inv_def)
  moreover have "set (tl (tr_posted st')) \<subseteq> set (tl (tr_posted st)) \<union> {PostedShutdown}"
      "PostedStart \<in> set (tr_posted st') \<longleftrightarrow> PostedStart \<in> set (tr_posted st)"
    using assms(12) by (cases "tr_posted st"; auto)+
  moreover from this have "work_inv st'"
    using NtRunning assms by (auto simp: thread_inv_def network_inv_def work_inv_def)
  ultimately show ?thesis using NtRunning assms by (simp add: thread_inv_def network_inv_def)
qed

lemma transport_inv_step:
  assumes "transport_inv st" and "transport_step coordinated st calls st'"
  shows "transport_inv st'"
  using assms(2)
proof cases
  case (ts_network w event)
  then show ?thesis using transport_inv_network [OF assms(1)] by simp
next
  case ts_start
  then show ?thesis using transport_inv_start [OF assms(1)] by simp
next
  case ts_stop
  have inv: "thread_inv st" "stop_inv st" using assms(1) by (simp_all add: transport_inv_def)
  have "thread_inv (snd (transport_stop_begin st))"
    by (rule thread_inv_update [OF inv(1)]) (simp_all add: transport_stop_begin_def map_transport_def)
  moreover have "stop_inv (snd (transport_stop_begin st))"
    using inv(2) by (auto simp: transport_stop_begin_def map_transport_def stop_inv_def)
  ultimately show ?thesis
    using assms(1) ts_stop by (simp add: transport_inv_def transport_stop_begin_def map_transport_def)
next
  case ts_post
  then have st': "tr_stopper st = StopperPosting"
      "st' = st\<lparr>tr_posted := tr_posted st @ [PostedShutdown], tr_stopper := StopperJoining\<rparr>"
    by (auto simp: transport_stop_post_def split: if_splits)
  have inv: "thread_inv st" "stop_inv st" using assms(1) by (simp_all add: transport_inv_def)
  then have "tr_thread st \<noteq> NtAbsent" using st'(1) by (auto simp: thread_inv_def stop_inv_def)
  then have "thread_inv st'" by (intro thread_inv_update [OF inv(1)]) (simp_all add: st'(2))
  moreover have "stop_inv st'" using inv(2) st' by (auto simp: stop_inv_def shutdown_announced_def)
  ultimately show ?thesis using assms(1) st' by (simp add: transport_inv_def)
next
  case ts_join
  then have st': "tr_stopper st = StopperJoining" "st' = st\<lparr>tr_stopper := StopperFinishing\<rparr>"
    by (auto simp: transport_stop_joined_def split: if_splits)
  have inv: "thread_inv st" "stop_inv st" using assms(1) by (simp_all add: transport_inv_def)
  have "thread_inv st'" by (rule thread_inv_update [OF inv(1)]) (simp_all add: st'(2))
  moreover have "stop_inv st'" using inv(2) st' by (auto simp: stop_inv_def)
  ultimately show ?thesis using assms(1) st' by (simp add: transport_inv_def)
next
  case ts_stopped
  then have st': "tr_stopper st = StopperFinishing"
      "st' = (map_transport (\<lambda>ob. ob\<lparr>to_stopped := True, to_running := False\<rparr>) st)
               \<lparr>tr_stop_in_progress := False, tr_stopper := StopperNone\<rparr>"
    by (auto simp: transport_stop_finish_def split: if_splits)
  have inv: "thread_inv st" "stop_inv st" using assms(1) by (simp_all add: transport_inv_def)
  have "thread_inv st'" by (rule thread_inv_update [OF inv(1)]) (simp_all add: st'(2) map_transport_def)
  moreover have "stop_inv st'" using inv(2) st' by (auto simp: stop_inv_def map_transport_def)
  ultimately show ?thesis using assms(1) st' by (simp add: transport_inv_def map_transport_def)
qed

lemma transport_inv_init:
  assumes "transport_init st"
  shows "transport_inv st"
  using assms
  by (auto simp: transport_init_def new_transport_def transport_inv_def thread_inv_def unstarted_def stop_inv_def
      make_transport_def split: option.splits if_splits)

text \<open>A transport, as a component with an invariant.\<close>

definition some_transport_step :: "bool \<Rightarrow> transport \<Rightarrow> transport \<Rightarrow> bool" where
  "some_transport_step coordinated st st' \<longleftrightarrow> (\<exists>calls. transport_step coordinated st calls st')"

interpretation transport: invariant_system transport_init "some_transport_step coordinated" transport_inv
  by unfold_locales (auto simp: some_transport_step_def intro: transport_inv_init transport_inv_step)

section \<open>The account of a run\<close>

lemma step_accounted:
  assumes "transport_inv st" and "transport_step coordinated st calls st'"
  shows "accounted (bc_profile (tr_config st)) (tr_connection_generation st)
      (tr_observation st) (tr_observation st') calls
    \<and> tr_config st' = tr_config st \<and> tr_connection_generation st' = tr_connection_generation st"
  using assms(2)
proof cases
  case (ts_network w event)
  then have "tr_thread st = NtRunning" by (simp add: network_step_def split: if_splits)
  with assms(1) have "network_inv st" by (simp add: transport_inv_def thread_inv_def)
  from network_step_ok [OF this ts_network] show ?thesis
    by (auto simp: step_ok_def same_frame_def intro: accounted_Nil)
next
  case ts_start
  then show ?thesis
    by (auto simp: transport_start_begin_def map_transport_def split: if_splits intro: accounted_Nil)
next
  case ts_stop
  then show ?thesis by (auto simp: transport_stop_begin_def map_transport_def intro: accounted_Nil)
next
  case ts_post
  then show ?thesis by (auto simp: transport_stop_post_def split: if_splits intro: accounted_Nil)
next
  case ts_join
  then show ?thesis by (auto simp: transport_stop_joined_def split: if_splits intro: accounted_Nil)
next
  case ts_stopped
  then show ?thesis
    by (auto simp: transport_stop_finish_def map_transport_def split: if_splits intro: accounted_Nil)
qed

lemma run_accounted:
  assumes "run (transport_step coordinated) st ls st'" and "transport_inv st"
  shows "transport_inv st' \<and> accounted (bc_profile (tr_config st)) (tr_connection_generation st)
      (tr_observation st) (tr_observation st') (concat ls)
    \<and> tr_config st' = tr_config st \<and> tr_connection_generation st' = tr_connection_generation st"
  using assms
proof (induction rule: run.induct)
  case (run_Nil st)
  then show ?case by (auto intro: accounted_Nil)
next
  case (run_Cons st calls t ls u)
  have t: "transport_inv t" using transport_inv_step [OF run_Cons.prems run_Cons.hyps(1)] .
  note first = step_accounted [OF run_Cons.prems run_Cons.hyps(1)]
  with run_Cons.IH [OF t] accounted_append show ?case by auto
qed

section \<open>After the connection has been ended\<close>

definition snapshots :: "transport_call list \<Rightarrow> nat" where
  "snapshots calls =
     length (filter (\<lambda>call. case call of CallSubmitSnapshot _ _ _ \<Rightarrow> True | _ \<Rightarrow> False) calls)"

lemma calls_append [simp]:
  "submitted (xs @ ys) = submitted xs @ submitted ys" "snapshots (xs @ ys) = snapshots xs + snapshots ys"
  by (simp_all add: submitted_def snapshots_def)

lemma calls_single [simp]:
  "submitted [] = []" "snapshots [] = 0"
  "submitted (CallPublish e g r # calls) = submitted calls" "snapshots (CallPublish e g r # calls) = snapshots calls"
  "submitted (CallSubmitDepth u v a # calls) = u # submitted calls"
  "snapshots (CallSubmitDepth u v a # calls) = snapshots calls"
  "submitted (CallSubmitSnapshot d v a # calls) = submitted calls"
  "snapshots (CallSubmitSnapshot d v a # calls) = Suc (snapshots calls)"
  "submitted (CallTransportFailure # calls) = submitted calls"
  "snapshots (CallTransportFailure # calls) = snapshots calls"
  "submitted (CallSnapshotFailure # calls) = submitted calls"
  "snapshots (CallSnapshotFailure # calls) = snapshots calls"
  by (simp_all add: submitted_def snapshots_def)

lemma terminal_failure_calls:
  assumes "terminal_failure failure snapshot_failure st = (st', calls)"
  shows "submitted calls = []" and "snapshots calls = 0"
  using assms by (auto simp: terminal_failure_def Let_def split: if_splits)

text \<open>What one message makes the transport call.\<close>

definition one_message :: "transport_call list \<Rightarrow> bool" where
  "one_message calls \<longleftrightarrow> length (submitted calls) \<le> 1 \<and> snapshots calls = 0"

lemma one_message_failure: "terminal_failure failure b st = (st', calls) \<Longrightarrow> one_message calls"
  using terminal_failure_calls by (simp add: one_message_def)

lemma one_message_submit: "submit_depth_update_call w u st = (on, st', calls) \<Longrightarrow> one_message calls"
  using terminal_failure_calls
  by (fastforce simp: one_message_def submit_depth_update_call_def Let_def split: if_splits prod.splits)

lemma one_message_count: "count_event_frame event st = (on, st', calls) \<Longrightarrow> one_message calls"
  by (simp add: count_event_frame_def one_message_def)

lemma one_message_publish_then:
  assumes "publish_then w event following st = (on, st', calls)"
    and "\<And>on' st2 cs. following st = (on', st2, cs) \<Longrightarrow> one_message cs"
  shows "one_message calls"
proof (cases "tw_allocation_ok w")
  case False
  with assms(1) one_message_failure show ?thesis by (auto simp: publish_then_def)
next
  case True
  obtain on1 st1 cs1 where p: "publish_normalized_event w event st = (on1, st1, cs1)" by (metis prod_cases3)
  then have cs1: "submitted cs1 = [] \<and> snapshots cs1 = 0 \<and> (on1 \<longrightarrow> st1 = st)"
    using terminal_failure_calls by (fastforce simp: publish_normalized_event_def Let_def split: if_splits prod.splits)
  show ?thesis
  proof (cases on1)
    case False
    with True p cs1 assms(1) show ?thesis by (auto simp: publish_then_def one_message_def)
  next
    case on: True
    obtain on2 st2 cs2 where f: "following st = (on2, st2, cs2)" by (metis prod_cases3)
    with True p cs1 on assms(1) assms(2) [OF f] show ?thesis by (auto simp: publish_then_def one_message_def)
  qed
qed

lemma one_message_depth_frame:
  assumes "receive_depth_frame w payload received_at st = (on, st', calls)"
  shows "one_message calls"
proof (cases "the (bc_depth_frame_parser (tr_config st)) payload received_at (to_connection_id (tr_observation st))")
  case (DfShutdown t)
  with assms one_message_failure show ?thesis by (auto simp: receive_depth_frame_def receive_server_shutdown_def)
next
  case (DfError e)
  with assms one_message_failure show ?thesis by (auto simp: receive_depth_frame_def receive_protocol_failure_def)
next
  case (DfUpdate u)
  with assms consider
      "publish_then w (EvDepthUpdate u) (submit_depth_update_call w u) (note_event_time received_at st) = (on, st', calls)"
    | "submit_depth_update_call w u (note_event_time received_at st) = (on, st', calls)"
    by (auto simp: receive_depth_frame_def Let_def split: if_splits)
  then show ?thesis
  proof cases
    case 1
    then show ?thesis by (rule one_message_publish_then) (rule one_message_submit)
  next
    case 2
    then show ?thesis by (rule one_message_submit)
  qed
qed

lemma one_message_combined_frame:
  assumes "receive_combined_frame w payload received_at st = (on, st', calls)"
  shows "one_message calls"
proof (cases "the (bc_combined_frame_parser (tr_config st)) payload received_at (to_connection_id (tr_observation st))")
  case (CfShutdown t)
  with assms one_message_failure show ?thesis by (auto simp: receive_combined_frame_def receive_server_shutdown_def)
next
  case (CfError e)
  with assms one_message_failure show ?thesis by (auto simp: receive_combined_frame_def receive_protocol_failure_def)
next
  case (CfEvent event)
  with assms have "publish_then w event (case event of EvDepthUpdate depth \<Rightarrow> submit_depth_update_call w depth
      | _ \<Rightarrow> count_event_frame event) (note_event_time received_at st) = (on, st', calls)"
    by (simp add: receive_combined_frame_def)
  then show ?thesis
    by (rule one_message_publish_then)
      (use one_message_submit one_message_count in \<open>auto split: normalized_market_event.splits\<close>)
qed

lemma one_message_receive:
  "receive_websocket_message w payload received_at st = (on, st', calls) \<Longrightarrow> one_message calls"
  using one_message_combined_frame one_message_depth_frame
  by (auto simp: receive_websocket_message_def split: if_splits)

lemma snapshot_calls:
  assumes "receive_depth_response w result st = (st', calls)"
  shows "submitted calls = [] \<and> snapshots calls \<le> 1"
proof (cases result)
  case (Inl failure)
  with assms terminal_failure_calls show ?thesis by (fastforce simp: receive_depth_response_def)
next
  case (Inr answer)
  obtain response received_at where answer: "answer = (response, received_at)" by (cases answer)
  show ?thesis
  proof (cases "the (bc_depth_snapshot_parser (tr_config st)) (hr_body response) received_at
      (bc_snapshot_request_id (tr_config st))")
    case Inl': (Inl failure)
    with assms Inr answer terminal_failure_calls show ?thesis by (fastforce simp: receive_depth_response_def)
  next
    case Inr': (Inr snapshot)
    with assms Inr answer terminal_failure_calls show ?thesis
      by (fastforce simp: receive_depth_response_def Let_def split: if_splits prod.splits)
  qed
qed

text \<open>
  Once the work guard is released, the transport holds no operation any more: what the operations
  still do is bounded by what is outstanding.
\<close>

lemma end_connection_again:
  "\<not> tr_websocket_held st \<Longrightarrow> \<not> tr_depth_request_held st \<Longrightarrow> \<not> tr_work_guard st \<Longrightarrow> end_connection st = st"
  by (cases st) (simp add: end_connection_def release_network_work_def cancel_network_operations_def)

lemma effect_ended:
  assumes "\<not> tr_websocket_held st" and "\<not> tr_depth_request_held st" and "\<not> tr_work_guard st"
    and "effect_ok st st' calls"
  shows "\<exists>ob. st' = st\<lparr>tr_observation := ob\<rparr>"
  using assms end_connection_again by (auto simp: effect_ok_def goes_on_def breaks_off_def)

lemma released:
  assumes "network_inv st" and "\<not> tr_work_guard st"
  shows "\<not> tr_websocket_held st" and "\<not> tr_depth_request_held st" and "PostedStart \<notin> set (tr_posted st)"
    and "tr_websocket st = Some op \<Longrightarrow> op_inv ws_weight op \<and> ended op"
    and "tr_depth_request st = Some r \<Longrightarrow> op_inv get_weight r \<and> ended r"
  using assms by (auto simp: network_inv_def operations_inv_def work_inv_def)

definition pending_messages :: "transport \<Rightarrow> nat" where
  "pending_messages st = (case tr_websocket st of
       Some op \<Rightarrow> if ao_io op = Some WsRead \<and> \<not> ao_done op then 1 else 0 | None \<Rightarrow> 0)"

definition pending_snapshots :: "transport \<Rightarrow> nat" where
  "pending_snapshots st = (case tr_depth_request st of
       Some op \<Rightarrow> if ao_done op then 0 else 1 | None \<Rightarrow> 0)"

definition work_left :: "transport \<Rightarrow> nat" where
  "work_left st = 2 * length (tr_posted st) + (if tr_barrier st then 1 else 0)
     + (case tr_websocket st of Some op \<Rightarrow> outstanding op | None \<Rightarrow> 0)
     + (case tr_depth_request st of Some op \<Rightarrow> outstanding op | None \<Rightarrow> 0)"

lemma ended_websocket_event:
  assumes inv: "network_inv st" and free: "\<not> tr_work_guard st" and ws: "tr_websocket st = Some op"
    and outcome: "ws_outcome op op' callback" and step: "websocket_event w (op', callback) st = (st', calls)"
  shows "\<exists>op'' ob. st' = st\<lparr>tr_websocket := Some op'', tr_observation := ob\<rparr>
    \<and> outstanding op'' < outstanding op \<and> snapshots calls = 0
    \<and> length (submitted calls) + (if ao_io op'' = Some WsRead \<and> \<not> ao_done op'' then 1 else 0)
        \<le> (if ao_io op = Some WsRead \<and> \<not> ao_done op then 1 else 0 :: nat)"
proof -
  note rel = released [OF inv free]
  have ended: "ended op" "op_inv ws_weight op" using rel(4) [OF ws] by simp_all
  show ?thesis
  proof (cases "\<exists>payload received_at retire. callback = Some (CbMessage payload received_at retire)")
    case True
    then obtain payload received_at retire where cb: "callback = Some (CbMessage payload received_at retire)"
      by blast
    with outcome have op': "op' = io_completed op" "retire" "\<not> ao_done op" "ao_io op = Some WsRead"
        "ao_cancel_requested op"
      using ended(1) by (auto simp: ws_outcome_def ended_def)
    let ?st1 = "st\<lparr>tr_websocket := Some (io_completed op)\<rparr>"
    obtain on st2 cs where message: "receive_websocket_message w payload received_at ?st1 = (on, st2, cs)"
      by (metis prod_cases3)
    then have eff: "effect_ok ?st1 st2 cs" using receive_websocket_message_ok by blast
    from effect_ended [OF _ _ _ eff] rel(1,2) free obtain ob where st2: "st2 = ?st1\<lparr>tr_observation := ob\<rparr>"
      by auto
    define op'' where "op'' = ws_after_message on retire (io_completed op)"
    have after: "op_effect ws_weight op op'' False" "ao_io op'' = None"
    proof -
      show "op_effect ws_weight op op'' False"
        using ws_after_message_effect(1,2) [OF ended(2) op'(4,3)] op'(2,5) by (cases on) (simp_all add: op''_def)
      show "ao_io op'' = None"
        using op'(2) by (auto simp: op''_def ws_after_message_def ws_complete_cancelled_piece_def Let_def)
    qed
    have st': "st' = st\<lparr>tr_websocket := Some op'', tr_observation := ob\<rparr>" "calls = cs"
      using step cb op'(1) message by (auto simp: websocket_event_def st2 op''_def)
    have "length (submitted cs) \<le> 1 \<and> snapshots cs = 0"
      using one_message_receive [OF message] by (simp add: one_message_def)
    with st' after ended op'(3,4) show ?thesis
      by (intro exI [of _ op''] exI [of _ ob]) (simp add: op_effect_def)
  next
    case False
    then have silent: "callback = None \<or> (\<exists>e. callback = Some (CbFailure e))"
      using outcome ended(1) by (auto simp: ws_outcome_def split: option.splits ws_callback.splits)
    have effect: "ended op' \<and> outstanding op' < outstanding op \<and> (ao_io op' = None \<or> ao_io op' = ao_io op)
        \<and> (ao_done op \<longrightarrow> ao_done op')"
      using outcome ended(1) silent by (auto simp: ws_outcome_def op_effect_def)
    let ?st1 = "st\<lparr>tr_websocket := Some op'\<rparr>"
    obtain ob where "st' = ?st1\<lparr>tr_observation := ob\<rparr>" "submitted calls = []" "snapshots calls = 0"
    proof (cases callback)
      case None
      with step have "st' = ?st1\<lparr>tr_observation := tr_observation st\<rparr>" "calls = []"
        by (auto simp: websocket_event_def)
      with that [of "tr_observation st"] show ?thesis by simp
    next
      case (Some cb)
      with silent step obtain e where step': "terminal_failure e False ?st1 = (st', calls)"
        by (auto simp: websocket_event_def)
      from failure_ok [OF goes_on_refl refl this] have "effect_ok ?st1 st' calls" .
      from effect_ended [OF _ _ _ this] rel(1,2) free terminal_failure_calls [OF step'] that show ?thesis by auto
    qed
    with effect show ?thesis by (intro exI [of _ op'] exI [of _ ob]) auto
  qed
qed

lemma ended_depth_event:
  assumes inv: "network_inv st" and free: "\<not> tr_work_guard st"
    and step: "depth_request_event w (op', r) st = (st', calls)"
  shows "\<exists>ob. st' = st\<lparr>tr_depth_request := Some op', tr_observation := ob\<rparr> \<and> submitted calls = []
    \<and> snapshots calls \<le> (if r = None then 0 else 1)"
proof -
  note rel = released [OF inv free]
  let ?st1 = "st\<lparr>tr_depth_request := Some op'\<rparr>"
  show ?thesis
  proof (cases r)
    case None
    with step have "st' = ?st1" "calls = []" by (auto simp: depth_request_event_def)
    with None show ?thesis by (intro exI [of _ "tr_observation st"]) simp
  next
    case (Some result)
    with step have step': "receive_depth_response w result ?st1 = (st', calls)"
      by (simp add: depth_request_event_def)
    from effect_ended [OF _ _ _ receive_depth_response_ok [OF this]] rel(1,2) free snapshot_calls [OF step'] Some
    show ?thesis by auto
  qed
qed

text \<open>One handler after the end.\<close>

lemma ended_step:
  assumes inv: "network_inv st" and free: "\<not> tr_work_guard st"
    and step: "network_step w event st = Some (st', calls)" and "event \<noteq> RunReturns"
  shows "length (submitted calls) + pending_messages st' \<le> pending_messages st"
    and "snapshots calls + pending_snapshots st' \<le> pending_snapshots st"
    and "if event = RunPing then work_left st' = work_left st else work_left st' < work_left st"
proof -
  have running: "tr_thread st = NtRunning" using inv by (simp add: network_inv_def)
  note rel = released [OF inv free]
  let ?all = "length (submitted calls) + pending_messages st' \<le> pending_messages st
    \<and> snapshots calls + pending_snapshots st' \<le> pending_snapshots st
    \<and> (if event = RunPing then work_left st' = work_left st else work_left st' < work_left st)"
  have stream: ?all if op: "tr_websocket st = Some op" "ws_outcome op op' callback"
      "websocket_event w (op', callback) st = (st', calls)" "event \<noteq> RunPing" for op op' callback
    using ended_websocket_event [OF inv free op(1-3)] op(1,4)
    by (auto simp: pending_messages_def pending_snapshots_def work_left_def split: if_splits)
  have request: ?all if op: "tr_depth_request st = Some op" "op_effect get_weight op op' (r \<noteq> None)"
      "depth_request_event w (op', r) st = (st', calls)" "event \<noteq> RunPing" for op op' r
  proof -
    have less: "outstanding op' < outstanding op" "ao_done op \<Longrightarrow> ao_done op' \<and> r = None" "r \<noteq> None \<Longrightarrow> ao_done op'"
      using op(2) rel(5) [OF op(1)] by (simp_all add: op_effect_def)
    obtain ob where ob: "st' = st\<lparr>tr_depth_request := Some op', tr_observation := ob\<rparr>"
        "submitted calls = []" "snapshots calls \<le> (if r = None then 0 else 1)"
      using ended_depth_event [OF inv free op(3)] by blast
    have "snapshots calls + (if ao_done op' then 0 else 1) \<le> (if ao_done op then 0 else 1 :: nat)"
      using less(2,3) ob(3) by (cases "ao_done op"; cases "r = None") auto
    with less(1) ob op(1,4) show ?thesis
      by (simp add: pending_messages_def pending_snapshots_def work_left_def)
  qed
  have ?all
  proof (cases event)
    case RunPosted
    with step running rel(3) obtain rest where "tr_posted st = PostedShutdown # rest"
        "st' = begin_clean_shutdown (st\<lparr>tr_posted := rest\<rparr>)" "calls = []"
      by (auto simp: network_step_def run_posted_def split: list.splits posted_work.splits)
    with RunPosted show ?thesis
      by (simp add: begin_clean_shutdown_def pending_messages_def pending_snapshots_def work_left_def)
  next
    case (RunWebSocketIo got_text payload ec)
    with step running obtain op op' callback where op: "tr_websocket st = Some op"
      "ws_io_handler (tw_clock w) got_text payload ec op = Some (op', callback)"
      "websocket_event w (op', callback) st = (st', calls)"
      by (auto simp: network_step_def bind_eq_Some_conv)
    from stream [OF op(1) ws_io_handler_outcome [OF _ op(2)] op(3)] rel(4) [OF op(1)] RunWebSocketIo
    show ?thesis by simp
  next
    case (RunWebSocketTimer i ec)
    with step running obtain op op' callback where op: "tr_websocket st = Some op"
      "ws_timer_handler i ec op = Some (op', callback)"
      "websocket_event w (op', callback) st = (st', calls)"
      by (auto simp: network_step_def bind_eq_Some_conv)
    from stream [OF op(1) ws_timer_handler_outcome [OF _ op(2)] op(3)] rel(4) [OF op(1)] RunWebSocketTimer
    show ?thesis by simp
  next
    case RunPing
    with step running have "st' = websocket_ping st" "calls = []"
      by (auto simp: network_step_def bind_eq_Some_conv split: if_splits)
    with RunPing show ?thesis
      by (simp add: websocket_ping_def map_transport_def pending_messages_def pending_snapshots_def work_left_def)
  next
    case (RunDepthIo response ec)
    with step running obtain op op' r where op: "tr_depth_request st = Some op"
      "get_io_handler (tw_clock w) response ec op = Some (op', r)"
      "depth_request_event w (op', r) st = (st', calls)"
      by (auto simp: network_step_def bind_eq_Some_conv)
    from request [OF op(1) get_io_handler_effect [OF _ op(2)] op(3)] rel(5) [OF op(1)] RunDepthIo
    show ?thesis by simp
  next
    case (RunDepthTimer i ec)
    with step running obtain op op' r where op: "tr_depth_request st = Some op"
      "get_timer_handler i ec op = Some (op', r)"
      "depth_request_event w (op', r) st = (st', calls)"
      by (auto simp: network_step_def bind_eq_Some_conv)
    from request [OF op(1) get_timer_handler_effect [OF _ op(2)] op(3)] rel(5) [OF op(1)] RunDepthTimer
    show ?thesis by simp
  next
    case RunBarrier
    with step running have barrier: "tr_barrier st" "st' = shutdown_barrier st" "calls = []"
      by (auto simp: network_step_def split: if_splits)
    then have "st' = st\<lparr>tr_barrier := False\<rparr>"
      using end_connection_again [OF rel(1,2) free] by (simp add: end_connection_barrier)
    with barrier(1,3) RunBarrier show ?thesis
      by (simp add: pending_messages_def pending_snapshots_def work_left_def)
  qed (use assms(4) in simp)
  then show "length (submitted calls) + pending_messages st' \<le> pending_messages st"
    and "snapshots calls + pending_snapshots st' \<le> pending_snapshots st"
    and "if event = RunPing then work_left st' = work_left st else work_left st' < work_left st"
    by blast+
qed

end
