(* ===== verification/TransportProperties.thy ===== *)
theory TransportProperties
  imports TransportRuns
begin

text \<open>
  What a transport guarantees to the runtime it feeds and to its owner, and the window in which it
  does not: the calls of whole runs, the bound after the end of a connection, the end of the network
  thread, and the effect of \<open>stop\<close>.
\<close>

section \<open>After the end\<close>

definition over :: "transport \<Rightarrow> bool" where
  "over st \<longleftrightarrow> tr_thread st = NtExited \<or> tr_thread st = NtRunning \<and> \<not> tr_work_guard st"

lemma over_step:
  assumes "transport_inv st" and "over st" and "transport_step coordinated st calls st'"
  shows "over st' \<and> length (submitted calls) + pending_messages st' \<le> pending_messages st
    \<and> snapshots calls + pending_snapshots st' \<le> pending_snapshots st"
  using assms(3)
proof cases
  case (ts_network w event)
  then have running: "tr_thread st = NtRunning" by (simp add: network_step_def split: if_splits)
  with assms(1,2) have inv: "network_inv st" "\<not> tr_work_guard st"
    by (simp_all add: transport_inv_def thread_inv_def over_def)
  show ?thesis
  proof (cases "event = RunReturns")
    case True
    with ts_network running show ?thesis
      by (auto simp: network_step_def over_def pending_messages_def pending_snapshots_def split: if_splits)
  next
    case False
    from network_step_ok [OF inv(1) ts_network] False have "step_ok st st' calls" by simp
    with inv(2) have "over st'" by (auto simp: step_ok_def over_def network_inv_def same_frame_def)
    with ended_step(1,2) [OF inv ts_network False] show ?thesis by simp
  qed
next
  case ts_start
  with assms(1,2) show ?thesis
    by (auto simp: transport_start_begin_def transport_inv_def thread_inv_def over_def split: if_splits)
next
  case ts_stop
  with assms(2) show ?thesis
    by (auto simp: transport_stop_begin_def map_transport_def over_def pending_messages_def pending_snapshots_def)
next
  case ts_post
  with assms(2) show ?thesis
    by (auto simp: transport_stop_post_def over_def pending_messages_def pending_snapshots_def split: if_splits)
next
  case ts_join
  with assms(2) show ?thesis
    by (auto simp: transport_stop_joined_def over_def pending_messages_def pending_snapshots_def split: if_splits)
next
  case ts_stopped
  with assms(2) show ?thesis
    by (auto simp: transport_stop_finish_def map_transport_def over_def pending_messages_def pending_snapshots_def
        split: if_splits)
qed

lemma over_run:
  assumes "run (transport_step coordinated) st ls st'" and "transport_inv st" and "over st"
  shows "length (submitted (concat ls)) + pending_messages st' \<le> pending_messages st
    \<and> snapshots (concat ls) + pending_snapshots st' \<le> pending_snapshots st"
  using assms
proof (induction rule: run.induct)
  case (run_Cons st calls t ls u)
  have t: "transport_inv t" using transport_inv_step [OF run_Cons.prems(1) run_Cons.hyps(1)] .
  note first = over_step [OF run_Cons.prems run_Cons.hyps(1)]
  with run_Cons.IH [OF t] show ?case by auto
qed simp

lemma pending_at_most_one: "pending_messages st \<le> 1" "pending_snapshots st \<le> 1"
  by (simp_all add: pending_messages_def pending_snapshots_def split: option.split)

lemma failed_is_over:
  assumes "transport_inv st" and "to_terminal_error (tr_observation st) \<noteq> None"
  shows "over st"
  using assms
  by (cases "tr_thread st")
    (simp_all add: transport_inv_def thread_inv_def over_def unstarted_def network_inv_def work_inv_def)

section \<open>The end of the network thread\<close>

definition network_event_step :: "transport \<Rightarrow> network_event \<Rightarrow> transport \<Rightarrow> bool" where
  "network_event_step st event st' \<longleftrightarrow> (\<exists>w calls. network_step w event st = Some (st', calls))"

text \<open>A handler is there to be run, whatever its surroundings answer.\<close>

definition ready :: "transport \<Rightarrow> bool" where
  "ready st \<longleftrightarrow> (\<exists>event. event \<noteq> RunPing \<and> (\<forall>w. network_step w event st \<noteq> None))"

lemma readyI: "event \<noteq> RunPing \<Longrightarrow> (\<And>w. network_step w event st \<noteq> None) \<Longrightarrow> ready st"
  by (auto simp: ready_def)

lemma never_stuck:
  assumes "network_inv st" and "\<not> tr_work_guard st \<or> shutdown_announced st"
  shows "ready st"
proof -
  have running: "tr_thread st = NtRunning" using assms(1) by (simp add: network_inv_def)
  consider (posted) "tr_posted st \<noteq> []" | (barrier) "tr_barrier st"
    | (free) "tr_posted st = []" "\<not> tr_barrier st" "\<not> tr_work_guard st"
  proof (cases "tr_posted st = []")
    case True
    with assms have "\<not> tr_work_guard st \<or> tr_barrier st"
      by (auto simp: network_inv_def work_inv_def shutdown_announced_def)
    with True that show ?thesis by blast
  qed
  then show ?thesis
  proof cases
    case posted
    with running show ?thesis
      by (intro readyI [of RunPosted])
        (auto simp: network_step_def run_posted_def split: list.split posted_work.split)
  next
    case barrier
    with running show ?thesis by (intro readyI [of RunBarrier]) (simp_all add: network_step_def)
  next
    case free
    show ?thesis
    proof (cases "idle st")
      case True
      with running show ?thesis by (intro readyI [of RunReturns]) (simp_all add: network_step_def)
    next
      case False
      with free consider (stream) op where "tr_websocket st = Some op" "outstanding op \<noteq> 0"
        | (request) op where "tr_depth_request st = Some op" "outstanding op \<noteq> 0"
        by (auto simp: idle_def split: option.splits)
      then show ?thesis
      proof cases
        case stream
        show ?thesis
        proof (cases "ao_io op")
          case None
          with stream(2) have "0 < length (ao_timers op)" by (simp add: outstanding_def)
          with stream(1) running show ?thesis
            by (intro readyI [of "RunWebSocketTimer 0 None"]) (simp_all add: network_step_def ws_timer_handler_def)
        next
          case (Some s)
          with stream(1) running show ?thesis
            by (intro readyI [of "RunWebSocketIo True [] None"])
              (simp_all add: network_step_def ws_io_handler_def split: ws_stage.split)
        qed
      next
        case request
        show ?thesis
        proof (cases "ao_io op")
          case None
          with request(2) have "0 < length (ao_timers op)" by (simp add: outstanding_def)
          with request(1) running show ?thesis
            by (intro readyI [of "RunDepthTimer 0 None"]) (simp_all add: network_step_def get_timer_handler_def)
        next
          case (Some s)
          with request(1) running show ?thesis
            by (intro readyI [of "RunDepthIo \<lparr>hr_result = 200, hr_body = [], hr_retry_after = None\<rparr> None"])
              (simp_all add: network_step_def get_io_handler_def split: get_stage.split)
        qed
      qed
    qed
  qed
qed

lemma drain_run:
  assumes "run network_event_step st events st'" and "transport_inv st" and "over st"
  shows "transport_inv st' \<and> over st' \<and>
    length (filter (\<lambda>e. e \<noteq> RunPing) events) + (if tr_thread st' = NtExited then 0 else work_left st' + 1)
      \<le> (if tr_thread st = NtExited then 0 else work_left st + 1)"
  using assms
proof (induction rule: run.induct)
  case (run_Cons st event t events u)
  from run_Cons.hyps(1) obtain w calls where step: "network_step w event st = Some (t, calls)"
    by (auto simp: network_event_step_def)
  have running: "tr_thread st = NtRunning" using step by (simp add: network_step_def split: if_splits)
  with run_Cons.prems have inv: "network_inv st" "\<not> tr_work_guard st"
    by (simp_all add: transport_inv_def thread_inv_def over_def)
  have t: "transport_inv t" "over t"
    using transport_inv_network [OF run_Cons.prems(1) step]
      over_step [OF run_Cons.prems ts_network [OF step, of False]] by simp_all
  have "(if event = RunPing then 0 else 1) + (if tr_thread t = NtExited then 0 else work_left t + 1)
      \<le> work_left st + 1"
  proof (cases "event = RunReturns")
    case True
    with step running show ?thesis by (auto simp: network_step_def split: if_splits)
  next
    case False
    with ended_step(3) [OF inv step False] show ?thesis by (auto split: if_splits)
  qed
  with run_Cons.IH [OF t] running show ?case by (auto split: if_splits)
qed simp

lemma run_append: "run step a xs b \<Longrightarrow> run step b ys c \<Longrightarrow> run step a (xs @ ys) c"
  by (induction rule: run.induct) (auto intro: run.intros)

lemma is_some: "\<not> Option.is_none x \<Longrightarrow> x = Some (the x)"
  by (cases x) simp_all

section \<open>An example connection\<close>

definition example_stream_update :: depth_update where
  "example_stream_update =
     \<lparr>du_metadata = \<lparr>md_venue = VENUE_BINANCE, md_market = MARKET_SPOT, md_symbol = ''BTCUSDT'',
        md_producer = ''p'', md_producer_version = ''1'', md_connection_id = ''c'',
        md_stream = STREAM_DIFF_DEPTH, md_schema_version = ''v1'', md_exchange_event_time_ms = None,
        md_exchange_trade_time_ms = None, md_exchange_transaction_time_ms = None,
        md_receive_time_utc_ns = None, md_receive_monotonic_ns = None\<rparr>,
      du_first_update_id = 1, du_final_update_id = 2, du_previous_final_update_id = None,
      du_bids = [], du_asks = []\<rparr>"

text \<open>A configuration whose parsers take every frame and reject every snapshot.\<close>

definition example_transport_config :: binance_transport_config where
  "example_transport_config =
     \<lparr>bc_rest_host = ''r'', bc_rest_port = ''1'', bc_depth_target = ''/d'', bc_websocket_host = ''w'',
      bc_websocket_port = ''2'', bc_websocket_target = ''/w'', bc_connection_id_prefix = ''c-g'',
      bc_snapshot_request_id = ''s'', bc_user_agent = ''u'', bc_profile = DepthWithEvents,
      bc_normalized_event_sink = True,
      bc_depth_frame_parser = Some (\<lambda>_ _ _. DfUpdate example_stream_update),
      bc_combined_frame_parser = None,
      bc_depth_snapshot_parser = Some (\<lambda>_ _ _. Inl (protocol_error_of InvalidShape ''x'' ''y''))\<rparr>"

definition example_clock_sample :: clock_sample where
  "example_clock_sample = \<lparr>cs_utc_ns = 5, cs_monotonic_ns = 6\<rparr>"

definition example_initial_observation :: transport_observation where
  "example_initial_observation =
     (case make_transport (Some example_clock_sample) 3 example_transport_config of
        Inr observation \<Rightarrow> observation)"

definition example_fresh_transport :: transport where
  "example_fresh_transport = new_transport example_transport_config example_initial_observation"

definition example_transport_started :: transport where
  "example_transport_started = (case transport_start_begin example_fresh_transport of Inr st \<Rightarrow> st)"

definition answers :: "string option \<Rightarrow> transport_world" where
  "answers tls = \<lparr>tw_tls = tls, tw_clock = ClockRead example_clock_sample, tw_allocation_ok = True,
     tw_sink = Some SinkContinue, tw_admission = AdAccepted\<rparr>"

text \<open>Handlers of the network thread, one after the other.\<close>

fun handle_all :: "(transport_world \<times> network_event) list \<Rightarrow> transport
    \<Rightarrow> (transport_call list list \<times> transport) option" where
  "handle_all [] st = Some ([], st)"
| "handle_all ((w, event) # events) st =
     (case network_step w event st of
        None \<Rightarrow> None
      | Some (st', calls) \<Rightarrow> map_option (\<lambda>(ls, final). (calls # ls, final)) (handle_all events st'))"

lemma handle_all_run: "handle_all events st = Some p \<Longrightarrow> run (transport_step c) st (fst p) (snd p)"
proof (induction events arbitrary: st p)
  case Nil
  then show ?case by (auto intro: run_Nil)
next
  case (Cons item events)
  obtain w event where item: "item = (w, event)" by (cases item)
  with Cons.prems obtain t calls q where q: "network_step w event st = Some (t, calls)"
      "handle_all events t = Some q" "p = (calls # fst q, snd q)"
    by (auto split: option.splits)
  show ?case unfolding q(3) using run_Cons [OF ts_network [OF q(1)] Cons.IH [OF q(2)]] by simp
qed

text \<open>The stream comes up, but OpenSSL refuses the snapshot request: the connection is ended while
  the first read is outstanding, and its message still arrives.\<close>

definition example_breaking :: "(transport_world \<times> network_event) list" where
  "example_breaking =
     [(answers None, RunPosted), (answers None, RunWebSocketIo True [] None),
      (answers None, RunWebSocketIo True [] None), (answers None, RunWebSocketIo True [] None),
      (answers (Some ''sni''), RunWebSocketIo True [] None)]"

definition example_broken :: "transport_call list list \<times> transport" where
  "example_broken = the (handle_all example_breaking example_transport_started)"

definition example_late :: "transport_call list list \<times> transport" where
  "example_late = the (handle_all [(answers None, RunWebSocketIo True ''frame'' None)] (snd example_broken))"

lemma example_transport_made:
  "make_transport (Some example_clock_sample) 3 example_transport_config = Inr example_initial_observation"
  by code_simp

lemma example_start_step: "transport_start_begin example_fresh_transport = Inr example_transport_started"
proof -
  have "\<not> to_stopped (tr_observation example_fresh_transport)" by code_simp
  moreover have "\<not> to_started (tr_observation example_fresh_transport)" by code_simp
  ultimately show ?thesis by (simp add: example_transport_started_def transport_start_begin_def)
qed

lemma example_broken_run: "handle_all example_breaking example_transport_started = Some example_broken"
proof -
  have "\<not> Option.is_none (handle_all example_breaking example_transport_started)" by code_simp
  then show ?thesis by (simp add: example_broken_def Option.is_none_def)
qed

lemma example_late_run:
  "handle_all [(answers None, RunWebSocketIo True ''frame'' None)] (snd example_broken) = Some example_late"
proof -
  have "\<not> Option.is_none (handle_all [(answers None, RunWebSocketIo True ''frame'' None)] (snd example_broken))"
    by code_simp
  then show ?thesis by (simp add: example_late_def Option.is_none_def)
qed

lemma example_late_calls:
  "fst example_late = [[CallPublish (EvDepthUpdate example_stream_update) 3 SinkContinue,
      CallSubmitDepth example_stream_update \<lparr>sp_connection_generation = Some 3\<rparr> AdAccepted]]"
  by code_simp

lemma example_broken_calls: "fst example_broken = [[], [], [], [], [CallSnapshotFailure]]"
  by code_simp

lemma run_some_step: "run (transport_step c) st ls st' \<Longrightarrow> reachable transport_init (some_transport_step c) st
    \<Longrightarrow> reachable transport_init (some_transport_step c) st'"
proof (induction rule: run.induct)
  case (run_Cons s l t ls u)
  then have "some_transport_step c s t" by (auto simp: some_transport_step_def)
  then have "reachable transport_init (some_transport_step c) t" using run_Cons.prems by (rule reach_step [rotated])
  then show ?case by (rule run_Cons.IH)
qed

lemma example_init: "transport_init example_fresh_transport"
  unfolding transport_init_def example_fresh_transport_def using example_transport_made by blast

lemma example_from_fresh:
  "run (transport_step c) example_fresh_transport ([] # fst example_broken) (snd example_broken)"
proof (rule run_Cons)
  show "transport_step c example_fresh_transport [] example_transport_started"
    by (rule ts_start [OF example_start_step]) (simp add: example_fresh_transport_def new_transport_def)
  show "run (transport_step c) example_transport_started (fst example_broken) (snd example_broken)"
    by (rule handle_all_run [OF example_broken_run])
qed

lemma example_broken_reachable: "reachable transport_init (some_transport_step c) (snd example_broken)"
proof -
  have "reachable transport_init (some_transport_step c) example_fresh_transport"
    using example_init by (rule reach_init)
  with example_from_fresh show ?thesis by (rule run_some_step)
qed

lemma example_late_step: "run (transport_step c) (snd example_broken) (fst example_late) (snd example_late)"
  by (rule handle_all_run [OF example_late_run])

section \<open>Properties of the calls\<close>



text \<open>C29: a transport that publishes events publishes and projects the same updates: the depth
  updates submitted to the market runtime are, in order and without exception, those the event sink
  has just taken. A transport of depth frames alone publishes nothing.\<close>

theorem published_updates_are_submitted:
  assumes "make_transport clock generation config = Inr observation"
    and "run (transport_step coordinated) (new_transport config observation) ls st"
  shows "if bc_profile config = DepthOnly then published (concat ls) = []
    else submitted (concat ls) = published (concat ls)"
proof -
  have init: "transport_init (new_transport config observation)"
    using assms(1) unfolding transport_init_def by blast
  from run_accounted [OF assms(2) transport_inv_init [OF init]] show ?thesis
    by (simp add: new_transport_def accounted_def)
qed

theorem published_updates_are_submitted_witness:
  "submitted (concat ([] # fst example_broken @ fst example_late))
     = published (concat ([] # fst example_broken @ fst example_late))
   \<and> submitted (concat ([] # fst example_broken @ fst example_late)) = [example_stream_update]"
proof -
  have "run (transport_step True) (new_transport example_transport_config example_initial_observation)
      ([] # fst example_broken @ fst example_late) (snd example_late)"
    using run_append [OF example_from_fresh example_late_step] by (simp add: example_fresh_transport_def)
  from published_updates_are_submitted [OF example_transport_made this]
  have "submitted (concat ([] # fst example_broken @ fst example_late))
      = published (concat ([] # fst example_broken @ fst example_late))"
    by (simp add: example_transport_config_def)
  moreover have "submitted (concat ([] # fst example_broken @ fst example_late)) = [example_stream_update]"
    by (simp add: example_broken_calls example_late_calls)
  ultimately show ?thesis by simp
qed

text \<open>Once a transport has failed, what it still does is bounded: of the operations it has given up,
  at most one message that was already received is still processed, and at most one snapshot; no
  second failure is ever submitted.\<close>

theorem failed_transport_is_bounded:
  assumes "reachable transport_init (some_transport_step coordinated) st"
    and "to_terminal_error (transport_observe st) \<noteq> None"
    and "run (transport_step coordinated) st ls st'"
  shows "length (submitted (concat ls)) \<le> 1 \<and> snapshots (concat ls) \<le> 1
    \<and> filter is_failure_call (concat ls) = []"
proof -
  have inv: "transport_inv st" by (rule transport.inv_reachable [OF assms(1)])
  have failed: "to_terminal_error (tr_observation st) \<noteq> None" using assms(2) by (simp add: transport_observe_def)
  from over_run [OF assms(3) inv failed_is_over [OF inv failed]] pending_at_most_one [of st]
  have "length (submitted (concat ls)) \<le> 1 \<and> snapshots (concat ls) \<le> 1" by linarith
  moreover have "length (filter is_failure_call (concat ls)) = 0"
    using run_accounted [OF assms(3) inv] failed by (auto simp: accounted_def split: if_splits)
  ultimately show ?thesis by simp
qed

theorem failed_transport_is_bounded_witness:
  "length (submitted (concat (fst example_late))) = 1 \<and> filter is_failure_call (concat (fst example_late)) = []"
proof -
  have "to_terminal_error (transport_observe (snd example_broken)) \<noteq> None" by code_simp
  from failed_transport_is_bounded [OF example_broken_reachable [of True] this example_late_step]
  have "filter is_failure_call (concat (fst example_late)) = []" by blast
  then show ?thesis by (simp add: example_late_calls)
qed

section \<open>Properties of the end\<close>

text \<open>C30: a running network thread that a stop waits for, or whose connection has been ended, always has
  a handler to run, whatever its surroundings answer, until \<open>context_.run()\<close> returns; and once the
  connection has been ended, it runs no more handlers than the outstanding ones, pings aside. So
  the join of \<open>stop\<close> ends.\<close>

theorem network_thread_ends:
  assumes "reachable transport_init (some_transport_step coordinated) st" and "tr_thread st = NtRunning"
    and "tr_stopper st = StopperJoining \<or> \<not> tr_work_guard st"
  shows "ready st
    \<and> (\<forall>events st'. \<not> tr_work_guard st \<and> run network_event_step st events st' \<longrightarrow>
          length (filter (\<lambda>e. e \<noteq> RunPing) events) \<le> work_left st + 1
          \<and> (tr_thread st' = NtExited \<or> ready st'))"
proof (intro conjI allI impI)
  have inv: "transport_inv st" by (rule transport.inv_reachable [OF assms(1)])
  with assms(2) have net: "network_inv st" by (simp add: transport_inv_def thread_inv_def)
  have "shutdown_announced st" if "tr_stopper st = StopperJoining"
    using inv that assms(2) by (simp add: transport_inv_def stop_inv_def)
  with assms(3) show "ready st" using never_stuck [OF net] by blast
  fix events st' assume ended: "\<not> tr_work_guard st \<and> run network_event_step st events st'"
  then have "over st" using assms(2) by (simp add: over_def)
  with ended inv have end_state: "transport_inv st'" "over st'"
      "length (filter (\<lambda>e. e \<noteq> RunPing) events) + (if tr_thread st' = NtExited then 0 else work_left st' + 1)
        \<le> (if tr_thread st = NtExited then 0 else work_left st + 1)"
    using drain_run [of st events st'] by simp_all
  then show "length (filter (\<lambda>e. e \<noteq> RunPing) events) \<le> work_left st + 1"
    using assms(2) by (simp split: if_splits)
  show "tr_thread st' = NtExited \<or> ready st'"
    using end_state(1,2) never_stuck [of st'] by (auto simp: over_def transport_inv_def thread_inv_def)
qed

theorem network_thread_ends_witness: "ready (snd example_broken)"
proof -
  have running: "tr_thread (snd example_broken) = NtRunning" by code_simp
  have "\<not> tr_work_guard (snd example_broken)" by code_simp
  then have "tr_stopper (snd example_broken) = StopperJoining \<or> \<not> tr_work_guard (snd example_broken)" ..
  from network_thread_ends [OF example_broken_reachable [of True] running this] show ?thesis by blast
qed

text \<open>With one lifecycle owner, a stop that has ended or is about to end has seen the thread's end.\<close>

definition at_rest :: "transport \<Rightarrow> bool" where
  "at_rest st \<longleftrightarrow> (to_stopped (tr_observation st) \<or> tr_stopper st = StopperFinishing
     \<longrightarrow> tr_thread st \<noteq> NtRunning)"

lemma at_rest_step:
  assumes "transport_inv st" and "at_rest st" and "transport_step True st calls st'"
  shows "at_rest st'"
  using assms(3)
proof cases
  case (ts_network w event)
  then have running: "tr_thread st = NtRunning" by (simp add: network_step_def split: if_splits)
  with assms(1) have inv: "network_inv st" by (simp add: transport_inv_def thread_inv_def)
  from network_step_ok [OF inv ts_network] assms(2) running show ?thesis
    by (auto simp: at_rest_def step_ok_def same_frame_def same_identity_def)
next
  case ts_start
  with assms(1,2) show ?thesis
    by (auto simp: at_rest_def transport_start_begin_def map_transport_def transport_inv_def stop_inv_def
        split: if_splits)
next
  case ts_stop
  with assms(1,2) show ?thesis
    by (auto simp: at_rest_def transport_stop_begin_def map_transport_def transport_inv_def thread_inv_def)
next
  case ts_post
  with assms(2) show ?thesis by (auto simp: at_rest_def transport_stop_post_def split: if_splits)
next
  case ts_join
  with assms(2) show ?thesis by (auto simp: at_rest_def transport_stop_joined_def split: if_splits)
next
  case ts_stopped
  with assms(2) show ?thesis
    by (auto simp: at_rest_def transport_stop_finish_def map_transport_def split: if_splits)
qed

interpretation owned_transport: invariant_system transport_init "some_transport_step True"
  "\<lambda>st. transport_inv st \<and> at_rest st"
proof unfold_locales
  show "transport_inv st \<and> at_rest st" if "transport_init st" for st
    using transport_inv_init [OF that] that
    by (auto simp: at_rest_def transport_init_def new_transport_def)
  show "transport_inv t \<and> at_rest t" if "transport_inv s \<and> at_rest s" "some_transport_step True s t" for s t
    using that transport_inv_step at_rest_step unfolding some_transport_step_def by blast
qed

lemma stopped_step:
  assumes "transport_inv st" and "at_rest st" and "to_stopped (tr_observation st)"
    and "transport_step True st calls st'"
  shows "calls = [] \<and> st' = st"
proof -
  have "tr_stopper st = StopperNone" using assms(1,3) by (auto simp: transport_inv_def stop_inv_def)
  with assms(2,3,4) show ?thesis
    by (auto elim!: transport_step.cases simp: at_rest_def network_step_def transport_start_begin_def
        transport_stop_begin_def transport_stop_post_def transport_stop_joined_def transport_stop_finish_def)
qed

text \<open>C31: when one owner coordinates start and stop, a stopped transport is at rest for good: its network
  thread has ended or never began, it calls nothing any more, and what it reports does not change.\<close>

theorem stopped_transport_is_final:
  assumes "reachable transport_init (some_transport_step True) st" and "to_stopped (transport_observe st)"
    and "run (transport_step True) st ls st'"
  shows "tr_thread st \<noteq> NtRunning \<and> concat ls = [] \<and> transport_observe st' = transport_observe st"
proof -
  have inv: "transport_inv st" "at_rest st" using owned_transport.inv_reachable [OF assms(1)] by simp_all
  have stopped: "to_stopped (tr_observation st)" using assms(2) by (simp add: transport_observe_def)
  have "concat ls = [] \<and> st' = st"
    using assms(3) inv stopped
  proof (induction rule: run.induct)
    case (run_Cons s calls t ls u)
    with stopped_step have "calls = [] \<and> t = s" by blast
    with run_Cons show ?case by simp
  qed simp
  with inv(2) stopped show ?thesis by (simp add: at_rest_def)
qed

text \<open>OpenSSL refuses the stream at once; the thread runs out of work and is joined by the stop.\<close>

definition example_refused :: transport where
  "example_refused =
     snd (the (handle_all [(answers (Some ''sni''), RunPosted), (answers None, RunReturns)]
                 example_transport_started))"

definition example_stopped_transport :: transport where
  "example_stopped_transport =
     the (transport_stop_finish (the (transport_stop_joined (the (transport_stop_post
            (snd (transport_stop_begin example_refused)))))))"

lemma example_stopped_run: "run (transport_step True) example_fresh_transport
    ([] # [[CallTransportFailure], []] @ [[], [], [], []]) example_stopped_transport"
proof -
  let ?events = "[(answers (Some ''sni''), RunPosted), (answers None, RunReturns)]"
  have "\<not> Option.is_none (handle_all ?events example_transport_started)" by code_simp
  from handle_all_run [OF is_some [OF this]]
  have "run (transport_step True) example_transport_started
      (fst (the (handle_all ?events example_transport_started))) example_refused"
    by (simp add: example_refused_def)
  moreover have "fst (the (handle_all ?events example_transport_started)) = [[CallTransportFailure], []]"
    by code_simp
  ultimately have handled: "run (transport_step True) example_transport_started
      [[CallTransportFailure], []] example_refused" by simp
  have begun: "transport_step True example_fresh_transport [] example_transport_started"
    by (rule ts_start [OF example_start_step]) (simp add: example_fresh_transport_def new_transport_def)
  have stopping: "run (transport_step True) example_refused [[], [], [], []] example_stopped_transport"
  proof (intro run_Cons run_Nil)
    show "transport_step True example_refused [] (snd (transport_stop_begin example_refused))" by (rule ts_stop)
    let ?posting = "snd (transport_stop_begin example_refused)"
    have "\<not> Option.is_none (transport_stop_post ?posting)" by code_simp
    from ts_post [OF is_some [OF this]]
    show "transport_step True ?posting [] (the (transport_stop_post ?posting))" .
    let ?joining = "the (transport_stop_post ?posting)"
    have "\<not> Option.is_none (transport_stop_joined ?joining)" by code_simp
    from ts_join [OF is_some [OF this]]
    show "transport_step True ?joining [] (the (transport_stop_joined ?joining))" .
    let ?finishing = "the (transport_stop_joined ?joining)"
    have "\<not> Option.is_none (transport_stop_finish ?finishing)" by code_simp
    from ts_stopped [OF is_some [OF this]]
    show "transport_step True ?finishing [] example_stopped_transport"
      by (simp add: example_stopped_transport_def)
  qed (rule run_Nil)
  show ?thesis by (rule run_Cons [OF begun run_append [OF handled stopping]])
qed

theorem stopped_transport_is_final_witness:
  "tr_thread example_stopped_transport \<noteq> NtRunning
   \<and> to_terminal_error (transport_observe example_stopped_transport) \<noteq> None
   \<and> transport_observe (snd (transport_stop_begin example_stopped_transport))
       = transport_observe example_stopped_transport"
proof -
  have "reachable transport_init (some_transport_step True) example_fresh_transport"
    using example_init by (rule reach_init)
  with example_stopped_run have reached: "reachable transport_init (some_transport_step True) example_stopped_transport"
    by (rule run_some_step)
  have stopped: "to_stopped (transport_observe example_stopped_transport)" by code_simp
  have "run (transport_step True) example_stopped_transport [[]]
      (snd (transport_stop_begin example_stopped_transport))"
    by (rule run_single) (rule ts_stop)
  from stopped_transport_is_final [OF reached stopped this]
  have "tr_thread example_stopped_transport \<noteq> NtRunning"
      "transport_observe (snd (transport_stop_begin example_stopped_transport))
        = transport_observe example_stopped_transport" by simp_all
  moreover have "to_terminal_error (transport_observe example_stopped_transport) \<noteq> None" by code_simp
  ultimately show ?thesis by blast
qed

text \<open>C32: without that coordination there is a window. A \<open>start\<close> that falls between the two critical
  sections of a \<open>stop\<close> of a transport that was not started yet leaves a stopped transport whose
  network thread runs with its work guard held: \<open>start\<close> returns \<open>Stopped\<close>, and no further \<open>stop\<close>
  does anything, so nobody joins the thread.\<close>

theorem stop_start_race_leaves_thread:
  "\<exists>st. reachable transport_init (some_transport_step False) st \<and> to_stopped (transport_observe st)
     \<and> tr_thread st = NtRunning \<and> tr_work_guard st
     \<and> transport_start_finish st = Some TsStopped \<and> transport_stop_begin st = (StopReturns, st)"
proof -
  define a where "a = snd (transport_stop_begin example_fresh_transport)"
  define b where "b = (map_transport (\<lambda>ob. ob\<lparr>to_started := True\<rparr>) a)
      \<lparr>tr_work_guard := True, tr_thread := NtRunning, tr_posted := tr_posted a @ [PostedStart]\<rparr>"
  define c where "c = (map_transport (\<lambda>ob. ob\<lparr>to_stopped := True, to_running := False\<rparr>) b)
      \<lparr>tr_stop_in_progress := False, tr_stopper := StopperNone\<rparr>"
  have fresh: "\<not> to_stopped (tr_observation example_fresh_transport)"
      "\<not> to_started (tr_observation example_fresh_transport)" by code_simp+
  have a: "a = (map_transport (\<lambda>ob. ob\<lparr>to_running := False\<rparr>) example_fresh_transport)
      \<lparr>tr_stop_in_progress := True, tr_stop_requested := True, tr_stopper := StopperFinishing\<rparr>"
    using fresh by (simp add: a_def transport_stop_begin_def example_fresh_transport_def new_transport_def)
  have "transport_step False example_fresh_transport [] a" unfolding a_def by (rule ts_stop)
  moreover have "transport_start_begin a = Inr b"
    using fresh by (simp add: a b_def transport_start_begin_def map_transport_def)
  then have "transport_step False a [] b" by (rule ts_start) simp
  moreover have "transport_stop_finish b = Some c"
    by (simp add: transport_stop_finish_def c_def b_def a map_transport_def)
  then have "transport_step False b [] c" by (rule ts_stopped)
  moreover have "reachable transport_init (some_transport_step False) example_fresh_transport"
    using example_init by (rule reach_init)
  ultimately have "reachable transport_init (some_transport_step False) c"
    by (meson reach_step some_transport_step_def)
  moreover have "to_stopped (transport_observe c)" "tr_thread c = NtRunning" "tr_work_guard c"
      "transport_start_finish c = Some TsStopped" "transport_stop_begin c = (StopReturns, c)"
    by (simp_all add: c_def b_def a map_transport_def transport_observe_def transport_start_finish_def
        transport_stop_begin_def)
  ultimately show ?thesis by blast
qed

end
