(* ===== verification/Spec2Isabelle.thy ===== *)
theory Spec2Isabelle
  imports OrderBookChannel EventPublication RuntimeProperties RuntimeRuns Foundation
    MarketRegistry RecoveryProperties ProtocolProperties GatewayStatus GrpcProperties
    GrpcServer ProductSetRuns MetadataRequest DaemonService PerformanceBaseline
    SyntheticHost TransportProperties
begin

text \<open>
  A verification development for the Binance market data gateway, a C++20 process that keeps one
  order-book projection per configured product synchronized with Binance's streams, and serves
  snapshots, order-book subscriptions and normalized events over gRPC.

  \<^bold>\<open>The program and its model.\<close> One product is a graph of three objects
  (\<open>ProductRuntime\<close>, \<open>src/src/g11/multi_market_runtime.cpp\<close>): a market runtime whose owner thread
  applies depth updates and publishes them, an event hub that fans normalized events out to
  sessions, and a recovery coordinator whose thread drives one transport attempt at a time,
  classifies its failures, backs off, resets the runtime, and opens, quiesces and closes the
  hub's source generations. Every public operation runs under the mutex of its object, so an
  execution is a sequence of atomic steps: each operation is a function on the state of its object,
  each thread a step function with one step from one look at shared state to the next, and the
  interleavings are the runs of a step relation.

  \<^item> Prelude: pointers, reachability and runs, the locale \<open>invariant_system\<close>, ring buffers.
  \<^item> Wire, CharConv: the wire enumerations and records the sources use, decimal printing, and the
    parts of the standard library (\<open>from_chars\<close>, \<open>find\<close>, \<open>rfind\<close>, byte order) they rely on.
  \<^item> Egress, RingFifo: what a subscriber channel promises: numbers 1, 2, 3, \<dots> and an end; and the
    locale of bounded FIFO rings both channels interpret.
  \<^item> OrderBookChannel: \<open>g7/order_book_publication.{hpp,cpp}\<close>. Operation by operation refinement of
    the egress protocol, staging, slow consumers, closing.
  \<^item> EventChannel, EventPublication: \<open>g9/event_publication.{hpp,cpp}\<close>. The channel, and the hub
    with its channels in a store of objects.
  \<^item> RuntimeTypes, MarketRuntime, RuntimeOwner: \<open>g3/market_runtime.{hpp,cpp}\<close>,
    \<open>g3/snapshot_protocol.hpp\<close>: the state, the operations of the clients, and the owner thread.
    RuntimeInvariant, RuntimeSystem, RuntimeAdmission, RuntimeReach: the step relation, the frame
    lemmas and the invariants; RuntimeProperties and RuntimeRuns: the properties of states and of
    runs.
  \<^item> RecoveryPolicy, RecoveryCoordinator: \<open>g5/spot_recovery.cpp\<close>, \<open>g5/recovery_coordinator.hpp\<close>,
    \<open>g6/planned_rotation.hpp\<close>: the failure policy and history, and the coordinator thread as a
    machine with its \<open>coordinator_loop\<close> cut at every look at the shutdown flag and every wait.
    RecoverySystem: what a step of the thread can do. RecoveryInvariant: all threads, the policy
    invariant. SourceGenerations: the contract with the owner of the source generations (locale
    \<open>source_provider\<close>). RecoveryRuns, RecoveryProperties: runs of the thread and the properties.
  \<^item> ProductRuntime: the wiring of \<open>coordinator_options\<close>; the hub interprets \<open>source_provider\<close>.
  \<^item> Json, SpotProtocol, UsdmProtocol: JSON values, and every parser of
    \<open>g4/spot_protocol.{hpp,cpp}\<close> and \<open>g11/usdm_protocol.{hpp,cpp}\<close> over them; the text parser
    and \<open>DecimalScale::create\<close> are parameters. ProtocolProperties: the exchange's rendering of a
    depth update is parsed to itself, exactly which quanta are accepted, and that every accepted
    message belongs to its product and connection.
  \<^item> GatewayStatus: \<open>g10/gateway_status.{hpp,cpp}\<close>: the status snapshot over the observations of
    all products: exact counts, fresh event times, precedence of errors.
  \<^item> GrpcRequests, GrpcStreams, GrpcService, GrpcCalls, GrpcServer: \<open>g7/grpc_service.{hpp,cpp}\<close>: request
    validation and stream items, the serving loops, the tracked contexts and the status slot, both
    subscription handlers and the shutdown as threads, and the server host. Serving states what a
    channel promises to its handler (locale \<open>served_channel\<close>), which both channels interpret
    (GrpcStreams, GrpcEvents); GrpcShape: which item carries which number; GrpcGateway: all threads
    together, refining the protocol of GrpcService; GrpcProperties: the properties.
  \<^item> TransportRoutes, AsyncOperation, HttpsGet, MetadataRequest, WebSocket, TransportSession:
    \<open>g4/spot_transport.{hpp,cpp}\<close> and \<open>g11/usdm_transport.{hpp,cpp}\<close>: routes and configurations, the
    three asynchronous operations with their stage timers and their cancellation, the session on the
    network thread, start and stop. TransportInvariant: the invariant of the session and its
    interleavings. TransportRuns: what a run has called, and what is left to run.
    TransportProperties: exact accounting, one failure, the end of the network thread, and the
    window in which start and stop race. That a transport keeps its generation is the premise
    \<open>faithful_world\<close> of RecoveryInvariant about the attempts it observes.
  \<^item> ProductSets: construction of a product and of a configured set
    (\<open>g11/multi_market_runtime.{hpp,cpp}\<close>), exactly which specifications are accepted, and that the
    registry serves each key by its own product. ProductSteps: what a product's threads leave alone.
    ProductSetSystem: \<open>start\<close>, \<open>shutdown_publications\<close> and \<open>stop\<close> of a set and of its products, down
    to the calls on the parts, interleaved with all threads. ProductSetRuns: the invariant, that a stopped set is
    quiet, and that no wait of its lifecycle owner lasts.
  \<^item> DaemonConfig, ProductionMetadata: the command line and the configuration file of the daemon
    (\<open>production/daemon_config.{hpp,cpp}\<close>), exactly which files are accepted, the instrument metadata
    (\<open>production/production_metadata.{hpp,cpp}\<close>), and that what was accepted and resolved can be built.
  \<^item> ProductionGateway: \<open>production/production_gateway.{hpp,cpp}\<close>, the lifecycle around a set of products
    and a server; every path out of it leaves both stopped, a gateway that serves has seen all its
    products live, and a start ends.
  \<^item> DaemonDiagnostics, DaemonService: \<open>production/daemon_runtime.{hpp,cpp}\<close>,
    \<open>production/termination_signals.{hpp,cpp}\<close> and the program \<open>app/gatewayd/main.cpp\<close>: the diagnostics and a
    reader that gets them back, the signals, one run of the service, and the exit status. A run is a
    function of what it meets; a run that has not come to its end yet is the value \<open>StillRunning\<close>,
    and \<open>asked_program_ends\<close> says when it is not.
  \<^item> PerformanceBaseline: \<open>performance/performance_baseline.{hpp,cpp}\<close>, the trace buffer and its report; the
    evidence is exact whatever tokens the buffer is called with. SyntheticHost:
    \<open>g2/synthetic_spot_host.{hpp,cpp}\<close>, the deterministic host over the parameter \<open>projection_ops\<close>.
  \<^item> Foundation: \<open>src/src/{config,lifecycle}.cpp\<close> and their headers. MarketRegistry:
    \<open>g11/market_key.hpp\<close>, \<open>g11/market_registry.{hpp,cpp}\<close>.

  \<^bold>\<open>Conventions.\<close> Machine integers are words of their width; a sequence number that would wrap is
  refused as the code does. An object that is shared by address is its address in a store; an
  allocation is an argument that may be \<open>None\<close>. A clock reading, an answer of another object and
  the result of a wait are arguments of the step that uses them. An exception, a \<open>nullopt\<close> or an
  error result is a value of an option or sum type. Strings are lists of bytes.

  \<^bold>\<open>Bounds.\<close> No definition uses fuel. The coordinator thread's runs are bounded by a measure
  (138 steps without a live source, 3 after a shutdown request), and the runtime's drain after a stop by
  the pending work (RuntimeRuns).

  \<^bold>\<open>Not modelled.\<close> The order-book projection and the protobuf adapter come from another repository
  and are the parameter \<open>projection_ops\<close>, with no hypothesis on it but those a property names.
  Network I/O (Boost.Beast, TLS), gRPC and JSON parsing are third-party code. Generated protobuf
  classes are records or parameters. Threads, mutexes and condition variables are the atomicity of the
  steps. The performance-baseline instrumentation is compiled out by default and left out, as are
  test hooks. The applications under \<open>src/app\<close> are command-line drivers.
  Of the transports, Asio, Beast and OpenSSL appear through the completions of the operations that were
  started; which completion comes next is arbitrary. Not modelled: the acceptance programs under
  \<open>app/\<close> other than \<open>gatewayd\<close>, which drive the modelled classes against live endpoints and check
  what they print, and the calls of the performance baseline, which the default build leaves out of
  the components.
\<close>

end
